(* ===== verification/Prelude.thy ===== *)
theory Prelude
  imports Complex_Main "HOL-Library.AList" "HOL-Library.Char_ord" "HOL-Library.List_Lexorder"
begin

text \<open>
  Shared vocabulary of the development.

  \<^item> Errors. A Python function that may raise is a function into \<open>'e + 'a\<close>: \<open>Inl\<close> is the
    exception, \<open>Inr\<close> the returned value. \<open>bind_result\<close> sequences two such computations and
    \<open>checks\<close> is a run of statements \<open>if condition: raise error\<close> in source order, the first
    condition that holds deciding the error.
  \<^item> Dictionaries. A Python \<open>dict\<close> is an association list with distinct keys in insertion
    order: \<open>map_of\<close> reads it, \<open>AList.update\<close> assigns a key (in place when the key exists,
    at the end otherwise), and \<open>dict_values\<close> lists its values.
  \<^item> Character classes of the identifiers and digests the records carry.
\<close>

named_theorems result_simps "case analysis of computations that may raise"
named_theorems dict_simps "reading a dictionary after an assignment"

section \<open>Computations that may raise\<close>

definition bind_result :: "('e + 'a) \<Rightarrow> ('a \<Rightarrow> 'e + 'b) \<Rightarrow> 'e + 'b" where
  "bind_result m k = (case m of Inl e \<Rightarrow> Inl e | Inr x \<Rightarrow> k x)"

fun checks :: "(bool \<times> 'e) list \<Rightarrow> 'e + 'a \<Rightarrow> 'e + 'a" where
  "checks [] k = k"
| "checks ((c, e) # gs) k = (if c then Inl e else checks gs k)"

fun guards_pass :: "(bool \<times> 'e) list \<Rightarrow> bool" where
  "guards_pass [] = True"
| "guards_pass ((c, e) # gs) = (\<not> c \<and> guards_pass gs)"

fun map_result :: "('a \<Rightarrow> 'e + 'b) \<Rightarrow> 'a list \<Rightarrow> 'e + 'b list" where
  "map_result f [] = Inr []"
| "map_result f (x # xs) =
     bind_result (f x) (\<lambda>y. bind_result (map_result f xs) (\<lambda>ys. Inr (y # ys)))"

fun fold_result :: "('a \<Rightarrow> 's \<Rightarrow> 'e + 's) \<Rightarrow> 'a list \<Rightarrow> 's \<Rightarrow> 'e + 's" where
  "fold_result f [] s = Inr s"
| "fold_result f (x # xs) s = bind_result (f x s) (\<lambda>s'. fold_result f xs s')"

lemma bind_result_simps [simp]:
  "bind_result (Inl e) k = Inl e"
  "bind_result (Inr x) k = k x"
  by (simp_all add: bind_result_def)

lemma bind_result_Inr [result_simps]:
  "bind_result m k = Inr y \<longleftrightarrow> (\<exists>x. m = Inr x \<and> k x = Inr y)"
  by (cases m) (auto simp: bind_result_def)

lemma bind_result_Inl [result_simps]:
  "bind_result m k = Inl e \<longleftrightarrow> m = Inl e \<or> (\<exists>x. m = Inr x \<and> k x = Inl e)"
  by (cases m) (auto simp: bind_result_def)

lemma checks_Inr [result_simps]:
  "checks gs k = Inr y \<longleftrightarrow> guards_pass gs \<and> k = Inr y"
  by (induction gs rule: guards_pass.induct) (auto simp: checks.simps)

declare checks.simps [simp del]

lemmas checks_eval = checks.simps

lemma checks_pass: "guards_pass gs \<Longrightarrow> checks gs k = k"
  by (induction gs rule: guards_pass.induct) (auto simp: checks.simps)

lemma fold_result_append:
  "fold_result f (xs @ ys) s = bind_result (fold_result f xs s) (fold_result f ys)"
  by (induction xs arbitrary: s) (auto simp: bind_result_def split: sum.splits)

lemma fold_result_invariant:
  assumes "fold_result f xs s = Inr s'" and "P s"
    and "\<And>x s s'. x \<in> set xs \<Longrightarrow> P s \<Longrightarrow> f x s = Inr s' \<Longrightarrow> P s'"
  shows "P s'"
  using assms
proof (induction xs arbitrary: s)
  case Nil
  then show ?case by simp
next
  case (Cons x xs)
  from Cons.prems(1) obtain s1 where s1: "f x s = Inr s1" and rest: "fold_result f xs s1 = Inr s'"
    by (auto simp: result_simps)
  have "P s1" using Cons.prems(2,3) s1 by auto
  with rest show ?case using Cons.prems(3) by (intro Cons.IH) auto
qed

section \<open>Dictionaries\<close>

type_synonym ('k, 'v) dict = "('k \<times> 'v) list"

abbreviation dict_get :: "('k, 'v) dict \<Rightarrow> 'k \<Rightarrow> 'v option" where
  "dict_get d \<equiv> map_of d"

definition dict_set :: "'k \<Rightarrow> 'v \<Rightarrow> ('k, 'v) dict \<Rightarrow> ('k, 'v) dict" where
  "dict_set = AList.update"

definition dict_values :: "('k, 'v) dict \<Rightarrow> 'v list" where
  "dict_values d = map snd d"

definition dict_wf :: "('k, 'v) dict \<Rightarrow> bool" where
  "dict_wf d = distinct (map fst d)"

definition has_key :: "('k, 'v) dict \<Rightarrow> 'k \<Rightarrow> bool" where
  "has_key d k = (map_of d k \<noteq> None)"

lemma dict_get_set [simp, dict_simps]: "dict_get (dict_set k v d) = (dict_get d)(k \<mapsto> v)"
  by (simp add: dict_set_def update_conv')

lemma dict_wf_empty [simp]: "dict_wf []"
  by (simp add: dict_wf_def)

lemma dict_wf_set [simp]: "dict_wf d \<Longrightarrow> dict_wf (dict_set k v d)"
  by (simp add: dict_wf_def dict_set_def distinct_update)

lemma has_key_set [simp]: "has_key (dict_set k v d) j \<longleftrightarrow> j = k \<or> has_key d j"
  by (auto simp: has_key_def)

lemma has_key_iff: "has_key d k \<longleftrightarrow> k \<in> fst ` set d"
  by (simp add: has_key_def map_of_eq_None_iff)

lemma not_has_key_get [simp]: "\<not> has_key d k \<Longrightarrow> dict_get d k = None"
  by (simp add: has_key_def)

lemma dict_values_empty [simp]: "dict_values [] = []"
  by (simp add: dict_values_def)

lemma dict_set_fresh: "\<not> has_key d k \<Longrightarrow> dict_set k v d = d @ [(k, v)]"
  unfolding dict_set_def has_key_iff by (induction d) auto

lemma dict_values_set_fresh:
  "\<not> has_key d k \<Longrightarrow> dict_values (dict_set k v d) = dict_values d @ [v]"
  by (simp add: dict_set_fresh dict_values_def)

lemma dict_get_in_values: "dict_get d k = Some v \<Longrightarrow> v \<in> set (dict_values d)"
  by (force simp: dict_values_def dest: map_of_SomeD)

lemma in_dict_values_iff:
  "dict_wf d \<Longrightarrow> v \<in> set (dict_values d) \<longleftrightarrow> (\<exists>k. dict_get d k = Some v)"
  by (force simp: dict_values_def dict_wf_def dest: map_of_SomeD)

lemma dict_item_get: "dict_wf d \<Longrightarrow> (k, v) \<in> set d \<longleftrightarrow> dict_get d k = Some v"
  by (simp add: dict_wf_def)

lemma set_dict_values_set:
  "set (dict_values (dict_set k v d)) \<subseteq> insert v (set (dict_values d))"
  by (induction d) (auto simp: dict_set_def dict_values_def)

lemma dict_split:
  assumes "dict_wf d" and "dict_get d k = Some v"
  obtains xs ys where "d = xs @ (k, v) # ys" and "\<not> has_key xs k" and "\<not> has_key ys k"
proof -
  from assms(2) have "(k, v) \<in> set d" by (rule map_of_SomeD)
  then obtain xs ys where d: "d = xs @ (k, v) # ys" by (auto simp: in_set_conv_decomp)
  with assms(1) have "\<not> has_key xs k" "\<not> has_key ys k"
    by (auto simp: dict_wf_def has_key_iff)
  with d that show ?thesis by blast
qed

lemma dict_set_split:
  "\<not> has_key xs k \<Longrightarrow> dict_set k w (xs @ (k, v) # ys) = xs @ (k, w) # ys"
  unfolding dict_set_def has_key_iff by (induction xs) auto

lemma sum_list_dict_set_old:
  fixes f :: "'v \<Rightarrow> 'n::ab_group_add"
  assumes "dict_wf d" and "dict_get d k = Some v"
  shows "(\<Sum>x\<leftarrow>dict_values (dict_set k w d). f x) = (\<Sum>x\<leftarrow>dict_values d. f x) - f v + f w"
proof -
  obtain xs ys where "d = xs @ (k, v) # ys" "\<not> has_key xs k"
    using assms by (rule dict_split)
  then show ?thesis by (simp add: dict_set_split dict_values_def algebra_simps)
qed

lemma sum_list_dict_set_new:
  fixes f :: "'v \<Rightarrow> 'n::ab_group_add"
  assumes "\<not> has_key d k"
  shows "(\<Sum>x\<leftarrow>dict_values (dict_set k w d). f x) = (\<Sum>x\<leftarrow>dict_values d. f x) + f w"
  using assms by (simp add: dict_values_set_fresh)

section \<open>Identifiers and digests\<close>

type_synonym uuid = nat
type_synonym digest = string
type_synonym timestamp = int

text \<open>
  A UUID is the 128-bit integer \<open>UUID.int\<close>; \<open>UUID.version\<close> is 4 when the RFC 4122 variant
  bits are \<open>10\<close> and the version nibble is 4. A UTC timestamp is its number of microseconds.
\<close>

definition uuid4 :: "uuid \<Rightarrow> bool" where
  "uuid4 u \<longleftrightarrow> u < 2 ^ 128 \<and> (u div 2 ^ 62) mod 4 = 2 \<and> (u div 2 ^ 76) mod 16 = 4"

definition hex_chars :: string where
  "hex_chars = ''0123456789abcdef''"

definition sha256_digest :: "string \<Rightarrow> bool" where
  "sha256_digest s \<longleftrightarrow> length s = 64 \<and> list_all (\<lambda>c. c \<in> set hex_chars) s"

definition ascii_alnum :: "char \<Rightarrow> bool" where
  "ascii_alnum c \<longleftrightarrow> c \<in> set ''ABCDEFGHIJKLMNOPQRSTUVWXYZabcdefghijklmnopqrstuvwxyz0123456789''"

text \<open>\<open>ComponentIdentifier\<close>: \<open>^[A-Za-z0-9_][A-Za-z0-9._:/+\-]*$\<close>, 1 to 256 characters.\<close>

definition component_identifier :: "string \<Rightarrow> bool" where
  "component_identifier s \<longleftrightarrow>
     s \<noteq> [] \<and> length s \<le> 256 \<and>
     (ascii_alnum (hd s) \<or> hd s = CHR ''_'') \<and>
     list_all (\<lambda>c. ascii_alnum c \<or> c \<in> set ''._:/+-'') (tl s)"

definition max_signed_64 :: int where
  "max_signed_64 = 2 ^ 63 - 1"

end
