(* ===== verification/Enums.thy ===== *)
theory Enums
  imports Prelude
begin

text \<open>
  The enumerations of \<open>domain/enums.py\<close>, one datatype per class in the order of the file. A
  member \<open>M\<close> of class \<open>C\<close> is the constructor \<open>P_M\<close>, where the prefix \<open>P\<close> tells the classes
  apart (several of them share member names). The string values appear where the code hashes or
  sorts by them.
\<close>

datatype (plugins only: code size) event_type =
    Event_RUN_START
  | Event_RUN_END
  | Event_MODEL_OUTPUT
  | Event_ACTION_PROPOSAL
  | Event_TOOL_START
  | Event_TOOL_COMPLETION
  | Event_OBSERVATION
  | Event_CONTROLLER_ERROR

datatype (plugins only: code size) event_phase =
    Phase_INITIALIZATION
  | Phase_PRE_ACTION
  | Phase_ACTION_EXECUTION
  | Phase_POST_ACTION
  | Phase_TERMINAL
  | Phase_INTERNAL

datatype (plugins only: code size) signal_type =
    Signal_TOOL_ERROR
  | Signal_TEST_FAILURE
  | Signal_REPEATED_ACTION
  | Signal_REPEATED_FAILURE
  | Signal_CONTEXT_SHIFT
  | Signal_STALE_CONSTRAINT
  | Signal_STAGNATION
  | Signal_IRREVERSIBLE_ACTION
  | Signal_CONFLICT

datatype (plugins only: code size) memory_kind =
    Kind_PRIVATE_STATUS
  | Kind_KNOWLEDGE
  | Kind_PROCEDURAL

datatype (plugins only: code size) validity_state =
    Validity_ACTIVE
  | Validity_INVALIDATED
  | Validity_EXPIRED
  | Validity_SUPERSEDED

datatype (plugins only: code size) cycle_state =
    Cycle_PENDING
  | Cycle_RESERVED
  | Cycle_RUNNING
  | Cycle_COMMITTED
  | Cycle_FAILED

datatype (plugins only: code size) intervention_action =
    Action_SILENCE
  | Action_REMIND

datatype (plugins only: code size) delivery_target =
    Target_NEXT_MODEL_CALL
  | Target_PRE_ACTION_REPLAN

datatype (plugins only: code size) delivery_state =
    Delivery_PENDING
  | Delivery_CLAIMED
  | Delivery_ATTEMPTING
  | Delivery_DELIVERED
  | Delivery_FAILED
  | Delivery_UNKNOWN
  | Delivery_REJECTED

datatype (plugins only: code size) delivery_outcome =
    Outcome_DELIVERED
  | Outcome_FAILED
  | Outcome_UNKNOWN
  | Outcome_REFUSED

datatype (plugins only: code size) deduplication_guarantee =
    Dedup_AT_MOST_ONCE_ATTEMPT
  | Dedup_DURABLE_DELIVERY_ID

datatype (plugins only: code size) payload_digest_algorithm =
    Alg_HMAC_SHA256
  | Alg_SYNTHETIC_SHA256

datatype (plugins only: code size) expiration_action =
    Expire_KEEP
  | Expire_SET
  | Expire_CLEAR

datatype (plugins only: code size) trust_label =
    Trust_TRUSTED_RUNTIME
  | Trust_TRUSTED_CONTROLLER
  | Trust_UNTRUSTED_TASK_INPUT
  | Trust_UNTRUSTED_TOOL_OUTPUT
  | Trust_UNTRUSTED_MODEL_OUTPUT
  | Trust_UNTRUSTED_EXTERNAL_MEMORY
  | Trust_SYNTHETIC_FIXTURE

datatype (plugins only: code size) evidence_source =
    Source_EVENT
  | Source_MEMORY

datatype (plugins only: code size) claim_kind =
    Claim_REQUIREMENT
  | Claim_ENVIRONMENT_FACT
  | Claim_FAILED_ATTEMPT
  | Claim_DIAGNOSIS
  | Claim_OPEN_SUBGOAL

datatype (plugins only: code size) repeated_error_status =
    RepErr_AVOIDED
  | RepErr_REPEATED
  | RepErr_NOT_OBSERVED
  | RepErr_UNKNOWN

datatype (plugins only: code size) constraint_status =
    Constraint_RESPECTED
  | Constraint_VIOLATED
  | Constraint_NOT_OBSERVED
  | Constraint_UNKNOWN

datatype (plugins only: code size) utility_label =
    Utility_HELPFUL
  | Utility_HARMFUL
  | Utility_REDUNDANT
  | Utility_UNRESOLVED

datatype (plugins only: code size) outcome_evidence_mode =
    Mode_LIVE_OBSERVATION
  | Mode_DETERMINISTIC_ORACLE
  | Mode_PAIRED_ROLLOUT
  | Mode_POLICY_REPLAY

datatype (plugins only: code size) reason_code =
    Reason_BOOTSTRAP
  | Reason_POLICY_ALWAYS
  | Reason_POLICY_NEVER
  | Reason_SCRIPTED_INVOKE
  | Reason_SCRIPTED_SILENCE
  | Reason_SCRIPT_EXHAUSTED
  | Reason_BUDGET_EXHAUSTED
  | Reason_COOLDOWN_ACTIVE
  | Reason_WATCHDOG
  | Reason_HARD_SIGNAL
  | Reason_RISK_THRESHOLD_MET
  | Reason_RISK_BELOW_THRESHOLD
  | Reason_TOOL_ERROR
  | Reason_TEST_FAILURE
  | Reason_REPEATED_ACTION
  | Reason_REPEATED_FAILURE
  | Reason_CONTEXT_SHIFT
  | Reason_STALE_CONSTRAINT
  | Reason_STAGNATION
  | Reason_IRREVERSIBLE_ACTION
  | Reason_CONFLICT
  | Reason_MANDATORY_INPUT_OVERFLOW
  | Reason_REMINDER_ACCEPTED
  | Reason_SILENCE_SELECTED
  | Reason_GROUNDED_REMINDER
  | Reason_NO_GROUNDED_CLAIMS
  | Reason_UNGROUNDED
  | Reason_INVALID_PROVENANCE
  | Reason_CITATION_MISSING
  | Reason_CITATION_CROSS_RUN
  | Reason_CITATION_EXPIRED
  | Reason_CITATION_INVALIDATED
  | Reason_CLAIM_OVER_LIMIT
  | Reason_DUPLICATE_REMINDER
  | Reason_COOLDOWN_BLOCKED
  | Reason_UNSUPPORTED_DELIVERY_TARGET
  | Reason_UNSUPPORTED_DELIVERY_CHANNEL
  | Reason_UNSAFE_ROLE_MAPPING
  | Reason_TARGET_UNAVAILABLE
  | Reason_DELIVERY_SUCCEEDED
  | Reason_DELIVERY_FAILED
  | Reason_DELIVERY_UNKNOWN
  | Reason_SCHEMA_INVALID
  | Reason_INVALID_STRUCTURED_OUTPUT
  | Reason_MODEL_ERROR
  | Reason_MODEL_TIMEOUT
  | Reason_MEMORY_CONFLICT
  | Reason_REPOSITORY_UNAVAILABLE
  | Reason_SOURCE_EVENT_COLLISION
  | Reason_FAILED_UNKNOWN_COST
  | Reason_NO_INTERVENTION

text \<open>\<open>ReasonCode(signal_type.value)\<close>: every signal type names the reason code of the same value.\<close>

fun signal_reason :: "signal_type \<Rightarrow> reason_code" where
  "signal_reason Signal_TOOL_ERROR = Reason_TOOL_ERROR"
| "signal_reason Signal_TEST_FAILURE = Reason_TEST_FAILURE"
| "signal_reason Signal_REPEATED_ACTION = Reason_REPEATED_ACTION"
| "signal_reason Signal_REPEATED_FAILURE = Reason_REPEATED_FAILURE"
| "signal_reason Signal_CONTEXT_SHIFT = Reason_CONTEXT_SHIFT"
| "signal_reason Signal_STALE_CONSTRAINT = Reason_STALE_CONSTRAINT"
| "signal_reason Signal_STAGNATION = Reason_STAGNATION"
| "signal_reason Signal_IRREVERSIBLE_ACTION = Reason_IRREVERSIBLE_ACTION"
| "signal_reason Signal_CONFLICT = Reason_CONFLICT"

fun target_value :: "delivery_target \<Rightarrow> string" where
  "target_value Target_NEXT_MODEL_CALL = ''next_model_call''"
| "target_value Target_PRE_ACTION_REPLAN = ''pre_action_replan''"

fun memory_kind_value :: "memory_kind \<Rightarrow> string" where
  "memory_kind_value Kind_PRIVATE_STATUS = ''private_status''"
| "memory_kind_value Kind_KNOWLEDGE = ''knowledge''"
| "memory_kind_value Kind_PROCEDURAL = ''procedural''"

end
