(* ===== verification/Json.thy ===== *)
theory Json
  imports Prelude
begin

text \<open>
  JSON values carried by the runtime records (\<open>domain/records.py\<close>) and the structural bound
  put on them before they are frozen or serialised.

  A string is its UTF-8 encoding, so \<open>length\<close> is \<open>len(value.encode("utf-8"))\<close>; a finite
  float is the rational it denotes and \<open>JFloat None\<close> is an infinity or NaN. An object is
  listed with its keys sorted, so that equality of values is equality of the mappings.
  \<open>json_is_bounded\<close> is the code's work-list loop with its running byte and node budgets;
  the lemmas show that it decides three plain recursive measures of the value.
\<close>

datatype (plugins only: code size) json =
    JNull
  | JBool bool
  | JInt int
  | JFloat "rat option"
  | JStr string
  | JArr "json list"
  | JObj "(string \<times> json) list"

fun bit_length :: "nat \<Rightarrow> nat" where
  "bit_length n = (if n = 0 then 0 else Suc (bit_length (n div 2)))"

declare bit_length.simps [simp del]

definition int_cost :: "int \<Rightarrow> int" where
  "int_cost i = max 2 (int (bit_length (nat \<bar>i\<bar>)) div 3 + 2)"

definition keys_cost :: "(string \<times> json) list \<Rightarrow> int" where
  "keys_cost kvs = (\<Sum>(k, v)\<leftarrow>kvs. int (length k) + 3)"

text \<open>
  What one iteration subtracts from \<open>remaining\<close>, and the children it pushes. \<open>None\<close> is an
  item the loop refuses at once.
\<close>

fun item_cost :: "json \<Rightarrow> int option" where
  "item_cost (JObj kvs) = Some (2 + int (length kvs) * 2 + keys_cost kvs)"
| "item_cost (JArr xs) = Some (2 + int (length xs))"
| "item_cost (JStr s) = Some (int (length s) + 2)"
| "item_cost JNull = Some 5"
| "item_cost (JBool b) = Some 5"
| "item_cost (JInt i) = Some (int_cost i)"
| "item_cost (JFloat (Some q)) = Some 32"
| "item_cost (JFloat None) = None"

fun children :: "json \<Rightarrow> json list" where
  "children (JObj kvs) = map snd kvs"
| "children (JArr xs) = xs"
| "children _ = []"

definition stack_size :: "(json \<times> int) list \<Rightarrow> nat" where
  "stack_size st = (\<Sum>(v, d)\<leftarrow>st. Suc (size v))"

lemma size_children: "(\<Sum>c\<leftarrow>children v. Suc (size c)) \<le> size v"
proof (cases v)
  case (JObj kvs)
  have "(\<Sum>c\<leftarrow>map snd kvs. Suc (size c)) \<le> size_list (size_prod (\<lambda>_. 0) size) kvs"
    by (induction kvs) auto
  with JObj show ?thesis by simp
next
  case (JArr xs)
  have "(\<Sum>c\<leftarrow>xs. Suc (size c)) \<le> size_list size xs" by (induction xs) auto
  with JArr show ?thesis by simp
qed auto

lemma child_size: "c \<in> set (children v) \<Longrightarrow> size c < size v"
  using size_children [of v] member_le_sum_list [of "Suc (size c)" "map (\<lambda>c. Suc (size c)) (children v)"]
  by fastforce

lemma stack_size_push:
  "stack_size (rev (map (\<lambda>c. (c, d)) (children v)) @ st) < stack_size ((v, e) # st)"
proof -
  have "stack_size (rev (map (\<lambda>c. (c, d)) (children v))) = (\<Sum>c\<leftarrow>children v. Suc (size c))"
    by (simp add: stack_size_def rev_map [symmetric] o_def sum_list_rev)
  then show ?thesis using size_children [of v] by (simp add: stack_size_def)
qed

text \<open>
  The loop of \<open>_json_is_bounded\<close>: the head of \<open>st\<close> is the top of its stack, \<open>remaining\<close> and
  \<open>nodes\<close> its two counters. Children are pushed in order, so the last one is popped first. The price
  of one item is an argument, because \<open>_bounded_json\<close> of \<open>policy/config.py\<close> runs the same loop with
  other prices for text.
\<close>

type_synonym item_price = "json \<Rightarrow> int option"

function bounded_loop :: "item_price \<Rightarrow> int \<Rightarrow> int \<Rightarrow> int \<Rightarrow> int \<Rightarrow> (json \<times> int) list \<Rightarrow> bool" where
  "bounded_loop price max_nodes max_depth remaining nodes [] = True"
| "bounded_loop price max_nodes max_depth remaining nodes ((item, depth) # st) =
     (if nodes + 1 > max_nodes \<or> depth > max_depth then False
      else if int (length (children item)) > max_nodes - (nodes + 1) - int (length st) then False
      else case price item of
             None \<Rightarrow> False
           | Some c \<Rightarrow>
               if remaining - c < 0 then False
               else bounded_loop price max_nodes max_depth (remaining - c) (nodes + 1)
                      (rev (map (\<lambda>v. (v, depth + 1)) (children item)) @ st))"
  by pat_completeness auto
termination
  by (relation "measure (\<lambda>(_, _, _, _, _, st). stack_size st)") (auto simp: stack_size_push)

definition json_is_bounded :: "int \<Rightarrow> int \<Rightarrow> int \<Rightarrow> json \<Rightarrow> bool" where
  "json_is_bounded max_bytes max_nodes max_depth value =
     bounded_loop item_cost max_nodes max_depth max_bytes 0 [(value, 0)]"

definition max_trace_event_payload_bytes :: int where
  "max_trace_event_payload_bytes = 1024 * 1024"

definition max_trace_event_payload_nodes :: int where
  "max_trace_event_payload_nodes = 50000"

definition max_trace_event_payload_depth :: int where
  "max_trace_event_payload_depth = 64"

definition trace_event_payload_is_bounded :: "json \<Rightarrow> bool" where
  "trace_event_payload_is_bounded value =
     json_is_bounded max_trace_event_payload_bytes max_trace_event_payload_nodes
       max_trace_event_payload_depth value"

section \<open>What the loop decides\<close>

text \<open>The number of values, the nesting depth, the byte cost and finiteness of a value.\<close>

function json_nodes :: "json \<Rightarrow> int" where
  "json_nodes v = 1 + (\<Sum>c\<leftarrow>children v. json_nodes c)"
  by pat_completeness auto

termination json_nodes
  by (relation "measure size") (auto simp: child_size)

function json_fits_depth :: "int \<Rightarrow> json \<Rightarrow> bool" where
  "json_fits_depth d v = (0 \<le> d \<and> list_all (json_fits_depth (d - 1)) (children v))"
  by pat_completeness auto
termination
  by (relation "measure (\<lambda>(d, v). size v)") (auto simp: child_size)

function json_finite :: "json \<Rightarrow> bool" where
  "json_finite v = (item_cost v \<noteq> None \<and> list_all json_finite (children v))"
  by pat_completeness auto
termination
  by (relation "measure size") (auto simp: child_size)

function json_cost :: "item_price \<Rightarrow> json \<Rightarrow> int" where
  "json_cost price v = (case price v of None \<Rightarrow> 0 | Some c \<Rightarrow> c) + (\<Sum>c\<leftarrow>children v. json_cost price c)"
  by pat_completeness auto
termination
  by (relation "measure (\<lambda>(price, v). size v)") (auto simp: child_size)

declare bounded_loop.simps(2) [simp del]
declare json_nodes.simps [simp del] json_fits_depth.simps [simp del]
declare json_finite.simps [simp del] json_cost.simps [simp del]

lemma item_cost_nonneg: "item_cost v = Some c \<Longrightarrow> 0 \<le> c"
proof (induction v arbitrary: c rule: item_cost.induct)
  case (1 kvs)
  have "0 \<le> keys_cost kvs" by (induction kvs) (auto simp: keys_cost_def)
  with 1 show ?case by simp
qed (auto simp: int_cost_def)

lemma json_nodes_pos: "1 \<le> json_nodes v"
proof (induction v rule: json_nodes.induct)
  case (1 v)
  have "0 \<le> (\<Sum>c\<leftarrow>children v. json_nodes c)"
    using 1 by (intro sum_list_nonneg) force
  then show ?case by (simp add: json_nodes.simps [of v])
qed

text \<open>A price list refuses what is not a finite number, and only that.\<close>

definition fair_price :: "item_price \<Rightarrow> bool" where
  "fair_price price \<longleftrightarrow> (\<forall>v. (price v = None) = (item_cost v = None)) \<and> (\<forall>v c. price v = Some c \<longrightarrow> 0 \<le> c)"

lemma fair_item_cost: "fair_price item_cost"
  by (simp add: fair_price_def item_cost_nonneg)

lemma json_cost_nonneg:
  assumes "fair_price price"
  shows "0 \<le> json_cost price v"
proof (induction v rule: json_finite.induct)
  case (1 v)
  have "0 \<le> (\<Sum>c\<leftarrow>children v. json_cost price c)"
    using 1 by (intro sum_list_nonneg) force
  then show ?case
    using assms by (auto simp: json_cost.simps [of price v] fair_price_def split: option.split)
qed

lemma length_le_sum_nodes: "int (length st) \<le> (\<Sum>(v, d)\<leftarrow>st. json_nodes v)"
proof (induction st)
  case (Cons x st)
  then show ?case using json_nodes_pos [of "fst x"] by (simp add: case_prod_beta)
qed simp

lemma sum_cost_nonneg: "fair_price price \<Longrightarrow> 0 \<le> (\<Sum>(v, d)\<leftarrow>st. json_cost price v)"
  by (intro sum_list_nonneg) (auto simp: json_cost_nonneg)

definition stack_fits :: "item_price \<Rightarrow> int \<Rightarrow> int \<Rightarrow> int \<Rightarrow> int \<Rightarrow> (json \<times> int) list \<Rightarrow> bool" where
  "stack_fits price max_nodes max_depth remaining nodes st \<longleftrightarrow>
     nodes + (\<Sum>(v, d)\<leftarrow>st. json_nodes v) \<le> max_nodes \<and>
     (\<Sum>(v, d)\<leftarrow>st. json_cost price v) \<le> remaining \<and>
     list_all (\<lambda>(v, d). json_fits_depth (max_depth - d) v \<and> json_finite v) st"

lemma stack_fits_pop:
  assumes "fair_price price" and "price v = Some c"
  shows "stack_fits price N D R n ((v, d) # st) \<longleftrightarrow>
    d \<le> D \<and> stack_fits price N D (R - c) (n + 1) (rev (map (\<lambda>v. (v, d + 1)) (children v)) @ st)"
proof -
  have nodes: "(\<Sum>(v, d)\<leftarrow>rev (map (\<lambda>v. (v, e)) (children v)). json_nodes v) =
      (\<Sum>c\<leftarrow>children v. json_nodes c)" for e :: int
    by (simp add: rev_map [symmetric] o_def sum_list_rev)
  have cost: "(\<Sum>(v, d)\<leftarrow>rev (map (\<lambda>v. (v, e)) (children v)). json_cost price v) =
      (\<Sum>c\<leftarrow>children v. json_cost price c)" for e :: int
    by (simp add: rev_map [symmetric] o_def sum_list_rev)
  have "item_cost v \<noteq> None" using assms unfolding fair_price_def by (metis option.distinct(1))
  then show ?thesis
    using assms(2)
    by (auto simp: stack_fits_def nodes cost json_nodes.simps [of v] json_cost.simps [of price v]
        json_finite.simps [of v] json_fits_depth.simps [of "D - d" v] list_all_iff algebra_simps)
qed

lemma bounded_loop_iff:
  assumes "fair_price price" and "n + int (length st) \<le> N" and "0 \<le> R"
  shows "bounded_loop price N D R n st \<longleftrightarrow> stack_fits price N D R n st"
  using assms
proof (induction price N D R n st rule: bounded_loop.induct)
  case (1 price N D R n)
  then show ?case by (simp add: stack_fits_def)
next
  case (2 price N D R n item depth st)
  let ?st = "rev (map (\<lambda>v. (v, depth + 1)) (children item)) @ st"
  show ?case
  proof (cases "price item")
    case None
    then have "item_cost item = None" using "2.prems"(1) unfolding fair_price_def by blast
    with None show ?thesis
      by (simp add: bounded_loop.simps(2) stack_fits_def json_finite.simps [of item])
  next
    case (Some c)
    note pop = stack_fits_pop [OF "2.prems"(1) Some, of N D R n depth st]
    have c: "0 \<le> c" using Some "2.prems"(1) unfolding fair_price_def by blast
    have fits: "stack_fits price N D (R - c) (n + 1) ?st \<Longrightarrow>
        n + 1 + int (length ?st) \<le> N \<and> 0 \<le> R - c"
      using length_le_sum_nodes [of ?st] sum_cost_nonneg [OF "2.prems"(1), of ?st] by (auto simp: stack_fits_def)
    have step: "bounded_loop price N D R n ((item, depth) # st) \<longleftrightarrow>
        depth \<le> D \<and> n + 1 + int (length ?st) \<le> N \<and> 0 \<le> R - c \<and>
        bounded_loop price N D (R - c) (n + 1) ?st"
      using Some "2.prems" by (auto simp: bounded_loop.simps(2))
    have IH: "depth \<le> D \<Longrightarrow> n + 1 + int (length ?st) \<le> N \<Longrightarrow> 0 \<le> R - c \<Longrightarrow>
        bounded_loop price N D (R - c) (n + 1) ?st = stack_fits price N D (R - c) (n + 1) ?st"
      using "2.prems" Some by (intro "2.IH") auto
    show ?thesis using step pop fits IH by blast
  qed
qed

text \<open>
  The budgeted work-list loop that guards every trace payload accepts a value exactly when
  its number of nodes, its depth and its total byte cost are within the three limits and all its
  floats are finite: the early exits and the running counters lose nothing and admit nothing.
\<close>

theorem trace_payload_bound_exact:
  "trace_event_payload_is_bounded v \<longleftrightarrow>
     json_nodes v \<le> max_trace_event_payload_nodes \<and>
     json_cost item_cost v \<le> max_trace_event_payload_bytes \<and>
     json_fits_depth max_trace_event_payload_depth v \<and> json_finite v"
  by (simp add: trace_event_payload_is_bounded_def json_is_bounded_def bounded_loop_iff fair_item_cost
      stack_fits_def max_trace_event_payload_nodes_def max_trace_event_payload_bytes_def)

end
