(* ===== verification/Digests.thy ===== *)
theory Digests
  imports Enums
begin

unbundle bit_operations_syntax

text \<open>
  Identities derived from content (\<open>domain/ids.py\<close>): the length-prefixed framing, the cycle
  identity and the delivery identity.

  \<open>hashlib.sha256(data).hexdigest()\<close> is the argument \<open>H\<close> of every definition here: an arbitrary
  function from byte strings to text. What the code relies on, that the text is 64 lowercase
  hexadecimal digits, is the predicate \<open>hex_digest\<close>. Strings are byte strings, the UTF-8 encoding
  the code hashes. A \<open>ValueError\<close> is \<open>Inl\<close> of its message.
\<close>

type_synonym hash_fun = "string \<Rightarrow> string"

definition hex_digest :: "hash_fun \<Rightarrow> bool" where
  "hex_digest H \<longleftrightarrow> (\<forall>data. sha256_digest (H data))"

section \<open>Text of integers and identifiers\<close>

fun hex_pad :: "nat \<Rightarrow> nat \<Rightarrow> string" where
  "hex_pad 0 n = []"
| "hex_pad (Suc w) n = hex_pad w (n div 16) @ [hex_chars ! (n mod 16)]"

definition uuid_str :: "uuid \<Rightarrow> string" where
  "uuid_str u = (let h = hex_pad 32 u in
     take 8 h @ ''-'' @ take 4 (drop 8 h) @ ''-'' @ take 4 (drop 12 h) @ ''-'' @
     take 4 (drop 16 h) @ ''-'' @ drop 20 h)"

fun dec_nat :: "nat \<Rightarrow> string" where
  "dec_nat n = (if n < 10 then [''0123456789'' ! n]
                else dec_nat (n div 10) @ [''0123456789'' ! (n mod 10)])"

declare dec_nat.simps [simp del]

definition dec_str :: "int \<Rightarrow> string" where
  "dec_str i = (if i < 0 then ''-'' @ dec_nat (nat (- i)) else dec_nat (nat i))"

section \<open>Framing\<close>

fun be_bytes :: "nat \<Rightarrow> nat \<Rightarrow> string" where
  "be_bytes 0 n = []"
| "be_bytes (Suc w) n = be_bytes w (n div 256) @ [char_of (n mod 256)]"

definition frame :: "string \<Rightarrow> string" where
  "frame part = be_bytes 8 (length part) @ part"

definition length_prefixed_sha256 :: "hash_fun \<Rightarrow> string \<Rightarrow> string list \<Rightarrow> digest" where
  "length_prefixed_sha256 H domain parts = H (concat (map frame (domain # parts)))"

definition content_digest :: "hash_fun \<Rightarrow> string list \<Rightarrow> digest" where
  "content_digest H parts = length_prefixed_sha256 H ''saliencegate:content:v1'' parts"

section \<open>Derived identities\<close>

definition cycle_id :: "hash_fun \<Rightarrow> uuid \<Rightarrow> int \<Rightarrow> int \<Rightarrow> string \<Rightarrow> digest \<Rightarrow> string \<Rightarrow> digest \<Rightarrow>
    delivery_target option \<Rightarrow> string + digest" where
  "cycle_id H run_id first_seq last_seq policy_version configuration_digest grounding_version
       grounding_configuration_digest requested_delivery_target =
     checks
       [(\<not> uuid4 run_id, ''run_id must be an exact UUID4 value''),
        (first_seq < 1, ''first_event_sequence must be positive''),
        (last_seq < first_seq, ''last_event_sequence must not precede first_event_sequence''),
        (policy_version = [], ''policy_version must be a non-empty exact string''),
        (\<not> sha256_digest configuration_digest,
           ''configuration_digest must be a lowercase SHA-256 digest''),
        (grounding_version = [], ''grounding_version must be a non-empty exact string''),
        (\<not> sha256_digest grounding_configuration_digest,
           ''grounding_configuration_digest must be a lowercase SHA-256 digest'')]
       (Inr (length_prefixed_sha256 H ''saliencegate:cycle:v2''
          [uuid_str run_id, dec_str first_seq, dec_str last_seq, policy_version, configuration_digest,
           grounding_version, grounding_configuration_digest,
           (case requested_delivery_target of
              None \<Rightarrow> ''none''
            | Some target \<Rightarrow> ''target:'' @ target_value target)]))"

definition hex_val :: "char \<Rightarrow> nat" where
  "hex_val c = (if CHR ''0'' \<le> c \<and> c \<le> CHR ''9'' then of_char c - 48 else of_char c - 87)"

fun from_hex :: "string \<Rightarrow> nat list" where
  "from_hex (a # b # cs) = (16 * hex_val a + hex_val b) # from_hex cs"
| "from_hex _ = []"

definition stamp_version :: "nat list \<Rightarrow> nat list" where
  "stamp_version raw =
     (let raw1 = raw[6 := (raw ! 6 AND 0x0F) OR 0x40] in raw1[8 := (raw1 ! 8 AND 0x3F) OR 0x80])"

fun from_be :: "nat \<Rightarrow> nat list \<Rightarrow> nat" where
  "from_be acc [] = acc"
| "from_be acc (b # bs) = from_be (acc * 256 + b) bs"

definition delivery_id :: "hash_fun \<Rightarrow> uuid \<Rightarrow> digest \<Rightarrow> uuid \<Rightarrow> string \<Rightarrow> delivery_target \<Rightarrow> string \<Rightarrow>
    digest \<Rightarrow> digest \<Rightarrow> string + uuid" where
  "delivery_id H run_id cycle_identifier intervention_id target_request_id target adapter_id
       adapter_capabilities_digest rendered_text_digest =
     checks
       [(\<not> uuid4 run_id, ''run_id must be an exact UUID4 value''),
        (\<not> uuid4 intervention_id, ''intervention_id must be an exact UUID4 value''),
        (cycle_identifier = [], ''cycle_identifier must be a non-empty exact string''),
        (target_request_id = [], ''target_request_id must be a non-empty exact string''),
        (adapter_id = [], ''adapter_id must be a non-empty exact string''),
        (\<not> sha256_digest cycle_identifier,
           ''cycle_identifier must be a lowercase SHA-256 digest''),
        (\<not> sha256_digest adapter_capabilities_digest,
           ''adapter_capabilities_digest must be a lowercase SHA-256 digest''),
        (\<not> sha256_digest rendered_text_digest,
           ''rendered_text_digest must be a lowercase SHA-256 digest'')]
       (let digest = length_prefixed_sha256 H ''saliencegate:delivery:v1''
              [uuid_str run_id, cycle_identifier, uuid_str intervention_id, target_request_id,
               target_value target, adapter_id, adapter_capabilities_digest,
               rendered_text_digest]
        in Inr (from_be 0 (stamp_version (take 16 (from_hex digest)))))"

section \<open>The framing does not alias\<close>

lemma length_be_bytes [simp]: "length (be_bytes w n) = w"
  by (induction w n rule: be_bytes.induct) auto

lemma be_bytes_inj: "be_bytes w m = be_bytes w n \<Longrightarrow> m mod 256 ^ w = n mod 256 ^ w"
proof (induction w arbitrary: m n)
  case 0
  then show ?case by simp
next
  case (Suc w)
  from Suc.prems have "be_bytes w (m div 256) = be_bytes w (n div 256)"
    and c: "char_of (m mod 256) = (char_of (n mod 256) :: char)" by auto
  then have "m div 256 mod 256 ^ w = n div 256 mod 256 ^ w" using Suc.IH by blast
  moreover have "m mod 256 = n mod 256"
    using arg_cong [OF c, of "of_char :: char \<Rightarrow> nat"] by simp
  ultimately show ?case by (simp add: mod_mult2_eq)
qed

lemma frame_prefix_eq:
  assumes "frame a @ xs = frame b @ ys" and "length a < 2 ^ 64" and "length b < 2 ^ 64"
  shows "a = b \<and> xs = ys"
proof -
  from assms(1) have "be_bytes 8 (length a) = be_bytes 8 (length b)" and
    rest: "a @ xs = b @ ys" by (auto simp: frame_def append_eq_append_conv)
  then have "length a mod 256 ^ 8 = length b mod 256 ^ 8" using be_bytes_inj by blast
  with assms(2,3) have "length a = length b" by simp
  with rest show ?thesis by simp
qed

lemma frame_not_nil [simp]: "frame a \<noteq> []"
  unfolding frame_def using length_be_bytes [of 8 "length a"] by (metis append_is_Nil_conv length_0_conv zero_neq_numeral)

text \<open>
  The byte string hashed for a list of components determines the components: two framings
  that agree have the same domain and the same parts, so adjacent components cannot alias one
  another (for components of less than \<open>2 ^ 64\<close> bytes, the width of the length prefix).
\<close>

theorem framing_injective:
  assumes "concat (map frame ps) = concat (map frame qs)"
    and "\<forall>p\<in>set ps. length p < 2 ^ 64" and "\<forall>q\<in>set qs. length q < 2 ^ 64"
  shows "ps = qs"
  using assms
proof (induction ps arbitrary: qs)
  case Nil
  then show ?case by (cases qs) auto
next
  case (Cons p ps)
  then obtain q qs' where qs: "qs = q # qs'" by (cases qs) auto
  with Cons.prems have "p = q \<and> concat (map frame ps) = concat (map frame qs')"
    by (intro frame_prefix_eq) auto
  with Cons qs show ?case by auto
qed

theorem framing_injective_witness: "[''a'', ''bc''] = [''a'', ''b'' @ ''c'']"
  by (rule framing_injective) simp_all

section \<open>Derived identities have the shape the records demand\<close>

lemma sha256_digest_nonempty: "sha256_digest d \<Longrightarrow> d \<noteq> []"
  by (auto simp: sha256_digest_def)

lemma cycle_id_digest:
  "hex_digest H \<Longrightarrow> cycle_id H r a b p c g gc t = Inr d \<Longrightarrow> sha256_digest d"
  by (auto simp: cycle_id_def result_simps length_prefixed_sha256_def hex_digest_def)

lemma length_from_hex: "length (from_hex s) = length s div 2"
  by (induction s rule: from_hex.induct) auto

lemma hex_val_less: "c \<in> set hex_chars \<Longrightarrow> hex_val c < 16"
  by (auto simp: hex_chars_def hex_val_def)

lemma from_hex_bytes:
  "list_all (\<lambda>c. c \<in> set hex_chars) s \<Longrightarrow> list_all (\<lambda>b. b < 256) (from_hex s)"
proof (induction s rule: from_hex.induct)
  case (1 a b cs)
  then show ?case using hex_val_less [of a] hex_val_less [of b] by auto
qed auto

lemma length_stamp_version [simp]: "length (stamp_version raw) = length raw"
  by (simp add: stamp_version_def Let_def)

lemma from_be_append: "from_be acc (xs @ ys) = from_be (from_be acc xs) ys"
  by (induction acc xs rule: from_be.induct) auto

lemma from_be_less:
  "list_all (\<lambda>b. b < 256) bs \<Longrightarrow> from_be acc bs < (acc + 1) * 256 ^ length bs"
proof (induction acc bs rule: from_be.induct)
  case (2 acc b bs)
  then have "from_be (acc * 256 + b) bs < (acc * 256 + b + 1) * 256 ^ length bs" by simp
  also have "\<dots> \<le> ((acc + 1) * 256) * 256 ^ length bs" using 2(2) by (intro mult_right_mono) auto
  finally show ?case by (simp add: algebra_simps)
qed simp

lemma from_be_ge: "acc * 256 ^ length bs \<le> from_be acc bs"
proof (induction acc bs rule: from_be.induct)
  case (2 acc b bs)
  have "acc * 256 ^ length (b # bs) \<le> (acc * 256 + b) * 256 ^ length bs"
    by (simp add: algebra_simps)
  with 2 show ?case by (metis from_be.simps(2) le_trans)
qed simp

lemma from_be_div:
  assumes "list_all (\<lambda>b. b < 256) bs"
  shows "from_be acc bs div 256 ^ length bs = acc"
proof (rule div_nat_eqI)
  show "256 ^ length bs * acc \<le> from_be acc bs" using from_be_ge [of acc bs] by (simp add: mult.commute)
  show "from_be acc bs < 256 ^ length bs * Suc acc" using from_be_less [OF assms, of acc] by (simp add: mult.commute)
qed

lemma stamp_bytes:
  assumes "b < 256"
  shows "((b AND 0x3F) OR 0x80) div 64 = (2::nat)" "((b AND 0x3F) OR 0x80) < (256::nat)"
    "((b AND 0x0F) OR 0x40) div 16 = (4::nat)" "((b AND 0x0F) OR 0x40) < (256::nat)"
proof -
  have b: "take_bit 8 b = b" using assms by (simp add: take_bit_nat_eq_self_iff)
  have d: "drop_bit 6 ((b AND 0x3F) OR 0x80) = 2" "drop_bit 4 ((b AND 0x0F) OR 0x40) = 4"
    by (simp_all add: drop_bit_or drop_bit_and)
  show "((b AND 0x3F) OR 0x80) div 64 = 2" "((b AND 0x0F) OR 0x40) div 16 = 4"
    using d by (simp_all add: drop_bit_eq_div)
  have "take_bit 8 ((b AND 0x3F) OR 0x80) = (b AND 0x3F) OR 0x80"
    "take_bit 8 ((b AND 0x0F) OR 0x40) = (b AND 0x0F) OR 0x40"
    by (simp_all add: take_bit_or take_bit_and b)
  then have "((b AND 0x3F) OR 0x80) < 2 ^ 8" "((b AND 0x0F) OR 0x40) < 2 ^ 8"
    unfolding take_bit_nat_eq_self_iff [symmetric] by blast+
  then show "((b AND 0x3F) OR 0x80) < 256" "((b AND 0x0F) OR 0x40) < 256"
    by simp_all
qed

lemma stamp_version_nth:
  assumes "length raw = 16"
  shows "stamp_version raw ! 6 = (raw ! 6 AND 0x0F) OR 0x40"
    and "stamp_version raw ! 8 = (raw ! 8 AND 0x3F) OR 0x80"
  using assms by (simp_all add: stamp_version_def Let_def)

lemma stamp_version_bytes:
  assumes "length raw = 16" and "list_all (\<lambda>b. b < 256) raw"
  shows "list_all (\<lambda>b. b < 256) (stamp_version raw)"
  using assms stamp_bytes [of "raw ! 6"] stamp_bytes [of "raw ! 8"]
  by (auto simp: list_all_length stamp_version_def Let_def nth_list_update)

lemma from_be_prefix:
  assumes "list_all (\<lambda>b. b < 256) bs" and "i < length bs"
  shows "from_be 0 bs div 256 ^ (length bs - Suc i) = from_be 0 (take i bs) * 256 + bs ! i"
proof -
  have "from_be 0 bs = from_be (from_be 0 (take (Suc i) bs)) (drop (Suc i) bs)"
    by (metis append_take_drop_id from_be_append)
  moreover have "from_be 0 (take (Suc i) bs) = from_be 0 (take i bs) * 256 + bs ! i"
    using assms(2) by (simp add: take_Suc_conv_app_nth from_be_append)
  moreover have "list_all (\<lambda>b. b < 256) (drop (Suc i) bs)"
    using assms(1) by (auto simp: list_all_iff dest: in_set_dropD)
  ultimately show ?thesis using from_be_div [of "drop (Suc i) bs"] by simp
qed

lemma stamped_uuid4:
  assumes "length raw = 16" and "list_all (\<lambda>b. b < 256) raw"
  shows "uuid4 (from_be 0 (stamp_version raw))"
proof -
  let ?s = "stamp_version raw" and ?u = "from_be 0 (stamp_version raw)"
  have len: "length ?s = 16" and bytes: "list_all (\<lambda>b. b < 256) ?s"
    using assms stamp_version_bytes by simp_all
  have r6: "raw ! 6 < 256" and r8: "raw ! 8 < 256"
    using assms by (auto simp: list_all_length)
  have lt: "?u < 2 ^ 128" using from_be_less [OF bytes, of 0] len by simp
  have "?u div 2 ^ 62 = ?u div 256 ^ 7 div 64"
    by (simp flip: div_mult2_eq)
  then have d8: "?u div 2 ^ 62 = from_be 0 (take 8 ?s) * 4 + 2"
    using from_be_prefix [OF bytes, of 8] len stamp_bytes(1) [OF r8] stamp_version_nth(2) [OF assms(1)]
    by simp
  have "?u div 2 ^ 76 = ?u div 256 ^ 9 div 16"
    by (simp flip: div_mult2_eq)
  then have d6: "?u div 2 ^ 76 = from_be 0 (take 6 ?s) * 16 + 4"
    using from_be_prefix [OF bytes, of 6] len stamp_bytes(3) [OF r6] stamp_version_nth(1) [OF assms(1)]
    by simp
  have "(from_be 0 (take 8 ?s) * 4 + 2) mod 4 = 2" "(from_be 0 (take 6 ?s) * 16 + 4) mod 16 = 4"
    by presburger+
  then show ?thesis using lt d8 d6 unfolding uuid4_def by metis
qed

lemma from_hex_take_bytes:
  "list_all (\<lambda>c. c \<in> set hex_chars) s \<Longrightarrow> list_all (\<lambda>b. b < 256) (take n (from_hex s))"
  using from_hex_bytes [of s] by (auto simp: list_all_iff dest: in_set_takeD)

text \<open>
  Whatever its inputs, a delivery identity that the derivation returns is a well-formed
  version-4 UUID: stamping the version and variant bits into the first 16 digest bytes always
  yields an identifier the records accept.
\<close>

theorem delivery_id_is_uuid4:
  assumes "hex_digest H" and "delivery_id H run cyc iv req tgt ad caps text = Inr u"
  shows "uuid4 u"
proof -
  obtain d where d: "sha256_digest d" and u: "u = from_be 0 (stamp_version (take 16 (from_hex d)))"
    using assms by (auto simp: delivery_id_def result_simps Let_def length_prefixed_sha256_def hex_digest_def)
  show ?thesis
    unfolding u using d
    by (intro stamped_uuid4) (auto simp: length_from_hex sha256_digest_def from_hex_take_bytes)
qed

definition zero_hash :: hash_fun where
  "zero_hash data = replicate 64 (CHR ''0'')"

lemma hex_digest_zero_hash [simp]: "hex_digest zero_hash"
  by (simp add: hex_digest_def zero_hash_def sha256_digest_def hex_chars_def list_all_iff)

lemma zero_hash_digest [simp]: "sha256_digest (zero_hash x)"
  using hex_digest_zero_hash by (simp add: hex_digest_def)

lemma zero_hash_length_prefixed: "length_prefixed_sha256 zero_hash domain parts = zero_hash []"
  by (simp add: length_prefixed_sha256_def zero_hash_def)

definition sample_digest :: digest where
  "sample_digest = replicate 64 (CHR ''a'')"

definition sample_uuid :: "nat \<Rightarrow> uuid" where
  "sample_uuid n = 4 * 2 ^ 76 + 2 * 2 ^ 62 + n"

lemma sample_digest_ok [simp]: "sha256_digest sample_digest"
  by (simp add: sample_digest_def sha256_digest_def hex_chars_def list_all_iff)

lemma sample_uuid_ok [simp]: "n < 2 ^ 62 \<Longrightarrow> uuid4 (sample_uuid n)"
proof -
  assume n: "n < 2 ^ 62"
  have "sample_uuid n div 2 ^ 62 = (4 * 2 ^ 14 + 2)"
    using n by (simp add: sample_uuid_def div_nat_eqI)
  moreover have "sample_uuid n div 2 ^ 76 = 4"
    using n by (simp add: sample_uuid_def div_nat_eqI)
  ultimately show ?thesis using n by (simp add: uuid4_def sample_uuid_def)
qed

theorem delivery_id_is_uuid4_witness:
  "uuid4 (from_be 0 (stamp_version (take 16 (from_hex (zero_hash [])))))"
proof (rule delivery_id_is_uuid4 [where H = zero_hash])
  show "delivery_id zero_hash (sample_uuid 1) sample_digest (sample_uuid 2) ''request''
      Target_NEXT_MODEL_CALL ''adapter'' sample_digest sample_digest =
    Inr (from_be 0 (stamp_version (take 16 (from_hex (zero_hash [])))))"
    by (simp add: delivery_id_def checks_pass sha256_digest_nonempty zero_hash_length_prefixed)
qed simp

section \<open>Lengths\<close>

lemma length_hex_pad [simp]: "length (hex_pad w n) = w"
  by (induction w arbitrary: n) simp_all

lemma length_uuid_str [simp]: "length (uuid_str u) = 36"
  by (simp add: uuid_str_def Let_def)

lemma length_dec_str_digit: "0 \<le> n \<Longrightarrow> n < 10 \<Longrightarrow> length (dec_str n) = 1"
  by (simp add: dec_str_def dec_nat.simps)

end
