(* ===== verification/Budget.thy ===== *)
theory Budget
  imports Prelude
begin

text \<open>
  Budget amounts and snapshots (\<open>BudgetAmounts\<close>, \<open>BudgetLimits\<close>, \<open>BudgetSnapshot\<close> of
  \<open>domain/records.py\<close>) and the reservation arithmetic of \<open>BudgetGovernor\<close>
  (\<open>runtime/budget.py\<close>).

  \<open>getattr(value, field_name)\<close> for a name of \<open>BUDGET_FIELDS\<close> is \<open>amount field value\<close>, and
  \<open>BudgetAmounts(**{name: ...})\<close> is \<open>amounts_of\<close> of a function on the fields. A constructor
  call that pydantic rejects raises \<open>BudgetValidationError\<close>; the lemmas show that the governor
  never lets it escape. The interface \<open>reservation_account\<close> states what a client of the
  governor relies on.
\<close>

section \<open>Amounts, limits, snapshots\<close>

record budget_amounts =
  model_calls :: int
  input_tokens :: int
  output_tokens :: int
  canonical_token_equivalents :: int
  latency_us :: int
  interventions_used :: int
  schema_repairs :: int

record budget_limits = budget_amounts +
  max_call_latency_us :: int

record budget_snapshot =
  limits :: budget_limits
  reserved :: budget_amounts
  consumed :: budget_amounts

datatype (plugins only: code size) budget_field =
    F_model_calls | F_input_tokens | F_output_tokens | F_canonical_token_equivalents
  | F_latency_us | F_interventions | F_schema_repairs

definition budget_fields :: "budget_field list" where
  "budget_fields = [F_model_calls, F_input_tokens, F_output_tokens,
     F_canonical_token_equivalents, F_latency_us, F_interventions, F_schema_repairs]"

fun amount :: "budget_field \<Rightarrow> 'a budget_amounts_scheme \<Rightarrow> int" where
  "amount F_model_calls a = model_calls a"
| "amount F_input_tokens a = input_tokens a"
| "amount F_output_tokens a = output_tokens a"
| "amount F_canonical_token_equivalents a = canonical_token_equivalents a"
| "amount F_latency_us a = latency_us a"
| "amount F_interventions a = interventions_used a"
| "amount F_schema_repairs a = schema_repairs a"

definition amounts_of :: "(budget_field \<Rightarrow> int) \<Rightarrow> budget_amounts" where
  "amounts_of g = \<lparr>model_calls = g F_model_calls, input_tokens = g F_input_tokens,
     output_tokens = g F_output_tokens,
     canonical_token_equivalents = g F_canonical_token_equivalents,
     latency_us = g F_latency_us, interventions_used = g F_interventions,
     schema_repairs = g F_schema_repairs\<rparr>"

definition zero_amounts :: budget_amounts where
  "zero_amounts = amounts_of (\<lambda>_. 0)"

definition valid_budget_amounts :: "'a budget_amounts_scheme \<Rightarrow> bool" where
  "valid_budget_amounts a \<longleftrightarrow> list_all (\<lambda>f. 0 \<le> amount f a) budget_fields"

definition valid_budget_limits :: "budget_limits \<Rightarrow> bool" where
  "valid_budget_limits l \<longleftrightarrow> valid_budget_amounts l \<and> 0 \<le> max_call_latency_us l"

definition valid_budget_snapshot :: "budget_snapshot \<Rightarrow> bool" where
  "valid_budget_snapshot s \<longleftrightarrow>
     valid_budget_limits (limits s) \<and> valid_budget_amounts (reserved s) \<and>
     valid_budget_amounts (consumed s) \<and>
     list_all (\<lambda>f. amount f (reserved s) + amount f (consumed s) \<le> amount f (limits s))
       budget_fields"

section \<open>The governor\<close>

datatype (plugins only: code size) budget_error =
    BudgetInputError string
  | BudgetReservationDeniedError
  | BudgetSettlementError string
  | BudgetValidationError

definition new_amounts :: "(budget_field \<Rightarrow> int) \<Rightarrow> budget_error + budget_amounts" where
  "new_amounts g =
     (if valid_budget_amounts (amounts_of g) then Inr (amounts_of g) else Inl BudgetValidationError)"

definition new_snapshot ::
    "budget_limits \<Rightarrow> budget_amounts \<Rightarrow> budget_amounts \<Rightarrow> budget_error + budget_snapshot" where
  "new_snapshot l r c =
     (let s = \<lparr>limits = l, reserved = r, consumed = c\<rparr>
      in if valid_budget_snapshot s then Inr s else Inl BudgetValidationError)"

definition validate_amounts :: "budget_amounts \<Rightarrow> budget_error + budget_amounts" where
  "validate_amounts a =
     (if valid_budget_amounts a then Inr a else Inl (BudgetInputError ''amounts''))"

definition validate_snapshot :: "budget_snapshot \<Rightarrow> budget_error + budget_snapshot" where
  "validate_snapshot s =
     (if valid_budget_snapshot s then Inr s else Inl (BudgetInputError ''snapshot''))"

definition validate_call_latencies :: "int list \<Rightarrow> budget_error + int list" where
  "validate_call_latencies xs =
     (if list_ex (\<lambda>item. item < 0) xs then Inl (BudgetInputError ''model-call latencies'')
      else Inr xs)"

definition reconcile :: "budget_snapshot \<Rightarrow> budget_amounts \<Rightarrow> budget_amounts \<Rightarrow>
    budget_error + budget_snapshot" where
  "reconcile s reservation actual =
     checks
       [(list_ex (\<lambda>f. amount f reservation > amount f (reserved s)) budget_fields,
           BudgetSettlementError ''reservation is not held''),
        (list_ex (\<lambda>f. amount f actual > amount f reservation) budget_fields,
           BudgetSettlementError ''actual usage exceeds the reservation'')]
       (bind_result (new_amounts (\<lambda>f. amount f (reserved s) - amount f reservation)) (\<lambda>r.
        bind_result (new_amounts (\<lambda>f. amount f (consumed s) + amount f actual)) (\<lambda>c.
        new_snapshot (limits s) r c)))"

definition available :: "budget_snapshot \<Rightarrow> budget_error + budget_amounts" where
  "available s =
     bind_result (validate_snapshot s) (\<lambda>v.
     new_amounts (\<lambda>f. amount f (limits v) - amount f (reserved v) - amount f (consumed v)))"

definition reserve :: "budget_snapshot \<Rightarrow> budget_amounts \<Rightarrow> budget_error + budget_snapshot" where
  "reserve s requested =
     bind_result (validate_snapshot s) (\<lambda>v.
     bind_result (validate_amounts requested) (\<lambda>request.
     bind_result (available v) (\<lambda>avail.
     checks
       [(list_ex (\<lambda>f. amount f request > amount f avail) budget_fields,
           BudgetReservationDeniedError)]
       (bind_result (new_amounts (\<lambda>f. amount f (reserved v) + amount f request)) (\<lambda>r.
        new_snapshot (limits v) r (consumed v))))))"

definition settle :: "budget_snapshot \<Rightarrow> budget_amounts \<Rightarrow> budget_amounts \<Rightarrow> int list \<Rightarrow>
    budget_error + budget_snapshot" where
  "settle s reservation actual model_call_latencies_us =
     bind_result (validate_snapshot s) (\<lambda>v.
     bind_result (validate_amounts reservation) (\<lambda>held.
     bind_result (validate_amounts actual) (\<lambda>now.
     bind_result (validate_call_latencies model_call_latencies_us) (\<lambda>lats.
     checks
       [(int (length lats) \<noteq> model_calls now,
           BudgetSettlementError ''model-call latency count does not match actual calls''),
        (sum_list lats > latency_us now,
           BudgetSettlementError ''model-call latency exceeds actual cycle latency''),
        (list_ex (\<lambda>l. l > max_call_latency_us (limits v)) lats,
           BudgetSettlementError ''a model call exceeds the per-call latency limit'')]
       (reconcile v held now)))))"

definition consume_unknown :: "budget_snapshot \<Rightarrow> budget_amounts \<Rightarrow> budget_error + budget_snapshot" where
  "consume_unknown s reservation =
     bind_result (validate_snapshot s) (\<lambda>v.
     bind_result (validate_amounts reservation) (\<lambda>held. reconcile v held held))"

section \<open>Pointwise reasoning\<close>

named_theorems budget_simps "amounts, field by field"

lemma set_budget_fields [simp]: "set budget_fields = UNIV"
  using budget_field.exhaust by (auto simp: budget_fields_def)

lemma list_all_fields [budget_simps]: "list_all P budget_fields \<longleftrightarrow> (\<forall>f. P f)"
  by (simp add: list_all_iff)

lemma list_ex_fields [budget_simps]: "list_ex P budget_fields \<longleftrightarrow> (\<exists>f. P f)"
  by (simp add: list_ex_iff)

lemma amount_amounts_of [simp]: "amount f (amounts_of g) = g f"
  by (cases f) (simp_all add: amounts_of_def)

lemma budget_amounts_eqI:
  fixes a b :: budget_amounts
  assumes "\<And>f. amount f a = amount f b"
  shows "a = b"
  using assms [of F_model_calls] assms [of F_input_tokens] assms [of F_output_tokens]
    assms [of F_canonical_token_equivalents] assms [of F_latency_us] assms [of F_interventions]
    assms [of F_schema_repairs]
  by simp

lemma valid_amounts_iff [budget_simps]: "valid_budget_amounts a \<longleftrightarrow> (\<forall>f. 0 \<le> amount f a)"
  by (simp add: valid_budget_amounts_def budget_simps)

lemma valid_snapshot_iff [budget_simps]:
  "valid_budget_snapshot s \<longleftrightarrow> valid_budget_limits (limits s) \<and>
     (\<forall>f. 0 \<le> amount f (reserved s) \<and> 0 \<le> amount f (consumed s) \<and>
        amount f (reserved s) + amount f (consumed s) \<le> amount f (limits s))"
  by (auto simp: valid_budget_snapshot_def budget_simps)

lemma new_amounts_Inr [budget_simps]:
  "new_amounts g = Inr a \<longleftrightarrow> a = amounts_of g \<and> (\<forall>f. 0 \<le> g f)"
  by (auto simp: new_amounts_def budget_simps)

lemma new_snapshot_Inr [budget_simps]:
  "new_snapshot l r c = Inr s \<longleftrightarrow> s = \<lparr>limits = l, reserved = r, consumed = c\<rparr> \<and> valid_budget_snapshot s"
  by (auto simp: new_snapshot_def Let_def)

definition headroom :: "budget_field \<Rightarrow> budget_snapshot \<Rightarrow> int" where
  "headroom f s = amount f (limits s) - amount f (reserved s) - amount f (consumed s)"

lemma headroom_nonneg: "valid_budget_snapshot s \<Longrightarrow> 0 \<le> headroom f s"
proof -
  assume "valid_budget_snapshot s"
  then have "amount f (reserved s) + amount f (consumed s) \<le> amount f (limits s)"
    by (simp add: budget_simps)
  then show ?thesis by (simp add: headroom_def)
qed

lemma available_eq: "valid_budget_snapshot s \<Longrightarrow> available s = Inr (amounts_of (\<lambda>f. headroom f s))"
  using headroom_nonneg [of s]
  by (auto simp: available_def validate_snapshot_def new_amounts_Inr headroom_def)

lemma reserve_ok:
  assumes "valid_budget_snapshot s" and "valid_budget_amounts r"
    and "\<forall>f. amount f r \<le> headroom f s"
  shows "reserve s r = Inr (s\<lparr>reserved := amounts_of (\<lambda>f. amount f (reserved s) + amount f r)\<rparr>)"
proof -
  note av = available_eq [OF assms(1)]
  have "valid_budget_snapshot (s\<lparr>reserved := amounts_of (\<lambda>f. amount f (reserved s) + amount f r)\<rparr>)"
  proof -
    have "amount f (reserved s) + amount f r + amount f (consumed s) \<le> amount f (limits s)" for f
      using assms(3) by (simp add: headroom_def algebra_simps)
    with assms(1,2) show ?thesis by (simp add: budget_simps)
  qed
  with assms show ?thesis
    by (auto simp: reserve_def validate_snapshot_def validate_amounts_def av new_amounts_def
        new_snapshot_def budget_simps checks_eval Let_def not_less)
qed

lemma reserve_denied:
  assumes "valid_budget_snapshot s" and "valid_budget_amounts r"
    and "\<not> (\<forall>f. amount f r \<le> headroom f s)"
  shows "reserve s r = Inl BudgetReservationDeniedError"
proof -
  note av = available_eq [OF assms(1)]
  show ?thesis
    using assms by (auto simp: reserve_def validate_snapshot_def validate_amounts_def av
        budget_simps checks_eval not_le)
qed

lemma reconcile_ok:
  assumes "valid_budget_snapshot s" and "valid_budget_amounts actual"
    and "\<forall>f. amount f held \<le> amount f (reserved s)" and "\<forall>f. amount f actual \<le> amount f held"
  shows "reconcile s held actual =
    Inr \<lparr>limits = limits s, reserved = amounts_of (\<lambda>f. amount f (reserved s) - amount f held),
         consumed = amounts_of (\<lambda>f. amount f (consumed s) + amount f actual)\<rparr>"
proof -
  have "0 \<le> amount f (reserved s) - amount f held" "0 \<le> amount f (consumed s) + amount f actual"
    "amount f (reserved s) - amount f held + (amount f (consumed s) + amount f actual) \<le> amount f (limits s)"
    for f using assms(1,2) assms(3,4)[rule_format, of f] by (auto simp: budget_simps add_increasing
        intro: order_trans [of _ "amount f (reserved s) + amount f (consumed s)"])
  with assms show ?thesis
    by (auto simp: reconcile_def checks_pass budget_simps not_less new_amounts_def new_snapshot_def)
qed

lemma reconcile_Inr:
  assumes "reconcile s held actual = Inr s'"
  shows "\<forall>f. amount f held \<le> amount f (reserved s)" and "\<forall>f. amount f actual \<le> amount f held"
    and "s' = \<lparr>limits = limits s, reserved = amounts_of (\<lambda>f. amount f (reserved s) - amount f held),
         consumed = amounts_of (\<lambda>f. amount f (consumed s) + amount f actual)\<rparr>"
    and "valid_budget_snapshot s'"
  using assms by (auto simp: reconcile_def result_simps budget_simps not_less)

section \<open>The interface of an account\<close>

text \<open>
  What the trigger policy and the repository rely on: a reservation is granted exactly when it
  fits the free balance, a grant takes precisely the requested amounts from it, and settling
  what is held gives back what was not used.
\<close>

locale reservation_account =
  fixes ok :: "'s \<Rightarrow> bool" and free :: "budget_field \<Rightarrow> 's \<Rightarrow> int"
    and held :: "budget_field \<Rightarrow> 's \<Rightarrow> int"
    and take_from :: "'s \<Rightarrow> budget_amounts \<Rightarrow> 'e + 's"
    and give_back :: "'s \<Rightarrow> budget_amounts \<Rightarrow> budget_amounts \<Rightarrow> 'e + 's"
  assumes free_nonneg: "ok s \<Longrightarrow> 0 \<le> free f s"
    and take_from_iff: "ok s \<Longrightarrow> valid_budget_amounts r \<Longrightarrow>
      (\<exists>s'. take_from s r = Inr s') \<longleftrightarrow> (\<forall>f. amount f r \<le> free f s)"
    and take_from_ok: "ok s \<Longrightarrow> take_from s r = Inr s' \<Longrightarrow> ok s'"
    and take_from_free: "ok s \<Longrightarrow> take_from s r = Inr s' \<Longrightarrow> free f s' = free f s - amount f r"
    and take_from_held: "ok s \<Longrightarrow> take_from s r = Inr s' \<Longrightarrow> held f s' = held f s + amount f r"
    and give_back_iff: "ok s \<Longrightarrow> valid_budget_amounts r \<Longrightarrow> valid_budget_amounts u \<Longrightarrow>
      (\<exists>s'. give_back s r u = Inr s') \<longleftrightarrow> (\<forall>f. amount f u \<le> amount f r \<and> amount f r \<le> held f s)"
    and give_back_ok: "ok s \<Longrightarrow> give_back s r u = Inr s' \<Longrightarrow> ok s'"
    and give_back_free: "ok s \<Longrightarrow> give_back s r u = Inr s' \<Longrightarrow>
      free f s' = free f s + (amount f r - amount f u)"
    and give_back_held: "ok s \<Longrightarrow> give_back s r u = Inr s' \<Longrightarrow> held f s' = held f s - amount f r"
    and take_valid: "take_from s r = Inr s' \<Longrightarrow> valid_budget_amounts r"
begin

lemma take_then_give_back:
  assumes "ok s" and "take_from s r = Inr s1" and "valid_budget_amounts u"
    and "\<forall>f. 0 \<le> held f s" and "\<forall>f. amount f u \<le> amount f r"
  shows "\<exists>s2. give_back s1 r u = Inr s2 \<and> ok s2 \<and> (\<forall>f. free f s2 = free f s - amount f u)"
proof -
  have ok1: "ok s1" using assms(1,2) by (rule take_from_ok)
  have "\<forall>f. amount f u \<le> amount f r \<and> amount f r \<le> held f s1"
    using assms take_from_held [OF assms(1,2)] by simp
  then obtain s2 where s2: "give_back s1 r u = Inr s2"
    using give_back_iff [OF ok1 take_valid [OF assms(2)] assms(3)] by blast
  then have "ok s2" "free f s2 = free f s - amount f u" for f
    using give_back_ok [OF ok1 s2] give_back_free [OF ok1 s2] take_from_free [OF assms(1,2)] by auto
  with s2 show ?thesis by blast
qed

lemma no_overdraw:
  "ok s \<Longrightarrow> take_from s r = Inr s' \<Longrightarrow> 0 \<le> free f s'"
  using free_nonneg take_from_ok by blast

end

definition held_amount :: "budget_field \<Rightarrow> budget_snapshot \<Rightarrow> int" where
  "held_amount f s = amount f (reserved s)"

lemma validated_ok [simp]:
  "valid_budget_snapshot s \<Longrightarrow> validate_snapshot s = Inr s"
  "valid_budget_amounts a \<Longrightarrow> validate_amounts a = Inr a"
  by (simp_all add: validate_snapshot_def validate_amounts_def)

lemma validated_Inr [result_simps]:
  "validate_snapshot s = Inr v \<longleftrightarrow> v = s \<and> valid_budget_snapshot s"
  "validate_amounts a = Inr b \<longleftrightarrow> b = a \<and> valid_budget_amounts a"
  by (auto simp: validate_snapshot_def validate_amounts_def)

lemma reserve_Inr:
  "reserve s r = Inr s' \<longleftrightarrow> valid_budget_snapshot s \<and> valid_budget_amounts r \<and>
     (\<forall>f. amount f r \<le> headroom f s) \<and>
     s' = s\<lparr>reserved := amounts_of (\<lambda>f. amount f (reserved s) + amount f r)\<rparr>"
proof (cases "valid_budget_snapshot s \<and> valid_budget_amounts r")
  case True
  then show ?thesis
    using reserve_ok [of s r] reserve_denied [of s r] by (cases "\<forall>f. amount f r \<le> headroom f s") auto
next
  case False
  then show ?thesis by (auto simp: reserve_def result_simps)
qed

lemma reserve_valid: "reserve s r = Inr s' \<Longrightarrow> valid_budget_snapshot s'"
  by (auto simp: reserve_def result_simps budget_simps)

lemma consume_unknown_Inr:
  "consume_unknown s r = Inr s' \<longleftrightarrow>
     valid_budget_snapshot s \<and> valid_budget_amounts r \<and> reconcile s r r = Inr s'"
  by (auto simp: consume_unknown_def result_simps)

lemma settle_Inr:
  "settle s r u lats = Inr s' \<Longrightarrow> valid_budget_snapshot s \<and> valid_budget_amounts r \<and>
     valid_budget_amounts u \<and> int (length lats) = model_calls u \<and> sum_list lats \<le> latency_us u \<and>
     (\<forall>l\<in>set lats. 0 \<le> l \<and> l \<le> max_call_latency_us (limits s)) \<and> reconcile s r u = Inr s'"
  by (auto simp: settle_def result_simps validate_call_latencies_def list_ex_iff not_less split: if_splits)

interpretation governor: reservation_account valid_budget_snapshot headroom held_amount reserve reconcile
proof
  show "valid_budget_snapshot s \<Longrightarrow> 0 \<le> headroom f s" for s f by (rule headroom_nonneg)
  show "valid_budget_snapshot s \<Longrightarrow> valid_budget_amounts r \<Longrightarrow>
      (\<exists>s'. reserve s r = Inr s') \<longleftrightarrow> (\<forall>f. amount f r \<le> headroom f s)" for s r
    by (auto simp: reserve_Inr)
  show "valid_budget_snapshot s \<Longrightarrow> valid_budget_amounts r \<Longrightarrow> valid_budget_amounts u \<Longrightarrow>
      (\<exists>s'. reconcile s r u = Inr s') \<longleftrightarrow>
      (\<forall>f. amount f u \<le> amount f r \<and> amount f r \<le> held_amount f s)" for s r u
    using reconcile_ok [of s u r] by (auto simp: held_amount_def dest: reconcile_Inr(1,2))
  show "valid_budget_snapshot s \<Longrightarrow> reserve s r = Inr s' \<Longrightarrow> valid_budget_snapshot s'" for s r s'
    by (rule reserve_valid)
  show "valid_budget_snapshot s \<Longrightarrow> reconcile s r u = Inr s' \<Longrightarrow> valid_budget_snapshot s'" for s r u s'
    by (rule reconcile_Inr(4))
qed (auto simp: reserve_Inr headroom_def held_amount_def dest!: reconcile_Inr(3))

section \<open>Runs of the governor\<close>

datatype (plugins only: code size) budget_op =
    Op_reserve budget_amounts
  | Op_settle budget_amounts budget_amounts "int list"
  | Op_consume_unknown budget_amounts

fun budget_step :: "budget_op \<Rightarrow> budget_snapshot \<Rightarrow> budget_error + budget_snapshot" where
  "budget_step (Op_reserve r) s = reserve s r"
| "budget_step (Op_settle r u lats) s = settle s r u lats"
| "budget_step (Op_consume_unknown r) s = consume_unknown s r"

definition budget_run :: "budget_op list \<Rightarrow> budget_snapshot \<Rightarrow> budget_error + budget_snapshot" where
  "budget_run ops s = fold_result budget_step ops s"

lemma budget_step_valid: "budget_step op s = Inr s' \<Longrightarrow> valid_budget_snapshot s' \<and> limits s' = limits s"
proof (cases op)
  case (Op_reserve r)
  assume "budget_step op s = Inr s'"
  then have "reserve s r = Inr s'" using Op_reserve by simp
  then show ?thesis using reserve_valid reserve_Inr by fastforce
next
  case (Op_settle r u lats)
  assume "budget_step op s = Inr s'"
  then have "reconcile s r u = Inr s'" using Op_settle settle_Inr by fastforce
  then show ?thesis using reconcile_Inr(3,4) by fastforce
next
  case (Op_consume_unknown r)
  assume "budget_step op s = Inr s'"
  then have "reconcile s r r = Inr s'" using Op_consume_unknown by (simp add: consume_unknown_Inr)
  then show ?thesis using reconcile_Inr(3,4) by fastforce
qed

lemma budget_run_valid:
  assumes "valid_budget_snapshot s" and "budget_run ops s = Inr s'"
  shows "valid_budget_snapshot s' \<and> limits s' = limits s"
  using fold_result_invariant [of budget_step ops s s' "\<lambda>t. valid_budget_snapshot t \<and> limits t = limits s"]
    assms budget_step_valid by (fastforce simp: budget_run_def)

text \<open>
  Whatever sequence of reservations, settlements and unknown-cost consumptions the governor
  accepts, the limits never change and in every budget field the free balance stays non-negative:
  what is reserved and consumed together never exceeds the limit.
\<close>

theorem governor_never_overdraws:
  assumes "valid_budget_snapshot s" and "budget_run ops s = Inr s'"
  shows "limits s' = limits s \<and> (\<forall>f. 0 \<le> headroom f s')"
  using budget_run_valid [OF assms] governor.free_nonneg by blast

text \<open>
  A reservation is decided by the free balance alone: on a valid snapshot and a valid request
  the governor either adds the request to the reserved amounts and touches nothing else, exactly
  when it fits in every field, or raises the denial.
\<close>

theorem reserve_grants_exactly_what_fits:
  assumes "valid_budget_snapshot s" and "valid_budget_amounts r"
  shows "reserve s r =
    (if \<forall>f. amount f r \<le> headroom f s
     then Inr (s\<lparr>reserved := amounts_of (\<lambda>f. amount f (reserved s) + amount f r)\<rparr>)
     else Inl BudgetReservationDeniedError)"
  using assms reserve_ok reserve_denied by auto

text \<open>
  Settling a reservation that was granted charges exactly the actual usage: after
  \<open>reserve\<close> and \<open>settle\<close> the free balance of every field is the original one less what was
  really used, and the unused part of the reservation is free again.
\<close>

theorem settle_charges_actual_usage:
  assumes "reserve s r = Inr s1" and "settle s1 r u lats = Inr s2"
  shows "headroom f s2 = headroom f s - amount f u \<and> held_amount f s2 = held_amount f s"
proof -
  have ok: "valid_budget_snapshot s" "valid_budget_snapshot s1"
    using assms reserve_Inr settle_Inr by blast+
  have "reconcile s1 r u = Inr s2" using settle_Inr [OF assms(2)] by simp
  then show ?thesis
    using governor.take_from_free [OF ok(1) assms(1)] governor.take_from_held [OF ok(1) assms(1)]
      governor.give_back_free [OF ok(2)] governor.give_back_held [OF ok(2)] by simp
qed

text \<open>
  The governor fails only with its documented errors: the pydantic constructors it calls on
  computed amounts never reject, so no raw validation error escapes any of its operations.
\<close>

theorem governor_raises_only_budget_errors: "budget_step op s \<noteq> Inl BudgetValidationError"
proof -
  have rec: "valid_budget_snapshot s \<Longrightarrow> valid_budget_amounts u \<Longrightarrow>
      reconcile s r u \<noteq> Inl BudgetValidationError" for r u
  proof (cases "(\<forall>f. amount f r \<le> amount f (reserved s)) \<and> (\<forall>f. amount f u \<le> amount f r)")
    case True
    assume "valid_budget_snapshot s" "valid_budget_amounts u"
    with True show ?thesis using reconcile_ok [of s u r] by simp
  next
    case False
    then show ?thesis by (auto simp: reconcile_def checks_eval budget_simps not_le)
  qed
  show ?thesis
  proof (cases op)
    case (Op_reserve r)
    show ?thesis
    proof (cases "valid_budget_snapshot s \<and> valid_budget_amounts r")
      case True
      then show ?thesis
        using Op_reserve reserve_ok [of s r] reserve_denied [of s r]
        by (cases "\<forall>f. amount f r \<le> headroom f s") auto
    next
      case False
      with Op_reserve show ?thesis
        by (auto simp: reserve_def validate_snapshot_def validate_amounts_def)
    qed
  next
    case (Op_settle r u lats)
    then show ?thesis
      using rec [of u r] by (auto simp: settle_def result_simps validate_snapshot_def validate_amounts_def
          validate_call_latencies_def checks_eval split: if_splits)
  next
    case (Op_consume_unknown r)
    then show ?thesis
      using rec [of r r] by (auto simp: consume_unknown_def result_simps validate_snapshot_def
          validate_amounts_def split: if_splits)
  qed
qed

section \<open>Concrete runs\<close>

definition sample_limits :: budget_limits where
  "sample_limits = budget_amounts.extend
     (amounts_of (\<lambda>f. if f = F_model_calls then 3 else if f = F_interventions then 1 else 1000))
     \<lparr>max_call_latency_us = 500\<rparr>"

definition sample_snapshot :: budget_snapshot where
  "sample_snapshot = \<lparr>limits = sample_limits, reserved = zero_amounts, consumed = zero_amounts\<rparr>"

definition sample_reservation :: budget_amounts where
  "sample_reservation = amounts_of (\<lambda>f. if f = F_model_calls then 2 else if f = F_interventions then 1 else 100)"

definition sample_usage :: budget_amounts where
  "sample_usage = amounts_of (\<lambda>f. if f = F_model_calls then 1 else if f = F_interventions then 0 else 40)"

lemma amount_sample_limits [simp]:
  "amount f sample_limits = (if f = F_model_calls then 3 else if f = F_interventions then 1 else 1000)"
  by (cases f) (simp_all add: sample_limits_def amounts_of_def budget_amounts.defs)

lemma sample_limits_valid [simp]: "valid_budget_limits sample_limits"
  by (simp add: valid_budget_limits_def budget_simps) (simp add: sample_limits_def budget_amounts.defs)

lemma sample_snapshot_valid [simp]: "valid_budget_snapshot sample_snapshot"
  by (simp add: budget_simps sample_snapshot_def zero_amounts_def)

lemma sample_amounts_valid [simp]:
  "valid_budget_amounts sample_reservation" "valid_budget_amounts sample_usage"
  by (simp_all add: budget_simps sample_reservation_def sample_usage_def)

theorem reserve_grants_exactly_what_fits_witness:
  "\<exists>s'. reserve sample_snapshot sample_reservation = Inr s'"
proof -
  have "\<forall>f. amount f sample_reservation \<le> headroom f sample_snapshot"
    by (simp add: headroom_def sample_snapshot_def sample_reservation_def zero_amounts_def)
  then show ?thesis
    using reserve_grants_exactly_what_fits [OF sample_snapshot_valid sample_amounts_valid(1)] by simp
qed

lemma sample_reserve:
  "reserve sample_snapshot sample_reservation = Inr (sample_snapshot\<lparr>reserved := sample_reservation\<rparr>)"
proof -
  have "amounts_of (\<lambda>f. amount f (reserved sample_snapshot) + amount f sample_reservation) = sample_reservation"
    by (rule budget_amounts_eqI) (simp add: sample_snapshot_def zero_amounts_def)
  then show ?thesis
    using reserve_ok [OF sample_snapshot_valid sample_amounts_valid(1)]
    by (simp add: headroom_def sample_snapshot_def sample_reservation_def zero_amounts_def)
qed

lemma sample_settle:
  "\<exists>s2. settle (sample_snapshot\<lparr>reserved := sample_reservation\<rparr>) sample_reservation sample_usage [30] = Inr s2"
proof -
  let ?s = "sample_snapshot\<lparr>reserved := sample_reservation\<rparr>"
  have v: "valid_budget_snapshot ?s" using reserve_valid [OF sample_reserve] .
  have r: "\<exists>s2. reconcile ?s sample_reservation sample_usage = Inr s2"
    using governor.give_back_iff [OF v sample_amounts_valid]
    by (simp add: held_amount_def sample_reservation_def sample_usage_def)
  have "model_calls sample_usage = 1" "latency_us sample_usage = 40"
    by (simp_all add: sample_usage_def amounts_of_def)
  moreover have "max_call_latency_us (limits ?s) = 500"
    by (simp add: sample_snapshot_def sample_limits_def budget_amounts.defs)
  ultimately show ?thesis
    using v r by (simp add: settle_def validate_call_latencies_def checks_pass)
qed

theorem settle_charges_actual_usage_witness:
  "\<exists>s2. headroom F_input_tokens s2 = headroom F_input_tokens sample_snapshot - 40"
proof -
  obtain s2 where "settle (sample_snapshot\<lparr>reserved := sample_reservation\<rparr>) sample_reservation
      sample_usage [30] = Inr s2" using sample_settle by blast
  from settle_charges_actual_usage [OF sample_reserve this, of F_input_tokens]
  show ?thesis by (auto simp: sample_usage_def)
qed

theorem governor_never_overdraws_witness:
  "\<exists>s'. budget_run [Op_reserve sample_reservation, Op_settle sample_reservation sample_usage [30]]
     sample_snapshot = Inr s' \<and> (\<forall>f. 0 \<le> headroom f s')"
proof -
  obtain s2 where s2: "settle (sample_snapshot\<lparr>reserved := sample_reservation\<rparr>) sample_reservation
      sample_usage [30] = Inr s2" using sample_settle by blast
  have "budget_run [Op_reserve sample_reservation, Op_settle sample_reservation sample_usage [30]]
      sample_snapshot = Inr s2"
    by (simp add: budget_run_def sample_reserve s2)
  with governor_never_overdraws [OF sample_snapshot_valid this] show ?thesis by blast
qed

end
