(* ===== verification/Serde.thy ===== *)
theory Serde
  imports Digests Json
begin

text \<open>
  Canonical JSON (\<open>domain/serde.py\<close>): the bytes every digest and integrity tag is taken over.

  \<open>canonical_json\<close> is \<open>json.dumps(value, ensure_ascii=False, sort_keys=True,
  separators=(",", ":"), allow_nan=False)\<close> encoded as UTF-8; \<open>None\<close> is the
  \<open>CanonicalJSONError\<close> raised for a number that is not finite. The spelling of a finite float,
  \<open>float.__repr__\<close>, is the argument \<open>F\<close>; \<open>float_repr F\<close> states what the encoding relies on.
\<close>

section \<open>The encoder\<close>

definition json_char :: "char \<Rightarrow> string" where
  "json_char c =
     (if c = CHR 0x22 then [CHR 0x5C, CHR 0x22]
      else if c = CHR 0x5C then [CHR 0x5C, CHR 0x5C]
      else if c = CHR 0x0A then [CHR 0x5C, CHR ''n'']
      else if c = CHR 0x0D then [CHR 0x5C, CHR ''r'']
      else if c = CHR 0x09 then [CHR 0x5C, CHR ''t'']
      else if c = CHR 0x0C then [CHR 0x5C, CHR ''f'']
      else if c = CHR 0x08 then [CHR 0x5C, CHR ''b'']
      else if (of_char c :: nat) < 32 then CHR 0x5C # CHR ''u'' # hex_pad 4 (of_char c)
      else [c])"

definition json_string :: "string \<Rightarrow> string" where
  "json_string s = CHR 0x22 # concat (map json_char s) @ [CHR 0x22]"

fun join :: "string \<Rightarrow> string list \<Rightarrow> string" where
  "join sep [] = []"
| "join sep [x] = x"
| "join sep (x # y # zs) = x @ sep @ join sep (y # zs)"

type_synonym float_text = "rat \<Rightarrow> string"

fun json_text :: "float_text \<Rightarrow> json \<Rightarrow> string" where
  "json_text F JNull = ''null''"
| "json_text F (JBool b) = (if b then ''true'' else ''false'')"
| "json_text F (JInt i) = dec_str i"
| "json_text F (JFloat (Some q)) = F q"
| "json_text F (JFloat None) = ''NaN''"
| "json_text F (JStr s) = json_string s"
| "json_text F (JArr xs) = ''['' @ join '','' (map (json_text F) xs) @ '']''"
| "json_text F (JObj kvs) =
     ''{'' @ join '','' (map (\<lambda>(k, t). json_string k @ '':'' @ t)
        (sort_key fst (map (\<lambda>(k, v). (k, json_text F v)) kvs))) @ ''}''"

definition canonical_json :: "float_text \<Rightarrow> json \<Rightarrow> string option" where
  "canonical_json F v = (if json_finite v then Some (json_text F v) else None)"

definition canonical_digest :: "hash_fun \<Rightarrow> float_text \<Rightarrow> json \<Rightarrow> digest option" where
  "canonical_digest H F v = map_option (\<lambda>t. content_digest H [t]) (canonical_json F v)"

text \<open>\<open>canonical_digest\<close> of a text, which no float spelling enters.\<close>

definition text_digest :: "hash_fun \<Rightarrow> string \<Rightarrow> digest" where
  "text_digest H s = content_digest H [json_string s]"

lemma canonical_digest_text: "canonical_digest H F (JStr s) = Some (text_digest H s)"
  by (simp add: canonical_digest_def canonical_json_def text_digest_def json_finite.simps)

section \<open>The encoding does not alias\<close>

definition num_chars :: string where
  "num_chars = ''0123456789+-.e''"

text \<open>
  What is relied on of \<open>float.__repr__\<close>: distinct finite floats are spelled differently, with
  digits, signs, point and exponent only, and never like an integer.
\<close>

definition float_repr :: "float_text \<Rightarrow> bool" where
  "float_repr F \<longleftrightarrow> inj F \<and>
     (\<forall>q. set (F q) \<subseteq> set num_chars \<and> F q \<noteq> [] \<and> (CHR ''.'' \<in> set (F q) \<or> CHR ''e'' \<in> set (F q)))"

text \<open>Objects list their keys in ascending order without repetition.\<close>

function json_wf :: "json \<Rightarrow> bool" where
  "json_wf v = ((case v of JObj kvs \<Rightarrow> sorted_wrt (<) (map fst kvs) | _ \<Rightarrow> True) \<and>
                (\<forall>c\<in>set (children v). json_wf c))"
  by pat_completeness auto
termination by (relation "measure size") (auto simp: child_size)

declare json_wf.simps [simp del]

lemma json_wf_simps [simp]:
  "json_wf JNull" "json_wf (JBool b)" "json_wf (JInt i)" "json_wf (JFloat x)" "json_wf (JStr s)"
  "json_wf (JArr xs) \<longleftrightarrow> (\<forall>x\<in>set xs. json_wf x)"
  "json_wf (JObj kvs) \<longleftrightarrow> sorted_wrt (<) (map fst kvs) \<and> (\<forall>x\<in>set (map snd kvs). json_wf x)"
  by (subst json_wf.simps; simp)+

definition stops :: "string \<Rightarrow> bool" where
  "stops xs \<longleftrightarrow> xs = [] \<or> hd xs \<in> set '',]}''"

lemma num_chars_prefix:
  assumes "set m \<subseteq> set num_chars" and "set n \<subseteq> set num_chars" and "stops xs" and "stops ys"
    and "m @ xs = n @ ys"
  shows "m = n \<and> xs = ys"
proof -
  have cut: "takeWhile (\<lambda>c. c \<in> set num_chars) (a @ zs) = a"
    if "set a \<subseteq> set num_chars" "stops zs" for a zs
  proof -
    have "takeWhile (\<lambda>c. c \<in> set num_chars) zs = []"
      using that(2) by (cases zs) (auto simp: stops_def num_chars_def)
    then show ?thesis using that(1) by (subst takeWhile_append2) auto
  qed
  have "m = n" using cut [OF assms(1,3)] cut [OF assms(2,4)] assms(5) by metis
  with assms(5) show ?thesis by simp
qed

lemma hex_pad_length [simp]: "length (hex_pad w n) = w"
  by (induction w n rule: hex_pad.induct) auto

lemma hex_chars_distinct: "distinct hex_chars" "length hex_chars = 16"
  by (simp_all add: hex_chars_def)

lemma hex_pad_inj: "hex_pad w m = hex_pad w n \<Longrightarrow> m mod 16 ^ w = n mod 16 ^ w"
proof (induction w arbitrary: m n)
  case 0
  then show ?case by simp
next
  case (Suc w)
  from Suc.prems have "hex_pad w (m div 16) = hex_pad w (n div 16)"
    and c: "hex_chars ! (m mod 16) = hex_chars ! (n mod 16)" by auto
  then have "m div 16 mod 16 ^ w = n div 16 mod 16 ^ w" using Suc.IH by blast
  moreover have "m mod 16 = n mod 16"
    using c hex_chars_distinct nth_eq_iff_index_eq [of hex_chars "m mod 16" "n mod 16"] by simp
  ultimately show ?case by (simp add: mod_mult2_eq)
qed

definition unhex :: "string \<Rightarrow> nat" where
  "unhex h = fold (\<lambda>c a. 16 * a + hex_val c) h 0"

lemma hex_val_nth: "k < 16 \<Longrightarrow> hex_val (hex_chars ! k) = k"
proof -
  have "list_all (\<lambda>k. hex_val (hex_chars ! k) = k) [0..<16]" by code_simp
  then show "k < 16 \<Longrightarrow> hex_val (hex_chars ! k) = k" by (simp add: list_all_iff)
qed

lemma unhex_hex_pad: "unhex (hex_pad w n) = n mod 16 ^ w"
proof (induction w arbitrary: n)
  case 0
  then show ?case by (simp add: unhex_def)
next
  case (Suc w)
  then show ?case by (simp add: unhex_def hex_val_nth mod_mult2_eq)
qed

text \<open>The first escape sequence of a text with what follows it, and the character it stands for.\<close>

definition split_escape :: "string \<Rightarrow> string \<times> string" where
  "split_escape s =
     (let n = (if hd s \<noteq> CHR 0x5C then 1 else if hd (tl s) = CHR ''u'' then 6 else 2)
      in (take n s, drop n s))"

definition unescape :: "string \<Rightarrow> char" where
  "unescape t =
     (if length t = 1 then hd t
      else if length t = 6 then char_of (unhex (drop 2 t))
      else let c = hd (tl t) in
        if c = CHR ''n'' then CHR 0x0A else if c = CHR ''r'' then CHR 0x0D
        else if c = CHR ''t'' then CHR 0x09 else if c = CHR ''f'' then CHR 0x0C
        else if c = CHR ''b'' then CHR 0x08 else c)"

lemma split_escape_json_char: "split_escape (json_char c @ xs) = (json_char c, xs)"
  by (simp add: json_char_def split_escape_def)

lemma unescape_json_char: "unescape (json_char c) = c"
  by (simp add: json_char_def unescape_def unhex_hex_pad)

lemma json_char_prefix:
  assumes "json_char c @ xs = json_char d @ ys"
  shows "c = d \<and> xs = ys"
proof -
  have "(json_char c, xs) = (json_char d, ys)"
    using arg_cong [OF assms, of split_escape] unfolding split_escape_json_char .
  then show ?thesis using unescape_json_char by (metis prod.inject)
qed

lemma json_char_not_quote: "json_char c @ xs \<noteq> CHR 0x22 # ys"
  by (simp add: json_char_def)

lemma json_string_body:
  "concat (map json_char s) @ CHR 0x22 # xs = concat (map json_char t) @ CHR 0x22 # ys \<Longrightarrow>
   s = t \<and> xs = ys"
proof (induction s arbitrary: t)
  case Nil
  then show ?case using json_char_not_quote by (cases t) (auto dest: sym)
next
  case (Cons c s)
  then obtain d t' where t: "t = d # t'"
    using json_char_not_quote by (cases t) auto
  with Cons.prems have "json_char c @ concat (map json_char s) @ CHR 0x22 # xs =
      json_char d @ concat (map json_char t') @ CHR 0x22 # ys" by simp
  from json_char_prefix [OF this] Cons.IH t show ?case by auto
qed

lemma json_string_prefix:
  "json_string s @ xs = json_string t @ ys \<Longrightarrow> s = t \<and> xs = ys"
  unfolding json_string_def by (rule json_string_body) simp

definition digits :: string where
  "digits = ''0123456789''"

lemma length_digits [simp]: "length digits = 10"
  by (simp add: digits_def)

lemma dec_nat_chars: "set (dec_nat n) \<subseteq> set digits \<and> dec_nat n \<noteq> []"
proof (induction n rule: dec_nat.induct)
  case (1 n)
  have digit: "digits ! k \<in> set digits" if "k < 10" for k
    using that by (intro nth_mem) simp
  have step: "dec_nat n = (if n < 10 then [digits ! n] else dec_nat (n div 10) @ [digits ! (n mod 10)])"
    unfolding digits_def by (rule dec_nat.simps)
  show ?case
  proof (cases "n < 10")
    case True
    then show ?thesis using digit [of n] unfolding step by simp
  next
    case False
    then show ?thesis using 1 digit [of "n mod 10"] unfolding step by simp
  qed
qed

lemma dec_str_chars: "set (dec_str i) \<subseteq> insert (CHR ''-'') (set digits) \<and> dec_str i \<noteq> []"
  using dec_nat_chars [of "nat i"] dec_nat_chars [of "nat (- i)"] by (auto simp: dec_str_def)

definition undec :: "string \<Rightarrow> nat" where
  "undec s = fold (\<lambda>c a. 10 * a + (of_char c - 48)) s 0"

lemma digit_val: "k < 10 \<Longrightarrow> of_char (digits ! k) - 48 = (k :: nat)"
proof -
  have "list_all (\<lambda>k. of_char (digits ! k) - 48 = (k :: nat)) [0..<10]" by code_simp
  then show "k < 10 \<Longrightarrow> of_char (digits ! k) - 48 = (k :: nat)" by (simp add: list_all_iff)
qed

lemma undec_dec_nat: "undec (dec_nat n) = n"
proof (induction n rule: dec_nat.induct)
  case (1 n)
  have step: "dec_nat n = (if n < 10 then [digits ! n] else dec_nat (n div 10) @ [digits ! (n mod 10)])"
    unfolding digits_def by (rule dec_nat.simps)
  show ?case
  proof (cases "n < 10")
    case True
    then show ?thesis unfolding step by (simp add: undec_def digit_val)
  next
    case False
    with 1 have "undec (dec_nat (n div 10)) = n div 10" by simp
    with False show ?thesis unfolding step undec_def by (simp add: digit_val)
  qed
qed

lemma dec_str_inj:
  assumes "dec_str i = dec_str j"
  shows "i = j"
proof -
  have minus: "CHR ''-'' \<notin> set (dec_nat n)" for n
    using dec_nat_chars [of n] by (auto simp: digits_def)
  have inj: "dec_nat m = dec_nat n \<Longrightarrow> m = n" for m n
    using undec_dec_nat by metis
  show ?thesis
    using assms minus [of "nat i"] minus [of "nat j"] inj [of "nat i" "nat j"]
      inj [of "nat (- i)" "nat (- j)"]
    by (auto simp: dec_str_def split: if_splits) (metis list.set_intros(1))+
qed

lemma join_Cons: "join sep (x # xs) = x @ concat (map (\<lambda>y. sep @ y) xs)"
  by (induction xs arbitrary: x) auto

lemma joined_prefix_tail:
  assumes "\<And>a b us vs. a \<in> set as \<Longrightarrow> b \<in> set bs \<Longrightarrow> stops us \<Longrightarrow> stops vs \<Longrightarrow>
      f a @ us = f b @ vs \<Longrightarrow> a = b \<and> us = vs"
    and "z \<in> set '']}''"
    and "concat (map (\<lambda>a. '','' @ f a) as) @ z # xs = concat (map (\<lambda>b. '','' @ f b) bs) @ z # ys"
  shows "as = bs \<and> xs = ys"
  using assms
proof (induction as arbitrary: bs)
  case Nil
  then show ?case by (cases bs) auto
next
  case (Cons a as)
  from Cons.prems(2,3) obtain b bs' where bs: "bs = b # bs'" by (cases bs) auto
  have st: "stops (concat (map (\<lambda>a. '','' @ f a) cs) @ z # zs)" for cs zs
    using Cons.prems(2) by (cases cs) (auto simp: stops_def)
  have "f a @ concat (map (\<lambda>a. '','' @ f a) as) @ z # xs =
      f b @ concat (map (\<lambda>b. '','' @ f b) bs') @ z # ys"
    using Cons.prems(3) bs by simp
  then have "a = b" and "concat (map (\<lambda>a. '','' @ f a) as) @ z # xs =
      concat (map (\<lambda>b. '','' @ f b) bs') @ z # ys"
    using Cons.prems(1) [of a b, OF _ _ st st] bs by auto
  with Cons.IH [of bs'] Cons.prems(1,2) bs show ?case by auto
qed

lemma joined_prefix:
  assumes "\<And>a b us vs. a \<in> set as \<Longrightarrow> b \<in> set bs \<Longrightarrow> stops us \<Longrightarrow> stops vs \<Longrightarrow>
      f a @ us = f b @ vs \<Longrightarrow> a = b \<and> us = vs"
    and "\<And>c. c \<in> set as \<union> set bs \<Longrightarrow> f c \<noteq> [] \<and> hd (f c) \<noteq> z"
    and "z \<in> set '']}''"
    and "join '','' (map f as) @ z # xs = join '','' (map f bs) @ z # ys"
  shows "as = bs \<and> xs = ys"
proof (cases as)
  case Nil
  have "bs = []"
  proof (cases bs)
    case (Cons b bs')
    then show ?thesis
      using assms(2) [of b] arg_cong [OF assms(4), of hd] \<open>as = []\<close> by (simp add: join_Cons)
  qed
  with Nil assms(4) show ?thesis by simp
next
  case (Cons a as')
  have "bs \<noteq> []"
    using assms(2) [of a] arg_cong [OF assms(4), of hd] Cons by (auto simp: join_Cons)
  then obtain b bs' where bs: "bs = b # bs'" by (cases bs) auto
  have st: "stops (concat (map (\<lambda>a. '','' @ f a) cs) @ z # zs)" for cs zs
    using assms(3) by (cases cs) (auto simp: stops_def)
  have "f a @ concat (map (\<lambda>a. '','' @ f a) as') @ z # xs =
      f b @ concat (map (\<lambda>b. '','' @ f b) bs') @ z # ys"
    using assms(4) Cons bs by (simp add: join_Cons o_def)
  then have ab: "a = b" and rest: "concat (map (\<lambda>a. '','' @ f a) as') @ z # xs =
      concat (map (\<lambda>b. '','' @ f b) bs') @ z # ys"
    using assms(1) [of a b, OF _ _ st st] Cons bs by auto
  have "as' = bs' \<and> xs = ys"
    using joined_prefix_tail [OF _ assms(3) rest] assms(1) Cons bs by auto
  with ab Cons bs show ?thesis by simp
qed

definition char_kind :: "char \<Rightarrow> nat" where
  "char_kind c = (if c = CHR ''n'' then 0 else if c = CHR ''t'' \<or> c = CHR ''f'' then 1
     else if c = CHR 0x22 then 3 else if c = CHR ''['' then 4 else if c = CHR ''{'' then 5 else 2)"

fun json_kind :: "json \<Rightarrow> nat" where
  "json_kind JNull = 0"
| "json_kind (JBool b) = 1"
| "json_kind (JInt i) = 2"
| "json_kind (JFloat q) = 2"
| "json_kind (JStr s) = 3"
| "json_kind (JArr xs) = 4"
| "json_kind (JObj kvs) = 5"

lemma num_chars_kind: "c \<in> set num_chars \<Longrightarrow> char_kind c = 2 \<and> c \<notin> set '',]}''"
  by (auto simp: num_chars_def char_kind_def)

lemma num_chars_digits: "num_chars = digits @ ''+-.e''"
  by (simp add: num_chars_def digits_def)

lemma dec_str_num: "set (dec_str i) \<subseteq> set num_chars \<and> dec_str i \<noteq> []"
  using dec_str_chars [of i] by (auto simp: num_chars_digits)

lemma dec_str_not_float: "CHR ''.'' \<notin> set (dec_str i) \<and> CHR ''e'' \<notin> set (dec_str i)"
proof -
  have "CHR ''.'' \<notin> set digits" "CHR ''e'' \<notin> set digits" by (simp_all add: digits_def)
  with dec_str_chars [of i] show ?thesis by auto
qed

lemma json_finite_float: "json_finite (JFloat x) \<Longrightarrow> \<exists>q. x = Some q"
  by (cases x) (auto simp: json_finite.simps)

lemma json_text_head:
  assumes "float_repr F" and "json_finite v"
  shows "json_text F v \<noteq> [] \<and> char_kind (hd (json_text F v)) = json_kind v \<and>
    hd (json_text F v) \<notin> set '',]}''"
proof (cases v)
  case (JInt i)
  have "hd (dec_str i) \<in> set num_chars" using dec_str_num [of i] by auto
  with num_chars_kind dec_str_num [of i] JInt show ?thesis by auto
next
  case (JFloat x)
  with assms(2) obtain q where "x = Some q" by (cases x) (auto simp: json_finite.simps)
  moreover have "F q \<noteq> []" "set (F q) \<subseteq> set num_chars"
    using assms(1) by (auto simp: float_repr_def)
  then have "hd (F q) \<in> set num_chars" by auto
  ultimately show ?thesis using num_chars_kind JFloat \<open>F q \<noteq> []\<close> by auto
qed (auto simp: char_kind_def json_string_def)

lemma json_wf_child: "json_wf v \<Longrightarrow> c \<in> set (children v) \<Longrightarrow> json_wf c"
  by (subst (asm) json_wf.simps) simp

lemma json_finite_child: "json_finite v \<Longrightarrow> c \<in> set (children v) \<Longrightarrow> json_finite c"
  by (subst (asm) json_finite.simps) (auto simp: list_all_iff)

lemma sorted_object_text:
  assumes "json_wf (JObj kvs)"
  shows "json_text F (JObj kvs) =
    ''{'' @ join '','' (map (\<lambda>(k, v). json_string k @ '':'' @ json_text F v) kvs) @ ''}''"
proof -
  have "sorted_wrt (<) (map fst kvs)" using assms by (subst (asm) json_wf.simps) simp
  then have "sorted (map fst kvs)" by (rule strict_sorted_imp_sorted)
  then have "sorted (map fst (map (\<lambda>(k, v). (k, json_text F v)) kvs))"
    by (simp add: o_def case_prod_unfold)
  then have "sort_key fst (map (\<lambda>(k, v). (k, json_text F v)) kvs) = map (\<lambda>(k, v). (k, json_text F v)) kvs"
    by (rule sort_key_id_if_sorted)
  then show ?thesis by (simp add: o_def case_prod_unfold)
qed

lemma json_list_induct:
  assumes "\<And>v. (\<And>c. c \<in> set (children v) \<Longrightarrow> P c) \<Longrightarrow> P v"
  shows "P (v :: json)"
proof (induction v rule: measure_induct_rule [of size])
  case (less v)
  then show ?case using assms child_size by blast
qed

definition member_text :: "float_text \<Rightarrow> string \<times> json \<Rightarrow> string" where
  "member_text F kv = json_string (fst kv) @ '':'' @ json_text F (snd kv)"

lemma object_text:
  "json_wf (JObj kvs) \<Longrightarrow> json_text F (JObj kvs) = ''{'' @ join '','' (map (member_text F) kvs) @ ''}''"
  unfolding sorted_object_text by (simp add: member_text_def [abs_def] case_prod_unfold)

lemma json_text_prefix:
  assumes F: "float_repr F"
  shows "\<lbrakk>json_wf a; json_finite a; json_wf b; json_finite b; stops xs; stops ys;
    json_text F a @ xs = json_text F b @ ys\<rbrakk> \<Longrightarrow> a = b \<and> xs = ys"
proof (induction a arbitrary: b xs ys rule: json_list_induct)
  case (1 a)
  have kind: "json_kind a = json_kind b"
    using json_text_head [OF F] 1(3,5,8) by (metis hd_append2)
  have rec: "c = d \<and> us = vs" if "c \<in> set (children a)" "d \<in> set (children b)" "stops us" "stops vs"
    "json_text F c @ us = json_text F d @ vs" for c d us vs
    using 1(1) [OF that(1) _ _ _ _ that(3-5)] json_wf_child json_finite_child 1(2-5) that(1,2) by blast
  have head: "json_text F c \<noteq> [] \<and> hd (json_text F c) \<noteq> CHR '']''"
    if "c \<in> set (children a) \<union> set (children b)" for c
    using json_text_head [OF F, of c] json_finite_child 1(3,5) that by auto
  have eq: "json_text F a @ xs = json_text F b @ ys" by (rule 1(8))
  have num: "m = n \<and> xs = ys" if "set m \<subseteq> set num_chars" "set n \<subseteq> set num_chars" "m @ xs = n @ ys" for m n
    using num_chars_prefix [OF that(1,2) 1(6,7) that(3)] .
  have Fc: "set (F q) \<subseteq> set num_chars" for q using F by (auto simp: float_repr_def)
  have Fp: "CHR ''.'' \<in> set (F q) \<or> CHR ''e'' \<in> set (F q)" for q using F by (auto simp: float_repr_def)
  show ?case
  proof (cases a)
    case (JArr as)
    with kind obtain bs where b: "b = JArr bs" by (cases b) auto
    have "as = bs \<and> xs = ys"
    proof (rule joined_prefix [of as bs "json_text F" "CHR '']''"])
      show "c = d \<and> us = vs" if "c \<in> set as" "d \<in> set bs" "stops us" "stops vs"
        "json_text F c @ us = json_text F d @ vs" for c d us vs
        using rec that JArr b by (simp only: children.simps)
      show "json_text F c \<noteq> [] \<and> hd (json_text F c) \<noteq> CHR '']''" if "c \<in> set as \<union> set bs" for c
        using head [of c] that unfolding JArr b children.simps .
      show "join '','' (map (json_text F) as) @ CHR '']'' # xs =
          join '','' (map (json_text F) bs) @ CHR '']'' # ys"
        using 1(8) JArr b by simp
    qed simp
    with JArr b show ?thesis by simp
  next
    case (JObj as)
    with kind obtain bs where b: "b = JObj bs" by (cases b) auto
    have "as = bs \<and> xs = ys"
    proof (rule joined_prefix [of as bs "member_text F" "CHR ''}''"])
      fix kv kw us vs
      assume mem: "kv \<in> set as" "kw \<in> set bs" and st: "stops us" "stops vs"
        and eq: "member_text F kv @ us = member_text F kw @ vs"
      from eq have "json_string (fst kv) @ '':'' @ json_text F (snd kv) @ us =
          json_string (fst kw) @ '':'' @ json_text F (snd kw) @ vs"
        unfolding member_text_def by (simp only: append_assoc)
      from json_string_prefix [OF this] have "fst kv = fst kw"
        and "json_text F (snd kv) @ us = json_text F (snd kw) @ vs" by simp_all
      moreover have "snd kv \<in> set (children a)" "snd kw \<in> set (children b)" using mem JObj b by auto
      ultimately show "kv = kw \<and> us = vs" using rec st by (auto simp: prod_eq_iff)
    next
      show "join '','' (map (member_text F) as) @ CHR ''}'' # xs =
          join '','' (map (member_text F) bs) @ CHR ''}'' # ys"
        using 1(2,4,8) unfolding JObj b by (simp add: object_text del: json_text.simps)
    qed (auto simp: member_text_def json_string_def)
    with JObj b show ?thesis by simp
  next
    case (JInt i)
    then consider j where "b = JInt j" | q where "b = JFloat (Some q)"
      using kind 1(5) json_finite_float by (cases b) auto
    then show ?thesis
    proof cases
      case 1: 1
      with JInt eq have "dec_str i @ xs = dec_str j @ ys" by simp
      with num have "dec_str i = dec_str j \<and> xs = ys" using dec_str_num by blast
      then show ?thesis using dec_str_inj JInt 1 by auto
    next
      case 2: 2
      with JInt eq have "dec_str i @ xs = F q @ ys" by simp
      with num have "dec_str i = F q" using dec_str_num Fc by blast
      then show ?thesis using Fp [of q] dec_str_not_float [of i] by metis
    qed
  next
    case (JFloat x)
    then obtain p where p: "x = Some p" using 1(3) json_finite_float by blast
    from JFloat consider j where "b = JInt j" | q where "b = JFloat (Some q)"
      using kind 1(5) json_finite_float by (cases b) auto
    then show ?thesis
    proof cases
      case 1: 1
      with JFloat p eq have "F p @ xs = dec_str j @ ys" by simp
      with num have "F p = dec_str j" using dec_str_num Fc by blast
      then show ?thesis using Fp [of p] dec_str_not_float [of j] by metis
    next
      case 2: 2
      with JFloat p eq have "F p @ xs = F q @ ys" by simp
      with num have "F p = F q \<and> xs = ys" using Fc by blast
      moreover from this have "p = q" using F by (auto simp: float_repr_def dest: injD)
      ultimately show ?thesis using JFloat p 2 by simp
    qed
  next
    case (JStr s)
    with kind obtain t where b: "b = JStr t" by (cases b) auto
    with JStr eq have "json_string s @ xs = json_string t @ ys" by simp
    from json_string_prefix [OF this] JStr b show ?thesis by simp
  qed (use kind eq in \<open>cases b; auto split: if_splits\<close>)+
qed

lemma canonical_json_inj:
  assumes "float_repr F" and "json_wf a" and "json_wf b"
    and "canonical_json F a = Some t" and "canonical_json F b = Some t"
  shows "a = b"
  using json_text_prefix [of F a b "[]" "[]"] assms
  by (auto simp: canonical_json_def stops_def split: if_splits)

text \<open>
  The bytes hashed for one text under a domain determine the text, so equal digests of two texts
  mean equal texts when the hash function keeps these two byte strings apart.
\<close>

lemma length_prefixed_single:
  assumes "inj_on H {concat (map frame [d, t]), concat (map frame [d, u])}"
    and "length_prefixed_sha256 H d [t] = length_prefixed_sha256 H d [u]"
  shows "t = u"
proof -
  have "concat (map frame [d, t]) = concat (map frame [d, u])"
    using assms by (auto simp: length_prefixed_sha256_def dest: inj_onD)
  then have "be_bytes 8 (length t) @ t = be_bytes 8 (length u) @ u" by (simp add: frame_def)
  then show "t = u" by (metis append_eq_append_conv length_be_bytes)
qed

text \<open>
  Canonical JSON does not alias: two well-formed finite JSON values with the same canonical
  encoding are the same value, whatever their nesting, so a digest or integrity tag over the
  encoding is one over the value.
\<close>

theorem canonical_json_injective:
  assumes "float_repr F" and "json_wf a" and "json_wf b"
    and "canonical_json F a = Some t" and "canonical_json F b = Some t"
  shows "a = b"
  using canonical_json_inj [OF assms] .

section \<open>A concrete encoding\<close>

text \<open>A float spelling that meets \<open>float_repr\<close>: numerator, point, denominator.\<close>

definition ratio_text :: float_text where
  "ratio_text q = dec_str (fst (quotient_of q)) @ ''.'' @ dec_str (snd (quotient_of q))"

lemma ratio_text_repr: "float_repr ratio_text"
proof -
  have "inj ratio_text"
  proof (rule injI)
    fix p q
    assume eq: "ratio_text p = ratio_text q"
    have cut: "takeWhile (\<lambda>c. c \<noteq> CHR ''.'') (dec_str i @ ''.'' @ t) = dec_str i" for i t
      using dec_str_not_float [of i] by (subst takeWhile_append2) auto
    have "dec_str (fst (quotient_of p)) = dec_str (fst (quotient_of q))"
      using eq cut unfolding ratio_text_def by metis
    moreover from this eq have "dec_str (snd (quotient_of p)) = dec_str (snd (quotient_of q))"
      by (simp add: ratio_text_def)
    ultimately have "quotient_of p = quotient_of q" using dec_str_inj by (simp add: prod_eq_iff)
    then show "p = q" by (rule quotient_of_inject)
  qed
  moreover have "CHR ''.'' \<in> set num_chars" by (simp add: num_chars_def)
  ultimately show ?thesis
    using dec_str_num by (auto simp: float_repr_def ratio_text_def dest: subsetD)
qed

theorem canonical_json_injective_witness:
  "JObj [(''a'', JInt 1)] = JObj [(''a'', JInt 1)]"
  by (rule canonical_json_injective [OF ratio_text_repr, where t = "json_text ratio_text (JObj [(''a'', JInt 1)])"])
    (simp_all add: canonical_json_def json_finite.simps)

end
