(* ===== verification/Records.thy ===== *)
theory Records
  imports Json Digests Budget
begin

text \<open>
  The runtime records of \<open>domain/records.py\<close>: one HOL record per pydantic model, with the
  source's fields (a short prefix tells apart the fields several models share; the constant
  \<open>schema_version\<close> and \<open>record_type\<close> fields are left out), and for every model the predicate
  \<open>valid_...\<close> that pydantic's field constraints and the model's own validators compute: a
  construction or revalidation succeeds exactly when it holds.

  Confidence, strength and reward are floats; a finite float is the rational it denotes. Text is
  UTF-8, so character counts (as opposed to byte counts) go through \<open>code_points\<close>.
\<close>

definition code_points :: "string \<Rightarrow> nat" where
  "code_points s = length (filter (\<lambda>c. of_char c < (128::nat) \<or> 192 \<le> (of_char c :: nat)) s)"

lemma code_points_length: "code_points s \<le> length s"
  by (simp add: code_points_def)

definition unit_interval :: "rat \<Rightarrow> bool" where
  "unit_interval q \<longleftrightarrow> 0 \<le> q \<and> q \<le> 1"

definition opt_all :: "('a \<Rightarrow> bool) \<Rightarrow> 'a option \<Rightarrow> bool" where
  "opt_all P x = (case x of None \<Rightarrow> True | Some v \<Rightarrow> P v)"

lemma opt_all_simps [simp]: "opt_all P None" "opt_all P (Some v) = P v"
  by (simp_all add: opt_all_def)

section \<open>Evidence and digests\<close>

record text_span =
  span_start_byte :: int
  span_end_byte :: int

definition valid_text_span :: "text_span \<Rightarrow> bool" where
  "valid_text_span s \<longleftrightarrow> 0 \<le> span_start_byte s \<and> span_start_byte s \<le> max_signed_64 \<and>
     1 \<le> span_end_byte s \<and> span_end_byte s \<le> max_signed_64 \<and>
     span_start_byte s < span_end_byte s"

record evidence_reference =
  er_source :: evidence_source
  er_source_id :: uuid
  er_revision :: "int option"
  er_field_path :: string
  er_span :: "text_span option"

fun tilde_escapes :: "string \<Rightarrow> bool" where
  "tilde_escapes [] = True"
| "tilde_escapes [c] = (c \<noteq> CHR ''~'')"
| "tilde_escapes (c # d # cs) =
     (if c = CHR ''~'' then (d = CHR ''0'' \<or> d = CHR ''1'') \<and> tilde_escapes cs
      else tilde_escapes (d # cs))"

text \<open>\<open>JsonPointer\<close>: \<open>^(?:/(?:[^~/]|~[01])*)+$\<close>, at most 1024 characters.\<close>

definition json_pointer :: "string \<Rightarrow> bool" where
  "json_pointer s \<longleftrightarrow> s \<noteq> [] \<and> hd s = CHR ''/'' \<and> tilde_escapes s \<and> code_points s \<le> 1024"

definition valid_evidence_reference :: "evidence_reference \<Rightarrow> bool" where
  "valid_evidence_reference r \<longleftrightarrow> uuid4 (er_source_id r) \<and> opt_all (\<lambda>n. 1 \<le> n) (er_revision r) \<and>
     json_pointer (er_field_path r) \<and> opt_all valid_text_span (er_span r) \<and>
     \<not> (er_source r = Source_MEMORY \<and> er_revision r = None) \<and>
     \<not> (er_source r = Source_EVENT \<and> er_revision r \<noteq> None)"

record payload_digest =
  pd_algorithm :: payload_digest_algorithm
  pd_value :: digest

definition valid_payload_digest :: "payload_digest \<Rightarrow> bool" where
  "valid_payload_digest d = sha256_digest (pd_value d)"

section \<open>Events and signals\<close>

record event_draft =
  dr_run_id :: uuid
  dr_source_event_id :: string
  dr_timestamp :: timestamp
  dr_event_type :: event_type
  dr_phase :: event_phase
  dr_payload :: json
  dr_parent_ids :: "uuid list"
  dr_source_adapter :: string
  dr_trust_label :: trust_label

record redacted_draft = event_draft +
  dr_payload_digest :: payload_digest

record trace_event =
  ev_event_id :: uuid
  ev_run_id :: uuid
  ev_sequence :: int
  ev_source_event_id :: string
  ev_timestamp :: timestamp
  ev_event_type :: event_type
  ev_phase :: event_phase
  ev_payload :: json
  ev_payload_digest :: payload_digest
  ev_parent_ids :: "uuid list"
  ev_source_adapter :: string
  ev_trust_label :: trust_label

definition max_trace_event_parents :: nat where
  "max_trace_event_parents = 64"

definition is_object :: "json \<Rightarrow> bool" where
  "is_object v = (case v of JObj kvs \<Rightarrow> True | _ \<Rightarrow> False)"

text \<open>
  \<open>canonicalize_parent_set\<close> sorts the parents by their text, which is numeric order, so an
  instance that pydantic has built lists them in ascending order.
\<close>

definition valid_parents :: "uuid list \<Rightarrow> bool" where
  "valid_parents ps \<longleftrightarrow> list_all uuid4 ps \<and> length ps \<le> max_trace_event_parents \<and>
     sorted ps \<and> distinct ps"

definition valid_event_draft :: "'a event_draft_scheme \<Rightarrow> bool" where
  "valid_event_draft d \<longleftrightarrow> uuid4 (dr_run_id d) \<and> component_identifier (dr_source_event_id d) \<and>
     trace_event_payload_is_bounded (dr_payload d) \<and> is_object (dr_payload d) \<and>
     valid_parents (dr_parent_ids d) \<and> component_identifier (dr_source_adapter d)"

definition valid_trace_event :: "trace_event \<Rightarrow> bool" where
  "valid_trace_event e \<longleftrightarrow> uuid4 (ev_event_id e) \<and> uuid4 (ev_run_id e) \<and> 1 \<le> ev_sequence e \<and>
     component_identifier (ev_source_event_id e) \<and>
     trace_event_payload_is_bounded (ev_payload e) \<and> is_object (ev_payload e) \<and>
     valid_payload_digest (ev_payload_digest e) \<and>
     valid_parents (ev_parent_ids e) \<and> component_identifier (ev_source_adapter e)"

record signal =
  sg_signal_id :: uuid
  sg_run_id :: uuid
  sg_created_at :: timestamp
  sg_signal_type :: signal_type
  sg_strength :: rat
  sg_evidence_event_ids :: "uuid list"
  sg_detector_version :: string
  sg_reason_code :: reason_code

definition max_signal_evidence_events :: nat where
  "max_signal_evidence_events = 64"

definition valid_signal :: "signal \<Rightarrow> bool" where
  "valid_signal s \<longleftrightarrow> uuid4 (sg_signal_id s) \<and> uuid4 (sg_run_id s) \<and> unit_interval (sg_strength s) \<and>
     list_all uuid4 (sg_evidence_event_ids s) \<and>
     1 \<le> length (sg_evidence_event_ids s) \<and>
     length (sg_evidence_event_ids s) \<le> max_signal_evidence_events \<and>
     component_identifier (sg_detector_version s) \<and>
     distinct (sg_evidence_event_ids s) \<and>
     sg_reason_code s = signal_reason (sg_signal_type s)"

section \<open>Memory\<close>

record memory_record =
  mr_memory_id :: uuid
  mr_run_id :: uuid
  mr_kind :: memory_kind
  mr_content :: string
  mr_provenance :: "evidence_reference list"
  mr_confidence :: rat
  mr_validity :: validity_state
  mr_revision :: int
  mr_created_at :: timestamp
  mr_updated_at :: timestamp
  mr_access_count :: int
  mr_last_accessed_at :: "timestamp option"
  mr_expires_at :: "timestamp option"
  mr_invalidated_at :: "timestamp option"
  mr_trust_label :: trust_label

definition valid_memory_record :: "memory_record \<Rightarrow> bool" where
  "valid_memory_record m \<longleftrightarrow> uuid4 (mr_memory_id m) \<and> uuid4 (mr_run_id m) \<and> mr_content m \<noteq> [] \<and>
     mr_provenance m \<noteq> [] \<and> list_all valid_evidence_reference (mr_provenance m) \<and>
     unit_interval (mr_confidence m) \<and> 1 \<le> mr_revision m \<and> 0 \<le> mr_access_count m \<and>
     \<not> mr_updated_at m < mr_created_at m \<and>
     opt_all (\<lambda>t. \<not> t < mr_created_at m) (mr_last_accessed_at m) \<and>
     opt_all (\<lambda>t. \<not> t \<le> mr_created_at m) (mr_expires_at m) \<and>
     \<not> (mr_validity m = Validity_INVALIDATED \<and> mr_invalidated_at m = None) \<and>
     \<not> (mr_validity m \<noteq> Validity_INVALIDATED \<and> mr_invalidated_at m \<noteq> None) \<and>
     opt_all (\<lambda>t. \<not> t < mr_created_at m) (mr_invalidated_at m)"

definition max_memory_content_bytes :: nat where
  "max_memory_content_bytes = 64 * 1024"

definition max_memory_delta_items :: nat where
  "max_memory_delta_items = 64"

definition max_memory_provenance_items :: nat where
  "max_memory_provenance_items = 8"

record memory_create =
  mc_handle :: string
  mc_kind :: memory_kind
  mc_content :: string
  mc_provenance :: "evidence_reference list"
  mc_confidence :: rat
  mc_trust_label :: trust_label
  mc_expires_at :: "timestamp option"

definition valid_memory_create :: "memory_create \<Rightarrow> bool" where
  "valid_memory_create c \<longleftrightarrow> mc_handle c \<noteq> [] \<and> code_points (mc_handle c) \<le> 256 \<and>
     length (mc_content c) \<le> max_memory_content_bytes \<and> mc_content c \<noteq> [] \<and>
     1 \<le> length (mc_provenance c) \<and> length (mc_provenance c) \<le> max_memory_provenance_items \<and>
     list_all valid_evidence_reference (mc_provenance c) \<and> unit_interval (mc_confidence c)"

record expiration_patch =
  ep_action :: expiration_action
  ep_value :: "timestamp option"

definition valid_expiration_patch :: "expiration_patch \<Rightarrow> bool" where
  "valid_expiration_patch p \<longleftrightarrow> \<not> (ep_action p = Expire_SET \<and> ep_value p = None) \<and>
     \<not> (ep_action p \<noteq> Expire_SET \<and> ep_value p \<noteq> None)"

record memory_update =
  mu_memory_id :: uuid
  mu_expected_revision :: int
  mu_content :: "string option"
  mu_provenance :: "evidence_reference list option"
  mu_confidence :: "rat option"
  mu_expiration :: expiration_patch

definition valid_memory_update :: "memory_update \<Rightarrow> bool" where
  "valid_memory_update u \<longleftrightarrow> uuid4 (mu_memory_id u) \<and> 1 \<le> mu_expected_revision u \<and>
     opt_all (\<lambda>c. length c \<le> max_memory_content_bytes \<and> c \<noteq> []) (mu_content u) \<and>
     opt_all (\<lambda>p. 1 \<le> length p \<and> length p \<le> max_memory_provenance_items \<and>
        list_all valid_evidence_reference p) (mu_provenance u) \<and>
     opt_all unit_interval (mu_confidence u) \<and> valid_expiration_patch (mu_expiration u) \<and>
     \<not> (mu_content u = None \<and> mu_provenance u = None \<and> mu_confidence u = None \<and>
        ep_action (mu_expiration u) = Expire_KEEP)"

record memory_invalidation =
  mi_memory_id :: uuid
  mi_expected_revision :: int
  mi_reason_code :: reason_code

definition valid_memory_invalidation :: "memory_invalidation \<Rightarrow> bool" where
  "valid_memory_invalidation i \<longleftrightarrow> uuid4 (mi_memory_id i) \<and> 1 \<le> mi_expected_revision i"

record private_status_replacement =
  ps_expected_memory_id :: "uuid option"
  ps_expected_revision :: "int option"
  ps_replacement :: memory_create

definition valid_private_status_replacement :: "private_status_replacement \<Rightarrow> bool" where
  "valid_private_status_replacement p \<longleftrightarrow> opt_all uuid4 (ps_expected_memory_id p) \<and>
     opt_all (\<lambda>n. 1 \<le> n) (ps_expected_revision p) \<and> valid_memory_create (ps_replacement p) \<and>
     \<not> ((ps_expected_memory_id p = None) \<noteq> (ps_expected_revision p = None)) \<and>
     \<not> mc_kind (ps_replacement p) \<noteq> Kind_PRIVATE_STATUS"

record memory_delta =
  md_delta_id :: uuid
  md_run_id :: uuid
  md_creates :: "memory_create list"
  md_updates :: "memory_update list"
  md_invalidations :: "memory_invalidation list"
  md_private_status_replacement :: "private_status_replacement option"
  md_created_at :: timestamp

definition delta_handles :: "memory_delta \<Rightarrow> string list" where
  "delta_handles d = map mc_handle (md_creates d) @
     (case md_private_status_replacement d of None \<Rightarrow> []
      | Some p \<Rightarrow> [mc_handle (ps_replacement p)])"

definition valid_memory_delta :: "memory_delta \<Rightarrow> bool" where
  "valid_memory_delta d \<longleftrightarrow> uuid4 (md_delta_id d) \<and> uuid4 (md_run_id d) \<and>
     length (md_creates d) \<le> max_memory_delta_items \<and> list_all valid_memory_create (md_creates d) \<and>
     length (md_updates d) \<le> max_memory_delta_items \<and> list_all valid_memory_update (md_updates d) \<and>
     length (md_invalidations d) \<le> max_memory_delta_items \<and>
     list_all valid_memory_invalidation (md_invalidations d) \<and>
     opt_all valid_private_status_replacement (md_private_status_replacement d) \<and>
     \<not> list_ex (\<lambda>c. mc_kind c = Kind_PRIVATE_STATUS) (md_creates d) \<and>
     distinct (delta_handles d) \<and>
     distinct (map mu_memory_id (md_updates d)) \<and>
     distinct (map mi_memory_id (md_invalidations d)) \<and>
     set (map mu_memory_id (md_updates d)) \<inter> set (map mi_memory_id (md_invalidations d)) = {}"

record memory_id_assignment =
  ma_handle :: string
  ma_memory_id :: uuid

definition valid_memory_id_assignment :: "memory_id_assignment \<Rightarrow> bool" where
  "valid_memory_id_assignment a \<longleftrightarrow> ma_handle a \<noteq> [] \<and> uuid4 (ma_memory_id a)"

section \<open>Invocation decisions\<close>

record invocation_decision =
  id_decision_id :: uuid
  id_run_id :: uuid
  id_event_sequence :: int
  id_invoke :: bool
  id_risk_score :: "rat option"
  id_reason_codes :: "reason_code list"
  id_policy_version :: string
  id_configuration_digest :: digest
  id_budget_snapshot :: budget_snapshot
  id_cooldown_active :: bool
  id_created_at :: timestamp

definition forced_invoke_reason_codes :: "reason_code list" where
  "forced_invoke_reason_codes = [Reason_POLICY_ALWAYS, Reason_SCRIPTED_INVOKE, Reason_BOOTSTRAP,
     Reason_WATCHDOG, Reason_HARD_SIGNAL, Reason_RISK_THRESHOLD_MET]"

definition forced_silence_reason_codes :: "reason_code list" where
  "forced_silence_reason_codes = [Reason_POLICY_NEVER, Reason_SCRIPTED_SILENCE,
     Reason_SCRIPT_EXHAUSTED, Reason_BUDGET_EXHAUSTED, Reason_COOLDOWN_ACTIVE,
     Reason_RISK_BELOW_THRESHOLD]"

definition risk_threshold_reason_codes :: "reason_code list" where
  "risk_threshold_reason_codes = [Reason_RISK_THRESHOLD_MET, Reason_RISK_BELOW_THRESHOLD]"

definition signal_reason_codes :: "reason_code list" where
  "signal_reason_codes = map signal_reason [Signal_TOOL_ERROR, Signal_TEST_FAILURE,
     Signal_REPEATED_ACTION, Signal_REPEATED_FAILURE, Signal_CONTEXT_SHIFT,
     Signal_STALE_CONSTRAINT, Signal_STAGNATION, Signal_IRREVERSIBLE_ACTION, Signal_CONFLICT]"

definition invocation_reason_codes :: "reason_code list" where
  "invocation_reason_codes =
     forced_invoke_reason_codes @ forced_silence_reason_codes @ signal_reason_codes"

definition valid_invocation_decision :: "invocation_decision \<Rightarrow> bool" where
  "valid_invocation_decision d \<longleftrightarrow> uuid4 (id_decision_id d) \<and> uuid4 (id_run_id d) \<and>
     1 \<le> id_event_sequence d \<and> opt_all unit_interval (id_risk_score d) \<and>
     1 \<le> length (id_reason_codes d) \<and>
     length (id_reason_codes d) \<le> length invocation_reason_codes \<and>
     component_identifier (id_policy_version d) \<and> sha256_digest (id_configuration_digest d) \<and>
     valid_budget_snapshot (id_budget_snapshot d) \<and>
     distinct (id_reason_codes d) \<and>
     list_all (\<lambda>r. r \<in> set invocation_reason_codes) (id_reason_codes d) \<and>
     \<not> (\<not> id_invoke d \<and> list_ex (\<lambda>r. r \<in> set forced_invoke_reason_codes) (id_reason_codes d)) \<and>
     \<not> (id_invoke d \<and> list_ex (\<lambda>r. r \<in> set forced_silence_reason_codes) (id_reason_codes d)) \<and>
     \<not> (id_risk_score d = None \<and>
        list_ex (\<lambda>r. r \<in> set risk_threshold_reason_codes) (id_reason_codes d)) \<and>
     \<not> (Reason_COOLDOWN_ACTIVE \<in> set (id_reason_codes d) \<and> \<not> id_cooldown_active d)"

section \<open>Interventions\<close>

record intervention_claim =
  ic_kind :: claim_kind
  ic_fields :: json
  ic_evidence :: "evidence_reference list"

definition valid_intervention_claim :: "intervention_claim \<Rightarrow> bool" where
  "valid_intervention_claim c \<longleftrightarrow> is_object (ic_fields c) \<and> json_finite (ic_fields c) \<and>
     1 \<le> length (ic_evidence c) \<and> length (ic_evidence c) \<le> 8 \<and>
     list_all valid_evidence_reference (ic_evidence c) \<and> distinct (ic_evidence c)"

text \<open>
  \<open>_cited_ids\<close> fills an insertion-ordered dictionary, so its keys are the cited identifiers in
  the order of their first citation.
\<close>

fun add_cited :: "evidence_source \<Rightarrow> evidence_reference list \<Rightarrow> uuid list \<Rightarrow> uuid list" where
  "add_cited source [] ordered = ordered"
| "add_cited source (e # es) ordered =
     add_cited source es
       (if er_source e = source \<and> er_source_id e \<notin> set ordered
        then ordered @ [er_source_id e] else ordered)"

definition cited_ids :: "intervention_claim list \<Rightarrow> evidence_source \<Rightarrow> uuid list" where
  "cited_ids claims source =
     fold (\<lambda>claim ordered. add_cited source (ic_evidence claim) ordered) claims []"

definition silence_reason_codes :: "reason_code list" where
  "silence_reason_codes = [Reason_SILENCE_SELECTED, Reason_NO_GROUNDED_CLAIMS,
     Reason_SCHEMA_INVALID, Reason_CLAIM_OVER_LIMIT, Reason_CITATION_MISSING,
     Reason_CITATION_CROSS_RUN, Reason_CITATION_EXPIRED, Reason_CITATION_INVALIDATED,
     Reason_INVALID_PROVENANCE, Reason_UNGROUNDED, Reason_DUPLICATE_REMINDER,
     Reason_COOLDOWN_BLOCKED, Reason_UNSUPPORTED_DELIVERY_TARGET]"

record intervention_decision =
  iv_intervention_id :: uuid
  iv_run_id :: uuid
  iv_cycle_id :: digest
  iv_grounding_version :: string
  iv_grounding_configuration :: json
  iv_grounding_configuration_digest :: digest
  iv_grounding_receipt :: json
  iv_action :: intervention_action
  iv_delivery_target :: "delivery_target option"
  iv_claims :: "intervention_claim list"
  iv_rendered_text :: "string option"
  iv_cited_memory_ids :: "uuid list"
  iv_cited_event_ids :: "uuid list"
  iv_confidence :: rat
  iv_reason_code :: reason_code
  iv_ttl_steps :: int
  iv_created_at :: timestamp

definition valid_intervention_decision :: "intervention_decision \<Rightarrow> bool" where
  "valid_intervention_decision d \<longleftrightarrow> uuid4 (iv_intervention_id d) \<and> uuid4 (iv_run_id d) \<and>
     sha256_digest (iv_cycle_id d) \<and> component_identifier (iv_grounding_version d) \<and>
     is_object (iv_grounding_configuration d) \<and> json_finite (iv_grounding_configuration d) \<and>
     sha256_digest (iv_grounding_configuration_digest d) \<and>
     is_object (iv_grounding_receipt d) \<and> json_finite (iv_grounding_receipt d) \<and>
     length (iv_claims d) \<le> 2 \<and> list_all valid_intervention_claim (iv_claims d) \<and>
     opt_all (\<lambda>t. t \<noteq> []) (iv_rendered_text d) \<and>
     list_all uuid4 (iv_cited_memory_ids d) \<and> list_all uuid4 (iv_cited_event_ids d) \<and>
     unit_interval (iv_confidence d) \<and> 0 \<le> iv_ttl_steps d \<and>
     iv_cited_memory_ids d = cited_ids (iv_claims d) Source_MEMORY \<and>
     iv_cited_event_ids d = cited_ids (iv_claims d) Source_EVENT \<and>
     (if iv_action d = Action_SILENCE
      then iv_delivery_target d = None \<and> iv_rendered_text d = None \<and>
           iv_claims d = [] \<and> iv_cited_memory_ids d = [] \<and> iv_cited_event_ids d = [] \<and>
           iv_reason_code d \<in> set silence_reason_codes \<and> iv_ttl_steps d = 0
      else iv_reason_code d = Reason_GROUNDED_REMINDER \<and> iv_delivery_target d \<noteq> None \<and>
           iv_claims d \<noteq> [] \<and> iv_rendered_text d \<noteq> None \<and> iv_ttl_steps d = 1)"

record intervention_outcome =
  io_outcome_id :: uuid
  io_run_id :: uuid
  io_intervention_id :: uuid
  io_next_action_fingerprint :: "digest option"
  io_repeated_error_status :: repeated_error_status
  io_constraint_status :: constraint_status
  io_evidence_mode :: outcome_evidence_mode
  io_utility :: "utility_label option"
  io_action_changed :: "bool option"
  io_task_reward :: "rat option"
  io_task_passed :: "bool option"
  io_steps :: int
  io_tool_calls :: int
  io_memory_calls :: int
  io_input_tokens :: int
  io_output_tokens :: int
  io_canonical_token_equivalents :: int
  io_latency_us :: int
  io_created_at :: timestamp

definition valid_intervention_outcome :: "intervention_outcome \<Rightarrow> bool" where
  "valid_intervention_outcome o' \<longleftrightarrow> uuid4 (io_outcome_id o') \<and> uuid4 (io_run_id o') \<and>
     uuid4 (io_intervention_id o') \<and> opt_all sha256_digest (io_next_action_fingerprint o') \<and>
     list_all (\<lambda>n. 0 \<le> n) [io_steps o', io_tool_calls o', io_memory_calls o', io_input_tokens o',
       io_output_tokens o', io_canonical_token_equivalents o', io_latency_us o'] \<and>
     \<not> (io_evidence_mode o' = Mode_POLICY_REPLAY \<and> io_utility o' \<noteq> None)"

section \<open>Cycles\<close>

record cycle_record =
  cy_cycle_id :: digest
  cy_run_id :: uuid
  cy_revision :: int
  cy_invocation_decision_id :: uuid
  cy_policy_version :: string
  cy_configuration_digest :: digest
  cy_grounding_version :: string
  cy_grounding_configuration :: json
  cy_grounding_configuration_digest :: digest
  cy_requested_delivery_target :: "delivery_target option"
  cy_first_event_sequence :: int
  cy_last_event_sequence :: int
  cy_state :: cycle_state
  cy_budget_reservation :: "budget_amounts option"
  cy_budget_settlement :: "budget_amounts option"
  cy_batch_digest :: "digest option"
  cy_model_call_digests :: "digest list"
  cy_model_call_latencies_us :: "int list"
  cy_validated_delta :: "memory_delta option"
  cy_memory_id_assignments :: "memory_id_assignment list"
  cy_intervention :: "intervention_decision option"
  cy_selector_provenance :: "json option"
  cy_failure_reason :: "reason_code option"
  cy_created_at :: timestamp
  cy_updated_at :: timestamp

definition cycle_fields_ok :: "cycle_record \<Rightarrow> bool" where
  "cycle_fields_ok c \<longleftrightarrow> sha256_digest (cy_cycle_id c) \<and> uuid4 (cy_run_id c) \<and> 1 \<le> cy_revision c \<and>
     uuid4 (cy_invocation_decision_id c) \<and> component_identifier (cy_policy_version c) \<and>
     sha256_digest (cy_configuration_digest c) \<and> component_identifier (cy_grounding_version c) \<and>
     is_object (cy_grounding_configuration c) \<and> json_finite (cy_grounding_configuration c) \<and>
     sha256_digest (cy_grounding_configuration_digest c) \<and>
     1 \<le> cy_first_event_sequence c \<and> 1 \<le> cy_last_event_sequence c \<and>
     opt_all valid_budget_amounts (cy_budget_reservation c) \<and>
     opt_all valid_budget_amounts (cy_budget_settlement c) \<and>
     opt_all sha256_digest (cy_batch_digest c) \<and>
     list_all sha256_digest (cy_model_call_digests c) \<and>
     list_all (\<lambda>n. 0 \<le> n) (cy_model_call_latencies_us c) \<and>
     opt_all valid_memory_delta (cy_validated_delta c) \<and>
     list_all valid_memory_id_assignment (cy_memory_id_assignments c) \<and>
     opt_all valid_intervention_decision (cy_intervention c) \<and>
     opt_all (\<lambda>p. is_object p \<and> json_finite p) (cy_selector_provenance c)"

definition cycle_identity_ok :: "hash_fun \<Rightarrow> cycle_record \<Rightarrow> bool" where
  "cycle_identity_ok H c \<longleftrightarrow>
     \<not> cy_last_event_sequence c < cy_first_event_sequence c \<and>
     \<not> cy_updated_at c < cy_created_at c \<and>
     cycle_id H (cy_run_id c) (cy_first_event_sequence c) (cy_last_event_sequence c)
       (cy_policy_version c) (cy_configuration_digest c) (cy_grounding_version c)
       (cy_grounding_configuration_digest c) (cy_requested_delivery_target c) =
       Inr (cy_cycle_id c) \<and>
     opt_all (\<lambda>d. md_run_id d = cy_run_id c) (cy_validated_delta c) \<and>
     opt_all (\<lambda>i. iv_run_id i = cy_run_id c \<and> iv_cycle_id i = cy_cycle_id c \<and>
        \<not> (iv_grounding_version i \<noteq> cy_grounding_version c \<or>
           iv_grounding_configuration i \<noteq> cy_grounding_configuration c \<or>
           iv_grounding_configuration_digest i \<noteq> cy_grounding_configuration_digest c) \<and>
        \<not> (iv_action i = Action_REMIND \<and>
           iv_delivery_target i \<noteq> cy_requested_delivery_target c)) (cy_intervention c)"

definition cycle_budget_ok :: "cycle_record \<Rightarrow> bool" where
  "cycle_budget_ok c \<longleftrightarrow>
     length (cy_model_call_digests c) = length (cy_model_call_latencies_us c) \<and>
     opt_all (\<lambda>r. \<not> model_calls r < 1) (cy_budget_reservation c) \<and>
     (case (cy_budget_settlement c, cy_budget_reservation c) of
        (Some s, Some r) \<Rightarrow>
          \<not> list_ex (\<lambda>f. amount f s > amount f r) budget_fields \<and>
          \<not> sum_list (cy_model_call_latencies_us c) > latency_us s
      | _ \<Rightarrow> True)"

definition expected_handles :: "cycle_record \<Rightarrow> string list" where
  "expected_handles c = (case cy_validated_delta c of None \<Rightarrow> [] | Some d \<Rightarrow> delta_handles d)"

definition cycle_assignments_ok :: "cycle_record \<Rightarrow> bool" where
  "cycle_assignments_ok c \<longleftrightarrow>
     distinct (map ma_handle (cy_memory_id_assignments c)) \<and>
     distinct (map ma_memory_id (cy_memory_id_assignments c)) \<and>
     map ma_handle (cy_memory_id_assignments c) = expected_handles c"

definition no_receipts :: "cycle_record \<Rightarrow> bool" where
  "no_receipts c \<longleftrightarrow> cy_model_call_digests c = [] \<and> cy_model_call_latencies_us c = []"

definition no_committed_outputs :: "cycle_record \<Rightarrow> bool" where
  "no_committed_outputs c \<longleftrightarrow> cy_budget_settlement c = None \<and> cy_validated_delta c = None \<and>
     cy_intervention c = None \<and> cy_memory_id_assignments c = []"

definition intervention_count :: "intervention_decision \<Rightarrow> int" where
  "intervention_count i = (if iv_action i = Action_REMIND then 1 else 0)"

definition failed_cycle_ok :: "cycle_record \<Rightarrow> bool" where
  "failed_cycle_ok c \<longleftrightarrow> cy_failure_reason c \<noteq> None \<and>
     cy_validated_delta c = None \<and> cy_intervention c = None \<and>
     (case cy_budget_reservation c of
        None \<Rightarrow> cy_budget_settlement c = None \<and> cy_batch_digest c = None \<and> no_receipts c
      | Some r \<Rightarrow> cy_budget_settlement c \<noteq> None) \<and>
     (if cy_failure_reason c = Some Reason_FAILED_UNKNOWN_COST
      then cy_batch_digest c \<noteq> None \<and> cy_budget_reservation c \<noteq> None \<and>
           cy_budget_settlement c = cy_budget_reservation c \<and>
           opt_all (\<lambda>r. int (length (cy_model_call_digests c)) \<le> model_calls r)
             (cy_budget_reservation c)
      else (case cy_budget_settlement c of None \<Rightarrow> True
            | Some s \<Rightarrow>
                interventions_used s = 0 \<and>
                (case cy_batch_digest c of
                   None \<Rightarrow> no_receipts c \<and> model_calls s = 0 \<and> input_tokens s = 0 \<and>
                     output_tokens s = 0 \<and> canonical_token_equivalents s = 0 \<and> schema_repairs s = 0
                 | Some b \<Rightarrow> \<not> model_calls s < 1 \<and>
                     int (length (cy_model_call_digests c)) = model_calls s)))"

definition cycle_state_ok :: "cycle_record \<Rightarrow> bool" where
  "cycle_state_ok c \<longleftrightarrow>
     \<not> (cy_state c \<noteq> Cycle_COMMITTED \<and> cy_selector_provenance c \<noteq> None) \<and>
     (case cy_state c of
        Cycle_PENDING \<Rightarrow> cy_batch_digest c = None \<and> cy_budget_reservation c = None \<and>
          no_committed_outputs c \<and> cy_failure_reason c = None \<and> no_receipts c
      | Cycle_RESERVED \<Rightarrow> cy_budget_reservation c \<noteq> None \<and> no_committed_outputs c \<and>
          cy_failure_reason c = None \<and> no_receipts c
      | Cycle_RUNNING \<Rightarrow> cy_batch_digest c \<noteq> None \<and> cy_budget_reservation c \<noteq> None \<and>
          no_committed_outputs c \<and> cy_failure_reason c = None \<and> no_receipts c
      | Cycle_COMMITTED \<Rightarrow> cy_batch_digest c \<noteq> None \<and> cy_budget_reservation c \<noteq> None \<and>
          cy_failure_reason c = None \<and>
          (case (cy_budget_settlement c, cy_validated_delta c, cy_intervention c) of
             (Some s, Some d, Some i) \<Rightarrow> \<not> model_calls s < 1 \<and>
               int (length (cy_model_call_digests c)) = model_calls s \<and>
               interventions_used s = intervention_count i
           | _ \<Rightarrow> False)
      | Cycle_FAILED \<Rightarrow> failed_cycle_ok c)"

definition valid_cycle_record :: "hash_fun \<Rightarrow> cycle_record \<Rightarrow> bool" where
  "valid_cycle_record H c \<longleftrightarrow> cycle_fields_ok c \<and> cycle_identity_ok H c \<and> cycle_budget_ok c \<and>
     cycle_assignments_ok c \<and> cycle_state_ok c"

section \<open>Deliveries\<close>

record delivery_record =
  dv_delivery_id :: uuid
  dv_run_id :: uuid
  dv_revision :: int
  dv_cycle_id :: digest
  dv_intervention_id :: uuid
  dv_rendered_text_digest :: digest
  dv_target_request_id :: string
  dv_target :: delivery_target
  dv_state :: delivery_state
  dv_attempt_count :: int
  dv_adapter_id :: string
  dv_adapter_deduplicates :: bool
  dv_adapter_deduplication_guarantee :: deduplication_guarantee
  dv_adapter_supports_pre_action :: bool
  dv_adapter_contract_version :: string
  dv_adapter_capabilities_digest :: digest
  dv_claim_id :: "uuid option"
  dv_attempt_id :: "uuid option"
  dv_receipt :: "json option"
  dv_outcome :: "delivery_outcome option"
  dv_reason_code :: "reason_code option"
  dv_created_at :: timestamp
  dv_updated_at :: timestamp

definition delivery_fields_ok :: "delivery_record \<Rightarrow> bool" where
  "delivery_fields_ok d \<longleftrightarrow> uuid4 (dv_delivery_id d) \<and> uuid4 (dv_run_id d) \<and> 1 \<le> dv_revision d \<and>
     sha256_digest (dv_cycle_id d) \<and> uuid4 (dv_intervention_id d) \<and>
     sha256_digest (dv_rendered_text_digest d) \<and> component_identifier (dv_target_request_id d) \<and>
     0 \<le> dv_attempt_count d \<and> component_identifier (dv_adapter_id d) \<and>
     component_identifier (dv_adapter_contract_version d) \<and>
     sha256_digest (dv_adapter_capabilities_digest d) \<and>
     opt_all uuid4 (dv_claim_id d) \<and> opt_all uuid4 (dv_attempt_id d) \<and>
     opt_all (\<lambda>r. is_object r \<and> json_finite r) (dv_receipt d)"

definition empty_result :: "delivery_record \<Rightarrow> bool" where
  "empty_result d \<longleftrightarrow> dv_receipt d = None \<and> dv_outcome d = None \<and> dv_reason_code d = None"

text \<open>
  The single \<open>provider_receipt_id\<close> of a receipt. \<open>str.isalnum\<close> on a first character that is
  also in the listed ASCII set is \<open>ascii_alnum\<close>.
\<close>

definition provider_receipt_ok :: "json option \<Rightarrow> bool" where
  "provider_receipt_ok r \<longleftrightarrow>
     (case r of
        Some (JObj [(k, JStr s)]) \<Rightarrow> k = ''provider_receipt_id'' \<and>
          1 \<le> length s \<and> length s \<le> 256 \<and> ascii_alnum (hd s) \<and>
          list_all (\<lambda>c. ascii_alnum c \<or> c \<in> set ''._:/+-'') s
      | _ \<Rightarrow> False)"

definition delivery_refusal_reasons :: "reason_code list" where
  "delivery_refusal_reasons = [Reason_UNSUPPORTED_DELIVERY_TARGET,
     Reason_UNSUPPORTED_DELIVERY_CHANNEL, Reason_UNSAFE_ROLE_MAPPING, Reason_TARGET_UNAVAILABLE]"

definition delivery_state_ok :: "delivery_record \<Rightarrow> bool" where
  "delivery_state_ok d \<longleftrightarrow>
     (case dv_state d of
        Delivery_PENDING \<Rightarrow> dv_attempt_count d = 0 \<and> dv_claim_id d = None \<and>
          dv_attempt_id d = None \<and> empty_result d
      | Delivery_CLAIMED \<Rightarrow> dv_claim_id d \<noteq> None \<and> dv_attempt_id d = None \<and> empty_result d \<and>
          \<not> (dv_attempt_count d > 0 \<and> \<not> dv_adapter_deduplicates d)
      | Delivery_ATTEMPTING \<Rightarrow> \<not> dv_attempt_count d < 1 \<and> dv_claim_id d \<noteq> None \<and>
          dv_attempt_id d \<noteq> None \<and> empty_result d
      | Delivery_DELIVERED \<Rightarrow> \<not> dv_attempt_count d < 1 \<and> dv_claim_id d \<noteq> None \<and>
          dv_attempt_id d \<noteq> None \<and> provider_receipt_ok (dv_receipt d) \<and>
          dv_outcome d = Some Outcome_DELIVERED \<and>
          dv_reason_code d = Some Reason_DELIVERY_SUCCEEDED
      | Delivery_UNKNOWN \<Rightarrow> \<not> dv_attempt_count d < 1 \<and> dv_claim_id d \<noteq> None \<and>
          dv_attempt_id d \<noteq> None \<and> dv_receipt d = None \<and>
          dv_outcome d = Some Outcome_UNKNOWN \<and> dv_reason_code d = Some Reason_DELIVERY_UNKNOWN
      | Delivery_FAILED \<Rightarrow> \<not> dv_attempt_count d < 1 \<and> dv_claim_id d \<noteq> None \<and>
          dv_attempt_id d \<noteq> None \<and> dv_receipt d = None \<and>
          dv_outcome d = Some Outcome_FAILED \<and> dv_reason_code d = Some Reason_DELIVERY_FAILED
      | Delivery_REJECTED \<Rightarrow> dv_attempt_id d = None \<and> dv_receipt d = None \<and>
          dv_outcome d = Some Outcome_REFUSED \<and>
          (\<exists>r\<in>set delivery_refusal_reasons. dv_reason_code d = Some r) \<and>
          \<not> (dv_claim_id d = None \<and> dv_attempt_count d \<noteq> 0) \<and>
          \<not> (dv_attempt_count d > 0 \<and> \<not> dv_adapter_deduplicates d))"

definition valid_delivery_record :: "delivery_record \<Rightarrow> bool" where
  "valid_delivery_record d \<longleftrightarrow> delivery_fields_ok d \<and>
     \<not> dv_updated_at d < dv_created_at d \<and>
     \<not> (\<not> dv_adapter_deduplicates d \<and> dv_attempt_count d > 1) \<and>
     dv_adapter_deduplicates d =
       (dv_adapter_deduplication_guarantee d = Dedup_DURABLE_DELIVERY_ID) \<and>
     \<not> (dv_target d = Target_PRE_ACTION_REPLAN \<and> dv_attempt_count d > 0 \<and>
        \<not> dv_adapter_supports_pre_action d) \<and>
     delivery_state_ok d"

section \<open>Ledger records\<close>

datatype (plugins only: code size) ledger_record =
    Rec_event trace_event
  | Rec_signal signal
  | Rec_decision invocation_decision
  | Rec_cycle cycle_record
  | Rec_outcome intervention_outcome
  | Rec_delivery delivery_record

fun rec_run_id :: "ledger_record \<Rightarrow> uuid" where
  "rec_run_id (Rec_event e) = ev_run_id e"
| "rec_run_id (Rec_signal s) = sg_run_id s"
| "rec_run_id (Rec_decision d) = id_run_id d"
| "rec_run_id (Rec_cycle c) = cy_run_id c"
| "rec_run_id (Rec_outcome o') = io_run_id o'"
| "rec_run_id (Rec_delivery d) = dv_run_id d"

end
