(* ===== verification/Claims.thy ===== *)
theory Claims
  imports Serde Records
begin

text \<open>
  Citation-only claims (\<open>intervention/claims.py\<close>): what a model may propose, how a claim is
  materialised from the text its citation selects, its fingerprint, the provenance of a
  deterministic selector and the receipt that replays a proposal.

  Receipts and configurations travel inside the ledger records as JSON. \<open>..._json\<close> is
  \<open>model_dump(mode="json")\<close> and \<open>..._of_json\<close> is \<open>model_validate_json\<close>, with \<open>None\<close> for a
  validation error. pydantic also reads other spellings of a UUID than the one it writes; a record
  holding one is refused here when it is read, in the code when it is compared with its
  re-dumped form, before anything else can depend on it.
\<close>

section \<open>Reading JSON\<close>

definition obj_get :: "string \<Rightarrow> json \<Rightarrow> json option" where
  "obj_get k v = (case v of JObj kvs \<Rightarrow> map_of kvs k | _ \<Rightarrow> None)"

definition obj_opt :: "string \<Rightarrow> json \<Rightarrow> json" where
  "obj_opt k v = (case obj_get k v of None \<Rightarrow> JNull | Some w \<Rightarrow> w)"

text \<open>\<open>extra="forbid"\<close>: an object of the required fields, the optional ones and no other.\<close>

definition obj_fields :: "string list \<Rightarrow> string list \<Rightarrow> json \<Rightarrow> bool" where
  "obj_fields required optional v =
     (case v of
        JObj kvs \<Rightarrow> list_all (\<lambda>k. k \<in> set (map fst kvs)) required \<and>
          list_all (\<lambda>k. k \<in> set required \<or> k \<in> set optional) (map fst kvs)
      | _ \<Rightarrow> False)"

fun as_str :: "json \<Rightarrow> string option" where
  "as_str (JStr s) = Some s" | "as_str _ = None"

fun as_int :: "json \<Rightarrow> int option" where
  "as_int (JInt i) = Some i" | "as_int _ = None"

fun as_bool :: "json \<Rightarrow> bool option" where
  "as_bool (JBool b) = Some b" | "as_bool _ = None"

fun as_float :: "json \<Rightarrow> rat option" where
  "as_float (JFloat q) = q" | "as_float (JInt i) = Some (of_int i)" | "as_float _ = None"

fun as_opt :: "(json \<Rightarrow> 'a option) \<Rightarrow> json \<Rightarrow> 'a option option" where
  "as_opt f JNull = Some None"
| "as_opt f v = map_option Some (f v)"

fun option_list :: "'a option list \<Rightarrow> 'a list option" where
  "option_list [] = Some []"
| "option_list (x # xs) =
     (case x of None \<Rightarrow> None | Some y \<Rightarrow> map_option (\<lambda>ys. y # ys) (option_list xs))"

fun as_list :: "(json \<Rightarrow> 'a option) \<Rightarrow> json \<Rightarrow> 'a list option" where
  "as_list f (JArr xs) = option_list (map f xs)" | "as_list f _ = None"

definition as_enum :: "('a \<Rightarrow> string) \<Rightarrow> 'a list \<Rightarrow> json \<Rightarrow> 'a option" where
  "as_enum text values v = (case v of JStr s \<Rightarrow> find (\<lambda>x. text x = s) values | _ \<Rightarrow> None)"

definition uuid_of_str :: "string \<Rightarrow> uuid option" where
  "uuid_of_str s =
     (let n = unhex (take 8 s @ take 4 (drop 9 s) @ take 4 (drop 14 s) @ take 4 (drop 19 s) @ drop 24 s)
      in if uuid_str n = s then Some n else None)"

fun as_uuid :: "json \<Rightarrow> uuid option" where
  "as_uuid (JStr s) = uuid_of_str s" | "as_uuid _ = None"

definition opt_json :: "('a \<Rightarrow> json) \<Rightarrow> 'a option \<Rightarrow> json" where
  "opt_json f x = (case x of None \<Rightarrow> JNull | Some v \<Rightarrow> f v)"

section \<open>Enumeration values\<close>

fun claim_kind_value :: "claim_kind \<Rightarrow> string" where
  "claim_kind_value Claim_REQUIREMENT = ''requirement''"
| "claim_kind_value Claim_ENVIRONMENT_FACT = ''environment_fact''"
| "claim_kind_value Claim_FAILED_ATTEMPT = ''failed_attempt''"
| "claim_kind_value Claim_DIAGNOSIS = ''diagnosis''"
| "claim_kind_value Claim_OPEN_SUBGOAL = ''open_subgoal''"

fun source_value :: "evidence_source \<Rightarrow> string" where
  "source_value Source_EVENT = ''event''"
| "source_value Source_MEMORY = ''memory''"

fun action_value :: "intervention_action \<Rightarrow> string" where
  "action_value Action_SILENCE = ''silence''"
| "action_value Action_REMIND = ''remind''"

fun trust_value :: "trust_label \<Rightarrow> string" where
  "trust_value Trust_TRUSTED_RUNTIME = ''trusted_runtime''"
| "trust_value Trust_TRUSTED_CONTROLLER = ''trusted_controller''"
| "trust_value Trust_UNTRUSTED_TASK_INPUT = ''untrusted_task_input''"
| "trust_value Trust_UNTRUSTED_TOOL_OUTPUT = ''untrusted_tool_output''"
| "trust_value Trust_UNTRUSTED_MODEL_OUTPUT = ''untrusted_model_output''"
| "trust_value Trust_UNTRUSTED_EXTERNAL_MEMORY = ''untrusted_external_memory''"
| "trust_value Trust_SYNTHETIC_FIXTURE = ''synthetic_fixture''"

definition claim_kinds :: "claim_kind list" where
  "claim_kinds = [Claim_REQUIREMENT, Claim_ENVIRONMENT_FACT, Claim_FAILED_ATTEMPT,
     Claim_DIAGNOSIS, Claim_OPEN_SUBGOAL]"

datatype (plugins only: code size) parse_status =
    Parse_VALID | Parse_EMPTY_REMINDER | Parse_CLAIM_OVER_LIMIT | Parse_SCHEMA_INVALID

fun parse_status_value :: "parse_status \<Rightarrow> string" where
  "parse_status_value Parse_VALID = ''valid''"
| "parse_status_value Parse_EMPTY_REMINDER = ''empty_reminder''"
| "parse_status_value Parse_CLAIM_OVER_LIMIT = ''claim_over_limit''"
| "parse_status_value Parse_SCHEMA_INVALID = ''schema_invalid''"

definition parse_statuses :: "parse_status list" where
  "parse_statuses = [Parse_VALID, Parse_EMPTY_REMINDER, Parse_CLAIM_OVER_LIMIT, Parse_SCHEMA_INVALID]"

section \<open>Evidence and claims\<close>

definition span_json :: "text_span \<Rightarrow> json" where
  "span_json s = JObj [(''end_byte'', JInt (span_end_byte s)), (''start_byte'', JInt (span_start_byte s))]"

definition span_of_json :: "json \<Rightarrow> text_span option" where
  "span_of_json v =
     (if obj_fields [''start_byte'', ''end_byte''] [] v
      then case (as_int (obj_opt ''start_byte'' v), as_int (obj_opt ''end_byte'' v)) of
             (Some a, Some b) \<Rightarrow>
               (let s = \<lparr>span_start_byte = a, span_end_byte = b\<rparr>
                in if valid_text_span s then Some s else None)
           | _ \<Rightarrow> None
      else None)"

definition evidence_json :: "evidence_reference \<Rightarrow> json" where
  "evidence_json e = JObj
     [(''field_path'', JStr (er_field_path e)),
      (''revision'', opt_json JInt (er_revision e)),
      (''source'', JStr (source_value (er_source e))),
      (''source_id'', JStr (uuid_str (er_source_id e))),
      (''span'', opt_json span_json (er_span e))]"

definition evidence_of_json :: "json \<Rightarrow> evidence_reference option" where
  "evidence_of_json v =
     (if obj_fields [''source'', ''source_id'', ''field_path''] [''revision'', ''span''] v
      then case (as_enum source_value [Source_EVENT, Source_MEMORY] (obj_opt ''source'' v),
                 as_uuid (obj_opt ''source_id'' v), as_opt as_int (obj_opt ''revision'' v),
                 as_str (obj_opt ''field_path'' v), as_opt span_of_json (obj_opt ''span'' v)) of
             (Some src, Some i, Some r, Some p, Some sp) \<Rightarrow>
               (let e = \<lparr>er_source = src, er_source_id = i, er_revision = r, er_field_path = p,
                         er_span = sp\<rparr>
                in if valid_evidence_reference e then Some e else None)
           | _ \<Rightarrow> None
      else None)"

record proposed_claim =
  pc_kind :: claim_kind
  pc_evidence :: evidence_reference

definition valid_proposed_claim :: "proposed_claim \<Rightarrow> bool" where
  "valid_proposed_claim p = valid_evidence_reference (pc_evidence p)"

definition proposed_claim_json :: "proposed_claim \<Rightarrow> json" where
  "proposed_claim_json p = JObj
     [(''evidence'', evidence_json (pc_evidence p)), (''kind'', JStr (claim_kind_value (pc_kind p)))]"

definition proposed_claim_of_json :: "json \<Rightarrow> proposed_claim option" where
  "proposed_claim_of_json v =
     (if obj_fields [''kind'', ''evidence''] [] v
      then case (as_enum claim_kind_value claim_kinds (obj_opt ''kind'' v),
                 evidence_of_json (obj_opt ''evidence'' v)) of
             (Some k, Some e) \<Rightarrow> Some \<lparr>pc_kind = k, pc_evidence = e\<rparr>
           | _ \<Rightarrow> None
      else None)"

text \<open>
  A proposal as the pipeline receives it, validated or not. A confidence that is not a finite
  float is \<open>None\<close>.
\<close>

record intervention_proposal =
  ip_action :: intervention_action
  ip_claims :: "proposed_claim list"
  ip_confidence :: "rat option"
  ip_model_free_text :: "string option"

definition max_model_free_text_bytes :: nat where
  "max_model_free_text_bytes = 4096"

definition valid_proposal :: "intervention_proposal \<Rightarrow> bool" where
  "valid_proposal p \<longleftrightarrow> length (ip_claims p) \<le> 2 \<and> list_all valid_proposed_claim (ip_claims p) \<and>
     (case ip_confidence p of None \<Rightarrow> False | Some c \<Rightarrow> unit_interval c) \<and>
     opt_all (\<lambda>t. length t \<le> max_model_free_text_bytes) (ip_model_free_text p) \<and>
     \<not> (ip_action p = Action_REMIND \<and> ip_claims p = []) \<and>
     \<not> (ip_action p = Action_SILENCE \<and> ip_claims p \<noteq> [])"

fun field_by_kind :: "claim_kind \<Rightarrow> string" where
  "field_by_kind Claim_REQUIREMENT = ''requirement''"
| "field_by_kind Claim_ENVIRONMENT_FACT = ''fact''"
| "field_by_kind Claim_FAILED_ATTEMPT = ''attempt''"
| "field_by_kind Claim_DIAGNOSIS = ''diagnosis''"
| "field_by_kind Claim_OPEN_SUBGOAL = ''subgoal''"

datatype (plugins only: code size) claim_error = ClaimInputError

definition validated_claim_metadata :: "intervention_claim \<Rightarrow> (claim_kind \<times> evidence_reference) option" where
  "validated_claim_metadata c =
     (case ic_evidence c of
        [e] \<Rightarrow> if valid_evidence_reference e then Some (ic_kind c, e) else None
      | _ \<Rightarrow> None)"

definition materialize_claim :: "proposed_claim \<Rightarrow> string \<Rightarrow> claim_error + intervention_claim" where
  "materialize_claim proposed source_text =
     (if \<not> valid_proposed_claim proposed then Inl ClaimInputError
      else let c = \<lparr>ic_kind = pc_kind proposed,
                    ic_fields = JObj [(field_by_kind (pc_kind proposed), JStr source_text)],
                    ic_evidence = [pc_evidence proposed]\<rparr>
           in if valid_intervention_claim c then Inr c else Inl ClaimInputError)"

definition grounded_claim_text :: "intervention_claim \<Rightarrow> claim_error + string" where
  "grounded_claim_text c =
     (case validated_claim_metadata c of
        None \<Rightarrow> Inl ClaimInputError
      | Some (kind, _) \<Rightarrow>
          (case ic_fields c of
             JObj [(k, JStr s)] \<Rightarrow> if k = field_by_kind kind then Inr s else Inl ClaimInputError
           | _ \<Rightarrow> Inl ClaimInputError))"

definition fingerprint_metadata :: "claim_kind \<Rightarrow> evidence_reference \<Rightarrow> json" where
  "fingerprint_metadata kind e = JObj
     [(''claim_schema_version'', JStr ''citation-only-claims/v1''),
      (''evidence'', JObj
         [(''field_path'', JStr (er_field_path e)),
          (''revision'', opt_json JInt (er_revision e)),
          (''source'', JStr (source_value (er_source e))),
          (''source_id'', JStr (uuid_str (er_source_id e))),
          (''span'', opt_json span_json (er_span e))]),
      (''kind'', JStr (claim_kind_value kind))]"

definition claim_fingerprint ::
    "hash_fun \<Rightarrow> float_text \<Rightarrow> intervention_claim \<Rightarrow> claim_error + digest" where
  "claim_fingerprint H F c =
     (case validated_claim_metadata c of
        None \<Rightarrow> Inl ClaimInputError
      | Some (kind, e) \<Rightarrow>
          (case canonical_json F (fingerprint_metadata kind e) of
             None \<Rightarrow> Inl ClaimInputError
           | Some t \<Rightarrow> Inr (length_prefixed_sha256 H
               ''saliencegate:intervention:claim-fingerprint:v1'' [t])))"

section \<open>Selector provenance and receipts\<close>

record selector_provenance =
  sp_selector_id :: string
  sp_configuration_digest :: digest
  sp_request_digest :: digest
  sp_result_digest :: digest
  sp_provenance_digest :: digest

definition selector_material :: "selector_provenance \<Rightarrow> json" where
  "selector_material p = JObj
     [(''configuration_digest'', JStr (sp_configuration_digest p)),
      (''request_digest'', JStr (sp_request_digest p)),
      (''result_digest'', JStr (sp_result_digest p)),
      (''schema_version'', JStr ''deterministic-selector-provenance/v1''),
      (''selector_id'', JStr (sp_selector_id p))]"

definition selector_provenance_digest ::
    "hash_fun \<Rightarrow> float_text \<Rightarrow> selector_provenance \<Rightarrow> digest option" where
  "selector_provenance_digest H F p =
     map_option (\<lambda>t. length_prefixed_sha256 H
         ''saliencegate:intervention:deterministic-selector-provenance:v1'' [t])
       (canonical_json F (selector_material p))"

definition valid_selector_provenance :: "hash_fun \<Rightarrow> float_text \<Rightarrow> selector_provenance \<Rightarrow> bool" where
  "valid_selector_provenance H F p \<longleftrightarrow>
     component_identifier (sp_selector_id p) \<and> sha256_digest (sp_configuration_digest p) \<and>
     sha256_digest (sp_request_digest p) \<and> sha256_digest (sp_result_digest p) \<and>
     sha256_digest (sp_provenance_digest p) \<and>
     selector_provenance_digest H F p = Some (sp_provenance_digest p)"

definition selector_provenance_json :: "selector_provenance \<Rightarrow> json" where
  "selector_provenance_json p = JObj
     [(''configuration_digest'', JStr (sp_configuration_digest p)),
      (''provenance_digest'', JStr (sp_provenance_digest p)),
      (''request_digest'', JStr (sp_request_digest p)),
      (''result_digest'', JStr (sp_result_digest p)),
      (''schema_version'', JStr ''deterministic-selector-provenance/v1''),
      (''selector_id'', JStr (sp_selector_id p))]"

text \<open>A literal field with a default: absent, or exactly the literal.\<close>

definition literal_default :: "string \<Rightarrow> string \<Rightarrow> json \<Rightarrow> bool" where
  "literal_default k text v \<longleftrightarrow> obj_get k v \<in> {None, Some (JStr text)}"

definition selector_provenance_of_json ::
    "hash_fun \<Rightarrow> float_text \<Rightarrow> json \<Rightarrow> selector_provenance option" where
  "selector_provenance_of_json H F v =
     (if obj_fields [''selector_id'', ''configuration_digest'', ''request_digest'', ''result_digest'']
           [''schema_version'', ''provenance_digest''] v \<and>
         literal_default ''schema_version'' ''deterministic-selector-provenance/v1'' v
      then case (as_str (obj_opt ''selector_id'' v), as_str (obj_opt ''configuration_digest'' v),
                 as_str (obj_opt ''request_digest'' v), as_str (obj_opt ''result_digest'' v)) of
             (Some i, Some c, Some q, Some r) \<Rightarrow>
               (let p = \<lparr>sp_selector_id = i, sp_configuration_digest = c, sp_request_digest = q,
                         sp_result_digest = r, sp_provenance_digest = []\<rparr>;
                    d = (if obj_get ''provenance_digest'' v = None
                         then selector_provenance_digest H F p
                         else as_str (obj_opt ''provenance_digest'' v))
                in case d of
                     None \<Rightarrow> None
                   | Some digest \<Rightarrow>
                       (let p' = p\<lparr>sp_provenance_digest := digest\<rparr>
                        in if valid_selector_provenance H F p' then Some p' else None))
           | _ \<Rightarrow> None
      else None)"

datatype (plugins only: code size) receipt_version = Receipt_V1 | Receipt_V2

fun receipt_version_value :: "receipt_version \<Rightarrow> string" where
  "receipt_version_value Receipt_V1 = ''grounding-receipt/v1''"
| "receipt_version_value Receipt_V2 = ''grounding-receipt/v2''"

record grounding_receipt =
  gr_receipt_version :: receipt_version
  gr_parse_status :: parse_status
  gr_proposal_action :: "intervention_action option"
  gr_claims :: "proposed_claim list"
  gr_confidence :: rat
  gr_requested_delivery_target :: "delivery_target option"
  gr_model_call_index :: "int option"
  gr_model_call_digest :: "digest option"
  gr_selector_provenance :: "selector_provenance option"

definition model_provenance :: "int option \<Rightarrow> digest option \<Rightarrow> bool" where
  "model_provenance i d \<longleftrightarrow> i \<noteq> None \<and> d \<noteq> None"

text \<open>The provenance rule that receipts and contexts share: \<open>v1\<close> is their first version.\<close>

definition provenance_ok ::
    "bool \<Rightarrow> int option \<Rightarrow> digest option \<Rightarrow> selector_provenance option \<Rightarrow> bool" where
  "provenance_ok v1 i d sel \<longleftrightarrow>
     \<not> ((i = None) \<noteq> (d = None) \<or>
        model_provenance i d = (sel \<noteq> None) \<or>
        (v1 \<and> (\<not> model_provenance i d \<or> sel \<noteq> None)) \<or>
        (\<not> v1 \<and> (model_provenance i d \<or> sel = None)))"

definition valid_grounding_receipt :: "hash_fun \<Rightarrow> float_text \<Rightarrow> grounding_receipt \<Rightarrow> bool" where
  "valid_grounding_receipt H F r \<longleftrightarrow>
     length (gr_claims r) \<le> 2 \<and> list_all valid_proposed_claim (gr_claims r) \<and>
     unit_interval (gr_confidence r) \<and>
     opt_all (\<lambda>i. 0 \<le> i \<and> i \<le> max_signed_64) (gr_model_call_index r) \<and>
     opt_all sha256_digest (gr_model_call_digest r) \<and>
     opt_all (valid_selector_provenance H F) (gr_selector_provenance r) \<and>
     provenance_ok (gr_receipt_version r = Receipt_V1) (gr_model_call_index r)
       (gr_model_call_digest r) (gr_selector_provenance r) \<and>
     (case gr_parse_status r of
        Parse_VALID \<Rightarrow> \<not> (gr_proposal_action r = Some Action_REMIND \<and> gr_claims r = []) \<and>
          \<not> (gr_proposal_action r = Some Action_SILENCE \<and> gr_claims r \<noteq> []) \<and>
          gr_proposal_action r \<noteq> None
      | Parse_EMPTY_REMINDER \<Rightarrow> gr_proposal_action r = Some Action_REMIND \<and> gr_claims r = []
      | Parse_CLAIM_OVER_LIMIT \<Rightarrow> gr_proposal_action r = Some Action_REMIND \<and> gr_claims r = []
      | Parse_SCHEMA_INVALID \<Rightarrow> gr_proposal_action r = None \<and> gr_claims r = [] \<and> gr_confidence r = 1)"

text \<open>Provenance fields that are \<open>None\<close> are left out of the dump (\<open>exclude_if\<close>).\<close>

definition receipt_json :: "grounding_receipt \<Rightarrow> json" where
  "receipt_json r = JObj
     ([(''claims'', JArr (map proposed_claim_json (gr_claims r))),
       (''confidence'', JFloat (Some (gr_confidence r)))] @
      (case gr_model_call_digest r of None \<Rightarrow> [] | Some d \<Rightarrow> [(''model_call_digest'', JStr d)]) @
      (case gr_model_call_index r of None \<Rightarrow> [] | Some i \<Rightarrow> [(''model_call_index'', JInt i)]) @
      [(''parse_status'', JStr (parse_status_value (gr_parse_status r))),
       (''proposal_action'', opt_json (\<lambda>a. JStr (action_value a)) (gr_proposal_action r)),
       (''receipt_version'', JStr (receipt_version_value (gr_receipt_version r))),
       (''requested_delivery_target'', opt_json (\<lambda>t. JStr (target_value t)) (gr_requested_delivery_target r))] @
      (case gr_selector_provenance r of None \<Rightarrow> []
       | Some p \<Rightarrow> [(''selector_provenance'', selector_provenance_json p)]))"

definition delivery_targets :: "delivery_target list" where
  "delivery_targets = [Target_NEXT_MODEL_CALL, Target_PRE_ACTION_REPLAN]"

definition receipt_required :: "string list" where
  "receipt_required = [''receipt_version'', ''parse_status'', ''proposal_action'', ''claims'',
     ''confidence'', ''requested_delivery_target'']"

definition receipt_optional :: "string list" where
  "receipt_optional = [''model_call_index'', ''model_call_digest'', ''selector_provenance'']"

definition receipt_of_json :: "hash_fun \<Rightarrow> float_text \<Rightarrow> json \<Rightarrow> grounding_receipt option" where
  "receipt_of_json H F v =
     (if obj_fields receipt_required receipt_optional v
      then case (as_enum receipt_version_value [Receipt_V1, Receipt_V2] (obj_opt ''receipt_version'' v),
                 as_enum parse_status_value parse_statuses (obj_opt ''parse_status'' v),
                 as_opt (as_enum action_value [Action_SILENCE, Action_REMIND]) (obj_opt ''proposal_action'' v),
                 as_list proposed_claim_of_json (obj_opt ''claims'' v)) of
             (Some ver, Some st, Some a, Some cs) \<Rightarrow>
               (case (as_float (obj_opt ''confidence'' v),
                      as_opt (as_enum target_value delivery_targets) (obj_opt ''requested_delivery_target'' v),
                      as_opt as_int (obj_opt ''model_call_index'' v),
                      as_opt as_str (obj_opt ''model_call_digest'' v),
                      as_opt (selector_provenance_of_json H F) (obj_opt ''selector_provenance'' v)) of
                  (Some q, Some t, Some i, Some d, Some sel) \<Rightarrow>
                    (let r = \<lparr>gr_receipt_version = ver, gr_parse_status = st, gr_proposal_action = a,
                              gr_claims = cs, gr_confidence = q, gr_requested_delivery_target = t,
                              gr_model_call_index = i, gr_model_call_digest = d,
                              gr_selector_provenance = sel\<rparr>
                     in if valid_grounding_receipt H F r then Some r else None)
                | _ \<Rightarrow> None)
           | _ \<Rightarrow> None
      else None)"

section \<open>Round trips\<close>

lemma drop_pieces: "drop n h = take k (drop n h) @ drop (n + k) h"
  by (metis add.commute append_take_drop_id drop_drop)

lemma uuid_of_str_pieces:
  assumes "length a = 8" and "length b = 4" and "length c = 4" and "length d = 4"
  shows "(let s = a @ ''-'' @ b @ ''-'' @ c @ ''-'' @ d @ ''-'' @ e in
    take 8 s @ take 4 (drop 9 s) @ take 4 (drop 14 s) @ take 4 (drop 19 s) @ drop 24 s) = a @ b @ c @ d @ e"
  using assms by (simp add: Let_def)

lemma uuid_of_str_uuid_str [simp]:
  assumes "u < 2 ^ 128"
  shows "uuid_of_str (uuid_str u) = Some u"
proof -
  define h where "h = hex_pad 32 u"
  have len: "length h = 32" by (simp add: h_def)
  have "h = take 8 h @ take 4 (drop 8 h) @ take 4 (drop 12 h) @ take 4 (drop 16 h) @ drop 20 h"
    using drop_pieces [of 0 h 8] drop_pieces [of 8 h 4] drop_pieces [of 12 h 4] drop_pieces [of 16 h 4]
    by simp
  moreover have "uuid_str u = take 8 h @ ''-'' @ take 4 (drop 8 h) @ ''-'' @ take 4 (drop 12 h) @ ''-'' @
      take 4 (drop 16 h) @ ''-'' @ drop 20 h"
    by (simp add: uuid_str_def h_def Let_def)
  ultimately have "(let s = uuid_str u in
      take 8 s @ take 4 (drop 9 s) @ take 4 (drop 14 s) @ take 4 (drop 19 s) @ drop 24 s) = h"
    using uuid_of_str_pieces [of "take 8 h" "take 4 (drop 8 h)" "take 4 (drop 12 h)" "take 4 (drop 16 h)"
        "drop 20 h"] len by simp
  moreover have "unhex h = u" using assms by (simp add: h_def unhex_hex_pad)
  ultimately show ?thesis by (simp add: uuid_of_str_def Let_def)
qed

lemma as_enum_value:
  "(\<And>y. y \<in> set ys \<Longrightarrow> f y = f x \<Longrightarrow> y = x) \<Longrightarrow> x \<in> set ys \<Longrightarrow> as_enum f ys (JStr (f x)) = Some x"
  unfolding as_enum_def by (induction ys) auto

lemma value_inj:
  "claim_kind_value k = claim_kind_value k' \<longleftrightarrow> k = k'"
  "source_value s = source_value s' \<longleftrightarrow> s = s'"
  "action_value a = action_value a' \<longleftrightarrow> a = a'"
  "target_value t = target_value t' \<longleftrightarrow> t = t'"
  "parse_status_value p = parse_status_value p' \<longleftrightarrow> p = p'"
  "receipt_version_value v = receipt_version_value v' \<longleftrightarrow> v = v'"
  subgoal by (cases k; cases k'; simp)
  subgoal by (cases s; cases s'; simp)
  subgoal by (cases a; cases a'; simp)
  subgoal by (cases t; cases t'; simp)
  subgoal by (cases p; cases p'; simp)
  subgoal by (cases v; cases v'; simp)
  done

lemma as_enum_values [simp]:
  "as_enum claim_kind_value claim_kinds (JStr (claim_kind_value k)) = Some k"
  "as_enum source_value [Source_EVENT, Source_MEMORY] (JStr (source_value s)) = Some s"
  "as_enum action_value [Action_SILENCE, Action_REMIND] (JStr (action_value a)) = Some a"
  "as_enum target_value delivery_targets (JStr (target_value t)) = Some t"
  "as_enum parse_status_value parse_statuses (JStr (parse_status_value p)) = Some p"
  "as_enum receipt_version_value [Receipt_V1, Receipt_V2] (JStr (receipt_version_value v)) = Some v"
proof -
  show "as_enum claim_kind_value claim_kinds (JStr (claim_kind_value k)) = Some k"
    by (rule as_enum_value) (simp_all add: value_inj claim_kinds_def, cases k, simp_all)
  show "as_enum source_value [Source_EVENT, Source_MEMORY] (JStr (source_value s)) = Some s"
    by (rule as_enum_value) (simp_all add: value_inj, cases s, simp_all)
  show "as_enum action_value [Action_SILENCE, Action_REMIND] (JStr (action_value a)) = Some a"
    by (rule as_enum_value) (simp_all add: value_inj, cases a, simp_all)
  show "as_enum target_value delivery_targets (JStr (target_value t)) = Some t"
    by (rule as_enum_value) (simp_all add: value_inj delivery_targets_def, cases t, simp_all)
  show "as_enum parse_status_value parse_statuses (JStr (parse_status_value p)) = Some p"
    by (rule as_enum_value) (simp_all add: value_inj parse_statuses_def, cases p, simp_all)
  show "as_enum receipt_version_value [Receipt_V1, Receipt_V2] (JStr (receipt_version_value v)) = Some v"
    by (rule as_enum_value) (simp_all add: value_inj, cases v, simp_all)
qed

lemma option_list_map:
  "(\<And>x. x \<in> set xs \<Longrightarrow> f (g x) = Some x) \<Longrightarrow> option_list (map (\<lambda>x. f (g x)) xs) = Some xs"
  by (induction xs) auto

lemma as_opt_json: "(\<And>v. x = Some v \<Longrightarrow> f (g v) = Some v \<and> g v \<noteq> JNull) \<Longrightarrow> as_opt f (opt_json g x) = Some x"
proof (cases x)
  case (Some v)
  assume "\<And>v. x = Some v \<Longrightarrow> f (g v) = Some v \<and> g v \<noteq> JNull"
  with Some show ?thesis by (cases "g v") (auto simp: opt_json_def)
qed (simp add: opt_json_def)

named_theorems codec_simps "reading the fields of a written object"

lemma obj_get_Cons [codec_simps]:
  "obj_get k (JObj ((j, v) # kvs)) = (if j = k then Some v else obj_get k (JObj kvs))"
  "obj_get k (JObj []) = None"
  by (auto simp: obj_get_def)

lemma obj_opt_Cons [codec_simps]:
  "obj_opt k (JObj ((j, v) # kvs)) = (if j = k then v else obj_opt k (JObj kvs))"
  "obj_opt k (JObj []) = JNull"
  by (auto simp: obj_opt_def codec_simps)

lemma record_eta [codec_simps]:
  "\<lparr>span_start_byte = span_start_byte s, span_end_byte = span_end_byte s\<rparr> = s"
  "\<lparr>er_source = er_source e, er_source_id = er_source_id e, er_revision = er_revision e,
     er_field_path = er_field_path e, er_span = er_span e\<rparr> = e"
  "\<lparr>pc_kind = pc_kind p, pc_evidence = pc_evidence p\<rparr> = p"
  "\<lparr>sp_selector_id = sp_selector_id q, sp_configuration_digest = sp_configuration_digest q,
     sp_request_digest = sp_request_digest q, sp_result_digest = sp_result_digest q,
     sp_provenance_digest = sp_provenance_digest q\<rparr> = q"
  "\<lparr>gr_receipt_version = gr_receipt_version r, gr_parse_status = gr_parse_status r,
     gr_proposal_action = gr_proposal_action r, gr_claims = gr_claims r,
     gr_confidence = gr_confidence r, gr_requested_delivery_target = gr_requested_delivery_target r,
     gr_model_call_index = gr_model_call_index r, gr_model_call_digest = gr_model_call_digest r,
     gr_selector_provenance = gr_selector_provenance r\<rparr> = r"
  by simp_all

lemma span_round [simp]: "valid_text_span s \<Longrightarrow> span_of_json (span_json s) = Some s"
  by (simp add: span_of_json_def span_json_def obj_fields_def codec_simps Let_def)

lemma span_json_not_null [simp]: "span_json s \<noteq> JNull"
  by (simp add: span_json_def)

lemma uuid4_bound [simp]: "uuid4 u \<Longrightarrow> u < 340282366920938463463374607431768211456"
  by (simp add: uuid4_def)

lemma evidence_round [simp]:
  assumes "valid_evidence_reference e"
  shows "evidence_of_json (evidence_json e) = Some e"
proof -
  have "as_opt as_int (opt_json JInt (er_revision e)) = Some (er_revision e)"
    by (rule as_opt_json) simp
  moreover have "as_opt span_of_json (opt_json span_json (er_span e)) = Some (er_span e)"
    using assms by (intro as_opt_json) (auto simp: valid_evidence_reference_def)
  moreover have "uuid_of_str (uuid_str (er_source_id e)) = Some (er_source_id e)"
    using assms by (intro uuid_of_str_uuid_str) (simp add: valid_evidence_reference_def uuid4_def)
  ultimately show ?thesis
    using assms by (simp add: evidence_of_json_def evidence_json_def obj_fields_def codec_simps Let_def)
qed

lemma proposed_claim_round [simp]:
  "valid_proposed_claim p \<Longrightarrow> proposed_claim_of_json (proposed_claim_json p) = Some p"
  by (simp add: proposed_claim_of_json_def proposed_claim_json_def obj_fields_def codec_simps
      valid_proposed_claim_def)

lemma selector_provenance_round [simp]:
  "valid_selector_provenance H F p \<Longrightarrow>
   selector_provenance_of_json H F (selector_provenance_json p) = Some p"
  by (simp add: selector_provenance_of_json_def selector_provenance_json_def obj_fields_def codec_simps
      literal_default_def Let_def)

lemma selector_provenance_json_not_null [simp]: "selector_provenance_json p \<noteq> JNull"
  by (simp add: selector_provenance_json_def)

lemma receipt_get:
  "obj_opt ''claims'' (receipt_json r) = JArr (map proposed_claim_json (gr_claims r))"
  "obj_opt ''confidence'' (receipt_json r) = JFloat (Some (gr_confidence r))"
  "obj_opt ''parse_status'' (receipt_json r) = JStr (parse_status_value (gr_parse_status r))"
  "obj_opt ''proposal_action'' (receipt_json r) = opt_json (\<lambda>a. JStr (action_value a)) (gr_proposal_action r)"
  "obj_opt ''receipt_version'' (receipt_json r) = JStr (receipt_version_value (gr_receipt_version r))"
  "obj_opt ''requested_delivery_target'' (receipt_json r) =
     opt_json (\<lambda>t. JStr (target_value t)) (gr_requested_delivery_target r)"
  "obj_opt ''model_call_index'' (receipt_json r) = opt_json JInt (gr_model_call_index r)"
  "obj_opt ''model_call_digest'' (receipt_json r) = opt_json JStr (gr_model_call_digest r)"
  "obj_opt ''selector_provenance'' (receipt_json r) = opt_json selector_provenance_json (gr_selector_provenance r)"
  by (cases "gr_model_call_digest r"; cases "gr_model_call_index r"; cases "gr_selector_provenance r";
      simp add: receipt_json_def codec_simps opt_json_def)+

lemma receipt_obj_fields: "obj_fields receipt_required receipt_optional (receipt_json r)"
  by (cases "gr_model_call_digest r"; cases "gr_model_call_index r"; cases "gr_selector_provenance r";
      simp add: receipt_json_def obj_fields_def receipt_required_def receipt_optional_def)

lemma receipt_read:
  assumes "valid_grounding_receipt H F r"
  shows "receipt_of_json H F (receipt_json r) = Some r"
proof -
  have claims: "as_list proposed_claim_of_json (JArr (map proposed_claim_json (gr_claims r))) = Some (gr_claims r)"
    using assms by (simp add: o_def, intro option_list_map)
      (auto simp: valid_grounding_receipt_def list_all_iff)
  have opts: "as_opt (as_enum action_value [Action_SILENCE, Action_REMIND])
        (opt_json (\<lambda>a. JStr (action_value a)) (gr_proposal_action r)) = Some (gr_proposal_action r)"
    "as_opt (as_enum target_value delivery_targets)
        (opt_json (\<lambda>t. JStr (target_value t)) (gr_requested_delivery_target r)) =
      Some (gr_requested_delivery_target r)"
    "as_opt as_int (opt_json JInt (gr_model_call_index r)) = Some (gr_model_call_index r)"
    "as_opt as_str (opt_json JStr (gr_model_call_digest r)) = Some (gr_model_call_digest r)"
    by (rule as_opt_json, simp)+
  have sel: "as_opt (selector_provenance_of_json H F)
        (opt_json selector_provenance_json (gr_selector_provenance r)) = Some (gr_selector_provenance r)"
    using assms by (intro as_opt_json) (auto simp: valid_grounding_receipt_def)
  have "receipt_of_json H F (receipt_json r) = (if valid_grounding_receipt H F r then Some r else None)"
    unfolding receipt_of_json_def receipt_get opts claims sel
    by (simp add: receipt_obj_fields Let_def codec_simps)
  with assms show ?thesis by simp
qed

text \<open>
  A grounding receipt survives the ledger: every valid receipt is read back unchanged from
  the JSON it is written as, claims, citations, spans and provenance included.
\<close>

theorem receipt_roundtrip:
  assumes "valid_grounding_receipt H F r"
  shows "receipt_of_json H F (receipt_json r) = Some r"
  using assms by (rule receipt_read)

section \<open>Concrete claims\<close>

definition sample_evidence :: evidence_reference where
  "sample_evidence = \<lparr>er_source = Source_EVENT, er_source_id = sample_uuid 2, er_revision = None,
     er_field_path = ''/payload/text'', er_span = None\<rparr>"

definition sample_claim :: proposed_claim where
  "sample_claim = \<lparr>pc_kind = Claim_ENVIRONMENT_FACT, pc_evidence = sample_evidence\<rparr>"

definition sample_receipt :: grounding_receipt where
  "sample_receipt = \<lparr>gr_receipt_version = Receipt_V1, gr_parse_status = Parse_VALID,
     gr_proposal_action = Some Action_REMIND, gr_claims = [sample_claim], gr_confidence = 1,
     gr_requested_delivery_target = Some Target_NEXT_MODEL_CALL, gr_model_call_index = Some 0,
     gr_model_call_digest = Some sample_digest, gr_selector_provenance = None\<rparr>"

lemma sample_evidence_valid [simp]: "valid_evidence_reference sample_evidence"
  by (simp add: valid_evidence_reference_def sample_evidence_def json_pointer_def code_points_def)

lemma sample_receipt_valid: "valid_grounding_receipt H F sample_receipt"
  by (simp add: valid_grounding_receipt_def sample_receipt_def sample_claim_def valid_proposed_claim_def
      unit_interval_def max_signed_64_def provenance_ok_def model_provenance_def)

theorem receipt_roundtrip_witness:
  "receipt_of_json zero_hash ratio_text (receipt_json sample_receipt) = Some sample_receipt"
  by (rule receipt_roundtrip) (rule sample_receipt_valid)

section \<open>Fingerprints identify citations\<close>

lemma uuid_str_inj: "u < 2 ^ 128 \<Longrightarrow> v < 2 ^ 128 \<Longrightarrow> uuid_str u = uuid_str v \<longleftrightarrow> u = v"
  using uuid_of_str_uuid_str by (metis option.inject)

lemma opt_json_inj:
  "(\<And>v w. f v = f w \<Longrightarrow> v = w) \<Longrightarrow> (\<And>v. f v \<noteq> JNull) \<Longrightarrow> opt_json f x = opt_json f y \<longleftrightarrow> x = y"
  unfolding opt_json_def by (cases x; cases y) (auto dest: sym)

lemma fingerprint_metadata_inj:
  assumes "valid_evidence_reference e" and "valid_evidence_reference e'"
    and "fingerprint_metadata k e = fingerprint_metadata k' e'"
  shows "k = k' \<and> e = e'"
proof -
  have "er_revision e = er_revision e'" "er_span e = er_span e'"
    using assms(3) opt_json_inj [of JInt "er_revision e" "er_revision e'"]
      opt_json_inj [of span_json "er_span e" "er_span e'"]
    by (auto simp: fingerprint_metadata_def span_json_def)
  moreover have "er_source_id e = er_source_id e'"
    using assms uuid_str_inj [of "er_source_id e" "er_source_id e'"]
    by (auto simp: fingerprint_metadata_def valid_evidence_reference_def uuid4_def)
  ultimately show ?thesis using assms(3) by (auto simp: fingerprint_metadata_def value_inj)
qed

lemma fingerprint_metadata_wf: "json_wf (fingerprint_metadata k e)"
  by (simp add: fingerprint_metadata_def opt_json_def span_json_def split: option.splits)

text \<open>The bytes that \<open>claim_fingerprint\<close> hashes.\<close>

definition fingerprint_domain :: string where
  "fingerprint_domain = ''saliencegate:intervention:claim-fingerprint:v1''"

definition fingerprint_bytes :: "float_text \<Rightarrow> intervention_claim \<Rightarrow> string" where
  "fingerprint_bytes F c =
     concat (map frame [fingerprint_domain, json_text F (fingerprint_metadata (ic_kind c) (hd (ic_evidence c)))])"

lemma claim_fingerprint_shape:
  assumes "claim_fingerprint H F c = Inr d"
  obtains e where "ic_evidence c = [e]" and "valid_evidence_reference e"
    and "canonical_json F (fingerprint_metadata (ic_kind c) e) =
      Some (json_text F (fingerprint_metadata (ic_kind c) e))"
    and "d = length_prefixed_sha256 H fingerprint_domain [json_text F (fingerprint_metadata (ic_kind c) e)]"
  using assms unfolding claim_fingerprint_def validated_claim_metadata_def canonical_json_def fingerprint_domain_def
  by (auto split: option.splits list.splits if_splits)

text \<open>
  A claim fingerprint identifies the kind and the exact citation: two claims with the same
  fingerprint cite the same record, revision, field and span for the same kind of claim, provided
  the hash function keeps apart the two byte strings it is given for them.
\<close>

theorem claim_fingerprint_identifies_citation:
  assumes "float_repr F" and "inj_on H {fingerprint_bytes F c, fingerprint_bytes F c'}"
    and "claim_fingerprint H F c = Inr d" and "claim_fingerprint H F c' = Inr d"
  shows "ic_kind c = ic_kind c' \<and> ic_evidence c = ic_evidence c'"
proof -
  from claim_fingerprint_shape [OF assms(3)] obtain e where e: "ic_evidence c = [e]"
    "valid_evidence_reference e" "canonical_json F (fingerprint_metadata (ic_kind c) e) =
      Some (json_text F (fingerprint_metadata (ic_kind c) e))"
    "d = length_prefixed_sha256 H fingerprint_domain [json_text F (fingerprint_metadata (ic_kind c) e)]" .
  from claim_fingerprint_shape [OF assms(4)] obtain e' where e': "ic_evidence c' = [e']"
    "valid_evidence_reference e'" "canonical_json F (fingerprint_metadata (ic_kind c') e') =
      Some (json_text F (fingerprint_metadata (ic_kind c') e'))"
    "d = length_prefixed_sha256 H fingerprint_domain [json_text F (fingerprint_metadata (ic_kind c') e')]" .
  have "json_text F (fingerprint_metadata (ic_kind c) e) = json_text F (fingerprint_metadata (ic_kind c') e')"
    using length_prefixed_single [OF assms(2) [unfolded fingerprint_bytes_def e(1) e'(1) list.sel]]
      e(4) e'(4) by metis
  with e(3) e'(3) have "fingerprint_metadata (ic_kind c) e = fingerprint_metadata (ic_kind c') e'"
    using canonical_json_inj [OF assms(1) fingerprint_metadata_wf fingerprint_metadata_wf] by simp
  then show ?thesis using fingerprint_metadata_inj [OF e(2) e'(2)] e(1) e'(1) by simp
qed

theorem claim_fingerprint_identifies_citation_witness:
  "ic_evidence \<lparr>ic_kind = Claim_DIAGNOSIS, ic_fields = JObj [(''diagnosis'', JStr ''a'')], ic_evidence = [sample_evidence]\<rparr> =
   ic_evidence \<lparr>ic_kind = Claim_DIAGNOSIS, ic_fields = JObj [(''diagnosis'', JStr ''b'')], ic_evidence = [sample_evidence]\<rparr>"
proof -
  have "json_finite (fingerprint_metadata Claim_DIAGNOSIS sample_evidence)"
    by (simp add: fingerprint_metadata_def sample_evidence_def opt_json_def json_finite.simps)
  then have "claim_fingerprint (\<lambda>s. s) ratio_text \<lparr>ic_kind = Claim_DIAGNOSIS, ic_fields = f, ic_evidence = [sample_evidence]\<rparr> =
      Inr (length_prefixed_sha256 (\<lambda>s. s) fingerprint_domain [json_text ratio_text (fingerprint_metadata Claim_DIAGNOSIS sample_evidence)])"
    for f
    by (simp add: claim_fingerprint_def validated_claim_metadata_def canonical_json_def fingerprint_domain_def)
  from claim_fingerprint_identifies_citation [OF ratio_text_repr _ this this] show ?thesis by simp
qed

end
