(* ===== verification/Rendering.thy ===== *)
theory Rendering
  imports Claims
begin

text \<open>
  The deterministic reminder renderer (\<open>intervention/rendering.py\<close>) and the byte/token counter it
  measures with (\<open>runtime/token_counting.py\<close>). The lemmas show that the evidence text, which is
  untrusted, cannot leave the quoted field it is put in.
\<close>

section \<open>Measuring text\<close>

record text_size =
  ts_utf8_bytes :: nat
  ts_code_points :: nat
  ts_approximate_tokens :: nat

definition measure_text :: "string \<Rightarrow> text_size" where
  "measure_text s = \<lparr>ts_utf8_bytes = length s, ts_code_points = code_points s,
     ts_approximate_tokens = (length s + 3) div 4\<rparr>"

section \<open>Configuration and claims\<close>

record rendering_config =
  rn_max_claims :: int
  rn_max_evidence_bytes :: int
  rn_max_output_bytes :: int
  rn_max_token_equivalents :: int
  rn_include_provenance :: bool

definition valid_rendering_config :: "rendering_config \<Rightarrow> bool" where
  "valid_rendering_config c \<longleftrightarrow>
     1 \<le> rn_max_claims c \<and> rn_max_claims c \<le> 2 \<and>
     1 \<le> rn_max_evidence_bytes c \<and> rn_max_evidence_bytes c \<le> 1024 \<and>
     1 \<le> rn_max_output_bytes c \<and> rn_max_output_bytes c \<le> 4096 \<and>
     1 \<le> rn_max_token_equivalents c \<and> rn_max_token_equivalents c \<le> 1024"

record grounded_claim =
  gd_claim :: intervention_claim
  gd_source_text :: string
  gd_origin_trust_label :: trust_label

definition valid_grounded_claim :: "grounded_claim \<Rightarrow> bool" where
  "valid_grounded_claim g \<longleftrightarrow> valid_intervention_claim (gd_claim g) \<and>
     grounded_claim_text (gd_claim g) = Inr (gd_source_text g)"

datatype (plugins only: code size) rendering_error =
    Render_claim | Render_configuration | Render_evidence_bytes | Render_output_bytes
  | Render_output_tokens | Render_text | Render_model_rejected

section \<open>Quoting\<close>

definition safe_evidence_bytes :: string where
  "safe_evidence_bytes = ''ABCDEFGHIJKLMNOPQRSTUVWXYZabcdefghijklmnopqrstuvwxyz0123456789 .,_-/''"

definition escape_byte :: "char \<Rightarrow> string" where
  "escape_byte c = (if c \<in> set safe_evidence_bytes then [c]
                    else CHR 0x5C # CHR ''x'' # hex_pad 2 (of_char c))"

definition escaped_ascii :: "string \<Rightarrow> string" where
  "escaped_ascii encoded = concat (map escape_byte encoded)"

definition quote_untrusted_evidence :: "string \<Rightarrow> string" where
  "quote_untrusted_evidence s = CHR 0x22 # escaped_ascii s @ [CHR 0x22]"

section \<open>The reminder\<close>

definition claim_prefix :: "nat \<Rightarrow> string" where
  "claim_prefix index = ''claim.'' @ dec_str (int index)"

definition provenance_lines :: "nat \<Rightarrow> evidence_reference \<Rightarrow> string list" where
  "provenance_lines index e =
     (let prefix = claim_prefix index @ ''.provenance'' in
      [prefix @ ''.source='' @ source_value (er_source e),
       prefix @ ''.source_id='' @ escaped_ascii (uuid_str (er_source_id e))] @
      (case er_revision e of None \<Rightarrow> [] | Some r \<Rightarrow> [prefix @ ''.revision='' @ dec_str r]) @
      [prefix @ ''.field_path='' @ escaped_ascii (er_field_path e)] @
      (case er_span e of None \<Rightarrow> []
       | Some s \<Rightarrow> [prefix @ ''.span.start_byte='' @ dec_str (span_start_byte s),
                    prefix @ ''.span.end_byte='' @ dec_str (span_end_byte s)]))"

definition claim_lines :: "rendering_config \<Rightarrow> nat \<times> grounded_claim \<Rightarrow> rendering_error + string list" where
  "claim_lines cfg = (\<lambda>(index, item).
     if int (ts_utf8_bytes (measure_text (gd_source_text item))) > rn_max_evidence_bytes cfg
     then Inl Render_evidence_bytes
     else Inr
       ([claim_prefix index @ ''.kind='' @ claim_kind_value (ic_kind (gd_claim item)),
         claim_prefix index @ ''.origin='' @ trust_value (gd_origin_trust_label item),
         claim_prefix index @ ''.evidence='' @ quote_untrusted_evidence (gd_source_text item)] @
        (if rn_include_provenance cfg then provenance_lines index (hd (ic_evidence (gd_claim item)))
         else [])))"

definition header_lines :: "string list" where
  "header_lines = [''[SALIENCEGATE_REMINDER fixed-ascii/v1]'', ''authority=none'',
     ''reason=grounded_reminder'', ''ttl_steps=1'']"

definition newline :: char where
  "newline = CHR 0x0A"

definition reminder_lines ::
    "rendering_config \<Rightarrow> grounded_claim list \<Rightarrow> rendering_error + string list" where
  "reminder_lines cfg claims =
     bind_result (map_result (claim_lines cfg) (zip [1..<length claims + 1] claims)) (\<lambda>blocks.
       Inr (header_lines @ concat blocks @ [''[/SALIENCEGATE_REMINDER]'']))"

definition render :: "rendering_config \<Rightarrow> grounded_claim list \<Rightarrow> rendering_error + string" where
  "render cfg claims =
     checks
       [(\<not> valid_rendering_config cfg, Render_configuration),
        (\<not> (1 \<le> length claims \<and> int (length claims) \<le> rn_max_claims cfg), Render_claim),
        (length claims > 2, Render_claim),
        (\<not> list_all valid_grounded_claim claims, Render_claim)]
       (bind_result (reminder_lines cfg claims) (\<lambda>ls.
        let text = join [newline] ls; size = measure_text text
        in checks
             [(int (ts_utf8_bytes size) > rn_max_output_bytes cfg, Render_output_bytes),
              (int (ts_approximate_tokens size) > rn_max_token_equivalents cfg, Render_output_tokens),
              (\<not> (1 \<le> ts_utf8_bytes size \<and> ts_utf8_bytes size \<le> 4096 \<and>
                  1 \<le> ts_approximate_tokens size \<and> ts_approximate_tokens size \<le> 1024),
                 Render_model_rejected)]
             (Inr text)))"

section \<open>Evidence stays inside its quotes\<close>

fun split_on :: "char \<Rightarrow> string \<Rightarrow> string list" where
  "split_on d [] = [[]]"
| "split_on d (c # cs) =
     (if c = d then [] # split_on d cs
      else case split_on d cs of [] \<Rightarrow> [[c]] | w # ws \<Rightarrow> (c # w) # ws)"

definition unescape_byte :: "string \<Rightarrow> char \<times> string" where
  "unescape_byte s =
     (if hd s = CHR 0x5C then (char_of (unhex (take 2 (drop 2 s))), drop 4 s) else (hd s, tl s))"

definition printable_ascii :: "char \<Rightarrow> bool" where
  "printable_ascii c \<longleftrightarrow> 32 \<le> (of_char c :: nat) \<and> (of_char c :: nat) < 127"

lemma unescape_escape_byte: "unescape_byte (escape_byte c @ xs) = (c, xs)"
proof (cases "c \<in> set safe_evidence_bytes")
  case True
  then have "c \<noteq> CHR 0x5C" by (auto simp: safe_evidence_bytes_def)
  with True show ?thesis by (simp add: escape_byte_def unescape_byte_def)
next
  case False
  then show ?thesis by (simp add: escape_byte_def unescape_byte_def unhex_hex_pad)
qed

lemma escape_byte_prefix: "escape_byte c @ xs = escape_byte d @ ys \<Longrightarrow> c = d \<and> xs = ys"
  using unescape_escape_byte by (metis prod.inject)

lemma escaped_ascii_inj: "escaped_ascii s = escaped_ascii t \<Longrightarrow> s = t"
proof (induction s arbitrary: t)
  case Nil
  then show ?case by (cases t) (auto simp: escaped_ascii_def escape_byte_def split: if_splits)
next
  case (Cons c s)
  then obtain d t' where t: "t = d # t'"
    by (cases t) (auto simp: escaped_ascii_def escape_byte_def split: if_splits)
  with Cons.prems have "escape_byte c @ escaped_ascii s = escape_byte d @ escaped_ascii t'"
    by (simp add: escaped_ascii_def)
  from escape_byte_prefix [OF this] Cons.IH t show ?case by simp
qed

lemma hex_pad_chars: "set (hex_pad w n) \<subseteq> set hex_chars"
  using hex_chars_distinct by (induction w n rule: hex_pad.induct) auto

text \<open>The characters a rendered line is made of: printable ASCII, no double quote in evidence.\<close>

definition line_chars :: string where
  "line_chars = safe_evidence_bytes @ [CHR 0x5C]"

lemma line_chars_printable: "c \<in> set line_chars \<Longrightarrow> printable_ascii c \<and> c \<noteq> CHR 0x22 \<and> c \<noteq> newline"
proof -
  have "list_all (\<lambda>c. printable_ascii c \<and> c \<noteq> CHR 0x22 \<and> c \<noteq> newline) line_chars" by code_simp
  then show "c \<in> set line_chars \<Longrightarrow> printable_ascii c \<and> c \<noteq> CHR 0x22 \<and> c \<noteq> newline"
    by (simp add: list_all_iff)
qed

lemma escaped_ascii_chars: "set (escaped_ascii s) \<subseteq> set line_chars"
proof -
  have hex: "set hex_chars \<subseteq> set line_chars" "CHR ''x'' \<in> set line_chars" "CHR 0x5C \<in> set line_chars"
    by (auto simp: hex_chars_def line_chars_def safe_evidence_bytes_def)
  have "set (escape_byte c) \<subseteq> set line_chars" for c
  proof (cases "c \<in> set safe_evidence_bytes")
    case True
    then show ?thesis by (simp add: escape_byte_def line_chars_def)
  next
    case False
    with hex hex_pad_chars [of 2 "of_char c"] show ?thesis by (auto simp: escape_byte_def)
  qed
  then show ?thesis by (auto simp: escaped_ascii_def)
qed

definition printable :: "string \<Rightarrow> bool" where
  "printable s = list_all printable_ascii s"

lemma split_on_append: "d \<notin> set w \<Longrightarrow> split_on d (w @ d # s) = w # split_on d s"
  by (induction w) auto

lemma split_on_no_sep: "d \<notin> set w \<Longrightarrow> split_on d w = [w]"
  by (induction w) auto

lemma split_on_join:
  "ls \<noteq> [] \<Longrightarrow> (\<And>l. l \<in> set ls \<Longrightarrow> d \<notin> set l) \<Longrightarrow> split_on d (join [d] ls) = ls"
  by (induction "[d]" ls rule: join.induct) (auto simp: split_on_no_sep split_on_append)

lemma printable_no_newline: "printable s \<Longrightarrow> newline \<notin> set s"
  by (auto simp: printable_def list_all_iff printable_ascii_def newline_def)

lemma printable_escaped: "printable (escaped_ascii s)"
  using escaped_ascii_chars [of s] line_chars_printable by (auto simp: printable_def list_all_iff)

lemma printable_digits: "printable digits"
  by code_simp

lemma printable_dec_str: "printable (dec_str i)"
proof -
  have "printable_ascii (CHR ''-'')" by code_simp
  with printable_digits dec_str_chars [of i] show ?thesis by (auto simp: printable_def list_all_iff)
qed

lemma printable_values:
  "printable (claim_kind_value k)" "printable (trust_value t)" "printable (source_value s)"
  subgoal by (cases k) (simp_all only: claim_kind_value.simps, code_simp+)
  subgoal by (cases t) (simp_all only: trust_value.simps, code_simp+)
  subgoal by (cases s) (simp_all only: source_value.simps, code_simp+)
  done

lemma printable_literals:
  "printable ''claim.''" "printable ''.kind=''" "printable ''.origin=''" "printable ''.evidence=''"
  "printable ''.provenance''" "printable ''.source=''" "printable ''.source_id=''" "printable ''.revision=''"
  "printable ''.field_path=''" "printable ''.span.start_byte=''" "printable ''.span.end_byte=''"
  "printable_ascii (CHR 0x22)" "list_all printable header_lines" "printable ''[/SALIENCEGATE_REMINDER]''"
  by code_simp+

lemma printable_append: "printable (s @ t) \<longleftrightarrow> printable s \<and> printable t"
  by (simp add: printable_def)

lemma printable_quote: "printable (quote_untrusted_evidence s)"
  using printable_escaped [of s] printable_literals(12)
  by (simp add: quote_untrusted_evidence_def printable_def)

lemmas printable_parts = printable_literals printable_values printable_dec_str printable_escaped printable_quote

lemma printable_prefix: "printable (claim_prefix i)"
  unfolding claim_prefix_def printable_append using printable_parts by blast

lemma printable_provenance: "list_all printable (provenance_lines i e)"
  unfolding provenance_lines_def Let_def
  using printable_parts printable_prefix
  by (cases "er_revision e"; cases "er_span e"; simp only: option.case list_all_append list.pred_inject
      printable_append append_Nil simp_thms)

lemma claim_lines_printable: "claim_lines cfg ic = Inr ls \<Longrightarrow> list_all printable ls"
proof (cases ic)
  case (Pair i c)
  assume "claim_lines cfg ic = Inr ls"
  moreover have "list_all printable
      ([claim_prefix i @ ''.kind='' @ claim_kind_value (ic_kind (gd_claim c)),
         claim_prefix i @ ''.origin='' @ trust_value (gd_origin_trust_label c),
         claim_prefix i @ ''.evidence='' @ quote_untrusted_evidence (gd_source_text c)])"
    using printable_parts printable_prefix by (simp only: list.pred_inject printable_append simp_thms)
  ultimately show ?thesis
    using printable_provenance unfolding claim_lines_def Pair prod.case
    by (auto split: if_splits simp del: append.simps)
qed

lemma map_result_Inr:
  "map_result f xs = Inr ys \<longleftrightarrow> length ys = length xs \<and> (\<forall>i<length xs. f (xs ! i) = Inr (ys ! i))"
proof (induction xs arbitrary: ys)
  case Nil
  then show ?case by auto
next
  case (Cons x xs)
  show ?case
  proof (cases ys)
    case Nil
    then show ?thesis by (auto simp: result_simps)
  next
    case (Cons y ys')
    then show ?thesis by (simp add: result_simps Cons.IH All_less_Suc2) blast
  qed
qed

lemma reminder_lines_printable:
  assumes "reminder_lines cfg claims = Inr ls"
  shows "list_all printable ls \<and> ls \<noteq> []"
proof -
  from assms obtain blocks where blocks:
    "map_result (claim_lines cfg) (zip [1..<length claims + 1] claims) = Inr blocks"
    and ls: "ls = header_lines @ concat blocks @ [''[/SALIENCEGATE_REMINDER]'']"
    unfolding reminder_lines_def by (auto simp only: bind_result_Inr sum.inject)
  have "list_all printable b" if "b \<in> set blocks" for b
    using blocks that claim_lines_printable by (auto simp: map_result_Inr in_set_conv_nth)
  then have "list_all printable (concat blocks)" by (auto simp: list_all_iff)
  with printable_literals(13,14) show ?thesis
    unfolding ls by (simp only: list_all_append list.pred_inject simp_thms) simp
qed

lemma render_Inr:
  assumes "render cfg claims = Inr text"
  obtains ls where "reminder_lines cfg claims = Inr ls" and "text = join [newline] ls"
    and "int (length text) \<le> rn_max_output_bytes cfg"
    and "int ((length text + 3) div 4) \<le> rn_max_token_equivalents cfg"
    and "valid_rendering_config cfg" and "list_all valid_grounded_claim claims" and "1 \<le> length claims"
    and "int (length claims) \<le> rn_max_claims cfg"
  using assms unfolding render_def
  by (auto simp: result_simps Let_def measure_text_def not_less)

text \<open>
  C40. Evidence cannot forge the frame of a reminder: a rendered reminder, split at its newlines,
  is exactly the header, the lines of each claim and the footer the renderer put there, every
  line is printable ASCII, and the whole stays within the configured byte and token limits. The
  untrusted text of every claim stands in its own line, quoted.
\<close>

theorem rendered_frame_is_exact:
  assumes "render cfg claims = Inr text"
  shows "\<exists>ls. reminder_lines cfg claims = Inr ls \<and> split_on newline text = ls \<and>
    list_all printable ls \<and> int (length text) \<le> rn_max_output_bytes cfg \<and>
    int ((length text + 3) div 4) \<le> rn_max_token_equivalents cfg"
proof -
  from assms obtain ls where ls: "reminder_lines cfg claims = Inr ls" "text = join [newline] ls"
    "int (length text) \<le> rn_max_output_bytes cfg"
    "int ((length text + 3) div 4) \<le> rn_max_token_equivalents cfg" by (rule render_Inr)
  from reminder_lines_printable [OF ls(1)] have "list_all printable ls" "ls \<noteq> []" by auto
  moreover from this have "split_on newline text = ls"
    unfolding ls(2) by (intro split_on_join) (auto simp: list_all_iff dest: printable_no_newline)
  ultimately show ?thesis using ls by blast
qed

text \<open>Reading a quoted text back.\<close>

function unescape_all :: "string \<Rightarrow> string" where
  "unescape_all [] = []"
| "unescape_all (c # cs) = (let (b, rest) = unescape_byte (c # cs) in b # unescape_all rest)"
  by pat_completeness auto
termination by (relation "measure length") (auto simp: unescape_byte_def split: if_splits)

definition unquote_evidence :: "string \<Rightarrow> string" where
  "unquote_evidence q = unescape_all (takeWhile (\<lambda>c. c \<noteq> CHR 0x22) (tl q))"

text \<open>
  Quoting is lossless and self-delimiting: reading a quoted text up to its closing quote and
  undoing the byte escapes gives the evidence back, whatever bytes it holds and whatever follows
  the quote, and the quoted text is printable ASCII.
\<close>

theorem quoted_evidence_roundtrip:
  "unquote_evidence (quote_untrusted_evidence s @ rest) = s \<and> printable (quote_untrusted_evidence s)"
proof -
  have "CHR 0x22 \<notin> set (escaped_ascii s)"
    using escaped_ascii_chars line_chars_printable by blast
  then have "takeWhile (\<lambda>c. c \<noteq> CHR 0x22) (tl (quote_untrusted_evidence s @ rest)) = escaped_ascii s"
    by (simp add: quote_untrusted_evidence_def takeWhile_append1) (subst takeWhile_append2; auto)
  moreover have "unescape_all (escaped_ascii s) = s"
  proof (induction s)
    case Nil
    then show ?case by (simp add: escaped_ascii_def)
  next
    case (Cons c s)
    have "unescape_byte (escaped_ascii (c # s)) = (c, escaped_ascii s)"
      using unescape_escape_byte by (simp add: escaped_ascii_def)
    moreover obtain d r where "escaped_ascii (c # s) = d # r"
      by (cases "escaped_ascii (c # s)") (auto simp: escaped_ascii_def escape_byte_def split: if_splits)
    ultimately show ?case using Cons.IH by simp
  qed
  ultimately show ?thesis using printable_quote by (simp add: unquote_evidence_def)
qed

lemma header_long: "20 \<le> length (join [newline] (header_lines @ ls))"
proof -
  have "length (hd header_lines) = 38" by (simp add: header_lines_def)
  then show ?thesis by (simp add: header_lines_def join_Cons)
qed

lemma reminder_lines_not_rejected: "reminder_lines cfg claims \<noteq> Inl Render_model_rejected"
proof -
  have "map_result (claim_lines cfg) xs \<noteq> Inl Render_model_rejected" for xs
    by (induction xs) (auto simp: bind_result_Inl claim_lines_def split: if_splits prod.splits)
  then show ?thesis by (auto simp: reminder_lines_def bind_result_Inl)
qed

lemma render_not_rejected: "render cfg claims \<noteq> Inl Render_model_rejected"
proof (cases "reminder_lines cfg claims")
  case (Inl e)
  then show ?thesis using reminder_lines_not_rejected [of cfg claims] by (auto simp: render_def checks_eval)
next
  case (Inr ls)
  then have "20 \<le> length (join [newline] ls)"
    using header_long by (auto simp: reminder_lines_def bind_result_Inr)
  then show ?thesis
    using Inr by (auto simp: render_def checks_eval Let_def measure_text_def valid_rendering_config_def)
qed

section \<open>A concrete reminder\<close>

definition sample_rendering_config :: rendering_config where
  "sample_rendering_config = \<lparr>rn_max_claims = 2, rn_max_evidence_bytes = 64, rn_max_output_bytes = 4096,
     rn_max_token_equivalents = 1024, rn_include_provenance = False\<rparr>"

definition sample_grounded_claim :: grounded_claim where
  "sample_grounded_claim = \<lparr>gd_claim = \<lparr>ic_kind = Claim_ENVIRONMENT_FACT,
       ic_fields = JObj [(''fact'', JStr ''a'')], ic_evidence = [sample_evidence]\<rparr>,
     gd_source_text = ''a'', gd_origin_trust_label = Trust_UNTRUSTED_TOOL_OUTPUT\<rparr>"

lemma sample_grounded_claim_valid [simp]: "valid_grounded_claim sample_grounded_claim"
  by (simp add: valid_grounded_claim_def sample_grounded_claim_def valid_intervention_claim_def is_object_def
      json_finite.simps grounded_claim_text_def validated_claim_metadata_def)

lemma render_fits:
  assumes "valid_rendering_config cfg" and "list_all valid_grounded_claim claims"
    and "1 \<le> length claims" and "int (length claims) \<le> rn_max_claims cfg"
    and "reminder_lines cfg claims = Inr ls" and "20 \<le> length (join [newline] ls)"
    and "int (length (join [newline] ls)) \<le> rn_max_output_bytes cfg"
    and "int ((length (join [newline] ls) + 3) div 4) \<le> rn_max_token_equivalents cfg"
  shows "render cfg claims = Inr (join [newline] ls)"
  using assms unfolding render_def assms(5) bind_result_simps Let_def measure_text_def
  by (simp add: checks_pass valid_rendering_config_def not_less)

lemma sample_render: "\<exists>t. render sample_rendering_config [sample_grounded_claim] = Inr t"
proof -
  let ?ls = "header_lines @ concat [[claim_prefix 1 @ ''.kind='' @ claim_kind_value Claim_ENVIRONMENT_FACT,
    claim_prefix 1 @ ''.origin='' @ trust_value Trust_UNTRUSTED_TOOL_OUTPUT,
    claim_prefix 1 @ ''.evidence='' @ quote_untrusted_evidence ''a'']] @ [''[/SALIENCEGATE_REMINDER]'']"
  have ls: "reminder_lines sample_rendering_config [sample_grounded_claim] = Inr ?ls"
    by (simp add: reminder_lines_def claim_lines_def sample_rendering_config_def sample_grounded_claim_def
        measure_text_def)
  have "length (escape_byte c) \<le> 4" for c by (simp add: escape_byte_def)
  from this [of "CHR ''a''"] have q: "length (quote_untrusted_evidence ''a'') \<le> 6"
    by (simp add: quote_untrusted_evidence_def escaped_ascii_def)
  have p: "length (claim_prefix 1) = 7"
    by (simp add: claim_prefix_def dec_str_def dec_nat.simps)
  have "length (join [newline] ?ls) \<le> 400"
    using q p by (simp add: join_Cons header_lines_def)
  moreover have "20 \<le> length (join [newline] ?ls)" by (rule header_long)
  moreover have "valid_rendering_config sample_rendering_config"
    by (simp add: valid_rendering_config_def sample_rendering_config_def)
  ultimately show ?thesis by (intro exI) (rule render_fits [OF _ _ _ _ ls]; simp add: sample_rendering_config_def)
qed

theorem rendered_frame_is_exact_witness:
  "\<exists>t ls. render sample_rendering_config [sample_grounded_claim] = Inr t \<and> split_on newline t = ls"
  using sample_render rendered_frame_is_exact by blast

end
