(* ===== verification/Grounding.thy ===== *)
theory Grounding
  imports Rendering
begin

text \<open>
  The grounding pipeline (\<open>intervention/grounding.py\<close>): configuration pins, the resolution of a
  citation to the text it selects, the decision \<open>ground\<close> makes on a proposal, the replay of a
  receipt and the authoritative verification of a decision.

  Results are \<open>Inl\<close> of the exception raised; \<open>Grounding_model_rejected\<close> stands for a pydantic
  \<open>ValidationError\<close> of a constructor the code does not guard, and the lemmas show that it never
  happens. \<open>canonical_json(a) == canonical_json(b)\<close> on models is equality of their values.
\<close>

section \<open>Configuration\<close>

record grounding_config =
  gc_max_claims :: int
  gc_max_pointer_segments :: int
  gc_max_pointer_utf8_bytes :: int
  gc_duplicate_window_events :: int
  gc_cooldown_events :: int
  gc_allowed_delivery_targets :: "delivery_target list"
  gc_rendering :: rendering_config

definition max_state_records :: nat where
  "max_state_records = 10000"

definition max_reminder_history :: nat where
  "max_reminder_history = 10000"

definition canonical_targets :: "delivery_target list \<Rightarrow> delivery_target list" where
  "canonical_targets ts = filter (\<lambda>t. t \<in> set ts) delivery_targets"

definition valid_grounding_config :: "grounding_config \<Rightarrow> bool" where
  "valid_grounding_config c \<longleftrightarrow>
     1 \<le> gc_max_claims c \<and> gc_max_claims c \<le> 2 \<and>
     1 \<le> gc_max_pointer_segments c \<and> gc_max_pointer_segments c \<le> 32 \<and>
     1 \<le> gc_max_pointer_utf8_bytes c \<and> gc_max_pointer_utf8_bytes c \<le> 1024 \<and>
     0 \<le> gc_duplicate_window_events c \<and> gc_duplicate_window_events c \<le> int max_reminder_history \<and>
     0 \<le> gc_cooldown_events c \<and> gc_cooldown_events c \<le> int max_reminder_history \<and>
     gc_allowed_delivery_targets c \<noteq> [] \<and> length (gc_allowed_delivery_targets c) \<le> 2 \<and>
     distinct (gc_allowed_delivery_targets c) \<and>
     canonical_targets (gc_allowed_delivery_targets c) = gc_allowed_delivery_targets c \<and>
     valid_rendering_config (gc_rendering c) \<and>
     \<not> rn_max_claims (gc_rendering c) < gc_max_claims c"

definition rendering_json :: "rendering_config \<Rightarrow> json" where
  "rendering_json r = JObj
     [(''include_provenance'', JBool (rn_include_provenance r)),
      (''max_claims'', JInt (rn_max_claims r)),
      (''max_evidence_bytes'', JInt (rn_max_evidence_bytes r)),
      (''max_output_bytes'', JInt (rn_max_output_bytes r)),
      (''max_token_equivalents'', JInt (rn_max_token_equivalents r)),
      (''renderer_version'', JStr ''fixed-ascii/v1''),
      (''schema_version'', JStr ''1.0''),
      (''token_counter_version'', JStr ''utf8-bytes-ceil-div-4-v1'')]"

definition config_json :: "grounding_config \<Rightarrow> json" where
  "config_json c = JObj
     [(''allowed_delivery_targets'', JArr (map (\<lambda>t. JStr (target_value t)) (gc_allowed_delivery_targets c))),
      (''claim_schema_version'', JStr ''citation-only-claims/v1''),
      (''cooldown_events'', JInt (gc_cooldown_events c)),
      (''duplicate_window_events'', JInt (gc_duplicate_window_events c)),
      (''max_claims'', JInt (gc_max_claims c)),
      (''max_evidence_per_claim'', JInt 1),
      (''max_pointer_segments'', JInt (gc_max_pointer_segments c)),
      (''max_pointer_utf8_bytes'', JInt (gc_max_pointer_utf8_bytes c)),
      (''pipeline_version'', JStr ''grounding-pipeline/v1''),
      (''rendering'', rendering_json (gc_rendering c)),
      (''schema_version'', JStr ''1.0''),
      (''ttl_steps'', JInt 1)]"

definition rendering_of_json :: "json \<Rightarrow> rendering_config option" where
  "rendering_of_json v =
     (if obj_fields [''schema_version'', ''renderer_version'', ''token_counter_version'', ''max_claims'',
           ''max_evidence_bytes'', ''max_output_bytes'', ''max_token_equivalents'',
           ''include_provenance''] [] v \<and>
         obj_opt ''schema_version'' v = JStr ''1.0'' \<and>
         obj_opt ''renderer_version'' v = JStr ''fixed-ascii/v1'' \<and>
         obj_opt ''token_counter_version'' v = JStr ''utf8-bytes-ceil-div-4-v1''
      then case (as_int (obj_opt ''max_claims'' v), as_int (obj_opt ''max_evidence_bytes'' v),
                 as_int (obj_opt ''max_output_bytes'' v), as_int (obj_opt ''max_token_equivalents'' v),
                 as_bool (obj_opt ''include_provenance'' v)) of
             (Some a, Some b, Some c, Some d, Some e) \<Rightarrow>
               (let r = \<lparr>rn_max_claims = a, rn_max_evidence_bytes = b, rn_max_output_bytes = c,
                         rn_max_token_equivalents = d, rn_include_provenance = e\<rparr>
                in if valid_rendering_config r then Some r else None)
           | _ \<Rightarrow> None
      else None)"

definition config_of_json :: "json \<Rightarrow> grounding_config option" where
  "config_of_json v =
     (if obj_fields [''schema_version'', ''pipeline_version'', ''claim_schema_version'', ''max_claims'',
           ''max_evidence_per_claim'', ''max_pointer_segments'', ''max_pointer_utf8_bytes'',
           ''duplicate_window_events'', ''cooldown_events'', ''ttl_steps'',
           ''allowed_delivery_targets'', ''rendering''] [] v \<and>
         obj_opt ''schema_version'' v = JStr ''1.0'' \<and>
         obj_opt ''pipeline_version'' v = JStr ''grounding-pipeline/v1'' \<and>
         obj_opt ''claim_schema_version'' v = JStr ''citation-only-claims/v1'' \<and>
         obj_opt ''max_evidence_per_claim'' v = JInt 1 \<and> obj_opt ''ttl_steps'' v = JInt 1
      then case (as_int (obj_opt ''max_claims'' v), as_int (obj_opt ''max_pointer_segments'' v),
                 as_int (obj_opt ''max_pointer_utf8_bytes'' v), as_int (obj_opt ''duplicate_window_events'' v)) of
             (Some a, Some b, Some c, Some d) \<Rightarrow>
               (case (as_int (obj_opt ''cooldown_events'' v),
                      as_list (as_enum target_value delivery_targets) (obj_opt ''allowed_delivery_targets'' v),
                      rendering_of_json (obj_opt ''rendering'' v)) of
                  (Some e, Some ts, Some r) \<Rightarrow>
                    (let g = \<lparr>gc_max_claims = a, gc_max_pointer_segments = b, gc_max_pointer_utf8_bytes = c,
                              gc_duplicate_window_events = d, gc_cooldown_events = e,
                              gc_allowed_delivery_targets = canonical_targets ts, gc_rendering = r\<rparr>
                     in if distinct ts \<and> valid_grounding_config g then Some g else None)
                | _ \<Rightarrow> None)
           | _ \<Rightarrow> None
      else None)"

definition grounding_pipeline_version :: string where
  "grounding_pipeline_version = ''grounding-pipeline/v1''"

definition configuration_digest :: "hash_fun \<Rightarrow> float_text \<Rightarrow> string \<Rightarrow> json \<Rightarrow> digest option" where
  "configuration_digest H F pipeline_version configuration =
     map_option (\<lambda>t. length_prefixed_sha256 H ''saliencegate:grounding:configuration:v1''
         [pipeline_version, t]) (canonical_json F configuration)"

record resolved_configuration =
  rs_pipeline_version :: string
  rs_configuration :: json
  rs_configuration_digest :: digest

definition valid_resolved_configuration :: "hash_fun \<Rightarrow> float_text \<Rightarrow> resolved_configuration \<Rightarrow> bool" where
  "valid_resolved_configuration H F r \<longleftrightarrow> component_identifier (rs_pipeline_version r) \<and>
     is_object (rs_configuration r) \<and> json_finite (rs_configuration r) \<and>
     sha256_digest (rs_configuration_digest r) \<and>
     configuration_digest H F (rs_pipeline_version r) (rs_configuration r) = Some (rs_configuration_digest r)"

datatype (plugins only: code size) grounding_error =
    Grounding_configuration | Grounding_input | Grounding_verification | Grounding_model_rejected

definition resolve_grounding_configuration ::
    "hash_fun \<Rightarrow> float_text \<Rightarrow> grounding_config \<Rightarrow> grounding_error + resolved_configuration" where
  "resolve_grounding_configuration H F cfg =
     (if \<not> valid_grounding_config cfg then Inl Grounding_configuration
      else case configuration_digest H F grounding_pipeline_version (config_json cfg) of
             None \<Rightarrow> Inl Grounding_configuration
           | Some d \<Rightarrow>
               (let r = \<lparr>rs_pipeline_version = grounding_pipeline_version,
                         rs_configuration = config_json cfg, rs_configuration_digest = d\<rparr>
                in if valid_resolved_configuration H F r then Inr r else Inl Grounding_configuration))"

section \<open>Context and state\<close>

datatype (plugins only: code size) context_schema = Context_1_0 | Context_2_0

record grounding_context =
  gx_schema_version :: context_schema
  gx_intervention_id :: uuid
  gx_run_id :: uuid
  gx_cycle_id :: digest
  gx_current_event_sequence :: int
  gx_created_at :: timestamp
  gx_requested_delivery_target :: "delivery_target option"
  gx_model_call_index :: "int option"
  gx_model_call_digest :: "digest option"
  gx_selector_provenance :: "selector_provenance option"

definition valid_grounding_context :: "hash_fun \<Rightarrow> float_text \<Rightarrow> grounding_context \<Rightarrow> bool" where
  "valid_grounding_context H F x \<longleftrightarrow> uuid4 (gx_intervention_id x) \<and> uuid4 (gx_run_id x) \<and>
     sha256_digest (gx_cycle_id x) \<and> 1 \<le> gx_current_event_sequence x \<and>
     gx_current_event_sequence x \<le> max_signed_64 \<and>
     opt_all (\<lambda>i. 0 \<le> i \<and> i \<le> max_signed_64) (gx_model_call_index x) \<and>
     opt_all sha256_digest (gx_model_call_digest x) \<and>
     opt_all (valid_selector_provenance H F) (gx_selector_provenance x) \<and>
     provenance_ok (gx_schema_version x = Context_1_0) (gx_model_call_index x)
       (gx_model_call_digest x) (gx_selector_provenance x)"

record reminder_history =
  rh_intervention_id :: uuid
  rh_run_id :: uuid
  rh_event_sequence :: int
  rh_claim_digests :: "digest list"

definition valid_reminder_history :: "reminder_history \<Rightarrow> bool" where
  "valid_reminder_history h \<longleftrightarrow> uuid4 (rh_intervention_id h) \<and> uuid4 (rh_run_id h) \<and>
     1 \<le> rh_event_sequence h \<and> rh_event_sequence h \<le> max_signed_64 \<and>
     1 \<le> length (rh_claim_digests h) \<and> length (rh_claim_digests h) \<le> 2 \<and>
     list_all sha256_digest (rh_claim_digests h) \<and> distinct (rh_claim_digests h)"

record grounding_state =
  gs_events :: "trace_event list"
  gs_memories :: "memory_record list"
  gs_reminder_history :: "reminder_history list"

definition valid_grounding_state :: "grounding_state \<Rightarrow> bool" where
  "valid_grounding_state s \<longleftrightarrow>
     length (gs_events s) \<le> max_state_records \<and> list_all valid_trace_event (gs_events s) \<and>
     length (gs_memories s) \<le> max_state_records \<and> list_all valid_memory_record (gs_memories s) \<and>
     length (gs_reminder_history s) \<le> max_reminder_history \<and>
     list_all valid_reminder_history (gs_reminder_history s) \<and>
     distinct (map ev_event_id (gs_events s)) \<and>
     distinct (map (\<lambda>e. (ev_run_id e, ev_sequence e)) (gs_events s)) \<and>
     distinct (map mr_memory_id (gs_memories s)) \<and>
     distinct (map rh_intervention_id (gs_reminder_history s))"

text \<open>\<open>_validated_grounding_inputs\<close>: \<open>None\<close> is a rejection.\<close>

definition grounding_inputs_ok ::
    "hash_fun \<Rightarrow> float_text \<Rightarrow> grounding_context \<Rightarrow> grounding_state \<Rightarrow> bool" where
  "grounding_inputs_ok H F ctx st \<longleftrightarrow>
     valid_grounding_context H F ctx \<and> valid_grounding_state st \<and>
     (let current = filter (\<lambda>e. ev_run_id e = gx_run_id ctx \<and>
            ev_sequence e = gx_current_event_sequence ctx) (gs_events st)
      in length current = 1 \<and> \<not> ev_timestamp (hd current) > gx_created_at ctx \<and>
         \<not> list_ex (\<lambda>h. rh_run_id h \<noteq> gx_run_id ctx \<or>
              rh_event_sequence h \<ge> gx_current_event_sequence ctx) (gs_reminder_history st))"

definition grounding_provenance_matches :: "grounding_context \<Rightarrow> grounding_receipt \<Rightarrow> bool" where
  "grounding_provenance_matches ctx r \<longleftrightarrow>
     (gx_schema_version ctx = Context_1_0) = (gr_receipt_version r = Receipt_V1) \<and>
     gr_model_call_index r = gx_model_call_index ctx \<and>
     gr_model_call_digest r = gx_model_call_digest ctx \<and>
     gr_selector_provenance r = gx_selector_provenance ctx"

section \<open>Resolving a citation\<close>

text \<open>Strict UTF-8 (no overlong forms, no surrogates), as \<open>bytes.decode\<close> checks it.\<close>

definition continuation :: "nat \<Rightarrow> bool" where
  "continuation b \<longleftrightarrow> 128 \<le> b \<and> b \<le> 191"

fun utf8_ok :: "nat list \<Rightarrow> bool" where
  "utf8_ok [] = True"
| "utf8_ok (a # r) =
     (if a < 128 then utf8_ok r
      else case r of
        [] \<Rightarrow> False
      | b # r1 \<Rightarrow>
          if 194 \<le> a \<and> a \<le> 223 then continuation b \<and> utf8_ok r1
          else case r1 of
            [] \<Rightarrow> False
          | c # r2 \<Rightarrow>
              if a = 224 then 160 \<le> b \<and> b \<le> 191 \<and> continuation c \<and> utf8_ok r2
              else if a = 237 then 128 \<le> b \<and> b \<le> 159 \<and> continuation c \<and> utf8_ok r2
              else if 225 \<le> a \<and> a \<le> 239 then continuation b \<and> continuation c \<and> utf8_ok r2
              else case r2 of
                [] \<Rightarrow> False
              | d # r3 \<Rightarrow>
                  if a = 240 then 144 \<le> b \<and> b \<le> 191 \<and> continuation c \<and> continuation d \<and> utf8_ok r3
                  else if 241 \<le> a \<and> a \<le> 243 then continuation b \<and> continuation c \<and> continuation d \<and> utf8_ok r3
                  else if a = 244 then 128 \<le> b \<and> b \<le> 143 \<and> continuation c \<and> continuation d \<and> utf8_ok r3
                  else False)"

fun replace_pair :: "char \<Rightarrow> char \<Rightarrow> char \<Rightarrow> string \<Rightarrow> string" where
  "replace_pair a b r (x # y # zs) =
     (if x = a \<and> y = b then r # replace_pair a b r zs else x # replace_pair a b r (y # zs))"
| "replace_pair a b r s = s"

definition decode_pointer :: "grounding_config \<Rightarrow> string \<Rightarrow> string list option" where
  "decode_pointer cfg p =
     (if int (length p) > gc_max_pointer_utf8_bytes cfg then None
      else let raw = tl (split_on (CHR ''/'') p)
           in if raw = [] \<or> int (length raw) > gc_max_pointer_segments cfg then None
              else Some (map (\<lambda>s. replace_pair (CHR ''~'') (CHR ''0'') (CHR ''~'')
                     (replace_pair (CHR ''~'') (CHR ''1'') (CHR ''/'') s)) raw))"

definition pointer_index :: "string \<Rightarrow> bool" where
  "pointer_index s \<longleftrightarrow> s = ''0'' \<or>
     (s \<noteq> [] \<and> hd s \<in> set ''123456789'' \<and> list_all (\<lambda>c. c \<in> set ''0123456789'') s)"

fun walk_pointer :: "string list \<Rightarrow> json \<Rightarrow> json option" where
  "walk_pointer [] v = Some v"
| "walk_pointer (seg # segs) v =
     (case v of
        JObj kvs \<Rightarrow> (case map_of kvs seg of None \<Rightarrow> None | Some w \<Rightarrow> walk_pointer segs w)
      | JArr xs \<Rightarrow>
          (if \<not> pointer_index seg then None
           else if undec seg \<ge> length xs then None else walk_pointer segs (xs ! undec seg))
      | _ \<Rightarrow> None)"

definition resolve_pointer :: "grounding_config \<Rightarrow> json \<Rightarrow> string \<Rightarrow> string option" where
  "resolve_pointer cfg document p =
     (case decode_pointer cfg p of
        None \<Rightarrow> None
      | Some segments \<Rightarrow> (case walk_pointer segments document of Some (JStr s) \<Rightarrow> Some s | _ \<Rightarrow> None))"

definition max_source_code_points :: nat where
  "max_source_code_points = 1000000"

definition select_span :: "string \<Rightarrow> evidence_reference \<Rightarrow> string option" where
  "select_span text reference =
     (if text = [] \<or> code_points text > max_source_code_points then None
      else case er_span reference of
             None \<Rightarrow> Some text
           | Some sp \<Rightarrow>
               (if span_end_byte sp > int (length text) then None
                else let selected = take (nat (span_end_byte sp) - nat (span_start_byte sp))
                           (drop (nat (span_start_byte sp)) text)
                     in if utf8_ok (map of_char selected) \<and> selected \<noteq> [] then Some selected else None))"

fun claim_memory_kind :: "claim_kind \<Rightarrow> memory_kind" where
  "claim_memory_kind Claim_REQUIREMENT = Kind_KNOWLEDGE"
| "claim_memory_kind Claim_ENVIRONMENT_FACT = Kind_KNOWLEDGE"
| "claim_memory_kind Claim_FAILED_ATTEMPT = Kind_PROCEDURAL"
| "claim_memory_kind Claim_DIAGNOSIS = Kind_PROCEDURAL"
| "claim_memory_kind Claim_OPEN_SUBGOAL = Kind_PRIVATE_STATUS"

record resolved_claim =
  rv_claim :: intervention_claim
  rv_text :: string
  rv_origin :: trust_label
  rv_digest :: digest

text \<open>The two branches that select the cited text, and the citation failures they return.\<close>

definition resolve_memory :: "grounding_context \<Rightarrow> grounding_state \<Rightarrow> proposed_claim \<Rightarrow>
    reason_code + (string option \<times> trust_label)" where
  "resolve_memory ctx st p =
     (let reference = pc_evidence p in
      case find (\<lambda>m. mr_memory_id m = er_source_id reference) (gs_memories st) of
        None \<Rightarrow> Inl Reason_CITATION_MISSING
      | Some m \<Rightarrow>
          checks
            [(mr_run_id m \<noteq> gx_run_id ctx, Reason_CITATION_CROSS_RUN),
             (mr_validity m = Validity_EXPIRED \<or>
                (case mr_expires_at m of None \<Rightarrow> False | Some t \<Rightarrow> t \<le> gx_created_at ctx),
              Reason_CITATION_EXPIRED),
             (mr_validity m \<in> {Validity_INVALIDATED, Validity_SUPERSEDED}, Reason_CITATION_INVALIDATED),
             (mr_validity m \<noteq> Validity_ACTIVE \<or> er_revision reference \<noteq> Some (mr_revision m) \<or>
                er_field_path reference \<noteq> ''/content'' \<or> mr_updated_at m > gx_created_at ctx \<or>
                mr_kind m \<noteq> claim_memory_kind (pc_kind p),
              Reason_INVALID_PROVENANCE)]
            (Inr (select_span (mr_content m) reference, mr_trust_label m)))"

definition resolve_event :: "grounding_config \<Rightarrow> grounding_context \<Rightarrow> grounding_state \<Rightarrow>
    proposed_claim \<Rightarrow> reason_code + (string option \<times> trust_label)" where
  "resolve_event cfg ctx st p =
     (let reference = pc_evidence p in
      case find (\<lambda>e. ev_event_id e = er_source_id reference) (gs_events st) of
        None \<Rightarrow> Inl Reason_CITATION_MISSING
      | Some e \<Rightarrow>
          checks
            [(ev_run_id e \<noteq> gx_run_id ctx, Reason_CITATION_CROSS_RUN),
             (ev_sequence e > gx_current_event_sequence ctx \<or> ev_timestamp e > gx_created_at ctx \<or>
                take 9 (er_field_path reference) \<noteq> ''/payload/'',
              Reason_INVALID_PROVENANCE)]
            (Inr (case resolve_pointer cfg (JObj [(''payload'', ev_payload e)]) (er_field_path reference) of
                    None \<Rightarrow> None
                  | Some t \<Rightarrow> select_span t reference, ev_trust_label e)))"

definition resolve_evidence :: "hash_fun \<Rightarrow> float_text \<Rightarrow> grounding_config \<Rightarrow> grounding_context \<Rightarrow>
    grounding_state \<Rightarrow> proposed_claim \<Rightarrow> reason_code + resolved_claim" where
  "resolve_evidence H F cfg ctx st p =
     bind_result
       (if er_source (pc_evidence p) = Source_MEMORY then resolve_memory ctx st p
        else resolve_event cfg ctx st p)
       (\<lambda>(selected, origin).
        case selected of
          None \<Rightarrow> Inl Reason_INVALID_PROVENANCE
        | Some text \<Rightarrow>
            (if int (length text) > rn_max_evidence_bytes (gc_rendering cfg)
             then Inl Reason_CLAIM_OVER_LIMIT
             else case materialize_claim p text of
                    Inl _ \<Rightarrow> Inl Reason_INVALID_PROVENANCE
                  | Inr claim \<Rightarrow>
                      (case claim_fingerprint H F claim of
                         Inl _ \<Rightarrow> Inl Reason_INVALID_PROVENANCE
                       | Inr digest \<Rightarrow> Inr \<lparr>rv_claim = claim, rv_text = text, rv_origin = origin,
                                             rv_digest = digest\<rparr>)))"

definition citation_reason_precedence :: "reason_code list" where
  "citation_reason_precedence = [Reason_CITATION_MISSING, Reason_CITATION_CROSS_RUN,
     Reason_CITATION_EXPIRED, Reason_CITATION_INVALIDATED, Reason_INVALID_PROVENANCE,
     Reason_CLAIM_OVER_LIMIT]"

section \<open>The pipeline\<close>

record grounding_pipeline =
  pl_configuration :: grounding_config
  pl_resolved :: resolved_configuration

definition new_pipeline :: "hash_fun \<Rightarrow> float_text \<Rightarrow> grounding_config \<Rightarrow> grounding_error + grounding_pipeline" where
  "new_pipeline H F cfg =
     bind_result (resolve_grounding_configuration H F cfg) (\<lambda>r.
       Inr \<lparr>pl_configuration = cfg, pl_resolved = r\<rparr>)"

record grounding_pin =
  gp_grounding_version :: string
  gp_grounding_configuration :: json
  gp_grounding_configuration_digest :: digest
  gp_requested_delivery_target :: "delivery_target option"

definition pipeline_pin :: "grounding_pipeline \<Rightarrow> delivery_target option \<Rightarrow> grounding_pin" where
  "pipeline_pin pl target =
     \<lparr>gp_grounding_version = rs_pipeline_version (pl_resolved pl),
      gp_grounding_configuration = rs_configuration (pl_resolved pl),
      gp_grounding_configuration_digest = rs_configuration_digest (pl_resolved pl),
      gp_requested_delivery_target = target\<rparr>"

text \<open>The proposal checks that need no constructor (\<open>_preflight_proposal\<close>).\<close>

definition preflight_proposal :: "intervention_proposal \<Rightarrow> reason_code option" where
  "preflight_proposal p =
     (if ip_action p = Action_REMIND \<and> ip_claims p = [] then Some Reason_NO_GROUNDED_CLAIMS
      else if length (ip_claims p) > 2 then Some Reason_CLAIM_OVER_LIMIT
      else if (case ip_model_free_text p of None \<Rightarrow> False | Some t \<Rightarrow> code_points t > 16384)
      then Some Reason_SCHEMA_INVALID else None)"

definition validated_proposal_ok :: "intervention_proposal \<Rightarrow> bool" where
  "validated_proposal_ok p \<longleftrightarrow> preflight_proposal p = None \<and> valid_proposal p"

definition safe_proposal_confidence :: "intervention_proposal \<Rightarrow> rat" where
  "safe_proposal_confidence p =
     (case ip_confidence p of None \<Rightarrow> 1 | Some c \<Rightarrow> if 0 \<le> c \<and> c \<le> 1 then c else 1)"

definition grounding_receipt_of :: "hash_fun \<Rightarrow> float_text \<Rightarrow> grounding_context \<Rightarrow> parse_status \<Rightarrow>
    intervention_action option \<Rightarrow> proposed_claim list \<Rightarrow> rat \<Rightarrow> grounding_error + grounding_receipt" where
  "grounding_receipt_of H F ctx status action claims confidence =
     (let r = \<lparr>gr_receipt_version = (if gx_schema_version ctx = Context_1_0 then Receipt_V1 else Receipt_V2),
               gr_parse_status = status, gr_proposal_action = action, gr_claims = claims,
               gr_confidence = confidence,
               gr_requested_delivery_target = gx_requested_delivery_target ctx,
               gr_model_call_index = gx_model_call_index ctx,
               gr_model_call_digest = gx_model_call_digest ctx,
               gr_selector_provenance = gx_selector_provenance ctx\<rparr>
      in if valid_grounding_receipt H F r then Inr r else Inl Grounding_model_rejected)"

definition new_intervention :: "intervention_decision \<Rightarrow> grounding_error + intervention_decision" where
  "new_intervention d = (if valid_intervention_decision d then Inr d else Inl Grounding_model_rejected)"

definition silence :: "grounding_pipeline \<Rightarrow> grounding_context \<Rightarrow> reason_code \<Rightarrow> rat \<Rightarrow>
    grounding_receipt \<Rightarrow> grounding_error + intervention_decision" where
  "silence pl ctx reason confidence receipt =
     new_intervention
       \<lparr>iv_intervention_id = gx_intervention_id ctx, iv_run_id = gx_run_id ctx,
        iv_cycle_id = gx_cycle_id ctx, iv_grounding_version = grounding_pipeline_version,
        iv_grounding_configuration = rs_configuration (pl_resolved pl),
        iv_grounding_configuration_digest = rs_configuration_digest (pl_resolved pl),
        iv_grounding_receipt = receipt_json receipt, iv_action = Action_SILENCE,
        iv_delivery_target = None, iv_claims = [], iv_rendered_text = None,
        iv_cited_memory_ids = [], iv_cited_event_ids = [], iv_confidence = confidence,
        iv_reason_code = reason, iv_ttl_steps = 0, iv_created_at = gx_created_at ctx\<rparr>"

definition remind :: "grounding_pipeline \<Rightarrow> grounding_context \<Rightarrow> rat \<Rightarrow> grounding_receipt \<Rightarrow>
    intervention_claim list \<Rightarrow> string \<Rightarrow> grounding_error + intervention_decision" where
  "remind pl ctx confidence receipt claims rendered =
     new_intervention
       \<lparr>iv_intervention_id = gx_intervention_id ctx, iv_run_id = gx_run_id ctx,
        iv_cycle_id = gx_cycle_id ctx, iv_grounding_version = grounding_pipeline_version,
        iv_grounding_configuration = rs_configuration (pl_resolved pl),
        iv_grounding_configuration_digest = rs_configuration_digest (pl_resolved pl),
        iv_grounding_receipt = receipt_json receipt, iv_action = Action_REMIND,
        iv_delivery_target = gx_requested_delivery_target ctx, iv_claims = claims,
        iv_rendered_text = Some rendered,
        iv_cited_memory_ids = cited_ids claims Source_MEMORY,
        iv_cited_event_ids = cited_ids claims Source_EVENT, iv_confidence = confidence,
        iv_reason_code = Reason_GROUNDED_REMINDER, iv_ttl_steps = 1,
        iv_created_at = gx_created_at ctx\<rparr>"

text \<open>The duplicate and cooldown tests of a reminder, on the digests of its resolved claims.\<close>

definition duplicates_history :: "grounding_config \<Rightarrow> grounding_context \<Rightarrow> grounding_state \<Rightarrow>
    digest list \<Rightarrow> bool" where
  "duplicates_history cfg ctx st digests \<longleftrightarrow> gc_duplicate_window_events cfg > 0 \<and>
     list_ex (\<lambda>h. gx_current_event_sequence ctx - rh_event_sequence h \<le> gc_duplicate_window_events cfg \<and>
        list_ex (\<lambda>d. d \<in> set (rh_claim_digests h)) digests) (gs_reminder_history st)"

definition in_cooldown :: "grounding_config \<Rightarrow> grounding_context \<Rightarrow> grounding_state \<Rightarrow> bool" where
  "in_cooldown cfg ctx st \<longleftrightarrow> gc_cooldown_events cfg > 0 \<and>
     list_ex (\<lambda>h. gx_current_event_sequence ctx - rh_event_sequence h \<le> gc_cooldown_events cfg)
       (gs_reminder_history st)"

definition failures_of :: "(reason_code + resolved_claim) list \<Rightarrow> reason_code list" where
  "failures_of rs = concat (map (\<lambda>r. case r of Inl reason \<Rightarrow> [reason] | Inr _ \<Rightarrow> []) rs)"

definition grounded_of :: "(reason_code + resolved_claim) list \<Rightarrow> resolved_claim list" where
  "grounded_of rs = concat (map (\<lambda>r. case r of Inl _ \<Rightarrow> [] | Inr c \<Rightarrow> [c]) rs)"

definition grounded_claim_of :: "resolved_claim \<Rightarrow> grounded_claim" where
  "grounded_claim_of c = \<lparr>gd_claim = rv_claim c, gd_source_text = rv_text c,
     gd_origin_trust_label = rv_origin c\<rparr>"

text \<open>The part of \<open>ground\<close> that follows the resolution of the citations.\<close>

definition ground_resolved :: "hash_fun \<Rightarrow> float_text \<Rightarrow> grounding_pipeline \<Rightarrow> grounding_context \<Rightarrow>
    grounding_state \<Rightarrow> rat \<Rightarrow> grounding_receipt \<Rightarrow> (reason_code + resolved_claim) list \<Rightarrow>
    grounding_error + intervention_decision" where
  "ground_resolved H F pl ctx st confidence receipt resolved =
     (let cfg = pl_configuration pl; failures = failures_of resolved; grounded = grounded_of resolved;
          digests = map rv_digest grounded
      in if failures \<noteq> []
         then (case find (\<lambda>r. r \<in> set failures) citation_reason_precedence of
                 None \<Rightarrow> Inl Grounding_model_rejected
               | Some reason \<Rightarrow> silence pl ctx reason confidence receipt)
         else if \<not> distinct digests then silence pl ctx Reason_DUPLICATE_REMINDER confidence receipt
         else if duplicates_history cfg ctx st digests
         then silence pl ctx Reason_DUPLICATE_REMINDER confidence receipt
         else if in_cooldown cfg ctx st then silence pl ctx Reason_COOLDOWN_BLOCKED confidence receipt
         else if \<not> list_all valid_grounded_claim (map grounded_claim_of grounded)
         then Inl Grounding_model_rejected
         else case render (gc_rendering cfg) (map grounded_claim_of grounded) of
                Inl Render_model_rejected \<Rightarrow> Inl Grounding_model_rejected
              | Inl _ \<Rightarrow> silence pl ctx Reason_CLAIM_OVER_LIMIT confidence receipt
              | Inr rendered \<Rightarrow> remind pl ctx confidence receipt (map rv_claim grounded) rendered)"

definition ground_valid :: "hash_fun \<Rightarrow> float_text \<Rightarrow> grounding_pipeline \<Rightarrow> intervention_action \<Rightarrow>
    proposed_claim list \<Rightarrow> rat \<Rightarrow> grounding_context \<Rightarrow> grounding_state \<Rightarrow>
    grounding_error + intervention_decision" where
  "ground_valid H F pl action claims confidence ctx st =
     bind_result (grounding_receipt_of H F ctx Parse_VALID (Some action) claims confidence) (\<lambda>receipt.
       let cfg = pl_configuration pl in
       if action = Action_SILENCE then silence pl ctx Reason_SILENCE_SELECTED confidence receipt
       else if (case gx_requested_delivery_target ctx of None \<Rightarrow> True
                | Some t \<Rightarrow> t \<notin> set (gc_allowed_delivery_targets cfg))
       then silence pl ctx Reason_UNSUPPORTED_DELIVERY_TARGET confidence receipt
       else if int (length claims) > gc_max_claims cfg
       then silence pl ctx Reason_CLAIM_OVER_LIMIT confidence receipt
       else ground_resolved H F pl ctx st confidence receipt (map (resolve_evidence H F cfg ctx st) claims))"

definition ground :: "hash_fun \<Rightarrow> float_text \<Rightarrow> grounding_pipeline \<Rightarrow> intervention_proposal \<Rightarrow>
    grounding_context \<Rightarrow> grounding_state \<Rightarrow> grounding_error + intervention_decision" where
  "ground H F pl p ctx st =
     (if \<not> grounding_inputs_ok H F ctx st then Inl Grounding_input
      else if preflight_proposal p = Some Reason_NO_GROUNDED_CLAIMS
      then bind_result (grounding_receipt_of H F ctx Parse_EMPTY_REMINDER (Some Action_REMIND) []
               (safe_proposal_confidence p))
             (\<lambda>receipt. silence pl ctx Reason_NO_GROUNDED_CLAIMS (safe_proposal_confidence p) receipt)
      else if preflight_proposal p = Some Reason_CLAIM_OVER_LIMIT
      then bind_result (grounding_receipt_of H F ctx Parse_CLAIM_OVER_LIMIT (Some Action_REMIND) []
               (safe_proposal_confidence p))
             (\<lambda>receipt. silence pl ctx Reason_CLAIM_OVER_LIMIT (safe_proposal_confidence p) receipt)
      else case (validated_proposal_ok p, ip_confidence p) of
             (True, Some confidence) \<Rightarrow>
               ground_valid H F pl (ip_action p) (ip_claims p) confidence ctx st
           | _ \<Rightarrow>
               bind_result (grounding_receipt_of H F ctx Parse_SCHEMA_INVALID None [] 1)
                 (\<lambda>receipt. silence pl ctx Reason_SCHEMA_INVALID 1 receipt))"

definition parse_status_reason :: "parse_status \<Rightarrow> reason_code" where
  "parse_status_reason s =
     (case s of Parse_EMPTY_REMINDER \<Rightarrow> Reason_NO_GROUNDED_CLAIMS
      | Parse_CLAIM_OVER_LIMIT \<Rightarrow> Reason_CLAIM_OVER_LIMIT
      | _ \<Rightarrow> Reason_SCHEMA_INVALID)"

definition replay_receipt :: "hash_fun \<Rightarrow> float_text \<Rightarrow> grounding_pipeline \<Rightarrow> grounding_receipt \<Rightarrow>
    grounding_context \<Rightarrow> grounding_state \<Rightarrow> grounding_error + intervention_decision" where
  "replay_receipt H F pl r ctx st =
     (if \<not> grounding_inputs_ok H F ctx st \<or> \<not> valid_grounding_receipt H F r then Inl Grounding_input
      else if gr_requested_delivery_target r \<noteq> gx_requested_delivery_target ctx \<or>
              \<not> grounding_provenance_matches ctx r then Inl Grounding_input
      else if gr_parse_status r = Parse_VALID
      then (case gr_proposal_action r of
              None \<Rightarrow> Inl Grounding_input
            | Some a \<Rightarrow>
                (let p = \<lparr>ip_action = a, ip_claims = gr_claims r, ip_confidence = Some (gr_confidence r),
                          ip_model_free_text = None\<rparr>
                 in if valid_proposal p then ground H F pl p ctx st else Inl Grounding_input))
      else silence pl ctx (parse_status_reason (gr_parse_status r)) (gr_confidence r) r)"

section \<open>Authoritative verification\<close>

definition config_from_decision :: "hash_fun \<Rightarrow> float_text \<Rightarrow> intervention_decision \<Rightarrow>
    (grounding_config \<times> resolved_configuration) option" where
  "config_from_decision H F d =
     (case config_of_json (iv_grounding_configuration d) of
        None \<Rightarrow> None
      | Some cfg \<Rightarrow>
          (case resolve_grounding_configuration H F cfg of
             Inl _ \<Rightarrow> None
           | Inr r \<Rightarrow>
               if iv_grounding_version d = rs_pipeline_version r \<and>
                  iv_grounding_configuration_digest d = rs_configuration_digest r
               then Some (cfg, r) else None))"

definition verify_grounded_intervention :: "hash_fun \<Rightarrow> float_text \<Rightarrow> intervention_decision \<Rightarrow>
    grounding_context \<Rightarrow> grounding_state \<Rightarrow> resolved_configuration \<Rightarrow> grounding_error + unit" where
  "verify_grounded_intervention H F d ctx st expected =
     (if \<not> valid_intervention_decision d \<or> \<not> grounding_inputs_ok H F ctx st \<or>
         \<not> valid_resolved_configuration H F expected
      then Inl Grounding_verification
      else case (config_from_decision H F d, receipt_of_json H F (iv_grounding_receipt d)) of
             (Some (cfg, resolved), Some r) \<Rightarrow>
               (if resolved \<noteq> expected \<or> iv_intervention_id d \<noteq> gx_intervention_id ctx \<or>
                   iv_run_id d \<noteq> gx_run_id ctx \<or> iv_cycle_id d \<noteq> gx_cycle_id ctx \<or>
                   iv_created_at d \<noteq> gx_created_at ctx \<or>
                   gr_requested_delivery_target r \<noteq> gx_requested_delivery_target ctx \<or>
                   \<not> grounding_provenance_matches ctx r
                then Inl Grounding_verification
                else case bind_result (new_pipeline H F cfg) (\<lambda>pl. replay_receipt H F pl r ctx st) of
                       Inr d' \<Rightarrow> if d' = d then Inr () else Inl Grounding_verification
                     | Inl _ \<Rightarrow> Inl Grounding_verification)
           | _ \<Rightarrow> Inl Grounding_verification)"

section \<open>Configurations and receipts survive the ledger\<close>

lemma config_eta [codec_simps]:
  "\<lparr>rn_max_claims = rn_max_claims r, rn_max_evidence_bytes = rn_max_evidence_bytes r,
     rn_max_output_bytes = rn_max_output_bytes r, rn_max_token_equivalents = rn_max_token_equivalents r,
     rn_include_provenance = rn_include_provenance r\<rparr> = r"
  "\<lparr>gc_max_claims = gc_max_claims c, gc_max_pointer_segments = gc_max_pointer_segments c,
     gc_max_pointer_utf8_bytes = gc_max_pointer_utf8_bytes c,
     gc_duplicate_window_events = gc_duplicate_window_events c, gc_cooldown_events = gc_cooldown_events c,
     gc_allowed_delivery_targets = gc_allowed_delivery_targets c, gc_rendering = gc_rendering c\<rparr> = c"
  by simp_all

lemma rendering_round [simp]:
  "valid_rendering_config r \<Longrightarrow> rendering_of_json (rendering_json r) = Some r"
  by (simp add: rendering_of_json_def rendering_json_def obj_fields_def codec_simps Let_def)

lemma as_list_targets:
  "as_list (as_enum target_value delivery_targets) (JArr (map (\<lambda>t. JStr (target_value t)) ts)) = Some ts"
  using option_list_map [of ts Some "\<lambda>t. t"] by (simp add: o_def)

lemma config_round:
  assumes "valid_grounding_config c"
  shows "config_of_json (config_json c) = Some c"
proof -
  have "canonical_targets (gc_allowed_delivery_targets c) = gc_allowed_delivery_targets c"
    "distinct (gc_allowed_delivery_targets c)" "valid_rendering_config (gc_rendering c)"
    using assms by (simp_all add: valid_grounding_config_def)
  with assms as_list_targets [of "gc_allowed_delivery_targets c"] show ?thesis
    by (simp add: config_of_json_def config_json_def obj_fields_def codec_simps Let_def del: as_list.simps)
qed

lemma json_finite_simps [simp]:
  "json_finite JNull" "json_finite (JBool b)" "json_finite (JInt i)" "json_finite (JStr s)"
  "json_finite (JFloat (Some q))"
  "json_finite (JArr xs) \<longleftrightarrow> list_all json_finite xs"
  "json_finite (JObj kvs) \<longleftrightarrow> list_all json_finite (map snd kvs)"
  by (subst json_finite.simps; simp)+

lemma json_finite_opt [simp]: "(\<And>v. x = Some v \<Longrightarrow> json_finite (f v)) \<Longrightarrow> json_finite (opt_json f x)"
  by (cases x) (auto simp: opt_json_def)

lemma config_json_object [simp]: "is_object (config_json c)" "json_finite (config_json c)"
  by (simp_all add: config_json_def is_object_def rendering_json_def list_all_iff)

lemma evidence_json_finite [simp]: "json_finite (evidence_json e)"
  by (simp add: evidence_json_def span_json_def)

lemma receipt_json_object [simp]: "is_object (receipt_json r)" "json_finite (receipt_json r)"
  subgoal by (simp add: receipt_json_def is_object_def)
  subgoal
    by (cases "gr_model_call_digest r"; cases "gr_model_call_index r"; cases "gr_selector_provenance r")
      (simp_all add: receipt_json_def proposed_claim_json_def selector_provenance_json_def list_all_iff)
  done

lemma pipeline_version_ok [simp]: "component_identifier grounding_pipeline_version"
  by code_simp

lemma configuration_digest_ok:
  "hex_digest H \<Longrightarrow> configuration_digest H F v c = Some d \<Longrightarrow> sha256_digest d"
  by (auto simp: configuration_digest_def length_prefixed_sha256_def hex_digest_def)

definition resolved_of :: "hash_fun \<Rightarrow> float_text \<Rightarrow> grounding_config \<Rightarrow> resolved_configuration" where
  "resolved_of H F cfg = \<lparr>rs_pipeline_version = grounding_pipeline_version,
     rs_configuration = config_json cfg,
     rs_configuration_digest = length_prefixed_sha256 H ''saliencegate:grounding:configuration:v1''
       [grounding_pipeline_version, json_text F (config_json cfg)]\<rparr>"

lemma resolved_of_valid:
  assumes "hex_digest H"
  shows "valid_resolved_configuration H F (resolved_of H F cfg)"
  using assms by (simp add: valid_resolved_configuration_def resolved_of_def configuration_digest_def
      canonical_json_def length_prefixed_sha256_def hex_digest_def)

lemma resolve_Inr:
  "hex_digest H \<Longrightarrow> resolve_grounding_configuration H F cfg =
     (if valid_grounding_config cfg then Inr (resolved_of H F cfg) else Inl Grounding_configuration)"
  using resolved_of_valid [of H F cfg]
  by (simp add: resolve_grounding_configuration_def configuration_digest_def canonical_json_def
      resolved_of_def Let_def)

text \<open>A pipeline as its constructor builds it.\<close>

definition pipeline_ok :: "hash_fun \<Rightarrow> float_text \<Rightarrow> grounding_pipeline \<Rightarrow> bool" where
  "pipeline_ok H F pl \<longleftrightarrow> valid_grounding_config (pl_configuration pl) \<and>
     pl_resolved pl = resolved_of H F (pl_configuration pl)"

lemma new_pipeline_Inr:
  "hex_digest H \<Longrightarrow> new_pipeline H F cfg = Inr pl \<longleftrightarrow> pipeline_ok H F pl \<and> pl_configuration pl = cfg"
  by (auto simp: new_pipeline_def resolve_Inr pipeline_ok_def)

section \<open>What the pipeline decides\<close>

lemma receipt_of_ok:
  assumes "valid_grounding_context H F ctx" and "list_all valid_proposed_claim claims" and "length claims \<le> 2"
    and "unit_interval confidence"
    and "case status of
        Parse_VALID \<Rightarrow> action \<noteq> None \<and> (action = Some Action_REMIND \<longrightarrow> claims \<noteq> []) \<and>
          (action = Some Action_SILENCE \<longrightarrow> claims = [])
      | Parse_SCHEMA_INVALID \<Rightarrow> action = None \<and> claims = [] \<and> confidence = 1
      | _ \<Rightarrow> action = Some Action_REMIND \<and> claims = []"
  shows "\<exists>r. grounding_receipt_of H F ctx status action claims confidence = Inr r \<and>
    valid_grounding_receipt H F r \<and> gr_parse_status r = status \<and> gr_proposal_action r = action \<and>
    gr_claims r = claims \<and> gr_confidence r = confidence \<and>
    gr_requested_delivery_target r = gx_requested_delivery_target ctx \<and> grounding_provenance_matches ctx r"
  using assms
  by (cases "gx_schema_version ctx"; cases status)
    (auto simp: grounding_receipt_of_def valid_grounding_receipt_def valid_grounding_context_def
      grounding_provenance_matches_def Let_def)

lemma silence_Inr:
  assumes "pipeline_ok H F pl" and "hex_digest H" and "valid_grounding_context H F ctx"
    and "reason \<in> set silence_reason_codes" and "unit_interval confidence"
  shows "\<exists>d. silence pl ctx reason confidence r = Inr d \<and> valid_intervention_decision d \<and>
    iv_action d = Action_SILENCE \<and> iv_reason_code d = reason \<and> iv_claims d = [] \<and>
    iv_rendered_text d = None"
  using assms
  by (simp add: silence_def new_intervention_def valid_intervention_decision_def pipeline_ok_def
      resolved_of_def valid_grounding_context_def cited_ids_def length_prefixed_sha256_def hex_digest_def)

lemma materialize_claim_Inr:
  assumes "materialize_claim p t = Inr c"
  shows "valid_intervention_claim c \<and> grounded_claim_text c = Inr t \<and> ic_evidence c = [pc_evidence p] \<and>
    ic_kind c = pc_kind p \<and> ic_fields c = JObj [(field_by_kind (pc_kind p), JStr t)]"
  using assms
  by (auto simp: materialize_claim_def Let_def grounded_claim_text_def validated_claim_metadata_def
      valid_proposed_claim_def split: if_splits)

lemma resolve_evidence_Inr:
  assumes "resolve_evidence H F cfg ctx st p = Inr c"
  shows "materialize_claim p (rv_text c) = Inr (rv_claim c) \<and>
    claim_fingerprint H F (rv_claim c) = Inr (rv_digest c) \<and>
    int (length (rv_text c)) \<le> rn_max_evidence_bytes (gc_rendering cfg) \<and>
    (if er_source (pc_evidence p) = Source_MEMORY then resolve_memory ctx st p
     else resolve_event cfg ctx st p) = Inr (Some (rv_text c), rv_origin c)"
proof -
  from assms obtain selected origin where sel:
    "(if er_source (pc_evidence p) = Source_MEMORY then resolve_memory ctx st p
      else resolve_event cfg ctx st p) = Inr (selected, origin)"
    unfolding resolve_evidence_def bind_result_Inr by auto
  obtain quoted where quoted: "selected = Some quoted"
    using assms unfolding resolve_evidence_def sel by (cases selected) auto
  show ?thesis
    using assms unfolding resolve_evidence_def sel quoted
    by (auto split: if_splits sum.splits)
qed

lemma resolve_evidence_Inl:
  assumes "resolve_evidence H F cfg ctx st p = Inl reason"
  shows "reason \<in> set citation_reason_precedence"
proof (cases "if er_source (pc_evidence p) = Source_MEMORY then resolve_memory ctx st p
    else resolve_event cfg ctx st p")
  case (Inl e)
  then have "e \<in> set citation_reason_precedence"
    by (auto simp: resolve_memory_def resolve_event_def checks_eval Let_def citation_reason_precedence_def
        split: option.splits if_splits)
  moreover have "e = reason" using assms unfolding resolve_evidence_def Inl by simp
  ultimately show ?thesis by simp
next
  case (Inr so)
  obtain selected origin where "so = (selected, origin)" by (cases so)
  with assms show ?thesis
    unfolding resolve_evidence_def Inr
    by (auto simp: citation_reason_precedence_def split: option.splits if_splits sum.splits)
qed

lemma precedence_silences: "set citation_reason_precedence \<subseteq> set silence_reason_codes"
  by (simp add: citation_reason_precedence_def silence_reason_codes_def)

lemma grounded_of_no_failures:
  "failures_of rs = [] \<Longrightarrow> map Inr (grounded_of rs) = rs"
  by (induction rs) (auto simp: failures_of_def grounded_of_def split: sum.splits)

lemma resolved_claims:
  assumes "failures_of (map (resolve_evidence H F cfg ctx st) claims) = []"
  shows "list_all2 (\<lambda>p c. resolve_evidence H F cfg ctx st p = Inr c) claims
    (grounded_of (map (resolve_evidence H F cfg ctx st) claims))"
  using grounded_of_no_failures [OF assms] by (simp add: list_all2_conv_all_nth) (metis length_map nth_map)

lemma remind_Inr:
  assumes "pipeline_ok H F pl" and "hex_digest H" and "valid_grounding_context H F ctx"
    and "unit_interval confidence" and "gx_requested_delivery_target ctx \<noteq> None"
    and "list_all valid_intervention_claim claims" and "claims \<noteq> []" and "length claims \<le> 2"
    and "rendered \<noteq> []"
  shows "\<exists>d. remind pl ctx confidence r claims rendered = Inr d \<and> valid_intervention_decision d \<and>
    iv_action d = Action_REMIND \<and> iv_claims d = claims \<and> iv_rendered_text d = Some rendered \<and>
    iv_delivery_target d = gx_requested_delivery_target ctx"
proof -
  have ids: "list_all uuid4 (cited_ids claims src)" for src
  proof -
    have add: "list_all uuid4 (add_cited src es us)" if "list_all uuid4 us" "list_all valid_evidence_reference es" for es us
      using that by (induction src es us rule: add_cited.induct) (auto simp: valid_evidence_reference_def)
    have "list_all uuid4 (fold (\<lambda>claim ordered. add_cited src (ic_evidence claim) ordered) cs us)"
      if "list_all uuid4 us" "list_all valid_intervention_claim cs" for cs us
      using that by (induction cs arbitrary: us) (auto intro!: add simp: valid_intervention_claim_def)
    then show ?thesis using assms(6) by (simp add: cited_ids_def)
  qed
  with assms show ?thesis
    by (simp add: remind_def new_intervention_def valid_intervention_decision_def pipeline_ok_def
        resolved_of_def valid_grounding_context_def length_prefixed_sha256_def hex_digest_def)
qed

lemma render_nonempty: "render cfg claims = Inr t \<Longrightarrow> t \<noteq> []"
proof -
  assume "render cfg claims = Inr t"
  then obtain ls where "reminder_lines cfg claims = Inr ls" and "t = join [newline] ls" by (rule render_Inr)
  moreover from this(1) obtain ks where "ls = header_lines @ ks"
    by (auto simp: reminder_lines_def bind_result_Inr)
  ultimately show "t \<noteq> []" using header_long [of ks] by auto
qed

text \<open>What a decision of the pipeline may be: a silence with a listed reason, or a reminder.\<close>

definition grounded_outcome :: "hash_fun \<Rightarrow> float_text \<Rightarrow> grounding_pipeline \<Rightarrow> grounding_context \<Rightarrow>
    grounding_state \<Rightarrow> proposed_claim list \<Rightarrow> intervention_decision \<Rightarrow> bool" where
  "grounded_outcome H F pl ctx st claims d \<longleftrightarrow> valid_intervention_decision d \<and>
     (iv_action d = Action_REMIND \<longrightarrow>
        (\<exists>cs rendered.
           list_all2 (\<lambda>p c. resolve_evidence H F (pl_configuration pl) ctx st p = Inr c) claims cs \<and>
           iv_claims d = map rv_claim cs \<and> claims \<noteq> [] \<and> distinct (map rv_digest cs) \<and>
           iv_rendered_text d = Some rendered \<and>
           render (gc_rendering (pl_configuration pl)) (map grounded_claim_of cs) = Inr rendered \<and>
           (\<exists>t\<in>set (gc_allowed_delivery_targets (pl_configuration pl)).
              gx_requested_delivery_target ctx = Some t \<and> iv_delivery_target d = Some t) \<and>
           \<not> duplicates_history (pl_configuration pl) ctx st (map rv_digest cs) \<and>
           \<not> in_cooldown (pl_configuration pl) ctx st))"

lemma ground_resolved_outcome:
  assumes "pipeline_ok H F pl" and "hex_digest H" and "valid_grounding_context H F ctx"
    and "unit_interval confidence" and "claims \<noteq> []" and "length claims \<le> 2"
    and "gx_requested_delivery_target ctx = Some t" and "t \<in> set (gc_allowed_delivery_targets (pl_configuration pl))"
    and rs: "rs = map (resolve_evidence H F (pl_configuration pl) ctx st) claims"
  shows "\<exists>d. ground_resolved H F pl ctx st confidence r rs = Inr d \<and> grounded_outcome H F pl ctx st claims d"
proof -
  have sil: "\<exists>d. silence pl ctx reason confidence r = Inr d \<and> grounded_outcome H F pl ctx st claims d"
    if "reason \<in> set silence_reason_codes" for reason
    using silence_Inr [OF assms(1-3) that assms(4)] by (force simp: grounded_outcome_def)
  show ?thesis
  proof (cases "failures_of rs = []")
    case False
    have "set (failures_of rs) \<subseteq> set citation_reason_precedence"
      using resolve_evidence_Inl unfolding rs failures_of_def by (auto split: sum.splits)
    then have "find (\<lambda>x. x \<in> set (failures_of rs)) citation_reason_precedence \<noteq> None"
      using False by (auto simp: find_None_iff) (metis list.set_intros(1) neq_Nil_conv subsetD)
    then obtain reason where f: "find (\<lambda>x. x \<in> set (failures_of rs)) citation_reason_precedence = Some reason"
      by auto
    then have "reason \<in> set silence_reason_codes"
      using precedence_silences by (auto simp: find_Some_iff dest: nth_mem)
    with sil f False show ?thesis by (simp add: ground_resolved_def Let_def)
  next
    case True
    let ?cs = "grounded_of rs"
    have all2: "list_all2 (\<lambda>p c. resolve_evidence H F (pl_configuration pl) ctx st p = Inr c) claims ?cs"
      using resolved_claims True unfolding rs by blast
    have valid: "valid_intervention_claim (rv_claim c) \<and> valid_grounded_claim (grounded_claim_of c)"
      if "c \<in> set ?cs" for c
    proof -
      from that all2 obtain p where "resolve_evidence H F (pl_configuration pl) ctx st p = Inr c"
        by (auto simp: list_all2_conv_all_nth in_set_conv_nth)
      then show ?thesis using resolve_evidence_Inr materialize_claim_Inr
        by (force simp: valid_grounded_claim_def grounded_claim_of_def)
    qed
    have len: "?cs \<noteq> []" "length ?cs \<le> 2"
      using list_all2_lengthD [OF all2] assms(5,6) by auto
    show ?thesis
    proof (cases "distinct (map rv_digest ?cs) \<and> \<not> duplicates_history (pl_configuration pl) ctx st (map rv_digest ?cs) \<and>
        \<not> in_cooldown (pl_configuration pl) ctx st")
      case False
      then show ?thesis
        using sil [of Reason_DUPLICATE_REMINDER] sil [of Reason_COOLDOWN_BLOCKED] True
        by (auto simp: ground_resolved_def Let_def silence_reason_codes_def)
    next
      case ok: True
      have lv: "list_all valid_grounded_claim (map grounded_claim_of ?cs)"
        using valid by (auto simp: list_all_iff)
      show ?thesis
      proof (cases "render (gc_rendering (pl_configuration pl)) (map grounded_claim_of ?cs)")
        case (Inl e)
        then have "e \<noteq> Render_model_rejected" using render_not_rejected by metis
        with Inl sil [of Reason_CLAIM_OVER_LIMIT] True ok lv show ?thesis
          by (cases e) (auto simp: ground_resolved_def Let_def silence_reason_codes_def)
      next
        case (Inr rendered)
        have "\<exists>d. remind pl ctx confidence r (map rv_claim ?cs) rendered = Inr d \<and> valid_intervention_decision d \<and>
            iv_action d = Action_REMIND \<and> iv_claims d = map rv_claim ?cs \<and> iv_rendered_text d = Some rendered \<and>
            iv_delivery_target d = gx_requested_delivery_target ctx"
          using remind_Inr [OF assms(1-4), of "map rv_claim ?cs" rendered r] assms(7) valid len
            render_nonempty [OF Inr] by (auto simp: list_all_iff)
        then obtain d where "remind pl ctx confidence r (map rv_claim ?cs) rendered = Inr d"
          "grounded_outcome H F pl ctx st claims d"
          using all2 ok Inr assms(5,7,8) by (auto simp: grounded_outcome_def)
        with True ok lv Inr show ?thesis by (simp add: ground_resolved_def Let_def)
      qed
    qed
  qed
qed

lemma ground_valid_outcome:
  assumes "pipeline_ok H F pl" and "hex_digest H" and "valid_grounding_context H F ctx"
    and "list_all valid_proposed_claim claims" and "length claims \<le> 2" and "unit_interval confidence"
    and "action = Action_REMIND \<longleftrightarrow> claims \<noteq> []"
  shows "\<exists>d. ground_valid H F pl action claims confidence ctx st = Inr d \<and>
    grounded_outcome H F pl ctx st claims d"
proof -
  have "\<exists>r. grounding_receipt_of H F ctx Parse_VALID (Some action) claims confidence = Inr r \<and>
      valid_grounding_receipt H F r"
    using receipt_of_ok [OF assms(3-6), where status = Parse_VALID and action = "Some action"] assms(7) by (cases action) auto
  then obtain r where r: "grounding_receipt_of H F ctx Parse_VALID (Some action) claims confidence = Inr r" by auto
  have sil: "\<exists>d. silence pl ctx reason confidence r = Inr d \<and> grounded_outcome H F pl ctx st claims d"
    if "reason \<in> set silence_reason_codes" for reason
    using silence_Inr [OF assms(1-3) that assms(6)] by (force simp: grounded_outcome_def)
  have codes: "Reason_SILENCE_SELECTED \<in> set silence_reason_codes"
    "Reason_UNSUPPORTED_DELIVERY_TARGET \<in> set silence_reason_codes"
    "Reason_CLAIM_OVER_LIMIT \<in> set silence_reason_codes"
    by (simp_all add: silence_reason_codes_def)
  show ?thesis
  proof (cases "action = Action_SILENCE")
    case True
    with r sil [OF codes(1)] show ?thesis by (simp add: ground_valid_def Let_def)
  next
    case False
    then have claims: "claims \<noteq> []" using assms(7) by (cases action) auto
    show ?thesis
    proof (cases "gx_requested_delivery_target ctx")
      case None
      with r False sil [OF codes(2)] show ?thesis by (simp add: ground_valid_def Let_def)
    next
      case (Some t)
      show ?thesis
      proof (cases "t \<in> set (gc_allowed_delivery_targets (pl_configuration pl)) \<and>
          \<not> int (length claims) > gc_max_claims (pl_configuration pl)")
        case True
        with ground_resolved_outcome [OF assms(1-3,6) claims assms(5) Some _ refl] r False Some
        show ?thesis by (simp add: ground_valid_def Let_def)
      next
        case False': False
        with r False Some sil [OF codes(2)] sil [OF codes(3)] show ?thesis
          by (auto simp: ground_valid_def Let_def)
      qed
    qed
  qed
qed

lemma valid_proposal_action:
  "valid_proposal p \<Longrightarrow> ip_action p = Action_REMIND \<longleftrightarrow> ip_claims p \<noteq> []"
  by (cases "ip_action p") (auto simp: valid_proposal_def)

lemma ground_outcome:
  assumes "pipeline_ok H F pl" and "hex_digest H" and "grounding_inputs_ok H F ctx st"
  shows "\<exists>d. ground H F pl p ctx st = Inr d \<and> grounded_outcome H F pl ctx st (ip_claims p) d"
proof -
  have ctx: "valid_grounding_context H F ctx" using assms(3) by (simp add: grounding_inputs_ok_def)
  have conf: "unit_interval (safe_proposal_confidence p)"
    by (simp add: safe_proposal_confidence_def unit_interval_def split: option.splits)
  have sil: "\<exists>d. bind_result (grounding_receipt_of H F ctx status action [] confidence)
      (\<lambda>receipt. silence pl ctx reason confidence receipt) = Inr d \<and>
      grounded_outcome H F pl ctx st (ip_claims p) d"
    if "reason \<in> set silence_reason_codes" "unit_interval confidence"
      "case status of Parse_VALID \<Rightarrow> action \<noteq> None \<and> (action = Some Action_REMIND \<longrightarrow> [] \<noteq> ([] :: proposed_claim list)) \<and>
          (action = Some Action_SILENCE \<longrightarrow> [] = ([] :: proposed_claim list))
        | Parse_SCHEMA_INVALID \<Rightarrow> action = None \<and> [] = ([] :: proposed_claim list) \<and> confidence = 1
        | _ \<Rightarrow> action = Some Action_REMIND \<and> [] = ([] :: proposed_claim list)"
    for reason status action confidence
    using receipt_of_ok [OF ctx _ _ that(2,3)] silence_Inr [OF assms(1,2) ctx that(1,2)]
    by (force simp: grounded_outcome_def)
  have codes: "Reason_NO_GROUNDED_CLAIMS \<in> set silence_reason_codes"
    "Reason_CLAIM_OVER_LIMIT \<in> set silence_reason_codes" "Reason_SCHEMA_INVALID \<in> set silence_reason_codes"
    by (simp_all add: silence_reason_codes_def)
  have pre: "preflight_proposal p \<in> {None, Some Reason_NO_GROUNDED_CLAIMS, Some Reason_CLAIM_OVER_LIMIT,
      Some Reason_SCHEMA_INVALID}"
    by (simp add: preflight_proposal_def)
  consider "preflight_proposal p = Some Reason_NO_GROUNDED_CLAIMS"
    | "preflight_proposal p = Some Reason_CLAIM_OVER_LIMIT"
    | "\<not> validated_proposal_ok p" "preflight_proposal p \<in> {None, Some Reason_SCHEMA_INVALID}"
    | "validated_proposal_ok p" "preflight_proposal p = None"
    using pre by (cases "validated_proposal_ok p") (auto simp: validated_proposal_ok_def)
  then show ?thesis
  proof cases
    case 1
    with sil [OF codes(1) conf, where status = Parse_EMPTY_REMINDER and action = "Some Action_REMIND"] assms(3) show ?thesis
      by (simp add: ground_def)
  next
    case 2
    with sil [OF codes(2) conf, where status = Parse_CLAIM_OVER_LIMIT and action = "Some Action_REMIND"] assms(3) show ?thesis
      by (simp add: ground_def)
  next
    case 3
    then have "ground H F pl p ctx st = bind_result (grounding_receipt_of H F ctx Parse_SCHEMA_INVALID None [] 1)
        (\<lambda>receipt. silence pl ctx Reason_SCHEMA_INVALID 1 receipt)"
      using assms(3) by (elim insertE) (simp_all add: ground_def)
    moreover have "unit_interval 1" by (simp add: unit_interval_def)
    ultimately show ?thesis
      using sil [OF codes(3), where confidence = 1 and status = Parse_SCHEMA_INVALID and action = None] by simp
  next
    case 4
    then obtain c where c: "ip_confidence p = Some c" and "unit_interval c"
      by (auto simp: validated_proposal_ok_def valid_proposal_def split: option.splits)
    have vp: "valid_proposal p" using 4 by (simp add: validated_proposal_ok_def)
    have p: "list_all valid_proposed_claim (ip_claims p)" "length (ip_claims p) \<le> 2"
      using vp unfolding valid_proposal_def by blast+
    have "ground H F pl p ctx st = ground_valid H F pl (ip_action p) (ip_claims p) c ctx st"
      using 4 c assms(3) by (simp add: ground_def)
    with ground_valid_outcome [OF assms(1,2) ctx p \<open>unit_interval c\<close> valid_proposal_action [OF vp]] show ?thesis by simp
  qed
qed

text \<open>
  Grounding is total and never fails on what a model proposed: with a pipeline built from a
  valid configuration, every proposal (malformed ones included) over accepted inputs yields a
  decision that satisfies the record's own validators; the only other outcome is the input error,
  raised exactly when the context or the state is rejected.
\<close>

theorem grounding_is_total:
  assumes "hex_digest H" and "new_pipeline H F cfg = Inr pl"
  shows "if grounding_inputs_ok H F ctx st
    then \<exists>d. ground H F pl p ctx st = Inr d \<and> valid_intervention_decision d
    else ground H F pl p ctx st = Inl Grounding_input"
proof -
  have "pipeline_ok H F pl" using assms new_pipeline_Inr by blast
  then show ?thesis
    using ground_outcome [of H F pl ctx st p] assms(1) by (auto simp: grounded_outcome_def ground_def)
qed

text \<open>Evidence that a claim of a reminder rests on, in the state the pipeline was given.\<close>

definition backed_by_event :: "grounding_config \<Rightarrow> grounding_context \<Rightarrow> grounding_state \<Rightarrow>
    evidence_reference \<Rightarrow> string \<Rightarrow> bool" where
  "backed_by_event cfg ctx st e quoted \<longleftrightarrow>
     (\<exists>ev\<in>set (gs_events st). \<exists>source. ev_event_id ev = er_source_id e \<and> ev_run_id ev = gx_run_id ctx \<and>
        ev_sequence ev \<le> gx_current_event_sequence ctx \<and> ev_timestamp ev \<le> gx_created_at ctx \<and>
        resolve_pointer cfg (JObj [(''payload'', ev_payload ev)]) (er_field_path e) = Some source \<and>
        select_span source e = Some quoted)"

definition backed_by_memory :: "grounding_context \<Rightarrow> grounding_state \<Rightarrow> claim_kind \<Rightarrow>
    evidence_reference \<Rightarrow> string \<Rightarrow> bool" where
  "backed_by_memory ctx st kind e quoted \<longleftrightarrow>
     (\<exists>m\<in>set (gs_memories st). mr_memory_id m = er_source_id e \<and> mr_run_id m = gx_run_id ctx \<and>
        mr_validity m = Validity_ACTIVE \<and> er_revision e = Some (mr_revision m) \<and>
        (\<forall>t. mr_expires_at m = Some t \<longrightarrow> gx_created_at ctx < t) \<and>
        mr_updated_at m \<le> gx_created_at ctx \<and> mr_kind m = claim_memory_kind kind \<and>
        select_span (mr_content m) e = Some quoted)"

definition claim_backed :: "grounding_config \<Rightarrow> grounding_context \<Rightarrow> grounding_state \<Rightarrow>
    intervention_claim \<Rightarrow> bool" where
  "claim_backed cfg ctx st c \<longleftrightarrow>
     (\<exists>e quoted. ic_evidence c = [e] \<and> ic_fields c = JObj [(field_by_kind (ic_kind c), JStr quoted)] \<and>
        int (length quoted) \<le> rn_max_evidence_bytes (gc_rendering cfg) \<and>
        (if er_source e = Source_MEMORY then backed_by_memory ctx st (ic_kind c) e quoted
         else backed_by_event cfg ctx st e quoted))"

lemma resolved_claim_backed:
  assumes "resolve_evidence H F cfg ctx st p = Inr c"
  shows "claim_backed cfg ctx st (rv_claim c)"
proof -
  note r = resolve_evidence_Inr [OF assms]
  have m: "ic_evidence (rv_claim c) = [pc_evidence p]" "ic_kind (rv_claim c) = pc_kind p"
    "ic_fields (rv_claim c) = JObj [(field_by_kind (pc_kind p), JStr (rv_text c))]"
    using materialize_claim_Inr r by auto
  have "if er_source (pc_evidence p) = Source_MEMORY
    then backed_by_memory ctx st (pc_kind p) (pc_evidence p) (rv_text c)
    else backed_by_event cfg ctx st (pc_evidence p) (rv_text c)"
  proof (cases "er_source (pc_evidence p) = Source_MEMORY")
    case True
    then have "resolve_memory ctx st p = Inr (Some (rv_text c), rv_origin c)" using r by simp
    then obtain m where "find (\<lambda>m. mr_memory_id m = er_source_id (pc_evidence p)) (gs_memories st) = Some m"
      and "mr_run_id m = gx_run_id ctx" "mr_validity m = Validity_ACTIVE"
        "er_revision (pc_evidence p) = Some (mr_revision m)" "\<not> mr_updated_at m > gx_created_at ctx"
        "mr_kind m = claim_memory_kind (pc_kind p)" "select_span (mr_content m) (pc_evidence p) = Some (rv_text c)"
        "\<forall>t. mr_expires_at m = Some t \<longrightarrow> gx_created_at ctx < t"
      by (auto simp: resolve_memory_def Let_def checks_Inr split: option.splits)
    with True show ?thesis by (auto simp: backed_by_memory_def find_Some_iff intro!: bexI [of _ m])
  next
    case False
    then have "resolve_event cfg ctx st p = Inr (Some (rv_text c), rv_origin c)" using r by simp
    then obtain ev source where "find (\<lambda>e. ev_event_id e = er_source_id (pc_evidence p)) (gs_events st) = Some ev"
      and "ev_run_id ev = gx_run_id ctx" "\<not> ev_sequence ev > gx_current_event_sequence ctx"
        "\<not> ev_timestamp ev > gx_created_at ctx"
        "resolve_pointer cfg (JObj [(''payload'', ev_payload ev)]) (er_field_path (pc_evidence p)) = Some source"
        "select_span source (pc_evidence p) = Some (rv_text c)"
      by (auto simp: resolve_event_def Let_def checks_Inr split: option.splits)
    with False show ?thesis by (auto simp: backed_by_event_def find_Some_iff intro!: bexI [of _ ev])
  qed
  with r m show ?thesis by (auto simp: claim_backed_def)
qed

text \<open>What every decision of a pipeline carries: its pin, its context and its receipt.\<close>

definition decision_of :: "grounding_pipeline \<Rightarrow> grounding_context \<Rightarrow> grounding_receipt \<Rightarrow>
    intervention_decision \<Rightarrow> bool" where
  "decision_of pl ctx r d \<longleftrightarrow> iv_intervention_id d = gx_intervention_id ctx \<and> iv_run_id d = gx_run_id ctx \<and>
     iv_cycle_id d = gx_cycle_id ctx \<and> iv_created_at d = gx_created_at ctx \<and>
     iv_grounding_version d = grounding_pipeline_version \<and>
     iv_grounding_configuration d = rs_configuration (pl_resolved pl) \<and>
     iv_grounding_configuration_digest d = rs_configuration_digest (pl_resolved pl) \<and>
     iv_grounding_receipt d = receipt_json r"

lemma silence_decision: "silence pl ctx reason c r = Inr d \<Longrightarrow> decision_of pl ctx r d"
  by (auto simp: silence_def new_intervention_def decision_of_def split: if_splits)

lemma remind_decision: "remind pl ctx c r cs t = Inr d \<Longrightarrow> decision_of pl ctx r d"
  by (auto simp: remind_def new_intervention_def decision_of_def split: if_splits)

lemma ground_valid_decision:
  assumes "ground_valid H F pl a cs c ctx st = Inr d"
  shows "\<exists>r. grounding_receipt_of H F ctx Parse_VALID (Some a) cs c = Inr r \<and> decision_of pl ctx r d"
proof -
  obtain r where r: "grounding_receipt_of H F ctx Parse_VALID (Some a) cs c = Inr r"
    using assms unfolding ground_valid_def bind_result_Inr by blast
  have "decision_of pl ctx r d" if "ground_resolved H F pl ctx st c r rs = Inr d" for rs
    using that silence_decision remind_decision
    by (auto simp: ground_resolved_def Let_def split: if_splits option.splits sum.splits rendering_error.splits)
  then show ?thesis
    using r assms silence_decision unfolding ground_valid_def r
    by (auto simp: Let_def split: if_splits)
qed

lemma ground_replays:
  assumes "ground H F pl p ctx st = Inr d"
  shows "\<exists>r. decision_of pl ctx r d \<and> valid_grounding_receipt H F r \<and>
    gr_requested_delivery_target r = gx_requested_delivery_target ctx \<and>
    grounding_provenance_matches ctx r \<and> replay_receipt H F pl r ctx st = Inr d"
proof -
  have inputs: "grounding_inputs_ok H F ctx st" using assms by (auto simp: ground_def split: if_splits)
  have rec: "valid_grounding_receipt H F r \<and> gr_parse_status r = status \<and> gr_proposal_action r = action \<and>
      gr_claims r = claims \<and> gr_confidence r = conf \<and>
      gr_requested_delivery_target r = gx_requested_delivery_target ctx \<and> grounding_provenance_matches ctx r"
    if "grounding_receipt_of H F ctx status action claims conf = Inr r" for status action claims conf r
    using that by (cases "gx_schema_version ctx")
      (auto simp: grounding_receipt_of_def Let_def grounding_provenance_matches_def split: if_splits)
  have sil: ?thesis
    if "bind_result (grounding_receipt_of H F ctx status action claims conf)
        (\<lambda>r. silence pl ctx (parse_status_reason status) conf r) = Inr d" and "status \<noteq> Parse_VALID"
    for status action claims conf
  proof -
    from that(1) obtain r where r: "grounding_receipt_of H F ctx status action claims conf = Inr r"
      "silence pl ctx (parse_status_reason status) conf r = Inr d" by (auto simp: bind_result_Inr)
    with rec [OF r(1)] that(2) inputs silence_decision [OF r(2)] show ?thesis
      by (intro exI [of _ r]) (simp add: replay_receipt_def)
  qed
  show ?thesis
  proof (cases "preflight_proposal p \<in> {Some Reason_NO_GROUNDED_CLAIMS, Some Reason_CLAIM_OVER_LIMIT} \<or>
      \<not> validated_proposal_ok p \<or> ip_confidence p = None")
    case True
    then consider "preflight_proposal p = Some Reason_NO_GROUNDED_CLAIMS"
      | "preflight_proposal p = Some Reason_CLAIM_OVER_LIMIT"
      | "preflight_proposal p \<notin> {Some Reason_NO_GROUNDED_CLAIMS, Some Reason_CLAIM_OVER_LIMIT}"
        "\<not> validated_proposal_ok p \<or> ip_confidence p = None"
      by (cases "preflight_proposal p = Some Reason_NO_GROUNDED_CLAIMS";
          cases "preflight_proposal p = Some Reason_CLAIM_OVER_LIMIT") simp_all
    then show ?thesis
    proof cases
      case 1
      with assms inputs show ?thesis by (intro sil [of Parse_EMPTY_REMINDER])
        (simp_all add: ground_def parse_status_reason_def)
    next
      case 2
      with assms inputs show ?thesis by (intro sil [of Parse_CLAIM_OVER_LIMIT])
        (simp_all add: ground_def parse_status_reason_def)
    next
      case 3
      with assms inputs show ?thesis by (intro sil [of Parse_SCHEMA_INVALID])
        (auto simp: ground_def parse_status_reason_def split: bool.splits option.splits)
    qed
  next
    case False
    then obtain c where c: "ip_confidence p = Some c" and ok: "validated_proposal_ok p" by auto
    with False assms inputs have gv: "ground_valid H F pl (ip_action p) (ip_claims p) c ctx st = Inr d"
      by (simp add: ground_def)
    then obtain r where r: "grounding_receipt_of H F ctx Parse_VALID (Some (ip_action p)) (ip_claims p) c = Inr r"
      "decision_of pl ctx r d" using ground_valid_decision by blast
    define q where "q = \<lparr>ip_action = ip_action p, ip_claims = ip_claims p, ip_confidence = Some c,
      ip_model_free_text = None\<rparr>"
    have vp: "valid_proposal p" "preflight_proposal p = None" using ok by (simp_all add: validated_proposal_ok_def)
    have vq: "valid_proposal q" using vp(1) c by (auto simp: valid_proposal_def q_def)
    have "preflight_proposal q = None"
      using vp(2) by (auto simp: preflight_proposal_def q_def split: if_splits)
    then have "ground H F pl q ctx st = Inr d"
      using vq gv inputs by (simp add: ground_def validated_proposal_ok_def) (simp add: q_def)
    then have "replay_receipt H F pl r ctx st = Inr d"
      using rec [OF r(1)] inputs vq by (simp add: replay_receipt_def q_def Let_def)
    with rec [OF r(1)] r(2) show ?thesis by blast
  qed
qed

lemma verify_accepts:
  assumes "hex_digest H" and "new_pipeline H F cfg = Inr pl" and "ground H F pl p ctx st = Inr d"
  shows "verify_grounded_intervention H F d ctx st (pl_resolved pl) = Inr ()"
proof -
  have pl: "pipeline_ok H F pl" "pl_configuration pl = cfg" using assms(1,2) new_pipeline_Inr by blast+
  obtain r where r: "decision_of pl ctx r d" "valid_grounding_receipt H F r"
    "gr_requested_delivery_target r = gx_requested_delivery_target ctx"
    "grounding_provenance_matches ctx r" "replay_receipt H F pl r ctx st = Inr d"
    using ground_replays [OF assms(3)] by blast
  have inputs: "grounding_inputs_ok H F ctx st" using assms(3) by (auto simp: ground_def split: if_splits)
  have valid: "valid_intervention_decision d"
    using ground_outcome [OF pl(1) assms(1) inputs, of p] assms(3) by (auto simp: grounded_outcome_def)
  have cfg: "valid_grounding_config cfg" "pl_resolved pl = resolved_of H F cfg"
    using pl by (auto simp: pipeline_ok_def)
  have conf: "config_from_decision H F d = Some (cfg, pl_resolved pl)"
    using r(1) cfg assms(1) config_round [OF cfg(1)]
    by (simp add: config_from_decision_def decision_of_def resolved_of_def resolve_Inr)
  have receipt: "receipt_of_json H F (iv_grounding_receipt d) = Some r"
    using r(1,2) receipt_read by (simp add: decision_of_def)
  have "valid_resolved_configuration H F (pl_resolved pl)"
    using resolved_of_valid [OF assms(1)] cfg(2) by simp
  with valid inputs conf receipt r assms(2) show ?thesis
    by (simp add: verify_grounded_intervention_def decision_of_def)
qed

text \<open>
  C31. Verification accepts everything the pipeline decides: a decision of \<open>ground\<close>, stored with
  its configuration and receipt as JSON, passes the authoritative verification in the same context
  and state against the pipeline's own pin.
\<close>

theorem verification_accepts_pipeline_decisions:
  assumes "hex_digest H" and "new_pipeline H F cfg = Inr pl" and "ground H F pl p ctx st = Inr d"
  shows "verify_grounded_intervention H F d ctx st (pl_resolved pl) = Inr ()"
  using assms by (rule verify_accepts)

lemma verified_backed:
  assumes "hex_digest H" and "verify_grounded_intervention H F d ctx st expected = Inr ()"
    and "iv_action d = Action_REMIND"
  shows "\<exists>cfg t. config_of_json (iv_grounding_configuration d) = Some cfg \<and>
    expected = resolved_of H F cfg \<and> iv_claims d \<noteq> [] \<and>
    (\<forall>c\<in>set (iv_claims d). claim_backed cfg ctx st c) \<and>
    iv_rendered_text d = Some t \<and> int (length t) \<le> rn_max_output_bytes (gc_rendering cfg) \<and>
    iv_delivery_target d = gx_requested_delivery_target ctx \<and>
    (\<exists>target\<in>set (gc_allowed_delivery_targets cfg). iv_delivery_target d = Some target)"
proof -
  from assms(2) obtain cfg r pl where v: "config_from_decision H F d = Some (cfg, expected)"
    "new_pipeline H F cfg = Inr pl" "replay_receipt H F pl r ctx st = Inr d" "grounding_inputs_ok H F ctx st"
    unfolding verify_grounded_intervention_def
    by (auto simp: bind_result_def split: if_splits option.splits prod.splits sum.splits)
  have pl: "pipeline_ok H F pl" "pl_configuration pl = cfg" using assms(1) v(2) new_pipeline_Inr by blast+
  have cfg: "config_of_json (iv_grounding_configuration d) = Some cfg" "expected = resolved_of H F cfg"
    using v(1) assms(1) by (auto simp: config_from_decision_def resolve_Inr split: option.splits if_splits)
  have "gr_parse_status r = Parse_VALID"
    using v(3) assms(3) by (auto simp: replay_receipt_def silence_def new_intervention_def split: if_splits)
  then obtain p where "ground H F pl p ctx st = Inr d"
    using v(3) by (auto simp: replay_receipt_def Let_def split: if_splits option.splits)
  then have "grounded_outcome H F pl ctx st (ip_claims p) d"
    using ground_outcome [OF pl(1) assms(1) v(4), of p] by auto
  then obtain cs rendered where o':
    "list_all2 (\<lambda>p c. resolve_evidence H F cfg ctx st p = Inr c) (ip_claims p) cs"
    "iv_claims d = map rv_claim cs" "ip_claims p \<noteq> []" "iv_rendered_text d = Some rendered"
    "render (gc_rendering cfg) (map grounded_claim_of cs) = Inr rendered"
    "\<exists>t\<in>set (gc_allowed_delivery_targets cfg). gx_requested_delivery_target ctx = Some t \<and> iv_delivery_target d = Some t"
    using assms(3) pl(2) by (auto simp: grounded_outcome_def)
  have "claim_backed cfg ctx st (rv_claim c)" if "c \<in> set cs" for c
    using o'(1) that resolved_claim_backed by (fastforce simp: list_all2_conv_all_nth in_set_conv_nth)
  moreover have "cs \<noteq> []" using o'(1,3) by auto
  moreover have "int (length rendered) \<le> rn_max_output_bytes (gc_rendering cfg)"
    using o'(5) by (rule render_Inr) simp
  ultimately show ?thesis using cfg o' by auto
qed

text \<open>
  C30. Only evidence-backed reminders pass verification: a verified reminder has at least one
  claim; the text of every claim is exactly the text its single citation selects from an event of
  the run no later than the current one, or from an active, unexpired memory of the cited revision
  and of the kind the claim may use; and it is rendered, within the byte limit, for the requested
  and allowed delivery target.
\<close>

theorem verified_reminder_is_backed:
  assumes "hex_digest H" and "verify_grounded_intervention H F d ctx st expected = Inr ()"
    and "iv_action d = Action_REMIND"
  shows "\<exists>cfg t. config_of_json (iv_grounding_configuration d) = Some cfg \<and>
    expected = resolved_of H F cfg \<and> iv_claims d \<noteq> [] \<and>
    (\<forall>c\<in>set (iv_claims d). claim_backed cfg ctx st c) \<and>
    iv_rendered_text d = Some t \<and> int (length t) \<le> rn_max_output_bytes (gc_rendering cfg) \<and>
    iv_delivery_target d = gx_requested_delivery_target ctx \<and>
    (\<exists>target\<in>set (gc_allowed_delivery_targets cfg). iv_delivery_target d = Some target)"
  using assms by (rule verified_backed)

section \<open>A concrete run\<close>

definition sample_config :: grounding_config where
  "sample_config = \<lparr>gc_max_claims = 2, gc_max_pointer_segments = 4, gc_max_pointer_utf8_bytes = 64,
     gc_duplicate_window_events = 4, gc_cooldown_events = 2,
     gc_allowed_delivery_targets = [Target_NEXT_MODEL_CALL], gc_rendering = sample_rendering_config\<rparr>"

definition sample_pipeline :: grounding_pipeline where
  "sample_pipeline = \<lparr>pl_configuration = sample_config,
     pl_resolved = resolved_of zero_hash ratio_text sample_config\<rparr>"

definition sample_event :: trace_event where
  "sample_event = \<lparr>ev_event_id = sample_uuid 2, ev_run_id = sample_uuid 1, ev_sequence = 1,
     ev_source_event_id = ''e1'', ev_timestamp = 0, ev_event_type = Event_OBSERVATION,
     ev_phase = Phase_PRE_ACTION, ev_payload = JObj [(''text'', JStr ''a'')],
     ev_payload_digest = \<lparr>pd_algorithm = Alg_SYNTHETIC_SHA256, pd_value = sample_digest\<rparr>,
     ev_parent_ids = [], ev_source_adapter = ''host'', ev_trust_label = Trust_UNTRUSTED_TOOL_OUTPUT\<rparr>"

definition sample_context :: grounding_context where
  "sample_context = \<lparr>gx_schema_version = Context_1_0, gx_intervention_id = sample_uuid 3,
     gx_run_id = sample_uuid 1, gx_cycle_id = zero_hash [], gx_current_event_sequence = 1,
     gx_created_at = 5, gx_requested_delivery_target = Some Target_NEXT_MODEL_CALL,
     gx_model_call_index = Some 0, gx_model_call_digest = Some sample_digest,
     gx_selector_provenance = None\<rparr>"

definition sample_state :: grounding_state where
  "sample_state = \<lparr>gs_events = [sample_event], gs_memories = [], gs_reminder_history = []\<rparr>"

definition sample_proposal :: intervention_proposal where
  "sample_proposal = \<lparr>ip_action = Action_REMIND, ip_claims = [sample_claim], ip_confidence = Some 1,
     ip_model_free_text = None\<rparr>"

lemma sample_pipeline_new: "new_pipeline zero_hash ratio_text sample_config = Inr sample_pipeline"
proof -
  have "valid_grounding_config sample_config"
    by (simp add: valid_grounding_config_def sample_config_def canonical_targets_def delivery_targets_def
        valid_rendering_config_def sample_rendering_config_def max_reminder_history_def)
  then show ?thesis by (simp add: new_pipeline_Inr pipeline_ok_def sample_pipeline_def)
qed

lemma sample_event_valid [simp]: "valid_trace_event sample_event"
proof -
  have "trace_event_payload_is_bounded (JObj [(''text'', JStr ''a'')])" by code_simp
  moreover have "component_identifier ''e1''" "component_identifier ''host''" by code_simp+
  ultimately show ?thesis
    by (simp add: valid_trace_event_def sample_event_def is_object_def valid_payload_digest_def valid_parents_def)
qed

lemma sample_inputs_ok: "grounding_inputs_ok zero_hash ratio_text sample_context sample_state"
proof -
  have "valid_grounding_context zero_hash ratio_text sample_context"
    by (simp add: valid_grounding_context_def sample_context_def max_signed_64_def provenance_ok_def
        model_provenance_def)
  then show ?thesis
    by (simp add: grounding_inputs_ok_def valid_grounding_state_def sample_state_def max_state_records_def)
      (simp add: sample_event_def sample_context_def)
qed

lemma sample_resolves:
  "\<exists>c. resolve_evidence zero_hash ratio_text sample_config sample_context sample_state sample_claim = Inr c \<and>
     grounded_claim_of c = sample_grounded_claim"
proof -
  let ?c = "\<lparr>ic_kind = Claim_ENVIRONMENT_FACT, ic_fields = JObj [(''fact'', JStr ''a'')],
    ic_evidence = [sample_evidence]\<rparr>"
  have pointer: "resolve_pointer sample_config (JObj [(''payload'', JObj [(''text'', JStr ''a'')])]) ''/payload/text'' =
      Some ''a''"
    by code_simp
  have span: "select_span ''a'' sample_evidence = Some ''a''"
    by (simp add: select_span_def sample_evidence_def max_source_code_points_def code_points_def)
  have "resolve_event sample_config sample_context sample_state sample_claim =
      Inr (Some ''a'', Trust_UNTRUSTED_TOOL_OUTPUT)"
    using pointer span
    by (simp add: resolve_event_def sample_claim_def sample_state_def sample_event_def sample_context_def
        checks_pass Let_def) (simp add: sample_evidence_def checks_pass)
  moreover have "materialize_claim sample_claim ''a'' = Inr ?c"
    by (simp add: materialize_claim_def sample_claim_def valid_proposed_claim_def valid_intervention_claim_def
        is_object_def Let_def)
  moreover have "claim_fingerprint zero_hash ratio_text ?c = Inr (zero_hash [])"
    by (simp add: claim_fingerprint_def validated_claim_metadata_def canonical_json_def
        zero_hash_length_prefixed fingerprint_metadata_def span_json_def)
  moreover have "er_source (pc_evidence sample_claim) = Source_EVENT"
    by (simp add: sample_claim_def sample_evidence_def)
  moreover have "rn_max_evidence_bytes (gc_rendering sample_config) = 64"
    by (simp add: sample_config_def sample_rendering_config_def)
  ultimately show ?thesis
    by (simp add: resolve_evidence_def grounded_claim_of_def sample_grounded_claim_def)
qed

lemma sample_ground:
  "\<exists>d t. ground zero_hash ratio_text sample_pipeline sample_proposal sample_context sample_state = Inr d \<and>
     iv_action d = Action_REMIND \<and> decision_of sample_pipeline sample_context sample_receipt d \<and>
     valid_intervention_decision d \<and> iv_rendered_text d = Some t \<and>
     iv_delivery_target d = Some Target_NEXT_MODEL_CALL"
proof -
  obtain c where c: "resolve_evidence zero_hash ratio_text sample_config sample_context sample_state sample_claim = Inr c"
    "grounded_claim_of c = sample_grounded_claim" using sample_resolves by blast
  obtain t where t: "render sample_rendering_config [sample_grounded_claim] = Inr t" using sample_render by blast
  have pl: "pipeline_ok zero_hash ratio_text sample_pipeline"
    using sample_pipeline_new by (simp add: new_pipeline_Inr)
  have ctx: "valid_grounding_context zero_hash ratio_text sample_context"
    using sample_inputs_ok by (simp add: grounding_inputs_ok_def)
  have vp: "valid_proposed_claim sample_claim" by (simp add: valid_proposed_claim_def sample_claim_def)
  have u: "unit_interval 1" by (simp add: unit_interval_def)
  have r: "grounding_receipt_of zero_hash ratio_text sample_context Parse_VALID (Some Action_REMIND)
      [sample_claim] 1 = Inr sample_receipt"
    using sample_receipt_valid
    by (simp add: grounding_receipt_of_def sample_context_def sample_receipt_def)
  have "valid_intervention_claim (rv_claim c)"
    using resolve_evidence_Inr [OF c(1)] materialize_claim_Inr by blast
  moreover have target: "gx_requested_delivery_target sample_context = Some Target_NEXT_MODEL_CALL"
    by (simp add: sample_context_def)
  ultimately obtain d where d: "remind sample_pipeline sample_context 1 sample_receipt [rv_claim c] t = Inr d"
    "iv_action d = Action_REMIND" "valid_intervention_decision d" "iv_rendered_text d = Some t"
    "iv_delivery_target d = Some Target_NEXT_MODEL_CALL"
    using remind_Inr [OF pl _ ctx u, of "[rv_claim c]" t sample_receipt] render_nonempty [OF t] by auto
  have conf: "pl_configuration sample_pipeline = sample_config" "gc_rendering sample_config = sample_rendering_config"
    by (simp_all add: sample_pipeline_def sample_config_def)
  have "ground_resolved zero_hash ratio_text sample_pipeline sample_context sample_state 1 sample_receipt [Inr c] = Inr d"
    using d(1) t c(2) conf
    by (simp add: ground_resolved_def failures_of_def grounded_of_def duplicates_history_def in_cooldown_def
        sample_state_def Let_def)
  then have "ground_valid zero_hash ratio_text sample_pipeline Action_REMIND [sample_claim] 1 sample_context sample_state = Inr d"
    using r c(1) conf by (simp add: ground_valid_def) (simp add: sample_config_def sample_context_def)
  moreover have "validated_proposal_ok sample_proposal" "preflight_proposal sample_proposal = None"
    using vp u by (simp_all add: validated_proposal_ok_def valid_proposal_def preflight_proposal_def sample_proposal_def)
  ultimately have "ground zero_hash ratio_text sample_pipeline sample_proposal sample_context sample_state = Inr d"
    using sample_inputs_ok by (simp add: ground_def) (simp add: sample_proposal_def)
  with d remind_decision [OF d(1)] show ?thesis by blast
qed

theorem grounding_is_total_witness:
  "\<exists>d. ground zero_hash ratio_text sample_pipeline sample_proposal sample_context sample_state = Inr d \<and>
     valid_intervention_decision d"
  using grounding_is_total [OF hex_digest_zero_hash sample_pipeline_new, of sample_context sample_state sample_proposal]
    sample_inputs_ok by simp

theorem verification_accepts_pipeline_decisions_witness:
  "\<exists>d. verify_grounded_intervention zero_hash ratio_text d sample_context sample_state
     (pl_resolved sample_pipeline) = Inr ()"
  using sample_ground verification_accepts_pipeline_decisions [OF hex_digest_zero_hash sample_pipeline_new]
  by blast

theorem verified_reminder_is_backed_witness:
  "\<exists>d :: intervention_decision. iv_action d = Action_REMIND \<and> iv_claims d \<noteq> []"
proof -
  obtain d where d: "ground zero_hash ratio_text sample_pipeline sample_proposal sample_context sample_state = Inr d"
    "iv_action d = Action_REMIND" using sample_ground by blast
  from verified_reminder_is_backed [OF hex_digest_zero_hash
      verify_accepts [OF hex_digest_zero_hash sample_pipeline_new d(1)] d(2)]
  have "iv_claims d \<noteq> []" by (elim exE conjE)
  with d(2) show ?thesis by (intro exI [of _ d]) simp
qed

end
