(* ===== verification/Ports.thy ===== *)
theory Ports
  imports Grounding
begin

text \<open>
  The repository boundary (\<open>ports/repository.py\<close>): its error classes, ledger entries and heads.
  The classes that only report a wrong Python type
  (\<open>InvalidAppendTypeError\<close>, \<open>InvalidRecordTypeError\<close>) have no counterpart here.
  \<open>UnhandledError\<close> stands for an exception that is not a repository error (a raw pydantic
  \<open>ValidationError\<close>, a \<open>KeyError\<close>): the properties show where it cannot occur.
\<close>

datatype (plugins only: code size) repo_error =
    InvalidDraftError
  | UnsafeEventMetadataError "string list"
  | InvalidRecordError string
  | UnsafeRecordContentError string
  | InvalidQueryError
  | InvalidRunIdError
  | InvalidCycleStateError string cycle_state
  | CycleConflictError
  | CycleRevisionConflictError int "int option"
  | DeliveryNotFoundError
  | DeliveryRevisionConflictError int "int option"
  | InvalidDeliveryStateError string
  | DeliveryOwnershipError
  | InvalidRecoveryTimeError
  | RunNotFoundError uuid
  | RecordCollisionError string uuid
  | RevisionConflictError uuid int "int option"
  | CrossRunReferenceError string
  | DigestVerificationError string
  | LedgerHeadConflictError
  | ProjectionInvariantError string
  | PreviewConflictError
  | RebuildError
  | UnhandledError string

record ledger_entry =
  le_run_id :: uuid
  le_position :: int
  le_record_key :: string
  le_record_tag :: payload_digest
  le_previous_chain_tag :: "payload_digest option"
  le_chain_tag :: payload_digest
  le_record :: ledger_record

text \<open>The validators of the record an entry holds, which run again whenever an entry is copied.\<close>

definition valid_ledger_record :: "hash_fun \<Rightarrow> ledger_record \<Rightarrow> bool" where
  "valid_ledger_record H r =
     (case r of
        Rec_event e \<Rightarrow> valid_trace_event e
      | Rec_signal s \<Rightarrow> valid_signal s
      | Rec_decision d \<Rightarrow> valid_invocation_decision d
      | Rec_cycle c \<Rightarrow> valid_cycle_record H c
      | Rec_outcome out \<Rightarrow> valid_intervention_outcome out
      | Rec_delivery d \<Rightarrow> valid_delivery_record d)"

definition valid_ledger_entry :: "ledger_entry \<Rightarrow> bool" where
  "valid_ledger_entry e \<longleftrightarrow> uuid4 (le_run_id e) \<and> 1 \<le> le_position e \<and>
     1 \<le> code_points (le_record_key e) \<and> code_points (le_record_key e) \<le> 200 \<and>
     valid_payload_digest (le_record_tag e) \<and> opt_all valid_payload_digest (le_previous_chain_tag e) \<and>
     valid_payload_digest (le_chain_tag e) \<and>
     rec_run_id (le_record e) = le_run_id e \<and>
     (le_position e = 1) = (le_previous_chain_tag e = None) \<and>
     pd_algorithm (le_record_tag e) = pd_algorithm (le_chain_tag e) \<and>
     opt_all (\<lambda>t. pd_algorithm t = pd_algorithm (le_chain_tag e)) (le_previous_chain_tag e)"

record ledger_head =
  lh_run_id :: uuid
  lh_entry_count :: int
  lh_chain_tag :: payload_digest
  lh_projection_tag :: payload_digest
  lh_head_tag :: payload_digest

definition valid_ledger_head :: "ledger_head \<Rightarrow> bool" where
  "valid_ledger_head h \<longleftrightarrow> uuid4 (lh_run_id h) \<and> 1 \<le> lh_entry_count h \<and>
     valid_payload_digest (lh_chain_tag h) \<and> valid_payload_digest (lh_projection_tag h) \<and>
     valid_payload_digest (lh_head_tag h) \<and>
     pd_algorithm (lh_chain_tag h) = pd_algorithm (lh_head_tag h) \<and>
     pd_algorithm (lh_projection_tag h) = pd_algorithm (lh_head_tag h)"

end
