(* ===== verification/Projector.thy ===== *)
theory Projector
  imports Ports "HOL-Library.Product_Lexorder"
begin

text \<open>
  The ledger projector (\<open>repository/projector.py\<close>): the projection of a run's ledger and the
  function \<open>apply_entry\<close> that folds one entry into it, with every check it makes in source order.

  The mappings of \<open>Projection\<close> are association lists with the dictionary operations of the
  prelude. \<open>replace(projection, ...)\<close> is a record update; its \<open>__post_init__\<close> recomputes
  \<open>decisions_by_event_sequence\<close>, which only the decision branch can affect.
\<close>

section \<open>The projection\<close>

record projection =
  pr_run_id :: uuid
  pr_events_by_id :: "(uuid, trace_event) dict"
  pr_events_by_sequence :: "(int, trace_event) dict"
  pr_events_by_source :: "(string, trace_event) dict"
  pr_event_positions :: "(uuid, int) dict"
  pr_signals :: "(uuid, signal) dict"
  pr_decisions :: "(uuid, invocation_decision) dict"
  pr_cycle_history :: "(digest \<times> int, cycle_record) dict"
  pr_cycles :: "(digest, cycle_record) dict"
  pr_memory_history :: "(uuid \<times> int, memory_record) dict"
  pr_memories :: "(uuid, memory_record) dict"
  pr_interventions :: "(uuid, intervention_decision) dict"
  pr_reminder_interventions_by_sequence :: "(int, intervention_decision) dict"
  pr_outcomes :: "(uuid, intervention_outcome) dict"
  pr_delivery_history :: "(uuid \<times> int, delivery_record) dict"
  pr_deliveries :: "(uuid, delivery_record) dict"
  pr_current_private_status_id :: "uuid option"
  pr_budget_limits :: "budget_limits option"
  pr_ingestion_cursor :: int
  pr_memory_cursor :: int

definition empty_projection :: "uuid \<Rightarrow> projection" where
  "empty_projection run_id = \<lparr>pr_run_id = run_id, pr_events_by_id = [], pr_events_by_sequence = [],
     pr_events_by_source = [], pr_event_positions = [], pr_signals = [], pr_decisions = [],
     pr_cycle_history = [], pr_cycles = [], pr_memory_history = [], pr_memories = [],
     pr_interventions = [], pr_reminder_interventions_by_sequence = [], pr_outcomes = [],
     pr_delivery_history = [], pr_deliveries = [], pr_current_private_status_id = None,
     pr_budget_limits = None, pr_ingestion_cursor = 0, pr_memory_cursor = 0\<rparr>"

fun index_decisions :: "invocation_decision list \<Rightarrow> (int, invocation_decision) dict \<Rightarrow>
    repo_error + (int, invocation_decision) dict" where
  "index_decisions [] index = Inr index"
| "index_decisions (d # ds) index =
     (if has_key index (id_event_sequence d)
      then Inl (ProjectionInvariantError ''invocation event already has a decision'')
      else index_decisions ds (dict_set (id_event_sequence d) d index))"

definition decisions_by_event_sequence :: "projection \<Rightarrow> repo_error + (int, invocation_decision) dict" where
  "decisions_by_event_sequence p = index_decisions (dict_values (pr_decisions p)) []"

section \<open>Memory\<close>

text \<open>\<open>MemoryRecord.model_validate\<close> of projected values.\<close>

definition projected_memory :: "memory_record \<Rightarrow> repo_error + memory_record" where
  "projected_memory m =
     (if valid_memory_record m then Inr m
      else Inl (ProjectionInvariantError ''projected memory record is invalid''))"

fun validate_evidence :: "(uuid, trace_event) dict \<Rightarrow> (uuid \<times> int, memory_record) dict \<Rightarrow>
    evidence_reference list \<Rightarrow> int \<Rightarrow> repo_error + unit" where
  "validate_evidence events history [] max_sequence = Inr ()"
| "validate_evidence events history (r # rs) max_sequence =
     (if er_source r = Source_EVENT
      then (case dict_get events (er_source_id r) of
              None \<Rightarrow> Inl (CrossRunReferenceError ''event evidence'')
            | Some e \<Rightarrow>
                if ev_sequence e > max_sequence
                then Inl (ProjectionInvariantError ''event evidence falls after the cycle range'')
                else validate_evidence events history rs max_sequence)
      else (case er_revision r of
              None \<Rightarrow> Inl (CrossRunReferenceError ''memory evidence'')
            | Some n \<Rightarrow>
                if has_key history (er_source_id r, n)
                then validate_evidence events history rs max_sequence
                else Inl (CrossRunReferenceError ''memory evidence'')))"

definition validate_memory_target :: "(uuid, memory_record) dict \<Rightarrow> uuid \<Rightarrow> int \<Rightarrow>
    repo_error + memory_record" where
  "validate_memory_target memories memory_id expected_revision =
     (case dict_get memories memory_id of
        None \<Rightarrow> Inl (RevisionConflictError memory_id expected_revision None)
      | Some existing \<Rightarrow>
          checks
            [(mr_revision existing \<noteq> expected_revision,
                RevisionConflictError memory_id expected_revision (Some (mr_revision existing))),
             (mr_validity existing \<noteq> Validity_ACTIVE,
                ProjectionInvariantError ''memory mutations require an active target'')]
            (Inr existing))"

text \<open>The local variables of \<open>preview_memory_delta\<close>: \<open>histories\<close>, \<open>memories\<close>, \<open>current_private\<close>.\<close>

record delta_state =
  ds_history :: "(uuid \<times> int, memory_record) dict"
  ds_memories :: "(uuid, memory_record) dict"
  ds_private :: "uuid option"

definition store_memory :: "memory_record \<Rightarrow> delta_state \<Rightarrow> repo_error + delta_state" where
  "store_memory m s =
     checks
       [(has_key (ds_history s) (mr_memory_id m, mr_revision m),
           ProjectionInvariantError ''memory revision already exists'')]
       (Inr (s\<lparr>ds_history := dict_set (mr_memory_id m, mr_revision m) m (ds_history s),
               ds_memories := dict_set (mr_memory_id m) m (ds_memories s)\<rparr>))"

definition new_memory :: "uuid \<Rightarrow> uuid \<Rightarrow> memory_create \<Rightarrow> timestamp \<Rightarrow> repo_error + memory_record" where
  "new_memory run_id memory_id create created_at =
     projected_memory \<lparr>mr_memory_id = memory_id, mr_run_id = run_id, mr_kind = mc_kind create,
       mr_content = mc_content create, mr_provenance = mc_provenance create,
       mr_confidence = mc_confidence create, mr_validity = Validity_ACTIVE, mr_revision = 1,
       mr_created_at = created_at, mr_updated_at = created_at, mr_access_count = 0,
       mr_last_accessed_at = None, mr_expires_at = mc_expires_at create, mr_invalidated_at = None,
       mr_trust_label = Trust_UNTRUSTED_MODEL_OUTPUT\<rparr>"

definition assigned_id :: "memory_id_assignment list \<Rightarrow> string \<Rightarrow> repo_error + uuid" where
  "assigned_id assignments handle =
     (case map_of (map (\<lambda>a. (ma_handle a, ma_memory_id a)) assignments) handle of
        None \<Rightarrow> Inl (UnhandledError ''KeyError'')
      | Some i \<Rightarrow> Inr i)"

definition apply_create :: "projection \<Rightarrow> memory_delta \<Rightarrow> memory_id_assignment list \<Rightarrow> int \<Rightarrow>
    memory_create \<Rightarrow> delta_state \<Rightarrow> repo_error + delta_state" where
  "apply_create p delta assignments last_sequence create s =
     bind_result (assigned_id assignments (mc_handle create)) (\<lambda>memory_id.
     checks
       [(has_key (ds_memories s) memory_id,
           ProjectionInvariantError ''assigned memory ID already exists'')]
       (bind_result (validate_evidence (pr_events_by_id p) (pr_memory_history p)
            (mc_provenance create) last_sequence) (\<lambda>_.
        bind_result (new_memory (pr_run_id p) memory_id create (md_created_at delta)) (\<lambda>m.
        store_memory m s))))"

definition apply_update :: "projection \<Rightarrow> memory_delta \<Rightarrow> int \<Rightarrow> memory_update \<Rightarrow> delta_state \<Rightarrow>
    repo_error + delta_state" where
  "apply_update p delta last_sequence u s =
     bind_result (validate_memory_target (ds_memories s) (mu_memory_id u) (mu_expected_revision u))
       (\<lambda>existing.
     checks
       [(md_created_at delta < mr_updated_at existing,
           ProjectionInvariantError ''memory update timestamp moved backwards'')]
       (let provenance = (case mu_provenance u of None \<Rightarrow> mr_provenance existing | Some e \<Rightarrow> e);
            expires_at = (case ep_action (mu_expiration u) of
                            Expire_KEEP \<Rightarrow> mr_expires_at existing
                          | Expire_CLEAR \<Rightarrow> None
                          | Expire_SET \<Rightarrow> ep_value (mu_expiration u))
        in bind_result (validate_evidence (pr_events_by_id p) (ds_history s) provenance last_sequence)
             (\<lambda>_.
           bind_result (projected_memory (existing\<lparr>
               mr_content := (case mu_content u of None \<Rightarrow> mr_content existing | Some c \<Rightarrow> c),
               mr_provenance := provenance,
               mr_confidence := (case mu_confidence u of None \<Rightarrow> mr_confidence existing | Some c \<Rightarrow> c),
               mr_expires_at := expires_at,
               mr_trust_label := Trust_UNTRUSTED_MODEL_OUTPUT,
               mr_revision := mr_revision existing + 1,
               mr_updated_at := md_created_at delta\<rparr>)) (\<lambda>m.
           store_memory m s))))"

definition apply_invalidation :: "memory_delta \<Rightarrow> memory_invalidation \<Rightarrow> delta_state \<Rightarrow>
    repo_error + delta_state" where
  "apply_invalidation delta i s =
     bind_result (validate_memory_target (ds_memories s) (mi_memory_id i) (mi_expected_revision i))
       (\<lambda>existing.
     checks
       [(md_created_at delta < mr_updated_at existing,
           ProjectionInvariantError ''memory invalidation timestamp moved backwards'')]
       (bind_result (projected_memory (existing\<lparr>
            mr_validity := Validity_INVALIDATED,
            mr_invalidated_at := Some (md_created_at delta),
            mr_revision := mr_revision existing + 1,
            mr_updated_at := md_created_at delta\<rparr>)) (\<lambda>m.
        bind_result (store_memory m s) (\<lambda>s'.
        Inr (if ds_private s' = Some (mr_memory_id existing) then s'\<lparr>ds_private := None\<rparr> else s')))))"

definition supersede_private :: "memory_delta \<Rightarrow> private_status_replacement \<Rightarrow> delta_state \<Rightarrow>
    repo_error + delta_state" where
  "supersede_private delta rep s =
     (case ps_expected_memory_id rep of
        None \<Rightarrow>
          checks
            [(ds_private s \<noteq> None,
                ProjectionInvariantError ''an active private status already exists'')]
            (Inr s)
      | Some target \<Rightarrow>
          bind_result (validate_memory_target (ds_memories s) target
              (case ps_expected_revision rep of None \<Rightarrow> 0 | Some n \<Rightarrow> n)) (\<lambda>existing.
          checks
            [(mr_kind existing \<noteq> Kind_PRIVATE_STATUS \<or> ds_private s \<noteq> Some (mr_memory_id existing),
                ProjectionInvariantError ''private-status replacement target is not current''),
             (md_created_at delta < mr_updated_at existing,
                ProjectionInvariantError ''private-status timestamp moved backwards'')]
            (bind_result (projected_memory (existing\<lparr>
                 mr_validity := Validity_SUPERSEDED,
                 mr_revision := mr_revision existing + 1,
                 mr_updated_at := md_created_at delta\<rparr>)) (\<lambda>m.
             store_memory m s))))"

definition apply_replacement :: "projection \<Rightarrow> memory_delta \<Rightarrow> memory_id_assignment list \<Rightarrow> int \<Rightarrow>
    private_status_replacement \<Rightarrow> delta_state \<Rightarrow> repo_error + delta_state" where
  "apply_replacement p delta assignments last_sequence rep s =
     bind_result (supersede_private delta rep s) (\<lambda>s1.
     bind_result (assigned_id assignments (mc_handle (ps_replacement rep))) (\<lambda>memory_id.
     checks
       [(has_key (ds_memories s1) memory_id,
           ProjectionInvariantError ''assigned private-status ID already exists'')]
       (bind_result (validate_evidence (pr_events_by_id p) (ds_history s1)
            (mc_provenance (ps_replacement rep)) last_sequence) (\<lambda>_.
        bind_result (new_memory (pr_run_id p) memory_id (ps_replacement rep) (md_created_at delta)) (\<lambda>m.
        bind_result (store_memory m s1) (\<lambda>s2.
        Inr (s2\<lparr>ds_private := Some memory_id\<rparr>)))))))"

definition preview_memory_delta :: "projection \<Rightarrow> memory_delta \<Rightarrow> memory_id_assignment list \<Rightarrow>
    int \<Rightarrow> repo_error + projection" where
  "preview_memory_delta p delta assignments last_sequence =
     checks
       [(md_run_id delta \<noteq> pr_run_id p, CrossRunReferenceError ''memory delta''),
        (\<not> distinct (map ma_handle assignments),
           ProjectionInvariantError ''memory ID assignment handles must be unique''),
        (\<not> distinct (map ma_memory_id assignments),
           ProjectionInvariantError ''assigned memory IDs must be unique''),
        (map ma_handle assignments \<noteq> delta_handles delta,
           ProjectionInvariantError ''memory ID assignments must exactly match created handles''),
        (case md_private_status_replacement delta of
           None \<Rightarrow> False
         | Some rep \<Rightarrow>
             (case ps_expected_memory_id rep of
                None \<Rightarrow> False
              | Some target \<Rightarrow>
                  target \<in> set (map mu_memory_id (md_updates delta)) \<union>
                    set (map mi_memory_id (md_invalidations delta))),
           ProjectionInvariantError ''private-status replacement cannot overlap another mutation'')]
       (bind_result (fold_result (apply_create p delta assignments last_sequence) (md_creates delta)
            \<lparr>ds_history = pr_memory_history p, ds_memories = pr_memories p,
             ds_private = pr_current_private_status_id p\<rparr>) (\<lambda>s1.
        bind_result (fold_result (apply_update p delta last_sequence) (md_updates delta) s1) (\<lambda>s2.
        bind_result (fold_result (apply_invalidation delta) (md_invalidations delta) s2) (\<lambda>s3.
        bind_result (case md_private_status_replacement delta of
                       None \<Rightarrow> Inr s3
                     | Some rep \<Rightarrow> apply_replacement p delta assignments last_sequence rep s3) (\<lambda>s4.
        Inr (p\<lparr>pr_memory_history := ds_history s4, pr_memories := ds_memories s4,
               pr_current_private_status_id := ds_private s4\<rparr>))))))"

section \<open>Events, signals, outcomes\<close>

definition apply_event :: "projection \<Rightarrow> ledger_entry \<Rightarrow> trace_event \<Rightarrow> repo_error + projection" where
  "apply_event p entry e =
     checks
       [(ev_sequence e \<noteq> pr_ingestion_cursor p + 1,
           ProjectionInvariantError ''event sequence is not contiguous''),
        (has_key (pr_events_by_sequence p) (ev_sequence e),
           ProjectionInvariantError ''event sequence already exists''),
        (has_key (pr_events_by_id p) (ev_event_id e),
           ProjectionInvariantError ''event ID already exists''),
        (has_key (pr_events_by_source p) (ev_source_event_id e),
           ProjectionInvariantError ''source event ID already exists''),
        (list_ex (\<lambda>parent. \<not> has_key (pr_events_by_id p) parent) (ev_parent_ids e),
           CrossRunReferenceError ''event parent'')]
       (Inr (p\<lparr>pr_events_by_id := dict_set (ev_event_id e) e (pr_events_by_id p),
               pr_events_by_sequence := dict_set (ev_sequence e) e (pr_events_by_sequence p),
               pr_events_by_source := dict_set (ev_source_event_id e) e (pr_events_by_source p),
               pr_event_positions := dict_set (ev_event_id e) (le_position entry) (pr_event_positions p),
               pr_ingestion_cursor := ev_sequence e\<rparr>))"

definition apply_signal :: "projection \<Rightarrow> signal \<Rightarrow> repo_error + projection" where
  "apply_signal p s =
     checks
       [(has_key (pr_signals p) (sg_signal_id s), ProjectionInvariantError ''signal ID already exists''),
        (list_ex (\<lambda>i. \<not> has_key (pr_events_by_id p) i) (sg_evidence_event_ids s),
           CrossRunReferenceError ''signal evidence'')]
       (Inr (p\<lparr>pr_signals := dict_set (sg_signal_id s) s (pr_signals p)\<rparr>))"

definition apply_outcome :: "projection \<Rightarrow> intervention_outcome \<Rightarrow> repo_error + projection" where
  "apply_outcome p out =
     checks
       [(has_key (pr_outcomes p) (io_outcome_id out), ProjectionInvariantError ''outcome ID already exists''),
        (\<not> has_key (pr_interventions p) (io_intervention_id out),
           CrossRunReferenceError ''outcome intervention'')]
       (Inr (p\<lparr>pr_outcomes := dict_set (io_outcome_id out) out (pr_outcomes p)\<rparr>))"

section \<open>Budgets\<close>

fun cycle_transitions :: "cycle_state \<Rightarrow> cycle_state list" where
  "cycle_transitions Cycle_PENDING = [Cycle_RESERVED, Cycle_FAILED]"
| "cycle_transitions Cycle_RESERVED = [Cycle_RUNNING, Cycle_FAILED]"
| "cycle_transitions Cycle_RUNNING = [Cycle_COMMITTED, Cycle_FAILED]"
| "cycle_transitions _ = []"

fun delivery_transitions :: "delivery_state \<Rightarrow> delivery_state list" where
  "delivery_transitions Delivery_PENDING = [Delivery_CLAIMED, Delivery_REJECTED]"
| "delivery_transitions Delivery_CLAIMED = [Delivery_ATTEMPTING, Delivery_REJECTED]"
| "delivery_transitions Delivery_ATTEMPTING = [Delivery_DELIVERED, Delivery_UNKNOWN, Delivery_FAILED]"
| "delivery_transitions Delivery_UNKNOWN = [Delivery_CLAIMED, Delivery_DELIVERED, Delivery_FAILED]"
| "delivery_transitions _ = []"

definition add_amounts :: "budget_amounts list \<Rightarrow> budget_amounts" where
  "add_amounts values = amounts_of (\<lambda>f. \<Sum>v\<leftarrow>values. amount f v)"

definition active_reservation :: "cycle_record \<Rightarrow> budget_amounts option" where
  "active_reservation c =
     (if cy_state c \<in> {Cycle_RESERVED, Cycle_RUNNING} then cy_budget_reservation c else None)"

definition final_settlement :: "cycle_record \<Rightarrow> budget_amounts option" where
  "final_settlement c =
     (if cy_state c \<in> {Cycle_COMMITTED, Cycle_FAILED} then cy_budget_settlement c else None)"

definition budget_snapshot_of ::
    "projection \<Rightarrow> budget_limits option \<Rightarrow> repo_error + budget_snapshot" where
  "budget_snapshot_of p given =
     (case (case given of None \<Rightarrow> pr_budget_limits p | Some l \<Rightarrow> Some l) of
        None \<Rightarrow> Inl (ProjectionInvariantError ''run budget limits are unavailable'')
      | Some l \<Rightarrow>
          (let s = \<lparr>limits = l,
                    reserved = add_amounts (List.map_filter active_reservation (dict_values (pr_cycles p))),
                    consumed = add_amounts (List.map_filter final_settlement (dict_values (pr_cycles p)))\<rparr>
           in if valid_budget_snapshot s then Inr s else Inl (UnhandledError ''ValidationError'')))"

definition apply_decision :: "projection \<Rightarrow> invocation_decision \<Rightarrow> repo_error + projection" where
  "apply_decision p d =
     (if has_key (pr_decisions p) (id_decision_id d)
      then Inl (ProjectionInvariantError ''invocation decision ID already exists'')
      else case dict_get (pr_events_by_sequence p) (id_event_sequence d) of
             None \<Rightarrow> Inl (CrossRunReferenceError ''invocation event'')
           | Some e \<Rightarrow>
               if id_created_at d < ev_timestamp e
               then Inl (ProjectionInvariantError ''invocation decision precedes its event'')
               else
               bind_result (decisions_by_event_sequence p) (\<lambda>index.
               if has_key index (id_event_sequence d)
               then Inl (ProjectionInvariantError ''invocation event already has a decision'')
               else
                 let run_limits = (case pr_budget_limits p of
                                     None \<Rightarrow> limits (id_budget_snapshot d) | Some l \<Rightarrow> l)
                 in if run_limits \<noteq> limits (id_budget_snapshot d)
                    then Inl (ProjectionInvariantError ''run budget limits changed'')
                    else
                    bind_result (budget_snapshot_of p (Some run_limits)) (\<lambda>snapshot.
                    if id_budget_snapshot d \<noteq> snapshot
                    then Inl (ProjectionInvariantError ''invocation decision budget snapshot is stale'')
                    else
                    let p' = p\<lparr>pr_decisions := dict_set (id_decision_id d) d (pr_decisions p),
                               pr_budget_limits := Some run_limits\<rparr>
                    in bind_result (decisions_by_event_sequence p') (\<lambda>_. Inr p'))))"

definition exceeds :: "'a budget_amounts_scheme \<Rightarrow> 'b budget_amounts_scheme \<Rightarrow> bool" where
  "exceeds a b \<longleftrightarrow> list_ex (\<lambda>f. amount f a > amount f b) budget_fields"

definition reservation_check :: "projection \<Rightarrow> cycle_record \<Rightarrow> cycle_record option \<Rightarrow>
    repo_error + unit" where
  "reservation_check p c previous =
     (case cy_budget_reservation c of
        None \<Rightarrow> Inr ()
      | Some r \<Rightarrow>
          if (case previous of None \<Rightarrow> False | Some q \<Rightarrow> cy_budget_reservation q \<noteq> None) then Inr ()
          else if model_calls r < 1
          then Inl (ProjectionInvariantError ''cycle reservation requires a model call'')
          else bind_result (budget_snapshot_of p None) (\<lambda>s.
            checks
              [(list_ex (\<lambda>f. amount f r > amount f (limits s) - amount f (reserved s) - amount f (consumed s))
                  budget_fields,
                ProjectionInvariantError ''cycle reservation exceeds the decision budget'')]
              (Inr ())))"

definition settled :: "(budget_amounts \<Rightarrow> bool) \<Rightarrow> cycle_record \<Rightarrow> bool" where
  "settled P c = (case cy_budget_settlement c of None \<Rightarrow> False | Some s \<Rightarrow> P s)"

definition known_failure :: "cycle_record \<Rightarrow> bool" where
  "known_failure c \<longleftrightarrow> cy_state c = Cycle_FAILED \<and> cy_budget_settlement c \<noteq> None \<and>
     cy_failure_reason c \<noteq> Some Reason_FAILED_UNKNOWN_COST"

definition validate_cycle_budget :: "projection \<Rightarrow> invocation_decision \<Rightarrow> cycle_record \<Rightarrow>
    cycle_record option \<Rightarrow> repo_error + unit" where
  "validate_cycle_budget p decision c previous =
     bind_result (reservation_check p c previous) (\<lambda>_.
     checks
       [(settled (\<lambda>s. case cy_budget_reservation c of None \<Rightarrow> True | Some r \<Rightarrow> exceeds s r) c,
           ProjectionInvariantError ''cycle settlement exceeds its reservation''),
        (length (cy_model_call_digests c) \<noteq> length (cy_model_call_latencies_us c),
           ProjectionInvariantError ''cycle model-call receipts are incomplete''),
        (settled (\<lambda>s. sum_list (cy_model_call_latencies_us c) > latency_us s) c,
           ProjectionInvariantError ''model-call latency exceeds settled cycle latency''),
        (list_ex (\<lambda>l. l > max_call_latency_us (limits (id_budget_snapshot decision)))
           (cy_model_call_latencies_us c),
           ProjectionInvariantError ''model call exceeds the per-call latency limit''),
        (cy_state c = Cycle_COMMITTED \<and> cy_budget_settlement c = None,
           ProjectionInvariantError ''committed cycle is missing its settlement''),
        (cy_state c = Cycle_COMMITTED \<and> settled (\<lambda>s. model_calls s < 1) c,
           ProjectionInvariantError ''committed cycle must settle a model call''),
        (cy_state c = Cycle_COMMITTED \<and>
           settled (\<lambda>s. int (length (cy_model_call_digests c)) \<noteq> model_calls s) c,
           ProjectionInvariantError ''committed cycle call digests do not match settled calls''),
        (cy_state c = Cycle_COMMITTED \<and> cy_intervention c = None,
           ProjectionInvariantError ''committed cycle is missing its intervention''),
        (cy_state c = Cycle_COMMITTED \<and>
           settled (\<lambda>s. case cy_intervention c of None \<Rightarrow> True
              | Some i \<Rightarrow> interventions_used s \<noteq> intervention_count i) c,
           ProjectionInvariantError ''committed cycle intervention usage does not match its verdict''),
        (known_failure c \<and> settled (\<lambda>s. interventions_used s \<noteq> 0) c,
           ProjectionInvariantError ''failed cycle cannot consume an intervention''),
        (known_failure c \<and> settled (\<lambda>s. int (length (cy_model_call_digests c)) \<noteq> model_calls s) c,
           ProjectionInvariantError ''failed cycle call digests do not match settled calls''),
        (known_failure c \<and> (case previous of None \<Rightarrow> False | Some q \<Rightarrow> cy_state q = Cycle_RESERVED) \<and>
           settled (\<lambda>s. model_calls s \<noteq> 0 \<or> input_tokens s \<noteq> 0 \<or> output_tokens s \<noteq> 0 \<or>
             canonical_token_equivalents s \<noteq> 0 \<or> schema_repairs s \<noteq> 0) c,
           ProjectionInvariantError ''failure before running cannot consume model usage''),
        (known_failure c \<and> (case previous of None \<Rightarrow> False | Some q \<Rightarrow> cy_state q = Cycle_RUNNING) \<and>
           settled (\<lambda>s. model_calls s < 1) c,
           ProjectionInvariantError ''running failure must settle a model call'')]
       (Inr ()))"

section \<open>Grounding of a committed cycle\<close>

definition cycle_pin_error :: repo_error where
  "cycle_pin_error = ProjectionInvariantError ''cycle grounding pin failed validation''"

definition resolved_cycle_grounding :: "hash_fun \<Rightarrow> float_text \<Rightarrow> cycle_record \<Rightarrow>
    repo_error + (grounding_config \<times> resolved_configuration)" where
  "resolved_cycle_grounding H F c =
     (case config_of_json (cy_grounding_configuration c) of
        None \<Rightarrow> Inl cycle_pin_error
      | Some cfg \<Rightarrow>
          (case resolve_grounding_configuration H F cfg of
             Inl _ \<Rightarrow> Inl cycle_pin_error
           | Inr r \<Rightarrow>
               if cy_grounding_version c \<noteq> rs_pipeline_version r \<or>
                  cy_grounding_configuration_digest c \<noteq> rs_configuration_digest r \<or>
                  cy_grounding_configuration c \<noteq> rs_configuration r
               then Inl cycle_pin_error else Inr (cfg, r)))"

text \<open>The events and memories a receipt cites, as the two dictionaries the code fills.\<close>

fun select_cited :: "projection \<Rightarrow> proposed_claim list \<Rightarrow>
    (uuid, trace_event) dict \<times> (uuid, memory_record) dict \<Rightarrow>
    (uuid, trace_event) dict \<times> (uuid, memory_record) dict" where
  "select_cited p [] sel = sel"
| "select_cited p (claim # claims) (events, memories) =
     select_cited p claims
       (let r = pc_evidence claim in
        if er_source r = Source_EVENT
        then (case dict_get (pr_events_by_id p) (er_source_id r) of
                None \<Rightarrow> (events, memories)
              | Some e \<Rightarrow> (dict_set (ev_event_id e) e events, memories))
        else (case dict_get (pr_memories p) (er_source_id r) of
                None \<Rightarrow> (events, memories)
              | Some m \<Rightarrow> (events, dict_set (mr_memory_id m) m memories)))"

definition history_entry :: "hash_fun \<Rightarrow> float_text \<Rightarrow> int \<Rightarrow> intervention_decision \<Rightarrow>
    reminder_history option" where
  "history_entry H F sequence prior =
     (case map_result (claim_fingerprint H F) (iv_claims prior) of
        Inl _ \<Rightarrow> None
      | Inr digests \<Rightarrow>
          (let h = \<lparr>rh_intervention_id = iv_intervention_id prior, rh_run_id = iv_run_id prior,
                    rh_event_sequence = sequence, rh_claim_digests = digests\<rparr>
           in if valid_reminder_history h then Some h else None))"

definition reminder_window :: "hash_fun \<Rightarrow> float_text \<Rightarrow> projection \<Rightarrow> grounding_config \<Rightarrow> int \<Rightarrow>
    reminder_history list option" where
  "reminder_window H F p cfg last_sequence =
     (let window = max (gc_duplicate_window_events cfg) (gc_cooldown_events cfg);
          first = max 1 (last_sequence - window);
          priors = List.map_filter (\<lambda>n. map_option (Pair n)
            (dict_get (pr_reminder_interventions_by_sequence p) n)) [first..last_sequence - 1]
      in option_list (map (\<lambda>(n, prior). history_entry H F n prior) priors))"

definition verification_error :: repo_error where
  "verification_error =
     ProjectionInvariantError ''grounded intervention failed authoritative verification''"

definition selector_of_cycle :: "hash_fun \<Rightarrow> float_text \<Rightarrow> cycle_record \<Rightarrow>
    selector_provenance option option" where
  "selector_of_cycle H F c =
     (case cy_selector_provenance c of
        None \<Rightarrow> Some None
      | Some v \<Rightarrow>
          (case selector_provenance_of_json H F v of
             None \<Rightarrow> None
           | Some sel \<Rightarrow> if selector_provenance_json sel = v then Some (Some sel) else None))"

definition receipt_matches_cycle :: "cycle_record \<Rightarrow> intervention_decision \<Rightarrow> grounding_receipt \<Rightarrow>
    selector_provenance option \<Rightarrow> bool" where
  "receipt_matches_cycle c i r sel \<longleftrightarrow>
     \<not> (iv_grounding_version i \<noteq> cy_grounding_version c \<or>
        iv_grounding_configuration_digest i \<noteq> cy_grounding_configuration_digest c \<or>
        iv_grounding_configuration i \<noteq> cy_grounding_configuration c \<or>
        gr_requested_delivery_target r \<noteq> cy_requested_delivery_target c \<or>
        (gr_receipt_version r = Receipt_V1 \<and>
          (sel \<noteq> None \<or>
           (case (gr_model_call_index r, gr_model_call_digest r) of
              (Some n, Some d) \<Rightarrow>
                n \<ge> int (length (cy_model_call_digests c)) \<or> cy_model_call_digests c ! nat n \<noteq> d
            | _ \<Rightarrow> True))) \<or>
        (gr_receipt_version r = Receipt_V2 \<and>
          (sel = None \<or> gr_selector_provenance r \<noteq> sel)))"

definition grounding_context_of :: "cycle_record \<Rightarrow> intervention_decision \<Rightarrow> grounding_receipt \<Rightarrow>
    grounding_context" where
  "grounding_context_of c i r =
     \<lparr>gx_schema_version = (if gr_receipt_version r = Receipt_V1 then Context_1_0 else Context_2_0),
      gx_intervention_id = iv_intervention_id i, gx_run_id = iv_run_id i, gx_cycle_id = cy_cycle_id c,
      gx_current_event_sequence = cy_last_event_sequence c, gx_created_at = iv_created_at i,
      gx_requested_delivery_target = cy_requested_delivery_target c,
      gx_model_call_index = gr_model_call_index r, gx_model_call_digest = gr_model_call_digest r,
      gx_selector_provenance = gr_selector_provenance r\<rparr>"

definition grounding_state_of :: "projection \<Rightarrow> trace_event \<Rightarrow> proposed_claim list \<Rightarrow>
    reminder_history list \<Rightarrow> grounding_state" where
  "grounding_state_of p current claims history =
     (let (events, memories) = select_cited p claims ([(ev_event_id current, current)], [])
      in \<lparr>gs_events = sort_key (\<lambda>e. (ev_sequence e, ev_event_id e)) (dict_values events),
          gs_memories = sort_key mr_memory_id (dict_values memories),
          gs_reminder_history = history\<rparr>)"

definition authoritatively_verify :: "hash_fun \<Rightarrow> float_text \<Rightarrow> projection \<Rightarrow> cycle_record \<Rightarrow>
    intervention_decision \<Rightarrow> repo_error + unit" where
  "authoritatively_verify H F p c i =
     (case (resolved_cycle_grounding H F c, receipt_of_json H F (iv_grounding_receipt i),
            selector_of_cycle H F c) of
        (Inr (cfg, resolved), Some r, Some sel) \<Rightarrow>
          (if \<not> receipt_matches_cycle c i r sel then Inl verification_error
           else case dict_get (pr_events_by_sequence p) (cy_last_event_sequence c) of
                  None \<Rightarrow> Inl verification_error
                | Some current \<Rightarrow>
                    (case reminder_window H F p cfg (cy_last_event_sequence c) of
                       None \<Rightarrow> Inl verification_error
                     | Some history \<Rightarrow>
                         (let ctx = grounding_context_of c i r;
                              st = grounding_state_of p current (gr_claims r) history
                          in if \<not> valid_grounding_context H F ctx \<or> \<not> valid_grounding_state st
                             then Inl verification_error
                             else case verify_grounded_intervention H F i ctx st resolved of
                                    Inl _ \<Rightarrow> Inl verification_error
                                  | Inr _ \<Rightarrow> Inr ())))
      | _ \<Rightarrow> Inl verification_error)"

section \<open>Cycles\<close>

definition cycle_immutable_fields where
  "cycle_immutable_fields c = (cy_run_id c, cy_invocation_decision_id c, cy_policy_version c,
     cy_configuration_digest c, cy_grounding_version c, cy_grounding_configuration_digest c,
     cy_requested_delivery_target c, cy_first_event_sequence c, cy_last_event_sequence c,
     cy_created_at c)"

definition cycle_successor_checks :: "cycle_record \<Rightarrow> cycle_record \<Rightarrow> (bool \<times> repo_error) list" where
  "cycle_successor_checks previous c =
     [(cy_revision c \<noteq> cy_revision previous + 1,
         ProjectionInvariantError ''cycle revision is not contiguous''),
      (cycle_immutable_fields c \<noteq> cycle_immutable_fields previous,
         ProjectionInvariantError ''cycle identity fields changed across revisions''),
      (cy_grounding_configuration c \<noteq> cy_grounding_configuration previous,
         ProjectionInvariantError ''cycle identity fields changed across revisions''),
      (cy_updated_at c < cy_updated_at previous,
         ProjectionInvariantError ''cycle update timestamp moved backwards''),
      (cy_budget_reservation previous \<noteq> None \<and> cy_budget_reservation c \<noteq> cy_budget_reservation previous,
         ProjectionInvariantError ''cycle budget reservation changed''),
      (cy_batch_digest previous \<noteq> None \<and> cy_batch_digest c \<noteq> cy_batch_digest previous,
         ProjectionInvariantError ''cycle batch digest changed''),
      (cy_state c \<notin> set (cycle_transitions (cy_state previous)),
         ProjectionInvariantError ''invalid cycle state transition''),
      (cy_state c = Cycle_FAILED \<and> cy_state previous = Cycle_PENDING \<and>
         (cy_budget_reservation c \<noteq> None \<or> cy_budget_settlement c \<noteq> None \<or> cy_batch_digest c \<noteq> None \<or>
          cy_model_call_digests c \<noteq> [] \<or> cy_model_call_latencies_us c \<noteq> []),
         ProjectionInvariantError ''failure before reservation cannot introduce budget or batch state''),
      (cy_state c = Cycle_FAILED \<and> cy_state previous = Cycle_RESERVED \<and>
         (cy_batch_digest c \<noteq> None \<or> cy_model_call_digests c \<noteq> [] \<or> cy_model_call_latencies_us c \<noteq> []),
         ProjectionInvariantError ''failure before running cannot introduce batch or model-call state''),
      (cy_state c = Cycle_FAILED \<and> cy_failure_reason c = Some Reason_FAILED_UNKNOWN_COST \<and>
         cy_state previous \<noteq> Cycle_RUNNING,
         ProjectionInvariantError ''failed_unknown_cost requires a previously running cycle'')]"

definition active_cycle :: "cycle_record \<Rightarrow> bool" where
  "active_cycle c \<longleftrightarrow> cy_state c \<in> {Cycle_PENDING, Cycle_RESERVED, Cycle_RUNNING}"

definition cycle_begin_checks :: "projection \<Rightarrow> cycle_record \<Rightarrow> (bool \<times> repo_error) list" where
  "cycle_begin_checks p c =
     [(cy_revision c \<noteq> 1 \<or> cy_state c \<noteq> Cycle_PENDING,
         ProjectionInvariantError ''a cycle must begin pending at revision 1''),
      (cy_first_event_sequence c \<noteq> pr_memory_cursor p + 1,
         ProjectionInvariantError ''cycle does not continue the memory cursor''),
      (list_ex (\<lambda>e. cy_invocation_decision_id e = cy_invocation_decision_id c) (dict_values (pr_cycles p)),
         ProjectionInvariantError ''invocation decision already has a cycle''),
      (list_ex active_cycle (dict_values (pr_cycles p)),
         ProjectionInvariantError ''run already has an active cycle'')]"

definition commit_effects :: "hash_fun \<Rightarrow> float_text \<Rightarrow> projection \<Rightarrow> cycle_record \<Rightarrow>
    cycle_record option \<Rightarrow> repo_error + projection" where
  "commit_effects H F p c previous =
     checks
       [(cy_first_event_sequence c \<noteq> pr_memory_cursor p + 1,
           ProjectionInvariantError ''committed cycle does not continue the memory cursor'')]
       (case cy_validated_delta c of
          None \<Rightarrow> Inl (ProjectionInvariantError ''committed cycle is missing its memory delta'')
        | Some delta \<Rightarrow>
            (case previous of
               None \<Rightarrow> Inl (ProjectionInvariantError ''committed cycle is missing its running revision'')
             | Some q \<Rightarrow>
                 checks
                   [(\<not> (cy_updated_at q \<le> md_created_at delta \<and> md_created_at delta \<le> cy_updated_at c),
                       ProjectionInvariantError ''memory delta timestamp falls outside its cycle'')]
                   (bind_result (preview_memory_delta p delta (cy_memory_id_assignments c)
                        (cy_last_event_sequence c)) (\<lambda>updated.
                    case cy_intervention c of
                      None \<Rightarrow> Inl (ProjectionInvariantError ''committed cycle is missing its intervention'')
                    | Some i \<Rightarrow>
                        checks
                          [(\<not> (cy_updated_at q \<le> iv_created_at i \<and> iv_created_at i \<le> cy_updated_at c),
                              ProjectionInvariantError ''intervention timestamp falls outside its cycle''),
                           (iv_created_at i < md_created_at delta,
                              ProjectionInvariantError ''intervention cannot precede its memory delta'')]
                          (bind_result (authoritatively_verify H F updated c i) (\<lambda>_.
                           checks
                             [(has_key (pr_interventions updated) (iv_intervention_id i),
                                 ProjectionInvariantError ''intervention ID already exists''),
                              (iv_action i = Action_REMIND \<and>
                                 has_key (pr_reminder_interventions_by_sequence updated)
                                   (cy_last_event_sequence c),
                                 ProjectionInvariantError ''event sequence already has a reminder'')]
                             (Inr (updated\<lparr>
                                pr_interventions := dict_set (iv_intervention_id i) i (pr_interventions updated),
                                pr_reminder_interventions_by_sequence :=
                                  (if iv_action i = Action_REMIND
                                   then dict_set (cy_last_event_sequence c) i
                                          (pr_reminder_interventions_by_sequence updated)
                                   else pr_reminder_interventions_by_sequence updated),
                                pr_memory_cursor := cy_last_event_sequence c\<rparr>))))))))"

definition apply_cycle :: "hash_fun \<Rightarrow> float_text \<Rightarrow> projection \<Rightarrow> cycle_record \<Rightarrow>
    repo_error + projection" where
  "apply_cycle H F p c =
     (case dict_get (pr_decisions p) (cy_invocation_decision_id c) of
        None \<Rightarrow> Inl (CrossRunReferenceError ''cycle invocation decision'')
      | Some decision \<Rightarrow>
          checks
            [(\<not> id_invoke decision, ProjectionInvariantError ''cycle requires an invoking decision''),
             (cy_policy_version c \<noteq> id_policy_version decision \<or>
                cy_configuration_digest c \<noteq> id_configuration_digest decision,
                ProjectionInvariantError ''cycle policy does not match its invocation decision'')]
            (bind_result (resolved_cycle_grounding H F c) (\<lambda>_.
             let previous = dict_get (pr_cycles p) (cy_cycle_id c) in
             checks
               ([(cy_created_at c < id_created_at decision,
                    ProjectionInvariantError ''cycle cannot precede its invocation decision''),
                 (list_ex (\<lambda>n. \<not> has_key (pr_events_by_sequence p) n)
                    [cy_first_event_sequence c..cy_last_event_sequence c],
                    CrossRunReferenceError ''cycle event range''),
                 (id_event_sequence decision \<noteq> cy_last_event_sequence c,
                    ProjectionInvariantError ''cycle must end at its invocation event'')] @
                (case previous of
                   None \<Rightarrow> cycle_begin_checks p c
                 | Some q \<Rightarrow> cycle_successor_checks q c))
               (bind_result (validate_cycle_budget p decision c previous) (\<lambda>_.
                checks
                  [(has_key (pr_cycle_history p) (cy_cycle_id c, cy_revision c),
                      ProjectionInvariantError ''cycle revision already exists'')]
                  (bind_result (if cy_state c = Cycle_COMMITTED then commit_effects H F p c previous
                                else Inr p) (\<lambda>updated.
                   Inr (updated\<lparr>
                     pr_cycle_history := dict_set (cy_cycle_id c, cy_revision c) c (pr_cycle_history p),
                     pr_cycles := dict_set (cy_cycle_id c) c (pr_cycles p)\<rparr>))))))))"

section \<open>Deliveries\<close>

definition delivery_immutable_fields where
  "delivery_immutable_fields d = (dv_run_id d, dv_cycle_id d, dv_intervention_id d,
     dv_rendered_text_digest d, dv_target_request_id d, dv_target d, dv_adapter_id d,
     dv_adapter_deduplicates d, dv_adapter_deduplication_guarantee d,
     dv_adapter_supports_pre_action d, dv_adapter_contract_version d,
     dv_adapter_capabilities_digest d, dv_created_at d)"

definition claim_tokens :: "projection \<Rightarrow> uuid list" where
  "claim_tokens p = List.map_filter dv_claim_id (dict_values (pr_delivery_history p))"

definition attempt_tokens :: "projection \<Rightarrow> uuid list" where
  "attempt_tokens p = List.map_filter dv_attempt_id (dict_values (pr_delivery_history p))"

definition delivery_begin_checks :: "projection \<Rightarrow> cycle_record \<Rightarrow> delivery_record \<Rightarrow>
    (bool \<times> repo_error) list" where
  "delivery_begin_checks p cycle d =
     [(list_ex (\<lambda>e. dv_intervention_id e = dv_intervention_id d) (dict_values (pr_deliveries p)),
         ProjectionInvariantError ''intervention already has a delivery''),
      (dv_state d \<noteq> Delivery_PENDING,
         ProjectionInvariantError ''a delivery must begin pending at revision 1''),
      (dv_created_at d \<noteq> cy_updated_at cycle \<or> dv_updated_at d \<noteq> dv_created_at d,
         ProjectionInvariantError ''delivery was not enqueued with its cycle commit'')]"

definition in_tokens :: "uuid option \<Rightarrow> uuid list \<Rightarrow> bool" where
  "in_tokens t ts = (case t of None \<Rightarrow> False | Some u \<Rightarrow> u \<in> set ts)"

definition delivery_successor_checks :: "projection \<Rightarrow> delivery_record \<Rightarrow> delivery_record \<Rightarrow>
    (bool \<times> repo_error) list" where
  "delivery_successor_checks p previous d =
     [(delivery_immutable_fields d \<noteq> delivery_immutable_fields previous,
         ProjectionInvariantError ''delivery identity fields changed across revisions''),
      (dv_updated_at d < dv_updated_at previous,
         ProjectionInvariantError ''delivery update timestamp moved backwards''),
      (dv_state d \<notin> set (delivery_transitions (dv_state previous)),
         ProjectionInvariantError ''invalid delivery state transition''),
      (dv_state d = Delivery_CLAIMED \<and> in_tokens (dv_claim_id d) (claim_tokens p),
         ProjectionInvariantError ''delivery claim owner token was reused''),
      (dv_state d = Delivery_CLAIMED \<and> dv_state previous = Delivery_UNKNOWN \<and>
         \<not> dv_adapter_deduplicates d,
         ProjectionInvariantError ''non-deduplicating delivery cannot retry an unknown attempt''),
      (dv_state d = Delivery_CLAIMED \<and> dv_state previous = Delivery_UNKNOWN \<and>
         dv_claim_id d = dv_claim_id previous,
         ProjectionInvariantError ''unknown delivery retry requires a new claim owner''),
      (dv_state d = Delivery_CLAIMED \<and> (dv_claim_id d = None \<or> dv_attempt_id d \<noteq> None),
         ProjectionInvariantError ''invalid delivery claim ownership''),
      (dv_state d = Delivery_ATTEMPTING \<and> in_tokens (dv_attempt_id d) (attempt_tokens p),
         ProjectionInvariantError ''delivery attempt token was reused''),
      (dv_state d = Delivery_ATTEMPTING \<and> dv_attempt_count d \<noteq> dv_attempt_count previous + 1,
         ProjectionInvariantError ''delivery attempt count is not contiguous''),
      (dv_state d = Delivery_ATTEMPTING \<and>
         (dv_claim_id d \<noteq> dv_claim_id previous \<or> dv_attempt_id d = None \<or>
          dv_attempt_id d = dv_attempt_id previous),
         ProjectionInvariantError ''invalid delivery attempt ownership''),
      (dv_state d \<notin> {Delivery_CLAIMED, Delivery_ATTEMPTING} \<and>
         dv_attempt_count d \<noteq> dv_attempt_count previous,
         ProjectionInvariantError ''delivery attempt count changed outside an attempt''),
      (dv_state d \<in> {Delivery_DELIVERED, Delivery_FAILED, Delivery_UNKNOWN} \<and>
         (dv_claim_id d \<noteq> dv_claim_id previous \<or> dv_attempt_id d \<noteq> dv_attempt_id previous),
         ProjectionInvariantError ''delivery completion ownership changed''),
      (dv_state d = Delivery_REJECTED \<and> dv_state previous = Delivery_PENDING \<and> dv_claim_id d \<noteq> None,
         ProjectionInvariantError ''unclaimed delivery rejection gained an owner''),
      (dv_state d = Delivery_REJECTED \<and> dv_state previous = Delivery_CLAIMED \<and>
         dv_claim_id d \<noteq> dv_claim_id previous,
         ProjectionInvariantError ''claimed delivery rejection changed owner'')]"

definition apply_delivery :: "hash_fun \<Rightarrow> projection \<Rightarrow> delivery_record \<Rightarrow> repo_error + projection" where
  "apply_delivery H p d =
     (case dict_get (pr_cycles p) (dv_cycle_id d) of
        None \<Rightarrow> Inl (CrossRunReferenceError ''delivery cycle'')
      | Some cycle \<Rightarrow>
          (case dict_get (pr_interventions p) (dv_intervention_id d) of
             None \<Rightarrow> Inl (CrossRunReferenceError ''delivery intervention'')
           | Some i \<Rightarrow>
               (let previous = dict_get (pr_deliveries p) (dv_delivery_id d) in
                checks
                  ([(cy_state cycle \<noteq> Cycle_COMMITTED \<or> cy_intervention cycle \<noteq> Some i,
                       ProjectionInvariantError ''delivery does not match its committed cycle''),
                    (iv_action i \<noteq> Action_REMIND \<or> iv_delivery_target i \<noteq> Some (dv_target d),
                       ProjectionInvariantError ''delivery is not authorized by its intervention''),
                    (case iv_rendered_text i of None \<Rightarrow> True
                       | Some t \<Rightarrow> dv_rendered_text_digest d \<noteq> text_digest H t,
                       ProjectionInvariantError ''delivery reminder digest is not authoritative''),
                    (dv_revision d \<noteq> (case previous of None \<Rightarrow> 1 | Some q \<Rightarrow> dv_revision q + 1),
                       ProjectionInvariantError ''delivery revision is not contiguous'')] @
                   (case previous of
                      None \<Rightarrow> delivery_begin_checks p cycle d
                    | Some q \<Rightarrow> delivery_successor_checks p q d))
                  (Inr (p\<lparr>pr_delivery_history :=
                            dict_set (dv_delivery_id d, dv_revision d) d (pr_delivery_history p),
                          pr_deliveries := dict_set (dv_delivery_id d) d (pr_deliveries p)\<rparr>)))))"

section \<open>One ledger entry\<close>

definition apply_entry :: "hash_fun \<Rightarrow> float_text \<Rightarrow> projection \<Rightarrow> ledger_entry \<Rightarrow>
    repo_error + projection" where
  "apply_entry H F p entry =
     (if rec_run_id (le_record entry) \<noteq> pr_run_id p
      then Inl (CrossRunReferenceError ''ledger record'')
      else case le_record entry of
             Rec_event e \<Rightarrow> apply_event p entry e
           | Rec_signal s \<Rightarrow> apply_signal p s
           | Rec_decision d \<Rightarrow> apply_decision p d
           | Rec_cycle c \<Rightarrow> apply_cycle H F p c
           | Rec_outcome out \<Rightarrow> apply_outcome p out
           | Rec_delivery d \<Rightarrow> apply_delivery H p d)"

fun initial_deliveries :: "((uuid \<times> int) \<times> delivery_record) list \<Rightarrow> (digest, delivery_record) dict \<Rightarrow>
    repo_error + (digest, delivery_record) dict" where
  "initial_deliveries [] acc = Inr acc"
| "initial_deliveries (((i, revision), d) # ds) acc =
     (if revision \<noteq> 1 then initial_deliveries ds acc
      else if dv_delivery_id d \<noteq> i \<or> has_key acc (dv_cycle_id d)
      then Inl (ProjectionInvariantError ''cycle has an ambiguous initial delivery'')
      else initial_deliveries ds (dict_set (dv_cycle_id d) d acc))"

fun outbox_matches :: "cycle_record list \<Rightarrow> (digest, delivery_record) dict \<Rightarrow> repo_error + unit" where
  "outbox_matches [] pending = Inr ()"
| "outbox_matches (c # cs) pending =
     (case (cy_state c, cy_intervention c) of
        (Cycle_COMMITTED, Some i) \<Rightarrow>
          (if iv_action i = Action_REMIND
           then (case dict_get pending (cy_cycle_id c) of
                   None \<Rightarrow> Inl (ProjectionInvariantError ''committed reminder is missing its delivery outbox'')
                 | Some d \<Rightarrow>
                     if dv_intervention_id d \<noteq> iv_intervention_id i
                     then Inl (ProjectionInvariantError ''committed reminder is missing its delivery outbox'')
                     else outbox_matches cs pending)
           else if has_key pending (cy_cycle_id c)
           then Inl (ProjectionInvariantError ''silent cycle cannot own a delivery outbox'')
           else outbox_matches cs pending)
      | _ \<Rightarrow> outbox_matches cs pending)"

definition committed_reminder :: "cycle_record \<Rightarrow> bool" where
  "committed_reminder c \<longleftrightarrow> cy_state c = Cycle_COMMITTED \<and>
     (case cy_intervention c of None \<Rightarrow> False | Some i \<Rightarrow> iv_action i = Action_REMIND)"

definition validate_complete_projection :: "projection \<Rightarrow> repo_error + unit" where
  "validate_complete_projection p =
     bind_result (initial_deliveries (pr_delivery_history p) []) (\<lambda>pending.
     bind_result (outbox_matches (dict_values (pr_cycles p)) pending) (\<lambda>_.
     checks
       [(set (map fst pending) \<noteq>
           set (map cy_cycle_id (filter committed_reminder (dict_values (pr_cycles p)))),
         ProjectionInvariantError ''delivery outbox does not match committed reminders'')]
       (Inr ())))"

end
