(* ===== verification/Ledger_Invariants.thy ===== *)
theory Ledger_Invariants
  imports Projector
begin

text \<open>
  What holds of every projection that the entries of a ledger can build. \<open>reachable\<close> is the fold
  of \<open>apply_entry\<close> over entries whose records pydantic has validated; the invariants are stated
  per component (events, cycles, budget, deliveries, memory, reminders) and each is preserved by
  every branch of \<open>apply_entry\<close>.
\<close>

lemma guards_pass_append: "guards_pass (a @ b) \<longleftrightarrow> guards_pass a \<and> guards_pass b"
  by (induction a rule: guards_pass.induct) auto

lemma no_key: "\<not> has_key d k \<longleftrightarrow> dict_get d k = None"
  unfolding has_key_def by blast

definition project_entries :: "hash_fun \<Rightarrow> float_text \<Rightarrow> uuid \<Rightarrow> ledger_entry list \<Rightarrow>
    repo_error + projection" where
  "project_entries H F run_id entries =
     fold_result (\<lambda>e p. apply_entry H F p e) entries (empty_projection run_id)"

inductive reachable :: "hash_fun \<Rightarrow> float_text \<Rightarrow> uuid \<Rightarrow> projection \<Rightarrow> bool"
  for H :: hash_fun and F :: float_text and run_id :: uuid where
  reachable_empty: "reachable H F run_id (empty_projection run_id)"
| reachable_entry: "reachable H F run_id p \<Longrightarrow> valid_ledger_record H (le_record e) \<Longrightarrow>
    apply_entry H F p e = Inr p' \<Longrightarrow> reachable H F run_id p'"

lemma project_entries_reachable:
  assumes "project_entries H F run_id entries = Inr p"
    and "\<forall>e\<in>set entries. valid_ledger_record H (le_record e)"
  shows "reachable H F run_id p"
  using assms(1) unfolding project_entries_def
  by (rule fold_result_invariant)
    (use assms(2) in \<open>auto intro: reachable_empty reachable_entry\<close>)

lemma reachable_invariant [consumes 1, case_names empty entry]:
  assumes "reachable H F run_id p" and "P (empty_projection run_id)"
    and "\<And>p e p'. reachable H F run_id p \<Longrightarrow> P p \<Longrightarrow> valid_ledger_record H (le_record e) \<Longrightarrow>
      rec_run_id (le_record e) = pr_run_id p \<Longrightarrow> apply_entry H F p e = Inr p' \<Longrightarrow> P p'"
  shows "P p"
  using assms(1)
proof (induction rule: reachable.induct)
  case (reachable_entry p e p')
  moreover from reachable_entry.hyps(3) have "rec_run_id (le_record e) = pr_run_id p"
    by (auto simp: apply_entry_def split: if_splits)
  ultimately show ?case using assms(3) by blast
qed (rule assms(2))

section \<open>What one entry changes\<close>

lemma apply_event_Inr:
  "apply_event p entry e = Inr p' \<longleftrightarrow>
     ev_sequence e = pr_ingestion_cursor p + 1 \<and> \<not> has_key (pr_events_by_sequence p) (ev_sequence e) \<and>
     \<not> has_key (pr_events_by_id p) (ev_event_id e) \<and>
     \<not> has_key (pr_events_by_source p) (ev_source_event_id e) \<and>
     (\<forall>i\<in>set (ev_parent_ids e). has_key (pr_events_by_id p) i) \<and>
     p' = p\<lparr>pr_events_by_id := dict_set (ev_event_id e) e (pr_events_by_id p),
            pr_events_by_sequence := dict_set (ev_sequence e) e (pr_events_by_sequence p),
            pr_events_by_source := dict_set (ev_source_event_id e) e (pr_events_by_source p),
            pr_event_positions := dict_set (ev_event_id e) (le_position entry) (pr_event_positions p),
            pr_ingestion_cursor := ev_sequence e\<rparr>"
  by (auto simp: apply_event_def checks_Inr list_ex_iff)

lemma event_cursor:
  assumes "apply_event p entry e = Inr p'"
  shows "pr_ingestion_cursor p' = pr_ingestion_cursor p + 1"
proof -
  note s = assms [unfolded apply_event_Inr]
  from s have "ev_sequence e = pr_ingestion_cursor p + 1" by (elim conjE)
  moreover from s have "pr_ingestion_cursor p' = ev_sequence e" by (elim conjE) (erule ssubst, simp)
  ultimately show ?thesis by simp
qed

lemma apply_signal_Inr:
  "apply_signal p s = Inr p' \<longleftrightarrow>
     \<not> has_key (pr_signals p) (sg_signal_id s) \<and>
     (\<forall>i\<in>set (sg_evidence_event_ids s). has_key (pr_events_by_id p) i) \<and>
     p' = p\<lparr>pr_signals := dict_set (sg_signal_id s) s (pr_signals p)\<rparr>"
  by (auto simp: apply_signal_def checks_Inr list_ex_iff)

lemma apply_outcome_Inr:
  "apply_outcome p out = Inr p' \<longleftrightarrow>
     \<not> has_key (pr_outcomes p) (io_outcome_id out) \<and>
     has_key (pr_interventions p) (io_intervention_id out) \<and>
     p' = p\<lparr>pr_outcomes := dict_set (io_outcome_id out) out (pr_outcomes p)\<rparr>"
  by (auto simp: apply_outcome_def checks_Inr)

lemma budget_snapshot_of_Inr:
  "budget_snapshot_of p (Some l) = Inr s \<longleftrightarrow>
     s = \<lparr>limits = l, reserved = add_amounts (List.map_filter active_reservation (dict_values (pr_cycles p))),
          consumed = add_amounts (List.map_filter final_settlement (dict_values (pr_cycles p)))\<rparr> \<and>
     valid_budget_snapshot s"
  by (auto simp: budget_snapshot_of_def Let_def)

lemma apply_decision_Inr:
  assumes "apply_decision p d = Inr p'"
  shows "\<exists>e run_limits. \<not> has_key (pr_decisions p) (id_decision_id d) \<and>
    dict_get (pr_events_by_sequence p) (id_event_sequence d) = Some e \<and>
    run_limits = limits (id_budget_snapshot d) \<and>
    (pr_budget_limits p = None \<or> pr_budget_limits p = Some run_limits) \<and>
    budget_snapshot_of p (Some run_limits) = Inr (id_budget_snapshot d) \<and>
    p' = p\<lparr>pr_decisions := dict_set (id_decision_id d) d (pr_decisions p),
           pr_budget_limits := Some run_limits\<rparr>"
  using assms
  by (auto simp: apply_decision_def Let_def bind_result_Inr split: if_splits option.splits)

lemma preview_memory_delta_Inr:
  assumes "preview_memory_delta p delta assignments n = Inr p'"
  shows "\<exists>h m x. p' = p\<lparr>pr_memory_history := h, pr_memories := m, pr_current_private_status_id := x\<rparr>"
  using assms by (auto simp: preview_memory_delta_def checks_Inr bind_result_Inr)

lemma commit_effects_Inr:
  assumes "commit_effects H F p c previous = Inr p'"
  obtains delta q i updated where "cy_first_event_sequence c = pr_memory_cursor p + 1"
    and "cy_validated_delta c = Some delta" and "previous = Some q" and "cy_intervention c = Some i"
    and "preview_memory_delta p delta (cy_memory_id_assignments c) (cy_last_event_sequence c) = Inr updated"
    and "authoritatively_verify H F updated c i = Inr ()"
    and "\<not> has_key (pr_interventions updated) (iv_intervention_id i)"
    and "iv_action i = Action_REMIND \<Longrightarrow>
      \<not> has_key (pr_reminder_interventions_by_sequence updated) (cy_last_event_sequence c)"
    and "p' = updated\<lparr>
      pr_interventions := dict_set (iv_intervention_id i) i (pr_interventions updated),
      pr_reminder_interventions_by_sequence :=
        (if iv_action i = Action_REMIND
         then dict_set (cy_last_event_sequence c) i (pr_reminder_interventions_by_sequence updated)
         else pr_reminder_interventions_by_sequence updated),
      pr_memory_cursor := cy_last_event_sequence c\<rparr>"
  using assms unfolding commit_effects_def
  by (auto simp: checks_Inr bind_result_Inr split: option.splits)

definition cycle_guards :: "projection \<Rightarrow> cycle_record \<Rightarrow> cycle_record option \<Rightarrow> bool" where
  "cycle_guards p c previous \<longleftrightarrow>
     (case previous of None \<Rightarrow> guards_pass (cycle_begin_checks p c)
      | Some q \<Rightarrow> guards_pass (cycle_successor_checks q c))"

lemma apply_cycle_Inr:
  assumes "apply_cycle H F p c = Inr p'"
  obtains decision updated pin where "dict_get (pr_decisions p) (cy_invocation_decision_id c) = Some decision"
    and "id_invoke decision" and "resolved_cycle_grounding H F c = Inr pin"
    and "\<forall>n. cy_first_event_sequence c \<le> n \<and> n \<le> cy_last_event_sequence c \<longrightarrow> has_key (pr_events_by_sequence p) n"
    and "id_event_sequence decision = cy_last_event_sequence c"
    and "cycle_guards p c (dict_get (pr_cycles p) (cy_cycle_id c))"
    and "validate_cycle_budget p decision c (dict_get (pr_cycles p) (cy_cycle_id c)) = Inr ()"
    and "\<not> has_key (pr_cycle_history p) (cy_cycle_id c, cy_revision c)"
    and "(if cy_state c = Cycle_COMMITTED then commit_effects H F p c (dict_get (pr_cycles p) (cy_cycle_id c))
          else Inr p) = Inr updated"
    and "p' = updated\<lparr>
      pr_cycle_history := dict_set (cy_cycle_id c, cy_revision c) c (pr_cycle_history p),
      pr_cycles := dict_set (cy_cycle_id c) c (pr_cycles p)\<rparr>"
proof -
  from assms obtain decision where d: "dict_get (pr_decisions p) (cy_invocation_decision_id c) = Some decision"
    by (auto simp: apply_cycle_def split: option.splits)
  from assms obtain pin where pin: "resolved_cycle_grounding H F c = Inr pin"
    unfolding apply_cycle_def d by (auto simp: checks_Inr bind_result_Inr)
  from assms show thesis
    unfolding apply_cycle_def d option.case pin bind_result_simps Let_def checks_Inr guards_pass_append bind_result_Inr
    by (elim conjE exE, intro that [OF d _ pin])
      (auto simp: list_ex_iff cycle_guards_def split: option.splits)
qed

lemma apply_delivery_Inr:
  assumes "apply_delivery H p d = Inr p'"
  obtains cycle i where "dict_get (pr_cycles p) (dv_cycle_id d) = Some cycle"
    and "dict_get (pr_interventions p) (dv_intervention_id d) = Some i"
    and "cy_state cycle = Cycle_COMMITTED" and "cy_intervention cycle = Some i"
    and "iv_action i = Action_REMIND" and "iv_delivery_target i = Some (dv_target d)"
    and "\<exists>t. iv_rendered_text i = Some t \<and> dv_rendered_text_digest d = text_digest H t"
    and "dv_revision d = (case dict_get (pr_deliveries p) (dv_delivery_id d) of None \<Rightarrow> 1 | Some q \<Rightarrow> dv_revision q + 1)"
    and "case dict_get (pr_deliveries p) (dv_delivery_id d) of
        None \<Rightarrow> guards_pass (delivery_begin_checks p cycle d)
      | Some q \<Rightarrow> guards_pass (delivery_successor_checks p q d)"
    and "p' = p\<lparr>pr_delivery_history := dict_set (dv_delivery_id d, dv_revision d) d (pr_delivery_history p),
                pr_deliveries := dict_set (dv_delivery_id d) d (pr_deliveries p)\<rparr>"
proof -
  from assms show thesis
    unfolding apply_delivery_def Let_def
    by (auto simp: checks_Inr guards_pass_append split: option.splits intro!: that)
qed


lemma apply_entry_cases [consumes 1, case_names event signal decision cycle outcome delivery]:
  assumes "apply_entry H F p entry = Inr p'"
  obtains e where "le_record entry = Rec_event e" and "apply_event p entry e = Inr p'"
  | s where "le_record entry = Rec_signal s" and "apply_signal p s = Inr p'"
  | d where "le_record entry = Rec_decision d" and "apply_decision p d = Inr p'"
  | c where "le_record entry = Rec_cycle c" and "apply_cycle H F p c = Inr p'"
  | out where "le_record entry = Rec_outcome out" and "apply_outcome p out = Inr p'"
  | d where "le_record entry = Rec_delivery d" and "apply_delivery H p d = Inr p'"
  using assms by (auto simp: apply_entry_def split: if_splits ledger_record.splits)

section \<open>Frames: what an entry of each kind leaves alone\<close>

definition events_part where
  "events_part p = (pr_run_id p, pr_events_by_id p, pr_events_by_sequence p, pr_events_by_source p,
     pr_event_positions p, pr_ingestion_cursor p)"

definition cycles_part where
  "cycles_part p = (pr_cycle_history p, pr_cycles p, pr_interventions p,
     pr_reminder_interventions_by_sequence p, pr_memory_cursor p)"

definition memory_part where
  "memory_part p = (pr_memory_history p, pr_memories p, pr_current_private_status_id p)"

definition deliveries_part where
  "deliveries_part p = (pr_delivery_history p, pr_deliveries p)"

definition decisions_part where
  "decisions_part p = (pr_decisions p, pr_budget_limits p)"

lemmas parts_def = events_part_def cycles_part_def memory_part_def deliveries_part_def decisions_part_def

lemma event_frame:
  assumes "apply_event p entry e = Inr p'"
  shows "cycles_part p' = cycles_part p" and "memory_part p' = memory_part p"
    and "deliveries_part p' = deliveries_part p" and "decisions_part p' = decisions_part p"
    and "pr_run_id p' = pr_run_id p"
  using assms by (auto simp: apply_event_Inr parts_def)

lemma signal_frame:
  assumes "apply_signal p s = Inr p'"
  shows "events_part p' = events_part p" and "cycles_part p' = cycles_part p"
    and "memory_part p' = memory_part p" and "deliveries_part p' = deliveries_part p"
    and "decisions_part p' = decisions_part p"
  using assms by (auto simp: apply_signal_Inr parts_def)

lemma outcome_frame:
  assumes "apply_outcome p out = Inr p'"
  shows "events_part p' = events_part p" and "cycles_part p' = cycles_part p"
    and "memory_part p' = memory_part p" and "deliveries_part p' = deliveries_part p"
    and "decisions_part p' = decisions_part p"
  using assms by (auto simp: apply_outcome_Inr parts_def)

lemma decision_frame:
  assumes "apply_decision p d = Inr p'"
  shows "events_part p' = events_part p" and "cycles_part p' = cycles_part p"
    and "memory_part p' = memory_part p" and "deliveries_part p' = deliveries_part p"
  using apply_decision_Inr [OF assms] by (auto simp: parts_def)

lemma delivery_frame:
  assumes "apply_delivery H p d = Inr p'"
  shows "events_part p' = events_part p" and "cycles_part p' = cycles_part p"
    and "memory_part p' = memory_part p" and "decisions_part p' = decisions_part p"
  using assms by (auto elim!: apply_delivery_Inr simp: parts_def)

lemma commit_effects_frame:
  assumes "commit_effects H F p c previous = Inr p'"
  shows "events_part p' = events_part p" and "deliveries_part p' = deliveries_part p"
    and "decisions_part p' = decisions_part p" and "pr_cycles p' = pr_cycles p"
    and "pr_cycle_history p' = pr_cycle_history p"
  using assms by (auto elim!: commit_effects_Inr dest!: preview_memory_delta_Inr simp: parts_def)

lemma cycle_frame:
  assumes "apply_cycle H F p c = Inr p'"
  shows "events_part p' = events_part p" and "deliveries_part p' = deliveries_part p"
    and "decisions_part p' = decisions_part p"
  using assms commit_effects_frame
  by (auto elim!: apply_cycle_Inr simp: parts_def split: if_splits)

lemmas entry_frames = event_frame signal_frame outcome_frame decision_frame delivery_frame cycle_frame

end
