(* ===== verification/Event_Invariants.thy ===== *)
theory Event_Invariants
  imports Ledger_Invariants
begin

text \<open>
  The event stream of a projection: the three event indexes describe one gapless sequence, every
  causal parent precedes its child, and the event counters order the cursors of the run.
\<close>

definition event_placed :: "projection \<Rightarrow> int \<Rightarrow> trace_event \<Rightarrow> bool" where
  "event_placed p n e \<longleftrightarrow>
     ev_sequence e = n \<and> ev_run_id e = pr_run_id p \<and> valid_trace_event e \<and>
     dict_get (pr_events_by_id p) (ev_event_id e) = Some e \<and>
     dict_get (pr_events_by_source p) (ev_source_event_id e) = Some e \<and>
     (\<forall>i\<in>set (ev_parent_ids e). \<exists>q. dict_get (pr_events_by_id p) i = Some q \<and>
        ev_sequence q < ev_sequence e)"

definition events_inv :: "projection \<Rightarrow> bool" where
  "events_inv p \<longleftrightarrow>
     0 \<le> pr_ingestion_cursor p \<and>
     dict_wf (pr_events_by_sequence p) \<and> dict_wf (pr_events_by_id p) \<and> dict_wf (pr_events_by_source p) \<and>
     (\<forall>n. has_key (pr_events_by_sequence p) n \<longleftrightarrow> 1 \<le> n \<and> n \<le> pr_ingestion_cursor p) \<and>
     (\<forall>n e. dict_get (pr_events_by_sequence p) n = Some e \<longrightarrow> event_placed p n e) \<and>
     (\<forall>i e. dict_get (pr_events_by_id p) i = Some e \<longrightarrow>
        ev_event_id e = i \<and> dict_get (pr_events_by_sequence p) (ev_sequence e) = Some e) \<and>
     (\<forall>s e. dict_get (pr_events_by_source p) s = Some e \<longrightarrow>
        ev_source_event_id e = s \<and> dict_get (pr_events_by_sequence p) (ev_sequence e) = Some e)"

lemma events_inv_frame: "events_part p' = events_part p \<Longrightarrow> events_inv p \<Longrightarrow> events_inv p'"
  by (simp only: events_inv_def event_placed_def events_part_def prod.inject simp_thms) blast

lemma events_inv_empty: "events_inv (empty_projection r)"
  by (simp add: events_inv_def empty_projection_def has_key_def)

lemma events_inv_event:
  assumes inv: "events_inv p" and step: "apply_event p entry e = Inr p'"
    and e: "valid_trace_event e" "ev_run_id e = pr_run_id p"
  shows "events_inv p'"
proof -
  let ?n = "pr_ingestion_cursor p + 1"
  note s = step [unfolded apply_event_Inr]
  from s have n: "ev_sequence e = ?n" by blast
  from s have fresh: "\<not> has_key (pr_events_by_sequence p) (ev_sequence e)"
    "\<not> has_key (pr_events_by_id p) (ev_event_id e)"
    "\<not> has_key (pr_events_by_source p) (ev_source_event_id e)" by blast+
  from s have parent_keys: "\<forall>i\<in>set (ev_parent_ids e). has_key (pr_events_by_id p) i" by blast
  from s have update: "p' = p\<lparr>pr_events_by_id := dict_set (ev_event_id e) e (pr_events_by_id p),
      pr_events_by_sequence := dict_set (ev_sequence e) e (pr_events_by_sequence p),
      pr_events_by_source := dict_set (ev_source_event_id e) e (pr_events_by_source p),
      pr_event_positions := dict_set (ev_event_id e) (le_position entry) (pr_event_positions p),
      pr_ingestion_cursor := ev_sequence e\<rparr>" by blast
  have p': "pr_events_by_id p' = dict_set (ev_event_id e) e (pr_events_by_id p)"
      "pr_events_by_sequence p' = dict_set ?n e (pr_events_by_sequence p)"
      "pr_events_by_source p' = dict_set (ev_source_event_id e) e (pr_events_by_source p)"
      "pr_ingestion_cursor p' = ?n" "pr_run_id p' = pr_run_id p"
    unfolding update n by simp_all
  have seq: "ev_sequence e = ?n" "dict_get (pr_events_by_sequence p) ?n = None"
    using n fresh(1) by simp_all
  have old: "ev_sequence q \<noteq> ?n" if "dict_get (pr_events_by_sequence p) (ev_sequence q) = Some q" for q
    using that seq(2) by auto
  have parents: "\<exists>q. dict_get (pr_events_by_id p) i = Some q \<and> ev_sequence q \<le> pr_ingestion_cursor p"
    if "i \<in> set (ev_parent_ids e)" for i
  proof -
    have "has_key (pr_events_by_id p) i" using that parent_keys by blast
    then obtain q where q: "dict_get (pr_events_by_id p) i = Some q" unfolding has_key_def by blast
    then have "has_key (pr_events_by_sequence p) (ev_sequence q)"
      using inv unfolding events_inv_def has_key_def by blast
    with q inv show ?thesis unfolding events_inv_def by blast
  qed
  have ids: "ev_event_id e \<noteq> i" if "dict_get (pr_events_by_id p) i = Some q" for i q
    using that not_has_key_get [OF fresh(2)] by auto
  have sources: "ev_source_event_id e \<noteq> i" if "dict_get (pr_events_by_source p) i = Some q" for i q
    using that not_has_key_get [OF fresh(3)] by auto
  show ?thesis
    unfolding events_inv_def p'
  proof (intro conjI allI impI)
    fix n
    show "has_key (dict_set ?n e (pr_events_by_sequence p)) n \<longleftrightarrow> 1 \<le> n \<and> n \<le> ?n"
      using inv by (auto simp: events_inv_def)
  next
    fix n q
    assume q: "dict_get (dict_set ?n e (pr_events_by_sequence p)) n = Some q"
    show "event_placed p' n q"
    proof (cases "n = ?n")
      case True
      with q have q: "q = e" by simp
      have "\<exists>u. dict_get (dict_set (ev_event_id e) e (pr_events_by_id p)) i = Some u \<and>
          ev_sequence u < ev_sequence e" if "i \<in> set (ev_parent_ids e)" for i
        using parents [OF that] ids seq(1) by fastforce
      with True q seq(1) e show ?thesis unfolding event_placed_def p' by simp
    next
      case False
      with q have "dict_get (pr_events_by_sequence p) n = Some q" by simp
      with inv have r: "ev_sequence q = n" "ev_run_id q = pr_run_id p" "valid_trace_event q"
        "dict_get (pr_events_by_id p) (ev_event_id q) = Some q"
        "dict_get (pr_events_by_source p) (ev_source_event_id q) = Some q"
        and par: "\<forall>i\<in>set (ev_parent_ids q). \<exists>u. dict_get (pr_events_by_id p) i = Some u \<and>
          ev_sequence u < ev_sequence q" unfolding events_inv_def event_placed_def by blast+
      have "dict_get (dict_set (ev_event_id e) e (pr_events_by_id p)) i = Some u"
        if "dict_get (pr_events_by_id p) i = Some u" for i u using that ids by fastforce
      moreover have "dict_get (dict_set (ev_source_event_id e) e (pr_events_by_source p))
          (ev_source_event_id q) = Some q" using r(5) sources by fastforce
      ultimately show ?thesis using r par unfolding event_placed_def p' by blast
    qed
  next
    fix i q
    assume "dict_get (dict_set (ev_event_id e) e (pr_events_by_id p)) i = Some q"
    then show "ev_event_id q = i"
      "dict_get (dict_set ?n e (pr_events_by_sequence p)) (ev_sequence q) = Some q"
      using inv old seq(1) unfolding events_inv_def by (auto split: if_splits)
  next
    fix i q
    assume "dict_get (dict_set (ev_source_event_id e) e (pr_events_by_source p)) i = Some q"
    then show "ev_source_event_id q = i"
      "dict_get (dict_set ?n e (pr_events_by_sequence p)) (ev_sequence q) = Some q"
      using inv old seq(1) unfolding events_inv_def by (auto split: if_splits)
  qed (use inv in \<open>auto simp: events_inv_def\<close>)
qed

lemma reachable_events:
  assumes "reachable H F run_id p"
  shows "events_inv p"
  using assms
proof (induction rule: reachable_invariant)
  case empty
  show ?case by (rule events_inv_empty)
next
  case (entry p e p')
  from entry.hyps(4) show ?case
  proof (cases rule: apply_entry_cases)
    case (event x)
    have "valid_trace_event x" "ev_run_id x = pr_run_id p"
      using entry.hyps(2,3) unfolding event(1) valid_ledger_record_def by simp_all
    with entry.IH event(2) show ?thesis by (rule events_inv_event)
  next
    case (signal x)
    from signal_frame(1) [OF signal(2)] entry.IH show ?thesis by (rule events_inv_frame)
  next
    case (decision x)
    from decision_frame(1) [OF decision(2)] entry.IH show ?thesis by (rule events_inv_frame)
  next
    case (cycle x)
    from cycle_frame(1) [OF cycle(2)] entry.IH show ?thesis by (rule events_inv_frame)
  next
    case (outcome x)
    from outcome_frame(1) [OF outcome(2)] entry.IH show ?thesis by (rule events_inv_frame)
  next
    case (delivery x)
    from delivery_frame(1) [OF delivery(2)] entry.IH show ?thesis by (rule events_inv_frame)
  qed
qed

end
