(* ===== verification/Cycle_Invariants.thy ===== *)
theory Cycle_Invariants
  imports Event_Invariants
begin

text \<open>
  The cycles of a projection: every cycle is a legal chain of revisions, at most one is active and
  it starts right after the memory cursor, and the committed cycles partition the events up to the
  cursor, so each event is consumed exactly once.
\<close>

definition revises :: "cycle_record \<Rightarrow> cycle_record \<Rightarrow> bool" where
  "revises q c \<longleftrightarrow> cy_revision c = cy_revision q + 1 \<and>
     cycle_immutable_fields c = cycle_immutable_fields q \<and>
     cy_grounding_configuration c = cy_grounding_configuration q \<and>
     cy_updated_at q \<le> cy_updated_at c \<and>
     (cy_budget_reservation q \<noteq> None \<longrightarrow> cy_budget_reservation c = cy_budget_reservation q) \<and>
     (cy_batch_digest q \<noteq> None \<longrightarrow> cy_batch_digest c = cy_batch_digest q) \<and>
     cy_state c \<in> set (cycle_transitions (cy_state q))"

lemma successor_revises: "guards_pass (cycle_successor_checks q c) \<Longrightarrow> revises q c"
  by (auto simp: cycle_successor_checks_def revises_def)

lemma revises_from_active: "revises q c \<Longrightarrow> active_cycle q"
  by (cases "cy_state q") (auto simp: revises_def active_cycle_def)

lemma revises_range:
  "revises q c \<Longrightarrow> cy_first_event_sequence c = cy_first_event_sequence q \<and>
     cy_last_event_sequence c = cy_last_event_sequence q \<and>
     cy_invocation_decision_id c = cy_invocation_decision_id q"
  by (simp add: revises_def cycle_immutable_fields_def)

definition covers :: "cycle_record \<Rightarrow> int \<Rightarrow> bool" where
  "covers c n \<longleftrightarrow> cy_state c = Cycle_COMMITTED \<and> cy_first_event_sequence c \<le> n \<and> n \<le> cy_last_event_sequence c"

definition latest_cycle_ok :: "hash_fun \<Rightarrow> projection \<Rightarrow> digest \<Rightarrow> cycle_record \<Rightarrow> bool" where
  "latest_cycle_ok H p i c \<longleftrightarrow> cy_cycle_id c = i \<and> valid_cycle_record H c \<and>
     dict_get (pr_cycle_history p) (i, cy_revision c) = Some c \<and>
     1 \<le> cy_first_event_sequence c \<and> cy_first_event_sequence c \<le> cy_last_event_sequence c \<and>
     cy_last_event_sequence c \<le> pr_ingestion_cursor p \<and>
     (active_cycle c \<longrightarrow> cy_first_event_sequence c = pr_memory_cursor p + 1) \<and>
     (cy_state c = Cycle_COMMITTED \<longrightarrow> cy_last_event_sequence c \<le> pr_memory_cursor p)"

definition cycle_revision_ok :: "hash_fun \<Rightarrow> projection \<Rightarrow> digest \<Rightarrow> int \<Rightarrow> cycle_record \<Rightarrow> bool" where
  "cycle_revision_ok H p i n c \<longleftrightarrow> cy_cycle_id c = i \<and> cy_revision c = n \<and> 1 \<le> n \<and>
     valid_cycle_record H c \<and>
     (\<exists>l. dict_get (pr_cycles p) i = Some l \<and> n \<le> cy_revision l) \<and>
     (if n = 1 then cy_state c = Cycle_PENDING
      else \<exists>q. dict_get (pr_cycle_history p) (i, n - 1) = Some q \<and> revises q c)"

definition cycles_inv :: "hash_fun \<Rightarrow> projection \<Rightarrow> bool" where
  "cycles_inv H p \<longleftrightarrow>
     0 \<le> pr_memory_cursor p \<and> pr_memory_cursor p \<le> pr_ingestion_cursor p \<and>
     dict_wf (pr_cycles p) \<and> dict_wf (pr_cycle_history p) \<and>
     (\<forall>i c. dict_get (pr_cycles p) i = Some c \<longrightarrow> latest_cycle_ok H p i c) \<and>
     (\<forall>i n c. dict_get (pr_cycle_history p) (i, n) = Some c \<longrightarrow> cycle_revision_ok H p i n c) \<and>
     (\<forall>i j c d. dict_get (pr_cycles p) i = Some c \<longrightarrow> dict_get (pr_cycles p) j = Some d \<longrightarrow>
        active_cycle c \<longrightarrow> active_cycle d \<longrightarrow> i = j) \<and>
     (\<forall>i j c d. dict_get (pr_cycles p) i = Some c \<longrightarrow> dict_get (pr_cycles p) j = Some d \<longrightarrow>
        cy_invocation_decision_id c = cy_invocation_decision_id d \<longrightarrow> i = j) \<and>
     (\<forall>n. 1 \<le> n \<and> n \<le> pr_memory_cursor p \<longrightarrow>
        (\<exists>i c. dict_get (pr_cycles p) i = Some c \<and> covers c n)) \<and>
     (\<forall>n i j c d. dict_get (pr_cycles p) i = Some c \<longrightarrow> dict_get (pr_cycles p) j = Some d \<longrightarrow>
        covers c n \<longrightarrow> covers d n \<longrightarrow> i = j)"

lemma cycles_inv_empty: "cycles_inv H (empty_projection r)"
  by (simp add: cycles_inv_def empty_projection_def)

lemma cycles_inv_grow:
  assumes "cycles_part p' = cycles_part p" and "pr_ingestion_cursor p \<le> pr_ingestion_cursor p'"
    and "cycles_inv H p"
  shows "cycles_inv H p'"
proof -
  from assms(1) have same: "pr_cycles p' = pr_cycles p" "pr_cycle_history p' = pr_cycle_history p"
    "pr_memory_cursor p' = pr_memory_cursor p" by (simp_all add: cycles_part_def)
  have "latest_cycle_ok H p' i c" if "latest_cycle_ok H p i c" for i c
    using that assms(2) by (simp add: latest_cycle_ok_def same)
  moreover have "cycle_revision_ok H p' i n c \<longleftrightarrow> cycle_revision_ok H p i n c" for i n c
    by (simp add: cycle_revision_ok_def same)
  ultimately show ?thesis
    using assms(2,3) unfolding cycles_inv_def same by (meson order_trans)
qed


lemma cycles_inv_frame:
  "cycles_part p' = cycles_part p \<Longrightarrow> events_part p' = events_part p \<Longrightarrow> cycles_inv H p \<Longrightarrow> cycles_inv H p'"
  by (rule cycles_inv_grow) (simp_all add: events_part_def)

text \<open>What applying one cycle record does to the cycles, in terms of the record it replaces.\<close>

lemma apply_cycle_effect:
  assumes "apply_cycle H F p c = Inr p'"
  shows "pr_cycles p' = dict_set (cy_cycle_id c) c (pr_cycles p)"
    and "pr_cycle_history p' = dict_set (cy_cycle_id c, cy_revision c) c (pr_cycle_history p)"
    and "pr_memory_cursor p' =
      (if cy_state c = Cycle_COMMITTED then cy_last_event_sequence c else pr_memory_cursor p)"
    and "pr_ingestion_cursor p' = pr_ingestion_cursor p"
    and "cy_state c = Cycle_COMMITTED \<Longrightarrow> cy_first_event_sequence c = pr_memory_cursor p + 1"
    and "\<not> has_key (pr_cycle_history p) (cy_cycle_id c, cy_revision c)"
    and "cy_first_event_sequence c \<le> cy_last_event_sequence c \<Longrightarrow>
      has_key (pr_events_by_sequence p) (cy_last_event_sequence c)"
  using assms
  by (auto elim!: apply_cycle_Inr commit_effects_Inr dest!: preview_memory_delta_Inr split: if_splits)

lemma apply_cycle_previous:
  assumes "apply_cycle H F p c = Inr p'" and "dict_wf (pr_cycles p)"
  shows "case dict_get (pr_cycles p) (cy_cycle_id c) of
      None \<Rightarrow> cy_revision c = 1 \<and> cy_state c = Cycle_PENDING \<and>
        cy_first_event_sequence c = pr_memory_cursor p + 1 \<and>
        (\<forall>j d. dict_get (pr_cycles p) j = Some d \<longrightarrow>
           cy_invocation_decision_id d \<noteq> cy_invocation_decision_id c \<and> \<not> active_cycle d)
    | Some q \<Rightarrow> revises q c"
proof -
  from assms(1) have "cycle_guards p c (dict_get (pr_cycles p) (cy_cycle_id c))"
    by (rule apply_cycle_Inr)
  then show ?thesis
    using in_dict_values_iff [OF assms(2)]
    by (auto simp: cycle_guards_def successor_revises cycle_begin_checks_def list_ex_iff split: option.splits)
qed

lemma revision_kept:
  assumes "cycle_revision_ok H p i n d"
    and "pr_cycles p' = dict_set (cy_cycle_id c) c (pr_cycles p)"
    and "pr_cycle_history p' = dict_set (cy_cycle_id c, cy_revision c) c (pr_cycle_history p)"
    and "\<not> has_key (pr_cycle_history p) (cy_cycle_id c, cy_revision c)"
    and "\<And>q. dict_get (pr_cycles p) (cy_cycle_id c) = Some q \<Longrightarrow> cy_revision q \<le> cy_revision c"
  shows "cycle_revision_ok H p' i n d"
  using assms not_has_key_get [OF assms(4)] unfolding cycle_revision_ok_def
  by (fastforce split: if_splits)

lemma cycles_inv_cycle:
  assumes inv: "cycles_inv H p" and ev: "events_inv p" and step: "apply_cycle H F p c = Inr p'"
    and c: "valid_cycle_record H c"
  shows "cycles_inv H p'"
proof -
  let ?i = "cy_cycle_id c"
  note eff = apply_cycle_effect [OF step]
  have wf: "dict_wf (pr_cycles p)" using inv by (simp add: cycles_inv_def)
  note prev = apply_cycle_previous [OF step wf]
  have latest: "\<And>i d. dict_get (pr_cycles p) i = Some d \<Longrightarrow> latest_cycle_ok H p i d"
    and hist: "\<And>i n d. dict_get (pr_cycle_history p) (i, n) = Some d \<Longrightarrow> cycle_revision_ok H p i n d"
    and one: "\<And>i j a b. dict_get (pr_cycles p) i = Some a \<Longrightarrow> dict_get (pr_cycles p) j = Some b \<Longrightarrow>
      active_cycle a \<Longrightarrow> active_cycle b \<Longrightarrow> i = j"
    and dec: "\<And>i j a b. dict_get (pr_cycles p) i = Some a \<Longrightarrow> dict_get (pr_cycles p) j = Some b \<Longrightarrow>
      cy_invocation_decision_id a = cy_invocation_decision_id b \<Longrightarrow> i = j"
    and cov: "\<And>n. 1 \<le> n \<Longrightarrow> n \<le> pr_memory_cursor p \<Longrightarrow> \<exists>i d. dict_get (pr_cycles p) i = Some d \<and> covers d n"
    and disj: "\<And>n i j a b. dict_get (pr_cycles p) i = Some a \<Longrightarrow> dict_get (pr_cycles p) j = Some b \<Longrightarrow>
      covers a n \<Longrightarrow> covers b n \<Longrightarrow> i = j"
    using inv unfolding cycles_inv_def by blast+
  have range: "1 \<le> cy_first_event_sequence c" "cy_first_event_sequence c \<le> cy_last_event_sequence c"
    "1 \<le> cy_revision c"
    using c by (auto simp: valid_cycle_record_def cycle_fields_ok_def cycle_identity_ok_def)
  have last: "cy_last_event_sequence c \<le> pr_ingestion_cursor p"
    using eff(7) range(2) ev by (simp add: events_inv_def)
  have first: "active_cycle c \<or> cy_state c = Cycle_COMMITTED \<Longrightarrow>
      cy_first_event_sequence c = pr_memory_cursor p + 1"
    and alone: "dict_get (pr_cycles p) j = Some d \<Longrightarrow> j \<noteq> ?i \<Longrightarrow> \<not> active_cycle d"
    and own: "dict_get (pr_cycles p) j = Some d \<Longrightarrow> j \<noteq> ?i \<Longrightarrow>
      cy_invocation_decision_id d \<noteq> cy_invocation_decision_id c" for j d
  proof -
    show "cy_first_event_sequence c = pr_memory_cursor p + 1" if "active_cycle c \<or> cy_state c = Cycle_COMMITTED"
    proof (cases "dict_get (pr_cycles p) ?i")
      case None
      with prev show ?thesis by simp
    next
      case (Some q)
      with prev have "revises q c" by simp
      with latest [OF Some] revises_from_active revises_range show ?thesis by (simp add: latest_cycle_ok_def)
    qed
    show "\<not> active_cycle d" if "dict_get (pr_cycles p) j = Some d" "j \<noteq> ?i"
      using prev that one revises_from_active by (auto split: option.splits)
    show "cy_invocation_decision_id d \<noteq> cy_invocation_decision_id c"
      if "dict_get (pr_cycles p) j = Some d" "j \<noteq> ?i"
      using prev that dec revises_range by (fastforce split: option.splits)
  qed
  have inactive_committed: "\<not> active_cycle c" if "cy_state c = Cycle_COMMITTED"
    using that by (simp add: active_cycle_def)
  have old_cover: "n \<le> pr_memory_cursor p" if "dict_get (pr_cycles p) j = Some d" "covers d n" for j d n
    using that latest [OF that(1)] by (auto simp: latest_cycle_ok_def covers_def)
  have own_cover: "\<not> covers d n" if "dict_get (pr_cycles p) ?i = Some d" for d n
  proof -
    have "active_cycle d" using prev that revises_from_active by simp
    then show ?thesis by (auto simp: active_cycle_def covers_def)
  qed
  have cursor: "pr_memory_cursor p \<le> pr_memory_cursor p'" "0 \<le> pr_memory_cursor p"
    "pr_memory_cursor p' \<le> pr_ingestion_cursor p'"
    using eff(3,4) first range(2) last inv by (auto simp: cycles_inv_def)
  have le: "cy_revision q \<le> cy_revision c" if "dict_get (pr_cycles p) ?i = Some q" for q
    using prev that by (simp add: revises_def)
  have latest': "latest_cycle_ok H p' j d" if "dict_get (pr_cycles p') j = Some d" for j d
  proof (cases "j = ?i")
    case True
    with that have "d = c" by (simp add: eff(1))
    with True c range last first inactive_committed show ?thesis
      by (simp add: latest_cycle_ok_def eff(2-4))
  next
    case False
    with that have d: "dict_get (pr_cycles p) j = Some d" by (simp add: eff(1))
    from latest [OF d] alone [OF d False] False cursor(1) show ?thesis
      by (auto simp: latest_cycle_ok_def eff(2,4))
  qed
  have hist': "cycle_revision_ok H p' j n d" if d: "dict_get (pr_cycle_history p') (j, n) = Some d" for j n d
  proof (cases "(j, n) = (?i, cy_revision c)")
    case True
    with d have "d = c" by (simp add: eff(2))
    moreover have "if n = 1 then cy_state c = Cycle_PENDING
      else \<exists>q. dict_get (pr_cycle_history p') (j, n - 1) = Some q \<and> revises q c"
    proof (cases "dict_get (pr_cycles p) ?i")
      case None
      with prev True show ?thesis by simp
    next
      case (Some q)
      with prev have "revises q c" by simp
      with latest [OF Some] hist [of ?i "cy_revision q" q] True show ?thesis
        by (auto simp: eff(2) latest_cycle_ok_def cycle_revision_ok_def revises_def)
    qed
    ultimately show ?thesis using True c range(3) by (auto simp: cycle_revision_ok_def eff(1) split: if_splits)
  next
    case False
    with d have "dict_get (pr_cycle_history p) (j, n) = Some d" by (auto simp: eff(2) split: if_splits)
    from revision_kept [OF hist [OF this] eff(1,2,6) le] show ?thesis .
  qed
  have cov': "\<exists>j d. dict_get (pr_cycles p') j = Some d \<and> covers d n" if n: "1 \<le> n" "n \<le> pr_memory_cursor p'" for n
  proof (cases "n \<le> pr_memory_cursor p")
    case True
    with cov n(1) obtain j d where "dict_get (pr_cycles p) j = Some d" "covers d n" by blast
    with own_cover have "dict_get (pr_cycles p') j = Some d" by (auto simp: eff(1))
    with \<open>covers d n\<close> show ?thesis by blast
  next
    case False
    with n eff(3,5) have "covers c n" by (auto simp: covers_def split: if_splits)
    then show ?thesis by (auto simp: eff(1))
  qed
  have lookup: "j = ?i \<and> d = c \<or> j \<noteq> ?i \<and> dict_get (pr_cycles p) j = Some d"
    if "dict_get (pr_cycles p') j = Some d" for j d
    using that by (auto simp: eff(1) split: if_splits)
  have new_cover: "pr_memory_cursor p < n" if "covers c n" for n
    using that first by (auto simp: covers_def)
  show ?thesis
    unfolding cycles_inv_def
  proof (intro conjI allI impI)
    show "0 \<le> pr_memory_cursor p'" "pr_memory_cursor p' \<le> pr_ingestion_cursor p'" using cursor by auto
    show "dict_wf (pr_cycles p')" "dict_wf (pr_cycle_history p')" using inv by (auto simp: eff(1,2) cycles_inv_def)
  next
    fix i j a b
    assume "dict_get (pr_cycles p') i = Some a" "dict_get (pr_cycles p') j = Some b" "active_cycle a" "active_cycle b"
    then show "i = j" using one alone lookup by metis
  next
    fix i j a b
    assume "dict_get (pr_cycles p') i = Some a" "dict_get (pr_cycles p') j = Some b"
      "cy_invocation_decision_id a = cy_invocation_decision_id b"
    then show "i = j" using dec own lookup by metis
  next
    fix n i j a b
    assume "dict_get (pr_cycles p') i = Some a" "dict_get (pr_cycles p') j = Some b" "covers a n" "covers b n"
    then show "i = j" using disj new_cover old_cover lookup by (metis not_less)
  qed (use latest' hist' cov' in auto)
qed

lemma reachable_cycles:
  assumes "reachable H F run_id p"
  shows "cycles_inv H p"
  using assms
proof (induction rule: reachable_invariant)
  case empty
  show ?case by (rule cycles_inv_empty)
next
  case (entry p e p')
  have ev: "events_inv p" using entry.hyps(1) by (rule reachable_events)
  from entry.hyps(4) show ?case
  proof (cases rule: apply_entry_cases)
    case (event x)
    have "pr_ingestion_cursor p \<le> pr_ingestion_cursor p'" using event_cursor [OF event(2)] by simp
    with event_frame(1) [OF event(2)] show ?thesis using entry.IH by (rule cycles_inv_grow)
  next
    case (cycle x)
    have "valid_cycle_record H x" using entry.hyps(2) unfolding cycle(1) valid_ledger_record_def by simp
    with entry.IH ev cycle(2) show ?thesis by (rule cycles_inv_cycle)
  next
    case (signal x)
    from signal_frame(2,1) [OF signal(2)] entry.IH show ?thesis by (rule cycles_inv_frame)
  next
    case (decision x)
    from decision_frame(2,1) [OF decision(2)] entry.IH show ?thesis by (rule cycles_inv_frame)
  next
    case (outcome x)
    from outcome_frame(2,1) [OF outcome(2)] entry.IH show ?thesis by (rule cycles_inv_frame)
  next
    case (delivery x)
    from delivery_frame(2,1) [OF delivery(2)] entry.IH show ?thesis by (rule cycles_inv_frame)
  qed
qed

end
