(* ===== verification/Budget_Ledger.thy ===== *)
theory Budget_Ledger
  imports Cycle_Invariants
begin

text \<open>
  The budget a ledger implies: the reservations of the active cycle and the settlements of the
  finished ones, summed over the projection. Every entry the projector accepts keeps the sums within
  the run's limits, so the snapshot it derives always validates.
\<close>

definition held :: "budget_field \<Rightarrow> cycle_record \<Rightarrow> int" where
  "held f c = (case active_reservation c of None \<Rightarrow> 0 | Some a \<Rightarrow> amount f a)"

definition spent :: "budget_field \<Rightarrow> cycle_record \<Rightarrow> int" where
  "spent f c = (case final_settlement c of None \<Rightarrow> 0 | Some a \<Rightarrow> amount f a)"

definition committed_budget :: "budget_field \<Rightarrow> projection \<Rightarrow> int" where
  "committed_budget f p = (\<Sum>c\<leftarrow>dict_values (pr_cycles p). held f c + spent f c)"

definition budget_inv :: "projection \<Rightarrow> bool" where
  "budget_inv p \<longleftrightarrow>
     (case pr_budget_limits p of
        None \<Rightarrow> pr_decisions p = [] \<and> pr_cycles p = []
      | Some l \<Rightarrow> valid_budget_limits l \<and> (\<forall>f. committed_budget f p \<le> amount f l))"

lemma amount_add_amounts:
  "amount f (add_amounts (List.map_filter g xs)) =
     (\<Sum>x\<leftarrow>xs. case g x of None \<Rightarrow> 0 | Some a \<Rightarrow> amount f a)"
  by (induction xs) (auto simp: add_amounts_def map_filter_simps split: option.splits)

lemma snapshot_sums:
  "amount f (add_amounts (List.map_filter active_reservation (dict_values (pr_cycles p)))) +
   amount f (add_amounts (List.map_filter final_settlement (dict_values (pr_cycles p)))) =
     committed_budget f p"
  by (simp add: amount_add_amounts committed_budget_def held_def spent_def sum_list_addf)

lemma held_spent_nonneg:
  assumes "valid_cycle_record H c"
  shows "0 \<le> held f c" and "0 \<le> spent f c"
proof -
  have "opt_all valid_budget_amounts (cy_budget_reservation c)" "opt_all valid_budget_amounts (cy_budget_settlement c)"
    using assms by (simp_all add: valid_cycle_record_def cycle_fields_ok_def)
  then show "0 \<le> held f c" "0 \<le> spent f c"
    by (auto simp: held_def spent_def active_reservation_def final_settlement_def opt_all_def
        valid_budget_amounts_def list_all_fields split: option.splits)
qed

lemma derived_snapshot_valid:
  assumes "cycles_inv H p" and "pr_budget_limits p = Some l" and "valid_budget_limits l"
    and "\<forall>f. committed_budget f p \<le> amount f l"
  shows "\<exists>s. budget_snapshot_of p None = Inr s \<and> limits s = l \<and>
    (\<forall>f. amount f (reserved s) + amount f (consumed s) = committed_budget f p) \<and> valid_budget_snapshot s"
proof -
  have valid: "valid_cycle_record H c" if "c \<in> set (dict_values (pr_cycles p))" for c
    using assms(1) that in_dict_values_iff [of "pr_cycles p" c]
    by (auto simp: cycles_inv_def latest_cycle_ok_def)
  let ?r = "add_amounts (List.map_filter active_reservation (dict_values (pr_cycles p)))"
  let ?c = "add_amounts (List.map_filter final_settlement (dict_values (pr_cycles p)))"
  have "0 \<le> amount f ?r" "0 \<le> amount f ?c" for f
    using held_spent_nonneg [OF valid, of _ f]
    by (auto simp: amount_add_amounts held_def spent_def intro!: sum_list_nonneg)
  then have "valid_budget_snapshot \<lparr>limits = l, reserved = ?r, consumed = ?c\<rparr>"
    using assms(3,4) by (simp add: valid_budget_snapshot_def valid_budget_amounts_def list_all_fields snapshot_sums)
  then show ?thesis
    using assms(2) by (simp add: budget_snapshot_of_def snapshot_sums)
qed

text \<open>One accepted cycle record never adds more than was free.\<close>

lemma reservation_fits:
  assumes "reservation_check p c previous = Inr ()" and "cy_budget_reservation c = Some r"
    and "\<And>q. previous = Some q \<Longrightarrow> cy_budget_reservation q = None" and "pr_budget_limits p = Some l"
  shows "amount f r \<le> amount f l - committed_budget f p"
proof -
  let ?r = "add_amounts (List.map_filter active_reservation (dict_values (pr_cycles p)))"
  let ?c = "add_amounts (List.map_filter final_settlement (dict_values (pr_cycles p)))"
  have "(case previous of None \<Rightarrow> False | Some q \<Rightarrow> cy_budget_reservation q \<noteq> None) = False"
    using assms(3) by (auto split: option.splits)
  with assms(1,2,4) have "\<not> list_ex (\<lambda>f. amount f r > amount f l - amount f ?r - amount f ?c) budget_fields"
    by (auto simp: reservation_check_def budget_snapshot_of_def bind_result_Inr checks_Inr Let_def split: if_splits)
  then have "list_all (\<lambda>f. amount f r \<le> amount f l - amount f ?r - amount f ?c) budget_fields"
    by (simp add: list_ex_iff list_all_iff not_less)
  then have "amount f r \<le> amount f l - amount f ?r - amount f ?c" by (simp add: list_all_fields)
  then show ?thesis using snapshot_sums [of f p] by linarith
qed

lemma settlement_within:
  assumes "valid_cycle_record H c" and "cy_budget_settlement c = Some s" and "cy_budget_reservation c = Some r"
  shows "amount f s \<le> amount f r"
proof -
  have "list_all (\<lambda>f. amount f s \<le> amount f r) budget_fields"
    using assms by (auto simp: valid_cycle_record_def cycle_budget_ok_def list_ex_iff list_all_iff not_less)
  then show ?thesis by (simp add: list_all_fields)
qed


lemma revision_charges_no_more:
  assumes q: "valid_cycle_record H q" and c: "valid_cycle_record H c" and step: "revises q c"
    and guards: "guards_pass (cycle_successor_checks q c)"
    and "\<not> (cy_state q = Cycle_PENDING \<and> cy_state c = Cycle_RESERVED)"
  shows "held f c + spent f c \<le> held f q + spent f q"
proof -
  have state: "cycle_state_ok q" "cycle_state_ok c" using q c by (simp_all add: valid_cycle_record_def)
  have trans: "cy_state c \<in> set (cycle_transitions (cy_state q))" using step by (simp add: revises_def)
  show ?thesis
  proof (cases "cy_state q")
    case Cycle_PENDING
    then have "cy_state c = Cycle_FAILED" using trans assms(5) by auto
    moreover from this Cycle_PENDING guards have "cy_budget_settlement c = None"
      by (simp add: cycle_successor_checks_def)
    ultimately show ?thesis
      using held_spent_nonneg [OF q, of f]
      by (simp add: held_def spent_def active_reservation_def final_settlement_def)
  next
    case Cycle_RESERVED
    then obtain r where r: "cy_budget_reservation q = Some r" using state(1) by (auto simp: cycle_state_ok_def)
    then have r': "cy_budget_reservation c = Some r" using step by (simp add: revises_def)
    have "held f q + spent f q = amount f r"
      using Cycle_RESERVED r by (simp add: held_def spent_def active_reservation_def final_settlement_def)
    moreover have "held f c + spent f c \<le> amount f r"
    proof (cases "cy_budget_settlement c")
      case None
      then show ?thesis using trans Cycle_RESERVED r' state(2)
        by (auto simp: held_def spent_def active_reservation_def final_settlement_def cycle_state_ok_def failed_cycle_ok_def)
    next
      case (Some s)
      then show ?thesis using trans Cycle_RESERVED r' settlement_within [OF c Some r', of f] state(2)
        by (auto simp: held_def spent_def active_reservation_def final_settlement_def)
    qed
    ultimately show ?thesis by simp
  next
    case Cycle_RUNNING
    then obtain r where r: "cy_budget_reservation q = Some r" using state(1) by (auto simp: cycle_state_ok_def)
    then have r': "cy_budget_reservation c = Some r" using step by (simp add: revises_def)
    have "held f q + spent f q = amount f r"
      using Cycle_RUNNING r by (simp add: held_def spent_def active_reservation_def final_settlement_def)
    moreover obtain s where s: "cy_budget_settlement c = Some s"
      using trans Cycle_RUNNING r' state(2)
      by (cases "cy_budget_settlement c") (auto simp: cycle_state_ok_def failed_cycle_ok_def)
    moreover have "held f c + spent f c = amount f s"
      using trans Cycle_RUNNING s by (auto simp: held_def spent_def active_reservation_def final_settlement_def)
    ultimately show ?thesis using settlement_within [OF c s r', of f] by simp
  qed (use trans in simp_all)
qed

lemma begin_charges_nothing:
  "cy_state c = Cycle_PENDING \<Longrightarrow> held f c + spent f c = 0"
  by (simp add: held_def spent_def active_reservation_def final_settlement_def)

lemma reserve_charges_what_fits:
  assumes q: "valid_cycle_record H q" and "cy_state q = Cycle_PENDING" and "cy_state c = Cycle_RESERVED"
    and "reservation_check p c (Some q) = Inr ()" and "pr_budget_limits p = Some l"
    and c: "valid_cycle_record H c"
  shows "held f c + spent f c \<le> amount f l - committed_budget f p" and "held f q + spent f q = 0"
proof -
  obtain r where r: "cy_budget_reservation c = Some r"
    using c assms(3) by (auto simp: valid_cycle_record_def cycle_state_ok_def)
  have "cy_budget_reservation q = None"
    using q assms(2) by (simp add: valid_cycle_record_def cycle_state_ok_def)
  then have "amount f r \<le> amount f l - committed_budget f p"
    using reservation_fits [OF assms(4) r _ assms(5)] by blast
  then show "held f c + spent f c \<le> amount f l - committed_budget f p"
    using r assms(3) by (simp add: held_def spent_def active_reservation_def final_settlement_def)
  show "held f q + spent f q = 0" using assms(2) by (rule begin_charges_nothing)
qed

lemma budget_inv_cycle:
  assumes inv: "budget_inv p" and cyc: "cycles_inv H p" and step: "apply_cycle H F p c = Inr p'"
    and c: "valid_cycle_record H c"
  shows "budget_inv p'"
proof -
  have wf: "dict_wf (pr_cycles p)" using cyc by (simp add: cycles_inv_def)
  obtain d where d: "dict_get (pr_decisions p) (cy_invocation_decision_id c) = Some d"
    "validate_cycle_budget p d c (dict_get (pr_cycles p) (cy_cycle_id c)) = Inr ()"
    and guards: "cycle_guards p c (dict_get (pr_cycles p) (cy_cycle_id c))"
    using step by (rule apply_cycle_Inr)
  obtain l where l: "pr_budget_limits p = Some l" "valid_budget_limits l" "\<And>f. committed_budget f p \<le> amount f l"
    using inv d(1) by (auto simp: budget_inv_def split: option.splits)
  have reserve: "reservation_check p c (dict_get (pr_cycles p) (cy_cycle_id c)) = Inr ()"
    using d(2) by (auto simp: validate_cycle_budget_def bind_result_Inr)
  have same: "pr_budget_limits p' = Some l"
    using cycle_frame(3) [OF step] l(1) by (simp add: decisions_part_def)
  have "committed_budget f p' \<le> amount f l" for f
  proof (cases "dict_get (pr_cycles p) (cy_cycle_id c)")
    case None
    then have "cy_state c = Cycle_PENDING" using apply_cycle_previous [OF step wf] by simp
    then have "committed_budget f p' = committed_budget f p"
      using sum_list_dict_set_new [of "pr_cycles p" "cy_cycle_id c" "\<lambda>c. held f c + spent f c" c] None
        begin_charges_nothing [of c f]
      by (simp add: committed_budget_def apply_cycle_effect(1) [OF step] no_key)
    then show ?thesis using l(3) by simp
  next
    case (Some q)
    have q: "valid_cycle_record H q" using cyc Some by (auto simp: cycles_inv_def latest_cycle_ok_def)
    have succ: "guards_pass (cycle_successor_checks q c)" using guards Some by (simp add: cycle_guards_def)
    have sum: "committed_budget f p' = committed_budget f p - (held f q + spent f q) + (held f c + spent f c)"
      using sum_list_dict_set_old [OF wf Some, of "\<lambda>c. held f c + spent f c" c]
      by (simp add: committed_budget_def apply_cycle_effect(1) [OF step])
    show ?thesis
    proof (cases "cy_state q = Cycle_PENDING \<and> cy_state c = Cycle_RESERVED")
      case True
      then show ?thesis
        using reserve_charges_what_fits [OF q _ _ _ l(1) c, of f] reserve Some sum by simp
    next
      case False
      then show ?thesis
        using revision_charges_no_more [OF q c successor_revises [OF succ] succ, of f] sum l(3) [of f] by simp
    qed
  qed
  then show ?thesis using same l(2) by (simp add: budget_inv_def)
qed

lemma budget_inv_decision:
  assumes "budget_inv p" and "apply_decision p d = Inr p'"
  shows "budget_inv p'"
proof -
  obtain run_limits where known: "pr_budget_limits p = None \<or> pr_budget_limits p = Some run_limits"
    and snap: "budget_snapshot_of p (Some run_limits) = Inr (id_budget_snapshot d)"
    and p': "p' = p\<lparr>pr_decisions := dict_set (id_decision_id d) d (pr_decisions p),
      pr_budget_limits := Some run_limits\<rparr>"
    using apply_decision_Inr [OF assms(2)] by blast
  have "valid_budget_limits run_limits"
    "\<forall>f. amount f (reserved (id_budget_snapshot d)) + amount f (consumed (id_budget_snapshot d)) \<le> amount f run_limits"
    using snap unfolding budget_snapshot_of_Inr
    by (auto simp: valid_budget_snapshot_def list_all_fields)
  moreover have "committed_budget f p' = amount f (reserved (id_budget_snapshot d)) + amount f (consumed (id_budget_snapshot d))" for f
    using snap snapshot_sums [of f p] unfolding budget_snapshot_of_Inr
    by (simp add: p' committed_budget_def)
  ultimately show ?thesis by (simp add: budget_inv_def p')
qed

lemma budget_inv_frame:
  "decisions_part p' = decisions_part p \<Longrightarrow> cycles_part p' = cycles_part p \<Longrightarrow> budget_inv p \<Longrightarrow> budget_inv p'"
  by (simp add: decisions_part_def cycles_part_def budget_inv_def committed_budget_def split: option.splits)

lemma reachable_budget:
  assumes "reachable H F run_id p"
  shows "budget_inv p"
  using assms
proof (induction rule: reachable_invariant)
  case empty
  show ?case by (simp add: budget_inv_def empty_projection_def)
next
  case (entry p e p')
  from entry.hyps(4) show ?case
  proof (cases rule: apply_entry_cases)
    case (cycle x)
    have "valid_cycle_record H x" using entry.hyps(2) unfolding cycle(1) valid_ledger_record_def by simp
    with entry.IH reachable_cycles [OF entry.hyps(1)] cycle(2) show ?thesis by (rule budget_inv_cycle)
  next
    case (decision x)
    from entry.IH decision(2) show ?thesis by (rule budget_inv_decision)
  next
    case (event x)
    from event_frame(4,1) [OF event(2)] entry.IH show ?thesis by (rule budget_inv_frame)
  next
    case (signal x)
    from signal_frame(5,2) [OF signal(2)] entry.IH show ?thesis by (rule budget_inv_frame)
  next
    case (outcome x)
    from outcome_frame(5,2) [OF outcome(2)] entry.IH show ?thesis by (rule budget_inv_frame)
  next
    case (delivery x)
    from delivery_frame(4,2) [OF delivery(2)] entry.IH show ?thesis by (rule budget_inv_frame)
  qed
qed

end
