(* ===== verification/Delivery_Invariants.thy ===== *)
theory Delivery_Invariants
  imports Cycle_Invariants
begin

text \<open>
  The deliveries of a projection: each is a chain of legal revisions that starts pending, belongs to
  the committed reminder of exactly one intervention and carries the digest of its text. Owner
  tokens are never reused, and a delivery whose adapter does not deduplicate is attempted at most
  once.
\<close>

definition delivery_revises :: "delivery_record \<Rightarrow> delivery_record \<Rightarrow> bool" where
  "delivery_revises q d \<longleftrightarrow> dv_revision d = dv_revision q + 1 \<and>
     delivery_immutable_fields d = delivery_immutable_fields q \<and>
     dv_updated_at q \<le> dv_updated_at d \<and>
     dv_state d \<in> set (delivery_transitions (dv_state q)) \<and>
     (dv_state d = Delivery_CLAIMED \<and> dv_state q = Delivery_UNKNOWN \<longrightarrow> dv_adapter_deduplicates d) \<and>
     (dv_state d = Delivery_ATTEMPTING \<longrightarrow>
        dv_attempt_count d = dv_attempt_count q + 1 \<and> dv_claim_id d = dv_claim_id q) \<and>
     (dv_state d \<notin> {Delivery_CLAIMED, Delivery_ATTEMPTING} \<longrightarrow> dv_attempt_count d = dv_attempt_count q) \<and>
     (dv_state d \<in> {Delivery_DELIVERED, Delivery_FAILED, Delivery_UNKNOWN} \<longrightarrow>
        dv_claim_id d = dv_claim_id q \<and> dv_attempt_id d = dv_attempt_id q)"

lemma delivery_successor_revises:
  "guards_pass (delivery_successor_checks p q d) \<Longrightarrow> dv_revision d = dv_revision q + 1 \<Longrightarrow> delivery_revises q d"
  by (auto simp: delivery_successor_checks_def delivery_revises_def)

definition delivery_authorized :: "hash_fun \<Rightarrow> projection \<Rightarrow> delivery_record \<Rightarrow> bool" where
  "delivery_authorized H p d \<longleftrightarrow>
     (\<exists>c i t. dict_get (pr_cycles p) (dv_cycle_id d) = Some c \<and> cy_state c = Cycle_COMMITTED \<and>
        cy_intervention c = Some i \<and> dict_get (pr_interventions p) (dv_intervention_id d) = Some i \<and>
        iv_action i = Action_REMIND \<and> iv_delivery_target i = Some (dv_target d) \<and>
        iv_rendered_text i = Some t \<and> dv_rendered_text_digest d = text_digest H t)"

definition delivery_revision_ok :: "projection \<Rightarrow> uuid \<Rightarrow> int \<Rightarrow> delivery_record \<Rightarrow> bool" where
  "delivery_revision_ok p i n d \<longleftrightarrow> dv_delivery_id d = i \<and> dv_revision d = n \<and> 1 \<le> n \<and>
     valid_delivery_record d \<and>
     (\<exists>l. dict_get (pr_deliveries p) i = Some l \<and> n \<le> dv_revision l) \<and>
     (if n = 1 then dv_state d = Delivery_PENDING
      else \<exists>q. dict_get (pr_delivery_history p) (i, n - 1) = Some q \<and> delivery_revises q d)"

definition attempts :: "uuid \<Rightarrow> projection \<Rightarrow> int" where
  "attempts i p =
     int (length (filter (\<lambda>(k, d). fst k = i \<and> dv_state d = Delivery_ATTEMPTING) (pr_delivery_history p)))"

definition fresh_owners :: "projection \<Rightarrow> bool" where
  "fresh_owners p \<longleftrightarrow>
     (\<forall>k k' d d'. dict_get (pr_delivery_history p) k = Some d \<longrightarrow>
        dict_get (pr_delivery_history p) k' = Some d' \<longrightarrow>
        (dv_state d = Delivery_CLAIMED \<and> dv_state d' = Delivery_CLAIMED \<and> dv_claim_id d = dv_claim_id d' \<or>
         dv_state d = Delivery_ATTEMPTING \<and> dv_state d' = Delivery_ATTEMPTING \<and>
           dv_attempt_id d = dv_attempt_id d') \<longrightarrow> k = k')"

definition deliveries_inv :: "projection \<Rightarrow> bool" where
  "deliveries_inv p \<longleftrightarrow> dict_wf (pr_deliveries p) \<and> dict_wf (pr_delivery_history p) \<and>
     (\<forall>i d. dict_get (pr_deliveries p) i = Some d \<longrightarrow>
        dv_delivery_id d = i \<and> dict_get (pr_delivery_history p) (i, dv_revision d) = Some d \<and>
        (\<not> dv_adapter_deduplicates d \<longrightarrow> dv_attempt_count d = attempts i p)) \<and>
     (\<forall>i n d. dict_get (pr_delivery_history p) (i, n) = Some d \<longrightarrow> delivery_revision_ok p i n d) \<and>
     (\<forall>i j d e. dict_get (pr_deliveries p) i = Some d \<longrightarrow> dict_get (pr_deliveries p) j = Some e \<longrightarrow>
        dv_intervention_id d = dv_intervention_id e \<longrightarrow> i = j) \<and>
     fresh_owners p"

lemma apply_delivery_effect:
  assumes "apply_delivery H p d = Inr p'"
  shows "pr_deliveries p' = dict_set (dv_delivery_id d) d (pr_deliveries p)"
    and "pr_delivery_history p' = dict_set (dv_delivery_id d, dv_revision d) d (pr_delivery_history p)"
    and "delivery_authorized H p d"
  using assms by (auto elim!: apply_delivery_Inr simp: delivery_authorized_def)

lemma apply_delivery_previous:
  assumes "apply_delivery H p d = Inr p'" and "dict_wf (pr_deliveries p)"
  shows "case dict_get (pr_deliveries p) (dv_delivery_id d) of
      None \<Rightarrow> dv_revision d = 1 \<and> dv_state d = Delivery_PENDING \<and>
        (\<forall>j e. dict_get (pr_deliveries p) j = Some e \<longrightarrow> dv_intervention_id e \<noteq> dv_intervention_id d)
    | Some q \<Rightarrow> delivery_revises q d \<and>
        (dv_state d = Delivery_CLAIMED \<longrightarrow> \<not> in_tokens (dv_claim_id d) (claim_tokens p)) \<and>
        (dv_state d = Delivery_ATTEMPTING \<longrightarrow> \<not> in_tokens (dv_attempt_id d) (attempt_tokens p))"
proof (cases "dict_get (pr_deliveries p) (dv_delivery_id d)")
  case None
  with assms show ?thesis
    by (auto elim!: apply_delivery_Inr simp: delivery_begin_checks_def list_ex_iff dest: dict_get_in_values)
next
  case (Some q)
  with assms have "dv_revision d = dv_revision q + 1" "guards_pass (delivery_successor_checks p q d)"
    by (auto elim!: apply_delivery_Inr)
  moreover from this(2) have "(dv_state d = Delivery_CLAIMED \<longrightarrow> \<not> in_tokens (dv_claim_id d) (claim_tokens p)) \<and>
      (dv_state d = Delivery_ATTEMPTING \<longrightarrow> \<not> in_tokens (dv_attempt_id d) (attempt_tokens p))"
    by (simp add: delivery_successor_checks_def)
  ultimately show ?thesis using Some delivery_successor_revises by simp
qed

lemma in_map_filter: "x \<in> set (List.map_filter f xs) \<longleftrightarrow> (\<exists>y\<in>set xs. f y = Some x)"
  by (induction xs) (auto simp: map_filter_simps split: option.splits)

lemma token_used:
  assumes "dict_get (pr_delivery_history p) k = Some q"
  shows "dv_claim_id q \<noteq> None \<Longrightarrow> in_tokens (dv_claim_id q) (claim_tokens p)"
    and "dv_attempt_id q \<noteq> None \<Longrightarrow> in_tokens (dv_attempt_id q) (attempt_tokens p)"
  using dict_get_in_values [OF assms]
  by (auto simp: in_tokens_def claim_tokens_def attempt_tokens_def in_map_filter split: option.splits)

lemma delivery_owner:
  assumes "valid_delivery_record d"
  shows "dv_state d = Delivery_CLAIMED \<Longrightarrow> dv_claim_id d \<noteq> None"
    and "dv_state d = Delivery_ATTEMPTING \<Longrightarrow> dv_attempt_id d \<noteq> None"
    and "\<not> dv_adapter_deduplicates d \<Longrightarrow> dv_state d = Delivery_CLAIMED \<Longrightarrow> dv_attempt_count d = 0"
    and "dv_state d = Delivery_PENDING \<Longrightarrow> dv_attempt_count d = 0"
    and "\<not> dv_adapter_deduplicates d \<Longrightarrow> dv_attempt_count d \<le> 1"
  using assms by (auto simp: valid_delivery_record_def delivery_state_ok_def delivery_fields_ok_def)


lemma deliveries_inv_latest:
  assumes "deliveries_inv p" and "dict_get (pr_deliveries p) i = Some d"
  shows "dv_delivery_id d = i" and "dict_get (pr_delivery_history p) (i, dv_revision d) = Some d"
    and "\<not> dv_adapter_deduplicates d \<Longrightarrow> dv_attempt_count d = attempts i p"
  using assms by (auto simp: deliveries_inv_def)

lemma deliveries_inv_history:
  assumes "deliveries_inv p" and "dict_get (pr_delivery_history p) (i, n) = Some d"
  shows "delivery_revision_ok p i n d"
  using assms by (simp add: deliveries_inv_def)

text \<open>A delivery that does not deduplicate has one revision in the attempting state.\<close>

lemma attempting_once:
  assumes "deliveries_inv p" and "dict_get (pr_deliveries p) i = Some d" and "\<not> dv_adapter_deduplicates d"
    and "dict_get (pr_delivery_history p) (i, n) = Some a" and "dv_state a = Delivery_ATTEMPTING"
    and "dict_get (pr_delivery_history p) (i, m) = Some b" and "dv_state b = Delivery_ATTEMPTING"
  shows "n = m \<and> a = b"
proof -
  note inv = assms(1)
  let ?l = "filter (\<lambda>(k, d). fst k = i \<and> dv_state d = Delivery_ATTEMPTING) (pr_delivery_history p)"
  have "valid_delivery_record d"
    using deliveries_inv_history [OF inv deliveries_inv_latest(2) [OF inv assms(2)]] by (simp add: delivery_revision_ok_def)
  from delivery_owner(5) [OF this assms(3)] have "length ?l \<le> 1"
    using deliveries_inv_latest(3) [OF inv assms(2,3)] by (simp add: attempts_def)
  moreover have "((i, n), a) \<in> set ?l" "((i, m), b) \<in> set ?l"
    using map_of_SomeD [OF assms(4)] map_of_SomeD [OF assms(6)] assms(5,7) by simp_all
  ultimately have "((i, n), a) = ((i, m), b)"
    by (cases ?l rule: list.exhaust) (simp_all del: filter_is_subset)
  then show ?thesis by simp
qed

lemma deliveries_inv_wf:
  "deliveries_inv p \<Longrightarrow> dict_wf (pr_deliveries p)" "deliveries_inv p \<Longrightarrow> dict_wf (pr_delivery_history p)"
  by (simp_all add: deliveries_inv_def)

lemma delivery_revision_fresh:
  assumes inv: "deliveries_inv p" and step: "apply_delivery H p d = Inr p'"
  shows "\<not> has_key (pr_delivery_history p) (dv_delivery_id d, dv_revision d)"
proof (rule ccontr)
  assume "\<not> ?thesis"
  then obtain e where "dict_get (pr_delivery_history p) (dv_delivery_id d, dv_revision d) = Some e"
    unfolding has_key_def by blast
  from deliveries_inv_history [OF inv this] obtain l where
    "dict_get (pr_deliveries p) (dv_delivery_id d) = Some l" "dv_revision d \<le> dv_revision l"
    by (auto simp: delivery_revision_ok_def)
  with apply_delivery_previous [OF step deliveries_inv_wf(1) [OF inv]] show False
    by (simp add: delivery_revises_def)
qed

lemma attempts_step:
  assumes "deliveries_inv p" and "apply_delivery H p d = Inr p'"
  shows "attempts i p' = attempts i p +
    (if dv_delivery_id d = i \<and> dv_state d = Delivery_ATTEMPTING then 1 else 0)"
  using delivery_revision_fresh [OF assms]
  by (simp add: attempts_def apply_delivery_effect(2) [OF assms(2)] dict_set_fresh)

lemma no_attempts_before_first:
  assumes "deliveries_inv p" and "dict_get (pr_deliveries p) i = None"
  shows "attempts i p = 0"
proof -
  have "fst k \<noteq> i" if "(k, d) \<in> set (pr_delivery_history p)" for k d
    using that assms(2) deliveries_inv_history [OF assms(1), of "fst k" "snd k" d]
      dict_item_get [OF deliveries_inv_wf(2) [OF assms(1)], of k d]
    by (auto simp: delivery_revision_ok_def)
  then show ?thesis
    by (fastforce simp: attempts_def filter_empty_conv)
qed

lemma attempt_count_step:
  assumes inv: "deliveries_inv p" and step: "apply_delivery H p d = Inr p'" and valid: "valid_delivery_record d"
    and nd: "\<not> dv_adapter_deduplicates d"
  shows "dv_attempt_count d = attempts (dv_delivery_id d) p'"
proof (cases "dict_get (pr_deliveries p) (dv_delivery_id d)")
  case None
  then have "dv_state d = Delivery_PENDING"
    using apply_delivery_previous [OF step deliveries_inv_wf(1) [OF inv]] by simp
  then show ?thesis
    using delivery_owner(4) [OF valid] no_attempts_before_first [OF inv None] attempts_step [OF inv step] by simp
next
  case (Some q)
  then have q: "delivery_revises q d" "\<not> dv_adapter_deduplicates q"
    using apply_delivery_previous [OF step deliveries_inv_wf(1) [OF inv]] nd
    by (auto simp: delivery_revises_def delivery_immutable_fields_def)
  have validq: "valid_delivery_record q"
    using deliveries_inv_history [OF inv deliveries_inv_latest(2) [OF inv Some]]
    by (simp add: delivery_revision_ok_def)
  have count: "dv_attempt_count q = attempts (dv_delivery_id d) p"
    using deliveries_inv_latest(3) [OF inv Some q(2)] .
  show ?thesis
  proof (cases "dv_state d = Delivery_CLAIMED")
    case True
    then have "dv_state q = Delivery_PENDING"
      using q nd by (cases "dv_state q") (auto simp: delivery_revises_def)
    then show ?thesis
      using True count attempts_step [OF inv step] delivery_owner(3) [OF valid nd True]
        delivery_owner(4) [OF validq] by simp
  next
    case False
    then show ?thesis
      using q(1) count attempts_step [OF inv step] by (auto simp: delivery_revises_def)
  qed
qed

lemma fresh_owners_step:
  assumes inv: "deliveries_inv p" and step: "apply_delivery H p d = Inr p'" and valid: "valid_delivery_record d"
  shows "fresh_owners p'"
proof -
  let ?k = "(dv_delivery_id d, dv_revision d)"
  have new: "\<not> (dv_state d = Delivery_CLAIMED \<and> dv_claim_id d = dv_claim_id e) \<and>
      \<not> (dv_state d = Delivery_ATTEMPTING \<and> dv_attempt_id d = dv_attempt_id e)"
    if e: "dict_get (pr_delivery_history p) k = Some e" for k e
    using apply_delivery_previous [OF step deliveries_inv_wf(1) [OF inv]] token_used [OF e]
      delivery_owner(1,2) [OF valid]
    by (cases "dict_get (pr_deliveries p) (dv_delivery_id d)") auto
  have old: "fresh_owners p" using inv by (simp add: deliveries_inv_def)
  have lookup: "k = ?k \<and> e = d \<or> dict_get (pr_delivery_history p) k = Some e"
    if "dict_get (pr_delivery_history p') k = Some e" for k e
    using that by (auto simp: apply_delivery_effect(2) [OF step] split: if_splits)
  show ?thesis
    unfolding fresh_owners_def
  proof (intro allI impI)
    fix k k' e e'
    assume "dict_get (pr_delivery_history p') k = Some e" "dict_get (pr_delivery_history p') k' = Some e'"
      and same: "dv_state e = Delivery_CLAIMED \<and> dv_state e' = Delivery_CLAIMED \<and> dv_claim_id e = dv_claim_id e' \<or>
        dv_state e = Delivery_ATTEMPTING \<and> dv_state e' = Delivery_ATTEMPTING \<and> dv_attempt_id e = dv_attempt_id e'"
    with lookup [of k e] lookup [of k' e'] consider "k = ?k" "k' = ?k" | "e = d" "dict_get (pr_delivery_history p) k' = Some e'"
      | "e' = d" "dict_get (pr_delivery_history p) k = Some e"
      | "dict_get (pr_delivery_history p) k = Some e" "dict_get (pr_delivery_history p) k' = Some e'" by blast
    then show "k = k'"
    proof cases
      case 2
      with new [OF 2(2)] same show ?thesis by auto
    next
      case 3
      with new [OF 3(2)] same show ?thesis by auto
    next
      case 4
      with old same show ?thesis unfolding fresh_owners_def by blast
    qed simp
  qed
qed

lemma delivery_revision_kept:
  assumes inv: "deliveries_inv p" and step: "apply_delivery H p d = Inr p'"
    and e: "dict_get (pr_delivery_history p) (i, n) = Some e"
  shows "delivery_revision_ok p' i n e"
proof -
  note eff = apply_delivery_effect [OF step]
  have keep: "dict_get (pr_delivery_history p') k = Some x" if "dict_get (pr_delivery_history p) k = Some x" for k x
    using that delivery_revision_fresh [OF inv step] by (auto simp: eff(2) no_key)
  have latest: "\<exists>l. dict_get (pr_deliveries p') i = Some l \<and> n \<le> dv_revision l"
    if l: "dict_get (pr_deliveries p) i = Some l" "n \<le> dv_revision l" for l
  proof (cases "i = dv_delivery_id d")
    case True
    with l apply_delivery_previous [OF step deliveries_inv_wf(1) [OF inv]] show ?thesis
      by (simp add: eff(1) delivery_revises_def)
  qed (use l in \<open>simp add: eff(1)\<close>)
  from deliveries_inv_history [OF inv e] show ?thesis
    using latest keep unfolding delivery_revision_ok_def by (metis (full_types))
qed

lemma delivery_revision_new:
  assumes inv: "deliveries_inv p" and step: "apply_delivery H p d = Inr p'" and valid: "valid_delivery_record d"
  shows "delivery_revision_ok p' (dv_delivery_id d) (dv_revision d) d"
proof -
  note eff = apply_delivery_effect [OF step]
  have "if dv_revision d = 1 then dv_state d = Delivery_PENDING
    else \<exists>q. dict_get (pr_delivery_history p') (dv_delivery_id d, dv_revision d - 1) = Some q \<and> delivery_revises q d"
  proof (cases "dict_get (pr_deliveries p) (dv_delivery_id d)")
    case None
    then show ?thesis using apply_delivery_previous [OF step deliveries_inv_wf(1) [OF inv]] by simp
  next
    case (Some q)
    then have "delivery_revises q d" using apply_delivery_previous [OF step deliveries_inv_wf(1) [OF inv]] by simp
    moreover note deliveries_inv_latest(2) [OF inv Some] deliveries_inv_history [OF inv deliveries_inv_latest(2) [OF inv Some]]
    ultimately show ?thesis by (auto simp: eff(2) delivery_revises_def delivery_revision_ok_def)
  qed
  moreover have "1 \<le> dv_revision d" using valid by (simp add: valid_delivery_record_def delivery_fields_ok_def)
  ultimately show ?thesis using valid by (simp add: delivery_revision_ok_def eff(1))
qed

lemma deliveries_inv_delivery:
  assumes inv: "deliveries_inv p" and step: "apply_delivery H p d = Inr p'" and valid: "valid_delivery_record d"
  shows "deliveries_inv p'"
proof -
  note eff = apply_delivery_effect [OF step]
  let ?i = "dv_delivery_id d"
  have lookup: "j = ?i \<and> e = d \<or> j \<noteq> ?i \<and> dict_get (pr_deliveries p) j = Some e"
    if "dict_get (pr_deliveries p') j = Some e" for j e
    using that by (auto simp: eff(1) split: if_splits)
  have intervention: "dv_intervention_id e \<noteq> dv_intervention_id d"
    if "dict_get (pr_deliveries p) j = Some e" "j \<noteq> ?i" for j e
  proof (cases "dict_get (pr_deliveries p) ?i")
    case None
    then show ?thesis using apply_delivery_previous [OF step deliveries_inv_wf(1) [OF inv]] that by simp
  next
    case (Some q)
    then have "dv_intervention_id q = dv_intervention_id d"
      using apply_delivery_previous [OF step deliveries_inv_wf(1) [OF inv]]
      by (simp add: delivery_revises_def delivery_immutable_fields_def)
    with Some that inv show ?thesis by (auto simp: deliveries_inv_def)
  qed
  have latest: "dv_delivery_id e = j \<and> dict_get (pr_delivery_history p') (j, dv_revision e) = Some e \<and>
      (\<not> dv_adapter_deduplicates e \<longrightarrow> dv_attempt_count e = attempts j p')"
    if "dict_get (pr_deliveries p') j = Some e" for j e
    using lookup [OF that] deliveries_inv_latest [OF inv, of j e] attempt_count_step [OF inv step valid]
      attempts_step [OF inv step, of j]
    by (auto simp: eff(2))
  have hist: "delivery_revision_ok p' j n e" if "dict_get (pr_delivery_history p') (j, n) = Some e" for j n e
    using that delivery_revision_kept [OF inv step] delivery_revision_new [OF inv step valid]
    by (auto simp: eff(2) split: if_splits)
  have one: "i = j" if "dict_get (pr_deliveries p') i = Some a" "dict_get (pr_deliveries p') j = Some b"
    "dv_intervention_id a = dv_intervention_id b" for i j a b
    using lookup [OF that(1)] lookup [OF that(2)] that(3) intervention inv unfolding deliveries_inv_def by metis
  have "dict_wf (pr_deliveries p')" "dict_wf (pr_delivery_history p')"
    using deliveries_inv_wf [OF inv] by (simp_all add: eff(1,2))
  then show ?thesis
    unfolding deliveries_inv_def
    using latest hist one fresh_owners_step [OF inv step valid] by blast
qed

lemma deliveries_inv_frame: "deliveries_part p' = deliveries_part p \<Longrightarrow> deliveries_inv p \<Longrightarrow> deliveries_inv p'"
  by (simp add: deliveries_part_def deliveries_inv_def delivery_revision_ok_def fresh_owners_def attempts_def)

lemma reachable_deliveries:
  assumes "reachable H F run_id p"
  shows "deliveries_inv p"
  using assms
proof (induction rule: reachable_invariant)
  case empty
  show ?case by (simp add: deliveries_inv_def empty_projection_def fresh_owners_def)
next
  case (entry p e p')
  from entry.hyps(4) show ?case
  proof (cases rule: apply_entry_cases)
    case (delivery x)
    have "valid_delivery_record x" using entry.hyps(2) unfolding delivery(1) valid_ledger_record_def by simp
    with entry.IH delivery(2) show ?thesis by (rule deliveries_inv_delivery)
  next
    case (event x)
    from event_frame(3) [OF event(2)] entry.IH show ?thesis by (rule deliveries_inv_frame)
  next
    case (signal x)
    from signal_frame(4) [OF signal(2)] entry.IH show ?thesis by (rule deliveries_inv_frame)
  next
    case (decision x)
    from decision_frame(4) [OF decision(2)] entry.IH show ?thesis by (rule deliveries_inv_frame)
  next
    case (outcome x)
    from outcome_frame(4) [OF outcome(2)] entry.IH show ?thesis by (rule deliveries_inv_frame)
  next
    case (cycle x)
    from cycle_frame(2) [OF cycle(2)] entry.IH show ?thesis by (rule deliveries_inv_frame)
  qed
qed

end
