(* ===== verification/Outbox_Invariants.thy ===== *)
theory Outbox_Invariants
  imports Delivery_Invariants
begin

text \<open>
  Reminders and their outbox: every delivery is authorized by the reminder a cycle committed, and
  the completeness check of a settled projection holds exactly when every committed reminder has its
  delivery.
\<close>

definition interventions_inv :: "projection \<Rightarrow> bool" where
  "interventions_inv p \<longleftrightarrow>
     (\<forall>k i. dict_get (pr_interventions p) k = Some i \<longrightarrow> iv_intervention_id i = k) \<and>
     (\<forall>j c i. dict_get (pr_cycles p) j = Some c \<longrightarrow> cy_state c = Cycle_COMMITTED \<longrightarrow>
        cy_intervention c = Some i \<longrightarrow> dict_get (pr_interventions p) (iv_intervention_id i) = Some i)"

definition outbox_inv :: "hash_fun \<Rightarrow> projection \<Rightarrow> bool" where
  "outbox_inv H p \<longleftrightarrow> interventions_inv p \<and>
     (\<forall>i d. dict_get (pr_deliveries p) i = Some d \<longrightarrow> delivery_authorized H p d)"

lemma apply_cycle_interventions:
  assumes "apply_cycle H F p c = Inr p'"
  shows "if cy_state c = Cycle_COMMITTED
    then \<exists>i. cy_intervention c = Some i \<and> dict_get (pr_interventions p) (iv_intervention_id i) = None \<and>
      pr_interventions p' = dict_set (iv_intervention_id i) i (pr_interventions p)
    else pr_interventions p' = pr_interventions p"
proof -
  obtain updated where u: "(if cy_state c = Cycle_COMMITTED
      then commit_effects H F p c (dict_get (pr_cycles p) (cy_cycle_id c)) else Inr p) = Inr updated"
    and p': "p' = updated\<lparr>pr_cycle_history := dict_set (cy_cycle_id c, cy_revision c) c (pr_cycle_history p),
      pr_cycles := dict_set (cy_cycle_id c) c (pr_cycles p)\<rparr>"
    using assms by (rule apply_cycle_Inr)
  show ?thesis
  proof (cases "cy_state c = Cycle_COMMITTED")
    case True
    with u have "commit_effects H F p c (dict_get (pr_cycles p) (cy_cycle_id c)) = Inr updated" by simp
    then show ?thesis
      using True by (elim commit_effects_Inr) (auto simp: p' no_key dest!: preview_memory_delta_Inr)
  qed (use u p' in simp)
qed

lemma committed_cycle_kept:
  assumes "apply_cycle H F p c = Inr p'" and "dict_wf (pr_cycles p)"
    and "dict_get (pr_cycles p) j = Some d" and "cy_state d = Cycle_COMMITTED"
  shows "dict_get (pr_cycles p') j = Some d"
proof -
  have "j \<noteq> cy_cycle_id c"
    using apply_cycle_previous [OF assms(1,2)] assms(3,4) revises_from_active [of d c]
    by (auto simp: active_cycle_def)
  with assms(3) show ?thesis by (simp add: apply_cycle_effect(1) [OF assms(1)])
qed

lemma interventions_kept:
  assumes "apply_cycle H F p c = Inr p'" and "dict_get (pr_interventions p) k = Some i"
  shows "dict_get (pr_interventions p') k = Some i"
  using apply_cycle_interventions [OF assms(1)] assms(2) by (auto split: if_splits)

lemma interventions_inv_cycle:
  assumes inv: "interventions_inv p" and step: "apply_cycle H F p c = Inr p'"
  shows "interventions_inv p'"
  unfolding interventions_inv_def
proof (intro conjI allI impI)
  fix k i
  assume "dict_get (pr_interventions p') k = Some i"
  then show "iv_intervention_id i = k"
    using inv apply_cycle_interventions [OF step] by (auto simp: interventions_inv_def split: if_splits)
next
  fix j d i
  assume d: "dict_get (pr_cycles p') j = Some d" "cy_state d = Cycle_COMMITTED" "cy_intervention d = Some i"
  show "dict_get (pr_interventions p') (iv_intervention_id i) = Some i"
  proof (cases "d = c")
    case True
    then show ?thesis using d apply_cycle_interventions [OF step] by auto
  next
    case False
    then have "dict_get (pr_cycles p) j = Some d"
      using d(1) by (simp add: apply_cycle_effect(1) [OF step] split: if_splits)
    then show ?thesis
      using inv d interventions_kept [OF step] by (simp add: interventions_inv_def)
  qed
qed

lemma outbox_inv_cycle:
  assumes inv: "outbox_inv H p" and step: "apply_cycle H F p c = Inr p'" and wf: "dict_wf (pr_cycles p)"
  shows "outbox_inv H p'"
proof -
  have "pr_deliveries p' = pr_deliveries p" using cycle_frame(2) [OF step] by (simp add: deliveries_part_def)
  moreover have "delivery_authorized H p' d" if "delivery_authorized H p d" for d
    using that committed_cycle_kept [OF step wf] interventions_kept [OF step]
    unfolding delivery_authorized_def by blast
  ultimately show ?thesis
    using inv interventions_inv_cycle [OF _ step] by (simp add: outbox_inv_def)
qed

lemma outbox_inv_delivery:
  assumes inv: "outbox_inv H p" and step: "apply_delivery H p d = Inr p'"
  shows "outbox_inv H p'"
proof -
  have same: "pr_cycles p' = pr_cycles p" "pr_interventions p' = pr_interventions p"
    using delivery_frame(2) [OF step] by (simp_all add: cycles_part_def)
  then have "delivery_authorized H p' e = delivery_authorized H p e" for e
    by (simp add: delivery_authorized_def)
  moreover have "interventions_inv p'" using inv by (simp add: outbox_inv_def interventions_inv_def same)
  ultimately show ?thesis
    using inv apply_delivery_effect(1,3) [OF step] by (auto simp: outbox_inv_def split: if_splits)
qed

lemma outbox_inv_frame:
  assumes "cycles_part p' = cycles_part p" and "deliveries_part p' = deliveries_part p" and "outbox_inv H p"
  shows "outbox_inv H p'"
proof -
  have same: "pr_cycles p' = pr_cycles p" "pr_interventions p' = pr_interventions p" "pr_deliveries p' = pr_deliveries p"
    using assms(1,2) by (simp_all add: cycles_part_def deliveries_part_def)
  show ?thesis using assms(3) unfolding outbox_inv_def interventions_inv_def delivery_authorized_def same .
qed

lemma reachable_outbox:
  assumes "reachable H F run_id p"
  shows "outbox_inv H p"
  using assms
proof (induction rule: reachable_invariant)
  case empty
  show ?case by (simp add: outbox_inv_def interventions_inv_def empty_projection_def)
next
  case (entry p e p')
  from entry.hyps(4) show ?case
  proof (cases rule: apply_entry_cases)
    case (cycle x)
    have "dict_wf (pr_cycles p)" using reachable_cycles [OF entry.hyps(1)] by (simp add: cycles_inv_def)
    with entry.IH cycle(2) show ?thesis by (rule outbox_inv_cycle)
  next
    case (delivery x)
    from entry.IH delivery(2) show ?thesis by (rule outbox_inv_delivery)
  next
    case (event x)
    from event_frame(1,3) [OF event(2)] entry.IH show ?thesis by (rule outbox_inv_frame)
  next
    case (signal x)
    from signal_frame(2,4) [OF signal(2)] entry.IH show ?thesis by (rule outbox_inv_frame)
  next
    case (decision x)
    from decision_frame(2,4) [OF decision(2)] entry.IH show ?thesis by (rule outbox_inv_frame)
  next
    case (outcome x)
    from outcome_frame(2,4) [OF outcome(2)] entry.IH show ?thesis by (rule outbox_inv_frame)
  qed
qed

section \<open>The completeness check\<close>

definition reminder_enqueued :: "projection \<Rightarrow> cycle_record \<Rightarrow> bool" where
  "reminder_enqueued p c \<longleftrightarrow>
     (\<exists>j d i. dict_get (pr_deliveries p) j = Some d \<and> dv_cycle_id d = cy_cycle_id c \<and>
        cy_intervention c = Some i \<and> dv_intervention_id d = iv_intervention_id i)"

lemma initial_deliveries_Inr:
  assumes "initial_deliveries ds acc = Inr pending"
  shows "dict_get pending k = Some d \<longleftrightarrow>
    dict_get acc k = Some d \<or> (\<exists>i. ((i, 1), d) \<in> set ds \<and> dv_cycle_id d = k)"
  using assms
proof (induction ds acc rule: initial_deliveries.induct)
  case (2 i revision e ds acc)
  then show ?case
    by (cases "revision = 1") (auto simp: has_key_def simp del: not_has_key_get split: if_splits)
qed auto


lemma initial_deliveries_succeeds:
  assumes "\<And>i d. ((i, 1), d) \<in> set ds \<Longrightarrow> dv_delivery_id d = i \<and> \<not> has_key acc (dv_cycle_id d)"
    and "distinct ds"
    and "\<And>i j d e. ((i, 1), d) \<in> set ds \<Longrightarrow> ((j, 1), e) \<in> set ds \<Longrightarrow>
      dv_cycle_id d = dv_cycle_id e \<Longrightarrow> i = j \<and> d = e"
  shows "\<exists>pending. initial_deliveries ds acc = Inr pending"
  using assms
proof (induction ds acc rule: initial_deliveries.induct)
  case (2 i revision e ds acc)
  note first = 2(3) and unique = 2(5)
  have dist: "distinct ds" "((i, revision), e) \<notin> set ds" using 2(4) by auto
  show ?case
  proof (cases "revision = 1")
    case True
    have e: "dv_delivery_id e = i" "\<not> has_key acc (dv_cycle_id e)"
      using first [of i e] True by auto
    have "\<exists>pending. initial_deliveries ds (dict_set (dv_cycle_id e) e acc) = Inr pending"
    proof (rule 2(2))
      show "\<not> revision \<noteq> 1" "\<not> (dv_delivery_id e \<noteq> i \<or> has_key acc (dv_cycle_id e))"
        using True e by auto
    next
      fix j d
      assume d: "((j, 1), d) \<in> set ds"
      have "dv_cycle_id d \<noteq> dv_cycle_id e"
        using unique [of j d i e] d dist(2) True by auto
      with first [of j d] d show "dv_delivery_id d = j \<and> \<not> has_key (dict_set (dv_cycle_id e) e acc) (dv_cycle_id d)"
        by simp
    next
      fix j k d d'
      assume "((j, 1), d) \<in> set ds" "((k, 1), d') \<in> set ds" "dv_cycle_id d = dv_cycle_id d'"
      then show "j = k \<and> d = d'" using unique [of j d k d'] by simp
    qed (rule dist(1))
    with True e show ?thesis by simp
  next
    case False
    have "\<exists>pending. initial_deliveries ds acc = Inr pending"
    proof (rule 2(1) [OF False])
      fix j d
      assume "((j, 1), d) \<in> set ds"
      then show "dv_delivery_id d = j \<and> \<not> has_key acc (dv_cycle_id d)" using first [of j d] by simp
    next
      fix j k d d'
      assume "((j, 1), d) \<in> set ds" "((k, 1), d') \<in> set ds" "dv_cycle_id d = dv_cycle_id d'"
      then show "j = k \<and> d = d'" using unique [of j d k d'] by simp
    qed (rule dist(1))
    with False show ?thesis by simp
  qed
qed simp

lemma outbox_matches_Inr:
  "outbox_matches cs pending = Inr () \<longleftrightarrow>
     (\<forall>c\<in>set cs. \<forall>i. cy_state c = Cycle_COMMITTED \<longrightarrow> cy_intervention c = Some i \<longrightarrow>
        (if iv_action i = Action_REMIND
         then \<exists>d. dict_get pending (cy_cycle_id c) = Some d \<and> dv_intervention_id d = iv_intervention_id i
         else dict_get pending (cy_cycle_id c) = None))"
proof (induction cs)
  case (Cons c cs)
  show ?case
  proof (cases "cy_state c = Cycle_COMMITTED")
    case True
    with Cons show ?thesis
      by (auto simp: has_key_def simp del: not_has_key_get split: option.splits)
  next
    case False
    then have "outbox_matches (c # cs) pending = outbox_matches cs pending"
      by (cases "cy_state c") (auto split: option.splits)
    with False Cons show ?thesis by simp
  qed
qed simp

lemma first_revision:
  assumes inv: "deliveries_inv p"
  shows "dict_get (pr_delivery_history p) (i, n) = Some d \<Longrightarrow>
    \<exists>e. dict_get (pr_delivery_history p) (i, 1) = Some e \<and> delivery_immutable_fields d = delivery_immutable_fields e"
proof (induction "nat n" arbitrary: n d)
  case 0
  then show ?case using deliveries_inv_history [OF inv, of i n d] by (simp add: delivery_revision_ok_def)
next
  case (Suc m)
  note ok = deliveries_inv_history [OF inv Suc.prems]
  show ?case
  proof (cases "n = 1")
    case False
    then obtain q where q: "dict_get (pr_delivery_history p) (i, n - 1) = Some q" "delivery_revises q d"
      using ok by (auto simp: delivery_revision_ok_def)
    have "m = nat (n - 1)" using Suc.hyps(2) by simp
    from Suc.hyps(1) [OF this q(1)] q(2) show ?thesis by (simp add: delivery_revises_def)
  qed (use Suc.prems in simp)
qed

lemma initial_delivery_latest:
  assumes inv: "deliveries_inv p" and out: "outbox_inv H p" and "dict_get (pr_delivery_history p) (i, 1) = Some d"
  shows "\<exists>l c v. dict_get (pr_deliveries p) i = Some l \<and> delivery_immutable_fields l = delivery_immutable_fields d \<and>
    dict_get (pr_cycles p) (dv_cycle_id d) = Some c \<and> cy_state c = Cycle_COMMITTED \<and> cy_intervention c = Some v \<and>
    iv_action v = Action_REMIND \<and> dv_intervention_id d = iv_intervention_id v"
proof -
  obtain l where l: "dict_get (pr_deliveries p) i = Some l"
    using deliveries_inv_history [OF inv assms(3)] by (auto simp: delivery_revision_ok_def)
  from first_revision [OF inv deliveries_inv_latest(2) [OF inv l]] assms(3)
  have same: "delivery_immutable_fields l = delivery_immutable_fields d" by simp
  then have ids: "dv_cycle_id l = dv_cycle_id d" "dv_intervention_id l = dv_intervention_id d"
    by (simp_all add: delivery_immutable_fields_def)
  have "delivery_authorized H p l" using out l by (simp add: outbox_inv_def)
  then obtain c v where "dict_get (pr_cycles p) (dv_cycle_id d) = Some c" "cy_state c = Cycle_COMMITTED"
    "cy_intervention c = Some v" "iv_action v = Action_REMIND"
    and v: "dict_get (pr_interventions p) (dv_intervention_id d) = Some v"
    unfolding delivery_authorized_def ids by blast
  moreover have "dv_intervention_id d = iv_intervention_id v"
    using out v by (simp add: outbox_inv_def interventions_inv_def)
  ultimately show ?thesis using l same by blast
qed

lemma one_initial_delivery:
  assumes inv: "deliveries_inv p" and out: "outbox_inv H p"
    and d: "dict_get (pr_delivery_history p) (i, 1) = Some d" and e: "dict_get (pr_delivery_history p) (j, 1) = Some e"
    and "dv_cycle_id d = dv_cycle_id e"
  shows "i = j"
proof -
  from initial_delivery_latest [OF inv out d] initial_delivery_latest [OF inv out e] assms(5)
  obtain l m where "dict_get (pr_deliveries p) i = Some l" "dict_get (pr_deliveries p) j = Some m"
    "dv_intervention_id d = dv_intervention_id e" "delivery_immutable_fields l = delivery_immutable_fields d"
    "delivery_immutable_fields m = delivery_immutable_fields e" by auto
  with inv show ?thesis by (auto simp: deliveries_inv_def delivery_immutable_fields_def)
qed

lemma pending_outbox:
  assumes inv: "deliveries_inv p" and out: "outbox_inv H p"
  obtains pending where "initial_deliveries (pr_delivery_history p) [] = Inr pending"
    and "\<And>k d. dict_get pending k = Some d \<longleftrightarrow>
      (\<exists>i. dict_get (pr_delivery_history p) (i, 1) = Some d \<and> dv_cycle_id d = k)"
proof -
  note item = dict_item_get [OF deliveries_inv_wf(2) [OF inv]]
  have "distinct (pr_delivery_history p)"
    using deliveries_inv_wf(2) [OF inv] by (simp add: dict_wf_def distinct_map)
  moreover have "dv_delivery_id d = i" if "dict_get (pr_delivery_history p) (i, 1) = Some d" for i d
    using deliveries_inv_history [OF inv that] by (simp add: delivery_revision_ok_def)
  moreover have "i = j \<and> d = e" if "dict_get (pr_delivery_history p) (i, 1) = Some d"
    "dict_get (pr_delivery_history p) (j, 1) = Some e" "dv_cycle_id d = dv_cycle_id e" for i j d e
    using one_initial_delivery [OF inv out that] that(1,2) by simp
  ultimately obtain pending where p: "initial_deliveries (pr_delivery_history p) [] = Inr pending"
    using initial_deliveries_succeeds [of "pr_delivery_history p" "[]"] by (auto simp: item no_key)
  with initial_deliveries_Inr [OF p] that show thesis by (simp add: item)
qed

lemma cycles_inv_id: "cycles_inv H p \<Longrightarrow> dict_get (pr_cycles p) k = Some c \<Longrightarrow> cy_cycle_id c = k"
  unfolding cycles_inv_def latest_cycle_ok_def by blast

lemma initial_delivery_owner:
  assumes inv: "deliveries_inv p" and out: "outbox_inv H p"
    and "\<exists>i. dict_get (pr_delivery_history p) (i, 1) = Some d \<and> dv_cycle_id d = k"
  shows "\<exists>c v. dict_get (pr_cycles p) k = Some c \<and> cy_state c = Cycle_COMMITTED \<and>
    cy_intervention c = Some v \<and> iv_action v = Action_REMIND \<and> dv_intervention_id d = iv_intervention_id v"
proof -
  from assms(3) obtain i where i: "dict_get (pr_delivery_history p) (i, 1) = Some d" "dv_cycle_id d = k" by blast
  from initial_delivery_latest [OF inv out i(1)] show ?thesis unfolding i(2) by blast
qed

lemma reminder_enqueued_iff:
  assumes inv: "deliveries_inv p" and out: "outbox_inv H p"
    and c: "dict_get (pr_cycles p) (cy_cycle_id c) = Some c"
  shows "reminder_enqueued p c \<longleftrightarrow>
    (\<exists>i d. dict_get (pr_delivery_history p) (i, 1) = Some d \<and> dv_cycle_id d = cy_cycle_id c)"
proof
  assume "reminder_enqueued p c"
  then obtain j d where d: "dict_get (pr_deliveries p) j = Some d" "dv_cycle_id d = cy_cycle_id c"
    unfolding reminder_enqueued_def by blast
  from first_revision [OF inv deliveries_inv_latest(2) [OF inv d(1)]] obtain e where
    "dict_get (pr_delivery_history p) (j, 1) = Some e" "delivery_immutable_fields d = delivery_immutable_fields e"
    by blast
  with d(2) show "\<exists>i d. dict_get (pr_delivery_history p) (i, 1) = Some d \<and> dv_cycle_id d = cy_cycle_id c"
    by (auto simp: delivery_immutable_fields_def)
next
  assume "\<exists>i d. dict_get (pr_delivery_history p) (i, 1) = Some d \<and> dv_cycle_id d = cy_cycle_id c"
  then obtain i d where i: "dict_get (pr_delivery_history p) (i, 1) = Some d" "dv_cycle_id d = cy_cycle_id c" by blast
  from initial_delivery_latest [OF inv out i(1)] obtain l c' v where
    l: "dict_get (pr_deliveries p) i = Some l" "delivery_immutable_fields l = delivery_immutable_fields d"
    and v: "dict_get (pr_cycles p) (dv_cycle_id d) = Some c'" "cy_intervention c' = Some v"
      "dv_intervention_id d = iv_intervention_id v" by blast
  from l(2) have "dv_cycle_id l = dv_cycle_id d" "dv_intervention_id l = dv_intervention_id d"
    by (simp_all add: delivery_immutable_fields_def)
  moreover have "c' = c" using v(1) c i(2) by simp
  ultimately show "reminder_enqueued p c"
    unfolding reminder_enqueued_def using l(1) v(2,3) i(2) by metis
qed

lemma validate_complete_iff:
  assumes cyc: "cycles_inv H p" and inv: "deliveries_inv p" and out: "outbox_inv H p"
  shows "validate_complete_projection p = Inr () \<longleftrightarrow>
    (\<forall>c\<in>set (dict_values (pr_cycles p)). committed_reminder c \<longrightarrow> reminder_enqueued p c)"
    (is "_ \<longleftrightarrow> ?complete")
proof -
  have wf: "dict_wf (pr_cycles p)" using cyc by (simp add: cycles_inv_def)
  note listed = in_dict_values_iff [OF wf]
  obtain pending where pending: "initial_deliveries (pr_delivery_history p) [] = Inr pending"
    and get: "\<And>k d. dict_get pending k = Some d \<longleftrightarrow>
      (\<exists>i. dict_get (pr_delivery_history p) (i, 1) = Some d \<and> dv_cycle_id d = k)"
    using pending_outbox [OF inv out] by blast
  have owner: "\<exists>c v. dict_get (pr_cycles p) k = Some c \<and> cy_state c = Cycle_COMMITTED \<and>
      cy_intervention c = Some v \<and> iv_action v = Action_REMIND \<and> dv_intervention_id d = iv_intervention_id v"
    if "dict_get pending k = Some d" for k d
    using that unfolding get by (rule initial_delivery_owner [OF inv out])
  note id = cycles_inv_id [OF cyc]
  have enq: "reminder_enqueued p c \<longleftrightarrow> dict_get pending (cy_cycle_id c) \<noteq> None"
    if "dict_get (pr_cycles p) k = Some c" for k c
  proof -
    have "dict_get (pr_cycles p) (cy_cycle_id c) = Some c" using that id [OF that] by simp
    from reminder_enqueued_iff [OF inv out this] show ?thesis
      using get [of "cy_cycle_id c"] by (cases "dict_get pending (cy_cycle_id c)") blast+
  qed
  have silent: "committed_reminder c" if "dict_get (pr_cycles p) k = Some c" "dict_get pending (cy_cycle_id c) \<noteq> None" for k c
  proof -
    from that(2) obtain d where "dict_get pending (cy_cycle_id c) = Some d" by blast
    from owner [OF this] that(1) id [OF that(1)] show ?thesis by (auto simp: committed_reminder_def)
  qed
  have third: "set (map fst pending) = set (map cy_cycle_id (filter committed_reminder (dict_values (pr_cycles p))))"
    if "?complete"
  proof (intro set_eqI iffI)
    fix k assume "k \<in> set (map fst pending)"
    then obtain d where "dict_get pending k = Some d"
      by (metis list.set_map map_of_eq_None_iff not_Some_eq)
    with owner obtain c v where c: "dict_get (pr_cycles p) k = Some c" "cy_state c = Cycle_COMMITTED"
      "cy_intervention c = Some v" "iv_action v = Action_REMIND" by blast
    then have "committed_reminder c" by (simp add: committed_reminder_def)
    then show "k \<in> set (map cy_cycle_id (filter committed_reminder (dict_values (pr_cycles p))))"
      using c(1) id [OF c(1)] dict_get_in_values by fastforce
  next
    fix k assume "k \<in> set (map cy_cycle_id (filter committed_reminder (dict_values (pr_cycles p))))"
    then obtain c where "c \<in> set (dict_values (pr_cycles p))" "committed_reminder c" "cy_cycle_id c = k" by auto
    with that enq listed have "dict_get pending k \<noteq> None" by blast
    then show "k \<in> set (map fst pending)" by (simp add: map_of_eq_None_iff)
  qed
  have "outbox_matches (dict_values (pr_cycles p)) pending = Inr () \<longleftrightarrow> ?complete"
    unfolding outbox_matches_Inr
  proof (intro ball_cong refl iffI impI allI)
    fix c assume c: "c \<in> set (dict_values (pr_cycles p))" "committed_reminder c"
      and m: "\<forall>i. cy_state c = Cycle_COMMITTED \<longrightarrow> cy_intervention c = Some i \<longrightarrow>
        (if iv_action i = Action_REMIND
         then \<exists>d. dict_get pending (cy_cycle_id c) = Some d \<and> dv_intervention_id d = iv_intervention_id i
         else dict_get pending (cy_cycle_id c) = None)"
    from c(1) listed obtain k where "dict_get (pr_cycles p) k = Some c" by blast
    with enq m c(2) show "reminder_enqueued p c" by (auto simp: committed_reminder_def split: option.splits)
  next
    fix c i assume c: "c \<in> set (dict_values (pr_cycles p))" "cy_state c = Cycle_COMMITTED" "cy_intervention c = Some i"
      and r: "committed_reminder c \<longrightarrow> reminder_enqueued p c"
    from c(1) listed obtain k where k: "dict_get (pr_cycles p) k = Some c" by blast
    show "if iv_action i = Action_REMIND
      then \<exists>d. dict_get pending (cy_cycle_id c) = Some d \<and> dv_intervention_id d = iv_intervention_id i
      else dict_get pending (cy_cycle_id c) = None"
    proof (cases "iv_action i = Action_REMIND")
      case True
      with c r have "reminder_enqueued p c" by (simp add: committed_reminder_def)
      with enq [OF k] obtain d where d: "dict_get pending (cy_cycle_id c) = Some d" by blast
      from owner [OF d] id [OF k] k c(3) d True show ?thesis by auto
    next
      case False
      then have "\<not> committed_reminder c" using c(3) by (simp add: committed_reminder_def)
      with silent [OF k] False show ?thesis by (metis (full_types))
    qed
  qed
  then show ?thesis
    using third unfolding validate_complete_projection_def
    by (auto simp: pending bind_result_Inr checks_Inr simp del: set_map)
qed

end
