(* ===== verification/Memory_Invariants.thy ===== *)
theory Memory_Invariants
  imports Outbox_Invariants
begin

text \<open>
  The memories of a projection: every memory is a contiguous chain of revisions of one kind, each
  revision cites evidence that is in the run, only an active revision is ever revised, and the
  current private status is exactly the active memory of that kind.
\<close>

definition evidence_known :: "(uuid, trace_event) dict \<Rightarrow> (uuid \<times> int, memory_record) dict \<Rightarrow>
    evidence_reference list \<Rightarrow> bool" where
  "evidence_known events history rs \<longleftrightarrow>
     (\<forall>r\<in>set rs. if er_source r = Source_EVENT then has_key events (er_source_id r)
        else \<exists>n. er_revision r = Some n \<and> has_key history (er_source_id r, n))"

definition memory_revises :: "memory_record \<Rightarrow> memory_record \<Rightarrow> bool" where
  "memory_revises q m \<longleftrightarrow> mr_revision m = mr_revision q + 1 \<and> mr_validity q = Validity_ACTIVE \<and>
     mr_memory_id m = mr_memory_id q \<and> mr_kind m = mr_kind q \<and> mr_run_id m = mr_run_id q \<and>
     mr_created_at m = mr_created_at q \<and> mr_updated_at q \<le> mr_updated_at m"

definition memory_revision_ok :: "(uuid, trace_event) dict \<Rightarrow> uuid \<Rightarrow> delta_state \<Rightarrow> uuid \<Rightarrow> int \<Rightarrow>
    memory_record \<Rightarrow> bool" where
  "memory_revision_ok events run s i n m \<longleftrightarrow> mr_memory_id m = i \<and> mr_revision m = n \<and> 1 \<le> n \<and>
     mr_run_id m = run \<and> valid_memory_record m \<and>
     (\<exists>l. dict_get (ds_memories s) i = Some l \<and> n \<le> mr_revision l) \<and>
     (if n = 1 then mr_validity m = Validity_ACTIVE
      else \<exists>q. dict_get (ds_history s) (i, n - 1) = Some q \<and> memory_revises q m) \<and>
     evidence_known events (ds_history s) (mr_provenance m)"

definition memories_ok :: "(uuid, trace_event) dict \<Rightarrow> uuid \<Rightarrow> delta_state \<Rightarrow> bool" where
  "memories_ok events run s \<longleftrightarrow> dict_wf (ds_memories s) \<and> dict_wf (ds_history s) \<and>
     (\<forall>i m. dict_get (ds_memories s) i = Some m \<longrightarrow>
        mr_memory_id m = i \<and> dict_get (ds_history s) (i, mr_revision m) = Some m) \<and>
     (\<forall>i n m. dict_get (ds_history s) (i, n) = Some m \<longrightarrow> memory_revision_ok events run s i n m)"

definition current_private :: "delta_state \<Rightarrow> uuid \<Rightarrow> bool" where
  "current_private s i \<longleftrightarrow> (\<exists>m. dict_get (ds_memories s) i = Some m \<and>
     mr_kind m = Kind_PRIVATE_STATUS \<and> mr_validity m = Validity_ACTIVE)"

definition private_ok :: "delta_state \<Rightarrow> bool" where
  "private_ok s \<longleftrightarrow> (\<forall>i. ds_private s = Some i \<longleftrightarrow> current_private s i)"

lemma evidence_known_mono:
  assumes "evidence_known E h rs" and "\<And>k. has_key E k \<Longrightarrow> has_key E' k"
    and "\<And>k. has_key h k \<Longrightarrow> has_key h' k"
  shows "evidence_known E' h' rs"
  using assms unfolding evidence_known_def by metis

lemma validate_evidence_known:
  "validate_evidence E h rs n = Inr () \<Longrightarrow> evidence_known E h rs"
proof (induction E h rs n rule: validate_evidence.induct)
  case (2 E h r rs n)
  then show ?case
    by (auto simp: evidence_known_def has_key_def simp del: not_has_key_get split: if_splits option.splits)
qed (simp add: evidence_known_def)

lemma validate_memory_target_Inr:
  "validate_memory_target ms i n = Inr m \<longleftrightarrow>
     dict_get ms i = Some m \<and> mr_revision m = n \<and> mr_validity m = Validity_ACTIVE"
  by (auto simp: validate_memory_target_def checks_Inr split: option.splits)

lemma store_memory_Inr:
  "store_memory m s = Inr s' \<longleftrightarrow> \<not> has_key (ds_history s) (mr_memory_id m, mr_revision m) \<and>
     s' = s\<lparr>ds_history := dict_set (mr_memory_id m, mr_revision m) m (ds_history s),
            ds_memories := dict_set (mr_memory_id m) m (ds_memories s)\<rparr>"
  by (auto simp: store_memory_def checks_Inr)

lemma store_lookup:
  assumes "store_memory m s = Inr s'"
  shows "dict_get (ds_memories s') = (dict_get (ds_memories s))(mr_memory_id m \<mapsto> m)"
    and "ds_private s' = ds_private s"
  using assms unfolding store_memory_Inr by auto

lemma projected_memory_Inr: "projected_memory m = Inr m' \<longleftrightarrow> m' = m \<and> valid_memory_record m"
  by (auto simp: projected_memory_def)

definition extends :: "delta_state \<Rightarrow> memory_record \<Rightarrow> bool" where
  "extends s m \<longleftrightarrow> (case dict_get (ds_memories s) (mr_memory_id m) of
     None \<Rightarrow> mr_revision m = 1 \<and> mr_validity m = Validity_ACTIVE
   | Some q \<Rightarrow> memory_revises q m)"

lemma store_keeps_memories:
  assumes ok: "memories_ok E R s" and ext: "extends s m" and store: "store_memory m s = Inr s'"
    and m: "valid_memory_record m" "mr_run_id m = R" "evidence_known E (ds_history s) (mr_provenance m)"
  shows "memories_ok E R s'"
proof -
  let ?i = "mr_memory_id m"
  from store have fresh: "\<not> has_key (ds_history s) (?i, mr_revision m)"
    and h: "ds_history s' = dict_set (?i, mr_revision m) m (ds_history s)"
    and d: "ds_memories s' = dict_set ?i m (ds_memories s)"
    unfolding store_memory_Inr by auto
  have keep: "dict_get (ds_history s') k = Some x" if "dict_get (ds_history s) k = Some x" for k x
    using that fresh by (auto simp: h no_key)
  have keys: "has_key (ds_history s') k" if "has_key (ds_history s) k" for k using that by (simp add: h)
  have latest: "mr_memory_id x = i \<and> dict_get (ds_history s) (i, mr_revision x) = Some x"
    if "dict_get (ds_memories s) i = Some x" for i x
    using ok that by (simp add: memories_ok_def)
  have rev: "memory_revision_ok E R s i n x" if "dict_get (ds_history s) (i, n) = Some x" for i n x
    using ok that by (simp add: memories_ok_def)
  have grow: "\<exists>l. dict_get (ds_memories s') i = Some l \<and> n \<le> mr_revision l"
    if l: "dict_get (ds_memories s) i = Some l" "n \<le> mr_revision l" for i n l
    using that ext by (cases "i = ?i") (auto simp: d extends_def memory_revises_def)
  have old: "memory_revision_ok E R s' i n x" if "dict_get (ds_history s) (i, n) = Some x" for i n x
    using rev [OF that] grow keep evidence_known_mono [of E "ds_history s" "mr_provenance x" E "ds_history s'"] keys
    unfolding memory_revision_ok_def by (metis (full_types))
  have "if mr_revision m = 1 then mr_validity m = Validity_ACTIVE
    else \<exists>q. dict_get (ds_history s') (?i, mr_revision m - 1) = Some q \<and> memory_revises q m"
  proof (cases "dict_get (ds_memories s) ?i")
    case (Some q)
    with ext have "memory_revises q m" by (simp add: extends_def)
    moreover from latest [OF Some] keep have "dict_get (ds_history s') (?i, mr_revision q) = Some q" by blast
    moreover have "1 \<le> mr_revision q" using rev latest [OF Some] by (auto simp: memory_revision_ok_def)
    ultimately show ?thesis by (auto simp: memory_revises_def)
  qed (use ext in \<open>simp add: extends_def\<close>)
  moreover have "1 \<le> mr_revision m" using m(1) by (simp add: valid_memory_record_def)
  ultimately have new: "memory_revision_ok E R s' ?i (mr_revision m) m"
    using m evidence_known_mono [OF m(3), of E "ds_history s'"] keys
    by (simp add: memory_revision_ok_def d)
  have "dict_wf (ds_memories s')" "dict_wf (ds_history s')"
    using ok by (simp_all add: memories_ok_def h d)
  moreover have "mr_memory_id x = i \<and> dict_get (ds_history s') (i, mr_revision x) = Some x"
    if "dict_get (ds_memories s') i = Some x" for i x
    using that latest [of i x] keep by (cases "i = ?i") (auto simp: d h)
  moreover have "memory_revision_ok E R s' i n x" if "dict_get (ds_history s') (i, n) = Some x" for i n x
    using that old new by (auto simp: h split: if_splits)
  ultimately show ?thesis unfolding memories_ok_def by blast
qed


lemma store_private:
  assumes "private_ok s" and "store_memory m s = Inr s'"
    and "(mr_kind m = Kind_PRIVATE_STATUS \<and> mr_validity m = Validity_ACTIVE) = current_private s (mr_memory_id m)"
  shows "private_ok s'"
  using assms unfolding store_memory_Inr private_ok_def current_private_def by (auto split: if_splits)

definition dict_le :: "('k, 'v) dict \<Rightarrow> ('k, 'v) dict \<Rightarrow> bool" where
  "dict_le a b \<longleftrightarrow> (\<forall>k v. dict_get a k = Some v \<longrightarrow> dict_get b k = Some v)"

lemma dict_le_refl [simp]: "dict_le a a"
  by (simp add: dict_le_def)

lemma dict_le_trans: "dict_le a b \<Longrightarrow> dict_le b c \<Longrightarrow> dict_le a c"
  by (simp add: dict_le_def)

lemma dict_le_key: "dict_le a b \<Longrightarrow> has_key a k \<Longrightarrow> has_key b k"
  unfolding dict_le_def has_key_def by (metis option.exhaust option.distinct(1))

text \<open>The state of a delta in progress, relative to the projection it started from.\<close>

definition delta_ok :: "projection \<Rightarrow> delta_state \<Rightarrow> bool" where
  "delta_ok p s \<longleftrightarrow> memories_ok (pr_events_by_id p) (pr_run_id p) s \<and> private_ok s \<and>
     dict_le (pr_memory_history p) (ds_history s)"

lemma history_grows: "store_memory m s = Inr s' \<Longrightarrow> dict_le (ds_history s) (ds_history s')"
  unfolding store_memory_Inr dict_le_def by (auto simp: no_key)

lemma new_memory_Inr:
  assumes "new_memory run i create t = Inr m"
  shows "mr_memory_id m = i" and "mr_run_id m = run" and "mr_kind m = mc_kind create"
    and "mr_provenance m = mc_provenance create" and "mr_validity m = Validity_ACTIVE"
    and "mr_revision m = 1" and "valid_memory_record m"
  using assms unfolding new_memory_def projected_memory_Inr by auto

lemma delta_ok_latest:
  assumes "delta_ok p s" and "dict_get (ds_memories s) i = Some m"
  shows "mr_memory_id m = i" and "mr_run_id m = pr_run_id p"
    and "evidence_known (pr_events_by_id p) (ds_history s) (mr_provenance m)"
  using assms unfolding delta_ok_def memories_ok_def memory_revision_ok_def by blast+

lemma delta_ok_store:
  assumes ok: "delta_ok p s" and "extends s m" and store: "store_memory m s = Inr s'"
    and "valid_memory_record m" and "mr_run_id m = pr_run_id p"
    and "evidence_known (pr_events_by_id p) (ds_history s) (mr_provenance m)"
    and "(mr_kind m = Kind_PRIVATE_STATUS \<and> mr_validity m = Validity_ACTIVE) = current_private s (mr_memory_id m)"
  shows "delta_ok p s'"
  using store_keeps_memories [OF _ assms(2,3,4,5,6)] store_private [OF _ store assms(7)]
    history_grows [OF store] ok dict_le_trans unfolding delta_ok_def by blast

lemma create_keeps:
  assumes ok: "delta_ok p s" and step: "apply_create p delta assignments n create s = Inr s'"
    and kind: "mc_kind create \<noteq> Kind_PRIVATE_STATUS"
  shows "delta_ok p s'"
proof -
  from step obtain i m where fresh: "dict_get (ds_memories s) i = None"
    and ev: "validate_evidence (pr_events_by_id p) (pr_memory_history p) (mc_provenance create) n = Inr ()"
    and m: "new_memory (pr_run_id p) i create (md_created_at delta) = Inr m" and store: "store_memory m s = Inr s'"
    by (auto simp: apply_create_def bind_result_Inr checks_Inr no_key)
  note m' = new_memory_Inr [OF m]
  have "evidence_known (pr_events_by_id p) (ds_history s) (mr_provenance m)"
    using evidence_known_mono [OF validate_evidence_known [OF ev]] ok m'(4) dict_le_key unfolding delta_ok_def by metis
  then show ?thesis
    using delta_ok_store [OF ok _ store m'(7,2)] fresh m' kind
    by (simp add: extends_def current_private_def)
qed

lemma apply_update_Inr:
  assumes "apply_update p delta n u s = Inr s'"
  obtains q m where "dict_get (ds_memories s) (mu_memory_id u) = Some q" and "mr_validity q = Validity_ACTIVE"
    and "valid_memory_record m" and "store_memory m s = Inr s'" and "memory_revises q m"
    and "mr_validity m = Validity_ACTIVE"
    and "validate_evidence (pr_events_by_id p) (ds_history s) (mr_provenance m) n = Inr ()"
proof -
  note step = assms [unfolded apply_update_def bind_result_Inr checks_Inr validate_memory_target_Inr
      Let_def projected_memory_Inr]
  then obtain q m where q: "dict_get (ds_memories s) (mu_memory_id u) = Some q" "mr_validity q = Validity_ACTIVE"
    and time: "mr_updated_at q \<le> md_created_at delta"
    and m: "m = q\<lparr>mr_content := (case mu_content u of None \<Rightarrow> mr_content q | Some c \<Rightarrow> c),
        mr_provenance := (case mu_provenance u of None \<Rightarrow> mr_provenance q | Some e \<Rightarrow> e),
        mr_confidence := (case mu_confidence u of None \<Rightarrow> mr_confidence q | Some c \<Rightarrow> c),
        mr_expires_at := (case ep_action (mu_expiration u) of Expire_KEEP \<Rightarrow> mr_expires_at q
          | Expire_SET \<Rightarrow> ep_value (mu_expiration u) | Expire_CLEAR \<Rightarrow> None),
        mr_trust_label := Trust_UNTRUSTED_MODEL_OUTPUT, mr_revision := mr_revision q + 1,
        mr_updated_at := md_created_at delta\<rparr>"
      "valid_memory_record m" "store_memory m s = Inr s'"
    and ev: "validate_evidence (pr_events_by_id p) (ds_history s)
      (case mu_provenance u of None \<Rightarrow> mr_provenance q | Some e \<Rightarrow> e) n = Inr ()"
    by auto
  have "memory_revises q m" using time q(2) by (simp add: memory_revises_def m(1))
  with that [OF q m(2,3)] ev q(2) show thesis by (simp add: m(1))
qed

lemma update_keeps:
  assumes ok: "delta_ok p s" and step: "apply_update p delta n u s = Inr s'"
  shows "delta_ok p s'"
proof -
  obtain q m where q: "dict_get (ds_memories s) (mu_memory_id u) = Some q" "mr_validity q = Validity_ACTIVE"
    and m: "valid_memory_record m" "store_memory m s = Inr s'" "memory_revises q m" "mr_validity m = Validity_ACTIVE"
    and ev: "validate_evidence (pr_events_by_id p) (ds_history s) (mr_provenance m) n = Inr ()"
    using step by (rule apply_update_Inr)
  note q' = delta_ok_latest [OF ok q(1)]
  have same: "mr_memory_id m = mu_memory_id u" "mr_kind m = mr_kind q" "mr_run_id m = mr_run_id q"
    using m(3) q' by (auto simp: memory_revises_def)
  show ?thesis
    using delta_ok_store [OF ok _ m(2,1)] validate_evidence_known [OF ev] m q q' same
    by (simp add: extends_def current_private_def)
qed

lemma invalidation_keeps:
  assumes ok: "delta_ok p s" and step: "apply_invalidation delta i s = Inr s'"
  shows "delta_ok p s'"
proof -
  let ?i = "mi_memory_id i"
  from step obtain q s1 where q: "dict_get (ds_memories s) ?i = Some q" "mr_validity q = Validity_ACTIVE"
    and time: "mr_updated_at q \<le> md_created_at delta"
    and stored: "bind_result (projected_memory (q\<lparr>mr_validity := Validity_INVALIDATED,
        mr_invalidated_at := Some (md_created_at delta), mr_revision := mr_revision q + 1,
        mr_updated_at := md_created_at delta\<rparr>)) (\<lambda>m. store_memory m s) = Inr s1"
    and s': "s' = (if ds_private s1 = Some (mr_memory_id q) then s1\<lparr>ds_private := None\<rparr> else s1)"
    by (auto simp: apply_invalidation_def bind_result_Inr checks_Inr validate_memory_target_Inr)
  then obtain m where m: "valid_memory_record m" "store_memory m s = Inr s1" "memory_revises q m"
    "mr_provenance m = mr_provenance q" "mr_validity m = Validity_INVALIDATED"
    unfolding bind_result_Inr projected_memory_Inr memory_revises_def using time q(2) by force
  note q' = delta_ok_latest [OF ok q(1)]
  have same: "mr_memory_id m = ?i" "mr_run_id m = pr_run_id p" using m(3) q' by (auto simp: memory_revises_def)
  have "extends s m" using q(1) m(3) same(1) by (simp add: extends_def)
  moreover have "memories_ok (pr_events_by_id p) (pr_run_id p) s" using ok by (simp add: delta_ok_def)
  ultimately have core: "memories_ok (pr_events_by_id p) (pr_run_id p) s1"
    using store_keeps_memories [OF _ _ m(2,1)] same(2) q'(3) m(4) by simp
  have "private_ok s" using ok by (simp add: delta_ok_def)
  moreover have "current_private s' j \<longleftrightarrow> j \<noteq> ?i \<and> current_private s j" for j
    using store_lookup(1) [OF m(2)] m(5) same(1) by (auto simp: s' current_private_def)
  moreover have "ds_private s' = (if ds_private s = Some ?i then None else ds_private s)"
    using store_lookup(2) [OF m(2)] q'(1) by (simp add: s')
  ultimately have "private_ok s'" unfolding private_ok_def by (metis option.distinct(1) option.inject)
  moreover have "memories_ok (pr_events_by_id p) (pr_run_id p) s'"
    using core by (simp add: s' memories_ok_def memory_revision_ok_def)
  moreover have "ds_history s' = ds_history s1" by (simp add: s')
  then have "dict_le (pr_memory_history p) (ds_history s')"
    using ok history_grows [OF m(2)] dict_le_trans unfolding delta_ok_def by metis
  ultimately show ?thesis by (simp add: delta_ok_def)
qed

lemma supersede_keeps:
  assumes ok: "delta_ok p s" and step: "supersede_private delta rep s = Inr s'"
  shows "memories_ok (pr_events_by_id p) (pr_run_id p) s' \<and> (\<forall>i. \<not> current_private s' i) \<and>
    dict_le (pr_memory_history p) (ds_history s')"
proof (cases "ps_expected_memory_id rep")
  case None
  with step have "s' = s" "ds_private s = None" by (auto simp: supersede_private_def checks_Inr)
  with ok show ?thesis by (auto simp: delta_ok_def private_ok_def)
next
  case (Some target)
  with step obtain q where q: "dict_get (ds_memories s) target = Some q" "mr_validity q = Validity_ACTIVE"
    "ds_private s = Some (mr_memory_id q)"
    and time: "mr_updated_at q \<le> md_created_at delta"
    and stored: "bind_result (projected_memory (q\<lparr>mr_validity := Validity_SUPERSEDED,
        mr_revision := mr_revision q + 1, mr_updated_at := md_created_at delta\<rparr>)) (\<lambda>m. store_memory m s) = Inr s'"
    by (auto simp: supersede_private_def bind_result_Inr checks_Inr validate_memory_target_Inr)
  then obtain m where m: "valid_memory_record m" "store_memory m s = Inr s'" "memory_revises q m"
    "mr_provenance m = mr_provenance q" "mr_validity m = Validity_SUPERSEDED"
    unfolding bind_result_Inr projected_memory_Inr memory_revises_def by force
  note q' = delta_ok_latest [OF ok q(1)]
  have same: "mr_memory_id m = target" "mr_run_id m = pr_run_id p" using m(3) q' by (auto simp: memory_revises_def)
  have "extends s m" using q(1) m(3) same(1) by (simp add: extends_def)
  moreover have "memories_ok (pr_events_by_id p) (pr_run_id p) s" "private_ok s" using ok by (simp_all add: delta_ok_def)
  ultimately have "memories_ok (pr_events_by_id p) (pr_run_id p) s'"
    using store_keeps_memories [OF _ _ m(2,1)] same(2) q'(3) m(4) by simp
  moreover have "\<not> current_private s' i" for i
  proof -
    have "current_private s' i \<longleftrightarrow> i \<noteq> target \<and> current_private s i"
      using store_lookup(1) [OF m(2)] m(5) same(1) by (auto simp: current_private_def)
    then show ?thesis using \<open>private_ok s\<close> q(3) q'(1) unfolding private_ok_def by (metis option.inject)
  qed
  moreover have "dict_le (pr_memory_history p) (ds_history s')"
    using ok history_grows [OF m(2)] dict_le_trans unfolding delta_ok_def by blast
  ultimately show ?thesis by blast
qed

lemma replacement_keeps:
  assumes ok: "delta_ok p s" and step: "apply_replacement p delta assignments n rep s = Inr s'"
    and kind: "mc_kind (ps_replacement rep) = Kind_PRIVATE_STATUS"
  shows "delta_ok p s'"
proof -
  from step obtain s1 i m s2 where sup: "supersede_private delta rep s = Inr s1"
    and fresh: "dict_get (ds_memories s1) i = None"
    and ev: "validate_evidence (pr_events_by_id p) (ds_history s1) (mc_provenance (ps_replacement rep)) n = Inr ()"
    and m: "new_memory (pr_run_id p) i (ps_replacement rep) (md_created_at delta) = Inr m"
    and store: "store_memory m s1 = Inr s2" and s': "s' = s2\<lparr>ds_private := Some i\<rparr>"
    by (auto simp: apply_replacement_def bind_result_Inr checks_Inr no_key)
  note m' = new_memory_Inr [OF m]
  have s1: "memories_ok (pr_events_by_id p) (pr_run_id p) s1" "\<And>i. \<not> current_private s1 i"
    "dict_le (pr_memory_history p) (ds_history s1)"
    using supersede_keeps [OF ok sup] by blast+
  have "extends s1 m" using fresh m' by (simp add: extends_def)
  then have core: "memories_ok (pr_events_by_id p) (pr_run_id p) s2"
    using store_keeps_memories [OF s1(1) _ store m'(7,2)] validate_evidence_known [OF ev] m'(4) by simp
  have "current_private s2 j \<longleftrightarrow> j = i" for j
    using s1(2) store m' kind unfolding current_private_def store_memory_Inr by auto
  then have "private_ok s'" by (auto simp: private_ok_def s' current_private_def)
  moreover have "memories_ok (pr_events_by_id p) (pr_run_id p) s'"
    using core by (simp add: s' memories_ok_def memory_revision_ok_def)
  ultimately show ?thesis
    using dict_le_trans [OF s1(3) history_grows [OF store]] by (simp add: delta_ok_def s')
qed


section \<open>The invariant of the projection\<close>

definition delta_state_of :: "projection \<Rightarrow> delta_state" where
  "delta_state_of p = \<lparr>ds_history = pr_memory_history p, ds_memories = pr_memories p,
     ds_private = pr_current_private_status_id p\<rparr>"

definition memory_inv :: "projection \<Rightarrow> bool" where
  "memory_inv p \<longleftrightarrow> memories_ok (pr_events_by_id p) (pr_run_id p) (delta_state_of p) \<and>
     private_ok (delta_state_of p)"

lemma private_replacement_kind:
  assumes "valid_memory_delta d" and "md_private_status_replacement d = Some rep"
  shows "mc_kind (ps_replacement rep) = Kind_PRIVATE_STATUS"
  using assms by (auto simp: valid_memory_delta_def opt_all_def valid_private_status_replacement_def)

lemma preview_keeps:
  assumes inv: "memory_inv p" and step: "preview_memory_delta p delta assignments n = Inr p'"
    and valid: "valid_memory_delta delta"
  shows "memory_inv p' \<and> dict_le (pr_memory_history p) (pr_memory_history p')"
proof -
  from step obtain s1 s2 s3 s4 where creates: "fold_result (apply_create p delta assignments n) (md_creates delta) (delta_state_of p) = Inr s1"
    and updates: "fold_result (apply_update p delta n) (md_updates delta) s1 = Inr s2"
    and invalidations: "fold_result (apply_invalidation delta) (md_invalidations delta) s2 = Inr s3"
    and replacement: "(case md_private_status_replacement delta of None \<Rightarrow> Inr s3
      | Some rep \<Rightarrow> apply_replacement p delta assignments n rep s3) = Inr s4"
    and p': "p' = p\<lparr>pr_memory_history := ds_history s4, pr_memories := ds_memories s4,
      pr_current_private_status_id := ds_private s4\<rparr>"
    unfolding preview_memory_delta_def delta_state_of_def checks_Inr bind_result_Inr by blast
  have "delta_ok p (delta_state_of p)"
    using inv by (simp add: delta_ok_def memory_inv_def) (simp add: delta_state_of_def)
  moreover have "mc_kind c \<noteq> Kind_PRIVATE_STATUS" if "c \<in> set (md_creates delta)" for c
    using valid that by (auto simp: valid_memory_delta_def list_ex_iff)
  ultimately have "delta_ok p s1"
    using fold_result_invariant [OF creates, of "delta_ok p"] create_keeps by blast
  then have "delta_ok p s2" using fold_result_invariant [OF updates, of "delta_ok p"] update_keeps by blast
  then have "delta_ok p s3" using fold_result_invariant [OF invalidations, of "delta_ok p"] invalidation_keeps by blast
  then have ok: "delta_ok p s4"
    using replacement replacement_keeps private_replacement_kind [OF valid]
    by (cases "md_private_status_replacement delta") auto
  have "delta_state_of p' = s4" by (simp add: p' delta_state_of_def)
  with ok show ?thesis by (simp add: delta_ok_def memory_inv_def p')
qed

lemma memory_inv_cong:
  assumes "memory_part p' = memory_part p" and "events_part p' = events_part p"
  shows "memory_inv p' \<longleftrightarrow> memory_inv p"
proof -
  have "delta_state_of p' = delta_state_of p" "pr_events_by_id p' = pr_events_by_id p" "pr_run_id p' = pr_run_id p"
    using assms by (simp_all add: memory_part_def events_part_def delta_state_of_def)
  then show ?thesis unfolding memory_inv_def by metis
qed

lemma memory_inv_frame:
  "memory_part p' = memory_part p \<Longrightarrow> events_part p' = events_part p \<Longrightarrow> memory_inv p \<Longrightarrow> memory_inv p'"
  using memory_inv_cong by blast

lemma memory_inv_event:
  assumes inv: "memory_inv p" and step: "apply_event p entry e = Inr p'"
  shows "memory_inv p'"
proof -
  have run: "pr_run_id p' = pr_run_id p" using event_frame(5) [OF step] .
  have same: "delta_state_of p' = delta_state_of p"
    using event_frame(2) [OF step] by (simp add: memory_part_def delta_state_of_def)
  have "pr_events_by_id p' = dict_set (ev_event_id e) e (pr_events_by_id p)"
    using step [unfolded apply_event_Inr] by (elim conjE) (erule ssubst, simp)
  then have grow: "has_key (pr_events_by_id p') k" if "has_key (pr_events_by_id p) k" for k using that by simp
  have "memory_revision_ok (pr_events_by_id p') R s i n m" if "memory_revision_ok (pr_events_by_id p) R s i n m" for R s i n m
    using that evidence_known_mono [of "pr_events_by_id p" "ds_history s" "mr_provenance m" "pr_events_by_id p'" "ds_history s"] grow
    unfolding memory_revision_ok_def by blast
  then show ?thesis
    using inv unfolding memory_inv_def memories_ok_def same run by blast
qed

lemma memory_inv_cycle:
  assumes inv: "memory_inv p" and step: "apply_cycle H F p c = Inr p'" and valid: "valid_cycle_record H c"
  shows "memory_inv p'"
proof -
  obtain updated where u: "(if cy_state c = Cycle_COMMITTED
      then commit_effects H F p c (dict_get (pr_cycles p) (cy_cycle_id c)) else Inr p) = Inr updated"
    and p': "p' = updated\<lparr>pr_cycle_history := dict_set (cy_cycle_id c, cy_revision c) c (pr_cycle_history p),
      pr_cycles := dict_set (cy_cycle_id c) c (pr_cycles p)\<rparr>"
    using step by (rule apply_cycle_Inr)
  have same: "memory_part p' = memory_part updated" "events_part p' = events_part updated"
    by (simp_all add: p' memory_part_def events_part_def)
  have "memory_inv updated"
  proof (cases "cy_state c = Cycle_COMMITTED")
    case True
    with u have "commit_effects H F p c (dict_get (pr_cycles p) (cy_cycle_id c)) = Inr updated" by simp
    then obtain delta mid where d: "cy_validated_delta c = Some delta"
      "preview_memory_delta p delta (cy_memory_id_assignments c) (cy_last_event_sequence c) = Inr mid"
      and mid: "memory_part updated = memory_part mid" "events_part updated = events_part mid"
      by (elim commit_effects_Inr) (simp add: memory_part_def events_part_def)
    have "valid_memory_delta delta"
      using valid d(1) by (simp add: valid_cycle_record_def cycle_fields_ok_def opt_all_def)
    from preview_keeps [OF inv d(2) this] have "memory_inv mid" by simp
    with mid show ?thesis by (rule memory_inv_frame)
  qed (use u inv in simp)
  with same show ?thesis by (rule memory_inv_frame)
qed

lemma reachable_memory:
  assumes "reachable H F run_id p"
  shows "memory_inv p"
  using assms
proof (induction rule: reachable_invariant)
  case empty
  show ?case
    by (simp add: memory_inv_def memories_ok_def private_ok_def delta_state_of_def empty_projection_def current_private_def)
next
  case (entry p e p')
  from entry.hyps(4) show ?case
  proof (cases rule: apply_entry_cases)
    case (cycle x)
    have "valid_cycle_record H x" using entry.hyps(2) unfolding cycle(1) valid_ledger_record_def by simp
    with entry.IH cycle(2) show ?thesis by (rule memory_inv_cycle)
  next
    case (event x)
    from entry.IH event(2) show ?thesis by (rule memory_inv_event)
  next
    case (signal x)
    from signal_frame(3,1) [OF signal(2)] entry.IH show ?thesis by (rule memory_inv_frame)
  next
    case (decision x)
    from decision_frame(3,1) [OF decision(2)] entry.IH show ?thesis by (rule memory_inv_frame)
  next
    case (outcome x)
    from outcome_frame(3,1) [OF outcome(2)] entry.IH show ?thesis by (rule memory_inv_frame)
  next
    case (delivery x)
    from delivery_frame(3,1) [OF delivery(2)] entry.IH show ?thesis by (rule memory_inv_frame)
  qed
qed

end
