(* ===== verification/Reminder_Invariants.thy ===== *)
theory Reminder_Invariants
  imports Memory_Invariants
begin

text \<open>
  Reminders on record: the grounding verification that the projector runs at every commit, read
  against the whole ledger. A committed reminder quotes events of the run and revisions of its
  memory history, which no later entry changes.
\<close>

definition claim_on_record :: "grounding_config \<Rightarrow> projection \<Rightarrow> int \<Rightarrow> intervention_claim \<Rightarrow> bool" where
  "claim_on_record cfg p n c \<longleftrightarrow>
     (\<exists>e quoted. ic_evidence c = [e] \<and> ic_fields c = JObj [(field_by_kind (ic_kind c), JStr quoted)] \<and>
        (if er_source e = Source_MEMORY
         then \<exists>revision m. er_revision e = Some revision \<and>
           dict_get (pr_memory_history p) (er_source_id e, revision) = Some m \<and>
           mr_validity m = Validity_ACTIVE \<and> mr_kind m = claim_memory_kind (ic_kind c) \<and>
           select_span (mr_content m) e = Some quoted
         else \<exists>ev source. dict_get (pr_events_by_id p) (er_source_id e) = Some ev \<and> ev_sequence ev \<le> n \<and>
           resolve_pointer cfg (JObj [(''payload'', ev_payload ev)]) (er_field_path e) = Some source \<and>
           select_span source e = Some quoted))"

definition reminder_on_record :: "projection \<Rightarrow> cycle_record \<Rightarrow> intervention_decision \<Rightarrow> bool" where
  "reminder_on_record p c i \<longleftrightarrow>
     (\<exists>cfg t. config_of_json (cy_grounding_configuration c) = Some cfg \<and> iv_claims i \<noteq> [] \<and>
        (\<forall>claim\<in>set (iv_claims i). claim_on_record cfg p (cy_last_event_sequence c) claim) \<and>
        iv_rendered_text i = Some t \<and> int (length t) \<le> rn_max_output_bytes (gc_rendering cfg) \<and>
        (\<exists>target\<in>set (gc_allowed_delivery_targets cfg). cy_requested_delivery_target c = Some target))"

definition reminders_inv :: "projection \<Rightarrow> bool" where
  "reminders_inv p \<longleftrightarrow>
     (\<forall>j c i. dict_get (pr_cycles p) j = Some c \<longrightarrow> cy_state c = Cycle_COMMITTED \<longrightarrow>
        cy_intervention c = Some i \<longrightarrow> iv_action i = Action_REMIND \<longrightarrow> reminder_on_record p c i)"

text \<open>What is on record stays on record.\<close>

definition record_grows :: "projection \<Rightarrow> projection \<Rightarrow> bool" where
  "record_grows p p' \<longleftrightarrow>
     (\<forall>k m. dict_get (pr_memory_history p) k = Some m \<longrightarrow> dict_get (pr_memory_history p') k = Some m) \<and>
     (\<forall>k e. dict_get (pr_events_by_id p) k = Some e \<longrightarrow> dict_get (pr_events_by_id p') k = Some e)"

lemma claim_stays_on_record:
  assumes "record_grows p p'" and "claim_on_record cfg p n c"
  shows "claim_on_record cfg p' n c"
proof -
  from assms(2) obtain e quoted where e: "ic_evidence c = [e]"
    "ic_fields c = JObj [(field_by_kind (ic_kind c), JStr quoted)]"
    and src: "if er_source e = Source_MEMORY
         then \<exists>revision m. er_revision e = Some revision \<and>
           dict_get (pr_memory_history p) (er_source_id e, revision) = Some m \<and>
           mr_validity m = Validity_ACTIVE \<and> mr_kind m = claim_memory_kind (ic_kind c) \<and>
           select_span (mr_content m) e = Some quoted
         else \<exists>ev source. dict_get (pr_events_by_id p) (er_source_id e) = Some ev \<and> ev_sequence ev \<le> n \<and>
           resolve_pointer cfg (JObj [(''payload'', ev_payload ev)]) (er_field_path e) = Some source \<and>
           select_span source e = Some quoted"
    unfolding claim_on_record_def by blast
  show ?thesis
  proof (cases "er_source e = Source_MEMORY")
    case True
    with src obtain revision m where m: "er_revision e = Some revision"
      "dict_get (pr_memory_history p) (er_source_id e, revision) = Some m"
      "mr_validity m = Validity_ACTIVE" "mr_kind m = claim_memory_kind (ic_kind c)"
      "select_span (mr_content m) e = Some quoted" by auto
    from m(2) assms(1) have "dict_get (pr_memory_history p') (er_source_id e, revision) = Some m"
      unfolding record_grows_def by blast
    with e m True show ?thesis
      unfolding claim_on_record_def by (intro exI [of _ e] exI [of _ quoted]) simp
  next
    case False
    with src obtain ev source where ev: "dict_get (pr_events_by_id p) (er_source_id e) = Some ev"
      "ev_sequence ev \<le> n" "resolve_pointer cfg (JObj [(''payload'', ev_payload ev)]) (er_field_path e) = Some source"
      "select_span source e = Some quoted" by auto
    from ev(1) assms(1) have "dict_get (pr_events_by_id p') (er_source_id e) = Some ev"
      unfolding record_grows_def by blast
    with e ev False show ?thesis
      unfolding claim_on_record_def by (intro exI [of _ e] exI [of _ quoted]) simp
  qed
qed

lemma reminder_stays_on_record:
  "record_grows p p' \<Longrightarrow> reminder_on_record p c i \<Longrightarrow> reminder_on_record p' c i"
  unfolding reminder_on_record_def using claim_stays_on_record by blast

text \<open>The state the verification is given holds only what the projection has.\<close>

definition from_record :: "projection \<Rightarrow> trace_event set \<Rightarrow> memory_record set \<Rightarrow> bool" where
  "from_record p es ms \<longleftrightarrow> (\<forall>e\<in>es. dict_get (pr_events_by_id p) (ev_event_id e) = Some e) \<and>
     (\<forall>m\<in>ms. dict_get (pr_memories p) (mr_memory_id m) = Some m)"

lemma from_record_set:
  assumes "from_record p (set (dict_values es)) (set (dict_values ms))"
  shows "dict_get (pr_events_by_id p) (ev_event_id e) = Some e \<Longrightarrow>
      from_record p (set (dict_values (dict_set k e es))) (set (dict_values ms))"
    and "dict_get (pr_memories p) (mr_memory_id m) = Some m \<Longrightarrow>
      from_record p (set (dict_values es)) (set (dict_values (dict_set j m ms)))"
  using assms set_dict_values_set [of k e es] set_dict_values_set [of j m ms]
  unfolding from_record_def by blast+

lemma select_cited_sources:
  assumes ids: "\<And>k e. dict_get (pr_events_by_id p) k = Some e \<Longrightarrow> ev_event_id e = k"
      "\<And>k m. dict_get (pr_memories p) k = Some m \<Longrightarrow> mr_memory_id m = k"
    and "select_cited p claims (es, ms) = (es', ms')"
    and "from_record p (set (dict_values es)) (set (dict_values ms))"
  shows "from_record p (set (dict_values es')) (set (dict_values ms'))"
  using assms(3,4)
proof (induction claims arbitrary: es ms)
  case (Cons claim claims)
  let ?id = "er_source_id (pc_evidence claim)"
  consider "select_cited p (claim # claims) (es, ms) = select_cited p claims (es, ms)"
    | e where "select_cited p (claim # claims) (es, ms) = select_cited p claims (dict_set (ev_event_id e) e es, ms)"
      "dict_get (pr_events_by_id p) ?id = Some e"
    | m where "select_cited p (claim # claims) (es, ms) = select_cited p claims (es, dict_set (mr_memory_id m) m ms)"
      "dict_get (pr_memories p) ?id = Some m"
    by (cases "er_source (pc_evidence claim) = Source_EVENT"; cases "dict_get (pr_events_by_id p) ?id";
        cases "dict_get (pr_memories p) ?id") (auto simp: Let_def)
  then show ?case
  proof cases
    case 1
    with Cons.prems show ?thesis by (intro Cons.IH [of es ms]) simp_all
  next
    case (2 e)
    have "dict_get (pr_events_by_id p) (ev_event_id e) = Some e" using 2(2) ids(1) [OF 2(2)] by simp
    from Cons.IH [OF _ from_record_set(1) [OF Cons.prems(2) this]] 2(1) Cons.prems(1) show ?thesis by simp
  next
    case (3 m)
    have "dict_get (pr_memories p) (mr_memory_id m) = Some m" using 3(2) ids(2) [OF 3(2)] by simp
    from Cons.IH [OF _ from_record_set(2) [OF Cons.prems(2) this]] 3(1) Cons.prems(1) show ?thesis by simp
  qed
qed simp

lemma events_inv_id: "events_inv p \<Longrightarrow> dict_get (pr_events_by_id p) k = Some e \<Longrightarrow> ev_event_id e = k"
  unfolding events_inv_def by blast

lemma memory_inv_latest:
  assumes "memory_inv p" and "dict_get (pr_memories p) k = Some m"
  shows "mr_memory_id m = k" and "dict_get (pr_memory_history p) (k, mr_revision m) = Some m"
  using assms by (auto simp: memory_inv_def memories_ok_def delta_state_of_def)

lemma grounding_state_from_record:
  assumes "events_inv p" and "memory_inv p" and "dict_get (pr_events_by_sequence p) n = Some current"
  shows "from_record p (set (gs_events (grounding_state_of p current claims h)))
    (set (gs_memories (grounding_state_of p current claims h)))"
proof -
  obtain es ms where sel: "select_cited p claims ([(ev_event_id current, current)], []) = (es, ms)" by fastforce
  have "dict_get (pr_events_by_id p) (ev_event_id current) = Some current"
    using assms(1,3) unfolding events_inv_def event_placed_def by blast
  then have "from_record p (set (dict_values [(ev_event_id current, current)])) (set (dict_values []))"
    by (simp add: from_record_def dict_values_def)
  from select_cited_sources [OF events_inv_id [OF assms(1)] memory_inv_latest(1) [OF assms(2)] sel this]
  show ?thesis by (simp add: grounding_state_of_def sel)
qed

lemma backed_claim_on_record:
  assumes mem: "memory_inv p"
    and fr: "from_record p (set (gs_events st)) (set (gs_memories st))"
    and "claim_backed cfg ctx st c" and "gx_current_event_sequence ctx = n"
  shows "claim_on_record cfg p n c"
proof -
  from assms(3) obtain e quoted where e: "ic_evidence c = [e]"
    "ic_fields c = JObj [(field_by_kind (ic_kind c), JStr quoted)]"
    and src: "if er_source e = Source_MEMORY then backed_by_memory ctx st (ic_kind c) e quoted
         else backed_by_event cfg ctx st e quoted"
    unfolding claim_backed_def by blast
  show ?thesis
  proof (cases "er_source e = Source_MEMORY")
    case True
    with src obtain m where m: "m \<in> set (gs_memories st)" "mr_memory_id m = er_source_id e" "mr_validity m = Validity_ACTIVE"
      "er_revision e = Some (mr_revision m)" "mr_kind m = claim_memory_kind (ic_kind c)"
      "select_span (mr_content m) e = Some quoted" by (auto simp: backed_by_memory_def)
    from fr m(1,2) have "dict_get (pr_memories p) (er_source_id e) = Some m" by (auto simp: from_record_def)
    from memory_inv_latest(2) [OF mem this] e m True show ?thesis
      unfolding claim_on_record_def by (intro exI [of _ e] exI [of _ quoted]) simp
  next
    case False
    with src obtain ev source where ev: "ev \<in> set (gs_events st)" "ev_event_id ev = er_source_id e"
      "ev_sequence ev \<le> n" "resolve_pointer cfg (JObj [(''payload'', ev_payload ev)]) (er_field_path e) = Some source"
      "select_span source e = Some quoted" using assms(4) by (auto simp: backed_by_event_def)
    from fr ev(1,2) have "dict_get (pr_events_by_id p) (er_source_id e) = Some ev" by (auto simp: from_record_def)
    with e ev False show ?thesis
      unfolding claim_on_record_def by (intro exI [of _ e] exI [of _ quoted]) simp
  qed
qed


lemma authoritatively_verify_Inr:
  assumes "authoritatively_verify H F p c i = Inr ()"
  obtains cfg resolved r h current where "resolved_cycle_grounding H F c = Inr (cfg, resolved)"
    and "dict_get (pr_events_by_sequence p) (cy_last_event_sequence c) = Some current"
    and "iv_grounding_configuration i = cy_grounding_configuration c"
    and "gr_requested_delivery_target r = cy_requested_delivery_target c"
    and "verify_grounded_intervention H F i (grounding_context_of c i r)
      (grounding_state_of p current (gr_claims r) h) resolved = Inr ()"
proof -
  from assms obtain cfg resolved r sel where pin: "resolved_cycle_grounding H F c = Inr (cfg, resolved)"
    and r: "receipt_of_json H F (iv_grounding_receipt i) = Some r" and sel: "selector_of_cycle H F c = Some sel"
    unfolding authoritatively_verify_def by (auto split: sum.splits option.splits)
  from assms have m: "receipt_matches_cycle c i r sel"
    unfolding authoritatively_verify_def pin r sel by (auto split: if_splits)
  with assms obtain current h where cur: "dict_get (pr_events_by_sequence p) (cy_last_event_sequence c) = Some current"
    and h: "reminder_window H F p cfg (cy_last_event_sequence c) = Some h"
    unfolding authoritatively_verify_def pin r sel by (auto split: option.splits)
  from assms m have v: "verify_grounded_intervention H F i (grounding_context_of c i r)
      (grounding_state_of p current (gr_claims r) h) resolved = Inr ()"
    unfolding authoritatively_verify_def pin r sel cur h
    by (simp add: Let_def cur h split: if_splits sum.splits)
  from m have "iv_grounding_configuration i = cy_grounding_configuration c"
    "gr_requested_delivery_target r = cy_requested_delivery_target c"
    by (simp_all add: receipt_matches_cycle_def)
  from that [OF pin cur this v] show thesis .
qed

lemma resolved_cycle_config:
  assumes "resolved_cycle_grounding H F c = Inr (cfg, resolved)"
  shows "config_of_json (cy_grounding_configuration c) = Some cfg"
  using assms by (auto simp: resolved_cycle_grounding_def split: option.splits sum.splits if_splits)

lemma verified_on_record:
  assumes H: "hex_digest H" and ev: "events_inv p" and mem: "memory_inv p"
    and verified: "authoritatively_verify H F p c i = Inr ()" and remind: "iv_action i = Action_REMIND"
  shows "reminder_on_record p c i"
proof -
  obtain cfg resolved r h current where pin: "resolved_cycle_grounding H F c = Inr (cfg, resolved)"
    and cur: "dict_get (pr_events_by_sequence p) (cy_last_event_sequence c) = Some current"
    and conf: "iv_grounding_configuration i = cy_grounding_configuration c"
    and v: "verify_grounded_intervention H F i (grounding_context_of c i r)
      (grounding_state_of p current (gr_claims r) h) resolved = Inr ()"
    using verified by (rule authoritatively_verify_Inr)
  let ?ctx = "grounding_context_of c i r"
  let ?st = "grounding_state_of p current (gr_claims r) h"
  from verified_backed [OF H v remind] obtain cfg' t where cfg': "config_of_json (iv_grounding_configuration i) = Some cfg'"
    and claims: "iv_claims i \<noteq> []" "\<forall>cl\<in>set (iv_claims i). claim_backed cfg' ?ctx ?st cl"
    and t: "iv_rendered_text i = Some t" "int (length t) \<le> rn_max_output_bytes (gc_rendering cfg')"
    and target: "iv_delivery_target i = gx_requested_delivery_target ?ctx"
      "\<exists>target\<in>set (gc_allowed_delivery_targets cfg'). iv_delivery_target i = Some target"
    by blast
  have seq: "gx_current_event_sequence ?ctx = cy_last_event_sequence c"
    and req: "gx_requested_delivery_target ?ctx = cy_requested_delivery_target c"
    by (simp_all add: grounding_context_of_def)
  have "claim_on_record cfg' p (cy_last_event_sequence c) cl" if "cl \<in> set (iv_claims i)" for cl
    using backed_claim_on_record [OF mem grounding_state_from_record [OF ev mem cur] _ seq] claims(2) that by blast
  with cfg' claims(1) t target show ?thesis
    unfolding reminder_on_record_def conf req by metis
qed

lemma reminders_inv_cycle:
  assumes H: "hex_digest H" and ev: "events_inv p" and mem: "memory_inv p" and inv: "reminders_inv p"
    and step: "apply_cycle H F p c = Inr p'" and valid: "valid_cycle_record H c" and wf: "dict_wf (pr_cycles p)"
  shows "reminders_inv p'"
proof -
  obtain updated where u: "(if cy_state c = Cycle_COMMITTED
      then commit_effects H F p c (dict_get (pr_cycles p) (cy_cycle_id c)) else Inr p) = Inr updated"
    and p': "p' = updated\<lparr>pr_cycle_history := dict_set (cy_cycle_id c, cy_revision c) c (pr_cycle_history p),
      pr_cycles := dict_set (cy_cycle_id c) c (pr_cycles p)\<rparr>"
    using step by (rule apply_cycle_Inr)
  have grow: "record_grows p p'" and new: "cy_state c = Cycle_COMMITTED \<Longrightarrow> cy_intervention c = Some i \<Longrightarrow>
      iv_action i = Action_REMIND \<Longrightarrow> reminder_on_record p' c i" for i
  proof -
    have "record_grows p p' \<and> (\<forall>i. cy_state c = Cycle_COMMITTED \<longrightarrow> cy_intervention c = Some i \<longrightarrow>
      iv_action i = Action_REMIND \<longrightarrow> reminder_on_record p' c i)"
    proof (cases "cy_state c = Cycle_COMMITTED")
      case True
      with u have "commit_effects H F p c (dict_get (pr_cycles p) (cy_cycle_id c)) = Inr updated" by simp
      then obtain delta mid i where d: "cy_validated_delta c = Some delta" "cy_intervention c = Some i"
        "preview_memory_delta p delta (cy_memory_id_assignments c) (cy_last_event_sequence c) = Inr mid"
        and ver: "authoritatively_verify H F mid c i = Inr ()"
        and mid: "memory_part updated = memory_part mid" "events_part updated = events_part mid"
        by (elim commit_effects_Inr) (simp add: memory_part_def events_part_def)
      have vd: "valid_memory_delta delta" using valid d(1) by (simp add: valid_cycle_record_def cycle_fields_ok_def opt_all_def)
      have same: "events_part mid = events_part p"
        using preview_memory_delta_Inr [OF d(3)] by (auto simp: events_part_def)
      have mm: "memory_inv mid" using preview_keeps [OF mem d(3) vd] by simp
      have "dict_get (pr_memory_history mid) k = Some m" if "dict_get (pr_memory_history p) k = Some m" for k m
        using that preview_keeps [OF mem d(3) vd] unfolding dict_le_def by blast
      then have "record_grows p mid" using same by (simp add: record_grows_def events_part_def)
      moreover have "record_grows mid p'" using mid by (simp add: record_grows_def p' events_part_def memory_part_def)
      moreover have "iv_action i = Action_REMIND \<Longrightarrow> reminder_on_record mid c i"
        using verified_on_record [OF H events_inv_frame [OF same ev] mm ver] .
      ultimately show ?thesis
        using d(2) reminder_stays_on_record unfolding record_grows_def by fastforce
    next
      case False
      with u have "updated = p" by simp
      with False show ?thesis by (simp add: record_grows_def p')
    qed
    then show "record_grows p p'" "cy_state c = Cycle_COMMITTED \<Longrightarrow> cy_intervention c = Some i \<Longrightarrow>
      iv_action i = Action_REMIND \<Longrightarrow> reminder_on_record p' c i" by blast+
  qed
  have lookup: "d = c \<or> dict_get (pr_cycles p) j = Some d" if "dict_get (pr_cycles p') j = Some d" for j d
    using that by (auto simp: p' split: if_splits)
  show ?thesis
    unfolding reminders_inv_def
    using lookup new reminder_stays_on_record [OF grow] inv unfolding reminders_inv_def by metis
qed

lemma reminders_inv_grow:
  assumes "reminders_inv p" and "cycles_part p' = cycles_part p" and "record_grows p p'"
  shows "reminders_inv p'"
  using assms reminder_stays_on_record unfolding reminders_inv_def cycles_part_def by simp

lemma record_same:
  "memory_part p' = memory_part p \<Longrightarrow> events_part p' = events_part p \<Longrightarrow> record_grows p p'"
  by (simp add: record_grows_def memory_part_def events_part_def)

lemma event_record_grows:
  assumes "apply_event p entry e = Inr p'"
  shows "record_grows p p'"
proof -
  note s = assms [unfolded apply_event_Inr]
  from s have "\<not> has_key (pr_events_by_id p) (ev_event_id e)" by blast
  moreover from s have "pr_events_by_id p' = dict_set (ev_event_id e) e (pr_events_by_id p)"
    by (elim conjE) (erule ssubst, simp)
  moreover have "pr_memory_history p' = pr_memory_history p" using event_frame(2) [OF assms] by (simp add: memory_part_def)
  ultimately show ?thesis by (auto simp: record_grows_def)
qed

lemma reachable_reminders:
  assumes H: "hex_digest H" and "reachable H F run_id p"
  shows "reminders_inv p"
  using assms(2)
proof (induction rule: reachable_invariant)
  case empty
  show ?case by (simp add: reminders_inv_def empty_projection_def)
next
  case (entry p e p')
  from entry.hyps(4) show ?case
  proof (cases rule: apply_entry_cases)
    case (cycle x)
    have "valid_cycle_record H x" using entry.hyps(2) unfolding cycle(1) valid_ledger_record_def by simp
    moreover have "dict_wf (pr_cycles p)" using reachable_cycles [OF entry.hyps(1)] by (simp add: cycles_inv_def)
    ultimately show ?thesis
      using reminders_inv_cycle [OF H reachable_events reachable_memory entry.IH cycle(2)] entry.hyps(1) by blast
  next
    case (event x)
    from entry.IH event_frame(1) [OF event(2)] event_record_grows [OF event(2)] show ?thesis by (rule reminders_inv_grow)
  next
    case (signal x)
    from entry.IH signal_frame(2) [OF signal(2)] record_same [OF signal_frame(3,1) [OF signal(2)]]
    show ?thesis by (rule reminders_inv_grow)
  next
    case (decision x)
    from entry.IH decision_frame(2) [OF decision(2)] record_same [OF decision_frame(3,1) [OF decision(2)]]
    show ?thesis by (rule reminders_inv_grow)
  next
    case (outcome x)
    from entry.IH outcome_frame(2) [OF outcome(2)] record_same [OF outcome_frame(3,1) [OF outcome(2)]]
    show ?thesis by (rule reminders_inv_grow)
  next
    case (delivery x)
    from entry.IH delivery_frame(2) [OF delivery(2)] record_same [OF delivery_frame(3,1) [OF delivery(2)]]
    show ?thesis by (rule reminders_inv_grow)
  qed
qed

end
