(* ===== verification/Sample_Run.thy ===== *)
theory Sample_Run
  imports Reminder_Invariants Budget_Ledger
begin

text \<open>
  A concrete ledger, entry by entry: one event, an invoking decision, a cycle from pending to its
  committed reminder with one memory, and the delivery of that reminder up to its receipt. It is the
  run the witnesses of the ledger properties are evaluated on, with a constant hash for
  \<open>hashlib\<close>.
\<close>

definition sample_tag :: payload_digest where
  "sample_tag = \<lparr>pd_algorithm = Alg_SYNTHETIC_SHA256, pd_value = sample_digest\<rparr>"

definition sample_entry :: "int \<Rightarrow> ledger_record \<Rightarrow> ledger_entry" where
  "sample_entry n r = \<lparr>le_run_id = sample_uuid 1, le_position = n, le_record_key = ''k'',
     le_record_tag = sample_tag, le_previous_chain_tag = (if n = 1 then None else Some sample_tag),
     le_chain_tag = sample_tag, le_record = r\<rparr>"

definition sample_decision :: invocation_decision where
  "sample_decision = \<lparr>id_decision_id = sample_uuid 4, id_run_id = sample_uuid 1, id_event_sequence = 1,
     id_invoke = True, id_risk_score = None, id_reason_codes = [Reason_POLICY_ALWAYS],
     id_policy_version = ''p'', id_configuration_digest = sample_digest,
     id_budget_snapshot = sample_snapshot, id_cooldown_active = False, id_created_at = 1\<rparr>"

definition sample_pending :: cycle_record where
  "sample_pending = \<lparr>cy_cycle_id = zero_hash [], cy_run_id = sample_uuid 1, cy_revision = 1,
     cy_invocation_decision_id = sample_uuid 4, cy_policy_version = ''p'',
     cy_configuration_digest = sample_digest, cy_grounding_version = grounding_pipeline_version,
     cy_grounding_configuration = config_json sample_config,
     cy_grounding_configuration_digest = zero_hash [],
     cy_requested_delivery_target = Some Target_NEXT_MODEL_CALL,
     cy_first_event_sequence = 1, cy_last_event_sequence = 1, cy_state = Cycle_PENDING,
     cy_budget_reservation = None, cy_budget_settlement = None, cy_batch_digest = None,
     cy_model_call_digests = [], cy_model_call_latencies_us = [], cy_validated_delta = None,
     cy_memory_id_assignments = [], cy_intervention = None, cy_selector_provenance = None,
     cy_failure_reason = None, cy_created_at = 2, cy_updated_at = 2\<rparr>"

definition sample_reserved :: cycle_record where
  "sample_reserved = sample_pending\<lparr>cy_revision := 2, cy_state := Cycle_RESERVED,
     cy_budget_reservation := Some sample_reservation, cy_updated_at := 3\<rparr>"

definition sample_running :: cycle_record where
  "sample_running = sample_reserved\<lparr>cy_revision := 3, cy_state := Cycle_RUNNING,
     cy_batch_digest := Some sample_digest, cy_updated_at := 4\<rparr>"

definition sample_settlement :: budget_amounts where
  "sample_settlement = amounts_of (\<lambda>f. if f = F_model_calls then 1 else if f = F_interventions then 1 else 40)"

definition sample_create :: memory_create where
  "sample_create = \<lparr>mc_handle = ''m'', mc_kind = Kind_KNOWLEDGE, mc_content = ''a'',
     mc_provenance = [sample_evidence], mc_confidence = 1,
     mc_trust_label = Trust_UNTRUSTED_MODEL_OUTPUT, mc_expires_at = None\<rparr>"

definition sample_delta :: memory_delta where
  "sample_delta = \<lparr>md_delta_id = sample_uuid 5, md_run_id = sample_uuid 1, md_creates = [sample_create],
     md_updates = [], md_invalidations = [], md_private_status_replacement = None, md_created_at = 5\<rparr>"

definition sample_committed :: "intervention_decision \<Rightarrow> cycle_record" where
  "sample_committed d = sample_running\<lparr>cy_revision := 4, cy_state := Cycle_COMMITTED,
     cy_budget_settlement := Some sample_settlement, cy_model_call_digests := [sample_digest],
     cy_model_call_latencies_us := [30], cy_validated_delta := Some sample_delta,
     cy_memory_id_assignments := [\<lparr>ma_handle = ''m'', ma_memory_id = sample_uuid 7\<rparr>],
     cy_intervention := Some d, cy_updated_at := 6\<rparr>"

definition sample_delivery :: delivery_record where
  "sample_delivery = \<lparr>dv_delivery_id = sample_uuid 8, dv_run_id = sample_uuid 1, dv_revision = 1,
     dv_cycle_id = zero_hash [], dv_intervention_id = sample_uuid 3,
     dv_rendered_text_digest = zero_hash [], dv_target_request_id = ''request'',
     dv_target = Target_NEXT_MODEL_CALL, dv_state = Delivery_PENDING, dv_attempt_count = 0,
     dv_adapter_id = ''host'', dv_adapter_deduplicates = False,
     dv_adapter_deduplication_guarantee = Dedup_AT_MOST_ONCE_ATTEMPT, dv_adapter_supports_pre_action = False,
     dv_adapter_contract_version = ''adapter-contract/v1'', dv_adapter_capabilities_digest = zero_hash [],
     dv_claim_id = None, dv_attempt_id = None, dv_receipt = None, dv_outcome = None,
     dv_reason_code = None, dv_created_at = 6, dv_updated_at = 6\<rparr>"

definition sample_claimed :: delivery_record where
  "sample_claimed = sample_delivery\<lparr>dv_revision := 2, dv_state := Delivery_CLAIMED,
     dv_claim_id := Some (sample_uuid 9), dv_updated_at := 7\<rparr>"

definition sample_attempting :: delivery_record where
  "sample_attempting = sample_claimed\<lparr>dv_revision := 3, dv_state := Delivery_ATTEMPTING,
     dv_attempt_count := 1, dv_attempt_id := Some (sample_uuid 10), dv_updated_at := 8\<rparr>"

definition sample_delivered :: delivery_record where
  "sample_delivered = sample_attempting\<lparr>dv_revision := 4, dv_state := Delivery_DELIVERED,
     dv_receipt := Some (JObj [(''provider_receipt_id'', JStr ''r1'')]),
     dv_outcome := Some Outcome_DELIVERED, dv_reason_code := Some Reason_DELIVERY_SUCCEEDED,
     dv_updated_at := 9\<rparr>"


section \<open>The projection after each entry\<close>

definition sample_p1 :: projection where
  "sample_p1 = (empty_projection (sample_uuid 1))\<lparr>pr_events_by_id := [(sample_uuid 2, sample_event)],
     pr_events_by_sequence := [(1, sample_event)], pr_events_by_source := [(''e1'', sample_event)],
     pr_event_positions := [(sample_uuid 2, 1)], pr_ingestion_cursor := 1\<rparr>"

definition sample_p2 :: projection where
  "sample_p2 = sample_p1\<lparr>pr_decisions := [(sample_uuid 4, sample_decision)],
     pr_budget_limits := Some sample_limits\<rparr>"

definition sample_p3 :: projection where
  "sample_p3 = sample_p2\<lparr>pr_cycle_history := [((zero_hash [], 1), sample_pending)],
     pr_cycles := [(zero_hash [], sample_pending)]\<rparr>"

definition sample_p4 :: projection where
  "sample_p4 = sample_p2\<lparr>pr_cycle_history := [((zero_hash [], 1), sample_pending),
       ((zero_hash [], 2), sample_reserved)],
     pr_cycles := [(zero_hash [], sample_reserved)]\<rparr>"

definition sample_p5 :: projection where
  "sample_p5 = sample_p2\<lparr>pr_cycle_history := [((zero_hash [], 1), sample_pending),
       ((zero_hash [], 2), sample_reserved), ((zero_hash [], 3), sample_running)],
     pr_cycles := [(zero_hash [], sample_running)]\<rparr>"

lemma sample_p1_sel [simp]:
  "pr_run_id sample_p1 = sample_uuid 1"
  "pr_events_by_id sample_p1 = [(sample_uuid 2, sample_event)]"
  "pr_events_by_sequence sample_p1 = [(1, sample_event)]"
  "pr_events_by_source sample_p1 = [(''e1'', sample_event)]"
  "pr_event_positions sample_p1 = [(sample_uuid 2, 1)]"
  "pr_signals sample_p1 = []"
  "pr_decisions sample_p1 = []"
  "pr_cycle_history sample_p1 = []"
  "pr_cycles sample_p1 = []"
  "pr_memory_history sample_p1 = []"
  "pr_memories sample_p1 = []"
  "pr_interventions sample_p1 = []"
  "pr_reminder_interventions_by_sequence sample_p1 = []"
  "pr_outcomes sample_p1 = []"
  "pr_delivery_history sample_p1 = []"
  "pr_deliveries sample_p1 = []"
  "pr_current_private_status_id sample_p1 = None"
  "pr_budget_limits sample_p1 = None"
  "pr_ingestion_cursor sample_p1 = 1"
  "pr_memory_cursor sample_p1 = 0"
  by (simp_all add: sample_p1_def empty_projection_def)

lemma sample_p2_sel [simp]:
  "pr_run_id sample_p2 = sample_uuid 1"
  "pr_events_by_id sample_p2 = [(sample_uuid 2, sample_event)]"
  "pr_events_by_sequence sample_p2 = [(1, sample_event)]"
  "pr_events_by_source sample_p2 = [(''e1'', sample_event)]"
  "pr_event_positions sample_p2 = [(sample_uuid 2, 1)]"
  "pr_signals sample_p2 = []"
  "pr_decisions sample_p2 = [(sample_uuid 4, sample_decision)]"
  "pr_cycle_history sample_p2 = []"
  "pr_cycles sample_p2 = []"
  "pr_memory_history sample_p2 = []"
  "pr_memories sample_p2 = []"
  "pr_interventions sample_p2 = []"
  "pr_reminder_interventions_by_sequence sample_p2 = []"
  "pr_outcomes sample_p2 = []"
  "pr_delivery_history sample_p2 = []"
  "pr_deliveries sample_p2 = []"
  "pr_current_private_status_id sample_p2 = None"
  "pr_budget_limits sample_p2 = Some sample_limits"
  "pr_ingestion_cursor sample_p2 = 1"
  "pr_memory_cursor sample_p2 = 0"
  by (simp_all add: sample_p2_def)

lemma sample_p3_sel [simp]:
  "pr_run_id sample_p3 = sample_uuid 1"
  "pr_events_by_id sample_p3 = [(sample_uuid 2, sample_event)]"
  "pr_events_by_sequence sample_p3 = [(1, sample_event)]"
  "pr_events_by_source sample_p3 = [(''e1'', sample_event)]"
  "pr_event_positions sample_p3 = [(sample_uuid 2, 1)]"
  "pr_signals sample_p3 = []"
  "pr_decisions sample_p3 = [(sample_uuid 4, sample_decision)]"
  "pr_cycle_history sample_p3 = [((zero_hash [], 1), sample_pending)]"
  "pr_cycles sample_p3 = [(zero_hash [], sample_pending)]"
  "pr_memory_history sample_p3 = []"
  "pr_memories sample_p3 = []"
  "pr_interventions sample_p3 = []"
  "pr_reminder_interventions_by_sequence sample_p3 = []"
  "pr_outcomes sample_p3 = []"
  "pr_delivery_history sample_p3 = []"
  "pr_deliveries sample_p3 = []"
  "pr_current_private_status_id sample_p3 = None"
  "pr_budget_limits sample_p3 = Some sample_limits"
  "pr_ingestion_cursor sample_p3 = 1"
  "pr_memory_cursor sample_p3 = 0"
  by (simp_all add: sample_p3_def)

lemma sample_p4_sel [simp]:
  "pr_run_id sample_p4 = sample_uuid 1"
  "pr_events_by_id sample_p4 = [(sample_uuid 2, sample_event)]"
  "pr_events_by_sequence sample_p4 = [(1, sample_event)]"
  "pr_events_by_source sample_p4 = [(''e1'', sample_event)]"
  "pr_event_positions sample_p4 = [(sample_uuid 2, 1)]"
  "pr_signals sample_p4 = []"
  "pr_decisions sample_p4 = [(sample_uuid 4, sample_decision)]"
  "pr_cycle_history sample_p4 = [((zero_hash [], 1), sample_pending), ((zero_hash [], 2), sample_reserved)]"
  "pr_cycles sample_p4 = [(zero_hash [], sample_reserved)]"
  "pr_memory_history sample_p4 = []"
  "pr_memories sample_p4 = []"
  "pr_interventions sample_p4 = []"
  "pr_reminder_interventions_by_sequence sample_p4 = []"
  "pr_outcomes sample_p4 = []"
  "pr_delivery_history sample_p4 = []"
  "pr_deliveries sample_p4 = []"
  "pr_current_private_status_id sample_p4 = None"
  "pr_budget_limits sample_p4 = Some sample_limits"
  "pr_ingestion_cursor sample_p4 = 1"
  "pr_memory_cursor sample_p4 = 0"
  by (simp_all add: sample_p4_def)

lemma sample_p5_sel [simp]:
  "pr_run_id sample_p5 = sample_uuid 1"
  "pr_events_by_id sample_p5 = [(sample_uuid 2, sample_event)]"
  "pr_events_by_sequence sample_p5 = [(1, sample_event)]"
  "pr_events_by_source sample_p5 = [(''e1'', sample_event)]"
  "pr_event_positions sample_p5 = [(sample_uuid 2, 1)]"
  "pr_signals sample_p5 = []"
  "pr_decisions sample_p5 = [(sample_uuid 4, sample_decision)]"
  "pr_cycle_history sample_p5 = [((zero_hash [], 1), sample_pending), ((zero_hash [], 2), sample_reserved), ((zero_hash [], 3), sample_running)]"
  "pr_cycles sample_p5 = [(zero_hash [], sample_running)]"
  "pr_memory_history sample_p5 = []"
  "pr_memories sample_p5 = []"
  "pr_interventions sample_p5 = []"
  "pr_reminder_interventions_by_sequence sample_p5 = []"
  "pr_outcomes sample_p5 = []"
  "pr_delivery_history sample_p5 = []"
  "pr_deliveries sample_p5 = []"
  "pr_current_private_status_id sample_p5 = None"
  "pr_budget_limits sample_p5 = Some sample_limits"
  "pr_ingestion_cursor sample_p5 = 1"
  "pr_memory_cursor sample_p5 = 0"
  by (simp_all add: sample_p5_def)

lemma sample_pending_sel [simp]:
  "cy_cycle_id sample_pending = zero_hash []"
  "cy_run_id sample_pending = sample_uuid 1"
  "cy_revision sample_pending = 1"
  "cy_invocation_decision_id sample_pending = sample_uuid 4"
  "cy_policy_version sample_pending = ''p''"
  "cy_configuration_digest sample_pending = sample_digest"
  "cy_grounding_version sample_pending = grounding_pipeline_version"
  "cy_grounding_configuration sample_pending = config_json sample_config"
  "cy_grounding_configuration_digest sample_pending = zero_hash []"
  "cy_requested_delivery_target sample_pending = Some Target_NEXT_MODEL_CALL"
  "cy_first_event_sequence sample_pending = 1"
  "cy_last_event_sequence sample_pending = 1"
  "cy_state sample_pending = Cycle_PENDING"
  "cy_budget_reservation sample_pending = None"
  "cy_budget_settlement sample_pending = None"
  "cy_batch_digest sample_pending = None"
  "cy_model_call_digests sample_pending = []"
  "cy_model_call_latencies_us sample_pending = []"
  "cy_validated_delta sample_pending = None"
  "cy_memory_id_assignments sample_pending = []"
  "cy_intervention sample_pending = None"
  "cy_selector_provenance sample_pending = None"
  "cy_failure_reason sample_pending = None"
  "cy_created_at sample_pending = 2"
  "cy_updated_at sample_pending = 2"
  by (simp_all add: sample_pending_def)

lemma sample_reserved_sel [simp]:
  "cy_cycle_id sample_reserved = zero_hash []"
  "cy_run_id sample_reserved = sample_uuid 1"
  "cy_revision sample_reserved = 2"
  "cy_invocation_decision_id sample_reserved = sample_uuid 4"
  "cy_policy_version sample_reserved = ''p''"
  "cy_configuration_digest sample_reserved = sample_digest"
  "cy_grounding_version sample_reserved = grounding_pipeline_version"
  "cy_grounding_configuration sample_reserved = config_json sample_config"
  "cy_grounding_configuration_digest sample_reserved = zero_hash []"
  "cy_requested_delivery_target sample_reserved = Some Target_NEXT_MODEL_CALL"
  "cy_first_event_sequence sample_reserved = 1"
  "cy_last_event_sequence sample_reserved = 1"
  "cy_state sample_reserved = Cycle_RESERVED"
  "cy_budget_reservation sample_reserved = Some sample_reservation"
  "cy_budget_settlement sample_reserved = None"
  "cy_batch_digest sample_reserved = None"
  "cy_model_call_digests sample_reserved = []"
  "cy_model_call_latencies_us sample_reserved = []"
  "cy_validated_delta sample_reserved = None"
  "cy_memory_id_assignments sample_reserved = []"
  "cy_intervention sample_reserved = None"
  "cy_selector_provenance sample_reserved = None"
  "cy_failure_reason sample_reserved = None"
  "cy_created_at sample_reserved = 2"
  "cy_updated_at sample_reserved = 3"
  by (simp_all add: sample_reserved_def)

lemma sample_running_sel [simp]:
  "cy_cycle_id sample_running = zero_hash []"
  "cy_run_id sample_running = sample_uuid 1"
  "cy_revision sample_running = 3"
  "cy_invocation_decision_id sample_running = sample_uuid 4"
  "cy_policy_version sample_running = ''p''"
  "cy_configuration_digest sample_running = sample_digest"
  "cy_grounding_version sample_running = grounding_pipeline_version"
  "cy_grounding_configuration sample_running = config_json sample_config"
  "cy_grounding_configuration_digest sample_running = zero_hash []"
  "cy_requested_delivery_target sample_running = Some Target_NEXT_MODEL_CALL"
  "cy_first_event_sequence sample_running = 1"
  "cy_last_event_sequence sample_running = 1"
  "cy_state sample_running = Cycle_RUNNING"
  "cy_budget_reservation sample_running = Some sample_reservation"
  "cy_budget_settlement sample_running = None"
  "cy_batch_digest sample_running = Some sample_digest"
  "cy_model_call_digests sample_running = []"
  "cy_model_call_latencies_us sample_running = []"
  "cy_validated_delta sample_running = None"
  "cy_memory_id_assignments sample_running = []"
  "cy_intervention sample_running = None"
  "cy_selector_provenance sample_running = None"
  "cy_failure_reason sample_running = None"
  "cy_created_at sample_running = 2"
  "cy_updated_at sample_running = 4"
  by (simp_all add: sample_running_def)

lemma sample_committed_sel [simp]:
  "cy_cycle_id (sample_committed d) = zero_hash []"
  "cy_run_id (sample_committed d) = sample_uuid 1"
  "cy_revision (sample_committed d) = 4"
  "cy_invocation_decision_id (sample_committed d) = sample_uuid 4"
  "cy_policy_version (sample_committed d) = ''p''"
  "cy_configuration_digest (sample_committed d) = sample_digest"
  "cy_grounding_version (sample_committed d) = grounding_pipeline_version"
  "cy_grounding_configuration (sample_committed d) = config_json sample_config"
  "cy_grounding_configuration_digest (sample_committed d) = zero_hash []"
  "cy_requested_delivery_target (sample_committed d) = Some Target_NEXT_MODEL_CALL"
  "cy_first_event_sequence (sample_committed d) = 1"
  "cy_last_event_sequence (sample_committed d) = 1"
  "cy_state (sample_committed d) = Cycle_COMMITTED"
  "cy_budget_reservation (sample_committed d) = Some sample_reservation"
  "cy_budget_settlement (sample_committed d) = Some sample_settlement"
  "cy_batch_digest (sample_committed d) = Some sample_digest"
  "cy_model_call_digests (sample_committed d) = [sample_digest]"
  "cy_model_call_latencies_us (sample_committed d) = [30]"
  "cy_validated_delta (sample_committed d) = Some sample_delta"
  "cy_memory_id_assignments (sample_committed d) = [\<lparr>ma_handle = ''m'', ma_memory_id = sample_uuid 7\<rparr>]"
  "cy_intervention (sample_committed d) = Some d"
  "cy_selector_provenance (sample_committed d) = None"
  "cy_failure_reason (sample_committed d) = None"
  "cy_created_at (sample_committed d) = 2"
  "cy_updated_at (sample_committed d) = 6"
  by (simp_all add: sample_committed_def)

lemma sample_delivery_sel [simp]:
  "dv_delivery_id sample_delivery = sample_uuid 8"
  "dv_run_id sample_delivery = sample_uuid 1"
  "dv_revision sample_delivery = 1"
  "dv_cycle_id sample_delivery = zero_hash []"
  "dv_intervention_id sample_delivery = sample_uuid 3"
  "dv_rendered_text_digest sample_delivery = zero_hash []"
  "dv_target_request_id sample_delivery = ''request''"
  "dv_target sample_delivery = Target_NEXT_MODEL_CALL"
  "dv_state sample_delivery = Delivery_PENDING"
  "dv_attempt_count sample_delivery = 0"
  "dv_adapter_id sample_delivery = ''host''"
  "dv_adapter_deduplicates sample_delivery = False"
  "dv_adapter_deduplication_guarantee sample_delivery = Dedup_AT_MOST_ONCE_ATTEMPT"
  "dv_adapter_supports_pre_action sample_delivery = False"
  "dv_adapter_contract_version sample_delivery = ''adapter-contract/v1''"
  "dv_adapter_capabilities_digest sample_delivery = zero_hash []"
  "dv_claim_id sample_delivery = None"
  "dv_attempt_id sample_delivery = None"
  "dv_receipt sample_delivery = None"
  "dv_outcome sample_delivery = None"
  "dv_reason_code sample_delivery = None"
  "dv_created_at sample_delivery = 6"
  "dv_updated_at sample_delivery = 6"
  by (simp_all add: sample_delivery_def)

lemma sample_claimed_sel [simp]:
  "dv_delivery_id sample_claimed = sample_uuid 8"
  "dv_run_id sample_claimed = sample_uuid 1"
  "dv_revision sample_claimed = 2"
  "dv_cycle_id sample_claimed = zero_hash []"
  "dv_intervention_id sample_claimed = sample_uuid 3"
  "dv_rendered_text_digest sample_claimed = zero_hash []"
  "dv_target_request_id sample_claimed = ''request''"
  "dv_target sample_claimed = Target_NEXT_MODEL_CALL"
  "dv_state sample_claimed = Delivery_CLAIMED"
  "dv_attempt_count sample_claimed = 0"
  "dv_adapter_id sample_claimed = ''host''"
  "dv_adapter_deduplicates sample_claimed = False"
  "dv_adapter_deduplication_guarantee sample_claimed = Dedup_AT_MOST_ONCE_ATTEMPT"
  "dv_adapter_supports_pre_action sample_claimed = False"
  "dv_adapter_contract_version sample_claimed = ''adapter-contract/v1''"
  "dv_adapter_capabilities_digest sample_claimed = zero_hash []"
  "dv_claim_id sample_claimed = Some (sample_uuid 9)"
  "dv_attempt_id sample_claimed = None"
  "dv_receipt sample_claimed = None"
  "dv_outcome sample_claimed = None"
  "dv_reason_code sample_claimed = None"
  "dv_created_at sample_claimed = 6"
  "dv_updated_at sample_claimed = 7"
  by (simp_all add: sample_claimed_def)

lemma sample_attempting_sel [simp]:
  "dv_delivery_id sample_attempting = sample_uuid 8"
  "dv_run_id sample_attempting = sample_uuid 1"
  "dv_revision sample_attempting = 3"
  "dv_cycle_id sample_attempting = zero_hash []"
  "dv_intervention_id sample_attempting = sample_uuid 3"
  "dv_rendered_text_digest sample_attempting = zero_hash []"
  "dv_target_request_id sample_attempting = ''request''"
  "dv_target sample_attempting = Target_NEXT_MODEL_CALL"
  "dv_state sample_attempting = Delivery_ATTEMPTING"
  "dv_attempt_count sample_attempting = 1"
  "dv_adapter_id sample_attempting = ''host''"
  "dv_adapter_deduplicates sample_attempting = False"
  "dv_adapter_deduplication_guarantee sample_attempting = Dedup_AT_MOST_ONCE_ATTEMPT"
  "dv_adapter_supports_pre_action sample_attempting = False"
  "dv_adapter_contract_version sample_attempting = ''adapter-contract/v1''"
  "dv_adapter_capabilities_digest sample_attempting = zero_hash []"
  "dv_claim_id sample_attempting = Some (sample_uuid 9)"
  "dv_attempt_id sample_attempting = Some (sample_uuid 10)"
  "dv_receipt sample_attempting = None"
  "dv_outcome sample_attempting = None"
  "dv_reason_code sample_attempting = None"
  "dv_created_at sample_attempting = 6"
  "dv_updated_at sample_attempting = 8"
  by (simp_all add: sample_attempting_def)

lemma sample_delivered_sel [simp]:
  "dv_delivery_id sample_delivered = sample_uuid 8"
  "dv_run_id sample_delivered = sample_uuid 1"
  "dv_revision sample_delivered = 4"
  "dv_cycle_id sample_delivered = zero_hash []"
  "dv_intervention_id sample_delivered = sample_uuid 3"
  "dv_rendered_text_digest sample_delivered = zero_hash []"
  "dv_target_request_id sample_delivered = ''request''"
  "dv_target sample_delivered = Target_NEXT_MODEL_CALL"
  "dv_state sample_delivered = Delivery_DELIVERED"
  "dv_attempt_count sample_delivered = 1"
  "dv_adapter_id sample_delivered = ''host''"
  "dv_adapter_deduplicates sample_delivered = False"
  "dv_adapter_deduplication_guarantee sample_delivered = Dedup_AT_MOST_ONCE_ATTEMPT"
  "dv_adapter_supports_pre_action sample_delivered = False"
  "dv_adapter_contract_version sample_delivered = ''adapter-contract/v1''"
  "dv_adapter_capabilities_digest sample_delivered = zero_hash []"
  "dv_claim_id sample_delivered = Some (sample_uuid 9)"
  "dv_attempt_id sample_delivered = Some (sample_uuid 10)"
  "dv_receipt sample_delivered = Some (JObj [(''provider_receipt_id'', JStr ''r1'')])"
  "dv_outcome sample_delivered = Some Outcome_DELIVERED"
  "dv_reason_code sample_delivered = Some Reason_DELIVERY_SUCCEEDED"
  "dv_created_at sample_delivered = 6"
  "dv_updated_at sample_delivered = 9"
  by (simp_all add: sample_delivered_def)

lemma sample_decision_sel [simp]:
  "id_decision_id sample_decision = sample_uuid 4"
  "id_run_id sample_decision = sample_uuid 1"
  "id_event_sequence sample_decision = 1"
  "id_invoke sample_decision"
  "id_risk_score sample_decision = None"
  "id_reason_codes sample_decision = [Reason_POLICY_ALWAYS]"
  "id_policy_version sample_decision = ''p''"
  "id_configuration_digest sample_decision = sample_digest"
  "id_budget_snapshot sample_decision = sample_snapshot"
  "\<not> id_cooldown_active sample_decision"
  "id_created_at sample_decision = 1"
  by (simp_all add: sample_decision_def)

lemma sample_uuid_eq [simp]: "sample_uuid m = sample_uuid n \<longleftrightarrow> m = n"
  by (simp add: sample_uuid_def)

lemma sample_step1: "apply_entry zero_hash ratio_text (empty_projection (sample_uuid 1))
    (sample_entry 1 (Rec_event sample_event)) = Inr sample_p1"
  by (simp add: apply_entry_def apply_event_def sample_entry_def checks_pass empty_projection_def sample_p1_def
      sample_event_def has_key_iff dict_set_def)

lemma sample_p1_budget: "budget_snapshot_of sample_p1 (Some sample_limits) = Inr sample_snapshot"
  using sample_snapshot_valid
  by (simp add: budget_snapshot_of_def sample_p1_def empty_projection_def add_amounts_def map_filter_simps
      sample_snapshot_def zero_amounts_def)

lemma sample_event_sel [simp]:
  "ev_sequence sample_event = 1" "ev_event_id sample_event = sample_uuid 2" "ev_timestamp sample_event = 0"
  by (simp_all add: sample_event_def)

lemma sample_snapshot_sel [simp]: "limits sample_snapshot = sample_limits"
  by (simp add: sample_snapshot_def)

lemma sample_step2: "apply_entry zero_hash ratio_text sample_p1 (sample_entry 2 (Rec_decision sample_decision)) = Inr sample_p2"
  using sample_p1_budget
  by (simp add: apply_entry_def apply_decision_def sample_entry_def decisions_by_event_sequence_def)
    (simp add: sample_p2_def dict_set_def dict_values_def no_key)

text \<open>The grounding pin of the sample cycle.\<close>

lemma sample_grounding:
  assumes "cy_grounding_configuration c = config_json sample_config"
    and "cy_grounding_version c = grounding_pipeline_version"
    and "cy_grounding_configuration_digest c = zero_hash []"
  shows "resolved_cycle_grounding zero_hash ratio_text c = Inr (sample_config, resolved_of zero_hash ratio_text sample_config)"
proof -
  have valid: "valid_grounding_config sample_config"
    using sample_pipeline_new by (auto simp: new_pipeline_Inr pipeline_ok_def)
  have "resolve_grounding_configuration zero_hash ratio_text sample_config = Inr (resolved_of zero_hash ratio_text sample_config)"
    using valid by (simp add: resolve_Inr)
  with assms config_round [OF valid] show ?thesis
    by (simp add: resolved_cycle_grounding_def resolved_of_def zero_hash_length_prefixed)
qed

lemma sample_cycle_valid:
  "valid_cycle_record zero_hash sample_pending" "valid_cycle_record zero_hash sample_reserved"
  "valid_cycle_record zero_hash sample_running"
proof -
  have targets: "list_all json_finite (map (\<lambda>t. JStr (target_value t)) ts)" for ts
    by (induction ts) simp_all
  have fields: "component_identifier ''p''" "is_object (config_json sample_config)" "json_finite (config_json sample_config)"
    by (code_simp, simp_all add: config_json_def is_object_def rendering_json_def targets)
  have id: "cycle_id zero_hash (sample_uuid 1) 1 1 ''p'' sample_digest grounding_pipeline_version (zero_hash [])
      (Some Target_NEXT_MODEL_CALL) = Inr (zero_hash [])"
    by (simp add: cycle_id_def zero_hash_length_prefixed) (simp add: grounding_pipeline_version_def checks_pass)
  have res: "model_calls sample_reservation = 2" by (simp add: sample_reservation_def amounts_of_def)
  show "valid_cycle_record zero_hash sample_pending" "valid_cycle_record zero_hash sample_reserved"
    "valid_cycle_record zero_hash sample_running"
    using fields id res
    by (simp_all add: valid_cycle_record_def cycle_fields_ok_def cycle_identity_ok_def cycle_budget_ok_def
        cycle_assignments_ok_def cycle_state_ok_def opt_all_def no_committed_outputs_def no_receipts_def expected_handles_def)
qed

lemma sample_step3: "apply_entry zero_hash ratio_text sample_p2 (sample_entry 3 (Rec_cycle sample_pending)) = Inr sample_p3"
  by (simp add: apply_entry_def sample_entry_def apply_cycle_def sample_grounding cycle_begin_checks_def checks_pass
      validate_cycle_budget_def reservation_check_def settled_def known_failure_def dict_values_def no_key)
    (simp add: sample_p3_def dict_set_def checks_pass)


lemma sample_reservation_amounts [simp]:
  "amount f sample_reservation = (if f = F_model_calls then 2 else if f = F_interventions then 1 else 100)"
  "model_calls sample_reservation = 2"
  by (simp_all add: sample_reservation_def) (simp add: amounts_of_def)

lemma sample_p3_budget: "budget_snapshot_of sample_p3 None = Inr sample_snapshot"
  using sample_snapshot_valid
  by (simp add: budget_snapshot_of_def add_amounts_def map_filter_simps dict_values_def active_reservation_def
      final_settlement_def sample_snapshot_def zero_amounts_def)

lemma sample_reservation_fits: "\<not> list_ex (\<lambda>f. amount f sample_reservation >
    amount f sample_limits - amount f (reserved sample_snapshot) - amount f (consumed sample_snapshot)) budget_fields"
proof -
  have "amount f (reserved sample_snapshot) = 0" "amount f (consumed sample_snapshot) = 0" for f
    by (simp_all add: sample_snapshot_def zero_amounts_def)
  then show ?thesis by (simp only: list_ex_fields) simp
qed

lemma sample_step4: "apply_entry zero_hash ratio_text sample_p3 (sample_entry 4 (Rec_cycle sample_reserved)) = Inr sample_p4"
proof -
  have "reservation_check sample_p3 sample_reserved (Some sample_pending) = Inr ()"
    using sample_reservation_fits by (simp add: reservation_check_def sample_p3_budget checks_pass)
  then show ?thesis
    by (simp add: apply_entry_def sample_entry_def apply_cycle_def sample_grounding cycle_successor_checks_def checks_pass
        validate_cycle_budget_def settled_def known_failure_def no_key cycle_immutable_fields_def)
      (simp add: sample_p4_def dict_set_def checks_pass)
qed

lemma sample_step5: "apply_entry zero_hash ratio_text sample_p4 (sample_entry 5 (Rec_cycle sample_running)) = Inr sample_p5"
  by (simp add: apply_entry_def sample_entry_def apply_cycle_def sample_grounding cycle_successor_checks_def checks_pass
      validate_cycle_budget_def settled_def known_failure_def no_key cycle_immutable_fields_def reservation_check_def)
    (simp add: sample_p5_def dict_set_def checks_pass)

section \<open>The commit\<close>

definition sample_memory :: memory_record where
  "sample_memory = \<lparr>mr_memory_id = sample_uuid 7, mr_run_id = sample_uuid 1, mr_kind = Kind_KNOWLEDGE,
     mr_content = ''a'', mr_provenance = [sample_evidence], mr_confidence = 1,
     mr_validity = Validity_ACTIVE, mr_revision = 1, mr_created_at = 5, mr_updated_at = 5,
     mr_access_count = 0, mr_last_accessed_at = None, mr_expires_at = None, mr_invalidated_at = None,
     mr_trust_label = Trust_UNTRUSTED_MODEL_OUTPUT\<rparr>"

definition sample_preview :: projection where
  "sample_preview = sample_p5\<lparr>pr_memory_history := [((sample_uuid 7, 1), sample_memory)],
     pr_memories := [(sample_uuid 7, sample_memory)]\<rparr>"

definition sample_p6 :: "intervention_decision \<Rightarrow> projection" where
  "sample_p6 d = sample_preview\<lparr>pr_interventions := [(sample_uuid 3, d)],
     pr_reminder_interventions_by_sequence := [(1, d)], pr_memory_cursor := 1,
     pr_cycle_history := [((zero_hash [], 1), sample_pending), ((zero_hash [], 2), sample_reserved),
       ((zero_hash [], 3), sample_running), ((zero_hash [], 4), sample_committed d)],
     pr_cycles := [(zero_hash [], sample_committed d)]\<rparr>"

lemma sample_delta_preview:
  "preview_memory_delta sample_p5 sample_delta [\<lparr>ma_handle = ''m'', ma_memory_id = sample_uuid 7\<rparr>] 1 = Inr sample_preview"
proof -
  have valid: "valid_memory_record sample_memory"
    by (simp add: valid_memory_record_def sample_memory_def unit_interval_def)
  have new: "new_memory (sample_uuid 1) (sample_uuid 7) sample_create 5 = Inr sample_memory"
    using valid by (simp add: new_memory_def projected_memory_def sample_create_def) (simp add: sample_memory_def)
  have ev: "validate_evidence [(sample_uuid 2, sample_event)] [] (mc_provenance sample_create) 1 = Inr ()"
    by (simp add: sample_create_def sample_evidence_def)
  have "mc_handle sample_create = ''m''" by (simp add: sample_create_def)
  moreover have "mr_memory_id sample_memory = sample_uuid 7" "mr_revision sample_memory = 1"
    by (simp_all add: sample_memory_def)
  moreover have "md_created_at sample_delta = 5" "md_creates sample_delta = [sample_create]" "md_run_id sample_delta = sample_uuid 1"
    "md_updates sample_delta = []" "md_invalidations sample_delta = []" "md_private_status_replacement sample_delta = None"
    by (simp_all add: sample_delta_def)
  ultimately show ?thesis
    using new ev
    by (simp add: preview_memory_delta_def checks_pass apply_create_def assigned_id_def no_key delta_handles_def store_memory_def)
      (simp add: sample_preview_def dict_set_def)
qed


text \<open>What the pipeline decides on the sample run, with the receipt it stores.\<close>

definition sample_verdict :: "intervention_decision \<Rightarrow> string \<Rightarrow> bool" where
  "sample_verdict d t \<longleftrightarrow>
     ground zero_hash ratio_text sample_pipeline sample_proposal sample_context sample_state = Inr d \<and>
     iv_action d = Action_REMIND \<and> decision_of sample_pipeline sample_context sample_receipt d \<and>
     valid_intervention_decision d \<and> iv_rendered_text d = Some t \<and>
     iv_delivery_target d = Some Target_NEXT_MODEL_CALL"

lemma sample_verdict_exists: "\<exists>d t. sample_verdict d t"
  using sample_ground by (simp add: sample_verdict_def)

lemma sample_verdict_fields:
  assumes "sample_verdict d t"
  shows "iv_action d = Action_REMIND" and "iv_rendered_text d = Some t"
    and "iv_delivery_target d = Some Target_NEXT_MODEL_CALL" and "iv_intervention_id d = sample_uuid 3"
    and "iv_run_id d = sample_uuid 1" and "iv_cycle_id d = zero_hash []" and "iv_created_at d = 5"
    and "iv_grounding_version d = grounding_pipeline_version"
    and "iv_grounding_configuration d = config_json sample_config"
    and "iv_grounding_configuration_digest d = zero_hash []"
    and "iv_grounding_receipt d = receipt_json sample_receipt"
    and "valid_intervention_decision d"
  using assms
  by (simp_all add: sample_verdict_def decision_of_def sample_context_def sample_pipeline_def resolved_of_def
      zero_hash_length_prefixed)

lemma sample_preview_sel [simp]:
  "pr_events_by_id sample_preview = [(sample_uuid 2, sample_event)]"
  "pr_events_by_sequence sample_preview = [(1, sample_event)]"
  "pr_memories sample_preview = [(sample_uuid 7, sample_memory)]"
  "pr_interventions sample_preview = []" "pr_reminder_interventions_by_sequence sample_preview = []"
  by (simp_all add: sample_preview_def)

lemma sample_authoritative:
  assumes d: "sample_verdict d t"
  shows "authoritatively_verify zero_hash ratio_text sample_preview (sample_committed d) d = Inr ()"
proof -
  note f = sample_verdict_fields [OF d]
  have receipt: "receipt_of_json zero_hash ratio_text (iv_grounding_receipt d) = Some sample_receipt"
    unfolding f(11) by (rule receipt_read) (rule sample_receipt_valid)
  have window: "reminder_window zero_hash ratio_text sample_preview sample_config 1 = Some []"
    by (simp add: reminder_window_def sample_config_def map_filter_simps)
  have matches: "receipt_matches_cycle (sample_committed d) d sample_receipt None"
    by (simp add: receipt_matches_cycle_def f) (simp add: sample_receipt_def)
  have ctx: "grounding_context_of (sample_committed d) d sample_receipt = sample_context"
    by (simp add: grounding_context_of_def f) (simp add: sample_receipt_def sample_context_def)
  have claims: "gr_claims sample_receipt = [sample_claim]" by (simp add: sample_receipt_def)
  have st: "grounding_state_of sample_preview sample_event [sample_claim] [] = sample_state"
    by (simp add: grounding_state_of_def sample_claim_def sample_evidence_def dict_set_def dict_values_def sample_state_def)
  have inputs: "valid_grounding_context zero_hash ratio_text sample_context" "valid_grounding_state sample_state"
    using sample_inputs_ok by (simp_all add: grounding_inputs_ok_def)
  have "verify_grounded_intervention zero_hash ratio_text d sample_context sample_state
      (resolved_of zero_hash ratio_text sample_config) = Inr ()"
  proof -
    have "ground zero_hash ratio_text sample_pipeline sample_proposal sample_context sample_state = Inr d"
      using d by (simp add: sample_verdict_def)
    from verify_accepts [OF hex_digest_zero_hash sample_pipeline_new this] show ?thesis
      by (simp add: sample_pipeline_def)
  qed
  then show ?thesis
    using receipt window matches ctx st inputs claims
    by (simp add: authoritatively_verify_def sample_grounding selector_of_cycle_def)
qed

lemma sample_settlement_amounts [simp]:
  "amount f sample_settlement = (if f = F_model_calls then 1 else if f = F_interventions then 1 else 40)"
  "model_calls sample_settlement = 1" "latency_us sample_settlement = 40" "interventions_used sample_settlement = 1"
  by (simp_all add: sample_settlement_def) (simp_all add: amounts_of_def)

lemma sample_settles: "\<not> exceeds sample_settlement sample_reservation"
  by (simp only: exceeds_def list_ex_fields) simp

lemma sample_committed_valid:
  assumes "sample_verdict d t"
  shows "valid_cycle_record zero_hash (sample_committed d)"
proof -
  note f = sample_verdict_fields [OF assms]
  have "valid_memory_delta sample_delta"
    by (simp add: valid_memory_delta_def sample_delta_def sample_create_def valid_memory_create_def delta_handles_def
        max_memory_delta_items_def max_memory_content_bytes_def max_memory_provenance_items_def unit_interval_def
        code_points_def)
  moreover have "md_run_id sample_delta = sample_uuid 1" "delta_handles sample_delta = [''m'']"
    by (simp_all add: sample_delta_def sample_create_def delta_handles_def)
  moreover have "valid_budget_amounts sample_settlement" by (simp add: budget_simps)
  moreover have "\<not> list_ex (\<lambda>f. amount f sample_settlement > amount f sample_reservation) budget_fields"
    using sample_settles by (simp add: exceeds_def)
  moreover note sample_cycle_valid(3)
  ultimately show ?thesis
    by (simp add: valid_cycle_record_def cycle_fields_ok_def cycle_identity_ok_def cycle_budget_ok_def
        cycle_assignments_ok_def cycle_state_ok_def opt_all_def no_committed_outputs_def no_receipts_def
        expected_handles_def f intervention_count_def valid_memory_id_assignment_def)
qed

lemma sample_step6:
  assumes d: "sample_verdict d t"
  shows "apply_entry zero_hash ratio_text sample_p5 (sample_entry 6 (Rec_cycle (sample_committed d))) = Inr (sample_p6 d)"
proof -
  note f = sample_verdict_fields [OF d]
  have limit: "max_call_latency_us sample_limits = 500"
    by (simp add: sample_limits_def budget_amounts.defs)
  have delta: "md_created_at sample_delta = 5" by (simp add: sample_delta_def)
  have "commit_effects zero_hash ratio_text sample_p5 (sample_committed d) (Some sample_running) =
    Inr (sample_preview\<lparr>pr_interventions := [(sample_uuid 3, d)],
       pr_reminder_interventions_by_sequence := [(1, d)], pr_memory_cursor := 1\<rparr>)"
    using sample_authoritative [OF d]
    by (simp add: commit_effects_def checks_pass sample_delta_preview f delta no_key) (simp add: dict_set_def)
  moreover have "validate_cycle_budget sample_p5 sample_decision (sample_committed d) (Some sample_running) = Inr ()"
    using sample_settles
    by (simp add: validate_cycle_budget_def reservation_check_def settled_def known_failure_def limit f
        intervention_count_def checks_pass)
  ultimately show ?thesis
    by (simp add: apply_entry_def sample_entry_def apply_cycle_def sample_grounding cycle_successor_checks_def checks_pass
        no_key cycle_immutable_fields_def)
      (simp add: sample_p6_def dict_set_def checks_pass)
qed


section \<open>The delivery\<close>

definition sample_p :: "intervention_decision \<Rightarrow> delivery_record list \<Rightarrow> projection" where
  "sample_p d ds = (sample_p6 d)\<lparr>
     pr_delivery_history := map (\<lambda>e. ((dv_delivery_id e, dv_revision e), e)) ds,
     pr_deliveries := (if ds = [] then [] else [(sample_uuid 8, last ds)])\<rparr>"

lemma sample_p6_sel [simp]:
  "pr_run_id (sample_p6 d) = sample_uuid 1" "pr_cycles (sample_p6 d) = [(zero_hash [], sample_committed d)]"
  "pr_interventions (sample_p6 d) = [(sample_uuid 3, d)]" "pr_deliveries (sample_p6 d) = []"
  "pr_delivery_history (sample_p6 d) = []"
  by (simp_all add: sample_p6_def) (simp_all add: sample_preview_def)

lemma sample_p_sel [simp]:
  "pr_run_id (sample_p d ds) = sample_uuid 1" "pr_cycles (sample_p d ds) = [(zero_hash [], sample_committed d)]"
  "pr_interventions (sample_p d ds) = [(sample_uuid 3, d)]"
  "pr_deliveries (sample_p d ds) = (if ds = [] then [] else [(sample_uuid 8, last ds)])"
  "pr_delivery_history (sample_p d ds) = map (\<lambda>e. ((dv_delivery_id e, dv_revision e), e)) ds"
  by (simp_all add: sample_p_def)

lemma sample_p_nil: "sample_p d [] = sample_p6 d"
  by (simp add: sample_p_def sample_p6_def sample_preview_def)

lemma sample_delivery_valid:
  "valid_delivery_record sample_delivery" "valid_delivery_record sample_claimed"
  "valid_delivery_record sample_attempting" "valid_delivery_record sample_delivered"
proof -
  have names: "component_identifier ''host''" "component_identifier ''adapter-contract/v1''" "component_identifier ''request''"
    by code_simp+
  have receipt: "provider_receipt_ok (Some (JObj [(''provider_receipt_id'', JStr ''r1'')]))" by code_simp
  show "valid_delivery_record sample_delivery" "valid_delivery_record sample_claimed"
    "valid_delivery_record sample_attempting" "valid_delivery_record sample_delivered"
    using names receipt
    by (simp_all add: valid_delivery_record_def delivery_fields_ok_def delivery_state_ok_def empty_result_def
        opt_all_def is_object_def)
qed

lemma sample_delivery_step:
  assumes d: "sample_verdict d t" and run: "dv_run_id e = sample_uuid 1" "dv_cycle_id e = zero_hash []"
      "dv_intervention_id e = sample_uuid 3" "dv_target e = Target_NEXT_MODEL_CALL"
      "dv_rendered_text_digest e = zero_hash []" "dv_delivery_id e = sample_uuid 8"
    and rev: "dv_revision e = int (length ds) + 1"
    and ids: "\<forall>k<length ds. dv_delivery_id (ds ! k) = sample_uuid 8 \<and> dv_revision (ds ! k) = int k + 1"
    and guards: "if ds = [] then guards_pass (delivery_begin_checks (sample_p d ds) (sample_committed d) e)
      else guards_pass (delivery_successor_checks (sample_p d ds) (last ds) e)"
  shows "apply_entry zero_hash ratio_text (sample_p d ds) (sample_entry n (Rec_delivery e)) = Inr (sample_p d (ds @ [e]))"
proof -
  note f = sample_verdict_fields [OF d]
  have same_text: "text_digest zero_hash t = zero_hash []"
    by (simp add: text_digest_def content_digest_def zero_hash_length_prefixed)
  have fresh: "\<not> has_key (pr_delivery_history (sample_p d ds)) (sample_uuid 8, int (length ds) + 1)"
  proof
    assume "has_key (pr_delivery_history (sample_p d ds)) (sample_uuid 8, int (length ds) + 1)"
    then obtain r where r: "r \<in> set ds" "dv_revision r = int (length ds) + 1"
      unfolding has_key_iff sample_p_sel by auto
    from r(1) obtain k where "k < length ds" "r = ds ! k" by (metis in_set_conv_nth)
    with r(2) ids show False by auto
  qed
  have last: "dv_revision (last ds) = int (length ds)" if "ds \<noteq> []"
    using ids that by (cases ds) (auto simp: last_conv_nth)
  have "apply_delivery zero_hash (sample_p d ds) e = Inr ((sample_p d ds)\<lparr>
      pr_delivery_history := dict_set (sample_uuid 8, int (length ds) + 1) e (pr_delivery_history (sample_p d ds)),
      pr_deliveries := dict_set (sample_uuid 8) e (pr_deliveries (sample_p d ds))\<rparr>)"
    using guards rev run last
    by (cases "ds = []") (simp_all add: apply_delivery_def f same_text checks_pass guards_pass_append checks_Inr)
  then show ?thesis
    using run rev dict_set_fresh [OF fresh, of e]
    by (simp add: apply_entry_def sample_entry_def) (simp add: sample_p_def dict_set_def)
qed


lemmas sample_delivery_simps = delivery_begin_checks_def delivery_successor_checks_def delivery_immutable_fields_def
  claim_tokens_def attempt_tokens_def in_tokens_def dict_values_def map_filter_simps

lemma sample_deliveries:
  assumes d: "sample_verdict d t"
  shows "apply_entry zero_hash ratio_text (sample_p d []) (sample_entry 7 (Rec_delivery sample_delivery)) =
      Inr (sample_p d [sample_delivery])"
    and "apply_entry zero_hash ratio_text (sample_p d [sample_delivery]) (sample_entry 8 (Rec_delivery sample_claimed)) =
      Inr (sample_p d [sample_delivery, sample_claimed])"
    and "apply_entry zero_hash ratio_text (sample_p d [sample_delivery, sample_claimed])
        (sample_entry 9 (Rec_delivery sample_attempting)) = Inr (sample_p d [sample_delivery, sample_claimed, sample_attempting])"
    and "apply_entry zero_hash ratio_text (sample_p d [sample_delivery, sample_claimed, sample_attempting])
        (sample_entry 10 (Rec_delivery sample_delivered)) =
      Inr (sample_p d [sample_delivery, sample_claimed, sample_attempting, sample_delivered])"
  using sample_delivery_step [OF d, of sample_delivery "[]" 7]
    sample_delivery_step [OF d, of sample_claimed "[sample_delivery]" 8]
    sample_delivery_step [OF d, of sample_attempting "[sample_delivery, sample_claimed]" 9]
    sample_delivery_step [OF d, of sample_delivered "[sample_delivery, sample_claimed, sample_attempting]" 10]
  by (simp_all add: sample_delivery_simps nth_Cons split: nat.splits)

definition sample_ledger :: "intervention_decision \<Rightarrow> ledger_entry list" where
  "sample_ledger d = [sample_entry 1 (Rec_event sample_event), sample_entry 2 (Rec_decision sample_decision),
     sample_entry 3 (Rec_cycle sample_pending), sample_entry 4 (Rec_cycle sample_reserved),
     sample_entry 5 (Rec_cycle sample_running), sample_entry 6 (Rec_cycle (sample_committed d)),
     sample_entry 7 (Rec_delivery sample_delivery), sample_entry 8 (Rec_delivery sample_claimed),
     sample_entry 9 (Rec_delivery sample_attempting), sample_entry 10 (Rec_delivery sample_delivered)]"

definition sample_projection :: "intervention_decision \<Rightarrow> projection" where
  "sample_projection d = sample_p d [sample_delivery, sample_claimed, sample_attempting, sample_delivered]"

lemma sample_run:
  assumes "sample_verdict d t"
  shows "project_entries zero_hash ratio_text (sample_uuid 1) (sample_ledger d) = Inr (sample_projection d)"
  using sample_deliveries [OF assms] sample_step6 [OF assms]
  by (simp add: project_entries_def sample_ledger_def sample_step1 [simplified] sample_step2 sample_step3 sample_step4 sample_step5
      sample_p_nil sample_projection_def)

lemma sample_decision_valid: "valid_invocation_decision sample_decision"
proof -
  have "component_identifier ''p''" by code_simp
  then show ?thesis
    by (simp add: valid_invocation_decision_def opt_all_def forced_invoke_reason_codes_def forced_silence_reason_codes_def
        risk_threshold_reason_codes_def invocation_reason_codes_def)
qed

lemma sample_reachable:
  assumes "sample_verdict d t"
  shows "reachable zero_hash ratio_text (sample_uuid 1) (sample_projection d)"
proof (rule project_entries_reachable [OF sample_run [OF assms]])
  show "\<forall>e\<in>set (sample_ledger d). valid_ledger_record zero_hash (le_record e)"
    using sample_committed_valid [OF assms]
    by (simp add: sample_ledger_def sample_entry_def valid_ledger_record_def sample_decision_valid sample_cycle_valid
        sample_delivery_valid)
qed

lemma sample_p5_reachable: "reachable zero_hash ratio_text (sample_uuid 1) sample_p5"
proof (rule project_entries_reachable)
  let ?entries = "[sample_entry 1 (Rec_event sample_event), sample_entry 2 (Rec_decision sample_decision),
     sample_entry 3 (Rec_cycle sample_pending), sample_entry 4 (Rec_cycle sample_reserved),
     sample_entry 5 (Rec_cycle sample_running)]"
  show "project_entries zero_hash ratio_text (sample_uuid 1) ?entries = Inr sample_p5"
    by (simp add: project_entries_def sample_step1 [simplified] sample_step2 sample_step3 sample_step4 sample_step5)
  show "\<forall>e\<in>set ?entries. valid_ledger_record zero_hash (le_record e)"
    by (simp add: sample_entry_def valid_ledger_record_def sample_decision_valid sample_cycle_valid)
qed

end
