(* ===== verification/Ledger_Properties.thy ===== *)
theory Ledger_Properties
  imports Sample_Run
begin

text \<open>
  The properties of every projection the ledger projector reaches, stated on the dictionaries of
  the projection itself. Each rests on one of the invariants proved by rule induction over
  \<open>reachable\<close>; each witness is the ledger of the theory \<open>Sample_Run\<close>.
\<close>

section \<open>The projection of the sample ledger\<close>

lemma sample_projection_reached: "\<exists>d t. sample_verdict d t \<and> reachable zero_hash ratio_text (sample_uuid 1) (sample_projection d)"
  using sample_verdict_exists sample_reachable by blast

lemma sample_projection_sel [simp]:
  "pr_events_by_id (sample_projection d) = [(sample_uuid 2, sample_event)]"
  "pr_events_by_sequence (sample_projection d) = [(1, sample_event)]"
  "pr_ingestion_cursor (sample_projection d) = 1" "pr_memory_cursor (sample_projection d) = 1"
  "pr_memories (sample_projection d) = [(sample_uuid 7, sample_memory)]"
  "pr_memory_history (sample_projection d) = [((sample_uuid 7, 1), sample_memory)]"
  "pr_cycles (sample_projection d) = [(zero_hash [], sample_committed d)]"
  "pr_cycle_history (sample_projection d) = [((zero_hash [], 1), sample_pending), ((zero_hash [], 2), sample_reserved),
     ((zero_hash [], 3), sample_running), ((zero_hash [], 4), sample_committed d)]"
  "pr_interventions (sample_projection d) = [(sample_uuid 3, d)]"
  "pr_deliveries (sample_projection d) = [(sample_uuid 8, sample_delivered)]"
  "pr_delivery_history (sample_projection d) = [((sample_uuid 8, 1), sample_delivery), ((sample_uuid 8, 2), sample_claimed),
     ((sample_uuid 8, 3), sample_attempting), ((sample_uuid 8, 4), sample_delivered)]"
  "pr_budget_limits (sample_projection d) = Some sample_limits"
  by (simp_all add: sample_projection_def)
    (simp_all add: sample_p_def sample_p6_def sample_preview_def sample_p5_def sample_p2_def sample_p1_def)

lemma ex_conjI: "P x \<Longrightarrow> Q x \<Longrightarrow> \<exists>x. P x \<and> Q x"
  by blast

lemma earlier_revisions:
  fixes n m :: int
  assumes "has_key h (i, n)" and "\<And>k. has_key h (i, k) \<Longrightarrow> k \<noteq> 1 \<Longrightarrow> has_key h (i, k - 1)"
    and "1 \<le> m" and "m \<le> n"
  shows "has_key h (i, m)"
  using assms(1,3,4)
proof (induction "nat (n - m)" arbitrary: n)
  case (Suc x)
  from Suc.hyps(2) Suc.prems(2) have "n \<noteq> 1" and less: "x = nat (n - 1 - m)" "m \<le> n - 1" by linarith+
  from assms(2) [OF Suc.prems(1) this(1)] show ?case using Suc.hyps(1) less Suc.prems(2) by blast
qed simp

section \<open>The event log\<close>

text \<open>C34. The event log of a run has no gap: exactly the sequences 1 to the ingestion cursor are
  occupied, and the event at a sequence carries that sequence, is found under its identity and its
  source identity, and has all its parents at earlier sequences.\<close>

theorem event_log_is_causal:
  assumes "reachable H F run_id p"
  shows "(\<forall>n. has_key (pr_events_by_sequence p) n \<longleftrightarrow> 1 \<le> n \<and> n \<le> pr_ingestion_cursor p) \<and>
    (\<forall>n e. dict_get (pr_events_by_sequence p) n = Some e \<longrightarrow>
       ev_sequence e = n \<and> valid_trace_event e \<and> ev_run_id e = pr_run_id p \<and>
       dict_get (pr_events_by_id p) (ev_event_id e) = Some e \<and>
       dict_get (pr_events_by_source p) (ev_source_event_id e) = Some e \<and>
       (\<forall>i\<in>set (ev_parent_ids e). \<exists>q. dict_get (pr_events_by_id p) i = Some q \<and> ev_sequence q < n))"
  using reachable_events [OF assms] unfolding events_inv_def event_placed_def by blast

lemma event_log_is_causal_witness:
  "\<exists>p::projection. pr_ingestion_cursor p = 1 \<and> (\<forall>n. has_key (pr_events_by_sequence p) n \<longleftrightarrow> 1 \<le> n \<and> n \<le> (1::int))"
proof -
  obtain d t where "reachable zero_hash ratio_text (sample_uuid 1) (sample_projection d)"
    using sample_projection_reached by blast
  then have "\<forall>n. has_key (pr_events_by_sequence (sample_projection d)) n \<longleftrightarrow>
      1 \<le> n \<and> n \<le> pr_ingestion_cursor (sample_projection d)"
    by (rule event_log_is_causal [THEN conjunct1])
  then have "\<forall>n. has_key (pr_events_by_sequence (sample_projection d)) n \<longleftrightarrow> 1 \<le> n \<and> n \<le> 1"
    unfolding sample_projection_sel(3) .
  then show ?thesis by - (rule ex_conjI [where x = "sample_projection d"], rule sample_projection_sel, assumption)
qed

section \<open>Cycles\<close>

text \<open>C16. Every event up to the memory cursor is covered by exactly one committed cycle, and no
  committed cycle covers an event beyond it: each event is consumed once and in order.\<close>

theorem every_event_is_consumed_once:
  assumes "reachable H F run_id p"
  shows "if 1 \<le> n \<and> n \<le> pr_memory_cursor p
    then \<exists>!i. \<exists>c. dict_get (pr_cycles p) i = Some c \<and> cy_state c = Cycle_COMMITTED \<and>
       cy_first_event_sequence c \<le> n \<and> n \<le> cy_last_event_sequence c
    else \<not> (\<exists>i c. dict_get (pr_cycles p) i = Some c \<and> cy_state c = Cycle_COMMITTED \<and>
       cy_first_event_sequence c \<le> n \<and> n \<le> cy_last_event_sequence c)"
    (is "if ?in then \<exists>!i. ?covered i else \<not> (\<exists>i. ?covered i)")
proof -
  have inv: "cycles_inv H p" by (rule reachable_cycles [OF assms])
  have covered: "?covered i \<longleftrightarrow> (\<exists>c. dict_get (pr_cycles p) i = Some c \<and> covers c n)" for i
    by (simp add: covers_def)
  have unique: "i = j" if "?covered i" "?covered j" for i j
    using inv that unfolding covered cycles_inv_def by blast
  have all: "?in \<Longrightarrow> \<exists>i. ?covered i"
    using inv unfolding covered cycles_inv_def by blast
  have within: "?in" if "?covered i" for i
  proof -
    from that obtain c where c: "dict_get (pr_cycles p) i = Some c" "covers c n" unfolding covered by blast
    then have "latest_cycle_ok H p i c" using inv unfolding cycles_inv_def by blast
    with c(2) show ?thesis by (auto simp: covers_def latest_cycle_ok_def)
  qed
  show ?thesis
  proof (cases ?in)
    case True
    then have "\<exists>!i. ?covered i" using all unique by blast
    then show ?thesis unfolding if_P [OF True] .
  next
    case False
    then have "\<not> (\<exists>i. ?covered i)" using within by blast
    then show ?thesis unfolding if_not_P [OF False] .
  qed
qed

lemma every_event_is_consumed_once_witness:
  "\<exists>p::projection. pr_memory_cursor p = 1 \<and>
    (\<exists>!i. \<exists>c. dict_get (pr_cycles p) i = Some c \<and> cy_state c = Cycle_COMMITTED \<and>
       cy_first_event_sequence c \<le> 1 \<and> 1 \<le> cy_last_event_sequence c) \<and>
    \<not> (\<exists>i c. dict_get (pr_cycles p) i = Some c \<and> cy_state c = Cycle_COMMITTED \<and>
       cy_first_event_sequence c \<le> 2 \<and> 2 \<le> cy_last_event_sequence c)"
proof -
  obtain d t where "reachable zero_hash ratio_text (sample_uuid 1) (sample_projection d)"
    using sample_projection_reached by blast
  note once = every_event_is_consumed_once [OF this]
  have cursor: "pr_memory_cursor (sample_projection d) = 1" by simp
  then have bounds: "1 \<le> (1::int) \<and> 1 \<le> pr_memory_cursor (sample_projection d)"
    "\<not> (1 \<le> (2::int) \<and> 2 \<le> pr_memory_cursor (sample_projection d))" by simp_all
  note both = conjI [OF once [of 1, unfolded if_P [OF bounds(1)]] once [of 2, unfolded if_not_P [OF bounds(2)]]]
  show ?thesis
    by (rule ex_conjI [where x = "sample_projection d"], rule sample_projection_sel, rule both)
qed

text \<open>C17. At most one cycle of a run is active, and its batch starts right after the last consumed
  event and ends within the ingested ones.\<close>

theorem one_active_cycle_at_the_frontier:
  assumes "reachable H F run_id p" and "dict_get (pr_cycles p) i = Some c" and "active_cycle c"
  shows "cy_first_event_sequence c = pr_memory_cursor p + 1 \<and>
    cy_first_event_sequence c \<le> cy_last_event_sequence c \<and> cy_last_event_sequence c \<le> pr_ingestion_cursor p \<and>
    (\<forall>j d. dict_get (pr_cycles p) j = Some d \<longrightarrow> active_cycle d \<longrightarrow> j = i \<and> d = c)"
proof -
  have inv: "cycles_inv H p" by (rule reachable_cycles [OF assms(1)])
  then have "latest_cycle_ok H p i c" using assms(2) unfolding cycles_inv_def by blast
  moreover have "j = i" if "dict_get (pr_cycles p) j = Some d" "active_cycle d" for j d
    using inv that assms(2,3) unfolding cycles_inv_def by blast
  ultimately show ?thesis using assms(2,3) unfolding latest_cycle_ok_def by (metis option.inject)
qed

lemma one_active_cycle_at_the_frontier_witness:
  "\<exists>p::projection. active_cycle sample_running \<and> dict_get (pr_cycles p) (zero_hash []) = Some sample_running \<and>
     cy_first_event_sequence sample_running = pr_memory_cursor p + 1"
proof -
  have "reachable zero_hash ratio_text (sample_uuid 1) sample_p5" by (rule sample_p5_reachable)
  moreover have "dict_get (pr_cycles sample_p5) (zero_hash []) = Some sample_running" by simp
  moreover have "active_cycle sample_running" by (simp add: active_cycle_def)
  ultimately show ?thesis using one_active_cycle_at_the_frontier by blast
qed

text \<open>C35. Every revision of a cycle the history holds is a legal one: the first is pending, a later
  one follows its stored predecessor by one step of the transition table with the immutable fields
  unchanged, all earlier revisions are still stored, and the current cycle is the newest of them.\<close>

theorem cycle_history_is_legal:
  assumes "reachable H F run_id p" and "dict_get (pr_cycle_history p) (i, n) = Some c"
  shows "cy_cycle_id c = i \<and> cy_revision c = n \<and> valid_cycle_record H c \<and>
    (n = 1 \<longrightarrow> cy_state c = Cycle_PENDING) \<and>
    (n \<noteq> 1 \<longrightarrow> (\<exists>q. dict_get (pr_cycle_history p) (i, n - 1) = Some q \<and> revises q c)) \<and>
    (\<forall>m. 1 \<le> m \<and> m \<le> n \<longrightarrow> has_key (pr_cycle_history p) (i, m)) \<and>
    (\<exists>l. dict_get (pr_cycles p) i = Some l \<and> n \<le> cy_revision l \<and>
       dict_get (pr_cycle_history p) (i, cy_revision l) = Some l)"
proof -
  have inv: "cycles_inv H p" by (rule reachable_cycles [OF assms(1)])
  have ok: "cycle_revision_ok H p i k r" if "dict_get (pr_cycle_history p) (i, k) = Some r" for k r
    using inv that unfolding cycles_inv_def by blast
  have step: "has_key (pr_cycle_history p) (i, k - 1)" if "has_key (pr_cycle_history p) (i, k)" "k \<noteq> 1" for k
  proof -
    from that(1) obtain r where "dict_get (pr_cycle_history p) (i, k) = Some r" unfolding has_key_def by blast
    from ok [OF this] that(2) show ?thesis unfolding cycle_revision_ok_def has_key_def by auto
  qed
  have "has_key (pr_cycle_history p) (i, m)" if "1 \<le> m" "m \<le> n" for m
    by (rule earlier_revisions [OF _ step that]) (use assms(2) in \<open>unfold has_key_def, blast\<close>)
  moreover from ok [OF assms(2)] obtain l where l: "dict_get (pr_cycles p) i = Some l" "n \<le> cy_revision l"
    unfolding cycle_revision_ok_def by blast
  moreover have "latest_cycle_ok H p i l" using inv l(1) unfolding cycles_inv_def by blast
  ultimately show ?thesis using ok [OF assms(2)] unfolding cycle_revision_ok_def latest_cycle_ok_def by auto
qed

lemma cycle_history_is_legal_witness:
  "\<exists>(p::projection) c. dict_get (pr_cycle_history p) (zero_hash [], 4) = Some c \<and> cy_state c = Cycle_COMMITTED \<and>
     (\<exists>q. dict_get (pr_cycle_history p) (zero_hash [], 3) = Some q \<and> revises q c)"
proof -
  obtain d t where r: "reachable zero_hash ratio_text (sample_uuid 1) (sample_projection d)"
    using sample_projection_reached by blast
  have c: "dict_get (pr_cycle_history (sample_projection d)) (zero_hash [], 4) = Some (sample_committed d)" by simp
  from cycle_history_is_legal [OF r c]
  have "\<exists>q. dict_get (pr_cycle_history (sample_projection d)) (zero_hash [], 3) = Some q \<and> revises q (sample_committed d)"
    by (simp del: sample_projection_sel)
  moreover have "cy_state (sample_committed d) = Cycle_COMMITTED" by simp
  ultimately show ?thesis using c by blast
qed

section \<open>The budget\<close>

text \<open>C18. Over any reachable ledger, what the cycles hold in reservation plus what they have
  settled stays within the limits in every field; so the budget snapshot derived from the ledger is
  always defined, carries exactly these sums, and is valid.\<close>

theorem ledger_budget_is_never_overdrawn:
  assumes "reachable H F run_id p" and "pr_budget_limits p = Some l"
  shows "(\<forall>f. committed_budget f p \<le> amount f l) \<and>
    (\<exists>s. budget_snapshot_of p None = Inr s \<and> limits s = l \<and> valid_budget_snapshot s \<and>
       (\<forall>f. amount f (reserved s) + amount f (consumed s) = committed_budget f p))"
proof -
  have inv: "valid_budget_limits l" "\<forall>f. committed_budget f p \<le> amount f l"
    using reachable_budget [OF assms(1)] assms(2) by (simp_all add: budget_inv_def)
  from derived_snapshot_valid [OF reachable_cycles [OF assms(1)] assms(2) inv] inv(2) show ?thesis by blast
qed

lemma ledger_budget_is_never_overdrawn_witness:
  "\<exists>p::projection. pr_budget_limits p = Some sample_limits \<and>
     (\<exists>s. budget_snapshot_of p None = Inr s \<and> amount F_model_calls (reserved s) + amount F_model_calls (consumed s) = 1)"
proof -
  obtain d t where "reachable zero_hash ratio_text (sample_uuid 1) (sample_projection d)"
    using sample_projection_reached by blast
  from ledger_budget_is_never_overdrawn [OF this sample_projection_sel(12)]
  obtain s where s: "budget_snapshot_of (sample_projection d) None = Inr s"
    "\<forall>f. amount f (reserved s) + amount f (consumed s) = committed_budget f (sample_projection d)" by blast
  have "committed_budget F_model_calls (sample_projection d) = 1"
    by (simp add: committed_budget_def held_def spent_def active_reservation_def final_settlement_def dict_values_def)
  with s sample_projection_sel(12) [of d] show ?thesis by metis
qed

section \<open>Deliveries\<close>

text \<open>C36. Every revision of a delivery the history holds is a legal one: the first is pending, a
  later one follows its stored predecessor by one step of the transition table with the immutable
  fields, the claim and the attempt count kept as the step demands, all earlier revisions are still
  stored, and the current delivery is the newest of them.\<close>

theorem delivery_history_is_legal:
  assumes "reachable H F run_id p" and "dict_get (pr_delivery_history p) (i, n) = Some d"
  shows "dv_delivery_id d = i \<and> dv_revision d = n \<and> valid_delivery_record d \<and>
    (n = 1 \<longrightarrow> dv_state d = Delivery_PENDING) \<and>
    (n \<noteq> 1 \<longrightarrow> (\<exists>q. dict_get (pr_delivery_history p) (i, n - 1) = Some q \<and> delivery_revises q d)) \<and>
    (\<forall>m. 1 \<le> m \<and> m \<le> n \<longrightarrow> has_key (pr_delivery_history p) (i, m)) \<and>
    (\<exists>l. dict_get (pr_deliveries p) i = Some l \<and> n \<le> dv_revision l \<and>
       dict_get (pr_delivery_history p) (i, dv_revision l) = Some l)"
proof -
  have inv: "deliveries_inv p" by (rule reachable_deliveries [OF assms(1)])
  note ok = deliveries_inv_history [OF inv]
  have step: "has_key (pr_delivery_history p) (i, k - 1)" if "has_key (pr_delivery_history p) (i, k)" "k \<noteq> 1" for k
  proof -
    from that(1) obtain r where "dict_get (pr_delivery_history p) (i, k) = Some r" unfolding has_key_def by blast
    from ok [OF this] that(2) show ?thesis unfolding delivery_revision_ok_def has_key_def by auto
  qed
  have "has_key (pr_delivery_history p) (i, m)" if "1 \<le> m" "m \<le> n" for m
    by (rule earlier_revisions [OF _ step that]) (use assms(2) in \<open>unfold has_key_def, blast\<close>)
  moreover from ok [OF assms(2)] obtain l where l: "dict_get (pr_deliveries p) i = Some l" "n \<le> dv_revision l"
    unfolding delivery_revision_ok_def by blast
  moreover note deliveries_inv_latest(2) [OF inv l(1)]
  ultimately show ?thesis using ok [OF assms(2)] unfolding delivery_revision_ok_def by auto
qed

lemma delivery_history_is_legal_witness:
  "\<exists>(p::projection) q. dict_get (pr_delivery_history p) (sample_uuid 8, 4) = Some sample_delivered \<and>
     dict_get (pr_delivery_history p) (sample_uuid 8, 3) = Some q \<and> delivery_revises q sample_delivered"
proof -
  obtain d t where r: "reachable zero_hash ratio_text (sample_uuid 1) (sample_projection d)"
    using sample_projection_reached by blast
  have c: "dict_get (pr_delivery_history (sample_projection d)) (sample_uuid 8, 4) = Some sample_delivered" by simp
  from delivery_history_is_legal [OF r c]
  have "\<exists>q. dict_get (pr_delivery_history (sample_projection d)) (sample_uuid 8, 3) = Some q \<and> delivery_revises q sample_delivered"
    by (simp del: sample_projection_sel)
  with c show ?thesis by blast
qed

text \<open>C3. At most once: a delivery whose adapter does not deduplicate has at most one revision in
  the attempting state, over the whole history.\<close>

theorem delivery_is_attempted_at_most_once:
  assumes "reachable H F run_id p" and "dict_get (pr_deliveries p) i = Some d" and "\<not> dv_adapter_deduplicates d"
    and "dict_get (pr_delivery_history p) (i, n) = Some a" and "dv_state a = Delivery_ATTEMPTING"
    and "dict_get (pr_delivery_history p) (i, m) = Some b" and "dv_state b = Delivery_ATTEMPTING"
  shows "n = m \<and> a = b"
  by (rule attempting_once [OF reachable_deliveries [OF assms(1)] assms(2-7)])

lemma delivery_is_attempted_at_most_once_witness:
  "\<exists>p::projection. dict_get (pr_delivery_history p) (sample_uuid 8, 3) = Some sample_attempting \<and>
     (\<forall>m b. dict_get (pr_delivery_history p) (sample_uuid 8, m) = Some b \<longrightarrow>
        dv_state b = Delivery_ATTEMPTING \<longrightarrow> 3 = m)"
proof -
  obtain d t where r: "reachable zero_hash ratio_text (sample_uuid 1) (sample_projection d)"
    using sample_projection_reached by blast
  have c: "dict_get (pr_delivery_history (sample_projection d)) (sample_uuid 8, 3) = Some sample_attempting"
    and l: "dict_get (pr_deliveries (sample_projection d)) (sample_uuid 8) = Some sample_delivered"
    and s: "\<not> dv_adapter_deduplicates sample_delivered" "dv_state sample_attempting = Delivery_ATTEMPTING" by simp_all
  show ?thesis using c delivery_is_attempted_at_most_once [OF r l s(1) c s(2)] by blast
qed

text \<open>C33. Owner tokens are never reused: no two stored revisions of any deliveries are claims with
  the same claim token or attempts with the same attempt token.\<close>

theorem owner_tokens_are_fresh:
  assumes "reachable H F run_id p"
    and "dict_get (pr_delivery_history p) k = Some d" and "dict_get (pr_delivery_history p) k' = Some d'"
    and "dv_state d = dv_state d'"
    and "dv_state d = Delivery_CLAIMED \<and> dv_claim_id d = dv_claim_id d' \<or>
         dv_state d = Delivery_ATTEMPTING \<and> dv_attempt_id d = dv_attempt_id d'"
  shows "k = k'"
proof -
  have "fresh_owners p" using reachable_deliveries [OF assms(1)] unfolding deliveries_inv_def by blast
  then show ?thesis using assms(2-) unfolding fresh_owners_def by metis
qed

lemma owner_tokens_are_fresh_witness:
  "\<exists>p::projection. dict_get (pr_delivery_history p) (sample_uuid 8, 2) = Some sample_claimed \<and>
     (\<forall>k. dict_get (pr_delivery_history p) k = Some sample_claimed \<longrightarrow> k = (sample_uuid 8, 2))"
proof -
  obtain d t where r: "reachable zero_hash ratio_text (sample_uuid 1) (sample_projection d)"
    using sample_projection_reached by blast
  have c: "dict_get (pr_delivery_history (sample_projection d)) (sample_uuid 8, 2) = Some sample_claimed"
    and s: "dv_state sample_claimed = Delivery_CLAIMED" by simp_all
  show ?thesis using c s owner_tokens_are_fresh [OF r _ c] by blast
qed

text \<open>C32. Nothing is delivered that was not decided: the intervention of every delivery is the
  reminder of a committed cycle, with the delivery's target and the digest of exactly its text, and
  no two deliveries carry the same intervention.\<close>

theorem delivery_is_authorized:
  assumes "reachable H F run_id p" and "dict_get (pr_deliveries p) i = Some d"
  shows "(\<exists>c v t. dict_get (pr_cycles p) (dv_cycle_id d) = Some c \<and> cy_state c = Cycle_COMMITTED \<and>
      cy_intervention c = Some v \<and> iv_intervention_id v = dv_intervention_id d \<and> iv_action v = Action_REMIND \<and>
      iv_delivery_target v = Some (dv_target d) \<and> iv_rendered_text v = Some t \<and>
      dv_rendered_text_digest d = text_digest H t) \<and>
    (\<forall>j e. dict_get (pr_deliveries p) j = Some e \<longrightarrow> dv_intervention_id e = dv_intervention_id d \<longrightarrow> j = i)"
proof -
  have out: "outbox_inv H p" by (rule reachable_outbox [OF assms(1)])
  then have "delivery_authorized H p d" using assms(2) unfolding outbox_inv_def by blast
  moreover have "\<forall>k v. dict_get (pr_interventions p) k = Some v \<longrightarrow> iv_intervention_id v = k"
    using out unfolding outbox_inv_def interventions_inv_def by blast
  moreover have "j = i" if "dict_get (pr_deliveries p) j = Some e" "dv_intervention_id e = dv_intervention_id d" for j e
    using reachable_deliveries [OF assms(1)] that assms(2) unfolding deliveries_inv_def by blast
  ultimately show ?thesis unfolding delivery_authorized_def by blast
qed

lemma delivery_is_authorized_witness:
  "\<exists>(p::projection) c. dict_get (pr_deliveries p) (sample_uuid 8) = Some sample_delivered \<and>
     dict_get (pr_cycles p) (zero_hash []) = Some c \<and> cy_state c = Cycle_COMMITTED"
proof -
  obtain d t where r: "reachable zero_hash ratio_text (sample_uuid 1) (sample_projection d)"
    using sample_projection_reached by blast
  have c: "dict_get (pr_deliveries (sample_projection d)) (sample_uuid 8) = Some sample_delivered"
    and s: "dv_cycle_id sample_delivered = zero_hash []" by simp_all
  show ?thesis using c delivery_is_authorized [OF r c, unfolded s] by blast
qed

text \<open>C38. The completeness check after a full projection accepts exactly the ledgers in which every
  committed reminder has its delivery.\<close>

theorem completeness_check_is_exact:
  assumes "reachable H F run_id p"
  shows "validate_complete_projection p = Inr () \<longleftrightarrow>
    (\<forall>c\<in>set (dict_values (pr_cycles p)). committed_reminder c \<longrightarrow>
       (\<exists>j d i. dict_get (pr_deliveries p) j = Some d \<and> dv_cycle_id d = cy_cycle_id c \<and>
          cy_intervention c = Some i \<and> dv_intervention_id d = iv_intervention_id i))"
  using validate_complete_iff [OF reachable_cycles reachable_deliveries reachable_outbox] assms
  unfolding reminder_enqueued_def by blast

lemma completeness_check_is_exact_witness:
  "(\<exists>p::projection. p \<noteq> empty_projection (sample_uuid 1) \<and> validate_complete_projection p = Inr ())"
proof -
  obtain d t where v: "sample_verdict d t" and r: "reachable zero_hash ratio_text (sample_uuid 1) (sample_projection d)"
    using sample_projection_reached by blast
  have "validate_complete_projection (sample_projection d) = Inr ()"
    by (subst completeness_check_is_exact [OF r]) (simp add: dict_values_def sample_verdict_fields [OF v])
  moreover have "pr_ingestion_cursor (sample_projection d) \<noteq> pr_ingestion_cursor (empty_projection (sample_uuid 1))"
    by (simp add: empty_projection_def)
  ultimately show ?thesis by metis
qed

section \<open>Memories\<close>

text \<open>C37. Memory is versioned and attributed: every revision of a memory the history holds is
  valid, the first is active, a later one follows an active predecessor of the same memory, kind
  and creation time, and every citation of its provenance resolves to an ingested event or to a
  stored memory revision.\<close>

theorem memory_history_is_legal:
  assumes "reachable H F run_id p" and "dict_get (pr_memory_history p) (i, n) = Some m"
  shows "mr_memory_id m = i \<and> mr_revision m = n \<and> valid_memory_record m \<and> mr_run_id m = pr_run_id p \<and>
    (n = 1 \<longrightarrow> mr_validity m = Validity_ACTIVE) \<and>
    (n \<noteq> 1 \<longrightarrow> (\<exists>q. dict_get (pr_memory_history p) (i, n - 1) = Some q \<and> mr_validity q = Validity_ACTIVE \<and>
       mr_kind m = mr_kind q \<and> mr_created_at m = mr_created_at q \<and> mr_updated_at q \<le> mr_updated_at m)) \<and>
    (\<forall>r\<in>set (mr_provenance m). if er_source r = Source_EVENT then has_key (pr_events_by_id p) (er_source_id r)
       else \<exists>k. er_revision r = Some k \<and> has_key (pr_memory_history p) (er_source_id r, k)) \<and>
    (\<exists>l. dict_get (pr_memories p) i = Some l \<and> n \<le> mr_revision l \<and>
       dict_get (pr_memory_history p) (i, mr_revision l) = Some l)"
proof -
  have inv: "memories_ok (pr_events_by_id p) (pr_run_id p) (delta_state_of p)"
    using reachable_memory [OF assms(1)] unfolding memory_inv_def by blast
  have ok: "memory_revision_ok (pr_events_by_id p) (pr_run_id p) (delta_state_of p) i n m"
    using inv assms(2) unfolding memories_ok_def by (simp add: delta_state_of_def)
  then obtain l where l: "dict_get (pr_memories p) i = Some l" "n \<le> mr_revision l"
    unfolding memory_revision_ok_def by (auto simp: delta_state_of_def)
  have "dict_get (pr_memory_history p) (i, mr_revision l) = Some l"
    using inv l(1) unfolding memories_ok_def by (auto simp: delta_state_of_def)
  moreover have "\<exists>q. dict_get (pr_memory_history p) (i, n - 1) = Some q \<and> memory_revises q m" if "n \<noteq> 1"
    using ok that unfolding memory_revision_ok_def by (simp add: delta_state_of_def)
  moreover have "evidence_known (pr_events_by_id p) (pr_memory_history p) (mr_provenance m)"
    using ok unfolding memory_revision_ok_def by (simp add: delta_state_of_def)
  ultimately show ?thesis
    using ok l unfolding memory_revision_ok_def memory_revises_def evidence_known_def by (auto split: if_splits)
qed

lemma memory_history_is_legal_witness:
  "\<exists>p::projection. dict_get (pr_memory_history p) (sample_uuid 7, 1) = Some sample_memory \<and>
     (\<forall>r\<in>set (mr_provenance sample_memory).
        if er_source r = Source_EVENT then has_key (pr_events_by_id p) (er_source_id r)
        else \<exists>k. er_revision r = Some k \<and> has_key (pr_memory_history p) (er_source_id r, k))"
proof -
  obtain d t where r: "reachable zero_hash ratio_text (sample_uuid 1) (sample_projection d)"
    using sample_projection_reached by blast
  have c: "dict_get (pr_memory_history (sample_projection d)) (sample_uuid 7, 1) = Some sample_memory" by simp
  show ?thesis using c memory_history_is_legal [OF r c] by blast
qed

text \<open>The pointer to the current private status is exact: it names a memory if and only if
  that memory is an active private status, so there is at most one.\<close>

theorem private_status_pointer_is_exact:
  assumes "reachable H F run_id p"
  shows "pr_current_private_status_id p = Some i \<longleftrightarrow>
    (\<exists>m. dict_get (pr_memories p) i = Some m \<and> mr_kind m = Kind_PRIVATE_STATUS \<and> mr_validity m = Validity_ACTIVE)"
  using reachable_memory [OF assms] unfolding memory_inv_def private_ok_def current_private_def
  by (simp add: delta_state_of_def)

lemma private_status_pointer_is_exact_witness:
  "\<exists>p::projection. pr_memories p = [(sample_uuid 7, sample_memory)] \<and> pr_current_private_status_id p \<noteq> Some (sample_uuid 7)"
proof -
  obtain d t where r: "reachable zero_hash ratio_text (sample_uuid 1) (sample_projection d)"
    using sample_projection_reached by blast
  have m: "pr_memories (sample_projection d) = [(sample_uuid 7, sample_memory)]" by simp
  moreover have "mr_kind sample_memory \<noteq> Kind_PRIVATE_STATUS" by (simp add: sample_memory_def)
  ultimately have "pr_current_private_status_id (sample_projection d) \<noteq> Some (sample_uuid 7)"
    using private_status_pointer_is_exact [OF r, of "sample_uuid 7"] by simp
  with m show ?thesis by blast
qed

section \<open>Reminders\<close>

text \<open>C1. Every reminder a committed cycle holds is backed by the record: each of its claims says
  exactly what its citation selects from an event of the batch's past or from a stored active
  revision of a memory of the claim's kind, its text fits the limit of the cycle's grounding
  configuration, and its target is one the configuration allows. No later entry undoes this.\<close>

theorem committed_reminders_are_on_record:
  assumes "hex_digest H" and "reachable H F run_id p" and "dict_get (pr_cycles p) j = Some c"
    and "cy_state c = Cycle_COMMITTED" and "cy_intervention c = Some i" and "iv_action i = Action_REMIND"
  shows "reminder_on_record p c i"
  using reachable_reminders [OF assms(1,2)] assms(3-) unfolding reminders_inv_def by blast

lemma committed_reminders_are_on_record_witness:
  "\<exists>(p::projection) c i. dict_get (pr_cycles p) (zero_hash []) = Some c \<and> cy_intervention c = Some i \<and>
     iv_action i = Action_REMIND \<and> reminder_on_record p c i"
proof -
  obtain d t where v: "sample_verdict d t" and r: "reachable zero_hash ratio_text (sample_uuid 1) (sample_projection d)"
    using sample_projection_reached by blast
  have c: "dict_get (pr_cycles (sample_projection d)) (zero_hash []) = Some (sample_committed d)"
    and s: "cy_state (sample_committed d) = Cycle_COMMITTED" "cy_intervention (sample_committed d) = Some d" by simp_all
  note a = sample_verdict_fields(1) [OF v]
  from committed_reminders_are_on_record [OF hex_digest_zero_hash r c s a] c s(2) a show ?thesis by blast
qed

end
