(* ===== verification/Commands.thy ===== *)
theory Commands
  imports Projector
begin

text \<open>
  The commands a caller sends to a run repository and the receipts it gets back
  (\<open>ports/repository.py\<close>). A pydantic model is a record; its field bounds and validators are a
  \<open>valid_\<close> predicate. The type tags of the models (\<open>operation\<close>, \<open>schema_version\<close>) are the
  constructors and record types themselves.
\<close>

section \<open>Cycle commands\<close>

record begin_cycle_cmd =
  bc_run_id :: uuid
  bc_invocation_decision_id :: uuid
  bc_grounding_version :: string
  bc_grounding_configuration :: json
  bc_grounding_configuration_digest :: digest
  bc_requested_delivery_target :: "delivery_target option"
  bc_created_at :: timestamp

definition valid_begin_cycle :: "begin_cycle_cmd \<Rightarrow> bool" where
  "valid_begin_cycle c \<longleftrightarrow> uuid4 (bc_run_id c) \<and> uuid4 (bc_invocation_decision_id c) \<and>
     component_identifier (bc_grounding_version c) \<and>
     is_object (bc_grounding_configuration c) \<and> json_finite (bc_grounding_configuration c) \<and>
     sha256_digest (bc_grounding_configuration_digest c)"

record reserve_cycle_cmd =
  rc_run_id :: uuid
  rc_cycle_id :: digest
  rc_expected_revision :: int
  rc_reservation :: budget_amounts
  rc_updated_at :: timestamp

definition valid_reserve_cycle :: "reserve_cycle_cmd \<Rightarrow> bool" where
  "valid_reserve_cycle c \<longleftrightarrow> uuid4 (rc_run_id c) \<and> sha256_digest (rc_cycle_id c) \<and>
     1 \<le> rc_expected_revision c \<and> valid_budget_amounts (rc_reservation c)"

record start_cycle_cmd =
  sc_run_id :: uuid
  sc_cycle_id :: digest
  sc_expected_revision :: int
  sc_batch_digest :: digest
  sc_updated_at :: timestamp

definition valid_start_cycle :: "start_cycle_cmd \<Rightarrow> bool" where
  "valid_start_cycle c \<longleftrightarrow> uuid4 (sc_run_id c) \<and> sha256_digest (sc_cycle_id c) \<and>
     1 \<le> sc_expected_revision c \<and> sha256_digest (sc_batch_digest c)"

record enqueue_delivery =
  eq_target_request_id :: string
  eq_adapter_id :: string
  eq_adapter_deduplicates :: bool
  eq_adapter_deduplication_guarantee :: deduplication_guarantee
  eq_adapter_supports_pre_action :: bool
  eq_adapter_contract_version :: string
  eq_adapter_capabilities_digest :: digest

definition valid_enqueue_delivery :: "enqueue_delivery \<Rightarrow> bool" where
  "valid_enqueue_delivery d \<longleftrightarrow> component_identifier (eq_target_request_id d) \<and>
     component_identifier (eq_adapter_id d) \<and> component_identifier (eq_adapter_contract_version d) \<and>
     sha256_digest (eq_adapter_capabilities_digest d) \<and>
     eq_adapter_deduplicates d = (eq_adapter_deduplication_guarantee d = Dedup_DURABLE_DELIVERY_ID)"

record commit_cycle_cmd =
  cc_run_id :: uuid
  cc_cycle_id :: digest
  cc_expected_revision :: int
  cc_settlement :: budget_amounts
  cc_model_call_digests :: "digest list"
  cc_model_call_latencies_us :: "int list"
  cc_validated_delta :: memory_delta
  cc_memory_id_assignments :: "memory_id_assignment list"
  cc_intervention :: intervention_decision
  cc_selector_provenance :: "json option"
  cc_delivery :: "enqueue_delivery option"
  cc_updated_at :: timestamp

definition valid_commit_cycle :: "commit_cycle_cmd \<Rightarrow> bool" where
  "valid_commit_cycle c \<longleftrightarrow> uuid4 (cc_run_id c) \<and> sha256_digest (cc_cycle_id c) \<and>
     1 \<le> cc_expected_revision c \<and> valid_budget_amounts (cc_settlement c) \<and>
     list_all sha256_digest (cc_model_call_digests c) \<and>
     list_all (\<lambda>n. 0 \<le> n) (cc_model_call_latencies_us c) \<and>
     valid_memory_delta (cc_validated_delta c) \<and>
     list_all valid_memory_id_assignment (cc_memory_id_assignments c) \<and>
     valid_intervention_decision (cc_intervention c) \<and>
     opt_all (\<lambda>v. is_object v \<and> json_finite v) (cc_selector_provenance c) \<and>
     opt_all valid_enqueue_delivery (cc_delivery c) \<and>
     int (length (cc_model_call_digests c)) = model_calls (cc_settlement c) \<and>
     int (length (cc_model_call_latencies_us c)) = model_calls (cc_settlement c) \<and>
     \<not> sum_list (cc_model_call_latencies_us c) > latency_us (cc_settlement c) \<and>
     (iv_action (cc_intervention c) = Action_REMIND) = (cc_delivery c \<noteq> None)"

record fail_cycle_cmd =
  fc_run_id :: uuid
  fc_cycle_id :: digest
  fc_expected_revision :: int
  fc_reason :: reason_code
  fc_settlement :: "budget_amounts option"
  fc_model_call_digests :: "digest list"
  fc_model_call_latencies_us :: "int list"
  fc_updated_at :: timestamp

definition valid_fail_cycle :: "fail_cycle_cmd \<Rightarrow> bool" where
  "valid_fail_cycle c \<longleftrightarrow> uuid4 (fc_run_id c) \<and> sha256_digest (fc_cycle_id c) \<and>
     1 \<le> fc_expected_revision c \<and> opt_all valid_budget_amounts (fc_settlement c) \<and>
     list_all sha256_digest (fc_model_call_digests c) \<and>
     list_all (\<lambda>n. 0 \<le> n) (fc_model_call_latencies_us c) \<and>
     length (fc_model_call_digests c) = length (fc_model_call_latencies_us c) \<and>
     (case fc_settlement c of
        None \<Rightarrow> fc_model_call_digests c = []
      | Some s \<Rightarrow>
          \<not> sum_list (fc_model_call_latencies_us c) > latency_us s \<and>
          (if fc_reason c = Reason_FAILED_UNKNOWN_COST
           then \<not> int (length (fc_model_call_digests c)) > model_calls s
           else int (length (fc_model_call_digests c)) = model_calls s))"

section \<open>Delivery commands\<close>

record claim_delivery_cmd =
  cl_run_id :: uuid
  cl_delivery_id :: uuid
  cl_expected_revision :: int
  cl_claim_id :: uuid
  cl_updated_at :: timestamp

definition valid_claim_delivery :: "claim_delivery_cmd \<Rightarrow> bool" where
  "valid_claim_delivery c \<longleftrightarrow> uuid4 (cl_run_id c) \<and> uuid4 (cl_delivery_id c) \<and>
     1 \<le> cl_expected_revision c \<and> uuid4 (cl_claim_id c)"

record begin_attempt_cmd =
  ba_run_id :: uuid
  ba_delivery_id :: uuid
  ba_expected_revision :: int
  ba_claim_id :: uuid
  ba_attempt_id :: uuid
  ba_updated_at :: timestamp

definition valid_begin_attempt :: "begin_attempt_cmd \<Rightarrow> bool" where
  "valid_begin_attempt c \<longleftrightarrow> uuid4 (ba_run_id c) \<and> uuid4 (ba_delivery_id c) \<and>
     1 \<le> ba_expected_revision c \<and> uuid4 (ba_claim_id c) \<and> uuid4 (ba_attempt_id c)"

record complete_delivery_cmd =
  cd_run_id :: uuid
  cd_delivery_id :: uuid
  cd_expected_revision :: int
  cd_claim_id :: uuid
  cd_attempt_id :: uuid
  cd_outcome :: delivery_outcome
  cd_provider_receipt_id :: "string option"
  cd_updated_at :: timestamp

definition valid_complete_delivery :: "complete_delivery_cmd \<Rightarrow> bool" where
  "valid_complete_delivery c \<longleftrightarrow> uuid4 (cd_run_id c) \<and> uuid4 (cd_delivery_id c) \<and>
     1 \<le> cd_expected_revision c \<and> uuid4 (cd_claim_id c) \<and> uuid4 (cd_attempt_id c) \<and>
     opt_all component_identifier (cd_provider_receipt_id c) \<and>
     cd_outcome c \<in> {Outcome_DELIVERED, Outcome_FAILED} \<and>
     (cd_outcome c = Outcome_DELIVERED) = (cd_provider_receipt_id c \<noteq> None)"

record mark_unknown_cmd =
  mk_run_id :: uuid
  mk_delivery_id :: uuid
  mk_expected_revision :: int
  mk_claim_id :: uuid
  mk_attempt_id :: uuid
  mk_updated_at :: timestamp

definition valid_mark_unknown :: "mark_unknown_cmd \<Rightarrow> bool" where
  "valid_mark_unknown c \<longleftrightarrow> uuid4 (mk_run_id c) \<and> uuid4 (mk_delivery_id c) \<and>
     1 \<le> mk_expected_revision c \<and> uuid4 (mk_claim_id c) \<and> uuid4 (mk_attempt_id c)"

record reject_delivery_cmd =
  rj_run_id :: uuid
  rj_delivery_id :: uuid
  rj_expected_revision :: int
  rj_claim_id :: "uuid option"
  rj_reason_code :: reason_code
  rj_updated_at :: timestamp

definition valid_reject_delivery :: "reject_delivery_cmd \<Rightarrow> bool" where
  "valid_reject_delivery c \<longleftrightarrow> uuid4 (rj_run_id c) \<and> uuid4 (rj_delivery_id c) \<and>
     1 \<le> rj_expected_revision c \<and> opt_all uuid4 (rj_claim_id c) \<and>
     rj_reason_code c \<in> set delivery_refusal_reasons"

section \<open>Conditional batches\<close>

datatype (plugins only: code size) append_operation =
    Append_event event_draft uuid
  | Append_signal signal

definition max_conditional_batch_operations :: nat where
  "max_conditional_batch_operations = 5000"

definition max_conditional_batch_events :: nat where
  "max_conditional_batch_events = 1000"

definition max_conditional_batch_signals :: nat where
  "max_conditional_batch_signals = 4000"

section \<open>Receipts\<close>

datatype (plugins only: code size) append_disposition =
    Disposition_APPENDED
  | Disposition_DUPLICATE
  | Disposition_COLLISION

record append_receipt =
  ar_disposition :: append_disposition
  ar_event :: trace_event
  ar_ledger_position :: int
  ar_ingestion_cursor :: int
  ar_collision_event :: "trace_event option"

definition valid_append_receipt :: "append_receipt \<Rightarrow> bool" where
  "valid_append_receipt r \<longleftrightarrow> valid_trace_event (ar_event r) \<and> 1 \<le> ar_ledger_position r \<and>
     1 \<le> ar_ingestion_cursor r \<and> opt_all valid_trace_event (ar_collision_event r) \<and>
     (ar_disposition r = Disposition_COLLISION) = (ar_collision_event r \<noteq> None) \<and>
     opt_all (\<lambda>e. ev_run_id e = ev_run_id (ar_event r)) (ar_collision_event r) \<and>
     \<not> ar_ingestion_cursor r < ev_sequence (ar_event r) \<and>
     opt_all (\<lambda>e. ar_ingestion_cursor r = ev_sequence e) (ar_collision_event r)"

record ledger_receipt =
  lr_appended :: bool
  lr_record_id :: uuid
  lr_record_tag :: payload_digest
  lr_ledger_position :: int
  lr_chain_tag :: payload_digest

definition valid_ledger_receipt :: "ledger_receipt \<Rightarrow> bool" where
  "valid_ledger_receipt r \<longleftrightarrow> uuid4 (lr_record_id r) \<and> valid_payload_digest (lr_record_tag r) \<and>
     1 \<le> lr_ledger_position r \<and> valid_payload_digest (lr_chain_tag r)"

record cycle_receipt =
  cr_appended :: bool
  cr_cycle :: cycle_record
  cr_record_tag :: payload_digest
  cr_ledger_position :: int
  cr_chain_tag :: payload_digest
  cr_budget_snapshot :: budget_snapshot
  cr_delivery :: "delivery_record option"

definition valid_cycle_receipt :: "hash_fun \<Rightarrow> cycle_receipt \<Rightarrow> bool" where
  "valid_cycle_receipt H r \<longleftrightarrow> valid_cycle_record H (cr_cycle r) \<and> valid_payload_digest (cr_record_tag r) \<and>
     1 \<le> cr_ledger_position r \<and> valid_payload_digest (cr_chain_tag r) \<and>
     valid_budget_snapshot (cr_budget_snapshot r) \<and> opt_all valid_delivery_record (cr_delivery r) \<and>
     committed_reminder (cr_cycle r) = (cr_delivery r \<noteq> None) \<and>
     opt_all (\<lambda>d. case cy_intervention (cr_cycle r) of
         None \<Rightarrow> False
       | Some i \<Rightarrow> dv_state d = Delivery_PENDING \<and> dv_revision d = 1 \<and>
           dv_run_id d = cy_run_id (cr_cycle r) \<and> dv_cycle_id d = cy_cycle_id (cr_cycle r) \<and>
           dv_intervention_id d = iv_intervention_id i \<and> Some (dv_target d) = iv_delivery_target i \<and>
           dv_created_at d = cy_updated_at (cr_cycle r)) (cr_delivery r)"

record cycle_recovery =
  rv_run_id :: uuid
  rv_resumable_pending :: "cycle_record list"
  rv_resumable_reserved :: "cycle_record list"
  rv_failed_unknown_cost :: "cycle_receipt list"

record delivery_receipt =
  tr_appended :: bool
  tr_delivery :: delivery_record
  tr_record_tag :: payload_digest
  tr_ledger_position :: int
  tr_chain_tag :: payload_digest

definition valid_delivery_receipt :: "'a delivery_receipt_scheme \<Rightarrow> bool" where
  "valid_delivery_receipt r \<longleftrightarrow> valid_delivery_record (tr_delivery r) \<and>
     valid_payload_digest (tr_record_tag r) \<and> 1 \<le> tr_ledger_position r \<and>
     valid_payload_digest (tr_chain_tag r) \<and>
     pd_algorithm (tr_record_tag r) = pd_algorithm (tr_chain_tag r)"

record attempt_envelope =
  ae_delivery_id :: uuid
  ae_run_id :: uuid
  ae_cycle_id :: digest
  ae_intervention_id :: uuid
  ae_rendered_text_digest :: digest
  ae_claim_id :: uuid
  ae_attempt_id :: uuid
  ae_attempt_number :: int
  ae_target_request_id :: string
  ae_target :: delivery_target
  ae_adapter_id :: string
  ae_adapter_deduplicates :: bool
  ae_adapter_deduplication_guarantee :: deduplication_guarantee
  ae_adapter_supports_pre_action :: bool
  ae_adapter_contract_version :: string
  ae_adapter_capabilities_digest :: digest
  ae_rendered_text :: string

definition valid_attempt_envelope :: "attempt_envelope \<Rightarrow> bool" where
  "valid_attempt_envelope e \<longleftrightarrow> uuid4 (ae_delivery_id e) \<and> uuid4 (ae_run_id e) \<and>
     sha256_digest (ae_cycle_id e) \<and> uuid4 (ae_intervention_id e) \<and>
     sha256_digest (ae_rendered_text_digest e) \<and> uuid4 (ae_claim_id e) \<and> uuid4 (ae_attempt_id e) \<and>
     1 \<le> ae_attempt_number e \<and> component_identifier (ae_target_request_id e) \<and>
     component_identifier (ae_adapter_id e) \<and> component_identifier (ae_adapter_contract_version e) \<and>
     sha256_digest (ae_adapter_capabilities_digest e) \<and>
     1 \<le> code_points (ae_rendered_text e) \<and> code_points (ae_rendered_text e) \<le> 4096"

record attempt_receipt = delivery_receipt +
  tr_envelope :: "attempt_envelope option"

definition envelope_matches :: "attempt_envelope \<Rightarrow> delivery_record \<Rightarrow> bool" where
  "envelope_matches e d \<longleftrightarrow> dv_state d = Delivery_ATTEMPTING \<and>
     ae_delivery_id e = dv_delivery_id d \<and> ae_run_id e = dv_run_id d \<and> ae_cycle_id e = dv_cycle_id d \<and>
     ae_intervention_id e = dv_intervention_id d \<and>
     ae_rendered_text_digest e = dv_rendered_text_digest d \<and>
     Some (ae_claim_id e) = dv_claim_id d \<and> Some (ae_attempt_id e) = dv_attempt_id d \<and>
     ae_attempt_number e = dv_attempt_count d \<and> ae_target_request_id e = dv_target_request_id d \<and>
     ae_target e = dv_target d \<and> ae_adapter_id e = dv_adapter_id d \<and>
     ae_adapter_deduplicates e = dv_adapter_deduplicates d \<and>
     ae_adapter_deduplication_guarantee e = dv_adapter_deduplication_guarantee d \<and>
     ae_adapter_supports_pre_action e = dv_adapter_supports_pre_action d \<and>
     ae_adapter_contract_version e = dv_adapter_contract_version d \<and>
     ae_adapter_capabilities_digest e = dv_adapter_capabilities_digest d"

definition valid_attempt_receipt :: "attempt_receipt \<Rightarrow> bool" where
  "valid_attempt_receipt r \<longleftrightarrow> valid_delivery_receipt r \<and>
     opt_all valid_attempt_envelope (tr_envelope r) \<and> tr_appended r = (tr_envelope r \<noteq> None) \<and>
     opt_all (\<lambda>e. envelope_matches e (tr_delivery r)) (tr_envelope r)"

record delivery_recovery =
  dy_run_id :: uuid
  dy_marked_unknown :: "delivery_receipt list"
  dy_resumable_pending :: "delivery_record list"
  dy_resumable_claimed :: "delivery_record list"
  dy_retryable_unknown :: "delivery_record list"
  dy_non_retryable_unknown :: "delivery_record list"

definition delivery_category :: "uuid \<Rightarrow> delivery_state \<Rightarrow> delivery_record list \<Rightarrow> bool" where
  "delivery_category run_id state records \<longleftrightarrow>
     list_all (\<lambda>d. dv_run_id d = run_id \<and> dv_state d = state) records"

definition valid_delivery_recovery :: "delivery_recovery \<Rightarrow> bool" where
  "valid_delivery_recovery r \<longleftrightarrow>
     delivery_category (dy_run_id r) Delivery_PENDING (dy_resumable_pending r) \<and>
     delivery_category (dy_run_id r) Delivery_CLAIMED (dy_resumable_claimed r) \<and>
     delivery_category (dy_run_id r) Delivery_UNKNOWN (dy_retryable_unknown r) \<and>
     delivery_category (dy_run_id r) Delivery_UNKNOWN (dy_non_retryable_unknown r) \<and>
     distinct (map dv_delivery_id (dy_resumable_pending r @ dy_resumable_claimed r @
        dy_retryable_unknown r @ dy_non_retryable_unknown r)) \<and>
     list_all dv_adapter_deduplicates (dy_retryable_unknown r) \<and>
     list_all (\<lambda>d. \<not> dv_adapter_deduplicates d) (dy_non_retryable_unknown r) \<and>
     list_all (\<lambda>t. dv_run_id (tr_delivery t) = dy_run_id r \<and> dv_state (tr_delivery t) = Delivery_UNKNOWN \<and>
        tr_appended t) (dy_marked_unknown r)"

datatype (plugins only: code size) batch_item =
    Item_event append_receipt
  | Item_record ledger_receipt

record batch_receipt =
  br_initial_head :: "ledger_head option"
  br_receipts :: "batch_item list"
  br_final_head :: ledger_head

end
