(* ===== verification/Integrity.thy ===== *)
theory Integrity
  imports Commands
begin

text \<open>
  Keyed integrity tags (\<open>repository/integrity.py\<close>, \<open>security/digests.py\<close> and
  \<open>InstallationKey._hmac_sha256\<close>). A key is the function \<open>hmac.new(material, _, sha256)\<close> it
  stands for; in synthetic benchmark mode there is no key and the tag is a plain framed SHA-256.
  A failing \<open>canonical_json\<close> is an exception of its own, not a repository error.
\<close>

type_synonym keyed_hash = "string \<Rightarrow> digest"

record integrity =
  it_hash :: hash_fun
  it_float :: float_text
  it_key :: "keyed_hash option"
  it_synthetic_benchmark :: bool

datatype (plugins only: code size) digest_error =
    AmbiguousDigestModeError
  | MissingInstallationKeyError
  | SyntheticDigestDisabledError
  | DigestModeMismatchError
  | CanonicalJSONError

definition new_integrity :: "hash_fun \<Rightarrow> float_text \<Rightarrow> keyed_hash option \<Rightarrow> bool \<Rightarrow> digest_error + integrity" where
  "new_integrity H F key synthetic =
     checks
       [(key \<noteq> None \<and> synthetic, AmbiguousDigestModeError),
        (key = None \<and> \<not> synthetic, MissingInstallationKeyError)]
       (Inr \<lparr>it_hash = H, it_float = F, it_key = key, it_synthetic_benchmark = synthetic\<rparr>)"

definition hmac_sha256 :: "keyed_hash \<Rightarrow> string \<Rightarrow> string \<Rightarrow> digest" where
  "hmac_sha256 key domain message = key (frame domain @ frame message)"

definition tag :: "integrity \<Rightarrow> string \<Rightarrow> json \<Rightarrow> repo_error + payload_digest" where
  "tag it domain v =
     (case canonical_json (it_float it) v of
        None \<Rightarrow> Inl (UnhandledError ''CanonicalJSONError'')
      | Some encoded \<Rightarrow>
          if it_synthetic_benchmark it
          then Inr \<lparr>pd_algorithm = Alg_SYNTHETIC_SHA256,
                    pd_value = length_prefixed_sha256 (it_hash it) domain [encoded]\<rparr>
          else case it_key it of
                 None \<Rightarrow> Inl (UnhandledError ''MissingInstallationKeyError'')
               | Some key \<Rightarrow> Inr \<lparr>pd_algorithm = Alg_HMAC_SHA256, pd_value = hmac_sha256 key domain encoded\<rparr>)"

definition verify_tag :: "integrity \<Rightarrow> string \<Rightarrow> json \<Rightarrow> payload_digest \<Rightarrow> repo_error + bool" where
  "verify_tag it domain v t =
     bind_result (tag it domain v) (\<lambda>expected.
       Inr (pd_algorithm t = pd_algorithm expected \<and> pd_value t = pd_value expected))"

section \<open>Payload digests\<close>

definition hmac_payload_digest :: "float_text \<Rightarrow> json \<Rightarrow> keyed_hash \<Rightarrow> digest_error + payload_digest" where
  "hmac_payload_digest F payload key =
     (case canonical_json F payload of
        None \<Rightarrow> Inl CanonicalJSONError
      | Some encoded \<Rightarrow> Inr \<lparr>pd_algorithm = Alg_HMAC_SHA256,
          pd_value = hmac_sha256 key ''saliencegate:payload:v1'' encoded\<rparr>)"

definition synthetic_payload_digest :: "hash_fun \<Rightarrow> float_text \<Rightarrow> json \<Rightarrow> bool \<Rightarrow>
    digest_error + payload_digest" where
  "synthetic_payload_digest H F payload synthetic =
     (if \<not> synthetic then Inl SyntheticDigestDisabledError
      else case canonical_json F payload of
             None \<Rightarrow> Inl CanonicalJSONError
           | Some encoded \<Rightarrow> Inr \<lparr>pd_algorithm = Alg_SYNTHETIC_SHA256, pd_value = content_digest H [encoded]\<rparr>)"

definition create_payload_digest :: "hash_fun \<Rightarrow> float_text \<Rightarrow> json \<Rightarrow> keyed_hash option \<Rightarrow> bool \<Rightarrow>
    digest_error + payload_digest" where
  "create_payload_digest H F payload key synthetic =
     (if key \<noteq> None \<and> synthetic then Inl AmbiguousDigestModeError
      else case key of
             Some k \<Rightarrow> hmac_payload_digest F payload k
           | None \<Rightarrow> synthetic_payload_digest H F payload synthetic)"

definition verify_payload_digest :: "hash_fun \<Rightarrow> float_text \<Rightarrow> json \<Rightarrow> payload_digest \<Rightarrow> keyed_hash option \<Rightarrow>
    bool \<Rightarrow> digest_error + bool" where
  "verify_payload_digest H F payload d key synthetic =
     (if key \<noteq> None \<and> synthetic then Inl AmbiguousDigestModeError
      else bind_result
        (if pd_algorithm d = Alg_HMAC_SHA256
         then if synthetic then Inl DigestModeMismatchError
              else case key of
                     None \<Rightarrow> Inl MissingInstallationKeyError
                   | Some k \<Rightarrow> hmac_payload_digest F payload k
         else if key \<noteq> None then Inl DigestModeMismatchError
              else synthetic_payload_digest H F payload synthetic) (\<lambda>expected.
        Inr (pd_value d = pd_value expected)))"

section \<open>What a tag identifies\<close>

definition keyed :: "integrity \<Rightarrow> string \<Rightarrow> digest" where
  "keyed it = (case it_key it of None \<Rightarrow> it_hash it | Some key \<Rightarrow> key)"

definition collision :: "integrity \<Rightarrow> bool" where
  "collision it \<longleftrightarrow> (\<exists>x y. x \<noteq> y \<and> keyed it x = keyed it y)"

definition integrity_ok :: "integrity \<Rightarrow> bool" where
  "integrity_ok it \<longleftrightarrow> it_synthetic_benchmark it = (it_key it = None)"

definition tag_algorithm :: "integrity \<Rightarrow> payload_digest_algorithm" where
  "tag_algorithm it = (if it_synthetic_benchmark it then Alg_SYNTHETIC_SHA256 else Alg_HMAC_SHA256)"

lemma new_integrity_ok: "new_integrity H F key synthetic = Inr it \<Longrightarrow> integrity_ok it"
  by (auto simp: new_integrity_def integrity_ok_def result_simps)

lemma tag_Inr:
  assumes "tag it domain v = Inr t"
  obtains encoded where "canonical_json (it_float it) v = Some encoded" "pd_algorithm t = tag_algorithm it"
    "integrity_ok it \<longrightarrow> pd_value t = keyed it (frame domain @ frame encoded)"
  using assms
  by (auto simp: tag_def tag_algorithm_def keyed_def integrity_ok_def hmac_sha256_def length_prefixed_sha256_def
      split: option.splits if_splits)

lemma verify_tag_Inr_True: "verify_tag it domain v t = Inr True \<longleftrightarrow> tag it domain v = Inr t"
  by (cases t) (auto simp: verify_tag_def result_simps split: sum.splits intro!: payload_digest.equality)

lemma verify_tag_own [simp]: "tag it domain v = Inr t \<Longrightarrow> verify_tag it domain v t = Inr True"
  by (simp add: verify_tag_Inr_True)

lemma tag_identifies:
  assumes "integrity_ok it" and "tag it domain v = Inr t" and "tag it domain w = Inr t" and "\<not> collision it"
  shows "canonical_json (it_float it) v = canonical_json (it_float it) w"
proof -
  obtain x where x: "canonical_json (it_float it) v = Some x" "pd_value t = keyed it (frame domain @ frame x)"
    using assms(1,2) by (auto elim!: tag_Inr)
  obtain y where y: "canonical_json (it_float it) w = Some y" "pd_value t = keyed it (frame domain @ frame y)"
    using assms(1,3) by (auto elim!: tag_Inr)
  have "frame domain @ frame x = frame domain @ frame y"
    using x(2) y(2) assms(4) unfolding collision_def by metis
  then have "x = y" by (simp add: frame_def)
  with x(1) y(1) show ?thesis by simp
qed

end
