(* ===== verification/Redaction.thy ===== *)
theory Redaction
  imports Integrity
begin

text \<open>
  Secret redaction (\<open>security/redaction.py\<close>): the walk over a JSON payload, and redacted events
  with their digests. The text detectors (a chain of \<open>re\<close> substitutions) and the classification
  of a field name (Unicode tables of \<open>unicodedata\<close>) are the fields of a redactor: \<open>rd_text\<close> is
  \<open>_redact_text\<close>, \<open>rd_field_name\<close> is \<open>_field_name\<close> with \<open>None\<close> for its \<open>AmbiguousFieldNameError\<close>,
  \<open>rd_secret_fields\<close> is \<open>_matched_secret_fields\<close>. Every error of the walk is a \<open>ValueError\<close>, the
  \<open>None\<close> here. The findings list only reports and is left out.
\<close>

record redactor =
  rd_text :: "string \<Rightarrow> string"
  rd_field_name :: "string \<Rightarrow> string option"
  rd_secret_fields :: "string list"

definition redacted_marker :: string where
  "redacted_marker = ''[REDACTED]''"

function redact_value :: "redactor \<Rightarrow> json \<Rightarrow> json option" where
  "redact_value rd (JObj kvs) =
     (if list_ex (\<lambda>(k, v). rd_text rd k \<noteq> k) kvs then None
      else map_option JObj (those (map (\<lambda>(k, v).
        case rd_field_name rd k of
          None \<Rightarrow> None
        | Some name \<Rightarrow>
            if name \<in> set (rd_secret_fields rd) then Some (k, JStr redacted_marker)
            else map_option (Pair k) (redact_value rd v)) (sort_key fst kvs))))"
| "redact_value rd (JArr vs) = map_option JArr (those (map (redact_value rd) vs))"
| "redact_value rd (JStr s) = Some (JStr (rd_text rd s))"
| "redact_value rd JNull = Some JNull"
| "redact_value rd (JBool b) = Some (JBool b)"
| "redact_value rd (JInt n) = Some (JInt n)"
| "redact_value rd (JFloat q) = Some (JFloat q)"
  by pat_completeness auto
termination
proof (relation "measure (size \<circ> snd)", goal_cases)
  case (2 rd kvs x k v name)
  then have "(k, v) \<in> set kvs" by simp
  then have "size v < size (JObj kvs)"
    by (auto dest!: size_list_estimation' [where y = "size v" and f = "size_prod (\<lambda>_. 0) size"] simp: less_Suc_eq_le)
  then show ?case by simp
next
  case (3 rd vs v)
  then have "size v < size (JArr vs)"
    by (auto simp: less_Suc_eq_le intro: size_list_estimation')
  then show ?case by simp
qed simp

definition redact_payload :: "redactor \<Rightarrow> json \<Rightarrow> json option" where
  "redact_payload rd payload =
     (case redact_value rd payload of
        None \<Rightarrow> None
      | Some v \<Rightarrow> if is_object v \<and> json_finite v then Some v else None)"

definition redact_event :: "integrity \<Rightarrow> redactor \<Rightarrow> event_draft \<Rightarrow> redacted_draft option" where
  "redact_event it rd d =
     (case redact_payload rd (dr_payload d) of
        None \<Rightarrow> None
      | Some payload \<Rightarrow>
          (case create_payload_digest (it_hash it) (it_float it) payload (it_key it) (it_synthetic_benchmark it) of
             Inl _ \<Rightarrow> None
           | Inr digest \<Rightarrow>
               (let r = \<lparr>dr_run_id = dr_run_id d, dr_source_event_id = dr_source_event_id d,
                     dr_timestamp = dr_timestamp d, dr_event_type = dr_event_type d, dr_phase = dr_phase d,
                     dr_payload = payload, dr_parent_ids = dr_parent_ids d,
                     dr_source_adapter = dr_source_adapter d, dr_trust_label = dr_trust_label d,
                     dr_payload_digest = digest\<rparr>
                in if valid_event_draft r \<and> valid_payload_digest digest then Some r else None)))"

definition verify_redacted_event :: "integrity \<Rightarrow> redactor \<Rightarrow> redacted_draft \<Rightarrow> digest_error + bool" where
  "verify_redacted_event it rd r =
     (case redact_payload rd (dr_payload r) of
        None \<Rightarrow> Inr False
      | Some again \<Rightarrow>
          if canonical_json (it_float it) again \<noteq> canonical_json (it_float it) (dr_payload r) then Inr False
          else verify_payload_digest (it_hash it) (it_float it) again (dr_payload_digest r) (it_key it)
                 (it_synthetic_benchmark it))"

end
