(* ===== verification/Repository.thy ===== *)
theory Repository
  imports Redaction
begin

text \<open>
  The in-memory run repository (\<open>repository/memory.py\<close>): run slots, ledger entries and heads,
  their verification, and the operations that append one record.

  An operation runs under the lock of its slot, so it is one atomic step of the repository's
  state: the dictionaries of slots, trusted heads and trusted projections, called a vault here.
  A step that raises leaves the slot as it was, because the code computes everything that can
  fail before its first assignment. \<open>self._trusted_projections[run] is slot.projection\<close> is
  modelled as equality of the two immutable projections, and \<open>slot.projection\<close>, which
  \<open>__post_init__\<close> sets, is never missing. \<open>_copy_model\<close> detaches a value and is the identity.

  The environment holds what the repository is built with and what its libraries provide: the
  integrity context, the redactor, pydantic's JSON dump of a record or command and the canonical
  size of a batch. The value a call of \<open>id_factory\<close> returns is an argument of the operation that
  makes the call.
\<close>

datatype (plugins only: code size) repo_command =
    Cmd_begin begin_cycle_cmd
  | Cmd_reserve reserve_cycle_cmd
  | Cmd_start start_cycle_cmd
  | Cmd_commit commit_cycle_cmd
  | Cmd_fail fail_cycle_cmd
  | Cmd_claim claim_delivery_cmd
  | Cmd_attempt begin_attempt_cmd
  | Cmd_complete complete_delivery_cmd
  | Cmd_unknown mark_unknown_cmd
  | Cmd_reject reject_delivery_cmd

record repo_env =
  en_integrity :: integrity
  en_dump :: "ledger_record \<Rightarrow> json"
  en_dump_command :: "repo_command \<Rightarrow> json"
  en_timestamp_text :: "timestamp \<Rightarrow> string"
  en_redactor :: redactor
  en_dump_memory :: "memory_record \<Rightarrow> json"
  en_dump_intervention :: "intervention_decision \<Rightarrow> json"
  en_dump_snapshot :: "budget_snapshot \<Rightarrow> json"
  en_dump_amounts :: "budget_amounts option \<Rightarrow> json"
  en_operations_size :: "append_operation list \<Rightarrow> int option"
  en_receipt_size :: "batch_receipt \<Rightarrow> int"

abbreviation en_hash :: "repo_env \<Rightarrow> hash_fun" where
  "en_hash env \<equiv> it_hash (en_integrity env)"

abbreviation en_float :: "repo_env \<Rightarrow> float_text" where
  "en_float env \<equiv> it_float (en_integrity env)"

record direct_record =
  dc_record :: ledger_record
  dc_receipt :: ledger_receipt

record run_slot =
  sl_run_id :: uuid
  sl_ledger :: "ledger_entry list"
  sl_head :: "ledger_head option"
  sl_projection :: projection
  sl_direct_records :: "(string \<times> uuid, direct_record) dict"
  sl_cycle_records :: "(digest \<times> int, cycle_receipt) dict"
  sl_delivery_records :: "(uuid \<times> int, delivery_receipt) dict"
  sl_collision_receipts :: "(digest, append_receipt) dict"
  sl_append_leases :: int

definition new_slot :: "uuid \<Rightarrow> run_slot" where
  "new_slot run_id = \<lparr>sl_run_id = run_id, sl_ledger = [], sl_head = None,
     sl_projection = empty_projection run_id, sl_direct_records = [], sl_cycle_records = [],
     sl_delivery_records = [], sl_collision_receipts = [], sl_append_leases = 0\<rparr>"

record vault =
  va_slots :: "(uuid, run_slot) dict"
  va_trusted_heads :: "(uuid, ledger_head) dict"
  va_trusted_projections :: "(uuid, projection) dict"

definition empty_vault :: vault where
  "empty_vault = \<lparr>va_slots = [], va_trusted_heads = [], va_trusted_projections = []\<rparr>"

section \<open>Slots\<close>

definition dict_del :: "'k \<Rightarrow> ('k, 'v) dict \<Rightarrow> ('k, 'v) dict" where
  "dict_del k d = filter (\<lambda>(j, v). j \<noteq> k) d"

definition has_trusted_state :: "vault \<Rightarrow> uuid \<Rightarrow> bool" where
  "has_trusted_state v run_id = (has_key (va_trusted_heads v) run_id \<or> has_key (va_trusted_projections v) run_id)"

definition unwritten :: "run_slot \<Rightarrow> bool" where
  "unwritten s = (sl_ledger s = [] \<and> sl_head s = None)"

definition find_slot :: "vault \<Rightarrow> uuid \<Rightarrow> repo_error + run_slot" where
  "find_slot v run_id =
     (case dict_get (va_slots v) run_id of
        None \<Rightarrow> if has_trusted_state v run_id then Inl (DigestVerificationError ''trusted ledger anchor'')
                else Inl (RunNotFoundError run_id)
      | Some s \<Rightarrow>
          if unwritten s
          then if has_trusted_state v run_id then Inl (DigestVerificationError ''trusted ledger anchor'')
               else Inl (RunNotFoundError run_id)
          else Inr s)"

definition store_slot :: "run_slot \<Rightarrow> vault \<Rightarrow> vault" where
  "store_slot s v = v\<lparr>va_slots := dict_set (sl_run_id s) s (va_slots v)\<rparr>"

definition acquire_append_slot :: "vault \<Rightarrow> uuid \<Rightarrow> repo_error + vault \<times> run_slot" where
  "acquire_append_slot v run_id =
     (case dict_get (va_slots v) run_id of
        None \<Rightarrow>
          if has_trusted_state v run_id then Inl (DigestVerificationError ''trusted ledger anchor'')
          else let s = (new_slot run_id)\<lparr>sl_append_leases := 1\<rparr>
               in Inr (v\<lparr>va_slots := dict_set run_id s (va_slots v)\<rparr>, s)
      | Some s \<Rightarrow>
          if unwritten s \<and> has_trusted_state v run_id
          then Inl (DigestVerificationError ''trusted ledger anchor'')
          else let s' = s\<lparr>sl_append_leases := sl_append_leases s + 1\<rparr>
               in Inr (v\<lparr>va_slots := dict_set run_id s' (va_slots v)\<rparr>, s'))"

definition release_append_slot :: "run_slot \<Rightarrow> vault \<Rightarrow> vault" where
  "release_append_slot s v =
     (let s' = s\<lparr>sl_append_leases := sl_append_leases s - 1\<rparr> in
      if sl_append_leases s' = 0 \<and> unwritten s'
      then v\<lparr>va_slots := dict_del (sl_run_id s) (va_slots v)\<rparr>
      else v\<lparr>va_slots := dict_set (sl_run_id s) s' (va_slots v)\<rparr>)"

definition publish :: "uuid \<Rightarrow> ledger_head \<Rightarrow> projection \<Rightarrow> vault \<Rightarrow> vault" where
  "publish run_id head p v = v\<lparr>va_trusted_heads := dict_set run_id head (va_trusted_heads v),
     va_trusted_projections := dict_set run_id p (va_trusted_projections v)\<rparr>"

section \<open>Entries and heads\<close>

fun algorithm_value :: "payload_digest_algorithm \<Rightarrow> string" where
  "algorithm_value Alg_HMAC_SHA256 = ''hmac_sha256''"
| "algorithm_value Alg_SYNTHETIC_SHA256 = ''synthetic_sha256''"

definition digest_json :: "payload_digest \<Rightarrow> json" where
  "digest_json d = JObj [(''algorithm'', JStr (algorithm_value (pd_algorithm d))), (''value'', JStr (pd_value d))]"

definition opt_digest_json :: "payload_digest option \<Rightarrow> json" where
  "opt_digest_json d = (case d of None \<Rightarrow> JNull | Some t \<Rightarrow> digest_json t)"

fun record_key :: "ledger_record \<Rightarrow> string" where
  "record_key (Rec_event e) = ''trace_event:'' @ uuid_str (ev_event_id e)"
| "record_key (Rec_signal s) = ''signal:'' @ uuid_str (sg_signal_id s)"
| "record_key (Rec_decision d) = ''invocation_decision:'' @ uuid_str (id_decision_id d)"
| "record_key (Rec_cycle c) = ''cycle:'' @ cy_cycle_id c @ '':'' @ dec_str (cy_revision c)"
| "record_key (Rec_outcome out) = ''intervention_outcome:'' @ uuid_str (io_outcome_id out)"
| "record_key (Rec_delivery d) = ''delivery:'' @ uuid_str (dv_delivery_id d) @ '':'' @ dec_str (dv_revision d)"

definition chain_value :: "uuid \<Rightarrow> int \<Rightarrow> string \<Rightarrow> payload_digest \<Rightarrow> payload_digest option \<Rightarrow> json" where
  "chain_value run_id position key record_tag previous =
     JObj [(''run_id'', JStr (uuid_str run_id)), (''position'', JInt position), (''record_key'', JStr key),
           (''record_tag'', digest_json record_tag), (''previous_chain_tag'', opt_digest_json previous)]"

definition verify_entry :: "repo_env \<Rightarrow> ledger_entry \<Rightarrow> int \<Rightarrow> payload_digest option \<Rightarrow> repo_error + unit" where
  "verify_entry env e expected_position previous =
     checks
       [(le_position e \<noteq> expected_position \<or> le_previous_chain_tag e \<noteq> previous,
           DigestVerificationError ''ledger chain''),
        (le_record_key e \<noteq> record_key (le_record e), DigestVerificationError ''ledger record key'')]
       (bind_result (verify_tag (en_integrity env) ''saliencegate:ledger-record:v1'' (en_dump env (le_record e))
            (le_record_tag e)) (\<lambda>record_ok.
        if \<not> record_ok then Inl (DigestVerificationError ''ledger record'')
        else bind_result (verify_tag (en_integrity env) ''saliencegate:ledger-chain:v1''
            (chain_value (le_run_id e) (le_position e) (le_record_key e) (le_record_tag e) (le_previous_chain_tag e))
            (le_chain_tag e)) (\<lambda>chain_ok.
        if \<not> chain_ok then Inl (DigestVerificationError ''ledger chain'') else Inr ())))"

definition last_chain_tag :: "ledger_entry list \<Rightarrow> payload_digest option" where
  "last_chain_tag es = (if es = [] then None else Some (le_chain_tag (last es)))"

definition new_entry :: "repo_env \<Rightarrow> run_slot \<Rightarrow> ledger_record \<Rightarrow> string \<Rightarrow> repo_error + ledger_entry" where
  "new_entry env s r key =
     (let position = int (length (sl_ledger s)) + 1; previous = last_chain_tag (sl_ledger s) in
      bind_result (tag (en_integrity env) ''saliencegate:ledger-record:v1'' (en_dump env r)) (\<lambda>record_tag.
      bind_result (tag (en_integrity env) ''saliencegate:ledger-chain:v1''
          (chain_value (sl_run_id s) position key record_tag previous)) (\<lambda>chain_tag.
      let entry = \<lparr>le_run_id = sl_run_id s, le_position = position, le_record_key = key,
            le_record_tag = record_tag, le_previous_chain_tag = previous, le_chain_tag = chain_tag, le_record = r\<rparr>
      in if \<not> valid_ledger_entry entry then Inl (UnhandledError ''ValidationError'')
         else bind_result (verify_entry env entry position previous) (\<lambda>_. Inr entry))))"

definition head_value :: "uuid \<Rightarrow> int \<Rightarrow> payload_digest \<Rightarrow> payload_digest \<Rightarrow> json" where
  "head_value run_id entry_count chain_tag projection_tag =
     JObj [(''run_id'', JStr (uuid_str run_id)), (''entry_count'', JInt entry_count),
           (''chain_tag'', digest_json chain_tag), (''projection_tag'', digest_json projection_tag)]"

definition projection_counts :: "projection \<Rightarrow> json" where
  "projection_counts p =
     JObj [(''events'', JInt (int (length (pr_events_by_id p)))),
           (''signals'', JInt (int (length (pr_signals p)))),
           (''decisions'', JInt (int (length (pr_decisions p)))),
           (''cycle_revisions'', JInt (int (length (pr_cycle_history p)))),
           (''memories'', JInt (int (length (pr_memories p)))),
           (''memory_revisions'', JInt (int (length (pr_memory_history p)))),
           (''interventions'', JInt (int (length (pr_interventions p)))),
           (''outcomes'', JInt (int (length (pr_outcomes p)))),
           (''delivery_revisions'', JInt (int (length (pr_delivery_history p))))]"

definition checkpoint_tag :: "repo_env \<Rightarrow> ledger_entry \<Rightarrow> projection \<Rightarrow> payload_digest option \<Rightarrow>
    repo_error + payload_digest" where
  "checkpoint_tag env e p previous =
     tag (en_integrity env) ''saliencegate:projection-checkpoint:v1''
       (JObj [(''previous_projection_tag'', opt_digest_json previous),
              (''entry_chain_tag'', digest_json (le_chain_tag e)),
              (''ledger_position'', JInt (le_position e)),
              (''ingestion_cursor'', JInt (pr_ingestion_cursor p)),
              (''memory_cursor'', JInt (pr_memory_cursor p)),
              (''counts'', projection_counts p)])"

definition new_head :: "repo_env \<Rightarrow> run_slot \<Rightarrow> ledger_entry \<Rightarrow> projection \<Rightarrow> repo_error + ledger_head" where
  "new_head env s e p =
     bind_result (checkpoint_tag env e p (map_option lh_projection_tag (sl_head s))) (\<lambda>projection_tag.
     bind_result (tag (en_integrity env) ''saliencegate:ledger-head:v1''
         (head_value (sl_run_id s) (le_position e) (le_chain_tag e) projection_tag)) (\<lambda>head_tag.
     let head = \<lparr>lh_run_id = sl_run_id s, lh_entry_count = le_position e, lh_chain_tag = le_chain_tag e,
           lh_projection_tag = projection_tag, lh_head_tag = head_tag\<rparr>
     in if valid_ledger_head head then Inr head else Inl (UnhandledError ''ValidationError'')))"

definition verify_head_tag :: "repo_env \<Rightarrow> ledger_head \<Rightarrow> repo_error + bool" where
  "verify_head_tag env h =
     verify_tag (en_integrity env) ''saliencegate:ledger-head:v1''
       (head_value (lh_run_id h) (lh_entry_count h) (lh_chain_tag h) (lh_projection_tag h)) (lh_head_tag h)"

definition verify_head :: "repo_env \<Rightarrow> vault \<Rightarrow> run_slot \<Rightarrow> bool \<Rightarrow> repo_error + unit" where
  "verify_head env v s verify_projection =
     (case sl_head s of
        None \<Rightarrow> Inl (DigestVerificationError ''ledger head'')
      | Some head \<Rightarrow>
          checks
            [(sl_ledger s = [], DigestVerificationError ''ledger head''),
             (dict_get (va_trusted_heads v) (sl_run_id s) \<noteq> Some head,
                DigestVerificationError ''trusted ledger anchor''),
             (lh_run_id head \<noteq> sl_run_id s \<or> lh_entry_count head \<noteq> int (length (sl_ledger s)) \<or>
                Some (lh_chain_tag head) \<noteq> last_chain_tag (sl_ledger s),
                DigestVerificationError ''ledger head''),
             (verify_projection \<and>
                dict_get (va_trusted_projections v) (sl_run_id s) \<noteq> Some (sl_projection s),
                DigestVerificationError ''projection head'')]
            (bind_result (verify_head_tag env head) (\<lambda>ok.
               if ok then Inr () else Inl (DigestVerificationError ''ledger head''))))"

fun verify_entries :: "repo_env \<Rightarrow> ledger_entry list \<Rightarrow> int \<Rightarrow> payload_digest option \<Rightarrow> repo_error + unit" where
  "verify_entries env [] position previous = Inr ()"
| "verify_entries env (e # es) position previous =
     bind_result (verify_entry env e position previous) (\<lambda>_.
       verify_entries env es (position + 1) (Some (le_chain_tag e)))"

definition verify_ledger :: "repo_env \<Rightarrow> vault \<Rightarrow> run_slot \<Rightarrow> repo_error + unit" where
  "verify_ledger env v s =
     bind_result (verify_head env v s True) (\<lambda>_. verify_entries env (sl_ledger s) 1 None)"

definition stage_entry :: "repo_env \<Rightarrow> run_slot \<Rightarrow> ledger_record \<Rightarrow>
    repo_error + ledger_entry \<times> projection \<times> ledger_head" where
  "stage_entry env s r =
     bind_result (new_entry env s r (record_key r)) (\<lambda>entry.
     bind_result (apply_entry (en_hash env) (en_float env) (sl_projection s) entry) (\<lambda>projected.
     bind_result (new_head env s entry projected) (\<lambda>head. Inr (entry, projected, head))))"

definition extend_slot :: "ledger_entry \<Rightarrow> projection \<Rightarrow> ledger_head \<Rightarrow> run_slot \<Rightarrow> run_slot" where
  "extend_slot entry p head s =
     s\<lparr>sl_ledger := sl_ledger s @ [entry], sl_head := Some head, sl_projection := p\<rparr>"

definition validate_run_id :: "uuid \<Rightarrow> repo_error + uuid" where
  "validate_run_id run_id = (if uuid4 run_id then Inr run_id else Inl InvalidRunIdError)"

definition new_id :: "uuid \<Rightarrow> repo_error + uuid" where
  "new_id made = (if uuid4 made then Inr made
     else Inl (ProjectionInvariantError ''repository ID factory must return UUID4 values''))"

text \<open>
  An operation on an existing run: find its slot, verify, run the body, keep its changes. The source
  works on the slot in place and changes it only after everything that can raise (the entry, the
  projection, the head and the receipt are built first, or on a shadow); so a body here returns the
  changed slot, and a body that raises leaves the vault as it was. The only check the source makes after
  it has published, of the receipt of \<open>begin_delivery_attempt\<close>, cannot fail on a stored run
  (\<open>recorded_attempt_is_answered\<close>). An append operation acquires the slot, and creates it when the run is
  new; it releases it whatever the body does.
\<close>

definition on_slot :: "vault \<Rightarrow> uuid \<Rightarrow> (run_slot \<Rightarrow> repo_error + ('r \<times> vault \<times> run_slot)) \<Rightarrow>
    (repo_error + 'r) \<times> vault" where
  "on_slot v run_id body =
     (case bind_result (find_slot v run_id) body of
        Inl e \<Rightarrow> (Inl e, v)
      | Inr (r, v', s') \<Rightarrow> (Inr r, store_slot s' v'))"

definition on_append_slot :: "vault \<Rightarrow> uuid \<Rightarrow> (vault \<Rightarrow> run_slot \<Rightarrow> repo_error + ('r \<times> vault \<times> run_slot)) \<Rightarrow>
    (repo_error + 'r) \<times> vault" where
  "on_append_slot v run_id body =
     (case acquire_append_slot v run_id of
        Inl e \<Rightarrow> (Inl e, v)
      | Inr (v1, s) \<Rightarrow>
          (case body v1 s of
             Inl e \<Rightarrow> (Inl e, release_append_slot s v1)
           | Inr (r, v2, s') \<Rightarrow> (Inr r, release_append_slot s' v2)))"

end
