(* ===== verification/Repository_Append.thy ===== *)
theory Repository_Append
  imports Repository
begin

text \<open>
  Appending to a run (\<open>repository/memory.py\<close>): events with their idempotent retries and audited
  collisions, the direct records (signals, decisions, outcomes), and conditional appends on an
  expected ledger head.
\<close>

section \<open>Preparing an event\<close>

definition validate_draft :: "event_draft \<Rightarrow> repo_error + event_draft" where
  "validate_draft d = (if valid_event_draft d then Inr d else Inl InvalidDraftError)"

definition unique :: "'a list \<Rightarrow> 'a list" where
  "unique xs = rev (remdups (rev xs))"

definition ascii_lower :: "string \<Rightarrow> string" where
  "ascii_lower s = map (\<lambda>c. if (65::nat) \<le> of_char c \<and> of_char c \<le> (90::nat) then char_of (of_char c + 32 :: nat) else c) s"

definition validate_metadata :: "repo_env \<Rightarrow> event_draft \<Rightarrow> repo_error + unit" where
  "validate_metadata env d =
     (let metadata = [(''source_event_id'', JStr (dr_source_event_id d)), (''source_adapter'', JStr (dr_source_adapter d))] in
      case redact_payload (en_redactor env) (JObj metadata) of
        None \<Rightarrow> Inl (UnhandledError ''ValueError'')
      | Some redacted \<Rightarrow>
          (let redacted_fields = map fst (filter (\<lambda>(f, v). obj_get f redacted \<noteq> Some v) metadata);
               reserved_fields = map fst (filter snd
                 [(''source_event_id'', take 13 (ascii_lower (dr_source_event_id d)) = ''saliencegate:''),
                  (''source_adapter'', ascii_lower (dr_source_adapter d) = ''saliencegate.repository''),
                  (''trust_label'', dr_trust_label d = Trust_TRUSTED_RUNTIME)]);
               unsafe = unique (redacted_fields @ reserved_fields)
           in if unsafe \<noteq> [] then Inl (UnsafeEventMetadataError unsafe) else Inr ()))"

definition redact_draft :: "repo_env \<Rightarrow> event_draft \<Rightarrow> repo_error + redacted_draft" where
  "redact_draft env d =
     (case redact_event (en_integrity env) (en_redactor env) d of
        None \<Rightarrow> Inl InvalidDraftError
      | Some r \<Rightarrow>
          (case verify_redacted_event (en_integrity env) (en_redactor env) r of
             Inl _ \<Rightarrow> Inl (UnhandledError ''ValueError'')
           | Inr ok \<Rightarrow> if ok then Inr r else Inl (DigestVerificationError ''redacted event'')))"

fun event_type_value :: "event_type \<Rightarrow> string" where
  "event_type_value Event_RUN_START = ''run_start''"
| "event_type_value Event_RUN_END = ''run_end''"
| "event_type_value Event_MODEL_OUTPUT = ''model_output''"
| "event_type_value Event_ACTION_PROPOSAL = ''action_proposal''"
| "event_type_value Event_TOOL_START = ''tool_start''"
| "event_type_value Event_TOOL_COMPLETION = ''tool_completion''"
| "event_type_value Event_OBSERVATION = ''observation''"
| "event_type_value Event_CONTROLLER_ERROR = ''controller_error''"

fun event_phase_value :: "event_phase \<Rightarrow> string" where
  "event_phase_value Phase_INITIALIZATION = ''initialization''"
| "event_phase_value Phase_PRE_ACTION = ''pre_action''"
| "event_phase_value Phase_ACTION_EXECUTION = ''action_execution''"
| "event_phase_value Phase_POST_ACTION = ''post_action''"
| "event_phase_value Phase_TERMINAL = ''terminal''"
| "event_phase_value Phase_INTERNAL = ''internal''"

definition trace_event_of :: "redacted_draft \<Rightarrow> int \<Rightarrow> uuid \<Rightarrow> trace_event" where
  "trace_event_of r sequence event_id =
     \<lparr>ev_event_id = event_id, ev_run_id = dr_run_id r, ev_sequence = sequence,
      ev_source_event_id = dr_source_event_id r, ev_timestamp = dr_timestamp r,
      ev_event_type = dr_event_type r, ev_phase = dr_phase r, ev_payload = dr_payload r,
      ev_payload_digest = dr_payload_digest r, ev_parent_ids = dr_parent_ids r,
      ev_source_adapter = dr_source_adapter r, ev_trust_label = dr_trust_label r\<rparr>"

definition event_identity :: "repo_env \<Rightarrow> trace_event \<Rightarrow> (string \<times> json) list" where
  "event_identity env e =
     [(''schema_version'', JStr ''1.0''),
      (''timestamp'', JStr (en_timestamp_text env (ev_timestamp e))),
      (''event_type'', JStr (event_type_value (ev_event_type e))),
      (''phase'', JStr (event_phase_value (ev_phase e))),
      (''payload'', ev_payload e),
      (''payload_digest'', digest_json (ev_payload_digest e)),
      (''parent_ids'', JArr (map (\<lambda>i. JStr (uuid_str i)) (ev_parent_ids e))),
      (''source_adapter'', JStr (ev_source_adapter e)),
      (''trust_label'', JStr (trust_value (ev_trust_label e)))]"

text \<open>The identity of a redacted draft: the same fields, before it has a sequence and an ID.\<close>

definition draft_identity :: "repo_env \<Rightarrow> redacted_draft \<Rightarrow> (string \<times> json) list" where
  "draft_identity env r = event_identity env (trace_event_of r 0 0)"

definition same_identity :: "repo_env \<Rightarrow> trace_event \<Rightarrow> redacted_draft \<Rightarrow> bool" where
  "same_identity env existing incoming =
     (canonical_json (en_float env) (JObj (event_identity env existing)) =
      canonical_json (en_float env) (JObj (draft_identity env incoming)))"

definition differing_fields :: "repo_env \<Rightarrow> trace_event \<Rightarrow> redacted_draft \<Rightarrow> string list" where
  "differing_fields env existing incoming =
     map (fst \<circ> fst) (filter (\<lambda>((f, v), (g, w)). canonical_json (en_float env) v \<noteq> canonical_json (en_float env) w)
       (zip (event_identity env existing) (draft_identity env incoming)))"

definition make_trace_event :: "redacted_draft \<Rightarrow> int \<Rightarrow> uuid option \<Rightarrow> uuid \<Rightarrow> repo_error + trace_event" where
  "make_trace_event r sequence given made =
     bind_result (case given of None \<Rightarrow> new_id made | Some i \<Rightarrow> validate_run_id i) (\<lambda>event_id.
       let e = trace_event_of r sequence event_id in
       if valid_trace_event e then Inr e
       else Inl (ProjectionInvariantError ''repository-created trace event is invalid''))"

section \<open>Appending an event\<close>

definition duplicate_event_receipt :: "run_slot \<Rightarrow> trace_event \<Rightarrow> repo_error + append_receipt" where
  "duplicate_event_receipt s existing =
     (case dict_get (pr_event_positions (sl_projection s)) (ev_event_id existing) of
        None \<Rightarrow> Inl (UnhandledError ''KeyError'')
      | Some position \<Rightarrow>
          let r = \<lparr>ar_disposition = Disposition_DUPLICATE, ar_event = existing, ar_ledger_position = position,
                ar_ingestion_cursor = pr_ingestion_cursor (sl_projection s), ar_collision_event = None\<rparr>
          in if valid_append_receipt r then Inr r else Inl (UnhandledError ''ValidationError''))"

definition append_new_event :: "repo_env \<Rightarrow> vault \<Rightarrow> run_slot \<Rightarrow> event_draft \<Rightarrow> redacted_draft \<Rightarrow> uuid option \<Rightarrow>
    uuid \<Rightarrow> bool \<Rightarrow> repo_error + append_receipt \<times> vault \<times> run_slot" where
  "append_new_event env v s draft redacted event_id made publishing =
     (let p = sl_projection s in
      if list_ex (\<lambda>i. \<not> has_key (pr_events_by_id p) i) (dr_parent_ids draft)
      then Inl (CrossRunReferenceError ''event parent'')
      else
      bind_result (make_trace_event redacted (pr_ingestion_cursor p + 1) event_id made) (\<lambda>e.
      bind_result (stage_entry env s (Rec_event e)) (\<lambda>(entry, projected, head).
      let r = \<lparr>ar_disposition = Disposition_APPENDED, ar_event = e, ar_ledger_position = le_position entry,
            ar_ingestion_cursor = pr_ingestion_cursor projected, ar_collision_event = None\<rparr>
      in if \<not> valid_append_receipt r then Inl (UnhandledError ''ValidationError'')
         else Inr (r, if publishing then publish (sl_run_id s) head projected v else v,
                   extend_slot entry projected head s))))"

definition audit_draft :: "repo_env \<Rightarrow> trace_event \<Rightarrow> redacted_draft \<Rightarrow> payload_digest \<Rightarrow> event_draft" where
  "audit_draft env existing incoming fingerprint =
     \<lparr>dr_run_id = ev_run_id existing, dr_source_event_id = ''saliencegate:collision:'' @ pd_value fingerprint,
      dr_timestamp = dr_timestamp incoming, dr_event_type = Event_CONTROLLER_ERROR, dr_phase = Phase_INTERNAL,
      dr_payload = JObj [(''reason_code'', JStr ''source_event_collision''),
        (''existing_event_id'', JStr (uuid_str (ev_event_id existing))),
        (''collision_fingerprint'', digest_json fingerprint),
        (''differing_fields'', JArr (map JStr (differing_fields env existing incoming)))],
      dr_parent_ids = [ev_event_id existing], dr_source_adapter = ''saliencegate.repository'',
      dr_trust_label = Trust_TRUSTED_RUNTIME\<rparr>"

definition collision_receipt_of :: "run_slot \<Rightarrow> trace_event \<Rightarrow> projection \<Rightarrow> trace_event \<Rightarrow> repo_error + append_receipt" where
  "collision_receipt_of s existing projected e =
     (case dict_get (pr_event_positions (sl_projection s)) (ev_event_id existing) of
        None \<Rightarrow> Inl (UnhandledError ''KeyError'')
      | Some position \<Rightarrow>
          let r = \<lparr>ar_disposition = Disposition_COLLISION, ar_event = existing, ar_ledger_position = position,
                ar_ingestion_cursor = pr_ingestion_cursor projected, ar_collision_event = Some e\<rparr>
          in if valid_append_receipt r then Inr r else Inl (UnhandledError ''ValidationError''))"

definition record_new_collision :: "repo_env \<Rightarrow> vault \<Rightarrow> run_slot \<Rightarrow> trace_event \<Rightarrow> redacted_draft \<Rightarrow>
    payload_digest \<Rightarrow> uuid \<Rightarrow> repo_error + append_receipt \<times> vault \<times> run_slot" where
  "record_new_collision env v s existing incoming fingerprint made =
     (let audit = audit_draft env existing incoming fingerprint in
      if \<not> valid_event_draft audit then Inl (UnhandledError ''ValidationError'')
      else
      bind_result (redact_draft env audit) (\<lambda>redacted.
      bind_result (make_trace_event redacted (pr_ingestion_cursor (sl_projection s) + 1) None made) (\<lambda>e.
      bind_result (stage_entry env s (Rec_event e)) (\<lambda>(entry, projected, head).
      bind_result (collision_receipt_of s existing projected e) (\<lambda>r.
      Inr (r, publish (sl_run_id s) head projected v,
           (extend_slot entry projected head s)\<lparr>sl_collision_receipts :=
              dict_set (pd_value fingerprint) r (sl_collision_receipts s)\<rparr>))))))"

definition record_collision :: "repo_env \<Rightarrow> vault \<Rightarrow> run_slot \<Rightarrow> trace_event \<Rightarrow> redacted_draft \<Rightarrow> uuid \<Rightarrow>
    repo_error + append_receipt \<times> vault \<times> run_slot" where
  "record_collision env v s existing incoming made =
     bind_result (tag (en_integrity env) ''saliencegate:source-collision:v1''
        (JObj [(''existing_event_id'', JStr (uuid_str (ev_event_id existing))),
               (''incoming_identity'', JObj (draft_identity env incoming))])) (\<lambda>fingerprint.
     case dict_get (sl_collision_receipts s) (pd_value fingerprint) of
       Some cached \<Rightarrow> Inr (cached, v, s)
     | None \<Rightarrow> record_new_collision env v s existing incoming fingerprint made)"

definition append_to_slot :: "repo_env \<Rightarrow> vault \<Rightarrow> run_slot \<Rightarrow> event_draft \<Rightarrow> redacted_draft \<Rightarrow> uuid option \<Rightarrow> uuid \<Rightarrow>
    repo_error + append_receipt \<times> vault \<times> run_slot" where
  "append_to_slot env v s draft redacted event_id made =
     bind_result (if unwritten s then Inr () else verify_head env v s True) (\<lambda>_.
     case dict_get (pr_events_by_source (sl_projection s)) (dr_source_event_id draft) of
       Some existing \<Rightarrow>
         if same_identity env existing redacted
         then bind_result (duplicate_event_receipt s existing) (\<lambda>r. Inr (r, v, s))
         else record_collision env v s existing redacted made
     | None \<Rightarrow> append_new_event env v s draft redacted event_id made True)"

definition append_event :: "repo_env \<Rightarrow> vault \<Rightarrow> event_draft \<Rightarrow> uuid option \<Rightarrow> uuid \<Rightarrow>
    (repo_error + append_receipt) \<times> vault" where
  "append_event env v event event_id made =
     (case bind_result (validate_draft event) (\<lambda>draft.
           bind_result (case event_id of None \<Rightarrow> Inr None | Some i \<Rightarrow> map_sum id Some (validate_run_id i)) (\<lambda>given.
           bind_result (validate_metadata env draft) (\<lambda>_.
           bind_result (redact_draft env draft) (\<lambda>redacted. Inr (draft, given, redacted))))) of
        Inl e \<Rightarrow> (Inl e, v)
      | Inr (draft, given, redacted) \<Rightarrow>
          on_append_slot v (dr_run_id draft) (\<lambda>v s. append_to_slot env v s draft redacted given made))"

section \<open>Conditional appends\<close>

definition copy_expected_head :: "ledger_head \<Rightarrow> repo_error + ledger_head" where
  "copy_expected_head h = (if valid_ledger_head h then Inr h else Inl LedgerHeadConflictError)"

definition require_expected_head :: "repo_env \<Rightarrow> vault \<Rightarrow> run_slot \<Rightarrow> ledger_head option \<Rightarrow> repo_error + unit" where
  "require_expected_head env v s expected =
     (if unwritten s
      then if expected \<noteq> None then Inl LedgerHeadConflictError else Inr ()
      else bind_result (verify_head env v s True) (\<lambda>_.
        if expected = None \<or> sl_head s \<noteq> expected then Inl LedgerHeadConflictError else Inr ()))"

text \<open>With a given event ID the ID factory is not called; its argument repeats the given one.\<close>

definition append_conditional :: "repo_env \<Rightarrow> vault \<Rightarrow> run_slot \<Rightarrow> event_draft \<Rightarrow> redacted_draft \<Rightarrow> uuid \<Rightarrow> bool \<Rightarrow>
    repo_error + append_receipt \<times> vault \<times> run_slot" where
  "append_conditional env v s draft redacted event_id publishing =
     (case dict_get (pr_events_by_source (sl_projection s)) (dr_source_event_id draft) of
        Some existing \<Rightarrow>
          if same_identity env existing redacted
          then bind_result (duplicate_event_receipt s existing) (\<lambda>r. Inr (r, v, s))
          else Inl (RecordCollisionError ''trace_event'' (ev_event_id existing))
      | None \<Rightarrow> append_new_event env v s draft redacted (Some event_id) event_id publishing)"

definition opt_copy_head :: "ledger_head option \<Rightarrow> repo_error + ledger_head option" where
  "opt_copy_head h = (case h of None \<Rightarrow> Inr None | Some l \<Rightarrow> map_sum id Some (copy_expected_head l))"

definition append_event_if_head :: "repo_env \<Rightarrow> vault \<Rightarrow> event_draft \<Rightarrow> uuid \<Rightarrow> ledger_head option \<Rightarrow>
    (repo_error + append_receipt) \<times> vault" where
  "append_event_if_head env v event event_id expected =
     (case bind_result (validate_draft event) (\<lambda>draft.
           bind_result (validate_run_id event_id) (\<lambda>given.
           bind_result (opt_copy_head expected) (\<lambda>copied.
           bind_result (validate_metadata env draft) (\<lambda>_.
           bind_result (redact_draft env draft) (\<lambda>redacted. Inr (draft, given, copied, redacted)))))) of
        Inl e \<Rightarrow> (Inl e, v)
      | Inr (draft, given, copied, redacted) \<Rightarrow>
          on_append_slot v (dr_run_id draft) (\<lambda>v s.
            bind_result (require_expected_head env v s copied) (\<lambda>_.
              append_conditional env v s draft redacted given True)))"

section \<open>Direct records\<close>

fun direct_key :: "ledger_record \<Rightarrow> (string \<times> uuid) option" where
  "direct_key (Rec_signal s) = Some (''signal'', sg_signal_id s)"
| "direct_key (Rec_decision d) = Some (''invocation_decision'', id_decision_id d)"
| "direct_key (Rec_outcome out) = Some (''intervention_outcome'', io_outcome_id out)"
| "direct_key _ = None"

definition record_direct_locked :: "repo_env \<Rightarrow> vault \<Rightarrow> run_slot \<Rightarrow> ledger_record \<Rightarrow> string \<Rightarrow> uuid \<Rightarrow> bool \<Rightarrow> bool \<Rightarrow>
    repo_error + ledger_receipt \<times> vault \<times> run_slot" where
  "record_direct_locked env v s r operation record_id verifying publishing =
     bind_result (if verifying then verify_head env v s True else Inr ()) (\<lambda>_.
     case dict_get (sl_direct_records s) (operation, record_id) of
       Some existing \<Rightarrow>
         if dc_record existing \<noteq> r then Inl (RecordCollisionError operation record_id)
         else Inr ((dc_receipt existing)\<lparr>lr_appended := False\<rparr>, v, s)
     | None \<Rightarrow>
         bind_result (stage_entry env s r) (\<lambda>(entry, projected, head).
         let receipt = \<lparr>lr_appended = True, lr_record_id = record_id, lr_record_tag = le_record_tag entry,
               lr_ledger_position = le_position entry, lr_chain_tag = le_chain_tag entry\<rparr>
         in if \<not> valid_ledger_receipt receipt then Inl (UnhandledError ''ValidationError'')
            else Inr (receipt, if publishing then publish (sl_run_id s) head projected v else v,
              (extend_slot entry projected head s)\<lparr>sl_direct_records :=
                 dict_set (operation, record_id) \<lparr>dc_record = r, dc_receipt = receipt\<rparr> (sl_direct_records s)\<rparr>)))"

definition validate_direct_record :: "ledger_record \<Rightarrow> string \<Rightarrow> repo_error + ledger_record" where
  "validate_direct_record r operation =
     (if (case r of Rec_signal s \<Rightarrow> valid_signal s
          | Rec_decision d \<Rightarrow> valid_invocation_decision d
          | Rec_outcome out \<Rightarrow> valid_intervention_outcome out
          | _ \<Rightarrow> False)
      then Inr r else Inl (InvalidRecordError operation))"

definition validate_record_content :: "repo_env \<Rightarrow> json \<Rightarrow> string \<Rightarrow> repo_error + unit" where
  "validate_record_content env v operation =
     (if (case redact_payload (en_redactor env) v of
            None \<Rightarrow> False
          | Some redacted \<Rightarrow> canonical_json (en_float env) redacted = canonical_json (en_float env) v)
      then Inr () else Inl (UnsafeRecordContentError operation))"

definition record_direct :: "repo_env \<Rightarrow> vault \<Rightarrow> ledger_record \<Rightarrow> string \<Rightarrow> uuid \<Rightarrow>
    (repo_error + ledger_receipt) \<times> vault" where
  "record_direct env v r operation record_id =
     (case bind_result (validate_direct_record r operation) (\<lambda>r.
           validate_record_content env (en_dump env r) operation) of
        Inl e \<Rightarrow> (Inl e, v)
      | Inr _ \<Rightarrow> on_slot v (rec_run_id r) (\<lambda>s. record_direct_locked env v s r operation record_id True True))"

definition record_signal :: "repo_env \<Rightarrow> vault \<Rightarrow> signal \<Rightarrow> (repo_error + ledger_receipt) \<times> vault" where
  "record_signal env v s = record_direct env v (Rec_signal s) ''signal'' (sg_signal_id s)"

definition record_invocation_decision :: "repo_env \<Rightarrow> vault \<Rightarrow> invocation_decision \<Rightarrow>
    (repo_error + ledger_receipt) \<times> vault" where
  "record_invocation_decision env v d =
     record_direct env v (Rec_decision d) ''invocation_decision'' (id_decision_id d)"

definition record_outcome :: "repo_env \<Rightarrow> vault \<Rightarrow> intervention_outcome \<Rightarrow>
    (repo_error + ledger_receipt) \<times> vault" where
  "record_outcome env v out = record_direct env v (Rec_outcome out) ''intervention_outcome'' (io_outcome_id out)"

definition record_signal_if_head :: "repo_env \<Rightarrow> vault \<Rightarrow> signal \<Rightarrow> ledger_head \<Rightarrow>
    (repo_error + ledger_receipt) \<times> vault" where
  "record_signal_if_head env v s expected =
     (case bind_result (validate_direct_record (Rec_signal s) ''signal'') (\<lambda>r.
           bind_result (copy_expected_head expected) (\<lambda>copied.
           bind_result (validate_record_content env (en_dump env r) ''signal'') (\<lambda>_. Inr copied))) of
        Inl e \<Rightarrow> (Inl e, v)
      | Inr copied \<Rightarrow>
          (case find_slot v (sg_run_id s) of
             Inl (RunNotFoundError _) \<Rightarrow> (Inl LedgerHeadConflictError, v)
           | _ \<Rightarrow> on_slot v (sg_run_id s) (\<lambda>slot.
               bind_result (require_expected_head env v slot (Some copied)) (\<lambda>_.
                 record_direct_locked env v slot (Rec_signal s) ''signal'' (sg_signal_id s) True True))))"

end
