(* ===== verification/Repository_Batch.thy ===== *)
theory Repository_Batch
  imports Repository_Append
begin

text \<open>
  Conditional batches (\<open>append_records_if_head\<close> of \<open>repository/memory.py\<close>): the operations run on a
  shadow of the slot, the staged suffix is verified again, and only then is the shadow published.
\<close>

datatype (plugins only: code size) prepared_operation =
    Prepared_event event_draft redacted_draft uuid
  | Prepared_signal signal

section \<open>Preparing the operations\<close>

definition prepare_operation :: "repo_env \<Rightarrow> append_operation \<Rightarrow> repo_error + prepared_operation" where
  "prepare_operation env operation =
     (case operation of
        Append_event event event_id \<Rightarrow>
          if \<not> valid_event_draft event \<or> \<not> uuid4 event_id then Inl (InvalidRecordError ''conditional_batch'')
          else bind_result (validate_metadata env event) (\<lambda>_.
               bind_result (redact_draft env event) (\<lambda>redacted. Inr (Prepared_event event redacted event_id)))
      | Append_signal s \<Rightarrow>
          if \<not> valid_signal s then Inl (InvalidRecordError ''conditional_batch'')
          else bind_result (validate_record_content env (en_dump env (Rec_signal s)) ''signal'') (\<lambda>_.
               Inr (Prepared_signal s)))"

fun operation_run :: "append_operation \<Rightarrow> uuid" where
  "operation_run (Append_event event event_id) = dr_run_id event"
| "operation_run (Append_signal s) = sg_run_id s"

fun is_append_event :: "append_operation \<Rightarrow> bool" where
  "is_append_event (Append_event event event_id) = True"
| "is_append_event (Append_signal s) = False"

fun prepare_operations :: "repo_env \<Rightarrow> append_operation list \<Rightarrow> nat \<Rightarrow> nat \<Rightarrow> uuid option \<Rightarrow>
    repo_error + prepared_operation list" where
  "prepare_operations env [] events signals run_id = Inr []"
| "prepare_operations env (operation # rest) events signals run_id =
     (let events' = events + (if is_append_event operation then 1 else 0);
          signals' = signals + (if is_append_event operation then 0 else 1) in
      if is_append_event operation \<and> events' > max_conditional_batch_events \<or>
         \<not> is_append_event operation \<and> signals' > max_conditional_batch_signals
      then Inl (InvalidRecordError ''conditional_batch'')
      else
      bind_result (prepare_operation env operation) (\<lambda>prepared.
      if run_id \<noteq> None \<and> run_id \<noteq> Some (operation_run operation)
      then Inl (InvalidRecordError ''conditional_batch'')
      else
      bind_result (prepare_operations env rest events' signals' (Some (operation_run operation))) (\<lambda>ps.
      Inr (prepared # ps))))"

definition max_conditional_batch_request_bytes :: int where
  "max_conditional_batch_request_bytes = 128 * 1024 * 1024"

definition max_conditional_batch_receipt_bytes :: int where
  "max_conditional_batch_receipt_bytes = 256 * 1024 * 1024"

definition prepare_conditional_batch :: "repo_env \<Rightarrow> append_operation list \<Rightarrow>
    repo_error + uuid \<times> prepared_operation list" where
  "prepare_conditional_batch env operations =
     (if \<not> (1 \<le> length operations \<and> length operations \<le> max_conditional_batch_operations)
      then Inl (InvalidRecordError ''conditional_batch'')
      else bind_result (prepare_operations env operations 0 0 None) (\<lambda>prepared.
        case en_operations_size env operations of
          None \<Rightarrow> Inl (InvalidRecordError ''conditional_batch'')
        | Some n \<Rightarrow>
            if n > max_conditional_batch_request_bytes then Inl (InvalidRecordError ''conditional_batch'')
            else Inr (operation_run (hd operations), prepared)))"

section \<open>Staging on a shadow\<close>

definition shadow_slot :: "run_slot \<Rightarrow> run_slot" where
  "shadow_slot s = s\<lparr>sl_append_leases := 0\<rparr>"

definition publish_shadow :: "run_slot \<Rightarrow> run_slot \<Rightarrow> run_slot" where
  "publish_shadow shadow s = shadow\<lparr>sl_run_id := sl_run_id s, sl_append_leases := sl_append_leases s\<rparr>"

definition run_prepared :: "repo_env \<Rightarrow> vault \<Rightarrow> prepared_operation \<Rightarrow> run_slot \<times> batch_item list \<times> bool \<Rightarrow>
    repo_error + run_slot \<times> batch_item list \<times> bool" where
  "run_prepared env v = (\<lambda>operation (shadow, items, mutated).
     case operation of
       Prepared_event draft redacted event_id \<Rightarrow>
         bind_result (append_conditional env v shadow draft redacted event_id False) (\<lambda>(r, _, shadow').
           Inr (shadow', items @ [Item_event r], mutated \<or> ar_disposition r = Disposition_APPENDED))
     | Prepared_signal sg \<Rightarrow>
         bind_result (record_direct_locked env v shadow (Rec_signal sg) ''signal'' (sg_signal_id sg) False False)
           (\<lambda>(r, _, shadow'). Inr (shadow', items @ [Item_record r], mutated \<or> lr_appended r)))"

definition direct_from_entry :: "ledger_entry \<Rightarrow> ((string \<times> uuid) \<times> direct_record) option" where
  "direct_from_entry e =
     map_option (\<lambda>(operation, i). ((operation, i), \<lparr>dc_record = le_record e,
       dc_receipt = \<lparr>lr_appended = True, lr_record_id = i, lr_record_tag = le_record_tag e,
         lr_ledger_position = le_position e, lr_chain_tag = le_chain_tag e\<rparr>\<rparr>)) (direct_key (le_record e))"

definition add_direct :: "ledger_entry \<Rightarrow> (string \<times> uuid, direct_record) dict \<Rightarrow> (string \<times> uuid, direct_record) dict" where
  "add_direct e d = (case direct_from_entry e of None \<Rightarrow> d | Some (k, r) \<Rightarrow> dict_set k r d)"

record suffix_state =
  sx_projection :: projection
  sx_chain_tag :: "payload_digest option"
  sx_projection_tag :: "payload_digest option"
  sx_direct_records :: "(string \<times> uuid, direct_record) dict"
  sx_position :: int

definition verify_suffix_entry :: "repo_env \<Rightarrow> uuid \<Rightarrow> ledger_entry \<Rightarrow> suffix_state \<Rightarrow> repo_error + suffix_state" where
  "verify_suffix_entry env run_id e st =
     (if le_run_id e \<noteq> run_id then Inl (DigestVerificationError ''conditional batch candidate'')
      else
      bind_result (verify_entry env e (sx_position st) (sx_chain_tag st)) (\<lambda>_.
      bind_result (apply_entry (en_hash env) (en_float env) (sx_projection st) e) (\<lambda>projected.
      bind_result (checkpoint_tag env e projected (sx_projection_tag st)) (\<lambda>t.
      Inr \<lparr>sx_projection = projected, sx_chain_tag = Some (le_chain_tag e), sx_projection_tag = Some t,
           sx_direct_records = add_direct e (sx_direct_records st), sx_position = sx_position st + 1\<rparr>))))"

definition verify_conditional_shadow :: "repo_env \<Rightarrow> run_slot \<Rightarrow> run_slot \<Rightarrow> repo_error + unit" where
  "verify_conditional_shadow env s shadow =
     (let base_count = length (sl_ledger s); candidate = DigestVerificationError ''conditional batch candidate'' in
      case sl_head shadow of
        None \<Rightarrow> Inl (ProjectionInvariantError ''conditional batch state is unavailable'')
      | Some head \<Rightarrow>
          if sl_run_id shadow \<noteq> sl_run_id s \<or> length (sl_ledger shadow) \<le> base_count \<or>
             take base_count (sl_ledger shadow) \<noteq> sl_ledger s
          then Inl candidate
          else
          bind_result (fold_result (verify_suffix_entry env (sl_run_id s)) (drop base_count (sl_ledger shadow))
             \<lparr>sx_projection = sl_projection s, sx_chain_tag = map_option lh_chain_tag (sl_head s),
              sx_projection_tag = map_option lh_projection_tag (sl_head s),
              sx_direct_records = sl_direct_records s, sx_position = int base_count + 1\<rparr>) (\<lambda>st.
          if lh_run_id head \<noteq> sl_run_id s \<or> lh_entry_count head \<noteq> int (length (sl_ledger shadow)) \<or>
             Some (lh_chain_tag head) \<noteq> sx_chain_tag st \<or> Some (lh_projection_tag head) \<noteq> sx_projection_tag st
          then Inl candidate
          else
          bind_result (verify_head_tag env head) (\<lambda>ok.
          if \<not> ok then Inl candidate
          else
          bind_result (validate_complete_projection (sx_projection st)) (\<lambda>_.
          if sx_projection st \<noteq> sl_projection shadow \<or> sx_direct_records st \<noteq> sl_direct_records shadow \<or>
             sl_cycle_records shadow \<noteq> sl_cycle_records s \<or> sl_delivery_records shadow \<noteq> sl_delivery_records s \<or>
             sl_collision_receipts shadow \<noteq> sl_collision_receipts s
          then Inl candidate
          else Inr ()))))"

section \<open>The receipt\<close>

definition batch_item_step :: "uuid \<Rightarrow> payload_digest_algorithm \<Rightarrow> batch_item \<Rightarrow> int \<times> int \<Rightarrow> (int \<times> int) option" where
  "batch_item_step run_id algorithm item = (\<lambda>(current, appended).
     (let (ok, is_new, position) =
        (case item of
           Item_event r \<Rightarrow> (ev_run_id (ar_event r) = run_id \<and> ar_disposition r \<noteq> Disposition_COLLISION \<and>
               pd_algorithm (ev_payload_digest (ar_event r)) = algorithm,
             ar_disposition r = Disposition_APPENDED, ar_ledger_position r)
         | Item_record r \<Rightarrow> (pd_algorithm (lr_record_tag r) = algorithm \<and> pd_algorithm (lr_chain_tag r) = algorithm,
             lr_appended r, lr_ledger_position r))
      in if \<not> ok then None
         else if is_new
         then if position \<noteq> current + 1 then None else Some (current + 1, appended + 1)
         else if position > current then None else Some (current, appended)))"

fun batch_items :: "uuid \<Rightarrow> payload_digest_algorithm \<Rightarrow> batch_item list \<Rightarrow> int \<times> int \<Rightarrow> (int \<times> int) option" where
  "batch_items run_id algorithm [] counts = Some counts"
| "batch_items run_id algorithm (i # is) counts =
     (case batch_item_step run_id algorithm i counts of
        None \<Rightarrow> None
      | Some counts' \<Rightarrow> batch_items run_id algorithm is counts')"

fun is_event_item :: "batch_item \<Rightarrow> bool" where
  "is_event_item (Item_event r) = True"
| "is_event_item (Item_record r) = False"

fun item_valid :: "batch_item \<Rightarrow> bool" where
  "item_valid (Item_event r) = valid_append_receipt r"
| "item_valid (Item_record r) = valid_ledger_receipt r"

definition consistent_batch_receipt :: "batch_receipt \<Rightarrow> bool" where
  "consistent_batch_receipt r \<longleftrightarrow>
     (let final = br_final_head r; items = br_receipts r;
          initial_count = (case br_initial_head r of None \<Rightarrow> 0 | Some h \<Rightarrow> lh_entry_count h) in
      valid_ledger_head final \<and> opt_all valid_ledger_head (br_initial_head r) \<and>
      1 \<le> length items \<and> length items \<le> max_conditional_batch_operations \<and> list_all item_valid items \<and>
      opt_all (\<lambda>h. lh_run_id h = lh_run_id final \<and>
         pd_algorithm (lh_head_tag h) = pd_algorithm (lh_head_tag final)) (br_initial_head r) \<and>
      (case batch_items (lh_run_id final) (pd_algorithm (lh_head_tag final)) items (initial_count, 0) of
         None \<Rightarrow> False
       | Some (current, appended) \<Rightarrow>
           length (filter is_event_item items) \<le> max_conditional_batch_events \<and>
           length (filter (\<lambda>i. \<not> is_event_item i) items) \<le> max_conditional_batch_signals \<and>
           (br_initial_head r = None \<longrightarrow>
              (case hd items of Item_event a \<Rightarrow> ar_disposition a = Disposition_APPENDED | _ \<Rightarrow> False)) \<and>
           lh_entry_count final = initial_count + appended \<and> lh_entry_count final = current \<and>
           (appended = 0 \<longrightarrow> br_initial_head r = Some final)))"

definition bounded_batch_receipt :: "repo_env \<Rightarrow> ledger_head option \<Rightarrow> batch_item list \<Rightarrow> ledger_head \<Rightarrow>
    repo_error + batch_receipt" where
  "bounded_batch_receipt env initial items final =
     (let r = \<lparr>br_initial_head = initial, br_receipts = items, br_final_head = final\<rparr> in
      if \<not> consistent_batch_receipt r
      then Inl (ProjectionInvariantError ''conditional batch receipt is invalid'')
      else if en_receipt_size env r > max_conditional_batch_receipt_bytes
      then Inl (InvalidRecordError ''conditional_batch'')
      else Inr r)"

section \<open>The whole batch\<close>

definition run_conditional_batch :: "repo_env \<Rightarrow> vault \<Rightarrow> run_slot \<Rightarrow> prepared_operation list \<Rightarrow>
    ledger_head option \<Rightarrow> repo_error + batch_receipt \<times> vault \<times> run_slot" where
  "run_conditional_batch env v s operations expected =
     bind_result (require_expected_head env v s expected) (\<lambda>_.
     bind_result (fold_result (run_prepared env v) operations (shadow_slot s, [], False))
       (\<lambda>(shadow, items, mutated).
     case sl_head shadow of
       None \<Rightarrow> Inl (ProjectionInvariantError ''conditional batch state is unavailable'')
     | Some head \<Rightarrow>
         bind_result (if mutated then verify_conditional_shadow env s shadow
                      else validate_complete_projection (sl_projection shadow)) (\<lambda>_.
         bind_result (bounded_batch_receipt env (sl_head s) items head) (\<lambda>receipt.
         if mutated
         then Inr (receipt, publish (sl_run_id s) head (sl_projection shadow) v, publish_shadow shadow s)
         else Inr (receipt, v, s)))))"

definition append_records_if_head :: "repo_env \<Rightarrow> vault \<Rightarrow> append_operation list \<Rightarrow> ledger_head option \<Rightarrow>
    (repo_error + batch_receipt) \<times> vault" where
  "append_records_if_head env v operations expected =
     (case bind_result (prepare_conditional_batch env operations) (\<lambda>(run_id, prepared).
           bind_result (opt_copy_head expected) (\<lambda>copied. Inr (run_id, prepared, copied))) of
        Inl e \<Rightarrow> (Inl e, v)
      | Inr (run_id, prepared, copied) \<Rightarrow>
          on_append_slot v run_id (\<lambda>v s. run_conditional_batch env v s prepared copied))"

end
