(* ===== verification/Repository_Cycles.thy ===== *)
theory Repository_Cycles
  imports Repository_Append
begin

text \<open>
  The cycle operations of the in-memory repository (\<open>begin_cycle\<close>, \<open>reserve_cycle\<close>,
  \<open>mark_cycle_running\<close>, \<open>commit_cycle\<close>, \<open>fail_cycle\<close>, \<open>recover_cycles\<close>), and the delivery record
  appends \<open>commit_cycle\<close> shares with the delivery operations.
\<close>

section \<open>Recording a revision\<close>

definition cycle_base :: "run_slot \<Rightarrow> digest \<Rightarrow> int \<Rightarrow> cycle_state option \<Rightarrow> repo_error + cycle_record" where
  "cycle_base s i expected_revision expected_state =
     (case dict_get (pr_cycle_history (sl_projection s)) (i, expected_revision) of
        None \<Rightarrow> Inl (CycleRevisionConflictError expected_revision
                  (map_option cy_revision (dict_get (pr_cycles (sl_projection s)) i)))
      | Some base \<Rightarrow>
          (case expected_state of
             None \<Rightarrow> Inr base
           | Some st \<Rightarrow> if cy_state base \<noteq> st then Inl (InvalidCycleStateError ''cycle transition'' st)
                        else Inr base))"

definition record_cycle_locked :: "repo_env \<Rightarrow> vault \<Rightarrow> run_slot \<Rightarrow> cycle_record \<Rightarrow> bool \<Rightarrow> delivery_record option \<Rightarrow>
    repo_error + cycle_receipt \<times> vault \<times> run_slot" where
  "record_cycle_locked env v s c publishing delivery =
     (let key = (cy_cycle_id c, cy_revision c) in
      case dict_get (sl_cycle_records s) key of
        Some existing \<Rightarrow>
          if cr_cycle existing \<noteq> c then Inl CycleConflictError
          else Inr (existing\<lparr>cr_appended := False\<rparr>, v, s)
      | None \<Rightarrow>
          bind_result (stage_entry env s (Rec_cycle c)) (\<lambda>(entry, projected, head).
          bind_result (budget_snapshot_of projected None) (\<lambda>snapshot.
          let receipt = \<lparr>cr_appended = True, cr_cycle = c, cr_record_tag = le_record_tag entry,
                cr_ledger_position = le_position entry, cr_chain_tag = le_chain_tag entry,
                cr_budget_snapshot = snapshot, cr_delivery = delivery\<rparr>
          in if \<not> valid_cycle_receipt (en_hash env) receipt then Inl (UnhandledError ''ValidationError'')
             else Inr (receipt, if publishing then publish (sl_run_id s) head projected v else v,
               (extend_slot entry projected head s)\<lparr>sl_cycle_records :=
                  dict_set key receipt (sl_cycle_records s)\<rparr>))))"

definition record_delivery_locked :: "repo_env \<Rightarrow> vault \<Rightarrow> run_slot \<Rightarrow> delivery_record \<Rightarrow> bool \<Rightarrow>
    repo_error + delivery_receipt \<times> vault \<times> run_slot" where
  "record_delivery_locked env v s d publishing =
     (let key = (dv_delivery_id d, dv_revision d) in
      case dict_get (sl_delivery_records s) key of
        Some existing \<Rightarrow>
          if tr_delivery existing \<noteq> d then Inl (DeliveryRevisionConflictError (dv_revision d) (Some (dv_revision d)))
          else Inr (existing\<lparr>tr_appended := False\<rparr>, v, s)
      | None \<Rightarrow>
          bind_result (stage_entry env s (Rec_delivery d)) (\<lambda>(entry, projected, head).
          let receipt = \<lparr>tr_appended = True, tr_delivery = d, tr_record_tag = le_record_tag entry,
                tr_ledger_position = le_position entry, tr_chain_tag = le_chain_tag entry\<rparr>
          in if \<not> valid_delivery_receipt receipt then Inl (UnhandledError ''ValidationError'')
             else Inr (receipt, if publishing then publish (sl_run_id s) head projected v else v,
               (extend_slot entry projected head s)\<lparr>sl_delivery_records :=
                  dict_set key receipt (sl_delivery_records s)\<rparr>)))"

text \<open>
  \<open>_transition_cycle\<close> updates a revision and validates it again. \<open>settled_within\<close> is its check that
  a settlement, when both amounts are present, does not exceed the reservation.
\<close>

definition settled_within :: "cycle_record \<Rightarrow> bool" where
  "settled_within c =
     (case (cy_budget_reservation c, cy_budget_settlement c) of
        (Some reservation, Some settlement) \<Rightarrow> \<not> exceeds settlement reservation
      | _ \<Rightarrow> True)"

definition transition_cycle :: "repo_env \<Rightarrow> cycle_record \<Rightarrow> string \<Rightarrow> repo_error + cycle_record" where
  "transition_cycle env updated operation =
     (if \<not> settled_within updated
      then Inl (ProjectionInvariantError ''cycle settlement exceeds its reservation'')
      else if \<not> valid_cycle_record (en_hash env) updated then Inl (InvalidRecordError operation)
      else Inr updated)"

definition accept_command :: "repo_env \<Rightarrow> bool \<Rightarrow> repo_command \<Rightarrow> string \<Rightarrow> repo_error + unit" where
  "accept_command env valid command operation =
     (if \<not> valid then Inl (InvalidRecordError operation)
      else validate_record_content env (en_dump_command env command) operation)"

definition command_on_slot :: "repo_env \<Rightarrow> vault \<Rightarrow> bool \<Rightarrow> repo_command \<Rightarrow> string \<Rightarrow> uuid \<Rightarrow>
    (run_slot \<Rightarrow> repo_error + ('r \<times> vault \<times> run_slot)) \<Rightarrow> (repo_error + 'r) \<times> vault" where
  "command_on_slot env v valid command operation run_id body =
     (case accept_command env valid command operation of
        Inl e \<Rightarrow> (Inl e, v)
      | Inr _ \<Rightarrow> on_slot v run_id (\<lambda>s. bind_result (verify_head env v s True) (\<lambda>_. body s)))"

section \<open>Beginning a cycle\<close>

definition same_beginning :: "cycle_record \<Rightarrow> begin_cycle_cmd \<Rightarrow> bool" where
  "same_beginning existing cmd \<longleftrightarrow> cy_grounding_version existing = bc_grounding_version cmd \<and>
     cy_grounding_configuration existing = bc_grounding_configuration cmd \<and>
     cy_grounding_configuration_digest existing = bc_grounding_configuration_digest cmd \<and>
     cy_requested_delivery_target existing = bc_requested_delivery_target cmd"

definition pending_cycle :: "begin_cycle_cmd \<Rightarrow> invocation_decision \<Rightarrow> digest \<Rightarrow> int \<Rightarrow> cycle_record" where
  "pending_cycle cmd d identifier first =
     \<lparr>cy_cycle_id = identifier, cy_run_id = bc_run_id cmd, cy_revision = 1,
      cy_invocation_decision_id = bc_invocation_decision_id cmd, cy_policy_version = id_policy_version d,
      cy_configuration_digest = id_configuration_digest d, cy_grounding_version = bc_grounding_version cmd,
      cy_grounding_configuration = bc_grounding_configuration cmd,
      cy_grounding_configuration_digest = bc_grounding_configuration_digest cmd,
      cy_requested_delivery_target = bc_requested_delivery_target cmd,
      cy_first_event_sequence = first, cy_last_event_sequence = id_event_sequence d,
      cy_state = Cycle_PENDING, cy_budget_reservation = None, cy_budget_settlement = None,
      cy_batch_digest = None, cy_model_call_digests = [], cy_model_call_latencies_us = [],
      cy_validated_delta = None, cy_memory_id_assignments = [], cy_intervention = None,
      cy_selector_provenance = None, cy_failure_reason = None,
      cy_created_at = bc_created_at cmd, cy_updated_at = bc_created_at cmd\<rparr>"

definition beginnings :: "projection \<Rightarrow> uuid \<Rightarrow> cycle_record list" where
  "beginnings p decision_id =
     map snd (filter (\<lambda>((i, revision), c). revision = 1 \<and> cy_invocation_decision_id c = decision_id)
       (pr_cycle_history p))"

definition begin_new_cycle :: "repo_env \<Rightarrow> vault \<Rightarrow> run_slot \<Rightarrow> begin_cycle_cmd \<Rightarrow> invocation_decision \<Rightarrow>
    repo_error + cycle_receipt \<times> vault \<times> run_slot" where
  "begin_new_cycle env v s cmd d =
     (let p = sl_projection s; first = pr_memory_cursor p + 1 in
      if id_event_sequence d < first then Inl (ProjectionInvariantError ''cycle has no unprocessed event range'')
      else case cycle_id (en_hash env) (bc_run_id cmd) first (id_event_sequence d) (id_policy_version d)
             (id_configuration_digest d) (bc_grounding_version cmd) (bc_grounding_configuration_digest cmd)
             (bc_requested_delivery_target cmd) of
        Inl e \<Rightarrow> Inl (UnhandledError ''ValueError'')
      | Inr identifier \<Rightarrow>
          if list_ex (\<lambda>c. active_cycle c \<and> cy_cycle_id c \<noteq> identifier) (dict_values (pr_cycles p))
          then Inl CycleConflictError
          else let c = pending_cycle cmd d identifier first in
            if \<not> valid_cycle_record (en_hash env) c then Inl (UnhandledError ''ValidationError'')
            else record_cycle_locked env v s c True None)"

definition begin_cycle_body :: "repo_env \<Rightarrow> vault \<Rightarrow> begin_cycle_cmd \<Rightarrow> run_slot \<Rightarrow>
    repo_error + cycle_receipt \<times> vault \<times> run_slot" where
  "begin_cycle_body env v cmd s =
     (case dict_get (pr_decisions (sl_projection s)) (bc_invocation_decision_id cmd) of
        None \<Rightarrow> Inl (CrossRunReferenceError ''cycle invocation decision'')
      | Some d \<Rightarrow>
          (case beginnings (sl_projection s) (bc_invocation_decision_id cmd) of
             [] \<Rightarrow> begin_new_cycle env v s cmd d
           | [existing] \<Rightarrow>
               if \<not> same_beginning existing cmd then Inl CycleConflictError
               else bind_result (transition_cycle env
                 (existing\<lparr>cy_created_at := bc_created_at cmd, cy_updated_at := bc_created_at cmd\<rparr>) ''begin_cycle'')
                 (\<lambda>retry. record_cycle_locked env v s retry True None)
           | _ \<Rightarrow> Inl (ProjectionInvariantError ''invocation decision has multiple cycles'')))"

definition begin_cycle :: "repo_env \<Rightarrow> vault \<Rightarrow> begin_cycle_cmd \<Rightarrow> (repo_error + cycle_receipt) \<times> vault" where
  "begin_cycle env v cmd = command_on_slot env v (valid_begin_cycle cmd) (Cmd_begin cmd) ''begin_cycle''
     (bc_run_id cmd) (begin_cycle_body env v cmd)"

section \<open>Reserving and starting\<close>

definition reserve_cycle_body :: "repo_env \<Rightarrow> vault \<Rightarrow> reserve_cycle_cmd \<Rightarrow> run_slot \<Rightarrow>
    repo_error + cycle_receipt \<times> vault \<times> run_slot" where
  "reserve_cycle_body env v cmd s =
     bind_result (cycle_base s (rc_cycle_id cmd) (rc_expected_revision cmd) (Some Cycle_PENDING)) (\<lambda>base.
     bind_result (transition_cycle env
        (base\<lparr>cy_revision := cy_revision base + 1, cy_state := Cycle_RESERVED,
          cy_budget_reservation := Some (rc_reservation cmd), cy_updated_at := rc_updated_at cmd\<rparr>)
        ''reserve_cycle'') (\<lambda>c.
     record_cycle_locked env v s c True None))"

definition reserve_cycle :: "repo_env \<Rightarrow> vault \<Rightarrow> reserve_cycle_cmd \<Rightarrow> (repo_error + cycle_receipt) \<times> vault" where
  "reserve_cycle env v cmd = command_on_slot env v (valid_reserve_cycle cmd) (Cmd_reserve cmd) ''reserve_cycle''
     (rc_run_id cmd) (reserve_cycle_body env v cmd)"

definition mark_cycle_running_body :: "repo_env \<Rightarrow> vault \<Rightarrow> start_cycle_cmd \<Rightarrow> run_slot \<Rightarrow>
    repo_error + cycle_receipt \<times> vault \<times> run_slot" where
  "mark_cycle_running_body env v cmd s =
     bind_result (cycle_base s (sc_cycle_id cmd) (sc_expected_revision cmd) (Some Cycle_RESERVED)) (\<lambda>base.
     bind_result (transition_cycle env
        (base\<lparr>cy_revision := cy_revision base + 1, cy_state := Cycle_RUNNING,
          cy_batch_digest := Some (sc_batch_digest cmd), cy_updated_at := sc_updated_at cmd\<rparr>)
        ''mark_cycle_running'') (\<lambda>c.
     record_cycle_locked env v s c True None))"

definition mark_cycle_running :: "repo_env \<Rightarrow> vault \<Rightarrow> start_cycle_cmd \<Rightarrow> (repo_error + cycle_receipt) \<times> vault" where
  "mark_cycle_running env v cmd = command_on_slot env v (valid_start_cycle cmd) (Cmd_start cmd)
     ''mark_cycle_running'' (sc_run_id cmd) (mark_cycle_running_body env v cmd)"

section \<open>Committing\<close>

definition same_plan :: "enqueue_delivery option \<Rightarrow> delivery_record option \<Rightarrow> bool" where
  "same_plan plan existing =
     (case (plan, existing) of
        (None, None) \<Rightarrow> True
      | (Some q, Some d) \<Rightarrow> eq_target_request_id q = dv_target_request_id d \<and>
          eq_adapter_id q = dv_adapter_id d \<and> eq_adapter_deduplicates q = dv_adapter_deduplicates d \<and>
          eq_adapter_deduplication_guarantee q = dv_adapter_deduplication_guarantee d \<and>
          eq_adapter_supports_pre_action q = dv_adapter_supports_pre_action d \<and>
          eq_adapter_contract_version q = dv_adapter_contract_version d \<and>
          eq_adapter_capabilities_digest q = dv_adapter_capabilities_digest d
      | _ \<Rightarrow> False)"

text \<open>\<open>canonical_digest(rendered_text)\<close> is \<open>text_digest\<close>, or the digest of \<open>null\<close> when there is no text.\<close>

definition rendered_digest :: "repo_env \<Rightarrow> intervention_decision \<Rightarrow> digest" where
  "rendered_digest env i =
     (case iv_rendered_text i of None \<Rightarrow> content_digest (en_hash env) [''null'']
      | Some t \<Rightarrow> text_digest (en_hash env) t)"

definition planned_delivery :: "repo_env \<Rightarrow> cycle_record \<Rightarrow> commit_cycle_cmd \<Rightarrow> enqueue_delivery \<Rightarrow>
    repo_error + delivery_record" where
  "planned_delivery env c cmd plan =
     (let i = cc_intervention cmd in
      case iv_delivery_target i of
        None \<Rightarrow> Inl (ProjectionInvariantError ''reminder delivery target is unavailable'')
      | Some target \<Rightarrow>
          (case delivery_id (en_hash env) (cy_run_id c) (cy_cycle_id c) (iv_intervention_id i)
               (eq_target_request_id plan) target (eq_adapter_id plan) (eq_adapter_capabilities_digest plan)
               (rendered_digest env i) of
             Inl e \<Rightarrow> Inl (UnhandledError ''ValueError'')
           | Inr identifier \<Rightarrow>
               (let d = \<lparr>dv_delivery_id = identifier, dv_run_id = cy_run_id c, dv_revision = 1,
                     dv_cycle_id = cy_cycle_id c, dv_intervention_id = iv_intervention_id i,
                     dv_rendered_text_digest = rendered_digest env i,
                     dv_target_request_id = eq_target_request_id plan, dv_target = target,
                     dv_state = Delivery_PENDING, dv_attempt_count = 0, dv_adapter_id = eq_adapter_id plan,
                     dv_adapter_deduplicates = eq_adapter_deduplicates plan,
                     dv_adapter_deduplication_guarantee = eq_adapter_deduplication_guarantee plan,
                     dv_adapter_supports_pre_action = eq_adapter_supports_pre_action plan,
                     dv_adapter_contract_version = eq_adapter_contract_version plan,
                     dv_adapter_capabilities_digest = eq_adapter_capabilities_digest plan,
                     dv_claim_id = None, dv_attempt_id = None, dv_receipt = None, dv_outcome = None,
                     dv_reason_code = None, dv_created_at = cc_updated_at cmd, dv_updated_at = cc_updated_at cmd\<rparr>
                in if valid_delivery_record d then Inr d else Inl (UnhandledError ''ValidationError''))))"

definition enqueue_planned :: "repo_env \<Rightarrow> vault \<Rightarrow> run_slot \<Rightarrow> delivery_record option \<Rightarrow> repo_error + run_slot" where
  "enqueue_planned env v shadow delivery =
     (case delivery of
        None \<Rightarrow> Inr shadow
      | Some d \<Rightarrow> bind_result (record_delivery_locked env v shadow d False) (\<lambda>(_, _, shadow'). Inr shadow'))"

definition commit_new_cycle :: "repo_env \<Rightarrow> vault \<Rightarrow> run_slot \<Rightarrow> cycle_record \<Rightarrow> delivery_record option \<Rightarrow>
    repo_error + cycle_receipt \<times> vault \<times> run_slot" where
  "commit_new_cycle env v s c delivery =
     bind_result (record_cycle_locked env v (s\<lparr>sl_append_leases := 0\<rparr>) c False delivery) (\<lambda>(receipt, _, shadow).
     bind_result (enqueue_planned env v shadow delivery) (\<lambda>shadow.
     bind_result (validate_complete_projection (sl_projection shadow)) (\<lambda>_.
     case sl_head shadow of
       None \<Rightarrow> Inl (ProjectionInvariantError ''cycle commit shadow is incomplete'')
     | Some head \<Rightarrow> Inr (receipt, publish (sl_run_id s) head (sl_projection shadow) v,
         shadow\<lparr>sl_append_leases := sl_append_leases s\<rparr>))))"

definition committed_revision :: "commit_cycle_cmd \<Rightarrow> cycle_record \<Rightarrow> cycle_record" where
  "committed_revision cmd base =
     base\<lparr>cy_revision := cy_revision base + 1, cy_state := Cycle_COMMITTED,
       cy_budget_settlement := Some (cc_settlement cmd), cy_model_call_digests := cc_model_call_digests cmd,
       cy_model_call_latencies_us := cc_model_call_latencies_us cmd,
       cy_validated_delta := Some (cc_validated_delta cmd),
       cy_memory_id_assignments := cc_memory_id_assignments cmd, cy_intervention := Some (cc_intervention cmd),
       cy_selector_provenance := cc_selector_provenance cmd, cy_updated_at := cc_updated_at cmd\<rparr>"

definition commit_cycle_body :: "repo_env \<Rightarrow> vault \<Rightarrow> commit_cycle_cmd \<Rightarrow> run_slot \<Rightarrow>
    repo_error + cycle_receipt \<times> vault \<times> run_slot" where
  "commit_cycle_body env v cmd s =
     bind_result (cycle_base s (cc_cycle_id cmd) (cc_expected_revision cmd) (Some Cycle_RUNNING)) (\<lambda>base.
     let i = cc_intervention cmd in
     if iv_grounding_version i \<noteq> cy_grounding_version base \<or>
        iv_grounding_configuration_digest i \<noteq> cy_grounding_configuration_digest base \<or>
        iv_grounding_configuration i \<noteq> cy_grounding_configuration base
     then Inl (ProjectionInvariantError ''grounded intervention failed authoritative verification'')
     else
     bind_result (transition_cycle env (committed_revision cmd base) ''commit_cycle'') (\<lambda>c.
     case dict_get (sl_cycle_records s) (cy_cycle_id c, cy_revision c) of
       Some existing \<Rightarrow>
         if cr_cycle existing \<noteq> c \<or> \<not> same_plan (cc_delivery cmd) (cr_delivery existing)
         then Inl CycleConflictError
         else Inr (existing\<lparr>cr_appended := False\<rparr>, v, s)
     | None \<Rightarrow>
         bind_result (case cc_delivery cmd of
                        None \<Rightarrow> Inr None
                      | Some plan \<Rightarrow> map_sum id Some (planned_delivery env c cmd plan)) (\<lambda>delivery.
         commit_new_cycle env v s c delivery)))"

definition commit_cycle :: "repo_env \<Rightarrow> vault \<Rightarrow> commit_cycle_cmd \<Rightarrow> (repo_error + cycle_receipt) \<times> vault" where
  "commit_cycle env v cmd = command_on_slot env v (valid_commit_cycle cmd) (Cmd_commit cmd) ''commit_cycle''
     (cc_run_id cmd) (commit_cycle_body env v cmd)"

section \<open>Failing and recovering\<close>

definition fail_settlement :: "fail_cycle_cmd \<Rightarrow> cycle_record \<Rightarrow> repo_error + budget_amounts option" where
  "fail_settlement cmd base =
     (let settlement = fc_settlement cmd;
          receipts = fc_model_call_digests cmd \<noteq> [] \<or> fc_model_call_latencies_us cmd \<noteq> [] in
      checks
        [(cy_state base \<notin> {Cycle_PENDING, Cycle_RESERVED, Cycle_RUNNING},
            InvalidCycleStateError ''fail_cycle'' Cycle_RUNNING),
         (cy_state base = Cycle_PENDING \<and> (settlement \<noteq> None \<or> receipts), CycleConflictError),
         (cy_state base \<noteq> Cycle_PENDING \<and> settlement = None, CycleConflictError),
         (cy_state base = Cycle_RESERVED \<and> receipts, CycleConflictError),
         (fc_reason cmd = Reason_FAILED_UNKNOWN_COST \<and> cy_state base \<noteq> Cycle_RUNNING, CycleConflictError),
         (fc_reason cmd = Reason_FAILED_UNKNOWN_COST \<and> settlement \<noteq> None \<and>
            settlement \<noteq> cy_budget_reservation base, CycleConflictError)]
        (Inr (if fc_reason cmd = Reason_FAILED_UNKNOWN_COST then cy_budget_reservation base else settlement)))"

definition fail_cycle_body :: "repo_env \<Rightarrow> vault \<Rightarrow> fail_cycle_cmd \<Rightarrow> run_slot \<Rightarrow>
    repo_error + cycle_receipt \<times> vault \<times> run_slot" where
  "fail_cycle_body env v cmd s =
     bind_result (cycle_base s (fc_cycle_id cmd) (fc_expected_revision cmd) None) (\<lambda>base.
     bind_result (fail_settlement cmd base) (\<lambda>settlement.
     bind_result (transition_cycle env
        (base\<lparr>cy_revision := cy_revision base + 1, cy_state := Cycle_FAILED, cy_budget_settlement := settlement,
          cy_model_call_digests := fc_model_call_digests cmd,
          cy_model_call_latencies_us := fc_model_call_latencies_us cmd,
          cy_failure_reason := Some (fc_reason cmd), cy_updated_at := fc_updated_at cmd\<rparr>)
        ''fail_cycle'') (\<lambda>c.
     record_cycle_locked env v s c True None)))"

definition fail_cycle :: "repo_env \<Rightarrow> vault \<Rightarrow> fail_cycle_cmd \<Rightarrow> (repo_error + cycle_receipt) \<times> vault" where
  "fail_cycle env v cmd = command_on_slot env v (valid_fail_cycle cmd) (Cmd_fail cmd) ''fail_cycle''
     (fc_run_id cmd) (fail_cycle_body env v cmd)"

definition sorted_cycles :: "projection \<Rightarrow> cycle_record list" where
  "sorted_cycles p = map snd (sort_key fst (pr_cycles p))"

definition abandoned :: "timestamp \<Rightarrow> cycle_record \<Rightarrow> cycle_record" where
  "abandoned recovered_at c = c\<lparr>cy_revision := cy_revision c + 1, cy_state := Cycle_FAILED,
     cy_budget_settlement := cy_budget_reservation c, cy_failure_reason := Some Reason_FAILED_UNKNOWN_COST,
     cy_updated_at := max recovered_at (cy_updated_at c)\<rparr>"

definition recover_cycle_step :: "repo_env \<Rightarrow> vault \<Rightarrow> timestamp \<Rightarrow> cycle_record \<Rightarrow>
    run_slot \<times> cycle_receipt list \<Rightarrow> repo_error + run_slot \<times> cycle_receipt list" where
  "recover_cycle_step env v recovered_at c = (\<lambda>(shadow, receipts).
     if \<not> valid_cycle_record (en_hash env) (abandoned recovered_at c) then Inl (UnhandledError ''ValidationError'')
     else bind_result (record_cycle_locked env v shadow (abandoned recovered_at c) False None)
       (\<lambda>(receipt, _, shadow'). Inr (shadow', receipts @ [receipt])))"

definition recover_cycles_body :: "repo_env \<Rightarrow> vault \<Rightarrow> timestamp \<Rightarrow> run_slot \<Rightarrow>
    repo_error + cycle_recovery \<times> vault \<times> run_slot" where
  "recover_cycles_body env v recovered_at s =
     (let cycles = sorted_cycles (sl_projection s) in
      bind_result (fold_result (recover_cycle_step env v recovered_at)
          (filter (\<lambda>c. cy_state c = Cycle_RUNNING) cycles) (s\<lparr>sl_append_leases := 0\<rparr>, []))
        (\<lambda>(shadow, failed).
      let receipt = \<lparr>rv_run_id = sl_run_id s,
            rv_resumable_pending = filter (\<lambda>c. cy_state c = Cycle_PENDING) cycles,
            rv_resumable_reserved = filter (\<lambda>c. cy_state c = Cycle_RESERVED) cycles,
            rv_failed_unknown_cost = failed\<rparr>
      in if failed = [] then Inr (receipt, v, s)
         else case sl_head shadow of
                None \<Rightarrow> Inl (ProjectionInvariantError ''recovery shadow state is incomplete'')
              | Some head \<Rightarrow> Inr (receipt, publish (sl_run_id s) head (sl_projection shadow) v,
                  shadow\<lparr>sl_append_leases := sl_append_leases s\<rparr>)))"

definition recover_cycles :: "repo_env \<Rightarrow> vault \<Rightarrow> uuid \<Rightarrow> timestamp \<Rightarrow> (repo_error + cycle_recovery) \<times> vault" where
  "recover_cycles env v run_id recovered_at =
     (case validate_run_id run_id of
        Inl e \<Rightarrow> (Inl e, v)
      | Inr _ \<Rightarrow> on_slot v run_id (\<lambda>s.
          bind_result (verify_head env v s True) (\<lambda>_. recover_cycles_body env v recovered_at s)))"

definition read_budget_snapshot :: "repo_env \<Rightarrow> vault \<Rightarrow> uuid \<Rightarrow> repo_error + budget_snapshot" where
  "read_budget_snapshot env v run_id =
     bind_result (validate_run_id run_id) (\<lambda>_.
     bind_result (find_slot v run_id) (\<lambda>s.
     bind_result (verify_head env v s True) (\<lambda>_. budget_snapshot_of (sl_projection s) None)))"

end
