(* ===== verification/Repository_Deliveries.thy ===== *)
theory Repository_Deliveries
  imports Repository_Cycles
begin

text \<open>
  The delivery operations of the in-memory repository: claiming, attempting, completing, marking
  unknown, rejecting, and the recovery of interrupted attempts. Each first answers a retry of a
  transition it has already recorded, and only then moves the current revision.
\<close>

definition delivery_base :: "run_slot \<Rightarrow> uuid \<Rightarrow> int \<Rightarrow> repo_error + delivery_record" where
  "delivery_base s i expected_revision =
     (case dict_get (pr_deliveries (sl_projection s)) i of
        None \<Rightarrow> Inl DeliveryNotFoundError
      | Some latest \<Rightarrow>
          if dv_revision latest \<noteq> expected_revision
          then Inl (DeliveryRevisionConflictError expected_revision (Some (dv_revision latest)))
          else Inr latest)"

definition transition_delivery :: "delivery_record \<Rightarrow> string \<Rightarrow> repo_error + delivery_record" where
  "transition_delivery updated operation =
     (if valid_delivery_record updated then Inr updated else Inl (InvalidRecordError operation))"

definition delivery_retry :: "run_slot \<Rightarrow> uuid \<Rightarrow> int \<Rightarrow> delivery_record \<Rightarrow> repo_error + delivery_receipt option" where
  "delivery_retry s i expected_revision candidate =
     (case dict_get (pr_deliveries (sl_projection s)) i of
        None \<Rightarrow> Inr None
      | Some latest \<Rightarrow>
          if dv_revision latest \<noteq> expected_revision + 1 \<or> latest \<noteq> candidate then Inr None
          else case dict_get (sl_delivery_records s) (i, dv_revision latest) of
                 None \<Rightarrow> Inl (ProjectionInvariantError ''delivery receipt cache is unavailable'')
               | Some cached \<Rightarrow> Inr (Some (cached\<lparr>tr_appended := False\<rparr>)))"

definition previous_delivery :: "run_slot \<Rightarrow> uuid \<Rightarrow> int \<Rightarrow> delivery_record option" where
  "previous_delivery s i expected_revision = dict_get (pr_delivery_history (sl_projection s)) (i, expected_revision)"

text \<open>
  The common shape of a transition: \<open>retry\<close> is what a retry of the expected revision would have
  produced (or its refusal), \<open>move\<close> the revision the current delivery moves to.
\<close>

definition transition_body :: "repo_env \<Rightarrow> vault \<Rightarrow> run_slot \<Rightarrow> uuid \<Rightarrow> int \<Rightarrow>
    (delivery_record \<Rightarrow> repo_error + delivery_record option) \<Rightarrow>
    (delivery_record \<Rightarrow> repo_error + delivery_record) \<Rightarrow>
    repo_error + (delivery_receipt \<times> delivery_record option) \<times> vault \<times> run_slot" where
  "transition_body env v s i expected retry move =
     bind_result (case previous_delivery s i expected of
                    None \<Rightarrow> Inr None
                  | Some previous \<Rightarrow> bind_result (retry previous) (\<lambda>c.
                      case c of None \<Rightarrow> Inr None
                      | Some candidate \<Rightarrow> delivery_retry s i expected candidate)) (\<lambda>known.
     case known of
       Some receipt \<Rightarrow> Inr ((receipt, None), v, s)
     | None \<Rightarrow>
         bind_result (delivery_base s i expected) (\<lambda>base.
         bind_result (move base) (\<lambda>d.
         bind_result (record_delivery_locked env v s d True) (\<lambda>(receipt, v', s').
         Inr ((receipt, Some d), v', s')))))"

definition simple_transition :: "repo_env \<Rightarrow> vault \<Rightarrow> run_slot \<Rightarrow> uuid \<Rightarrow> int \<Rightarrow>
    (delivery_record \<Rightarrow> repo_error + delivery_record option) \<Rightarrow>
    (delivery_record \<Rightarrow> repo_error + delivery_record) \<Rightarrow>
    repo_error + delivery_receipt \<times> vault \<times> run_slot" where
  "simple_transition env v s i expected retry move =
     bind_result (transition_body env v s i expected retry move) (\<lambda>((receipt, _), v', s'). Inr (receipt, v', s'))"

section \<open>Claiming\<close>

definition claimed :: "claim_delivery_cmd \<Rightarrow> delivery_record \<Rightarrow> delivery_record" where
  "claimed cmd d = d\<lparr>dv_revision := dv_revision d + 1, dv_state := Delivery_CLAIMED,
     dv_claim_id := Some (cl_claim_id cmd), dv_attempt_id := None, dv_receipt := None, dv_outcome := None,
     dv_reason_code := None, dv_updated_at := cl_updated_at cmd\<rparr>"

definition claim_delivery_body :: "repo_env \<Rightarrow> vault \<Rightarrow> claim_delivery_cmd \<Rightarrow> run_slot \<Rightarrow>
    repo_error + delivery_receipt \<times> vault \<times> run_slot" where
  "claim_delivery_body env v cmd s =
     simple_transition env v s (cl_delivery_id cmd) (cl_expected_revision cmd)
       (\<lambda>previous.
          if dv_state previous \<notin> {Delivery_PENDING, Delivery_UNKNOWN} then Inr None
          else if dv_state previous = Delivery_UNKNOWN \<and> \<not> dv_adapter_deduplicates previous
          then Inl (InvalidDeliveryStateError ''claim_delivery'')
          else map_sum id Some (transition_delivery (claimed cmd previous) ''claim_delivery''))
       (\<lambda>base.
          if dv_state base \<notin> {Delivery_PENDING, Delivery_UNKNOWN}
          then Inl (InvalidDeliveryStateError ''claim_delivery'')
          else if dv_state base = Delivery_UNKNOWN \<and> \<not> dv_adapter_deduplicates base
          then Inl (InvalidDeliveryStateError ''claim_delivery'')
          else transition_delivery (claimed cmd base) ''claim_delivery'')"

definition claim_delivery :: "repo_env \<Rightarrow> vault \<Rightarrow> claim_delivery_cmd \<Rightarrow> (repo_error + delivery_receipt) \<times> vault" where
  "claim_delivery env v cmd = command_on_slot env v (valid_claim_delivery cmd) (Cmd_claim cmd) ''claim_delivery''
     (cl_run_id cmd) (claim_delivery_body env v cmd)"

section \<open>Attempting\<close>

definition attempting :: "begin_attempt_cmd \<Rightarrow> delivery_record \<Rightarrow> delivery_record" where
  "attempting cmd d = d\<lparr>dv_revision := dv_revision d + 1, dv_state := Delivery_ATTEMPTING,
     dv_attempt_count := dv_attempt_count d + 1, dv_attempt_id := Some (ba_attempt_id cmd),
     dv_updated_at := ba_updated_at cmd\<rparr>"

definition attempt_envelope_of :: "projection \<Rightarrow> delivery_record \<Rightarrow> repo_error + attempt_envelope" where
  "attempt_envelope_of p d =
     (case (dv_claim_id d, dv_attempt_id d, dict_get (pr_interventions p) (dv_intervention_id d)) of
        (Some claim, Some attempt, Some i) \<Rightarrow>
          (case iv_rendered_text i of
             None \<Rightarrow> Inl (ProjectionInvariantError ''delivery attempt has no grounded reminder'')
           | Some t \<Rightarrow>
               if dv_state d \<noteq> Delivery_ATTEMPTING
               then Inl (ProjectionInvariantError ''delivery attempt has no grounded reminder'')
               else
               let e = \<lparr>ae_delivery_id = dv_delivery_id d, ae_run_id = dv_run_id d, ae_cycle_id = dv_cycle_id d,
                     ae_intervention_id = dv_intervention_id d,
                     ae_rendered_text_digest = dv_rendered_text_digest d, ae_claim_id = claim,
                     ae_attempt_id = attempt, ae_attempt_number = dv_attempt_count d,
                     ae_target_request_id = dv_target_request_id d, ae_target = dv_target d,
                     ae_adapter_id = dv_adapter_id d, ae_adapter_deduplicates = dv_adapter_deduplicates d,
                     ae_adapter_deduplication_guarantee = dv_adapter_deduplication_guarantee d,
                     ae_adapter_supports_pre_action = dv_adapter_supports_pre_action d,
                     ae_adapter_contract_version = dv_adapter_contract_version d,
                     ae_adapter_capabilities_digest = dv_adapter_capabilities_digest d, ae_rendered_text = t\<rparr>
               in if valid_attempt_envelope e then Inr e else Inl (UnhandledError ''ValidationError''))
      | _ \<Rightarrow> Inl (ProjectionInvariantError ''delivery attempt has no grounded reminder''))"

definition attempt_receipt_of :: "delivery_receipt \<Rightarrow> attempt_envelope option \<Rightarrow> attempt_receipt" where
  "attempt_receipt_of r e = \<lparr>tr_appended = tr_appended r, tr_delivery = tr_delivery r,
     tr_record_tag = tr_record_tag r, tr_ledger_position = tr_ledger_position r,
     tr_chain_tag = tr_chain_tag r, tr_envelope = e\<rparr>"

text \<open>
  The source records and publishes the revision before it builds the receipt. Here a receipt that does
  not validate gives an error with the old slot; \<open>recorded_attempt_is_answered\<close> shows that a recorded
  revision always has a valid receipt, so that branch is never taken.
\<close>

definition begin_attempt_body :: "repo_env \<Rightarrow> vault \<Rightarrow> begin_attempt_cmd \<Rightarrow> run_slot \<Rightarrow>
    repo_error + attempt_receipt \<times> vault \<times> run_slot" where
  "begin_attempt_body env v cmd s =
     bind_result (transition_body env v s (ba_delivery_id cmd) (ba_expected_revision cmd)
       (\<lambda>previous.
          if dv_state previous \<noteq> Delivery_CLAIMED then Inr None
          else if dv_claim_id previous \<noteq> Some (ba_claim_id cmd) then Inl DeliveryOwnershipError
          else if (case dict_get (pr_deliveries (sl_projection s)) (ba_delivery_id cmd) of
                     None \<Rightarrow> False
                   | Some latest \<Rightarrow> dv_revision latest = ba_expected_revision cmd + 1 \<and>
                       dv_state latest = Delivery_ATTEMPTING \<and> dv_attempt_id latest \<noteq> Some (ba_attempt_id cmd))
          then Inl DeliveryOwnershipError
          else map_sum id Some (transition_delivery (attempting cmd previous) ''begin_delivery_attempt''))
       (\<lambda>base.
          if dv_state base \<noteq> Delivery_CLAIMED then Inl (InvalidDeliveryStateError ''begin_delivery_attempt'')
          else if dv_claim_id base \<noteq> Some (ba_claim_id cmd) then Inl DeliveryOwnershipError
          else bind_result (transition_delivery (attempting cmd base) ''begin_delivery_attempt'') (\<lambda>d.
               bind_result (attempt_envelope_of (sl_projection s) d) (\<lambda>_. Inr d))))
       (\<lambda>((receipt, moved), v', s').
     bind_result (case moved of
                    None \<Rightarrow> Inr None
                  | Some d \<Rightarrow> map_sum id Some (attempt_envelope_of (sl_projection s) d)) (\<lambda>envelope.
     let r = attempt_receipt_of receipt envelope in
     if valid_attempt_receipt r then Inr (r, v', s') else Inl (UnhandledError ''ValidationError'')))"

definition begin_delivery_attempt :: "repo_env \<Rightarrow> vault \<Rightarrow> begin_attempt_cmd \<Rightarrow>
    (repo_error + attempt_receipt) \<times> vault" where
  "begin_delivery_attempt env v cmd = command_on_slot env v (valid_begin_attempt cmd) (Cmd_attempt cmd)
     ''begin_delivery_attempt'' (ba_run_id cmd) (begin_attempt_body env v cmd)"

section \<open>Completing\<close>

definition completed :: "complete_delivery_cmd \<Rightarrow> delivery_record \<Rightarrow> delivery_record" where
  "completed cmd d = d\<lparr>dv_revision := dv_revision d + 1,
     dv_state := (if cd_outcome cmd = Outcome_DELIVERED then Delivery_DELIVERED else Delivery_FAILED),
     dv_receipt := map_option (\<lambda>i. JObj [(''provider_receipt_id'', JStr i)]) (cd_provider_receipt_id cmd),
     dv_outcome := Some (cd_outcome cmd),
     dv_reason_code := Some (if cd_outcome cmd = Outcome_DELIVERED then Reason_DELIVERY_SUCCEEDED
       else Reason_DELIVERY_FAILED),
     dv_updated_at := cd_updated_at cmd\<rparr>"

definition complete_delivery_body :: "repo_env \<Rightarrow> vault \<Rightarrow> complete_delivery_cmd \<Rightarrow> run_slot \<Rightarrow>
    repo_error + delivery_receipt \<times> vault \<times> run_slot" where
  "complete_delivery_body env v cmd s =
     (let owned = (\<lambda>d. dv_claim_id d = Some (cd_claim_id cmd) \<and> dv_attempt_id d = Some (cd_attempt_id cmd)) in
      simple_transition env v s (cd_delivery_id cmd) (cd_expected_revision cmd)
       (\<lambda>previous.
          if dv_state previous \<notin> {Delivery_ATTEMPTING, Delivery_UNKNOWN} then Inr None
          else if \<not> owned previous then Inl DeliveryOwnershipError
          else map_sum id Some (transition_delivery (completed cmd previous) ''complete_delivery''))
       (\<lambda>base.
          if dv_state base \<notin> {Delivery_ATTEMPTING, Delivery_UNKNOWN}
          then Inl (InvalidDeliveryStateError ''complete_delivery'')
          else if \<not> owned base then Inl DeliveryOwnershipError
          else transition_delivery (completed cmd base) ''complete_delivery''))"

definition complete_delivery :: "repo_env \<Rightarrow> vault \<Rightarrow> complete_delivery_cmd \<Rightarrow>
    (repo_error + delivery_receipt) \<times> vault" where
  "complete_delivery env v cmd = command_on_slot env v (valid_complete_delivery cmd) (Cmd_complete cmd)
     ''complete_delivery'' (cd_run_id cmd) (complete_delivery_body env v cmd)"

section \<open>Unknown outcomes\<close>

definition lost :: "timestamp \<Rightarrow> delivery_record \<Rightarrow> delivery_record" where
  "lost updated_at d = d\<lparr>dv_revision := dv_revision d + 1, dv_state := Delivery_UNKNOWN, dv_receipt := None,
     dv_outcome := Some Outcome_UNKNOWN, dv_reason_code := Some Reason_DELIVERY_UNKNOWN,
     dv_updated_at := updated_at\<rparr>"

definition mark_unknown_body :: "repo_env \<Rightarrow> vault \<Rightarrow> mark_unknown_cmd \<Rightarrow> run_slot \<Rightarrow>
    repo_error + delivery_receipt \<times> vault \<times> run_slot" where
  "mark_unknown_body env v cmd s =
     (let owned = (\<lambda>d. dv_claim_id d = Some (mk_claim_id cmd) \<and> dv_attempt_id d = Some (mk_attempt_id cmd)) in
      simple_transition env v s (mk_delivery_id cmd) (mk_expected_revision cmd)
       (\<lambda>previous.
          if dv_state previous \<noteq> Delivery_ATTEMPTING then Inr None
          else if \<not> owned previous then Inl DeliveryOwnershipError
          else map_sum id Some (transition_delivery (lost (mk_updated_at cmd) previous) ''mark_delivery_unknown''))
       (\<lambda>base.
          if dv_state base \<noteq> Delivery_ATTEMPTING then Inl (InvalidDeliveryStateError ''mark_delivery_unknown'')
          else if \<not> owned base then Inl DeliveryOwnershipError
          else transition_delivery (lost (mk_updated_at cmd) base) ''mark_delivery_unknown''))"

definition mark_delivery_unknown :: "repo_env \<Rightarrow> vault \<Rightarrow> mark_unknown_cmd \<Rightarrow>
    (repo_error + delivery_receipt) \<times> vault" where
  "mark_delivery_unknown env v cmd = command_on_slot env v (valid_mark_unknown cmd) (Cmd_unknown cmd)
     ''mark_delivery_unknown'' (mk_run_id cmd) (mark_unknown_body env v cmd)"

section \<open>Rejecting\<close>

definition rejected :: "reject_delivery_cmd \<Rightarrow> delivery_record \<Rightarrow> delivery_record" where
  "rejected cmd d = d\<lparr>dv_revision := dv_revision d + 1, dv_state := Delivery_REJECTED, dv_receipt := None,
     dv_outcome := Some Outcome_REFUSED, dv_reason_code := Some (rj_reason_code cmd),
     dv_updated_at := rj_updated_at cmd\<rparr>"

definition may_reject :: "reject_delivery_cmd \<Rightarrow> delivery_record \<Rightarrow> bool" where
  "may_reject cmd d =
     (if dv_state d = Delivery_PENDING then rj_claim_id cmd = None else dv_claim_id d = rj_claim_id cmd)"

definition reject_delivery_body :: "repo_env \<Rightarrow> vault \<Rightarrow> reject_delivery_cmd \<Rightarrow> run_slot \<Rightarrow>
    repo_error + delivery_receipt \<times> vault \<times> run_slot" where
  "reject_delivery_body env v cmd s =
     simple_transition env v s (rj_delivery_id cmd) (rj_expected_revision cmd)
       (\<lambda>previous.
          if dv_state previous \<notin> {Delivery_PENDING, Delivery_CLAIMED} then Inr None
          else if \<not> may_reject cmd previous then Inl DeliveryOwnershipError
          else map_sum id Some (transition_delivery (rejected cmd previous) ''reject_delivery''))
       (\<lambda>base.
          if dv_state base \<notin> {Delivery_PENDING, Delivery_CLAIMED}
          then Inl (InvalidDeliveryStateError ''reject_delivery'')
          else if \<not> may_reject cmd base then Inl DeliveryOwnershipError
          else transition_delivery (rejected cmd base) ''reject_delivery'')"

definition reject_delivery :: "repo_env \<Rightarrow> vault \<Rightarrow> reject_delivery_cmd \<Rightarrow>
    (repo_error + delivery_receipt) \<times> vault" where
  "reject_delivery env v cmd = command_on_slot env v (valid_reject_delivery cmd) (Cmd_reject cmd)
     ''reject_delivery'' (rj_run_id cmd) (reject_delivery_body env v cmd)"

section \<open>Recovery and reading\<close>

text \<open>Sorting by \<open>str(delivery_id)\<close> is sorting by the identifier's number.\<close>

definition sorted_deliveries :: "projection \<Rightarrow> delivery_record list" where
  "sorted_deliveries p = map snd (sort_key fst (pr_deliveries p))"

definition recover_delivery_step :: "repo_env \<Rightarrow> vault \<Rightarrow> timestamp \<Rightarrow> delivery_record \<Rightarrow>
    run_slot \<times> delivery_receipt list \<Rightarrow> repo_error + run_slot \<times> delivery_receipt list" where
  "recover_delivery_step env v recovered_at d = (\<lambda>(shadow, receipts).
     bind_result (transition_delivery (lost recovered_at d) ''recover_deliveries'') (\<lambda>u.
     bind_result (record_delivery_locked env v shadow u False) (\<lambda>(receipt, _, shadow').
     Inr (shadow', receipts @ [receipt]))))"

definition delivery_recovery_of :: "uuid \<Rightarrow> delivery_receipt list \<Rightarrow> delivery_record list \<Rightarrow> delivery_recovery" where
  "delivery_recovery_of run_id marked latest =
     \<lparr>dy_run_id = run_id, dy_marked_unknown = marked,
      dy_resumable_pending = filter (\<lambda>d. dv_state d = Delivery_PENDING) latest,
      dy_resumable_claimed = filter (\<lambda>d. dv_state d = Delivery_CLAIMED) latest,
      dy_retryable_unknown = filter (\<lambda>d. dv_state d = Delivery_UNKNOWN \<and> dv_adapter_deduplicates d) latest,
      dy_non_retryable_unknown =
        filter (\<lambda>d. dv_state d = Delivery_UNKNOWN \<and> \<not> dv_adapter_deduplicates d) latest\<rparr>"

definition recover_deliveries_body :: "repo_env \<Rightarrow> vault \<Rightarrow> timestamp \<Rightarrow> run_slot \<Rightarrow>
    repo_error + delivery_recovery \<times> vault \<times> run_slot" where
  "recover_deliveries_body env v recovered_at s =
     (let interrupted = filter (\<lambda>d. dv_state d = Delivery_ATTEMPTING) (sorted_deliveries (sl_projection s)) in
      if list_ex (\<lambda>d. recovered_at < dv_updated_at d) interrupted then Inl InvalidRecoveryTimeError
      else
      bind_result (fold_result (recover_delivery_step env v recovered_at) interrupted (s\<lparr>sl_append_leases := 0\<rparr>, []))
        (\<lambda>(shadow, marked).
      if marked = []
      then Inr (delivery_recovery_of (sl_run_id s) [] (sorted_deliveries (sl_projection s)), v, s)
      else case sl_head shadow of
             None \<Rightarrow> Inl (ProjectionInvariantError ''delivery recovery shadow is incomplete'')
           | Some head \<Rightarrow>
               Inr (delivery_recovery_of (sl_run_id s) marked (sorted_deliveries (sl_projection shadow)),
                 publish (sl_run_id s) head (sl_projection shadow) v,
                 shadow\<lparr>sl_append_leases := sl_append_leases s\<rparr>)))"

definition recover_deliveries :: "repo_env \<Rightarrow> vault \<Rightarrow> uuid \<Rightarrow> timestamp \<Rightarrow> (repo_error + delivery_recovery) \<times> vault" where
  "recover_deliveries env v run_id recovered_at =
     (case validate_run_id run_id of
        Inl e \<Rightarrow> (Inl e, v)
      | Inr _ \<Rightarrow> on_slot v run_id (\<lambda>s.
          bind_result (verify_head env v s True) (\<lambda>_. recover_deliveries_body env v recovered_at s)))"

definition read_delivery :: "repo_env \<Rightarrow> vault \<Rightarrow> uuid \<Rightarrow> uuid \<Rightarrow> repo_error + delivery_record" where
  "read_delivery env v run_id i =
     bind_result (validate_run_id run_id) (\<lambda>_.
     if \<not> uuid4 i then Inl DeliveryNotFoundError
     else bind_result (find_slot v run_id) (\<lambda>s.
     bind_result (verify_head env v s True) (\<lambda>_.
     case dict_get (pr_deliveries (sl_projection s)) i of
       None \<Rightarrow> Inl DeliveryNotFoundError
     | Some d \<Rightarrow> Inr d)))"

end
