(* ===== verification/Repository_Replay.thy ===== *)
theory Repository_Replay
  imports Repository_Batch Repository_Deliveries
begin

text \<open>
  Replaying a ledger: the projection digests, snapshots and searches (\<open>repository/projector.py\<close>),
  the authenticated replay of a durable ledger (\<open>_replay_run\<close>), its installation and its export,
  and \<open>rebuild\<close> (\<open>repository/memory.py\<close>).
\<close>

section \<open>Projection digests\<close>

definition uuid_key_json :: "uuid \<Rightarrow> json" where
  "uuid_key_json i = JObj [(''type'', JStr ''uuid''), (''value'', JStr (uuid_str i))]"

definition str_key_json :: "string \<Rightarrow> json" where
  "str_key_json s = JObj [(''type'', JStr ''str''), (''value'', JStr s)]"

definition int_key_json :: "int \<Rightarrow> json" where
  "int_key_json n = JObj [(''type'', JStr ''int''), (''value'', JInt n)]"

definition tuple_key_json :: "json list \<Rightarrow> json" where
  "tuple_key_json items = JObj [(''type'', JStr ''tuple''), (''items'', JArr items)]"

text \<open>\<open>text_of\<close> is \<open>str(key)\<close>, the order the entries are listed in; a tuple's text is its \<open>repr\<close>.\<close>

definition models_json :: "('k \<Rightarrow> string) \<Rightarrow> ('k \<Rightarrow> json) \<Rightarrow> ('v \<Rightarrow> json) \<Rightarrow> ('k, 'v) dict \<Rightarrow> json" where
  "models_json text_of key_json dump d =
     JArr (map (\<lambda>(k, v). JObj [(''key'', key_json k), (''record'', dump v)]) (sort_key (text_of \<circ> fst) d))"

definition index_json :: "('k \<Rightarrow> string) \<Rightarrow> ('v \<Rightarrow> json) \<Rightarrow> ('k, 'v) dict \<Rightarrow> json" where
  "index_json text_of dump d = JObj (map (\<lambda>(k, v). (text_of k, dump v)) (sort_key (text_of \<circ> fst) d))"

definition uuid_revision_text :: "uuid \<times> int \<Rightarrow> string" where
  "uuid_revision_text = (\<lambda>(i, n). ''(UUID('' @ [CHR 0x27] @ uuid_str i @ [CHR 0x27] @ ''), '' @ dec_str n @ '')'')"

definition str_revision_text :: "string \<times> int \<Rightarrow> string" where
  "str_revision_text = (\<lambda>(s, n). ''('' @ [CHR 0x27] @ s @ [CHR 0x27] @ '', '' @ dec_str n @ '')'')"

definition uuid_revision_key :: "uuid \<times> int \<Rightarrow> json" where
  "uuid_revision_key = (\<lambda>(i, n). tuple_key_json [uuid_key_json i, int_key_json n])"

definition str_revision_key :: "string \<times> int \<Rightarrow> json" where
  "str_revision_key = (\<lambda>(s, n). tuple_key_json [str_key_json s, int_key_json n])"

record projection_digests =
  pg_components :: "(string \<times> payload_digest) list"
  pg_overall :: payload_digest

definition events_component :: "repo_env \<Rightarrow> projection \<Rightarrow> json" where
  "events_component env p =
     (let dump = (\<lambda>e. en_dump env (Rec_event e)) in
      JObj [(''records'', JArr (map (dump \<circ> snd) (sort_key fst (pr_events_by_sequence p)))),
            (''id_index'', index_json uuid_str dump (pr_events_by_id p)),
            (''source_index'', index_json id dump (pr_events_by_source p)),
            (''positions'', index_json uuid_str JInt (pr_event_positions p))])"

definition memory_component :: "repo_env \<Rightarrow> projection \<Rightarrow> json" where
  "memory_component env p =
     JObj [(''history'', models_json uuid_revision_text uuid_revision_key (en_dump_memory env) (pr_memory_history p)),
           (''latest'', index_json uuid_str (en_dump_memory env) (pr_memories p)),
           (''current_private_status_id'',
             case pr_current_private_status_id p of None \<Rightarrow> JNull | Some i \<Rightarrow> JStr (uuid_str i))]"

definition cycles_component :: "repo_env \<Rightarrow> projection \<Rightarrow> json" where
  "cycles_component env p =
     (let dump = (\<lambda>c. en_dump env (Rec_cycle c)) in
      JObj [(''history'', models_json str_revision_text str_revision_key dump (pr_cycle_history p)),
            (''latest'', index_json id dump (pr_cycles p))])"

definition deliveries_component :: "repo_env \<Rightarrow> projection \<Rightarrow> json" where
  "deliveries_component env p =
     (let dump = (\<lambda>d. en_dump env (Rec_delivery d)) in
      JObj [(''history'', models_json uuid_revision_text uuid_revision_key dump (pr_delivery_history p)),
            (''latest'', index_json uuid_str dump (pr_deliveries p))])"

definition budgets_component :: "repo_env \<Rightarrow> projection \<Rightarrow> repo_error + json" where
  "budgets_component env p =
     bind_result (case pr_budget_limits p of
                    None \<Rightarrow> Inr JNull
                  | Some _ \<Rightarrow> map_sum id (en_dump_snapshot env) (budget_snapshot_of p None)) (\<lambda>snapshot.
     Inr (JObj [(''snapshot'', snapshot),
       (''cycles'', JArr (map (\<lambda>c. JObj [(''cycle_id'', JStr (cy_cycle_id c)), (''revision'', JInt (cy_revision c)),
          (''reservation'', en_dump_amounts env (cy_budget_reservation c)),
          (''settlement'', en_dump_amounts env (cy_budget_settlement c)),
          (''model_call_digests'', JArr (map JStr (cy_model_call_digests c))),
          (''model_call_latencies_us'', JArr (map JInt (cy_model_call_latencies_us c)))]) (sorted_cycles p)))]))"

definition digest_components :: "repo_env \<Rightarrow> projection \<Rightarrow> int \<Rightarrow> repo_error + (string \<times> json) list" where
  "digest_components env p ledger_position =
     bind_result (budgets_component env p) (\<lambda>budgets.
     Inr [(''events'', events_component env p), (''memory'', memory_component env p),
       (''signals'', models_json uuid_str uuid_key_json (\<lambda>s. en_dump env (Rec_signal s)) (pr_signals p)),
       (''decisions'', models_json uuid_str uuid_key_json (\<lambda>d. en_dump env (Rec_decision d)) (pr_decisions p)),
       (''cycles'', cycles_component env p),
       (''interventions'', models_json uuid_str uuid_key_json (en_dump_intervention env) (pr_interventions p)),
       (''budgets'', budgets),
       (''cursors'', JObj [(''ledger_position'', JInt ledger_position),
          (''ingestion_cursor'', JInt (pr_ingestion_cursor p)), (''memory_cursor'', JInt (pr_memory_cursor p))]),
       (''deliveries'', deliveries_component env p),
       (''outcomes'', models_json uuid_str uuid_key_json (\<lambda>out. en_dump env (Rec_outcome out)) (pr_outcomes p))])"

definition projection_digests_of :: "repo_env \<Rightarrow> projection \<Rightarrow> int \<Rightarrow> repo_error + projection_digests" where
  "projection_digests_of env p ledger_position =
     bind_result (digest_components env p ledger_position) (\<lambda>components.
     bind_result (map_result (\<lambda>(name, v). map_sum id (Pair name)
          (tag (en_integrity env) (''saliencegate:projection:'' @ name @ '':v1'') v)) components) (\<lambda>tags.
     bind_result (tag (en_integrity env) ''saliencegate:projection:overall:v1''
          (JObj (map (\<lambda>(name, t). (name, digest_json t)) tags))) (\<lambda>overall.
     Inr \<lparr>pg_components = tags, pg_overall = overall\<rparr>)))"

record memory_snapshot =
  ms_run_id :: uuid
  ms_ledger_position :: int
  ms_ingestion_cursor :: int
  ms_memory_cursor :: int
  ms_records :: "memory_record list"
  ms_projection_digest :: payload_digest

definition projection_snapshot :: "repo_env \<Rightarrow> projection \<Rightarrow> int \<Rightarrow> repo_error + memory_snapshot" where
  "projection_snapshot env p ledger_position =
     bind_result (projection_digests_of env p ledger_position) (\<lambda>digests.
     Inr \<lparr>ms_run_id = pr_run_id p, ms_ledger_position = ledger_position,
          ms_ingestion_cursor = pr_ingestion_cursor p, ms_memory_cursor = pr_memory_cursor p,
          ms_records = sort_key (\<lambda>m. memory_kind_value (mr_kind m))
            (sort_key mr_memory_id (dict_values (pr_memories p))),
          ms_projection_digest = pg_overall digests\<rparr>)"

section \<open>Searching memories\<close>

text \<open>
  Case folding and the word scanner are Unicode tables of the standard library: \<open>casefold\<close> is
  \<open>str.casefold\<close> and \<open>words\<close> is \<open>re.findall(r"\w+", _)\<close>. The score is the exact quotient.
\<close>

record memory_query =
  mq_run_id :: uuid
  mq_text :: "string option"
  mq_kinds :: "memory_kind list"
  mq_validity :: "validity_state list"
  mq_trust_labels :: "trust_label list"
  mq_limit :: int

definition valid_memory_query :: "memory_query \<Rightarrow> bool" where
  "valid_memory_query q \<longleftrightarrow> uuid4 (mq_run_id q) \<and>
     opt_all (\<lambda>t. 1 \<le> code_points t \<and> code_points t \<le> 1000) (mq_text q) \<and>
     1 \<le> mq_limit q \<and> mq_limit q \<le> 100"

record memory_hit =
  mh_memory :: memory_record
  mh_score :: rat
  mh_matched_terms :: "string list"

fun occurs_in :: "string \<Rightarrow> string \<Rightarrow> bool" where
  "occurs_in t [] = (t = [])"
| "occurs_in t (c # cs) = (take (length t) (c # cs) = t \<or> occurs_in t cs)"

definition query_terms :: "(string \<Rightarrow> string) \<Rightarrow> (string \<Rightarrow> string list) \<Rightarrow> memory_query \<Rightarrow> string list" where
  "query_terms casefold words q = (case mq_text q of None \<Rightarrow> [] | Some t \<Rightarrow> unique (words (casefold t)))"

definition search_hit :: "(string \<Rightarrow> string) \<Rightarrow> string list \<Rightarrow> memory_query \<Rightarrow> memory_record \<Rightarrow> memory_hit option" where
  "search_hit casefold terms q m =
     (let matched = filter (\<lambda>t. occurs_in t (casefold (mr_content m))) terms in
      if mq_kinds q \<noteq> [] \<and> mr_kind m \<notin> set (mq_kinds q) then None
      else if mr_validity m \<notin> set (mq_validity q) then None
      else if mq_trust_labels q \<noteq> [] \<and> mr_trust_label m \<notin> set (mq_trust_labels q) then None
      else if terms \<noteq> [] \<and> matched = [] then None
      else Some \<lparr>mh_memory = m,
             mh_score = (if terms = [] then 1 else of_nat (length matched) / of_nat (length terms)),
             mh_matched_terms = matched\<rparr>)"

definition search_projection :: "(string \<Rightarrow> string) \<Rightarrow> (string \<Rightarrow> string list) \<Rightarrow> projection \<Rightarrow> memory_query \<Rightarrow>
    memory_hit list" where
  "search_projection casefold words p q =
     take (nat (mq_limit q))
       (sort_key (\<lambda>h. - mh_score h) (sort_key (\<lambda>h. - mr_revision (mh_memory h))
         (sort_key (\<lambda>h. mr_memory_id (mh_memory h))
           (List.map_filter (search_hit casefold (query_terms casefold words q) q) (dict_values (pr_memories p))))))"

section \<open>Collision receipts of a projection\<close>

definition identity_fields :: "string list" where
  "identity_fields = [''schema_version'', ''timestamp'', ''event_type'', ''phase'', ''payload'', ''payload_digest'',
     ''parent_ids'', ''source_adapter'', ''trust_label'']"

definition str_items :: "json \<Rightarrow> string list option" where
  "str_items v = (case v of JArr xs \<Rightarrow> as_list as_str (JArr xs) | _ \<Rightarrow> None)"

definition collision_value :: "trace_event \<Rightarrow> string option" where
  "collision_value e =
     (if ev_event_type e \<noteq> Event_CONTROLLER_ERROR \<or> ev_phase e \<noteq> Phase_INTERNAL \<or>
         ev_source_adapter e \<noteq> ''saliencegate.repository'' \<or> ev_trust_label e \<noteq> Trust_TRUSTED_RUNTIME \<or>
         obj_get ''reason_code'' (ev_payload e) \<noteq> Some (JStr ''source_event_collision'') \<or>
         (case ev_payload e of
            JObj kvs \<Rightarrow> set (map fst kvs) \<noteq>
              {''reason_code'', ''existing_event_id'', ''collision_fingerprint'', ''differing_fields''}
          | _ \<Rightarrow> True)
      then None
      else case (obj_get ''collision_fingerprint'' (ev_payload e), obj_get ''differing_fields'' (ev_payload e)) of
             (Some (JObj fp), Some differing) \<Rightarrow>
               (case (dict_get fp ''value'', str_items differing) of
                  (Some (JStr value), Some names) \<Rightarrow>
                    if set (map fst fp) \<noteq> {''algorithm'', ''value''} \<or>
                       dict_get fp ''algorithm'' \<noteq> Some (JStr (algorithm_value (pd_algorithm (ev_payload_digest e)))) \<or>
                       \<not> sha256_digest value \<or> names = [] \<or> \<not> distinct names \<or>
                       \<not> set names \<subseteq> set identity_fields \<or> length (ev_parent_ids e) \<noteq> 1
                    then None else Some value
                | _ \<Rightarrow> None)
           | _ \<Rightarrow> None)"

definition collision_receipt_step :: "projection \<Rightarrow> trace_event \<Rightarrow> (digest, append_receipt) dict \<Rightarrow>
    repo_error + (digest, append_receipt) dict" where
  "collision_receipt_step p e receipts =
     (if take 23 (ev_source_event_id e) \<noteq> ''saliencegate:collision:'' then Inr receipts
      else let invalid = ProjectionInvariantError ''invalid collision audit event'' in
      case collision_value e of
        None \<Rightarrow> Inl invalid
      | Some value \<Rightarrow>
          if ev_source_event_id e \<noteq> ''saliencegate:collision:'' @ value then Inl invalid
          else case dict_get (pr_events_by_id p) (hd (ev_parent_ids e)) of
                 None \<Rightarrow> Inl invalid
               | Some existing \<Rightarrow>
                   if obj_get ''existing_event_id'' (ev_payload e) \<noteq> Some (JStr (uuid_str (ev_event_id existing))) \<or>
                      has_key receipts value
                   then Inl invalid
                   else case dict_get (pr_event_positions p) (ev_event_id existing) of
                          None \<Rightarrow> Inl (UnhandledError ''KeyError'')
                        | Some position \<Rightarrow>
                            let r = \<lparr>ar_disposition = Disposition_COLLISION, ar_event = existing,
                                  ar_ledger_position = position, ar_ingestion_cursor = ev_sequence e,
                                  ar_collision_event = Some e\<rparr>
                            in if valid_append_receipt r then Inr (dict_set value r receipts)
                               else Inl (UnhandledError ''ValidationError''))"

definition collision_receipts :: "projection \<Rightarrow> repo_error + (digest, append_receipt) dict" where
  "collision_receipts p = fold_result (collision_receipt_step p) (dict_values (pr_events_by_sequence p)) []"

section \<open>Replaying entries\<close>

record receipt_seed =
  se_record :: cycle_record
  se_record_tag :: payload_digest
  se_ledger_position :: int
  se_chain_tag :: payload_digest
  se_budget_snapshot :: budget_snapshot

record replay_state =
  rp_projection :: projection
  rp_chain_tag :: "payload_digest option"
  rp_projection_tag :: "payload_digest option"
  rp_position :: int
  rp_direct_records :: "(string \<times> uuid, direct_record) dict"
  rp_seeds :: "(digest \<times> int, receipt_seed) dict"
  rp_delivery_records :: "(uuid \<times> int, delivery_receipt) dict"

definition start_replay :: "uuid \<Rightarrow> replay_state" where
  "start_replay run_id = \<lparr>rp_projection = empty_projection run_id, rp_chain_tag = None, rp_projection_tag = None,
     rp_position = 1, rp_direct_records = [], rp_seeds = [], rp_delivery_records = []\<rparr>"

definition add_seed :: "ledger_entry \<Rightarrow> projection \<Rightarrow> (digest \<times> int, receipt_seed) dict \<Rightarrow>
    repo_error + (digest \<times> int, receipt_seed) dict" where
  "add_seed e p seeds =
     (case le_record e of
        Rec_cycle c \<Rightarrow> bind_result (budget_snapshot_of p None) (\<lambda>snapshot.
          Inr (dict_set (cy_cycle_id c, cy_revision c)
            \<lparr>se_record = c, se_record_tag = le_record_tag e, se_ledger_position = le_position e,
             se_chain_tag = le_chain_tag e, se_budget_snapshot = snapshot\<rparr> seeds))
      | _ \<Rightarrow> Inr seeds)"

definition add_delivery :: "ledger_entry \<Rightarrow> (uuid \<times> int, delivery_receipt) dict \<Rightarrow>
    (uuid \<times> int, delivery_receipt) dict" where
  "add_delivery e ds =
     (case le_record e of
        Rec_delivery d \<Rightarrow> dict_set (dv_delivery_id d, dv_revision d)
          \<lparr>tr_appended = True, tr_delivery = d, tr_record_tag = le_record_tag e,
           tr_ledger_position = le_position e, tr_chain_tag = le_chain_tag e\<rparr> ds
      | _ \<Rightarrow> ds)"

definition replay_entry :: "repo_env \<Rightarrow> ledger_entry \<Rightarrow> replay_state \<Rightarrow> repo_error + replay_state" where
  "replay_entry env e st =
     bind_result (verify_entry env e (rp_position st) (rp_chain_tag st)) (\<lambda>_.
     bind_result (apply_entry (en_hash env) (en_float env) (rp_projection st) e) (\<lambda>projected.
     bind_result (checkpoint_tag env e projected (rp_projection_tag st)) (\<lambda>t.
     bind_result (add_seed e projected (rp_seeds st)) (\<lambda>seeds.
     Inr \<lparr>rp_projection = projected, rp_chain_tag = Some (le_chain_tag e), rp_projection_tag = Some t,
          rp_position = rp_position st + 1, rp_direct_records = add_direct e (rp_direct_records st),
          rp_seeds = seeds, rp_delivery_records = add_delivery e (rp_delivery_records st)\<rparr>))))"

definition pending_by_cycle :: "projection \<Rightarrow> (digest, delivery_record) dict" where
  "pending_by_cycle p =
     fold (\<lambda>((i, revision), d) acc. if revision = 1 \<and> dv_delivery_id d = i then dict_set (dv_cycle_id d) d acc else acc)
       (pr_delivery_history p) []"

definition attached_receipt :: "projection \<Rightarrow> receipt_seed \<Rightarrow> cycle_receipt" where
  "attached_receipt p seed =
     \<lparr>cr_appended = True, cr_cycle = se_record seed, cr_record_tag = se_record_tag seed,
      cr_ledger_position = se_ledger_position seed, cr_chain_tag = se_chain_tag seed,
      cr_budget_snapshot = se_budget_snapshot seed,
      cr_delivery = (if cy_state (se_record seed) = Cycle_COMMITTED
                     then dict_get (pending_by_cycle p) (cy_cycle_id (se_record seed)) else None)\<rparr>"

definition attach_deliveries :: "repo_env \<Rightarrow> (digest \<times> int, receipt_seed) dict \<Rightarrow> projection \<Rightarrow>
    repo_error + (digest \<times> int, cycle_receipt) dict" where
  "attach_deliveries env seeds p =
     (let attached = map (\<lambda>(k, seed). (k, attached_receipt p seed)) seeds in
      if list_all (\<lambda>(k, r). valid_cycle_receipt (en_hash env) r) attached then Inr attached
      else Inl (UnhandledError ''ValidationError''))"

section \<open>The authenticated replay of a durable ledger\<close>

record replayed_run =
  ry_ledger :: "ledger_entry list"
  ry_head :: ledger_head
  ry_projection :: projection
  ry_digests :: projection_digests
  ry_direct_records :: "(string \<times> uuid, direct_record) dict"
  ry_cycle_records :: "(digest \<times> int, cycle_receipt) dict"
  ry_delivery_records :: "(uuid \<times> int, delivery_receipt) dict"
  ry_collision_receipts :: "(digest, append_receipt) dict"

text \<open>Inside the \<open>try\<close>, a \<open>DigestVerificationError\<close> is raised again, another repository or
  validation error becomes a \<open>RebuildError\<close>, and anything else escapes.\<close>

fun guard_rebuild :: "repo_error \<Rightarrow> repo_error" where
  "guard_rebuild (DigestVerificationError scope) = DigestVerificationError scope"
| "guard_rebuild (UnhandledError what) = (if what = ''ValidationError'' then RebuildError else UnhandledError what)"
| "guard_rebuild _ = RebuildError"

definition replay_owned :: "repo_env \<Rightarrow> uuid \<Rightarrow> ledger_entry \<Rightarrow> replay_state \<Rightarrow> repo_error + replay_state" where
  "replay_owned env run_id e st =
     (if le_run_id e \<noteq> run_id then Inl (DigestVerificationError ''durable ledger run'') else replay_entry env e st)"

definition finish_replay :: "repo_env \<Rightarrow> ledger_entry list \<Rightarrow> ledger_head \<Rightarrow> replay_state \<Rightarrow> repo_error + replayed_run" where
  "finish_replay env entries head st =
     (let p = rp_projection st in
      bind_result (validate_complete_projection p) (\<lambda>_.
      bind_result (attach_deliveries env (rp_seeds st) p) (\<lambda>cycles.
      if rp_projection_tag st \<noteq> Some (lh_projection_tag head)
      then Inl (DigestVerificationError ''durable projection head'')
      else
      bind_result (collision_receipts p) (\<lambda>collisions.
      bind_result (projection_digests_of env p (int (length entries))) (\<lambda>digests.
      Inr \<lparr>ry_ledger = entries, ry_head = head, ry_projection = p, ry_digests = digests,
           ry_direct_records = rp_direct_records st, ry_cycle_records = cycles,
           ry_delivery_records = rp_delivery_records st, ry_collision_receipts = collisions\<rparr>)))))"

definition replay_run :: "repo_env \<Rightarrow> ledger_entry list \<Rightarrow> ledger_head \<Rightarrow> repo_error + replayed_run" where
  "replay_run env entries head =
     (let run_id = lh_run_id head in
      if entries = [] \<or> \<not> valid_ledger_head head \<or>
         \<not> list_all (\<lambda>e. valid_ledger_entry e \<and> valid_ledger_record (en_hash env) (le_record e)) entries
      then Inl RebuildError
      else if lh_entry_count head \<noteq> int (length entries) \<or> le_run_id (last entries) \<noteq> run_id \<or>
              lh_chain_tag head \<noteq> le_chain_tag (last entries)
      then Inl (DigestVerificationError ''durable ledger head'')
      else
      bind_result (verify_head_tag env head) (\<lambda>ok.
      if \<not> ok then Inl (DigestVerificationError ''durable ledger head'')
      else map_sum guard_rebuild id
        (bind_result (fold_result (replay_owned env run_id) entries (start_replay run_id))
           (finish_replay env entries head))))"

definition installed_slot :: "replayed_run \<Rightarrow> run_slot" where
  "installed_slot r = \<lparr>sl_run_id = lh_run_id (ry_head r), sl_ledger = ry_ledger r, sl_head = Some (ry_head r),
     sl_projection = ry_projection r, sl_direct_records = ry_direct_records r,
     sl_cycle_records = ry_cycle_records r, sl_delivery_records = ry_delivery_records r,
     sl_collision_receipts = ry_collision_receipts r, sl_append_leases = 0\<rparr>"

definition restore_run :: "repo_env \<Rightarrow> vault \<Rightarrow> ledger_entry list \<Rightarrow> ledger_head \<Rightarrow> (repo_error + replayed_run) \<times> vault" where
  "restore_run env v entries head =
     (case replay_run env entries head of
        Inl e \<Rightarrow> (Inl e, v)
      | Inr r \<Rightarrow>
          (let run_id = lh_run_id (ry_head r) in
           if has_key (va_slots v) run_id \<or> has_key (va_trusted_heads v) run_id
           then (Inl (ProjectionInvariantError ''durable run is already installed''), v)
           else (Inr r, publish run_id (ry_head r) (ry_projection r) (store_slot (installed_slot r) v))))"

text \<open>
  The digests of the live projection raise repository errors, which pass, and \<open>ValueError\<close>s, among
  them pydantic's and the serializer's, which are caught.
\<close>

fun live_failure :: "repo_error \<Rightarrow> repo_error" where
  "live_failure (UnhandledError what) = DigestVerificationError ''live projection''"
| "live_failure e = e"

definition verified_state :: "repo_env \<Rightarrow> vault \<Rightarrow> uuid \<Rightarrow> repo_error + replayed_run" where
  "verified_state env v run_id =
     bind_result (validate_run_id run_id) (\<lambda>_.
     bind_result (find_slot v run_id) (\<lambda>s.
     bind_result (verify_ledger env v s) (\<lambda>_.
     case sl_head s of
       None \<Rightarrow> Inl (DigestVerificationError ''verified run state'')
     | Some head \<Rightarrow>
         bind_result (replay_run env (sl_ledger s) head) (\<lambda>replayed.
         bind_result (map_sum live_failure id
             (projection_digests_of env (sl_projection s) (int (length (sl_ledger s))))) (\<lambda>live.
         if live \<noteq> ry_digests replayed then Inl (DigestVerificationError ''live projection'')
         else Inr replayed)))))"

section \<open>Rebuilding\<close>

record rebuild_receipt =
  rb_run_id :: uuid
  rb_entries_replayed :: int
  rb_before :: "projection_digests option"
  rb_after :: projection_digests
  rb_equivalent :: bool

definition rebuild_slot :: "repo_env \<Rightarrow> vault \<Rightarrow> run_slot \<Rightarrow> repo_error + projection_digests \<times> run_slot" where
  "rebuild_slot env v s =
     bind_result (verify_head env v s False) (\<lambda>_.
     bind_result (fold_result (replay_entry env) (sl_ledger s) (start_replay (sl_run_id s))) (\<lambda>st.
     bind_result (validate_complete_projection (rp_projection st)) (\<lambda>_.
     bind_result (attach_deliveries env (rp_seeds st) (rp_projection st)) (\<lambda>cycles.
     bind_result (projection_digests_of env (rp_projection st) (int (length (sl_ledger s)))) (\<lambda>after.
     if rp_projection_tag st \<noteq> map_option lh_projection_tag (sl_head s)
     then Inl (DigestVerificationError ''projection head'')
     else
     bind_result (collision_receipts (rp_projection st)) (\<lambda>collisions.
     Inr (after, s\<lparr>sl_projection := rp_projection st, sl_direct_records := rp_direct_records st,
       sl_cycle_records := cycles, sl_delivery_records := rp_delivery_records st,
       sl_collision_receipts := collisions\<rparr>)))))))"

text \<open>Only repository and validation errors are turned into the \<open>RebuildError\<close>.\<close>

fun rebuild_failure :: "repo_error \<Rightarrow> repo_error" where
  "rebuild_failure (UnhandledError what) = (if what = ''ValidationError'' then RebuildError else UnhandledError what)"
| "rebuild_failure _ = RebuildError"

definition digests_before :: "repo_env \<Rightarrow> run_slot \<Rightarrow> repo_error + projection_digests option" where
  "digests_before env s =
     (case projection_digests_of env (sl_projection s) (int (length (sl_ledger s))) of
        Inl (UnhandledError what) \<Rightarrow> Inr None
      | Inl e \<Rightarrow> Inl e
      | Inr d \<Rightarrow> Inr (Some d))"

definition rebuild_body :: "repo_env \<Rightarrow> vault \<Rightarrow> run_slot \<Rightarrow> repo_error + rebuild_receipt \<times> vault \<times> run_slot" where
  "rebuild_body env v s =
     bind_result (digests_before env s) (\<lambda>before.
      bind_result (map_sum rebuild_failure id (rebuild_slot env v s)) (\<lambda>(after, s').
      Inr (\<lparr>rb_run_id = sl_run_id s, rb_entries_replayed = int (length (sl_ledger s)), rb_before = before,
            rb_after = after, rb_equivalent = (before = Some after)\<rparr>,
        v\<lparr>va_trusted_projections := dict_set (sl_run_id s) (sl_projection s') (va_trusted_projections v)\<rparr>, s')))"

definition rebuild :: "repo_env \<Rightarrow> vault \<Rightarrow> uuid \<Rightarrow> (repo_error + rebuild_receipt) \<times> vault" where
  "rebuild env v run_id =
     (case validate_run_id run_id of
        Inl e \<Rightarrow> (Inl e, v)
      | Inr _ \<Rightarrow> on_slot v run_id (rebuild_body env v))"

section \<open>Reading a run\<close>

definition read_ledger :: "repo_env \<Rightarrow> vault \<Rightarrow> uuid \<Rightarrow> repo_error + ledger_entry list" where
  "read_ledger env v run_id =
     bind_result (validate_run_id run_id) (\<lambda>_.
     bind_result (find_slot v run_id) (\<lambda>s.
     bind_result (verify_ledger env v s) (\<lambda>_. Inr (sl_ledger s))))"

definition read_ledger_head :: "repo_env \<Rightarrow> vault \<Rightarrow> uuid \<Rightarrow> repo_error + ledger_head" where
  "read_ledger_head env v run_id =
     bind_result (validate_run_id run_id) (\<lambda>_.
     bind_result (find_slot v run_id) (\<lambda>s.
     bind_result (verify_ledger env v s) (\<lambda>_.
     case sl_head s of None \<Rightarrow> Inl (DigestVerificationError ''durable ledger head'') | Some h \<Rightarrow> Inr h)))"

definition read_snapshot :: "repo_env \<Rightarrow> vault \<Rightarrow> uuid \<Rightarrow> repo_error + memory_snapshot" where
  "read_snapshot env v run_id =
     bind_result (validate_run_id run_id) (\<lambda>_.
     bind_result (find_slot v run_id) (\<lambda>s.
     bind_result (verify_head env v s True) (\<lambda>_.
     projection_snapshot env (sl_projection s) (int (length (sl_ledger s))))))"

definition search_memories :: "repo_env \<Rightarrow> (string \<Rightarrow> string) \<Rightarrow> (string \<Rightarrow> string list) \<Rightarrow> vault \<Rightarrow> memory_query \<Rightarrow>
    repo_error + memory_hit list" where
  "search_memories env casefold words v q =
     (if \<not> valid_memory_query q then Inl InvalidQueryError
      else bind_result (find_slot v (mq_run_id q)) (\<lambda>s.
      bind_result (verify_head env v s True) (\<lambda>_.
      Inr (search_projection casefold words (sl_projection s) q))))"

end
