(* ===== verification/Repository_Invariants.thy ===== *)
theory Repository_Invariants
  imports Repository_Replay Reminder_Invariants Budget_Ledger
begin

text \<open>
  The invariant of a run slot: replaying its ledger from the start gives exactly its projection,
  its tags and its receipt caches, and its head authenticates the ledger. A step that appends one
  staged entry keeps it, and every operation of the repository is a chain of such steps.
\<close>

section \<open>The slot invariant\<close>

definition seed_of :: "cycle_receipt \<Rightarrow> receipt_seed" where
  "seed_of r = \<lparr>se_record = cr_cycle r, se_record_tag = cr_record_tag r, se_ledger_position = cr_ledger_position r,
     se_chain_tag = cr_chain_tag r, se_budget_snapshot = cr_budget_snapshot r\<rparr>"

definition seeds_of :: "run_slot \<Rightarrow> (digest \<times> int, receipt_seed) dict" where
  "seeds_of s = map (\<lambda>(k, r). (k, seed_of r)) (sl_cycle_records s)"

definition replay_matches :: "replay_state \<Rightarrow> run_slot \<Rightarrow> bool" where
  "replay_matches st s \<longleftrightarrow> rp_projection st = sl_projection s \<and>
     rp_chain_tag st = last_chain_tag (sl_ledger s) \<and>
     rp_projection_tag st = map_option lh_projection_tag (sl_head s) \<and>
     rp_position st = int (length (sl_ledger s)) + 1 \<and>
     rp_direct_records st = sl_direct_records s \<and> rp_seeds st = seeds_of s \<and>
     rp_delivery_records st = sl_delivery_records s"

definition head_ok :: "repo_env \<Rightarrow> run_slot \<Rightarrow> bool" where
  "head_ok env s \<longleftrightarrow>
     (case sl_head s of
        None \<Rightarrow> sl_ledger s = []
      | Some h \<Rightarrow> sl_ledger s \<noteq> [] \<and> lh_run_id h = sl_run_id s \<and> lh_entry_count h = int (length (sl_ledger s)) \<and>
          Some (lh_chain_tag h) = last_chain_tag (sl_ledger s) \<and> valid_ledger_head h \<and>
          verify_head_tag env h = Inr True)"

definition entry_ok :: "repo_env \<Rightarrow> uuid \<Rightarrow> ledger_entry \<Rightarrow> bool" where
  "entry_ok env run_id e \<longleftrightarrow>
     valid_ledger_entry e \<and> valid_ledger_record (en_hash env) (le_record e) \<and> le_run_id e = run_id"

definition slot_ok :: "repo_env \<Rightarrow> run_slot \<Rightarrow> bool" where
  "slot_ok env s \<longleftrightarrow>
     (\<exists>st. fold_result (replay_entry env) (sl_ledger s) (start_replay (sl_run_id s)) = Inr st \<and> replay_matches st s) \<and>
     head_ok env s \<and> list_all (entry_ok env (sl_run_id s)) (sl_ledger s)"

lemma slot_ok_leases [simp]: "slot_ok env (s\<lparr>sl_append_leases := n\<rparr>) = slot_ok env s"
  by (simp add: slot_ok_def replay_matches_def head_ok_def seeds_of_def cong: option.case_cong)

lemma slot_ok_collisions [simp]: "slot_ok env (s\<lparr>sl_collision_receipts := c\<rparr>) = slot_ok env s"
  by (simp add: slot_ok_def replay_matches_def head_ok_def seeds_of_def cong: option.case_cong)

lemma slot_ok_new: "slot_ok env (new_slot run_id)"
  by (simp add: slot_ok_def new_slot_def replay_matches_def start_replay_def last_chain_tag_def seeds_of_def head_ok_def)

section \<open>Writing one entry\<close>

text \<open>The caches of a slot after an entry, as the replay of the entry computes them.\<close>

definition written :: "repo_env \<Rightarrow> run_slot \<Rightarrow> ledger_record \<Rightarrow> run_slot \<Rightarrow> bool" where
  "written env s r s' \<longleftrightarrow> valid_ledger_record (en_hash env) r \<and>
     (\<exists>entry p head. stage_entry env s r = Inr (entry, p, head) \<and>
        sl_run_id s' = sl_run_id s \<and> sl_ledger s' = sl_ledger s @ [entry] \<and> sl_head s' = Some head \<and>
        sl_projection s' = p \<and> sl_direct_records s' = add_direct entry (sl_direct_records s) \<and>
        sl_delivery_records s' = add_delivery entry (sl_delivery_records s) \<and>
        add_seed entry p (seeds_of s) = Inr (seeds_of s'))"

lemma stage_entry_Inr:
  assumes "stage_entry env s r = Inr (entry, p, head)"
  shows "le_run_id entry = sl_run_id s" and "le_record entry = r" and "valid_ledger_entry entry"
    and "verify_entry env entry (int (length (sl_ledger s)) + 1) (last_chain_tag (sl_ledger s)) = Inr ()"
    and "apply_entry (en_hash env) (en_float env) (sl_projection s) entry = Inr p"
    and "checkpoint_tag env entry p (map_option lh_projection_tag (sl_head s)) = Inr (lh_projection_tag head)"
    and "lh_run_id head = sl_run_id s" and "lh_entry_count head = int (length (sl_ledger s)) + 1"
    and "lh_chain_tag head = le_chain_tag entry" and "valid_ledger_head head" and "verify_head_tag env head = Inr True"
    and "le_position entry = int (length (sl_ledger s)) + 1"
  using assms
  by (auto simp: stage_entry_def new_entry_def new_head_def Let_def result_simps verify_head_tag_def
      verify_tag_Inr_True split: if_splits)

lemma written_ok:
  assumes ok: "slot_ok env s" and w: "written env s r s'"
  shows "slot_ok env s'"
proof -
  from w obtain entry p head where stage: "stage_entry env s r = Inr (entry, p, head)"
    and valid: "valid_ledger_record (en_hash env) r"
    and s': "sl_run_id s' = sl_run_id s" "sl_ledger s' = sl_ledger s @ [entry]" "sl_head s' = Some head"
      "sl_projection s' = p" "sl_direct_records s' = add_direct entry (sl_direct_records s)"
      "sl_delivery_records s' = add_delivery entry (sl_delivery_records s)"
      "add_seed entry p (seeds_of s) = Inr (seeds_of s')"
    unfolding written_def by blast
  note e = stage_entry_Inr [OF stage]
  from ok obtain st where st: "fold_result (replay_entry env) (sl_ledger s) (start_replay (sl_run_id s)) = Inr st"
    "replay_matches st s"
    unfolding slot_ok_def by blast
  define st' where "st' = \<lparr>rp_projection = p, rp_chain_tag = Some (le_chain_tag entry),
      rp_projection_tag = Some (lh_projection_tag head), rp_position = rp_position st + 1,
      rp_direct_records = add_direct entry (rp_direct_records st), rp_seeds = seeds_of s',
      rp_delivery_records = add_delivery entry (rp_delivery_records st)\<rparr>"
  have "replay_entry env entry st = Inr st'"
    using st(2) e s'(7) by (simp add: replay_entry_def replay_matches_def st'_def add.commute)
  then have "fold_result (replay_entry env) (sl_ledger s') (start_replay (sl_run_id s')) = Inr st'"
    using st(1) s'(1,2) by (simp add: fold_result_append)
  moreover have "replay_matches st' s'"
    using st(2) s' by (simp add: replay_matches_def st'_def last_chain_tag_def)
  moreover have "head_ok env s'"
    using s'(1-3) e by (simp add: head_ok_def last_chain_tag_def)
  moreover have "list_all (entry_ok env (sl_run_id s')) (sl_ledger s')"
    using ok s'(1,2) e valid by (simp add: slot_ok_def entry_ok_def)
  ultimately show ?thesis unfolding slot_ok_def by blast
qed

text \<open>A chain of written entries.\<close>

inductive grows :: "repo_env \<Rightarrow> run_slot \<Rightarrow> run_slot \<Rightarrow> bool" for env :: repo_env where
  grows_refl: "grows env s s"
| grows_write: "grows env s s' \<Longrightarrow> written env s' r s'' \<Longrightarrow> grows env s s''"
| grows_collisions: "grows env s s' \<Longrightarrow> grows env s (s'\<lparr>sl_collision_receipts := c\<rparr>)"
| grows_leases: "grows env s s' \<Longrightarrow> grows env s (s'\<lparr>sl_append_leases := n\<rparr>)"

lemma grows_trans: "grows env s' s'' \<Longrightarrow> grows env s s' \<Longrightarrow> grows env s s''"
  by (induction rule: grows.induct) (auto intro: grows.intros)

lemma written_grows: "written env s r s' \<Longrightarrow> grows env s s'"
  by (rule grows_write [OF grows_refl])

lemma grows_ok: "grows env s s' \<Longrightarrow> slot_ok env s \<Longrightarrow> slot_ok env s'"
  by (induction rule: grows.induct) (auto intro: written_ok)

lemma grows_ledger: "grows env s s' \<Longrightarrow> \<exists>es. sl_ledger s' = sl_ledger s @ es"
  by (induction rule: grows.induct) (auto simp: written_def)

lemma grows_run: "grows env s s' \<Longrightarrow> sl_run_id s' = sl_run_id s"
  by (induction rule: grows.induct) (auto simp: written_def)

section \<open>Every operation is a chain of written entries\<close>

text \<open>What a body does to the vault and its slot: nothing, or a chain of entries it publishes.\<close>

definition advanced :: "repo_env \<Rightarrow> vault \<Rightarrow> run_slot \<Rightarrow> vault \<Rightarrow> run_slot \<Rightarrow> bool" where
  "advanced env v s v' s' \<longleftrightarrow> grows env s s' \<and> sl_append_leases s' = sl_append_leases s \<and>
     (v' = v \<and> s' = s \<or> (\<exists>h. sl_head s' = Some h \<and> v' = publish (sl_run_id s) h (sl_projection s') v))"

lemma advanced_refl [simp]: "advanced env v s v s"
  by (simp add: advanced_def grows_refl)

lemma extend_slot_sel [simp]:
  "sl_run_id (extend_slot entry p head s) = sl_run_id s"
  "sl_ledger (extend_slot entry p head s) = sl_ledger s @ [entry]"
  "sl_head (extend_slot entry p head s) = Some head" "sl_projection (extend_slot entry p head s) = p"
  "sl_direct_records (extend_slot entry p head s) = sl_direct_records s"
  "sl_cycle_records (extend_slot entry p head s) = sl_cycle_records s"
  "sl_delivery_records (extend_slot entry p head s) = sl_delivery_records s"
  "sl_collision_receipts (extend_slot entry p head s) = sl_collision_receipts s"
  "sl_append_leases (extend_slot entry p head s) = sl_append_leases s"
  by (simp_all add: extend_slot_def)

lemma seeds_of_extend [simp]: "seeds_of (extend_slot entry p head s) = seeds_of s"
  by (simp add: seeds_of_def)

lemma make_trace_event_Inr: "make_trace_event r n given made = Inr e \<Longrightarrow> valid_trace_event e"
  by (auto simp: make_trace_event_def result_simps Let_def split: if_splits)

lemma written_event:
  assumes "stage_entry env s (Rec_event e) = Inr (entry, p, head)" and "valid_trace_event e"
  shows "written env s (Rec_event e) (extend_slot entry p head s)"
  using assms stage_entry_Inr(2) [OF assms(1)]
  by (simp add: written_def valid_ledger_record_def add_direct_def direct_from_entry_def add_delivery_def add_seed_def)

lemma append_new_event_advanced:
  assumes "append_new_event env v s draft redacted i made publishing = Inr (r, v', s')"
  shows "grows env s s'" and "sl_append_leases s' = sl_append_leases s" and "publishing \<Longrightarrow> advanced env v s v' s'"
proof -
  from assms obtain e entry p head where e: "make_trace_event redacted (pr_ingestion_cursor (sl_projection s) + 1) i made = Inr e"
    and stage: "stage_entry env s (Rec_event e) = Inr (entry, p, head)"
    and s': "s' = extend_slot entry p head s" "v' = (if publishing then publish (sl_run_id s) head p v else v)"
    by (auto simp: append_new_event_def Let_def result_simps split: if_splits)
  show g: "grows env s s'"
    unfolding s'(1) by (rule written_grows, rule written_event [OF stage make_trace_event_Inr [OF e]])
  show "sl_append_leases s' = sl_append_leases s" by (simp add: s')
  show "publishing \<Longrightarrow> advanced env v s v' s'" using g by (simp add: advanced_def s')
qed

lemma advanced_collision:
  assumes "stage_entry env s (Rec_event e) = Inr (entry, p, head)" and "valid_trace_event e"
  shows "advanced env v s (publish (sl_run_id s) head p v) ((extend_slot entry p head s)\<lparr>sl_collision_receipts := c\<rparr>)"
  using grows_collisions [OF written_grows [OF written_event [OF assms]]] by (simp add: advanced_def)

lemma record_collision_advanced:
  assumes "record_collision env v s existing incoming made = Inr (r, v', s')"
  shows "advanced env v s v' s'"
proof -
  have "advanced env v s v' s'" if "record_new_collision env v s existing incoming fp made = Inr (r, v', s')" for fp
    using that by (auto simp: record_new_collision_def Let_def bind_result_Inr split: if_splits
        dest: make_trace_event_Inr intro: advanced_collision)
  with assms show ?thesis by (auto simp: record_collision_def bind_result_Inr split: option.splits)
qed

lemma append_to_slot_advanced:
  assumes "append_to_slot env v s draft redacted i made = Inr (r, v', s')"
  shows "advanced env v s v' s'"
  using assms
  by (auto simp: append_to_slot_def result_simps split: option.splits if_splits
      intro: append_new_event_advanced(3) record_collision_advanced)

lemma append_conditional_grows:
  assumes "append_conditional env v s draft redacted i publishing = Inr (r, v', s')"
  shows "grows env s s'" and "sl_append_leases s' = sl_append_leases s" and "publishing \<Longrightarrow> advanced env v s v' s'"
  using assms
  by (auto simp: append_conditional_def result_simps split: option.splits if_splits
      intro: append_new_event_advanced grows_refl)

lemma written_direct:
  assumes "stage_entry env s r = Inr (entry, p, head)" and "valid_ledger_record (en_hash env) r"
    and "direct_key r = Some (operation, i)"
  shows "written env s r ((extend_slot entry p head s)\<lparr>sl_direct_records :=
      dict_set (operation, i) \<lparr>dc_record = r, dc_receipt = \<lparr>lr_appended = True, lr_record_id = i,
        lr_record_tag = le_record_tag entry, lr_ledger_position = le_position entry,
        lr_chain_tag = le_chain_tag entry\<rparr>\<rparr> (sl_direct_records s)\<rparr>)"
  using assms stage_entry_Inr(2) [OF assms(1)]
  by (cases r) (auto simp: written_def add_direct_def direct_from_entry_def add_delivery_def add_seed_def seeds_of_def)

lemma record_direct_locked_grows:
  assumes "record_direct_locked env v s r operation i verifying publishing = Inr (receipt, v', s')"
    and "valid_ledger_record (en_hash env) r" and "direct_key r = Some (operation, i)"
  shows "grows env s s'" and "sl_append_leases s' = sl_append_leases s" and "publishing \<Longrightarrow> advanced env v s v' s'"
proof -
  have "grows env s s' \<and> sl_append_leases s' = sl_append_leases s \<and> (publishing \<longrightarrow> advanced env v s v' s')"
  proof (cases "dict_get (sl_direct_records s) (operation, i)")
    case None
    with assms(1) obtain entry p head where stage: "stage_entry env s r = Inr (entry, p, head)"
      and new: "v' = (if publishing then publish (sl_run_id s) head p v else v)"
      "s' = (extend_slot entry p head s)\<lparr>sl_direct_records :=
         dict_set (operation, i) \<lparr>dc_record = r, dc_receipt = \<lparr>lr_appended = True, lr_record_id = i,
           lr_record_tag = le_record_tag entry, lr_ledger_position = le_position entry,
           lr_chain_tag = le_chain_tag entry\<rparr>\<rparr> (sl_direct_records s)\<rparr>"
      unfolding record_direct_locked_def by (force simp: Let_def bind_result_Inr split: if_splits)
    note g = written_grows [OF written_direct [OF stage assms(2,3)]]
    show ?thesis using g unfolding new advanced_def by simp
  next
    case (Some x)
    with assms(1) have "v' = v" "s' = s"
      unfolding record_direct_locked_def by (auto simp: bind_result_Inr split: if_splits)
    then show ?thesis by (simp add: grows_refl)
  qed
  then show "grows env s s'" "sl_append_leases s' = sl_append_leases s" "publishing \<Longrightarrow> advanced env v s v' s'"
    by simp_all
qed

lemma map_dict_set: "map (\<lambda>(k, r). (k, f r)) (dict_set k v d) = dict_set k (f v) (map (\<lambda>(k, r). (k, f r)) d)"
  unfolding dict_set_def by (induction d) auto

definition new_cycle_receipt :: "ledger_entry \<Rightarrow> cycle_record \<Rightarrow> budget_snapshot \<Rightarrow> delivery_record option \<Rightarrow> cycle_receipt" where
  "new_cycle_receipt entry c snapshot delivery = \<lparr>cr_appended = True, cr_cycle = c,
     cr_record_tag = le_record_tag entry, cr_ledger_position = le_position entry,
     cr_chain_tag = le_chain_tag entry, cr_budget_snapshot = snapshot, cr_delivery = delivery\<rparr>"

lemma written_cycle:
  assumes "stage_entry env s (Rec_cycle c) = Inr (entry, p, head)" and "valid_cycle_record (en_hash env) c"
    and "budget_snapshot_of p None = Inr snapshot"
  shows "written env s (Rec_cycle c) ((extend_slot entry p head s)\<lparr>sl_cycle_records :=
      dict_set (cy_cycle_id c, cy_revision c) (new_cycle_receipt entry c snapshot delivery) (sl_cycle_records s)\<rparr>)"
  using assms stage_entry_Inr(2) [OF assms(1)]
  by (simp add: written_def valid_ledger_record_def add_direct_def direct_from_entry_def add_delivery_def
      add_seed_def seeds_of_def map_dict_set new_cycle_receipt_def seed_of_def)

lemma record_cycle_locked_Inr:
  assumes "record_cycle_locked env v s c publishing delivery = Inr (receipt, v', s')"
  obtains (known) existing where "dict_get (sl_cycle_records s) (cy_cycle_id c, cy_revision c) = Some existing"
      "cr_cycle existing = c" "receipt = existing\<lparr>cr_appended := False\<rparr>" "v' = v" "s' = s"
  | (new) entry p head snapshot where "dict_get (sl_cycle_records s) (cy_cycle_id c, cy_revision c) = None"
      "stage_entry env s (Rec_cycle c) = Inr (entry, p, head)" "budget_snapshot_of p None = Inr snapshot"
      "receipt = new_cycle_receipt entry c snapshot delivery"
      "v' = (if publishing then publish (sl_run_id s) head p v else v)"
      "s' = (extend_slot entry p head s)\<lparr>sl_cycle_records :=
         dict_set (cy_cycle_id c, cy_revision c) receipt (sl_cycle_records s)\<rparr>"
proof (cases "dict_get (sl_cycle_records s) (cy_cycle_id c, cy_revision c)")
  case None
  with assms show ?thesis
    by (auto simp: record_cycle_locked_def Let_def bind_result_Inr new_cycle_receipt_def split: if_splits intro: new)
next
  case (Some existing)
  with assms show ?thesis
    by (auto simp: record_cycle_locked_def Let_def split: if_splits intro: known)
qed

lemma record_cycle_locked_grows:
  assumes "record_cycle_locked env v s c publishing delivery = Inr (receipt, v', s')"
    and "valid_cycle_record (en_hash env) c"
  shows "grows env s s'" and "sl_append_leases s' = sl_append_leases s" and "publishing \<Longrightarrow> advanced env v s v' s'"
proof -
  from assms(1) have "grows env s s' \<and> sl_append_leases s' = sl_append_leases s \<and> (publishing \<longrightarrow> advanced env v s v' s')"
  proof (cases rule: record_cycle_locked_Inr)
    case (new entry p head snapshot)
    note g = written_grows [OF written_cycle [OF new(2) assms(2) new(3), of delivery]]
    show ?thesis using g unfolding new(4-6) advanced_def by simp
  qed (simp add: grows_refl)
  then show "grows env s s'" "sl_append_leases s' = sl_append_leases s" "publishing \<Longrightarrow> advanced env v s v' s'"
    by simp_all
qed

definition new_delivery_receipt :: "ledger_entry \<Rightarrow> delivery_record \<Rightarrow> delivery_receipt" where
  "new_delivery_receipt entry d = \<lparr>tr_appended = True, tr_delivery = d, tr_record_tag = le_record_tag entry,
     tr_ledger_position = le_position entry, tr_chain_tag = le_chain_tag entry\<rparr>"

lemma written_delivery:
  assumes "stage_entry env s (Rec_delivery d) = Inr (entry, p, head)" and "valid_delivery_record d"
  shows "written env s (Rec_delivery d) ((extend_slot entry p head s)\<lparr>sl_delivery_records :=
      dict_set (dv_delivery_id d, dv_revision d) (new_delivery_receipt entry d) (sl_delivery_records s)\<rparr>)"
  using assms stage_entry_Inr(2) [OF assms(1)]
  by (simp add: written_def valid_ledger_record_def add_direct_def direct_from_entry_def add_delivery_def
      add_seed_def seeds_of_def new_delivery_receipt_def)

lemma record_delivery_locked_Inr:
  assumes "record_delivery_locked env v s d publishing = Inr (receipt, v', s')"
  obtains (known) existing where "dict_get (sl_delivery_records s) (dv_delivery_id d, dv_revision d) = Some existing"
      "tr_delivery existing = d" "receipt = existing\<lparr>tr_appended := False\<rparr>" "v' = v" "s' = s"
  | (new) entry p head where "dict_get (sl_delivery_records s) (dv_delivery_id d, dv_revision d) = None"
      "stage_entry env s (Rec_delivery d) = Inr (entry, p, head)" "receipt = new_delivery_receipt entry d"
      "v' = (if publishing then publish (sl_run_id s) head p v else v)"
      "s' = (extend_slot entry p head s)\<lparr>sl_delivery_records :=
         dict_set (dv_delivery_id d, dv_revision d) receipt (sl_delivery_records s)\<rparr>"
proof (cases "dict_get (sl_delivery_records s) (dv_delivery_id d, dv_revision d)")
  case None
  with assms show ?thesis
    by (auto simp: record_delivery_locked_def Let_def bind_result_Inr new_delivery_receipt_def split: if_splits intro: new)
next
  case (Some existing)
  with assms show ?thesis
    by (auto simp: record_delivery_locked_def Let_def split: if_splits intro: known)
qed

lemma record_delivery_locked_grows:
  assumes "record_delivery_locked env v s d publishing = Inr (receipt, v', s')" and "valid_delivery_record d"
  shows "grows env s s'" and "sl_append_leases s' = sl_append_leases s" and "publishing \<Longrightarrow> advanced env v s v' s'"
proof -
  from assms(1) have "grows env s s' \<and> sl_append_leases s' = sl_append_leases s \<and> (publishing \<longrightarrow> advanced env v s v' s')"
  proof (cases rule: record_delivery_locked_Inr)
    case (new entry p head)
    note g = written_grows [OF written_delivery [OF new(2) assms(2)]]
    show ?thesis using g unfolding new(3-5) advanced_def by simp
  qed (simp add: grows_refl)
  then show "grows env s s'" "sl_append_leases s' = sl_append_leases s" "publishing \<Longrightarrow> advanced env v s v' s'"
    by simp_all
qed

lemma transition_cycle_Inr: "transition_cycle env c operation = Inr c' \<longleftrightarrow>
    c' = c \<and> settled_within c \<and> valid_cycle_record (en_hash env) c"
  by (auto simp: transition_cycle_def)

lemma transition_delivery_Inr: "transition_delivery d operation = Inr d' \<longleftrightarrow> d' = d \<and> valid_delivery_record d"
  by (auto simp: transition_delivery_def)

text \<open>The operations on a locked slot.\<close>

lemma cycle_steps_advanced:
  "begin_cycle_body env v bc s = Inr (r, v', s') \<Longrightarrow> advanced env v s v' s'"
  "reserve_cycle_body env v rc s = Inr (r, v', s') \<Longrightarrow> advanced env v s v' s'"
  "mark_cycle_running_body env v sc s = Inr (r, v', s') \<Longrightarrow> advanced env v s v' s'"
  "fail_cycle_body env v fc s = Inr (r, v', s') \<Longrightarrow> advanced env v s v' s'"
  by (auto simp: begin_cycle_body_def begin_new_cycle_def reserve_cycle_body_def mark_cycle_running_body_def
      fail_cycle_body_def bind_result_Inr transition_cycle_Inr Let_def
      split: option.splits list.splits if_splits sum.splits intro: record_cycle_locked_grows(3))

lemma planned_delivery_Inr: "planned_delivery env c cmd plan = Inr d \<Longrightarrow> valid_delivery_record d"
  by (auto simp: planned_delivery_def Let_def split: option.splits sum.splits if_splits)

lemma advanced_shadow:
  assumes "grows env (s\<lparr>sl_append_leases := 0\<rparr>) shadow" and "sl_head shadow = Some h"
  shows "advanced env v s (publish (sl_run_id s) h (sl_projection shadow) v)
    (shadow\<lparr>sl_append_leases := sl_append_leases s\<rparr>)"
proof -
  have "grows env s (s\<lparr>sl_append_leases := 0\<rparr>)" by (rule grows_leases [OF grows_refl])
  from grows_leases [OF grows_trans [OF assms(1) this]] assms(2) show ?thesis by (simp add: advanced_def)
qed

lemma commit_new_cycle_advanced:
  assumes "commit_new_cycle env v s c delivery = Inr (r, v', s')"
    and "valid_cycle_record (en_hash env) c" and "\<And>d. delivery = Some d \<Longrightarrow> valid_delivery_record d"
  shows "advanced env v s v' s'"
proof -
  from assms(1) obtain receipt v1 s1 s2 h where
    first: "record_cycle_locked env v (s\<lparr>sl_append_leases := 0\<rparr>) c False delivery = Inr (receipt, v1, s1)"
    and second: "enqueue_planned env v s1 delivery = Inr s2"
    and h: "sl_head s2 = Some h" "v' = publish (sl_run_id s) h (sl_projection s2) v"
      "s' = s2\<lparr>sl_append_leases := sl_append_leases s\<rparr>"
    unfolding commit_new_cycle_def by (auto simp: bind_result_Inr split: option.splits)
  note g1 = record_cycle_locked_grows(1) [OF first assms(2)]
  have "grows env s1 s2"
  proof (cases delivery)
    case None
    with second show ?thesis by (simp add: enqueue_planned_def grows_refl)
  next
    case (Some d)
    with second assms(3) [OF Some] show ?thesis
      by (auto simp: enqueue_planned_def bind_result_Inr intro: record_delivery_locked_grows(1))
  qed
  from grows_trans [OF this g1] h show ?thesis by (simp add: advanced_shadow)
qed

lemma commit_cycle_body_advanced:
  assumes "commit_cycle_body env v cmd s = Inr (r, v', s')"
  shows "advanced env v s v' s'"
proof -
  from assms obtain base where base: "(let i = cc_intervention cmd in
     if iv_grounding_version i \<noteq> cy_grounding_version base \<or>
        iv_grounding_configuration_digest i \<noteq> cy_grounding_configuration_digest base \<or>
        iv_grounding_configuration i \<noteq> cy_grounding_configuration base
     then Inl (ProjectionInvariantError ''grounded intervention failed authoritative verification'')
     else
     bind_result (transition_cycle env (committed_revision cmd base) ''commit_cycle'') (\<lambda>c.
     case dict_get (sl_cycle_records s) (cy_cycle_id c, cy_revision c) of
       Some existing \<Rightarrow>
         if cr_cycle existing \<noteq> c \<or> \<not> same_plan (cc_delivery cmd) (cr_delivery existing)
         then Inl CycleConflictError
         else Inr (existing\<lparr>cr_appended := False\<rparr>, v, s)
     | None \<Rightarrow>
         bind_result (case cc_delivery cmd of
                        None \<Rightarrow> Inr None
                      | Some plan \<Rightarrow> map_sum id Some (planned_delivery env c cmd plan)) (\<lambda>delivery.
         commit_new_cycle env v s c delivery))) = Inr (r, v', s')"
    unfolding commit_cycle_body_def bind_result_Inr by blast
  let ?c = "committed_revision cmd base"
  have valid: "valid_cycle_record (en_hash env) ?c"
    using base by (auto simp: Let_def bind_result_Inr transition_cycle_Inr split: if_splits)
  show ?thesis
  proof (cases "dict_get (sl_cycle_records s) (cy_cycle_id ?c, cy_revision ?c)")
    case None
    with base obtain delivery where plan: "(case cc_delivery cmd of None \<Rightarrow> Inr None
        | Some plan \<Rightarrow> map_sum id Some (planned_delivery env ?c cmd plan)) = Inr delivery"
      and commit: "commit_new_cycle env v s ?c delivery = Inr (r, v', s')"
      by (auto simp: Let_def bind_result_Inr transition_cycle_Inr split: if_splits)
    have "valid_delivery_record d" if "delivery = Some d" for d
      using plan that planned_delivery_Inr [of env ?c cmd]
      by (cases "cc_delivery cmd") (auto simp: map_sum_def split: sum.splits)
    from commit_new_cycle_advanced [OF commit valid this] show ?thesis .
  next
    case (Some existing)
    with base show ?thesis by (auto simp: Let_def bind_result_Inr transition_cycle_Inr split: if_splits)
  qed
qed

lemma recover_cycle_steps_grow:
  assumes "fold_result (recover_cycle_step env v t) cs (s0, rs0) = Inr (s1, rs1)"
  shows "grows env s0 s1"
proof -
  have "grows env s0 (fst (s1, rs1))"
  proof (rule fold_result_invariant [OF assms, where P = "\<lambda>x. grows env s0 (fst x)"])
    fix c x x'
    assume "grows env s0 (fst x)" and step: "recover_cycle_step env v t c x = Inr x'"
    moreover from step have "grows env (fst x) (fst x')"
      by (cases x) (auto simp: recover_cycle_step_def bind_result_Inr split: if_splits intro: record_cycle_locked_grows(1))
    ultimately show "grows env s0 (fst x')" by (blast intro: grows_trans)
  qed (simp add: grows_refl)
  then show ?thesis by simp
qed

lemma recover_cycles_body_advanced:
  assumes "recover_cycles_body env v t s = Inr (r, v', s')"
  shows "advanced env v s v' s'"
  using assms
  by (auto simp: recover_cycles_body_def Let_def bind_result_Inr split: if_splits option.splits
      intro: advanced_shadow recover_cycle_steps_grow)

lemma recover_delivery_steps_grow:
  assumes "fold_result (recover_delivery_step env v t) ds (s0, rs0) = Inr (s1, rs1)"
  shows "grows env s0 s1"
proof -
  have "grows env s0 (fst (s1, rs1))"
  proof (rule fold_result_invariant [OF assms, where P = "\<lambda>x. grows env s0 (fst x)"])
    fix d x x'
    assume "grows env s0 (fst x)" and step: "recover_delivery_step env v t d x = Inr x'"
    moreover from step have "grows env (fst x) (fst x')"
      by (cases x) (auto simp: recover_delivery_step_def bind_result_Inr transition_delivery_Inr
          intro: record_delivery_locked_grows(1))
    ultimately show "grows env s0 (fst x')" by (blast intro: grows_trans)
  qed (simp add: grows_refl)
  then show ?thesis by simp
qed

lemma recover_deliveries_body_advanced:
  assumes "recover_deliveries_body env v t s = Inr (r, v', s')"
  shows "advanced env v s v' s'"
  using assms
  by (auto simp: recover_deliveries_body_def Let_def bind_result_Inr split: if_splits option.splits
      intro: advanced_shadow recover_delivery_steps_grow)

lemma transition_body_advanced:
  assumes "transition_body env v s i n retry move = Inr (x, v', s')"
    and "\<And>base d. move base = Inr d \<Longrightarrow> valid_delivery_record d"
  shows "advanced env v s v' s'"
proof -
  from assms(1) obtain known where "(case known of
       Some receipt \<Rightarrow> Inr ((receipt, None), v, s)
     | None \<Rightarrow>
         bind_result (delivery_base s i n) (\<lambda>base.
         bind_result (move base) (\<lambda>d.
         bind_result (record_delivery_locked env v s d True) (\<lambda>(receipt, v', s').
         Inr ((receipt, Some d), v', s'))))) = Inr (x, v', s')"
    unfolding transition_body_def bind_result_Inr by blast
  then show ?thesis
    by (cases known) (auto simp: bind_result_Inr intro!: record_delivery_locked_grows(3) [OF _ assms(2)])
qed

lemma simple_transition_advanced:
  assumes "simple_transition env v s i n retry move = Inr (r, v', s')"
    and "\<And>base d. move base = Inr d \<Longrightarrow> valid_delivery_record d"
  shows "advanced env v s v' s'"
  using assms by (auto simp: simple_transition_def bind_result_Inr intro: transition_body_advanced)

lemma delivery_steps_advanced:
  "claim_delivery_body env v cl s = Inr (r, v', s') \<Longrightarrow> advanced env v s v' s'"
  "complete_delivery_body env v cd s = Inr (r, v', s') \<Longrightarrow> advanced env v s v' s'"
  "mark_unknown_body env v mk s = Inr (r, v', s') \<Longrightarrow> advanced env v s v' s'"
  "reject_delivery_body env v rj s = Inr (r, v', s') \<Longrightarrow> advanced env v s v' s'"
  unfolding claim_delivery_body_def complete_delivery_body_def mark_unknown_body_def reject_delivery_body_def Let_def
  by (erule simple_transition_advanced; simp add: transition_delivery_Inr split: if_splits)+

lemma begin_attempt_body_advanced:
  assumes "begin_attempt_body env v ba s = Inr (r, v', s')"
  shows "advanced env v s v' s'"
  using assms unfolding begin_attempt_body_def
  by (auto simp: bind_result_Inr Let_def transition_delivery_Inr split: if_splits
      elim!: transition_body_advanced)

end
