(* ===== verification/Repository_Vault.thy ===== *)
theory Repository_Vault
  imports Repository_Invariants
begin

text \<open>
  The repository as a whole. Its invariant holds of the empty repository and is kept by every
  operation, successful or not, and no operation removes an entry of a ledger: the contract of a
  durable store, stated as a locale and interpreted on the operations of the code.
\<close>

section \<open>Batches\<close>

fun prepared_ok :: "prepared_operation \<Rightarrow> bool" where
  "prepared_ok (Prepared_event draft redacted i) = True"
| "prepared_ok (Prepared_signal s) = valid_signal s"

lemma prepare_operations_ok:
  "prepare_operations env ops n m run = Inr ps \<Longrightarrow> list_all prepared_ok ps"
  by (induction env ops n m run arbitrary: ps rule: prepare_operations.induct)
    (auto simp: Let_def bind_result_Inr prepare_operation_def split: if_splits append_operation.splits)

lemma run_prepared_grows:
  assumes "run_prepared env v operation (s, items, b) = Inr (s', items', b')" and "prepared_ok operation"
  shows "grows env s s'"
  using assms
  by (cases operation) (auto simp: run_prepared_def bind_result_Inr valid_ledger_record_def
      intro: append_conditional_grows(1) record_direct_locked_grows(1))

lemma run_prepared_all_grow:
  assumes "fold_result (run_prepared env v) ps (s, items, b) = Inr (s', items', b')" and "list_all prepared_ok ps"
  shows "grows env s s'"
proof -
  have "grows env s (fst (s', items', b'))"
  proof (rule fold_result_invariant [OF assms(1), where P = "\<lambda>x. grows env s (fst x)"])
    fix operation x x'
    assume "operation \<in> set ps" "grows env s (fst x)" and step: "run_prepared env v operation x = Inr x'"
    moreover from this have "grows env (fst x) (fst x')"
      using assms(2) by (cases x; cases x') (auto simp: list_all_iff intro: run_prepared_grows)
    ultimately show "grows env s (fst x')" by (blast intro: grows_trans)
  qed (simp add: grows_refl)
  then show ?thesis by simp
qed

lemma run_conditional_batch_advanced:
  assumes "run_conditional_batch env v s ps expected = Inr (r, v', s')" and "list_all prepared_ok ps"
  shows "advanced env v s v' s'"
proof -
  from assms(1) obtain shadow items mutated h
    where fold: "fold_result (run_prepared env v) ps (shadow_slot s, [], False) = Inr (shadow, items, mutated)"
      and h: "sl_head shadow = Some h"
      and out: "if mutated then v' = publish (sl_run_id s) h (sl_projection shadow) v \<and> s' = publish_shadow shadow s
        else v' = v \<and> s' = s"
    unfolding run_conditional_batch_def by (auto simp: bind_result_Inr split: option.splits if_splits)
  have g: "grows env (s\<lparr>sl_append_leases := 0\<rparr>) shadow"
    using run_prepared_all_grow [OF fold assms(2)] by (simp add: shadow_slot_def)
  have "publish_shadow shadow s = shadow\<lparr>sl_append_leases := sl_append_leases s\<rparr>"
    using grows_run [OF g] by (simp add: publish_shadow_def)
  with out advanced_shadow [OF g h] show ?thesis by (auto split: if_splits)
qed

section \<open>The repository invariant\<close>

definition slot_published :: "vault \<Rightarrow> run_slot \<Rightarrow> bool" where
  "slot_published v s \<longleftrightarrow> \<not> unwritten s \<and> dict_get (va_trusted_heads v) (sl_run_id s) = sl_head s \<and>
     dict_get (va_trusted_projections v) (sl_run_id s) = Some (sl_projection s)"

definition vault_ok :: "repo_env \<Rightarrow> vault \<Rightarrow> bool" where
  "vault_ok env v \<longleftrightarrow> dict_wf (va_slots v) \<and>
     (\<forall>run s. dict_get (va_slots v) run = Some s \<longrightarrow>
        sl_run_id s = run \<and> slot_ok env s \<and> sl_append_leases s = 0 \<and> slot_published v s) \<and>
     (\<forall>run. has_trusted_state v run \<longrightarrow> has_key (va_slots v) run)"

lemma vault_ok_empty: "vault_ok env empty_vault"
  by (simp add: vault_ok_def empty_vault_def has_trusted_state_def has_key_def)

lemma vault_ok_slot:
  assumes "vault_ok env v" and "dict_get (va_slots v) run = Some s"
  shows "sl_run_id s = run" and "slot_ok env s" and "sl_append_leases s = 0" and "slot_published v s"
  using assms unfolding vault_ok_def by blast+

lemma find_slot_Inr: "find_slot v run = Inr s \<Longrightarrow> dict_get (va_slots v) run = Some s \<and> \<not> unwritten s"
  by (auto simp: find_slot_def split: option.splits if_splits)

lemma publish_sel [simp]:
  "va_slots (publish run h p v) = va_slots v"
  "va_trusted_heads (publish run h p v) = dict_set run h (va_trusted_heads v)"
  "va_trusted_projections (publish run h p v) = dict_set run p (va_trusted_projections v)"
  by (simp_all add: publish_def)

lemma store_slot_sel [simp]:
  "va_slots (store_slot s v) = dict_set (sl_run_id s) s (va_slots v)"
  "va_trusted_heads (store_slot s v) = va_trusted_heads v"
  "va_trusted_projections (store_slot s v) = va_trusted_projections v"
  by (simp_all add: store_slot_def)

lemma vault_ok_store:
  assumes ok: "vault_ok env v" and "slot_ok env s" and "sl_append_leases s = 0" and "slot_published v' s"
    and "\<And>run. dict_get (va_slots v') run = ((dict_get (va_slots v))(sl_run_id s \<mapsto> s)) run" and "dict_wf (va_slots v')"
    and "\<And>run. run \<noteq> sl_run_id s \<Longrightarrow> dict_get (va_trusted_heads v') run = dict_get (va_trusted_heads v) run"
    and "\<And>run. run \<noteq> sl_run_id s \<Longrightarrow>
      dict_get (va_trusted_projections v') run = dict_get (va_trusted_projections v) run"
  shows "vault_ok env v'"
proof -
  have "sl_run_id t = run \<and> slot_ok env t \<and> sl_append_leases t = 0 \<and> slot_published v' t"
    if "dict_get (va_slots v') run = Some t" for run t
  proof (cases "run = sl_run_id s")
    case True
    with that assms(2-5) show ?thesis by simp
  next
    case False
    with that assms(5) have t: "dict_get (va_slots v) run = Some t" by simp
    note old = vault_ok_slot [OF ok t]
    with False assms(7,8) show ?thesis unfolding slot_published_def by metis
  qed
  moreover have "has_key (va_slots v') run" if "has_trusted_state v' run" for run
  proof (cases "run = sl_run_id s")
    case False
    then have "has_trusted_state v run"
      using that assms(7,8) unfolding has_trusted_state_def has_key_def by simp
    with ok have "has_key (va_slots v) run" unfolding vault_ok_def by blast
    with False assms(5) show ?thesis unfolding has_key_def by simp
  qed (simp add: assms(5) has_key_def)
  ultimately show ?thesis using assms(6) unfolding vault_ok_def by blast
qed

definition ledgers_extend :: "vault \<Rightarrow> vault \<Rightarrow> bool" where
  "ledgers_extend v v' \<longleftrightarrow>
     (\<forall>run s. dict_get (va_slots v) run = Some s \<longrightarrow>
        (\<exists>s' es. dict_get (va_slots v') run = Some s' \<and> sl_ledger s' = sl_ledger s @ es))"

lemma ledgers_extend_refl: "ledgers_extend v v"
  by (simp add: ledgers_extend_def)

lemma ledgers_extend_trans: "ledgers_extend u v \<Longrightarrow> ledgers_extend v w \<Longrightarrow> ledgers_extend u w"
  unfolding ledgers_extend_def by (metis append.assoc)

lemma advanced_published:
  assumes "advanced env v s v' s'" and "slot_published v s"
  shows "slot_published v' s'"
proof -
  from assms(1) consider "v' = v" "s' = s"
    | h where "sl_head s' = Some h" "v' = publish (sl_run_id s) h (sl_projection s') v" "sl_run_id s' = sl_run_id s"
    unfolding advanced_def using grows_run by blast
  then show ?thesis
    using assms(2) by cases (auto simp: slot_published_def unwritten_def)
qed

lemma advanced_other:
  assumes "advanced env v s v' s'" and "run \<noteq> sl_run_id s"
  shows "dict_get (va_trusted_heads v') run = dict_get (va_trusted_heads v) run"
    and "dict_get (va_trusted_projections v') run = dict_get (va_trusted_projections v) run"
  using assms by (auto simp: advanced_def)

lemma advanced_slots: "advanced env v s v' s' \<Longrightarrow> va_slots v' = va_slots v"
  by (auto simp: advanced_def)

section \<open>Operations keep the invariant\<close>

definition keeps :: "repo_env \<Rightarrow> vault \<Rightarrow> vault \<Rightarrow> bool" where
  "keeps env v v' \<longleftrightarrow> vault_ok env v' \<and> ledgers_extend v v'"

lemma keeps_refl: "vault_ok env v \<Longrightarrow> keeps env v v"
  by (simp add: keeps_def ledgers_extend_refl)

lemma on_slot_keeps:
  assumes ok: "vault_ok env v"
    and body: "\<And>s r v' s'. find_slot v run = Inr s \<Longrightarrow> body s = Inr (r, v', s') \<Longrightarrow> advanced env v s v' s'"
  shows "keeps env v (snd (on_slot v run body))"
proof (cases "bind_result (find_slot v run) body")
  case (Inl e)
  then show ?thesis using keeps_refl [OF ok] by (simp add: on_slot_def)
next
  case (Inr x)
  then obtain s r v' s' where s: "find_slot v run = Inr s" "body s = Inr (r, v', s')" and x: "x = (r, v', s')"
    by (cases x) (auto simp: bind_result_Inr)
  note adv = body [OF s]
  note got = conjunct1 [OF find_slot_Inr [OF s(1)]]
  note old = vault_ok_slot [OF ok got]
  have g: "grows env s s'" and leases: "sl_append_leases s' = 0" using adv old(3) by (simp_all add: advanced_def)
  note run' = grows_run [OF g]
  have "vault_ok env (store_slot s' v')"
    using grows_ok [OF g old(2)] leases advanced_published [OF adv old(4)] advanced_slots [OF adv] advanced_other [OF adv] run'
      ok unfolding vault_ok_def
    by (intro vault_ok_store [OF ok, of s', unfolded vault_ok_def]) (simp_all add: slot_published_def)
  moreover have "ledgers_extend v (store_slot s' v')"
    unfolding ledgers_extend_def
  proof (intro allI impI)
    fix q t
    assume t: "dict_get (va_slots v) q = Some t"
    show "\<exists>t' es. dict_get (va_slots (store_slot s' v')) q = Some t' \<and> sl_ledger t' = sl_ledger t @ es"
      using t got old(1) run' grows_ledger [OF g] advanced_slots [OF adv] by (cases "q = run") auto
  qed
  ultimately show ?thesis using Inr x by (simp add: on_slot_def keeps_def)
qed

lemma dict_get_del [simp]: "dict_get (dict_del k d) j = (if j = k then None else dict_get d j)"
  unfolding dict_del_def by (induction d) auto

lemma dict_wf_del [simp]: "dict_wf d \<Longrightarrow> dict_wf (dict_del k d)"
  unfolding dict_del_def dict_wf_def by (induction d) auto

lemma vault_ok_same:
  assumes ok: "vault_ok env v" and same: "\<And>run. dict_get (va_slots v') run = dict_get (va_slots v) run" "dict_wf (va_slots v')"
    "va_trusted_heads v' = va_trusted_heads v" "va_trusted_projections v' = va_trusted_projections v"
  shows "keeps env v v'"
  using assms unfolding keeps_def vault_ok_def ledgers_extend_def slot_published_def has_trusted_state_def has_key_def
  by auto

lemma new_slot_sel [simp]:
  "sl_run_id (new_slot r) = r" "sl_ledger (new_slot r) = []" "sl_head (new_slot r) = None"
  "sl_projection (new_slot r) = empty_projection r" "sl_append_leases (new_slot r) = 0"
  by (simp_all add: new_slot_def)

lemma unwritten_leases [simp]: "unwritten (s\<lparr>sl_append_leases := n\<rparr>) = unwritten s"
  by (simp add: unwritten_def)

lemma release_keeps:
  assumes ok: "vault_ok env v" and acq: "acquire_append_slot v run = Inr (v1, s1)" and adv: "advanced env v1 s1 v2 s2"
  shows "keeps env v (release_append_slot s2 v2)"
proof -
  let ?s = "s2\<lparr>sl_append_leases := 0\<rparr>"
  have wf: "dict_wf (va_slots v)" using ok by (simp add: vault_ok_def)
  have g: "grows env s1 s2" and leases: "sl_append_leases s2 = sl_append_leases s1"
    using adv by (simp_all add: advanced_def)
  have slots: "va_slots v1 = dict_set run s1 (va_slots v)" and trusted: "va_trusted_heads v1 = va_trusted_heads v"
    "va_trusted_projections v1 = va_trusted_projections v" and one: "sl_append_leases s1 = 1" "sl_run_id s1 = run"
    and s1: "slot_ok env s1" and fresh: "dict_get (va_slots v) run = None \<longrightarrow> unwritten s1"
    and old: "\<And>s. dict_get (va_slots v) run = Some s \<Longrightarrow> slot_published v1 s1 \<and> sl_ledger s1 = sl_ledger s"
    using acq vault_ok_slot [OF ok, of run]
    by (auto simp: acquire_append_slot_def Let_def slot_ok_new unwritten_def slot_published_def
        split: option.splits if_splits)
  have run: "sl_run_id s2 = run" using grows_run [OF g] one(2) by simp
  note same = advanced_slots [OF adv] advanced_other [OF adv]
  show ?thesis
  proof (cases "unwritten s2")
    case True
    have none: "dict_get (va_slots v) run = None"
    proof (rule ccontr)
      assume "dict_get (va_slots v) run \<noteq> None"
      then have "slot_published v2 s2" using old advanced_published [OF adv] by auto
      with True show False by (simp add: slot_published_def)
    qed
    have "v2 = v1" using adv True by (auto simp: advanced_def unwritten_def)
    then have "release_append_slot s2 v2 = v1\<lparr>va_slots := dict_del run (va_slots v1)\<rparr>"
      using True run leases one by (simp add: release_append_slot_def unwritten_def)
    then show ?thesis
      using none wf trusted slots by (intro vault_ok_same [OF ok]) auto
  next
    case False
    have rel: "release_append_slot s2 v2 = v2\<lparr>va_slots := dict_set run ?s (va_slots v2)\<rparr>"
      using False run leases one by (simp add: release_append_slot_def Let_def)
    have "slot_published v2 s2"
    proof (cases "dict_get (va_slots v) run")
      case None
      with False fresh adv obtain h where "sl_head s2 = Some h" "v2 = publish (sl_run_id s1) h (sl_projection s2) v1"
        by (auto simp: advanced_def)
      with run one(2) show ?thesis by (simp add: slot_published_def unwritten_def)
    next
      case (Some s)
      with old advanced_published [OF adv] show ?thesis by blast
    qed
    then have pub: "slot_published (v2\<lparr>va_slots := dict_set run ?s (va_slots v2)\<rparr>) ?s"
      by (simp add: slot_published_def unwritten_def)
    have "vault_ok env (v2\<lparr>va_slots := dict_set run ?s (va_slots v2)\<rparr>)"
      by (rule vault_ok_store [OF ok _ _ pub])
        (use grows_ok [OF g s1] run one same slots trusted wf in \<open>simp_all\<close>)
    moreover have "ledgers_extend v (v2\<lparr>va_slots := dict_set run ?s (va_slots v2)\<rparr>)"
      unfolding ledgers_extend_def
    proof (intro allI impI)
      fix q t
      assume t: "dict_get (va_slots v) q = Some t"
      show "\<exists>t' es. dict_get (va_slots (v2\<lparr>va_slots := dict_set run ?s (va_slots v2)\<rparr>)) q = Some t' \<and>
          sl_ledger t' = sl_ledger t @ es"
        using t old [of t] grows_ledger [OF g] same(1) slots by (cases "q = run") auto
    qed
    ultimately show ?thesis by (simp add: rel keeps_def)
  qed
qed

lemma on_append_slot_keeps:
  assumes ok: "vault_ok env v"
    and body: "\<And>v s r v' s'. body v s = Inr (r, v', s') \<Longrightarrow> advanced env v s v' s'"
  shows "keeps env v (snd (on_append_slot v run body))"
proof (cases "acquire_append_slot v run")
  case (Inl e)
  then show ?thesis using keeps_refl [OF ok] by (simp add: on_append_slot_def)
next
  case (Inr x)
  obtain v1 s1 where x: "x = (v1, s1)" by (cases x)
  show ?thesis
  proof (cases "body v1 s1")
    case (Inl e)
    with Inr x release_keeps [OF ok _ advanced_refl] show ?thesis by (simp add: on_append_slot_def)
  next
    case (Inr y)
    obtain r v2 s2 where y: "y = (r, v2, s2)" by (cases y)
    with Inr \<open>acquire_append_slot v run = Inr x\<close> x release_keeps [OF ok _ body] show ?thesis
      by (simp add: on_append_slot_def)
  qed
qed

end
