(* ===== verification/Repository_Operations.thy ===== *)
theory Repository_Operations
  imports Repository_Vault
begin

text \<open>
  The state-changing operations of the repository as one step function, and the contract they share:
  a durable store, whose operations keep its invariant, only ever extend what is stored, and leave
  the store as it was when they fail. The locale states the contract and what follows from it for a
  sequence of operations; its interpretation discharges it for every operation of the code.
\<close>

section \<open>The operations\<close>

datatype (plugins only: code size) repo_op =
    Op_append event_draft "uuid option" uuid
  | Op_append_if_head event_draft uuid "ledger_head option"
  | Op_append_records "append_operation list" "ledger_head option"
  | Op_record_signal signal
  | Op_record_signal_if_head signal ledger_head
  | Op_record_decision invocation_decision
  | Op_record_outcome intervention_outcome
  | Op_begin_cycle begin_cycle_cmd
  | Op_reserve_cycle reserve_cycle_cmd
  | Op_mark_cycle_running start_cycle_cmd
  | Op_commit_cycle commit_cycle_cmd
  | Op_fail_cycle fail_cycle_cmd
  | Op_recover_cycles uuid timestamp
  | Op_claim_delivery claim_delivery_cmd
  | Op_begin_attempt begin_attempt_cmd
  | Op_complete_delivery complete_delivery_cmd
  | Op_mark_unknown mark_unknown_cmd
  | Op_reject_delivery reject_delivery_cmd
  | Op_recover_deliveries uuid timestamp
  | Op_restore "ledger_entry list" ledger_head
  | Op_rebuild uuid

text \<open>The error an operation raised, if any, and the repository it leaves.\<close>

definition outcome :: "(repo_error + 'r) \<times> vault \<Rightarrow> repo_error option \<times> vault" where
  "outcome = (\<lambda>(r, v). (case r of Inl e \<Rightarrow> Some e | Inr _ \<Rightarrow> None, v))"

fun repo_step :: "repo_env \<Rightarrow> repo_op \<Rightarrow> vault \<Rightarrow> repo_error option \<times> vault" where
  "repo_step env (Op_append event i made) v = outcome (append_event env v event i made)"
| "repo_step env (Op_append_if_head event i h) v = outcome (append_event_if_head env v event i h)"
| "repo_step env (Op_append_records ops h) v = outcome (append_records_if_head env v ops h)"
| "repo_step env (Op_record_signal s) v = outcome (record_signal env v s)"
| "repo_step env (Op_record_signal_if_head s h) v = outcome (record_signal_if_head env v s h)"
| "repo_step env (Op_record_decision d) v = outcome (record_invocation_decision env v d)"
| "repo_step env (Op_record_outcome out) v = outcome (record_outcome env v out)"
| "repo_step env (Op_begin_cycle cmd) v = outcome (begin_cycle env v cmd)"
| "repo_step env (Op_reserve_cycle cmd) v = outcome (reserve_cycle env v cmd)"
| "repo_step env (Op_mark_cycle_running cmd) v = outcome (mark_cycle_running env v cmd)"
| "repo_step env (Op_commit_cycle cmd) v = outcome (commit_cycle env v cmd)"
| "repo_step env (Op_fail_cycle cmd) v = outcome (fail_cycle env v cmd)"
| "repo_step env (Op_recover_cycles run t) v = outcome (recover_cycles env v run t)"
| "repo_step env (Op_claim_delivery cmd) v = outcome (claim_delivery env v cmd)"
| "repo_step env (Op_begin_attempt cmd) v = outcome (begin_delivery_attempt env v cmd)"
| "repo_step env (Op_complete_delivery cmd) v = outcome (complete_delivery env v cmd)"
| "repo_step env (Op_mark_unknown cmd) v = outcome (mark_delivery_unknown env v cmd)"
| "repo_step env (Op_reject_delivery cmd) v = outcome (reject_delivery env v cmd)"
| "repo_step env (Op_recover_deliveries run t) v = outcome (recover_deliveries env v run t)"
| "repo_step env (Op_restore entries h) v = outcome (restore_run env v entries h)"
| "repo_step env (Op_rebuild run) v = outcome (rebuild env v run)"

definition run_operations :: "repo_env \<Rightarrow> repo_op list \<Rightarrow> vault \<Rightarrow> vault" where
  "run_operations env ops v = fold (\<lambda>operation v. snd (repo_step env operation v)) ops v"

lemma outcome_sel [simp]: "snd (outcome x) = snd x" "(fst (outcome x) = None) = (\<exists>r. fst x = Inr r)"
  "(fst (outcome x) = Some e) = (fst x = Inl e)"
  by (cases x; cases "fst x"; auto simp: outcome_def)+

section \<open>Replays rebuild a slot\<close>

lemma seed_of_attached [simp]: "seed_of (attached_receipt p seed) = seed"
  by (simp add: seed_of_def attached_receipt_def)

lemma attach_deliveries_seeds:
  "attach_deliveries env seeds p = Inr cycles \<Longrightarrow> map (\<lambda>(k, r). (k, seed_of r)) cycles = seeds"
  by (auto simp: attach_deliveries_def Let_def comp_def case_prod_beta split: if_splits)

lemma rebuild_slot_ok:
  assumes "slot_ok env s" and "rebuild_slot env v s = Inr (after, s')"
  shows "slot_ok env s'" and "sl_projection s' = sl_projection s" and "sl_ledger s' = sl_ledger s"
    and "sl_head s' = sl_head s" and "sl_run_id s' = sl_run_id s" and "sl_append_leases s' = sl_append_leases s"
    and "sl_direct_records s' = sl_direct_records s" and "sl_delivery_records s' = sl_delivery_records s"
    and "projection_digests_of env (sl_projection s) (int (length (sl_ledger s))) = Inr after"
    and "seeds_of s' = seeds_of s"
proof -
  from assms(1) obtain st where st: "fold_result (replay_entry env) (sl_ledger s) (start_replay (sl_run_id s)) = Inr st"
    "replay_matches st s"
    unfolding slot_ok_def by blast
  from assms(2) st obtain cycles collisions where
    s': "s' = s\<lparr>sl_projection := rp_projection st, sl_direct_records := rp_direct_records st,
       sl_cycle_records := cycles, sl_delivery_records := rp_delivery_records st,
       sl_collision_receipts := collisions\<rparr>"
    and cycles: "attach_deliveries env (rp_seeds st) (rp_projection st) = Inr cycles"
    and after: "projection_digests_of env (rp_projection st) (int (length (sl_ledger s))) = Inr after"
    by (auto simp: rebuild_slot_def bind_result_Inr split: if_splits)
  have seeds: "seeds_of s' = seeds_of s"
    using attach_deliveries_seeds [OF cycles] st(2) s' by (simp add: seeds_of_def replay_matches_def)
  then have "replay_matches st s'" using st(2) s' by (simp add: replay_matches_def)
  then show "slot_ok env s'"
    using assms(1) st(1) s' by (simp add: slot_ok_def head_ok_def cong: option.case_cong)
  show "sl_projection s' = sl_projection s" "sl_ledger s' = sl_ledger s" "sl_head s' = sl_head s"
    "sl_run_id s' = sl_run_id s" "sl_append_leases s' = sl_append_leases s"
    "sl_direct_records s' = sl_direct_records s" "sl_delivery_records s' = sl_delivery_records s"
    "projection_digests_of env (sl_projection s) (int (length (sl_ledger s))) = Inr after"
    using st(2) s' after by (simp_all add: replay_matches_def)
  show "seeds_of s' = seeds_of s" by (rule seeds)
qed

lemma map_sum_id_Inr [simp]: "map_sum f id x = Inr y \<longleftrightarrow> x = Inr y"
  by (cases x) auto

lemma rebuild_body_Inr:
  "rebuild_body env v s = Inr (r, v', s') \<longleftrightarrow> digests_before env s = Inr (rb_before r) \<and>
     rebuild_slot env v s = Inr (rb_after r, s') \<and> rb_run_id r = sl_run_id s \<and>
     rb_entries_replayed r = int (length (sl_ledger s)) \<and> rb_equivalent r = (rb_before r = Some (rb_after r)) \<and>
     v' = v\<lparr>va_trusted_projections := dict_set (sl_run_id s) (sl_projection s') (va_trusted_projections v)\<rparr>"
  by (cases r) (auto simp: rebuild_body_def bind_result_Inr)

lemma on_slot_Inl: "fst (on_slot v run body) = Inl e \<Longrightarrow> snd (on_slot v run body) = v"
  by (auto simp: on_slot_def split: sum.splits)

lemma on_slot_Inr:
  assumes "on_slot v run body = (Inr r, w)"
  obtains s v' s' where "find_slot v run = Inr s" "body s = Inr (r, v', s')" "w = store_slot s' v'"
  using assms by (auto simp: on_slot_def bind_result_Inr split: sum.splits)

lemma rebuild_Inr:
  assumes "rebuild env v run = (Inr r, w)"
  obtains s s' where "find_slot v run = Inr s" "rebuild_slot env v s = Inr (rb_after r, s')"
    "digests_before env s = Inr (rb_before r)" "rb_equivalent r = (rb_before r = Some (rb_after r))"
    "w = store_slot s' (v\<lparr>va_trusted_projections := dict_set (sl_run_id s) (sl_projection s') (va_trusted_projections v)\<rparr>)"
  using assms by (auto simp: rebuild_def rebuild_body_Inr split: sum.splits elim!: on_slot_Inr)

lemma rebuild_keeps:
  assumes ok: "vault_ok env v"
  shows "keeps env v (snd (rebuild env v run))"
proof (cases "fst (rebuild env v run)")
  case (Inl e)
  then have "snd (rebuild env v run) = v"
    by (auto simp: rebuild_def split: sum.splits intro: on_slot_Inl)
  with keeps_refl [OF ok] show ?thesis by simp
next
  case (Inr r)
  then have "rebuild env v run = (Inr r, snd (rebuild env v run))" by (metis prod.collapse)
  then obtain s after s' where s: "find_slot v run = Inr s" "rebuild_slot env v s = Inr (after, s')"
    and v': "snd (rebuild env v run) = store_slot s'
      (v\<lparr>va_trusted_projections := dict_set (sl_run_id s) (sl_projection s') (va_trusted_projections v)\<rparr>)"
    by (rule rebuild_Inr) blast
  note got = conjunct1 [OF find_slot_Inr [OF s(1)]]
  note old = vault_ok_slot [OF ok got]
  note new = rebuild_slot_ok [OF old(2) s(2)]
  have wf: "dict_wf (va_slots v)" using ok by (simp add: vault_ok_def)
  have "vault_ok env (snd (rebuild env v run))"
    unfolding v' by (rule vault_ok_store [OF ok new(1)])
      (use old new wf in \<open>simp_all add: slot_published_def unwritten_def\<close>)
  moreover have "ledgers_extend v (snd (rebuild env v run))"
    unfolding v' ledgers_extend_def
  proof (intro allI impI)
    fix q t
    assume "dict_get (va_slots v) q = Some t"
    then show "\<exists>t' es. dict_get (va_slots (store_slot s' (v\<lparr>va_trusted_projections :=
        dict_set (sl_run_id s) (sl_projection s') (va_trusted_projections v)\<rparr>))) q = Some t' \<and>
        sl_ledger t' = sl_ledger t @ es"
      using got old(1) new(3,5) by (cases "q = run") auto
  qed
  ultimately show ?thesis by (simp add: keeps_def)
qed

text \<open>A durable ledger that is accepted is the ledger of a well-formed slot.\<close>

lemma replay_owned_all:
  "fold_result (replay_owned env run) es st = Inr st' \<longleftrightarrow>
     fold_result (replay_entry env) es st = Inr st' \<and> list_all (\<lambda>e. le_run_id e = run) es"
  by (induction es arbitrary: st) (auto simp: replay_owned_def bind_result_Inr split: if_splits)

lemma replay_run_Inr:
  assumes "replay_run env entries head = Inr r"
  obtains st where "entries \<noteq> []" "valid_ledger_head head"
    "list_all (\<lambda>e. valid_ledger_entry e \<and> valid_ledger_record (en_hash env) (le_record e)) entries"
    "lh_entry_count head = int (length entries)" "lh_chain_tag head = le_chain_tag (last entries)"
    "verify_head_tag env head = Inr True" "list_all (\<lambda>e. le_run_id e = lh_run_id head) entries"
    "fold_result (replay_entry env) entries (start_replay (lh_run_id head)) = Inr st"
    "finish_replay env entries head st = Inr r"
proof -
  from assms have guards: "entries \<noteq> []" "valid_ledger_head head"
    "list_all (\<lambda>e. valid_ledger_entry e \<and> valid_ledger_record (en_hash env) (le_record e)) entries"
    "lh_entry_count head = int (length entries)" "lh_chain_tag head = le_chain_tag (last entries)"
    by (simp_all add: replay_run_def Let_def split: if_splits)
  from assms have "verify_head_tag env head = Inr True \<and>
      bind_result (fold_result (replay_owned env (lh_run_id head)) entries (start_replay (lh_run_id head)))
        (finish_replay env entries head) = Inr r"
    unfolding replay_run_def Let_def by (simp add: bind_result_Inr split: if_splits)
  with guards that show thesis by (auto simp: bind_result_Inr replay_owned_all)
qed

lemma finish_replay_Inr:
  assumes "finish_replay env entries head st = Inr r"
  shows "ry_ledger r = entries" and "ry_head r = head" and "ry_projection r = rp_projection st"
    and "ry_direct_records r = rp_direct_records st" and "ry_delivery_records r = rp_delivery_records st"
    and "attach_deliveries env (rp_seeds st) (rp_projection st) = Inr (ry_cycle_records r)"
    and "rp_projection_tag st = Some (lh_projection_tag head)"
    and "validate_complete_projection (rp_projection st) = Inr ()"
    and "projection_digests_of env (rp_projection st) (int (length entries)) = Inr (ry_digests r)"
    and "collision_receipts (rp_projection st) = Inr (ry_collision_receipts r)"
  using assms by (auto simp: finish_replay_def Let_def bind_result_Inr split: if_splits)

lemma replay_entry_Inr:
  assumes "replay_entry env e st = Inr st'"
  shows "rp_position st' = rp_position st + 1" and "rp_chain_tag st' = Some (le_chain_tag e)"
    and "verify_entry env e (rp_position st) (rp_chain_tag st) = Inr ()"
    and "apply_entry (en_hash env) (en_float env) (rp_projection st) e = Inr (rp_projection st')"
  using assms unfolding replay_entry_def by (auto simp: bind_result_Inr)

lemma replay_entries_position:
  "fold_result (replay_entry env) es st = Inr st' \<Longrightarrow> rp_position st' = rp_position st + int (length es) \<and>
     rp_chain_tag st' = (if es = [] then rp_chain_tag st else Some (le_chain_tag (last es)))"
proof (induction es arbitrary: st)
  case (Cons e es)
  from Cons.prems obtain st1 where "replay_entry env e st = Inr st1" "fold_result (replay_entry env) es st1 = Inr st'"
    by (auto simp only: fold_result.simps bind_result_Inr)
  with Cons.IH [of st1] replay_entry_Inr [of env e st st1] show ?case by simp
qed simp

lemma replay_run_slot_ok:
  assumes "replay_run env entries head = Inr r"
  shows "slot_ok env (installed_slot r)" and "ry_head r = head" and "ry_ledger r = entries"
proof -
  from assms obtain st where run: "entries \<noteq> []" "valid_ledger_head head"
    "list_all (\<lambda>e. valid_ledger_entry e \<and> valid_ledger_record (en_hash env) (le_record e)) entries"
    "lh_entry_count head = int (length entries)" "lh_chain_tag head = le_chain_tag (last entries)"
    "verify_head_tag env head = Inr True" "list_all (\<lambda>e. le_run_id e = lh_run_id head) entries"
    and st: "fold_result (replay_entry env) entries (start_replay (lh_run_id head)) = Inr st"
    and fin: "finish_replay env entries head st = Inr r"
    by (rule replay_run_Inr)
  note f = finish_replay_Inr [OF fin]
  show "ry_head r = head" "ry_ledger r = entries" using f by simp_all
  have "replay_matches st (installed_slot r)"
    using f replay_entries_position [OF st] run(1) attach_deliveries_seeds [OF f(6)]
    by (simp add: replay_matches_def installed_slot_def last_chain_tag_def start_replay_def seeds_of_def)
  moreover have "head_ok env (installed_slot r)"
    using f run by (simp add: head_ok_def installed_slot_def last_chain_tag_def)
  moreover have "list_all (entry_ok env (lh_run_id head)) entries"
    using run(3,7) by (auto simp: list_all_iff entry_ok_def)
  ultimately show "slot_ok env (installed_slot r)"
    using st f unfolding slot_ok_def by (auto simp: installed_slot_def)
qed

lemma restore_keeps:
  assumes ok: "vault_ok env v"
  shows "keeps env v (snd (restore_run env v entries head))"
proof (cases "replay_run env entries head")
  case (Inl e)
  with keeps_refl [OF ok] show ?thesis by (simp add: restore_run_def Let_def)
next
  case (Inr r)
  note new = replay_run_slot_ok [OF Inr]
  let ?run = "lh_run_id (ry_head r)"
  let ?s = "installed_slot r"
  let ?v = "publish ?run (ry_head r) (ry_projection r) (store_slot ?s v)"
  have s: "sl_run_id ?s = ?run" "sl_append_leases ?s = 0" "sl_head ?s = Some (ry_head r)"
    "sl_projection ?s = ry_projection r"
    by (simp_all add: installed_slot_def)
  have wf: "dict_wf (va_slots v)" using ok by (simp add: vault_ok_def)
  show ?thesis
  proof (cases "has_key (va_slots v) ?run \<or> has_key (va_trusted_heads v) ?run")
    case True
    with Inr keeps_refl [OF ok] show ?thesis by (simp add: restore_run_def Let_def)
  next
    case False
    then have none: "dict_get (va_slots v) ?run = None" by (simp add: no_key)
    have "vault_ok env ?v"
      by (rule vault_ok_store [OF ok new(1)]) (use s wf in \<open>simp_all add: slot_published_def unwritten_def\<close>)
    moreover have "ledgers_extend v ?v"
      using none s by (auto simp: ledgers_extend_def)
    ultimately show ?thesis using False Inr by (simp add: restore_run_def Let_def keeps_def)
  qed
qed

section \<open>Failures change nothing\<close>

lemma dict_set_same: "dict_get d k = Some v \<Longrightarrow> dict_set k v d = d"
  unfolding dict_set_def by (induction d) (auto split: if_splits)

lemma dict_set_twice: "dict_set k v (dict_set k w d) = dict_set k v d"
  unfolding dict_set_def by (induction d) auto

lemma dict_del_fresh: "dict_get d k = None \<Longrightarrow> dict_del k (dict_set k v d) = d"
  unfolding dict_set_def dict_del_def by (induction d) (auto simp: filter_id_conv split: if_splits)

lemma acquire_release:
  assumes ok: "vault_ok env v" and acq: "acquire_append_slot v run = Inr (v1, s)"
  shows "release_append_slot s v1 = v"
proof (cases "dict_get (va_slots v) run")
  case None
  with acq have "v1 = v\<lparr>va_slots := dict_set run s (va_slots v)\<rparr>" "s = (new_slot run)\<lparr>sl_append_leases := 1\<rparr>"
    by (auto simp: acquire_append_slot_def Let_def split: if_splits)
  with None show ?thesis
    by (simp add: release_append_slot_def Let_def unwritten_def dict_del_fresh)
next
  case (Some t)
  note old = vault_ok_slot [OF ok Some]
  from acq Some have v1: "v1 = v\<lparr>va_slots := dict_set run s (va_slots v)\<rparr>"
    and s: "s = t\<lparr>sl_append_leases := sl_append_leases t + 1\<rparr>"
    by (auto simp: acquire_append_slot_def Let_def split: if_splits)
  have "release_append_slot s v1 =
      v\<lparr>va_slots := dict_set run (t\<lparr>sl_append_leases := sl_append_leases t\<rparr>) (dict_set run s (va_slots v))\<rparr>"
    using old v1 unfolding s by (simp add: release_append_slot_def Let_def slot_published_def)
  then show ?thesis using Some by (simp add: dict_set_twice dict_set_same)
qed

lemma on_append_slot_Inl:
  assumes ok: "vault_ok env v" and "fst (on_append_slot v run body) = Inl e"
  shows "snd (on_append_slot v run body) = v"
proof (cases "acquire_append_slot v run")
  case (Inl a)
  then show ?thesis by (simp add: on_append_slot_def)
next
  case (Inr x)
  obtain v1 s where x: "x = (v1, s)" by (cases x)
  with Inr assms(2) obtain a where "body v1 s = Inl a"
    by (cases "body v1 s") (auto simp: on_append_slot_def)
  with Inr x acquire_release [OF ok] show ?thesis by (simp add: on_append_slot_def)
qed

lemma command_on_slot_Inl:
  "fst (command_on_slot env v valid cmd operation run body) = Inl e \<Longrightarrow>
     snd (command_on_slot env v valid cmd operation run body) = v"
  by (auto simp: command_on_slot_def split: sum.splits intro: on_slot_Inl)

lemma cycle_operation_Inl:
  "fst (begin_cycle env v bc) = Inl e \<Longrightarrow> snd (begin_cycle env v bc) = v"
  "fst (reserve_cycle env v rc) = Inl e \<Longrightarrow> snd (reserve_cycle env v rc) = v"
  "fst (mark_cycle_running env v sc) = Inl e \<Longrightarrow> snd (mark_cycle_running env v sc) = v"
  "fst (commit_cycle env v cc) = Inl e \<Longrightarrow> snd (commit_cycle env v cc) = v"
  "fst (fail_cycle env v fc) = Inl e \<Longrightarrow> snd (fail_cycle env v fc) = v"
  unfolding begin_cycle_def reserve_cycle_def mark_cycle_running_def commit_cycle_def fail_cycle_def
  by (erule command_on_slot_Inl)+

lemma delivery_operation_Inl:
  "fst (claim_delivery env v cl) = Inl e \<Longrightarrow> snd (claim_delivery env v cl) = v"
  "fst (begin_delivery_attempt env v ba) = Inl e \<Longrightarrow> snd (begin_delivery_attempt env v ba) = v"
  "fst (complete_delivery env v cd) = Inl e \<Longrightarrow> snd (complete_delivery env v cd) = v"
  "fst (mark_delivery_unknown env v mk) = Inl e \<Longrightarrow> snd (mark_delivery_unknown env v mk) = v"
  "fst (reject_delivery env v rj) = Inl e \<Longrightarrow> snd (reject_delivery env v rj) = v"
  unfolding claim_delivery_def begin_delivery_attempt_def complete_delivery_def mark_delivery_unknown_def
    reject_delivery_def
  by (erule command_on_slot_Inl)+

lemma recover_operation_Inl:
  "fst (recover_cycles env v run t) = Inl e \<Longrightarrow> snd (recover_cycles env v run t) = v"
  "fst (recover_deliveries env v run t) = Inl e \<Longrightarrow> snd (recover_deliveries env v run t) = v"
  "fst (rebuild env v run) = Inl e \<Longrightarrow> snd (rebuild env v run) = v"
  by (auto simp: recover_cycles_def recover_deliveries_def rebuild_def split: sum.splits intro: on_slot_Inl)

lemma direct_operation_Inl:
  "fst (record_direct env v r operation i) = Inl e \<Longrightarrow> snd (record_direct env v r operation i) = v"
  "fst (record_signal_if_head env v s h) = Inl e \<Longrightarrow> snd (record_signal_if_head env v s h) = v"
  by (auto simp: record_direct_def record_signal_if_head_def split: sum.splits repo_error.splits intro: on_slot_Inl)

lemma append_operation_Inl:
  assumes "vault_ok env v"
  shows "fst (append_event env v event given made) = Inl e \<Longrightarrow> snd (append_event env v event given made) = v"
    and "fst (append_event_if_head env v event i h) = Inl e \<Longrightarrow> snd (append_event_if_head env v event i h) = v"
    and "fst (append_records_if_head env v ops h) = Inl e \<Longrightarrow> snd (append_records_if_head env v ops h) = v"
  by (auto simp: append_event_def append_event_if_head_def append_records_if_head_def split: sum.splits
      intro: on_append_slot_Inl [OF assms])

lemma repo_step_failed:
  assumes ok: "vault_ok env v" and "fst (repo_step env operation v) = Some e"
  shows "snd (repo_step env operation v) = v"
  using assms(2)
  by (cases operation)
    (auto simp: record_signal_def record_invocation_decision_def record_outcome_def restore_run_def Let_def
      cycle_operation_Inl delivery_operation_Inl recover_operation_Inl direct_operation_Inl
      append_operation_Inl [OF ok] split: sum.splits if_splits)

section \<open>Every operation keeps the invariant\<close>

lemma command_on_slot_keeps:
  assumes ok: "vault_ok env v" and body: "\<And>s r v' s'. valid \<Longrightarrow> body s = Inr (r, v', s') \<Longrightarrow> advanced env v s v' s'"
  shows "keeps env v (snd (command_on_slot env v valid cmd operation run body))"
proof (cases "accept_command env valid cmd operation")
  case (Inl e)
  with keeps_refl [OF ok] show ?thesis by (simp add: command_on_slot_def)
next
  case (Inr u)
  then have valid by (simp add: accept_command_def split: if_splits)
  have "keeps env v (snd (on_slot v run (\<lambda>s. bind_result (verify_head env v s True) (\<lambda>_. body s))))"
    by (rule on_slot_keeps [OF ok]) (auto simp: bind_result_Inr intro: body [OF \<open>valid\<close>])
  with Inr show ?thesis by (simp add: command_on_slot_def)
qed

lemma cycle_operation_keeps:
  assumes "vault_ok env v"
  shows "keeps env v (snd (begin_cycle env v bc))" and "keeps env v (snd (reserve_cycle env v rc))"
    and "keeps env v (snd (mark_cycle_running env v sc))" and "keeps env v (snd (commit_cycle env v cc))"
    and "keeps env v (snd (fail_cycle env v fc))"
  unfolding begin_cycle_def reserve_cycle_def mark_cycle_running_def commit_cycle_def fail_cycle_def
  by (rule command_on_slot_keeps [OF assms]; erule cycle_steps_advanced commit_cycle_body_advanced)+

lemma delivery_operation_keeps:
  assumes "vault_ok env v"
  shows "keeps env v (snd (claim_delivery env v cl))" and "keeps env v (snd (begin_delivery_attempt env v ba))"
    and "keeps env v (snd (complete_delivery env v cd))" and "keeps env v (snd (mark_delivery_unknown env v mk))"
    and "keeps env v (snd (reject_delivery env v rj))"
  unfolding claim_delivery_def begin_delivery_attempt_def complete_delivery_def mark_delivery_unknown_def
    reject_delivery_def
  by (rule command_on_slot_keeps [OF assms]; erule delivery_steps_advanced begin_attempt_body_advanced)+

lemma recover_operation_keeps:
  assumes "vault_ok env v"
  shows "keeps env v (snd (recover_cycles env v run t))" and "keeps env v (snd (recover_deliveries env v run t))"
  unfolding recover_cycles_def recover_deliveries_def
  using keeps_refl [OF assms]
  by (auto split: sum.splits simp: bind_result_Inr intro!: on_slot_keeps [OF assms]
      intro: recover_cycles_body_advanced recover_deliveries_body_advanced)

lemma record_direct_keeps:
  assumes ok: "vault_ok env v" and key: "direct_key r = Some (operation, i)"
  shows "keeps env v (snd (record_direct env v r operation i))"
proof (cases "bind_result (validate_direct_record r operation) (\<lambda>r. validate_record_content env (en_dump env r) operation)")
  case (Inl e)
  with keeps_refl [OF ok] show ?thesis by (simp add: record_direct_def)
next
  case (Inr u)
  then have "valid_ledger_record (en_hash env) r"
    by (auto simp: validate_direct_record_def bind_result_Inr valid_ledger_record_def split: if_splits ledger_record.splits)
  then have "keeps env v (snd (on_slot v (rec_run_id r) (\<lambda>s. record_direct_locked env v s r operation i True True)))"
    by (intro on_slot_keeps [OF ok] record_direct_locked_grows(3) [OF _ _ key]) auto
  with Inr show ?thesis by (simp add: record_direct_def)
qed

lemma record_signal_if_head_keeps:
  assumes ok: "vault_ok env v"
  shows "keeps env v (snd (record_signal_if_head env v s h))"
proof -
  have "keeps env v (snd (on_slot v (sg_run_id s) (\<lambda>slot.
      bind_result (require_expected_head env v slot (Some h')) (\<lambda>_.
        record_direct_locked env v slot (Rec_signal s) ''signal'' (sg_signal_id s) True True))))"
    if "valid_signal s" for h'
    by (rule on_slot_keeps [OF ok])
      (use that in \<open>auto simp: bind_result_Inr valid_ledger_record_def intro: record_direct_locked_grows(3)\<close>)
  then show ?thesis
    using keeps_refl [OF ok]
    by (auto simp: record_signal_if_head_def validate_direct_record_def bind_result_Inr
        split: sum.splits repo_error.splits if_splits)
qed

lemma append_operation_keeps:
  assumes ok: "vault_ok env v"
  shows "keeps env v (snd (append_event env v event given made))"
    and "keeps env v (snd (append_event_if_head env v event i h))"
  using keeps_refl [OF ok]
  by (auto simp: append_event_def append_event_if_head_def bind_result_Inr split: sum.splits
      intro!: on_append_slot_keeps [OF ok] intro: append_to_slot_advanced append_conditional_grows(3))

lemma append_records_keeps:
  assumes ok: "vault_ok env v"
  shows "keeps env v (snd (append_records_if_head env v ops h))"
proof -
  have "list_all prepared_ok ps" if "prepare_conditional_batch env ops = Inr (run, ps)" for run ps
    using that by (auto simp: prepare_conditional_batch_def bind_result_Inr split: if_splits option.splits
        dest: prepare_operations_ok)
  then show ?thesis
    using keeps_refl [OF ok]
    by (auto simp: append_records_if_head_def bind_result_Inr split: sum.splits
        intro!: on_append_slot_keeps [OF ok] intro: run_conditional_batch_advanced)
qed

lemma repo_step_keeps:
  assumes ok: "vault_ok env v"
  shows "keeps env v (snd (repo_step env operation v))"
  by (cases operation)
    (simp_all add: record_signal_def record_invocation_decision_def record_outcome_def cycle_operation_keeps [OF ok]
      delivery_operation_keeps [OF ok] recover_operation_keeps [OF ok] record_direct_keeps [OF ok]
      record_signal_if_head_keeps [OF ok] append_operation_keeps [OF ok] append_records_keeps [OF ok]
      restore_keeps [OF ok] rebuild_keeps [OF ok])

section \<open>The contract of a durable store\<close>

locale durable_store =
  fixes step :: "'op \<Rightarrow> 's \<Rightarrow> 'e option \<times> 's"
    and sound :: "'s \<Rightarrow> bool"
    and extends :: "'s \<Rightarrow> 's \<Rightarrow> bool"
  assumes step_sound: "sound s \<Longrightarrow> sound (snd (step x s))"
    and step_extends: "sound s \<Longrightarrow> extends s (snd (step x s))"
    and step_atomic: "sound s \<Longrightarrow> fst (step x s) = Some e \<Longrightarrow> snd (step x s) = s"
    and extends_refl: "extends s s"
    and extends_trans: "extends s t \<Longrightarrow> extends t u \<Longrightarrow> extends s u"
begin

definition run_steps :: "'op list \<Rightarrow> 's \<Rightarrow> 's" where
  "run_steps xs s = fold (\<lambda>x s. snd (step x s)) xs s"

lemma run_steps_simps [simp]: "run_steps [] s = s" "run_steps (x # xs) s = run_steps xs (snd (step x s))"
  by (simp_all add: run_steps_def)

lemma run_steps_append: "run_steps (xs @ ys) s = run_steps ys (run_steps xs s)"
  by (simp add: run_steps_def)

lemma run_sound: "sound s \<Longrightarrow> sound (run_steps xs s)"
  by (induction xs arbitrary: s) (simp_all add: step_sound)

lemma run_extends: "sound s \<Longrightarrow> extends s (run_steps xs s)"
  by (induction xs arbitrary: s) (auto intro: extends_refl extends_trans step_extends step_sound)

text \<open>A sequence has the effect of its successful operations alone.\<close>

fun accepted :: "'op list \<Rightarrow> 's \<Rightarrow> 'op list" where
  "accepted [] s = []"
| "accepted (x # xs) s =
     (if fst (step x s) = None then x # accepted xs (snd (step x s)) else accepted xs s)"

lemma run_accepted: "sound s \<Longrightarrow> run_steps (accepted xs s) s = run_steps xs s"
proof (induction xs arbitrary: s)
  case (Cons x xs)
  show ?case
  proof (cases "fst (step x s)")
    case None
    with Cons.IH [OF step_sound [OF Cons.prems]] show ?thesis by simp
  next
    case (Some e)
    with Cons.IH [OF Cons.prems] step_atomic [OF Cons.prems Some] show ?thesis by simp
  qed
qed simp

end

interpretation repository: durable_store "repo_step env" "vault_ok env" ledgers_extend for env
proof unfold_locales
  fix s x
  assume "vault_ok env s"
  from repo_step_keeps [OF this] show "vault_ok env (snd (repo_step env x s))" "ledgers_extend s (snd (repo_step env x s))"
    unfolding keeps_def by blast+
qed (auto intro: repo_step_failed ledgers_extend_refl elim: ledgers_extend_trans)

lemma run_operations_steps: "run_operations env ops v = repository.run_steps env ops v"
  by (simp add: run_operations_def repository.run_steps_def)

end
