(* ===== verification/Repository_Facts.thy ===== *)
theory Repository_Facts
  imports Repository_Operations
begin

text \<open>
  What the repository invariant gives the properties: the projection of a stored run is the fold of
  its ledger, the ledger and the head verify, an appended event is found again, a repeated command
  meets the revision it has written.
\<close>

section \<open>Stored slots\<close>

lemma replay_entries_project:
  "fold_result (replay_entry env) es st = Inr st' \<Longrightarrow>
     fold_result (\<lambda>e p. apply_entry (en_hash env) (en_float env) p e) es (rp_projection st) = Inr (rp_projection st') \<and>
     verify_entries env es (rp_position st) (rp_chain_tag st) = Inr ()"
proof (induction es arbitrary: st)
  case (Cons e es)
  from Cons.prems obtain st1 where one: "replay_entry env e st = Inr st1"
    and rest: "fold_result (replay_entry env) es st1 = Inr st'"
    by (auto simp only: fold_result.simps bind_result_Inr)
  from Cons.IH [OF rest] replay_entry_Inr [OF one] show ?case by (simp add: bind_result_Inr)
qed simp

lemma slot_ok_project:
  assumes "slot_ok env s"
  shows "project_entries (en_hash env) (en_float env) (sl_run_id s) (sl_ledger s) = Inr (sl_projection s)"
    and "verify_entries env (sl_ledger s) 1 None = Inr ()"
    and "reachable (en_hash env) (en_float env) (sl_run_id s) (sl_projection s)"
proof -
  from assms obtain st where st: "fold_result (replay_entry env) (sl_ledger s) (start_replay (sl_run_id s)) = Inr st"
    "replay_matches st s"
    unfolding slot_ok_def by blast
  note p = replay_entries_project [OF st(1)]
  show proj: "project_entries (en_hash env) (en_float env) (sl_run_id s) (sl_ledger s) = Inr (sl_projection s)"
    using p st(2) by (simp add: project_entries_def start_replay_def replay_matches_def)
  show "verify_entries env (sl_ledger s) 1 None = Inr ()"
    using p by (simp add: start_replay_def)
  show "reachable (en_hash env) (en_float env) (sl_run_id s) (sl_projection s)"
    using assms by (intro project_entries_reachable [OF proj]) (auto simp: slot_ok_def list_all_iff entry_ok_def)
qed

lemma verify_head_ok:
  assumes "slot_ok env s" and "slot_published v s"
  shows "verify_head env v s True = Inr ()"
proof (cases "sl_head s")
  case None
  with assms show ?thesis by (auto simp: slot_published_def unwritten_def slot_ok_def head_ok_def)
next
  case (Some h)
  with assms show ?thesis
    by (auto simp: verify_head_def slot_published_def slot_ok_def head_ok_def result_simps)
qed

lemma find_stored:
  assumes "vault_ok env v" and "dict_get (va_slots v) run = Some s"
  shows "find_slot v run = Inr s" and "verify_head env v s True = Inr ()"
    and "verify_ledger env v s = Inr ()" and "uuid4 run"
proof -
  note old = vault_ok_slot [OF assms]
  show "find_slot v run = Inr s" using assms(2) old(4) by (simp add: find_slot_def slot_published_def)
  show head: "verify_head env v s True = Inr ()" by (rule verify_head_ok [OF old(2,4)])
  show "verify_ledger env v s = Inr ()" using head slot_ok_project(2) [OF old(2)] by (simp add: verify_ledger_def)
  from old(2,4) have "sl_ledger s \<noteq> []" "list_all (entry_ok env run) (sl_ledger s)"
    using old(1) by (auto simp: slot_published_def unwritten_def slot_ok_def head_ok_def split: option.splits)
  then show "uuid4 run" by (cases "sl_ledger s") (auto simp: entry_ok_def valid_ledger_entry_def)
qed

lemma run_operations_ok: "vault_ok env (run_operations env ops empty_vault)"
  unfolding run_operations_steps by (rule repository.run_sound [OF vault_ok_empty])

section \<open>Appending again\<close>

lemma identity_of_trace_event [simp]: "event_identity env (trace_event_of r n i) = draft_identity env r"
  by (simp add: event_identity_def draft_identity_def trace_event_of_def)

lemma make_trace_event_of: "make_trace_event r n given made = Inr e \<Longrightarrow>
    ev_sequence e = n \<and> ev_source_event_id e = dr_source_event_id r \<and> event_identity env e = draft_identity env r"
  by (auto simp: make_trace_event_def bind_result_Inr Let_def split: if_splits)
    (simp_all add: trace_event_of_def)

lemma stage_event:
  assumes "stage_entry env s (Rec_event e) = Inr (entry, p, head)"
  shows "apply_event (sl_projection s) entry e = Inr p"
  using stage_entry_Inr(5) [OF assms] stage_entry_Inr(2) [OF assms] by (auto simp: apply_entry_def split: if_splits)

lemma duplicate_receipt:
  assumes "dict_get (pr_events_by_source (sl_projection s)) src = Some e"
    and "dict_get (pr_event_positions (sl_projection s)) (ev_event_id e) = Some position"
    and "valid_trace_event e" and "1 \<le> position" and "1 \<le> ev_sequence e"
    and "ev_sequence e \<le> pr_ingestion_cursor (sl_projection s)"
  shows "duplicate_event_receipt s e = Inr \<lparr>ar_disposition = Disposition_DUPLICATE, ar_event = e,
    ar_ledger_position = position, ar_ingestion_cursor = pr_ingestion_cursor (sl_projection s), ar_collision_event = None\<rparr>"
  using assms by (simp add: duplicate_event_receipt_def valid_append_receipt_def Let_def)

definition retried :: "append_receipt \<Rightarrow> append_receipt" where
  "retried r = (if ar_disposition r = Disposition_APPENDED then r\<lparr>ar_disposition := Disposition_DUPLICATE\<rparr> else r)"

lemma append_again_new:
  assumes "append_new_event env v s draft redacted given made True = Inr (r, v', s')"
  shows "\<exists>e. dict_get (pr_events_by_source (sl_projection s')) (dr_source_event_id redacted) = Some e \<and>
      event_identity env e = draft_identity env redacted \<and> duplicate_event_receipt s' e = Inr (retried r)"
proof -
  from assms obtain e entry p head where e: "make_trace_event redacted (pr_ingestion_cursor (sl_projection s) + 1) given made = Inr e"
    and stage: "stage_entry env s (Rec_event e) = Inr (entry, p, head)"
    and r: "r = \<lparr>ar_disposition = Disposition_APPENDED, ar_event = e, ar_ledger_position = le_position entry,
            ar_ingestion_cursor = pr_ingestion_cursor p, ar_collision_event = None\<rparr>"
    and valid: "valid_append_receipt r" and s': "s' = extend_slot entry p head s"
    unfolding append_new_event_def Let_def by (auto simp: bind_result_Inr split: if_splits)
  note made = make_trace_event_of [OF e]
  have p: "dict_get (pr_events_by_source p) (dr_source_event_id redacted) = Some e"
    "dict_get (pr_event_positions p) (ev_event_id e) = Some (le_position entry)"
    "pr_ingestion_cursor p = ev_sequence e"
    using stage_event [OF stage] made by (auto simp: apply_event_Inr)
  have "duplicate_event_receipt s' e = Inr (retried r)"
    using p valid s' r by (simp add: duplicate_event_receipt_def valid_append_receipt_def Let_def retried_def)
  with p made s' show ?thesis by auto
qed

lemma append_again_collision:
  assumes "record_collision env v s existing redacted made = Inr (r, v', s')"
    and "dict_get (pr_events_by_source (sl_projection s)) src = Some existing"
  shows "dict_get (pr_events_by_source (sl_projection s')) src = Some existing \<and>
      record_collision env w s' existing redacted made' = Inr (r, w, s')"
proof -
  from assms(1) obtain fp where fp: "tag (en_integrity env) ''saliencegate:source-collision:v1''
        (JObj [(''existing_event_id'', JStr (uuid_str (ev_event_id existing))),
               (''incoming_identity'', JObj (draft_identity env redacted))]) = Inr fp"
    and out: "(case dict_get (sl_collision_receipts s) (pd_value fp) of
       Some cached \<Rightarrow> Inr (cached, v, s)
     | None \<Rightarrow> record_new_collision env v s existing redacted fp made) = Inr (r, v', s')"
    unfolding record_collision_def bind_result_Inr by blast
  show ?thesis
  proof (cases "dict_get (sl_collision_receipts s) (pd_value fp)")
    case (Some cached)
    with out fp assms(2) show ?thesis by (simp add: record_collision_def)
  next
    case None
    with out obtain e entry p head where stage: "stage_entry env s (Rec_event e) = Inr (entry, p, head)"
      and s': "s' = (extend_slot entry p head s)\<lparr>sl_collision_receipts :=
              dict_set (pd_value fp) r (sl_collision_receipts s)\<rparr>"
      by (auto simp: record_new_collision_def Let_def bind_result_Inr split: if_splits)
    from stage_event [OF stage] assms(2)
    have "dict_get (pr_events_by_source p) src = Some existing"
      by (auto simp: apply_event_Inr no_key)
    with s' fp show ?thesis by (simp add: record_collision_def)
  qed
qed

lemma append_to_slot_again:
  assumes "append_to_slot env v s draft redacted given made = Inr (r, v', s')"
    and src: "dr_source_event_id redacted = dr_source_event_id draft"
    and "verify_head env w s' True = Inr ()"
  shows "\<exists>r'\<in>{r, r\<lparr>ar_disposition := Disposition_DUPLICATE\<rparr>}.
    append_to_slot env w s' draft redacted given' made' = Inr (r', w, s')"
proof -
  have verified: "(if unwritten s' then Inr () else verify_head env w s' True) = Inr ()" using assms(3) by simp
  show ?thesis
  proof (cases "dict_get (pr_events_by_source (sl_projection s)) (dr_source_event_id draft)")
    case None
    with assms(1) have "append_new_event env v s draft redacted given made True = Inr (r, v', s')"
      by (simp add: append_to_slot_def bind_result_Inr)
    from append_again_new [OF this] obtain e where e: "dict_get (pr_events_by_source (sl_projection s')) (dr_source_event_id draft) = Some e"
      "event_identity env e = draft_identity env redacted" "duplicate_event_receipt s' e = Inr (retried r)"
      unfolding src by blast
    have "append_to_slot env w s' draft redacted given' made' = Inr (retried r, w, s')"
      using e verified by (simp add: append_to_slot_def same_identity_def)
    then show ?thesis by (auto simp: retried_def split: if_splits)
  next
    case (Some existing)
    show ?thesis
    proof (cases "same_identity env existing redacted")
      case True
      with assms(1) Some have "s' = s" "duplicate_event_receipt s existing = Inr r"
        by (auto simp: append_to_slot_def bind_result_Inr)
      with True Some assms(3) show ?thesis by (simp add: append_to_slot_def)
    next
      case False
      with assms(1) Some have "record_collision env v s existing redacted made = Inr (r, v', s')"
        by (simp add: append_to_slot_def bind_result_Inr)
      from append_again_collision [OF this Some] False verified show ?thesis by (simp add: append_to_slot_def)
    qed
  qed
qed

lemma leases_same: "sl_append_leases s = n \<Longrightarrow> s\<lparr>sl_append_leases := n\<rparr> = s"
  by auto

lemma on_append_slot_again:
  assumes ok: "vault_ok env v" and first: "on_append_slot v run body = (Inr r, w)"
    and body: "\<And>v s r v' s'. body v s = Inr (r, v', s') \<Longrightarrow> advanced env v s v' s'"
    and again: "\<And>v1 s v2 s' u. body v1 s = Inr (r, v2, s') \<Longrightarrow> verify_head env u s' True = Inr () \<Longrightarrow>
      \<exists>r'\<in>R. body' u s' = Inr (r', u, s')"
    and written: "\<And>v1 s v2 s'. slot_ok env s \<Longrightarrow> body v1 s = Inr (r, v2, s') \<Longrightarrow> \<not> unwritten s'"
  shows "\<exists>r'\<in>R. on_append_slot w run body' = (Inr r', w)"
proof -
  from first obtain v1 s v2 s' where acq: "acquire_append_slot v run = Inr (v1, s)"
    and step: "body v1 s = Inr (r, v2, s')" and w: "w = release_append_slot s' v2"
    by (auto simp: on_append_slot_def split: sum.splits)
  note adv = body [OF step]
  have one: "sl_append_leases s = 1" "sl_run_id s = run"
    using acq vault_ok_slot [OF ok, of run] by (auto simp: acquire_append_slot_def Let_def split: option.splits if_splits)
  have "slot_ok env s"
    using acq vault_ok_slot [OF ok, of run] slot_ok_new
    by (auto simp: acquire_append_slot_def Let_def split: option.splits if_splits)
  note written = written [OF this step]
  have s': "sl_append_leases s' = 1" "sl_run_id s' = run"
    using adv grows_run one by (auto simp: advanced_def)
  have "keeps env v (snd (on_append_slot v run body))" by (rule on_append_slot_keeps [OF ok body])
  then have okw: "vault_ok env w" using first by (simp add: keeps_def)
  have "dict_get (va_slots w) run = Some (s'\<lparr>sl_append_leases := 0\<rparr>)"
    unfolding w using written s' by (simp add: release_append_slot_def Let_def)
  note old = vault_ok_slot [OF okw this] find_stored(2) [OF okw this]
  let ?u = "v2\<lparr>va_slots := dict_set run s' (va_slots v2)\<rparr>"
  have "sl_run_id s' = run" using s' by simp
  have acq': "acquire_append_slot w run = Inr (?u, s')"
    unfolding w using written s'
    by (simp add: release_append_slot_def acquire_append_slot_def Let_def dict_set_twice leases_same)
  have heads: "va_trusted_heads ?u = va_trusted_heads w" "va_trusted_projections ?u = va_trusted_projections w"
    unfolding w using written s' by (simp_all add: release_append_slot_def Let_def)
  have "verify_head env ?u s' True = Inr ()"
    using old(2,4) heads s' by (intro verify_head_ok) (simp_all add: slot_published_def)
  from again [OF step this] obtain r' where r': "r' \<in> R" "body' ?u s' = Inr (r', ?u, s')" by blast
  have "release_append_slot s' ?u = w"
    unfolding w using written s' by (simp add: release_append_slot_def Let_def dict_set_twice)
  with acq' r' show ?thesis by (auto simp: on_append_slot_def)
qed

lemma unwritten_projection: "slot_ok env s \<Longrightarrow> unwritten s \<Longrightarrow> sl_projection s = empty_projection (sl_run_id s)"
  by (auto simp: slot_ok_def unwritten_def replay_matches_def start_replay_def)

lemma append_to_slot_written:
  assumes "slot_ok env s" and "append_to_slot env v s draft redacted given made = Inr (r, v', s')"
  shows "\<not> unwritten s'"
proof (cases "dict_get (pr_events_by_source (sl_projection s)) (dr_source_event_id draft)")
  case None
  with assms(2) show ?thesis
    by (auto simp: append_to_slot_def append_new_event_def bind_result_Inr Let_def unwritten_def split: if_splits)
next
  case (Some e)
  then have "\<not> unwritten s" using unwritten_projection [OF assms(1)] by (auto simp: empty_projection_def)
  moreover from append_to_slot_advanced [OF assms(2)] have "grows env s s'" by (simp add: advanced_def)
  moreover have "\<not> unwritten s'" if "grows env s s'" "\<not> unwritten s" for s'
    using that by (induction rule: grows.induct) (auto simp: written_def unwritten_def)
  ultimately show ?thesis by blast
qed

lemma redact_draft_source: "redact_draft env d = Inr r \<Longrightarrow> dr_source_event_id r = dr_source_event_id d"
  by (auto simp: redact_draft_def redact_event_def Let_def split: option.splits sum.splits if_splits)

lemma append_event_again:
  assumes ok: "vault_ok env v" and first: "append_event env v event given made = (Inr r, w)"
  shows "\<exists>r'\<in>{r, r\<lparr>ar_disposition := Disposition_DUPLICATE\<rparr>}. append_event env w event given made' = (Inr r', w)"
proof -
  let ?prep = "bind_result (validate_draft event) (\<lambda>draft.
     bind_result (case given of None \<Rightarrow> Inr None | Some i \<Rightarrow> map_sum id Some (validate_run_id i)) (\<lambda>given.
     bind_result (validate_metadata env draft) (\<lambda>_.
     bind_result (redact_draft env draft) (\<lambda>redacted. Inr (draft, given, redacted)))))"
  from first obtain draft given' redacted where prep: "?prep = Inr (draft, given', redacted)"
    and run: "on_append_slot v (dr_run_id draft) (\<lambda>v s. append_to_slot env v s draft redacted given' made) = (Inr r, w)"
    unfolding append_event_def by (auto split: sum.splits)
  have src: "dr_source_event_id redacted = dr_source_event_id draft"
    using prep redact_draft_source by (auto simp: bind_result_Inr)
  have "\<exists>r'\<in>{r, r\<lparr>ar_disposition := Disposition_DUPLICATE\<rparr>}.
      on_append_slot w (dr_run_id draft) (\<lambda>v s. append_to_slot env v s draft redacted given' made') = (Inr r', w)"
    by (rule on_append_slot_again [OF ok run])
      (blast intro: append_to_slot_advanced append_to_slot_again [OF _ src] dest: append_to_slot_written)+
  then show ?thesis unfolding append_event_def prep by simp
qed

section \<open>Reading a ledger later\<close>

lemma run_reads_extend:
  assumes "read_ledger env (run_operations env ops empty_vault) run = Inr es"
  shows "\<exists>fs. read_ledger env (run_operations env (ops @ later) empty_vault) run = Inr (es @ fs)"
proof -
  let ?v = "run_operations env ops empty_vault" and ?w = "run_operations env (ops @ later) empty_vault"
  from assms obtain s where s: "dict_get (va_slots ?v) run = Some s" "es = sl_ledger s"
    by (auto simp: read_ledger_def bind_result_Inr dest: find_slot_Inr)
  have "ledgers_extend ?v ?w"
    using repository.run_extends [OF run_operations_ok] by (simp add: run_operations_steps repository.run_steps_append)
  then obtain t fs where t: "dict_get (va_slots ?w) run = Some t" "sl_ledger t = sl_ledger s @ fs"
    using s(1) unfolding ledgers_extend_def by blast
  then show ?thesis
    using find_stored [OF run_operations_ok t(1)] s(2) by (simp add: read_ledger_def validate_run_id_def)
qed

end
