(* ===== verification/Repository_Retries.thy ===== *)
theory Repository_Retries
  imports Repository_Facts
begin

text \<open>
  Retried commands. A command that has been recorded and is sent again meets the revision it wrote:
  it is answered with the cached receipt, marked as not appended, and nothing changes.
\<close>

section \<open>The slot a command leaves\<close>

lemma on_slot_again:
  assumes ok: "vault_ok env v" and first: "on_slot v run body = (Inr r, w)"
    and body: "\<And>s r v' s'. find_slot v run = Inr s \<Longrightarrow> body s = Inr (r, v', s') \<Longrightarrow> advanced env v s v' s'"
    and again: "\<And>s v' s'. slot_ok env s \<Longrightarrow> body s = Inr (r, v', s') \<Longrightarrow> slot_ok env s' \<Longrightarrow>
      verify_head env w s' True = Inr () \<Longrightarrow> body' s' = Inr (r', w, s')"
  shows "on_slot w run body' = (Inr r', w)"
proof -
  from first obtain s v' s' where s: "find_slot v run = Inr s" "body s = Inr (r, v', s')" and w: "w = store_slot s' v'"
    by (rule on_slot_Inr)
  note got = conjunct1 [OF find_slot_Inr [OF s(1)]]
  note old = vault_ok_slot [OF ok got]
  have "keeps env v (snd (on_slot v run body))" by (rule on_slot_keeps [OF ok body])
  then have okw: "vault_ok env w" using first by (simp add: keeps_def)
  have "sl_run_id s' = run" using body [OF s] grows_run old(1) by (auto simp: advanced_def)
  then have got': "dict_get (va_slots w) run = Some s'" by (simp add: w)
  note found = find_stored [OF okw got']
  from again [OF old(2) s(2) vault_ok_slot(2) [OF okw got'] found(2)] have "body' s' = Inr (r', w, s')" .
  moreover have "store_slot s' w = w"
    using got' \<open>sl_run_id s' = run\<close> by (simp add: store_slot_def dict_set_same)
  ultimately show ?thesis using found(1) by (simp add: on_slot_def)
qed

lemma command_on_slot_again:
  assumes ok: "vault_ok env v" and first: "command_on_slot env v valid cmd operation run body = (Inr r, w)"
    and body: "\<And>s r v' s'. body s = Inr (r, v', s') \<Longrightarrow> advanced env v s v' s'"
    and again: "\<And>s v' s'. slot_ok env s \<Longrightarrow> body s = Inr (r, v', s') \<Longrightarrow> slot_ok env s' \<Longrightarrow> body' s' = Inr (r', w, s')"
  shows "command_on_slot env w valid cmd operation run body' = (Inr r', w)"
proof -
  from first obtain u where u: "accept_command env valid cmd operation = Inr u"
    and run: "on_slot v run (\<lambda>s. bind_result (verify_head env v s True) (\<lambda>_. body s)) = (Inr r, w)"
    by (auto simp: command_on_slot_def split: sum.splits)
  have "on_slot w run (\<lambda>s. bind_result (verify_head env w s True) (\<lambda>_. body' s)) = (Inr r', w)"
    by (rule on_slot_again [OF ok run]) (auto simp: bind_result_Inr intro: body again)
  with u show ?thesis by (simp add: command_on_slot_def)
qed

text \<open>What a command and its retry do, as one statement over its two outcomes.\<close>

lemma command_on_slot_retry:
  assumes ok: "vault_ok env v"
    and body: "\<And>s r v' s'. body v s = Inr (r, v', s') \<Longrightarrow> advanced env v s v' s'"
    and again: "\<And>s r v' s' w. slot_ok env s \<Longrightarrow> body v s = Inr (r, v', s') \<Longrightarrow> body w s' = Inr (f r, w, s')"
  shows "case command_on_slot env v valid cmd operation run (body v) of (Inl e, w) \<Rightarrow> w = v
    | (Inr r, w) \<Rightarrow> command_on_slot env w valid cmd operation run (body w) = (Inr (f r), w)"
proof -
  obtain x w where x: "command_on_slot env v valid cmd operation run (body v) = (x, w)"
    by (cases "command_on_slot env v valid cmd operation run (body v)")
  show ?thesis
  proof (cases x)
    case (Inl e)
    with x command_on_slot_Inl [of env v valid cmd operation run "body v" e] show ?thesis by simp
  next
    case (Inr r)
    with x have "command_on_slot env v valid cmd operation run (body v) = (Inr r, w)" by simp
    from command_on_slot_again [OF ok this body again] have
      "command_on_slot env w valid cmd operation run (body w) = (Inr (f r), w)" .
    with x Inr show ?thesis by simp
  qed
qed

section \<open>The receipt caches\<close>

text \<open>A receipt is cached for exactly the revisions the projection holds.\<close>

definition caches_match :: "replay_state \<Rightarrow> bool" where
  "caches_match st \<longleftrightarrow>
     (\<forall>k. map_option se_record (dict_get (rp_seeds st) k) = dict_get (pr_cycle_history (rp_projection st)) k) \<and>
     (\<forall>k. map_option tr_delivery (dict_get (rp_delivery_records st) k) =
        dict_get (pr_delivery_history (rp_projection st)) k)"

lemma other_histories:
  assumes "apply_entry H F p e = Inr p'" and "\<forall>c. le_record e \<noteq> Rec_cycle c" and "\<forall>d. le_record e \<noteq> Rec_delivery d"
  shows "pr_cycle_history p' = pr_cycle_history p \<and> pr_delivery_history p' = pr_delivery_history p"
proof -
  have "cycles_part p' = cycles_part p \<and> deliveries_part p' = deliveries_part p"
    using assms(1)
    by (cases rule: apply_entry_cases)
      (use assms(2,3) in \<open>auto dest: event_frame(1,3) signal_frame(2,4) outcome_frame(2,4) decision_frame(2,4)\<close>)
  then show ?thesis by (simp add: cycles_part_def deliveries_part_def)
qed

lemma replay_entry_caches:
  assumes "caches_match st" and "replay_entry env e st = Inr st'"
  shows "caches_match st'"
proof -
  let ?p = "rp_projection st" and ?p' = "rp_projection st'"
  have step: "apply_entry (en_hash env) (en_float env) ?p e = Inr ?p'"
    using assms(2) by (rule replay_entry_Inr)
  have seeds: "add_seed e ?p' (rp_seeds st) = Inr (rp_seeds st')"
    and dels: "rp_delivery_records st' = add_delivery e (rp_delivery_records st)"
    using assms(2) unfolding replay_entry_def by (auto simp: bind_result_Inr)
  consider (cycle) c where "le_record e = Rec_cycle c" | (delivery) d where "le_record e = Rec_delivery d"
    | (other) "\<forall>c. le_record e \<noteq> Rec_cycle c" "\<forall>d. le_record e \<noteq> Rec_delivery d"
    by blast
  then show ?thesis
  proof cases
    case cycle
    then have c: "apply_cycle (en_hash env) (en_float env) ?p c = Inr ?p'"
      using step by (simp add: apply_entry_def split: if_splits)
    have "pr_delivery_history ?p' = pr_delivery_history ?p"
      using cycle_frame(2) [OF c] by (simp add: deliveries_part_def)
    moreover from cycle seeds obtain snapshot where "rp_seeds st' = dict_set (cy_cycle_id c, cy_revision c)
        \<lparr>se_record = c, se_record_tag = le_record_tag e, se_ledger_position = le_position e,
         se_chain_tag = le_chain_tag e, se_budget_snapshot = snapshot\<rparr> (rp_seeds st)"
      by (auto simp: add_seed_def bind_result_Inr intro: that [OF sym])
    ultimately show ?thesis
      using assms(1) cycle dels apply_cycle_effect(2) [OF c] by (simp add: caches_match_def add_delivery_def)
  next
    case delivery
    then have d: "apply_delivery (en_hash env) ?p d = Inr ?p'"
      using step by (simp add: apply_entry_def split: if_splits)
    have "pr_cycle_history ?p' = pr_cycle_history ?p"
      using delivery_frame(2) [OF d] by (simp add: cycles_part_def)
    with assms(1) delivery seeds dels apply_delivery_effect(2) [OF d] show ?thesis
      by (auto simp: caches_match_def add_seed_def add_delivery_def)
  next
    case other
    with assms(1) seeds dels other_histories [OF step other] show ?thesis
      by (cases "le_record e") (simp_all add: caches_match_def add_seed_def add_delivery_def)
  qed
qed

lemma slot_caches:
  assumes "slot_ok env s"
  shows "map_option cr_cycle (dict_get (sl_cycle_records s) k) = dict_get (pr_cycle_history (sl_projection s)) k"
    and "map_option tr_delivery (dict_get (sl_delivery_records s) j) = dict_get (pr_delivery_history (sl_projection s)) j"
proof -
  from assms obtain st where st: "fold_result (replay_entry env) (sl_ledger s) (start_replay (sl_run_id s)) = Inr st"
    "replay_matches st s"
    unfolding slot_ok_def by blast
  have "caches_match st"
  proof (rule fold_result_invariant [OF st(1), where P = caches_match])
    show "caches_match (start_replay (sl_run_id s))"
      by (simp add: caches_match_def start_replay_def empty_projection_def)
  qed (rule replay_entry_caches)
  moreover have "map_option se_record (dict_get (map (\<lambda>(k, r). (k, seed_of r)) rs) k) = map_option cr_cycle (dict_get rs k)"
    for rs :: "(digest \<times> int, cycle_receipt) dict"
    by (induction rs) (auto simp: seed_of_def)
  ultimately show "map_option cr_cycle (dict_get (sl_cycle_records s) k) = dict_get (pr_cycle_history (sl_projection s)) k"
    "map_option tr_delivery (dict_get (sl_delivery_records s) j) = dict_get (pr_delivery_history (sl_projection s)) j"
    using st(2) unfolding caches_match_def replay_matches_def seeds_of_def by metis+
qed

section \<open>Cycle commands\<close>

lemma slot_cycles_inv: "slot_ok env s \<Longrightarrow> cycles_inv (en_hash env) (sl_projection s)"
  by (rule reachable_cycles [OF slot_ok_project(3)])

lemma history_identity:
  assumes "slot_ok env s" and "dict_get (pr_cycle_history (sl_projection s)) (i, n) = Some c"
  shows "cy_cycle_id c = i" and "cy_revision c = n"
  using slot_cycles_inv [OF assms(1)] assms(2) unfolding cycles_inv_def cycle_revision_ok_def by blast+

lemma stage_cycle:
  assumes "stage_entry env s (Rec_cycle c) = Inr (entry, p, head)"
  shows "apply_cycle (en_hash env) (en_float env) (sl_projection s) c = Inr p"
  using stage_entry_Inr(5) [OF assms] stage_entry_Inr(2) [OF assms] by (auto simp: apply_entry_def split: if_splits)

lemma record_cycle_again:
  assumes "record_cycle_locked env v s c publishing delivery = Inr (r, v', s')"
  shows "record_cycle_locked env w s' c publishing' delivery' = Inr (r\<lparr>cr_appended := False\<rparr>, w, s')"
  using assms by (cases rule: record_cycle_locked_Inr) (simp_all add: record_cycle_locked_def Let_def new_cycle_receipt_def)

lemma record_cycle_history:
  assumes "record_cycle_locked env v s c publishing delivery = Inr (r, v', s')"
    and "k \<noteq> (cy_cycle_id c, cy_revision c)"
  shows "dict_get (pr_cycle_history (sl_projection s')) k = dict_get (pr_cycle_history (sl_projection s)) k"
  using assms(1)
proof (cases rule: record_cycle_locked_Inr)
  case (new entry p head snapshot)
  from apply_cycle_effect(2) [OF stage_cycle [OF new(2)]] assms(2) new(6) show ?thesis by simp
qed simp

lemma cycle_base_Inr: "cycle_base s i n st = Inr c \<longleftrightarrow>
    dict_get (pr_cycle_history (sl_projection s)) (i, n) = Some c \<and> opt_all (\<lambda>t. cy_state c = t) st"
  by (auto simp: cycle_base_def split: option.splits if_splits)

text \<open>The common step: a base revision is moved to the next one and recorded.\<close>

lemma cycle_step_again:
  assumes ok: "slot_ok env s" and base: "cycle_base s i n st = Inr base"
    and c: "cy_cycle_id c = cy_cycle_id base" "cy_revision c = cy_revision base + 1"
    and rec: "record_cycle_locked env v s c publishing delivery = Inr (r, v', s')"
  shows "cycle_base s' i n st = Inr base"
proof -
  from base have b: "dict_get (pr_cycle_history (sl_projection s)) (i, n) = Some base" by (simp add: cycle_base_Inr)
  have "(i, n) \<noteq> (cy_cycle_id c, cy_revision c)" using history_identity [OF ok b] c by simp
  from record_cycle_history [OF rec this] base show ?thesis by (simp add: cycle_base_Inr)
qed

lemma step_body_again:
  assumes ok: "slot_ok env s"
    and body: "bind_result (cycle_base s i n st) (\<lambda>base. bind_result (move base) (\<lambda>c.
      record_cycle_locked env v s c True None)) = Inr (r, v', s')"
    and move: "\<And>base c. move base = Inr c \<Longrightarrow> cy_cycle_id c = cy_cycle_id base \<and> cy_revision c = cy_revision base + 1"
  shows "bind_result (cycle_base s' i n st) (\<lambda>base. bind_result (move base) (\<lambda>c.
      record_cycle_locked env w s' c True None)) = Inr (r\<lparr>cr_appended := False\<rparr>, w, s')"
proof -
  from body obtain base c where base: "cycle_base s i n st = Inr base" and c: "move base = Inr c"
    and rec: "record_cycle_locked env v s c True None = Inr (r, v', s')"
    unfolding bind_result_Inr by blast
  note id = conjunct1 [OF move [OF c]] conjunct2 [OF move [OF c]]
  show ?thesis
    unfolding cycle_step_again [OF ok base id rec] bind_result_simps c by (rule record_cycle_again [OF rec])
qed

lemma transition_cycle_same: "transition_cycle env c operation = Inr c' \<Longrightarrow> c' = c"
  by (simp add: transition_cycle_Inr)

lemma reserve_again:
  assumes "slot_ok env s" and "reserve_cycle_body env v cmd s = Inr (r, v', s')"
  shows "reserve_cycle_body env w cmd s' = Inr (r\<lparr>cr_appended := False\<rparr>, w, s')"
  unfolding reserve_cycle_body_def
  by (rule step_body_again [OF assms(1) assms(2) [unfolded reserve_cycle_body_def]]) (drule transition_cycle_same, simp)

lemma mark_running_again:
  assumes "slot_ok env s" and "mark_cycle_running_body env v cmd s = Inr (r, v', s')"
  shows "mark_cycle_running_body env w cmd s' = Inr (r\<lparr>cr_appended := False\<rparr>, w, s')"
  unfolding mark_cycle_running_body_def
  by (rule step_body_again [OF assms(1) assms(2) [unfolded mark_cycle_running_body_def]]) (drule transition_cycle_same, simp)

lemma bind_result_assoc: "bind_result (bind_result x f) g = bind_result x (\<lambda>y. bind_result (f y) g)"
  by (cases x) auto

definition failed_revision :: "repo_env \<Rightarrow> fail_cycle_cmd \<Rightarrow> cycle_record \<Rightarrow> repo_error + cycle_record" where
  "failed_revision env cmd base = bind_result (fail_settlement cmd base) (\<lambda>settlement.
     transition_cycle env
        (base\<lparr>cy_revision := cy_revision base + 1, cy_state := Cycle_FAILED, cy_budget_settlement := settlement,
          cy_model_call_digests := fc_model_call_digests cmd,
          cy_model_call_latencies_us := fc_model_call_latencies_us cmd,
          cy_failure_reason := Some (fc_reason cmd), cy_updated_at := fc_updated_at cmd\<rparr>) ''fail_cycle'')"

lemma fail_cycle_body_moves: "fail_cycle_body env v cmd s =
    bind_result (cycle_base s (fc_cycle_id cmd) (fc_expected_revision cmd) None) (\<lambda>base.
      bind_result (failed_revision env cmd base) (\<lambda>c. record_cycle_locked env v s c True None))"
  unfolding fail_cycle_body_def failed_revision_def bind_result_assoc ..

lemma failed_revision_Inr:
  assumes "failed_revision env cmd base = Inr c"
  shows "cy_cycle_id c = cy_cycle_id base \<and> cy_revision c = cy_revision base + 1"
proof -
  from assms obtain settlement where "transition_cycle env
        (base\<lparr>cy_revision := cy_revision base + 1, cy_state := Cycle_FAILED, cy_budget_settlement := settlement,
          cy_model_call_digests := fc_model_call_digests cmd,
          cy_model_call_latencies_us := fc_model_call_latencies_us cmd,
          cy_failure_reason := Some (fc_reason cmd), cy_updated_at := fc_updated_at cmd\<rparr>) ''fail_cycle'' = Inr c"
    unfolding failed_revision_def bind_result_Inr by blast
  from transition_cycle_same [OF this] show ?thesis by simp
qed

lemma fail_again:
  assumes "slot_ok env s" and "fail_cycle_body env v cmd s = Inr (r, v', s')"
  shows "fail_cycle_body env w cmd s' = Inr (r\<lparr>cr_appended := False\<rparr>, w, s')"
  unfolding fail_cycle_body_moves
  by (rule step_body_again [OF assms(1) assms(2) [unfolded fail_cycle_body_moves]]) (rule failed_revision_Inr)

lemma beginnings_in:
  assumes "slot_ok env s" and "c \<in> set (beginnings (sl_projection s) d)"
  shows "has_key (pr_cycle_history (sl_projection s)) (cy_cycle_id c, cy_revision c)" and "cy_revision c = 1"
    and "cy_invocation_decision_id c = d"
proof -
  have wf: "dict_wf (pr_cycle_history (sl_projection s))"
    using slot_cycles_inv [OF assms(1)] unfolding cycles_inv_def by blast
  from assms(2) obtain i where i: "dict_get (pr_cycle_history (sl_projection s)) (i, 1) = Some c"
    and "cy_invocation_decision_id c = d"
    using dict_item_get [OF wf] by (auto simp: beginnings_def)
  note k = history_identity [OF assms(1) i]
  show "has_key (pr_cycle_history (sl_projection s)) (cy_cycle_id c, cy_revision c)"
    unfolding has_key_def k using i by blast
  show "cy_revision c = 1" "cy_invocation_decision_id c = d" by fact+
qed

lemma record_known:
  assumes "record_cycle_locked env v s c publishing delivery = Inr (r, v', s')"
    and "has_key (pr_cycle_history (sl_projection s)) (cy_cycle_id c, cy_revision c)"
  shows "s' = s" and "r = r\<lparr>cr_appended := False\<rparr>"
proof -
  have "s' = s \<and> r = r\<lparr>cr_appended := False\<rparr>"
    using assms(1)
  proof (cases rule: record_cycle_locked_Inr)
    case (new entry p head snapshot)
    from apply_cycle_effect(6) [OF stage_cycle [OF new(2)]] assms(2) show ?thesis by simp
  qed simp
  then show "s' = s" "r = r\<lparr>cr_appended := False\<rparr>" by blast+
qed

lemma begin_new_cycle_Inr:
  assumes "begin_new_cycle env v s cmd d = Inr (r, v', s')"
  obtains i where "record_cycle_locked env v s (pending_cycle cmd d i (pr_memory_cursor (sl_projection s) + 1)) True None
      = Inr (r, v', s')"
    and "valid_cycle_record (en_hash env) (pending_cycle cmd d i (pr_memory_cursor (sl_projection s) + 1))"
  using assms by (auto simp: begin_new_cycle_def Let_def split: if_splits sum.splits)

lemma beginnings_extended:
  assumes "pr_cycle_history p' = dict_set (i, 1) c (pr_cycle_history p)" and "beginnings p d = []"
    and "\<not> has_key (pr_cycle_history p) (i, 1)" and "cy_invocation_decision_id c = d"
  shows "beginnings p' d = [c]"
  using assms by (simp add: beginnings_def dict_set_fresh)

lemma begin_again:
  assumes ok: "slot_ok env s" and body: "begin_cycle_body env v cmd s = Inr (r, v', s')"
  shows "begin_cycle_body env w cmd s' = Inr (r\<lparr>cr_appended := False\<rparr>, w, s')"
proof -
  let ?d = "bc_invocation_decision_id cmd"
  from body obtain d where d: "dict_get (pr_decisions (sl_projection s)) ?d = Some d"
    by (auto simp: begin_cycle_body_def split: option.splits)
  have "(\<exists>existing. beginnings (sl_projection s) ?d = [existing]) \<or> beginnings (sl_projection s) ?d = []"
    using body d by (auto simp: begin_cycle_body_def split: list.splits)
  then show ?thesis
  proof (elim disjE exE)
    fix existing
    assume b: "beginnings (sl_projection s) ?d = [existing]"
    let ?c = "existing\<lparr>cy_created_at := bc_created_at cmd, cy_updated_at := bc_created_at cmd\<rparr>"
    from body d b have same: "same_beginning existing cmd" and c: "transition_cycle env ?c ''begin_cycle'' = Inr ?c"
      and rec: "record_cycle_locked env v s ?c True None = Inr (r, v', s')"
      by (auto simp: begin_cycle_body_def bind_result_Inr transition_cycle_Inr split: if_splits)
    have "existing \<in> set (beginnings (sl_projection s) ?d)" using b by simp
    from record_known [OF rec] beginnings_in(1) [OF ok this] have "s' = s" by simp
    with record_cycle_again [OF rec] d b same c show ?thesis by (simp add: begin_cycle_body_def)
  next
    assume b: "beginnings (sl_projection s) ?d = []"
    with body d have "begin_new_cycle env v s cmd d = Inr (r, v', s')" by (simp add: begin_cycle_body_def)
    then obtain i where
      rec: "record_cycle_locked env v s (pending_cycle cmd d i (pr_memory_cursor (sl_projection s) + 1)) True None = Inr (r, v', s')"
      and valid: "valid_cycle_record (en_hash env) (pending_cycle cmd d i (pr_memory_cursor (sl_projection s) + 1))"
      by (rule begin_new_cycle_Inr)
    let ?c = "pending_cycle cmd d i (pr_memory_cursor (sl_projection s) + 1)"
    have sel: "cy_revision ?c = 1" "cy_cycle_id ?c = i" "cy_invocation_decision_id ?c = ?d"
      "same_beginning ?c cmd" "?c\<lparr>cy_created_at := bc_created_at cmd, cy_updated_at := bc_created_at cmd\<rparr> = ?c"
      "settled_within ?c"
      by (simp_all add: pending_cycle_def same_beginning_def settled_within_def)
    have again: "begin_cycle_body env w cmd s' = Inr (r\<lparr>cr_appended := False\<rparr>, w, s')"
      if "dict_get (pr_decisions (sl_projection s')) ?d = Some d" "beginnings (sl_projection s') ?d = [?c]"
      using that sel valid record_cycle_again [OF rec]
      by (simp add: begin_cycle_body_def transition_cycle_def)
    from rec show ?thesis
    proof (cases rule: record_cycle_locked_Inr)
      case (new entry p head snapshot)
      note step = stage_cycle [OF new(2)]
      have "pr_decisions p = pr_decisions (sl_projection s)"
        using cycle_frame(3) [OF step] by (simp add: decisions_part_def)
      moreover have "beginnings p ?d = [?c]"
        by (rule beginnings_extended [OF _ b]) (use apply_cycle_effect(2,6) [OF step] sel in simp_all)
      ultimately show ?thesis using again new(6) d by simp
    next
      case (known existing)
      with slot_caches(1) [OF ok, of "(i, 1)"] sel have "dict_get (pr_cycle_history (sl_projection s)) (i, 1) = Some ?c"
        by simp
      then have "((i, 1), ?c) \<in> set (pr_cycle_history (sl_projection s))" by (rule map_of_SomeD)
      with b sel(3) have False by (auto simp: beginnings_def filter_empty_conv)
      then show ?thesis ..
    qed
  qed
qed

lemma planned_same_plan: "planned_delivery env c cmd plan = Inr d \<Longrightarrow> same_plan (Some plan) (Some d)"
  by (auto simp: planned_delivery_def same_plan_def Let_def split: option.splits sum.splits if_splits)

lemma stage_delivery:
  assumes "stage_entry env s (Rec_delivery d) = Inr (entry, p, head)"
  shows "apply_delivery (en_hash env) (sl_projection s) d = Inr p"
  using stage_entry_Inr(5) [OF assms] stage_entry_Inr(2) [OF assms] by (auto simp: apply_entry_def split: if_splits)

lemma record_delivery_cycles:
  assumes "record_delivery_locked env v s d publishing = Inr (r, v', s')"
  shows "sl_cycle_records s' = sl_cycle_records s"
    and "pr_cycle_history (sl_projection s') = pr_cycle_history (sl_projection s)"
proof -
  from assms have "sl_cycle_records s' = sl_cycle_records s \<and>
      pr_cycle_history (sl_projection s') = pr_cycle_history (sl_projection s)"
  proof (cases rule: record_delivery_locked_Inr)
    case (new entry p head)
    from delivery_frame(2) [OF stage_delivery [OF new(2)]] new(5) show ?thesis by (simp add: cycles_part_def)
  qed simp
  then show "sl_cycle_records s' = sl_cycle_records s"
    "pr_cycle_history (sl_projection s') = pr_cycle_history (sl_projection s)" by blast+
qed

lemma enqueue_planned_cycles:
  assumes "enqueue_planned env v s delivery = Inr s'"
  shows "sl_cycle_records s' = sl_cycle_records s"
    and "pr_cycle_history (sl_projection s') = pr_cycle_history (sl_projection s)"
  using assms record_delivery_cycles by (cases delivery; force simp: enqueue_planned_def bind_result_Inr)+

text \<open>A new commit caches its receipt, with the delivery it planned, and keeps the base revision.\<close>

lemma commit_new_cycle_again:
  assumes "commit_new_cycle env v s c delivery = Inr (r, v', s')"
    and "dict_get (sl_cycle_records s) (cy_cycle_id c, cy_revision c) = None"
  shows "dict_get (sl_cycle_records s') (cy_cycle_id c, cy_revision c) = Some r" and "cr_cycle r = c"
    and "cr_delivery r = delivery"
    and "k \<noteq> (cy_cycle_id c, cy_revision c) \<Longrightarrow>
      dict_get (pr_cycle_history (sl_projection s')) k = dict_get (pr_cycle_history (sl_projection s)) k"
proof -
  let ?s = "s\<lparr>sl_append_leases := 0\<rparr>"
  from assms(1) obtain v1 s1 s2 h where
    first: "record_cycle_locked env v ?s c False delivery = Inr (r, v1, s1)"
    and second: "enqueue_planned env v s1 delivery = Inr s2"
    and s': "s' = s2\<lparr>sl_append_leases := sl_append_leases s\<rparr>"
    unfolding commit_new_cycle_def by (auto simp: bind_result_Inr split: option.splits)
  note kept = enqueue_planned_cycles [OF second]
  have "dict_get (sl_cycle_records s1) (cy_cycle_id c, cy_revision c) = Some r \<and> cr_cycle r = c \<and> cr_delivery r = delivery"
    using first
  proof (cases rule: record_cycle_locked_Inr)
    case (new entry p head snapshot)
    then show ?thesis by (simp add: new_cycle_receipt_def)
  qed (use assms(2) in simp)
  then show "dict_get (sl_cycle_records s') (cy_cycle_id c, cy_revision c) = Some r" "cr_cycle r = c"
    "cr_delivery r = delivery"
    using kept s' by simp_all
  show "dict_get (pr_cycle_history (sl_projection s')) k = dict_get (pr_cycle_history (sl_projection s)) k"
    if "k \<noteq> (cy_cycle_id c, cy_revision c)"
    using record_cycle_history [OF first that] kept s' by simp
qed

definition commit_checked :: "repo_env \<Rightarrow> commit_cycle_cmd \<Rightarrow> cycle_record \<Rightarrow> repo_error + cycle_record" where
  "commit_checked env cmd base =
     (let i = cc_intervention cmd in
      if iv_grounding_version i \<noteq> cy_grounding_version base \<or>
        iv_grounding_configuration_digest i \<noteq> cy_grounding_configuration_digest base \<or>
        iv_grounding_configuration i \<noteq> cy_grounding_configuration base
      then Inl (ProjectionInvariantError ''grounded intervention failed authoritative verification'')
      else transition_cycle env (committed_revision cmd base) ''commit_cycle'')"

definition commit_checked_cycle :: "repo_env \<Rightarrow> vault \<Rightarrow> commit_cycle_cmd \<Rightarrow> run_slot \<Rightarrow> cycle_record \<Rightarrow>
    repo_error + cycle_receipt \<times> vault \<times> run_slot" where
  "commit_checked_cycle env v cmd s c =
     (case dict_get (sl_cycle_records s) (cy_cycle_id c, cy_revision c) of
       Some existing \<Rightarrow>
         if cr_cycle existing \<noteq> c \<or> \<not> same_plan (cc_delivery cmd) (cr_delivery existing)
         then Inl CycleConflictError
         else Inr (existing\<lparr>cr_appended := False\<rparr>, v, s)
     | None \<Rightarrow>
         bind_result (case cc_delivery cmd of
                        None \<Rightarrow> Inr None
                      | Some plan \<Rightarrow> map_sum id Some (planned_delivery env c cmd plan)) (\<lambda>delivery.
         commit_new_cycle env v s c delivery))"

lemma commit_cycle_body_steps: "commit_cycle_body env v cmd s =
    bind_result (cycle_base s (cc_cycle_id cmd) (cc_expected_revision cmd) (Some Cycle_RUNNING)) (\<lambda>base.
    bind_result (commit_checked env cmd base) (commit_checked_cycle env v cmd s))"
  unfolding commit_cycle_body_def commit_checked_def commit_checked_cycle_def Let_def
  by (rule arg_cong [where f = "bind_result _"]) (auto simp: fun_eq_iff)

lemma commit_again:
  assumes ok: "slot_ok env s" and body: "commit_cycle_body env v cmd s = Inr (r, v', s')"
  shows "commit_cycle_body env w cmd s' = Inr (r\<lparr>cr_appended := False\<rparr>, w, s')"
proof -
  from body obtain base c where
    base: "cycle_base s (cc_cycle_id cmd) (cc_expected_revision cmd) (Some Cycle_RUNNING) = Inr base"
    and c: "commit_checked env cmd base = Inr c" and step: "commit_checked_cycle env v cmd s c = Inr (r, v', s')"
    unfolding commit_cycle_body_steps bind_result_Inr by blast
  have id: "cy_cycle_id c = cy_cycle_id base" "cy_revision c = cy_revision base + 1"
    using c by (auto simp: commit_checked_def Let_def transition_cycle_Inr committed_revision_def split: if_splits)
  have "dict_get (pr_cycle_history (sl_projection s)) (cc_cycle_id cmd, cc_expected_revision cmd) = Some base"
    using base by (simp add: cycle_base_Inr)
  from history_identity [OF ok this] id
  have other: "(cc_cycle_id cmd, cc_expected_revision cmd) \<noteq> (cy_cycle_id c, cy_revision c)" by simp
  have "commit_checked_cycle env w cmd s' c = Inr (r\<lparr>cr_appended := False\<rparr>, w, s') \<and>
    cycle_base s' (cc_cycle_id cmd) (cc_expected_revision cmd) (Some Cycle_RUNNING) = Inr base"
  proof (cases "dict_get (sl_cycle_records s) (cy_cycle_id c, cy_revision c)")
    case None
    with step obtain delivery where plan: "(case cc_delivery cmd of None \<Rightarrow> Inr None
        | Some plan \<Rightarrow> map_sum id Some (planned_delivery env c cmd plan)) = Inr delivery"
      and commit: "commit_new_cycle env v s c delivery = Inr (r, v', s')"
      by (auto simp: commit_checked_cycle_def bind_result_Inr)
    note new = commit_new_cycle_again [OF commit None]
    have "same_plan (cc_delivery cmd) (cr_delivery r)"
      using plan planned_same_plan unfolding new(3)
      by (cases "cc_delivery cmd") (auto simp: map_sum_def same_plan_def split: sum.splits)
    with new(1,2) new(4) [OF other] base show ?thesis
      by (simp add: commit_checked_cycle_def cycle_base_Inr)
  next
    case (Some existing)
    with step have "s' = s" "cr_cycle existing = c" "same_plan (cc_delivery cmd) (cr_delivery existing)"
      "r = existing\<lparr>cr_appended := False\<rparr>"
      by (auto simp: commit_checked_cycle_def split: if_splits)
    with Some base show ?thesis by (simp add: commit_checked_cycle_def)
  qed
  with c show ?thesis unfolding commit_cycle_body_steps by simp
qed

section \<open>Delivery commands\<close>

lemma slot_deliveries_inv: "slot_ok env s \<Longrightarrow> deliveries_inv (sl_projection s)"
  by (rule reachable_deliveries [OF slot_ok_project(3)])

lemma record_delivery_Inr:
  assumes "record_delivery_locked env v s d publishing = Inr (r, v', s')"
    and fresh: "dict_get (pr_delivery_history (sl_projection s)) (dv_delivery_id d, dv_revision d) = None" and "slot_ok env s"
  shows "dict_get (sl_delivery_records s') (dv_delivery_id d, dv_revision d) = Some r"
    and "pr_deliveries (sl_projection s') = dict_set (dv_delivery_id d) d (pr_deliveries (sl_projection s))"
    and "pr_delivery_history (sl_projection s') =
      dict_set (dv_delivery_id d, dv_revision d) d (pr_delivery_history (sl_projection s))"
proof -
  have "dict_get (sl_delivery_records s') (dv_delivery_id d, dv_revision d) = Some r \<and>
    pr_deliveries (sl_projection s') = dict_set (dv_delivery_id d) d (pr_deliveries (sl_projection s)) \<and>
    pr_delivery_history (sl_projection s') =
      dict_set (dv_delivery_id d, dv_revision d) d (pr_delivery_history (sl_projection s))"
    using assms(1)
  proof (cases rule: record_delivery_locked_Inr)
    case (new entry p head)
    from apply_delivery_effect [OF stage_delivery [OF new(2)]] new(5) show ?thesis by simp
  next
    case (known existing)
    with slot_caches(2) [OF assms(3), of "(dv_delivery_id d, dv_revision d)"] fresh show ?thesis by simp
  qed
  then show "dict_get (sl_delivery_records s') (dv_delivery_id d, dv_revision d) = Some r"
    "pr_deliveries (sl_projection s') = dict_set (dv_delivery_id d) d (pr_deliveries (sl_projection s))"
    "pr_delivery_history (sl_projection s') =
      dict_set (dv_delivery_id d, dv_revision d) d (pr_delivery_history (sl_projection s))" by blast+
qed

definition retry_of :: "run_slot \<Rightarrow> uuid \<Rightarrow> int \<Rightarrow> (delivery_record \<Rightarrow> repo_error + delivery_record option) \<Rightarrow>
    repo_error + delivery_receipt option" where
  "retry_of s i n retry = (case previous_delivery s i n of
      None \<Rightarrow> Inr None
    | Some previous \<Rightarrow> bind_result (retry previous) (\<lambda>c.
        case c of None \<Rightarrow> Inr None | Some candidate \<Rightarrow> delivery_retry s i n candidate))"

lemma transition_body_Inr:
  assumes "transition_body env v s i n retry move = Inr ((r, moved), v', s')"
  obtains (known) "retry_of s i n retry = Inr (Some r)" "moved = None" "v' = v" "s' = s"
  | (moved) base d where "delivery_base s i n = Inr base" "move base = Inr d" "moved = Some d"
      "record_delivery_locked env v s d True = Inr (r, v', s')"
proof -
  from assms obtain k where k: "retry_of s i n retry = Inr k" and rest: "(case k of
       Some receipt \<Rightarrow> Inr ((receipt, None), v, s)
     | None \<Rightarrow>
         bind_result (delivery_base s i n) (\<lambda>base.
         bind_result (move base) (\<lambda>d.
         bind_result (record_delivery_locked env v s d True) (\<lambda>(receipt, v', s').
         Inr ((receipt, Some d), v', s'))))) = Inr ((r, moved), v', s')"
    unfolding transition_body_def retry_of_def [symmetric] bind_result_Inr by blast
  show thesis
  proof (cases k)
    case None
    with rest show thesis by (auto simp: bind_result_Inr intro: moved)
  next
    case (Some x)
    with rest k show thesis by (auto intro: known)
  qed
qed

lemma delivery_retry_Inr: "delivery_retry s i n c = Inr (Some r) \<Longrightarrow> r = r\<lparr>tr_appended := False\<rparr>"
  by (auto simp: delivery_retry_def split: option.splits if_splits)

lemma retry_of_Inr:
  assumes "retry_of s i n retry = Inr (Some r)"
  obtains previous candidate where "previous_delivery s i n = Some previous" "retry previous = Inr (Some candidate)"
    "delivery_retry s i n candidate = Inr (Some r)"
proof -
  from assms obtain previous where p: "previous_delivery s i n = Some previous"
    by (cases "previous_delivery s i n") (simp_all add: retry_of_def)
  with assms obtain c where c: "retry previous = Inr c"
    and r: "(case c of None \<Rightarrow> Inr None | Some candidate \<Rightarrow> delivery_retry s i n candidate) = Inr (Some r)"
    unfolding retry_of_def by (auto simp: bind_result_Inr)
  with p that show thesis by (cases c) simp_all
qed

lemma retry_answered:
  assumes "retry_of s i n retry = Inr (Some r)"
  shows "transition_body env w s i n retry move = Inr ((r, None), w, s)" and "r = r\<lparr>tr_appended := False\<rparr>"
proof -
  show "transition_body env w s i n retry move = Inr ((r, None), w, s)"
    using assms unfolding transition_body_def retry_of_def by simp
  show "r = r\<lparr>tr_appended := False\<rparr>"
    using assms by (rule retry_of_Inr) (rule delivery_retry_Inr)
qed

lemma transition_again:
  assumes ok: "slot_ok env s" and body: "transition_body env v s i n retry move = Inr ((r, moved), v', s')"
    and next_revision: "\<And>base d. move base = Inr d \<Longrightarrow>
      dv_delivery_id d = dv_delivery_id base \<and> dv_revision d = dv_revision base + 1"
    and same: "s' = s \<Longrightarrow> retry' = retry"
    and agrees: "\<And>base d. move base = Inr d \<Longrightarrow> dict_get (pr_deliveries (sl_projection s')) i = Some d \<Longrightarrow>
      retry' base = Inr (Some d)"
  shows "transition_body env w s' i n retry' move' = Inr ((r\<lparr>tr_appended := False\<rparr>, None), w, s')"
  using body
proof (cases rule: transition_body_Inr)
  case known
  from retry_answered [OF known(1)] same [OF known(4)] known show ?thesis by metis
next
  case (moved base d)
  note inv = slot_deliveries_inv [OF ok]
  have base: "dict_get (pr_deliveries (sl_projection s)) i = Some base" "dv_revision base = n"
    using moved(1) by (auto simp: delivery_base_def split: option.splits if_splits)
  note latest = deliveries_inv_latest [OF inv base(1)]
  have d: "dv_delivery_id d = i" "dv_revision d = n + 1" using next_revision [OF moved(2)] latest base by simp_all
  have fresh: "dict_get (pr_delivery_history (sl_projection s)) (dv_delivery_id d, dv_revision d) = None"
  proof (rule ccontr)
    assume "dict_get (pr_delivery_history (sl_projection s)) (dv_delivery_id d, dv_revision d) \<noteq> None"
    then obtain x where "dict_get (pr_delivery_history (sl_projection s)) (i, n + 1) = Some x" using d by auto
    from deliveries_inv_history [OF inv this] base show False by (auto simp: delivery_revision_ok_def)
  qed
  note new = record_delivery_Inr [OF moved(4) fresh ok]
  have "dict_get (pr_delivery_history (sl_projection s')) (i, n) = Some base"
    using new(3) d latest(2) base(2) by simp
  moreover have now: "dict_get (pr_deliveries (sl_projection s')) i = Some d" using new(2) d by simp
  moreover have "dict_get (sl_delivery_records s') (i, n + 1) = Some r" using new(1) d by simp
  ultimately have "retry_of s' i n retry' = Inr (Some (r\<lparr>tr_appended := False\<rparr>))"
    using agrees [OF moved(2) now] d by (simp add: retry_of_def previous_delivery_def delivery_retry_def)
  then show ?thesis by (rule retry_answered)
qed

lemma simple_again:
  assumes ok: "slot_ok env s" and body: "simple_transition env v s i n retry move = Inr (r, v', s')"
    and next_revision: "\<And>base d. move base = Inr d \<Longrightarrow>
      dv_delivery_id d = dv_delivery_id base \<and> dv_revision d = dv_revision base + 1"
    and agrees: "\<And>base d. move base = Inr d \<Longrightarrow> retry base = Inr (Some d)"
  shows "simple_transition env w s' i n retry move = Inr (r\<lparr>tr_appended := False\<rparr>, w, s')"
proof -
  from body obtain moved where "transition_body env v s i n retry move = Inr ((r, moved), v', s')"
    unfolding simple_transition_def by (auto simp: bind_result_Inr)
  then have "transition_body env w s' i n retry move = Inr ((r\<lparr>tr_appended := False\<rparr>, None), w, s')"
    by (rule transition_again [OF ok]) (use next_revision agrees in auto)
  then show ?thesis unfolding simple_transition_def by simp
qed

lemma delivery_steps_again:
  assumes "slot_ok env s"
  shows "claim_delivery_body env v cl s = Inr (r, v', s') \<Longrightarrow>
      claim_delivery_body env w cl s' = Inr (r\<lparr>tr_appended := False\<rparr>, w, s')"
    and "complete_delivery_body env v cd s = Inr (r, v', s') \<Longrightarrow>
      complete_delivery_body env w cd s' = Inr (r\<lparr>tr_appended := False\<rparr>, w, s')"
    and "mark_unknown_body env v mk s = Inr (r, v', s') \<Longrightarrow>
      mark_unknown_body env w mk s' = Inr (r\<lparr>tr_appended := False\<rparr>, w, s')"
    and "reject_delivery_body env v rj s = Inr (r, v', s') \<Longrightarrow>
      reject_delivery_body env w rj s' = Inr (r\<lparr>tr_appended := False\<rparr>, w, s')"
  unfolding claim_delivery_body_def complete_delivery_body_def mark_unknown_body_def reject_delivery_body_def Let_def
  by (erule simple_again [OF assms]; auto simp: transition_delivery_def claimed_def completed_def lost_def rejected_def
      split: if_splits)+

text \<open>A retried attempt is not given the reminder text again.\<close>

definition attempt_retry :: "begin_attempt_cmd \<Rightarrow> run_slot \<Rightarrow> delivery_record \<Rightarrow> repo_error + delivery_record option" where
  "attempt_retry cmd s = (\<lambda>previous.
     if dv_state previous \<noteq> Delivery_CLAIMED then Inr None
     else if dv_claim_id previous \<noteq> Some (ba_claim_id cmd) then Inl DeliveryOwnershipError
     else if (case dict_get (pr_deliveries (sl_projection s)) (ba_delivery_id cmd) of
                None \<Rightarrow> False
              | Some latest \<Rightarrow> dv_revision latest = ba_expected_revision cmd + 1 \<and>
                  dv_state latest = Delivery_ATTEMPTING \<and> dv_attempt_id latest \<noteq> Some (ba_attempt_id cmd))
     then Inl DeliveryOwnershipError
     else map_sum id Some (transition_delivery (attempting cmd previous) ''begin_delivery_attempt''))"

definition attempt_move :: "begin_attempt_cmd \<Rightarrow> run_slot \<Rightarrow> delivery_record \<Rightarrow> repo_error + delivery_record" where
  "attempt_move cmd s = (\<lambda>base.
     if dv_state base \<noteq> Delivery_CLAIMED then Inl (InvalidDeliveryStateError ''begin_delivery_attempt'')
     else if dv_claim_id base \<noteq> Some (ba_claim_id cmd) then Inl DeliveryOwnershipError
     else bind_result (transition_delivery (attempting cmd base) ''begin_delivery_attempt'') (\<lambda>d.
          bind_result (attempt_envelope_of (sl_projection s) d) (\<lambda>_. Inr d)))"

definition attempt_answer :: "run_slot \<Rightarrow> (delivery_receipt \<times> delivery_record option) \<times> vault \<times> run_slot \<Rightarrow>
    repo_error + attempt_receipt \<times> vault \<times> run_slot" where
  "attempt_answer s = (\<lambda>((receipt, moved), v', s').
     bind_result (case moved of
                    None \<Rightarrow> Inr None
                  | Some d \<Rightarrow> map_sum id Some (attempt_envelope_of (sl_projection s) d)) (\<lambda>envelope.
     let r = attempt_receipt_of receipt envelope in
     if valid_attempt_receipt r then Inr (r, v', s') else Inl (UnhandledError ''ValidationError'')))"

lemma begin_attempt_body_steps: "begin_attempt_body env v cmd s =
    bind_result (transition_body env v s (ba_delivery_id cmd) (ba_expected_revision cmd)
      (attempt_retry cmd s) (attempt_move cmd s)) (attempt_answer s)"
  unfolding begin_attempt_body_def attempt_retry_def attempt_move_def attempt_answer_def ..

lemma begin_attempt_again:
  assumes ok: "slot_ok env s" and body: "begin_attempt_body env v cmd s = Inr (r, v', s')"
  shows "begin_attempt_body env w cmd s' = Inr (r\<lparr>tr_appended := False, tr_envelope := None\<rparr>, w, s')"
proof -
  let ?i = "ba_delivery_id cmd" and ?n = "ba_expected_revision cmd"
  from body obtain receipt moved envelope where
    step: "transition_body env v s ?i ?n (attempt_retry cmd s) (attempt_move cmd s) = Inr ((receipt, moved), v', s')"
    and r: "r = attempt_receipt_of receipt envelope" "valid_attempt_receipt r"
    unfolding begin_attempt_body_steps attempt_answer_def by (auto simp: bind_result_Inr Let_def split: if_splits)
  have move: "dv_state base = Delivery_CLAIMED \<and> dv_claim_id base = Some (ba_claim_id cmd) \<and> d = attempting cmd base \<and>
      valid_delivery_record d" if "attempt_move cmd s base = Inr d" for base d
    using that by (auto simp: attempt_move_def bind_result_Inr transition_delivery_Inr split: if_splits)
  have "transition_body env w s' ?i ?n (attempt_retry cmd s') (attempt_move cmd s') =
      Inr ((receipt\<lparr>tr_appended := False\<rparr>, None), w, s')"
  proof (rule transition_again [OF ok step])
    fix base d
    assume d: "attempt_move cmd s base = Inr d"
    from move [OF d] show "dv_delivery_id d = dv_delivery_id base \<and> dv_revision d = dv_revision base + 1"
      by (simp add: attempting_def)
    assume "dict_get (pr_deliveries (sl_projection s')) ?i = Some d"
    with move [OF d] show "attempt_retry cmd s' base = Inr (Some d)"
      by (auto simp: attempt_retry_def transition_delivery_def attempting_def)
  qed simp
  then show ?thesis
    using r unfolding begin_attempt_body_steps attempt_answer_def
    by (simp add: attempt_receipt_of_def Let_def valid_attempt_receipt_def valid_delivery_receipt_def)
qed

end
