(* ===== verification/Repository_Recovery.thy ===== *)
theory Repository_Recovery
  imports Repository_Retries
begin

text \<open>
  Recovery after a restart: the cycles a crash left running are failed and their reservation charged,
  the deliveries it left attempting become unknown, and the run is then free to go on.
\<close>

section \<open>Cycles\<close>

lemma running_cycles:
  assumes "cycles_inv H p"
  shows "set (filter (\<lambda>c. cy_state c = Cycle_RUNNING) (sorted_cycles p)) =
      {c. \<exists>i. dict_get (pr_cycles p) i = Some c \<and> cy_state c = Cycle_RUNNING}"
    and "length (filter (\<lambda>c. cy_state c = Cycle_RUNNING) (sorted_cycles p)) \<le> 1"
proof -
  have wf: "dict_wf (pr_cycles p)" and one: "\<And>i j c d. dict_get (pr_cycles p) i = Some c \<Longrightarrow>
      dict_get (pr_cycles p) j = Some d \<Longrightarrow> active_cycle c \<Longrightarrow> active_cycle d \<Longrightarrow> i = j"
    using assms unfolding cycles_inv_def by blast+
  show set: "set (filter (\<lambda>c. cy_state c = Cycle_RUNNING) (sorted_cycles p)) =
      {c. \<exists>i. dict_get (pr_cycles p) i = Some c \<and> cy_state c = Cycle_RUNNING}"
    using dict_item_get [OF wf] by (force simp: sorted_cycles_def)
  have "filter (\<lambda>c. cy_state c = Cycle_RUNNING) (sorted_cycles p) =
      map snd (filter (\<lambda>(i, c). cy_state c = Cycle_RUNNING) (sort_key fst (pr_cycles p)))"
    by (simp add: sorted_cycles_def filter_map comp_def split_beta')
  moreover have "length (filter (\<lambda>(i, c). cy_state c = Cycle_RUNNING) (sort_key fst (pr_cycles p))) \<le> 1"
  proof (rule ccontr)
    let ?xs = "filter (\<lambda>(i, c). cy_state c = Cycle_RUNNING) (sort_key fst (pr_cycles p))"
    assume "\<not> length ?xs \<le> 1"
    then obtain x y zs where xs: "?xs = x # y # zs" by (cases ?xs; cases "tl ?xs") auto
    have "distinct (map fst (sort_key fst (pr_cycles p)))"
      using wf by (simp add: dict_wf_def distinct_map)
    then have "distinct (map fst ?xs)" by (rule distinct_map_filter)
    then have "fst x \<noteq> fst y" by (simp add: xs)
    moreover have "x \<in> set ?xs" "y \<in> set ?xs" by (simp_all add: xs)
    ultimately show False
      using one dict_item_get [OF wf] by (auto simp: active_cycle_def)
  qed
  ultimately show "length (filter (\<lambda>c. cy_state c = Cycle_RUNNING) (sorted_cycles p)) \<le> 1" by simp
qed

definition none_running :: "projection \<Rightarrow> bool" where
  "none_running p \<longleftrightarrow> (\<forall>i c. dict_get (pr_cycles p) i = Some c \<longrightarrow> cy_state c \<noteq> Cycle_RUNNING)"

lemma none_running_iff:
  "cycles_inv H p \<Longrightarrow> none_running p \<longleftrightarrow> filter (\<lambda>c. cy_state c = Cycle_RUNNING) (sorted_cycles p) = []"
  using running_cycles(1) [of H p] unfolding none_running_def by (auto simp: filter_empty_conv)

lemma abandon_running:
  assumes ok: "slot_ok env s" and c: "dict_get (pr_cycles (sl_projection s)) i = Some c" "cy_state c = Cycle_RUNNING"
    and rec: "record_cycle_locked env v s (abandoned t c) False None = Inr (r, v', s')"
  shows "none_running (sl_projection s')"
proof -
  note inv = slot_cycles_inv [OF ok]
  have latest: "latest_cycle_ok (en_hash env) (sl_projection s) i c"
    and history: "\<And>n d. dict_get (pr_cycle_history (sl_projection s)) (i, n) = Some d \<Longrightarrow>
      cycle_revision_ok (en_hash env) (sl_projection s) i n d"
    and one: "\<And>j d. dict_get (pr_cycles (sl_projection s)) j = Some d \<Longrightarrow> active_cycle c \<Longrightarrow> active_cycle d \<Longrightarrow> i = j"
    using inv c(1) unfolding cycles_inv_def by blast+
  have id: "cy_cycle_id c = i" using latest by (simp add: latest_cycle_ok_def)
  from rec show ?thesis
  proof (cases rule: record_cycle_locked_Inr)
    case (known existing)
    then have "dict_get (pr_cycle_history (sl_projection s)) (i, cy_revision c + 1) = Some (abandoned t c)"
      using slot_caches(1) [OF ok, of "(i, cy_revision c + 1)"] id by (simp add: abandoned_def)
    from history [OF this] c(1) have False by (auto simp: cycle_revision_ok_def)
    then show ?thesis ..
  next
    case (new entry p head snapshot)
    have "pr_cycles (sl_projection s') = dict_set i (abandoned t c) (pr_cycles (sl_projection s))"
      using apply_cycle_effect(1) [OF stage_cycle [OF new(2)]] new(6) id by (simp add: abandoned_def)
    moreover have "cy_state d \<noteq> Cycle_RUNNING" if "dict_get (pr_cycles (sl_projection s)) j = Some d" "j \<noteq> i" for j d
      using one [OF that(1)] that(2) c(2) by (auto simp: active_cycle_def)
    ultimately show ?thesis by (auto simp: none_running_def abandoned_def)
  qed
qed

lemma recover_cycles_body_none_running:
  assumes ok: "slot_ok env s" and body: "recover_cycles_body env v t s = Inr (r, v', s')"
  shows "none_running (sl_projection s')"
proof -
  let ?run = "filter (\<lambda>c. cy_state c = Cycle_RUNNING) (sorted_cycles (sl_projection s))"
  note inv = slot_cycles_inv [OF ok]
  consider "?run = []" | c where "?run = [c]" using running_cycles(2) [OF inv] by (cases ?run) auto
  then show ?thesis
  proof cases
    case 1
    with body have "s' = s" by (auto simp: recover_cycles_body_def Let_def)
    with 1 none_running_iff [OF inv] show ?thesis by simp
  next
    case 2
    then obtain i where c: "dict_get (pr_cycles (sl_projection s)) i = Some c" "cy_state c = Cycle_RUNNING"
      using running_cycles(1) [OF inv] by auto
    from body 2 obtain rc v1 s1 where
      rec: "record_cycle_locked env v (s\<lparr>sl_append_leases := 0\<rparr>) (abandoned t c) False None = Inr (rc, v1, s1)"
      and s': "s' = s1\<lparr>sl_append_leases := sl_append_leases s\<rparr>"
      by (auto simp: recover_cycles_body_def Let_def recover_cycle_step_def bind_result_Inr split: if_splits option.splits)
    have "none_running (sl_projection s1)"
      by (rule abandon_running [OF _ _ c(2) rec]) (use ok c in simp_all)
    then show ?thesis by (simp add: s')
  qed
qed

lemma recover_cycles_body_idle:
  assumes "slot_ok env s" and "none_running (sl_projection s)"
  shows "\<exists>r. recover_cycles_body env v t s = Inr (r, v, s) \<and> rv_failed_unknown_cost r = []"
proof -
  have "filter (\<lambda>c. cy_state c = Cycle_RUNNING) (sorted_cycles (sl_projection s)) = []"
    using none_running_iff [OF slot_cycles_inv [OF assms(1)]] assms(2) by simp
  then show ?thesis by (simp add: recover_cycles_body_def Let_def)
qed

section \<open>Deliveries\<close>

definition none_attempting :: "projection \<Rightarrow> bool" where
  "none_attempting p \<longleftrightarrow> (\<forall>i d. dict_get (pr_deliveries p) i = Some d \<longrightarrow> dv_state d \<noteq> Delivery_ATTEMPTING)"

definition current :: "run_slot \<Rightarrow> delivery_record \<Rightarrow> bool" where
  "current s d \<longleftrightarrow> dict_get (pr_deliveries (sl_projection s)) (dv_delivery_id d) = Some d"

lemma next_revision_fresh:
  assumes ok: "slot_ok env s" and "current s d"
  shows "dict_get (pr_delivery_history (sl_projection s)) (dv_delivery_id d, dv_revision d + 1) = None"
proof (rule ccontr)
  assume "\<not> ?thesis"
  then obtain x where "dict_get (pr_delivery_history (sl_projection s)) (dv_delivery_id d, dv_revision d + 1) = Some x"
    by auto
  from deliveries_inv_history [OF slot_deliveries_inv [OF ok] this] assms(2) show False
    by (auto simp: delivery_revision_ok_def current_def)
qed

lemma recover_delivery_step_effect:
  assumes ok: "slot_ok env s" and "current s d" and step: "recover_delivery_step env v t d (s, rs) = Inr (s', rs')"
  shows "slot_ok env s'"
    and "pr_deliveries (sl_projection s') = dict_set (dv_delivery_id d) (lost t d) (pr_deliveries (sl_projection s))"
proof -
  from step obtain r v1 where valid: "valid_delivery_record (lost t d)"
    and rec: "record_delivery_locked env v s (lost t d) False = Inr (r, v1, s')"
    by (auto simp: recover_delivery_step_def bind_result_Inr transition_delivery_Inr)
  show "slot_ok env s'" by (rule grows_ok [OF record_delivery_locked_grows(1) [OF rec valid] ok])
  have "dict_get (pr_delivery_history (sl_projection s)) (dv_delivery_id (lost t d), dv_revision (lost t d)) = None"
    using next_revision_fresh [OF ok assms(2)] by (simp add: lost_def)
  from record_delivery_Inr(2) [OF rec this ok]
  show "pr_deliveries (sl_projection s') = dict_set (dv_delivery_id d) (lost t d) (pr_deliveries (sl_projection s))"
    by (simp add: lost_def)
qed

lemma recover_delivery_steps_effect:
  "slot_ok env s \<Longrightarrow> list_all (current s) ds \<Longrightarrow> distinct (map dv_delivery_id ds) \<Longrightarrow>
     fold_result (recover_delivery_step env v t) ds (s, rs) = Inr (s', rs') \<Longrightarrow>
     dict_get (pr_deliveries (sl_projection s')) i = Some x \<Longrightarrow> dv_state x = Delivery_ATTEMPTING \<Longrightarrow>
     dict_get (pr_deliveries (sl_projection s)) i = Some x \<and> x \<notin> set ds"
proof (induction ds arbitrary: s rs)
  case (Cons d ds)
  from Cons.prems(4) obtain s1 rs1 where step: "recover_delivery_step env v t d (s, rs) = Inr (s1, rs1)"
    and rest: "fold_result (recover_delivery_step env v t) ds (s1, rs1) = Inr (s', rs')"
    by (auto simp only: fold_result.simps bind_result_Inr)
  have d: "current s d" using Cons.prems(2) by simp
  note one = recover_delivery_step_effect [OF Cons.prems(1) d step]
  have "list_all (current s1) ds"
  proof (unfold list_all_iff, intro ballI)
    fix x assume "x \<in> set ds"
    then have "dv_delivery_id x \<in> dv_delivery_id ` set ds" by (rule imageI)
    with Cons.prems(3) have "dv_delivery_id x \<noteq> dv_delivery_id d" by auto
    moreover have "current s x" using Cons.prems(2) \<open>x \<in> set ds\<close> by (simp add: list_all_iff)
    ultimately show "current s1 x" using one(2) by (simp add: current_def)
  qed
  from Cons.IH [OF one(1) this _ rest Cons.prems(5,6)] Cons.prems(3)
  have x: "dict_get (pr_deliveries (sl_projection s1)) i = Some x" "x \<notin> set ds" by auto
  then have "i \<noteq> dv_delivery_id d" using one(2) Cons.prems(6) by (auto simp: lost_def)
  with x one(2) have at: "dict_get (pr_deliveries (sl_projection s)) i = Some x" by simp
  then have "dv_delivery_id x = i" by (rule deliveries_inv_latest(1) [OF slot_deliveries_inv [OF Cons.prems(1)]])
  with \<open>i \<noteq> dv_delivery_id d\<close> x(2) at show ?case by auto
qed simp

lemma attempting_deliveries:
  assumes ok: "slot_ok env s"
  shows "list_all (current s) (filter (\<lambda>d. dv_state d = Delivery_ATTEMPTING) (sorted_deliveries (sl_projection s)))"
    and "distinct (map dv_delivery_id (filter (\<lambda>d. dv_state d = Delivery_ATTEMPTING) (sorted_deliveries (sl_projection s))))"
    and "dict_get (pr_deliveries (sl_projection s)) i = Some d \<Longrightarrow> d \<in> set (sorted_deliveries (sl_projection s))"
proof -
  note inv = slot_deliveries_inv [OF ok]
  let ?xs = "sort_key fst (pr_deliveries (sl_projection s))"
  have mem: "(i, d) \<in> set ?xs \<longleftrightarrow> dict_get (pr_deliveries (sl_projection s)) i = Some d" for i d
    using dict_item_get [OF deliveries_inv_wf(1) [OF inv]] by simp
  have cur: "current s d \<and> dv_delivery_id d = i" if "(i, d) \<in> set ?xs" for i d
    using deliveries_inv_latest(1) [OF inv] that unfolding mem current_def by auto
  show "list_all (current s) (filter (\<lambda>d. dv_state d = Delivery_ATTEMPTING) (sorted_deliveries (sl_projection s)))"
    unfolding sorted_deliveries_def list_all_iff using cur by auto
  have "map dv_delivery_id (map snd ?xs) = map fst ?xs" using cur by (auto intro!: map_cong)
  moreover have "distinct (map fst ?xs)"
    using deliveries_inv_wf(1) [OF inv] by (simp add: dict_wf_def distinct_map)
  ultimately have "distinct (map dv_delivery_id (sorted_deliveries (sl_projection s)))"
    unfolding sorted_deliveries_def by metis
  then show "distinct (map dv_delivery_id (filter (\<lambda>d. dv_state d = Delivery_ATTEMPTING) (sorted_deliveries (sl_projection s))))"
    by (rule distinct_map_filter)
  show "dict_get (pr_deliveries (sl_projection s)) i = Some d \<Longrightarrow> d \<in> set (sorted_deliveries (sl_projection s))"
    unfolding sorted_deliveries_def mem [symmetric] by force
qed

lemma recover_deliveries_body_none_attempting:
  assumes ok: "slot_ok env s" and body: "recover_deliveries_body env v t s = Inr (r, v', s')"
  shows "none_attempting (sl_projection s')"
proof -
  let ?ds = "filter (\<lambda>d. dv_state d = Delivery_ATTEMPTING) (sorted_deliveries (sl_projection s))"
  let ?s = "s\<lparr>sl_append_leases := 0\<rparr>"
  from body obtain shadow marked where
    fold: "fold_result (recover_delivery_step env v t) ?ds (?s, []) = Inr (shadow, marked)"
    and out: "marked = [] \<and> s' = s \<or> s' = shadow\<lparr>sl_append_leases := sl_append_leases s\<rparr>"
    by (auto simp: recover_deliveries_body_def Let_def bind_result_Inr split: if_splits option.splits)
  have "list_all (current ?s) ?ds"
    using attempting_deliveries(1) [OF ok] by (simp add: list_all_iff current_def)
  then have shadow: "dict_get (pr_deliveries (sl_projection s)) i = Some x \<and> x \<notin> set ?ds"
    if "dict_get (pr_deliveries (sl_projection shadow)) i = Some x" "dv_state x = Delivery_ATTEMPTING" for i x
    using recover_delivery_steps_effect [OF _ _ attempting_deliveries(2) [OF ok] fold that] ok by simp
  have "marked = [] \<Longrightarrow> shadow = ?s"
  proof -
    have "fold_result (recover_delivery_step env v t) ds (a, rs) = Inr (b, rs') \<Longrightarrow> length rs' = length rs + length ds" for ds a rs b rs'
      by (induction ds arbitrary: a rs) (auto simp: bind_result_Inr recover_delivery_step_def)
    from this [OF fold] fold show "marked = [] \<Longrightarrow> shadow = ?s" by simp
  qed
  with out have "sl_projection s' = sl_projection shadow" by auto
  then show ?thesis
    using shadow attempting_deliveries(3) [OF ok] by (auto simp: none_attempting_def)
qed

section \<open>The recovery operations\<close>

lemma recover_cycle_steps_receipts:
  "fold_result (recover_cycle_step env v t) cs (s, rs) = Inr (s', rs') \<Longrightarrow>
     map cr_cycle rs' = map cr_cycle rs @ map (abandoned t) cs"
proof (induction cs arbitrary: s rs)
  case (Cons c cs)
  from Cons.prems obtain s1 rs1 where step: "recover_cycle_step env v t c (s, rs) = Inr (s1, rs1)"
    and rest: "fold_result (recover_cycle_step env v t) cs (s1, rs1) = Inr (s', rs')"
    by (auto simp only: fold_result.simps bind_result_Inr)
  from step obtain r v1 where rec: "record_cycle_locked env v s (abandoned t c) False None = Inr (r, v1, s1)" and rs1: "rs1 = rs @ [r]"
    by (auto simp: recover_cycle_step_def bind_result_Inr split: if_splits)
  have "cr_cycle r = abandoned t c" using rec by (cases rule: record_cycle_locked_Inr) (auto simp: new_cycle_receipt_def)
  with Cons.IH [OF rest] rs1 show ?case by simp
qed simp

lemma recover_cycles_cases:
  assumes ok: "vault_ok env v"
  obtains (failed) e where "recover_cycles env v run t = (Inl e, v)"
  | (recovered) s s' r w where "recover_cycles env v run t = (Inr r, w)" "dict_get (va_slots v) run = Some s"
      "dict_get (va_slots w) run = Some s'" "none_running (sl_projection s')" "vault_ok env w"
      "map cr_cycle (rv_failed_unknown_cost r) =
         map (abandoned t) (filter (\<lambda>c. cy_state c = Cycle_RUNNING) (sorted_cycles (sl_projection s)))"
proof (cases "recover_cycles env v run t")
  case (Pair x w)
  show thesis
  proof (cases x)
    case (Inl e)
    with Pair recover_operation_Inl(1) [of env v run t e] that(1) show thesis by simp
  next
    case (Inr r)
    with Pair obtain s v' s' where find: "find_slot v run = Inr s" and body: "recover_cycles_body env v t s = Inr (r, v', s')"
      and w: "w = store_slot s' v'"
      by (auto simp: recover_cycles_def bind_result_Inr split: sum.splits elim!: on_slot_Inr)
    note got = conjunct1 [OF find_slot_Inr [OF find]]
    note slot = vault_ok_slot [OF ok got]
    have "sl_run_id s' = run"
      using grows_run recover_cycles_body_advanced [OF body] slot(1) unfolding advanced_def by metis
    moreover have "vault_ok env w" using recover_operation_keeps(1) [OF ok, of run t] Pair by (simp add: keeps_def)
    moreover have "map cr_cycle (rv_failed_unknown_cost r) =
        map (abandoned t) (filter (\<lambda>c. cy_state c = Cycle_RUNNING) (sorted_cycles (sl_projection s)))"
    proof -
      obtain shadow where "fold_result (recover_cycle_step env v t)
          (filter (\<lambda>c. cy_state c = Cycle_RUNNING) (sorted_cycles (sl_projection s))) (s\<lparr>sl_append_leases := 0\<rparr>, []) =
        Inr (shadow, rv_failed_unknown_cost r)"
        using body unfolding recover_cycles_body_def Let_def by (auto simp: bind_result_Inr split: if_splits option.splits)
      from recover_cycle_steps_receipts [OF this] show ?thesis by simp
    qed
    ultimately show thesis
      using Pair Inr got recover_cycles_body_none_running [OF slot(2) body] w by (intro that(2)) simp_all
  qed
qed

lemma recover_cycles_idle:
  assumes ok: "vault_ok env v" and s: "dict_get (va_slots v) run = Some s" and idle: "none_running (sl_projection s)"
  shows "\<exists>r. recover_cycles env v run t = (Inr r, v) \<and> rv_failed_unknown_cost r = []"
proof -
  note slot = vault_ok_slot [OF ok s] and found = find_stored [OF ok s]
  obtain r where r: "recover_cycles_body env v t s = Inr (r, v, s)" "rv_failed_unknown_cost r = []"
    using recover_cycles_body_idle [OF slot(2) idle] by blast
  have "store_slot s v = v" using s slot(1) by (simp add: store_slot_def dict_set_same)
  with r found show ?thesis by (simp add: recover_cycles_def validate_run_id_def on_slot_def)
qed

lemma recover_deliveries_cases:
  assumes ok: "vault_ok env v"
  obtains (failed) e where "recover_deliveries env v run t = (Inl e, v)"
  | (recovered) s' r w where "recover_deliveries env v run t = (Inr r, w)" "dict_get (va_slots w) run = Some s'"
      "none_attempting (sl_projection s')"
proof (cases "recover_deliveries env v run t")
  case (Pair x w)
  show thesis
  proof (cases x)
    case (Inl e)
    with Pair recover_operation_Inl(2) [of env v run t e] that(1) show thesis by simp
  next
    case (Inr r)
    with Pair obtain s v' s' where find: "find_slot v run = Inr s"
      and body: "recover_deliveries_body env v t s = Inr (r, v', s')" and w: "w = store_slot s' v'"
      by (auto simp: recover_deliveries_def bind_result_Inr split: sum.splits elim!: on_slot_Inr)
    note got = conjunct1 [OF find_slot_Inr [OF find]]
    note slot = vault_ok_slot [OF ok got]
    have "sl_run_id s' = run"
      using grows_run recover_deliveries_body_advanced [OF body] slot(1) unfolding advanced_def by metis
    then have "dict_get (va_slots w) run = Some s'" by (simp add: w)
    with Pair Inr recover_deliveries_body_none_attempting [OF slot(2) body] show thesis by (intro that(2)) simp_all
  qed
qed

end
