(* ===== verification/Ledger_Authenticity.thy ===== *)
theory Ledger_Authenticity
  imports Repository_Facts
begin

text \<open>
  What the hash chain protects. A ledger head fixes the ledger under it: of two ledgers that replay
  under one head, every entry has the same position, key and tags and the same canonical record, or
  two different byte strings that the two ledgers tag have the same keyed hash.
\<close>

section \<open>Objects in any key order\<close>

lemma insort_map_pair: "insort_key fst (k, f v) (map (\<lambda>(k, v). (k, f v)) kvs) =
    map (\<lambda>(k, v). (k, f v)) (insort_key fst (k, v) kvs)"
  by (induction kvs) auto

lemma sort_map_pair: "sort_key fst (map (\<lambda>(k, v). (k, f v)) kvs) = map (\<lambda>(k, v). (k, f v)) (sort_key fst kvs)"
proof (induction kvs)
  case (Cons kv kvs)
  then show ?case by (cases kv) (simp add: insort_map_pair)
qed simp

lemma object_text_sorted: "json_text F (JObj (sort_key fst kvs)) = json_text F (JObj kvs)"
  by (simp add: sort_map_pair sort_key_id_if_sorted)

lemma chain_value_sorted:
  "sort_key fst [(''run_id'', a), (''position'', b), (''record_key'', c), (''record_tag'', d), (''previous_chain_tag'', e)] =
     [(''position'', b), (''previous_chain_tag'', e), (''record_key'', c), (''record_tag'', d), (''run_id'', a)]"
  by simp

lemma digest_json_finite [simp]: "json_finite (digest_json t)" "json_finite (opt_digest_json u)"
  by (simp_all add: digest_json_def opt_digest_json_def split: option.split)

lemma digest_json_wf [simp]: "json_wf (digest_json t)" "json_wf (opt_digest_json u)"
  by (simp_all add: digest_json_def opt_digest_json_def split: option.split)

lemma algorithm_value_inj: "algorithm_value a = algorithm_value b \<longleftrightarrow> a = b"
  by (cases a; cases b) simp_all

lemma digest_json_inj: "digest_json s = digest_json t \<longleftrightarrow> s = t" "opt_digest_json u = opt_digest_json v \<longleftrightarrow> u = v"
proof -
  show digest: "digest_json s = digest_json t \<longleftrightarrow> s = t" for s t
    by (cases s; cases t) (simp add: digest_json_def algorithm_value_inj)
  show "opt_digest_json u = opt_digest_json v \<longleftrightarrow> u = v"
    by (cases u; cases v) (simp_all add: opt_digest_json_def digest, simp_all add: digest_json_def)
qed

lemma chain_value_inj:
  assumes "float_repr F" and "canonical_json F (chain_value run n key t u) = Some doc"
    and "canonical_json F (chain_value run n' key' t' u') = Some doc"
  shows "n = n' \<and> key = key' \<and> t = t' \<and> u = u'"
proof -
  let ?sorted = "\<lambda>n key t u. JObj [(''position'', JInt n), (''previous_chain_tag'', opt_digest_json u),
    (''record_key'', JStr key), (''record_tag'', digest_json t), (''run_id'', JStr (uuid_str run))]"
  have spelled: "json_text F (?sorted n key t u) = json_text F (chain_value run n key t u)" for n key t u
    using object_text_sorted [of F "[(''run_id'', JStr (uuid_str run)), (''position'', JInt n), (''record_key'', JStr key),
      (''record_tag'', digest_json t), (''previous_chain_tag'', opt_digest_json u)]"]
    unfolding chain_value_sorted chain_value_def .
  have canonical: "canonical_json F (?sorted n key t u) = Some doc"
    if "canonical_json F (chain_value run n key t u) = Some doc" for n key t u
    using that unfolding canonical_json_def spelled by (simp add: chain_value_def split: if_splits)
  have "?sorted n key t u = ?sorted n' key' t' u'"
    by (rule canonical_json_inj [OF assms(1) _ _ canonical [OF assms(2)] canonical [OF assms(3)]]) simp_all
  then show ?thesis by (simp add: digest_json_inj)
qed

section \<open>Ledgers under one head\<close>

text \<open>The byte strings whose keyed hash an entry carries.\<close>

definition tagged_bytes :: "repo_env \<Rightarrow> ledger_entry \<Rightarrow> string list" where
  "tagged_bytes env e =
     [frame ''saliencegate:ledger-record:v1'' @ frame (json_text (en_float env) (en_dump env (le_record e))),
      frame ''saliencegate:ledger-chain:v1'' @ frame (json_text (en_float env)
        (chain_value (le_run_id e) (le_position e) (le_record_key e) (le_record_tag e) (le_previous_chain_tag e)))]"

definition ledgers_collide :: "repo_env \<Rightarrow> ledger_entry list \<Rightarrow> ledger_entry list \<Rightarrow> bool" where
  "ledgers_collide env es fs \<longleftrightarrow>
     (\<exists>x\<in>set (concat (map (tagged_bytes env) es)). \<exists>y\<in>set (concat (map (tagged_bytes env) fs)).
        x \<noteq> y \<and> keyed (en_integrity env) x = keyed (en_integrity env) y)"

definition same_entry :: "repo_env \<Rightarrow> ledger_entry \<Rightarrow> ledger_entry \<Rightarrow> bool" where
  "same_entry env e f \<longleftrightarrow> f\<lparr>le_record := le_record e\<rparr> = e \<and>
     canonical_json (en_float env) (en_dump env (le_record e)) = canonical_json (en_float env) (en_dump env (le_record f))"

lemma verify_entry_tags:
  assumes "verify_entry env e n previous = Inr ()"
  shows "le_position e = n" and "le_previous_chain_tag e = previous" and "le_record_key e = record_key (le_record e)"
    and "tag (en_integrity env) ''saliencegate:ledger-record:v1'' (en_dump env (le_record e)) = Inr (le_record_tag e)"
    and "tag (en_integrity env) ''saliencegate:ledger-chain:v1''
      (chain_value (le_run_id e) n (le_record_key e) (le_record_tag e) previous) = Inr (le_chain_tag e)"
  using assms by (auto simp: verify_entry_def bind_result_Inr checks_Inr verify_tag_Inr_True split: if_splits)

lemma tag_same_text:
  assumes "integrity_ok it" and "tag it d v = Inr t" and "tag it d w = Inr t"
    and "keyed it (frame d @ frame (json_text (it_float it) v)) = keyed it (frame d @ frame (json_text (it_float it) w)) \<Longrightarrow>
      frame d @ frame (json_text (it_float it) v) = frame d @ frame (json_text (it_float it) w)"
  shows "canonical_json (it_float it) v = canonical_json (it_float it) w"
proof -
  obtain x where x: "canonical_json (it_float it) v = Some x" "pd_value t = keyed it (frame d @ frame x)"
    using assms(1,2) by (auto elim!: tag_Inr)
  obtain y where y: "canonical_json (it_float it) w = Some y" "pd_value t = keyed it (frame d @ frame y)"
    using assms(1,3) by (auto elim!: tag_Inr)
  have "x = json_text (it_float it) v" "y = json_text (it_float it) w"
    using x(1) y(1) by (simp_all add: canonical_json_def split: if_splits)
  with x y assms(4) have "x = y" by (simp add: frame_def)
  with x(1) y(1) show ?thesis by simp
qed

lemma same_tags_same_entry:
  assumes it: "integrity_ok (en_integrity env)" "float_repr (en_float env)" and run: "le_run_id e = run" "le_run_id f = run"
    and ve: "verify_entry env e n u = Inr ()" and vf: "verify_entry env f m w = Inr ()"
    and chain: "le_chain_tag e = le_chain_tag f" and apart: "\<not> ledgers_collide env [e] [f]"
  shows "same_entry env e f \<and> m = n \<and> u = w"
proof -
  note e = verify_entry_tags [OF ve] and f = verify_entry_tags [OF vf]
  have injective: "x = y" if "x \<in> set (tagged_bytes env e)" "y \<in> set (tagged_bytes env f)"
    "keyed (en_integrity env) x = keyed (en_integrity env) y" for x y
    using that apart by (auto simp: ledgers_collide_def)
  have "canonical_json (en_float env) (chain_value run n (le_record_key e) (le_record_tag e) u) =
      canonical_json (en_float env) (chain_value run m (le_record_key f) (le_record_tag f) w)"
    by (rule tag_same_text [OF it(1) e(5) [unfolded run] f(5) [unfolded run, folded chain]])
      (rule injective; simp add: tagged_bytes_def e(1,2) f(1,2) run)
  moreover obtain doc where doc: "canonical_json (en_float env) (chain_value run n (le_record_key e) (le_record_tag e) u) = Some doc"
    using e(5) [unfolded run] by (rule tag_Inr)
  ultimately have "canonical_json (en_float env) (chain_value run m (le_record_key f) (le_record_tag f) w) = Some doc"
    by (simp only:)
  note same = chain_value_inj [OF it(2) doc this]
  have "canonical_json (en_float env) (en_dump env (le_record e)) = canonical_json (en_float env) (en_dump env (le_record f))"
  proof (rule tag_same_text [OF it(1) e(4)])
    show "tag (en_integrity env) ''saliencegate:ledger-record:v1'' (en_dump env (le_record f)) = Inr (le_record_tag e)"
      using same f(4) by (simp only:)
  qed (rule injective; simp only: tagged_bytes_def list.set insert_iff simp_thms)
  moreover have "f\<lparr>le_record := le_record e\<rparr> = e"
    using same run chain e(1,2) f(1,2) by (intro ledger_entry.equality) simp_all
  ultimately show ?thesis using same by (simp add: same_entry_def)
qed

lemma verify_entries_snoc:
  "verify_entries env (es @ [e]) n previous = Inr () \<longleftrightarrow> verify_entries env es n previous = Inr () \<and>
     verify_entry env e (n + int (length es)) (if es = [] then previous else last_chain_tag es) = Inr ()"
proof (induction es arbitrary: n previous)
  case (Cons x xs)
  have "last_chain_tag (x # xs) = (if xs = [] then Some (le_chain_tag x) else last_chain_tag xs)"
    by (simp add: last_chain_tag_def)
  with Cons show ?case by (simp add: bind_result_Inr algebra_simps)
qed (simp add: bind_result_Inr)

lemma ledgers_collide_mono:
  "ledgers_collide env xs ys \<Longrightarrow> set xs \<subseteq> set es \<Longrightarrow> set ys \<subseteq> set fs \<Longrightarrow> ledgers_collide env es fs"
  unfolding ledgers_collide_def by (simp add: subset_iff) blast

lemma same_head_same_ledger:
  assumes it: "integrity_ok (en_integrity env)" "float_repr (en_float env)"
  shows "verify_entries env es 1 None = Inr () \<Longrightarrow> verify_entries env fs 1 None = Inr () \<Longrightarrow>
    length es = length fs \<Longrightarrow> list_all (\<lambda>e. le_run_id e = run) es \<Longrightarrow> list_all (\<lambda>e. le_run_id e = run) fs \<Longrightarrow>
    last_chain_tag es = last_chain_tag fs \<Longrightarrow> \<not> ledgers_collide env es fs \<Longrightarrow> list_all2 (same_entry env) es fs"
proof (induction es arbitrary: fs rule: rev_induct)
  case (snoc e es)
  then obtain gs f where fs: "fs = gs @ [f]" and len: "length gs = length es"
    by (cases fs rule: rev_cases) auto
  note ve = snoc.prems(1) [unfolded verify_entries_snoc] and vf = snoc.prems(2) [unfolded fs verify_entries_snoc]
  have chain: "le_chain_tag e = le_chain_tag f" using snoc.prems(6) by (simp add: last_chain_tag_def fs)
  have "\<not> ledgers_collide env [e] [f]"
    using snoc.prems(7) ledgers_collide_mono [of env "[e]" "[f]" "es @ [e]" fs] by (auto simp: fs)
  note both = same_tags_same_entry [OF it _ _ conjunct2 [OF ve] conjunct2 [OF vf] chain this]
  have one: "same_entry env e f" and last: "last_chain_tag es = last_chain_tag gs"
    using both snoc.prems(4,5) len by (simp_all add: fs last_chain_tag_def split: if_splits)
  have "list_all2 (same_entry env) es gs"
    using snoc.prems(4,5,7) ledgers_collide_mono [of env es gs "es @ [e]" fs] ve vf
    by (intro snoc.IH last len [symmetric]) (auto simp: fs)
  with one fs show ?case by (simp add: list_all2_appendI)
qed simp

lemma replay_run_verifies:
  assumes "replay_run env es head = Inr r"
  shows "verify_entries env es 1 None = Inr () \<and> list_all (\<lambda>e. le_run_id e = lh_run_id head) es \<and>
    length es = nat (lh_entry_count head) \<and> last_chain_tag es = Some (lh_chain_tag head)"
proof -
  from assms obtain st where run: "es \<noteq> []" "lh_entry_count head = int (length es)" "lh_chain_tag head = le_chain_tag (last es)"
    "list_all (\<lambda>e. le_run_id e = lh_run_id head) es" and st: "fold_result (replay_entry env) es (start_replay (lh_run_id head)) = Inr st"
    by (rule replay_run_Inr)
  with replay_entries_project [OF st] show ?thesis by (simp add: start_replay_def last_chain_tag_def)
qed

end
