(* ===== verification/Memory_Search.thy ===== *)
theory Memory_Search
  imports Repository_Facts
begin

text \<open>
  The memory search of the projector as a selection of best matches: what a hit is, and that the
  truncated, sorted list leaves out only hits that score no higher.
\<close>

lemma search_hit_sound:
  assumes "search_hit casefold terms q m = Some h"
  shows "mh_memory h = m" and "0 < mh_score h" and "mh_score h \<le> 1"
proof -
  let ?matched = "filter (\<lambda>t. occurs_in t (casefold (mr_content m))) terms"
  have h: "h = \<lparr>mh_memory = m, mh_score = (if terms = [] then 1 else of_nat (length ?matched) / of_nat (length terms)),
      mh_matched_terms = ?matched\<rparr>" and some: "terms = [] \<or> ?matched \<noteq> []"
    using assms by (auto simp: search_hit_def Let_def split: if_splits)
  show "mh_memory h = m" by (simp add: h)
  have "(of_nat (length ?matched) :: rat) \<le> of_nat (length terms)" by (simp only: of_nat_le_iff length_filter_le)
  moreover have "terms \<noteq> [] \<Longrightarrow> (0 :: rat) < of_nat (length ?matched)" using some by (simp only: of_nat_0_less_iff) simp
  ultimately show "0 < mh_score h" "mh_score h \<le> 1" by (auto simp: h)
qed

lemma sorted_take_best:
  fixes f :: "'a \<Rightarrow> 'b::linorder"
  assumes "sorted (map f xs)" and "x \<in> set xs"
  shows "x \<in> set (take n xs) \<or> length (take n xs) = n \<and> (\<forall>y\<in>set (take n xs). f y \<le> f x)"
proof (rule disjCI)
  assume "\<not> (length (take n xs) = n \<and> (\<forall>y\<in>set (take n xs). f y \<le> f x))"
  have split: "xs = take n xs @ drop n xs" by simp
  show "x \<in> set (take n xs)"
  proof (rule ccontr)
    assume "x \<notin> set (take n xs)"
    with assms(2) split have drop: "x \<in> set (drop n xs)" by (metis Un_iff set_append)
    then have "n < length xs" by (metis drop_all empty_iff linorder_not_less list.set(1))
    moreover have "\<forall>y\<in>set (take n xs). f y \<le> f x"
      using assms(1) drop by (subst (asm) split, unfold map_append sorted_append) auto
    ultimately show False using \<open>\<not> (length (take n xs) = n \<and> _)\<close> by simp
  qed
qed

lemma in_map_filter_iff: "h \<in> set (List.map_filter f xs) \<longleftrightarrow> (\<exists>x\<in>set xs. f x = Some h)"
  by (induction xs) (auto simp: map_filter_simps split: option.splits)

lemma search_projection_best:
  fixes p q casefold words
  defines "hits \<equiv> search_projection casefold words p q" and "hit \<equiv> search_hit casefold (query_terms casefold words q) q"
  shows "length hits \<le> nat (mq_limit q) \<and> sorted_wrt (\<lambda>a b. mh_score b \<le> mh_score a) hits \<and>
    (\<forall>h\<in>set hits. 0 < mh_score h \<and> mh_score h \<le> 1 \<and> mh_memory h \<in> set (dict_values (pr_memories p)) \<and>
       hit (mh_memory h) = Some h) \<and>
    (\<forall>m\<in>set (dict_values (pr_memories p)). \<forall>h. hit m = Some h \<longrightarrow>
       h \<in> set hits \<or> length hits = nat (mq_limit q) \<and> (\<forall>k\<in>set hits. mh_score h \<le> mh_score k))"
proof -
  define found where "found = sort_key (\<lambda>h. - mh_score h) (sort_key (\<lambda>h. - mr_revision (mh_memory h))
    (sort_key (\<lambda>h. mr_memory_id (mh_memory h)) (List.map_filter hit (dict_values (pr_memories p)))))"
  have hits: "hits = take (nat (mq_limit q)) found"
    by (simp add: hits_def search_projection_def found_def hit_def)
  have sorted: "sorted (map (\<lambda>h. - mh_score h) found)" by (simp add: found_def)
  have member: "h \<in> set found \<longleftrightarrow> (\<exists>m\<in>set (dict_values (pr_memories p)). hit m = Some h)" for h
    by (simp add: found_def in_map_filter_iff)
  have order: "sorted_wrt (\<lambda>a b. mh_score b \<le> mh_score a) hits"
    using sorted unfolding hits by (simp add: sorted_map sorted_wrt_take)
  have sound: "0 < mh_score h \<and> mh_score h \<le> 1 \<and> mh_memory h \<in> set (dict_values (pr_memories p)) \<and> hit (mh_memory h) = Some h"
    if "h \<in> set hits" for h
  proof -
    from that member obtain m where "m \<in> set (dict_values (pr_memories p))" "hit m = Some h"
      unfolding hits by (meson in_set_takeD)
    with search_hit_sound [of casefold "query_terms casefold words q" q m h] show ?thesis by (simp add: hit_def)
  qed
  have best: "h \<in> set hits \<or> length hits = nat (mq_limit q) \<and> (\<forall>k\<in>set hits. mh_score h \<le> mh_score k)"
    if "m \<in> set (dict_values (pr_memories p))" "hit m = Some h" for m h
    using sorted_take_best [OF sorted, of h "nat (mq_limit q)"] member that unfolding hits by fastforce
  show ?thesis using order sound best by (simp add: hits)
qed

end
