(* ===== verification/Sample_Repository.thy ===== *)
theory Sample_Repository
  imports Repository_Recovery Ledger_Authenticity Memory_Search Sample_Run
begin

text \<open>
  A concrete repository for the witnesses: synthetic benchmark tags over a constant hash, a redactor
  that finds no secrets, and constant dumps. Its ledger is the sample run up to the running cycle,
  with the keys and tags this environment gives, installed from its entries and head.
\<close>

definition sample_env :: repo_env where
  "sample_env = \<lparr>en_integrity = \<lparr>it_hash = zero_hash, it_float = ratio_text, it_key = None, it_synthetic_benchmark = True\<rparr>,
     en_dump = (\<lambda>r. JNull), en_dump_command = (\<lambda>c. JObj []), en_timestamp_text = (\<lambda>t. ''t''),
     en_redactor = \<lparr>rd_text = (\<lambda>s. s), rd_field_name = Some, rd_secret_fields = []\<rparr>,
     en_dump_memory = (\<lambda>m. JNull), en_dump_intervention = (\<lambda>i. JNull), en_dump_snapshot = (\<lambda>s. JNull),
     en_dump_amounts = (\<lambda>a. JNull), en_operations_size = (\<lambda>ops. Some 0), en_receipt_size = (\<lambda>r. 0)\<rparr>"

definition zero_tag :: payload_digest where
  "zero_tag = \<lparr>pd_algorithm = Alg_SYNTHETIC_SHA256, pd_value = zero_hash []\<rparr>"

lemma sample_env_sel [simp]:
  "en_hash sample_env = zero_hash" "en_float sample_env = ratio_text" "en_dump sample_env r = JNull"
  "en_dump_command sample_env c = JObj []" "en_timestamp_text sample_env t = ''t''"
  "en_dump_memory sample_env m = JNull" "en_dump_intervention sample_env i = JNull"
  "en_dump_snapshot sample_env s = JNull" "en_dump_amounts sample_env a = JNull"
  "en_operations_size sample_env ops = Some 0" "en_receipt_size sample_env br = 0"
  by (simp_all add: sample_env_def)

lemma sample_tag_of [simp]: "json_finite v \<Longrightarrow> tag (en_integrity sample_env) domain v = Inr zero_tag"
  by (simp add: tag_def sample_env_def canonical_json_def zero_tag_def zero_hash_length_prefixed)

lemma sample_verify_tag [simp]: "json_finite v \<Longrightarrow> verify_tag (en_integrity sample_env) domain v zero_tag = Inr True"
  by (simp add: verify_tag_Inr_True)

lemma zero_tag_valid [simp]: "valid_payload_digest zero_tag"
  by (simp add: valid_payload_digest_def zero_tag_def)

definition stored_entry :: "int \<Rightarrow> ledger_record \<Rightarrow> ledger_entry" where
  "stored_entry n r = \<lparr>le_run_id = sample_uuid 1, le_position = n, le_record_key = record_key r,
     le_record_tag = zero_tag, le_previous_chain_tag = (if n = 1 then None else Some zero_tag),
     le_chain_tag = zero_tag, le_record = r\<rparr>"

lemma stored_entry_sel [simp]:
  "le_run_id (stored_entry n r) = sample_uuid 1" "le_position (stored_entry n r) = n"
  "le_record_key (stored_entry n r) = record_key r" "le_record_tag (stored_entry n r) = zero_tag"
  "le_previous_chain_tag (stored_entry n r) = (if n = 1 then None else Some zero_tag)"
  "le_chain_tag (stored_entry n r) = zero_tag" "le_record (stored_entry n r) = r"
  by (simp_all add: stored_entry_def)

lemma apply_stored: "apply_entry H F p (stored_entry n r) = apply_entry H F p (sample_entry n r)"
  by (cases r) (simp_all add: apply_entry_def apply_event_def sample_entry_def)

lemma verify_stored: "verify_entry sample_env (stored_entry n r) n (if n = 1 then None else Some zero_tag) = Inr ()"
  by (simp add: verify_entry_def chain_value_def checks_pass)

lemma checkpoint_stored: "checkpoint_tag sample_env (stored_entry n r) p t = Inr zero_tag"
  by (simp add: checkpoint_tag_def projection_counts_def)

definition sample_records :: "ledger_record list" where
  "sample_records = [Rec_event sample_event, Rec_decision sample_decision, Rec_cycle sample_pending,
     Rec_cycle sample_reserved, Rec_cycle sample_running]"

definition sample_entries :: "ledger_entry list" where
  "sample_entries = [stored_entry 1 (Rec_event sample_event), stored_entry 2 (Rec_decision sample_decision),
     stored_entry 3 (Rec_cycle sample_pending), stored_entry 4 (Rec_cycle sample_reserved),
     stored_entry 5 (Rec_cycle sample_running)]"

definition sample_head :: ledger_head where
  "sample_head = \<lparr>lh_run_id = sample_uuid 1, lh_entry_count = 5, lh_chain_tag = zero_tag,
     lh_projection_tag = zero_tag, lh_head_tag = zero_tag\<rparr>"

lemma sample_head_valid: "valid_ledger_head sample_head" "verify_head_tag sample_env sample_head = Inr True"
  by (simp_all add: valid_ledger_head_def sample_head_def verify_head_tag_def head_value_def zero_tag_def)
    (simp add: zero_tag_def [symmetric])

section \<open>Replaying the sample ledger\<close>

definition sample_seed :: "cycle_record \<Rightarrow> int \<Rightarrow> budget_snapshot \<Rightarrow> receipt_seed" where
  "sample_seed c n snapshot = \<lparr>se_record = c, se_record_tag = zero_tag, se_ledger_position = n,
     se_chain_tag = zero_tag, se_budget_snapshot = snapshot\<rparr>"

definition sample_held :: budget_snapshot where
  "sample_held = sample_snapshot\<lparr>reserved := sample_reservation\<rparr>"

lemma add_one_amount: "add_amounts [a] = a"
  by (rule budget_amounts_eqI) (simp add: add_amounts_def)

definition sample_state :: "projection \<Rightarrow> int \<Rightarrow> (string \<times> uuid, direct_record) dict \<Rightarrow>
    (digest \<times> int, receipt_seed) dict \<Rightarrow> replay_state" where
  "sample_state p n direct seeds = \<lparr>rp_projection = p, rp_chain_tag = Some zero_tag, rp_projection_tag = Some zero_tag,
     rp_position = n, rp_direct_records = direct, rp_seeds = seeds, rp_delivery_records = []\<rparr>"

lemma sample_state_sel [simp]:
  "rp_projection (sample_state p n direct seeds) = p" "rp_chain_tag (sample_state p n direct seeds) = Some zero_tag"
  "rp_projection_tag (sample_state p n direct seeds) = Some zero_tag" "rp_position (sample_state p n direct seeds) = n"
  "rp_direct_records (sample_state p n direct seeds) = direct" "rp_seeds (sample_state p n direct seeds) = seeds"
  "rp_delivery_records (sample_state p n direct seeds) = []"
  by (simp_all add: sample_state_def)

lemma replay_stored:
  assumes "apply_entry zero_hash ratio_text p (sample_entry n r) = Inr p'" and "n \<noteq> 1"
    and "add_seed (stored_entry n r) p' seeds = Inr seeds'" and "add_delivery (stored_entry n r) [] = []"
  shows "replay_entry sample_env (stored_entry n r) (sample_state p n direct seeds) =
      Inr (sample_state p' (n + 1) (add_direct (stored_entry n r) direct) seeds')"
  using assms verify_stored [of n r]
  by (simp add: replay_entry_def apply_stored checkpoint_stored sample_state_def)

lemma replay_first: "replay_entry sample_env (stored_entry 1 (Rec_event sample_event)) (start_replay (sample_uuid 1)) =
    Inr (sample_state sample_p1 2 [] [])"
  using verify_stored [of 1 "Rec_event sample_event"] sample_step1
  by (simp add: replay_entry_def start_replay_def apply_stored checkpoint_stored add_seed_def add_direct_def
      direct_from_entry_def add_delivery_def sample_state_def)

lemma sample_budgets:
  "budget_snapshot_of sample_p3 None = Inr sample_snapshot" "budget_snapshot_of sample_p4 None = Inr sample_held"
  "budget_snapshot_of sample_p5 None = Inr sample_held"
proof -
  have held: "valid_budget_snapshot sample_held"
    by (simp add: budget_simps sample_held_def sample_snapshot_def zero_amounts_def)
  show "budget_snapshot_of sample_p3 None = Inr sample_snapshot" by (rule sample_p3_budget)
  show "budget_snapshot_of sample_p4 None = Inr sample_held" "budget_snapshot_of sample_p5 None = Inr sample_held"
    using held
    by (simp_all add: budget_snapshot_of_def dict_values_def active_reservation_def final_settlement_def
        map_filter_simps sample_held_def sample_snapshot_def add_one_amount)
      (simp_all add: add_amounts_def zero_amounts_def)
qed

definition sample_direct :: "(string \<times> uuid, direct_record) dict" where
  "sample_direct = [((''invocation_decision'', sample_uuid 4), \<lparr>dc_record = Rec_decision sample_decision,
     dc_receipt = \<lparr>lr_appended = True, lr_record_id = sample_uuid 4, lr_record_tag = zero_tag,
       lr_ledger_position = 2, lr_chain_tag = zero_tag\<rparr>\<rparr>)]"

lemma sample_add_direct: "add_direct (stored_entry 2 (Rec_decision sample_decision)) [] = sample_direct"
  "add_direct (stored_entry n (Rec_cycle c)) d = d"
  by (simp_all add: add_direct_def direct_from_entry_def sample_direct_def dict_set_def)

definition sample_seeds :: "(digest \<times> int, receipt_seed) dict" where
  "sample_seeds = [((zero_hash [], 1), sample_seed sample_pending 3 sample_snapshot),
     ((zero_hash [], 2), sample_seed sample_reserved 4 sample_held),
     ((zero_hash [], 3), sample_seed sample_running 5 sample_held)]"

lemma sample_replay: "fold_result (replay_entry sample_env) sample_entries (start_replay (sample_uuid 1)) =
    Inr (sample_state sample_p5 6 sample_direct sample_seeds)"
proof -
  let ?run = "replay_entry sample_env"
  have "?run (stored_entry 2 (Rec_decision sample_decision)) (sample_state sample_p1 2 [] []) =
      Inr (sample_state sample_p2 3 sample_direct [])"
    using replay_stored [OF sample_step2, of "[]" "[]" "[]"]
    by (simp add: add_seed_def add_delivery_def sample_add_direct)
  moreover have "?run (stored_entry 3 (Rec_cycle sample_pending)) (sample_state sample_p2 3 sample_direct []) =
      Inr (sample_state sample_p3 4 sample_direct (take 1 sample_seeds))"
    using replay_stored [OF sample_step3, of "[]" "take 1 sample_seeds" sample_direct]
    by (simp add: add_seed_def add_delivery_def sample_add_direct sample_budgets sample_seeds_def sample_seed_def dict_set_def)
  moreover have "?run (stored_entry 4 (Rec_cycle sample_reserved)) (sample_state sample_p3 4 sample_direct (take 1 sample_seeds)) =
      Inr (sample_state sample_p4 5 sample_direct (take 2 sample_seeds))"
    using replay_stored [OF sample_step4, of "take 1 sample_seeds" "take 2 sample_seeds" sample_direct]
    by (simp add: add_seed_def add_delivery_def sample_add_direct sample_budgets sample_seeds_def sample_seed_def dict_set_def)
  moreover have "?run (stored_entry 5 (Rec_cycle sample_running)) (sample_state sample_p4 5 sample_direct (take 2 sample_seeds)) =
      Inr (sample_state sample_p5 6 sample_direct sample_seeds)"
    using replay_stored [OF sample_step5, of "take 2 sample_seeds" sample_seeds sample_direct]
    by (simp add: add_seed_def add_delivery_def sample_add_direct sample_budgets sample_seeds_def sample_seed_def dict_set_def)
  ultimately show ?thesis by (simp only: sample_entries_def fold_result.simps replay_first bind_result_simps)
qed

lemma sample_complete: "validate_complete_projection sample_p5 = Inr ()"
  by (simp add: validate_complete_projection_def dict_values_def committed_reminder_def checks_pass)

lemma sample_collisions: "collision_receipts sample_p5 = Inr []"
proof -
  have "take 23 (ev_source_event_id sample_event) \<noteq> ''saliencegate:collision:''" by (simp add: sample_event_def)
  then show ?thesis by (simp add: collision_receipts_def collision_receipt_step_def dict_values_def)
qed

definition sample_receipts :: "(digest \<times> int, cycle_receipt) dict" where
  "sample_receipts = map (\<lambda>(k, seed). (k, attached_receipt sample_p5 seed)) sample_seeds"

lemma sample_attached: "attach_deliveries sample_env sample_seeds sample_p5 = Inr sample_receipts"
proof -
  have "valid_budget_snapshot sample_held"
    by (simp add: budget_simps sample_held_def sample_snapshot_def zero_amounts_def)
  then show ?thesis
    using sample_cycle_valid
    by (simp add: attach_deliveries_def Let_def sample_receipts_def sample_seeds_def attached_receipt_def sample_seed_def
        valid_cycle_receipt_def committed_reminder_def)
qed

definition sample_digests :: projection_digests where
  "sample_digests = \<lparr>pg_components = map (\<lambda>name. (name, zero_tag))
     [''events'', ''memory'', ''signals'', ''decisions'', ''cycles'', ''interventions'', ''budgets'', ''cursors'',
      ''deliveries'', ''outcomes''], pg_overall = zero_tag\<rparr>"

lemma models_finite [simp]: "\<forall>k. json_finite (key_json k) \<Longrightarrow> \<forall>v. json_finite (dump v) \<Longrightarrow>
    json_finite (models_json text_of key_json dump d)"
  "\<forall>v. json_finite (dump v) \<Longrightarrow> json_finite (index_json text_of dump d)"
  by (auto simp: models_json_def index_json_def list_all_iff)

lemma keys_finite [simp]: "json_finite (uuid_key_json i)" "json_finite (str_key_json s)" "json_finite (int_key_json n)"
  "json_finite (uuid_revision_key k)" "json_finite (str_revision_key j)"
  by (simp_all add: uuid_key_json_def str_key_json_def int_key_json_def uuid_revision_key_def str_revision_key_def
      tuple_key_json_def split_beta')

lemma sample_digests_of: "projection_digests_of sample_env sample_p5 n = Inr sample_digests"
proof -
  obtain b where b: "budgets_component sample_env sample_p5 = Inr b" "json_finite b"
    using sample_budgets(3) by (auto simp: budgets_component_def list_all_iff)
  have c: "json_finite (events_component sample_env sample_p5)" "json_finite (memory_component sample_env sample_p5)"
    "json_finite (cycles_component sample_env sample_p5)" "json_finite (deliveries_component sample_env sample_p5)"
    by (simp_all add: events_component_def memory_component_def cycles_component_def deliveries_component_def
        list_all_iff Let_def)
  show ?thesis
    using b(2) c by (simp add: projection_digests_of_def digest_components_def b(1) sample_digests_def)
qed

definition sample_replayed :: replayed_run where
  "sample_replayed = \<lparr>ry_ledger = sample_entries, ry_head = sample_head, ry_projection = sample_p5,
     ry_digests = sample_digests, ry_direct_records = sample_direct, ry_cycle_records = sample_receipts,
     ry_delivery_records = [], ry_collision_receipts = []\<rparr>"

lemma sample_replayed_sel [simp]:
  "ry_ledger sample_replayed = sample_entries" "ry_head sample_replayed = sample_head"
  "ry_projection sample_replayed = sample_p5" "ry_digests sample_replayed = sample_digests"
  "ry_direct_records sample_replayed = sample_direct" "ry_cycle_records sample_replayed = sample_receipts"
  "ry_delivery_records sample_replayed = []" "ry_collision_receipts sample_replayed = []"
  by (simp_all add: sample_replayed_def)

lemma sample_head_sel [simp]:
  "lh_run_id sample_head = sample_uuid 1" "lh_entry_count sample_head = 5" "lh_chain_tag sample_head = zero_tag"
  "lh_projection_tag sample_head = zero_tag" "lh_head_tag sample_head = zero_tag"
  by (simp_all add: sample_head_def)

lemma sample_keys:
  "\<forall>r\<in>set sample_records. 1 \<le> code_points (record_key r) \<and> code_points (record_key r) \<le> 200"
proof
  fix r
  assume r: "r \<in> set sample_records"
  have cycles: "cy_cycle_id c = zero_hash [] \<and> 0 \<le> cy_revision c \<and> cy_revision c < 10"
    if "c \<in> {sample_pending, sample_reserved, sample_running}" for c
    using that by (auto simp: sample_pending_def sample_reserved_def sample_running_def)
  have "length (record_key r) \<le> 200"
    using r cycles by (auto simp: sample_records_def length_dec_str_digit) (simp_all add: zero_hash_def)
  moreover have "1 \<le> code_points (record_key r)"
    using r by (auto simp: sample_records_def code_points_def)
  ultimately show "1 \<le> code_points (record_key r) \<and> code_points (record_key r) \<le> 200"
    using code_points_length [of "record_key r"] by linarith
qed

lemma stored_entry_valid:
  assumes "1 \<le> code_points (record_key r) \<and> code_points (record_key r) \<le> 200" and "1 \<le> n"
    and "rec_run_id r = sample_uuid 1"
  shows "valid_ledger_entry (stored_entry n r)"
  using assms by (simp add: valid_ledger_entry_def opt_all_def)

lemma sample_entries_valid:
  "list_all (\<lambda>e. valid_ledger_entry e \<and> valid_ledger_record zero_hash (le_record e)) sample_entries"
proof -
  have run: "ev_run_id sample_event = sample_uuid 1" by (simp add: sample_event_def)
  have owner: "rec_run_id r = sample_uuid 1 \<and> valid_ledger_record zero_hash r" if "r \<in> set sample_records" for r
    using that run sample_decision_valid sample_cycle_valid
    by (auto simp: sample_records_def valid_ledger_record_def)
  have entry: "valid_ledger_entry (stored_entry n r)" if "r \<in> set sample_records" "1 \<le> n" for n r
    using that owner sample_keys by (blast intro: stored_entry_valid)
  have records: "list_all (\<lambda>r. valid_ledger_record zero_hash r) (map le_record sample_entries)"
    using owner by (simp add: sample_entries_def sample_records_def)
  have "list_all valid_ledger_entry sample_entries"
    using entry by (simp add: sample_entries_def sample_records_def)
  with records show ?thesis by (simp add: list_all_iff)
qed

lemma sample_replay_run: "replay_run sample_env sample_entries sample_head = Inr sample_replayed"
proof -
  have run: "fold_result (replay_owned sample_env (sample_uuid 1)) sample_entries (start_replay (sample_uuid 1)) =
      Inr (sample_state sample_p5 6 sample_direct sample_seeds)"
    using sample_replay by (simp add: replay_owned_all) (simp add: sample_entries_def)
  have finish: "finish_replay sample_env sample_entries sample_head (sample_state sample_p5 6 sample_direct sample_seeds) =
      Inr sample_replayed"
    unfolding finish_replay_def Let_def sample_state_sel sample_complete sample_attached sample_collisions
      sample_digests_of bind_result_simps sample_head_sel
    by (simp add: sample_replayed_def)
  have last: "le_chain_tag (last sample_entries) = zero_tag" "le_run_id (last sample_entries) = sample_uuid 1"
    "length sample_entries = 5" "sample_entries \<noteq> []"
    by (simp_all add: sample_entries_def)
  show ?thesis
    using run finish sample_entries_valid sample_head_valid last by (simp add: replay_run_def Let_def)
qed

definition sample_slot :: run_slot where
  "sample_slot = installed_slot sample_replayed"

lemma sample_slot_sel [simp]:
  "sl_run_id sample_slot = sample_uuid 1" "sl_ledger sample_slot = sample_entries" "sl_head sample_slot = Some sample_head"
  "sl_projection sample_slot = sample_p5" "sl_direct_records sample_slot = sample_direct"
  "sl_cycle_records sample_slot = sample_receipts" "sl_delivery_records sample_slot = []"
  by (simp_all only: sample_slot_def installed_slot_def run_slot.simps sample_replayed_sel sample_head_sel)

definition sample_vault :: vault where
  "sample_vault = publish (sample_uuid 1) sample_head sample_p5 (store_slot sample_slot empty_vault)"

lemma sample_restore: "restore_run sample_env empty_vault sample_entries sample_head = (Inr sample_replayed, sample_vault)"
proof -
  have fresh: "\<not> has_key (va_slots empty_vault) (sample_uuid 1)" "\<not> has_key (va_trusted_heads empty_vault) (sample_uuid 1)"
    by (simp_all add: empty_vault_def has_key_def)
  show ?thesis
    unfolding restore_run_def sample_replay_run sum.case Let_def sample_replayed_sel sample_head_sel sample_vault_def
      sample_slot_def using fresh by (simp only: HOL.simp_thms if_False)
qed

lemma sample_vault_run: "run_operations sample_env [Op_restore sample_entries sample_head] empty_vault = sample_vault"
  by (simp add: run_operations_def sample_restore)

lemma sample_slot_stored: "dict_get (va_slots sample_vault) (sample_uuid 1) = Some sample_slot"
  by (simp add: sample_vault_def publish_def store_slot_def)

lemma sample_vault_ok: "vault_ok sample_env sample_vault"
  using run_operations_ok [of sample_env "[Op_restore sample_entries sample_head]"] by (simp only: sample_vault_run)

lemmas sample_found = find_stored [OF sample_vault_ok sample_slot_stored]

lemma sample_reads: "read_ledger sample_env sample_vault (sample_uuid 1) = Inr sample_entries"
  using sample_found by (simp add: read_ledger_def validate_run_id_def)

lemma sample_verified: "verified_state sample_env sample_vault (sample_uuid 1) = Inr sample_replayed"
  using sample_found sample_replay_run sample_digests_of by (simp add: verified_state_def validate_run_id_def)

section \<open>A search with a hit\<close>

definition sample_memory_slot :: run_slot where
  "sample_memory_slot = sample_slot\<lparr>sl_projection := sample_preview\<rparr>"

definition sample_memory_vault :: vault where
  "sample_memory_vault = publish (sample_uuid 1) sample_head sample_preview (store_slot sample_memory_slot empty_vault)"

definition sample_query :: memory_query where
  "sample_query = \<lparr>mq_run_id = sample_uuid 1, mq_text = Some ''a b'', mq_kinds = [], mq_validity = [Validity_ACTIVE],
     mq_trust_labels = [], mq_limit = 5\<rparr>"

definition sample_hit :: memory_hit where
  "sample_hit = \<lparr>mh_memory = sample_memory, mh_score = 1 / 2, mh_matched_terms = [''a'']\<rparr>"

lemma sample_search: "search_memories sample_env id (\<lambda>s. [''a'', ''b'']) sample_memory_vault sample_query = Inr [sample_hit]"
proof -
  have sel: "sl_run_id sample_memory_slot = sample_uuid 1" "sl_ledger sample_memory_slot = sample_entries"
    "sl_head sample_memory_slot = Some sample_head" "sl_projection sample_memory_slot = sample_preview"
    by (simp_all add: sample_memory_slot_def)
  have chain: "sample_entries \<noteq> []" "int (length sample_entries) = 5" "last_chain_tag sample_entries = Some zero_tag"
    by (simp_all add: sample_entries_def last_chain_tag_def)
  have "find_slot sample_memory_vault (sample_uuid 1) = Inr sample_memory_slot"
    by (simp add: find_slot_def sample_memory_vault_def sel unwritten_def chain)
  moreover have "verify_head sample_env sample_memory_vault sample_memory_slot True = Inr ()"
    using sample_head_valid(2) chain by (simp add: verify_head_def sel sample_memory_vault_def checks_pass)
  moreover have "search_projection id (\<lambda>s. [''a'', ''b'']) sample_preview sample_query = [sample_hit]"
    by (simp add: search_projection_def search_hit_def query_terms_def sample_query_def unique_def dict_values_def
        map_filter_simps sample_memory_def sample_hit_def)
  moreover have "valid_memory_query sample_query"
    by (simp add: valid_memory_query_def sample_query_def opt_all_def code_points_def)
  moreover have "mq_run_id sample_query = sample_uuid 1" by (simp add: sample_query_def)
  ultimately show ?thesis by (simp add: search_memories_def sel)
qed

end
