(* ===== verification/Repository_Properties.thy ===== *)
theory Repository_Properties
  imports Sample_Repository
begin

text \<open>
  The properties of the run repository. Each is stated of an arbitrary sequence of operations, the
  failing ones included, applied to an empty repository.
\<close>

section \<open>The repository is an event log\<close>

text \<open>
  C2. The repository refines an append-only event log: after any sequence of operations every stored
  run answers a full read with its ledger, its projection is the fold of the projector over that
  ledger from the empty projection, and it is a projection the ledger theory calls reachable, so every
  ledger invariant holds of it.
\<close>

theorem repository_refines_event_log:
  assumes "dict_get (va_slots (run_operations env ops empty_vault)) run = Some s"
  shows "read_ledger env (run_operations env ops empty_vault) run = Inr (sl_ledger s) \<and>
    project_entries (en_hash env) (en_float env) run (sl_ledger s) = Inr (sl_projection s) \<and>
    reachable (en_hash env) (en_float env) run (sl_projection s)"
proof -
  note ok = run_operations_ok [of env ops]
  note slot = vault_ok_slot [OF ok assms]
  show ?thesis
    using find_stored [OF ok assms] slot_ok_project [OF slot(2)] slot(1)
    by (simp add: read_ledger_def validate_run_id_def)
qed

theorem repository_refines_event_log_witness:
  "read_ledger sample_env (run_operations sample_env [Op_restore sample_entries sample_head] empty_vault) (sample_uuid 1) =
      Inr (sl_ledger sample_slot) \<and>
    project_entries (en_hash sample_env) (en_float sample_env) (sample_uuid 1) (sl_ledger sample_slot) =
      Inr (sl_projection sample_slot) \<and>
    reachable (en_hash sample_env) (en_float sample_env) (sample_uuid 1) (sl_projection sample_slot)"
  by (rule repository_refines_event_log) (simp only: sample_vault_run sample_slot_stored)

text \<open>
  C21. Ledgers are append-only: what a full read of a run returns at one time is a prefix of what the
  same read returns after any further operations, which can neither lose the run nor make it unreadable.
\<close>

theorem ledgers_are_append_only:
  assumes "read_ledger env (run_operations env ops empty_vault) run = Inr es"
  shows "\<exists>fs. read_ledger env (run_operations env (ops @ later) empty_vault) run = Inr (es @ fs)"
  by (rule run_reads_extend [OF assms])

theorem ledgers_are_append_only_witness:
  "\<exists>fs. read_ledger sample_env (run_operations sample_env ([Op_restore sample_entries sample_head] @
      [Op_recover_cycles (sample_uuid 1) 10]) empty_vault) (sample_uuid 1) = Inr (sample_entries @ fs)"
  by (rule ledgers_are_append_only) (simp only: sample_vault_run sample_reads)

section \<open>Restoring and rebuilding\<close>

text \<open>
  C22. A run exported by \<open>verified_run_state\<close> can be restored elsewhere: restoring its ledger under its
  head into an empty repository succeeds, and the restored run reads back with the same ledger, head
  and projection.
\<close>

theorem exported_runs_restore:
  assumes "verified_state env (run_operations env ops empty_vault) run = Inr r"
  shows "\<exists>w s. restore_run env empty_vault (ry_ledger r) (ry_head r) = (Inr r, w) \<and>
    read_ledger env w run = Inr (ry_ledger r) \<and> read_ledger_head env w run = Inr (ry_head r) \<and>
    dict_get (va_slots (run_operations env ops empty_vault)) run = Some s \<and>
    ry_ledger r = sl_ledger s \<and> ry_projection r = sl_projection s"
proof -
  let ?v = "run_operations env ops empty_vault"
  from assms obtain s head where find: "find_slot ?v run = Inr s" and head: "sl_head s = Some head"
    and replay: "replay_run env (sl_ledger s) head = Inr r"
    by (auto simp: verified_state_def bind_result_Inr split: option.splits if_splits)
  note got = conjunct1 [OF find_slot_Inr [OF find]]
  note slot = vault_ok_slot [OF run_operations_ok got]
  note new = replay_run_slot_ok [OF replay]
  have id: "lh_run_id head = run"
    using slot(1,2) head by (simp add: slot_ok_def head_ok_def)
  have same: "ry_projection r = sl_projection s"
    using slot_ok_project(1) [OF new(1)] slot_ok_project(1) [OF slot(2)] new(2,3) id slot(1)
    by (simp add: installed_slot_def)
  define w where "w = publish run head (ry_projection r) (store_slot (installed_slot r) empty_vault)"
  have restored: "restore_run env empty_vault (sl_ledger s) head = (Inr r, w)"
    using replay new(2) id by (simp add: restore_run_def w_def Let_def empty_vault_def has_key_def)
  have okw: "vault_ok env w" using restore_keeps [OF vault_ok_empty, of env "sl_ledger s" head] restored by (simp add: keeps_def)
  have stored: "dict_get (va_slots w) run = Some (installed_slot r)"
    using new(2) id by (simp add: w_def installed_slot_def)
  have "read_ledger env w run = Inr (sl_ledger s)" "read_ledger_head env w run = Inr head"
    using find_stored [OF okw stored] new(2,3)
    by (simp_all add: read_ledger_def read_ledger_head_def validate_run_id_def installed_slot_def)
  with restored got same new(2,3) show ?thesis by auto
qed

theorem exported_runs_restore_witness:
  "\<exists>w s. restore_run sample_env empty_vault (ry_ledger sample_replayed) (ry_head sample_replayed) = (Inr sample_replayed, w) \<and>
    read_ledger sample_env w (sample_uuid 1) = Inr (ry_ledger sample_replayed) \<and>
    read_ledger_head sample_env w (sample_uuid 1) = Inr (ry_head sample_replayed) \<and>
    dict_get (va_slots (run_operations sample_env [Op_restore sample_entries sample_head] empty_vault)) (sample_uuid 1) =
      Some s \<and> ry_ledger sample_replayed = sl_ledger s \<and> ry_projection sample_replayed = sl_projection s"
  by (rule exported_runs_restore) (simp only: sample_vault_run sample_verified)

text \<open>
  C29. Rebuilding a run replays its ledger: a rebuild that returns found the live projection
  equivalent to the replayed one, and leaves the run with the same ledger, head and projection.
\<close>

theorem rebuild_reproduces_projection:
  "case rebuild env (run_operations env ops empty_vault) run of
     (Inl e, w) \<Rightarrow> w = run_operations env ops empty_vault
   | (Inr r, w) \<Rightarrow> (\<exists>s t. dict_get (va_slots (run_operations env ops empty_vault)) run = Some s \<and>
        dict_get (va_slots w) run = Some t \<and> rb_equivalent r \<and> rb_entries_replayed r = int (length (sl_ledger s)) \<and>
        sl_ledger t = sl_ledger s \<and> sl_head t = sl_head s \<and> sl_projection t = sl_projection s)"
proof -
  let ?v = "run_operations env ops empty_vault"
  obtain x w where x: "rebuild env ?v run = (x, w)" by (cases "rebuild env ?v run")
  show ?thesis
  proof (cases x)
    case (Inl e)
    with x repo_step_failed [OF run_operations_ok, of env "Op_rebuild run" ops e] show ?thesis
      by (simp add: outcome_def)
  next
    case (Inr r)
    then have ok: "rebuild env ?v run = (Inr r, w)" using x by simp
    obtain s where find: "find_slot ?v run = Inr s" and body: "\<exists>v' s'. rebuild_body env ?v s = Inr (r, v', s') \<and> w = store_slot s' v'"
      using ok by (auto simp: rebuild_def split: sum.splits elim: on_slot_Inr)
    note got = conjunct1 [OF find_slot_Inr [OF find]]
    note slot = vault_ok_slot [OF run_operations_ok got]
    from body obtain s' v' where b: "digests_before env s = Inr (rb_before r)" "rebuild_slot env ?v s = Inr (rb_after r, s')"
      "rb_entries_replayed r = int (length (sl_ledger s))" "rb_equivalent r = (rb_before r = Some (rb_after r))"
      "w = store_slot s' v'"
      by (auto simp: rebuild_body_Inr)
    note same = rebuild_slot_ok [OF slot(2) b(2)]
    have "rb_equivalent r" using b(1,4) same(9) by (simp add: digests_before_def split: sum.splits)
    moreover have "dict_get (va_slots w) run = Some s'" using b(5) same(5) slot(1) by simp
    ultimately show ?thesis using ok got same b(3) by auto
  qed
qed

section \<open>Retries\<close>

text \<open>
  Appending an event again is safe: after an append that returned, repeating it (with any fresh
  identifier) returns the same receipt, marked a duplicate when the first one was an append, and leaves
  the repository as the first append left it.
\<close>

theorem appending_again_changes_nothing:
  "case append_event env (run_operations env ops empty_vault) event given made of
     (Inl e, w) \<Rightarrow> w = run_operations env ops empty_vault
   | (Inr r, w) \<Rightarrow> \<exists>r'\<in>{r, r\<lparr>ar_disposition := Disposition_DUPLICATE\<rparr>}. append_event env w event given made' = (Inr r', w)"
proof -
  let ?v = "run_operations env ops empty_vault"
  obtain x w where x: "append_event env ?v event given made = (x, w)" by (cases "append_event env ?v event given made")
  show ?thesis
  proof (cases x)
    case (Inl e)
    with x repo_step_failed [OF run_operations_ok, of env "Op_append event given made" ops e] show ?thesis
      by (simp add: outcome_def)
  next
    case (Inr r)
    with x append_event_again [OF run_operations_ok, of env ops event given made r w made'] show ?thesis by auto
  qed
qed

text \<open>
  C7. Cycle commands are idempotent: after a begin, reserve, mark-running, commit or fail command
  that returned, repeating the same command returns the same receipt, marked as not appended, and
  leaves the repository as the first command left it. So a cycle is begun, reserved, committed and
  charged once, however often its caller retries.
\<close>

theorem cycle_commands_are_idempotent:
  fixes env ops
  defines "v \<equiv> run_operations env ops empty_vault"
  shows "(case begin_cycle env v bc of (Inl e, w) \<Rightarrow> w = v
      | (Inr r, w) \<Rightarrow> begin_cycle env w bc = (Inr (r\<lparr>cr_appended := False\<rparr>), w)) \<and>
    (case reserve_cycle env v rc of (Inl e, w) \<Rightarrow> w = v
      | (Inr r, w) \<Rightarrow> reserve_cycle env w rc = (Inr (r\<lparr>cr_appended := False\<rparr>), w)) \<and>
    (case mark_cycle_running env v sc of (Inl e, w) \<Rightarrow> w = v
      | (Inr r, w) \<Rightarrow> mark_cycle_running env w sc = (Inr (r\<lparr>cr_appended := False\<rparr>), w)) \<and>
    (case commit_cycle env v cc of (Inl e, w) \<Rightarrow> w = v
      | (Inr r, w) \<Rightarrow> commit_cycle env w cc = (Inr (r\<lparr>cr_appended := False\<rparr>), w)) \<and>
    (case fail_cycle env v fc of (Inl e, w) \<Rightarrow> w = v
      | (Inr r, w) \<Rightarrow> fail_cycle env w fc = (Inr (r\<lparr>cr_appended := False\<rparr>), w))"
  unfolding begin_cycle_def reserve_cycle_def mark_cycle_running_def commit_cycle_def fail_cycle_def v_def
  by (intro conjI; rule command_on_slot_retry [OF run_operations_ok])
    (erule cycle_steps_advanced commit_cycle_body_advanced begin_again reserve_again mark_running_again commit_again
      fail_again; assumption?)+

text \<open>
  C8. Delivery commands are idempotent in the same way, and the text of a reminder is handed out
  once: repeating a begin-attempt command that returned gives the receipt again without the envelope
  that carries the rendered text, so a retried host cannot show the reminder twice.
\<close>

theorem delivery_commands_are_idempotent:
  fixes env ops
  defines "v \<equiv> run_operations env ops empty_vault"
  shows "(case claim_delivery env v cl of (Inl e, w) \<Rightarrow> w = v
      | (Inr r, w) \<Rightarrow> claim_delivery env w cl = (Inr (r\<lparr>tr_appended := False\<rparr>), w)) \<and>
    (case begin_delivery_attempt env v ba of (Inl e, w) \<Rightarrow> w = v
      | (Inr r, w) \<Rightarrow> begin_delivery_attempt env w ba = (Inr (r\<lparr>tr_appended := False, tr_envelope := None\<rparr>), w)) \<and>
    (case complete_delivery env v cd of (Inl e, w) \<Rightarrow> w = v
      | (Inr r, w) \<Rightarrow> complete_delivery env w cd = (Inr (r\<lparr>tr_appended := False\<rparr>), w)) \<and>
    (case mark_delivery_unknown env v mk of (Inl e, w) \<Rightarrow> w = v
      | (Inr r, w) \<Rightarrow> mark_delivery_unknown env w mk = (Inr (r\<lparr>tr_appended := False\<rparr>), w)) \<and>
    (case reject_delivery env v rj of (Inl e, w) \<Rightarrow> w = v
      | (Inr r, w) \<Rightarrow> reject_delivery env w rj = (Inr (r\<lparr>tr_appended := False\<rparr>), w))"
  unfolding claim_delivery_def begin_delivery_attempt_def complete_delivery_def mark_delivery_unknown_def
    reject_delivery_def v_def
  by (intro conjI; rule command_on_slot_retry [OF run_operations_ok])
    (erule delivery_steps_advanced begin_attempt_body_advanced delivery_steps_again begin_attempt_again; assumption?)+

section \<open>Recovery\<close>

text \<open>
  C20. Recovery after a crash: a cycle recovery that returns has failed exactly the cycles that were
  running, each charged its whole reservation, and leaves none running; recovering again, at any time,
  returns at once, fails nothing and changes nothing. A delivery recovery that returns leaves no
  delivery marked as being attempted.
\<close>

theorem recovery_settles_interrupted_work:
  fixes env ops
  defines "v \<equiv> run_operations env ops empty_vault"
  shows "(case recover_cycles env v run t of (Inl e, w) \<Rightarrow> w = v
      | (Inr r, w) \<Rightarrow> \<exists>s s'. dict_get (va_slots v) run = Some s \<and> dict_get (va_slots w) run = Some s' \<and>
          map cr_cycle (rv_failed_unknown_cost r) =
            map (abandoned t) (filter (\<lambda>c. cy_state c = Cycle_RUNNING) (sorted_cycles (sl_projection s))) \<and>
          none_running (sl_projection s') \<and>
          (\<exists>r'. recover_cycles env w run t' = (Inr r', w) \<and> rv_failed_unknown_cost r' = [])) \<and>
    (case recover_deliveries env v run t of (Inl e, w) \<Rightarrow> w = v
      | (Inr r, w) \<Rightarrow> \<exists>s'. dict_get (va_slots w) run = Some s' \<and> none_attempting (sl_projection s'))"
proof
  note okv = run_operations_ok [of env ops, folded v_def]
  show "case recover_cycles env v run t of (Inl e, w) \<Rightarrow> w = v
      | (Inr r, w) \<Rightarrow> \<exists>s s'. dict_get (va_slots v) run = Some s \<and> dict_get (va_slots w) run = Some s' \<and>
          map cr_cycle (rv_failed_unknown_cost r) =
            map (abandoned t) (filter (\<lambda>c. cy_state c = Cycle_RUNNING) (sorted_cycles (sl_projection s))) \<and>
          none_running (sl_projection s') \<and>
          (\<exists>r'. recover_cycles env w run t' = (Inr r', w) \<and> rv_failed_unknown_cost r' = [])"
  proof (rule recover_cycles_cases [OF okv, of run t])
    fix s s' r w
    assume "recover_cycles env v run t = (Inr r, w)" "dict_get (va_slots v) run = Some s"
      and w: "dict_get (va_slots w) run = Some s'" "none_running (sl_projection s')" "vault_ok env w"
      and "map cr_cycle (rv_failed_unknown_cost r) =
        map (abandoned t) (filter (\<lambda>c. cy_state c = Cycle_RUNNING) (sorted_cycles (sl_projection s)))"
    with recover_cycles_idle [OF w(3,1,2), of t'] show ?thesis by simp
  qed simp
  show "case recover_deliveries env v run t of (Inl e, w) \<Rightarrow> w = v
      | (Inr r, w) \<Rightarrow> \<exists>s'. dict_get (va_slots w) run = Some s' \<and> none_attempting (sl_projection s')"
    by (rule recover_deliveries_cases [OF okv, of run t]) auto
qed

section \<open>Searching and tampering\<close>

text \<open>
  C39. A memory search returns the best matches: at most the requested number, each the current
  revision of a memory of the run that passes the kind, validity and trust filters, in order of score,
  every score between zero and one; and a matching memory is left out only when the limit is
  reached with hits that score at least as high.
\<close>

theorem search_returns_best_matches:
  assumes "search_memories env casefold words v q = Inr hits"
  shows "\<exists>s. dict_get (va_slots v) (mq_run_id q) = Some s \<and>
    length hits \<le> nat (mq_limit q) \<and> sorted_wrt (\<lambda>a b. mh_score b \<le> mh_score a) hits \<and>
    (\<forall>h\<in>set hits. 0 < mh_score h \<and> mh_score h \<le> 1 \<and> mh_memory h \<in> set (dict_values (pr_memories (sl_projection s))) \<and>
       search_hit casefold (query_terms casefold words q) q (mh_memory h) = Some h) \<and>
    (\<forall>m\<in>set (dict_values (pr_memories (sl_projection s))). \<forall>h.
       search_hit casefold (query_terms casefold words q) q m = Some h \<longrightarrow>
         h \<in> set hits \<or> length hits = nat (mq_limit q) \<and> (\<forall>k\<in>set hits. mh_score h \<le> mh_score k))"
proof -
  from assms obtain s where s: "dict_get (va_slots v) (mq_run_id q) = Some s"
    and hits: "hits = search_projection casefold words (sl_projection s) q"
    by (auto simp: search_memories_def bind_result_Inr dest: find_slot_Inr split: if_splits)
  show ?thesis
    unfolding hits using s search_projection_best [of casefold words "sl_projection s" q] by blast
qed

theorem search_returns_best_matches_witness:
  "\<exists>s. dict_get (va_slots sample_memory_vault) (mq_run_id sample_query) = Some s \<and>
    length [sample_hit] \<le> nat (mq_limit sample_query) \<and> sorted_wrt (\<lambda>a b. mh_score b \<le> mh_score a) [sample_hit] \<and>
    (\<forall>h\<in>set [sample_hit]. 0 < mh_score h \<and> mh_score h \<le> 1 \<and>
       mh_memory h \<in> set (dict_values (pr_memories (sl_projection s))) \<and>
       search_hit id (query_terms id (\<lambda>s. [''a'', ''b'']) sample_query) sample_query (mh_memory h) = Some h) \<and>
    (\<forall>m\<in>set (dict_values (pr_memories (sl_projection s))). \<forall>h.
       search_hit id (query_terms id (\<lambda>s. [''a'', ''b'']) sample_query) sample_query m = Some h \<longrightarrow>
         h \<in> set [sample_hit] \<or>
         length [sample_hit] = nat (mq_limit sample_query) \<and> (\<forall>k\<in>set [sample_hit]. mh_score h \<le> mh_score k))"
  by (rule search_returns_best_matches [OF sample_search])

text \<open>
  C19. Tampering is detected: under one ledger head at most one ledger replays. If two ledgers are
  both accepted under the same head, they have the same entries (position, key, tags and the canonical
  record each tag covers), unless two different byte strings that the two ledgers tag have the same
  keyed hash, which is what an HMAC key rules out.
\<close>

theorem head_determines_ledger:
  assumes "integrity_ok (en_integrity env)" and "float_repr (en_float env)"
    and "replay_run env es head = Inr r" and "replay_run env fs head = Inr r'"
  shows "list_all2 (same_entry env) es fs \<or> ledgers_collide env es fs"
  using replay_run_verifies [OF assms(3)] replay_run_verifies [OF assms(4)]
    same_head_same_ledger [OF assms(1,2), of es fs "lh_run_id head"] by fastforce

theorem head_determines_ledger_witness:
  "list_all2 (same_entry sample_env) sample_entries sample_entries \<or> ledgers_collide sample_env sample_entries sample_entries"
  by (rule head_determines_ledger [OF _ _ sample_replay_run sample_replay_run])
    (simp_all add: sample_env_def integrity_ok_def ratio_text_repr)

end
