(* ===== verification/Trajectory.thy ===== *)
theory Trajectory
  imports Repository_Facts
begin

text \<open>
  Attested trajectories (\<open>ports/trajectory.py\<close>): a binding names one persisted event of a run by its
  integrity anchors and says where in its payload the task, the logical messages and the step number
  are; a prefix is resolved, and verified again before any use, against the ledger of the repository.

  SHA-256 and the float spelling are those of the repository environment. A model instance that pydantic
  builds or revalidates is one that satisfies the \<open>valid_\<close> predicate of its type, and two models with
  the same canonical JSON are equal.
\<close>

datatype (plugins only: code size) trajectory_code =
    Traj_INVALID_INPUT
  | Traj_DUPLICATE_BINDING
  | Traj_RETROGRADE_BINDING
  | Traj_MISSING_REFERENCE
  | Traj_FUTURE_REFERENCE
  | Traj_CROSS_RUN_REFERENCE
  | Traj_UNATTESTED_REFERENCE
  | Traj_INVALID_POINTER
  | Traj_INVALID_SPAN
  | Traj_LIMIT_EXCEEDED
  | Traj_REPOSITORY_UNAVAILABLE

text \<open>\<open>Trajectory_validation\<close> is a Python error that no handler of the module catches.\<close>

datatype (plugins only: code size) trajectory_error =
    Trajectory_error trajectory_code
  | Trajectory_validation

datatype (plugins only: code size) message_role = Role_USER | Role_ASSISTANT | Role_TOOL | Role_CONTROLLER

fun role_value :: "message_role \<Rightarrow> string" where
  "role_value Role_USER = ''user''"
| "role_value Role_ASSISTANT = ''assistant''"
| "role_value Role_TOOL = ''tool''"
| "role_value Role_CONTROLLER = ''controller''"

definition max_pointer_segments :: nat where "max_pointer_segments = 32"
definition max_pointer_bytes :: nat where "max_pointer_bytes = 1024"
definition max_logical_messages :: nat where "max_logical_messages = 64"
definition max_trajectory_events :: int where "max_trajectory_events = 10000"

definition payload_pointer_bounded :: "string \<Rightarrow> bool" where
  "payload_pointer_bounded p \<longleftrightarrow> take 9 p = ''/payload/'' \<and>
     (let segments = tl (split_on (CHR ''/'') p) in
        segments \<noteq> [] \<and> length segments \<le> max_pointer_segments) \<and> length p \<le> max_pointer_bytes"

definition positive_offset :: "int \<Rightarrow> bool" where
  "positive_offset n \<longleftrightarrow> 1 \<le> n \<and> n \<le> max_signed_64"

section \<open>Bindings\<close>

record event_text_selector =
  sel_field_path :: string
  sel_span :: "text_span option"

definition valid_selector :: "event_text_selector \<Rightarrow> bool" where
  "valid_selector s \<longleftrightarrow> json_pointer (sel_field_path s) \<and> payload_pointer_bounded (sel_field_path s) \<and>
     opt_all valid_text_span (sel_span s)"

record logical_message =
  lm_role :: message_role
  lm_selector :: event_text_selector

record trajectory_binding =
  tb_run_id :: uuid
  tb_event_id :: uuid
  tb_event_sequence :: int
  tb_ledger_position :: int
  tb_payload_digest :: payload_digest
  tb_record_tag :: payload_digest
  tb_chain_tag :: payload_digest
  tb_task_description :: "event_text_selector option"
  tb_logical_messages :: "logical_message list"
  tb_action_step :: "string option"
  tb_binding_digest :: digest

definition selector_json :: "event_text_selector \<Rightarrow> json" where
  "selector_json s = JObj [(''field_path'', JStr (sel_field_path s)), (''span'', opt_json span_json (sel_span s))]"

definition logical_message_json :: "logical_message \<Rightarrow> json" where
  "logical_message_json m = JObj [(''role'', JStr (role_value (lm_role m))), (''selector'', selector_json (lm_selector m))]"

definition trajectory_digest :: "repo_env \<Rightarrow> string \<Rightarrow> json \<Rightarrow> digest" where
  "trajectory_digest env domain v = length_prefixed_sha256 (en_hash env) domain [json_text (en_float env) v]"

definition binding_value :: "trajectory_binding \<Rightarrow> json" where
  "binding_value b = JObj
     [(''schema_version'', JStr ''trajectory-binding/v1''),
      (''run_id'', JStr (uuid_str (tb_run_id b))), (''event_id'', JStr (uuid_str (tb_event_id b))),
      (''event_sequence'', JInt (tb_event_sequence b)), (''ledger_position'', JInt (tb_ledger_position b)),
      (''payload_digest'', digest_json (tb_payload_digest b)), (''record_tag'', digest_json (tb_record_tag b)),
      (''chain_tag'', digest_json (tb_chain_tag b)),
      (''task_description'', opt_json selector_json (tb_task_description b)),
      (''logical_messages'', JArr (map logical_message_json (tb_logical_messages b))),
      (''action_step'', opt_json (\<lambda>p. JObj [(''field_path'', JStr p)]) (tb_action_step b))]"

definition binding_digest :: "repo_env \<Rightarrow> trajectory_binding \<Rightarrow> digest" where
  "binding_digest env b = trajectory_digest env ''saliencegate:trajectory:binding:v1'' (binding_value b)"

definition selector_identity :: "event_text_selector \<Rightarrow> string \<times> (int \<times> int) option" where
  "selector_identity s = (sel_field_path s, map_option (\<lambda>sp. (span_start_byte sp, span_end_byte sp)) (sel_span s))"

definition reserved_paths :: "trajectory_binding \<Rightarrow> string list" where
  "reserved_paths b =
     (case tb_task_description b of None \<Rightarrow> [] | Some s \<Rightarrow> [sel_field_path s]) @
     (case tb_action_step b of None \<Rightarrow> [] | Some p \<Rightarrow> [p]) @
     map (\<lambda>m. sel_field_path (lm_selector m)) (tb_logical_messages b)"

definition valid_binding :: "repo_env \<Rightarrow> trajectory_binding \<Rightarrow> bool" where
  "valid_binding env b \<longleftrightarrow> uuid4 (tb_run_id b) \<and> uuid4 (tb_event_id b) \<and>
     positive_offset (tb_event_sequence b) \<and> positive_offset (tb_ledger_position b) \<and>
     valid_payload_digest (tb_payload_digest b) \<and> valid_payload_digest (tb_record_tag b) \<and>
     valid_payload_digest (tb_chain_tag b) \<and> opt_all valid_selector (tb_task_description b) \<and>
     length (tb_logical_messages b) \<le> max_logical_messages \<and>
     list_all (\<lambda>m. valid_selector (lm_selector m)) (tb_logical_messages b) \<and>
     opt_all (\<lambda>p. json_pointer p \<and> payload_pointer_bounded p) (tb_action_step b) \<and>
     sha256_digest (tb_binding_digest b) \<and>
     tb_event_sequence b \<le> tb_ledger_position b \<and>
     pd_algorithm (tb_payload_digest b) = pd_algorithm (tb_record_tag b) \<and>
     pd_algorithm (tb_record_tag b) = pd_algorithm (tb_chain_tag b) \<and>
     distinct (map (\<lambda>m. selector_identity (lm_selector m)) (tb_logical_messages b)) \<and>
     distinct (reserved_paths b) \<and>
     tb_binding_digest b = binding_digest env b"

definition new_binding :: "repo_env \<Rightarrow> ledger_entry \<Rightarrow> trace_event \<Rightarrow> event_text_selector option \<Rightarrow>
    logical_message list \<Rightarrow> string option \<Rightarrow> trajectory_binding" where
  "new_binding env entry e task messages action_step =
     (let b = \<lparr>tb_run_id = ev_run_id e, tb_event_id = ev_event_id e, tb_event_sequence = ev_sequence e,
            tb_ledger_position = le_position entry, tb_payload_digest = ev_payload_digest e,
            tb_record_tag = le_record_tag entry, tb_chain_tag = le_chain_tag entry,
            tb_task_description = task, tb_logical_messages = messages, tb_action_step = action_step,
            tb_binding_digest = []\<rparr>
      in b\<lparr>tb_binding_digest := binding_digest env b\<rparr>)"

definition exact_entry :: "repo_env \<Rightarrow> ledger_entry \<Rightarrow> bool" where
  "exact_entry env entry \<longleftrightarrow> valid_ledger_entry entry \<and> valid_ledger_record (en_hash env) (le_record entry)"

definition bind_persisted_trajectory_event :: "repo_env \<Rightarrow> ledger_entry \<Rightarrow> event_text_selector option \<Rightarrow>
    logical_message list \<Rightarrow> string option \<Rightarrow> trajectory_error + trajectory_binding" where
  "bind_persisted_trajectory_event env entry task messages action_step =
     (case le_record entry of
        Rec_event e \<Rightarrow>
          (let b = new_binding env entry e task messages action_step in
           if exact_entry env entry \<and> valid_binding env b then Inr b
           else Inl (Trajectory_error Traj_INVALID_INPUT))
      | _ \<Rightarrow> Inl (Trajectory_error Traj_INVALID_INPUT))"

section \<open>Prefixes\<close>

record prefix_request =
  pq_run_id :: uuid
  pq_boundary :: int
  pq_bindings :: "trajectory_binding list"
  pq_request_digest :: digest

definition request_digest :: "repo_env \<Rightarrow> uuid \<Rightarrow> int \<Rightarrow> trajectory_binding list \<Rightarrow> digest" where
  "request_digest env run boundary bindings = trajectory_digest env ''saliencegate:trajectory:prefix-request:v1''
     (JObj [(''schema_version'', JStr ''trajectory-prefix-request/v1''), (''run_id'', JStr (uuid_str run)),
            (''boundary_event_sequence'', JInt boundary),
            (''binding_digests'', JArr (map (\<lambda>b. JStr (tb_binding_digest b)) bindings))])"

definition strictly_increasing :: "int list \<Rightarrow> bool" where
  "strictly_increasing xs = list_all (\<lambda>(a, b). a < b) (zip xs (tl xs))"

definition task_sources :: "trajectory_binding list \<Rightarrow> int list" where
  "task_sources bindings = map tb_event_sequence (filter (\<lambda>b. tb_task_description b \<noteq> None) bindings)"

definition boundary_ok :: "int \<Rightarrow> bool" where
  "boundary_ok n \<longleftrightarrow> 1 \<le> n \<and> n \<le> max_trajectory_events"

definition valid_prefix_request :: "repo_env \<Rightarrow> prefix_request \<Rightarrow> bool" where
  "valid_prefix_request env q \<longleftrightarrow> uuid4 (pq_run_id q) \<and> boundary_ok (pq_boundary q) \<and>
     pq_bindings q \<noteq> [] \<and> int (length (pq_bindings q)) \<le> max_trajectory_events \<and>
     list_all (valid_binding env) (pq_bindings q) \<and> sha256_digest (pq_request_digest q) \<and>
     list_all (\<lambda>b. tb_run_id b = pq_run_id q) (pq_bindings q) \<and>
     int (length (pq_bindings q)) = pq_boundary q \<and>
     map tb_event_sequence (pq_bindings q) = [1..pq_boundary q] \<and>
     strictly_increasing (map tb_ledger_position (pq_bindings q)) \<and>
     distinct (map tb_event_id (pq_bindings q)) \<and>
     task_sources (pq_bindings q) = [1] \<and>
     pq_request_digest q = request_digest env (pq_run_id q) (pq_boundary q) (pq_bindings q)"

record attested_event =
  at_event :: trace_event
  at_binding :: trajectory_binding

definition valid_attested_event :: "repo_env \<Rightarrow> attested_event \<Rightarrow> bool" where
  "valid_attested_event env a \<longleftrightarrow> valid_trace_event (at_event a) \<and> valid_binding env (at_binding a) \<and>
     tb_run_id (at_binding a) = ev_run_id (at_event a) \<and> tb_event_id (at_binding a) = ev_event_id (at_event a) \<and>
     tb_event_sequence (at_binding a) = ev_sequence (at_event a) \<and>
     tb_payload_digest (at_binding a) = ev_payload_digest (at_event a)"

record attested_prefix =
  ap_run_id :: uuid
  ap_boundary :: int
  ap_request_digest :: digest
  ap_items :: "attested_event list"
  ap_prefix_digest :: digest

definition prefix_digest :: "repo_env \<Rightarrow> uuid \<Rightarrow> int \<Rightarrow> digest \<Rightarrow> attested_event list \<Rightarrow> digest" where
  "prefix_digest env run boundary request items = trajectory_digest env ''saliencegate:trajectory:attested-prefix:v1''
     (JObj [(''schema_version'', JStr ''attested-trajectory-prefix/v1''), (''run_id'', JStr (uuid_str run)),
            (''boundary_event_sequence'', JInt boundary), (''request_digest'', JStr request),
            (''event_attestations'', JArr (map (\<lambda>a. JObj
               [(''event_id'', JStr (uuid_str (ev_event_id (at_event a)))),
                (''event_sequence'', JInt (ev_sequence (at_event a))),
                (''binding_digest'', JStr (tb_binding_digest (at_binding a)))]) items))])"

definition valid_attested_prefix :: "repo_env \<Rightarrow> attested_prefix \<Rightarrow> bool" where
  "valid_attested_prefix env p \<longleftrightarrow> uuid4 (ap_run_id p) \<and> boundary_ok (ap_boundary p) \<and>
     sha256_digest (ap_request_digest p) \<and> ap_items p \<noteq> [] \<and> int (length (ap_items p)) \<le> max_trajectory_events \<and>
     list_all (valid_attested_event env) (ap_items p) \<and> sha256_digest (ap_prefix_digest p) \<and>
     int (length (ap_items p)) = ap_boundary p \<and>
     list_all (\<lambda>a. ev_run_id (at_event a) = ap_run_id p) (ap_items p) \<and>
     map (\<lambda>a. ev_sequence (at_event a)) (ap_items p) = [1..ap_boundary p] \<and>
     ev_event_type (at_event (hd (ap_items p))) = Event_RUN_START \<and>
     ap_prefix_digest p = prefix_digest env (ap_run_id p) (ap_boundary p) (ap_request_digest p) (ap_items p)"

section \<open>Resolving a prefix\<close>

definition first_failure :: "(bool \<times> trajectory_code) list \<Rightarrow> trajectory_code option" where
  "first_failure gs = map_option snd (find fst gs)"

definition preflight_request :: "prefix_request \<Rightarrow> trajectory_code option" where
  "preflight_request q =
     (let bindings = pq_bindings q; sequences = map tb_event_sequence bindings;
          positions = map tb_ledger_position bindings in
      first_failure
        [(\<not> uuid4 (pq_run_id q), Traj_INVALID_INPUT),
         (\<not> boundary_ok (pq_boundary q), Traj_LIMIT_EXCEEDED),
         (int (length bindings) > max_trajectory_events, Traj_LIMIT_EXCEEDED),
         (list_ex (\<lambda>b. tb_run_id b \<noteq> pq_run_id q) bindings, Traj_CROSS_RUN_REFERENCE),
         (\<not> distinct sequences \<or> \<not> distinct (map tb_event_id bindings), Traj_DUPLICATE_BINDING),
         (list_ex (\<lambda>n. n > pq_boundary q) sequences, Traj_FUTURE_REFERENCE),
         (list_ex (\<lambda>(a, b). b < a) (zip sequences (tl sequences)), Traj_RETROGRADE_BINDING),
         (sequences \<noteq> [1..pq_boundary q], Traj_MISSING_REFERENCE),
         (\<not> distinct positions, Traj_DUPLICATE_BINDING),
         (list_ex (\<lambda>(a, b). b < a) (zip positions (tl positions)), Traj_RETROGRADE_BINDING)])"

fun event_of :: "ledger_entry \<Rightarrow> trace_event option" where
  "event_of entry = (case le_record entry of Rec_event e \<Rightarrow> Some e | _ \<Rightarrow> None)"

definition event_entries :: "int \<Rightarrow> ledger_entry list \<Rightarrow> (ledger_entry \<times> trace_event) list" where
  "event_entries boundary entries = filter (\<lambda>(_, e). ev_sequence e \<le> boundary)
     (List.map_filter (\<lambda>entry. map_option (Pair entry) (event_of entry)) entries)"

definition resolve_item :: "repo_env \<Rightarrow> uuid \<Rightarrow> int \<times> (ledger_entry \<times> trace_event) \<times> trajectory_binding \<Rightarrow>
    trajectory_error + attested_event" where
  "resolve_item env run = (\<lambda>(expected, (entry, e), b).
     checks
       [(ev_sequence e \<noteq> expected, Trajectory_error Traj_MISSING_REFERENCE),
        (ev_run_id e \<noteq> run \<or> tb_run_id b \<noteq> run, Trajectory_error Traj_CROSS_RUN_REFERENCE),
        (tb_event_id b \<noteq> ev_event_id e \<or> tb_event_sequence b \<noteq> ev_sequence e \<or>
         tb_ledger_position b \<noteq> le_position entry \<or> tb_payload_digest b \<noteq> ev_payload_digest e \<or>
         tb_record_tag b \<noteq> le_record_tag entry \<or> tb_chain_tag b \<noteq> le_chain_tag entry,
           Trajectory_error Traj_UNATTESTED_REFERENCE),
        (\<not> valid_binding env b, Trajectory_error Traj_UNATTESTED_REFERENCE),
        (\<not> valid_attested_event env \<lparr>at_event = e, at_binding = b\<rparr>, Trajectory_validation)]
       (Inr \<lparr>at_event = e, at_binding = b\<rparr>))"

definition new_prefix :: "repo_env \<Rightarrow> prefix_request \<Rightarrow> attested_event list \<Rightarrow> attested_prefix" where
  "new_prefix env q items = \<lparr>ap_run_id = pq_run_id q, ap_boundary = pq_boundary q,
     ap_request_digest = pq_request_digest q, ap_items = items,
     ap_prefix_digest = prefix_digest env (pq_run_id q) (pq_boundary q) (pq_request_digest q) items\<rparr>"

definition attest_items :: "repo_env \<Rightarrow> prefix_request \<Rightarrow> attested_event list \<Rightarrow> trajectory_error + attested_prefix" where
  "attest_items env q items =
     (let tasks = map (\<lambda>a. ev_sequence (at_event a)) (filter (\<lambda>a. tb_task_description (at_binding a) \<noteq> None) items) in
      if tasks \<noteq> [1]
      then Inl (Trajectory_error (if tasks = [] then Traj_MISSING_REFERENCE else Traj_DUPLICATE_BINDING))
      else if \<not> valid_prefix_request env q \<or> \<not> valid_attested_prefix env (new_prefix env q items)
      then Inl (Trajectory_error Traj_INVALID_INPUT)
      else Inr (new_prefix env q items))"

definition resolve_trajectory_prefix :: "repo_env \<Rightarrow> vault \<Rightarrow> prefix_request \<Rightarrow> trajectory_error + attested_prefix" where
  "resolve_trajectory_prefix env v q =
     (case preflight_request q of
        Some failure \<Rightarrow> Inl (Trajectory_error failure)
      | None \<Rightarrow>
          (case read_ledger env v (pq_run_id q) of
             Inl e \<Rightarrow> Inl (Trajectory_error Traj_REPOSITORY_UNAVAILABLE)
           | Inr entries \<Rightarrow>
               if \<not> list_all (exact_entry env) entries then Inl (Trajectory_error Traj_REPOSITORY_UNAVAILABLE)
               else let found = event_entries (pq_boundary q) entries in
                 if int (length found) \<noteq> pq_boundary q then Inl (Trajectory_error Traj_MISSING_REFERENCE)
                 else bind_result (map_result (resolve_item env (pq_run_id q))
                        (zip [1..pq_boundary q] (zip found (pq_bindings q)))) (attest_items env q)))"

definition prefix_request_of :: "attested_prefix \<Rightarrow> prefix_request" where
  "prefix_request_of p = \<lparr>pq_run_id = ap_run_id p, pq_boundary = ap_boundary p,
     pq_bindings = map at_binding (ap_items p), pq_request_digest = ap_request_digest p\<rparr>"

definition verify_attested_trajectory_prefix :: "repo_env \<Rightarrow> vault \<Rightarrow> attested_prefix \<Rightarrow>
    trajectory_error + attested_prefix" where
  "verify_attested_trajectory_prefix env v p =
     (if \<not> valid_attested_prefix env p then Inl (Trajectory_error Traj_INVALID_INPUT)
      else if \<not> valid_prefix_request env (prefix_request_of p)
      then Inl (Trajectory_error Traj_UNATTESTED_REFERENCE)
      else bind_result (resolve_trajectory_prefix env v (prefix_request_of p)) (\<lambda>authoritative.
        if p \<noteq> authoritative then Inl (Trajectory_error Traj_UNATTESTED_REFERENCE)
        else Inr authoritative))"

section \<open>Reading a selected value\<close>

definition pointer_segments :: "string \<Rightarrow> string list" where
  "pointer_segments p = map (\<lambda>s. replace_pair (CHR ''~'') (CHR ''0'') (CHR ''~'')
     (replace_pair (CHR ''~'') (CHR ''1'') (CHR ''/'') s)) (tl (split_on (CHR ''/'') p))"

definition resolve_payload_value :: "attested_event \<Rightarrow> string \<Rightarrow> trajectory_error + json" where
  "resolve_payload_value a p =
     (if \<not> payload_pointer_bounded p then Inl (Trajectory_error Traj_INVALID_POINTER)
      else case walk_pointer (pointer_segments p) (JObj [(''payload'', ev_payload (at_event a))]) of
             None \<Rightarrow> Inl (Trajectory_error Traj_INVALID_POINTER)
           | Some v \<Rightarrow> Inr v)"

end
