(* ===== verification/Trajectory_Schedule.thy ===== *)
theory Trajectory_Schedule
  imports Trajectory
begin

text \<open>
  The fixed-step schedule (\<open>runtime/scheduling.py\<close>): one decision per event of a verified prefix, which
  invokes on the first event and on every event that starts a new action step.
\<close>

section \<open>Decisions and schedules\<close>

datatype (plugins only: code size) fixed_step_reason =
    Step_BOOTSTRAP
  | Step_ACTION_STEP
  | Step_CURRENT_ACTION_STEP
  | Step_NO_ACTION_STEP

fun reason_value :: "fixed_step_reason \<Rightarrow> string" where
  "reason_value Step_BOOTSTRAP = ''bootstrap''"
| "reason_value Step_ACTION_STEP = ''action_step''"
| "reason_value Step_CURRENT_ACTION_STEP = ''current_action_step''"
| "reason_value Step_NO_ACTION_STEP = ''no_action_step''"

record fixed_step_decision =
  fd_event_id :: uuid
  fd_event_sequence :: int
  fd_invoke :: bool
  fd_invocation_ordinal :: "int option"
  fd_reason :: fixed_step_reason
  fd_action_step_ordinal :: "int option"

definition valid_fixed_step_decision :: "fixed_step_decision \<Rightarrow> bool" where
  "valid_fixed_step_decision d \<longleftrightarrow> uuid4 (fd_event_id d) \<and> positive_offset (fd_event_sequence d) \<and>
     opt_all positive_offset (fd_invocation_ordinal d) \<and> opt_all positive_offset (fd_action_step_ordinal d) \<and>
     fd_invoke d = (fd_invocation_ordinal d \<noteq> None) \<and>
     (case fd_reason d of
        Step_BOOTSTRAP \<Rightarrow> fd_invoke d \<and> fd_event_sequence d = 1
      | Step_ACTION_STEP \<Rightarrow> fd_invoke d \<and> fd_action_step_ordinal d \<noteq> None
      | Step_CURRENT_ACTION_STEP \<Rightarrow> \<not> fd_invoke d \<and> fd_action_step_ordinal d \<noteq> None
      | Step_NO_ACTION_STEP \<Rightarrow> \<not> fd_invoke d \<and> fd_action_step_ordinal d = None)"

record fixed_step_schedule =
  fs_run_id :: uuid
  fs_boundary :: int
  fs_trajectory_prefix_digest :: digest
  fs_decisions :: "fixed_step_decision list"
  fs_invocation_count :: int
  fs_schedule_digest :: digest

definition decision_json :: "fixed_step_decision \<Rightarrow> json" where
  "decision_json d = JObj
     [(''event_id'', JStr (uuid_str (fd_event_id d))), (''event_sequence'', JInt (fd_event_sequence d)),
      (''invoke'', JBool (fd_invoke d)), (''invocation_ordinal'', opt_json JInt (fd_invocation_ordinal d)),
      (''reason'', JStr (reason_value (fd_reason d))),
      (''action_step_ordinal'', opt_json JInt (fd_action_step_ordinal d))]"

definition schedule_digest :: "repo_env \<Rightarrow> fixed_step_schedule \<Rightarrow> digest" where
  "schedule_digest env s = trajectory_digest env ''saliencegate:trajectory:fixed-step-schedule:v1''
     (JObj [(''schedule_version'', JStr ''first-and-every-action-step/v1''), (''run_id'', JStr (uuid_str (fs_run_id s))),
            (''boundary_event_sequence'', JInt (fs_boundary s)),
            (''trajectory_prefix_digest'', JStr (fs_trajectory_prefix_digest s)),
            (''decisions'', JArr (map decision_json (fs_decisions s))),
            (''invocation_count'', JInt (fs_invocation_count s))])"

text \<open>The loop over the action steps of a schedule.\<close>

fun steps_advance :: "int option \<Rightarrow> fixed_step_decision list \<Rightarrow> bool" where
  "steps_advance prev [] = True"
| "steps_advance prev (d # ds) =
     (case fd_action_step_ordinal d of
        None \<Rightarrow> steps_advance prev ds
      | Some step \<Rightarrow>
          \<not> (case prev of None \<Rightarrow> False | Some l \<Rightarrow> step < l) \<and>
          \<not> (fd_reason d = Step_ACTION_STEP \<and> prev = Some step) \<and>
          \<not> (fd_reason d = Step_CURRENT_ACTION_STEP \<and> prev \<noteq> Some step) \<and>
          steps_advance (Some step) ds)"

definition invocations :: "fixed_step_decision list \<Rightarrow> int list" where
  "invocations ds = List.map_filter fd_invocation_ordinal ds"

definition valid_fixed_step_schedule :: "repo_env \<Rightarrow> fixed_step_schedule \<Rightarrow> bool" where
  "valid_fixed_step_schedule env s \<longleftrightarrow> uuid4 (fs_run_id s) \<and> boundary_ok (fs_boundary s) \<and>
     sha256_digest (fs_trajectory_prefix_digest s) \<and> fs_decisions s \<noteq> [] \<and>
     int (length (fs_decisions s)) \<le> max_trajectory_events \<and>
     list_all valid_fixed_step_decision (fs_decisions s) \<and> boundary_ok (fs_invocation_count s) \<and>
     sha256_digest (fs_schedule_digest s) \<and>
     int (length (fs_decisions s)) = fs_boundary s \<and>
     map fd_event_sequence (fs_decisions s) = [1..int (length (fs_decisions s))] \<and>
     distinct (map fd_event_id (fs_decisions s)) \<and>
     int (length (invocations (fs_decisions s))) = fs_invocation_count s \<and>
     invocations (fs_decisions s) = [1..int (length (invocations (fs_decisions s)))] \<and>
     fd_reason (hd (fs_decisions s)) = Step_BOOTSTRAP \<and>
     steps_advance None (fs_decisions s) \<and>
     fs_schedule_digest s = schedule_digest env s"

section \<open>Projecting the schedule\<close>

definition action_step_of :: "attested_event \<Rightarrow> trajectory_error + int option" where
  "action_step_of a =
     (case tb_action_step (at_binding a) of
        None \<Rightarrow> Inr None
      | Some p \<Rightarrow> bind_result (resolve_payload_value a p) (\<lambda>v.
          case v of
            JInt n \<Rightarrow> if positive_offset n then Inr (Some n) else Inl (Trajectory_error Traj_INVALID_POINTER)
          | _ \<Rightarrow> Inl (Trajectory_error Traj_INVALID_POINTER)))"

definition new_decision :: "attested_event \<Rightarrow> int option \<Rightarrow> fixed_step_reason \<Rightarrow> int option \<Rightarrow>
    trajectory_error + fixed_step_decision" where
  "new_decision a ordinal reason step =
     (let d = \<lparr>fd_event_id = ev_event_id (at_event a), fd_event_sequence = ev_sequence (at_event a),
            fd_invoke = (ordinal \<noteq> None), fd_invocation_ordinal = ordinal, fd_reason = reason,
            fd_action_step_ordinal = step\<rparr>
      in if valid_fixed_step_decision d then Inr d else Inl Trajectory_validation)"

text \<open>The events after the first: \<open>prev\<close> is \<open>last_step\<close> and \<open>ordinal\<close> the invocations so far.\<close>

fun schedule_loop :: "int option \<Rightarrow> int \<Rightarrow> attested_event list \<Rightarrow> trajectory_error + fixed_step_decision list \<times> int" where
  "schedule_loop prev ordinal [] = Inr ([], ordinal)"
| "schedule_loop prev ordinal (a # items) =
     bind_result (action_step_of a) (\<lambda>found.
       case found of
         None \<Rightarrow>
           bind_result (new_decision a None Step_NO_ACTION_STEP None) (\<lambda>d.
           map_sum id (\<lambda>(ds, n). (d # ds, n)) (schedule_loop prev ordinal items))
       | Some step \<Rightarrow>
           if (case prev of None \<Rightarrow> False | Some l \<Rightarrow> step < l) then Inl (Trajectory_error Traj_RETROGRADE_BINDING)
           else if prev = Some step
           then bind_result (new_decision a None Step_CURRENT_ACTION_STEP (Some step)) (\<lambda>d.
                map_sum id (\<lambda>(ds, n). (d # ds, n)) (schedule_loop prev ordinal items))
           else bind_result (new_decision a (Some (ordinal + 1)) Step_ACTION_STEP (Some step)) (\<lambda>d.
                map_sum id (\<lambda>(ds, n). (d # ds, n)) (schedule_loop (Some step) (ordinal + 1) items)))"

definition schedule_of :: "repo_env \<Rightarrow> attested_prefix \<Rightarrow> fixed_step_decision list \<Rightarrow> int \<Rightarrow> fixed_step_schedule" where
  "schedule_of env p ds count =
     (let s = \<lparr>fs_run_id = ap_run_id p, fs_boundary = ap_boundary p, fs_trajectory_prefix_digest = ap_prefix_digest p,
            fs_decisions = ds, fs_invocation_count = count, fs_schedule_digest = []\<rparr>
      in s\<lparr>fs_schedule_digest := schedule_digest env s\<rparr>)"

definition project_verified_schedule :: "repo_env \<Rightarrow> attested_prefix \<Rightarrow> trajectory_error + fixed_step_schedule" where
  "project_verified_schedule env p =
     (case ap_items p of
        [] \<Rightarrow> Inl (Trajectory_error Traj_INVALID_INPUT)
      | a # items \<Rightarrow>
          bind_result (action_step_of a) (\<lambda>step.
          bind_result (new_decision a (Some 1) Step_BOOTSTRAP step) (\<lambda>d.
          bind_result (schedule_loop step 1 items) (\<lambda>(ds, count).
            let s = schedule_of env p (d # ds) count in
            if valid_fixed_step_schedule env s then Inr s else Inl (Trajectory_error Traj_INVALID_INPUT)))))"

definition project_fixed_step_schedule :: "repo_env \<Rightarrow> vault \<Rightarrow> attested_prefix \<Rightarrow>
    trajectory_error + fixed_step_schedule" where
  "project_fixed_step_schedule env v p =
     bind_result (verify_attested_trajectory_prefix env v p) (project_verified_schedule env)"

definition validated_schedule_for_prefix :: "repo_env \<Rightarrow> vault \<Rightarrow> attested_prefix \<Rightarrow> fixed_step_schedule \<Rightarrow>
    trajectory_error + fixed_step_schedule" where
  "validated_schedule_for_prefix env v p s =
     (if \<not> valid_fixed_step_schedule env s then Inl (Trajectory_error Traj_UNATTESTED_REFERENCE)
      else bind_result (project_fixed_step_schedule env v p) (\<lambda>expected.
        if s \<noteq> expected then Inl (Trajectory_error Traj_UNATTESTED_REFERENCE) else Inr s))"

end
