(* ===== verification/Trajectory_Window.thy ===== *)
theory Trajectory_Window
  imports Trajectory
begin

text \<open>
  The message window (\<open>runtime/message_window.py\<close>): the task description and the latest eight logical
  messages of a verified prefix, each with the event it was read from, under one byte ceiling.
\<close>

definition max_window_items :: nat where "max_window_items = 8"
definition max_window_bytes :: int where "max_window_bytes = 32000"
definition max_task_bytes :: nat where "max_task_bytes = 32000"

section \<open>Sources, messages and windows\<close>

record text_source =
  xs_evidence :: evidence_reference
  xs_event_sequence :: int
  xs_ledger_position :: int
  xs_trust_label :: trust_label
  xs_payload_digest :: payload_digest
  xs_record_tag :: payload_digest
  xs_chain_tag :: payload_digest
  xs_binding_digest :: digest

definition event_evidence :: "evidence_reference \<Rightarrow> bool" where
  "event_evidence e \<longleftrightarrow> valid_evidence_reference e \<and> er_source e = Source_EVENT \<and> er_revision e = None"

definition valid_text_source :: "text_source \<Rightarrow> bool" where
  "valid_text_source s \<longleftrightarrow> event_evidence (xs_evidence s) \<and> positive_offset (xs_event_sequence s) \<and>
     positive_offset (xs_ledger_position s) \<and> valid_payload_digest (xs_payload_digest s) \<and>
     valid_payload_digest (xs_record_tag s) \<and> valid_payload_digest (xs_chain_tag s) \<and>
     sha256_digest (xs_binding_digest s) \<and>
     pd_algorithm (xs_payload_digest s) = pd_algorithm (xs_record_tag s) \<and>
     pd_algorithm (xs_record_tag s) = pd_algorithm (xs_chain_tag s)"

definition text_source_json :: "text_source \<Rightarrow> json" where
  "text_source_json s = JObj
     [(''evidence'', evidence_json (xs_evidence s)), (''event_sequence'', JInt (xs_event_sequence s)),
      (''ledger_position'', JInt (xs_ledger_position s)), (''trust_label'', JStr (trust_value (xs_trust_label s))),
      (''payload_digest'', digest_json (xs_payload_digest s)), (''record_tag'', digest_json (xs_record_tag s)),
      (''chain_tag'', digest_json (xs_chain_tag s)), (''binding_digest'', JStr (xs_binding_digest s))]"

record task_description =
  td_content :: string
  td_source :: text_source
  td_task_digest :: digest

definition task_digest :: "repo_env \<Rightarrow> string \<Rightarrow> text_source \<Rightarrow> digest" where
  "task_digest env content source = trajectory_digest env ''saliencegate:trajectory:task-description:v1''
     (JObj [(''version'', JStr ''attested-task-description/v1''), (''content'', JStr content),
            (''source'', text_source_json source)])"

definition valid_task_description :: "repo_env \<Rightarrow> task_description \<Rightarrow> bool" where
  "valid_task_description env t \<longleftrightarrow> td_content t \<noteq> [] \<and> valid_text_source (td_source t) \<and>
     sha256_digest (td_task_digest t) \<and> length (td_content t) \<le> max_task_bytes \<and>
     td_task_digest t = task_digest env (td_content t) (td_source t)"

definition task_json :: "task_description \<Rightarrow> json" where
  "task_json t = JObj [(''version'', JStr ''attested-task-description/v1''), (''content'', JStr (td_content t)),
     (''source'', text_source_json (td_source t)), (''task_digest'', JStr (td_task_digest t))]"

record window_message =
  wm_role :: message_role
  wm_content :: string
  wm_evidence :: evidence_reference
  wm_trust_label :: trust_label

definition valid_window_message :: "window_message \<Rightarrow> bool" where
  "valid_window_message m \<longleftrightarrow> wm_content m \<noteq> [] \<and> event_evidence (wm_evidence m)"

definition window_message_json :: "window_message \<Rightarrow> json" where
  "window_message_json m = JObj
     [(''role'', JStr (role_value (wm_role m))), (''content'', JStr (wm_content m)),
      (''evidence'', evidence_json (wm_evidence m)), (''trust_label'', JStr (trust_value (wm_trust_label m)))]"

definition payload_json :: "window_message list \<Rightarrow> json" where
  "payload_json ms = JObj [(''version'', JStr ''latest-eight-logical-messages/v1''),
     (''messages'', JArr (map window_message_json ms))]"

definition payload_size :: "repo_env \<Rightarrow> window_message list \<Rightarrow> int" where
  "payload_size env ms = int (length (json_text (en_float env) (payload_json ms)))"

record message_window =
  mw_run_id :: uuid
  mw_boundary_event_id :: uuid
  mw_boundary_event_sequence :: int
  mw_boundary_ledger_position :: int
  mw_boundary_chain_tag :: payload_digest
  mw_trajectory_prefix_digest :: digest
  mw_task_description :: task_description
  mw_payload :: "window_message list"
  mw_payload_bytes :: int
  mw_source_attestations :: "text_source list"
  mw_window_digest :: digest

definition window_digest :: "repo_env \<Rightarrow> message_window \<Rightarrow> digest" where
  "window_digest env w =
     trajectory_digest env ''saliencegate:trajectory:message-window:latest-eight-logical-messages:v1''
       (JObj [(''version'', JStr ''latest-eight-logical-messages/v1''), (''run_id'', JStr (uuid_str (mw_run_id w))),
          (''boundary_event_id'', JStr (uuid_str (mw_boundary_event_id w))),
          (''boundary_event_sequence'', JInt (mw_boundary_event_sequence w)),
          (''boundary_ledger_position'', JInt (mw_boundary_ledger_position w)),
          (''boundary_chain_tag'', digest_json (mw_boundary_chain_tag w)),
          (''trajectory_prefix_digest'', JStr (mw_trajectory_prefix_digest w)),
          (''task_description'', task_json (mw_task_description w)), (''payload'', payload_json (mw_payload w)),
          (''payload_canonical_utf8_bytes'', JInt (mw_payload_bytes w)),
          (''source_attestations'', JArr (map text_source_json (mw_source_attestations w)))])"

definition valid_message_window :: "repo_env \<Rightarrow> message_window \<Rightarrow> bool" where
  "valid_message_window env w \<longleftrightarrow> uuid4 (mw_run_id w) \<and> uuid4 (mw_boundary_event_id w) \<and>
     positive_offset (mw_boundary_event_sequence w) \<and> positive_offset (mw_boundary_ledger_position w) \<and>
     valid_payload_digest (mw_boundary_chain_tag w) \<and> sha256_digest (mw_trajectory_prefix_digest w) \<and>
     valid_task_description env (mw_task_description w) \<and>
     length (mw_payload w) \<le> max_window_items \<and> list_all valid_window_message (mw_payload w) \<and>
     0 \<le> mw_payload_bytes w \<and> mw_payload_bytes w \<le> max_window_bytes \<and>
     length (mw_source_attestations w) \<le> max_window_items \<and> list_all valid_text_source (mw_source_attestations w) \<and>
     sha256_digest (mw_window_digest w) \<and>
     length (mw_payload w) = length (mw_source_attestations w) \<and>
     list_all (\<lambda>(m, s). wm_evidence m = xs_evidence s \<and> wm_trust_label m = xs_trust_label s)
       (zip (mw_payload w) (mw_source_attestations w)) \<and>
     payload_size env (mw_payload w) = mw_payload_bytes w \<and>
     mw_window_digest w = window_digest env w"

section \<open>Projecting the window\<close>

definition source_of :: "attested_event \<Rightarrow> event_text_selector \<Rightarrow> trajectory_error + text_source" where
  "source_of a sel =
     (let s = \<lparr>xs_evidence = \<lparr>er_source = Source_EVENT, er_source_id = ev_event_id (at_event a), er_revision = None,
              er_field_path = sel_field_path sel, er_span = sel_span sel\<rparr>,
            xs_event_sequence = ev_sequence (at_event a), xs_ledger_position = tb_ledger_position (at_binding a),
            xs_trust_label = ev_trust_label (at_event a), xs_payload_digest = ev_payload_digest (at_event a),
            xs_record_tag = tb_record_tag (at_binding a), xs_chain_tag = tb_chain_tag (at_binding a),
            xs_binding_digest = tb_binding_digest (at_binding a)\<rparr>
      in if valid_text_source s then Inr s else Inl Trajectory_validation)"

definition selected_text :: "attested_event \<Rightarrow> event_text_selector \<Rightarrow> trajectory_error + string" where
  "selected_text a sel =
     bind_result (resolve_payload_value a (sel_field_path sel)) (\<lambda>v.
     case v of
       JStr s \<Rightarrow>
         if s = [] then Inl (Trajectory_error Traj_INVALID_POINTER)
         else (case sel_span sel of
                 None \<Rightarrow> Inr s
               | Some sp \<Rightarrow>
                   if span_end_byte sp > int (length s) then Inl (Trajectory_error Traj_INVALID_SPAN)
                   else let selected = take (nat (span_end_byte sp) - nat (span_start_byte sp))
                              (drop (nat (span_start_byte sp)) s)
                        in if utf8_ok (map of_char selected) then Inr selected
                           else Inl (Trajectory_error Traj_INVALID_SPAN))
     | _ \<Rightarrow> Inl (Trajectory_error Traj_INVALID_POINTER))"

definition select_message :: "attested_event \<times> logical_message \<Rightarrow> trajectory_error + window_message \<times> text_source" where
  "select_message = (\<lambda>(a, binding).
     bind_result (selected_text a (lm_selector binding)) (\<lambda>content.
     bind_result (source_of a (lm_selector binding)) (\<lambda>source.
     let m = \<lparr>wm_role = lm_role binding, wm_content = content, wm_evidence = xs_evidence source,
           wm_trust_label = xs_trust_label source\<rparr>
     in if valid_window_message m then Inr (m, source) else Inl Trajectory_validation)))"

text \<open>\<open>deque(maxlen=n).append\<close>.\<close>

definition deque_append :: "nat \<Rightarrow> 'a \<Rightarrow> 'a list \<Rightarrow> 'a list" where
  "deque_append n x xs = (if length xs < n then xs @ [x] else tl (xs @ [x]))"

definition message_bindings :: "attested_prefix \<Rightarrow> (attested_event \<times> logical_message) list" where
  "message_bindings p = concat (map (\<lambda>a. map (Pair a) (tb_logical_messages (at_binding a))) (ap_items p))"

definition latest_messages :: "attested_prefix \<Rightarrow> trajectory_error + (window_message \<times> text_source) list" where
  "latest_messages p = fold_result (\<lambda>b kept. map_sum id (\<lambda>m. deque_append max_window_items m kept) (select_message b))
     (message_bindings p) []"

definition window_of :: "repo_env \<Rightarrow> attested_prefix \<Rightarrow> task_description \<Rightarrow> (window_message \<times> text_source) list \<Rightarrow>
    message_window" where
  "window_of env p task kept =
     (let boundary = last (ap_items p);
          w = \<lparr>mw_run_id = ap_run_id p, mw_boundary_event_id = ev_event_id (at_event boundary),
            mw_boundary_event_sequence = ev_sequence (at_event boundary),
            mw_boundary_ledger_position = tb_ledger_position (at_binding boundary),
            mw_boundary_chain_tag = tb_chain_tag (at_binding boundary),
            mw_trajectory_prefix_digest = ap_prefix_digest p, mw_task_description = task,
            mw_payload = map fst kept, mw_payload_bytes = payload_size env (map fst kept),
            mw_source_attestations = map snd kept, mw_window_digest = []\<rparr>
      in w\<lparr>mw_window_digest := window_digest env w\<rparr>)"

definition describe_task :: "repo_env \<Rightarrow> attested_prefix \<Rightarrow> trajectory_error + task_description" where
  "describe_task env p =
     (case ap_items p of
        [] \<Rightarrow> Inl Trajectory_validation
      | a # _ \<Rightarrow>
          (case tb_task_description (at_binding a) of
             None \<Rightarrow> Inl (Trajectory_error Traj_MISSING_REFERENCE)
           | Some sel \<Rightarrow>
               bind_result (selected_text a sel) (\<lambda>content.
               bind_result (source_of a sel) (\<lambda>source.
               let t = \<lparr>td_content = content, td_source = source, td_task_digest = task_digest env content source\<rparr>
               in if valid_task_description env t then Inr t else Inl (Trajectory_error Traj_LIMIT_EXCEEDED)))))"

definition project_verified_window :: "repo_env \<Rightarrow> attested_prefix \<Rightarrow> trajectory_error + message_window" where
  "project_verified_window env p =
     bind_result (describe_task env p) (\<lambda>task.
     bind_result (latest_messages p) (\<lambda>kept.
     if payload_size env (map fst kept) > max_window_bytes then Inl (Trajectory_error Traj_LIMIT_EXCEEDED)
     else let w = window_of env p task kept in
       if valid_message_window env w then Inr w else Inl (Trajectory_error Traj_INVALID_INPUT)))"

definition project_message_window :: "repo_env \<Rightarrow> vault \<Rightarrow> attested_prefix \<Rightarrow> trajectory_error + message_window" where
  "project_message_window env v p =
     bind_result (verify_attested_trajectory_prefix env v p) (project_verified_window env)"

definition validated_window_for_prefix :: "repo_env \<Rightarrow> vault \<Rightarrow> attested_prefix \<Rightarrow> message_window \<Rightarrow>
    trajectory_error + message_window" where
  "validated_window_for_prefix env v p w =
     (if \<not> valid_message_window env w then Inl (Trajectory_error Traj_UNATTESTED_REFERENCE)
      else bind_result (project_message_window env v p) (\<lambda>expected.
        if w \<noteq> expected then Inl (Trajectory_error Traj_UNATTESTED_REFERENCE) else Inr w))"

end
