(* ===== verification/Trajectory_Facts.thy ===== *)
theory Trajectory_Facts
  imports Trajectory_Schedule Trajectory_Window
begin

text \<open>
  Facts about attested trajectories: what resolving gives, that the schedule loop and the window loop
  only build what their models accept, and what they select.
\<close>

section \<open>Resolving\<close>

lemma map_result_nth:
  "map_result f xs = Inr ys \<longleftrightarrow> length ys = length xs \<and> (\<forall>i<length xs. f (xs ! i) = Inr (ys ! i))"
proof (induction xs arbitrary: ys)
  case (Cons x xs)
  show ?case
  proof (cases ys)
    case (Cons y zs)
    with Cons.IH show ?thesis by (auto simp: bind_result_Inr nth_Cons' All_less_Suc2)
  qed (simp add: bind_result_Inr)
qed auto

section \<open>Prefixes\<close>

text \<open>What the repository returns is exact.\<close>

lemma run_entries_exact:
  assumes "read_ledger env (run_operations env ops empty_vault) run = Inr es"
  shows "list_all (exact_entry env) es"
proof -
  obtain s where s: "dict_get (va_slots (run_operations env ops empty_vault)) run = Some s" "es = sl_ledger s"
    using assms by (auto simp: read_ledger_def bind_result_Inr dest: find_slot_Inr)
  have "slot_ok env s" by (rule vault_ok_slot(2) [OF run_operations_ok s(1)])
  then show ?thesis by (auto simp: slot_ok_def entry_ok_def exact_entry_def list_all_iff s(2))
qed

lemma event_entries_events: "map snd (event_entries n es) = filter (\<lambda>e. ev_sequence e \<le> n) (List.map_filter event_of es)"
  by (induction es) (auto simp: event_entries_def map_filter_simps split: ledger_record.splits)

lemma event_entries_record: "(entry, e) \<in> set (event_entries n es) \<Longrightarrow> entry \<in> set es \<and> le_record entry = Rec_event e \<and> ev_sequence e \<le> n"
  by (induction es) (auto simp: event_entries_def map_filter_simps split: option.splits ledger_record.splits)

lemma resolve_item_Inr:
  "resolve_item env run (n, (entry, e), b) = Inr a \<longleftrightarrow> a = \<lparr>at_event = e, at_binding = b\<rparr> \<and> ev_sequence e = n \<and>
     ev_run_id e = run \<and> tb_run_id b = run \<and> tb_event_id b = ev_event_id e \<and> tb_event_sequence b = n \<and>
     tb_ledger_position b = le_position entry \<and> tb_payload_digest b = ev_payload_digest e \<and>
     tb_record_tag b = le_record_tag entry \<and> tb_chain_tag b = le_chain_tag entry \<and> valid_attested_event env a"
  by (auto simp: resolve_item_def checks_Inr valid_attested_event_def)

lemma attest_items_Inr:
  "attest_items env q items = Inr p \<longleftrightarrow> p = new_prefix env q items \<and> valid_prefix_request env q \<and> valid_attested_prefix env p \<and>
     map (\<lambda>a. ev_sequence (at_event a)) (filter (\<lambda>a. tb_task_description (at_binding a) \<noteq> None) items) = [1]"
  unfolding attest_items_def Let_def
  by (rule iffI, simp split: if_splits, elim conjE, simp del: not_None_eq)

text \<open>The stored entry that an attested event rests on.\<close>

definition attests :: "ledger_entry \<Rightarrow> attested_event \<Rightarrow> bool" where
  "attests entry a \<longleftrightarrow> le_record entry = Rec_event (at_event a) \<and>
     tb_event_id (at_binding a) = ev_event_id (at_event a) \<and> tb_event_sequence (at_binding a) = ev_sequence (at_event a) \<and>
     tb_ledger_position (at_binding a) = le_position entry \<and> tb_payload_digest (at_binding a) = ev_payload_digest (at_event a) \<and>
     tb_record_tag (at_binding a) = le_record_tag entry \<and> tb_chain_tag (at_binding a) = le_chain_tag entry"

lemma resolve_prefix_Inr:
  assumes "resolve_trajectory_prefix env v q = Inr p"
  obtains entries where "read_ledger env v (pq_run_id q) = Inr entries" "list_all (exact_entry env) entries"
    "map at_event (ap_items p) = map snd (event_entries (pq_boundary q) entries)"
    "map at_binding (ap_items p) = pq_bindings q"
    "int (length (event_entries (pq_boundary q) entries)) = pq_boundary q"
    "p = new_prefix env q (ap_items p)" "valid_attested_prefix env p"
    "\<forall>a\<in>set (ap_items p). \<exists>entry\<in>set entries. attests entry a"
proof -
  from assms obtain entries items where e: "read_ledger env v (pq_run_id q) = Inr entries" "list_all (exact_entry env) entries"
    and len: "int (length (event_entries (pq_boundary q) entries)) = pq_boundary q"
    and items: "map_result (resolve_item env (pq_run_id q))
      (zip [1..pq_boundary q] (zip (event_entries (pq_boundary q) entries) (pq_bindings q))) = Inr items"
    and att: "attest_items env q items = Inr p"
    unfolding resolve_trajectory_prefix_def by (auto simp: bind_result_Inr Let_def split: option.splits sum.splits if_splits)
  let ?found = "event_entries (pq_boundary q) entries"
  have p: "p = new_prefix env q items" "valid_attested_prefix env p" "valid_prefix_request env q"
    using att unfolding attest_items_Inr by blast+
  have lens: "length ?found = nat (pq_boundary q)" "length (pq_bindings q) = nat (pq_boundary q)"
    using len p(3) unfolding valid_prefix_request_def by linarith+
  have n: "length items = nat (pq_boundary q)" using items lens by (simp add: map_result_nth)
  have item: "items ! i = \<lparr>at_event = snd (?found ! i), at_binding = pq_bindings q ! i\<rparr> \<and>
      (\<exists>entry\<in>set entries. attests entry (items ! i))" if "i < length items" for i
  proof -
    from n items lens that have "resolve_item env (pq_run_id q) ([1..pq_boundary q] ! i, ?found ! i, pq_bindings q ! i) = Inr (items ! i)"
      by (simp add: map_result_nth)
    moreover have "?found ! i \<in> set ?found" using that n lens by simp
    ultimately show ?thesis
      using event_entries_record [of "fst (?found ! i)" "snd (?found ! i)" "pq_boundary q" entries]
      by (cases "?found ! i") (auto simp: resolve_item_Inr attests_def)
  qed
  have stored: "\<forall>a\<in>set items. \<exists>entry\<in>set entries. attests entry a"
    using item by (metis in_set_conv_nth)
  have "map at_event items = map snd ?found" "map at_binding items = pq_bindings q"
    using item n lens by (auto intro!: nth_equalityI)
  with that e len p stored show thesis by (auto simp: new_prefix_def)
qed

lemma verify_prefix_Inr:
  assumes "verify_attested_trajectory_prefix env v p = Inr p'"
  shows "p' = p" and "valid_attested_prefix env p" and "resolve_trajectory_prefix env v (prefix_request_of p) = Inr p"
  using assms by (auto simp: verify_attested_trajectory_prefix_def bind_result_Inr split: if_splits)

text \<open>Bindings made from the ledger resolve.\<close>

lemma valid_new_binding:
  assumes "bind_persisted_trajectory_event env entry t ms st = Inr b" and "le_record entry = Rec_event e"
  shows "b = new_binding env entry e t ms st" and "valid_binding env b" and "exact_entry env entry"
  using assms by (auto simp: bind_persisted_trajectory_event_def Let_def split: if_splits)

lemma preflight_none:
  assumes "valid_prefix_request env q"
  shows "preflight_request q = None"
proof -
  have inc: "\<not> list_ex (\<lambda>(a, b). b < a) (zip xs (tl xs))" if "strictly_increasing xs" for xs :: "int list"
    using that by (force simp: strictly_increasing_def list_all_iff list_ex_iff)
  have pairs: "strictly_increasing (x # y # zs) \<longleftrightarrow> x < y \<and> strictly_increasing (y # zs)" for x y zs
    by (simp add: strictly_increasing_def)
  have sorted: "strictly_increasing xs \<Longrightarrow> sorted_wrt (<) xs" for xs
  proof (induction xs rule: induct_list012)
    case (3 x y zs)
    then have "x < y" "sorted_wrt (<) (y # zs)" by (simp_all add: pairs)
    then show ?case by fastforce
  qed simp_all
  have upto: "strictly_increasing [m..n]" for m n
    by (simp add: strictly_increasing_def list_all_length nth_tl)
  note ok = assms [unfolded valid_prefix_request_def]
  have "distinct (map tb_ledger_position (pq_bindings q))"
    using ok sorted strict_sorted_iff by blast
  moreover have "\<not> list_ex (\<lambda>b. tb_run_id b \<noteq> pq_run_id q) (pq_bindings q)"
    using ok by (auto simp: list_ex_iff list_all_iff)
  ultimately show ?thesis
    using ok inc inc [OF upto] by (auto simp: preflight_request_def Let_def first_failure_def list_ex_iff)
qed

lemma new_binding_sel [simp]:
  "tb_run_id (new_binding env entry e t ms st) = ev_run_id e" "tb_event_id (new_binding env entry e t ms st) = ev_event_id e"
  "tb_event_sequence (new_binding env entry e t ms st) = ev_sequence e"
  "tb_ledger_position (new_binding env entry e t ms st) = le_position entry"
  "tb_payload_digest (new_binding env entry e t ms st) = ev_payload_digest e"
  "tb_record_tag (new_binding env entry e t ms st) = le_record_tag entry"
  "tb_chain_tag (new_binding env entry e t ms st) = le_chain_tag entry"
  "tb_task_description (new_binding env entry e t ms st) = t" "tb_logical_messages (new_binding env entry e t ms st) = ms"
  "tb_action_step (new_binding env entry e t ms st) = st"
  by (simp_all add: new_binding_def Let_def)

lemma bound_prefix_resolves:
  assumes q: "valid_prefix_request env q" and read: "read_ledger env v (pq_run_id q) = Inr entries"
    and exact: "list_all (exact_entry env) entries"
    and bound: "list_all2 (\<lambda>(entry, e) b. \<exists>t ms st. bind_persisted_trajectory_event env entry t ms st = Inr b)
      (event_entries (pq_boundary q) entries) (pq_bindings q)"
    and hex: "hex_digest (en_hash env)"
    and start: "ev_event_type (snd (hd (event_entries (pq_boundary q) entries))) = Event_RUN_START"
  shows "\<exists>p. resolve_trajectory_prefix env v q = Inr p \<and> verify_attested_trajectory_prefix env v p = Inr p \<and>
    map at_binding (ap_items p) = pq_bindings q"
proof -
  let ?found = "event_entries (pq_boundary q) entries"
  let ?items = "map2 (\<lambda>(entry, e) b. \<lparr>at_event = e, at_binding = b\<rparr>) ?found (pq_bindings q)"
  note ok = q [unfolded valid_prefix_request_def]
  have len: "length ?found = length (pq_bindings q)" using bound by (rule list_all2_lengthD)
  then have lens: "length ?found = nat (pq_boundary q)" "length (pq_bindings q) = nat (pq_boundary q)"
    "int (length ?found) = pq_boundary q"
    using ok by linarith+
  have one: "resolve_item env (pq_run_id q) (n, (entry, e), b) = Inr \<lparr>at_event = e, at_binding = b\<rparr>"
    if i: "i < length ?found" and at: "?found ! i = (entry, e)" "pq_bindings q ! i = b" "[1..pq_boundary q] ! i = n" for i n entry e b
  proof -
    have "(entry, e) \<in> set ?found" using i at(1) by (metis nth_mem)
    note rec = event_entries_record [OF this]
    obtain t ms st where "bind_persisted_trajectory_event env entry t ms st = Inr b"
      using list_all2_nthD [OF bound i] at by auto
    note b = valid_new_binding [OF this conjunct1 [OF conjunct2 [OF rec]]]
    have "b \<in> set (pq_bindings q)" using i at(2) len by (metis nth_mem)
    then have run: "tb_run_id b = pq_run_id q" using ok by (simp add: list_all_iff)
    have "tb_event_sequence b = n"
      using ok i at len by (metis nth_map)
    moreover have "valid_trace_event e" using b(3) rec by (simp add: exact_entry_def valid_ledger_record_def)
    ultimately show ?thesis
      using b run by (simp add: resolve_item_Inr valid_attested_event_def)
  qed
  have item: "resolve_item env (pq_run_id q) ([1..pq_boundary q] ! i, ?found ! i, pq_bindings q ! i) = Inr (?items ! i)"
    if "i < length ?found" for i
    using one [OF that, of "fst (?found ! i)" "snd (?found ! i)"] that len by (simp add: split_beta)
  have items: "map_result (resolve_item env (pq_run_id q)) (zip [1..pq_boundary q] (zip ?found (pq_bindings q))) = Inr ?items"
    unfolding map_result_nth using lens item by auto
  have bindings: "map at_binding ?items = pq_bindings q" and events: "map at_event ?items = map snd ?found"
    using len by (auto intro!: nth_equalityI simp: split_beta)
  have valid: "valid_attested_event env a \<and> ev_run_id (at_event a) = pq_run_id q \<and>
      tb_event_sequence (at_binding a) = ev_sequence (at_event a)" if a: "a \<in> set ?items" for a
  proof -
    obtain i where i: "i < length ?items" "a = ?items ! i" using a by (metis in_set_conv_nth)
    then have "i < length ?found" by simp
    from item [OF this] i(2) show ?thesis
      by (cases "?found ! i") (auto simp: resolve_item_Inr)
  qed
  have seqs: "map (\<lambda>a. ev_sequence (at_event a)) ?items = map tb_event_sequence (pq_bindings q)"
  proof -
    have "map (\<lambda>a. ev_sequence (at_event a)) ?items = map tb_event_sequence (map at_binding ?items)"
      unfolding map_map using valid by (intro map_cong) auto
    then show ?thesis by (simp only: bindings)
  qed
  have first: "?items \<noteq> [] \<and> at_event (hd ?items) = snd (hd ?found)"
    using ok len by (cases ?found; cases "pq_bindings q") (auto simp: split_beta)
  have q_ok: "uuid4 (pq_run_id q)" "boundary_ok (pq_boundary q)" "int (length (pq_bindings q)) \<le> max_trajectory_events"
    "sha256_digest (pq_request_digest q)" "map tb_event_sequence (pq_bindings q) = [1..pq_boundary q]"
    "int (length (pq_bindings q)) = pq_boundary q"
    using ok by blast+
  have events_valid: "list_all (valid_attested_event env) ?items" "list_all (\<lambda>a. ev_run_id (at_event a) = pq_run_id q) ?items"
    using valid unfolding list_all_iff by blast+
  have items_len: "length ?items = length (pq_bindings q)" using len by simp
  have "sha256_digest (prefix_digest env (pq_run_id q) (pq_boundary q) (pq_request_digest q) ?items)"
    using hex by (simp add: prefix_digest_def trajectory_digest_def length_prefixed_sha256_def hex_digest_def)
  with q_ok seqs events_valid start first items_len
  have prefix: "valid_attested_prefix env (new_prefix env q ?items)"
    unfolding valid_attested_prefix_def new_prefix_def attested_prefix.select_convs by metis
  have "map (\<lambda>a. ev_sequence (at_event a)) (filter (\<lambda>a. tb_task_description (at_binding a) \<noteq> None) ?items) =
      map (\<lambda>a. tb_event_sequence (at_binding a)) (filter (\<lambda>a. tb_task_description (at_binding a) \<noteq> None) ?items)"
    using valid by (intro map_cong) auto
  also have "\<dots> = task_sources (map at_binding ?items)"
    by (simp add: task_sources_def filter_map comp_def)
  finally have "attest_items env q ?items = Inr (new_prefix env q ?items)"
    using prefix q ok bindings by (simp add: attest_items_Inr)
  then have res: "resolve_trajectory_prefix env v q = Inr (new_prefix env q ?items)"
    using preflight_none [OF q] read exact items lens by (simp add: resolve_trajectory_prefix_def)
  have "prefix_request_of (new_prefix env q ?items) = q"
    using bindings by (simp add: prefix_request_of_def new_prefix_def)
  then show ?thesis
    using res prefix q bindings
    by (auto simp: verify_attested_trajectory_prefix_def new_prefix_def simp del: map_map)
qed

section \<open>The schedule\<close>

definition below :: "int option \<Rightarrow> int \<Rightarrow> bool" where
  "below prev k \<longleftrightarrow> (\<forall>l. prev = Some l \<longrightarrow> l < k)"

text \<open>
  The reference for the loop: an event starts a step when it has a step number greater than every
  step number before it.
\<close>

definition starts_step :: "int option \<Rightarrow> int option list \<Rightarrow> nat \<Rightarrow> bool" where
  "starts_step prev steps i \<longleftrightarrow>
     (\<exists>k. steps ! i = Some k \<and> below prev k \<and> (\<forall>j<i. below (steps ! j) k))"

lemma starts_step_0: "starts_step prev (s # steps) 0 \<longleftrightarrow> (\<exists>k. s = Some k \<and> below prev k)"
  by (simp add: starts_step_def)

lemma starts_step_Suc:
  assumes "s = None \<longrightarrow> kept = prev" and "\<forall>k. s = Some k \<longrightarrow> kept = Some k \<and> (\<forall>l. prev = Some l \<longrightarrow> l \<le> k)"
  shows "starts_step prev (s # steps) (Suc i) \<longleftrightarrow> starts_step kept steps i"
proof (cases s)
  case None
  then have below: "below s k" for k by (simp add: below_def)
  with None assms(1) show ?thesis
    by (auto simp: starts_step_def All_less_Suc2)
next
  case (Some k)
  with assms(2) have "below prev m \<and> below s m \<longleftrightarrow> below kept m" for m
    by (auto simp: below_def)
  then show ?thesis by (auto simp: starts_step_def All_less_Suc2)
qed

definition item_ok :: "attested_event \<Rightarrow> bool" where
  "item_ok a \<longleftrightarrow> uuid4 (ev_event_id (at_event a)) \<and> positive_offset (ev_sequence (at_event a))"

lemma resolve_payload_Inl: "resolve_payload_value a p = Inl e \<Longrightarrow> e = Trajectory_error Traj_INVALID_POINTER"
  by (auto simp: resolve_payload_value_def split: option.splits if_splits)

lemma action_step_cases:
  obtains (error) "action_step_of a = Inl (Trajectory_error Traj_INVALID_POINTER)"
  | (none) "action_step_of a = Inr None"
  | (step) k where "action_step_of a = Inr (Some k)" "positive_offset k"
proof (cases "tb_action_step (at_binding a)")
  case None
  with that(2) show thesis by (simp add: action_step_of_def)
next
  case (Some p)
  show thesis
  proof (cases "resolve_payload_value a p")
    case (Inl e)
    with Some resolve_payload_Inl [OF Inl] that(1) show thesis by (simp add: action_step_of_def)
  next
    case (Inr v)
    with Some that(1,3) show thesis
      by (cases v; cases "\<exists>n. v = JInt n \<and> positive_offset n") (auto simp: action_step_of_def)
  qed
qed

lemma new_decision_valid:
  assumes "item_ok a" and "opt_all positive_offset ordinal" and "opt_all positive_offset step"
    and "case reason of Step_BOOTSTRAP \<Rightarrow> ordinal \<noteq> None \<and> ev_sequence (at_event a) = 1
      | Step_ACTION_STEP \<Rightarrow> ordinal \<noteq> None \<and> step \<noteq> None
      | Step_CURRENT_ACTION_STEP \<Rightarrow> ordinal = None \<and> step \<noteq> None
      | Step_NO_ACTION_STEP \<Rightarrow> ordinal = None \<and> step = None"
  shows "\<exists>d. new_decision a ordinal reason step = Inr d \<and> valid_fixed_step_decision d \<and>
    fd_event_id d = ev_event_id (at_event a) \<and> fd_event_sequence d = ev_sequence (at_event a) \<and>
    fd_invoke d = (ordinal \<noteq> None) \<and> fd_invocation_ordinal d = ordinal \<and> fd_reason d = reason \<and>
    fd_action_step_ordinal d = step"
  using assms unfolding new_decision_def valid_fixed_step_decision_def item_ok_def Let_def by (cases reason) auto

text \<open>What the loop has made of the items after the ones that gave \<open>prev\<close> and \<open>n\<close>.\<close>

definition scheduled :: "int option \<Rightarrow> int \<Rightarrow> attested_event list \<Rightarrow> fixed_step_decision list \<Rightarrow> int \<Rightarrow> bool" where
  "scheduled prev n items ds m \<longleftrightarrow>
     map fd_event_id ds = map (\<lambda>a. ev_event_id (at_event a)) items \<and>
     map fd_event_sequence ds = map (\<lambda>a. ev_sequence (at_event a)) items \<and>
     list_all valid_fixed_step_decision ds \<and> invocations ds = [n + 1..m] \<and> n \<le> m \<and> m \<le> n + int (length items) \<and>
     steps_advance prev ds \<and> map (\<lambda>d. Inr (fd_action_step_ordinal d)) ds = map action_step_of items \<and>
     (\<forall>i<length ds. fd_invoke (ds ! i) = starts_step prev (map fd_action_step_ordinal ds) i)"

lemma scheduled_Nil: "scheduled prev n [] [] n"
  by (simp add: scheduled_def invocations_def map_filter_simps)

lemma scheduled_Cons:
  assumes rest: "scheduled kept n' items ds m" and d: "valid_fixed_step_decision d"
    "fd_event_id d = ev_event_id (at_event a)" "fd_event_sequence d = ev_sequence (at_event a)"
    "action_step_of a = Inr (fd_action_step_ordinal d)"
    and ord: "fd_invocation_ordinal d = (if fd_invoke d then Some (n + 1) else None)" "n' = (if fd_invoke d then n + 1 else n)"
    and inv: "fd_invoke d = (\<exists>k. fd_action_step_ordinal d = Some k \<and> below prev k)"
    and nxt: "fd_action_step_ordinal d = None \<longrightarrow> kept = prev"
      "\<forall>k. fd_action_step_ordinal d = Some k \<longrightarrow> kept = Some k \<and> (\<forall>l. prev = Some l \<longrightarrow> l \<le> k)"
    and adv: "fd_reason d = Step_ACTION_STEP \<longrightarrow> fd_invoke d" "fd_reason d = Step_CURRENT_ACTION_STEP \<longrightarrow> prev = fd_action_step_ordinal d"
  shows "scheduled prev n (a # items) (d # ds) m"
proof -
  have "steps_advance prev (d # ds)"
  proof (cases "fd_action_step_ordinal d")
    case (Some k)
    with rest nxt(2) inv adv show ?thesis by (auto simp: scheduled_def below_def split: option.splits)
  qed (use rest nxt(1) in \<open>simp add: scheduled_def\<close>)
  moreover have "invocations (d # ds) = [n + 1..m] \<and> n \<le> m \<and> m \<le> n + int (length (a # items))"
    using rest ord upto_rec1 [of "n + 1" m] by (auto simp: scheduled_def invocations_def map_filter_simps)
  moreover have "\<forall>i<length (d # ds). fd_invoke ((d # ds) ! i) = starts_step prev (map fd_action_step_ordinal (d # ds)) i"
    using rest inv starts_step_Suc [OF nxt] by (simp add: scheduled_def All_less_Suc2 starts_step_0)
  ultimately show ?thesis using rest d by (simp add: scheduled_def)
qed

text \<open>One iteration: a refusal, or a decision after which the loop goes on.\<close>

lemma schedule_loop_step:
  assumes a: "item_ok a" and n: "positive_offset (n + 1)"
  obtains (refused) "schedule_loop prev n (a # items) \<in>
      {Inl (Trajectory_error Traj_INVALID_POINTER), Inl (Trajectory_error Traj_RETROGRADE_BINDING)}"
  | (decided) d kept n' where
      "schedule_loop prev n (a # items) = map_sum id (\<lambda>(ds, m). (d # ds, m)) (schedule_loop kept n' items)"
      "n' \<in> {n, n + 1}" "\<And>ds m. scheduled kept n' items ds m \<Longrightarrow> scheduled prev n (a # items) (d # ds) m"
proof (cases a rule: action_step_cases)
  case error
  with refused show thesis by simp
next
  case none
  obtain d where d: "new_decision a None Step_NO_ACTION_STEP None = Inr d" "valid_fixed_step_decision d"
    "fd_event_id d = ev_event_id (at_event a)" "fd_event_sequence d = ev_sequence (at_event a)" "\<not> fd_invoke d"
    "fd_invocation_ordinal d = None" "fd_reason d = Step_NO_ACTION_STEP" "fd_action_step_ordinal d = None"
    using new_decision_valid [OF a, of None None Step_NO_ACTION_STEP] by auto
  have "scheduled prev n (a # items) (d # ds) m" if "scheduled prev n items ds m" for ds m
    by (rule scheduled_Cons [OF that]) (use d none in simp_all)
  with decided [of d prev n] none d show thesis by simp
next
  case (step k)
  consider (retrograde) "case prev of None \<Rightarrow> False | Some l \<Rightarrow> k < l" | (same) "prev = Some k" | (new) "below prev k" "prev \<noteq> Some k"
    using linorder_less_linear [of k "the prev"] by (cases prev) (auto simp: below_def)
  then show thesis
  proof cases
    case retrograde
    with step refused show thesis by simp
  next
    case same
    obtain d where d: "new_decision a None Step_CURRENT_ACTION_STEP (Some k) = Inr d" "valid_fixed_step_decision d"
      "fd_event_id d = ev_event_id (at_event a)" "fd_event_sequence d = ev_sequence (at_event a)" "\<not> fd_invoke d"
      "fd_invocation_ordinal d = None" "fd_reason d = Step_CURRENT_ACTION_STEP" "fd_action_step_ordinal d = Some k"
      using new_decision_valid [OF a, of None "Some k" Step_CURRENT_ACTION_STEP] step(2) by auto
    have "scheduled prev n (a # items) (d # ds) m" if "scheduled prev n items ds m" for ds m
      by (rule scheduled_Cons [OF that]) (use d step same in \<open>simp_all add: below_def\<close>)
    with decided [of d prev n] step same d show thesis by simp
  next
    case new
    obtain d where d: "new_decision a (Some (n + 1)) Step_ACTION_STEP (Some k) = Inr d" "valid_fixed_step_decision d"
      "fd_event_id d = ev_event_id (at_event a)" "fd_event_sequence d = ev_sequence (at_event a)" "fd_invoke d"
      "fd_invocation_ordinal d = Some (n + 1)" "fd_reason d = Step_ACTION_STEP" "fd_action_step_ordinal d = Some k"
      using new_decision_valid [OF a, of "Some (n + 1)" "Some k" Step_ACTION_STEP] step(2) n by auto
    have "scheduled prev n (a # items) (d # ds) m" if "scheduled (Some k) (n + 1) items ds m" for ds m
      by (rule scheduled_Cons [OF that]) (use d step new in \<open>auto simp: below_def\<close>)
    moreover have "\<not> (case prev of None \<Rightarrow> False | Some l \<Rightarrow> k < l)"
      using new by (auto simp: below_def split: option.splits)
    ultimately show thesis using decided [of d "Some k" "n + 1"] step new d by simp
  qed
qed

lemma schedule_loop_cases:
  assumes "list_all item_ok items" and "0 \<le> n" and "n + int (length items) \<le> max_signed_64"
  shows "schedule_loop prev n items \<in> {Inl (Trajectory_error Traj_INVALID_POINTER), Inl (Trajectory_error Traj_RETROGRADE_BINDING)} \<or>
    (\<exists>ds m. schedule_loop prev n items = Inr (ds, m) \<and> scheduled prev n items ds m)"
  using assms
proof (induction items arbitrary: prev n)
  case Nil
  then show ?case by (simp add: scheduled_Nil)
next
  case (Cons a items)
  have a: "item_ok a" "positive_offset (n + 1)" using Cons.prems by (simp_all add: positive_offset_def)
  show ?case
  proof (rule schedule_loop_step [OF a, of prev items])
    fix d kept n'
    assume step: "schedule_loop prev n (a # items) = map_sum id (\<lambda>(ds, m). (d # ds, m)) (schedule_loop kept n' items)"
      and n': "n' \<in> {n, n + 1}" and cons: "\<And>ds m. scheduled kept n' items ds m \<Longrightarrow> scheduled prev n (a # items) (d # ds) m"
    have "list_all item_ok items" "0 \<le> n'" "n' + int (length items) \<le> max_signed_64" using Cons.prems n' by auto
    from Cons.IH [OF this, of kept] step cons show ?thesis by auto
  qed simp
qed

lemma valid_prefix_items:
  assumes "valid_attested_prefix env p"
  obtains a items where "ap_items p = a # items" "list_all item_ok (a # items)" "ev_sequence (at_event a) = 1"
    "int (length (a # items)) = ap_boundary p"
proof -
  note ok = assms [unfolded valid_attested_prefix_def]
  obtain a items where p: "ap_items p = a # items" using ok by (cases "ap_items p") auto
  have len: "int (length (a # items)) = ap_boundary p" "boundary_ok (ap_boundary p)" using ok p by auto
  have "map (\<lambda>a. ev_sequence (at_event a)) (a # items) = [1..ap_boundary p]" using ok p by auto
  then have seqs: "\<forall>x\<in>set (a # items). ev_sequence (at_event x) \<in> {1..ap_boundary p}" and one: "ev_sequence (at_event a) = 1"
    using len upto_rec1 [of 1 "ap_boundary p"] by (metis image_eqI list.set_map set_upto, simp add: boundary_ok_def)
  have "list_all (valid_attested_event env) (a # items)" using ok p by auto
  then have "list_all item_ok (a # items)"
    using seqs len(2) unfolding list_all_iff
    by (fastforce simp: item_ok_def valid_attested_event_def valid_trace_event_def positive_offset_def boundary_ok_def
        max_trajectory_events_def max_signed_64_def)
  with p one len(1) that show thesis by blast
qed

lemma schedule_of_valid:
  assumes p: "valid_attested_prefix env p" and hex: "hex_digest (en_hash env)" and items: "ap_items p = a # items"
    and step: "action_step_of a = Inr step" and d: "valid_fixed_step_decision d"
    "fd_event_id d = ev_event_id (at_event a)" "fd_event_sequence d = 1" "fd_invoke d"
    "fd_invocation_ordinal d = Some 1" "fd_reason d = Step_BOOTSTRAP" "fd_action_step_ordinal d = step"
    and rest: "scheduled step 1 items ds m" and distinct: "distinct (map (\<lambda>a. ev_event_id (at_event a)) (a # items))"
  shows "valid_fixed_step_schedule env (schedule_of env p (d # ds) m)"
proof -
  let ?s = "schedule_of env p (d # ds) m"
  note ok = p [unfolded valid_attested_prefix_def]
  have p_ok: "uuid4 (ap_run_id p)" "boundary_ok (ap_boundary p)" "sha256_digest (ap_prefix_digest p)"
    "int (length (ap_items p)) = ap_boundary p" "map (\<lambda>a. ev_sequence (at_event a)) (ap_items p) = [1..ap_boundary p]"
    using ok by blast+
  have sel: "fs_run_id ?s = ap_run_id p" "fs_boundary ?s = ap_boundary p" "fs_decisions ?s = d # ds"
    "fs_trajectory_prefix_digest ?s = ap_prefix_digest p" "fs_invocation_count ?s = m"
    "fs_schedule_digest ?s = schedule_digest env ?s"
    by (simp_all add: schedule_of_def schedule_digest_def Let_def)
  have ds: "map fd_event_id ds = map (\<lambda>a. ev_event_id (at_event a)) items"
    "map fd_event_sequence ds = map (\<lambda>a. ev_sequence (at_event a)) items" "list_all valid_fixed_step_decision ds"
    "invocations ds = [2..m]" "1 \<le> m" "m \<le> 1 + int (length items)" "steps_advance step ds"
    using rest by (simp_all add: scheduled_def)
  have len: "length ds = length items" using ds(1) by (rule map_eq_imp_length_eq)
  have inv: "invocations (d # ds) = [1..m]"
    using d(5) ds(4,5) upto_rec1 [of 1 m] by (simp add: invocations_def map_filter_simps)
  have "sha256_digest (schedule_digest env ?s)"
    using hex by (simp add: schedule_digest_def trajectory_digest_def length_prefixed_sha256_def hex_digest_def)
  moreover have "steps_advance None (d # ds)"
    using ds(7) d(6,7) by (cases step) simp_all
  moreover have "map fd_event_sequence (d # ds) = [1..int (length (d # ds))]"
    using p_ok(4,5) items d(3) ds(2) len upto_rec1 [of 1 "ap_boundary p"] by (simp split: if_splits)
  moreover have "boundary_ok m" "int (length (d # ds)) = ap_boundary p"
    using p_ok(2,4) items ds(5,6) len by (simp_all add: boundary_ok_def)
  moreover have "distinct (map fd_event_id (d # ds))" using distinct ds(1) d(2) by simp
  ultimately show ?thesis
    unfolding valid_fixed_step_schedule_def sel using p_ok(1-3) d(1,6) ds(3,5) inv
    by (simp add: boundary_ok_def)
qed

lemma project_schedule_cases:
  assumes p: "valid_attested_prefix env p" and hex: "hex_digest (en_hash env)"
    and distinct: "distinct (map (\<lambda>a. ev_event_id (at_event a)) (ap_items p))"
  shows "project_verified_schedule env p \<in>
      {Inl (Trajectory_error Traj_INVALID_POINTER), Inl (Trajectory_error Traj_RETROGRADE_BINDING)} \<or>
    (\<exists>s. project_verified_schedule env p = Inr s \<and> valid_fixed_step_schedule env s \<and>
       length (fs_decisions s) = length (ap_items p) \<and> fs_trajectory_prefix_digest s = ap_prefix_digest p \<and>
       map (\<lambda>d. Inr (fd_action_step_ordinal d)) (fs_decisions s) = map action_step_of (ap_items p) \<and>
       (\<forall>i<length (fs_decisions s). fd_invoke (fs_decisions s ! i) =
          (i = 0 \<or> starts_step None (map fd_action_step_ordinal (fs_decisions s)) i)))"
proof -
  note ok = p [unfolded valid_attested_prefix_def]
  obtain a items where items: "ap_items p = a # items" and all: "list_all item_ok (a # items)"
    and one: "ev_sequence (at_event a) = 1" and len: "int (length (a # items)) = ap_boundary p"
    by (rule valid_prefix_items [OF p])
  have bound: "ap_boundary p \<le> max_trajectory_events" using ok by (simp add: boundary_ok_def)
  have a: "item_ok a" using all by simp
  have start: "\<exists>d. new_decision a (Some 1) Step_BOOTSTRAP step = Inr d \<and> valid_fixed_step_decision d \<and>
      fd_event_id d = ev_event_id (at_event a) \<and> fd_event_sequence d = 1 \<and> fd_invoke d \<and>
      fd_invocation_ordinal d = Some 1 \<and> fd_reason d = Step_BOOTSTRAP \<and> fd_action_step_ordinal d = step"
    if "action_step_of a = Inr step" for step
  proof -
    have "opt_all positive_offset step"
      using that by (cases a rule: action_step_cases) auto
    then show ?thesis
      using new_decision_valid [OF a, of "Some 1" step Step_BOOTSTRAP] one
      by (simp add: positive_offset_def max_signed_64_def)
  qed
  show ?thesis
  proof (cases "action_step_of a")
    case (Inl e)
    with items show ?thesis by (cases a rule: action_step_cases) (auto simp: project_verified_schedule_def)
  next
    case (Inr step)
    obtain d where d: "new_decision a (Some 1) Step_BOOTSTRAP step = Inr d" "valid_fixed_step_decision d"
      "fd_event_id d = ev_event_id (at_event a)" "fd_event_sequence d = 1" "fd_invoke d"
      "fd_invocation_ordinal d = Some 1" "fd_reason d = Step_BOOTSTRAP" "fd_action_step_ordinal d = step"
      using start [OF Inr] by blast
    have rest_ok: "list_all item_ok items" "1 + int (length items) \<le> max_signed_64"
      using all len bound by (simp_all add: max_trajectory_events_def max_signed_64_def)
    from schedule_loop_cases [OF rest_ok(1) zero_le_one rest_ok(2), of step] show ?thesis
    proof (elim disjE exE conjE)
      fix ds m
      assume loop: "schedule_loop step 1 items = Inr (ds, m)" and rest: "scheduled step 1 items ds m"
      have s: "valid_fixed_step_schedule env (schedule_of env p (d # ds) m)"
        by (rule schedule_of_valid [OF p hex items Inr d(2-8) rest distinct [unfolded items]])
      have inv: "fd_invoke ((d # ds) ! i) = (i = 0 \<or> starts_step None (map fd_action_step_ordinal (d # ds)) i)"
        if "i < length (d # ds)" for i
        using that rest d(5,8) starts_step_Suc [of step step None] by (cases i) (auto simp: scheduled_def)
      have "fs_decisions (schedule_of env p (d # ds) m) = d # ds"
        "fs_trajectory_prefix_digest (schedule_of env p (d # ds) m) = ap_prefix_digest p"
        by (simp_all add: schedule_of_def Let_def)
      moreover have "length (d # ds) = length (ap_items p)"
        using rest items by (auto simp: scheduled_def dest: map_eq_imp_length_eq)
      moreover have "map (\<lambda>d. Inr (fd_action_step_ordinal d)) (d # ds) = map action_step_of (ap_items p)"
        using rest items d(8) Inr by (simp add: scheduled_def)
      ultimately show ?thesis
        using s inv items Inr d(1) loop by (simp add: project_verified_schedule_def Let_def)
    qed (use items Inr d(1) in \<open>auto simp: project_verified_schedule_def\<close>)
  qed
qed

lemma verified_prefix_distinct:
  assumes "verify_attested_trajectory_prefix env v p = Inr p'"
  shows "distinct (map (\<lambda>a. ev_event_id (at_event a)) (ap_items p))"
proof -
  have "valid_prefix_request env (prefix_request_of p)" "valid_attested_prefix env p"
    using assms by (auto simp: verify_attested_trajectory_prefix_def split: if_splits)
  then have ids: "distinct (map tb_event_id (map at_binding (ap_items p)))" and "list_all (valid_attested_event env) (ap_items p)"
    unfolding valid_prefix_request_def valid_attested_prefix_def prefix_request_of_def prefix_request.select_convs by blast+
  then have same: "map tb_event_id (map at_binding (ap_items p)) = map (\<lambda>a. ev_event_id (at_event a)) (ap_items p)"
    by (auto simp: list_all_iff valid_attested_event_def)
  from ids show ?thesis by (simp only: same)
qed

section \<open>The message window\<close>

definition latest :: "nat \<Rightarrow> 'a list \<Rightarrow> 'a list" where
  "latest n xs = drop (length xs - n) xs"

lemma latest_Nil [simp]: "latest n [] = []"
  by (simp add: latest_def)

lemma deque_append_latest:
  assumes "0 < n"
  shows "deque_append n x (latest n xs) = latest n (xs @ [x])"
proof (cases "length xs < n")
  case False
  then have "tl (drop (length xs - n) (xs @ [x])) = drop (Suc (length xs) - n) (xs @ [x])"
    by (simp add: tl_drop drop_Suc [symmetric] Suc_diff_le del: drop_append)
  with False assms show ?thesis by (simp add: deque_append_def latest_def)
qed (simp add: deque_append_def latest_def)

lemma deque_fold:
  "0 < n \<Longrightarrow> fold_result (\<lambda>b kept. map_sum id (\<lambda>m. deque_append n m kept) (f b)) bs (latest n ms) =
     map_sum id (\<lambda>new. latest n (ms @ new)) (map_result f bs)"
proof (induction bs arbitrary: ms)
  case (Cons b bs)
  show ?case
  proof (cases "f b")
    case (Inr m)
    with Cons.IH [of "ms @ [m]"] Cons.prems show ?thesis
      by (cases "map_result f bs") (simp_all add: deque_append_latest)
  qed simp
qed simp

lemma latest_messages_latest:
  "latest_messages p = map_sum id (latest max_window_items) (map_result select_message (message_bindings p))"
  using deque_fold [of max_window_items select_message "message_bindings p" "[]"]
  by (simp add: latest_messages_def max_window_items_def)

lemma json_pointer_bounded:
  "valid_selector sel \<Longrightarrow> json_pointer (sel_field_path sel) \<and> opt_all valid_text_span (sel_span sel)"
  by (simp add: valid_selector_def)

lemma source_of_Inr:
  assumes "valid_attested_event env a" and "valid_selector sel"
  shows "\<exists>s. source_of a sel = Inr s \<and> valid_text_source s"
  using assms
  by (auto simp: source_of_def Let_def valid_text_source_def event_evidence_def valid_evidence_reference_def
      valid_attested_event_def valid_binding_def valid_trace_event_def valid_selector_def)

lemma selected_text_Inl:
  assumes "selected_text a sel = Inl e"
  shows "e \<in> {Trajectory_error Traj_INVALID_POINTER, Trajectory_error Traj_INVALID_SPAN}"
proof (cases "resolve_payload_value a (sel_field_path sel)")
  case (Inl f)
  with assms resolve_payload_Inl [OF Inl] show ?thesis by (simp add: selected_text_def)
next
  case (Inr v)
  with assms show ?thesis
    by (cases v) (auto simp: selected_text_def Let_def split: if_splits option.splits)
qed

lemma selected_text_nonempty:
  assumes "selected_text a sel = Inr t" and "opt_all valid_text_span (sel_span sel)"
  shows "t \<noteq> []"
proof -
  obtain v where "resolve_payload_value a (sel_field_path sel) = Inr v" using assms(1) by (auto simp: selected_text_def bind_result_Inr)
  with assms show ?thesis
    by (cases v) (auto simp: selected_text_def Let_def valid_text_span_def split: if_splits option.splits)
qed

lemma map_result_Inl: "map_result f xs = Inl e \<Longrightarrow> \<exists>x\<in>set xs. f x = Inl e"
  by (induction xs) (auto simp: bind_result_Inl)

text \<open>A message and the source it was read from.\<close>

definition message_ok :: "window_message \<times> text_source \<Rightarrow> bool" where
  "message_ok x \<longleftrightarrow> valid_window_message (fst x) \<and> valid_text_source (snd x) \<and>
     wm_evidence (fst x) = xs_evidence (snd x) \<and> wm_trust_label (fst x) = xs_trust_label (snd x)"

lemma select_message_cases:
  assumes "valid_attested_event env a" and "valid_selector (lm_selector b)"
  shows "select_message (a, b) \<in> {Inl (Trajectory_error Traj_INVALID_POINTER), Inl (Trajectory_error Traj_INVALID_SPAN)} \<or>
    (\<exists>x. select_message (a, b) = Inr x \<and> message_ok x)"
proof (cases "selected_text a (lm_selector b)")
  case (Inl e)
  with selected_text_Inl [OF Inl] show ?thesis by (auto simp: select_message_def)
next
  case (Inr t)
  obtain s where s: "source_of a (lm_selector b) = Inr s" "valid_text_source s" using source_of_Inr [OF assms] by blast
  have "t \<noteq> []" by (rule selected_text_nonempty [OF Inr]) (use json_pointer_bounded [OF assms(2)] in simp)
  moreover have "event_evidence (xs_evidence s)" using s(2) by (simp add: valid_text_source_def)
  ultimately show ?thesis
    using Inr s by (simp add: select_message_def Let_def valid_window_message_def message_ok_def)
qed

lemma latest_subset: "set (latest n xs) \<subseteq> set xs"
  by (simp add: latest_def set_drop_subset)

lemma latest_length: "length (latest n xs) \<le> n"
  by (simp add: latest_def)

lemma latest_messages_cases:
  assumes "valid_attested_prefix env p"
  shows "latest_messages p \<in> {Inl (Trajectory_error Traj_INVALID_POINTER), Inl (Trajectory_error Traj_INVALID_SPAN)} \<or>
    (\<exists>ms. map_result select_message (message_bindings p) = Inr ms \<and> latest_messages p = Inr (latest max_window_items ms) \<and>
       list_all message_ok (latest max_window_items ms))"
proof -
  have valid: "valid_attested_event env a \<and> valid_selector (lm_selector b)" if "(a, b) \<in> set (message_bindings p)" for a b
    using that assms
    by (auto simp: message_bindings_def valid_attested_prefix_def list_all_iff valid_attested_event_def valid_binding_def)
  show ?thesis
  proof (cases "map_result select_message (message_bindings p)")
    case (Inl e)
    from map_result_Inl [OF this] obtain a b where "(a, b) \<in> set (message_bindings p)" "select_message (a, b) = Inl e" by auto
    with valid select_message_cases [of env a b] have "e = Trajectory_error Traj_INVALID_POINTER \<or> e = Trajectory_error Traj_INVALID_SPAN"
      by fastforce
    with Inl show ?thesis by (auto simp: latest_messages_latest)
  next
    case (Inr ms)
    have "message_ok x" if "x \<in> set ms" for x
    proof -
      from that Inr obtain i where "i < length (message_bindings p)" "select_message (message_bindings p ! i) = Inr x"
        by (auto simp: map_result_nth in_set_conv_nth)
      with valid [of "fst (message_bindings p ! i)" "snd (message_bindings p ! i)"] show ?thesis
        using select_message_cases [of env "fst (message_bindings p ! i)" "snd (message_bindings p ! i)"] by auto
    qed
    with latest_subset [of max_window_items ms] Inr show ?thesis
      by (auto simp: latest_messages_latest list_all_iff)
  qed
qed

lemma describe_task_cases:
  assumes p: "valid_attested_prefix env p" and task: "tb_task_description (at_binding (hd (ap_items p))) = Some sel"
  shows "describe_task env p \<in> {Inl (Trajectory_error Traj_INVALID_POINTER), Inl (Trajectory_error Traj_INVALID_SPAN),
      Inl (Trajectory_error Traj_LIMIT_EXCEEDED)} \<or>
    (\<exists>t. describe_task env p = Inr t \<and> valid_task_description env t \<and> selected_text (hd (ap_items p)) sel = Inr (td_content t))"
proof -
  obtain a items where items: "ap_items p = a # items" using p by (cases "ap_items p") (auto simp: valid_attested_prefix_def)
  then have a: "valid_attested_event env a" using p by (simp add: valid_attested_prefix_def)
  have sel: "tb_task_description (at_binding a) = Some sel" using task items by simp
  show ?thesis
  proof (cases "selected_text a sel")
    case (Inl e)
    with selected_text_Inl [OF Inl] items sel show ?thesis by (auto simp: describe_task_def)
  next
    case (Inr content)
    have "valid_selector sel" using a sel by (simp add: valid_attested_event_def valid_binding_def)
    then obtain s where "source_of a sel = Inr s" using source_of_Inr [OF a] by blast
    with Inr items sel show ?thesis by (auto simp: describe_task_def Let_def)
  qed
qed

lemma window_of_valid:
  assumes p: "valid_attested_prefix env p" and hex: "hex_digest (en_hash env)" and task: "valid_task_description env task"
    and kept: "list_all message_ok kept" "length kept \<le> max_window_items" "payload_size env (map fst kept) \<le> max_window_bytes"
  shows "valid_message_window env (window_of env p task kept)"
proof -
  let ?w = "window_of env p task kept"
  let ?b = "last (ap_items p)"
  note ok = p [unfolded valid_attested_prefix_def]
  have sel: "mw_run_id ?w = ap_run_id p" "mw_boundary_event_id ?w = ev_event_id (at_event ?b)"
    "mw_boundary_event_sequence ?w = ev_sequence (at_event ?b)" "mw_boundary_ledger_position ?w = tb_ledger_position (at_binding ?b)"
    "mw_boundary_chain_tag ?w = tb_chain_tag (at_binding ?b)" "mw_trajectory_prefix_digest ?w = ap_prefix_digest p"
    "mw_task_description ?w = task" "mw_payload ?w = map fst kept" "mw_payload_bytes ?w = payload_size env (map fst kept)"
    "mw_source_attestations ?w = map snd kept" "mw_window_digest ?w = window_digest env ?w"
    by (simp_all add: window_of_def window_digest_def Let_def)
  have p_ok: "uuid4 (ap_run_id p)" "sha256_digest (ap_prefix_digest p)" "ap_items p \<noteq> []" "list_all (valid_attested_event env) (ap_items p)"
    using ok by blast+
  have "?b \<in> set (ap_items p)" using p_ok(3) by simp
  then have b: "valid_attested_event env ?b" using p_ok(4) unfolding list_all_iff by blast
  have b_ok: "uuid4 (ev_event_id (at_event ?b))" "positive_offset (ev_sequence (at_event ?b))"
    "positive_offset (tb_ledger_position (at_binding ?b))" "valid_payload_digest (tb_chain_tag (at_binding ?b))"
    using b unfolding valid_attested_event_def valid_binding_def valid_trace_event_def by metis+
  have "sha256_digest (window_digest env ?w)"
    using hex by (simp add: window_digest_def trajectory_digest_def length_prefixed_sha256_def hex_digest_def)
  moreover have "0 \<le> payload_size env (map fst kept)" by (simp add: payload_size_def)
  moreover have "list_all valid_window_message (map fst kept)" "list_all valid_text_source (map snd kept)"
    "list_all (\<lambda>(m, s). wm_evidence m = xs_evidence s \<and> wm_trust_label m = xs_trust_label s) (zip (map fst kept) (map snd kept))"
    using kept(1) by (auto simp: list_all_iff message_ok_def zip_map_fst_snd)
  ultimately show ?thesis
    unfolding valid_message_window_def sel using p_ok(1,2) b_ok task kept(2,3) by simp
qed

lemma project_window_cases:
  assumes p: "valid_attested_prefix env p" and hex: "hex_digest (en_hash env)"
    and task: "tb_task_description (at_binding (hd (ap_items p))) = Some sel"
  shows "project_verified_window env p \<in> {Inl (Trajectory_error Traj_INVALID_POINTER), Inl (Trajectory_error Traj_INVALID_SPAN),
      Inl (Trajectory_error Traj_LIMIT_EXCEEDED)} \<or>
    (\<exists>w ms. project_verified_window env p = Inr w \<and> valid_message_window env w \<and>
       selected_text (hd (ap_items p)) sel = Inr (td_content (mw_task_description w)) \<and>
       map_result select_message (message_bindings p) = Inr ms \<and>
       zip (mw_payload w) (mw_source_attestations w) = latest max_window_items ms \<and>
       payload_size env (mw_payload w) \<le> max_window_bytes)"
proof -
  from describe_task_cases [OF p task] show ?thesis
  proof (elim disjE exE conjE)
    fix t
    assume t: "describe_task env p = Inr t" "valid_task_description env t" "selected_text (hd (ap_items p)) sel = Inr (td_content t)"
    from latest_messages_cases [OF p] show ?thesis
    proof (elim disjE exE conjE)
      fix ms :: "(window_message \<times> text_source) list"
      let ?kept = "latest max_window_items ms"
      assume ms: "map_result select_message (message_bindings p) = Inr ms" "latest_messages p = Inr ?kept" "list_all message_ok ?kept"
      show ?thesis
      proof (cases "payload_size env (map fst ?kept) > max_window_bytes")
        case False
        then have "valid_message_window env (window_of env p t ?kept)"
          by (intro window_of_valid [OF p hex t(2) ms(3) latest_length]) simp
        moreover have "mw_payload (window_of env p t ?kept) = map fst ?kept" "mw_task_description (window_of env p t ?kept) = t"
          "mw_source_attestations (window_of env p t ?kept) = map snd ?kept"
          by (simp_all add: window_of_def Let_def)
        ultimately show ?thesis using t ms False by (simp add: project_verified_window_def Let_def zip_map_fst_snd)
      qed (use t ms in \<open>simp add: project_verified_window_def\<close>)
    qed (use t in \<open>auto simp: project_verified_window_def\<close>)
  qed (auto simp: project_verified_window_def)
qed

lemma verified_prefix_task:
  assumes "verify_attested_trajectory_prefix env v p = Inr p'"
  shows "\<exists>sel. tb_task_description (at_binding (hd (ap_items p))) = Some sel"
proof -
  have q: "valid_prefix_request env (prefix_request_of p)" and "valid_attested_prefix env p"
    using assms by (auto simp: verify_attested_trajectory_prefix_def split: if_splits)
  then obtain a items where items: "ap_items p = a # items" by (cases "ap_items p") (auto simp: valid_attested_prefix_def)
  have seqs: "map tb_event_sequence (map at_binding (ap_items p)) = [1..ap_boundary p]" "boundary_ok (ap_boundary p)"
    and tasks: "task_sources (map at_binding (ap_items p)) = [1]"
    using q unfolding valid_prefix_request_def prefix_request_of_def prefix_request.select_convs by blast+
  have "tb_event_sequence (at_binding x) \<noteq> 1" if "x \<in> set items" for x
  proof -
    have "map tb_event_sequence (map at_binding items) = [2..ap_boundary p]"
      using seqs items upto_rec1 [of 1 "ap_boundary p"] by (simp add: boundary_ok_def)
    then have "tb_event_sequence (at_binding x) \<in> {2..ap_boundary p}" using that by (metis image_eqI list.set_map set_upto)
    then show ?thesis by simp
  qed
  then have "1 \<notin> set (task_sources (map at_binding items))" by (auto simp: task_sources_def)
  with tasks items show ?thesis by (cases "tb_task_description (at_binding a)") (auto simp: task_sources_def)
qed

end
