(* ===== verification/Trajectory_Sample.thy ===== *)
theory Trajectory_Sample
  imports Trajectory_Facts Sample_Repository
begin

text \<open>
  A concrete attested trajectory for the witnesses: a repository restored from one stored event, the
  start of a run whose payload carries the step number, the task and one message, and the prefix that
  binds it.
\<close>

definition start_event :: trace_event where
  "start_event = sample_event\<lparr>ev_event_type := Event_RUN_START,
     ev_payload := JObj [(''step'', JInt 1), (''task'', JStr ''a''), (''text'', JStr ''b'')]\<rparr>"

lemma start_event_sel [simp]:
  "ev_event_id start_event = sample_uuid 2" "ev_run_id start_event = sample_uuid 1" "ev_sequence start_event = 1"
  "ev_event_type start_event = Event_RUN_START" "ev_source_event_id start_event = ''e1''" "ev_parent_ids start_event = []"
  by (simp_all add: start_event_def sample_event_def)

lemma start_event_valid [simp]: "valid_trace_event start_event"
proof -
  have "trace_event_payload_is_bounded (JObj [(''step'', JInt 1), (''task'', JStr ''a''), (''text'', JStr ''b'')])" by code_simp
  then show ?thesis
    using sample_event_valid by (simp add: valid_trace_event_def start_event_def is_object_def)
qed

definition start_projection :: projection where
  "start_projection = (empty_projection (sample_uuid 1))\<lparr>pr_events_by_id := [(sample_uuid 2, start_event)],
     pr_events_by_sequence := [(1, start_event)], pr_events_by_source := [(''e1'', start_event)],
     pr_event_positions := [(sample_uuid 2, 1)], pr_ingestion_cursor := 1\<rparr>"

definition start_entries :: "ledger_entry list" where
  "start_entries = [stored_entry 1 (Rec_event start_event)]"

definition start_head :: ledger_head where
  "start_head = sample_head\<lparr>lh_entry_count := 1\<rparr>"

lemma start_head_sel [simp]:
  "lh_run_id start_head = sample_uuid 1" "lh_entry_count start_head = 1" "lh_chain_tag start_head = zero_tag"
  "lh_projection_tag start_head = zero_tag" "lh_head_tag start_head = zero_tag"
  by (simp_all add: start_head_def)

lemma start_head_valid: "valid_ledger_head start_head" "verify_head_tag sample_env start_head = Inr True"
  by (simp_all add: valid_ledger_head_def verify_head_tag_def head_value_def)

lemma start_step: "apply_entry zero_hash ratio_text (empty_projection (sample_uuid 1)) (sample_entry 1 (Rec_event start_event)) =
    Inr start_projection"
  by (simp add: apply_entry_def apply_event_def sample_entry_def checks_pass empty_projection_def start_projection_def
      has_key_iff dict_set_def)

lemma start_replay_run: "\<exists>r. replay_run sample_env start_entries start_head = Inr r \<and> ry_ledger r = start_entries \<and>
    ry_head r = start_head"
proof -
  let ?st = "sample_state start_projection 2 [] []"
  have "replay_entry sample_env (stored_entry 1 (Rec_event start_event)) (start_replay (sample_uuid 1)) = Inr ?st"
    using verify_stored [of 1 "Rec_event start_event"] start_step
    by (simp add: replay_entry_def start_replay_def apply_stored checkpoint_stored add_seed_def add_direct_def
        direct_from_entry_def add_delivery_def sample_state_def)
  then have run: "fold_result (replay_owned sample_env (sample_uuid 1)) start_entries (start_replay (sample_uuid 1)) = Inr ?st"
    by (simp add: start_entries_def replay_owned_def)
  have fields: "pr_events_by_id start_projection = [(sample_uuid 2, start_event)]" "pr_budget_limits start_projection = None"
    "pr_cycles start_projection = []" "pr_cycle_history start_projection = []" "pr_deliveries start_projection = []"
    "pr_interventions start_projection = []" "pr_events_by_source start_projection = [(''e1'', start_event)]"
    "pr_events_by_sequence start_projection = [(1, start_event)]" "pr_current_private_status_id start_projection = None" "pr_delivery_history start_projection = []"
    by (simp_all add: start_projection_def empty_projection_def)
  have budgets: "\<exists>b. budgets_component sample_env start_projection = Inr b \<and> json_finite b"
    by (simp add: budgets_component_def fields sorted_cycles_def dict_values_def)
  have c: "json_finite (events_component sample_env start_projection)" "json_finite (memory_component sample_env start_projection)"
    "json_finite (cycles_component sample_env start_projection)" "json_finite (deliveries_component sample_env start_projection)"
    by (simp_all add: events_component_def memory_component_def cycles_component_def deliveries_component_def
        list_all_iff Let_def fields)
  have digests: "\<exists>d. projection_digests_of sample_env start_projection 1 = Inr d"
    using budgets c by (auto simp: projection_digests_of_def digest_components_def)
  have complete: "validate_complete_projection start_projection = Inr ()"
    by (simp add: validate_complete_projection_def dict_values_def fields checks_pass)
  have collisions: "collision_receipts start_projection = Inr []"
  proof -
    have "take 23 (ev_source_event_id start_event) \<noteq> ''saliencegate:collision:''" by simp
    then show ?thesis by (simp add: collision_receipts_def collision_receipt_step_def dict_values_def fields)
  qed
  have attached: "attach_deliveries sample_env [] start_projection = Inr []"
    by (simp add: attach_deliveries_def Let_def)
  have entries: "list_all (\<lambda>e. valid_ledger_entry e \<and> valid_ledger_record zero_hash (le_record e)) start_entries"
  proof -
    have "1 \<le> code_points (record_key (Rec_event start_event)) \<and> code_points (record_key (Rec_event start_event)) \<le> 200"
      using sample_keys by (simp add: sample_records_def)
    then have "valid_ledger_entry (stored_entry 1 (Rec_event start_event))" by (rule stored_entry_valid) simp_all
    then show ?thesis by (simp add: start_entries_def valid_ledger_record_def)
  qed
  obtain d where d: "projection_digests_of sample_env start_projection 1 = Inr d" using digests by blast
  have finish: "finish_replay sample_env start_entries start_head ?st =
      Inr \<lparr>ry_ledger = start_entries, ry_head = start_head, ry_projection = start_projection, ry_digests = d,
        ry_direct_records = [], ry_cycle_records = [], ry_delivery_records = [], ry_collision_receipts = []\<rparr>"
    unfolding finish_replay_def Let_def sample_state_sel complete attached collisions bind_result_simps start_head_sel
    using d by (simp add: start_entries_def)
  have last: "le_chain_tag (last start_entries) = zero_tag" "le_run_id (last start_entries) = sample_uuid 1"
    "length start_entries = 1" "start_entries \<noteq> []"
    by (simp_all add: start_entries_def)
  show ?thesis
    using run finish entries start_head_valid last by (simp add: replay_run_def Let_def)
qed

definition start_vault :: vault where
  "start_vault = run_operations sample_env [Op_restore start_entries start_head] empty_vault"

lemma start_reads: "read_ledger sample_env start_vault (sample_uuid 1) = Inr start_entries"
proof -
  obtain r where r: "replay_run sample_env start_entries start_head = Inr r" "ry_ledger r = start_entries" "ry_head r = start_head"
    using start_replay_run by blast
  have fresh: "\<not> has_key (va_slots empty_vault) (sample_uuid 1)" "\<not> has_key (va_trusted_heads empty_vault) (sample_uuid 1)"
    by (simp_all add: empty_vault_def has_key_def)
  have "start_vault = snd (restore_run sample_env empty_vault start_entries start_head)"
    by (simp add: start_vault_def run_operations_def split: prod.splits)
  then have v: "start_vault = publish (sample_uuid 1) start_head (ry_projection r) (store_slot (installed_slot r) empty_vault)"
    using r fresh by (simp add: restore_run_def Let_def)
  have stored: "dict_get (va_slots start_vault) (sample_uuid 1) = Some (installed_slot r)"
    unfolding v using r by (simp add: installed_slot_def publish_def store_slot_def)
  have "vault_ok sample_env start_vault" unfolding start_vault_def by (rule run_operations_ok)
  from find_stored [OF this stored] show ?thesis
    using r by (simp add: read_ledger_def validate_run_id_def installed_slot_def)
qed

section \<open>Its prefix\<close>

definition start_task :: event_text_selector where
  "start_task = \<lparr>sel_field_path = ''/payload/task'', sel_span = None\<rparr>"

definition start_messages :: "logical_message list" where
  "start_messages = [\<lparr>lm_role = Role_USER, lm_selector = \<lparr>sel_field_path = ''/payload/text'', sel_span = None\<rparr>\<rparr>]"

definition start_binding :: trajectory_binding where
  "start_binding = new_binding sample_env (stored_entry 1 (Rec_event start_event)) start_event (Some start_task)
     start_messages (Some ''/payload/step'')"

definition start_request :: prefix_request where
  "start_request = \<lparr>pq_run_id = sample_uuid 1, pq_boundary = 1, pq_bindings = [start_binding],
     pq_request_digest = request_digest sample_env (sample_uuid 1) 1 [start_binding]\<rparr>"

definition start_prefix :: attested_prefix where
  "start_prefix = new_prefix sample_env start_request [\<lparr>at_event = start_event, at_binding = start_binding\<rparr>]"

lemma start_binding_sel [simp]:
  "tb_run_id start_binding = sample_uuid 1" "tb_event_id start_binding = sample_uuid 2" "tb_event_sequence start_binding = 1"
  "tb_ledger_position start_binding = 1" "tb_payload_digest start_binding = ev_payload_digest sample_event"
  "tb_record_tag start_binding = zero_tag" "tb_chain_tag start_binding = zero_tag"
  "tb_task_description start_binding = Some start_task" "tb_logical_messages start_binding = start_messages"
  "tb_action_step start_binding = Some ''/payload/step''"
  by (simp_all add: start_binding_def) (simp add: start_event_def)

lemma start_binding_digest: "tb_binding_digest start_binding = zero_hash []" "binding_digest sample_env start_binding = zero_hash []"
  by (simp_all add: start_binding_def new_binding_def Let_def binding_digest_def trajectory_digest_def zero_hash_length_prefixed)

lemma start_binding_valid: "valid_binding sample_env start_binding"
proof -
  have paths: "json_pointer ''/payload/task'' \<and> payload_pointer_bounded ''/payload/task''"
    "json_pointer ''/payload/text'' \<and> payload_pointer_bounded ''/payload/text''"
    "json_pointer ''/payload/step'' \<and> payload_pointer_bounded ''/payload/step''"
    by code_simp+
  have digest: "valid_payload_digest (ev_payload_digest sample_event)" "pd_algorithm (ev_payload_digest sample_event) = pd_algorithm zero_tag"
    using sample_event_valid by (simp_all add: valid_trace_event_def) (simp add: sample_event_def zero_tag_def)
  show ?thesis
    unfolding valid_binding_def start_binding_sel start_binding_digest
    using paths digest
    by (simp add: positive_offset_def max_signed_64_def start_task_def start_messages_def valid_selector_def
        max_logical_messages_def reserved_paths_def)
qed

lemma start_request_valid: "valid_prefix_request sample_env start_request"
  by (simp add: valid_prefix_request_def start_request_def start_binding_valid boundary_ok_def max_trajectory_events_def
      task_sources_def strictly_increasing_def request_digest_def trajectory_digest_def zero_hash_length_prefixed)

lemma start_found: "event_entries 1 start_entries = [(stored_entry 1 (Rec_event start_event), start_event)]"
  by (simp add: event_entries_def start_entries_def map_filter_simps)

lemma start_exact: "list_all (exact_entry sample_env) start_entries"
  using run_entries_exact [of sample_env "[Op_restore start_entries start_head]" "sample_uuid 1"] start_reads
  by (simp add: start_vault_def)

lemma start_bound: "bind_persisted_trajectory_event sample_env (stored_entry 1 (Rec_event start_event)) (Some start_task)
    start_messages (Some ''/payload/step'') = Inr start_binding"
  using start_exact start_binding_valid
  by (simp add: bind_persisted_trajectory_event_def start_binding_def start_entries_def)

lemma start_request_sel [simp]: "pq_run_id start_request = sample_uuid 1" "pq_boundary start_request = 1"
  "pq_bindings start_request = [start_binding]"
  by (simp_all add: start_request_def)

lemma start_bindings: "list_all2 (\<lambda>(entry, e) b. \<exists>t ms st. bind_persisted_trajectory_event sample_env entry t ms st = Inr b)
    (event_entries (pq_boundary start_request) start_entries) (pq_bindings start_request)"
  using start_bound by (auto simp: start_found)

lemma start_reads_request: "read_ledger sample_env start_vault (pq_run_id start_request) = Inr start_entries"
  using start_reads by simp

lemma start_prefix_verified: "verify_attested_trajectory_prefix sample_env start_vault start_prefix = Inr start_prefix"
proof -
  obtain p where p: "resolve_trajectory_prefix sample_env start_vault start_request = Inr p"
    "verify_attested_trajectory_prefix sample_env start_vault p = Inr p" "map at_binding (ap_items p) = [start_binding]"
    using bound_prefix_resolves [OF start_request_valid start_reads_request start_exact start_bindings]
    by (auto simp: start_found)
  from p(1) have "map at_event (ap_items p) = [start_event]" "p = new_prefix sample_env start_request (ap_items p)"
    using start_reads by (auto elim!: resolve_prefix_Inr simp: start_found)
  moreover from this(1) p(3) have "ap_items p = [\<lparr>at_event = start_event, at_binding = start_binding\<rparr>]"
    by (cases "ap_items p") auto
  ultimately show ?thesis using p(2) by (simp add: start_prefix_def)
qed

lemma start_prefix_verified_run:
  "verify_attested_trajectory_prefix sample_env (run_operations sample_env [Op_restore start_entries start_head] empty_vault)
     start_prefix = Inr start_prefix"
  using start_prefix_verified by (simp only: start_vault_def)

end
