(* ===== verification/Trajectory_Properties.thy ===== *)
theory Trajectory_Properties
  imports Trajectory_Sample
begin

text \<open>
  The properties of attested trajectories and of the schedule and the message window derived from them.
\<close>

section \<open>The events of a ledger are numbered from one\<close>

lemma apply_entry_sequence:
  assumes "apply_entry H F p entry = Inr p'"
  shows "map ev_sequence (List.map_filter event_of [entry]) = [pr_ingestion_cursor p + 1..pr_ingestion_cursor p']"
    and "pr_ingestion_cursor p \<le> pr_ingestion_cursor p'"
proof -
  have "map ev_sequence (List.map_filter event_of [entry]) = [pr_ingestion_cursor p + 1..pr_ingestion_cursor p'] \<and>
    pr_ingestion_cursor p \<le> pr_ingestion_cursor p'"
    using assms
  proof (cases rule: apply_entry_cases)
    case (event e)
    have "ev_sequence e = pr_ingestion_cursor p + 1" using event(2) by (simp add: apply_event_Inr)
    then show ?thesis using event event_cursor [OF event(2)] by (simp add: map_filter_simps)
  qed (auto dest: signal_frame(1) decision_frame(1) cycle_frame(1) outcome_frame(1) delivery_frame(1)
      simp: events_part_def map_filter_simps)
  then show "map ev_sequence (List.map_filter event_of [entry]) = [pr_ingestion_cursor p + 1..pr_ingestion_cursor p']"
    and "pr_ingestion_cursor p \<le> pr_ingestion_cursor p'" by blast+
qed

lemma upto_append: "a \<le> b + 1 \<Longrightarrow> b \<le> c \<Longrightarrow> [a..b] @ [b + 1..c] = [a..c]"
  using upto_split2 [of a b c] by (cases "a = b + 1") simp_all

lemma fold_entries_sequence:
  assumes "fold_result (\<lambda>e p. apply_entry H F p e) es p = Inr p'"
  shows "map ev_sequence (List.map_filter event_of es) = [pr_ingestion_cursor p + 1..pr_ingestion_cursor p'] \<and>
    pr_ingestion_cursor p \<le> pr_ingestion_cursor p'"
  using assms
proof (induction es arbitrary: p)
  case (Cons e es)
  from Cons.prems obtain q where q: "apply_entry H F p e = Inr q" "fold_result (\<lambda>e p. apply_entry H F p e) es q = Inr p'"
    by (auto simp: bind_result_Inr)
  note first = apply_entry_sequence [OF q(1)] and rest = Cons.IH [OF q(2)]
  have "map ev_sequence (List.map_filter event_of (e # es)) =
      map ev_sequence (List.map_filter event_of [e]) @ map ev_sequence (List.map_filter event_of es)"
    by (simp add: List.map_filter_def)
  also have "\<dots> = [pr_ingestion_cursor p + 1..pr_ingestion_cursor p']"
    unfolding first(1) conjunct1 [OF rest] using rest first(2) by (intro upto_append) simp_all
  finally show ?case by (rule conjI) (use first(2) rest in linarith)
qed (simp add: map_filter_simps)

lemma run_event_sequence:
  assumes "read_ledger env (run_operations env ops empty_vault) run = Inr es"
  shows "map ev_sequence (List.map_filter event_of es) = [1..int (length (List.map_filter event_of es))]"
proof -
  obtain s where s: "dict_get (va_slots (run_operations env ops empty_vault)) run = Some s" "es = sl_ledger s"
    using assms by (auto simp: read_ledger_def bind_result_Inr dest: find_slot_Inr)
  have "project_entries (en_hash env) (en_float env) (sl_run_id s) es = Inr (sl_projection s)"
    unfolding s(2) by (rule slot_ok_project [OF vault_ok_slot(2) [OF run_operations_ok s(1)]])
  then have seqs: "map ev_sequence (List.map_filter event_of es) = [1..pr_ingestion_cursor (sl_projection s)]"
    "0 \<le> pr_ingestion_cursor (sl_projection s)"
    using fold_entries_sequence [of "en_hash env" "en_float env" es "empty_projection (sl_run_id s)"]
    by (simp_all add: project_entries_def empty_projection_def)
  have "length (List.map_filter event_of es) = length [1..pr_ingestion_cursor (sl_projection s)]"
    using seqs(1) by (metis length_map)
  with seqs(2) have "int (length (List.map_filter event_of es)) = pr_ingestion_cursor (sl_projection s)" by simp
  then show ?thesis using seqs(1) by simp
qed

lemma filter_numbered:
  assumes "map f xs = [k + 1..k + int (length xs)]"
  shows "filter (\<lambda>x. f x \<le> b) xs = take (nat (b - k)) xs"
  using assms
proof (induction xs arbitrary: k)
  case (Cons x xs)
  then have x: "f x = k + 1" and xs: "map f xs = [k + 1 + 1..k + 1 + int (length xs)]"
    using upto_rec1 [of "k + 1" "k + int (length (x # xs))"] by (simp_all add: ac_simps)
  show ?case
  proof (cases "k + 1 \<le> b")
    case True
    then have "nat (b - k) = Suc (nat (b - (k + 1)))" by simp
    then show ?thesis using Cons.IH [OF xs] x True by simp
  next
    case False
    then show ?thesis using Cons.IH [OF xs] x by simp
  qed
qed simp

definition numbered_entries :: "ledger_entry list \<Rightarrow> (ledger_entry \<times> trace_event) list" where
  "numbered_entries = List.map_filter (\<lambda>entry. map_option (Pair entry) (event_of entry))"

lemma numbered_entries_append: "numbered_entries (es @ fs) = numbered_entries es @ numbered_entries fs"
  by (simp add: numbered_entries_def List.map_filter_def)

lemma numbered_entries_events: "map snd (numbered_entries es) = List.map_filter event_of es"
  by (induction es) (auto simp: numbered_entries_def map_filter_simps split: ledger_record.splits)

lemma run_event_entries:
  assumes "read_ledger env (run_operations env ops empty_vault) run = Inr es"
  shows "event_entries b es = take (nat b) (numbered_entries es)"
proof -
  have "map (\<lambda>x. ev_sequence (snd x)) (numbered_entries es) = [0 + 1..0 + int (length (numbered_entries es))]"
    using run_event_sequence [OF assms] arg_cong [OF numbered_entries_events [of es], of length]
    by (simp flip: numbered_entries_events add: comp_def)
  from filter_numbered [OF this, of b] show ?thesis
    by (simp add: event_entries_def numbered_entries_def split_beta')
qed

text \<open>A resolved prefix resolves to the same prefix after any further operations.\<close>

lemma resolve_later:
  assumes "resolve_trajectory_prefix env (run_operations env ops empty_vault) q = Inr p"
  shows "resolve_trajectory_prefix env (run_operations env (ops @ later) empty_vault) q = Inr p"
proof -
  from assms obtain es where es: "read_ledger env (run_operations env ops empty_vault) (pq_run_id q) = Inr es"
    and len: "int (length (event_entries (pq_boundary q) es)) = pq_boundary q"
    by (rule resolve_prefix_Inr)
  obtain fs where fs: "read_ledger env (run_operations env (ops @ later) empty_vault) (pq_run_id q) = Inr (es @ fs)"
    using run_reads_extend [OF es] by blast
  have "nat (pq_boundary q) \<le> length (numbered_entries es)"
    using len run_event_entries [OF es, of "pq_boundary q"] by (simp add: min_def split: if_splits)
  then have "event_entries (pq_boundary q) (es @ fs) = event_entries (pq_boundary q) es"
    using run_event_entries [OF es] run_event_entries [OF fs] by (simp add: numbered_entries_append)
  then show ?thesis
    using assms run_entries_exact [OF es] run_entries_exact [OF fs] es fs unfolding resolve_trajectory_prefix_def
    by (simp split: option.splits)
qed

section \<open>Verified prefixes\<close>

text \<open>
  C23. A verified prefix is what the ledger holds: a prefix that verifies contains exactly the first
  events of the run, in the order of the ledger, each under a binding that carries the tags of
  its stored entry; and it still verifies, unchanged, after any further operations.
\<close>

theorem verified_prefix_is_attested:
  assumes "verify_attested_trajectory_prefix env (run_operations env ops empty_vault) p = Inr p'"
  shows "p' = p \<and> (\<exists>es. read_ledger env (run_operations env ops empty_vault) (ap_run_id p) = Inr es \<and>
      map at_event (ap_items p) = take (nat (ap_boundary p)) (List.map_filter event_of es) \<and>
      (\<forall>a\<in>set (ap_items p). \<exists>entry\<in>set es. attests entry a)) \<and>
    verify_attested_trajectory_prefix env (run_operations env (ops @ later) empty_vault) p = Inr p"
proof (intro conjI)
  let ?v = "run_operations env ops empty_vault"
  note ver = verify_prefix_Inr [OF assms]
  show "p' = p" by (rule ver(1))
  show "verify_attested_trajectory_prefix env (run_operations env (ops @ later) empty_vault) p = Inr p"
    using assms resolve_later [OF ver(3), of later] ver(1)
    by (simp add: verify_attested_trajectory_prefix_def split: if_splits)
  obtain es where stored: "read_ledger env ?v (pq_run_id (prefix_request_of p)) = Inr es"
    and found: "map at_event (ap_items p) = map snd (event_entries (pq_boundary (prefix_request_of p)) es)"
    and items: "\<forall>a\<in>set (ap_items p). \<exists>entry\<in>set es. attests entry a"
    by (rule resolve_prefix_Inr [OF ver(3)])
  note es = stored [unfolded prefix_request_of_def prefix_request.select_convs]
  note events = found [unfolded prefix_request_of_def prefix_request.select_convs]
  have "map at_event (ap_items p) = take (nat (ap_boundary p)) (List.map_filter event_of es)"
    using events run_event_entries [OF es] by (simp add: take_map flip: numbered_entries_events)
  with es items show "\<exists>es. read_ledger env ?v (ap_run_id p) = Inr es \<and>
      map at_event (ap_items p) = take (nat (ap_boundary p)) (List.map_filter event_of es) \<and>
      (\<forall>a\<in>set (ap_items p). \<exists>entry\<in>set es. attests entry a)"
    by blast
qed

theorem verified_prefix_is_attested_witness:
  "start_prefix = start_prefix \<and> (\<exists>es. read_ledger sample_env (run_operations sample_env [Op_restore start_entries start_head] empty_vault)
        (ap_run_id start_prefix) = Inr es \<and>
      map at_event (ap_items start_prefix) = take (nat (ap_boundary start_prefix)) (List.map_filter event_of es) \<and>
      (\<forall>a\<in>set (ap_items start_prefix). \<exists>entry\<in>set es. attests entry a)) \<and>
    verify_attested_trajectory_prefix sample_env (run_operations sample_env ([Op_restore start_entries start_head] @
      [Op_recover_cycles (sample_uuid 1) 10]) empty_vault) start_prefix = Inr start_prefix"
  by (rule verified_prefix_is_attested [OF start_prefix_verified_run])

text \<open>
  C26. Binding always works out: when every binding of a valid request was made by
  \<open>bind_persisted_trajectory_event\<close> from the stored entry it names and the run starts with a start
  event, the request resolves, its prefix carries those bindings, and the prefix verifies.
\<close>

theorem bound_requests_resolve:
  assumes "valid_prefix_request env q" and "hex_digest (en_hash env)"
    and "read_ledger env (run_operations env ops empty_vault) (pq_run_id q) = Inr es"
    and "list_all2 (\<lambda>(entry, e) b. \<exists>t ms st. bind_persisted_trajectory_event env entry t ms st = Inr b)
      (event_entries (pq_boundary q) es) (pq_bindings q)"
    and "ev_event_type (snd (hd (event_entries (pq_boundary q) es))) = Event_RUN_START"
  shows "\<exists>p. resolve_trajectory_prefix env (run_operations env ops empty_vault) q = Inr p \<and>
    verify_attested_trajectory_prefix env (run_operations env ops empty_vault) p = Inr p \<and>
    map at_binding (ap_items p) = pq_bindings q"
  by (rule bound_prefix_resolves [OF assms(1,3) run_entries_exact [OF assms(3)] assms(4,2,5)])

theorem bound_requests_resolve_witness:
  "\<exists>p. resolve_trajectory_prefix sample_env (run_operations sample_env [Op_restore start_entries start_head] empty_vault)
      start_request = Inr p \<and>
    verify_attested_trajectory_prefix sample_env (run_operations sample_env [Op_restore start_entries start_head] empty_vault)
      p = Inr p \<and> map at_binding (ap_items p) = pq_bindings start_request"
  by (rule bound_requests_resolve [OF start_request_valid _ start_reads_request [unfolded start_vault_def] start_bindings])
    (simp_all add: start_found)

section \<open>Schedule and message window\<close>

text \<open>
  C24. The schedule follows the action steps: for a prefix that verifies, the projection of the schedule
  either refuses with a pointer or a retrograde error, or gives a valid schedule with one decision per
  event that invokes exactly at the first event and at every event whose action step is greater than
  every action step before it. Validating that schedule against the prefix gives it back.
\<close>

theorem schedule_follows_action_steps:
  assumes "verify_attested_trajectory_prefix env v p = Inr p'" and "hex_digest (en_hash env)"
  shows "project_fixed_step_schedule env v p \<in>
      {Inl (Trajectory_error Traj_INVALID_POINTER), Inl (Trajectory_error Traj_RETROGRADE_BINDING)} \<or>
    (\<exists>s. project_fixed_step_schedule env v p = Inr s \<and> valid_fixed_step_schedule env s \<and>
       validated_schedule_for_prefix env v p s = Inr s \<and>
       length (fs_decisions s) = length (ap_items p) \<and> fs_trajectory_prefix_digest s = ap_prefix_digest p \<and>
       map (\<lambda>d. Inr (fd_action_step_ordinal d)) (fs_decisions s) = map action_step_of (ap_items p) \<and>
       (\<forall>i<length (fs_decisions s). fd_invoke (fs_decisions s ! i) =
          (i = 0 \<or> starts_step None (map fd_action_step_ordinal (fs_decisions s)) i)))"
  using project_schedule_cases [OF verify_prefix_Inr(2) [OF assms(1)] assms(2) verified_prefix_distinct [OF assms(1)]]
    assms(1) verify_prefix_Inr(1) [OF assms(1)]
  by (elim disjE exE conjE) (simp_all add: project_fixed_step_schedule_def validated_schedule_for_prefix_def)

theorem schedule_follows_action_steps_witness:
  "project_fixed_step_schedule sample_env start_vault start_prefix \<in>
      {Inl (Trajectory_error Traj_INVALID_POINTER), Inl (Trajectory_error Traj_RETROGRADE_BINDING)} \<or>
    (\<exists>s. project_fixed_step_schedule sample_env start_vault start_prefix = Inr s \<and> valid_fixed_step_schedule sample_env s \<and>
       validated_schedule_for_prefix sample_env start_vault start_prefix s = Inr s \<and>
       length (fs_decisions s) = length (ap_items start_prefix) \<and>
       fs_trajectory_prefix_digest s = ap_prefix_digest start_prefix \<and>
       map (\<lambda>d. Inr (fd_action_step_ordinal d)) (fs_decisions s) = map action_step_of (ap_items start_prefix) \<and>
       (\<forall>i<length (fs_decisions s). fd_invoke (fs_decisions s ! i) =
          (i = 0 \<or> starts_step None (map fd_action_step_ordinal (fs_decisions s)) i)))"
  by (rule schedule_follows_action_steps [OF start_prefix_verified]) simp

text \<open>
  C25. The window is the latest eight messages: for a prefix that verifies, the projection of the
  message window either refuses with a pointer, a span or a limit error, or gives a valid window whose
  task is the text its selector names and whose messages are the last eight that the bindings select,
  each with the stored entry it was read from, in at most 32000 bytes. Validating that window
  against the prefix gives it back.
\<close>

theorem window_is_latest_messages:
  assumes "verify_attested_trajectory_prefix env v p = Inr p'" and "hex_digest (en_hash env)"
  shows "project_message_window env v p \<in> {Inl (Trajectory_error Traj_INVALID_POINTER),
      Inl (Trajectory_error Traj_INVALID_SPAN), Inl (Trajectory_error Traj_LIMIT_EXCEEDED)} \<or>
    (\<exists>w ms sel. project_message_window env v p = Inr w \<and> valid_message_window env w \<and>
       validated_window_for_prefix env v p w = Inr w \<and>
       tb_task_description (at_binding (hd (ap_items p))) = Some sel \<and>
       selected_text (hd (ap_items p)) sel = Inr (td_content (mw_task_description w)) \<and>
       map_result select_message (message_bindings p) = Inr ms \<and>
       zip (mw_payload w) (mw_source_attestations w) = latest max_window_items ms \<and>
       payload_size env (mw_payload w) \<le> max_window_bytes)"
proof -
  obtain sel where sel: "tb_task_description (at_binding (hd (ap_items p))) = Some sel"
    using verified_prefix_task [OF assms(1)] by blast
  have ver: "verify_attested_trajectory_prefix env v p = Inr p" using assms(1) verify_prefix_Inr(1) [OF assms(1)] by simp
  from project_window_cases [OF verify_prefix_Inr(2) [OF assms(1)] assms(2) sel] show ?thesis
    using ver sel
    by (elim disjE exE conjE) (simp_all add: project_message_window_def validated_window_for_prefix_def)
qed

theorem window_is_latest_messages_witness:
  "project_message_window sample_env start_vault start_prefix \<in> {Inl (Trajectory_error Traj_INVALID_POINTER),
      Inl (Trajectory_error Traj_INVALID_SPAN), Inl (Trajectory_error Traj_LIMIT_EXCEEDED)} \<or>
    (\<exists>w ms sel. project_message_window sample_env start_vault start_prefix = Inr w \<and> valid_message_window sample_env w \<and>
       validated_window_for_prefix sample_env start_vault start_prefix w = Inr w \<and>
       tb_task_description (at_binding (hd (ap_items start_prefix))) = Some sel \<and>
       selected_text (hd (ap_items start_prefix)) sel = Inr (td_content (mw_task_description w)) \<and>
       map_result select_message (message_bindings start_prefix) = Inr ms \<and>
       zip (mw_payload w) (mw_source_attestations w) = latest max_window_items ms \<and>
       payload_size sample_env (mw_payload w) \<le> max_window_bytes)"
  by (rule window_is_latest_messages [OF start_prefix_verified]) simp

end
