(* ===== verification/Policy.thy ===== *)
theory Policy
  imports Claims Budget
begin

text \<open>
  Policy configurations (\<open>policy/config.py\<close>): the four typed configurations, the local bound on their
  JSON, and the sealed configuration that a replay artifact carries.

  A typed configuration is an instance of one of the four pydantic models. JSON objects list their keys in
  ascending order; the code's frozen mappings have the same model.
\<close>

definition max_script_decisions :: nat where "max_script_decisions = 10000"
definition max_configuration_bytes :: int where "max_configuration_bytes = 1000000"
definition max_configuration_nodes :: int where "max_configuration_nodes = 50000"
definition max_configuration_depth :: int where "max_configuration_depth = 64"

record run_state =
  rs_decision_id :: uuid
  rs_run_id :: uuid
  rs_current_event_id :: uuid
  rs_event_sequence :: int
  rs_decision_ordinal :: int
  rs_created_at :: timestamp

definition valid_run_state :: "run_state \<Rightarrow> bool" where
  "valid_run_state s \<longleftrightarrow> uuid4 (rs_decision_id s) \<and> uuid4 (rs_run_id s) \<and> uuid4 (rs_current_event_id s) \<and>
     1 \<le> rs_event_sequence s \<and> rs_event_sequence s \<le> max_signed_64 \<and>
     1 \<le> rs_decision_ordinal s \<and> rs_decision_ordinal s \<le> max_signed_64"

datatype (plugins only: code size) policy_kind = Kind_NEVER | Kind_ALWAYS | Kind_SCRIPTED | Kind_BUDGETED

datatype (plugins only: code size) policy_config =
    NeverInvokeConfig
  | AlwaysInvokeConfig
  | ScriptedPolicyConfig "bool list"
  | BudgetedPolicyConfig budget_amounts

fun config_kind :: "policy_config \<Rightarrow> policy_kind" where
  "config_kind NeverInvokeConfig = Kind_NEVER"
| "config_kind AlwaysInvokeConfig = Kind_ALWAYS"
| "config_kind (ScriptedPolicyConfig _) = Kind_SCRIPTED"
| "config_kind (BudgetedPolicyConfig _) = Kind_BUDGETED"

definition amounts_bounded :: "'a budget_amounts_scheme \<Rightarrow> bool" where
  "amounts_bounded a \<longleftrightarrow> list_all (\<lambda>f. 0 \<le> amount f a \<and> amount f a \<le> max_signed_64) budget_fields"

fun valid_policy_config :: "policy_config \<Rightarrow> bool" where
  "valid_policy_config NeverInvokeConfig = True"
| "valid_policy_config AlwaysInvokeConfig = True"
| "valid_policy_config (ScriptedPolicyConfig script) = (length script \<le> max_script_decisions)"
| "valid_policy_config (BudgetedPolicyConfig reservation) =
     (amounts_bounded reservation \<and> valid_budget_amounts reservation \<and> 1 \<le> model_calls reservation)"

fun reserved_kind :: "string \<Rightarrow> policy_kind option" where
  "reserved_kind version =
     (if version = ''always-invoke/v1'' then Some Kind_ALWAYS
      else if version = ''budgeted/v1'' then Some Kind_BUDGETED
      else if version = ''never-invoke/v1'' then Some Kind_NEVER
      else if version = ''scripted/v1'' then Some Kind_SCRIPTED
      else None)"

section \<open>Configurations as JSON\<close>

definition amounts_json :: "budget_amounts \<Rightarrow> json" where
  "amounts_json a = JObj
     [(''canonical_token_equivalents'', JInt (canonical_token_equivalents a)), (''input_tokens'', JInt (input_tokens a)),
      (''interventions'', JInt (interventions_used a)), (''latency_us'', JInt (latency_us a)),
      (''model_calls'', JInt (model_calls a)), (''output_tokens'', JInt (output_tokens a)),
      (''schema_repairs'', JInt (schema_repairs a))]"

fun policy_config_json :: "policy_config \<Rightarrow> json" where
  "policy_config_json NeverInvokeConfig =
     JObj [(''policy_kind'', JStr ''never_invoke''), (''schema_version'', JStr ''1.0'')]"
| "policy_config_json AlwaysInvokeConfig =
     JObj [(''policy_kind'', JStr ''always_invoke''), (''schema_version'', JStr ''1.0'')]"
| "policy_config_json (ScriptedPolicyConfig script) =
     JObj [(''decisions'', JArr (map JBool script)), (''on_exhaustion'', JStr ''silence''),
           (''policy_kind'', JStr ''scripted''), (''schema_version'', JStr ''1.0'')]"
| "policy_config_json (BudgetedPolicyConfig reservation) =
     JObj [(''on_denial'', JStr ''silence''), (''policy_kind'', JStr ''budgeted''),
           (''reservation'', amounts_json reservation), (''schema_version'', JStr ''1.0'')]"

text \<open>
  The loop of \<open>_bounded_json\<close> is the one of the trace payload with other prices: text and keys are
  charged six bytes for every code point.
\<close>

definition config_keys_price :: "(string \<times> json) list \<Rightarrow> int" where
  "config_keys_price kvs = (\<Sum>(k, v)\<leftarrow>kvs. 6 * int (code_points k) + 3)"

fun config_price :: item_price where
  "config_price (JObj kvs) = Some (2 + int (length kvs) * 2 + config_keys_price kvs)"
| "config_price (JArr xs) = Some (2 + int (length xs))"
| "config_price (JStr s) = Some (6 * int (code_points s) + 2)"
| "config_price JNull = Some 5"
| "config_price (JBool b) = Some 5"
| "config_price (JInt i) = Some (int_cost i)"
| "config_price (JFloat (Some q)) = Some 32"
| "config_price (JFloat None) = None"

definition configuration_is_bounded :: "json \<Rightarrow> bool" where
  "configuration_is_bounded v =
     bounded_loop config_price max_configuration_nodes max_configuration_depth max_configuration_bytes 0 [(v, 0)]"

lemma fair_config_price: "fair_price config_price"
proof -
  have keys: "0 \<le> config_keys_price kvs" for kvs
    by (induction kvs) (auto simp: config_keys_price_def)
  have "(config_price v = None) = (item_cost v = None)" for v
    by (cases v rule: config_price.cases) simp_all
  moreover have "config_price v = Some c \<Longrightarrow> 0 \<le> c" for v c
    using keys by (cases v rule: config_price.cases) (auto simp: int_cost_def add_nonneg_nonneg)
  ultimately show ?thesis unfolding fair_price_def by blast
qed

lemma configuration_bound_exact:
  "configuration_is_bounded v \<longleftrightarrow> json_nodes v \<le> max_configuration_nodes \<and>
     json_cost config_price v \<le> max_configuration_bytes \<and>
     json_fits_depth max_configuration_depth v \<and> json_finite v"
  by (simp add: configuration_is_bounded_def bounded_loop_iff fair_config_price stack_fits_def
      max_configuration_nodes_def max_configuration_bytes_def)

section \<open>Sealed configurations\<close>

definition configuration_domain :: string where
  "configuration_domain = ''saliencegate:policy:configuration:v1''"

definition policy_configuration_digest :: "hash_fun \<Rightarrow> float_text \<Rightarrow> string \<Rightarrow> json \<Rightarrow> digest option" where
  "policy_configuration_digest H F version configuration =
     map_option (\<lambda>text. length_prefixed_sha256 H configuration_domain [version, text]) (canonical_json F configuration)"

record policy_resolved =
  rc_policy_version :: string
  rc_configuration :: json
  rc_configuration_digest :: digest

definition valid_policy_resolved :: "hash_fun \<Rightarrow> float_text \<Rightarrow> policy_resolved \<Rightarrow> bool" where
  "valid_policy_resolved H F r \<longleftrightarrow> component_identifier (rc_policy_version r) \<and> is_object (rc_configuration r) \<and>
     configuration_is_bounded (rc_configuration r) \<and> sha256_digest (rc_configuration_digest r) \<and>
     policy_configuration_digest H F (rc_policy_version r) (rc_configuration r) = Some (rc_configuration_digest r)"

datatype (plugins only: code size) policy_error =
    PolicyConfigurationError
  | PolicyInputError
  | PolicyContractError
  | Policy_validation
  | Policy_budget budget_error

definition seal_payload :: "hash_fun \<Rightarrow> float_text \<Rightarrow> string \<Rightarrow> json \<Rightarrow> policy_error + policy_resolved" where
  "seal_payload H F version payload =
     (if \<not> component_identifier version \<or> \<not> is_object payload \<or> \<not> configuration_is_bounded payload
      then Inl PolicyConfigurationError
      else case policy_configuration_digest H F version payload of
             None \<Rightarrow> Inl PolicyConfigurationError
           | Some digest \<Rightarrow>
               let r = \<lparr>rc_policy_version = version, rc_configuration = payload, rc_configuration_digest = digest\<rparr>
               in if valid_policy_resolved H F r then Inr r else Inl PolicyConfigurationError)"

definition seal_policy_configuration :: "hash_fun \<Rightarrow> float_text \<Rightarrow> string \<Rightarrow> json \<Rightarrow> policy_error + policy_resolved" where
  "seal_policy_configuration H F version configuration =
     (if reserved_kind version \<noteq> None then Inl PolicyConfigurationError
      else seal_payload H F version configuration)"

definition resolve_policy_configuration :: "hash_fun \<Rightarrow> float_text \<Rightarrow> string \<Rightarrow> policy_config \<Rightarrow>
    policy_error + policy_resolved" where
  "resolve_policy_configuration H F version configuration =
     (if \<not> component_identifier version then Inl PolicyConfigurationError
      else if (case reserved_kind version of None \<Rightarrow> False | Some k \<Rightarrow> config_kind configuration \<noteq> k)
      then Inl PolicyConfigurationError
      else if \<not> valid_policy_config configuration then Inl PolicyConfigurationError
      else seal_payload H F version (policy_config_json configuration))"

end
