(* ===== verification/Trigger.thy ===== *)
theory Trigger
  imports Policy
begin

text \<open>
  Trigger policies (\<open>policy/trigger.py\<close>): the validated inputs of a decision, the three reference
  policies, and the budgeted policy that wraps any configured policy and lets it invoke only when the
  reservation fits the budget.

  A wrapped policy is code of the caller. It is represented by what \<open>BudgetedPolicy\<close> reads of it: its
  version, its digest and its sealed configuration, and a function for \<open>decide\<close> whose result \<open>None\<close>
  stands for a call that raises or returns something that is not an invocation decision.
\<close>

section \<open>Inputs\<close>

definition max_policy_signals :: nat where "max_policy_signals = 64"

definition budget_preflight :: "budget_snapshot \<Rightarrow> bool" where
  "budget_preflight b \<longleftrightarrow> amounts_bounded (limits b) \<and>
     0 \<le> max_call_latency_us (limits b) \<and> max_call_latency_us (limits b) \<le> max_signed_64 \<and>
     amounts_bounded (reserved b) \<and> amounts_bounded (consumed b)"

definition signal_preflight :: "signal \<Rightarrow> bool" where
  "signal_preflight s \<longleftrightarrow> uuid4 (sg_signal_id s) \<and> uuid4 (sg_run_id s) \<and>
     length (sg_evidence_event_ids s) \<le> 10000 \<and> list_all uuid4 (sg_evidence_event_ids s) \<and>
     code_points (sg_detector_version s) \<le> 256"

record policy_inputs =
  pi_signals :: "signal list"
  pi_state :: run_state
  pi_budget :: budget_snapshot

definition validated_inputs :: "signal list \<Rightarrow> run_state \<Rightarrow> budget_snapshot \<Rightarrow> policy_error + policy_inputs" where
  "validated_inputs signals st b =
     checks
       [(length signals > max_policy_signals \<or> \<not> valid_run_state st \<or> \<not> budget_preflight b \<or>
         list_ex (\<lambda>s. \<not> signal_preflight s) signals, PolicyInputError),
        (\<not> valid_budget_snapshot b \<or> list_ex (\<lambda>s. \<not> valid_signal s) signals, PolicyInputError),
        (\<not> distinct (map sg_signal_id signals) \<or> list_ex (\<lambda>s. sg_run_id s \<noteq> rs_run_id st) signals \<or>
         list_ex (\<lambda>s. rs_current_event_id st \<notin> set (sg_evidence_event_ids s)) signals \<or>
         list_ex (\<lambda>s. sg_created_at s > rs_created_at st) signals, PolicyInputError)]
       (Inr \<lparr>pi_signals = signals, pi_state = st, pi_budget = b\<rparr>)"

definition new_invocation_decision :: "invocation_decision \<Rightarrow> policy_error + invocation_decision" where
  "new_invocation_decision d = (if valid_invocation_decision d then Inr d else Inl Policy_validation)"

text \<open>\<open>_decision\<close>, with the defaults of the reference policies for the score and the cooldown.\<close>

definition reference_decision :: "policy_inputs \<Rightarrow> bool \<Rightarrow> reason_code \<Rightarrow> string \<Rightarrow> digest \<Rightarrow>
    policy_error + invocation_decision" where
  "reference_decision inputs invoke reason version digest = new_invocation_decision
     \<lparr>id_decision_id = rs_decision_id (pi_state inputs), id_run_id = rs_run_id (pi_state inputs),
      id_event_sequence = rs_event_sequence (pi_state inputs), id_invoke = invoke, id_risk_score = None,
      id_reason_codes = [reason], id_policy_version = version, id_configuration_digest = digest,
      id_budget_snapshot = pi_budget inputs, id_cooldown_active = False,
      id_created_at = rs_created_at (pi_state inputs)\<rparr>"

section \<open>Reference policies\<close>

record reference_policy =
  rf_resolved :: policy_resolved

definition configuration_digest_of :: "'a reference_policy_scheme \<Rightarrow> digest" where
  "configuration_digest_of p = rc_configuration_digest (rf_resolved p)"

definition never_invoke_version :: string where "never_invoke_version = ''never-invoke/v1''"
definition always_invoke_version :: string where "always_invoke_version = ''always-invoke/v1''"
definition scripted_version :: string where "scripted_version = ''scripted/v1''"
definition budgeted_version :: string where "budgeted_version = ''budgeted/v1''"

definition new_never_invoke :: "hash_fun \<Rightarrow> float_text \<Rightarrow> policy_error + reference_policy" where
  "new_never_invoke H F =
     map_sum id reference_policy.make (resolve_policy_configuration H F never_invoke_version NeverInvokeConfig)"

definition never_invoke_decide :: "reference_policy \<Rightarrow> signal list \<Rightarrow> run_state \<Rightarrow> budget_snapshot \<Rightarrow>
    policy_error + invocation_decision" where
  "never_invoke_decide p signals st b =
     bind_result (validated_inputs signals st b) (\<lambda>inputs.
     reference_decision inputs False Reason_POLICY_NEVER never_invoke_version (configuration_digest_of p))"

definition new_always_invoke :: "hash_fun \<Rightarrow> float_text \<Rightarrow> policy_error + reference_policy" where
  "new_always_invoke H F =
     map_sum id reference_policy.make (resolve_policy_configuration H F always_invoke_version AlwaysInvokeConfig)"

definition always_invoke_decide :: "reference_policy \<Rightarrow> signal list \<Rightarrow> run_state \<Rightarrow> budget_snapshot \<Rightarrow>
    policy_error + invocation_decision" where
  "always_invoke_decide p signals st b =
     bind_result (validated_inputs signals st b) (\<lambda>inputs.
     reference_decision inputs True Reason_POLICY_ALWAYS always_invoke_version (configuration_digest_of p))"

record scripted_policy = reference_policy +
  sc_decisions :: "bool list"

definition script_of :: "json \<Rightarrow> bool list" where
  "script_of configuration =
     (case obj_get ''decisions'' configuration of
        Some (JArr xs) \<Rightarrow> List.map_filter (\<lambda>x. case x of JBool b \<Rightarrow> Some b | _ \<Rightarrow> None) xs
      | _ \<Rightarrow> [])"

definition new_scripted :: "hash_fun \<Rightarrow> float_text \<Rightarrow> bool list \<Rightarrow> policy_error + scripted_policy" where
  "new_scripted H F script =
     map_sum id (\<lambda>r. \<lparr>rf_resolved = r, sc_decisions = script_of (rc_configuration r)\<rparr>)
       (resolve_policy_configuration H F scripted_version (ScriptedPolicyConfig script))"

definition scripted_step :: "bool list \<Rightarrow> int \<Rightarrow> bool \<times> reason_code" where
  "scripted_step script index =
     (if index \<ge> int (length script) then (False, Reason_SCRIPT_EXHAUSTED)
      else if script ! nat index then (True, Reason_SCRIPTED_INVOKE)
      else (False, Reason_SCRIPTED_SILENCE))"

definition scripted_decide :: "scripted_policy \<Rightarrow> signal list \<Rightarrow> run_state \<Rightarrow> budget_snapshot \<Rightarrow>
    policy_error + invocation_decision" where
  "scripted_decide p signals st b =
     bind_result (validated_inputs signals st b) (\<lambda>inputs.
     let (invoke, reason) = scripted_step (sc_decisions p) (rs_decision_ordinal (pi_state inputs) - 1)
     in reference_decision inputs invoke reason scripted_version (configuration_digest_of p))"

section \<open>The budgeted policy\<close>

record configured_policy =
  cp_decide :: "signal list \<Rightarrow> run_state \<Rightarrow> budget_snapshot \<Rightarrow> invocation_decision option"
  cp_policy_version :: string
  cp_configuration_digest :: digest
  cp_resolved :: policy_resolved
  cp_is_budgeted :: bool

definition resolved_preflight :: "policy_resolved \<Rightarrow> bool" where
  "resolved_preflight r \<longleftrightarrow> component_identifier (rc_policy_version r) \<and> sha256_digest (rc_configuration_digest r) \<and>
     configuration_is_bounded (rc_configuration r)"

text \<open>\<open>len(ReasonCode)\<close>.\<close>

definition reason_code_count :: nat where "reason_code_count = 51"

definition invocation_decision_preflight :: "invocation_decision \<Rightarrow> bool" where
  "invocation_decision_preflight d \<longleftrightarrow> uuid4 (id_decision_id d) \<and> uuid4 (id_run_id d) \<and>
     1 \<le> id_event_sequence d \<and> id_event_sequence d \<le> max_signed_64 \<and> opt_all unit_interval (id_risk_score d) \<and>
     1 \<le> length (id_reason_codes d) \<and> length (id_reason_codes d) \<le> reason_code_count \<and>
     component_identifier (id_policy_version d) \<and> sha256_digest (id_configuration_digest d) \<and>
     budget_preflight (id_budget_snapshot d)"

definition snapshot_inner_policy :: "hash_fun \<Rightarrow> float_text \<Rightarrow> configured_policy \<Rightarrow> policy_resolved option" where
  "snapshot_inner_policy H F inner =
     (if component_identifier (cp_policy_version inner) \<and> resolved_preflight (cp_resolved inner) \<and>
         valid_policy_resolved H F (cp_resolved inner) \<and>
         rc_policy_version (cp_resolved inner) = cp_policy_version inner \<and>
         rc_configuration_digest (cp_resolved inner) = cp_configuration_digest inner
      then Some (cp_resolved inner) else None)"

definition inner_decision_matches :: "invocation_decision option \<Rightarrow> policy_inputs \<Rightarrow> string \<Rightarrow> digest \<Rightarrow>
    invocation_decision option" where
  "inner_decision_matches decision inputs version digest =
     (case decision of
        None \<Rightarrow> None
      | Some d \<Rightarrow>
          if invocation_decision_preflight d \<and> valid_invocation_decision d \<and>
             id_decision_id d = rs_decision_id (pi_state inputs) \<and> id_run_id d = rs_run_id (pi_state inputs) \<and>
             id_event_sequence d = rs_event_sequence (pi_state inputs) \<and> id_policy_version d = version \<and>
             id_configuration_digest d = digest \<and> id_budget_snapshot d = pi_budget inputs \<and>
             id_created_at d = rs_created_at (pi_state inputs)
          then Some d else None)"

record budgeted_policy = reference_policy +
  bp_inner_decide :: "signal list \<Rightarrow> run_state \<Rightarrow> budget_snapshot \<Rightarrow> invocation_decision option"
  bp_inner_version :: string
  bp_inner_digest :: digest
  bp_reservation :: budget_amounts

text \<open>\<open>{**base_payload, ...}\<close>: the budgeted configuration with the three entries of the inner policy.\<close>

definition composite_json :: "budget_amounts \<Rightarrow> policy_resolved \<Rightarrow> json" where
  "composite_json reservation inner = JObj
     [(''inner_configuration'', rc_configuration inner),
      (''inner_configuration_digest'', JStr (rc_configuration_digest inner)),
      (''inner_policy_version'', JStr (rc_policy_version inner)),
      (''on_denial'', JStr ''silence''), (''policy_kind'', JStr ''budgeted''),
      (''reservation'', amounts_json reservation), (''schema_version'', JStr ''1.0'')]"

definition field_name :: "budget_field \<Rightarrow> string" where
  "field_name f = (case f of F_model_calls \<Rightarrow> ''model_calls'' | F_input_tokens \<Rightarrow> ''input_tokens''
     | F_output_tokens \<Rightarrow> ''output_tokens'' | F_canonical_token_equivalents \<Rightarrow> ''canonical_token_equivalents''
     | F_latency_us \<Rightarrow> ''latency_us'' | F_interventions \<Rightarrow> ''interventions'' | F_schema_repairs \<Rightarrow> ''schema_repairs'')"

definition reservation_of :: "json \<Rightarrow> budget_amounts" where
  "reservation_of configuration = amounts_of (\<lambda>f.
     case obj_get (field_name f) (obj_opt ''reservation'' configuration) of Some (JInt n) \<Rightarrow> n | _ \<Rightarrow> 0)"

definition new_budgeted :: "hash_fun \<Rightarrow> float_text \<Rightarrow> configured_policy \<Rightarrow> budget_amounts \<Rightarrow>
    policy_error + budgeted_policy" where
  "new_budgeted H F inner reservation =
     bind_result (resolve_policy_configuration H F budgeted_version (BudgetedPolicyConfig reservation)) (\<lambda>base.
     case snapshot_inner_policy H F inner of
       None \<Rightarrow> Inl PolicyContractError
     | Some inner_resolved \<Rightarrow>
         if cp_is_budgeted inner \<or> cp_policy_version inner = budgeted_version \<or>
            obj_get ''policy_kind'' (rc_configuration inner_resolved) = Some (JStr ''budgeted'')
         then Inl PolicyContractError
         else bind_result (seal_payload H F budgeted_version (composite_json reservation inner_resolved)) (\<lambda>resolved.
           Inr \<lparr>rf_resolved = resolved, bp_inner_decide = cp_decide inner, bp_inner_version = cp_policy_version inner,
                bp_inner_digest = rc_configuration_digest inner_resolved,
                bp_reservation = reservation_of (rc_configuration base)\<rparr>))"

definition budget_denied :: "budget_snapshot \<Rightarrow> budget_amounts \<Rightarrow> policy_error + bool" where
  "budget_denied b reservation =
     (case reserve b reservation of
        Inr _ \<Rightarrow> Inr False
      | Inl BudgetReservationDeniedError \<Rightarrow> Inr True
      | Inl e \<Rightarrow> Inl (Policy_budget e))"

definition budgeted_decision :: "budgeted_policy \<Rightarrow> policy_inputs \<Rightarrow> invocation_decision \<Rightarrow> bool \<Rightarrow> invocation_decision" where
  "budgeted_decision p inputs inner denied =
     \<lparr>id_decision_id = rs_decision_id (pi_state inputs), id_run_id = rs_run_id (pi_state inputs),
      id_event_sequence = rs_event_sequence (pi_state inputs), id_invoke = (id_invoke inner \<and> \<not> denied),
      id_risk_score = id_risk_score inner,
      id_reason_codes = (if denied then [Reason_BUDGET_EXHAUSTED] else id_reason_codes inner),
      id_policy_version = budgeted_version, id_configuration_digest = configuration_digest_of p,
      id_budget_snapshot = pi_budget inputs, id_cooldown_active = id_cooldown_active inner,
      id_created_at = rs_created_at (pi_state inputs)\<rparr>"

definition budgeted_decide :: "budgeted_policy \<Rightarrow> signal list \<Rightarrow> run_state \<Rightarrow> budget_snapshot \<Rightarrow>
    policy_error + invocation_decision" where
  "budgeted_decide p signals st b =
     bind_result (validated_inputs signals st b) (\<lambda>inputs.
     case inner_decision_matches (bp_inner_decide p (pi_signals inputs) (pi_state inputs) (pi_budget inputs)) inputs
            (bp_inner_version p) (bp_inner_digest p) of
       None \<Rightarrow> Inl PolicyContractError
     | Some inner \<Rightarrow>
         bind_result (if id_invoke inner then budget_denied (pi_budget inputs) (bp_reservation p) else Inr False) (\<lambda>denied.
         new_invocation_decision (budgeted_decision p inputs inner denied)))"

end
