(* ===== verification/Trigger_Facts.thy ===== *)
theory Trigger_Facts
  imports Trigger
begin

text \<open>
  The contract of a trigger policy as a locale, with its interpretations on the three reference policies
  and the budgeted policy, and the facts on which the properties rest: typed configurations always
  resolve, and the reservation test of the budgeted policy answers.
\<close>

section \<open>Typed configurations fit the local bound\<close>

lemma bit_length_le: "n < 2 ^ k \<Longrightarrow> bit_length n \<le> k"
proof (induction k arbitrary: n)
  case 0
  then show ?case by (simp add: bit_length.simps)
next
  case (Suc k)
  then have "bit_length (n div 2) \<le> k" by (intro Suc.IH) simp
  then show ?case by (subst bit_length.simps) simp
qed

lemma int_cost_le:
  assumes "0 \<le> i" and "i \<le> max_signed_64"
  shows "int_cost i \<le> 23"
proof -
  have "nat \<bar>i\<bar> < 2 ^ 63" using assms by (simp add: max_signed_64_def)
  then have "bit_length (nat \<bar>i\<bar>) \<le> 63" by (rule bit_length_le)
  then show ?thesis by (simp add: int_cost_def)
qed

lemmas json_measures = json_nodes.simps json_cost.simps json_fits_depth.simps json_finite.simps

lemma scripted_sums:
  "(\<Sum>c\<leftarrow>map JBool bs. json_nodes c) = int (length bs)" "(\<Sum>c\<leftarrow>map JBool bs. json_cost config_price c) = 5 * int (length bs)"
  "list_all (json_fits_depth d) (map JBool bs) \<longleftrightarrow> bs = [] \<or> 0 \<le> d" "list_all json_finite (map JBool bs)"
  by (induction bs) (auto simp: json_measures)

lemma typed_config_bounded:
  assumes "valid_policy_config c"
  shows "configuration_is_bounded (policy_config_json c)"
proof (cases c)
  case (ScriptedPolicyConfig script)
  then have "length script \<le> 10000" using assms by (simp add: max_script_decisions_def)
  with ScriptedPolicyConfig show ?thesis
    by (simp add: configuration_bound_exact max_configuration_nodes_def max_configuration_bytes_def
        max_configuration_depth_def json_measures config_keys_price_def code_points_def scripted_sums del: map_map)
next
  case (BudgetedPolicyConfig r)
  then have r: "0 \<le> amount f r" "amount f r \<le> max_signed_64" for f
    using assms by (simp_all add: amounts_bounded_def list_all_iff)
  then have "int_cost (amount f r) \<le> 23" for f by (rule int_cost_le)
  note cost = this [of F_model_calls] this [of F_input_tokens] this [of F_output_tokens]
    this [of F_canonical_token_equivalents] this [of F_latency_us] this [of F_interventions] this [of F_schema_repairs]
  with BudgetedPolicyConfig show ?thesis
    by (simp add: configuration_bound_exact max_configuration_nodes_def max_configuration_bytes_def
        max_configuration_depth_def json_measures config_keys_price_def code_points_def amounts_json_def)
qed (simp_all add: configuration_bound_exact max_configuration_nodes_def max_configuration_bytes_def
    max_configuration_depth_def json_measures config_keys_price_def code_points_def)

lemma bounded_finite: "configuration_is_bounded v \<Longrightarrow> json_finite v"
  by (simp add: configuration_bound_exact)

lemma seal_payload_Inr:
  assumes "hex_digest H"
  shows "seal_payload H F version payload = Inr r \<longleftrightarrow>
    valid_policy_resolved H F r \<and> rc_policy_version r = version \<and> rc_configuration r = payload"
  using assms bounded_finite [of payload]
  by (cases r) (auto simp: seal_payload_def valid_policy_resolved_def policy_configuration_digest_def canonical_json_def
      length_prefixed_sha256_def hex_digest_def split: if_splits)

lemma seal_payload_ok:
  assumes "hex_digest H" and "component_identifier version" and "is_object payload" and "configuration_is_bounded payload"
  shows "\<exists>r. seal_payload H F version payload = Inr r"
  using assms bounded_finite [of payload]
  by (auto simp: seal_payload_def valid_policy_resolved_def policy_configuration_digest_def canonical_json_def
      length_prefixed_sha256_def hex_digest_def Let_def)

lemma resolve_typed_Inr:
  assumes "hex_digest H"
  shows "resolve_policy_configuration H F version c = Inr r \<longleftrightarrow>
    (\<forall>k. reserved_kind version = Some k \<longrightarrow> config_kind c = k) \<and> valid_policy_config c \<and>
    valid_policy_resolved H F r \<and> rc_policy_version r = version \<and> rc_configuration r = policy_config_json c"
  using seal_payload_Inr [OF assms, of F version "policy_config_json c" r]
  by (auto simp: resolve_policy_configuration_def valid_policy_resolved_def simp del: reserved_kind.simps split: option.splits)

lemma resolve_typed_ok:
  assumes "hex_digest H" and "component_identifier version" and "reserved_kind version = Some (config_kind c)"
    and "valid_policy_config c"
  shows "\<exists>r. resolve_policy_configuration H F version c = Inr r"
  using seal_payload_ok [OF assms(1,2) _ typed_config_bounded [OF assms(4)], of F] assms
  by (cases c) (simp_all add: resolve_policy_configuration_def is_object_def del: reserved_kind.simps)

section \<open>What validated inputs are\<close>

definition inputs_ok :: "signal list \<Rightarrow> run_state \<Rightarrow> budget_snapshot \<Rightarrow> bool" where
  "inputs_ok signals st b \<longleftrightarrow> length signals \<le> max_policy_signals \<and> valid_run_state st \<and> budget_preflight b \<and>
     valid_budget_snapshot b \<and> list_all (\<lambda>s. signal_preflight s \<and> valid_signal s) signals \<and>
     distinct (map sg_signal_id signals) \<and>
     list_all (\<lambda>s. sg_run_id s = rs_run_id st \<and> rs_current_event_id st \<in> set (sg_evidence_event_ids s) \<and>
       sg_created_at s \<le> rs_created_at st) signals"

lemma validated_inputs_eq:
  "validated_inputs signals st b =
     (if inputs_ok signals st b then Inr \<lparr>pi_signals = signals, pi_state = st, pi_budget = b\<rparr> else Inl PolicyInputError)"
  by (auto simp: validated_inputs_def inputs_ok_def list_all_iff list_ex_iff not_less not_le checks_eval)

definition decision_for :: "run_state \<Rightarrow> budget_snapshot \<Rightarrow> string \<Rightarrow> digest \<Rightarrow> invocation_decision \<Rightarrow> bool" where
  "decision_for st b version digest d \<longleftrightarrow> id_decision_id d = rs_decision_id st \<and> id_run_id d = rs_run_id st \<and>
     id_event_sequence d = rs_event_sequence st \<and> id_policy_version d = version \<and> id_configuration_digest d = digest \<and>
     id_budget_snapshot d = b \<and> id_created_at d = rs_created_at st"

lemma new_invocation_decision_Inr [simp]: "new_invocation_decision d = Inr e \<longleftrightarrow> e = d \<and> valid_invocation_decision d"
  by (auto simp: new_invocation_decision_def)

section \<open>The contract of a trigger policy\<close>

locale trigger_policy =
  fixes decide :: "signal list \<Rightarrow> run_state \<Rightarrow> budget_snapshot \<Rightarrow> policy_error + invocation_decision"
    and version :: string and digest :: digest
  assumes refuses: "\<not> inputs_ok signals st b \<Longrightarrow> decide signals st b = Inl PolicyInputError"
    and answers: "decide signals st b = Inr d \<Longrightarrow> valid_invocation_decision d \<and> decision_for st b version digest d"
begin

lemma decides_on_valid_inputs: "decide signals st b = Inr d \<Longrightarrow> inputs_ok signals st b"
  using refuses by fastforce

text \<open>A policy that keeps the contract passes the check of the budgeted policy.\<close>

lemma decision_passes_check:
  assumes "decide signals st b = Inr d"
  shows "inner_decision_matches (Some d) \<lparr>pi_signals = signals, pi_state = st, pi_budget = b\<rparr> version digest = Some d"
proof -
  note ok = answers [OF assms] and inputs = decides_on_valid_inputs [OF assms]
  have "length (id_reason_codes d) \<le> reason_code_count"
    using ok by (simp add: valid_invocation_decision_def reason_code_count_def invocation_reason_codes_def
        forced_invoke_reason_codes_def forced_silence_reason_codes_def signal_reason_codes_def)
  then have "invocation_decision_preflight d"
    using ok inputs
    unfolding invocation_decision_preflight_def valid_invocation_decision_def decision_for_def inputs_ok_def valid_run_state_def
    by (elim conjE, intro conjI) (assumption | simp)+
  with ok show ?thesis by (simp add: inner_decision_matches_def decision_for_def)
qed

end

interpretation never_invoke: trigger_policy "never_invoke_decide p" never_invoke_version "configuration_digest_of p" for p
  by unfold_locales
    (auto simp: never_invoke_decide_def reference_decision_def validated_inputs_eq decision_for_def split: if_splits)

interpretation always_invoke: trigger_policy "always_invoke_decide p" always_invoke_version "configuration_digest_of p" for p
  by unfold_locales
    (auto simp: always_invoke_decide_def reference_decision_def validated_inputs_eq decision_for_def split: if_splits)

interpretation scripted: trigger_policy "scripted_decide p" scripted_version "configuration_digest_of p" for p
  by unfold_locales
    (auto simp: scripted_decide_def reference_decision_def validated_inputs_eq decision_for_def split: if_splits prod.splits)

interpretation budgeted: trigger_policy "budgeted_decide p" budgeted_version "configuration_digest_of p" for p
  by unfold_locales
    (auto simp: budgeted_decide_def budgeted_decision_def bind_result_Inr validated_inputs_eq decision_for_def split: if_splits option.splits)

section \<open>The reference policies answer\<close>

lemma single_reason_decision:
  assumes "inputs_ok signals st b" and "component_identifier version" and "sha256_digest digest"
    and "reason \<in> set invocation_reason_codes" and "reason \<notin> set risk_threshold_reason_codes"
    and "reason \<noteq> Reason_COOLDOWN_ACTIVE"
    and "invoke \<or> reason \<notin> set forced_invoke_reason_codes" and "invoke \<longrightarrow> reason \<notin> set forced_silence_reason_codes"
  shows "\<exists>d. reference_decision \<lparr>pi_signals = signals, pi_state = st, pi_budget = b\<rparr> invoke reason version digest = Inr d \<and>
    id_invoke d = invoke \<and> id_reason_codes d = [reason]"
proof -
  have "1 \<le> length invocation_reason_codes"
    by (simp add: invocation_reason_codes_def forced_invoke_reason_codes_def)
  then show ?thesis
    using assms by (simp add: reference_decision_def valid_invocation_decision_def inputs_ok_def valid_run_state_def)
qed

lemma scripted_step_cases: "(invoke, reason) = scripted_step script n \<Longrightarrow>
    reason \<in> {Reason_SCRIPT_EXHAUSTED, Reason_SCRIPTED_INVOKE, Reason_SCRIPTED_SILENCE} \<and> invoke = (reason = Reason_SCRIPTED_INVOKE)"
  by (auto simp: scripted_step_def split: if_splits)

section \<open>The reservation test\<close>

lemma budget_denied_eq:
  assumes "valid_budget_snapshot b" and "valid_budget_amounts r"
  shows "budget_denied b r = Inr (\<not> (\<forall>f. amount f r \<le> headroom f b))"
proof (cases "\<forall>f. amount f r \<le> headroom f b")
  case True
  with reserve_ok [OF assms] show ?thesis by (simp add: budget_denied_def)
next
  case False
  with reserve_denied [OF assms] show ?thesis by (simp add: budget_denied_def)
qed

section \<open>What a constructed policy holds\<close>

lemma versions_ok [simp]:
  "component_identifier never_invoke_version" "component_identifier always_invoke_version"
  "component_identifier scripted_version" "component_identifier budgeted_version"
  by code_simp+

lemma versions_reserved:
  "reserved_kind never_invoke_version = Some Kind_NEVER" "reserved_kind always_invoke_version = Some Kind_ALWAYS"
  "reserved_kind scripted_version = Some Kind_SCRIPTED" "reserved_kind budgeted_version = Some Kind_BUDGETED"
  by code_simp+

lemma script_of_config [simp]: "script_of (policy_config_json (ScriptedPolicyConfig script)) = script"
proof -
  have "List.map_filter (\<lambda>x. case x of JBool b \<Rightarrow> Some b | _ \<Rightarrow> None) (map JBool bs) = bs" for bs
    by (induction bs) (simp_all add: map_filter_simps)
  then show ?thesis by (simp add: script_of_def obj_get_def)
qed

lemma reservation_of_config [simp]: "reservation_of (policy_config_json (BudgetedPolicyConfig r)) = r"
proof (rule budget_amounts_eqI)
  fix f
  show "amount f (reservation_of (policy_config_json (BudgetedPolicyConfig r))) = amount f r"
    by (cases f) (simp_all add: reservation_of_def field_name_def obj_opt_def obj_get_def amounts_json_def)
qed

lemma new_scripted_Inr:
  assumes "hex_digest H"
  shows "new_scripted H F script = Inr p \<longleftrightarrow> length script \<le> max_script_decisions \<and> sc_decisions p = script \<and>
    valid_policy_resolved H F (rf_resolved p) \<and> rc_policy_version (rf_resolved p) = scripted_version \<and>
    rc_configuration (rf_resolved p) = policy_config_json (ScriptedPolicyConfig script)"
proof (cases "resolve_policy_configuration H F scripted_version (ScriptedPolicyConfig script)")
  case (Inl e)
  then show ?thesis
    using resolve_typed_Inr [OF assms, of F scripted_version "ScriptedPolicyConfig script" "rf_resolved p"]
    by (auto simp: new_scripted_def versions_reserved simp del: policy_config_json.simps reserved_kind.simps)
next
  case (Inr r)
  then have "script_of (rc_configuration r) = script" and ok: "length script \<le> max_script_decisions"
    by (simp_all add: resolve_typed_Inr [OF assms] del: policy_config_json.simps)
  with Inr have "new_scripted H F script = Inr p \<longleftrightarrow> p = \<lparr>rf_resolved = r, sc_decisions = script\<rparr>"
    by (auto simp: new_scripted_def)
  also have "\<dots> \<longleftrightarrow> sc_decisions p = script \<and> rf_resolved p = r" by (cases p) auto
  also have "rf_resolved p = r \<longleftrightarrow> resolve_policy_configuration H F scripted_version (ScriptedPolicyConfig script) = Inr (rf_resolved p)"
    using Inr by auto
  finally show ?thesis
    using ok by (simp add: resolve_typed_Inr [OF assms] versions_reserved del: policy_config_json.simps reserved_kind.simps)
qed

lemma snapshot_inner_Some:
  "snapshot_inner_policy H F inner = Some r \<longleftrightarrow> r = cp_resolved inner \<and> valid_policy_resolved H F r \<and>
     rc_policy_version r = cp_policy_version inner \<and> rc_configuration_digest r = cp_configuration_digest inner"
  by (auto simp: snapshot_inner_policy_def resolved_preflight_def valid_policy_resolved_def)

lemma new_budgeted_Inr:
  assumes "hex_digest H" and "new_budgeted H F inner r = Inr p"
  shows "valid_policy_config (BudgetedPolicyConfig r)" and "bp_reservation p = r" and "bp_inner_decide p = cp_decide inner"
    and "bp_inner_version p = cp_policy_version inner" and "bp_inner_digest p = cp_configuration_digest inner"
    and "valid_policy_resolved H F (rf_resolved p)" and "valid_policy_resolved H F (cp_resolved inner)"
    and "rc_configuration (rf_resolved p) = composite_json r (cp_resolved inner)"
    and "rc_policy_version (rf_resolved p) = budgeted_version"
  using assms
  by (auto simp: new_budgeted_def bind_result_Inr resolve_typed_Inr snapshot_inner_Some seal_payload_Inr
      simp del: policy_config_json.simps valid_policy_config.simps reserved_kind.simps split: option.splits if_splits)

end
