(* ===== verification/Policy_Properties.thy ===== *)
theory Policy_Properties
  imports Trigger_Facts
begin

text \<open>
  The properties of the trigger policies.
\<close>

section \<open>The budgeted policy stays within the budget\<close>

lemma amounts_valid: "valid_policy_config (BudgetedPolicyConfig r) \<Longrightarrow> valid_budget_amounts r"
  by simp

lemma budgeted_decision_valid:
  assumes i: "valid_invocation_decision i" and b: "valid_budget_snapshot b" and digest: "sha256_digest (configuration_digest_of p)"
    and st: "id_decision_id i = rs_decision_id st" "id_run_id i = rs_run_id st" "id_event_sequence i = rs_event_sequence st"
  shows "valid_invocation_decision (budgeted_decision p \<lparr>pi_signals = signals, pi_state = st, pi_budget = b\<rparr> i denied)"
proof (cases denied)
  case False
  with i b digest show ?thesis by (simp add: budgeted_decision_def valid_invocation_decision_def flip: st)
next
  case True
  have "uuid4 (rs_decision_id st)" "uuid4 (rs_run_id st)" "1 \<le> rs_event_sequence st" "opt_all unit_interval (id_risk_score i)"
    using i unfolding valid_invocation_decision_def st by blast+
  with True b digest show ?thesis
    by (simp add: budgeted_decision_def valid_invocation_decision_def invocation_reason_codes_def forced_invoke_reason_codes_def
        forced_silence_reason_codes_def risk_threshold_reason_codes_def)
qed

lemma budgeted_decide_eq:
  assumes "new_budgeted H F inner r = Inr p" and hex: "hex_digest H" and ok: "inputs_ok signals st b"
  defines "inputs \<equiv> \<lparr>pi_signals = signals, pi_state = st, pi_budget = b\<rparr>"
  shows "budgeted_decide p signals st b =
    (case inner_decision_matches (cp_decide inner signals st b) inputs (cp_policy_version inner) (cp_configuration_digest inner) of
       None \<Rightarrow> Inl PolicyContractError
     | Some i \<Rightarrow> Inr (budgeted_decision p inputs i (id_invoke i \<and> \<not> (\<forall>f. amount f r \<le> headroom f b))))"
proof -
  note p = new_budgeted_Inr [OF hex assms(1)]
  have b: "valid_budget_snapshot b" using ok by (simp add: inputs_ok_def)
  have digest: "sha256_digest (configuration_digest_of p)"
    using p(6) by (simp add: valid_policy_resolved_def configuration_digest_of_def)
  let ?found = "inner_decision_matches (cp_decide inner signals st b) inputs (cp_policy_version inner) (cp_configuration_digest inner)"
  show ?thesis
  proof (cases ?found)
    case None
    with ok p(2-5) show ?thesis by (simp add: budgeted_decide_def validated_inputs_eq inputs_def)
  next
    case (Some i)
    then have i: "valid_invocation_decision i" "id_decision_id i = rs_decision_id st" "id_run_id i = rs_run_id st"
      "id_event_sequence i = rs_event_sequence st"
      by (auto simp: inner_decision_matches_def inputs_def split: option.splits if_splits)
    have denied: "(if id_invoke i then budget_denied b r else Inr False) = Inr (id_invoke i \<and> \<not> (\<forall>f. amount f r \<le> headroom f b))"
      using budget_denied_eq [OF b amounts_valid [OF p(1)]] by simp
    have "budgeted_decide p signals st b = bind_result (if id_invoke i then budget_denied b r else Inr False)
        (\<lambda>denied. new_invocation_decision (budgeted_decision p inputs i denied))"
      using ok p(2-5) Some by (simp add: budgeted_decide_def validated_inputs_eq inputs_def)
    then show ?thesis
      using budgeted_decision_valid [OF i(1) b digest i(2-4), of signals] Some unfolding denied
      by (simp add: new_invocation_decision_def inputs_def)
  qed
qed

text \<open>
  C27. A budgeted policy spends only what fits: whatever the wrapped policy does, a decision of the
  budgeted policy invokes exactly when the wrapped policy asked for it and the configured reservation
  can be reserved from the budget it was given; a request that does not fit becomes silence
  with the reason that the budget is exhausted. Nothing else can come out than such a decision, an input
  error or a contract error.
\<close>

theorem budgeted_policy_spends_within_budget:
  assumes "new_budgeted H F inner r = Inr p" and "hex_digest H"
  shows "budgeted_decide p signals st b \<in> {Inl PolicyInputError, Inl PolicyContractError} \<or>
    (\<exists>d i. budgeted_decide p signals st b = Inr d \<and> cp_decide inner signals st b = Some i \<and>
       valid_invocation_decision d \<and> decision_for st b budgeted_version (configuration_digest_of p) d \<and>
       id_invoke d = (id_invoke i \<and> (\<exists>b'. reserve b r = Inr b')) \<and>
       id_reason_codes d = (if id_invoke i \<and> \<not> id_invoke d then [Reason_BUDGET_EXHAUSTED] else id_reason_codes i))"
proof (cases "inputs_ok signals st b")
  case False
  then show ?thesis by (simp add: budgeted.refuses)
next
  case ok: True
  have b: "valid_budget_snapshot b" using ok by (simp add: inputs_ok_def)
  note fits = governor.take_from_iff [OF b amounts_valid [OF new_budgeted_Inr(1) [OF assms(2,1)]]]
  show ?thesis
  proof (cases "inner_decision_matches (cp_decide inner signals st b) \<lparr>pi_signals = signals, pi_state = st, pi_budget = b\<rparr>
      (cp_policy_version inner) (cp_configuration_digest inner)")
    case None
    then show ?thesis using budgeted_decide_eq [OF assms ok] by simp
  next
    case (Some i)
    then have "cp_decide inner signals st b = Some i"
      by (auto simp: inner_decision_matches_def split: option.splits if_splits)
    moreover define d where "d = budgeted_decision p \<lparr>pi_signals = signals, pi_state = st, pi_budget = b\<rparr> i
      (id_invoke i \<and> \<not> (\<forall>f. amount f r \<le> headroom f b))"
    ultimately have "cp_decide inner signals st b = Some i" and d: "budgeted_decide p signals st b = Inr d"
      using budgeted_decide_eq [OF assms ok] Some by simp_all
    moreover have "id_invoke d = (id_invoke i \<and> (\<forall>f. amount f r \<le> headroom f b))"
      "id_reason_codes d = (if id_invoke i \<and> \<not> id_invoke d then [Reason_BUDGET_EXHAUSTED] else id_reason_codes i)"
      by (auto simp: d_def budgeted_decision_def)
    ultimately show ?thesis using budgeted.answers [OF d] fits by blast
  qed
qed

section \<open>Reference policies always answer\<close>

text \<open>The reference policies as \<open>BudgetedPolicy\<close> sees them: an error of \<open>decide\<close> is an exception.\<close>

definition configured :: "('a reference_policy_scheme \<Rightarrow> signal list \<Rightarrow> run_state \<Rightarrow> budget_snapshot \<Rightarrow>
    policy_error + invocation_decision) \<Rightarrow> string \<Rightarrow> 'a reference_policy_scheme \<Rightarrow> configured_policy" where
  "configured decide version p = \<lparr>cp_decide = (\<lambda>signals st b. case decide p signals st b of Inl e \<Rightarrow> None | Inr d \<Rightarrow> Some d),
     cp_policy_version = version, cp_configuration_digest = configuration_digest_of p, cp_resolved = rf_resolved p,
     cp_is_budgeted = False\<rparr>"

lemma scripted_answers:
  assumes p: "new_scripted H F script = Inr p" and hex: "hex_digest H" and ok: "inputs_ok signals st b"
  shows "\<exists>d. scripted_decide p signals st b = Inr d \<and>
    (id_invoke d, id_reason_codes d) = map_prod id (\<lambda>r. [r]) (scripted_step script (rs_decision_ordinal st - 1))"
proof -
  have p': "sc_decisions p = script" "sha256_digest (configuration_digest_of p)"
    using p by (simp_all add: new_scripted_Inr [OF hex] valid_policy_resolved_def configuration_digest_of_def
        del: policy_config_json.simps)
  obtain invoke reason where step: "scripted_step script (rs_decision_ordinal st - 1) = (invoke, reason)" by fastforce
  have reason: "reason \<in> {Reason_SCRIPT_EXHAUSTED, Reason_SCRIPTED_INVOKE, Reason_SCRIPTED_SILENCE}"
    "invoke = (reason = Reason_SCRIPTED_INVOKE)"
    using scripted_step_cases [OF step [symmetric]] by blast+
  have "\<exists>d. reference_decision \<lparr>pi_signals = signals, pi_state = st, pi_budget = b\<rparr> invoke reason scripted_version
      (configuration_digest_of p) = Inr d \<and> id_invoke d = invoke \<and> id_reason_codes d = [reason]"
    using reason
    by (intro single_reason_decision [OF ok versions_ok(3) p'(2)])
      (auto simp: invocation_reason_codes_def forced_invoke_reason_codes_def forced_silence_reason_codes_def
        risk_threshold_reason_codes_def)
  with ok p'(1) step show ?thesis by (auto simp: scripted_decide_def validated_inputs_eq)
qed

lemma code_points_le: "code_points s \<le> length s"
  by (simp add: code_points_def)

lemma scripted_composite_bounded:
  assumes "valid_policy_config (BudgetedPolicyConfig r)" and s: "new_scripted H F script = Inr s" and hex: "hex_digest H"
  shows "configuration_is_bounded (composite_json r (rf_resolved s))"
proof -
  have c: "length script \<le> 10000" "rc_configuration (rf_resolved s) = policy_config_json (ScriptedPolicyConfig script)"
    "rc_policy_version (rf_resolved s) = scripted_version"
    and digest: "code_points (rc_configuration_digest (rf_resolved s)) \<le> 64"
    using s code_points_le [of "rc_configuration_digest (rf_resolved s)"]
    by (simp_all add: new_scripted_Inr [OF hex] valid_policy_resolved_def sha256_digest_def max_script_decisions_def
        del: policy_config_json.simps)
  have "0 \<le> amount f r" "amount f r \<le> max_signed_64" for f
    using assms(1) by (simp_all add: amounts_bounded_def list_all_iff)
  then have "int_cost (amount f r) \<le> 23" for f by (rule int_cost_le)
  note cost = this [of F_model_calls] this [of F_input_tokens] this [of F_output_tokens]
    this [of F_canonical_token_equivalents] this [of F_latency_us] this [of F_interventions] this [of F_schema_repairs]
  show ?thesis
    using cost c digest
    by (simp add: composite_json_def configuration_bound_exact max_configuration_nodes_def max_configuration_bytes_def
        max_configuration_depth_def json_measures config_keys_price_def code_points_def amounts_json_def scripted_sums
        scripted_version_def del: map_map)
qed

lemma budgeted_script_built:
  assumes "length script \<le> max_script_decisions" and "valid_policy_config (BudgetedPolicyConfig r)" and "hex_digest H"
  shows "\<exists>s p. new_scripted H F script = Inr s \<and> new_budgeted H F (configured scripted_decide scripted_version s) r = Inr p"
proof -
  have "valid_policy_config (ScriptedPolicyConfig script)" using assms(1) by simp
  then obtain s where s: "new_scripted H F script = Inr s"
    using resolve_typed_ok [OF assms(3) versions_ok(3), of "ScriptedPolicyConfig script" F]
    by (auto simp: new_scripted_def versions_reserved simp del: policy_config_json.simps reserved_kind.simps)
  let ?inner = "configured scripted_decide scripted_version s"
  have rs: "valid_policy_resolved H F (rf_resolved s)" "rc_policy_version (rf_resolved s) = scripted_version"
    "rc_configuration (rf_resolved s) = policy_config_json (ScriptedPolicyConfig script)"
    using s by (simp_all add: new_scripted_Inr [OF assms(3)] del: policy_config_json.simps)
  have inner: "snapshot_inner_policy H F ?inner = Some (rf_resolved s)"
    using rs by (simp add: snapshot_inner_Some configured_def configuration_digest_of_def)
  obtain base where base: "resolve_policy_configuration H F budgeted_version (BudgetedPolicyConfig r) = Inr base"
    using resolve_typed_ok [OF assms(3) versions_ok(4) _ assms(2)] by (auto simp: versions_reserved simp del: reserved_kind.simps)
  obtain sealed where sealed: "seal_payload H F budgeted_version (composite_json r (rf_resolved s)) = Inr sealed"
    using seal_payload_ok [OF assms(3) versions_ok(4) _ scripted_composite_bounded [OF assms(2) s assms(3)]]
    by (auto simp: is_object_def composite_json_def)
  have "scripted_version \<noteq> budgeted_version"
    "obj_get ''policy_kind'' (rc_configuration (rf_resolved s)) \<noteq> Some (JStr ''budgeted'')"
    by (simp_all add: scripted_version_def budgeted_version_def rs(3) obj_get_def)
  then obtain p where p: "new_budgeted H F ?inner r = Inr p"
    using base inner sealed by (simp add: new_budgeted_def configured_def)
  with s show ?thesis by blast
qed

text \<open>
  C28. A script under a budget always decides: for every script of at most 10000 decisions and every valid
  reservation the scripted policy and the budgeted policy around it can be built, and on every valid
  input the result is a decision, which invokes exactly when the script says so at this ordinal (and is
  not exhausted) and the reservation fits the budget.
\<close>

theorem budgeted_scripts_always_decide:
  assumes "length script \<le> max_script_decisions" and "valid_policy_config (BudgetedPolicyConfig r)" and "hex_digest H"
    and "inputs_ok signals st b"
  shows "\<exists>s p d. new_scripted H F script = Inr s \<and>
    new_budgeted H F (configured scripted_decide scripted_version s) r = Inr p \<and>
    budgeted_decide p signals st b = Inr d \<and>
    id_invoke d = (rs_decision_ordinal st \<le> int (length script) \<and> script ! nat (rs_decision_ordinal st - 1) \<and>
      (\<exists>b'. reserve b r = Inr b'))"
proof -
  obtain s p where s: "new_scripted H F script = Inr s"
    and p: "new_budgeted H F (configured scripted_decide scripted_version s) r = Inr p"
    using budgeted_script_built [OF assms(1-3)] by blast
  obtain i where i: "scripted_decide s signals st b = Inr i"
    "id_invoke i = fst (scripted_step script (rs_decision_ordinal st - 1))"
    using scripted_answers [OF s assms(3,4)] by (metis fst_conv fst_map_prod id_apply)
  have "budgeted_decide p signals st b = Inr (budgeted_decision p \<lparr>pi_signals = signals, pi_state = st, pi_budget = b\<rparr> i
      (id_invoke i \<and> \<not> (\<forall>f. amount f r \<le> headroom f b)))"
    using budgeted_decide_eq [OF p assms(3,4)] scripted.decision_passes_check [OF i(1)] i(1) by (simp add: configured_def)
  moreover have "fst (scripted_step script n) = (n < int (length script) \<and> script ! nat n)" for n
    by (simp add: scripted_step_def)
  moreover have "valid_budget_snapshot b" using assms(4) by (simp add: inputs_ok_def)
  ultimately show ?thesis
    using s p i(2) governor.take_from_iff [OF _ amounts_valid [OF assms(2)], of b]
    by (auto simp: budgeted_decision_def)
qed

section \<open>A concrete run\<close>

definition sample_run_state :: run_state where
  "sample_run_state = \<lparr>rs_decision_id = sample_uuid 4, rs_run_id = sample_uuid 1, rs_current_event_id = sample_uuid 2,
     rs_event_sequence = 1, rs_decision_ordinal = 1, rs_created_at = 1\<rparr>"

lemma sample_inputs: "inputs_ok [] sample_run_state sample_snapshot"
proof -
  have "budget_preflight sample_snapshot"
    by (simp add: budget_preflight_def amounts_bounded_def list_all_iff sample_snapshot_def zero_amounts_def max_signed_64_def)
      (simp add: sample_limits_def budget_amounts.defs)
  then show ?thesis
    using sample_snapshot_valid
    by (simp add: inputs_ok_def valid_run_state_def sample_run_state_def max_signed_64_def max_policy_signals_def)
qed

lemma sample_reservation_valid: "valid_policy_config (BudgetedPolicyConfig sample_reservation)"
  by (simp add: amounts_bounded_def valid_budget_amounts_def list_all_iff sample_reservation_def max_signed_64_def)
    (simp add: amounts_of_def)

theorem budgeted_scripts_always_decide_witness:
  "\<exists>s p d. new_scripted zero_hash ratio_text [True] = Inr s \<and>
    new_budgeted zero_hash ratio_text (configured scripted_decide scripted_version s) sample_reservation = Inr p \<and>
    budgeted_decide p [] sample_run_state sample_snapshot = Inr d \<and>
    id_invoke d = (rs_decision_ordinal sample_run_state \<le> int (length [True]) \<and>
      [True] ! nat (rs_decision_ordinal sample_run_state - 1) \<and> (\<exists>b'. reserve sample_snapshot sample_reservation = Inr b'))"
  by (rule budgeted_scripts_always_decide [OF _ sample_reservation_valid hex_digest_zero_hash sample_inputs])
    (simp add: max_script_decisions_def)

theorem budgeted_policy_spends_within_budget_witness:
  "\<exists>s p. new_budgeted zero_hash ratio_text (configured scripted_decide scripted_version s) sample_reservation = Inr p \<and>
    (budgeted_decide p [] sample_run_state sample_snapshot \<in> {Inl PolicyInputError, Inl PolicyContractError} \<or>
     (\<exists>d i. budgeted_decide p [] sample_run_state sample_snapshot = Inr d \<and>
       cp_decide (configured scripted_decide scripted_version s) [] sample_run_state sample_snapshot = Some i \<and>
       valid_invocation_decision d \<and> decision_for sample_run_state sample_snapshot budgeted_version (configuration_digest_of p) d \<and>
       id_invoke d = (id_invoke i \<and> (\<exists>b'. reserve sample_snapshot sample_reservation = Inr b')) \<and>
       id_reason_codes d = (if id_invoke i \<and> \<not> id_invoke d then [Reason_BUDGET_EXHAUSTED] else id_reason_codes i)))"
proof -
  obtain s p where p: "new_budgeted zero_hash ratio_text (configured scripted_decide scripted_version s) sample_reservation = Inr p"
    using budgeted_script_built [OF _ sample_reservation_valid hex_digest_zero_hash, where script = "[True]" and F = ratio_text]
    by (auto simp: max_script_decisions_def)
  show ?thesis
    using p budgeted_policy_spends_within_budget [OF p hex_digest_zero_hash, of "[]" sample_run_state sample_snapshot] by blast
qed

end
