(* ===== verification/Coordinator.thy ===== *)
theory Coordinator
  imports Repository_Facts
begin

text \<open>
  The cycle coordinator (\<open>runtime/cycles.py\<close>): commands for the repository are built from a validated
  cycle value and checked by building the revision they ask for, then sent. The coordinator keeps no
  state of its own, so its operations are functions of the repository.

  \<open>Coordinator_validation\<close> is the pydantic error of a command constructor that stands outside the
  handlers of the module.
\<close>

datatype (plugins only: code size) coordinator_error =
    CycleCoordinatorInputError string
  | CycleCoordinatorStateError string string
  | CycleCoordinatorIdentityError string
  | Coordinator_validation
  | Repository_failure repo_error

datatype (plugins only: code size) cycle_source = Source_receipt cycle_receipt | Source_record cycle_record

definition valid_grounding_pin :: "grounding_pin \<Rightarrow> bool" where
  "valid_grounding_pin g \<longleftrightarrow> component_identifier (gp_grounding_version g) \<and>
     is_object (gp_grounding_configuration g) \<and> json_finite (gp_grounding_configuration g) \<and>
     sha256_digest (gp_grounding_configuration_digest g)"

section \<open>Checks of the inputs\<close>

definition source_cycle :: "hash_fun \<Rightarrow> cycle_source \<Rightarrow> string \<Rightarrow> coordinator_error + cycle_record" where
  "source_cycle H source operation =
     (case source of
        Source_receipt r \<Rightarrow>
          if valid_cycle_receipt H r then Inr (cr_cycle r) else Inl (CycleCoordinatorInputError operation)
      | Source_record c \<Rightarrow>
          if valid_cycle_record H c then Inr c else Inl (CycleCoordinatorInputError operation))"

fun cycle_state_value :: "cycle_state \<Rightarrow> string" where
  "cycle_state_value Cycle_PENDING = ''pending''"
| "cycle_state_value Cycle_RESERVED = ''reserved''"
| "cycle_state_value Cycle_RUNNING = ''running''"
| "cycle_state_value Cycle_COMMITTED = ''committed''"
| "cycle_state_value Cycle_FAILED = ''failed''"

definition state_guard :: "cycle_record \<Rightarrow> string \<Rightarrow> cycle_state list \<Rightarrow> bool \<times> coordinator_error" where
  "state_guard c operation expected =
     (cy_state c \<notin> set expected, CycleCoordinatorStateError operation
        (join '' or '' (map (\<lambda>s. ''a '' @ cycle_state_value s @ '' cycle'') expected)))"

definition input_guard :: "bool \<Rightarrow> string \<Rightarrow> bool \<times> coordinator_error" where
  "input_guard bad operation = (bad, CycleCoordinatorInputError operation)"

text \<open>\<open>_validated_command\<close> on a command whose constructor is not guarded.\<close>

definition built_command :: "('a \<Rightarrow> bool) \<Rightarrow> 'a \<Rightarrow> coordinator_error + 'a" where
  "built_command valid cmd = (if valid cmd then Inr cmd else Inl Coordinator_validation)"

section \<open>The command factory\<close>

definition begin_command :: "invocation_decision \<Rightarrow> grounding_pin \<Rightarrow> timestamp \<Rightarrow> coordinator_error + begin_cycle_cmd" where
  "begin_command decision grounding created_at =
     (let operation = ''begin_cycle'' in
      checks
        [input_guard (\<not> valid_invocation_decision decision) operation,
         (\<not> id_invoke decision, CycleCoordinatorStateError operation ''an invoking decision''),
         input_guard (created_at < id_created_at decision) operation,
         input_guard (\<not> valid_grounding_pin grounding) operation]
        (let cmd = \<lparr>bc_run_id = id_run_id decision, bc_invocation_decision_id = id_decision_id decision,
              bc_grounding_version = gp_grounding_version grounding,
              bc_grounding_configuration = gp_grounding_configuration grounding,
              bc_grounding_configuration_digest = gp_grounding_configuration_digest grounding,
              bc_requested_delivery_target = gp_requested_delivery_target grounding, bc_created_at = created_at\<rparr>
         in if valid_begin_cycle cmd then Inr cmd else Inl (CycleCoordinatorInputError operation)))"

definition reserved_candidate :: "cycle_record \<Rightarrow> budget_amounts \<Rightarrow> timestamp \<Rightarrow> cycle_record" where
  "reserved_candidate c reservation updated_at =
     c\<lparr>cy_revision := cy_revision c + 1, cy_state := Cycle_RESERVED, cy_budget_reservation := Some reservation,
       cy_updated_at := updated_at\<rparr>"

definition reserve_command :: "hash_fun \<Rightarrow> cycle_source \<Rightarrow> budget_amounts \<Rightarrow> timestamp \<Rightarrow>
    coordinator_error + reserve_cycle_cmd" where
  "reserve_command H source reservation updated_at =
     (let operation = ''reserve_cycle'' in
      bind_result (source_cycle H source operation) (\<lambda>c.
      checks
        [state_guard c operation [Cycle_PENDING],
         input_guard (\<not> valid_budget_amounts reservation) operation,
         input_guard (updated_at < cy_updated_at c) operation,
         input_guard (\<not> valid_cycle_record H (reserved_candidate c reservation updated_at)) operation]
        (built_command valid_reserve_cycle
           \<lparr>rc_run_id = cy_run_id c, rc_cycle_id = cy_cycle_id c, rc_expected_revision = cy_revision c,
            rc_reservation = reservation, rc_updated_at = updated_at\<rparr>)))"

definition running_candidate :: "cycle_record \<Rightarrow> digest \<Rightarrow> timestamp \<Rightarrow> cycle_record" where
  "running_candidate c batch_digest updated_at =
     c\<lparr>cy_revision := cy_revision c + 1, cy_state := Cycle_RUNNING, cy_batch_digest := Some batch_digest,
       cy_updated_at := updated_at\<rparr>"

definition start_command :: "hash_fun \<Rightarrow> cycle_source \<Rightarrow> digest \<Rightarrow> timestamp \<Rightarrow> coordinator_error + start_cycle_cmd" where
  "start_command H source batch_digest updated_at =
     (let operation = ''mark_cycle_running'' in
      bind_result (source_cycle H source operation) (\<lambda>c.
      checks
        [state_guard c operation [Cycle_RESERVED],
         input_guard (updated_at < cy_updated_at c) operation,
         input_guard (\<not> valid_cycle_record H (running_candidate c batch_digest updated_at)) operation]
        (built_command valid_start_cycle
           \<lparr>sc_run_id = cy_run_id c, sc_cycle_id = cy_cycle_id c, sc_expected_revision = cy_revision c,
            sc_batch_digest = batch_digest, sc_updated_at = updated_at\<rparr>)))"

record commit_request =
  cm_settlement :: budget_amounts
  cm_validated_delta :: memory_delta
  cm_memory_id_assignments :: "memory_id_assignment list"
  cm_intervention :: intervention_decision
  cm_selector_provenance :: "json option"
  cm_delivery :: "enqueue_delivery option"
  cm_updated_at :: timestamp
  cm_model_call_digests :: "digest list"
  cm_model_call_latencies_us :: "int list"

definition committed_candidate :: "cycle_record \<Rightarrow> commit_request \<Rightarrow> cycle_record" where
  "committed_candidate c q =
     c\<lparr>cy_revision := cy_revision c + 1, cy_state := Cycle_COMMITTED, cy_budget_settlement := Some (cm_settlement q),
       cy_model_call_digests := cm_model_call_digests q, cy_model_call_latencies_us := cm_model_call_latencies_us q,
       cy_validated_delta := Some (cm_validated_delta q), cy_memory_id_assignments := cm_memory_id_assignments q,
       cy_intervention := Some (cm_intervention q), cy_selector_provenance := cm_selector_provenance q,
       cy_updated_at := cm_updated_at q\<rparr>"

definition commit_command :: "hash_fun \<Rightarrow> cycle_source \<Rightarrow> commit_request \<Rightarrow> coordinator_error + commit_cycle_cmd" where
  "commit_command H source q =
     (let operation = ''commit_cycle'' in
      bind_result (source_cycle H source operation) (\<lambda>c.
      let delta = cm_validated_delta q; verdict = cm_intervention q in
      checks
        [state_guard c operation [Cycle_RUNNING],
         input_guard (\<not> valid_budget_amounts (cm_settlement q)) operation,
         input_guard (\<not> valid_memory_delta delta) operation,
         input_guard (\<not> list_all valid_memory_id_assignment (cm_memory_id_assignments q)) operation,
         input_guard (\<not> valid_intervention_decision verdict) operation,
         input_guard (\<not> opt_all valid_enqueue_delivery (cm_delivery q)) operation,
         input_guard (list_ex (\<lambda>n. n < 0) (cm_model_call_latencies_us q)) operation,
         input_guard (cm_updated_at q < cy_updated_at c) operation,
         (md_run_id delta \<noteq> cy_run_id c \<or> iv_run_id verdict \<noteq> cy_run_id c \<or> iv_cycle_id verdict \<noteq> cy_cycle_id c,
            CycleCoordinatorIdentityError operation),
         input_guard (\<not> (cy_updated_at c \<le> md_created_at delta \<and> md_created_at delta \<le> cm_updated_at q \<and>
            cy_updated_at c \<le> iv_created_at verdict \<and> iv_created_at verdict \<le> cm_updated_at q)) operation,
         input_guard (iv_created_at verdict < md_created_at delta) operation,
         input_guard (\<not> valid_cycle_record H (committed_candidate c q)) operation]
        (built_command valid_commit_cycle
           \<lparr>cc_run_id = cy_run_id c, cc_cycle_id = cy_cycle_id c, cc_expected_revision = cy_revision c,
            cc_settlement = cm_settlement q, cc_model_call_digests = cm_model_call_digests q,
            cc_model_call_latencies_us = cm_model_call_latencies_us q, cc_validated_delta = delta,
            cc_memory_id_assignments = cm_memory_id_assignments q, cc_intervention = verdict,
            cc_selector_provenance = cm_selector_provenance q, cc_delivery = cm_delivery q,
            cc_updated_at = cm_updated_at q\<rparr>)))"

record fail_request =
  fq_reason :: reason_code
  fq_updated_at :: timestamp
  fq_settlement :: "budget_amounts option"
  fq_model_call_digests :: "digest list"
  fq_model_call_latencies_us :: "int list"

definition failed_candidate :: "cycle_record \<Rightarrow> fail_request \<Rightarrow> budget_amounts option \<Rightarrow> cycle_record" where
  "failed_candidate c q settlement =
     c\<lparr>cy_revision := cy_revision c + 1, cy_state := Cycle_FAILED, cy_budget_settlement := settlement,
       cy_model_call_digests := fq_model_call_digests q, cy_model_call_latencies_us := fq_model_call_latencies_us q,
       cy_failure_reason := Some (fq_reason q), cy_updated_at := fq_updated_at q\<rparr>"

definition actual_settlement :: "cycle_record \<Rightarrow> fail_request \<Rightarrow> budget_amounts option" where
  "actual_settlement c q =
     (if fq_reason q = Reason_FAILED_UNKNOWN_COST then cy_budget_reservation c else fq_settlement q)"

definition fail_command :: "hash_fun \<Rightarrow> cycle_source \<Rightarrow> fail_request \<Rightarrow> coordinator_error + fail_cycle_cmd" where
  "fail_command H source q =
     (let operation = ''fail_cycle''; unknown = (fq_reason q = Reason_FAILED_UNKNOWN_COST);
          receipts = (fq_model_call_digests q \<noteq> [] \<or> fq_model_call_latencies_us q \<noteq> []) in
      bind_result (source_cycle H source operation) (\<lambda>c.
      let actual = actual_settlement c q in
      checks
        [state_guard c operation [Cycle_PENDING, Cycle_RESERVED, Cycle_RUNNING],
         input_guard (\<not> opt_all valid_budget_amounts (fq_settlement q)) operation,
         input_guard (list_ex (\<lambda>n. n < 0) (fq_model_call_latencies_us q)) operation,
         input_guard (fq_updated_at q < cy_updated_at c) operation,
         (unknown \<and> cy_state c \<noteq> Cycle_RUNNING, CycleCoordinatorStateError operation ''a running cycle''),
         input_guard (unknown \<and> fq_settlement q \<noteq> None \<and> fq_settlement q \<noteq> cy_budget_reservation c) operation,
         input_guard (cy_state c = Cycle_PENDING \<and> (actual \<noteq> None \<or> receipts)) operation,
         input_guard (cy_state c = Cycle_RESERVED \<and> (actual = None \<or> receipts)) operation,
         input_guard (cy_state c = Cycle_RUNNING \<and> actual = None) operation,
         input_guard (\<not> valid_cycle_record H (failed_candidate c q actual)) operation]
        (built_command valid_fail_cycle
           \<lparr>fc_run_id = cy_run_id c, fc_cycle_id = cy_cycle_id c, fc_expected_revision = cy_revision c,
            fc_reason = fq_reason q, fc_settlement = actual, fc_model_call_digests = fq_model_call_digests q,
            fc_model_call_latencies_us = fq_model_call_latencies_us q, fc_updated_at = fq_updated_at q\<rparr>)))"

section \<open>The coordinator\<close>

text \<open>A command that was built goes to the repository; one that was not leaves it alone.\<close>

definition send_command :: "coordinator_error + 'c \<Rightarrow> ('c \<Rightarrow> (repo_error + 'r) \<times> vault) \<Rightarrow> vault \<Rightarrow>
    (coordinator_error + 'r) \<times> vault" where
  "send_command command operation v =
     (case command of
        Inl e \<Rightarrow> (Inl e, v)
      | Inr cmd \<Rightarrow> (case operation cmd of (Inl e, w) \<Rightarrow> (Inl (Repository_failure e), w) | (Inr r, w) \<Rightarrow> (Inr r, w)))"

definition coordinator_begin :: "repo_env \<Rightarrow> vault \<Rightarrow> invocation_decision \<Rightarrow> grounding_pin \<Rightarrow> timestamp \<Rightarrow>
    (coordinator_error + cycle_receipt) \<times> vault" where
  "coordinator_begin env v decision grounding created_at =
     send_command (begin_command decision grounding created_at) (begin_cycle env v) v"

definition coordinator_reserve :: "repo_env \<Rightarrow> vault \<Rightarrow> cycle_source \<Rightarrow> budget_amounts \<Rightarrow> timestamp \<Rightarrow>
    (coordinator_error + cycle_receipt) \<times> vault" where
  "coordinator_reserve env v source reservation updated_at =
     send_command (reserve_command (en_hash env) source reservation updated_at) (reserve_cycle env v) v"

definition coordinator_start :: "repo_env \<Rightarrow> vault \<Rightarrow> cycle_source \<Rightarrow> digest \<Rightarrow> timestamp \<Rightarrow>
    (coordinator_error + cycle_receipt) \<times> vault" where
  "coordinator_start env v source batch_digest updated_at =
     send_command (start_command (en_hash env) source batch_digest updated_at) (mark_cycle_running env v) v"

definition coordinator_commit :: "repo_env \<Rightarrow> vault \<Rightarrow> cycle_source \<Rightarrow> commit_request \<Rightarrow>
    (coordinator_error + cycle_receipt) \<times> vault" where
  "coordinator_commit env v source q = send_command (commit_command (en_hash env) source q) (commit_cycle env v) v"

definition coordinator_fail :: "repo_env \<Rightarrow> vault \<Rightarrow> cycle_source \<Rightarrow> fail_request \<Rightarrow>
    (coordinator_error + cycle_receipt) \<times> vault" where
  "coordinator_fail env v source q = send_command (fail_command (en_hash env) source q) (fail_cycle env v) v"

definition coordinator_recover :: "repo_env \<Rightarrow> vault \<Rightarrow> uuid \<Rightarrow> timestamp \<Rightarrow>
    (coordinator_error + cycle_recovery) \<times> vault" where
  "coordinator_recover env v run_id recovered_at =
     send_command (if uuid4 run_id then Inr run_id else Inl (CycleCoordinatorInputError ''recover_cycles''))
       (\<lambda>i. recover_cycles env v i recovered_at) v"

end
