(* ===== verification/Cycle_Anchors.thy ===== *)
theory Cycle_Anchors
  imports Budget_Ledger
begin

text \<open>
  What every stored revision of a cycle rests on: its run, the invoking decision it belongs to, the
  events of its range and a grounding pin that resolves. An entry never takes these away, so what a
  successor of a revision is checked against still holds.
\<close>

definition anchored :: "hash_fun \<Rightarrow> float_text \<Rightarrow> projection \<Rightarrow> cycle_record \<Rightarrow> bool" where
  "anchored H F p c \<longleftrightarrow> cy_run_id c = pr_run_id p \<and>
     (\<exists>d. dict_get (pr_decisions p) (cy_invocation_decision_id c) = Some d \<and> id_invoke d \<and>
        cy_policy_version c = id_policy_version d \<and> cy_configuration_digest c = id_configuration_digest d \<and>
        id_created_at d \<le> cy_created_at c \<and> id_event_sequence d = cy_last_event_sequence c) \<and>
     (\<forall>n. cy_first_event_sequence c \<le> n \<and> n \<le> cy_last_event_sequence c \<longrightarrow> has_key (pr_events_by_sequence p) n) \<and>
     (\<exists>pin. resolved_cycle_grounding H F c = Inr pin)"

definition anchors_inv :: "hash_fun \<Rightarrow> float_text \<Rightarrow> projection \<Rightarrow> bool" where
  "anchors_inv H F p \<longleftrightarrow> (\<forall>k c. dict_get (pr_cycle_history p) k = Some c \<longrightarrow> anchored H F p c)"

lemma apply_cycle_anchored:
  assumes "apply_cycle H F p c = Inr p'" and "cy_run_id c = pr_run_id p"
  shows "anchored H F p c"
proof -
  from assms(1) obtain d where d: "dict_get (pr_decisions p) (cy_invocation_decision_id c) = Some d"
    by (auto simp: apply_cycle_def split: option.splits)
  from assms(1) obtain pin where pin: "resolved_cycle_grounding H F c = Inr pin"
    unfolding apply_cycle_def d by (auto simp: checks_Inr bind_result_Inr)
  from assms(1) have "id_invoke d" "cy_policy_version c = id_policy_version d"
    "cy_configuration_digest c = id_configuration_digest d" "id_created_at d \<le> cy_created_at c"
    "id_event_sequence d = cy_last_event_sequence c"
    "\<forall>n. cy_first_event_sequence c \<le> n \<and> n \<le> cy_last_event_sequence c \<longrightarrow> has_key (pr_events_by_sequence p) n"
    unfolding apply_cycle_def d option.case pin bind_result_simps Let_def checks_Inr guards_pass_append bind_result_Inr
    by (auto simp: list_ex_iff)
  with d pin assms(2) show ?thesis unfolding anchored_def by blast
qed

text \<open>Decisions and events are only added.\<close>

lemma entry_adds:
  assumes "apply_entry H F p e = Inr p'"
  shows "pr_run_id p' = pr_run_id p"
    and "dict_get (pr_decisions p) i = Some d \<Longrightarrow> dict_get (pr_decisions p') i = Some d"
    and "has_key (pr_events_by_sequence p) n \<Longrightarrow> has_key (pr_events_by_sequence p') n"
proof -
  have "pr_run_id p' = pr_run_id p \<and>
     (dict_get (pr_decisions p) i = Some d \<longrightarrow> dict_get (pr_decisions p') i = Some d) \<and>
     (has_key (pr_events_by_sequence p) n \<longrightarrow> has_key (pr_events_by_sequence p') n)"
    using assms
  proof (cases rule: apply_entry_cases)
    case (event x)
    from event(2) [unfolded apply_event_Inr]
    have "pr_events_by_sequence p' = dict_set (ev_sequence x) x (pr_events_by_sequence p)"
      by (elim conjE) (erule ssubst, simp)
    with event_frame(4,5) [OF event(2)] show ?thesis by (simp add: decisions_part_def)
  next
    case (decision d')
    from apply_decision_Inr [OF decision(2)] show ?thesis by auto
  qed (use signal_frame(1,5) outcome_frame(1,5) cycle_frame(1,3) delivery_frame(1,4) in
    \<open>auto simp: events_part_def decisions_part_def\<close>)
  then show "pr_run_id p' = pr_run_id p"
    "dict_get (pr_decisions p) i = Some d \<Longrightarrow> dict_get (pr_decisions p') i = Some d"
    "has_key (pr_events_by_sequence p) n \<Longrightarrow> has_key (pr_events_by_sequence p') n" by blast+
qed

lemma anchored_grows:
  assumes "apply_entry H F p e = Inr p'" and "anchored H F p c"
  shows "anchored H F p' c"
  using assms(2) entry_adds [OF assms(1)] unfolding anchored_def by metis

lemma reachable_run: "reachable H F run p \<Longrightarrow> pr_run_id p = run"
  by (induction rule: reachable_invariant) (simp_all add: empty_projection_def entry_adds(1))

lemma reachable_anchors:
  assumes "reachable H F run p"
  shows "anchors_inv H F p"
  using assms
proof (induction rule: reachable_invariant)
  case empty
  show ?case by (simp add: anchors_inv_def empty_projection_def)
next
  case (entry p e p')
  show ?case
    unfolding anchors_inv_def
  proof (intro allI impI)
    fix k c
    assume c: "dict_get (pr_cycle_history p') k = Some c"
    show "anchored H F p' c"
    proof (cases "\<exists>d. le_record e = Rec_cycle d")
      case True
      then obtain d where d: "le_record e = Rec_cycle d" by blast
      have step: "apply_cycle H F p d = Inr p'"
        using entry.hyps(4) by (cases rule: apply_entry_cases) (simp_all add: d)
      have "anchored H F p d" using apply_cycle_anchored [OF step] entry.hyps(3) by (simp add: d)
      moreover have "c = d \<or> dict_get (pr_cycle_history p) k = Some c"
        using c apply_cycle_effect(2) [OF step] by (auto split: if_splits)
      ultimately have "anchored H F p c" using entry.IH unfolding anchors_inv_def by blast
      then show ?thesis by (rule anchored_grows [OF entry.hyps(4)])
    next
      case False
      have "cycles_part p' = cycles_part p"
        using entry.hyps(4)
        by (cases rule: apply_entry_cases)
          (use False in \<open>auto dest: event_frame(1) signal_frame(2) outcome_frame(2) decision_frame(2) delivery_frame(2)\<close>)
      with c have "dict_get (pr_cycle_history p) k = Some c" by (simp add: cycles_part_def)
      with entry.IH have "anchored H F p c" unfolding anchors_inv_def by blast
      then show ?thesis by (rule anchored_grows [OF entry.hyps(4)])
    qed
  qed
qed

text \<open>The part of a revision that its successors keep is what the anchor rests on.\<close>

lemma anchored_successor:
  assumes "anchored H F p q" and "revises q c"
  shows "anchored H F p c"
proof -
  have same: "cy_run_id c = cy_run_id q" "cy_invocation_decision_id c = cy_invocation_decision_id q"
    "cy_policy_version c = cy_policy_version q" "cy_configuration_digest c = cy_configuration_digest q"
    "cy_created_at c = cy_created_at q" "cy_first_event_sequence c = cy_first_event_sequence q"
    "cy_last_event_sequence c = cy_last_event_sequence q"
    "cy_grounding_version c = cy_grounding_version q" "cy_grounding_configuration c = cy_grounding_configuration q"
    "cy_grounding_configuration_digest c = cy_grounding_configuration_digest q"
    using assms(2) by (simp_all add: revises_def cycle_immutable_fields_def)
  have "resolved_cycle_grounding H F c = resolved_cycle_grounding H F q"
    unfolding resolved_cycle_grounding_def same ..
  with assms(1) show ?thesis unfolding anchored_def same by simp
qed

end
