(* ===== verification/Coordinator_Facts.thy ===== *)
theory Coordinator_Facts
  imports Coordinator Repository_Retries Cycle_Anchors
begin

text \<open>
  What the coordinator's commands do to a recorded cycle: the repository meets the revision the command
  was built from, and records the revision the coordinator predicted.
\<close>

section \<open>Recorded revisions\<close>

definition recorded :: "vault \<Rightarrow> cycle_record \<Rightarrow> bool" where
  "recorded v c = (case dict_get (va_slots v) (cy_run_id c) of
     None \<Rightarrow> False
   | Some s \<Rightarrow> dict_get (pr_cycle_history (sl_projection s)) (cy_cycle_id c, cy_revision c) = Some c)"

lemma recorded_slot:
  assumes "recorded v c" and "find_slot v (cy_run_id c) = Inr s"
  shows "dict_get (pr_cycle_history (sl_projection s)) (cy_cycle_id c, cy_revision c) = Some c"
  using assms(1) conjunct1 [OF find_slot_Inr [OF assms(2)]] by (simp add: recorded_def)

text \<open>A revision stays recorded when the ledger is extended.\<close>

lemma history_step:
  assumes "apply_entry H F p e = Inr p'" and "dict_get (pr_cycle_history p) k = Some c"
  shows "dict_get (pr_cycle_history p') k = Some c"
proof (cases "\<exists>c. le_record e = Rec_cycle c")
  case True
  then obtain d where d: "le_record e = Rec_cycle d" by blast
  have "apply_cycle H F p d = Inr p'" using assms(1) by (cases rule: apply_entry_cases) (simp_all add: d)
  note effect = apply_cycle_effect(2,6) [OF this]
  have "k \<noteq> (cy_cycle_id d, cy_revision d)" using effect(2) assms(2) unfolding has_key_def by (metis option.distinct(1))
  with effect(1) assms(2) show ?thesis by simp
next
  case False
  have "cycles_part p' = cycles_part p"
    using assms(1)
    by (cases rule: apply_entry_cases)
      (use False in \<open>auto dest: event_frame(1) signal_frame(2) outcome_frame(2) decision_frame(2) delivery_frame(2)\<close>)
  with assms(2) show ?thesis by (simp add: cycles_part_def)
qed

lemma recorded_extends:
  assumes "keeps env v w" and "vault_ok env v" and "recorded v c"
  shows "recorded w c"
proof -
  from assms(3) obtain s where s: "dict_get (va_slots v) (cy_run_id c) = Some s"
    and c: "dict_get (pr_cycle_history (sl_projection s)) (cy_cycle_id c, cy_revision c) = Some c"
    by (auto simp: recorded_def split: option.splits)
  from assms(1) s obtain t es where t: "dict_get (va_slots w) (cy_run_id c) = Some t" "sl_ledger t = sl_ledger s @ es"
    unfolding keeps_def ledgers_extend_def by blast
  note olds = vault_ok_slot [OF assms(2) s]
  have "vault_ok env w" using assms(1) by (simp add: keeps_def)
  note news = vault_ok_slot [OF this t(1)]
  define step where "step = (\<lambda>e p. apply_entry (en_hash env) (en_float env) p e)"
  have "fold_result step es (sl_projection s) = Inr (sl_projection t)"
    using slot_ok_project(1) [OF olds(2)] slot_ok_project(1) [OF news(2)] olds(1) news(1) t(2)
    by (simp add: project_entries_def step_def fold_result_append)
  then have "dict_get (pr_cycle_history (sl_projection t)) (cy_cycle_id c, cy_revision c) = Some c"
    by (rule fold_result_invariant) (use c in \<open>auto simp: step_def intro: history_step\<close>)
  with t(1) show ?thesis by (simp add: recorded_def)
qed

text \<open>The receipt of a recorded revision is cached under its key.\<close>

definition cached :: "run_slot \<Rightarrow> cycle_record \<Rightarrow> bool" where
  "cached s c \<longleftrightarrow> map_option cr_cycle (dict_get (sl_cycle_records s) (cy_cycle_id c, cy_revision c)) = Some c"

lemma record_cycle_cached:
  assumes "record_cycle_locked env v s c publishing delivery = Inr (r, v', s')"
  shows "cr_cycle r = c" and "cached s' c"
proof -
  have "cr_cycle r = c \<and> cached s' c"
    using assms by (cases rule: record_cycle_locked_Inr) (simp_all add: cached_def new_cycle_receipt_def)
  then show "cr_cycle r = c" "cached s' c" by blast+
qed

section \<open>Commands\<close>

text \<open>A command on a slot caches the revision it returns, and the vault it leaves has it recorded.\<close>

lemma command_recorded:
  assumes ok: "vault_ok env v" and step: "command_on_slot env v valid cmd operation run body = (Inr r, w)"
    and body: "\<And>s v' s'. slot_ok env s \<Longrightarrow> find_slot v run = Inr s \<Longrightarrow> body s = Inr (r, v', s') \<Longrightarrow>
      cr_cycle r = c \<and> cached s' c"
    and run: "cy_run_id c = run"
    and advanced: "\<And>s r v' s'. valid \<Longrightarrow> body s = Inr (r, v', s') \<Longrightarrow> advanced env v s v' s'"
  shows "cr_cycle r = c" and "recorded w c"
proof -
  from step have valid and on: "on_slot v run (\<lambda>s. bind_result (verify_head env v s True) (\<lambda>_. body s)) = (Inr r, w)"
    by (auto simp: command_on_slot_def accept_command_def split: sum.splits if_splits)
  from on obtain s v' s' where s: "find_slot v run = Inr s" and b: "body s = Inr (r, v', s')" and w: "w = store_slot s' v'"
    by (rule on_slot_Inr) (auto simp: bind_result_Inr)
  note old = vault_ok_slot [OF ok conjunct1 [OF find_slot_Inr [OF s]]]
  note c = body [OF old(2) s b]
  show "cr_cycle r = c" using c ..
  have "sl_run_id s' = run" using advanced [OF \<open>valid\<close> b] grows_run old(1) by (auto simp: advanced_def)
  then have got: "dict_get (va_slots w) run = Some s'" by (simp add: w)
  have "vault_ok env w"
    using command_on_slot_keeps [OF ok, of valid body cmd operation run] advanced step by (auto simp: keeps_def)
  from vault_ok_slot(2) [OF this got] slot_caches(1) [of env s' "(cy_cycle_id c, cy_revision c)"] c
  show "recorded w c" using got run by (simp add: recorded_def cached_def)
qed

lemma base_is_source:
  assumes "recorded v c" and "find_slot v (cy_run_id c) = Inr s"
    and "cycle_base s (cy_cycle_id c) (cy_revision c) st = Inr base"
  shows "base = c"
  using assms(3) recorded_slot [OF assms(1,2)] by (simp add: cycle_base_Inr)

lemma moved_cached:
  assumes "recorded v c" and "find_slot v (cy_run_id c) = Inr s"
    and "bind_result (cycle_base s (cy_cycle_id c) (cy_revision c) st) (\<lambda>base.
      bind_result (move base) (\<lambda>d. record_cycle_locked env v s d True None)) = Inr (r, v', s')"
    and move: "\<And>d. move c = Inr d \<Longrightarrow> d = c'"
  shows "cr_cycle r = c' \<and> cached s' c'"
proof -
  from assms(3) obtain base d where base: "cycle_base s (cy_cycle_id c) (cy_revision c) st = Inr base"
    and d: "move base = Inr d" and rec: "record_cycle_locked env v s d True None = Inr (r, v', s')"
    unfolding bind_result_Inr by blast
  from move base_is_source [OF assms(1,2) base] d have "d = c'" by blast
  with record_cycle_cached [OF rec] show ?thesis by blast
qed

lemma commit_cached:
  assumes "commit_checked_cycle env v cmd s c = Inr (r, v', s')"
  shows "cr_cycle r = c \<and> cached s' c"
proof (cases "dict_get (sl_cycle_records s) (cy_cycle_id c, cy_revision c)")
  case None
  with assms obtain delivery where "commit_new_cycle env v s c delivery = Inr (r, v', s')"
    by (auto simp: commit_checked_cycle_def bind_result_Inr)
  from commit_new_cycle_again(1,2) [OF this None] show ?thesis by (simp add: cached_def)
next
  case (Some existing)
  with assms show ?thesis by (auto simp: commit_checked_cycle_def cached_def split: if_splits)
qed

lemma send_command_Inr:
  assumes "send_command command operation v = (Inr r, w)"
  obtains cmd where "command = Inr cmd" and "operation cmd = (Inr r, w)"
  using assms by (auto simp: send_command_def split: sum.splits prod.splits)

lemma send_command_Inl:
  assumes "send_command command operation v = (Inl e, w)"
    and failed: "\<And>cmd f. fst (operation cmd) = Inl f \<Longrightarrow> snd (operation cmd) = v"
  shows "w = v"
proof (cases command)
  case (Inr cmd)
  obtain x u where x: "operation cmd = (x, u)" by (cases "operation cmd")
  with assms(1) Inr obtain f where "x = Inl f" "u = w" by (cases x) (auto simp: send_command_def)
  with failed [of cmd f] x show ?thesis by simp
qed (use assms(1) in \<open>simp add: send_command_def\<close>)

lemma reserve_recorded:
  assumes ok: "vault_ok env v" and c: "source_cycle (en_hash env) src ''reserve_cycle'' = Inr c" "recorded v c"
    and step: "coordinator_reserve env v src a t = (Inr r, w)"
  shows "cr_cycle r = reserved_candidate c a t" and "recorded w (cr_cycle r)"
proof -
  let ?cmd = "\<lparr>rc_run_id = cy_run_id c, rc_cycle_id = cy_cycle_id c, rc_expected_revision = cy_revision c,
    rc_reservation = a, rc_updated_at = t\<rparr>"
  from step obtain cmd where "reserve_command (en_hash env) src a t = Inr cmd" and op: "reserve_cycle env v cmd = (Inr r, w)"
    unfolding coordinator_reserve_def by (rule send_command_Inr)
  then have cmd: "cmd = ?cmd"
    using c(1) by (auto simp: reserve_command_def built_command_def checks_Inr Let_def split: if_splits)
  have step: "command_on_slot env v (valid_reserve_cycle cmd) (Cmd_reserve cmd) ''reserve_cycle'' (cy_run_id c)
    (reserve_cycle_body env v cmd) = (Inr r, w)"
    using op by (simp add: reserve_cycle_def cmd)
  have cached: "cr_cycle r = reserved_candidate c a t \<and> cached s' (reserved_candidate c a t)"
    if "slot_ok env s" "find_slot v (cy_run_id c) = Inr s" "reserve_cycle_body env v cmd s = Inr (r, v', s')" for s v' s'
    using that(3) unfolding reserve_cycle_body_def cmd reserve_cycle_cmd.simps
    by (rule moved_cached [OF c(2) that(2)]) (simp add: transition_cycle_Inr reserved_candidate_def)
  note result = command_recorded [OF ok step cached _ cycle_steps_advanced(2)]
  show "cr_cycle r = reserved_candidate c a t" by (rule result(1)) (simp_all add: reserved_candidate_def)
  then show "recorded w (cr_cycle r)" using result(2) by (simp add: reserved_candidate_def)
qed

lemma start_recorded:
  assumes ok: "vault_ok env v" and c: "source_cycle (en_hash env) src ''mark_cycle_running'' = Inr c" "recorded v c"
    and step: "coordinator_start env v src b t = (Inr r, w)"
  shows "cr_cycle r = running_candidate c b t" and "recorded w (cr_cycle r)"
proof -
  from step obtain cmd where "start_command (en_hash env) src b t = Inr cmd" and op: "mark_cycle_running env v cmd = (Inr r, w)"
    unfolding coordinator_start_def by (rule send_command_Inr)
  then have cmd: "cmd = \<lparr>sc_run_id = cy_run_id c, sc_cycle_id = cy_cycle_id c, sc_expected_revision = cy_revision c,
      sc_batch_digest = b, sc_updated_at = t\<rparr>"
    using c(1) by (auto simp: start_command_def built_command_def checks_Inr Let_def split: if_splits)
  have step: "command_on_slot env v (valid_start_cycle cmd) (Cmd_start cmd) ''mark_cycle_running'' (cy_run_id c)
    (mark_cycle_running_body env v cmd) = (Inr r, w)"
    using op by (simp add: mark_cycle_running_def cmd)
  have cached: "cr_cycle r = running_candidate c b t \<and> cached s' (running_candidate c b t)"
    if "slot_ok env s" "find_slot v (cy_run_id c) = Inr s" "mark_cycle_running_body env v cmd s = Inr (r, v', s')" for s v' s'
    using that(3) unfolding mark_cycle_running_body_def cmd start_cycle_cmd.simps
    by (rule moved_cached [OF c(2) that(2)]) (simp add: transition_cycle_Inr running_candidate_def)
  note result = command_recorded [OF ok step cached _ cycle_steps_advanced(3)]
  show "cr_cycle r = running_candidate c b t" by (rule result(1)) (simp_all add: running_candidate_def)
  then show "recorded w (cr_cycle r)" using result(2) by (simp add: running_candidate_def)
qed

lemma commit_recorded:
  assumes ok: "vault_ok env v" and c: "source_cycle (en_hash env) src ''commit_cycle'' = Inr c" "recorded v c"
    and step: "coordinator_commit env v src q = (Inr r, w)"
  shows "cr_cycle r = committed_candidate c q" and "recorded w (cr_cycle r)"
proof -
  from step obtain cmd where "commit_command (en_hash env) src q = Inr cmd" and op: "commit_cycle env v cmd = (Inr r, w)"
    unfolding coordinator_commit_def by (rule send_command_Inr)
  then have cmd: "cmd = \<lparr>cc_run_id = cy_run_id c, cc_cycle_id = cy_cycle_id c, cc_expected_revision = cy_revision c,
            cc_settlement = cm_settlement q, cc_model_call_digests = cm_model_call_digests q,
            cc_model_call_latencies_us = cm_model_call_latencies_us q, cc_validated_delta = cm_validated_delta q,
            cc_memory_id_assignments = cm_memory_id_assignments q, cc_intervention = cm_intervention q,
            cc_selector_provenance = cm_selector_provenance q, cc_delivery = cm_delivery q,
            cc_updated_at = cm_updated_at q\<rparr>"
    using c(1) by (auto simp: commit_command_def built_command_def checks_Inr Let_def split: if_splits)
  have step: "command_on_slot env v (valid_commit_cycle cmd) (Cmd_commit cmd) ''commit_cycle'' (cy_run_id c)
    (commit_cycle_body env v cmd) = (Inr r, w)"
    using op by (simp add: commit_cycle_def cmd)
  have cached: "cr_cycle r = committed_candidate c q \<and> cached s' (committed_candidate c q)"
    if s: "slot_ok env s" "find_slot v (cy_run_id c) = Inr s" "commit_cycle_body env v cmd s = Inr (r, v', s')" for s v' s'
  proof -
    from s(3) obtain base d where
      base: "cycle_base s (cc_cycle_id cmd) (cc_expected_revision cmd) (Some Cycle_RUNNING) = Inr base"
      and d: "commit_checked env cmd base = Inr d" and rec: "commit_checked_cycle env v cmd s d = Inr (r, v', s')"
      unfolding commit_cycle_body_steps bind_result_Inr by blast
    have "base = c" using base_is_source [OF c(2) s(2)] base by (simp add: cmd)
    with d have "d = committed_candidate c q"
      by (auto simp: commit_checked_def Let_def transition_cycle_Inr committed_revision_def committed_candidate_def cmd
          split: if_splits)
    with commit_cached [OF rec] show ?thesis by simp
  qed
  note result = command_recorded [OF ok step cached _ commit_cycle_body_advanced]
  show "cr_cycle r = committed_candidate c q" by (rule result(1)) (simp_all add: committed_candidate_def)
  then show "recorded w (cr_cycle r)" using result(2) by (simp add: committed_candidate_def)
qed

lemma fail_recorded:
  assumes ok: "vault_ok env v" and c: "source_cycle (en_hash env) src ''fail_cycle'' = Inr c" "recorded v c"
    and step: "coordinator_fail env v src q = (Inr r, w)"
  shows "cr_cycle r = failed_candidate c q (actual_settlement c q)" and "recorded w (cr_cycle r)"
proof -
  from step obtain cmd where built: "fail_command (en_hash env) src q = Inr cmd" and op: "fail_cycle env v cmd = (Inr r, w)"
    unfolding coordinator_fail_def by (rule send_command_Inr)
  then have cmd: "cmd = \<lparr>fc_run_id = cy_run_id c, fc_cycle_id = cy_cycle_id c, fc_expected_revision = cy_revision c,
            fc_reason = fq_reason q, fc_settlement = actual_settlement c q,
            fc_model_call_digests = fq_model_call_digests q,
            fc_model_call_latencies_us = fq_model_call_latencies_us q, fc_updated_at = fq_updated_at q\<rparr>"
    using c(1) by (auto simp: fail_command_def built_command_def checks_Inr Let_def split: if_splits)
  have step: "command_on_slot env v (valid_fail_cycle cmd) (Cmd_fail cmd) ''fail_cycle'' (cy_run_id c)
    (fail_cycle_body env v cmd) = (Inr r, w)"
    using op by (simp add: fail_cycle_def cmd)
  have moved: "d = failed_candidate c q (actual_settlement c q)" if "failed_revision env cmd c = Inr d" for d
    using that by (auto simp: failed_revision_def fail_settlement_def bind_result_Inr checks_Inr transition_cycle_Inr
        failed_candidate_def actual_settlement_def cmd Let_def)
  have cached: "cr_cycle r = failed_candidate c q (actual_settlement c q) \<and>
      cached s' (failed_candidate c q (actual_settlement c q))"
    if "slot_ok env s" "find_slot v (cy_run_id c) = Inr s" "fail_cycle_body env v cmd s = Inr (r, v', s')" for s v' s'
  proof -
    have "bind_result (cycle_base s (cy_cycle_id c) (cy_revision c) None) (\<lambda>base.
      bind_result (failed_revision env cmd base) (\<lambda>c. record_cycle_locked env v s c True None)) = Inr (r, v', s')"
      using that(3) by (simp add: fail_cycle_body_moves cmd)
    from moved_cached [OF c(2) that(2) this moved] show ?thesis .
  qed
  note result = command_recorded [OF ok step cached _ cycle_steps_advanced(4)]
  show "cr_cycle r = failed_candidate c q (actual_settlement c q)" by (rule result(1)) (simp_all add: failed_candidate_def)
  then show "recorded w (cr_cycle r)" using result(2) by (simp add: failed_candidate_def)
qed

text \<open>The first revision of a cycle, as the decision, the grounding pin and the time say.\<close>

definition begun :: "invocation_decision \<Rightarrow> grounding_pin \<Rightarrow> timestamp \<Rightarrow> cycle_record \<Rightarrow> bool" where
  "begun d g t c \<longleftrightarrow> cy_run_id c = id_run_id d \<and> cy_invocation_decision_id c = id_decision_id d \<and>
     cy_revision c = 1 \<and> cy_state c = Cycle_PENDING \<and> cy_grounding_version c = gp_grounding_version g \<and>
     cy_grounding_configuration c = gp_grounding_configuration g \<and>
     cy_grounding_configuration_digest c = gp_grounding_configuration_digest g \<and>
     cy_requested_delivery_target c = gp_requested_delivery_target g \<and> cy_created_at c = t \<and> cy_updated_at c = t"

lemma first_revision_begun:
  assumes "slot_ok env s" and "dict_get (pr_cycle_history (sl_projection s)) (i, 1) = Some c"
  shows "cy_state c = Cycle_PENDING" and "cy_run_id c = sl_run_id s"
proof -
  have "cycle_revision_ok (en_hash env) (sl_projection s) i 1 c"
    using slot_cycles_inv [OF assms(1)] assms(2) unfolding cycles_inv_def by blast
  then show "cy_state c = Cycle_PENDING" by (simp add: cycle_revision_ok_def)
  have "anchored (en_hash env) (en_float env) (sl_projection s) c"
    using reachable_anchors [OF slot_ok_project(3) [OF assms(1)]] assms(2) unfolding anchors_inv_def by blast
  moreover have "pr_run_id (sl_projection s) = sl_run_id s"
    by (rule reachable_run [OF slot_ok_project(3) [OF assms(1)]])
  ultimately show "cy_run_id c = sl_run_id s" by (simp add: anchored_def)
qed

lemma begin_cached:
  assumes ok: "slot_ok env s" and run: "sl_run_id s = id_run_id d" and body: "begin_cycle_body env v cmd s = Inr (r, v', s')"
    and cmd: "cmd = \<lparr>bc_run_id = id_run_id d, bc_invocation_decision_id = id_decision_id d,
      bc_grounding_version = gp_grounding_version g, bc_grounding_configuration = gp_grounding_configuration g,
      bc_grounding_configuration_digest = gp_grounding_configuration_digest g,
      bc_requested_delivery_target = gp_requested_delivery_target g, bc_created_at = t\<rparr>"
  shows "begun d g t (cr_cycle r) \<and> cached s' (cr_cycle r)"
proof -
  from body obtain stored where d: "dict_get (pr_decisions (sl_projection s)) (id_decision_id d) = Some stored"
    by (auto simp: begin_cycle_body_def cmd split: option.splits)
  have "(\<exists>existing. beginnings (sl_projection s) (id_decision_id d) = [existing]) \<or>
      beginnings (sl_projection s) (id_decision_id d) = []"
    using body d by (auto simp: begin_cycle_body_def cmd split: list.splits)
  then show ?thesis
  proof (elim disjE exE)
    fix existing
    assume b: "beginnings (sl_projection s) (id_decision_id d) = [existing]"
    let ?c = "existing\<lparr>cy_created_at := t, cy_updated_at := t\<rparr>"
    from body d b have c: "same_beginning existing cmd"
      and rec: "record_cycle_locked env v s ?c True None = Inr (r, v', s')"
      by (auto simp: begin_cycle_body_def bind_result_Inr transition_cycle_Inr cmd split: if_splits)
    have "existing \<in> set (beginnings (sl_projection s) (id_decision_id d))" using b by simp
    note old = beginnings_in [OF ok this]
    note got = record_cycle_cached [OF rec]
    have "s' = s" using record_known(1) [OF rec] old(1) by simp
    then have "dict_get (pr_cycle_history (sl_projection s)) (cy_cycle_id existing, 1) = Some ?c"
      using got(2) slot_caches(1) [OF ok, of "(cy_cycle_id existing, 1)"] old(2) by (simp add: cached_def)
    from first_revision_begun [OF ok this] c got old(2,3) run show ?thesis
      by (simp add: begun_def same_beginning_def cmd)
  next
    assume b: "beginnings (sl_projection s) (id_decision_id d) = []"
    with body d have "begin_new_cycle env v s cmd stored = Inr (r, v', s')" by (simp add: begin_cycle_body_def cmd)
    then obtain i where
      rec: "record_cycle_locked env v s (pending_cycle cmd stored i (pr_memory_cursor (sl_projection s) + 1)) True None = Inr (r, v', s')"
      by (rule begin_new_cycle_Inr)
    from record_cycle_cached [OF rec] show ?thesis by (simp add: pending_cycle_def begun_def cmd)
  qed
qed

lemma begin_recorded:
  assumes ok: "vault_ok env v" and step: "coordinator_begin env v d g t = (Inr r, w)"
  shows "begun d g t (cr_cycle r)" and "recorded w (cr_cycle r)"
proof -
  from step obtain cmd where "begin_command d g t = Inr cmd" and op: "begin_cycle env v cmd = (Inr r, w)"
    unfolding coordinator_begin_def by (rule send_command_Inr)
  then have cmd: "cmd = \<lparr>bc_run_id = id_run_id d, bc_invocation_decision_id = id_decision_id d,
      bc_grounding_version = gp_grounding_version g, bc_grounding_configuration = gp_grounding_configuration g,
      bc_grounding_configuration_digest = gp_grounding_configuration_digest g,
      bc_requested_delivery_target = gp_requested_delivery_target g, bc_created_at = t\<rparr>"
    by (auto simp: begin_command_def checks_Inr Let_def split: if_splits)
  have step: "command_on_slot env v (valid_begin_cycle cmd) (Cmd_begin cmd) ''begin_cycle'' (id_run_id d)
    (begin_cycle_body env v cmd) = (Inr r, w)"
    using op by (simp add: begin_cycle_def cmd)
  have cached: "begun d g t (cr_cycle r) \<and> cached s' (cr_cycle r)"
    if "slot_ok env s" "find_slot v (id_run_id d) = Inr s" "begin_cycle_body env v cmd s = Inr (r, v', s')" for s v' s'
    using begin_cached [OF that(1) _ that(3) cmd]
      vault_ok_slot(1) [OF ok conjunct1 [OF find_slot_Inr [OF that(2)]]] by simp
  show "begun d g t (cr_cycle r)"
  proof -
    from step obtain s v' s' where "find_slot v (id_run_id d) = Inr s" "begin_cycle_body env v cmd s = Inr (r, v', s')"
      by (auto simp: command_on_slot_def bind_result_Inr split: sum.splits elim!: on_slot_Inr)
    with cached vault_ok_slot(2) [OF ok conjunct1 [OF find_slot_Inr]] show ?thesis by blast
  qed
  then have "cy_run_id (cr_cycle r) = id_run_id d" by (simp add: begun_def)
  then show "recorded w (cr_cycle r)"
    by (intro command_recorded(2) [OF ok step]) (use cached in \<open>auto intro: cycle_steps_advanced(1)\<close>)
qed

end
