(* ===== verification/Cycle_Progress.thy ===== *)
theory Cycle_Progress
  imports Coordinator_Facts Cycle_Anchors
begin

text \<open>
  A legal successor of a current cycle is always recorded: the checks of the projector hold, the tags
  are computed, the entry and the head are valid and the derived budget snapshot exists. The only
  conditions on the environment are the shape of its hashes and that a record's JSON is finite.
\<close>

section \<open>Writing an entry\<close>

definition writable :: "repo_env \<Rightarrow> bool" where
  "writable env \<longleftrightarrow> integrity_ok (en_integrity env) \<and> hex_digest (en_hash env) \<and>
     hex_digest (keyed (en_integrity env)) \<and> (\<forall>r. json_finite (en_dump env r))"

lemma tag_written:
  assumes "writable env" and "json_finite v"
  obtains t where "tag (en_integrity env) domain v = Inr t" "valid_payload_digest t"
    "pd_algorithm t = tag_algorithm (en_integrity env)"
proof -
  let ?it = "en_integrity env"
  have "\<exists>t. tag ?it domain v = Inr t"
    using assms by (auto simp: tag_def canonical_json_def writable_def integrity_ok_def split: option.splits)
  then obtain t where t: "tag ?it domain v = Inr t" by blast
  moreover have "valid_payload_digest t"
    using t assms(1) by (elim tag_Inr) (simp add: valid_payload_digest_def writable_def hex_digest_def)
  moreover have "pd_algorithm t = tag_algorithm ?it" using t by (rule tag_Inr)
  ultimately show thesis by (rule that)
qed

lemma finite_parts [simp]:
  "json_finite (JObj kvs) = list_all json_finite (map snd kvs)" "json_finite (JInt n)" "json_finite (JStr t)" "json_finite JNull"
  by (simp_all add: json_finite.simps [of "JObj kvs"] json_finite.simps [of "JInt n"] json_finite.simps [of "JStr t"]
      json_finite.simps [of JNull])

lemma tagged_values_finite [simp]:
  "json_finite (digest_json t)" "json_finite (opt_digest_json previous)"
  "json_finite (chain_value run n key t previous)" "json_finite (head_value run n t u)"
  "json_finite (projection_counts p)"
  by (simp_all add: digest_json_def opt_digest_json_def chain_value_def head_value_def projection_counts_def
      split: option.splits)

lemma last_tag_ok:
  assumes "slot_ok env s"
  shows "opt_all valid_payload_digest (last_chain_tag (sl_ledger s))"
    and "opt_all (\<lambda>t. pd_algorithm t = tag_algorithm (en_integrity env)) (last_chain_tag (sl_ledger s))"
    and "(last_chain_tag (sl_ledger s) = None) = (sl_ledger s = [])"
proof -
  have "valid_payload_digest (le_chain_tag e)" if "e \<in> set (sl_ledger s)" for e
    using assms that by (auto simp: slot_ok_def list_all_iff entry_ok_def valid_ledger_entry_def)
  then show "opt_all valid_payload_digest (last_chain_tag (sl_ledger s))"
    by (simp add: last_chain_tag_def)
  have "verify_entries env es n previous = Inr () \<Longrightarrow> e \<in> set es \<Longrightarrow>
      pd_algorithm (le_chain_tag e) = tag_algorithm (en_integrity env)" for es n previous e
  proof (induction es arbitrary: n previous)
    case (Cons x es)
    from Cons.prems have "verify_entry env x n previous = Inr ()"
      and rest: "verify_entries env es (n + 1) (Some (le_chain_tag x)) = Inr ()"
      by (auto simp: bind_result_Inr)
    then have "verify_tag (en_integrity env) ''saliencegate:ledger-chain:v1''
            (chain_value (le_run_id x) (le_position x) (le_record_key x) (le_record_tag x) (le_previous_chain_tag x))
            (le_chain_tag x) = Inr True"
      by (auto simp: verify_entry_def checks_Inr bind_result_Inr split: if_splits)
    then have "pd_algorithm (le_chain_tag x) = tag_algorithm (en_integrity env)"
      unfolding verify_tag_Inr_True by (rule tag_Inr)
    with Cons.IH [OF rest] Cons.prems(2) show ?case by auto
  qed simp
  from this [OF slot_ok_project(2) [OF assms]]
  show "opt_all (\<lambda>t. pd_algorithm t = tag_algorithm (en_integrity env)) (last_chain_tag (sl_ledger s))"
    by (simp add: last_chain_tag_def)
  show "(last_chain_tag (sl_ledger s) = None) = (sl_ledger s = [])" by (simp add: last_chain_tag_def)
qed

lemma entry_written:
  assumes ok: "slot_ok env s" and env: "writable env" and run: "uuid4 (sl_run_id s)" "rec_run_id r = sl_run_id s"
    and key: "1 \<le> code_points (record_key r)" "code_points (record_key r) \<le> 200"
  obtains entry where "new_entry env s r (record_key r) = Inr entry" "le_record entry = r"
    "valid_payload_digest (le_record_tag entry)" "valid_payload_digest (le_chain_tag entry)" "1 \<le> le_position entry"
    "pd_algorithm (le_chain_tag entry) = tag_algorithm (en_integrity env)"
    "pd_algorithm (le_record_tag entry) = tag_algorithm (en_integrity env)"
proof -
  let ?it = "en_integrity env" and ?n = "int (length (sl_ledger s)) + 1" and ?previous = "last_chain_tag (sl_ledger s)"
  have "json_finite (en_dump env r)" using env by (simp add: writable_def)
  then obtain record_tag where rt: "tag ?it ''saliencegate:ledger-record:v1'' (en_dump env r) = Inr record_tag"
    "valid_payload_digest record_tag" "pd_algorithm record_tag = tag_algorithm ?it"
    by (rule tag_written [OF env])
  obtain chain_tag where ct: "tag ?it ''saliencegate:ledger-chain:v1''
      (chain_value (sl_run_id s) ?n (record_key r) record_tag ?previous) = Inr chain_tag"
    "valid_payload_digest chain_tag" "pd_algorithm chain_tag = tag_algorithm ?it"
    by (rule tag_written [OF env, where v = "chain_value (sl_run_id s) ?n (record_key r) record_tag ?previous"]) simp_all
  let ?e = "\<lparr>le_run_id = sl_run_id s, le_position = ?n, le_record_key = record_key r, le_record_tag = record_tag,
    le_previous_chain_tag = ?previous, le_chain_tag = chain_tag, le_record = r\<rparr>"
  note last = last_tag_ok [OF ok]
  have "valid_ledger_entry ?e"
    using run key rt ct last by (auto simp: valid_ledger_entry_def)
  moreover have "verify_entry env ?e ?n ?previous = Inr ()"
    using rt(1) ct(1) by (simp add: verify_entry_def checks_eval)
  ultimately have "new_entry env s r (record_key r) = Inr ?e"
    using rt(1) ct(1) by (simp add: new_entry_def Let_def)
  then show thesis by (rule that) (use rt ct in simp_all)
qed

lemma head_written:
  assumes env: "writable env" and run: "uuid4 (sl_run_id s)" and e: "valid_payload_digest (le_chain_tag e)" "1 \<le> le_position e"
    "pd_algorithm (le_chain_tag e) = tag_algorithm (en_integrity env)"
  obtains head where "new_head env s e p = Inr head"
proof -
  let ?it = "en_integrity env"
  obtain pt where pt: "checkpoint_tag env e p (map_option lh_projection_tag (sl_head s)) = Inr pt"
    "valid_payload_digest pt" "pd_algorithm pt = tag_algorithm ?it"
  proof (rule tag_written [OF env])
    show "json_finite (JObj [(''previous_projection_tag'', opt_digest_json (map_option lh_projection_tag (sl_head s))),
              (''entry_chain_tag'', digest_json (le_chain_tag e)), (''ledger_position'', JInt (le_position e)),
              (''ingestion_cursor'', JInt (pr_ingestion_cursor p)), (''memory_cursor'', JInt (pr_memory_cursor p)),
              (''counts'', projection_counts p)])" by simp
  qed (simp_all add: checkpoint_tag_def)
  obtain ht where ht: "tag ?it ''saliencegate:ledger-head:v1''
      (head_value (sl_run_id s) (le_position e) (le_chain_tag e) pt) = Inr ht"
    "valid_payload_digest ht" "pd_algorithm ht = tag_algorithm ?it"
    by (rule tag_written [OF env, where v = "head_value (sl_run_id s) (le_position e) (le_chain_tag e) pt"]) simp_all
  have "\<exists>head. new_head env s e p = Inr head"
    using pt ht e run by (auto simp: new_head_def valid_ledger_head_def Let_def)
  then show thesis using that by blast
qed

section \<open>Revisions are few\<close>

fun state_rank :: "cycle_state \<Rightarrow> int" where
  "state_rank Cycle_PENDING = 1"
| "state_rank Cycle_RESERVED = 2"
| "state_rank Cycle_RUNNING = 3"
| "state_rank Cycle_COMMITTED = 4"
| "state_rank Cycle_FAILED = 4"

lemma state_rank_bounds: "1 \<le> state_rank s" "state_rank s \<le> 4"
  by (cases s; simp)+

lemma transition_ranks: "t \<in> set (cycle_transitions s) \<Longrightarrow> state_rank s + 1 \<le> state_rank t"
  by (cases s) auto

lemma revision_ranked:
  assumes "cycles_inv H p" and "dict_get (pr_cycle_history p) (i, n) = Some c"
  shows "n \<le> state_rank (cy_state c)"
  using assms(2)
proof (induction "nat n" arbitrary: n c rule: less_induct)
  case less
  have ok: "cycle_revision_ok H p i n c" using assms(1) less.prems unfolding cycles_inv_def by blast
  show ?case
  proof (cases "n = 1")
    case True
    with ok show ?thesis by (simp add: cycle_revision_ok_def)
  next
    case False
    with ok obtain q where q: "dict_get (pr_cycle_history p) (i, n - 1) = Some q" "revises q c" and n: "1 \<le> n"
      by (auto simp: cycle_revision_ok_def)
    have "nat (n - 1) < nat n" using n by simp
    from less.hyps [OF this q(1)] have "n - 1 \<le> state_rank (cy_state q)" .
    with q(2) transition_ranks [of "cy_state c" "cy_state q"] show ?thesis by (simp add: revises_def)
  qed
qed

lemma cycle_key_short:
  assumes "sha256_digest (cy_cycle_id c)" and "1 \<le> cy_revision c" and "cy_revision c \<le> 4"
  shows "1 \<le> code_points (record_key (Rec_cycle c))" and "code_points (record_key (Rec_cycle c)) \<le> 200"
proof -
  have bound: "code_points k \<le> length k" for k by (simp add: code_points_def)
  have "cy_revision c \<in> {1, 2, 3, 4}" using assms(2,3) by auto
  then have "length (dec_str (cy_revision c)) = 1" by (auto simp: dec_str_def dec_nat.simps)
  moreover have "length (cy_cycle_id c) = 64" using assms(1) by (simp add: sha256_digest_def)
  ultimately have "length (record_key (Rec_cycle c)) \<le> 200" by simp
  with bound [of "record_key (Rec_cycle c)"] show "code_points (record_key (Rec_cycle c)) \<le> 200" by linarith
  show "1 \<le> code_points (record_key (Rec_cycle c))" by (simp add: code_points_def)
qed

section \<open>Recording a successor\<close>

text \<open>What a successor of the current revision has to satisfy.\<close>

definition next_revision_ok :: "repo_env \<Rightarrow> projection \<Rightarrow> cycle_record \<Rightarrow> cycle_record \<Rightarrow> bool" where
  "next_revision_ok env p q c \<longleftrightarrow> dict_get (pr_cycles p) (cy_cycle_id c) = Some q \<and>
     guards_pass (cycle_successor_checks q c) \<and> cy_state c \<noteq> Cycle_COMMITTED \<and> valid_cycle_record (en_hash env) c \<and>
     (\<forall>d. dict_get (pr_decisions p) (cy_invocation_decision_id c) = Some d \<longrightarrow>
        validate_cycle_budget p d c (Some q) = Inr ())"

lemma current_in_history:
  assumes "reachable H F run p" and "dict_get (pr_cycles p) i = Some q"
  shows "dict_get (pr_cycle_history p) (i, cy_revision q) = Some q" and "cy_cycle_id q = i" and "valid_cycle_record H q"
    and "anchored H F p q" and "cy_revision q \<le> state_rank (cy_state q)" and "1 \<le> cy_revision q"
proof -
  have "latest_cycle_ok H p i q" using reachable_cycles [OF assms(1)] assms(2) unfolding cycles_inv_def by blast
  then show h: "dict_get (pr_cycle_history p) (i, cy_revision q) = Some q" and "cy_cycle_id q = i"
    and "valid_cycle_record H q" by (simp_all add: latest_cycle_ok_def)
  show "anchored H F p q" using reachable_anchors [OF assms(1)] h unfolding anchors_inv_def by blast
  show "cy_revision q \<le> state_rank (cy_state q)" by (rule revision_ranked [OF reachable_cycles [OF assms(1)] h])
  have "cycle_revision_ok H p i (cy_revision q) q" using reachable_cycles [OF assms(1)] h unfolding cycles_inv_def by blast
  then show "1 \<le> cy_revision q" by (simp add: cycle_revision_ok_def)
qed

lemma successor_applies:
  assumes reach: "reachable (en_hash env) (en_float env) run p" and c: "next_revision_ok env p q c"
  obtains p' where "apply_cycle (en_hash env) (en_float env) p c = Inr p'"
proof -
  let ?H = "en_hash env" and ?F = "en_float env"
  have q: "dict_get (pr_cycles p) (cy_cycle_id c) = Some q" and guards: "guards_pass (cycle_successor_checks q c)"
    and state: "cy_state c \<noteq> Cycle_COMMITTED"
    and budget: "\<And>d. dict_get (pr_decisions p) (cy_invocation_decision_id c) = Some d \<Longrightarrow>
        validate_cycle_budget p d c (Some q) = Inr ()"
    using c unfolding next_revision_ok_def by blast+
  have rev: "revises q c" by (rule successor_revises [OF guards])
  have "anchored ?H ?F p c" by (rule anchored_successor [OF current_in_history(4) [OF reach q] rev])
  then obtain d pin where d: "dict_get (pr_decisions p) (cy_invocation_decision_id c) = Some d" "id_invoke d"
      "cy_policy_version c = id_policy_version d" "cy_configuration_digest c = id_configuration_digest d"
      "id_created_at d \<le> cy_created_at c" "id_event_sequence d = cy_last_event_sequence c"
    and events: "\<forall>n. cy_first_event_sequence c \<le> n \<and> n \<le> cy_last_event_sequence c \<longrightarrow> has_key (pr_events_by_sequence p) n"
    and pin: "resolved_cycle_grounding ?H ?F c = Inr pin"
    unfolding anchored_def by blast
  have fresh: "\<not> has_key (pr_cycle_history p) (cy_cycle_id c, cy_revision c)"
  proof
    assume "has_key (pr_cycle_history p) (cy_cycle_id c, cy_revision c)"
    then obtain x where "dict_get (pr_cycle_history p) (cy_cycle_id c, cy_revision c) = Some x"
      unfolding has_key_def by blast
    then have "cycle_revision_ok ?H p (cy_cycle_id c) (cy_revision c) x"
      using reachable_cycles [OF reach] unfolding cycles_inv_def by blast
    then show False using q rev by (auto simp: cycle_revision_ok_def revises_def)
  qed
  have "apply_cycle ?H ?F p c = Inr (p\<lparr>pr_cycle_history := dict_set (cy_cycle_id c, cy_revision c) c (pr_cycle_history p),
      pr_cycles := dict_set (cy_cycle_id c) c (pr_cycles p)\<rparr>)"
    unfolding apply_cycle_def d(1) option.case pin bind_result_simps Let_def q
    using d events guards fresh state budget [OF d(1)]
    by (simp add: checks_pass guards_pass_append list_ex_iff)
  then show thesis by (rule that)
qed

lemma snapshot_defined:
  assumes "reachable H F run p" and "dict_get (pr_decisions p) i = Some d"
  obtains snapshot where "budget_snapshot_of p None = Inr snapshot" "valid_budget_snapshot snapshot"
    "\<And>f. amount f (reserved snapshot) + amount f (consumed snapshot) = committed_budget f p"
    "pr_budget_limits p = Some (limits snapshot)"
proof -
  from reachable_budget [OF assms(1)] assms(2) obtain l where l: "pr_budget_limits p = Some l" "valid_budget_limits l"
    "\<forall>f. committed_budget f p \<le> amount f l"
    by (auto simp: budget_inv_def split: option.splits)
  from derived_snapshot_valid [OF reachable_cycles [OF assms(1)] l] that l(1) show thesis by auto
qed

lemma current_decision:
  assumes "reachable H F run p" and "dict_get (pr_cycles p) i = Some q"
  obtains d where "dict_get (pr_decisions p) (cy_invocation_decision_id q) = Some d"
  using current_in_history(4) [OF assms] by (auto simp: anchored_def)

lemma successor_recorded:
  assumes ok: "slot_ok env s" and env: "writable env" and run: "uuid4 (sl_run_id s)"
    and c: "next_revision_ok env (sl_projection s) q c"
  obtains r v' s' where "record_cycle_locked env v s c True None = Inr (r, v', s')"
proof -
  let ?p = "sl_projection s"
  note reach = slot_ok_project(3) [OF ok]
  have q: "dict_get (pr_cycles ?p) (cy_cycle_id c) = Some q" and valid: "valid_cycle_record (en_hash env) c"
    and state: "cy_state c \<noteq> Cycle_COMMITTED" and rev: "revises q c"
    using c successor_revises [of q c] unfolding next_revision_ok_def by blast+
  note old = current_in_history [OF reach q]
  obtain p' where p': "apply_cycle (en_hash env) (en_float env) ?p c = Inr p'" by (rule successor_applies [OF reach c])
  have same: "cy_run_id c = sl_run_id s"
    using rev old(4) reachable_run [OF reach] by (simp add: revises_def cycle_immutable_fields_def anchored_def)
  have "cy_revision c = cy_revision q + 1" "state_rank (cy_state q) + 1 \<le> state_rank (cy_state c)"
    using rev transition_ranks by (simp_all add: revises_def)
  then have number: "1 \<le> cy_revision c" "cy_revision c \<le> 4"
    using old(5,6) state_rank_bounds(2) [of "cy_state c"] by linarith+
  have "sha256_digest (cy_cycle_id c)" using valid by (simp add: valid_cycle_record_def cycle_fields_ok_def)
  note key = cycle_key_short [OF this number]
  obtain entry where entry: "new_entry env s (Rec_cycle c) (record_key (Rec_cycle c)) = Inr entry"
    "le_record entry = Rec_cycle c" "valid_payload_digest (le_record_tag entry)" "valid_payload_digest (le_chain_tag entry)"
    "1 \<le> le_position entry" "pd_algorithm (le_chain_tag entry) = tag_algorithm (en_integrity env)"
    by (rule entry_written [OF ok env run _ key]) (use same in simp_all)
  have "apply_entry (en_hash env) (en_float env) ?p entry = Inr p'"
    using p' same reachable_run [OF reach] by (simp add: apply_entry_def entry(2))
  moreover obtain head where "new_head env s entry p' = Inr head"
    by (rule head_written [OF env run entry(4,5,6)])
  ultimately have stage: "stage_entry env s (Rec_cycle c) = Inr (entry, p', head)"
    using entry(1) by (simp add: stage_entry_def)
  have entry': "valid_ledger_record (en_hash env) (le_record entry)"
    using valid by (simp add: entry(2) valid_ledger_record_def)
  have reach': "reachable (en_hash env) (en_float env) (sl_run_id s) p'"
    by (rule reachable_entry [OF reach entry' \<open>apply_entry (en_hash env) (en_float env) ?p entry = Inr p'\<close>])
  obtain d where "dict_get (pr_decisions p') (cy_invocation_decision_id c) = Some d"
    using current_decision [OF reach', of "cy_cycle_id c" c] apply_cycle_effect(1) [OF p'] by auto
  then obtain snapshot where snapshot: "budget_snapshot_of p' None = Inr snapshot" "valid_budget_snapshot snapshot"
    by (rule snapshot_defined [OF reach'])
  have "dict_get (sl_cycle_records s) (cy_cycle_id c, cy_revision c) = None"
    using slot_caches(1) [OF ok, of "(cy_cycle_id c, cy_revision c)"] apply_cycle_effect(6) [OF p'] by simp
  moreover have "valid_cycle_receipt (en_hash env) (new_cycle_receipt entry c snapshot None)"
    using valid entry snapshot(2) state by (simp add: valid_cycle_receipt_def new_cycle_receipt_def committed_reminder_def)
  ultimately have "\<exists>r v' s'. record_cycle_locked env v s c True None = Inr (r, v', s')"
    using stage snapshot(1) by (simp add: record_cycle_locked_def Let_def new_cycle_receipt_def)
  then show thesis using that by blast
qed

text \<open>A command that moves the current revision of a stored run to such a successor succeeds.\<close>

definition current_cycle :: "vault \<Rightarrow> cycle_record \<Rightarrow> bool" where
  "current_cycle v c = (case dict_get (va_slots v) (cy_run_id c) of
     None \<Rightarrow> False
   | Some s \<Rightarrow> dict_get (pr_cycles (sl_projection s)) (cy_cycle_id c) = Some c)"

lemma current_slot:
  assumes ok: "vault_ok env v" and c: "current_cycle v c"
  obtains s where "find_slot v (cy_run_id c) = Inr s" "slot_ok env s" "sl_run_id s = cy_run_id c" "uuid4 (cy_run_id c)"
    "verify_head env v s True = Inr ()" "dict_get (pr_cycles (sl_projection s)) (cy_cycle_id c) = Some c"
    "dict_get (pr_cycle_history (sl_projection s)) (cy_cycle_id c, cy_revision c) = Some c"
    "valid_cycle_record (en_hash env) c"
proof -
  from c obtain s where s: "dict_get (va_slots v) (cy_run_id c) = Some s"
    "dict_get (pr_cycles (sl_projection s)) (cy_cycle_id c) = Some c"
    by (auto simp: current_cycle_def split: option.splits)
  note found = find_stored [OF ok s(1)] and old = vault_ok_slot [OF ok s(1)]
  note history = current_in_history [OF slot_ok_project(3) [OF old(2)] s(2)]
  from that [OF found(1) old(2,1) found(4,2) s(2) history(1,3)] show thesis .
qed

lemma current_recorded: "vault_ok env v \<Longrightarrow> current_cycle v c \<Longrightarrow> recorded v c"
  by (erule (1) current_slot) (auto simp: recorded_def dest: find_slot_Inr)

lemma current_valid: "vault_ok env v \<Longrightarrow> current_cycle v c \<Longrightarrow> valid_cycle_record (en_hash env) c"
  by (erule (1) current_slot)

lemma moved_succeeds:
  assumes ok: "vault_ok env v" and env: "writable env" and c: "current_cycle v c"
    and accept: "accept_command env valid cmd operation = Inr ()"
    and body: "\<And>s. body s = bind_result (cycle_base s (cy_cycle_id c) (cy_revision c) st) (\<lambda>base.
      bind_result (move base) (\<lambda>d. record_cycle_locked env v s d True None))"
    and st: "opt_all (\<lambda>t. cy_state c = t) st" and move: "move c = Inr c'"
    and successor: "\<And>s. find_slot v (cy_run_id c) = Inr s \<Longrightarrow> slot_ok env s \<Longrightarrow>
      dict_get (pr_cycles (sl_projection s)) (cy_cycle_id c) = Some c \<Longrightarrow> next_revision_ok env (sl_projection s) c c'"
  shows "\<exists>r w. command_on_slot env v valid cmd operation (cy_run_id c) body = (Inr r, w)"
proof -
  obtain s where s: "find_slot v (cy_run_id c) = Inr s" "slot_ok env s" "sl_run_id s = cy_run_id c" "uuid4 (cy_run_id c)"
    "verify_head env v s True = Inr ()" "dict_get (pr_cycle_history (sl_projection s)) (cy_cycle_id c, cy_revision c) = Some c"
    "dict_get (pr_cycles (sl_projection s)) (cy_cycle_id c) = Some c"
    by (rule current_slot [OF ok c])
  have "uuid4 (sl_run_id s)" using s(3,4) by simp
  then obtain r v' s' where "record_cycle_locked env v s c' True None = Inr (r, v', s')"
    using successor_recorded [OF s(2) env _ successor [OF s(1,2,7)]] by blast
  moreover have "cycle_base s (cy_cycle_id c) (cy_revision c) st = Inr c" using s(6) st by (simp add: cycle_base_Inr)
  ultimately have "command_on_slot env v valid cmd operation (cy_run_id c) body = (Inr r, store_slot s' v')"
    using accept s(1,5) move by (simp add: command_on_slot_def on_slot_def body)
  then show ?thesis by blast
qed

end
