(* ===== verification/Coordinator_Progress.thy ===== *)
theory Coordinator_Progress
  imports Cycle_Progress
begin

text \<open>
  The coordinator's moves on a current cycle: which requests build a valid next revision, and that the
  projector's checks accept it.
\<close>

section \<open>Candidates\<close>

lemma reserved_candidate_valid:
  assumes "valid_cycle_record H c" and "cy_state c = Cycle_PENDING" and "valid_budget_amounts a" and "1 \<le> model_calls a"
    and "cy_updated_at c \<le> t"
  shows "valid_cycle_record H (reserved_candidate c a t)"
  using assms
  by (simp add: valid_cycle_record_def reserved_candidate_def cycle_fields_ok_def cycle_identity_ok_def cycle_budget_ok_def
      cycle_assignments_ok_def expected_handles_def cycle_state_ok_def no_committed_outputs_def no_receipts_def)

lemma running_candidate_valid:
  assumes "valid_cycle_record H c" and "cy_state c = Cycle_RESERVED" and "sha256_digest b" and "cy_updated_at c \<le> t"
  shows "valid_cycle_record H (running_candidate c b t)"
  using assms
  by (simp add: valid_cycle_record_def running_candidate_def cycle_fields_ok_def cycle_identity_ok_def cycle_budget_ok_def
      cycle_assignments_ok_def expected_handles_def cycle_state_ok_def no_committed_outputs_def no_receipts_def)

text \<open>Giving a cycle up: a running cycle is charged its reservation, an earlier one nothing.\<close>

definition give_up :: "cycle_record \<Rightarrow> reason_code \<Rightarrow> timestamp \<Rightarrow> fail_request" where
  "give_up c reason t =
     \<lparr>fq_reason = (if cy_state c = Cycle_RUNNING then Reason_FAILED_UNKNOWN_COST else reason), fq_updated_at = t,
      fq_settlement = (if cy_state c = Cycle_RESERVED then Some zero_amounts else None),
      fq_model_call_digests = [], fq_model_call_latencies_us = []\<rparr>"

definition given_up :: "cycle_record \<Rightarrow> reason_code \<Rightarrow> timestamp \<Rightarrow> cycle_record" where
  "given_up c reason t = failed_candidate c (give_up c reason t) (actual_settlement c (give_up c reason t))"

lemma zero_amounts_sel [simp]: "amount f zero_amounts = 0" "model_calls zero_amounts = 0" "input_tokens zero_amounts = 0"
  "output_tokens zero_amounts = 0" "canonical_token_equivalents zero_amounts = 0" "latency_us zero_amounts = 0"
  "interventions_used zero_amounts = 0" "schema_repairs zero_amounts = 0" "valid_budget_amounts zero_amounts"
  by (simp_all add: zero_amounts_def budget_simps) (simp_all add: amounts_of_def)

text \<open>A reserved cycle has no batch digest before it is started.\<close>

definition unstarted :: "cycle_record \<Rightarrow> bool" where
  "unstarted c \<longleftrightarrow> (if cy_state c = Cycle_RESERVED then cy_batch_digest c = None else True)"

lemma given_up_valid:
  assumes valid: "valid_cycle_record H c" and "active_cycle c" and "unstarted c" and "reason \<noteq> Reason_FAILED_UNKNOWN_COST"
    and "cy_updated_at c \<le> t"
  shows "valid_cycle_record H (given_up c reason t)"
proof -
  note parts = valid_cycle_record_def cycle_fields_ok_def cycle_identity_ok_def cycle_budget_ok_def
    cycle_assignments_ok_def expected_handles_def cycle_state_ok_def no_committed_outputs_def no_receipts_def
    given_up_def failed_candidate_def give_up_def actual_settlement_def failed_cycle_ok_def
  from assms(2) consider "cy_state c = Cycle_PENDING" | "cy_state c = Cycle_RESERVED" | "cy_state c = Cycle_RUNNING"
    by (auto simp: active_cycle_def)
  then show ?thesis
  proof cases
    case 1
    with assms show ?thesis by (simp add: parts)
  next
    case 2
    with valid obtain r where r: "cy_budget_reservation c = Some r" "\<forall>f. 0 \<le> amount f r"
      by (auto simp: parts budget_simps)
    with 2 assms show ?thesis by (simp add: parts unstarted_def list_ex_iff not_less)
  next
    case 3
    with valid obtain r b where r: "cy_budget_reservation c = Some r" "\<forall>f. 0 \<le> amount f r" "cy_batch_digest c = Some b"
      "1 \<le> model_calls r"
      by (auto simp: parts budget_simps)
    have "0 \<le> latency_us r" using r(2) [rule_format, of F_latency_us] by simp
    with 3 r assms show ?thesis by (simp add: parts list_ex_iff not_less)
  qed
qed

section \<open>The projector accepts them\<close>

lemma no_calls_budget:
  assumes "reservation_check p c (Some q) = Inr ()" and "cy_model_call_digests c = []" and "cy_model_call_latencies_us c = []"
    and "cy_state c \<notin> {Cycle_COMMITTED, Cycle_FAILED}" and "cy_budget_settlement c = None"
  shows "validate_cycle_budget p d c (Some q) = Inr ()"
  using assms by (simp add: validate_cycle_budget_def settled_def known_failure_def checks_eval)

lemma held_reservation: "cy_budget_reservation q \<noteq> None \<Longrightarrow> reservation_check p c (Some q) = Inr ()"
  by (auto simp: reservation_check_def split: option.splits)

lemma valid_current_parts:
  assumes "valid_cycle_record H c"
  shows "cy_state c = Cycle_PENDING \<Longrightarrow> cy_budget_reservation c = None \<and> cy_batch_digest c = None"
    and "cy_state c = Cycle_RESERVED \<or> cy_state c = Cycle_RUNNING \<Longrightarrow> cy_budget_reservation c \<noteq> None"
    and "active_cycle c \<Longrightarrow> cy_budget_settlement c = None \<and> cy_model_call_digests c = [] \<and> cy_model_call_latencies_us c = []"
  using assms
  by (auto simp: valid_cycle_record_def cycle_state_ok_def active_cycle_def no_committed_outputs_def no_receipts_def)

lemma reserved_next:
  assumes "dict_get (pr_cycles p) (cy_cycle_id c) = Some c" and valid: "valid_cycle_record (en_hash env) c"
    and state: "cy_state c = Cycle_PENDING" and a: "valid_budget_amounts a" "1 \<le> model_calls a" and t: "cy_updated_at c \<le> t"
    and snapshot: "budget_snapshot_of p None = Inr b" and fits: "\<forall>f. amount f a \<le> headroom f b"
  shows "next_revision_ok env p c (reserved_candidate c a t)"
proof -
  note now = valid_current_parts [OF valid]
  have "reservation_check p (reserved_candidate c a t) (Some c) = Inr ()"
    using now(1) [OF state] a(2) snapshot fits
    by (simp add: reservation_check_def reserved_candidate_def checks_eval list_ex_iff headroom_def not_less)
  then have "validate_cycle_budget p d (reserved_candidate c a t) (Some c) = Inr ()" for d
    using now(3) state by (intro no_calls_budget) (simp_all add: reserved_candidate_def active_cycle_def)
  with assms reserved_candidate_valid [OF valid state a t] now(1) [OF state] show ?thesis
    by (simp add: next_revision_ok_def cycle_successor_checks_def reserved_candidate_def cycle_immutable_fields_def)
qed

lemma running_next:
  assumes "dict_get (pr_cycles p) (cy_cycle_id c) = Some c" and valid: "valid_cycle_record (en_hash env) c"
    and state: "cy_state c = Cycle_RESERVED" and "unstarted c" and b: "sha256_digest b" and t: "cy_updated_at c \<le> t"
  shows "next_revision_ok env p c (running_candidate c b t)"
proof -
  note now = valid_current_parts [OF valid]
  have "validate_cycle_budget p d (running_candidate c b t) (Some c) = Inr ()" for d
    using now(2,3) state
    by (intro no_calls_budget held_reservation) (simp_all add: running_candidate_def active_cycle_def)
  with assms running_candidate_valid [OF valid state b t] show ?thesis
    by (simp add: next_revision_ok_def cycle_successor_checks_def running_candidate_def cycle_immutable_fields_def unstarted_def)
qed

lemma given_up_next:
  assumes cur: "dict_get (pr_cycles p) (cy_cycle_id c) = Some c" and valid: "valid_cycle_record (en_hash env) c"
    and active: "active_cycle c" and un: "unstarted c" and reason: "reason \<noteq> Reason_FAILED_UNKNOWN_COST"
    and t: "cy_updated_at c \<le> t"
  shows "next_revision_ok env p c (given_up c reason t)"
proof -
  let ?f = "given_up c reason t"
  note now = valid_current_parts [OF valid] and parts = given_up_def failed_candidate_def give_up_def actual_settlement_def
  note failed = given_up_valid [OF valid active un reason t]
  have sel: "cy_state ?f = Cycle_FAILED" "cy_cycle_id ?f = cy_cycle_id c" "cy_revision ?f = cy_revision c + 1"
    "cy_budget_reservation ?f = cy_budget_reservation c" "cy_batch_digest ?f = cy_batch_digest c"
    "cy_model_call_digests ?f = []" "cy_model_call_latencies_us ?f = []" "cy_updated_at ?f = t"
    "cycle_immutable_fields ?f = cycle_immutable_fields c" "cy_grounding_configuration ?f = cy_grounding_configuration c"
    by (simp_all add: parts cycle_immutable_fields_def)
  from active consider "cy_state c = Cycle_PENDING" | "cy_state c = Cycle_RESERVED" | "cy_state c = Cycle_RUNNING"
    by (auto simp: active_cycle_def)
  then have "guards_pass (cycle_successor_checks c ?f) \<and> (\<forall>d. validate_cycle_budget p d ?f (Some c) = Inr ())"
  proof cases
    case 1
    with now(1) t reason have "cy_budget_settlement ?f = None" "cy_failure_reason ?f = Some reason" by (simp_all add: parts)
    with 1 now(1) t reason sel show ?thesis
      by (simp add: cycle_successor_checks_def validate_cycle_budget_def reservation_check_def settled_def known_failure_def
          checks_eval)
  next
    case 2
    with now(2) obtain r where r: "cy_budget_reservation c = Some r" by auto
    then have "\<forall>f. 0 \<le> amount f r"
      using valid by (auto simp: valid_cycle_record_def cycle_fields_ok_def budget_simps)
    moreover have "cy_budget_settlement ?f = Some zero_amounts" "cy_failure_reason ?f = Some reason"
      using 2 reason by (simp_all add: parts)
    ultimately show ?thesis
      using 2 r t reason sel un held_reservation [of c p ?f]
      by (simp add: cycle_successor_checks_def validate_cycle_budget_def settled_def known_failure_def
          checks_eval unstarted_def exceeds_def list_ex_iff not_less)
  next
    case 3
    with now(2) obtain r where r: "cy_budget_reservation c = Some r" by auto
    then have "\<forall>f. 0 \<le> amount f r"
      using valid by (auto simp: valid_cycle_record_def cycle_fields_ok_def budget_simps)
    then have "0 \<le> latency_us r" using amount.simps by (metis (full_types))
    moreover have "cy_budget_settlement ?f = Some r" "cy_failure_reason ?f = Some Reason_FAILED_UNKNOWN_COST"
      using 3 r by (simp_all add: parts)
    ultimately show ?thesis
      using 3 r t sel held_reservation [of c p ?f]
      by (simp add: cycle_successor_checks_def validate_cycle_budget_def settled_def known_failure_def
          checks_eval exceeds_def list_ex_iff not_less)
  qed
  with cur failed sel show ?thesis by (simp add: next_revision_ok_def)
qed

section \<open>The commands are built and accepted\<close>

text \<open>The redactor finds nothing to redact in a command.\<close>

definition clean_command :: "repo_env \<Rightarrow> repo_command \<Rightarrow> string \<Rightarrow> bool" where
  "clean_command env cmd operation \<longleftrightarrow> validate_record_content env (en_dump_command env cmd) operation = Inr ()"

lemma reserve_built:
  assumes "valid_cycle_record H c" and "cy_state c = Cycle_PENDING" and "valid_budget_amounts a" and "1 \<le> model_calls a"
    and "cy_updated_at c \<le> t"
  shows "reserve_command H (Source_record c) a t = Inr \<lparr>rc_run_id = cy_run_id c, rc_cycle_id = cy_cycle_id c,
    rc_expected_revision = cy_revision c, rc_reservation = a, rc_updated_at = t\<rparr>"
  using assms reserved_candidate_valid [OF assms]
  by (auto simp: reserve_command_def source_cycle_def Let_def checks_eval state_guard_def input_guard_def built_command_def
      valid_reserve_cycle_def valid_cycle_record_def cycle_fields_ok_def)

lemma start_built:
  assumes "valid_cycle_record H c" and "cy_state c = Cycle_RESERVED" and "sha256_digest b" and "cy_updated_at c \<le> t"
  shows "start_command H (Source_record c) b t = Inr \<lparr>sc_run_id = cy_run_id c, sc_cycle_id = cy_cycle_id c,
    sc_expected_revision = cy_revision c, sc_batch_digest = b, sc_updated_at = t\<rparr>"
  using assms running_candidate_valid [OF assms]
  by (auto simp: start_command_def source_cycle_def Let_def checks_eval state_guard_def input_guard_def built_command_def
      valid_start_cycle_def valid_cycle_record_def cycle_fields_ok_def)

definition give_up_command :: "cycle_record \<Rightarrow> reason_code \<Rightarrow> timestamp \<Rightarrow> fail_cycle_cmd" where
  "give_up_command c reason t =
     (let q = give_up c reason t in
      \<lparr>fc_run_id = cy_run_id c, fc_cycle_id = cy_cycle_id c, fc_expected_revision = cy_revision c,
       fc_reason = fq_reason q, fc_settlement = actual_settlement c q, fc_model_call_digests = [],
       fc_model_call_latencies_us = [], fc_updated_at = t\<rparr>)"

lemma fail_built:
  assumes valid: "valid_cycle_record H c" and active: "active_cycle c" and un: "unstarted c"
    and reason: "reason \<noteq> Reason_FAILED_UNKNOWN_COST" and t: "cy_updated_at c \<le> t"
  shows "fail_command H (Source_record c) (give_up c reason t) = Inr (give_up_command c reason t)"
proof -
  note now = valid_current_parts [OF valid]
  note failed = given_up_valid [OF valid active un reason t, unfolded given_up_def]
  have id: "uuid4 (cy_run_id c)" "sha256_digest (cy_cycle_id c)" "1 \<le> cy_revision c"
    "opt_all valid_budget_amounts (cy_budget_reservation c)"
    using valid by (simp_all add: valid_cycle_record_def cycle_fields_ok_def)
  note built = fail_command_def source_cycle_def Let_def checks_eval state_guard_def input_guard_def built_command_def
      valid_fail_cycle_def give_up_command_def
  from active consider "cy_state c = Cycle_PENDING" | "cy_state c = Cycle_RESERVED" | "cy_state c = Cycle_RUNNING"
    by (auto simp: active_cycle_def)
  then show ?thesis
  proof cases
    case 1
    then have "actual_settlement c (give_up c reason t) = None" using reason by (simp add: actual_settlement_def give_up_def)
    with 1 failed valid id t reason show ?thesis by (simp add: built) (simp add: give_up_def)
  next
    case 2
    then have "actual_settlement c (give_up c reason t) = Some zero_amounts"
      using reason by (simp add: actual_settlement_def give_up_def)
    with 2 failed valid id t reason show ?thesis by (simp add: built) (simp add: give_up_def)
  next
    case 3
    with now(2) id(4) obtain r where r: "cy_budget_reservation c = Some r" "valid_budget_amounts r" by auto
    then have "0 \<le> amount F_latency_us r" "0 \<le> amount F_model_calls r" by (simp_all only: budget_simps)
    moreover have "actual_settlement c (give_up c reason t) = Some r"
      using 3 r by (simp add: actual_settlement_def give_up_def)
    ultimately show ?thesis using 3 r failed valid id t by (simp add: built) (simp add: give_up_def)
  qed
qed

lemma give_up_settles:
  assumes valid: "valid_cycle_record H c" and active: "active_cycle c" and reason: "reason \<noteq> Reason_FAILED_UNKNOWN_COST"
  shows "fail_settlement (give_up_command c reason t) c = Inr (actual_settlement c (give_up c reason t))"
proof -
  note now = valid_current_parts [OF valid]
  note sel = give_up_command_def give_up_def Let_def fail_settlement_def checks_eval
  from active consider "cy_state c = Cycle_PENDING" | "cy_state c = Cycle_RESERVED" | "cy_state c = Cycle_RUNNING"
    by (auto simp: active_cycle_def)
  then show ?thesis
  proof cases
    case 1
    with reason have "actual_settlement c (give_up c reason t) = None" by (simp add: actual_settlement_def give_up_def)
    with 1 reason show ?thesis by (simp add: sel)
  next
    case 2
    with reason have "actual_settlement c (give_up c reason t) = Some zero_amounts"
      by (simp add: actual_settlement_def give_up_def)
    with 2 reason show ?thesis by (simp add: sel)
  next
    case 3
    with now(2) have "actual_settlement c (give_up c reason t) = cy_budget_reservation c" "cy_budget_reservation c \<noteq> None"
      by (simp_all add: actual_settlement_def give_up_def)
    with 3 show ?thesis by (simp add: sel)
  qed
qed

text \<open>Each move on a current cycle succeeds.\<close>

lemma give_up_succeeds:
  assumes ok: "vault_ok env v" and env: "writable env" and c: "current_cycle v c" and active: "active_cycle c" and un: "unstarted c"
    and reason: "reason \<noteq> Reason_FAILED_UNKNOWN_COST" and t: "cy_updated_at c \<le> t"
    and clean: "clean_command env (Cmd_fail (give_up_command c reason t)) ''fail_cycle''"
  obtains r w where "coordinator_fail env v (Source_record c) (give_up c reason t) = (Inr r, w)"
proof -
  let ?cmd = "give_up_command c reason t"
  note valid = current_valid [OF ok c]
  note built = fail_built [OF valid active un reason t]
  have cmd: "fc_run_id ?cmd = cy_run_id c" "fc_cycle_id ?cmd = cy_cycle_id c" "fc_expected_revision ?cmd = cy_revision c"
    by (simp_all add: give_up_command_def Let_def)
  have "valid_fail_cycle ?cmd"
    using built by (auto simp: fail_command_def Let_def bind_result_Inr checks_Inr built_command_def split: if_splits)
  then have accept: "accept_command env (valid_fail_cycle ?cmd) (Cmd_fail ?cmd) ''fail_cycle'' = Inr ()"
    using clean by (simp add: accept_command_def clean_command_def)
  have "failed_revision env ?cmd c = Inr (given_up c reason t)"
  proof -
    note valid' = given_up_valid [OF valid active un reason t]
    have "settled_within (given_up c reason t)"
      using valid' by (auto simp: settled_within_def valid_cycle_record_def cycle_budget_ok_def exceeds_def split: option.splits)
    moreover have "fail_settlement ?cmd c = Inr (actual_settlement c (give_up c reason t))"
      by (rule give_up_settles [OF valid active reason])
    moreover have "c\<lparr>cy_revision := cy_revision c + 1, cy_state := Cycle_FAILED,
          cy_budget_settlement := actual_settlement c (give_up c reason t),
          cy_model_call_digests := fc_model_call_digests ?cmd,
          cy_model_call_latencies_us := fc_model_call_latencies_us ?cmd,
          cy_failure_reason := Some (fc_reason ?cmd), cy_updated_at := fc_updated_at ?cmd\<rparr> = given_up c reason t"
      by (simp add: given_up_def failed_candidate_def give_up_command_def give_up_def Let_def)
    ultimately show ?thesis using valid' by (simp add: failed_revision_def transition_cycle_def)
  qed
  then have "\<exists>r w. fail_cycle env v ?cmd = (Inr r, w)"
    unfolding fail_cycle_def cmd
    by (intro moved_succeeds [OF ok env c accept, where st = None and move = "failed_revision env ?cmd"])
      (simp_all add: fail_cycle_body_moves cmd, erule given_up_next [OF _ valid active un reason t])
  then obtain r w where "fail_cycle env v ?cmd = (Inr r, w)" by blast
  then have "coordinator_fail env v (Source_record c) (give_up c reason t) = (Inr r, w)"
    using built by (simp add: coordinator_fail_def send_command_def)
  then show thesis by (rule that)
qed

lemma reserve_succeeds:
  assumes ok: "vault_ok env v" and env: "writable env" and c: "current_cycle v c" and state: "cy_state c = Cycle_PENDING"
    and a: "valid_budget_amounts a" "1 \<le> model_calls a" and t: "cy_updated_at c \<le> t"
    and fits: "\<And>s. dict_get (va_slots v) (cy_run_id c) = Some s \<Longrightarrow>
      \<exists>b. budget_snapshot_of (sl_projection s) None = Inr b \<and> (\<forall>f. amount f a \<le> headroom f b)"
    and clean: "clean_command env (Cmd_reserve \<lparr>rc_run_id = cy_run_id c, rc_cycle_id = cy_cycle_id c,
      rc_expected_revision = cy_revision c, rc_reservation = a, rc_updated_at = t\<rparr>) ''reserve_cycle''"
  obtains r w where "coordinator_reserve env v (Source_record c) a t = (Inr r, w)"
proof -
  let ?cmd = "\<lparr>rc_run_id = cy_run_id c, rc_cycle_id = cy_cycle_id c,
      rc_expected_revision = cy_revision c, rc_reservation = a, rc_updated_at = t\<rparr>"
  note valid = current_valid [OF ok c]
  note built = reserve_built [OF valid state a t] and valid' = reserved_candidate_valid [OF valid state a t]
  have "valid_reserve_cycle ?cmd"
    using valid a by (simp add: valid_reserve_cycle_def valid_cycle_record_def cycle_fields_ok_def)
  then have accept: "accept_command env (valid_reserve_cycle ?cmd) (Cmd_reserve ?cmd) ''reserve_cycle'' = Inr ()"
    using clean by (simp add: accept_command_def clean_command_def)
  have "settled_within (reserved_candidate c a t)"
    using valid_current_parts(3) [OF valid] state by (simp add: settled_within_def reserved_candidate_def active_cycle_def)
  then have move: "transition_cycle env (c\<lparr>cy_revision := cy_revision c + 1, cy_state := Cycle_RESERVED,
      cy_budget_reservation := Some a, cy_updated_at := t\<rparr>) ''reserve_cycle'' = Inr (reserved_candidate c a t)"
    using valid' by (simp add: transition_cycle_Inr reserved_candidate_def)
  have successor: "next_revision_ok env (sl_projection s) c (reserved_candidate c a t)"
    if "find_slot v (cy_run_id c) = Inr s" "dict_get (pr_cycles (sl_projection s)) (cy_cycle_id c) = Some c" for s
    using fits [OF conjunct1 [OF find_slot_Inr [OF that(1)]]] reserved_next [OF that(2) valid state a t] by blast
  have "\<exists>r w. command_on_slot env v (valid_reserve_cycle ?cmd) (Cmd_reserve ?cmd) ''reserve_cycle'' (cy_run_id c)
      (reserve_cycle_body env v ?cmd) = (Inr r, w)"
    by (rule moved_succeeds [OF ok env c accept, where st = "Some Cycle_PENDING" and c' = "reserved_candidate c a t"
          and move = "\<lambda>base. transition_cycle env (base\<lparr>cy_revision := cy_revision base + 1, cy_state := Cycle_RESERVED,
            cy_budget_reservation := Some a, cy_updated_at := t\<rparr>) ''reserve_cycle''"])
      (use state move successor in \<open>simp_all add: reserve_cycle_body_def\<close>)
  then have "\<exists>r w. coordinator_reserve env v (Source_record c) a t = (Inr r, w)"
    using built by (auto simp add: coordinator_reserve_def send_command_def reserve_cycle_def)
  then show thesis using that by blast
qed

lemma start_succeeds:
  assumes ok: "vault_ok env v" and env: "writable env" and c: "current_cycle v c" and state: "cy_state c = Cycle_RESERVED"
    and un: "unstarted c" and b: "sha256_digest b" and t: "cy_updated_at c \<le> t"
    and clean: "clean_command env (Cmd_start \<lparr>sc_run_id = cy_run_id c, sc_cycle_id = cy_cycle_id c,
      sc_expected_revision = cy_revision c, sc_batch_digest = b, sc_updated_at = t\<rparr>) ''mark_cycle_running''"
  obtains r w where "coordinator_start env v (Source_record c) b t = (Inr r, w)"
proof -
  let ?cmd = "\<lparr>sc_run_id = cy_run_id c, sc_cycle_id = cy_cycle_id c,
      sc_expected_revision = cy_revision c, sc_batch_digest = b, sc_updated_at = t\<rparr>"
  note valid = current_valid [OF ok c]
  note built = start_built [OF valid state b t] and valid' = running_candidate_valid [OF valid state b t]
  have "valid_start_cycle ?cmd"
    using valid b by (simp add: valid_start_cycle_def valid_cycle_record_def cycle_fields_ok_def)
  then have accept: "accept_command env (valid_start_cycle ?cmd) (Cmd_start ?cmd) ''mark_cycle_running'' = Inr ()"
    using clean by (simp add: accept_command_def clean_command_def)
  have "settled_within (running_candidate c b t)"
    using valid_current_parts(3) [OF valid] state
    by (simp add: settled_within_def running_candidate_def active_cycle_def split: option.splits)
  then have move: "transition_cycle env (c\<lparr>cy_revision := cy_revision c + 1, cy_state := Cycle_RUNNING,
      cy_batch_digest := Some b, cy_updated_at := t\<rparr>) ''mark_cycle_running'' = Inr (running_candidate c b t)"
    using valid' by (simp add: transition_cycle_Inr running_candidate_def)
  have "\<exists>r w. command_on_slot env v (valid_start_cycle ?cmd) (Cmd_start ?cmd) ''mark_cycle_running'' (cy_run_id c)
      (mark_cycle_running_body env v ?cmd) = (Inr r, w)"
    by (rule moved_succeeds [OF ok env c accept, where st = "Some Cycle_RESERVED" and c' = "running_candidate c b t"
          and move = "\<lambda>base. transition_cycle env (base\<lparr>cy_revision := cy_revision base + 1, cy_state := Cycle_RUNNING,
            cy_batch_digest := Some b, cy_updated_at := t\<rparr>) ''mark_cycle_running''"])
      (use state move running_next [OF _ valid state un b t] in \<open>simp_all add: mark_cycle_running_body_def\<close>)
  then have "\<exists>r w. coordinator_start env v (Source_record c) b t = (Inr r, w)"
    using built by (auto simp add: coordinator_start_def send_command_def mark_cycle_running_def)
  then show thesis using that by blast
qed

end
