(* ===== verification/Budget_Refinement.thy ===== *)
theory Budget_Refinement
  imports Cycle_Anchors Sample_Run
begin

text \<open>
  The ledger's budget refines the budget governor: the snapshot derived from a projection moves with
  every cycle revision exactly as the governor's operation for that revision moves it. The governor
  works on a snapshot alone; the ledger sums the cycles of the projection.
\<close>

section \<open>Decisions carry the limits of the run\<close>

definition decision_limits :: "projection \<Rightarrow> bool" where
  "decision_limits p \<longleftrightarrow> (\<forall>i d. dict_get (pr_decisions p) i = Some d \<longrightarrow>
     pr_budget_limits p = Some (limits (id_budget_snapshot d)))"

lemma reachable_decision_limits:
  assumes "reachable H F run p"
  shows "decision_limits p"
  using assms
proof (induction rule: reachable_invariant)
  case empty
  show ?case by (simp add: decision_limits_def empty_projection_def)
next
  case (entry p e p')
  have same: "decisions_part p' = decisions_part p \<Longrightarrow> decision_limits p'"
    using entry.IH by (simp add: decision_limits_def decisions_part_def)
  from entry.hyps(4) show ?case
  proof (cases rule: apply_entry_cases)
    case (decision d)
    from apply_decision_Inr [OF decision(2)] entry.IH show ?thesis
      by (auto simp: decision_limits_def)
  next
    case (signal s)
    then have "pr_decisions p' = pr_decisions p" "pr_budget_limits p' = pr_budget_limits p"
      using signal_frame(5) by (simp_all add: decisions_part_def)
    with entry.IH show ?thesis by (simp add: decision_limits_def)
  qed (use same event_frame(4) outcome_frame(5) cycle_frame(3) delivery_frame(4) in blast)+
qed

section \<open>How a revision moves the derived snapshot\<close>

definition held_before :: "budget_field \<Rightarrow> projection \<Rightarrow> cycle_record \<Rightarrow> int" where
  "held_before f p c = (case dict_get (pr_cycles p) (cy_cycle_id c) of None \<Rightarrow> 0 | Some q \<Rightarrow> held f q)"

lemma snapshot_of_Inr:
  assumes "budget_snapshot_of p None = Inr b"
  shows "pr_budget_limits p = Some (limits b)" and "valid_budget_snapshot b"
    and "amount f (reserved b) = (\<Sum>c\<leftarrow>dict_values (pr_cycles p). held f c)"
    and "amount f (consumed b) = (\<Sum>c\<leftarrow>dict_values (pr_cycles p). spent f c)"
  using assms
  by (auto simp: budget_snapshot_of_def Let_def amount_add_amounts held_def spent_def split: option.splits if_splits)

lemma active_spends_nothing: "active_cycle q \<Longrightarrow> spent f q = 0"
  by (auto simp: spent_def final_settlement_def active_cycle_def)

lemma snapshot_moves:
  assumes inv: "cycles_inv H p" and step: "apply_cycle H F p c = Inr p'"
    and b: "budget_snapshot_of p None = Inr b" and b': "budget_snapshot_of p' None = Inr b'"
  shows "limits b' = limits b"
    and "amount f (reserved b') = amount f (reserved b) - held_before f p c + held f c"
    and "amount f (consumed b') = amount f (consumed b) + spent f c"
proof -
  have wf: "dict_wf (pr_cycles p)" using inv by (simp add: cycles_inv_def)
  note cycles = apply_cycle_effect(1) [OF step]
  show "limits b' = limits b"
    using snapshot_of_Inr(1) [OF b] snapshot_of_Inr(1) [OF b'] cycle_frame(3) [OF step] by (simp add: decisions_part_def)
  have old: "spent f q = 0" if "dict_get (pr_cycles p) (cy_cycle_id c) = Some q" for q
  proof -
    from step have "cycle_guards p c (dict_get (pr_cycles p) (cy_cycle_id c))" by (rule apply_cycle_Inr)
    with that have "revises q c" by (simp add: cycle_guards_def successor_revises)
    then show ?thesis by (rule active_spends_nothing [OF revises_from_active])
  qed
  show "amount f (reserved b') = amount f (reserved b) - held_before f p c + held f c"
    using sum_list_dict_set_old [OF wf, of "cy_cycle_id c" _ "held f" c]
      sum_list_dict_set_new [of "pr_cycles p" "cy_cycle_id c" "held f" c]
    unfolding snapshot_of_Inr(3) [OF b] snapshot_of_Inr(3) [OF b'] cycles held_before_def
    by (cases "dict_get (pr_cycles p) (cy_cycle_id c)") (simp_all add: no_key)
  show "amount f (consumed b') = amount f (consumed b) + spent f c"
    using sum_list_dict_set_old [OF wf, of "cy_cycle_id c" _ "spent f" c] old
      sum_list_dict_set_new [of "pr_cycles p" "cy_cycle_id c" "spent f" c]
    unfolding snapshot_of_Inr(4) [OF b] snapshot_of_Inr(4) [OF b'] cycles
    by (cases "dict_get (pr_cycles p) (cy_cycle_id c)") (simp_all add: no_key)
qed

section \<open>The governor's operation for a revision\<close>

definition governor_move :: "cycle_record \<Rightarrow> budget_snapshot \<Rightarrow> budget_error + budget_snapshot" where
  "governor_move c b =
     (case (cy_state c, cy_budget_reservation c, cy_budget_settlement c) of
        (Cycle_RESERVED, Some r, None) \<Rightarrow> reserve b r
      | (Cycle_COMMITTED, Some r, Some s) \<Rightarrow> settle b r s (cy_model_call_latencies_us c)
      | (Cycle_FAILED, Some r, Some s) \<Rightarrow>
          if cy_failure_reason c = Some Reason_FAILED_UNKNOWN_COST then consume_unknown b r
          else settle b r s (cy_model_call_latencies_us c)
      | _ \<Rightarrow> Inr b)"

lemma snapshot_eqI:
  assumes "limits b' = limits b" and "\<And>f. amount f (reserved b') = amount f (reserved b)"
    and "\<And>f. amount f (consumed b') = amount f (consumed b)"
  shows "b' = (b::budget_snapshot)"
  using assms budget_amounts_eqI [of "reserved b'" "reserved b"] budget_amounts_eqI [of "consumed b'" "consumed b"]
  by (cases b; cases b') simp

lemma reconcile_is:
  assumes "valid_budget_snapshot b" and "valid_budget_amounts s" and "\<And>f. amount f s \<le> amount f r"
    and "\<And>f. amount f r \<le> amount f (reserved b)" and "limits b' = limits b"
    and "\<And>f. amount f (reserved b') = amount f (reserved b) - amount f r"
    and "\<And>f. amount f (consumed b') = amount f (consumed b) + amount f s"
  shows "reconcile b r s = Inr b'"
proof -
  have "b' = \<lparr>limits = limits b, reserved = amounts_of (\<lambda>f. amount f (reserved b) - amount f r),
         consumed = amounts_of (\<lambda>f. amount f (consumed b) + amount f s)\<rparr>"
    by (rule snapshot_eqI) (simp_all add: assms(5-7))
  then show ?thesis using reconcile_ok [OF assms(1,2), of r] assms(3,4) by simp
qed

lemma settle_is:
  assumes "reconcile b r s = Inr b'" and "valid_budget_snapshot b" and "valid_budget_amounts r" and "valid_budget_amounts s"
    and "int (length lats) = model_calls s" and "sum_list lats \<le> latency_us s" and "list_all (\<lambda>l. 0 \<le> l) lats"
    and "\<not> list_ex (\<lambda>l. l > max_call_latency_us (limits b)) lats"
  shows "settle b r s lats = Inr b'"
proof -
  have "\<not> list_ex (\<lambda>l. l < 0) lats" using assms(7) by (auto simp: list_ex_iff list_all_iff)
  with assms show ?thesis
    by (simp add: settle_def validate_snapshot_def validate_amounts_def validate_call_latencies_def checks_eval)
qed

text \<open>What the cycle validity and the projector's checks say of a revision's amounts.\<close>

lemma cycle_amounts_valid:
  assumes "valid_cycle_record H c"
  shows "cy_budget_reservation c = Some r \<Longrightarrow> valid_budget_amounts r"
    and "cy_budget_settlement c = Some s \<Longrightarrow> valid_budget_amounts s"
    and "list_all (\<lambda>l. 0 \<le> l) (cy_model_call_latencies_us c)"
    and "length (cy_model_call_digests c) = length (cy_model_call_latencies_us c)"
    and "cy_budget_settlement c = Some s \<Longrightarrow> cy_budget_reservation c = Some r \<Longrightarrow>
      sum_list (cy_model_call_latencies_us c) \<le> latency_us s"
  using assms by (auto simp: valid_cycle_record_def cycle_fields_ok_def cycle_budget_ok_def)

lemma settled_calls:
  assumes valid: "valid_cycle_record H c" and "cy_budget_settlement c = Some s" and "cy_budget_reservation c = Some r"
    and "cy_state c = Cycle_COMMITTED \<or> cy_state c = Cycle_FAILED \<and> cy_failure_reason c \<noteq> Some Reason_FAILED_UNKNOWN_COST"
  shows "int (length (cy_model_call_latencies_us c)) = model_calls s"
  using assms cycle_amounts_valid(4) [OF valid]
  by (auto simp: valid_cycle_record_def cycle_state_ok_def failed_cycle_ok_def no_receipts_def split: option.splits)

lemma call_latencies_limited:
  assumes reach: "reachable H F run p" and step: "apply_cycle H F p c = Inr p'" and b: "budget_snapshot_of p None = Inr b"
  shows "\<not> list_ex (\<lambda>l. l > max_call_latency_us (limits b)) (cy_model_call_latencies_us c)"
proof -
  obtain d where d: "dict_get (pr_decisions p) (cy_invocation_decision_id c) = Some d"
    "validate_cycle_budget p d c (dict_get (pr_cycles p) (cy_cycle_id c)) = Inr ()"
    using step by (rule apply_cycle_Inr)
  have "limits (id_budget_snapshot d) = limits b"
    using reachable_decision_limits [OF reach] d(1) snapshot_of_Inr(1) [OF b] by (auto simp: decision_limits_def)
  with d(2) show ?thesis by (auto simp: validate_cycle_budget_def bind_result_Inr checks_Inr)
qed

lemma unheld_revision:
  assumes "cycles_inv H p" and "apply_cycle H F p c = Inr p'" and "valid_cycle_record H c"
  shows "cy_state c = Cycle_PENDING \<Longrightarrow> held_before f p c = 0"
    and "cy_state c = Cycle_RESERVED \<Longrightarrow> held_before f p c = 0"
    and "cy_state c \<in> {Cycle_RUNNING, Cycle_COMMITTED, Cycle_FAILED} \<Longrightarrow>
      held_before f p c = (case cy_budget_reservation c of None \<Rightarrow> 0 | Some r \<Rightarrow> amount f r)"
proof -
  have inv: "latest_cycle_ok H p (cy_cycle_id c) q" if "dict_get (pr_cycles p) (cy_cycle_id c) = Some q" for q
    using assms(1) that unfolding cycles_inv_def by blast
  have guards: "cycle_guards p c (dict_get (pr_cycles p) (cy_cycle_id c))"
    using assms(2) by (rule apply_cycle_Inr)
  have rev: "revises q c" if "dict_get (pr_cycles p) (cy_cycle_id c) = Some q" for q
    using guards that by (simp add: cycle_guards_def successor_revises)
  have first: "cy_state c = Cycle_PENDING" if "dict_get (pr_cycles p) (cy_cycle_id c) = None"
    using guards that by (auto simp: cycle_guards_def cycle_begin_checks_def)
  have q: "\<exists>q. dict_get (pr_cycles p) (cy_cycle_id c) = Some q \<and> cy_state c \<in> set (cycle_transitions (cy_state q)) \<and>
      valid_cycle_record H q \<and> (cy_budget_reservation q \<noteq> None \<longrightarrow> cy_budget_reservation c = cy_budget_reservation q) \<and>
      guards_pass (cycle_successor_checks q c)"
    if "cy_state c \<noteq> Cycle_PENDING"
    using first inv rev that guards
    by (cases "dict_get (pr_cycles p) (cy_cycle_id c)") (auto simp: revises_def latest_cycle_ok_def cycle_guards_def)
  show "held_before f p c = 0" if "cy_state c = Cycle_PENDING"
  proof -
    have "Cycle_PENDING \<notin> set (cycle_transitions x)" for x by (cases x) simp_all
    with that rev have "dict_get (pr_cycles p) (cy_cycle_id c) = None"
      by (cases "dict_get (pr_cycles p) (cy_cycle_id c)") (auto simp: revises_def)
    then show ?thesis by (simp add: held_before_def)
  qed
  show "held_before f p c = 0" if "cy_state c = Cycle_RESERVED"
  proof -
    have "cy_state c \<noteq> Cycle_PENDING" using that by simp
    from q [OF this] obtain q where "dict_get (pr_cycles p) (cy_cycle_id c) = Some q"
      "cy_state c \<in> set (cycle_transitions (cy_state q))" by blast
    then show ?thesis using that
      by (cases "cy_state q") (simp_all add: held_before_def held_def active_reservation_def)
  qed
  show "held_before f p c = (case cy_budget_reservation c of None \<Rightarrow> 0 | Some r \<Rightarrow> amount f r)"
    if state: "cy_state c \<in> {Cycle_RUNNING, Cycle_COMMITTED, Cycle_FAILED}"
  proof -
    have "cy_state c \<noteq> Cycle_PENDING" using state by auto
    from q [OF this] obtain q where q: "dict_get (pr_cycles p) (cy_cycle_id c) = Some q" "cy_state c \<in> set (cycle_transitions (cy_state q))"
      "valid_cycle_record H q" "cy_budget_reservation q \<noteq> None \<longrightarrow> cy_budget_reservation c = cy_budget_reservation q"
      "guards_pass (cycle_successor_checks q c)" by blast
    show ?thesis
    proof (cases "cy_state q")
      case Cycle_PENDING
      with q state have "cy_state c = Cycle_FAILED" by auto
      with q(5) Cycle_PENDING have "cy_budget_reservation c = None" by (simp add: cycle_successor_checks_def)
      with q(1) Cycle_PENDING show ?thesis by (simp add: held_before_def held_def active_reservation_def)
    next
      case Cycle_RESERVED
      with q(3) have "cy_budget_reservation q \<noteq> None" by (simp add: valid_cycle_record_def cycle_state_ok_def)
      with q(1,4) Cycle_RESERVED show ?thesis by (simp add: held_before_def held_def active_reservation_def)
    next
      case Cycle_RUNNING
      with q(3) have "cy_budget_reservation q \<noteq> None" by (simp add: valid_cycle_record_def cycle_state_ok_def)
      with q(1,4) Cycle_RUNNING show ?thesis by (simp add: held_before_def held_def active_reservation_def)
    qed (use q(2) in simp_all)
  qed
qed

lemma revision_moves_budget:
  assumes reach: "reachable H F run p" and step: "apply_cycle H F p c = Inr p'" and valid: "valid_cycle_record H c"
    and b: "budget_snapshot_of p None = Inr b" and b': "budget_snapshot_of p' None = Inr b'"
  shows "governor_move c b = Inr b'"
proof -
  note inv = reachable_cycles [OF reach]
  note moved = snapshot_moves [OF inv step b b'] and before = unheld_revision [OF inv step valid]
  note amounts = cycle_amounts_valid [OF valid] and old = snapshot_of_Inr(2) [OF b] and new = snapshot_of_Inr(2) [OF b']
  have nonneg: "0 \<le> amount f (reserved b')" for f using new by (simp add: budget_simps)
  have finished: ?thesis
    if state: "cy_state c = Cycle_COMMITTED \<or> cy_state c = Cycle_FAILED" and r: "cy_budget_reservation c = Some r"
      and s: "cy_budget_settlement c = Some s" for r s
  proof -
    have sums: "amount f (reserved b') = amount f (reserved b) - amount f r"
      "amount f (consumed b') = amount f (consumed b) + amount f s" for f
      using moved(2,3) before(3) state r s by (auto simp: held_def active_reservation_def spent_def final_settlement_def)
    have le: "amount f s \<le> amount f r" "amount f r \<le> amount f (reserved b)" for f
      using settlement_within [OF valid s r] sums(1) [of f] nonneg [of f] by auto
    note done_ = reconcile_is [OF old amounts(2) [OF s] le moved(1) sums]
    show ?thesis
    proof (cases "cy_state c = Cycle_FAILED \<and> cy_failure_reason c = Some Reason_FAILED_UNKNOWN_COST")
      case True
      then have "s = r" using valid r s by (simp add: valid_cycle_record_def cycle_state_ok_def failed_cycle_ok_def)
      with True r s done_ old amounts(1) [OF r] show ?thesis
        by (simp add: governor_move_def consume_unknown_def validate_snapshot_def validate_amounts_def)
    next
      case False
      then have "int (length (cy_model_call_latencies_us c)) = model_calls s"
        using settled_calls [OF valid s r] state by blast
      then have "settle b r s (cy_model_call_latencies_us c) = Inr b'"
        by (rule settle_is [OF done_ old amounts(1) [OF r] amounts(2) [OF s] _ amounts(5) [OF s r] amounts(3)
              call_latencies_limited [OF reach step b]])
      with False state r s show ?thesis by (auto simp: governor_move_def)
    qed
  qed
  have same: "b' = b" if "\<And>f. held_before f p c = held f c" "\<And>f. spent f c = 0"
    by (rule snapshot_eqI) (use moved that in simp_all)
  show ?thesis
  proof (cases "cy_state c")
    case Cycle_PENDING
    then have "b' = b"
      by (intro same) (use before(1) in \<open>simp_all add: held_def active_reservation_def spent_def final_settlement_def\<close>)
    with Cycle_PENDING show ?thesis by (simp add: governor_move_def)
  next
    case Cycle_RESERVED
    then obtain r where r: "cy_budget_reservation c = Some r" "cy_budget_settlement c = None"
      using valid by (auto simp: valid_cycle_record_def cycle_state_ok_def no_committed_outputs_def)
    have sums: "amount f (reserved b') = amount f (reserved b) + amount f r" "amount f (consumed b') = amount f (consumed b)"
      for f
      using moved(2,3) before(2) Cycle_RESERVED r
      by (simp_all add: held_def active_reservation_def spent_def final_settlement_def)
    have "amount f r \<le> headroom f b" for f
    proof -
      have "amount f (reserved b') + amount f (consumed b') \<le> amount f (limits b')" using new by (simp add: budget_simps)
      then show ?thesis using sums [of f] moved(1) by (simp add: headroom_def)
    qed
    moreover have "b' = b\<lparr>reserved := amounts_of (\<lambda>f. amount f (reserved b) + amount f r)\<rparr>"
      by (rule snapshot_eqI) (simp_all add: sums moved(1))
    ultimately have "reserve b r = Inr b'" using old amounts(1) [OF r(1)] by (simp add: reserve_Inr)
    with Cycle_RESERVED r show ?thesis by (simp add: governor_move_def)
  next
    case Cycle_RUNNING
    then have "b' = b"
      by (intro same) (use before(3) in \<open>simp_all add: held_def active_reservation_def spent_def final_settlement_def\<close>)
    with Cycle_RUNNING show ?thesis by (simp add: governor_move_def)
  next
    case Cycle_COMMITTED
    then obtain r s where "cy_budget_reservation c = Some r" "cy_budget_settlement c = Some s"
      using valid by (auto simp: valid_cycle_record_def cycle_state_ok_def split: option.splits)
    with finished Cycle_COMMITTED show ?thesis by blast
  next
    case Cycle_FAILED
    show ?thesis
    proof (cases "cy_budget_reservation c")
      case None
      then have "cy_budget_settlement c = None"
        using valid Cycle_FAILED by (simp add: valid_cycle_record_def cycle_state_ok_def failed_cycle_ok_def)
      moreover have "b' = b"
        by (intro same) (use before(3) None Cycle_FAILED calculation in
          \<open>simp_all add: held_def active_reservation_def spent_def final_settlement_def\<close>)
      ultimately show ?thesis using Cycle_FAILED None by (simp add: governor_move_def)
    next
      case (Some r)
      then obtain s where "cy_budget_settlement c = Some s"
        using valid Cycle_FAILED by (auto simp: valid_cycle_record_def cycle_state_ok_def failed_cycle_ok_def)
      with finished Cycle_FAILED Some show ?thesis by blast
    qed
  qed
qed

text \<open>
  C10. The ledger's budget is the governor's: whenever the projector accepts a cycle revision, the snapshot
  derived from the projection afterwards is defined and is exactly what the budget governor's operation
  for that revision (\<open>reserve\<close>, \<open>settle\<close>, \<open>consume_unknown\<close>, or none) makes of the snapshot before.
\<close>

theorem ledger_budget_refines_governor:
  assumes "reachable H F run p" and "apply_entry H F p e = Inr p'" and "le_record e = Rec_cycle c"
    and "valid_cycle_record H c" and "budget_snapshot_of p None = Inr b"
  shows "\<exists>b'. budget_snapshot_of p' None = Inr b' \<and> governor_move c b = Inr b'"
proof -
  have step: "apply_cycle H F p c = Inr p'" using assms(2) by (cases rule: apply_entry_cases) (simp_all add: assms(3))
  have reach: "reachable H F run p'"
    by (rule reachable_entry [OF assms(1) _ assms(2)]) (simp add: assms(3,4) valid_ledger_record_def)
  have "pr_budget_limits p' = Some (limits b)"
    using snapshot_of_Inr(1) [OF assms(5)] cycle_frame(3) [OF step] by (simp add: decisions_part_def)
  with reachable_budget [OF reach] have "valid_budget_limits (limits b)" "\<forall>f. committed_budget f p' \<le> amount f (limits b)"
    by (simp_all add: budget_inv_def)
  from derived_snapshot_valid [OF reachable_cycles [OF reach] \<open>pr_budget_limits p' = Some (limits b)\<close> this]
  obtain b' where "budget_snapshot_of p' None = Inr b'" by blast
  with revision_moves_budget [OF assms(1) step assms(4,5)] show ?thesis by blast
qed

lemma sample_p3_reachable: "reachable zero_hash ratio_text (sample_uuid 1) sample_p3"
proof (rule project_entries_reachable)
  show "project_entries zero_hash ratio_text (sample_uuid 1)
      [sample_entry 1 (Rec_event sample_event), sample_entry 2 (Rec_decision sample_decision),
       sample_entry 3 (Rec_cycle sample_pending)] = Inr sample_p3"
    by (simp add: project_entries_def sample_step1 [simplified] sample_step2 sample_step3)
qed (simp_all add: sample_entry_def valid_ledger_record_def sample_decision_valid sample_cycle_valid)

theorem ledger_budget_refines_governor_witness:
  "\<exists>b'. budget_snapshot_of sample_p4 None = Inr b' \<and> governor_move sample_reserved sample_snapshot = Inr b'"
  by (rule ledger_budget_refines_governor [OF sample_p3_reachable sample_step4 _ sample_cycle_valid(2) sample_p3_budget])
    (simp add: sample_entry_def)

end
