(* ===== verification/Coordinator_Commands.thy ===== *)
theory Coordinator_Commands
  imports Coordinator
begin

text \<open>
  What a built command is worth: a candidate revision that validates makes the command valid, except
  that a commit's delivery plan has to match its verdict, which the candidate does not show.
\<close>

lemma candidate_identity:
  assumes "valid_cycle_record H c"
  shows "uuid4 (cy_run_id c)" and "sha256_digest (cy_cycle_id c)" and "1 \<le> cy_revision c"
  using assms by (simp_all add: valid_cycle_record_def cycle_fields_ok_def)

lemma fail_command_valid:
  assumes c: "valid_cycle_record H c" and f: "valid_cycle_record H (failed_candidate c q (actual_settlement c q))"
    and active: "cy_state c \<in> {Cycle_PENDING, Cycle_RESERVED, Cycle_RUNNING}"
    and pending: "\<not> (cy_state c = Cycle_PENDING \<and> (actual_settlement c q \<noteq> None \<or> fq_model_call_digests q \<noteq> [] \<or> fq_model_call_latencies_us q \<noteq> []))"
    and settled: "\<not> (cy_state c \<noteq> Cycle_PENDING \<and> actual_settlement c q = None)"
  shows "valid_fail_cycle \<lparr>fc_run_id = cy_run_id c, fc_cycle_id = cy_cycle_id c, fc_expected_revision = cy_revision c,
            fc_reason = fq_reason q, fc_settlement = actual_settlement c q,
            fc_model_call_digests = fq_model_call_digests q,
            fc_model_call_latencies_us = fq_model_call_latencies_us q, fc_updated_at = fq_updated_at q\<rparr>"
proof -
  note parts = valid_cycle_record_def cycle_fields_ok_def cycle_budget_ok_def cycle_state_ok_def failed_cycle_ok_def
    no_receipts_def failed_candidate_def
  have fields: "opt_all valid_budget_amounts (actual_settlement c q)" "list_all sha256_digest (fq_model_call_digests q)"
    "list_all (\<lambda>n. 0 \<le> n) (fq_model_call_latencies_us q)"
    "length (fq_model_call_digests q) = length (fq_model_call_latencies_us q)"
    using f by (simp_all add: parts)
  show ?thesis
  proof (cases "actual_settlement c q")
    case None
    then have "cy_state c = Cycle_PENDING" using settled by blast
    then show ?thesis using None pending candidate_identity [OF c] fields by (simp add: valid_fail_cycle_def)
  next
    case (Some s)
    then have state: "cy_state c = Cycle_RESERVED \<or> cy_state c = Cycle_RUNNING" using active pending by auto
    then obtain r where r: "cy_budget_reservation c = Some r" using c by (auto simp: parts)
    have "\<not> sum_list (fq_model_call_latencies_us q) > latency_us s" using f Some r by (simp add: parts)
    moreover have "if fq_reason q = Reason_FAILED_UNKNOWN_COST then \<not> int (length (fq_model_call_digests q)) > model_calls s
        else int (length (fq_model_call_digests q)) = model_calls s"
      using f Some r by (auto simp: parts split: option.splits if_splits)
    ultimately show ?thesis using Some candidate_identity [OF c] fields by (simp add: valid_fail_cycle_def split: if_splits)
  qed
qed

lemma commit_command_valid:
  assumes c: "valid_cycle_record H c" and f: "valid_cycle_record H (committed_candidate c q)"
    and "opt_all valid_enqueue_delivery (cm_delivery q)"
  shows "valid_commit_cycle \<lparr>cc_run_id = cy_run_id c, cc_cycle_id = cy_cycle_id c, cc_expected_revision = cy_revision c,
            cc_settlement = cm_settlement q, cc_model_call_digests = cm_model_call_digests q,
            cc_model_call_latencies_us = cm_model_call_latencies_us q, cc_validated_delta = cm_validated_delta q,
            cc_memory_id_assignments = cm_memory_id_assignments q, cc_intervention = cm_intervention q,
            cc_selector_provenance = cm_selector_provenance q, cc_delivery = cm_delivery q,
            cc_updated_at = cm_updated_at q\<rparr> \<longleftrightarrow>
    (iv_action (cm_intervention q) = Action_REMIND) = (cm_delivery q \<noteq> None)"
proof -
  note parts = valid_cycle_record_def cycle_fields_ok_def cycle_budget_ok_def cycle_state_ok_def committed_candidate_def
  obtain r where r: "cy_budget_reservation c = Some r" using f by (auto simp: parts)
  have "valid_budget_amounts (cm_settlement q)" "list_all sha256_digest (cm_model_call_digests q)"
    "list_all (\<lambda>n. 0 \<le> n) (cm_model_call_latencies_us q)" "valid_memory_delta (cm_validated_delta q)"
    "list_all valid_memory_id_assignment (cm_memory_id_assignments q)" "valid_intervention_decision (cm_intervention q)"
    "opt_all (\<lambda>v. is_object v \<and> json_finite v) (cm_selector_provenance q)"
    "length (cm_model_call_digests q) = length (cm_model_call_latencies_us q)"
    "int (length (cm_model_call_digests q)) = model_calls (cm_settlement q)"
    "\<not> sum_list (cm_model_call_latencies_us q) > latency_us (cm_settlement q)"
    using f r by (simp_all add: parts)
  with candidate_identity [OF c] assms(3) show ?thesis by (simp add: valid_commit_cycle_def)
qed

section \<open>Which constructor can raise\<close>

lemma checks_raises: "checks gs k = Inl e \<Longrightarrow> e \<notin> set (map snd gs) \<Longrightarrow> guards_pass gs \<and> k = Inl e"
  by (induction gs rule: guards_pass.induct) (auto simp: checks_eval split: if_splits)

lemma source_raises: "source_cycle H src operation \<noteq> Inl Coordinator_validation"
  by (auto simp: source_cycle_def split: cycle_source.splits)

lemma unguarded:
  assumes "bind_result (source_cycle H src operation) (\<lambda>c. checks (gs c) (built_command valid (cmd c))) = Inl Coordinator_validation"
    and "\<And>c. Coordinator_validation \<notin> set (map snd (gs c))"
  obtains c where "source_cycle H src operation = Inr c" "guards_pass (gs c)" "\<not> valid (cmd c)"
proof -
  obtain c where c: "source_cycle H src operation = Inr c"
    using assms(1) source_raises by (cases "source_cycle H src operation") auto
  with assms(1) have "checks (gs c) (built_command valid (cmd c)) = Inl Coordinator_validation" by simp
  from checks_raises [OF this assms(2)] that [OF c] show thesis by (auto simp: built_command_def split: if_splits)
qed

lemma source_cycle_valid: "source_cycle H src operation = Inr c \<Longrightarrow> valid_cycle_record H c"
  by (auto simp: source_cycle_def valid_cycle_receipt_def split: cycle_source.splits if_splits)

lemma begin_never_raw: "begin_command d g t \<noteq> Inl Coordinator_validation"
  by (auto simp: begin_command_def Let_def input_guard_def checks_eval)

lemma reserve_never_raw: "reserve_command H src a t \<noteq> Inl Coordinator_validation"
proof
  assume raw: "reserve_command H src a t = Inl Coordinator_validation"
  show False
    by (rule unguarded [OF raw [unfolded reserve_command_def Let_def]])
      (auto simp: state_guard_def input_guard_def valid_reserve_cycle_def dest: source_cycle_valid candidate_identity)
qed

lemma start_never_raw: "start_command H src b t \<noteq> Inl Coordinator_validation"
proof
  assume raw: "start_command H src b t = Inl Coordinator_validation"
  show False
    by (rule unguarded [OF raw [unfolded start_command_def Let_def]])
      (auto simp: state_guard_def input_guard_def valid_start_cycle_def dest: source_cycle_valid candidate_identity,
       simp add: valid_cycle_record_def cycle_fields_ok_def running_candidate_def)
qed

lemma fail_never_raw: "fail_command H src q \<noteq> Inl Coordinator_validation"
proof
  assume raw: "fail_command H src q = Inl Coordinator_validation"
  show False
  proof (rule unguarded [OF raw [unfolded fail_command_def Let_def]])
    fix c
    assume c: "source_cycle H src ''fail_cycle'' = Inr c"
    assume g: "guards_pass
        [state_guard c ''fail_cycle'' [Cycle_PENDING, Cycle_RESERVED, Cycle_RUNNING],
         input_guard (\<not> opt_all valid_budget_amounts (fq_settlement q)) ''fail_cycle'',
         input_guard (list_ex (\<lambda>n. n < 0) (fq_model_call_latencies_us q)) ''fail_cycle'',
         input_guard (fq_updated_at q < cy_updated_at c) ''fail_cycle'',
         (fq_reason q = Reason_FAILED_UNKNOWN_COST \<and> cy_state c \<noteq> Cycle_RUNNING,
            CycleCoordinatorStateError ''fail_cycle'' ''a running cycle''),
         input_guard (fq_reason q = Reason_FAILED_UNKNOWN_COST \<and> fq_settlement q \<noteq> None \<and>
            fq_settlement q \<noteq> cy_budget_reservation c) ''fail_cycle'',
         input_guard (cy_state c = Cycle_PENDING \<and> (actual_settlement c q \<noteq> None \<or>
            (fq_model_call_digests q \<noteq> [] \<or> fq_model_call_latencies_us q \<noteq> []))) ''fail_cycle'',
         input_guard (cy_state c = Cycle_RESERVED \<and> (actual_settlement c q = None \<or>
            (fq_model_call_digests q \<noteq> [] \<or> fq_model_call_latencies_us q \<noteq> []))) ''fail_cycle'',
         input_guard (cy_state c = Cycle_RUNNING \<and> actual_settlement c q = None) ''fail_cycle'',
         input_guard (\<not> valid_cycle_record H (failed_candidate c q (actual_settlement c q))) ''fail_cycle'']"
    then have "cy_state c \<in> {Cycle_PENDING, Cycle_RESERVED, Cycle_RUNNING}"
      "valid_cycle_record H (failed_candidate c q (actual_settlement c q))"
      "\<not> (cy_state c = Cycle_PENDING \<and> (actual_settlement c q \<noteq> None \<or> fq_model_call_digests q \<noteq> [] \<or> fq_model_call_latencies_us q \<noteq> []))"
      "\<not> (cy_state c \<noteq> Cycle_PENDING \<and> actual_settlement c q = None)"
      by (auto simp: state_guard_def input_guard_def)
    from fail_command_valid [OF source_cycle_valid [OF c] this(2,1,3,4)]
    show "\<not> valid_fail_cycle \<lparr>fc_run_id = cy_run_id c, fc_cycle_id = cy_cycle_id c, fc_expected_revision = cy_revision c,
            fc_reason = fq_reason q, fc_settlement = actual_settlement c q,
            fc_model_call_digests = fq_model_call_digests q,
            fc_model_call_latencies_us = fq_model_call_latencies_us q, fc_updated_at = fq_updated_at q\<rparr> \<Longrightarrow> False"
      by blast
  qed (auto simp: state_guard_def input_guard_def)
qed

definition plan_matches :: "commit_request \<Rightarrow> bool" where
  "plan_matches q = ((iv_action (cm_intervention q) = Action_REMIND) = (cm_delivery q \<noteq> None))"

definition commit_guards :: "hash_fun \<Rightarrow> cycle_record \<Rightarrow> commit_request \<Rightarrow> (bool \<times> coordinator_error) list" where
  "commit_guards H c q =
        [state_guard c ''commit_cycle'' [Cycle_RUNNING],
         input_guard (\<not> valid_budget_amounts (cm_settlement q)) ''commit_cycle'',
         input_guard (\<not> valid_memory_delta (cm_validated_delta q)) ''commit_cycle'',
         input_guard (\<not> list_all valid_memory_id_assignment (cm_memory_id_assignments q)) ''commit_cycle'',
         input_guard (\<not> valid_intervention_decision (cm_intervention q)) ''commit_cycle'',
         input_guard (\<not> opt_all valid_enqueue_delivery (cm_delivery q)) ''commit_cycle'',
         input_guard (list_ex (\<lambda>n. n < 0) (cm_model_call_latencies_us q)) ''commit_cycle'',
         input_guard (cm_updated_at q < cy_updated_at c) ''commit_cycle'',
         (md_run_id (cm_validated_delta q) \<noteq> cy_run_id c \<or> iv_run_id (cm_intervention q) \<noteq> cy_run_id c \<or>
            iv_cycle_id (cm_intervention q) \<noteq> cy_cycle_id c, CycleCoordinatorIdentityError ''commit_cycle''),
         input_guard (\<not> (cy_updated_at c \<le> md_created_at (cm_validated_delta q) \<and>
            md_created_at (cm_validated_delta q) \<le> cm_updated_at q \<and>
            cy_updated_at c \<le> iv_created_at (cm_intervention q) \<and>
            iv_created_at (cm_intervention q) \<le> cm_updated_at q)) ''commit_cycle'',
         input_guard (iv_created_at (cm_intervention q) < md_created_at (cm_validated_delta q)) ''commit_cycle'',
         input_guard (\<not> valid_cycle_record H (committed_candidate c q)) ''commit_cycle'']"

lemma commit_command_eq: "commit_command H src q = bind_result (source_cycle H src ''commit_cycle'') (\<lambda>c.
    checks (commit_guards H c q) (built_command valid_commit_cycle
      \<lparr>cc_run_id = cy_run_id c, cc_cycle_id = cy_cycle_id c, cc_expected_revision = cy_revision c,
            cc_settlement = cm_settlement q, cc_model_call_digests = cm_model_call_digests q,
            cc_model_call_latencies_us = cm_model_call_latencies_us q, cc_validated_delta = cm_validated_delta q,
            cc_memory_id_assignments = cm_memory_id_assignments q, cc_intervention = cm_intervention q,
            cc_selector_provenance = cm_selector_provenance q, cc_delivery = cm_delivery q,
            cc_updated_at = cm_updated_at q\<rparr>))"
  unfolding commit_command_def commit_guards_def Let_def ..

lemma commit_guards_pass: "guards_pass (commit_guards H c q) \<Longrightarrow> valid_cycle_record H (committed_candidate c q) \<and>
    opt_all valid_enqueue_delivery (cm_delivery q)"
  by (simp add: commit_guards_def input_guard_def state_guard_def)

lemma commit_outcome:
  "(if plan_matches q then \<exists>cmd. commit_command H src q = Inr cmd else commit_command H src q = Inl Coordinator_validation) =
     (\<exists>c. source_cycle H src ''commit_cycle'' = Inr c \<and> guards_pass (commit_guards H c q))"
  "commit_command H src q = Inl Coordinator_validation \<Longrightarrow> \<not> plan_matches q"
  "commit_command H src q = Inr cmd \<Longrightarrow> plan_matches q"
proof (atomize (full), cases "source_cycle H src ''commit_cycle''")
  case (Inl e)
  with source_raises [of H src "''commit_cycle''"] show "((if plan_matches q then \<exists>cmd. commit_command H src q = Inr cmd
      else commit_command H src q = Inl Coordinator_validation) =
     (\<exists>c. source_cycle H src ''commit_cycle'' = Inr c \<and> guards_pass (commit_guards H c q))) \<and>
    (commit_command H src q = Inl Coordinator_validation \<longrightarrow> \<not> plan_matches q) \<and>
    (commit_command H src q = Inr cmd \<longrightarrow> plan_matches q)"
    by (auto simp: commit_command_eq)
next
  case (Inr c)
  have typed: "Coordinator_validation \<notin> set (map snd (commit_guards H c q))"
    by (simp add: commit_guards_def state_guard_def input_guard_def)
  note plan = commit_command_valid [OF source_cycle_valid [OF Inr], of q, folded plan_matches_def]
  let ?k = "built_command valid_commit_cycle
      \<lparr>cc_run_id = cy_run_id c, cc_cycle_id = cy_cycle_id c, cc_expected_revision = cy_revision c,
            cc_settlement = cm_settlement q, cc_model_call_digests = cm_model_call_digests q,
            cc_model_call_latencies_us = cm_model_call_latencies_us q, cc_validated_delta = cm_validated_delta q,
            cc_memory_id_assignments = cm_memory_id_assignments q, cc_intervention = cm_intervention q,
            cc_selector_provenance = cm_selector_provenance q, cc_delivery = cm_delivery q,
            cc_updated_at = cm_updated_at q\<rparr>"
  have eq: "commit_command H src q = checks (commit_guards H c q) ?k" by (simp add: commit_command_eq Inr)
  have k: "?k \<noteq> Inl Coordinator_validation \<longleftrightarrow> plan_matches q" "(\<exists>cmd. ?k = Inr cmd) \<longleftrightarrow> plan_matches q"
    if "guards_pass (commit_guards H c q)"
    using plan commit_guards_pass [OF that] by (simp_all add: built_command_def)
  show "((if plan_matches q then \<exists>cmd. commit_command H src q = Inr cmd
      else commit_command H src q = Inl Coordinator_validation) =
     (\<exists>c. source_cycle H src ''commit_cycle'' = Inr c \<and> guards_pass (commit_guards H c q))) \<and>
    (commit_command H src q = Inl Coordinator_validation \<longrightarrow> \<not> plan_matches q) \<and>
    (commit_command H src q = Inr cmd \<longrightarrow> plan_matches q)"
  proof (cases "guards_pass (commit_guards H c q)")
    case True
    with k Inr show ?thesis unfolding eq checks_pass [OF True] by auto
  next
    case False
    then have "commit_command H src q \<noteq> Inl Coordinator_validation" "commit_command H src q \<noteq> Inr cmd" for cmd
      unfolding eq using checks_raises [OF _ typed, of ?k] by (auto simp: checks_Inr)
    with False Inr show ?thesis by auto
  qed
qed

lemma valid_plan_exists: "\<exists>d. valid_enqueue_delivery d"
proof -
  have ok: "component_identifier ''a''" "sha256_digest (replicate 64 CHR ''0'')"
    by code_simp (simp add: sha256_digest_def hex_chars_def list_all_iff)
  then show ?thesis
    by (intro exI [of _ "\<lparr>eq_target_request_id = ''a'', eq_adapter_id = ''a'', eq_adapter_deduplicates = True,
      eq_adapter_deduplication_guarantee = Dedup_DURABLE_DELIVERY_ID, eq_adapter_supports_pre_action = True,
      eq_adapter_contract_version = ''a'', eq_adapter_capabilities_digest = replicate 64 CHR ''0''\<rparr>"])
      (simp add: valid_enqueue_delivery_def)
qed

lemma replanned:
  assumes "opt_all valid_enqueue_delivery (cm_delivery q)" and "opt_all valid_enqueue_delivery d"
  shows "guards_pass (commit_guards H c (q\<lparr>cm_delivery := d\<rparr>)) \<longleftrightarrow> guards_pass (commit_guards H c q)"
  using assms by (simp add: commit_guards_def committed_candidate_def input_guard_def)

text \<open>
  C13. Which requests make a command constructor raise pydantic's own error instead of a coordinator error:
  none for begin, reserve, start and fail, whatever the input. For commit exactly those whose delivery plan is valid
  but does not match the verdict (a reminder without a plan, or silence with one) while everything else
  is in order: with the plan corrected the same request builds a command.
\<close>

theorem raw_errors_come_from_the_delivery_plan:
  "begin_command d g t \<noteq> Inl Coordinator_validation \<and>
   reserve_command H src a t \<noteq> Inl Coordinator_validation \<and>
   start_command H src b t \<noteq> Inl Coordinator_validation \<and>
   fail_command H src f \<noteq> Inl Coordinator_validation \<and>
   (commit_command H src q = Inl Coordinator_validation) =
     (\<not> plan_matches q \<and> opt_all valid_enqueue_delivery (cm_delivery q) \<and>
      (\<exists>plan cmd. commit_command H src (q\<lparr>cm_delivery := plan\<rparr>) = Inr cmd))"
proof -
  have "(commit_command H src q = Inl Coordinator_validation) =
     (\<not> plan_matches q \<and> opt_all valid_enqueue_delivery (cm_delivery q) \<and>
      (\<exists>plan cmd. commit_command H src (q\<lparr>cm_delivery := plan\<rparr>) = Inr cmd))"
  proof
    assume raw: "commit_command H src q = Inl Coordinator_validation"
    then have no: "\<not> plan_matches q" by (rule commit_outcome(2))
    then obtain c where c: "source_cycle H src ''commit_cycle'' = Inr c" "guards_pass (commit_guards H c q)"
      using raw commit_outcome(1) [of q H src] by auto
    then have own: "opt_all valid_enqueue_delivery (cm_delivery q)" using commit_guards_pass by blast
    obtain plan where plan: "opt_all valid_enqueue_delivery plan" "plan_matches (q\<lparr>cm_delivery := plan\<rparr>)"
    proof (cases "cm_delivery q")
      case None
      obtain d where "valid_enqueue_delivery d" using valid_plan_exists by blast
      with None no show thesis by (intro that [of "Some d"]) (auto simp: plan_matches_def)
    next
      case (Some x)
      with no show thesis by (intro that [of None]) (auto simp: plan_matches_def)
    qed
    have "guards_pass (commit_guards H c (q\<lparr>cm_delivery := plan\<rparr>))" using c(2) replanned [OF own plan(1)] by blast
    with c(1) plan(2) commit_outcome(1) [of "q\<lparr>cm_delivery := plan\<rparr>" H src]
    have "\<exists>cmd. commit_command H src (q\<lparr>cm_delivery := plan\<rparr>) = Inr cmd" by (metis (full_types))
    with no own show "\<not> plan_matches q \<and> opt_all valid_enqueue_delivery (cm_delivery q) \<and>
      (\<exists>plan cmd. commit_command H src (q\<lparr>cm_delivery := plan\<rparr>) = Inr cmd)" by blast
  next
    assume r: "\<not> plan_matches q \<and> opt_all valid_enqueue_delivery (cm_delivery q) \<and>
      (\<exists>plan cmd. commit_command H src (q\<lparr>cm_delivery := plan\<rparr>) = Inr cmd)"
    then obtain plan cmd where built: "commit_command H src (q\<lparr>cm_delivery := plan\<rparr>) = Inr cmd" by blast
    then have "plan_matches (q\<lparr>cm_delivery := plan\<rparr>)" by (rule commit_outcome(3))
    then obtain c where c: "source_cycle H src ''commit_cycle'' = Inr c"
      "guards_pass (commit_guards H c (q\<lparr>cm_delivery := plan\<rparr>))"
      using built commit_outcome(1) [of "q\<lparr>cm_delivery := plan\<rparr>" H src] by auto
    then have "opt_all valid_enqueue_delivery plan" using commit_guards_pass [OF c(2)] by simp
    with c r replanned have "guards_pass (commit_guards H c q)" by blast
    with c(1) r commit_outcome(1) [of q H src] show "commit_command H src q = Inl Coordinator_validation" by auto
  qed
  with begin_never_raw reserve_never_raw start_never_raw fail_never_raw show ?thesis by blast
qed

end
