(* ===== verification/Coordinator_Sequences.thy ===== *)
theory Coordinator_Sequences
  imports Coordinator_Facts Cycle_Progress
begin

text \<open>
  What a receipt that says \<open>appended\<close> means, whatever the command it answers: its revision was not in the
  run before and is the newest one of its cycle after, so among such receipts the revisions of a cycle
  grow, and with them the ranks of its states.
\<close>

section \<open>Revisions of a cycle\<close>

lemma recorded_revision:
  assumes "vault_ok env v" and "recorded v c"
  obtains s where "dict_get (va_slots v) (cy_run_id c) = Some s" and "cycles_inv (en_hash env) (sl_projection s)"
    and "dict_get (pr_cycle_history (sl_projection s)) (cy_cycle_id c, cy_revision c) = Some c"
    and "1 \<le> cy_revision c"
proof -
  from assms(2) obtain s where s: "dict_get (va_slots v) (cy_run_id c) = Some s"
    and c: "dict_get (pr_cycle_history (sl_projection s)) (cy_cycle_id c, cy_revision c) = Some c"
    by (auto simp: recorded_def split: option.splits)
  have inv: "cycles_inv (en_hash env) (sl_projection s)"
    by (rule slot_cycles_inv [OF vault_ok_slot(2) [OF assms(1) s]])
  with c have "cycle_revision_ok (en_hash env) (sl_projection s) (cy_cycle_id c) (cy_revision c) c"
    unfolding cycles_inv_def by blast
  with that [OF s inv c] show thesis by (simp add: cycle_revision_ok_def)
qed

text \<open>Below a stored revision there is no gap, and the state only moves forward.\<close>

lemma earlier_revision:
  assumes "cycles_inv H p" and "dict_get (pr_cycle_history p) (i, n) = Some c" and "1 \<le> m" and "m < n"
  shows "\<exists>q. dict_get (pr_cycle_history p) (i, m) = Some q \<and> state_rank (cy_state q) < state_rank (cy_state c)"
  using assms(2,4)
proof (induction "nat n" arbitrary: n c rule: less_induct)
  case less
  have ok: "cycle_revision_ok H p i n c" using assms(1) less.prems(1) unfolding cycles_inv_def by blast
  have "n \<noteq> 1" using assms(3) less.prems(2) by linarith
  with ok obtain q where q: "dict_get (pr_cycle_history p) (i, n - 1) = Some q" "revises q c"
    by (auto simp: cycle_revision_ok_def)
  then have rank: "state_rank (cy_state q) < state_rank (cy_state c)"
    using transition_ranks [of "cy_state c" "cy_state q"] by (simp add: revises_def)
  show ?case
  proof (cases "m = n - 1")
    case True
    with q(1) rank show ?thesis by blast
  next
    case False
    then have "m < n - 1" "nat (n - 1) < nat n" using assms(3) less.prems(2) by linarith+
    from less.hyps [OF this(2) q(1) this(1)] rank show ?thesis by fastforce
  qed
qed

text \<open>A receipt that says the revision was appended: the run had no such revision, and has it now.\<close>

definition newly_recorded :: "vault \<Rightarrow> vault \<Rightarrow> cycle_record \<Rightarrow> bool" where
  "newly_recorded v w c \<longleftrightarrow> recorded w c \<and>
     (\<forall>d. recorded v d \<longrightarrow> cy_run_id d = cy_run_id c \<longrightarrow> cy_cycle_id d = cy_cycle_id c \<longrightarrow> cy_revision d \<noteq> cy_revision c)"

lemma newly_recorded_above:
  assumes v: "vault_ok env v" and w: "vault_ok env w" and new: "newly_recorded v w c" and old: "recorded v d" "recorded w d"
    and same: "cy_run_id d = cy_run_id c" "cy_cycle_id d = cy_cycle_id c"
  shows "state_rank (cy_state d) < state_rank (cy_state c)"
proof -
  have differ: "cy_revision d \<noteq> cy_revision c" using new old(1) same unfolding newly_recorded_def by blast
  have rc: "recorded w c" using new by (simp add: newly_recorded_def)
  obtain s where s: "dict_get (va_slots v) (cy_run_id d) = Some s" "cycles_inv (en_hash env) (sl_projection s)"
    "dict_get (pr_cycle_history (sl_projection s)) (cy_cycle_id d, cy_revision d) = Some d" "1 \<le> cy_revision d"
    by (rule recorded_revision [OF v old(1)])
  obtain t where t: "dict_get (va_slots w) (cy_run_id c) = Some t" "cycles_inv (en_hash env) (sl_projection t)"
    "dict_get (pr_cycle_history (sl_projection t)) (cy_cycle_id c, cy_revision c) = Some c" "1 \<le> cy_revision c"
    by (rule recorded_revision [OF w rc])
  have "cy_revision d < cy_revision c"
  proof (rule ccontr)
    assume "\<not> cy_revision d < cy_revision c"
    then have "cy_revision c < cy_revision d" using differ by simp
    from earlier_revision [OF s(2,3) t(4) this] obtain q where
      q: "dict_get (pr_cycle_history (sl_projection s)) (cy_cycle_id d, cy_revision c) = Some q" by blast
    then have "cycle_revision_ok (en_hash env) (sl_projection s) (cy_cycle_id d) (cy_revision c) q"
      using s(2) unfolding cycles_inv_def by blast
    then have id: "cy_cycle_id q = cy_cycle_id d" "cy_revision q = cy_revision c" by (simp_all add: cycle_revision_ok_def)
    have "anchored (en_hash env) (en_float env) (sl_projection s) q"
      using reachable_anchors [OF slot_ok_project(3) [OF vault_ok_slot(2) [OF v s(1)]]] q unfolding anchors_inv_def by blast
    then have "cy_run_id q = cy_run_id d"
      using reachable_run [OF slot_ok_project(3) [OF vault_ok_slot(2) [OF v s(1)]]] vault_ok_slot(1) [OF v s(1)]
      by (simp add: anchored_def)
    then have "recorded v q" using q s(1) id by (simp add: recorded_def)
    with new same id \<open>cy_run_id q = cy_run_id d\<close> show False unfolding newly_recorded_def by metis
  qed
  from earlier_revision [OF t(2,3) s(4) this] old(2) t(1) same show ?thesis
    by (auto simp: recorded_def)
qed

section \<open>Appended receipts\<close>

text \<open>What a body has to say of the revision it returns.\<close>

definition appends :: "run_slot \<Rightarrow> run_slot \<Rightarrow> cycle_receipt \<Rightarrow> bool" where
  "appends s s' r \<longleftrightarrow> cached s' (cr_cycle r) \<and>
     (cr_appended r \<longrightarrow> dict_get (sl_cycle_records s) (cy_cycle_id (cr_cycle r), cy_revision (cr_cycle r)) = None)"

lemma record_cycle_appends:
  assumes "record_cycle_locked env v s c publishing delivery = Inr (r, v', s')"
  shows "appends s s' r"
  using assms by (cases rule: record_cycle_locked_Inr) (simp_all add: appends_def cached_def new_cycle_receipt_def)

lemma cycle_bodies_append:
  "begin_cycle_body env v bc s = Inr (r, v', s') \<Longrightarrow> appends s s' r"
  "reserve_cycle_body env v rc s = Inr (r, v', s') \<Longrightarrow> appends s s' r"
  "mark_cycle_running_body env v sc s = Inr (r, v', s') \<Longrightarrow> appends s s' r"
  "fail_cycle_body env v fc s = Inr (r, v', s') \<Longrightarrow> appends s s' r"
  by (auto simp: begin_cycle_body_def begin_new_cycle_def reserve_cycle_body_def mark_cycle_running_body_def
      fail_cycle_body_def bind_result_Inr Let_def intro: record_cycle_appends split: option.splits list.splits sum.splits if_splits)

lemma commit_body_appends:
  assumes "commit_cycle_body env v cmd s = Inr (r, v', s')"
  shows "appends s s' r"
proof -
  from assms obtain c where c: "commit_checked_cycle env v cmd s c = Inr (r, v', s')"
    unfolding commit_cycle_body_steps bind_result_Inr by blast
  note cached = commit_cached [OF this]
  show ?thesis
  proof (cases "dict_get (sl_cycle_records s) (cy_cycle_id c, cy_revision c)")
    case None
    with cached show ?thesis by (auto simp: appends_def)
  next
    case (Some existing)
    with c have "\<not> cr_appended r" by (auto simp: commit_checked_cycle_def split: if_splits)
    with cached show ?thesis by (auto simp: appends_def)
  qed
qed

lemma command_newly_recorded:
  assumes ok: "vault_ok env v" and step: "command_on_slot env v valid cmd operation run body = (Inr r, w)"
    and body: "\<And>s v' s'. body s = Inr (r, v', s') \<Longrightarrow> appends s s' r"
    and advanced: "\<And>s r v' s'. valid \<Longrightarrow> body s = Inr (r, v', s') \<Longrightarrow> advanced env v s v' s'"
  shows "recorded w (cr_cycle r)" and "cr_appended r \<Longrightarrow> newly_recorded v w (cr_cycle r)"
proof -
  let ?c = "cr_cycle r"
  from step have valid and on: "on_slot v run (\<lambda>s. bind_result (verify_head env v s True) (\<lambda>_. body s)) = (Inr r, w)"
    by (auto simp: command_on_slot_def accept_command_def split: sum.splits if_splits)
  from on obtain s v' s' where s: "find_slot v run = Inr s" and b: "body s = Inr (r, v', s')" and w: "w = store_slot s' v'"
    by (rule on_slot_Inr) (auto simp: bind_result_Inr)
  note stored = conjunct1 [OF find_slot_Inr [OF s]] and c = body [OF b, unfolded appends_def]
  note old = vault_ok_slot [OF ok stored]
  have "sl_run_id s' = run" using advanced [OF \<open>valid\<close> b] grows_run old(1) by (auto simp: advanced_def)
  then have got: "dict_get (va_slots w) run = Some s'" by (simp add: w)
  have "vault_ok env w"
    using command_on_slot_keeps [OF ok, of valid body cmd operation run] advanced step by (auto simp: keeps_def)
  note new = vault_ok_slot [OF this got]
  have history: "dict_get (pr_cycle_history (sl_projection s')) (cy_cycle_id ?c, cy_revision ?c) = Some ?c"
    using slot_caches(1) [OF new(2), of "(cy_cycle_id ?c, cy_revision ?c)"] c by (simp add: cached_def)
  then have "anchored (en_hash env) (en_float env) (sl_projection s') ?c"
    using reachable_anchors [OF slot_ok_project(3) [OF new(2)]] unfolding anchors_inv_def by blast
  then have run: "cy_run_id ?c = run"
    using reachable_run [OF slot_ok_project(3) [OF new(2)]] new(1) by (simp add: anchored_def)
  show rec: "recorded w ?c" using history got run by (simp add: recorded_def)
  show "newly_recorded v w ?c" if "cr_appended r"
  proof -
    have "dict_get (pr_cycle_history (sl_projection s)) (cy_cycle_id ?c, cy_revision ?c) = None"
      using slot_caches(1) [OF old(2), of "(cy_cycle_id ?c, cy_revision ?c)"] c that by simp
    then show ?thesis using rec stored run by (auto simp: newly_recorded_def recorded_def)
  qed
qed

lemma cycle_commands_record:
  assumes "vault_ok env v"
  shows "begin_cycle env v bc = (Inr r, w) \<Longrightarrow> recorded w (cr_cycle r) \<and> (cr_appended r \<longrightarrow> newly_recorded v w (cr_cycle r))"
    and "reserve_cycle env v rc = (Inr r, w) \<Longrightarrow> recorded w (cr_cycle r) \<and> (cr_appended r \<longrightarrow> newly_recorded v w (cr_cycle r))"
    and "mark_cycle_running env v sc = (Inr r, w) \<Longrightarrow> recorded w (cr_cycle r) \<and> (cr_appended r \<longrightarrow> newly_recorded v w (cr_cycle r))"
    and "commit_cycle env v cc = (Inr r, w) \<Longrightarrow> recorded w (cr_cycle r) \<and> (cr_appended r \<longrightarrow> newly_recorded v w (cr_cycle r))"
    and "fail_cycle env v fc = (Inr r, w) \<Longrightarrow> recorded w (cr_cycle r) \<and> (cr_appended r \<longrightarrow> newly_recorded v w (cr_cycle r))"
  unfolding begin_cycle_def reserve_cycle_def mark_cycle_running_def commit_cycle_def fail_cycle_def
  by (blast dest: command_newly_recorded [OF assms] intro: cycle_bodies_append commit_body_appends cycle_steps_advanced
      commit_cycle_body_advanced)+

end
