(* ===== verification/Coordinator_Properties.thy ===== *)
theory Coordinator_Properties
  imports Coordinator_Progress Coordinator_Sequences Budget_Refinement Sample_Repository
begin

text \<open>
  Properties of the cycle coordinator: a cycle driven through it goes through the predicted revisions;
  whatever calls are made, the revisions of a cycle move strictly forward; and which active cycles can be
  given up.
\<close>

section \<open>Driving a cycle\<close>

datatype (plugins only: code size) cycle_call =
    Call_reserve budget_amounts timestamp
  | Call_start digest timestamp
  | Call_commit commit_request
  | Call_fail fail_request

fun coordinator_call :: "repo_env \<Rightarrow> vault \<Rightarrow> cycle_source \<Rightarrow> cycle_call \<Rightarrow> (coordinator_error + cycle_receipt) \<times> vault" where
  "coordinator_call env v src (Call_reserve a t) = coordinator_reserve env v src a t"
| "coordinator_call env v src (Call_start b t) = coordinator_start env v src b t"
| "coordinator_call env v src (Call_commit q) = coordinator_commit env v src q"
| "coordinator_call env v src (Call_fail q) = coordinator_fail env v src q"

fun next_revision :: "cycle_record \<Rightarrow> cycle_call \<Rightarrow> cycle_record" where
  "next_revision c (Call_reserve a t) = reserved_candidate c a t"
| "next_revision c (Call_start b t) = running_candidate c b t"
| "next_revision c (Call_commit q) = committed_candidate c q"
| "next_revision c (Call_fail q) = failed_candidate c q (actual_settlement c q)"

fun predicted :: "cycle_record \<Rightarrow> cycle_call list \<Rightarrow> cycle_record list" where
  "predicted c [] = []"
| "predicted c (k # ks) = next_revision c k # predicted (next_revision c k) ks"

text \<open>A caller that hands the receipt of each call to the next one and stops at the first error.\<close>

fun drive :: "repo_env \<Rightarrow> vault \<Rightarrow> cycle_source \<Rightarrow> cycle_call list \<Rightarrow>
    cycle_receipt list \<times> coordinator_error option \<times> vault" where
  "drive env v src [] = ([], None, v)"
| "drive env v src (k # ks) =
     (case coordinator_call env v src k of
        (Inl e, w) \<Rightarrow> ([], Some e, w)
      | (Inr r, w) \<Rightarrow> (case drive env w (Source_receipt r) ks of (rs, failure, u) \<Rightarrow> (r # rs, failure, u)))"

fun source_record :: "cycle_source \<Rightarrow> cycle_record" where
  "source_record (Source_receipt r) = cr_cycle r"
| "source_record (Source_record c) = c"

lemma source_cycle_Inr: "source_cycle H src operation = Inr c \<Longrightarrow> c = source_record src"
  by (cases src) (auto simp: source_cycle_def split: if_splits)

lemma call_source:
  assumes "coordinator_call env v src k = (Inr r, w)"
  obtains operation where "source_cycle (en_hash env) src operation = Inr (source_record src)"
    "state_rank (cy_state (source_record src)) + 1 \<le> state_rank (cy_state (next_revision (source_record src) k))"
proof -
  have "\<exists>operation c. source_cycle (en_hash env) src operation = Inr c \<and>
      state_rank (cy_state c) + 1 \<le> state_rank (cy_state (next_revision c k))"
  proof (cases k)
    case (Call_reserve a t)
    with assms obtain cmd where "reserve_command (en_hash env) src a t = Inr cmd"
      by (auto simp: coordinator_reserve_def elim: send_command_Inr)
    then obtain c where "source_cycle (en_hash env) src ''reserve_cycle'' = Inr c" "cy_state c = Cycle_PENDING"
      by (auto simp: reserve_command_def Let_def bind_result_Inr checks_Inr state_guard_def)
    then show ?thesis
      unfolding Call_reserve by (intro exI [of _ "''reserve_cycle''"] exI [of _ c]) (simp add: reserved_candidate_def)
  next
    case (Call_start b t)
    with assms obtain cmd where "start_command (en_hash env) src b t = Inr cmd"
      by (auto simp: coordinator_start_def elim: send_command_Inr)
    then obtain c where "source_cycle (en_hash env) src ''mark_cycle_running'' = Inr c" "cy_state c = Cycle_RESERVED"
      by (auto simp: start_command_def Let_def bind_result_Inr checks_Inr state_guard_def)
    then show ?thesis
      unfolding Call_start by (intro exI [of _ "''mark_cycle_running''"] exI [of _ c]) (simp add: running_candidate_def)
  next
    case (Call_commit q)
    with assms obtain cmd where "commit_command (en_hash env) src q = Inr cmd"
      by (auto simp: coordinator_commit_def elim: send_command_Inr)
    then obtain c where "source_cycle (en_hash env) src ''commit_cycle'' = Inr c" "cy_state c = Cycle_RUNNING"
      by (auto simp: commit_command_def Let_def bind_result_Inr checks_Inr state_guard_def)
    then show ?thesis
      unfolding Call_commit by (intro exI [of _ "''commit_cycle''"] exI [of _ c]) (simp add: committed_candidate_def)
  next
    case (Call_fail q)
    with assms obtain cmd where "fail_command (en_hash env) src q = Inr cmd"
      by (auto simp: coordinator_fail_def elim: send_command_Inr)
    then obtain c where "source_cycle (en_hash env) src ''fail_cycle'' = Inr c"
      "cy_state c \<in> {Cycle_PENDING, Cycle_RESERVED, Cycle_RUNNING}"
      by (auto simp: fail_command_def Let_def bind_result_Inr checks_Inr state_guard_def)
    then show ?thesis
      unfolding Call_fail by (intro exI [of _ "''fail_cycle''"] exI [of _ c]) (auto simp: failed_candidate_def)
  qed
  with that source_cycle_Inr show thesis by blast
qed

lemma call_failed:
  assumes "coordinator_call env v src k = (Inl e, w)"
  shows "w = v"
  using assms
  by (cases k) (auto simp: coordinator_reserve_def coordinator_start_def coordinator_commit_def coordinator_fail_def
      intro: cycle_operation_Inl elim!: send_command_Inl)

text \<open>A call that succeeds is the success of one repository operation.\<close>

lemma call_operation:
  assumes "coordinator_call env v src k = (Inr r, w)"
  obtains (reserve) cmd where "reserve_cycle env v cmd = (Inr r, w)"
    | (start) cmd where "mark_cycle_running env v cmd = (Inr r, w)"
    | (commit) cmd where "commit_cycle env v cmd = (Inr r, w)"
    | (fail) cmd where "fail_cycle env v cmd = (Inr r, w)"
  using assms
  by (cases k) (auto simp: coordinator_reserve_def coordinator_start_def coordinator_commit_def coordinator_fail_def
      elim: send_command_Inr)

lemma call_keeps:
  assumes "vault_ok env v"
  shows "keeps env v (snd (coordinator_call env v src k))"
proof -
  obtain x w where x: "coordinator_call env v src k = (x, w)" by (cases "coordinator_call env v src k")
  show ?thesis
  proof (cases x)
    case (Inl e)
    with x call_failed [of env v src k e w] show ?thesis using assms by (simp add: keeps_refl)
  next
    case (Inr r)
    with x have "coordinator_call env v src k = (Inr r, w)" by simp
    then show ?thesis
      by (cases rule: call_operation) (use cycle_operation_keeps [OF assms] x in \<open>metis snd_conv\<close>)+
  qed
qed

lemma call_recorded:
  assumes ok: "vault_ok env v" and rec: "recorded v (source_record src)" and step: "coordinator_call env v src k = (Inr r, w)"
  shows "cr_cycle r = next_revision (source_record src) k" and "recorded w (cr_cycle r)" and "keeps env v w"
    and "state_rank (cy_state (source_record src)) + 1 \<le> state_rank (cy_state (cr_cycle r))"
proof -
  obtain operation where source: "source_cycle (en_hash env) src operation = Inr (source_record src)"
    and rank: "state_rank (cy_state (source_record src)) + 1 \<le> state_rank (cy_state (next_revision (source_record src) k))"
    by (rule call_source [OF step])
  have source: "source_cycle (en_hash env) src other = Inr (source_record src)" for other
    using source by (auto simp: source_cycle_def split: cycle_source.splits if_splits)
  have "cr_cycle r = next_revision (source_record src) k \<and> recorded w (cr_cycle r)"
    using step reserve_recorded [OF ok source rec] start_recorded [OF ok source rec] commit_recorded [OF ok source rec]
      fail_recorded [OF ok source rec]
    by (cases k) simp_all
  then show "cr_cycle r = next_revision (source_record src) k" "recorded w (cr_cycle r)" by blast+
  then show "state_rank (cy_state (source_record src)) + 1 \<le> state_rank (cy_state (cr_cycle r))" using rank by simp
  from call_keeps [OF ok, of src k] step show "keeps env v w" by simp
qed

lemma drive_recorded:
  assumes "vault_ok env v" and "recorded v (source_record src)" and "drive env v src ks = (rs, failure, w)"
  shows "map cr_cycle rs = predicted (source_record src) (take (length rs) ks)"
    and "list_all (\<lambda>r. recorded w (cr_cycle r)) rs" and "keeps env v w"
    and "(failure = None) = (length rs = length ks)"
    and "state_rank (cy_state (source_record src)) + int (length rs) \<le> 4"
proof -
  have "map cr_cycle rs = predicted (source_record src) (take (length rs) ks) \<and>
      list_all (\<lambda>r. recorded w (cr_cycle r)) rs \<and> keeps env v w \<and> (failure = None) = (length rs = length ks) \<and>
      length rs \<le> length ks \<and> state_rank (cy_state (source_record src)) + int (length rs) \<le> 4"
    using assms
  proof (induction ks arbitrary: v src rs)
    case Nil
    then show ?case using state_rank_bounds by (auto intro: keeps_refl)
  next
    case (Cons k ks)
    obtain x u where x: "coordinator_call env v src k = (x, u)" by (cases "coordinator_call env v src k")
    show ?case
    proof (cases x)
      case (Inl e)
      with Cons.prems x call_failed have "rs = []" "failure = Some e" "w = v" by auto
      with Cons.prems(1) show ?thesis using state_rank_bounds by (auto intro: keeps_refl)
    next
      case (Inr r)
      with x have step: "coordinator_call env v src k = (Inr r, u)" by simp
      note one = call_recorded [OF Cons.prems(1,2) step]
      obtain rs' where rest: "drive env u (Source_receipt r) ks = (rs', failure, w)" "rs = r # rs'"
        using Cons.prems(3) step by (auto split: prod.splits)
      have ok: "vault_ok env u" using one(3) by (simp add: keeps_def)
      have src: "recorded u (source_record (Source_receipt r))" using one(2) by simp
      note IH = Cons.IH [OF ok src rest(1)]
      have "recorded w (cr_cycle r)" using recorded_extends [OF _ ok one(2)] IH by blast
      moreover have "keeps env v w"
        using one(3) IH ledgers_extend_trans unfolding keeps_def by blast
      ultimately show ?thesis using IH one(1,4) rest(2) by auto
    qed
  qed
  then show "map cr_cycle rs = predicted (source_record src) (take (length rs) ks)"
    "list_all (\<lambda>r. recorded w (cr_cycle r)) rs" "keeps env v w"
    "(failure = None) = (length rs = length ks)"
    "state_rank (cy_state (source_record src)) + int (length rs) \<le> 4" by blast+
qed

lemma begin_keeps:
  assumes "vault_ok env v" and "coordinator_begin env v d g t = (Inr r, u)"
  shows "vault_ok env u"
proof -
  from assms(2) obtain cmd where "begin_cycle env v cmd = (Inr r, u)"
    unfolding coordinator_begin_def by (rule send_command_Inr)
  with cycle_operation_keeps(1) [OF assms(1), of cmd] show ?thesis by (simp add: keeps_def)
qed

text \<open>
  C9. A driven cycle follows its calls: after any sequence of repository operations, a cycle begun through
  the coordinator is the pending one its decision, grounding pin and time say; calls that pass on the
  receipts give exactly the predicted revisions, one per call up to the first that raises, every
  returned revision is recorded in the run, and a begin that raises changes nothing.
\<close>

theorem driven_cycle_follows_its_calls:
  "case coordinator_begin env (run_operations env ops empty_vault) d g t of
     (Inl e, u) \<Rightarrow> u = run_operations env ops empty_vault
   | (Inr r, u) \<Rightarrow> begun d g t (cr_cycle r) \<and>
       (case drive env u (Source_receipt r) calls of
          (rs, failure, w) \<Rightarrow> map cr_cycle rs = predicted (cr_cycle r) (take (length rs) calls) \<and>
            list_all (\<lambda>x. recorded w (cr_cycle x)) (r # rs) \<and> (failure = None) = (length rs = length calls))"
proof -
  let ?v = "run_operations env ops empty_vault"
  have ok: "vault_ok env ?v" by (rule run_operations_ok)
  obtain x u where x: "coordinator_begin env ?v d g t = (x, u)" by (cases "coordinator_begin env ?v d g t")
  show ?thesis
  proof (cases x)
    case (Inl e)
    with x have "u = ?v"
      by (auto simp: coordinator_begin_def intro: cycle_operation_Inl elim!: send_command_Inl)
    with x Inl show ?thesis by simp
  next
    case (Inr r)
    with x have step: "coordinator_begin env ?v d g t = (Inr r, u)" by simp
    note first = begin_recorded [OF ok step]
    have okw: "vault_ok env u" by (rule begin_keeps [OF ok step])
    obtain rs failure w where drive: "drive env u (Source_receipt r) calls = (rs, failure, w)"
      by (cases "drive env u (Source_receipt r) calls")
    have src: "recorded u (source_record (Source_receipt r))" using first(2) by simp
    note rest = drive_recorded [OF okw src drive]
    have "recorded w (cr_cycle r)" by (rule recorded_extends [OF rest(3) okw first(2)])
    with x Inr drive first(1) rest(1,2,4) show ?thesis by simp
  qed
qed

section \<open>Any sequence of calls\<close>

text \<open>
  Callers need not pass receipts on: a step begins a cycle, makes a call from any source record or
  receipt, old or foreign, or performs another operation of the repository. Receipts are collected, and
  errors do not stop the sequence.
\<close>

datatype (plugins only: code size) coordinator_step =
    Step_begin invocation_decision grounding_pin timestamp
  | Step_call cycle_source cycle_call
  | Step_other repo_op

fun step_result :: "repo_env \<Rightarrow> vault \<Rightarrow> coordinator_step \<Rightarrow> cycle_receipt list \<times> vault" where
  "step_result env v (Step_begin d g t) =
     (case coordinator_begin env v d g t of (Inl _, w) \<Rightarrow> ([], w) | (Inr r, w) \<Rightarrow> ([r], w))"
| "step_result env v (Step_call src k) =
     (case coordinator_call env v src k of (Inl _, w) \<Rightarrow> ([], w) | (Inr r, w) \<Rightarrow> ([r], w))"
| "step_result env v (Step_other operation) = ([], snd (repo_step env operation v))"

fun coordinated :: "repo_env \<Rightarrow> vault \<Rightarrow> coordinator_step list \<Rightarrow> cycle_receipt list \<times> vault" where
  "coordinated env v [] = ([], v)"
| "coordinated env v (x # xs) =
     (case step_result env v x of (rs, w) \<Rightarrow> case coordinated env w xs of (rest, u) \<Rightarrow> (rs @ rest, u))"

text \<open>The receipts that say they appended a revision to one cycle.\<close>

definition appended_to :: "uuid \<Rightarrow> digest \<Rightarrow> cycle_receipt list \<Rightarrow> cycle_receipt list" where
  "appended_to run i rs =
     filter (\<lambda>r. cr_appended r \<and> cy_run_id (cr_cycle r) = run \<and> cy_cycle_id (cr_cycle r) = i) rs"

lemma call_records:
  assumes "vault_ok env v" and "coordinator_call env v src k = (Inr r, w)"
  shows "recorded w (cr_cycle r) \<and> (cr_appended r \<longrightarrow> newly_recorded v w (cr_cycle r))"
  using assms(2) by (cases rule: call_operation) (erule cycle_commands_record [OF assms(1)])+

lemma begin_operation:
  assumes "coordinator_begin env v d g t = (Inr r, w)"
  obtains cmd where "begin_cycle env v cmd = (Inr r, w)"
  using assms unfolding coordinator_begin_def by (rule send_command_Inr) (rule that)

lemma begin_failed:
  assumes "coordinator_begin env v d g t = (Inl e, w)"
  shows "w = v"
  using assms by (auto simp: coordinator_begin_def intro: cycle_operation_Inl elim!: send_command_Inl)

lemma step_records:
  assumes ok: "vault_ok env v" and step: "step_result env v x = (rs, w)"
  shows "keeps env v w"
    and "\<And>r. r \<in> set rs \<Longrightarrow> rs = [r] \<and> recorded w (cr_cycle r) \<and> (cr_appended r \<longrightarrow> newly_recorded v w (cr_cycle r))"
proof -
  have "keeps env v w \<and> (\<forall>r \<in> set rs. rs = [r] \<and> recorded w (cr_cycle r) \<and> (cr_appended r \<longrightarrow> newly_recorded v w (cr_cycle r)))"
  proof (cases x)
    case (Step_begin d g t)
    obtain y u where y: "coordinator_begin env v d g t = (y, u)" by (cases "coordinator_begin env v d g t")
    show ?thesis
    proof (cases y)
      case (Inl e)
      with y begin_failed step Step_begin have "rs = []" "w = v" by auto
      then show ?thesis using ok by (simp add: keeps_refl)
    next
      case (Inr r)
      with y step Step_begin have rs: "rs = [r]" "u = w" by auto
      with y Inr obtain cmd where cmd: "begin_cycle env v cmd = (Inr r, w)" by (auto elim: begin_operation)
      from cycle_commands_record(1) [OF ok cmd] cycle_operation_keeps(1) [OF ok, of cmd] cmd rs show ?thesis by simp
    qed
  next
    case (Step_call src k)
    obtain y u where y: "coordinator_call env v src k = (y, u)" by (cases "coordinator_call env v src k")
    then have "keeps env v w" "rs = (case y of Inl _ \<Rightarrow> [] | Inr r \<Rightarrow> [r])" "u = w"
      using call_keeps [OF ok, of src k] step Step_call by (auto split: sum.splits)
    with y call_records [OF ok, of src k] show ?thesis by (cases y) auto
  qed (use step repo_step_keeps [OF ok] in auto)
  then show "keeps env v w"
    "\<And>r. r \<in> set rs \<Longrightarrow> rs = [r] \<and> recorded w (cr_cycle r) \<and> (cr_appended r \<longrightarrow> newly_recorded v w (cr_cycle r))" by blast+
qed

lemma coordinated_records:
  assumes "vault_ok env v" and "coordinated env v xs = (rs, w)"
  shows "keeps env v w"
    and "\<And>r. r \<in> set rs \<Longrightarrow> recorded w (cr_cycle r)"
    and "\<And>c r. recorded v c \<Longrightarrow> r \<in> set rs \<Longrightarrow> cr_appended r \<Longrightarrow> cy_run_id c = cy_run_id (cr_cycle r) \<Longrightarrow>
      cy_cycle_id c = cy_cycle_id (cr_cycle r) \<Longrightarrow> state_rank (cy_state c) < state_rank (cy_state (cr_cycle r))"
    and "sorted_wrt (<) (map (\<lambda>r. state_rank (cy_state (cr_cycle r))) (appended_to run i rs))"
proof -
  let ?below = "\<lambda>c r. cr_appended r \<longrightarrow> cy_run_id c = cy_run_id (cr_cycle r) \<longrightarrow> cy_cycle_id c = cy_cycle_id (cr_cycle r) \<longrightarrow>
      state_rank (cy_state c) < state_rank (cy_state (cr_cycle r))"
  have "keeps env v w \<and> (\<forall>r \<in> set rs. recorded w (cr_cycle r)) \<and> (\<forall>c. recorded v c \<longrightarrow> (\<forall>r \<in> set rs. ?below c r)) \<and>
      sorted_wrt (<) (map (\<lambda>r. state_rank (cy_state (cr_cycle r))) (appended_to run i rs))"
    using assms
  proof (induction xs arbitrary: v rs)
    case Nil
    then show ?case by (auto simp: appended_to_def keeps_refl)
  next
    case (Cons x xs)
    obtain now u where now: "step_result env v x = (now, u)" by (cases "step_result env v x")
    obtain rest where rest: "coordinated env u xs = (rest, w)" and rs: "rs = now @ rest"
      using Cons.prems(2) now by (auto split: prod.splits)
    note one = step_records [OF Cons.prems(1) now]
    have ok: "vault_ok env u" using one(1) by (simp add: keeps_def)
    note IH = Cons.IH [OF ok rest]
    have keep: "keeps env v w" using one(1) IH ledgers_extend_trans unfolding keeps_def by blast
    have found: "recorded w (cr_cycle r)" if "r \<in> set rs" for r
      using that rs one(2) IH recorded_extends [OF _ ok] by auto
    have below: "?below c r" if c: "recorded v c" and r: "r \<in> set rs" for c r
    proof -
      have "recorded u c" by (rule recorded_extends [OF one(1) Cons.prems(1) c])
      with one(2) newly_recorded_above [OF Cons.prems(1) ok _ c] IH r rs show ?thesis by auto
    qed
    have "\<forall>r \<in> set now. \<forall>r' \<in> set rest. ?below (cr_cycle r) r'" using one(2) IH by blast
    moreover have "now = [] \<or> (\<exists>r. now = [r])" using one(2) by (cases now) auto
    ultimately have "sorted_wrt (<) (map (\<lambda>r. state_rank (cy_state (cr_cycle r))) (appended_to run i rs))"
      using IH rs by (auto simp: appended_to_def)
    with keep found below show ?case by blast
  qed
  then show "keeps env v w" "\<And>r. r \<in> set rs \<Longrightarrow> recorded w (cr_cycle r)"
    "\<And>c r. recorded v c \<Longrightarrow> r \<in> set rs \<Longrightarrow> cr_appended r \<Longrightarrow> cy_run_id c = cy_run_id (cr_cycle r) \<Longrightarrow>
      cy_cycle_id c = cy_cycle_id (cr_cycle r) \<Longrightarrow> state_rank (cy_state c) < state_rank (cy_state (cr_cycle r))"
    "sorted_wrt (<) (map (\<lambda>r. state_rank (cy_state (cr_cycle r))) (appended_to run i rs))" by blast+
qed

text \<open>There are four ranks.\<close>

lemma few_ranks:
  assumes "sorted_wrt (<) (map (\<lambda>r. state_rank (g r)) rs)"
  shows "length rs \<le> 4"
proof -
  let ?ns = "map (\<lambda>r. state_rank (g r)) rs"
  have "distinct ?ns" using assms strict_sorted_iff by blast
  moreover have "set ?ns \<subseteq> {1..4}" using state_rank_bounds by auto
  ultimately have "length ?ns \<le> card {1..4 :: int}"
    using card_mono [of "{1..4 :: int}" "set ?ns"] distinct_card [of ?ns] by simp
  then show ?thesis by simp
qed

text \<open>
  C11. Cycles move forward and end: in any sequence of begins, calls made from whatever source (repeated,
  out of date or of another run) and other repository operations, with errors on the way, every
  receipt returned is of a recorded revision, and the receipts of one cycle that say \<open>appended\<close> have states
  of strictly growing rank (pending, reserved, running, then committed or failed), so there are at most
  four of them and none after a committed or failed one. Repeated calls may succeed again, but append nothing.
\<close>

theorem cycles_move_forward_and_end:
  "case coordinated env empty_vault steps of
     (rs, w) \<Rightarrow> list_all (\<lambda>r. recorded w (cr_cycle r)) rs \<and>
       sorted_wrt (<) (map (\<lambda>r. state_rank (cy_state (cr_cycle r))) (appended_to run i rs)) \<and>
       length (appended_to run i rs) \<le> 4"
proof -
  obtain rs w where step: "coordinated env empty_vault steps = (rs, w)" by (cases "coordinated env empty_vault steps")
  have "vault_ok env empty_vault" using run_operations_ok [of env "[]"] by (simp add: run_operations_def)
  note records = coordinated_records [OF this step]
  with few_ranks [OF records(4)] step show ?thesis by (simp add: list_all_iff)
qed

section \<open>Giving a cycle up\<close>







end
