(* ===== verification/Adapters.thy ===== *)
theory Adapters
  imports Repository_Append Rendering "HOL-Library.Sublist"
begin

text \<open>
  The delivery contract between the runtime and a harness adapter (\<open>ports/adapters.py\<close>): what an adapter
  declares about itself, where a reminder may be injected, the text it is framed in, the envelope an
  adapter is handed and the receipt it answers with. The adapter itself is code of the harness; here it
  is the value of its declaration and of its answers.

  An argument of type \<open>object\<close> that has to be an instance of a class is an \<open>option\<close>: \<open>None\<close> is
  any value of another type, or one whose attributes raise.
\<close>

datatype (plugins only: code size) delivery_channel = Channel_PROVIDER_DATA | Channel_EXISTING_USER_TASK

datatype (plugins only: code size) delivery_role = Delivered_DATA | Delivered_USER | Delivered_SYSTEM | Delivered_DEVELOPER

definition adapter_contract_version :: string where
  "adapter_contract_version = ''adapter-contract/v1''"

definition untrusted_block_begin :: string where
  "untrusted_block_begin = ''<<<SALIENCEGATE_UNTRUSTED_EVIDENCE_V1>>>''"

definition untrusted_block_end :: string where
  "untrusted_block_end = ''<<<END_SALIENCEGATE_UNTRUSTED_EVIDENCE_V1>>>''"

text \<open>Fifteen minutes, and the last instant of a \<open>datetime\<close>, in microseconds.\<close>

definition max_receipt_latency :: int where
  "max_receipt_latency = 900000000"

definition max_datetime :: timestamp where
  "max_datetime = 253402300799999999"

section \<open>Injection mappings\<close>

record injection_mapping =
  im_channel :: delivery_channel
  im_role :: delivery_role
  im_provider_channel :: "string option"

definition safe_provider_leaves :: "string list" where
  "safe_provider_leaves = [''context'', ''context_data'', ''data'', ''evidence'', ''metadata'']"

definition reserved_provider_segments :: "string list" where
  "reserved_provider_segments = [''developer'', ''instruction'', ''instructions'', ''message'', ''messages'',
     ''prompt'', ''system'']"

definition authoritative_role :: "delivery_role \<Rightarrow> bool" where
  "authoritative_role r \<longleftrightarrow> r \<in> {Delivered_SYSTEM, Delivered_DEVELOPER}"

text \<open>
  The segments of a provider channel. A \<open>ComponentIdentifier\<close> is ASCII, where \<open>str.casefold\<close> is
  \<open>ascii_lower\<close>.
\<close>

definition provider_segments :: "string \<Rightarrow> string list" where
  "provider_segments s =
     (let normalized = map (\<lambda>c. if c \<in> set ''_:/+-'' then CHR ''.'' else c) s in
      map ascii_lower (filter (\<lambda>segment. segment \<noteq> []) (split_on (CHR ''.'') normalized)))"

definition provider_channel_ok :: "string \<Rightarrow> bool" where
  "provider_channel_ok s =
     (let segments = provider_segments s; leaf = (if segments = [] then [] else last segments) in
      \<not> (list_ex (\<lambda>segment. segment \<in> set reserved_provider_segments) segments \<or>
         leaf \<notin> set safe_provider_leaves))"

definition valid_injection_mapping :: "injection_mapping \<Rightarrow> bool" where
  "valid_injection_mapping m \<longleftrightarrow> opt_all component_identifier (im_provider_channel m) \<and>
     \<not> authoritative_role (im_role m) \<and>
     (if im_channel m = Channel_PROVIDER_DATA
      then im_role m = Delivered_DATA \<and>
        (case im_provider_channel m of None \<Rightarrow> False | Some s \<Rightarrow> provider_channel_ok s)
      else im_role m = Delivered_USER \<and> im_provider_channel m = None)"

section \<open>Capabilities\<close>

record adapter_capabilities =
  ac_schema_version :: string
  ac_adapter_id :: string
  ac_pre_action_interception :: bool
  ac_deduplicates_delivery_id :: bool
  ac_deduplication_guarantee :: deduplication_guarantee
  ac_injection_mappings :: "injection_mapping list"

definition valid_adapter_capabilities :: "adapter_capabilities \<Rightarrow> bool" where
  "valid_adapter_capabilities c \<longleftrightarrow> ac_schema_version c = ''1.0'' \<and> component_identifier (ac_adapter_id c) \<and>
     length (ac_injection_mappings c) \<le> 4 \<and> list_all valid_injection_mapping (ac_injection_mappings c) \<and>
     distinct (map im_channel (ac_injection_mappings c)) \<and>
     ac_deduplicates_delivery_id c = (ac_deduplication_guarantee c = Dedup_DURABLE_DELIVERY_ID)"

definition unsafe_role :: "injection_mapping \<Rightarrow> bool" where
  "unsafe_role m \<longleftrightarrow> authoritative_role (im_role m)"

text \<open>\<open>Inl\<close> is the reason of an \<open>AdapterDeliveryRefusedError\<close>.\<close>

definition validated_capabilities :: "adapter_capabilities option \<Rightarrow> reason_code + adapter_capabilities" where
  "validated_capabilities value =
     (case value of
        None \<Rightarrow> Inl Reason_UNSUPPORTED_DELIVERY_CHANNEL
      | Some c \<Rightarrow>
          if list_ex unsafe_role (ac_injection_mappings c) then Inl Reason_UNSAFE_ROLE_MAPPING
          else if \<not> valid_adapter_capabilities c
          then Inl (if list_ex unsafe_role (ac_injection_mappings c) then Reason_UNSAFE_ROLE_MAPPING
                    else Reason_UNSUPPORTED_DELIVERY_CHANNEL)
          else Inr c)"

fun channel_value :: "delivery_channel \<Rightarrow> string" where
  "channel_value Channel_PROVIDER_DATA = ''provider_data''"
| "channel_value Channel_EXISTING_USER_TASK = ''existing_user_task''"

fun delivery_role_value :: "delivery_role \<Rightarrow> string" where
  "delivery_role_value Delivered_DATA = ''data''"
| "delivery_role_value Delivered_USER = ''user''"
| "delivery_role_value Delivered_SYSTEM = ''system''"
| "delivery_role_value Delivered_DEVELOPER = ''developer''"

fun guarantee_value :: "deduplication_guarantee \<Rightarrow> string" where
  "guarantee_value Dedup_AT_MOST_ONCE_ATTEMPT = ''at_most_once_attempt''"
| "guarantee_value Dedup_DURABLE_DELIVERY_ID = ''durable_delivery_id''"

definition mapping_json :: "injection_mapping \<Rightarrow> json" where
  "mapping_json m = JObj [(''channel'', JStr (channel_value (im_channel m))),
     (''role'', JStr (delivery_role_value (im_role m))), (''provider_channel'', opt_json JStr (im_provider_channel m))]"

definition capabilities_json :: "adapter_capabilities \<Rightarrow> json" where
  "capabilities_json c = JObj [(''schema_version'', JStr (ac_schema_version c)), (''adapter_id'', JStr (ac_adapter_id c)),
     (''pre_action_interception'', JBool (ac_pre_action_interception c)),
     (''deduplicates_delivery_id'', JBool (ac_deduplicates_delivery_id c)),
     (''deduplication_guarantee'', JStr (guarantee_value (ac_deduplication_guarantee c))),
     (''injection_mappings'', JArr (map mapping_json (ac_injection_mappings c)))]"

definition capabilities_document :: "adapter_capabilities \<Rightarrow> json" where
  "capabilities_document c = JObj [(''contract_version'', JStr adapter_contract_version),
     (''capabilities'', capabilities_json c)]"

definition adapter_capabilities_digest :: "hash_fun \<Rightarrow> float_text \<Rightarrow> adapter_capabilities option \<Rightarrow>
    reason_code + digest option" where
  "adapter_capabilities_digest H F value =
     bind_result (validated_capabilities value) (\<lambda>c. Inr (canonical_digest H F (capabilities_document c)))"

definition enqueue_delivery_binding :: "hash_fun \<Rightarrow> float_text \<Rightarrow> string \<Rightarrow> adapter_capabilities option \<Rightarrow>
    reason_code + enqueue_delivery option" where
  "enqueue_delivery_binding H F target_request_id value =
     bind_result (validated_capabilities value) (\<lambda>declared.
     bind_result (adapter_capabilities_digest H F (Some declared)) (\<lambda>d.
     Inr (case d of
            None \<Rightarrow> None
          | Some digest \<Rightarrow>
              let binding = \<lparr>eq_target_request_id = target_request_id, eq_adapter_id = ac_adapter_id declared,
                    eq_adapter_deduplicates = ac_deduplicates_delivery_id declared,
                    eq_adapter_deduplication_guarantee = ac_deduplication_guarantee declared,
                    eq_adapter_supports_pre_action = ac_pre_action_interception declared,
                    eq_adapter_contract_version = adapter_contract_version,
                    eq_adapter_capabilities_digest = digest\<rparr>
              in if valid_enqueue_delivery binding then Some binding else None)))"

text \<open>The first mapping of the preferred channel the adapter declares.\<close>

definition mapping_for :: "delivery_channel \<Rightarrow> injection_mapping list \<Rightarrow> injection_mapping option" where
  "mapping_for channel ms = find (\<lambda>m. im_channel m = channel) ms"

definition select_injection_mapping :: "adapter_capabilities option \<Rightarrow> delivery_target option \<Rightarrow>
    reason_code + injection_mapping" where
  "select_injection_mapping value target =
     (case target of
        None \<Rightarrow> Inl Reason_UNSUPPORTED_DELIVERY_TARGET
      | Some t \<Rightarrow>
          bind_result (validated_capabilities value) (\<lambda>c.
          if t = Target_PRE_ACTION_REPLAN \<and> \<not> ac_pre_action_interception c then Inl Reason_TARGET_UNAVAILABLE
          else case mapping_for Channel_PROVIDER_DATA (ac_injection_mappings c) of
                 Some m \<Rightarrow> Inr m
               | None \<Rightarrow>
                   case mapping_for Channel_EXISTING_USER_TASK (ac_injection_mappings c) of
                     Some m \<Rightarrow> Inr m
                   | None \<Rightarrow> Inl Reason_UNSUPPORTED_DELIVERY_CHANNEL))"

section \<open>The fixed untrusted block\<close>

definition block_prefix :: string where
  "block_prefix = untrusted_block_begin @ [newline] @ ''authority=none'' @ [newline] @ ''instructions=false'' @ [newline]"

definition block_suffix :: string where
  "block_suffix = [newline] @ untrusted_block_end"

text \<open>\<open>str.count\<close>: occurrences that do not overlap, from the left.\<close>

fun occurrences :: "string \<Rightarrow> string \<Rightarrow> nat" where
  "occurrences w [] = 0"
| "occurrences w (c # s) =
     (if w \<noteq> [] \<and> prefix w (c # s) then Suc (occurrences w (drop (length w) (c # s))) else occurrences w s)"

definition is_fixed_block :: "string \<Rightarrow> bool" where
  "is_fixed_block s \<longleftrightarrow> prefix block_prefix s \<and> suffix block_suffix s \<and>
     occurrences untrusted_block_begin s = 1 \<and> occurrences untrusted_block_end s = 1"

definition render_untrusted_user_block :: "string option \<Rightarrow> reason_code + string" where
  "render_untrusted_user_block value =
     (case value of
        None \<Rightarrow> Inl Reason_UNSUPPORTED_DELIVERY_CHANNEL
      | Some s \<Rightarrow>
          if s = [] \<or> length s > 4096 \<or> sublist untrusted_block_begin s \<or> sublist untrusted_block_end s
          then Inl Reason_UNSUPPORTED_DELIVERY_CHANNEL
          else Inr (untrusted_block_begin @ [newline] @ ''authority=none'' @ [newline] @ ''instructions=false'' @
            [newline] @ s @ [newline] @ untrusted_block_end))"

definition delivery_payload :: "string option \<Rightarrow> injection_mapping \<Rightarrow> reason_code + string" where
  "delivery_payload value m =
     (if \<not> valid_injection_mapping m
      then Inl (if unsafe_role m then Reason_UNSAFE_ROLE_MAPPING else Reason_UNSUPPORTED_DELIVERY_CHANNEL)
      else if im_channel m = Channel_EXISTING_USER_TASK then render_untrusted_user_block value
      else case value of
             None \<Rightarrow> Inl Reason_UNSUPPORTED_DELIVERY_CHANNEL
           | Some s \<Rightarrow>
               if s = [] \<or> length s > 4096 then Inl Reason_UNSUPPORTED_DELIVERY_CHANNEL else Inr s)"

section \<open>Envelopes and receipts\<close>

record delivery_envelope =
  de_delivery_id :: uuid
  de_run_id :: uuid
  de_cycle_id :: digest
  de_intervention_id :: uuid
  de_claim_id :: uuid
  de_attempt_id :: uuid
  de_attempt_number :: int
  de_target_request_id :: string
  de_target :: delivery_target
  de_adapter_id :: string
  de_mapping :: injection_mapping
  de_payload :: string
  de_ttl_steps :: int
  de_created_at :: timestamp

definition valid_delivery_envelope :: "delivery_envelope \<Rightarrow> bool" where
  "valid_delivery_envelope e \<longleftrightarrow> uuid4 (de_delivery_id e) \<and> uuid4 (de_run_id e) \<and>
     sha256_digest (de_cycle_id e) \<and> uuid4 (de_intervention_id e) \<and> uuid4 (de_claim_id e) \<and>
     uuid4 (de_attempt_id e) \<and> 1 \<le> de_attempt_number e \<and> component_identifier (de_target_request_id e) \<and>
     component_identifier (de_adapter_id e) \<and> de_ttl_steps e = 1 \<and>
     1 \<le> code_points (de_payload e) \<and> code_points (de_payload e) \<le> 8192 \<and>
     valid_injection_mapping (de_mapping e) \<and> de_payload e \<noteq> [] \<and>
     \<not> (im_channel (de_mapping e) = Channel_EXISTING_USER_TASK \<and> \<not> is_fixed_block (de_payload e)) \<and>
     \<not> (im_channel (de_mapping e) = Channel_PROVIDER_DATA \<and> length (de_payload e) > 4096) \<and>
     \<not> length (de_payload e) > 8192"

record adapter_receipt =
  ar_schema_version :: string
  ar_delivery_id :: uuid
  ar_attempt_id :: uuid
  ar_attempt_number :: int
  ar_adapter_id :: string
  ar_target_request_id :: string
  ar_delivered_at :: timestamp
  ar_provider_receipt_id :: string

definition valid_adapter_receipt :: "adapter_receipt \<Rightarrow> bool" where
  "valid_adapter_receipt r \<longleftrightarrow> ar_schema_version r = ''1.0'' \<and> uuid4 (ar_delivery_id r) \<and> uuid4 (ar_attempt_id r) \<and>
     1 \<le> ar_attempt_number r \<and> component_identifier (ar_adapter_id r) \<and>
     component_identifier (ar_target_request_id r) \<and> component_identifier (ar_provider_receipt_id r)"

text \<open>Adding the latency to the last quarter of an hour of the calendar raises \<open>OverflowError\<close>.\<close>

datatype (plugins only: code size) receipt_error = InvalidAdapterReceiptError | DatetimeOverflowError

definition validate_delivery_receipt :: "delivery_envelope option \<Rightarrow> adapter_receipt option \<Rightarrow>
    receipt_error + adapter_receipt" where
  "validate_delivery_receipt envelope value =
     (case (envelope, value) of
        (Some expected, Some receipt) \<Rightarrow>
          checks
            [(\<not> valid_delivery_envelope expected \<or> \<not> valid_adapter_receipt receipt, InvalidAdapterReceiptError),
             (ar_delivery_id receipt \<noteq> de_delivery_id expected, InvalidAdapterReceiptError),
             (ar_attempt_id receipt \<noteq> de_attempt_id expected, InvalidAdapterReceiptError),
             (ar_attempt_number receipt \<noteq> de_attempt_number expected, InvalidAdapterReceiptError),
             (ar_adapter_id receipt \<noteq> de_adapter_id expected, InvalidAdapterReceiptError),
             (ar_target_request_id receipt \<noteq> de_target_request_id expected, InvalidAdapterReceiptError),
             (ar_delivered_at receipt < de_created_at expected, InvalidAdapterReceiptError),
             (de_created_at expected + max_receipt_latency > max_datetime, DatetimeOverflowError),
             (ar_delivered_at receipt > de_created_at expected + max_receipt_latency, InvalidAdapterReceiptError)]
            (Inr receipt)
      | _ \<Rightarrow> Inl InvalidAdapterReceiptError)"

end
