(* ===== verification/Delivery_Worker.thy ===== *)
theory Delivery_Worker
  imports Adapters Repository_Operations
begin

text \<open>
  The delivery worker (\<open>runtime/delivery.py\<close>), over the in-memory repository. It claims a delivery,
  records the attempt, and only then hands the envelope to the adapter; whatever the adapter answers,
  or raises, becomes the next revision of the delivery.

  Every \<open>await\<close> is a point where other tasks run. \<open>worker_env\<close> says, for the n-th await, which
  repository operations they complete before the awaited operation takes effect, and whether the worker
  is cancelled there, before or after that effect; it also holds what the adapter declares and answers
  and what the identifier factory returns. The world is the repository, the number of awaits, of
  identifiers and of declarations so far, and the envelopes handed to the adapter, each with the
  repository as it was at that moment. What other tasks do while the adapter works is part of what they
  do before the await that follows.

  A command whose fields do not validate raises in its constructor, before the repository is called; in
  the model it is the repository that refuses it, which leaves the repository as it is too.
\<close>

datatype (plugins only: code size) worker_fault =
    DeliveryRuntimeError
  | Raised repo_error
  | Refused reason_code
  | InvalidResult
  | Cancelled

datatype (plugins only: code size) interruption = Uninterrupted | Cancelled_before | Cancelled_after

datatype (plugins only: code size) adapter_answer =
    Answered "adapter_receipt option"
  | Known_failure
  | Other_failure
  | Cancelled_delivery

record worker_env =
  we_repository :: repo_env
  we_others :: "nat \<Rightarrow> repo_op list"
  we_interrupted :: "nat \<Rightarrow> interruption"
  we_ids :: "nat \<Rightarrow> uuid option"
  we_capabilities :: "nat \<Rightarrow> reason_code + adapter_capabilities option"
  we_answers :: "nat \<Rightarrow> delivery_envelope \<Rightarrow> adapter_answer"

record world =
  wo_vault :: vault
  wo_awaits :: nat
  wo_ids :: nat
  wo_declared :: nat
  wo_handed :: "(delivery_envelope \<times> vault) list"

type_synonym 'a task = "world \<Rightarrow> (worker_fault + 'a) \<times> world"

section \<open>Tasks\<close>

definition returns :: "'a \<Rightarrow> 'a task" where
  "returns x w = (Inr x, w)"

definition raises :: "worker_fault \<Rightarrow> 'a task" where
  "raises e w = (Inl e, w)"

text \<open>
  \<open>attempt t h k\<close> is \<open>try: x = t; except: h; else: k x\<close>, and \<open>follow t k\<close> is \<open>t\<close> with nothing caught.
\<close>

definition attempt :: "'a task \<Rightarrow> (worker_fault \<Rightarrow> 'b task) \<Rightarrow> ('a \<Rightarrow> 'b task) \<Rightarrow> 'b task" where
  "attempt t h k w = (case t w of (Inl e, w') \<Rightarrow> h e w' | (Inr x, w') \<Rightarrow> k x w')"

definition follow :: "'a task \<Rightarrow> ('a \<Rightarrow> 'b task) \<Rightarrow> 'b task" where
  "follow t k = attempt t raises k"

definition of_result :: "worker_fault + 'a \<Rightarrow> 'a task" where
  "of_result r w = (r, w)"

definition await_repository :: "worker_env \<Rightarrow> (vault \<Rightarrow> (repo_error + 'a) \<times> vault) \<Rightarrow> 'a task" where
  "await_repository W operation w =
     (let n = wo_awaits w; v = run_operations (we_repository W) (we_others W n) (wo_vault w);
          before = w\<lparr>wo_vault := v, wo_awaits := n + 1\<rparr>; after = before\<lparr>wo_vault := snd (operation v)\<rparr> in
      case we_interrupted W n of
        Cancelled_before \<Rightarrow> (Inl Cancelled, before)
      | Cancelled_after \<Rightarrow> (Inl Cancelled, after)
      | Uninterrupted \<Rightarrow> (map_sum Raised id (fst (operation v)), after))"

definition worker_new_id :: "worker_env \<Rightarrow> uuid task" where
  "worker_new_id W w =
     (case we_ids W (wo_ids w) of
        None \<Rightarrow> (Inl DeliveryRuntimeError, w\<lparr>wo_ids := wo_ids w + 1\<rparr>)
      | Some i \<Rightarrow> (if uuid4 i then Inr i else Inl DeliveryRuntimeError, w\<lparr>wo_ids := wo_ids w + 1\<rparr>))"

text \<open>A cleanup runs to its end behind \<open>asyncio.shield\<close>; what it raises is suppressed.\<close>

definition drained :: "(worker_env \<Rightarrow> 'a task) \<Rightarrow> worker_env \<Rightarrow> unit task" where
  "drained t W w = (Inr (), snd (t (W\<lparr>we_interrupted := \<lambda>_. Uninterrupted\<rparr>) w))"

definition revision_conflict :: "worker_fault \<Rightarrow> bool" where
  "revision_conflict f = (case f of Raised (DeliveryRevisionConflictError _ _) \<Rightarrow> True | _ \<Rightarrow> False)"

section \<open>Results\<close>

record worker_result =
  wr_delivery :: delivery_record
  wr_reason_code :: reason_code
  wr_delivered :: bool
  wr_guarded :: bool

definition valid_worker_result :: "worker_result \<Rightarrow> bool" where
  "valid_worker_result r =
     (let d = wr_delivery r; delivered = (dv_state d = Delivery_DELIVERED);
          guarded = (delivered \<and> dv_target d = Target_PRE_ACTION_REPLAN \<and> dv_adapter_supports_pre_action d) in
      valid_delivery_record d \<and> \<not> (wr_delivered r \<noteq> delivered \<or> wr_guarded r \<noteq> guarded) \<and>
      \<not> (delivered \<and> wr_reason_code r \<noteq> Reason_DELIVERY_SUCCEEDED) \<and>
      \<not> (\<not> delivered \<and> wr_reason_code r = Reason_DELIVERY_SUCCEEDED) \<and>
      \<not> (dv_reason_code d \<noteq> None \<and> dv_reason_code d \<noteq> Some (wr_reason_code r)))"

definition from_delivery :: "delivery_record \<Rightarrow> reason_code option \<Rightarrow> worker_fault + worker_result" where
  "from_delivery d reason_code =
     (let reason = (case (if reason_code = None then dv_reason_code d else reason_code) of
                      Some r \<Rightarrow> r
                    | None \<Rightarrow> if dv_state d = Delivery_ATTEMPTING then Reason_DELIVERY_UNKNOWN
                              else Reason_TARGET_UNAVAILABLE);
          delivered = (dv_state d = Delivery_DELIVERED);
          r = \<lparr>wr_delivery = d, wr_reason_code = reason, wr_delivered = delivered,
            wr_guarded = (delivered \<and> dv_target d = Target_PRE_ACTION_REPLAN \<and> dv_adapter_supports_pre_action d)\<rparr> in
      if valid_worker_result r then Inr r else Inl InvalidResult)"

definition reports :: "delivery_record \<Rightarrow> worker_result task" where
  "reports d = of_result (from_delivery d None)"

definition delivery_binding :: "delivery_record \<Rightarrow> digest \<times> uuid \<times> digest \<times> string \<times> delivery_target \<times> string \<times>
    bool \<times> deduplication_guarantee \<times> bool \<times> string \<times> digest \<times> timestamp" where
  "delivery_binding d = (dv_cycle_id d, dv_intervention_id d, dv_rendered_text_digest d, dv_target_request_id d,
     dv_target d, dv_adapter_id d, dv_adapter_deduplicates d, dv_adapter_deduplication_guarantee d,
     dv_adapter_supports_pre_action d, dv_adapter_contract_version d, dv_adapter_capabilities_digest d,
     dv_created_at d)"

definition same_delivery_binding :: "delivery_record \<Rightarrow> delivery_record \<Rightarrow> bool" where
  "same_delivery_binding left right \<longleftrightarrow> delivery_binding left = delivery_binding right"

section \<open>Reading the delivery and the adapter's declaration\<close>

definition read_current :: "worker_env \<Rightarrow> uuid \<Rightarrow> uuid \<Rightarrow> delivery_record task" where
  "read_current W run i =
     follow (await_repository W (\<lambda>v. (read_delivery (we_repository W) v run i, v))) (\<lambda>d.
     of_result (if valid_delivery_record d then Inr d else Inl DeliveryRuntimeError))"

definition report_current :: "worker_env \<Rightarrow> uuid \<Rightarrow> uuid \<Rightarrow> worker_result task" where
  "report_current W run i = follow (read_current W run i) reports"

definition declared_capabilities :: "adapter_capabilities option \<Rightarrow> delivery_record \<Rightarrow> reason_code + adapter_capabilities" where
  "declared_capabilities value d =
     bind_result (validated_capabilities value) (\<lambda>c.
     if ac_adapter_id c \<noteq> dv_adapter_id d \<or>
        ac_deduplicates_delivery_id c \<noteq> dv_adapter_deduplicates d \<or>
        ac_deduplication_guarantee c \<noteq> dv_adapter_deduplication_guarantee d \<or>
        ac_pre_action_interception c \<noteq> dv_adapter_supports_pre_action d \<or>
        dv_adapter_contract_version d \<noteq> adapter_contract_version
     then Inl Reason_TARGET_UNAVAILABLE
     else Inr c)"

text \<open>The mapping a delivery goes through: the adapter still is the one the delivery was bound to.\<close>

definition bound_mapping :: "repo_env \<Rightarrow> adapter_capabilities option \<Rightarrow> delivery_record \<Rightarrow> reason_code + injection_mapping" where
  "bound_mapping env value d =
     bind_result (declared_capabilities value d) (\<lambda>c.
     bind_result (select_injection_mapping (Some c) (Some (dv_target d))) (\<lambda>m.
     bind_result (adapter_capabilities_digest (en_hash env) (en_float env) (Some c)) (\<lambda>digest.
     if digest \<noteq> Some (dv_adapter_capabilities_digest d) then Inl Reason_TARGET_UNAVAILABLE
     else Inr m)))"

text \<open>
  What \<open>capabilities()\<close> returns, or the refusal it raises itself; an \<open>AdapterDeliveryRefusedError\<close> with a
  reason that is no refusal raises in its constructor, and any other exception counts as no declaration.
\<close>

definition refusal_reasons :: "reason_code list" where
  "refusal_reasons = [Reason_UNSUPPORTED_DELIVERY_TARGET, Reason_UNSUPPORTED_DELIVERY_CHANNEL,
     Reason_UNSAFE_ROLE_MAPPING, Reason_TARGET_UNAVAILABLE]"

definition declared_answer :: "reason_code + adapter_capabilities option \<Rightarrow> reason_code + adapter_capabilities option" where
  "declared_answer answer =
     (case answer of
        Inl reason \<Rightarrow> Inl (if reason \<in> set refusal_reasons then reason else Reason_UNSUPPORTED_DELIVERY_CHANNEL)
      | Inr value \<Rightarrow> Inr value)"

definition choose_mapping :: "worker_env \<Rightarrow> delivery_record \<Rightarrow> injection_mapping task" where
  "choose_mapping W d w =
     (map_sum Refused id (bind_result (declared_answer (we_capabilities W (wo_declared w))) (\<lambda>value.
        bound_mapping (we_repository W) value d)),
      w\<lparr>wo_declared := wo_declared w + 1\<rparr>)"

section \<open>Settling a delivery\<close>

definition reject_refused :: "worker_env \<Rightarrow> delivery_record \<Rightarrow> reason_code \<Rightarrow> timestamp \<Rightarrow> worker_result task" where
  "reject_refused W d reason now =
     (if dv_state d \<notin> {Delivery_PENDING, Delivery_CLAIMED} then reports d
      else attempt
        (await_repository W (\<lambda>v. reject_delivery (we_repository W) v
          \<lparr>rj_run_id = dv_run_id d, rj_delivery_id = dv_delivery_id d, rj_expected_revision = dv_revision d,
           rj_claim_id = dv_claim_id d, rj_reason_code = reason, rj_updated_at = now\<rparr>))
        (\<lambda>e. if revision_conflict e then report_current W (dv_run_id d) (dv_delivery_id d) else raises e)
        (\<lambda>receipt. of_result (from_delivery (tr_delivery receipt) (Some reason))))"

definition mark_unknown :: "worker_env \<Rightarrow> delivery_record \<Rightarrow> timestamp \<Rightarrow> worker_result task" where
  "mark_unknown W d now =
     (case (dv_claim_id d, dv_attempt_id d) of
        (Some claim, Some attempt_id) \<Rightarrow>
          attempt
            (await_repository W (\<lambda>v. mark_delivery_unknown (we_repository W) v
              \<lparr>mk_run_id = dv_run_id d, mk_delivery_id = dv_delivery_id d, mk_expected_revision = dv_revision d,
               mk_claim_id = claim, mk_attempt_id = attempt_id, mk_updated_at = now\<rparr>))
            (\<lambda>e. if revision_conflict e then report_current W (dv_run_id d) (dv_delivery_id d) else raises e)
            (\<lambda>receipt. reports (tr_delivery receipt))
      | _ \<Rightarrow> raises DeliveryRuntimeError)"

definition unknown_after_cancellation :: "worker_env \<Rightarrow> delivery_record \<Rightarrow> timestamp \<Rightarrow> unit task" where
  "unknown_after_cancellation W d now = drained (\<lambda>W. mark_unknown W d now) W"

definition unknown_if_attempting :: "worker_env \<Rightarrow> uuid \<Rightarrow> uuid \<Rightarrow> uuid \<Rightarrow> uuid \<Rightarrow> timestamp \<Rightarrow> unit task" where
  "unknown_if_attempting W run i claim attempt_id now =
     follow (read_current W run i) (\<lambda>current.
     if dv_state current = Delivery_ATTEMPTING \<and> dv_claim_id current = Some claim \<and>
        dv_attempt_id current = Some attempt_id
     then follow (mark_unknown W current now) (\<lambda>_. returns ())
     else returns ())"

definition unknown_persisted_attempt :: "worker_env \<Rightarrow> uuid \<Rightarrow> uuid \<Rightarrow> uuid \<Rightarrow> uuid \<Rightarrow> timestamp \<Rightarrow> unit task" where
  "unknown_persisted_attempt W run i claim attempt_id now =
     drained (\<lambda>W. unknown_if_attempting W run i claim attempt_id now) W"

definition complete_command :: "delivery_record \<Rightarrow> uuid \<Rightarrow> uuid \<Rightarrow> int \<Rightarrow> delivery_outcome \<Rightarrow> string option \<Rightarrow>
    timestamp \<Rightarrow> complete_delivery_cmd" where
  "complete_command d claim attempt_id revision ended provider_receipt_id now =
     \<lparr>cd_run_id = dv_run_id d, cd_delivery_id = dv_delivery_id d, cd_expected_revision = revision,
      cd_claim_id = claim, cd_attempt_id = attempt_id, cd_outcome = ended,
      cd_provider_receipt_id = provider_receipt_id, cd_updated_at = now\<rparr>"

text \<open>
  \<open>_complete\<close>: when another task has moved the revision meanwhile, the outcome is recorded over its
  \<open>UNKNOWN\<close> of the same attempt, and nothing else.
\<close>

definition complete_late :: "worker_env \<Rightarrow> delivery_record \<Rightarrow> uuid \<Rightarrow> uuid \<Rightarrow> delivery_outcome \<Rightarrow> string option \<Rightarrow>
    timestamp \<Rightarrow> worker_result task" where
  "complete_late W d claim attempt_id ended provider_receipt_id now =
     follow (read_current W (dv_run_id d) (dv_delivery_id d)) (\<lambda>current.
     if dv_state current = Delivery_UNKNOWN \<and> dv_claim_id current = Some claim \<and>
        dv_attempt_id current = Some attempt_id
     then follow
       (await_repository W (\<lambda>v. complete_delivery (we_repository W) v
         (complete_command d claim attempt_id (dv_revision current) ended provider_receipt_id
           (max now (dv_updated_at current)))))
       (\<lambda>receipt. reports (tr_delivery receipt))
     else reports current)"

definition complete_attempt :: "worker_env \<Rightarrow> delivery_record \<Rightarrow> delivery_outcome \<Rightarrow> string option \<Rightarrow> timestamp \<Rightarrow>
    worker_result task" where
  "complete_attempt W d ended provider_receipt_id now =
     (case (dv_claim_id d, dv_attempt_id d) of
        (Some claim, Some attempt_id) \<Rightarrow>
          attempt
            (await_repository W (\<lambda>v. complete_delivery (we_repository W) v
              (complete_command d claim attempt_id (dv_revision d) ended provider_receipt_id now)))
            (\<lambda>e. if revision_conflict e then complete_late W d claim attempt_id ended provider_receipt_id now
                 else raises e)
            (\<lambda>receipt. reports (tr_delivery receipt))
      | _ \<Rightarrow> raises DeliveryRuntimeError)"

text \<open>\<open>_complete\<close> inside \<open>deliver\<close>: a cancellation is cleaned up after, any other failure is an unknown outcome.\<close>

definition settle_attempt :: "worker_env \<Rightarrow> delivery_record \<Rightarrow> delivery_outcome \<Rightarrow> string option \<Rightarrow> timestamp \<Rightarrow>
    worker_result task" where
  "settle_attempt W d ended provider_receipt_id now =
     attempt (complete_attempt W d ended provider_receipt_id now)
       (\<lambda>e. if e = Cancelled then follow (unknown_after_cancellation W d now) (\<lambda>_. raises Cancelled)
            else mark_unknown W d now)
       returns"

section \<open>Handing the envelope over\<close>

definition envelope_of :: "attempt_envelope \<Rightarrow> injection_mapping \<Rightarrow> timestamp \<Rightarrow> delivery_envelope option" where
  "envelope_of raw m created_at =
     (case delivery_payload (Some (ae_rendered_text raw)) m of
        Inl _ \<Rightarrow> None
      | Inr payload \<Rightarrow>
          let e = \<lparr>de_delivery_id = ae_delivery_id raw, de_run_id = ae_run_id raw, de_cycle_id = ae_cycle_id raw,
                de_intervention_id = ae_intervention_id raw, de_claim_id = ae_claim_id raw,
                de_attempt_id = ae_attempt_id raw, de_attempt_number = ae_attempt_number raw,
                de_target_request_id = ae_target_request_id raw, de_target = ae_target raw,
                de_adapter_id = ae_adapter_id raw, de_mapping = m, de_payload = payload, de_ttl_steps = 1,
                de_created_at = created_at\<rparr>
          in if valid_delivery_envelope e then Some e else None)"

definition hand_to_adapter :: "worker_env \<Rightarrow> delivery_envelope \<Rightarrow> adapter_answer task" where
  "hand_to_adapter W e w =
     (Inr (we_answers W (length (wo_handed w)) e), w\<lparr>wo_handed := wo_handed w @ [(e, wo_vault w)]\<rparr>)"

definition handover_answered :: "worker_env \<Rightarrow> delivery_record \<Rightarrow> delivery_envelope \<Rightarrow> timestamp \<Rightarrow> adapter_answer \<Rightarrow>
    worker_result task" where
  "handover_answered W d e now answer =
     (case answer of
       Cancelled_delivery \<Rightarrow> follow (unknown_after_cancellation W d now) (\<lambda>_. raises Cancelled)
      | Known_failure \<Rightarrow> settle_attempt W d Outcome_FAILED None now
      | Other_failure \<Rightarrow> mark_unknown W d now
      | Answered value \<Rightarrow>
         (case validate_delivery_receipt (Some e) value of
            Inl _ \<Rightarrow> mark_unknown W d now
          | Inr receipt \<Rightarrow> settle_attempt W d Outcome_DELIVERED (Some (ar_provider_receipt_id receipt)) now))"

definition hand_over :: "worker_env \<Rightarrow> delivery_record \<Rightarrow> delivery_envelope \<Rightarrow> timestamp \<Rightarrow> worker_result task" where
  "hand_over W d e now = follow (hand_to_adapter W e) (handover_answered W d e now)"

section \<open>Claiming and attempting\<close>

definition claim_confirmed :: "delivery_receipt \<Rightarrow> uuid \<Rightarrow> uuid \<Rightarrow> delivery_record \<Rightarrow> uuid \<Rightarrow> timestamp \<Rightarrow> bool" where
  "claim_confirmed r run i current claim now =
     (let d = tr_delivery r in
      \<not> (\<not> valid_delivery_receipt r \<or> \<not> tr_appended r \<or> dv_delivery_id d \<noteq> i \<or> dv_run_id d \<noteq> run \<or>
         dv_revision d \<noteq> dv_revision current + 1 \<or> dv_state d \<noteq> Delivery_CLAIMED \<or>
         dv_claim_id d \<noteq> Some claim \<or> dv_attempt_id d \<noteq> None \<or>
         dv_attempt_count d \<noteq> dv_attempt_count current \<or> dv_updated_at d \<noteq> now \<or>
         \<not> same_delivery_binding d current))"

definition attempt_confirmed :: "attempt_receipt \<Rightarrow> uuid \<Rightarrow> uuid \<Rightarrow> delivery_record \<Rightarrow> uuid \<Rightarrow> timestamp \<Rightarrow> bool" where
  "attempt_confirmed r run i current attempt_id now =
     (let d = tr_delivery r in
      \<not> (dv_delivery_id d \<noteq> i \<or> dv_run_id d \<noteq> run \<or> dv_revision d \<noteq> dv_revision current + 1 \<or>
         dv_state d \<noteq> Delivery_ATTEMPTING \<or> dv_claim_id d \<noteq> dv_claim_id current \<or>
         dv_attempt_id d \<noteq> Some attempt_id \<or> dv_attempt_count d \<noteq> dv_attempt_count current + 1 \<or>
         dv_updated_at d \<noteq> now \<or> \<not> same_delivery_binding d current))"

definition deliver_attempted :: "worker_env \<Rightarrow> uuid \<Rightarrow> uuid \<Rightarrow> delivery_record \<Rightarrow> injection_mapping \<Rightarrow> uuid \<Rightarrow>
    timestamp \<Rightarrow> attempt_receipt \<Rightarrow> worker_result task" where
  "deliver_attempted W run i current m attempt_id now attempted =
     (if \<not> valid_attempt_receipt attempted then report_current W run i
      else case tr_envelope attempted of
             None \<Rightarrow> reports (tr_delivery attempted)
           | Some raw \<Rightarrow>
               if \<not> tr_appended attempted then reports (tr_delivery attempted)
               else if \<not> attempt_confirmed attempted run i current attempt_id now then report_current W run i
               else if text_digest (en_hash (we_repository W)) (ae_rendered_text raw) \<noteq> ae_rendered_text_digest raw
               then report_current W run i
               else case envelope_of raw m (dv_updated_at (tr_delivery attempted)) of
                      None \<Rightarrow> mark_unknown W (tr_delivery attempted) now
                    | Some e \<Rightarrow> hand_over W (tr_delivery attempted) e now)"

definition deliver_claimed :: "worker_env \<Rightarrow> uuid \<Rightarrow> uuid \<Rightarrow> injection_mapping \<Rightarrow> timestamp \<Rightarrow> delivery_record \<Rightarrow>
    worker_result task" where
  "deliver_claimed W run i m now current =
     (case dv_claim_id current of
        None \<Rightarrow> reports current
      | Some claim \<Rightarrow>
          if dv_state current \<noteq> Delivery_CLAIMED then reports current
          else follow (worker_new_id W) (\<lambda>attempt_id.
          attempt
            (await_repository W (\<lambda>v. begin_delivery_attempt (we_repository W) v
              \<lparr>ba_run_id = run, ba_delivery_id = i, ba_expected_revision = dv_revision current,
               ba_claim_id = claim, ba_attempt_id = attempt_id, ba_updated_at = now\<rparr>))
            (\<lambda>e. if e = Cancelled
                 then follow (unknown_persisted_attempt W run i claim attempt_id now) (\<lambda>_. raises Cancelled)
                 else if revision_conflict e then report_current W run i
                 else raises e)
            (deliver_attempted W run i current m attempt_id now)))"

definition claim_current :: "worker_env \<Rightarrow> uuid \<Rightarrow> uuid \<Rightarrow> injection_mapping \<Rightarrow> timestamp \<Rightarrow> delivery_record \<Rightarrow>
    worker_result task" where
  "claim_current W run i m now current =
     follow (worker_new_id W) (\<lambda>claim.
     attempt
       (await_repository W (\<lambda>v. claim_delivery (we_repository W) v
         \<lparr>cl_run_id = run, cl_delivery_id = i, cl_expected_revision = dv_revision current,
          cl_claim_id = claim, cl_updated_at = now\<rparr>))
       (\<lambda>e. if revision_conflict e then report_current W run i else raises e)
       (\<lambda>receipt. if \<not> claim_confirmed receipt run i current claim now then report_current W run i
          else deliver_claimed W run i m now (tr_delivery receipt)))"

section \<open>The worker's operations\<close>

text \<open>
  The argument checks are those of \<open>_uuid4\<close>; a timestamp is a UTC instant by its type. The state that
  leaves nothing to do is reported as it is.
\<close>

definition deliver :: "worker_env \<Rightarrow> uuid \<Rightarrow> uuid \<Rightarrow> timestamp \<Rightarrow> worker_result task" where
  "deliver W run i now =
     (if \<not> uuid4 run \<or> \<not> uuid4 i then raises DeliveryRuntimeError
      else follow (read_current W run i) (\<lambda>current.
      if dv_run_id current \<noteq> run then raises DeliveryRuntimeError
      else if dv_state current \<in> {Delivery_DELIVERED, Delivery_FAILED, Delivery_REJECTED} then reports current
      else if dv_state current = Delivery_ATTEMPTING
      then of_result (from_delivery current (Some Reason_DELIVERY_UNKNOWN))
      else if dv_state current = Delivery_UNKNOWN \<and> \<not> dv_adapter_deduplicates current then reports current
      else attempt (choose_mapping W current)
        (\<lambda>e. case e of Refused reason \<Rightarrow> reject_refused W current reason now | _ \<Rightarrow> raises e)
        (\<lambda>m. if dv_state current \<in> {Delivery_PENDING, Delivery_UNKNOWN} then claim_current W run i m now current
             else deliver_claimed W run i m now current)))"

fun deliver_all :: "worker_env \<Rightarrow> uuid \<Rightarrow> timestamp \<Rightarrow> delivery_record list \<Rightarrow> worker_result list task" where
  "deliver_all W run now [] = returns []"
| "deliver_all W run now (d # ds) =
     follow (deliver W run (dv_delivery_id d) now) (\<lambda>r.
     follow (deliver_all W run now ds) (\<lambda>rs. returns (r # rs)))"

definition recover :: "worker_env \<Rightarrow> uuid \<Rightarrow> timestamp \<Rightarrow> worker_result list task" where
  "recover W run recovered_at =
     (if \<not> uuid4 run then raises DeliveryRuntimeError
      else follow (await_repository W (\<lambda>v. recover_deliveries (we_repository W) v run recovered_at)) (\<lambda>recovered.
      follow (deliver_all W run recovered_at
          (dy_resumable_pending recovered @ dy_resumable_claimed recovered @ dy_retryable_unknown recovered)) (\<lambda>results.
      of_result (map_sum id (\<lambda>lost. results @ lost)
        (map_result (\<lambda>d. from_delivery d None) (dy_non_retryable_unknown recovered))))))"

end
