(* ===== verification/Delivery_Facts.thy ===== *)
theory Delivery_Facts
  imports Delivery_Worker Repository_Recovery
begin

text \<open>
  What the delivery operations of the repository record. A revision they return is stored under its key
  and stays stored; the attempt token of an envelope they return was new to the ledger.
\<close>

section \<open>Stored revisions\<close>

definition stored_revision :: "uuid \<Rightarrow> delivery_record \<Rightarrow> vault \<Rightarrow> bool" where
  "stored_revision run d v \<longleftrightarrow> (\<exists>s. dict_get (va_slots v) run = Some s \<and>
     dict_get (pr_delivery_history (sl_projection s)) (dv_delivery_id d, dv_revision d) = Some d)"

text \<open>An attempt is opened when a revision in the attempting state carries its token.\<close>

definition opened :: "vault \<Rightarrow> uuid \<times> uuid \<times> uuid \<Rightarrow> bool" where
  "opened v = (\<lambda>(run, i, a). \<exists>s n d. dict_get (va_slots v) run = Some s \<and>
     dict_get (pr_delivery_history (sl_projection s)) (i, n) = Some d \<and>
     dv_state d = Delivery_ATTEMPTING \<and> dv_attempt_id d = Some a)"

lemma delivery_history_step:
  assumes "apply_entry H F p e = Inr p'" and "deliveries_inv p" and "dict_get (pr_delivery_history p) k = Some d"
  shows "dict_get (pr_delivery_history p') k = Some d"
proof (cases "\<exists>d. le_record e = Rec_delivery d")
  case True
  then obtain x where x: "le_record e = Rec_delivery x" by blast
  have step: "apply_delivery H p x = Inr p'" using assms(1) by (cases rule: apply_entry_cases) (simp_all add: x)
  have "k \<noteq> (dv_delivery_id x, dv_revision x)"
    using delivery_revision_fresh [OF assms(2) step] assms(3) unfolding has_key_def by (metis option.distinct(1))
  with apply_delivery_effect(2) [OF step] assms(3) show ?thesis by simp
next
  case False
  have "deliveries_part p' = deliveries_part p"
    using assms(1)
    by (cases rule: apply_entry_cases)
      (use False in \<open>auto dest: event_frame signal_frame outcome_frame decision_frame cycle_frame\<close>)
  with assms(3) show ?thesis by (simp add: deliveries_part_def)
qed


lemma ledger_extended:
  assumes "keeps env v w" and "vault_ok env v" and "dict_get (va_slots v) run = Some s"
    and "dict_get (pr_delivery_history (sl_projection s)) k = Some d"
  obtains t where "dict_get (va_slots w) run = Some t" "slot_ok env t"
    "dict_get (pr_delivery_history (sl_projection t)) k = Some d"
proof -
  let ?H = "en_hash env" and ?F = "en_float env"
  from assms(1,3) obtain t es where t: "dict_get (va_slots w) run = Some t" "sl_ledger t = sl_ledger s @ es"
    unfolding keeps_def ledgers_extend_def by blast
  note olds = vault_ok_slot [OF assms(2,3)]
  have "vault_ok env w" using assms(1) by (simp add: keeps_def)
  note news = vault_ok_slot [OF this t(1)]
  define step where "step = (\<lambda>e p. apply_entry ?H ?F p e)"
  have fold: "fold_result step es (sl_projection s) = Inr (sl_projection t)"
    using slot_ok_project(1) [OF olds(2)] slot_ok_project(1) [OF news(2)] olds(1) news(1) t(2)
    by (simp add: project_entries_def step_def fold_result_append)
  have valid: "valid_ledger_record ?H (le_record e)" if "e \<in> set es" for e
    using news(2) that t(2) by (auto simp: slot_ok_def list_all_iff entry_ok_def)
  have "reachable ?H ?F run (sl_projection t) \<and> dict_get (pr_delivery_history (sl_projection t)) k = Some d"
    by (rule fold_result_invariant [OF fold])
      (use slot_ok_project(3) [OF olds(2)] olds(1) assms(4) valid in
        \<open>auto simp: step_def intro: reachable_entry delivery_history_step dest: reachable_deliveries\<close>)
  with t(1) news(2) that show thesis by blast
qed

lemma stored_extends: "keeps env v w \<Longrightarrow> vault_ok env v \<Longrightarrow> stored_revision run d v \<Longrightarrow> stored_revision run d w"
  unfolding stored_revision_def by (blast elim: ledger_extended)

lemma opened_extends: "keeps env v w \<Longrightarrow> vault_ok env v \<Longrightarrow> opened v k \<Longrightarrow> opened w k"
  unfolding opened_def by (cases k) (blast elim: ledger_extended)

section \<open>Transitions\<close>

lemma history_key:
  assumes "slot_ok env s" and "dict_get (pr_delivery_history (sl_projection s)) (i, n) = Some d"
  shows "dv_delivery_id d = i" and "dv_revision d = n" and "valid_delivery_record d"
  using deliveries_inv_history [OF slot_deliveries_inv [OF assms(1)] assms(2)] by (simp_all add: delivery_revision_ok_def)

definition stored_in :: "run_slot \<Rightarrow> delivery_record \<Rightarrow> bool" where
  "stored_in s d \<longleftrightarrow> dict_get (pr_delivery_history (sl_projection s)) (dv_delivery_id d, dv_revision d) = Some d"

lemma cached_stored:
  assumes "slot_ok env s" and "dict_get (sl_delivery_records s) k = Some r"
  shows "stored_in s (tr_delivery r)" and "dv_delivery_id (tr_delivery r) = fst k"
proof -
  have "dict_get (pr_delivery_history (sl_projection s)) k = Some (tr_delivery r)"
    using slot_caches(2) [OF assms(1), of k] assms(2) by simp
  with history_key [OF assms(1), of "fst k" "snd k"]
  show "stored_in s (tr_delivery r)" "dv_delivery_id (tr_delivery r) = fst k" by (simp_all add: stored_in_def)
qed

lemma recorded_stored:
  assumes "record_delivery_locked env v s d publishing = Inr (r, v', s')" and "slot_ok env s"
  shows "tr_delivery r = d" and "stored_in s' d"
  using assms(1)
  by (cases rule: record_delivery_locked_Inr;
      use cached_stored(1) [OF assms(2)] apply_delivery_effect(2) [OF stage_delivery] in
        \<open>auto simp: stored_in_def new_delivery_receipt_def\<close>)+

lemma transition_stored:
  assumes ok: "slot_ok env s" and body: "transition_body env v s i n retry move = Inr ((r, moved), v', s')"
    and same: "\<And>base d. move base = Inr d \<Longrightarrow> dv_delivery_id d = dv_delivery_id base"
  shows "stored_in s' (tr_delivery r)" and "dv_delivery_id (tr_delivery r) = i"
proof -
  from body have "stored_in s' (tr_delivery r) \<and> dv_delivery_id (tr_delivery r) = i"
  proof (cases rule: transition_body_Inr)
    case known
    from known(1) obtain candidate where "delivery_retry s i n candidate = Inr (Some r)" by (rule retry_of_Inr)
    then obtain m c where "dict_get (sl_delivery_records s) (i, m) = Some c" "r = c\<lparr>tr_appended := False\<rparr>"
      by (auto simp: delivery_retry_def split: option.splits if_splits)
    with cached_stored [OF ok this(1)] known(4) show ?thesis by simp
  next
    case (moved base d)
    have "dv_delivery_id base = i"
      using moved(1) deliveries_inv_latest(1) [OF slot_deliveries_inv [OF ok]]
      by (auto simp: delivery_base_def split: option.splits if_splits)
    with recorded_stored [OF moved(4) ok] same [OF moved(2)] show ?thesis by simp
  qed
  then show "stored_in s' (tr_delivery r)" "dv_delivery_id (tr_delivery r) = i" by blast+
qed

lemma simple_stored:
  assumes "slot_ok env s" and "simple_transition env v s i n retry move = Inr (r, v', s')"
    and "\<And>base d. move base = Inr d \<Longrightarrow> dv_delivery_id d = dv_delivery_id base"
  shows "stored_in s' (tr_delivery r) \<and> dv_delivery_id (tr_delivery r) = i"
proof -
  from assms(2) obtain moved where "transition_body env v s i n retry move = Inr ((r, moved), v', s')"
    unfolding simple_transition_def by (auto simp: bind_result_Inr)
  from transition_stored [OF assms(1) this assms(3)] show ?thesis by blast
qed

lemma command_Inr:
  assumes "vault_ok env v" and "command_on_slot env v valid cmd operation run body = (Inr r, w)"
  obtains s v' s' where "find_slot v run = Inr s" "slot_ok env s" "sl_run_id s = run" "body s = Inr (r, v', s')"
    "w = store_slot s' v'" valid
proof -
  from assms(2) have valid and
    on: "on_slot v run (\<lambda>s. bind_result (verify_head env v s True) (\<lambda>_. body s)) = (Inr r, w)"
    by (auto simp: command_on_slot_def accept_command_def split: sum.splits if_splits)
  from on obtain s v' s' where s: "find_slot v run = Inr s" and b: "body s = Inr (r, v', s')" and w: "w = store_slot s' v'"
    by (rule on_slot_Inr) (auto simp: bind_result_Inr)
  note old = vault_ok_slot [OF assms(1) conjunct1 [OF find_slot_Inr [OF s]]]
  from that [OF s old(2,1) b w \<open>valid\<close>] show thesis .
qed

definition about :: "uuid \<Rightarrow> uuid \<Rightarrow> delivery_record \<Rightarrow> vault \<Rightarrow> bool" where
  "about run i d v \<longleftrightarrow> stored_revision run d v \<and> dv_delivery_id d = i"

lemma about_extends: "keeps env v w \<Longrightarrow> vault_ok env v \<Longrightarrow> about run i d v \<Longrightarrow> about run i d w"
  by (simp add: about_def stored_extends)

lemma command_stored:
  assumes ok: "vault_ok env v" and step: "command_on_slot env v valid cmd operation run body = (Inr r, w)"
    and body: "\<And>s r v' s'. slot_ok env s \<Longrightarrow> body s = Inr (r, v', s') \<Longrightarrow>
      stored_in s' (tr_delivery r) \<and> dv_delivery_id (tr_delivery r) = i"
    and advanced: "\<And>s r v' s'. valid \<Longrightarrow> body s = Inr (r, v', s') \<Longrightarrow> advanced env v s v' s'"
  shows "about run i (tr_delivery r) w"
proof -
  from ok step obtain s v' s' where s: "slot_ok env s" "sl_run_id s = run" "body s = Inr (r, v', s')"
    "w = store_slot s' v'" valid
    by (rule command_Inr)
  have "sl_run_id s' = run" using advanced [OF s(5,3)] grows_run s(2) by (auto simp: advanced_def)
  with body [OF s(1,3)] s(4) show ?thesis by (auto simp: about_def stored_revision_def stored_in_def)
qed

lemma delivery_bodies_stored:
  assumes "slot_ok env s"
  shows "claim_delivery_body env v cl s = Inr (r, v', s') \<Longrightarrow>
      stored_in s' (tr_delivery r) \<and> dv_delivery_id (tr_delivery r) = cl_delivery_id cl"
    and "complete_delivery_body env v cd s = Inr (r, v', s') \<Longrightarrow>
      stored_in s' (tr_delivery r) \<and> dv_delivery_id (tr_delivery r) = cd_delivery_id cd"
    and "mark_unknown_body env v mk s = Inr (r, v', s') \<Longrightarrow>
      stored_in s' (tr_delivery r) \<and> dv_delivery_id (tr_delivery r) = mk_delivery_id mk"
    and "reject_delivery_body env v rj s = Inr (r, v', s') \<Longrightarrow>
      stored_in s' (tr_delivery r) \<and> dv_delivery_id (tr_delivery r) = rj_delivery_id rj"
  unfolding claim_delivery_body_def complete_delivery_body_def mark_unknown_body_def reject_delivery_body_def Let_def
  by (erule simple_stored [OF assms]; auto simp: transition_delivery_Inr claimed_def completed_def lost_def rejected_def
      split: if_splits)+

lemma delivery_operations_stored:
  assumes "vault_ok env v"
  shows "claim_delivery env v cl = (Inr r, w) \<Longrightarrow> about (cl_run_id cl) (cl_delivery_id cl) (tr_delivery r) w"
    and "complete_delivery env v cd = (Inr r, w) \<Longrightarrow> about (cd_run_id cd) (cd_delivery_id cd) (tr_delivery r) w"
    and "mark_delivery_unknown env v mk = (Inr r, w) \<Longrightarrow> about (mk_run_id mk) (mk_delivery_id mk) (tr_delivery r) w"
    and "reject_delivery env v rj = (Inr r, w) \<Longrightarrow> about (rj_run_id rj) (rj_delivery_id rj) (tr_delivery r) w"
  unfolding claim_delivery_def complete_delivery_def mark_delivery_unknown_def reject_delivery_def
  by (erule command_stored [OF assms]; erule delivery_bodies_stored delivery_steps_advanced; assumption?)+

lemma read_delivery_stored:
  assumes ok: "vault_ok env v" and "read_delivery env v run i = Inr d"
  shows "about run i d v" and "valid_delivery_record d"
proof -
  from assms(2) obtain s where s: "find_slot v run = Inr s" "dict_get (pr_deliveries (sl_projection s)) i = Some d"
    by (auto simp: read_delivery_def bind_result_Inr split: if_splits option.splits)
  note got = conjunct1 [OF find_slot_Inr [OF s(1)]]
  note old = vault_ok_slot [OF ok got]
  note latest = deliveries_inv_latest(1,2) [OF slot_deliveries_inv [OF old(2)] s(2)]
  show "about run i d v" using got latest by (auto simp: about_def stored_revision_def)
  show "valid_delivery_record d" by (rule history_key(3) [OF old(2) latest(2)])
qed

section \<open>Attempts\<close>

lemma attempt_opened:
  assumes ok: "vault_ok env v" and step: "begin_delivery_attempt env v cmd = (Inr r, w)"
  shows "about (ba_run_id cmd) (ba_delivery_id cmd) (tr_delivery r) w"
    and "tr_envelope r = Some raw \<Longrightarrow> \<not> opened v (ba_run_id cmd, ba_delivery_id cmd, ba_attempt_id cmd)"
proof -
  let ?i = "ba_delivery_id cmd" and ?n = "ba_expected_revision cmd"
  from step have "command_on_slot env v (valid_begin_attempt cmd) (Cmd_attempt cmd) ''begin_delivery_attempt''
      (ba_run_id cmd) (begin_attempt_body env v cmd) = (Inr r, w)"
    by (simp add: begin_delivery_attempt_def)
  with ok obtain s v' s' where s: "find_slot v (ba_run_id cmd) = Inr s" "slot_ok env s" "sl_run_id s = ba_run_id cmd"
    and body: "begin_attempt_body env v cmd s = Inr (r, v', s')" and w: "w = store_slot s' v'" and "valid_begin_attempt cmd"
    by (rule command_Inr)
  from body obtain receipt moved envelope where
    trans: "transition_body env v s ?i ?n (attempt_retry cmd s) (attempt_move cmd s) = Inr ((receipt, moved), v', s')"
    and env: "(case moved of None \<Rightarrow> Inr None | Some d \<Rightarrow> map_sum id Some (attempt_envelope_of (sl_projection s) d)) = Inr envelope"
    and r: "r = attempt_receipt_of receipt envelope" "valid_attempt_receipt r"
    unfolding begin_attempt_body_steps attempt_answer_def by (auto simp: bind_result_Inr Let_def split: if_splits)
  have delivery: "tr_delivery r = tr_delivery receipt" using r(1) by (simp add: attempt_receipt_of_def)
  have "sl_run_id s' = ba_run_id cmd"
    using begin_attempt_body_advanced [OF body] grows_run s(3) by (auto simp: advanced_def)
  moreover have "stored_in s' (tr_delivery receipt)" "dv_delivery_id (tr_delivery receipt) = ?i"
    by (rule transition_stored [OF s(2) trans];
        force simp: attempt_move_def bind_result_Inr transition_delivery_Inr attempting_def split: if_splits)+
  ultimately show "about (ba_run_id cmd) ?i (tr_delivery r) w"
    by (auto simp: w about_def stored_revision_def stored_in_def delivery)
  assume raw: "tr_envelope r = Some raw"
  from trans show "\<not> opened v (ba_run_id cmd, ?i, ba_attempt_id cmd)"
  proof (cases rule: transition_body_Inr)
    case known
    with env r(1) raw show ?thesis by (simp add: attempt_receipt_of_def)
  next
    case (moved base d)
    have d: "dv_state d = Delivery_ATTEMPTING" "dv_attempt_id d = Some (ba_attempt_id cmd)" "dv_delivery_id d = dv_delivery_id base"
      using moved(2) by (auto simp: attempt_move_def bind_result_Inr transition_delivery_Inr attempting_def split: if_splits)
    have "tr_appended receipt" using r raw by (simp add: valid_attempt_receipt_def attempt_receipt_of_def)
    with moved(4) obtain entry p head where stage: "stage_entry env s (Rec_delivery d) = Inr (entry, p, head)"
      by (cases rule: record_delivery_locked_Inr) auto
    note inv = slot_deliveries_inv [OF s(2)]
    have base: "dict_get (pr_deliveries (sl_projection s)) (dv_delivery_id d) = Some base"
      using moved(1) deliveries_inv_latest(1) [OF inv] by (auto simp: delivery_base_def d(3) split: option.splits if_splits)
    from apply_delivery_previous [OF stage_delivery [OF stage] deliveries_inv_wf(1) [OF inv]]
    have "\<not> in_tokens (dv_attempt_id d) (attempt_tokens (sl_projection s))" using d(1) base by simp
    then have "dv_attempt_id x \<noteq> Some (ba_attempt_id cmd)"
      if "dict_get (pr_delivery_history (sl_projection s)) k = Some x" for k x
      using token_used(2) [OF that] d(2) by auto
    then show ?thesis
      using conjunct1 [OF find_slot_Inr [OF s(1)]] by (auto simp: opened_def)
  qed
qed

lemma stored_opens:
  assumes "stored_revision run d v" and "dv_state d = Delivery_ATTEMPTING" and "dv_attempt_id d = Some a"
  shows "opened v (run, dv_delivery_id d, a)"
  using assms unfolding stored_revision_def opened_def by blast

section \<open>Recovery\<close>

definition recovered_deliveries :: "delivery_recovery \<Rightarrow> delivery_record list" where
  "recovered_deliveries r = dy_resumable_pending r @ dy_resumable_claimed r @ dy_retryable_unknown r @
     dy_non_retryable_unknown r"

lemma sorted_stored:
  assumes "slot_ok env s" and "d \<in> set (sorted_deliveries (sl_projection s))"
  shows "stored_in s d"
proof -
  note inv = slot_deliveries_inv [OF assms(1)]
  from assms(2) obtain i where "(i, d) \<in> set (pr_deliveries (sl_projection s))" by (auto simp: sorted_deliveries_def)
  then have "dict_get (pr_deliveries (sl_projection s)) i = Some d"
    using dict_item_get [OF deliveries_inv_wf(1) [OF inv]] by simp
  with deliveries_inv_latest(1,2) [OF inv] show ?thesis by (auto simp: stored_in_def)
qed

lemma recovered_stored:
  assumes ok: "vault_ok env v" and step: "recover_deliveries env v run t = (Inr r, w)"
    and d: "d \<in> set (recovered_deliveries r)"
  shows "about run (dv_delivery_id d) d w" and "valid_delivery_record d"
proof -
  have keeps: "vault_ok env w" using recover_operation_keeps(2) [OF ok, of run t] step by (simp add: keeps_def)
  from step obtain s v' s' where find: "find_slot v run = Inr s"
    and body: "recover_deliveries_body env v t s = Inr (r, v', s')" and w: "w = store_slot s' v'"
    by (auto simp: recover_deliveries_def bind_result_Inr split: sum.splits elim!: on_slot_Inr)
  note slot = vault_ok_slot [OF ok conjunct1 [OF find_slot_Inr [OF find]]]
  have "sl_run_id s' = run"
    using grows_run recover_deliveries_body_advanced [OF body] slot(1) unfolding advanced_def by metis
  then have got: "dict_get (va_slots w) run = Some s'" by (simp add: w)
  have "\<exists>marked. r = delivery_recovery_of (sl_run_id s) marked (sorted_deliveries (sl_projection s'))"
  proof -
    have out: "\<exists>marked. r = delivery_recovery_of (sl_run_id s) marked (sorted_deliveries (sl_projection s'))"
      if "(if marked = []
        then Inr (delivery_recovery_of (sl_run_id s) [] (sorted_deliveries (sl_projection s)), v, s)
        else case sl_head shadow of
               None \<Rightarrow> Inl (ProjectionInvariantError ''delivery recovery shadow is incomplete'')
             | Some head \<Rightarrow>
                 Inr (delivery_recovery_of (sl_run_id s) marked (sorted_deliveries (sl_projection shadow)),
                   publish (sl_run_id s) head (sl_projection shadow) v,
                   shadow\<lparr>sl_append_leases := sl_append_leases s\<rparr>)) = Inr (r, v', s')" for shadow marked
      using that by (cases "sl_head shadow"; cases "marked = []") auto
    from body show ?thesis
      unfolding recover_deliveries_body_def Let_def by (simp only: bind_result_Inr split: if_splits) (auto intro: out)
  qed
  then obtain marked where "r = delivery_recovery_of (sl_run_id s) marked (sorted_deliveries (sl_projection s'))" ..
  with d have "d \<in> set (sorted_deliveries (sl_projection s'))"
    by (auto simp: recovered_deliveries_def delivery_recovery_of_def)
  note stored = sorted_stored [OF vault_ok_slot(2) [OF keeps got] this]
  then show "about run (dv_delivery_id d) d w" using got by (auto simp: about_def stored_revision_def stored_in_def)
  show "valid_delivery_record d"
    using history_key(3) [OF vault_ok_slot(2) [OF keeps got]] stored by (simp add: stored_in_def)
qed

end
