(* ===== verification/Delivery_Progress.thy ===== *)
theory Delivery_Progress
  imports Cycle_Progress Delivery_Facts
begin

text \<open>
  A legal successor of a current delivery is always recorded: what its committed reminder authorizes it
  still authorizes, the tags are computed and the receipt is valid.
\<close>

section \<open>Recording a successor\<close>

definition next_delivery_ok :: "projection \<Rightarrow> delivery_record \<Rightarrow> delivery_record \<Rightarrow> bool" where
  "next_delivery_ok p q d \<longleftrightarrow> dict_get (pr_deliveries p) (dv_delivery_id d) = Some q \<and>
     dv_revision d = dv_revision q + 1 \<and> guards_pass (delivery_successor_checks p q d) \<and> valid_delivery_record d"

lemma next_immutable:
  assumes "next_delivery_ok p q d"
  shows "delivery_immutable_fields d = delivery_immutable_fields q"
  using assms by (simp add: next_delivery_ok_def delivery_successor_checks_def)

lemma reachable_delivery_run:
  assumes "reachable H F run p" and "dict_get (pr_deliveries p) i = Some d"
  shows "dv_run_id d = run"
proof -
  have "\<forall>i d. dict_get (pr_deliveries p) i = Some d \<longrightarrow> dv_run_id d = run"
    using assms(1)
  proof (induction rule: reachable_invariant)
    case empty
    show ?case by (simp add: empty_projection_def)
  next
    case (entry p e p')
    show ?case
    proof (cases "\<exists>x. le_record e = Rec_delivery x")
      case True
      then obtain x where x: "le_record e = Rec_delivery x" by blast
      have "apply_delivery H p x = Inr p'" using entry.hyps(4) by (cases rule: apply_entry_cases) (simp_all add: x)
      moreover have "dv_run_id x = run" using entry.hyps(3) reachable_run [OF entry.hyps(1)] by (simp add: x)
      ultimately show ?thesis using entry.IH apply_delivery_effect(1) by (auto split: if_splits)
    next
      case False
      have "deliveries_part p' = deliveries_part p"
        using entry.hyps(4)
        by (cases rule: apply_entry_cases)
          (use False in \<open>auto dest: event_frame signal_frame outcome_frame decision_frame cycle_frame\<close>)
      with entry.IH show ?thesis by (simp add: deliveries_part_def)
    qed
  qed
  with assms(2) show ?thesis by blast
qed

lemma authorized_successor:
  assumes "delivery_authorized H p q" and "delivery_immutable_fields d = delivery_immutable_fields q"
  shows "delivery_authorized H p d"
proof -
  have "dv_cycle_id d = dv_cycle_id q" "dv_intervention_id d = dv_intervention_id q" "dv_target d = dv_target q"
    "dv_rendered_text_digest d = dv_rendered_text_digest q"
    using assms(2) by (simp_all add: delivery_immutable_fields_def)
  then show ?thesis using assms(1) by (simp add: delivery_authorized_def)
qed

lemma delivery_applies:
  assumes reach: "reachable H F run p" and d: "next_delivery_ok p q d"
  obtains p' where "apply_delivery H p d = Inr p'"
proof -
  have q: "dict_get (pr_deliveries p) (dv_delivery_id d) = Some q" using d by (simp add: next_delivery_ok_def)
  then have "delivery_authorized H p q" using reachable_outbox [OF reach] unfolding outbox_inv_def by blast
  from authorized_successor [OF this next_immutable [OF d]]
  obtain c i t where a: "dict_get (pr_cycles p) (dv_cycle_id d) = Some c" "cy_state c = Cycle_COMMITTED" "cy_intervention c = Some i"
    "dict_get (pr_interventions p) (dv_intervention_id d) = Some i" "iv_action i = Action_REMIND"
    "iv_delivery_target i = Some (dv_target d)" "iv_rendered_text i = Some t" "dv_rendered_text_digest d = text_digest H t"
    unfolding delivery_authorized_def by blast
  have "apply_delivery H p d = Inr (p\<lparr>pr_delivery_history :=
      dict_set (dv_delivery_id d, dv_revision d) d (pr_delivery_history p),
      pr_deliveries := dict_set (dv_delivery_id d) d (pr_deliveries p)\<rparr>)"
    unfolding apply_delivery_def a(1,4) option.case Let_def q
    using d a by (simp add: next_delivery_ok_def checks_pass guards_pass_append)
  then show thesis by (rule that)
qed

lemma delivery_key_short:
  assumes "0 \<le> dv_revision d" and "dv_revision d < 10"
  shows "1 \<le> code_points (record_key (Rec_delivery d))" and "code_points (record_key (Rec_delivery d)) \<le> 200"
proof -
  have "length (record_key (Rec_delivery d)) \<le> 200" using assms by (simp add: length_dec_str_digit)
  then show "code_points (record_key (Rec_delivery d)) \<le> 200" using code_points_length order_trans by blast
  show "1 \<le> code_points (record_key (Rec_delivery d))" by (simp add: code_points_def)
qed

lemma delivery_recorded:
  assumes ok: "slot_ok env s" and env: "writable env" and run: "uuid4 (sl_run_id s)"
    and d: "next_delivery_ok (sl_projection s) q d" and small: "dv_revision d < 10"
  obtains r v' s' where "record_delivery_locked env v s d True = Inr (r, v', s')" "tr_delivery r = d" "tr_appended r"
    "valid_delivery_receipt r" "sl_run_id s' = sl_run_id s"
    "pr_deliveries (sl_projection s') = dict_set (dv_delivery_id d) d (pr_deliveries (sl_projection s))"
    "pr_delivery_history (sl_projection s') = dict_set (dv_delivery_id d, dv_revision d) d (pr_delivery_history (sl_projection s))"
    "pr_interventions (sl_projection s') = pr_interventions (sl_projection s)"
proof -
  let ?p = "sl_projection s"
  note reach = slot_ok_project(3) [OF ok]
  have q: "dict_get (pr_deliveries ?p) (dv_delivery_id d) = Some q" and valid: "valid_delivery_record d"
    using d unfolding next_delivery_ok_def by blast+
  obtain p' where p': "apply_delivery (en_hash env) ?p d = Inr p'" by (rule delivery_applies [OF reach d])
  have same: "dv_run_id d = sl_run_id s"
  proof -
    have "dv_run_id q = sl_run_id s" by (rule reachable_delivery_run [OF reach q])
    with next_immutable [OF d] show ?thesis by (simp add: delivery_immutable_fields_def)
  qed
  have number: "0 \<le> dv_revision d" using valid by (simp add: valid_delivery_record_def delivery_fields_ok_def)
  note key = delivery_key_short [OF number small]
  obtain entry where entry: "new_entry env s (Rec_delivery d) (record_key (Rec_delivery d)) = Inr entry"
    "le_record entry = Rec_delivery d" "valid_payload_digest (le_record_tag entry)" "valid_payload_digest (le_chain_tag entry)"
    "1 \<le> le_position entry" "pd_algorithm (le_chain_tag entry) = tag_algorithm (en_integrity env)"
    "pd_algorithm (le_record_tag entry) = tag_algorithm (en_integrity env)"
    by (rule entry_written [OF ok env run _ key]) (use same in simp_all)
  have step: "apply_entry (en_hash env) (en_float env) ?p entry = Inr p'"
    using p' same reachable_run [OF reach] by (simp add: apply_entry_def entry(2))
  obtain head where "new_head env s entry p' = Inr head"
    by (rule head_written [OF env run entry(4,5,6)])
  with step have stage: "stage_entry env s (Rec_delivery d) = Inr (entry, p', head)"
    using entry(1) by (simp add: stage_entry_def)
  have "dict_get (sl_delivery_records s) (dv_delivery_id d, dv_revision d) = None"
    using slot_caches(2) [OF ok, of "(dv_delivery_id d, dv_revision d)"]
      delivery_revision_fresh [OF slot_deliveries_inv [OF ok] p'] by simp
  moreover have receipt: "valid_delivery_receipt (new_delivery_receipt entry d)"
    using valid entry by (simp add: valid_delivery_receipt_def new_delivery_receipt_def)
  ultimately have rec: "record_delivery_locked env v s d True = Inr (new_delivery_receipt entry d,
      publish (sl_run_id s) head p' v, (extend_slot entry p' head s)\<lparr>sl_delivery_records :=
         dict_set (dv_delivery_id d, dv_revision d) (new_delivery_receipt entry d) (sl_delivery_records s)\<rparr>)"
    using stage by (simp add: record_delivery_locked_def Let_def new_delivery_receipt_def)
  show thesis
    by (rule that [OF rec]) (use receipt apply_delivery_effect [OF p'] delivery_frame(2) [OF p'] in
      \<open>simp_all add: new_delivery_receipt_def cycles_part_def\<close>)
qed

section \<open>Moving the current revision\<close>

definition current_delivery :: "vault \<Rightarrow> delivery_record \<Rightarrow> bool" where
  "current_delivery v d = (case dict_get (va_slots v) (dv_run_id d) of
     None \<Rightarrow> False
   | Some s \<Rightarrow> dict_get (pr_deliveries (sl_projection s)) (dv_delivery_id d) = Some d)"

lemma current_delivery_slot:
  assumes ok: "vault_ok env v" and d: "current_delivery v d"
  obtains s where "dict_get (va_slots v) (dv_run_id d) = Some s" "find_slot v (dv_run_id d) = Inr s" "slot_ok env s"
    "sl_run_id s = dv_run_id d" "uuid4 (dv_run_id d)" "verify_head env v s True = Inr ()"
    "dict_get (pr_deliveries (sl_projection s)) (dv_delivery_id d) = Some d"
    "dict_get (pr_delivery_history (sl_projection s)) (dv_delivery_id d, dv_revision d) = Some d"
    "valid_delivery_record d"
proof -
  from d obtain s where s: "dict_get (va_slots v) (dv_run_id d) = Some s"
    "dict_get (pr_deliveries (sl_projection s)) (dv_delivery_id d) = Some d"
    by (auto simp: current_delivery_def split: option.splits)
  note found = find_stored [OF ok s(1)] and old = vault_ok_slot [OF ok s(1)]
  note h = deliveries_inv_latest(2) [OF slot_deliveries_inv [OF old(2)] s(2)]
  from that [OF s(1) found(1) old(2,1) found(4,2) s(2) h history_key(3) [OF old(2) h]] show thesis .
qed

text \<open>One delivery has moved to its next revision, and the rest of the outbox has not changed.\<close>

definition delivery_moved :: "projection \<Rightarrow> projection \<Rightarrow> delivery_record \<Rightarrow> bool" where
  "delivery_moved p p' d \<longleftrightarrow> pr_deliveries p' = dict_set (dv_delivery_id d) d (pr_deliveries p) \<and>
     pr_delivery_history p' = dict_set (dv_delivery_id d, dv_revision d) d (pr_delivery_history p) \<and>
     pr_interventions p' = pr_interventions p"

lemma transition_moves:
  assumes ok: "slot_ok env s" and env: "writable env" and run: "uuid4 (sl_run_id s)"
    and q: "dict_get (pr_deliveries (sl_projection s)) (dv_delivery_id q) = Some q"
    and retry: "\<exists>c. retry q = Inr c" and move: "move q = Inr d"
    and d: "next_delivery_ok (sl_projection s) q d" and small: "dv_revision d < 10"
  obtains r v' s' where
    "transition_body env v s (dv_delivery_id q) (dv_revision q) retry move = Inr ((r, Some d), v', s')"
    "tr_delivery r = d" "tr_appended r" "valid_delivery_receipt r" "sl_run_id s' = sl_run_id s"
    "delivery_moved (sl_projection s) (sl_projection s') d"
proof -
  obtain r v' s' where rec: "record_delivery_locked env v s d True = Inr (r, v', s')" and got: "tr_delivery r = d" "tr_appended r"
    "valid_delivery_receipt r" "sl_run_id s' = sl_run_id s"
    "pr_deliveries (sl_projection s') = dict_set (dv_delivery_id d) d (pr_deliveries (sl_projection s))"
    "pr_delivery_history (sl_projection s') = dict_set (dv_delivery_id d, dv_revision d) d (pr_delivery_history (sl_projection s))"
    "pr_interventions (sl_projection s') = pr_interventions (sl_projection s)"
    by (rule delivery_recorded [OF ok env run d small])
  have "previous_delivery s (dv_delivery_id q) (dv_revision q) = Some q"
    using deliveries_inv_latest(2) [OF slot_deliveries_inv [OF ok] q] by (simp add: previous_delivery_def)
  moreover have "delivery_retry s (dv_delivery_id q) (dv_revision q) c = Inr None" for c
    using q by (simp add: delivery_retry_def)
  ultimately have "transition_body env v s (dv_delivery_id q) (dv_revision q) retry move = Inr ((r, Some d), v', s')"
    using retry q move rec by (auto simp: transition_body_def delivery_base_def split: option.splits)
  then show thesis by (rule that) (use got in \<open>simp_all add: delivery_moved_def\<close>)
qed

text \<open>A whole command whose body is such a transition, with the answer \<open>finish\<close> makes of it.\<close>

lemma command_moves:
  assumes ok: "vault_ok env v" and env: "writable env" and q: "current_delivery v q"
    and accept: "accept_command env valid cmd operation = Inr ()" and valid
    and body: "\<And>s. body s = bind_result (transition_body env v s (dv_delivery_id q) (dv_revision q) (retry s) (move s)) (finish s)"
    and retry: "\<And>s. dict_get (pr_deliveries (sl_projection s)) (dv_delivery_id q) = Some q \<Longrightarrow> \<exists>c. retry s q = Inr c"
    and move: "\<And>s. dict_get (va_slots v) (dv_run_id q) = Some s \<Longrightarrow> move s q = Inr d"
    and d: "\<And>s. dict_get (va_slots v) (dv_run_id q) = Some s \<Longrightarrow>
      dict_get (pr_deliveries (sl_projection s)) (dv_delivery_id q) = Some q \<Longrightarrow> next_delivery_ok (sl_projection s) q d"
    and small: "dv_revision d < 10"
    and finish: "\<And>s r v' s'. dict_get (va_slots v) (dv_run_id q) = Some s \<Longrightarrow> valid_delivery_receipt r \<Longrightarrow> tr_appended r \<Longrightarrow>
      tr_delivery r = d \<Longrightarrow> \<exists>x. finish s ((r, Some d), v', s') = Inr (x, v', s') \<and> P x"
    and advanced: "\<And>s r v' s'. body s = Inr (r, v', s') \<Longrightarrow> advanced env v s v' s'"
  obtains x w s s' where "command_on_slot env v valid cmd operation (dv_run_id q) body = (Inr x, w)" "P x" "keeps env v w"
    "dict_get (va_slots v) (dv_run_id q) = Some s" "dict_get (va_slots w) (dv_run_id q) = Some s'"
    "delivery_moved (sl_projection s) (sl_projection s') d"
proof -
  obtain s where s: "dict_get (va_slots v) (dv_run_id q) = Some s" "find_slot v (dv_run_id q) = Inr s" "slot_ok env s"
    "sl_run_id s = dv_run_id q" "uuid4 (dv_run_id q)" "verify_head env v s True = Inr ()"
    "dict_get (pr_deliveries (sl_projection s)) (dv_delivery_id q) = Some q"
    "dict_get (pr_delivery_history (sl_projection s)) (dv_delivery_id q, dv_revision q) = Some q"
    "valid_delivery_record q"
    by (rule current_delivery_slot [OF ok q])
  have run: "uuid4 (sl_run_id s)" using s(4,5) by simp
  obtain r v' s' where t: "transition_body env v s (dv_delivery_id q) (dv_revision q) (retry s) (move s) = Inr ((r, Some d), v', s')"
    "tr_delivery r = d" "tr_appended r" "valid_delivery_receipt r" "sl_run_id s' = sl_run_id s"
    "delivery_moved (sl_projection s) (sl_projection s') d"
    by (rule transition_moves [where retry = "retry s" and move = "move s",
          OF s(3) env run s(7) retry [OF s(7)] move [OF s(1)] d [OF s(1,7)] small])
  from finish [OF s(1) t(4,3,2)] obtain x where x: "finish s ((r, Some d), v', s') = Inr (x, v', s')" "P x" by blast
  with t(1) have "body s = Inr (x, v', s')" by (simp add: body)
  then have step: "command_on_slot env v valid cmd operation (dv_run_id q) body = (Inr x, store_slot s' v')"
    using accept s(2,6) by (simp add: command_on_slot_def on_slot_def)
  have "keeps env v (store_slot s' v')"
    using command_on_slot_keeps [OF ok, of valid body cmd operation "dv_run_id q"] advanced step by simp
  from that [OF step x(2) this s(1) _ t(6)] t(5) s(4) show thesis by simp
qed

text \<open>What a later step needs of the moved delivery and of the rest.\<close>

definition reminder_text :: "vault \<Rightarrow> delivery_record \<Rightarrow> string option" where
  "reminder_text v d = (case dict_get (va_slots v) (dv_run_id d) of
     None \<Rightarrow> None
   | Some s \<Rightarrow> Option.bind (dict_get (pr_interventions (sl_projection s)) (dv_intervention_id d)) iv_rendered_text)"

definition token_unused :: "(projection \<Rightarrow> uuid list) \<Rightarrow> vault \<Rightarrow> uuid \<Rightarrow> uuid \<Rightarrow> bool" where
  "token_unused tokens v run t \<longleftrightarrow>
     (case dict_get (va_slots v) run of None \<Rightarrow> False | Some s \<Rightarrow> t \<notin> set (tokens (sl_projection s)))"

lemma moved_current:
  assumes "dict_get (va_slots v) run = Some s" and "dict_get (va_slots w) run = Some s'"
    and "delivery_moved (sl_projection s) (sl_projection s') d" and "dv_run_id d = run"
  shows "current_delivery w d" and "dv_run_id q = run \<Longrightarrow> dv_intervention_id q = dv_intervention_id d \<Longrightarrow>
      reminder_text w d = reminder_text v q"
    and "dv_attempt_id d = None \<Longrightarrow> token_unused attempt_tokens v run t \<Longrightarrow> token_unused attempt_tokens w run t"
proof -
  show "current_delivery w d" using assms by (simp add: current_delivery_def delivery_moved_def)
  show "dv_run_id q = run \<Longrightarrow> dv_intervention_id q = dv_intervention_id d \<Longrightarrow> reminder_text w d = reminder_text v q"
    using assms by (simp add: reminder_text_def delivery_moved_def)
  show "token_unused attempt_tokens w run t" if "dv_attempt_id d = None" "token_unused attempt_tokens v run t"
    using assms that set_dict_values_set [of "(dv_delivery_id d, dv_revision d)" d "pr_delivery_history (sl_projection s)"]
    by (auto simp: token_unused_def delivery_moved_def attempt_tokens_def in_map_filter)
qed

section \<open>The three steps of a delivery\<close>

text \<open>The redactor finds nothing to redact in a command.\<close>

definition clean_commands :: "repo_env \<Rightarrow> bool" where
  "clean_commands env \<longleftrightarrow> (\<forall>cmd operation.
     validate_record_content env (en_dump_command env cmd) operation = Inr ())"

lemma clean_accepted: "clean_commands env \<Longrightarrow> valid \<Longrightarrow> accept_command env valid cmd operation = Inr ()"
  by (simp add: clean_commands_def accept_command_def)

text \<open>Its fields put a pending delivery at its first revision.\<close>

lemma pending_first:
  assumes "vault_ok env v" and "current_delivery v q" and "dv_state q = Delivery_PENDING"
  shows "dv_revision q = 1" and "valid_delivery_record q" and "dv_attempt_count q = 0" and "dv_claim_id q = None"
    and "dv_attempt_id q = None" and "empty_result q"
proof -
  obtain s where s: "slot_ok env s" "dict_get (pr_delivery_history (sl_projection s)) (dv_delivery_id q, dv_revision q) = Some q"
    "valid_delivery_record q"
    by (rule current_delivery_slot [OF assms(1,2)])
  have "delivery_revision_ok (sl_projection s) (dv_delivery_id q) (dv_revision q) q"
    by (rule deliveries_inv_history [OF slot_deliveries_inv [OF s(1)] s(2)])
  moreover have "\<not> delivery_revises p q" for p
    using assms(3) by (cases "dv_state p") (auto simp: delivery_revises_def)
  ultimately show "dv_revision q = 1" by (auto simp: delivery_revision_ok_def split: if_splits)
  show "valid_delivery_record q" by (rule s(3))
  then show "dv_attempt_count q = 0" "dv_claim_id q = None" "dv_attempt_id q = None" "empty_result q"
    using assms(3) by (simp_all add: valid_delivery_record_def delivery_state_ok_def)
qed

text \<open>The retry and the move of claiming and of completing, named.\<close>

definition claim_retry :: "claim_delivery_cmd \<Rightarrow> delivery_record \<Rightarrow> repo_error + delivery_record option" where
  "claim_retry cmd previous =
     (if dv_state previous \<notin> {Delivery_PENDING, Delivery_UNKNOWN} then Inr None
      else if dv_state previous = Delivery_UNKNOWN \<and> \<not> dv_adapter_deduplicates previous
      then Inl (InvalidDeliveryStateError ''claim_delivery'')
      else map_sum id Some (transition_delivery (claimed cmd previous) ''claim_delivery''))"

definition claim_move :: "claim_delivery_cmd \<Rightarrow> delivery_record \<Rightarrow> repo_error + delivery_record" where
  "claim_move cmd base =
     (if dv_state base \<notin> {Delivery_PENDING, Delivery_UNKNOWN}
      then Inl (InvalidDeliveryStateError ''claim_delivery'')
      else if dv_state base = Delivery_UNKNOWN \<and> \<not> dv_adapter_deduplicates base
      then Inl (InvalidDeliveryStateError ''claim_delivery'')
      else transition_delivery (claimed cmd base) ''claim_delivery'')"

definition complete_retry :: "complete_delivery_cmd \<Rightarrow> delivery_record \<Rightarrow> repo_error + delivery_record option" where
  "complete_retry cmd previous =
     (if dv_state previous \<notin> {Delivery_ATTEMPTING, Delivery_UNKNOWN} then Inr None
      else if \<not> (dv_claim_id previous = Some (cd_claim_id cmd) \<and> dv_attempt_id previous = Some (cd_attempt_id cmd))
      then Inl DeliveryOwnershipError
      else map_sum id Some (transition_delivery (completed cmd previous) ''complete_delivery''))"

definition complete_move :: "complete_delivery_cmd \<Rightarrow> delivery_record \<Rightarrow> repo_error + delivery_record" where
  "complete_move cmd base =
     (if dv_state base \<notin> {Delivery_ATTEMPTING, Delivery_UNKNOWN}
      then Inl (InvalidDeliveryStateError ''complete_delivery'')
      else if \<not> (dv_claim_id base = Some (cd_claim_id cmd) \<and> dv_attempt_id base = Some (cd_attempt_id cmd))
      then Inl DeliveryOwnershipError
      else transition_delivery (completed cmd base) ''complete_delivery'')"

definition plain_answer :: "(delivery_receipt \<times> delivery_record option) \<times> vault \<times> run_slot \<Rightarrow>
    repo_error + delivery_receipt \<times> vault \<times> run_slot" where
  "plain_answer = (\<lambda>((receipt, _), v', s'). Inr (receipt, v', s'))"

lemma named_bodies:
  "claim_delivery_body env v cl s = bind_result (transition_body env v s (cl_delivery_id cl) (cl_expected_revision cl)
     (claim_retry cl) (claim_move cl)) plain_answer"
  "complete_delivery_body env v cd s = bind_result (transition_body env v s (cd_delivery_id cd) (cd_expected_revision cd)
     (complete_retry cd) (complete_move cd)) plain_answer"
  unfolding claim_delivery_body_def complete_delivery_body_def simple_transition_def plain_answer_def Let_def
    claim_retry_def [abs_def] claim_move_def [abs_def] complete_retry_def [abs_def] complete_move_def [abs_def] by (rule refl)+

lemma claim_succeeds:
  assumes ok: "vault_ok env v" and env: "writable env" "clean_commands env" and q: "current_delivery v q"
    and state: "dv_state q = Delivery_PENDING" and c: "uuid4 c" "token_unused claim_tokens v (dv_run_id q) c"
    and t: "dv_updated_at q \<le> t"
    and cmd: "cmd = \<lparr>cl_run_id = dv_run_id q, cl_delivery_id = dv_delivery_id q, cl_expected_revision = dv_revision q,
      cl_claim_id = c, cl_updated_at = t\<rparr>"
  obtains r w s s' where "claim_delivery env v cmd = (Inr r, w)" "valid_delivery_receipt r" "tr_appended r"
    "tr_delivery r = claimed cmd q" "keeps env v w" "dict_get (va_slots v) (dv_run_id q) = Some s"
    "dict_get (va_slots w) (dv_run_id q) = Some s'" "delivery_moved (sl_projection s) (sl_projection s') (claimed cmd q)"
proof -
  let ?d = "claimed cmd q"
  note first = pending_first [OF ok q state]
  have sel: "dv_run_id q = cl_run_id cmd" "dv_delivery_id q = cl_delivery_id cmd" "dv_revision q = cl_expected_revision cmd"
    "cl_claim_id cmd = c" "cl_updated_at cmd = t"
    by (simp_all add: cmd)
  have d: "valid_delivery_record ?d"
    using first(2-6) c(1) t state sel(4,5)
    by (simp add: claimed_def valid_delivery_record_def delivery_fields_ok_def delivery_state_ok_def empty_result_def)
  have valid: "valid_claim_delivery cmd"
    using first(1,2) c(1) by (simp add: valid_claim_delivery_def cmd valid_delivery_record_def delivery_fields_ok_def)
  have moved: "transition_delivery ?d ''claim_delivery'' = Inr ?d" using d by (simp add: transition_delivery_def)
  have next_ok: "next_delivery_ok (sl_projection s) q ?d"
    if "dict_get (va_slots v) (dv_run_id q) = Some s" "dict_get (pr_deliveries (sl_projection s)) (dv_delivery_id q) = Some q" for s
    using that first state d c(2) t sel(4,5)
    by (simp add: next_delivery_ok_def delivery_successor_checks_def claimed_def delivery_immutable_fields_def
        in_tokens_def token_unused_def)
  obtain r w s s' where "claim_delivery env v cmd = (Inr r, w)"
    "valid_delivery_receipt r \<and> tr_appended r \<and> tr_delivery r = ?d" "keeps env v w"
    "dict_get (va_slots v) (dv_run_id q) = Some s" "dict_get (va_slots w) (dv_run_id q) = Some s'"
    "delivery_moved (sl_projection s) (sl_projection s') ?d"
  proof (rule command_moves [where P = "\<lambda>r. valid_delivery_receipt r \<and> tr_appended r \<and> tr_delivery r = ?d"
        and retry = "\<lambda>_. claim_retry cmd" and move = "\<lambda>_. claim_move cmd" and finish = "\<lambda>_. plain_answer" and d = ?d,
        OF ok env(1) q clean_accepted [OF env(2) valid] valid])
    show "claim_delivery_body env v cmd s = bind_result (transition_body env v s (dv_delivery_id q) (dv_revision q)
        (claim_retry cmd) (claim_move cmd)) plain_answer" for s by (simp only: named_bodies sel)
    show "\<exists>x. claim_retry cmd q = Inr x" using state moved by (simp add: claim_retry_def)
    show "claim_move cmd q = Inr ?d" using state moved by (simp add: claim_move_def)
    show "dv_revision ?d < 10" using first(1) by (simp add: claimed_def)
    show "next_delivery_ok (sl_projection s) q ?d"
      if "dict_get (va_slots v) (dv_run_id q) = Some s" "dict_get (pr_deliveries (sl_projection s)) (dv_delivery_id q) = Some q" for s
      using that by (rule next_ok)
  qed (auto simp: plain_answer_def claim_delivery_def sel intro: delivery_steps_advanced)
  then show thesis using that by blast
qed

text \<open>
  A receipt of a recorded attempt with its envelope is valid: when the transition has been recorded, the
  answer of \<open>begin_delivery_attempt\<close> does not fail.
\<close>

lemma attempt_answered:
  assumes e: "attempt_envelope_of (sl_projection s) d = Inr e" and r: "valid_delivery_receipt r" "tr_appended r" "tr_delivery r = d"
  shows "attempt_answer s ((r, Some d), v', s') = Inr (attempt_receipt_of r (Some e), v', s')"
    and "valid_attempt_receipt (attempt_receipt_of r (Some e))"
proof -
  have "valid_attempt_envelope e" "envelope_matches e d"
    using e by (auto simp: attempt_envelope_of_def envelope_matches_def Let_def split: option.splits if_splits)
  with r show "valid_attempt_receipt (attempt_receipt_of r (Some e))"
    by (simp add: valid_attempt_receipt_def attempt_receipt_of_def valid_delivery_receipt_def)
  with e show "attempt_answer s ((r, Some d), v', s') = Inr (attempt_receipt_of r (Some e), v', s')"
    by (simp add: attempt_answer_def)
qed

lemma attempt_succeeds:
  assumes ok: "vault_ok env v" and env: "writable env" "clean_commands env" and q: "current_delivery v q"
    and state: "dv_state q = Delivery_CLAIMED" "dv_attempt_count q = 0" "dv_revision q < 9" "dv_claim_id q = Some c"
    and fit: "dv_target q = Target_PRE_ACTION_REPLAN \<longrightarrow> dv_adapter_supports_pre_action q"
    and a: "uuid4 a" "token_unused attempt_tokens v (dv_run_id q) a" and t: "dv_updated_at q \<le> t"
    and reminder: "reminder_text v q = Some text" "1 \<le> code_points text" "code_points text \<le> 4096"
    and cmd: "cmd = \<lparr>ba_run_id = dv_run_id q, ba_delivery_id = dv_delivery_id q, ba_expected_revision = dv_revision q,
      ba_claim_id = c, ba_attempt_id = a, ba_updated_at = t\<rparr>"
  obtains r raw w s s' where "begin_delivery_attempt env v cmd = (Inr r, w)" "valid_attempt_receipt r" "tr_appended r"
    "tr_delivery r = attempting cmd q" "tr_envelope r = Some raw" "ae_rendered_text raw = text"
    "keeps env v w" "dict_get (va_slots v) (dv_run_id q) = Some s"
    "dict_get (va_slots w) (dv_run_id q) = Some s'" "delivery_moved (sl_projection s) (sl_projection s') (attempting cmd q)"
proof -
  let ?d = "attempting cmd q"
  obtain s0 where s0: "dict_get (va_slots v) (dv_run_id q) = Some s0" "valid_delivery_record q"
    by (rule current_delivery_slot [OF ok q])
  have sel: "dv_run_id q = ba_run_id cmd" "dv_delivery_id q = ba_delivery_id cmd" "dv_revision q = ba_expected_revision cmd"
    "ba_claim_id cmd = c" "ba_attempt_id cmd = a" "ba_updated_at cmd = t"
    by (simp_all add: cmd)
  note parts = valid_delivery_record_def delivery_fields_ok_def delivery_state_ok_def empty_result_def
  have none: "dv_attempt_id q = None" using s0(2) state(1) by (simp add: parts)
  have d: "valid_delivery_record ?d"
    using s0(2) a(1) t state fit sel(4-6) by (auto simp: attempting_def parts)
  have valid: "valid_begin_attempt cmd"
    using s0(2) state(4) a(1) by (simp add: valid_begin_attempt_def cmd parts)
  have moved: "transition_delivery ?d ''begin_delivery_attempt'' = Inr ?d" using d by (simp add: transition_delivery_def)
  have next_ok: "next_delivery_ok (sl_projection s) q ?d"
    if "dict_get (va_slots v) (dv_run_id q) = Some s" "dict_get (pr_deliveries (sl_projection s)) (dv_delivery_id q) = Some q" for s
    using that state none d a(2) t sel(4-6)
    by (simp add: next_delivery_ok_def delivery_successor_checks_def attempting_def delivery_immutable_fields_def
        in_tokens_def token_unused_def)
  have envelope: "\<exists>raw. attempt_envelope_of (sl_projection s) ?d = Inr raw \<and> ae_rendered_text raw = text"
    if "dict_get (va_slots v) (dv_run_id q) = Some s" for s
  proof -
    from that reminder(1) obtain i where i: "dict_get (pr_interventions (sl_projection s)) (dv_intervention_id q) = Some i"
      "iv_rendered_text i = Some text"
      by (auto simp: reminder_text_def Option.bind_eq_Some_conv)
    have "dv_claim_id ?d = Some c" "dv_attempt_id ?d = Some a" "dv_state ?d = Delivery_ATTEMPTING"
      "dv_intervention_id ?d = dv_intervention_id q"
      using state(4) sel(5) by (simp_all add: attempting_def)
    with i d reminder(2,3) show ?thesis
      by (simp add: attempt_envelope_of_def valid_attempt_envelope_def parts Let_def)
  qed
  let ?P = "\<lambda>r. valid_attempt_receipt r \<and> tr_appended r \<and> tr_delivery r = ?d \<and>
    (\<exists>raw. tr_envelope r = Some raw \<and> ae_rendered_text raw = text)"
  obtain r w s s' where "begin_delivery_attempt env v cmd = (Inr r, w)" "?P r" "keeps env v w"
    "dict_get (va_slots v) (dv_run_id q) = Some s" "dict_get (va_slots w) (dv_run_id q) = Some s'"
    "delivery_moved (sl_projection s) (sl_projection s') ?d"
  proof (rule command_moves [where P = ?P and cmd = "Cmd_attempt cmd" and operation = "''begin_delivery_attempt''" and retry = "attempt_retry cmd" and move = "attempt_move cmd" and
        finish = attempt_answer and d = ?d, OF ok env(1) q clean_accepted [OF env(2) valid] valid])
    show "begin_attempt_body env v cmd s = bind_result (transition_body env v s (dv_delivery_id q) (dv_revision q)
        (attempt_retry cmd s) (attempt_move cmd s)) (attempt_answer s)" for s by (simp only: begin_attempt_body_steps sel)
    show "\<exists>x. attempt_retry cmd s q = Inr x" if "dict_get (pr_deliveries (sl_projection s)) (dv_delivery_id q) = Some q" for s
      using state(1,4) moved that by (simp add: attempt_retry_def sel(4) flip: sel(2,3))
    show "attempt_move cmd s q = Inr ?d" if "dict_get (va_slots v) (dv_run_id q) = Some s" for s
      using state(1,4) moved envelope [OF that] by (auto simp: attempt_move_def sel(4))
    show "dv_revision ?d < 10" using state(3) by (simp add: attempting_def)
    show "next_delivery_ok (sl_projection s) q ?d"
      if "dict_get (va_slots v) (dv_run_id q) = Some s" "dict_get (pr_deliveries (sl_projection s)) (dv_delivery_id q) = Some q" for s
      using that by (rule next_ok)
    show "\<exists>x. attempt_answer s ((r, Some ?d), v', s') = Inr (x, v', s') \<and> ?P x"
      if s: "dict_get (va_slots v) (dv_run_id q) = Some s" and r: "valid_delivery_receipt r" "tr_appended r" "tr_delivery r = ?d"
      for s r v' s'
    proof -
      from envelope [OF s] obtain raw where raw: "attempt_envelope_of (sl_projection s) ?d = Inr raw" "ae_rendered_text raw = text"
        by blast
      from attempt_answered [OF raw(1) r] raw(2) r show ?thesis by (auto simp: attempt_receipt_of_def)
    qed
  qed (auto simp: begin_delivery_attempt_def sel intro: begin_attempt_body_advanced)
  then show thesis using that by blast
qed

text \<open>
  A receipt identifier that starts with an underscore is a \<open>ComponentIdentifier\<close>, so
  \<open>validate_delivery_receipt\<close> accepts it; no delivered record can hold it.
\<close>

lemma underscored_receipt_is_not_recordable:
  assumes "cd_outcome cmd = Outcome_DELIVERED" and "cd_provider_receipt_id cmd = Some (CHR ''_'' # i)"
  shows "\<not> valid_delivery_record (completed cmd q)" and "component_identifier ''_receipt''"
  using assms by (simp_all add: completed_def valid_delivery_record_def delivery_state_ok_def provider_receipt_ok_def
      component_identifier_def ascii_alnum_def)

lemma complete_succeeds:
  assumes ok: "vault_ok env v" and env: "writable env" "clean_commands env" and q: "current_delivery v q"
    and state: "dv_state q = Delivery_ATTEMPTING" "dv_revision q < 9" "dv_claim_id q = Some c" "dv_attempt_id q = Some a"
    and t: "dv_updated_at q \<le> t"
    and receipt: "component_identifier i" "ascii_alnum (hd i)"
    and cmd: "cmd = \<lparr>cd_run_id = dv_run_id q, cd_delivery_id = dv_delivery_id q, cd_expected_revision = dv_revision q,
      cd_claim_id = c, cd_attempt_id = a, cd_outcome = Outcome_DELIVERED, cd_provider_receipt_id = Some i, cd_updated_at = t\<rparr>"
  obtains r w s s' where "complete_delivery env v cmd = (Inr r, w)" "tr_delivery r = completed cmd q"
    "valid_delivery_record (completed cmd q)" "keeps env v w" "dict_get (va_slots v) (dv_run_id q) = Some s"
    "dict_get (va_slots w) (dv_run_id q) = Some s'" "delivery_moved (sl_projection s) (sl_projection s') (completed cmd q)"
proof -
  let ?d = "completed cmd q"
  obtain s0 where s0: "dict_get (va_slots v) (dv_run_id q) = Some s0" "valid_delivery_record q"
    by (rule current_delivery_slot [OF ok q])
  have sel: "dv_run_id q = cd_run_id cmd" "dv_delivery_id q = cd_delivery_id cmd" "dv_revision q = cd_expected_revision cmd"
    "cd_claim_id cmd = c" "cd_attempt_id cmd = a" "cd_updated_at cmd = t" "cd_outcome cmd = Outcome_DELIVERED"
    "cd_provider_receipt_id cmd = Some i"
    by (simp_all add: cmd)
  note parts = valid_delivery_record_def delivery_fields_ok_def delivery_state_ok_def empty_result_def
  have "provider_receipt_ok (Some (JObj [(''provider_receipt_id'', JStr i)]))"
    using receipt by (cases i) (auto simp: provider_receipt_ok_def component_identifier_def list_all_iff)
  then have d: "valid_delivery_record ?d"
    using s0(2) t state sel(6-8) by (auto simp: completed_def parts is_object_def)
  have valid: "valid_complete_delivery cmd"
    using s0(2) state(3,4) receipt(1) by (simp add: valid_complete_delivery_def cmd parts)
  have moved: "transition_delivery ?d ''complete_delivery'' = Inr ?d" using d by (simp add: transition_delivery_def)
  have next_ok: "next_delivery_ok (sl_projection s) q ?d"
    if "dict_get (pr_deliveries (sl_projection s)) (dv_delivery_id q) = Some q" for s
    using that state d t sel(6,7)
    by (simp add: next_delivery_ok_def delivery_successor_checks_def completed_def delivery_immutable_fields_def)
  obtain r w s s' where "complete_delivery env v cmd = (Inr r, w)" "tr_delivery r = ?d" "keeps env v w"
    "dict_get (va_slots v) (dv_run_id q) = Some s" "dict_get (va_slots w) (dv_run_id q) = Some s'"
    "delivery_moved (sl_projection s) (sl_projection s') ?d"
  proof (rule command_moves [where P = "\<lambda>r. tr_delivery r = ?d"
        and retry = "\<lambda>_. complete_retry cmd" and move = "\<lambda>_. complete_move cmd" and finish = "\<lambda>_. plain_answer" and d = ?d,
        OF ok env(1) q clean_accepted [OF env(2) valid] valid])
    show "complete_delivery_body env v cmd s = bind_result (transition_body env v s (dv_delivery_id q) (dv_revision q)
        (complete_retry cmd) (complete_move cmd)) plain_answer" for s by (simp only: named_bodies sel)
    show "\<exists>x. complete_retry cmd q = Inr x" using state moved sel(4,5) by (simp add: complete_retry_def)
    show "complete_move cmd q = Inr ?d" using state moved sel(4,5) by (simp add: complete_move_def)
    show "dv_revision ?d < 10" using state(2) by (simp add: completed_def)
    show "next_delivery_ok (sl_projection s) q ?d"
      if "dict_get (pr_deliveries (sl_projection s)) (dv_delivery_id q) = Some q" for s
      using that by (rule next_ok)
  qed (auto simp: plain_answer_def complete_delivery_def sel intro: delivery_steps_advanced)
  then show thesis using that d by blast
qed

text \<open>
  The last check of \<open>begin_delivery_attempt\<close> comes after the revision is recorded and published; on a
  stored run it cannot fail, so leaving the slot as it was in that branch loses nothing.
\<close>

lemma recorded_attempt_is_answered:
  assumes ok: "slot_ok env s"
    and step: "transition_body env v s i n (attempt_retry cmd s) (attempt_move cmd s) = Inr ((r, Some d), v', s')"
  shows "\<exists>x. attempt_answer s ((r, Some d), v', s') = Inr (x, v', s')"
  using step
proof (cases rule: transition_body_Inr)
  case (moved base d')
  then have d: "delivery_base s i n = Inr base" "attempt_move cmd s base = Inr d" "record_delivery_locked env v s d True = Inr (r, v', s')"
    by simp_all
  from d(2) have e: "\<exists>e. attempt_envelope_of (sl_projection s) d = Inr e" and next_rev: "dv_revision d = dv_revision base + 1"
    "dv_delivery_id d = dv_delivery_id base"
    by (auto simp: attempt_move_def bind_result_Inr transition_delivery_Inr attempting_def split: if_splits)
  from d(1) have base: "dict_get (pr_deliveries (sl_projection s)) i = Some base"
    by (auto simp: delivery_base_def split: option.splits if_splits)
  note inv = slot_deliveries_inv [OF ok]
  have id: "dv_delivery_id d = i" using deliveries_inv_latest(1) [OF inv base] next_rev(2) by simp
  have "dict_get (pr_delivery_history (sl_projection s)) (i, dv_revision d) = None"
  proof (rule ccontr)
    assume "\<not> ?thesis"
    then obtain x where "dict_get (pr_delivery_history (sl_projection s)) (i, dv_revision d) = Some x" by blast
    from deliveries_inv_history [OF inv this] base next_rev(1) show False by (auto simp: delivery_revision_ok_def)
  qed
  then have "dict_get (sl_delivery_records s) (dv_delivery_id d, dv_revision d) = None"
    using slot_caches(2) [OF ok, of "(dv_delivery_id d, dv_revision d)"] id by simp
  with d(3) have r: "valid_delivery_receipt r" "tr_appended r" "tr_delivery r = d"
    by (auto simp: record_delivery_locked_def Let_def bind_result_Inr split: if_splits)
  from e attempt_answered(1) [OF _ r] show ?thesis by blast
qed simp

end
