(* ===== verification/Worker_Logic.thy ===== *)
theory Worker_Logic
  imports Delivery_Facts
begin

text \<open>
  Reasoning about tasks. The locale takes what a good world is and how a task may move it, and derives
  the rules for returning, raising, sequencing and catching. The interpretation is the worker's contract:
  the repository stays sound and only grows, and every envelope handed over belongs to an attempt that
  was opened after the task began, each to its own.
\<close>

section \<open>The rules\<close>

locale task_logic =
  fixes good :: "world \<Rightarrow> bool" and moves :: "world \<Rightarrow> world \<Rightarrow> bool"
  assumes moves_good: "good w \<Longrightarrow> moves w w' \<Longrightarrow> good w'"
    and moves_refl: "good w \<Longrightarrow> moves w w"
    and moves_trans: "good w \<Longrightarrow> moves w w' \<Longrightarrow> moves w' w'' \<Longrightarrow> moves w w''"
begin

definition triple :: "(world \<Rightarrow> bool) \<Rightarrow> 'a task \<Rightarrow> ('a \<Rightarrow> world \<Rightarrow> bool) \<Rightarrow> bool" where
  "triple Q t P \<longleftrightarrow> (\<forall>w. good w \<longrightarrow> Q w \<longrightarrow> moves w (snd (t w)) \<and> (\<forall>x. fst (t w) = Inr x \<longrightarrow> P x (snd (t w))))"

definition lasting :: "(world \<Rightarrow> bool) \<Rightarrow> bool" where
  "lasting Q \<longleftrightarrow> (\<forall>w w'. good w \<longrightarrow> moves w w' \<longrightarrow> Q w \<longrightarrow> Q w')"

lemma tripleI:
  assumes "\<And>w. good w \<Longrightarrow> Q w \<Longrightarrow> moves w (snd (t w))"
    and "\<And>w x. good w \<Longrightarrow> Q w \<Longrightarrow> fst (t w) = Inr x \<Longrightarrow> P x (snd (t w))"
  shows "triple Q t P"
  using assms unfolding triple_def by blast

lemma tripleD:
  assumes "triple Q t P" and "good w" and "Q w"
  shows "moves w (snd (t w))" and "good (snd (t w))" and "t w = (Inr x, w') \<Longrightarrow> P x w'"
proof -
  from assms show m: "moves w (snd (t w))" unfolding triple_def by blast
  from moves_good [OF assms(2) m] show "good (snd (t w))" .
  from assms show "P x w'" if "t w = (Inr x, w')" using that unfolding triple_def by (metis fst_conv snd_conv)
qed

lemma triple_weaken: "triple Q t P \<Longrightarrow> (\<And>w. Q' w \<Longrightarrow> Q w) \<Longrightarrow> (\<And>x w. P x w \<Longrightarrow> P' x w) \<Longrightarrow> triple Q' t P'"
  unfolding triple_def by blast

lemma triple_returns: "(\<And>w. Q w \<Longrightarrow> P x w) \<Longrightarrow> triple Q (returns x) P"
  by (simp add: triple_def returns_def moves_refl)

lemma triple_raises: "triple Q (raises e) P"
  by (simp add: triple_def raises_def moves_refl)

lemma triple_result: "(\<And>w x. Q w \<Longrightarrow> r = Inr x \<Longrightarrow> P x w) \<Longrightarrow> triple Q (of_result r) P"
  by (simp add: triple_def of_result_def moves_refl)

lemma triple_attempt:
  assumes t: "triple Q t P" and Q: "lasting Q" and h: "\<And>e. triple Q (h e) R"
    and k: "\<And>x. triple (\<lambda>w. Q w \<and> P x w) (k x) R"
  shows "triple Q (attempt t h k) R"
  unfolding triple_def
proof (intro allI impI)
  fix w assume w: "good w" "Q w"
  obtain r w' where r: "t w = (r, w')" by (cases "t w")
  have w': "moves w w'" "good w'" "Q w'"
    using tripleD(1,2) [OF t w] Q w r unfolding lasting_def by auto
  show "moves w (snd (attempt t h k w)) \<and> (\<forall>x. fst (attempt t h k w) = Inr x \<longrightarrow> R x (snd (attempt t h k w)))"
  proof (cases r)
    case (Inl e)
    then show ?thesis using r h [of e] w' moves_trans [OF w(1) w'(1)] unfolding attempt_def triple_def by auto
  next
    case (Inr x)
    then have "P x w'" using tripleD(3) [OF t w] r by simp
    then show ?thesis using Inr r k [of x] w' moves_trans [OF w(1) w'(1)] unfolding attempt_def triple_def by auto
  qed
qed

lemma triple_follow:
  assumes "triple Q t P" and "lasting Q" and "\<And>x. triple (\<lambda>w. Q w \<and> P x w) (k x) R"
  shows "triple Q (follow t k) R"
  unfolding follow_def by (rule triple_attempt [OF assms(1,2) triple_raises assms(3)])

lemma triple_drained:
  "triple Q (t (W\<lparr>we_interrupted := \<lambda>_. Uninterrupted\<rparr>)) P \<Longrightarrow> triple Q (drained t W) (\<lambda>_ _. True)"
  by (simp add: triple_def drained_def)

lemma triple_cases: "(c \<Longrightarrow> triple Q t P) \<Longrightarrow> (\<not> c \<Longrightarrow> triple Q u P) \<Longrightarrow> triple Q (if c then t else u) P"
  by simp

lemma lasting_True [simp]: "lasting (\<lambda>_. True)"
  by (simp add: lasting_def)

lemma lasting_conj: "lasting Q \<Longrightarrow> lasting R \<Longrightarrow> lasting (\<lambda>w. Q w \<and> R w)"
  by (simp add: lasting_def)

end

section \<open>The worker's contract\<close>

definition envelope_key :: "delivery_envelope \<Rightarrow> uuid \<times> uuid \<times> uuid" where
  "envelope_key e = (de_run_id e, de_delivery_id e, de_attempt_id e)"

text \<open>
  An envelope is backed when the ledger has the attempt it belongs to, field by field, and its payload is
  the bound reminder text, framed as the mapping asks.
\<close>

definition backed :: "repo_env \<Rightarrow> vault \<Rightarrow> delivery_envelope \<Rightarrow> bool" where
  "backed env v e \<longleftrightarrow> valid_delivery_envelope e \<and>
     (\<exists>d t. stored_revision (de_run_id e) d v \<and> dv_state d = Delivery_ATTEMPTING \<and>
        dv_delivery_id d = de_delivery_id e \<and> dv_claim_id d = Some (de_claim_id e) \<and>
        dv_attempt_id d = Some (de_attempt_id e) \<and> dv_attempt_count d = de_attempt_number e \<and>
        dv_cycle_id d = de_cycle_id e \<and> dv_intervention_id d = de_intervention_id e \<and>
        dv_target_request_id d = de_target_request_id e \<and> dv_target d = de_target e \<and>
        dv_adapter_id d = de_adapter_id e \<and> dv_updated_at d = de_created_at e \<and>
        text_digest (en_hash env) t = dv_rendered_text_digest d \<and>
        delivery_payload (Some t) (de_mapping e) = Inr (de_payload e))"

definition sound_world :: "repo_env \<Rightarrow> world \<Rightarrow> bool" where
  "sound_world env w \<longleftrightarrow> vault_ok env (wo_vault w)"

definition advances :: "repo_env \<Rightarrow> world \<Rightarrow> world \<Rightarrow> bool" where
  "advances env w w' \<longleftrightarrow> keeps env (wo_vault w) (wo_vault w') \<and>
     (\<exists>es. wo_handed w' = wo_handed w @ es \<and> distinct (map (envelope_key \<circ> fst) es) \<and>
        (\<forall>x\<in>set es. backed env (snd x) (fst x) \<and> backed env (wo_vault w') (fst x) \<and> \<not> opened (wo_vault w) (envelope_key (fst x))))"

lemma backed_opened: "backed env v e \<Longrightarrow> opened v (envelope_key e)"
  unfolding backed_def envelope_key_def by (metis stored_opens)

lemma backed_extends: "keeps env v w \<Longrightarrow> vault_ok env v \<Longrightarrow> backed env v e \<Longrightarrow> backed env w e"
  unfolding backed_def by (blast intro: stored_extends)

lemma keeps_trans: "keeps env u v \<Longrightarrow> keeps env v w \<Longrightarrow> keeps env u w"
  by (auto simp: keeps_def elim: ledgers_extend_trans)

interpretation worker: task_logic "sound_world env" "advances env" for env
proof
  fix w w' w''
  assume w: "sound_world env w"
  then show "advances env w w" by (simp add: advances_def sound_world_def keeps_refl)
  assume a: "advances env w w'"
  then show "sound_world env w'" by (simp add: advances_def sound_world_def keeps_def)
  then have w': "vault_ok env (wo_vault w')" by (simp add: sound_world_def)
  assume b: "advances env w' w''"
  from a obtain es where es: "wo_handed w' = wo_handed w @ es" "distinct (map (envelope_key \<circ> fst) es)"
    "\<forall>x\<in>set es. backed env (snd x) (fst x) \<and> backed env (wo_vault w') (fst x) \<and> \<not> opened (wo_vault w) (envelope_key (fst x))"
    and k: "keeps env (wo_vault w) (wo_vault w')"
    unfolding advances_def by blast
  from b obtain fs where fs: "wo_handed w'' = wo_handed w' @ fs" "distinct (map (envelope_key \<circ> fst) fs)"
    "\<forall>x\<in>set fs. backed env (snd x) (fst x) \<and> backed env (wo_vault w'') (fst x) \<and> \<not> opened (wo_vault w') (envelope_key (fst x))"
    and l: "keeps env (wo_vault w') (wo_vault w'')"
    unfolding advances_def by blast
  have "envelope_key (fst x) \<noteq> envelope_key (fst y)" if "x \<in> set es" "y \<in> set fs" for x y
    using es(3) fs(3) that backed_opened by metis
  then have "distinct (map (envelope_key \<circ> fst) (es @ fs))" using es(2) fs(2) by (fastforce simp: distinct_append)
  moreover have "backed env (snd x) (fst x) \<and> backed env (wo_vault w'') (fst x) \<and> \<not> opened (wo_vault w) (envelope_key (fst x))"
    if "x \<in> set (es @ fs)" for x
    using that es(3) fs(3) backed_extends [OF l w'] opened_extends [OF k, of "envelope_key (fst x)"] w
    unfolding sound_world_def set_append Un_iff by blast
  ultimately show "advances env w w''"
    using es(1) fs(1) keeps_trans [OF k l] unfolding advances_def by (metis append.assoc)
qed

lemma lasting_stored [simp]: "worker.lasting env (\<lambda>w. stored_revision run d (wo_vault w))"
  by (auto simp: worker.lasting_def advances_def sound_world_def intro: stored_extends)

lemma advances_quiet: "advances env w w' \<longleftrightarrow> keeps env (wo_vault w) (wo_vault w')" if "wo_handed w' = wo_handed w"
  using that by (auto simp: advances_def)

end
