(* ===== verification/Worker_Safety.thy ===== *)
theory Worker_Safety
  imports Worker_Logic
begin

text \<open>
  The worker keeps its contract at every await, whatever other tasks do there and wherever it is
  cancelled: an envelope goes to the adapter only after the attempt is on record, under a token the
  ledger had never seen, and what the worker returns is a revision the ledger holds.
\<close>

definition truthful :: "uuid \<Rightarrow> uuid \<Rightarrow> worker_result \<Rightarrow> vault \<Rightarrow> bool" where
  "truthful run i r v \<longleftrightarrow> about run i (wr_delivery r) v \<and> valid_worker_result r"

abbreviation honest :: "worker_env \<Rightarrow> (world \<Rightarrow> bool) \<Rightarrow> 'a task \<Rightarrow> ('a \<Rightarrow> world \<Rightarrow> bool) \<Rightarrow> bool" where
  "honest W \<equiv> worker.triple (we_repository W)"

lemmas honest_rules = worker.triple_returns worker.triple_raises worker.triple_result worker.triple_cases

lemma lasting_about [simp]: "worker.lasting env (\<lambda>w. about run i d (wo_vault w))"
  by (auto simp: worker.lasting_def advances_def sound_world_def intro: about_extends)

lemma others_keep: "vault_ok env v \<Longrightarrow> keeps env v (run_operations env ops v)"
  by (simp add: keeps_def run_operations_steps repository.run_sound repository.run_extends)

lemma await_honest:
  assumes keeps: "\<And>v. vault_ok (we_repository W) v \<Longrightarrow> keeps (we_repository W) v (snd (f v))"
    and P: "\<And>v x v'. vault_ok (we_repository W) v \<Longrightarrow> f v = (Inr x, v') \<Longrightarrow> P x v'"
  shows "honest W Q (await_repository W f) (\<lambda>x w. P x (wo_vault w))"
proof (rule worker.tripleI)
  fix w assume "sound_world (we_repository W) w"
  then have ok: "vault_ok (we_repository W) (wo_vault w)" by (simp add: sound_world_def)
  define v where "v = run_operations (we_repository W) (we_others W (wo_awaits w)) (wo_vault w)"
  have k: "keeps (we_repository W) (wo_vault w) v" unfolding v_def by (rule others_keep [OF ok])
  then have v: "vault_ok (we_repository W) v" by (simp add: keeps_def)
  show "advances (we_repository W) w (snd (await_repository W f w))"
    using k keeps_trans [OF k keeps [OF v]]
    by (auto simp: await_repository_def Let_def v_def [symmetric] advances_def split: interruption.splits)
  fix x assume "fst (await_repository W f w) = Inr x"
  then have "we_interrupted W (wo_awaits w) = Uninterrupted" "fst (f v) = Inr x"
    by (auto simp: await_repository_def Let_def v_def [symmetric] split: interruption.splits)
  then show "P x (wo_vault (snd (await_repository W f w)))"
    using P [OF v, of x "snd (f v)"] by (simp add: await_repository_def Let_def v_def [symmetric] prod_eq_iff)
qed

lemma worker_new_id_honest: "honest W Q (worker_new_id W) (\<lambda>i w. uuid4 i)"
  by (rule worker.tripleI)
    (auto simp: worker_new_id_def advances_def sound_world_def keeps_refl split: option.splits if_splits)

lemma choose_mapping_honest: "honest W Q (choose_mapping W d) (\<lambda>m w. True)"
  by (rule worker.tripleI) (auto simp: choose_mapping_def advances_def sound_world_def keeps_refl)

section \<open>Reading and reporting\<close>

lemma read_current_honest:
  "honest W Q (read_current W run i) (\<lambda>d w. about run i d (wo_vault w) \<and> valid_delivery_record d)"
  unfolding read_current_def
proof (rule worker.triple_weaken [where Q = "\<lambda>_. True"])
  show "honest W (\<lambda>_. True) (follow (await_repository W (\<lambda>v. (read_delivery (we_repository W) v run i, v)))
      (\<lambda>d. of_result (if valid_delivery_record d then Inr d else Inl DeliveryRuntimeError)))
    (\<lambda>d w. about run i d (wo_vault w) \<and> valid_delivery_record d)"
  proof (rule worker.triple_follow [OF await_honest [where P = "about run i"]])
    fix v x v' assume "vault_ok (we_repository W) v" "(read_delivery (we_repository W) v run i, v) = (Inr x, v')"
    then show "about run i x v'" using read_delivery_stored(1) by blast
  qed (auto intro: keeps_refl worker.triple_result split: if_splits)
qed simp_all

lemma from_delivery_Inr: "from_delivery d c = Inr r \<Longrightarrow> wr_delivery r = d \<and> valid_worker_result r"
  by (auto simp: from_delivery_def Let_def split: if_splits)

lemma of_delivery_honest:
  "honest W (\<lambda>w. about run i d (wo_vault w)) (of_result (from_delivery d c)) (\<lambda>r w. truthful run i r (wo_vault w))"
  by (rule worker.triple_result) (auto simp: truthful_def dest: from_delivery_Inr)

lemma reports_honest:
  "honest W (\<lambda>w. about run i d (wo_vault w)) (reports d) (\<lambda>r w. truthful run i r (wo_vault w))"
  unfolding reports_def by (rule of_delivery_honest)

lemma report_current_honest: "honest W (\<lambda>_. True) (report_current W run i) (\<lambda>r w. truthful run i r (wo_vault w))"
  unfolding report_current_def
  by (rule worker.triple_follow [OF read_current_honest]) (auto intro: worker.triple_weaken [OF reports_honest])

lemma conflict_honest: "honest W (\<lambda>_. True) (if revision_conflict e then report_current W run i else raises e)
    (\<lambda>r w. truthful run i r (wo_vault w))"
  by (simp add: report_current_honest worker.triple_raises)

section \<open>Settling\<close>

text \<open>The shape the settling steps share: one operation, a conflict answered by the current revision.\<close>

lemma settle_honest:
  assumes "\<And>v. vault_ok (we_repository W) v \<Longrightarrow> keeps (we_repository W) v (snd (f v))"
    and "\<And>v x v'. vault_ok (we_repository W) v \<Longrightarrow> f v = (Inr x, v') \<Longrightarrow> about run i (tr_delivery x) v'"
    and "\<And>e. honest W (\<lambda>_. True) (h e) (\<lambda>r w. truthful run i r (wo_vault w))"
  shows "honest W (\<lambda>_. True) (attempt (await_repository W f) h (\<lambda>receipt. of_result (from_delivery (tr_delivery receipt) c)))
    (\<lambda>r w. truthful run i r (wo_vault w))"
  by (rule worker.triple_attempt [OF await_honest [where P = "\<lambda>x. about run i (tr_delivery x)"]])
    (use assms in \<open>auto intro: worker.triple_weaken [OF of_delivery_honest]\<close>)

lemma reject_refused_honest:
  "honest W (\<lambda>w. about run i d (wo_vault w)) (reject_refused W d reason now) (\<lambda>r w. truthful run i r (wo_vault w))"
  if "dv_run_id d = run" "dv_delivery_id d = i"
proof (cases "dv_state d \<in> {Delivery_PENDING, Delivery_CLAIMED}")
  case True
  have "honest W (\<lambda>_. True) (reject_refused W d reason now) (\<lambda>r w. truthful run i r (wo_vault w))"
    unfolding reject_refused_def using True that
    by (auto intro!: settle_honest conflict_honest delivery_operation_keeps dest: delivery_operations_stored(4))
  then show ?thesis by (rule worker.triple_weaken) simp_all
qed (simp add: reject_refused_def reports_honest)

lemma mark_unknown_honest:
  "honest W Q (mark_unknown W d now) (\<lambda>r w. truthful run i r (wo_vault w))"
  if "dv_run_id d = run" "dv_delivery_id d = i"
proof (rule worker.triple_weaken [where Q = "\<lambda>_. True"])
  show "honest W (\<lambda>_. True) (mark_unknown W d now) (\<lambda>r w. truthful run i r (wo_vault w))"
    unfolding mark_unknown_def reports_def using that
    by (auto intro!: settle_honest conflict_honest delivery_operation_keeps worker.triple_raises
        dest: delivery_operations_stored(3) split: option.splits)
qed simp_all

abbreviation shielded :: "worker_env \<Rightarrow> worker_env" where
  "shielded W \<equiv> W\<lparr>we_interrupted := \<lambda>_. Uninterrupted\<rparr>"

lemma drained_honest: "honest (shielded W) Q (t (shielded W)) P \<Longrightarrow> honest W Q (drained t W) (\<lambda>_ _. True)"
  by (rule worker.triple_drained) simp

lemma unknown_after_cancellation_honest: "honest W Q (unknown_after_cancellation W d now) (\<lambda>_ _. True)"
  unfolding unknown_after_cancellation_def 
  by (rule drained_honest, rule mark_unknown_honest [OF refl refl])

lemma unknown_if_attempting_honest:
  "honest W (\<lambda>_. True) (unknown_if_attempting W run i claim attempt_id now) (\<lambda>_ _. True)"
  unfolding unknown_if_attempting_def
proof (rule worker.triple_follow [OF read_current_honest])
  fix d :: delivery_record
  have "honest W (\<lambda>_. True) (follow (mark_unknown W d now) (\<lambda>_. returns ())) (\<lambda>_ _. True)"
    by (rule worker.triple_follow [OF mark_unknown_honest [OF refl refl]]) (simp_all add: worker.triple_returns)
  then show "honest W (\<lambda>w. True \<and> about run i d (wo_vault w) \<and> valid_delivery_record d)
      (if dv_state d = Delivery_ATTEMPTING \<and> dv_claim_id d = Some claim \<and> dv_attempt_id d = Some attempt_id
       then follow (mark_unknown W d now) (\<lambda>_. returns ()) else returns ()) (\<lambda>_ _. True)"
    by (auto intro: worker.triple_weaken worker.triple_returns)
qed simp

lemma unknown_persisted_honest:
  "honest W (\<lambda>_. True) (unknown_persisted_attempt W run i claim attempt_id now) (\<lambda>_ _. True)"
  unfolding unknown_persisted_attempt_def 
  by (rule drained_honest, rule unknown_if_attempting_honest)

text \<open>One completion, its receipt reported and its failures handled by \<open>h\<close>.\<close>

lemma completion_honest:
  assumes "dv_run_id d = run" and "dv_delivery_id d = i"
    and "\<And>e. honest W (\<lambda>_. True) (h e) (\<lambda>r w. truthful run i r (wo_vault w))"
  shows "honest W (\<lambda>_. True) (attempt (await_repository W (\<lambda>v. complete_delivery (we_repository W) v
      (complete_command d c a n ended receipt t))) h (\<lambda>receipt. reports (tr_delivery receipt)))
    (\<lambda>r w. truthful run i r (wo_vault w))"
  unfolding reports_def
  by (rule settle_honest)
    (use assms in \<open>auto intro: delivery_operation_keeps dest: delivery_operations_stored(2) simp: complete_command_def\<close>)

lemma complete_late_honest:
  "honest W (\<lambda>_. True) (complete_late W d c a ended receipt now) (\<lambda>r w. truthful run i r (wo_vault w))"
  if d: "dv_run_id d = run" "dv_delivery_id d = i"
  unfolding complete_late_def d
proof (rule worker.triple_follow [OF read_current_honest])
  fix current :: delivery_record
  have "honest W (\<lambda>_. True) (follow (await_repository W (\<lambda>v. complete_delivery (we_repository W) v
      (complete_command d c a (dv_revision current) ended receipt (max now (dv_updated_at current)))))
      (\<lambda>receipt. reports (tr_delivery receipt))) (\<lambda>r w. truthful run i r (wo_vault w))"
    unfolding follow_def by (rule completion_honest [OF d worker.triple_raises])
  then show "honest W (\<lambda>w. True \<and> about run i current (wo_vault w) \<and> valid_delivery_record current)
      (if dv_state current = Delivery_UNKNOWN \<and> dv_claim_id current = Some c \<and> dv_attempt_id current = Some a
       then follow (await_repository W (\<lambda>v. complete_delivery (we_repository W) v
         (complete_command d c a (dv_revision current) ended receipt (max now (dv_updated_at current)))))
         (\<lambda>receipt. reports (tr_delivery receipt))
       else reports current) (\<lambda>r w. truthful run i r (wo_vault w))"
    by (auto intro: worker.triple_weaken [OF reports_honest] worker.triple_weaken)
qed simp

lemma complete_attempt_honest:
  "honest W (\<lambda>_. True) (complete_attempt W d ended receipt now) (\<lambda>r w. truthful run i r (wo_vault w))"
  if d: "dv_run_id d = run" "dv_delivery_id d = i"
  unfolding complete_attempt_def
  by (cases "dv_claim_id d"; cases "dv_attempt_id d")
    (auto intro!: completion_honest [OF d] worker.triple_cases complete_late_honest [OF d] worker.triple_raises)

lemma cancelled_honest:
  "honest W (\<lambda>_. True) (follow (unknown_after_cancellation W d now) (\<lambda>_. raises Cancelled)) P"
  by (rule worker.triple_follow [OF unknown_after_cancellation_honest]) (simp_all add: worker.triple_raises)

lemma settle_attempt_honest:
  "honest W (\<lambda>_. True) (settle_attempt W d ended receipt now) (\<lambda>r w. truthful run i r (wo_vault w))"
  if d: "dv_run_id d = run" "dv_delivery_id d = i"
  unfolding settle_attempt_def
  by (rule worker.triple_attempt [OF complete_attempt_honest [OF d]])
    (auto intro!: worker.triple_cases cancelled_honest mark_unknown_honest [OF d] worker.triple_returns)

section \<open>Handing over\<close>

lemma hand_over_eq: "hand_over W d e now w =
    handover_answered W d e now (we_answers W (length (wo_handed w)) e) (w\<lparr>wo_handed := wo_handed w @ [(e, wo_vault w)]\<rparr>)"
  by (simp add: hand_over_def follow_def attempt_def hand_to_adapter_def)

lemma handover_answered_honest:
  "honest W (\<lambda>_. True) (handover_answered W d e now answer) (\<lambda>r w. truthful run i r (wo_vault w))"
  if d: "dv_run_id d = run" "dv_delivery_id d = i"
  unfolding handover_answered_def
  by (auto intro!: cancelled_honest settle_attempt_honest [OF d] mark_unknown_honest [OF d]
      split: adapter_answer.splits sum.splits)

lemma hand_over_from:
  assumes "sound_world (we_repository W) w" and a: "advances (we_repository W) w w1" and h: "wo_handed w1 = wo_handed w"
    and "\<not> opened (wo_vault w) (envelope_key e)" and "backed (we_repository W) (wo_vault w1) e"
    and d: "dv_run_id d = run" "dv_delivery_id d = i"
  shows "advances (we_repository W) w (snd (hand_over W d e now w1)) \<and>
    (\<forall>r. fst (hand_over W d e now w1) = Inr r \<longrightarrow> truthful run i r (wo_vault (snd (hand_over W d e now w1))))"
proof -
  let ?w2 = "w1\<lparr>wo_handed := wo_handed w1 @ [(e, wo_vault w1)]\<rparr>"
  have step: "advances (we_repository W) w ?w2"
    using assms(2-5) by (auto simp: advances_def)
  from worker.moves_good [OF assms(1) step] have "sound_world (we_repository W) ?w2" .
  from handover_answered_honest [OF d, unfolded worker.triple_def, rule_format, OF this]
    worker.moves_trans [OF assms(1) step]
  show ?thesis unfolding hand_over_eq by blast
qed

section \<open>Attempting and claiming\<close>

lemma envelope_of_Some:
  assumes "envelope_of raw m t = Some e"
  shows "valid_delivery_envelope e" and "de_delivery_id e = ae_delivery_id raw" and "de_run_id e = ae_run_id raw"
    and "de_cycle_id e = ae_cycle_id raw" and "de_intervention_id e = ae_intervention_id raw"
    and "de_claim_id e = ae_claim_id raw" and "de_attempt_id e = ae_attempt_id raw"
    and "de_attempt_number e = ae_attempt_number raw" and "de_target_request_id e = ae_target_request_id raw"
    and "de_target e = ae_target raw" and "de_adapter_id e = ae_adapter_id raw" and "de_created_at e = t"
    and "de_mapping e = m" and "delivery_payload (Some (ae_rendered_text raw)) m = Inr (de_payload e)"
  using assms by (auto simp: envelope_of_def Let_def split: sum.splits if_splits)

lemma envelope_backed:
  assumes "about run i (tr_delivery r) v" and "valid_attempt_receipt r" and "tr_envelope r = Some raw"
    and "attempt_confirmed r run i q a now" and t: "text_digest (en_hash env) (ae_rendered_text raw) = ae_rendered_text_digest raw"
    and e: "envelope_of raw m (dv_updated_at (tr_delivery r)) = Some e"
  shows "backed env v e" and "envelope_key e = (run, i, a)"
proof -
  have m: "envelope_matches raw (tr_delivery r)" using assms(2,3) by (simp add: valid_attempt_receipt_def)
  have c: "dv_delivery_id (tr_delivery r) = i" "dv_run_id (tr_delivery r) = run" "dv_attempt_id (tr_delivery r) = Some a"
    using assms(4) by (simp_all add: attempt_confirmed_def Let_def)
  note f = envelope_of_Some [OF e]
  show "envelope_key e = (run, i, a)" using f(2,3,7) m c by (simp add: envelope_key_def envelope_matches_def)
  have "stored_revision (de_run_id e) (tr_delivery r) v"
    using assms(1) f(3) m c by (simp add: about_def envelope_matches_def)
  then show "backed env v e"
    unfolding backed_def using f m t
    by (intro conjI exI [of _ "tr_delivery r"] exI [of _ "ae_rendered_text raw"]) (simp_all add: envelope_matches_def)
qed

definition begin_attempt_op :: "worker_env \<Rightarrow> uuid \<Rightarrow> uuid \<Rightarrow> int \<Rightarrow> uuid \<Rightarrow> uuid \<Rightarrow> timestamp \<Rightarrow> vault \<Rightarrow>
    (repo_error + attempt_receipt) \<times> vault" where
  "begin_attempt_op W run i n c a now = (\<lambda>v. begin_delivery_attempt (we_repository W) v
     \<lparr>ba_run_id = run, ba_delivery_id = i, ba_expected_revision = n, ba_claim_id = c, ba_attempt_id = a,
      ba_updated_at = now\<rparr>)"

lemma await_handed: "wo_handed (snd (await_repository W f w)) = wo_handed w"
  by (simp add: await_repository_def Let_def split: interruption.splits)

lemma attempt_awaited:
  assumes ok: "sound_world (we_repository W) w"
    and step: "await_repository W (begin_attempt_op W run i n c a now) w = (Inr r, w1)"
  shows "about run i (tr_delivery r) (wo_vault w1)"
    and "tr_envelope r = Some raw \<Longrightarrow> \<not> opened (wo_vault w) (run, i, a)"
proof -
  define v where "v = run_operations (we_repository W) (we_others W (wo_awaits w)) (wo_vault w)"
  have old: "vault_ok (we_repository W) (wo_vault w)" using ok by (simp add: sound_world_def)
  have k: "keeps (we_repository W) (wo_vault w) v" unfolding v_def by (rule others_keep [OF old])
  then have v: "vault_ok (we_repository W) v" by (simp add: keeps_def)
  from step have op: "begin_attempt_op W run i n c a now v = (Inr r, wo_vault w1)"
    by (cases "begin_attempt_op W run i n c a now v"; cases "fst (begin_attempt_op W run i n c a now v)")
      (auto simp: await_repository_def Let_def v_def [symmetric] split: interruption.splits)
  note o = attempt_opened [OF v op [unfolded begin_attempt_op_def]]
  from o(1) show "about run i (tr_delivery r) (wo_vault w1)" by simp
  show "\<not> opened (wo_vault w) (run, i, a)" if "tr_envelope r = Some raw"
    using o(2) [OF that] opened_extends [OF k old] by auto
qed

lemma begin_honest: "honest W Q (await_repository W (begin_attempt_op W run i n c a now))
    (\<lambda>r w. about run i (tr_delivery r) (wo_vault w))"
  by (rule await_honest)
    (auto simp: begin_attempt_op_def intro: delivery_operation_keeps dest: attempt_opened(1))

text \<open>What follows a move is a move, and its result is what the task's postcondition says.\<close>

lemma honest_after:
  assumes "honest W Q t P" and "sound_world (we_repository W) w" and a: "advances (we_repository W) w w1" and "Q w1"
  shows "advances (we_repository W) w (snd (t w1)) \<and> (\<forall>r. fst (t w1) = Inr r \<longrightarrow> P r (snd (t w1)))"
  using assms worker.moves_good [OF assms(2,3)] worker.moves_trans [OF assms(2,3)]
  unfolding worker.triple_def by blast

lemma deliver_attempted_from:
  assumes ok: "sound_world (we_repository W) w" and a: "advances (we_repository W) w w1" and h: "wo_handed w1 = wo_handed w"
    and r: "about run i (tr_delivery r) (wo_vault w1)"
    and new: "\<And>raw. tr_envelope r = Some raw \<Longrightarrow> \<not> opened (wo_vault w) (run, i, a)"
  shows "advances (we_repository W) w (snd (deliver_attempted W run i q m a now r w1)) \<and>
    (\<forall>x. fst (deliver_attempted W run i q m a now r w1) = Inr x \<longrightarrow>
      truthful run i x (wo_vault (snd (deliver_attempted W run i q m a now r w1))))"
proof -
  note latest = honest_after [OF report_current_honest ok a TrueI, of run i]
  have told: "advances (we_repository W) w (snd (reports (tr_delivery r) w1)) \<and>
    (\<forall>x. fst (reports (tr_delivery r) w1) = Inr x \<longrightarrow> truthful run i x (wo_vault (snd (reports (tr_delivery r) w1))))"
    by (rule honest_after [OF reports_honest ok a r])
  show ?thesis
  proof (cases "valid_attempt_receipt r \<and> tr_appended r \<and> attempt_confirmed r run i q a now")
    case False
    with latest told show ?thesis by (auto simp: deliver_attempted_def split: option.splits)
  next
    case True
    then have d: "dv_run_id (tr_delivery r) = run" "dv_delivery_id (tr_delivery r) = i"
      by (simp_all add: attempt_confirmed_def Let_def)
    show ?thesis
    proof (cases "tr_envelope r")
      case None
      with told True show ?thesis by (simp add: deliver_attempted_def)
    next
      case (Some raw)
      let ?text = "text_digest (en_hash (we_repository W)) (ae_rendered_text raw) = ae_rendered_text_digest raw"
      note marked = honest_after [OF mark_unknown_honest [OF d, where now = now] ok a TrueI]
      show ?thesis
      proof (cases "if ?text then envelope_of raw m (dv_updated_at (tr_delivery r)) else None")
        case None
        with latest told marked True Some show ?thesis by (simp add: deliver_attempted_def split: if_splits)
      next
        case (Some e)
        then have t: "?text" and e: "envelope_of raw m (dv_updated_at (tr_delivery r)) = Some e" by (simp_all split: if_splits)
        from True have v: "valid_attempt_receipt r" "attempt_confirmed r run i q a now" by blast+
        note b = envelope_backed [OF r v(1) \<open>tr_envelope r = Some raw\<close> v(2) t e]
        have "\<not> opened (wo_vault w) (envelope_key e)" using new [OF \<open>tr_envelope r = Some raw\<close>] b(2) by simp
        from hand_over_from [OF ok a h this b(1) d, where now = now] latest True t e \<open>tr_envelope r = Some raw\<close>
        show ?thesis by (simp add: deliver_attempted_def)
      qed
    qed
  qed
qed

lemma attempt_failed_honest: "honest W (\<lambda>_. True)
    (if e = Cancelled then follow (unknown_persisted_attempt W run i c a now) (\<lambda>_. raises Cancelled)
     else if revision_conflict e then report_current W run i else raises e)
    (\<lambda>r w. truthful run i r (wo_vault w))"
  by (intro worker.triple_cases worker.triple_follow [OF unknown_persisted_honest] report_current_honest)
    (simp_all add: worker.triple_raises)

lemma begin_and_deliver_honest:
  "honest W (\<lambda>_. True) (attempt (await_repository W (begin_attempt_op W run i n c a now))
      (\<lambda>e. if e = Cancelled then follow (unknown_persisted_attempt W run i c a now) (\<lambda>_. raises Cancelled)
           else if revision_conflict e then report_current W run i else raises e)
      (deliver_attempted W run i q m a now))
    (\<lambda>r w. truthful run i r (wo_vault w))" (is "honest W _ (attempt ?begin ?h ?k) _")
  unfolding worker.triple_def
proof (intro allI impI)
  fix w assume ok: "sound_world (we_repository W) w"
  obtain x w1 where x: "?begin w = (x, w1)" by (cases "?begin w")
  have a: "advances (we_repository W) w w1"
    using begin_honest [of W "\<lambda>_. True", unfolded worker.triple_def] ok x by (metis snd_conv)
  show "advances (we_repository W) w (snd (attempt ?begin ?h ?k w)) \<and>
    (\<forall>r. fst (attempt ?begin ?h ?k w) = Inr r \<longrightarrow> truthful run i r (wo_vault (snd (attempt ?begin ?h ?k w))))"
  proof (cases x)
    case (Inl e)
    with x honest_after [OF attempt_failed_honest ok a TrueI, of e run i c a now] show ?thesis
      by (simp add: attempt_def)
  next
    case (Inr r)
    have "wo_handed w1 = wo_handed w" using await_handed [of W _ w] x by (metis snd_conv)
    from deliver_attempted_from [OF ok a this attempt_awaited [OF ok x [unfolded Inr]]] x Inr show ?thesis
      by (simp add: attempt_def)
  qed
qed

lemma deliver_claimed_honest:
  "honest W (\<lambda>w. about run i d (wo_vault w)) (deliver_claimed W run i m now d) (\<lambda>r w. truthful run i r (wo_vault w))"
proof (cases "dv_claim_id d = None \<or> dv_state d \<noteq> Delivery_CLAIMED")
  case True
  then show ?thesis by (auto simp: deliver_claimed_def reports_honest split: option.splits)
next
  case False
  then obtain c where c: "dv_claim_id d = Some c" "dv_state d = Delivery_CLAIMED" by auto
  have "honest W (\<lambda>_. True) (deliver_claimed W run i m now d) (\<lambda>r w. truthful run i r (wo_vault w))"
    unfolding deliver_claimed_def c option.case begin_attempt_op_def [symmetric]
    by (auto intro!: worker.triple_follow [OF worker_new_id_honest] intro: worker.triple_weaken [OF begin_and_deliver_honest])
  then show ?thesis by (rule worker.triple_weaken) simp_all
qed

lemma claim_current_honest:
  "honest W (\<lambda>_. True) (claim_current W run i m now d) (\<lambda>r w. truthful run i r (wo_vault w))"
  unfolding claim_current_def
proof (rule worker.triple_follow [OF worker_new_id_honest])
  fix claim
  let ?cmd = "\<lparr>cl_run_id = run, cl_delivery_id = i, cl_expected_revision = dv_revision d, cl_claim_id = claim, cl_updated_at = now\<rparr>"
  have "honest W (\<lambda>_. True) (attempt (await_repository W (\<lambda>v. claim_delivery (we_repository W) v ?cmd))
       (\<lambda>e. if revision_conflict e then report_current W run i else raises e)
       (\<lambda>receipt. if \<not> claim_confirmed receipt run i d claim now then report_current W run i
          else deliver_claimed W run i m now (tr_delivery receipt))) (\<lambda>r w. truthful run i r (wo_vault w))"
  proof (rule worker.triple_attempt [OF await_honest [where P = "\<lambda>r. about run i (tr_delivery r)"]])
    fix v x v' assume "vault_ok (we_repository W) v" "claim_delivery (we_repository W) v ?cmd = (Inr x, v')"
    then show "about run i (tr_delivery x) v'" using delivery_operations_stored(1) by fastforce
  next
    fix x show "honest W (\<lambda>w. True \<and> about run i (tr_delivery x) (wo_vault w))
      (if \<not> claim_confirmed x run i d claim now then report_current W run i
       else deliver_claimed W run i m now (tr_delivery x)) (\<lambda>r w. truthful run i r (wo_vault w))"
      by (auto intro: worker.triple_weaken [OF report_current_honest] deliver_claimed_honest)
  qed (auto intro: delivery_operation_keeps report_current_honest worker.triple_raises)
  then show "honest W (\<lambda>w. True \<and> uuid4 claim) (attempt (await_repository W (\<lambda>v. claim_delivery (we_repository W) v ?cmd))
       (\<lambda>e. if revision_conflict e then report_current W run i else raises e)
       (\<lambda>receipt. if \<not> claim_confirmed receipt run i d claim now then report_current W run i
          else deliver_claimed W run i m now (tr_delivery receipt))) (\<lambda>r w. truthful run i r (wo_vault w))"
    by (rule worker.triple_weaken) simp_all
qed simp

section \<open>The operations\<close>

lemma deliver_current_honest:
  "honest W (\<lambda>w. about run i d (wo_vault w)) (attempt (choose_mapping W d)
      (\<lambda>e. case e of Refused reason \<Rightarrow> reject_refused W d reason now | _ \<Rightarrow> raises e)
      (\<lambda>m. if dv_state d \<in> {Delivery_PENDING, Delivery_UNKNOWN} then claim_current W run i m now d
           else deliver_claimed W run i m now d))
    (\<lambda>r w. truthful run i r (wo_vault w))" if "dv_run_id d = run" "dv_delivery_id d = i"
proof (rule worker.triple_attempt [OF choose_mapping_honest])
  fix e show "honest W (\<lambda>w. about run i d (wo_vault w))
      (case e of Refused reason \<Rightarrow> reject_refused W d reason now | _ \<Rightarrow> raises e) (\<lambda>r w. truthful run i r (wo_vault w))"
    using that by (auto intro: reject_refused_honest worker.triple_raises split: worker_fault.splits)
next
  fix m
  have c: "honest W (\<lambda>w. about run i d (wo_vault w) \<and> True) (claim_current W run i m now d) (\<lambda>r w. truthful run i r (wo_vault w))"
    by (rule worker.triple_weaken [OF claim_current_honest]) simp_all
  show "honest W (\<lambda>w. about run i d (wo_vault w) \<and> True)
      (if dv_state d \<in> {Delivery_PENDING, Delivery_UNKNOWN} then claim_current W run i m now d
       else deliver_claimed W run i m now d) (\<lambda>r w. truthful run i r (wo_vault w))"
    by (rule worker.triple_cases [OF c]) (simp add: deliver_claimed_honest)
qed simp

lemma deliver_honest: "honest W (\<lambda>_. True) (deliver W run i now) (\<lambda>r w. truthful run i r (wo_vault w))"
proof (cases "uuid4 run \<and> uuid4 i")
  case True
  have "honest W (\<lambda>w. True \<and> about run i d (wo_vault w) \<and> valid_delivery_record d)
    (if dv_run_id d \<noteq> run then raises DeliveryRuntimeError
      else if dv_state d \<in> {Delivery_DELIVERED, Delivery_FAILED, Delivery_REJECTED} then reports d
      else if dv_state d = Delivery_ATTEMPTING then of_result (from_delivery d (Some Reason_DELIVERY_UNKNOWN))
      else if dv_state d = Delivery_UNKNOWN \<and> \<not> dv_adapter_deduplicates d then reports d
      else attempt (choose_mapping W d)
        (\<lambda>e. case e of Refused reason \<Rightarrow> reject_refused W d reason now | _ \<Rightarrow> raises e)
        (\<lambda>m. if dv_state d \<in> {Delivery_PENDING, Delivery_UNKNOWN} then claim_current W run i m now d
             else deliver_claimed W run i m now d)) (\<lambda>r w. truthful run i r (wo_vault w))" for d
  proof (cases "dv_delivery_id d = i")
    case True
    show ?thesis
      by (intro worker.triple_cases worker.triple_raises worker.triple_weaken [OF reports_honest]
          worker.triple_weaken [OF of_delivery_honest] worker.triple_weaken [OF deliver_current_honest])
        (use True in simp_all)
  next
    case False
    then show ?thesis by (simp add: worker.triple_def about_def)
  qed
  from worker.triple_follow [OF read_current_honest _ this] True show ?thesis by (simp add: deliver_def)
qed (simp add: deliver_def worker.triple_raises)

lemma lasting_truthful [simp]: "worker.lasting env (\<lambda>w. truthful run i r (wo_vault w))"
  by (auto simp: truthful_def worker.lasting_def advances_def sound_world_def intro: about_extends)

abbreviation all_truthful :: "uuid \<Rightarrow> delivery_record list \<Rightarrow> worker_result list \<Rightarrow> world \<Rightarrow> bool" where
  "all_truthful run ds rs w \<equiv> list_all2 (\<lambda>d r. truthful run (dv_delivery_id d) r (wo_vault w)) ds rs"

lemma deliver_all_honest: "honest W (\<lambda>_. True) (deliver_all W run now ds) (all_truthful run ds)"
proof (induction ds)
  case (Cons d ds)
  have "honest W (\<lambda>w. True \<and> truthful run (dv_delivery_id d) r (wo_vault w))
      (follow (deliver_all W run now ds) (\<lambda>rs. returns (r # rs))) (all_truthful run (d # ds))" for r
  proof (rule worker.triple_follow)
    show "honest W (\<lambda>w. True \<and> truthful run (dv_delivery_id d) r (wo_vault w)) (deliver_all W run now ds) (all_truthful run ds)"
      by (rule worker.triple_weaken [OF Cons.IH]) simp_all
  qed (auto intro: worker.triple_returns)
  then show ?case by (simp add: worker.triple_follow [OF deliver_honest])
qed (simp add: worker.triple_returns)

text \<open>The deliveries a recovery reports and the worker does not take up again.\<close>

lemma lost_truthful:
  assumes "map_result (\<lambda>d. from_delivery d None) ds = Inr rs" and "\<forall>d\<in>set ds. about run (dv_delivery_id d) d v"
  shows "list_all2 (\<lambda>d r. truthful run (dv_delivery_id d) r v) ds rs"
  using assms
  by (induction ds arbitrary: rs) (auto simp: bind_result_Inr truthful_def dest: from_delivery_Inr)

lemma recover_honest: "honest W (\<lambda>_. True) (recover W run t)
  (\<lambda>rs w. list_all (\<lambda>r. truthful run (dv_delivery_id (wr_delivery r)) r (wo_vault w)) rs)"
proof (cases "uuid4 run")
  case True
  let ?found = "\<lambda>rc v. \<forall>d\<in>set (recovered_deliveries rc). about run (dv_delivery_id d) d v"
  let ?again = "\<lambda>rc. dy_resumable_pending rc @ dy_resumable_claimed rc @ dy_retryable_unknown rc"
  let ?told = "\<lambda>rs w. list_all (\<lambda>r. truthful run (dv_delivery_id (wr_delivery r)) r (wo_vault w)) rs"
  have id: "truthful run i r v \<Longrightarrow> truthful run (dv_delivery_id (wr_delivery r)) r v" for i r v
    by (auto simp: truthful_def about_def)
  have own: "?told rs w" if "all_truthful run ds rs w" for ds rs w
    using that id by (auto simp: list_all2_conv_all_nth list_all_length)
  have lasts: "worker.lasting env (\<lambda>w. ?found rc (wo_vault w))" for env rc
    by (auto simp: worker.lasting_def advances_def sound_world_def intro: about_extends)
  have "honest W (\<lambda>_. True) (follow (await_repository W (\<lambda>v. recover_deliveries (we_repository W) v run t)) (\<lambda>rc.
      follow (deliver_all W run t (?again rc)) (\<lambda>results.
      of_result (map_sum id (\<lambda>lost. results @ lost)
        (map_result (\<lambda>d. from_delivery d None) (dy_non_retryable_unknown rc)))))) ?told"
  proof (rule worker.triple_follow [OF await_honest [where P = ?found]])
    fix v x v' assume "vault_ok (we_repository W) v" "recover_deliveries (we_repository W) v run t = (Inr x, v')"
    then show "?found x v'" using recovered_stored(1) by blast
  next
    fix rc
    show "honest W (\<lambda>w. True \<and> ?found rc (wo_vault w)) (follow (deliver_all W run t (?again rc)) (\<lambda>results.
      of_result (map_sum id (\<lambda>lost. results @ lost)
        (map_result (\<lambda>d. from_delivery d None) (dy_non_retryable_unknown rc))))) ?told"
    proof (rule worker.triple_follow)
      show "honest W (\<lambda>w. True \<and> ?found rc (wo_vault w)) (deliver_all W run t (?again rc)) (all_truthful run (?again rc))"
        by (rule worker.triple_weaken [OF deliver_all_honest]) simp_all
    next
      fix rs
      show "honest W (\<lambda>w. (True \<and> ?found rc (wo_vault w)) \<and> all_truthful run (?again rc) rs w)
        (of_result (map_sum id (\<lambda>lost. rs @ lost)
          (map_result (\<lambda>d. from_delivery d None) (dy_non_retryable_unknown rc)))) ?told"
      proof (rule worker.triple_result)
        fix w x
        assume q: "(True \<and> ?found rc (wo_vault w)) \<and> all_truthful run (?again rc) rs w"
          and x: "map_sum id (\<lambda>lost. rs @ lost) (map_result (\<lambda>d. from_delivery d None) (dy_non_retryable_unknown rc)) = Inr x"
        then obtain lost where lost: "map_result (\<lambda>d. from_delivery d None) (dy_non_retryable_unknown rc) = Inr lost" "x = rs @ lost"
          by (cases "map_result (\<lambda>d. from_delivery d None) (dy_non_retryable_unknown rc)") auto
        have "all_truthful run (dy_non_retryable_unknown rc) lost w"
          by (rule lost_truthful [OF lost(1)]) (use q in \<open>auto simp: recovered_deliveries_def\<close>)
        with q own lost(2) show "?told x w" by auto
      qed
    qed (simp add: lasts)
  qed (auto intro: recover_operation_keeps)
  with True show ?thesis by (simp add: recover_def)
qed (simp add: recover_def worker.triple_raises)

end
