(* ===== verification/Worker_Properties.thy ===== *)
theory Worker_Properties
  imports Worker_Safety
begin

text \<open>
  Properties of the delivery worker, for any number of calls of its two operations: whatever other tasks
  do between its steps, whatever the adapter and the identifier factory return and wherever the worker
  is cancelled.
\<close>

section \<open>Working\<close>

datatype (plugins only: code size) worker_call =
    Call_deliver uuid uuid timestamp
  | Call_recover uuid timestamp

fun call_results :: "worker_env \<Rightarrow> worker_call \<Rightarrow> (uuid \<times> worker_result) list task" where
  "call_results W (Call_deliver run i now) = follow (deliver W run i now) (\<lambda>r. returns [(run, r)])"
| "call_results W (Call_recover run recovered_at) =
     follow (recover W run recovered_at) (\<lambda>rs. returns (map (Pair run) rs))"

text \<open>The results of the calls that return one; a call that raises leaves no result.\<close>

fun work :: "worker_env \<Rightarrow> worker_call list \<Rightarrow> world \<Rightarrow> (uuid \<times> worker_result) list \<times> world" where
  "work W [] w = ([], w)"
| "work W (c # cs) w =
     (case call_results W c w of (x, w') \<Rightarrow>
      case work W cs w' of (rest, w'') \<Rightarrow> (case_sum (\<lambda>_. []) id x @ rest, w''))"

definition first_world :: world where
  "first_world = \<lparr>wo_vault = empty_vault, wo_awaits = 0, wo_ids = 0, wo_declared = 0, wo_handed = []\<rparr>"

abbreviation results_hold :: "(uuid \<times> worker_result) list \<Rightarrow> world \<Rightarrow> bool" where
  "results_hold rs w \<equiv> list_all (\<lambda>(run, r). truthful run (dv_delivery_id (wr_delivery r)) r (wo_vault w)) rs"

lemma truthful_own: "truthful run i r v \<Longrightarrow> truthful run (dv_delivery_id (wr_delivery r)) r v"
  by (auto simp: truthful_def about_def)

lemma lasting_results: "worker.lasting env (results_hold rs)"
  using lasting_truthful [of env] unfolding worker.lasting_def list_all_iff by blast

lemma call_honest: "honest W (\<lambda>_. True) (call_results W c) results_hold"
proof (cases c)
  case (Call_deliver run i now)
  show ?thesis
    unfolding Call_deliver call_results.simps
    by (rule worker.triple_follow [OF deliver_honest]) (auto intro!: worker.triple_returns dest: truthful_own)
next
  case (Call_recover run t)
  show ?thesis
    unfolding Call_recover call_results.simps
    by (rule worker.triple_follow [OF recover_honest]) (auto intro!: worker.triple_returns simp: list_all_iff)
qed

lemma work_honest:
  assumes "sound_world (we_repository W) w" and "work W cs w = (rs, w')"
  shows "advances (we_repository W) w w'" and "results_hold rs w'"
proof -
  let ?env = "we_repository W"
  have "advances ?env w w' \<and> results_hold rs w'"
    using assms
  proof (induction cs arbitrary: w rs)
    case Nil
    then show ?case by (simp add: worker.moves_refl)
  next
    case (Cons c cs)
    obtain x u where x: "call_results W c w = (x, u)" by (cases "call_results W c w")
    obtain rest where rest: "work W cs u = (rest, w')" and rs: "rs = case_sum (\<lambda>_. []) id x @ rest"
      using Cons.prems(2) x by (auto split: prod.splits)
    note step = worker.tripleD [OF call_honest [of W c] Cons.prems(1) TrueI]
    have m: "advances ?env w u" and g: "sound_world ?env u" using step(1,2) x by simp_all
    note IH = Cons.IH [OF g rest]
    have "results_hold (case_sum (\<lambda>_. []) id x) u" using step(3) x by (cases x) auto
    then have "results_hold (case_sum (\<lambda>_. []) id x) w'"
      using lasting_results [of ?env] g IH unfolding worker.lasting_def by blast
    with IH rs show ?case using worker.moves_trans [OF Cons.prems(1) m] by simp
  qed
  then show "advances ?env w w'" "results_hold rs w'" by blast+
qed

lemma first_work:
  assumes "work W cs first_world = (rs, w)"
  shows "advances (we_repository W) first_world w" and "results_hold rs w" and "vault_ok (we_repository W) (wo_vault w)"
proof -
  have "sound_world (we_repository W) first_world" by (simp add: sound_world_def first_world_def vault_ok_empty)
  from work_honest [OF this assms] show "advances (we_repository W) first_world w" "results_hold rs w" .
  then show "vault_ok (we_repository W) (wo_vault w)" by (simp add: advances_def keeps_def)
qed

section \<open>What is handed over\<close>

text \<open>
  C4. Persist before the side effect: every envelope the worker hands to the adapter was, at that moment
  and ever after, the image of a stored revision in the attempting state, which carries the same claim
  and attempt token, attempt number, target, adapter and time; its payload is the text whose digest the
  delivery is bound to, framed as its mapping asks; and no two envelopes, over any number of calls,
  belong to the same attempt.
\<close>

theorem envelopes_follow_recorded_attempts:
  "case work W calls first_world of (results, w) \<Rightarrow>
     list_all (\<lambda>(e, v). backed (we_repository W) v e \<and> backed (we_repository W) (wo_vault w) e) (wo_handed w) \<and>
     distinct (map (envelope_key \<circ> fst) (wo_handed w))"
proof -
  obtain rs w where w: "work W calls first_world = (rs, w)" by (cases "work W calls first_world")
  from first_work(1) [OF w] obtain es where "wo_handed w = es" "distinct (map (envelope_key \<circ> fst) es)"
    "\<forall>x\<in>set es. backed (we_repository W) (snd x) (fst x) \<and> backed (we_repository W) (wo_vault w) (fst x)"
    unfolding advances_def first_world_def by auto
  with w show ?thesis by (simp add: list_all_iff case_prod_beta)
qed



section \<open>What is reported\<close>

text \<open>
  The worker does not overstate: every result it returns carries a delivery revision that the ledger
  holds, is \<open>delivered\<close> exactly when that revision is, is \<open>guarded\<close> exactly when it was moreover meant for
  replanning before the action through an adapter that supports this, and gives the reason on record.
\<close>

theorem worker_results_are_on_record:
  "case work W calls first_world of (results, w) \<Rightarrow>
     list_all (\<lambda>(run, r). stored_revision run (wr_delivery r) (wo_vault w) \<and> valid_delivery_record (wr_delivery r) \<and>
       wr_delivered r = (dv_state (wr_delivery r) = Delivery_DELIVERED) \<and>
       wr_guarded r = (dv_state (wr_delivery r) = Delivery_DELIVERED \<and>
         dv_target (wr_delivery r) = Target_PRE_ACTION_REPLAN \<and> dv_adapter_supports_pre_action (wr_delivery r)) \<and>
       (wr_reason_code r = Reason_DELIVERY_SUCCEEDED) = wr_delivered r \<and>
       dv_reason_code (wr_delivery r) \<in> {None, Some (wr_reason_code r)}) results"
proof -
  obtain rs w where w: "work W calls first_world = (rs, w)" by (cases "work W calls first_world")
  from first_work(2) [OF w] w show ?thesis
    by (auto simp: list_all_iff truthful_def about_def valid_worker_result_def Let_def)
qed

end
