(* ===== verification/Framing.thy ===== *)
theory Framing
  imports Adapters
begin

text \<open>
  The frame around evidence that goes into a user task: what the renderer checks of the text is exactly
  what the envelope checks of the frame.
\<close>

section \<open>Counting markers\<close>

text \<open>A line break is in no marker, so markers are counted line by line.\<close>

lemma prefix_line:
  assumes "n \<notin> set w"
  shows "prefix w (s @ n # t) \<longleftrightarrow> prefix w s"
proof
  assume "prefix w (s @ n # t)"
  then show "prefix w s"
    unfolding prefix_append by (auto simp: prefix_Cons) (use assms in \<open>auto simp: prefix_Cons\<close>)
qed (simp add: prefix_def, metis append.assoc)

lemma occurrences_lines:
  assumes "n \<notin> set w" and "w \<noteq> []"
  shows "occurrences w (s @ n # t) = occurrences w s + occurrences w t"
  using assms
proof (induction w s rule: occurrences.induct)
  case (1 w)
  then show ?case by (cases w) auto
next
  case (2 w c s)
  have "prefix w (c # s) \<Longrightarrow> drop (length w) (c # s @ n # t) = drop (length w) (c # s) @ n # t"
    using drop_append [of "length w" "c # s" "n # t"] prefix_length_le [of w "c # s"] by simp
  with 2 prefix_line [of n w "c # s" t] show ?case by simp
qed

lemma no_occurrence: "w \<noteq> [] \<Longrightarrow> occurrences w s = 0 \<longleftrightarrow> \<not> sublist w s"
  by (induction w s rule: occurrences.induct) (auto simp: sublist_Cons_right)

lemma marker_lines: "newline \<notin> set untrusted_block_begin" "untrusted_block_begin \<noteq> []"
  "newline \<notin> set untrusted_block_end" "untrusted_block_end \<noteq> []"
  by (simp_all add: untrusted_block_begin_def untrusted_block_end_def newline_def)

lemma marker_counts:
  "occurrences untrusted_block_begin untrusted_block_begin = 1" "occurrences untrusted_block_begin untrusted_block_end = 0"
  "occurrences untrusted_block_begin ''authority=none'' = 0" "occurrences untrusted_block_begin ''instructions=false'' = 0"
  "occurrences untrusted_block_end untrusted_block_begin = 0" "occurrences untrusted_block_end untrusted_block_end = 1"
  "occurrences untrusted_block_end ''authority=none'' = 0" "occurrences untrusted_block_end ''instructions=false'' = 0"
  by code_simp+

lemma marker_lines_counted:
  "occurrences w (s @ [newline] @ t) = occurrences w s + occurrences w t" if "newline \<notin> set w" and "w \<noteq> []"
  using occurrences_lines [OF that, of s t] by simp

definition framed :: "string \<Rightarrow> string" where
  "framed s = block_prefix @ s @ block_suffix"

lemma framed_counts:
  "occurrences untrusted_block_begin (framed s) = 1 + occurrences untrusted_block_begin s"
  "occurrences untrusted_block_end (framed s) = 1 + occurrences untrusted_block_end s"
  unfolding framed_def block_prefix_def block_suffix_def append.assoc
  by (simp_all only: marker_lines_counted [OF marker_lines(1,2)] marker_lines_counted [OF marker_lines(3,4)] marker_counts)

lemma framed_block: "is_fixed_block (framed s) \<longleftrightarrow> \<not> sublist untrusted_block_begin s \<and> \<not> sublist untrusted_block_end s"
proof -
  have "prefix block_prefix (framed s)" by (simp add: framed_def)
  moreover have "suffix block_suffix (framed s)" by (simp add: framed_def suffix_def)
  ultimately show ?thesis
    using no_occurrence [OF marker_lines(2), of s] no_occurrence [OF marker_lines(4), of s]
    by (auto simp: is_fixed_block_def framed_counts)
qed

text \<open>
  Evidence cannot leave its frame: the renderer puts a text of at most 4096 bytes between the fixed
  lines of the untrusted block, and does so exactly when the result passes the check of the envelope,
  which counts one opening and one closing marker in the whole block; it refuses every other text.
\<close>

theorem frames_are_fixed_blocks:
  "render_untrusted_user_block (Some s) =
    (if s \<noteq> [] \<and> length s \<le> 4096 \<and> is_fixed_block (framed s) then Inr (framed s)
     else Inl Reason_UNSUPPORTED_DELIVERY_CHANNEL)"
  by (auto simp: render_untrusted_user_block_def framed_block) (simp_all add: framed_def block_prefix_def block_suffix_def)

end
