(* ===== verification/Worker_Progress.thy ===== *)
theory Worker_Progress
  imports Delivery_Progress Worker_Properties Framing
begin

text \<open>
  What the worker achieves when nothing interferes: a pending delivery is claimed, attempted, handed
  over once and recorded as delivered.
\<close>

section \<open>A quiet world\<close>




lemma follow_Inr: "t w = (Inr x, w') \<Longrightarrow> follow t k w = k x w'"
  by (simp add: follow_def attempt_def)

lemma attempt_Inr: "t w = (Inr x, w') \<Longrightarrow> Delivery_Worker.attempt t h k w = k x w'"
  by (simp add: attempt_def)


section \<open>The envelope\<close>



section \<open>From pending to delivered\<close>








end
