(* ===== verification/Sample_Delivery.thy ===== *)
theory Sample_Delivery
  imports Worker_Progress Sample_Repository
begin

text \<open>
  A run with a pending delivery, and a worker and an adapter for it: the sample repository after the
  commit of its cycle.
\<close>

section \<open>The repository after the commit\<close>






section \<open>Its text\<close>



section \<open>A worker and an adapter\<close>

definition sample_mapping :: injection_mapping where
  "sample_mapping = \<lparr>im_channel = Channel_PROVIDER_DATA, im_role = Delivered_DATA, im_provider_channel = Some ''context''\<rparr>"

definition sample_capabilities :: adapter_capabilities where
  "sample_capabilities = \<lparr>ac_schema_version = ''1.0'', ac_adapter_id = ''host'', ac_pre_action_interception = False,
     ac_deduplicates_delivery_id = False, ac_deduplication_guarantee = Dedup_AT_MOST_ONCE_ATTEMPT,
     ac_injection_mappings = [sample_mapping]\<rparr>"

definition sample_answer :: "delivery_envelope \<Rightarrow> adapter_receipt" where
  "sample_answer e = \<lparr>ar_schema_version = ''1.0'', ar_delivery_id = de_delivery_id e, ar_attempt_id = de_attempt_id e,
     ar_attempt_number = de_attempt_number e, ar_adapter_id = de_adapter_id e,
     ar_target_request_id = de_target_request_id e, ar_delivered_at = de_created_at e, ar_provider_receipt_id = ''ok''\<rparr>"

definition sample_worker :: worker_env where
  "sample_worker = \<lparr>we_repository = sample_env, we_others = \<lambda>_. [], we_interrupted = \<lambda>_. Uninterrupted,
     we_ids = \<lambda>n. Some (sample_uuid (n + 9)), we_capabilities = \<lambda>_. Inr (Some sample_capabilities),
     we_answers = \<lambda>_ e. Answered (Some (sample_answer e))\<rparr>"

lemma sample_worker_sel [simp]: "we_repository sample_worker = sample_env" "we_ids sample_worker n = Some (sample_uuid (n + 9))"
  by (simp_all add: sample_worker_def)







end
