(* ===== verification/Batching.thy ===== *)
theory Batching
  imports Repository_Append Rendering "HOL-Library.Product_Lexorder"
begin

text \<open>
  The deterministic batcher (\<open>runtime/batching.py\<close>), its data: the configuration, the request with its
  slice of unprocessed events, the payload that represents every event of the slice verbatim or inside
  an aggregate, and the attested manifest. The planner that grows the verbatim part is in
  \<open>Batch_Planner\<close>.

  \<open>batch_env\<close> holds what stands outside this module: the hash, the spelling of floats, and pydantic's
  JSON dump of the two record types the payload embeds.
\<close>

datatype (plugins only: code size) batch_error = BatchInputError | BatchIntegrityError

datatype (plugins only: code size) batch_status = Batch_READY | Batch_MANDATORY_INPUT_OVERFLOW

datatype (plugins only: code size) batch_memory_role = Role_TASK_REQUIREMENT | Role_UNRESOLVED_STATE

datatype (plugins only: code size) batch_priority_kind =
    Priority_CONTROLLER_ERROR
  | Priority_ACTION_PROPOSAL
  | Priority_TOOL_ERROR
  | Priority_TEST_FAILURE
  | Priority_CONFLICT

fun memory_role_value :: "batch_memory_role \<Rightarrow> string" where
  "memory_role_value Role_TASK_REQUIREMENT = ''task_requirement''"
| "memory_role_value Role_UNRESOLVED_STATE = ''unresolved_state''"

fun priority_value :: "batch_priority_kind \<Rightarrow> string" where
  "priority_value Priority_CONTROLLER_ERROR = ''controller_error''"
| "priority_value Priority_ACTION_PROPOSAL = ''action_proposal''"
| "priority_value Priority_TOOL_ERROR = ''tool_error''"
| "priority_value Priority_TEST_FAILURE = ''test_failure''"
| "priority_value Priority_CONFLICT = ''conflict''"

definition priority_kinds :: "batch_priority_kind list" where
  "priority_kinds = [Priority_CONTROLLER_ERROR, Priority_ACTION_PROPOSAL, Priority_TOOL_ERROR,
     Priority_TEST_FAILURE, Priority_CONFLICT]"

fun phase_value :: "event_phase \<Rightarrow> string" where
  "phase_value Phase_INITIALIZATION = ''initialization''"
| "phase_value Phase_PRE_ACTION = ''pre_action''"
| "phase_value Phase_ACTION_EXECUTION = ''action_execution''"
| "phase_value Phase_POST_ACTION = ''post_action''"
| "phase_value Phase_TERMINAL = ''terminal''"
| "phase_value Phase_INTERNAL = ''internal''"

record batch_env =
  be_hash :: hash_fun
  be_float :: float_text
  be_dump_event :: "trace_event \<Rightarrow> json"
  be_dump_memory :: "memory_record \<Rightarrow> json"

section \<open>Configuration and request\<close>

record batch_config =
  bf_max_utf8_bytes :: int
  bf_max_approximate_tokens :: int
  bf_recent_event_count :: int
  bf_max_controller_errors :: int
  bf_max_action_proposals :: int
  bf_max_tool_errors :: int
  bf_max_test_failures :: int
  bf_max_conflicts :: int

definition valid_batch_config :: "batch_config \<Rightarrow> bool" where
  "valid_batch_config c \<longleftrightarrow>
     1 \<le> bf_max_utf8_bytes c \<and> bf_max_utf8_bytes c \<le> 10000000 \<and>
     1 \<le> bf_max_approximate_tokens c \<and> bf_max_approximate_tokens c \<le> 2500000 \<and>
     list_all (\<lambda>n. 0 \<le> n \<and> n \<le> 10000)
       [bf_recent_event_count c, bf_max_controller_errors c, bf_max_action_proposals c, bf_max_tool_errors c,
        bf_max_test_failures c, bf_max_conflicts c]"

definition batch_config_json :: "batch_config \<Rightarrow> json" where
  "batch_config_json c = JObj
     [(''max_utf8_bytes'', JInt (bf_max_utf8_bytes c)),
      (''max_approximate_tokens'', JInt (bf_max_approximate_tokens c)),
      (''recent_event_count'', JInt (bf_recent_event_count c)),
      (''max_controller_errors'', JInt (bf_max_controller_errors c)),
      (''max_action_proposals'', JInt (bf_max_action_proposals c)),
      (''max_tool_errors'', JInt (bf_max_tool_errors c)),
      (''max_test_failures'', JInt (bf_max_test_failures c)),
      (''max_conflicts'', JInt (bf_max_conflicts c)),
      (''batcher_version'', JStr ''deterministic-batcher-v1'')]"

record batch_request =
  bq_run_id :: uuid
  bq_memory_cursor :: int
  bq_events :: "trace_event list"
  bq_historical_event_ids :: "uuid list"
  bq_signals :: "signal list"
  bq_task_requirements :: "memory_record list"
  bq_unresolved_state :: "memory_record list"

definition max_batch_sequence :: int where
  "max_batch_sequence = 2 ^ 63 - 1"

definition order_memories :: "memory_record list \<Rightarrow> memory_record list" where
  "order_memories ms =
     sort_key (\<lambda>m. (memory_kind_value (mr_kind m), uuid_str (mr_memory_id m), mr_revision m)) ms"

text \<open>The field validators put the collections into their canonical order.\<close>

definition ordered_request :: "batch_request \<Rightarrow> batch_request" where
  "ordered_request q =
     q\<lparr>bq_events := sort_key ev_sequence (bq_events q),
       bq_historical_event_ids := sort_key uuid_str (bq_historical_event_ids q),
       bq_signals := sort_key (\<lambda>s. (sg_created_at s, uuid_str (sg_signal_id s))) (bq_signals q),
       bq_task_requirements := order_memories (bq_task_requirements q),
       bq_unresolved_state := order_memories (bq_unresolved_state q)\<rparr>"

definition valid_batch_request :: "batch_request \<Rightarrow> bool" where
  "valid_batch_request q \<longleftrightarrow>
     (let events = bq_events q; ids = map ev_event_id events; historical = bq_historical_event_ids q;
          memories = bq_task_requirements q @ bq_unresolved_state q in
      uuid4 (bq_run_id q) \<and> 0 \<le> bq_memory_cursor q \<and> bq_memory_cursor q < max_batch_sequence \<and>
      events \<noteq> [] \<and> list_all valid_trace_event events \<and> list_all uuid4 historical \<and>
      list_all valid_signal (bq_signals q) \<and> list_all valid_memory_record memories \<and>
      list_all (\<lambda>e. ev_run_id e = bq_run_id q) events \<and>
      ev_sequence (last events) \<le> max_batch_sequence \<and>
      map ev_sequence events = [bq_memory_cursor q + 1 .. bq_memory_cursor q + int (length events)] \<and>
      distinct ids \<and> distinct (map ev_source_event_id events) \<and>
      distinct historical \<and> set ids \<inter> set historical = {} \<and>
      distinct (map sg_signal_id (bq_signals q)) \<and>
      list_all (\<lambda>s. sg_run_id s = bq_run_id q \<and>
         list_all (\<lambda>i. i \<in> set ids \<or> i \<in> set historical) (sg_evidence_event_ids s) \<and>
         list_ex (\<lambda>i. i \<in> set ids) (sg_evidence_event_ids s)) (bq_signals q) \<and>
      distinct (map mr_memory_id memories) \<and>
      list_all (\<lambda>m. mr_run_id m = bq_run_id q \<and> mr_validity m = Validity_ACTIVE) memories)"

definition copy_request :: "batch_request \<Rightarrow> batch_error + batch_request" where
  "copy_request q =
     (let r = ordered_request q in if valid_batch_request r then Inr r else Inl BatchInputError)"

definition copy_config :: "batch_config \<Rightarrow> batch_error + batch_config" where
  "copy_config c = (if valid_batch_config c then Inr c else Inl BatchInputError)"

section \<open>Payload and manifest\<close>

record sequence_range =
  sr_first_sequence :: int
  sr_last_sequence :: int

definition valid_sequence_range :: "sequence_range \<Rightarrow> bool" where
  "valid_sequence_range r \<longleftrightarrow> 1 \<le> sr_first_sequence r \<and> 1 \<le> sr_last_sequence r \<and>
     \<not> sr_last_sequence r < sr_first_sequence r"

record batch_memory =
  bm_role :: batch_memory_role
  bm_record :: memory_record

record verbatim_event =
  ve_event :: trace_event
  ve_priority_kinds :: "batch_priority_kind list"

record event_aggregate =
  ag_event_type :: event_type
  ag_phase :: event_phase
  ag_trust_label :: trust_label
  ag_structural_fingerprint :: digest
  ag_priority_kinds :: "batch_priority_kind list"
  ag_count :: int
  ag_first_sequence :: int
  ag_last_sequence :: int
  ag_provenance_ranges :: "sequence_range list"
  ag_source_event_ids :: "uuid list"
  ag_source_digest :: digest

fun ranges_disjoint :: "int \<Rightarrow> sequence_range list \<Rightarrow> bool" where
  "ranges_disjoint previous_last [] = True"
| "ranges_disjoint previous_last (r # rs) =
     (\<not> sr_first_sequence r \<le> previous_last \<and> ranges_disjoint (sr_last_sequence r) rs)"

definition canonical_kinds :: "batch_priority_kind list \<Rightarrow> batch_priority_kind list" where
  "canonical_kinds ks = sort_key priority_value (remdups ks)"

definition valid_event_aggregate :: "event_aggregate \<Rightarrow> bool" where
  "valid_event_aggregate a \<longleftrightarrow>
     (let ranges = ag_provenance_ranges a in
      sha256_digest (ag_structural_fingerprint a) \<and> length (canonical_kinds (ag_priority_kinds a)) = length (ag_priority_kinds a) \<and>
      1 \<le> ag_count a \<and> 1 \<le> ag_first_sequence a \<and> 1 \<le> ag_last_sequence a \<and>
      ranges \<noteq> [] \<and> list_all valid_sequence_range ranges \<and>
      ag_source_event_ids a \<noteq> [] \<and> list_all uuid4 (ag_source_event_ids a) \<and> sha256_digest (ag_source_digest a) \<and>
      ranges_disjoint 0 ranges \<and>
      sum_list (map (\<lambda>r. sr_last_sequence r - sr_first_sequence r + 1) ranges) = ag_count a \<and>
      int (length (ag_source_event_ids a)) = ag_count a \<and>
      ag_first_sequence a = sr_first_sequence (hd ranges) \<and> ag_last_sequence a = sr_last_sequence (last ranges) \<and>
      distinct (ag_source_event_ids a))"

record batch_payload =
  bp_run_id :: uuid
  bp_memory_cursor :: int
  bp_first_event_sequence :: int
  bp_last_event_sequence :: int
  bp_configuration_digest :: digest
  bp_mandatory_memories :: "batch_memory list"
  bp_verbatim_events :: "verbatim_event list"
  bp_aggregates :: "event_aggregate list"
  bp_represented_event_count :: int

definition represented_sequences :: "batch_payload \<Rightarrow> int list" where
  "represented_sequences p =
     map (ev_sequence \<circ> ve_event) (bp_verbatim_events p) @
     concat (map (\<lambda>a. concat (map (\<lambda>r. [sr_first_sequence r .. sr_last_sequence r]) (ag_provenance_ranges a)))
       (bp_aggregates p))"

definition represented_ids :: "batch_payload \<Rightarrow> uuid list" where
  "represented_ids p =
     map (ev_event_id \<circ> ve_event) (bp_verbatim_events p) @ concat (map ag_source_event_ids (bp_aggregates p))"

definition valid_batch_payload :: "batch_payload \<Rightarrow> bool" where
  "valid_batch_payload p \<longleftrightarrow>
     (let represented = represented_sequences p; ids = represented_ids p;
          expected = [bp_first_event_sequence p .. bp_last_event_sequence p];
          records = map bm_record (bp_mandatory_memories p) in
      uuid4 (bp_run_id p) \<and> 0 \<le> bp_memory_cursor p \<and> 1 \<le> bp_first_event_sequence p \<and>
      1 \<le> bp_last_event_sequence p \<and> sha256_digest (bp_configuration_digest p) \<and>
      1 \<le> bp_represented_event_count p \<and>
      bp_first_event_sequence p = bp_memory_cursor p + 1 \<and>
      sort represented = expected \<and> distinct represented \<and>
      bp_represented_event_count p = int (length expected) \<and>
      length ids = length expected \<and> distinct ids \<and>
      list_all (\<lambda>v. ev_run_id (ve_event v) = bp_run_id p) (bp_verbatim_events p) \<and>
      distinct (map mr_memory_id records) \<and>
      list_all (\<lambda>m. mr_run_id m = bp_run_id p \<and> mr_validity m = Validity_ACTIVE) records)"

record batch_manifest =
  mn_payload :: batch_payload
  mn_payload_size :: text_size
  mn_batch_digest :: digest

record batch_result =
  bl_status :: batch_status
  bl_reason_code :: "reason_code option"
  bl_manifest :: "batch_manifest option"
  bl_required_size :: text_size

definition valid_batch_result :: "batch_result \<Rightarrow> bool" where
  "valid_batch_result r \<longleftrightarrow>
     (if bl_status r = Batch_MANDATORY_INPUT_OVERFLOW
      then bl_reason_code r = Some Reason_MANDATORY_INPUT_OVERFLOW \<and> bl_manifest r = None
      else bl_reason_code r = None \<and> bl_manifest r \<noteq> None) \<and>
     (case bl_manifest r of None \<Rightarrow> True | Some m \<Rightarrow> bl_required_size r = mn_payload_size m)"

section \<open>The JSON of a payload\<close>

definition range_json :: "sequence_range \<Rightarrow> json" where
  "range_json r = JObj
     [(''first_sequence'', JInt (sr_first_sequence r)), (''last_sequence'', JInt (sr_last_sequence r))]"

definition memory_json :: "batch_env \<Rightarrow> batch_memory \<Rightarrow> json" where
  "memory_json E m = JObj
     [(''role'', JStr (memory_role_value (bm_role m))), (''record'', be_dump_memory E (bm_record m))]"

definition kinds_json :: "batch_priority_kind list \<Rightarrow> json" where
  "kinds_json ks = JArr (map (JStr \<circ> priority_value) ks)"

definition verbatim_json :: "batch_env \<Rightarrow> verbatim_event \<Rightarrow> json" where
  "verbatim_json E v = JObj
     [(''event'', be_dump_event E (ve_event v)), (''priority_kinds'', kinds_json (ve_priority_kinds v))]"

definition aggregate_json :: "event_aggregate \<Rightarrow> json" where
  "aggregate_json a = JObj
     [(''event_type'', JStr (event_type_value (ag_event_type a))), (''phase'', JStr (phase_value (ag_phase a))),
      (''trust_label'', JStr (trust_value (ag_trust_label a))),
      (''structural_fingerprint'', JStr (ag_structural_fingerprint a)),
      (''priority_kinds'', kinds_json (ag_priority_kinds a)), (''count'', JInt (ag_count a)),
      (''first_sequence'', JInt (ag_first_sequence a)), (''last_sequence'', JInt (ag_last_sequence a)),
      (''provenance_ranges'', JArr (map range_json (ag_provenance_ranges a))),
      (''source_event_ids'', JArr (map (JStr \<circ> uuid_str) (ag_source_event_ids a))),
      (''source_digest'', JStr (ag_source_digest a))]"

definition batch_payload_json :: "batch_env \<Rightarrow> batch_payload \<Rightarrow> json" where
  "batch_payload_json E p = JObj
     [(''schema_version'', JStr ''1.0''), (''batcher_version'', JStr ''deterministic-batcher-v1''),
      (''run_id'', JStr (uuid_str (bp_run_id p))), (''memory_cursor'', JInt (bp_memory_cursor p)),
      (''first_event_sequence'', JInt (bp_first_event_sequence p)),
      (''last_event_sequence'', JInt (bp_last_event_sequence p)),
      (''configuration_digest'', JStr (bp_configuration_digest p)),
      (''mandatory_memories'', JArr (map (memory_json E) (bp_mandatory_memories p))),
      (''verbatim_events'', JArr (map (verbatim_json E) (bp_verbatim_events p))),
      (''aggregates'', JArr (map aggregate_json (bp_aggregates p))),
      (''represented_event_count'', JInt (bp_represented_event_count p))]"

text \<open>A digest of JSON without floats, which always encodes.\<close>

definition batch_digest_of :: "batch_env \<Rightarrow> string \<Rightarrow> json \<Rightarrow> digest" where
  "batch_digest_of E domain v = length_prefixed_sha256 (be_hash E) domain [json_text (be_float E) v]"

text \<open>\<open>BatchManifest._attested_payload\<close>.\<close>

definition attested_payload :: "batch_env \<Rightarrow> batch_manifest \<Rightarrow> string option" where
  "attested_payload E m =
     (case canonical_json (be_float E) (batch_payload_json E (mn_payload m)) of
        None \<Rightarrow> None
      | Some encoded \<Rightarrow>
          if mn_payload_size m \<noteq> measure_text encoded \<or>
             mn_batch_digest m \<noteq> length_prefixed_sha256 (be_hash E) ''saliencegate:batch:manifest:v1'' [encoded]
          then None else Some encoded)"

definition valid_batch_manifest :: "batch_env \<Rightarrow> batch_manifest \<Rightarrow> bool" where
  "valid_batch_manifest E m \<longleftrightarrow> sha256_digest (mn_batch_digest m) \<and> attested_payload E m \<noteq> None"

definition canonical_payload :: "batch_env \<Rightarrow> batch_manifest \<Rightarrow> batch_error + string" where
  "canonical_payload E m =
     (case attested_payload E m of None \<Rightarrow> Inl BatchIntegrityError | Some encoded \<Rightarrow> Inr encoded)"

section \<open>Aggregates\<close>

text \<open>\<open>_json_shape\<close>: the structure of a payload without its keys and values.\<close>

function json_shape :: "float_text \<Rightarrow> json \<Rightarrow> json" where
  "json_shape F (JObj kvs) = JObj
     [(''field_count'', JInt (int (length kvs))),
      (''fields'', JArr (sort_key (json_text F) (map (\<lambda>(k, v). json_shape F v) kvs))),
      (''kind'', JStr ''object'')]"
| "json_shape F (JArr vs) = JObj
     [(''item_count'', JInt (int (length vs))), (''items'', JArr (map (json_shape F) vs)), (''kind'', JStr ''array'')]"
| "json_shape F JNull = JObj [(''kind'', JStr ''null'')]"
| "json_shape F (JBool b) = JObj [(''kind'', JStr ''boolean'')]"
| "json_shape F (JInt n) = JObj [(''kind'', JStr ''integer'')]"
| "json_shape F (JFloat q) = JObj [(''kind'', JStr ''number'')]"
| "json_shape F (JStr s) = JObj [(''kind'', JStr ''string'')]"
  by pat_completeness auto
termination
proof (relation "measure (size \<circ> snd)", goal_cases)
  case (2 F kvs x k v)
  then have "(k, v) \<in> set kvs" by simp
  then have "size v < size (JObj kvs)"
    by (auto dest!: size_list_estimation' [where y = "size v" and f = "size_prod (\<lambda>_. 0) size"] simp: less_Suc_eq_le)
  then show ?case by simp
next
  case (3 F vs v)
  then have "size v < size (JArr vs)" by (auto simp: less_Suc_eq_le intro: size_list_estimation')
  then show ?case by simp
qed simp

definition event_structural_fingerprint :: "batch_env \<Rightarrow> trace_event \<Rightarrow> digest" where
  "event_structural_fingerprint E e =
     batch_digest_of E ''saliencegate:batch:event-structural-fingerprint:v1'' (JObj
       [(''event_type'', JStr (event_type_value (ev_event_type e))), (''phase'', JStr (phase_value (ev_phase e))),
        (''payload_digest_algorithm'', JStr (algorithm_value (pd_algorithm (ev_payload_digest e)))),
        (''payload_shape'', json_shape (be_float E) (ev_payload e)),
        (''trust_label'', JStr (trust_value (ev_trust_label e)))])"

fun ranges_loop :: "int \<Rightarrow> int \<Rightarrow> int list \<Rightarrow> sequence_range list" where
  "ranges_loop start stop [] = [\<lparr>sr_first_sequence = start, sr_last_sequence = stop\<rparr>]"
| "ranges_loop start stop (s # ss) =
     (if s = stop + 1 then ranges_loop start s ss
      else \<lparr>sr_first_sequence = start, sr_last_sequence = stop\<rparr> # ranges_loop s s ss)"

definition sequence_ranges :: "int list \<Rightarrow> sequence_range list" where
  "sequence_ranges sequences = (case sort sequences of [] \<Rightarrow> [] | s # ss \<Rightarrow> ranges_loop s s ss)"

definition aggregate_sources :: "trace_event list \<Rightarrow> json" where
  "aggregate_sources events = JArr (map (\<lambda>e. JObj
     [(''sequence'', JInt (ev_sequence e)), (''event_id'', JStr (uuid_str (ev_event_id e))),
      (''event_type'', JStr (event_type_value (ev_event_type e))), (''phase'', JStr (phase_value (ev_phase e))),
      (''payload_digest'', digest_json (ev_payload_digest e))]) events)"

definition aggregate_of :: "batch_env \<Rightarrow> trace_event list \<Rightarrow> batch_priority_kind list \<Rightarrow> event_aggregate" where
  "aggregate_of E events kinds =
     \<lparr>ag_event_type = ev_event_type (hd events), ag_phase = ev_phase (hd events), ag_trust_label = ev_trust_label (hd events),
      ag_structural_fingerprint = event_structural_fingerprint E (hd events), ag_priority_kinds = kinds,
      ag_count = int (length events), ag_first_sequence = ev_sequence (hd events),
      ag_last_sequence = ev_sequence (last events), ag_provenance_ranges = sequence_ranges (map ev_sequence events),
      ag_source_event_ids = map ev_event_id events,
      ag_source_digest = batch_digest_of E ''saliencegate:batch:aggregate-sources:v1'' (aggregate_sources events)\<rparr>"

definition new_aggregate :: "batch_env \<Rightarrow> trace_event list \<Rightarrow> batch_priority_kind list \<Rightarrow> batch_error + event_aggregate" where
  "new_aggregate E events kinds =
     (let a = aggregate_of E events kinds in if valid_event_aggregate a then Inr a else Inl BatchInputError)"

text \<open>The reasons an event has priority, as a dictionary from event identities to sets of kinds.\<close>

type_synonym priority_reasons = "(uuid, batch_priority_kind list) dict"

definition reasons_of :: "priority_reasons \<Rightarrow> uuid \<Rightarrow> batch_priority_kind list" where
  "reasons_of reasons i = (case dict_get reasons i of None \<Rightarrow> [] | Some ks \<Rightarrow> ks)"

definition sorted_reasons :: "priority_reasons \<Rightarrow> uuid \<Rightarrow> batch_priority_kind list" where
  "sorted_reasons reasons i = sort_key priority_value (reasons_of reasons i)"

type_synonym aggregate_key = "string \<times> string \<times> string \<times> string \<times> string list"

definition event_key :: "batch_env \<Rightarrow> priority_reasons \<Rightarrow> trace_event \<Rightarrow> aggregate_key" where
  "event_key E reasons e =
     (event_type_value (ev_event_type e), phase_value (ev_phase e), trust_value (ev_trust_label e),
      event_structural_fingerprint E e, map priority_value (sorted_reasons reasons (ev_event_id e)))"

definition aggregate_model_key :: "event_aggregate \<Rightarrow> aggregate_key" where
  "aggregate_model_key a =
     (event_type_value (ag_event_type a), phase_value (ag_phase a), trust_value (ag_trust_label a),
      ag_structural_fingerprint a, map priority_value (ag_priority_kinds a))"

fun group_into :: "('a \<Rightarrow> 'k) \<Rightarrow> 'a list \<Rightarrow> ('k, 'a list) dict \<Rightarrow> ('k, 'a list) dict" where
  "group_into key [] groups = groups"
| "group_into key (x # xs) groups =
     group_into key xs (dict_set (key x)
       ((case dict_get groups (key x) of None \<Rightarrow> [] | Some ys \<Rightarrow> ys) @ [x]) groups)"

definition kinds_of_values :: "string list \<Rightarrow> batch_error + batch_priority_kind list" where
  "kinds_of_values ts =
     map_result (\<lambda>t. case find (\<lambda>k. priority_value k = t) priority_kinds of
       None \<Rightarrow> Inl BatchInputError | Some k \<Rightarrow> Inr k) ts"

definition aggregate_group :: "batch_env \<Rightarrow> aggregate_key \<times> trace_event list \<Rightarrow> batch_error + event_aggregate" where
  "aggregate_group E g =
     (case g of ((_, _, _, _, kinds), events) \<Rightarrow>
        bind_result (kinds_of_values kinds) (new_aggregate E (sort_key ev_sequence events)))"

definition aggregates_of :: "batch_env \<Rightarrow> priority_reasons \<Rightarrow> trace_event list \<Rightarrow> batch_error + event_aggregate list" where
  "aggregates_of E reasons events =
     bind_result (map_result (aggregate_group E) (sort_key fst (group_into (event_key E reasons) events [])))
       (\<lambda>as. Inr (sort_key
          (\<lambda>a. (ag_first_sequence a, event_type_value (ag_event_type a), ag_structural_fingerprint a)) as))"

section \<open>Priorities\<close>

definition add_reason :: "batch_priority_kind \<Rightarrow> uuid \<Rightarrow> priority_reasons \<Rightarrow> priority_reasons" where
  "add_reason k i reasons = dict_set i (List.insert k (reasons_of reasons i)) reasons"

definition event_reasons :: "trace_event \<Rightarrow> priority_reasons \<Rightarrow> priority_reasons" where
  "event_reasons e reasons =
     (if ev_event_type e = Event_CONTROLLER_ERROR then add_reason Priority_CONTROLLER_ERROR (ev_event_id e) reasons
      else if ev_event_type e = Event_ACTION_PROPOSAL then add_reason Priority_ACTION_PROPOSAL (ev_event_id e) reasons
      else reasons)"

fun signal_kind :: "signal_type \<Rightarrow> batch_priority_kind option" where
  "signal_kind Signal_TOOL_ERROR = Some Priority_TOOL_ERROR"
| "signal_kind Signal_TEST_FAILURE = Some Priority_TEST_FAILURE"
| "signal_kind Signal_CONFLICT = Some Priority_CONFLICT"
| "signal_kind _ = None"

definition signal_reasons :: "signal \<Rightarrow> priority_reasons \<Rightarrow> priority_reasons" where
  "signal_reasons s reasons =
     (case signal_kind (sg_signal_type s) of
        None \<Rightarrow> reasons
      | Some k \<Rightarrow> fold (add_reason k) (sg_evidence_event_ids s) reasons)"

definition priority_reasons :: "batch_request \<Rightarrow> priority_reasons" where
  "priority_reasons q = fold signal_reasons (bq_signals q) (fold event_reasons (bq_events q) [])"

definition priority_order :: "batch_priority_kind list" where
  "priority_order = [Priority_CONTROLLER_ERROR, Priority_TEST_FAILURE, Priority_CONFLICT, Priority_TOOL_ERROR,
     Priority_ACTION_PROPOSAL]"

fun priority_limit :: "batch_config \<Rightarrow> batch_priority_kind \<Rightarrow> int" where
  "priority_limit c Priority_CONTROLLER_ERROR = bf_max_controller_errors c"
| "priority_limit c Priority_ACTION_PROPOSAL = bf_max_action_proposals c"
| "priority_limit c Priority_TOOL_ERROR = bf_max_tool_errors c"
| "priority_limit c Priority_TEST_FAILURE = bf_max_test_failures c"
| "priority_limit c Priority_CONFLICT = bf_max_conflicts c"

definition priority_rank :: "batch_priority_kind \<Rightarrow> nat" where
  "priority_rank k = length (takeWhile (\<lambda>j. j \<noteq> k) priority_order)"

definition priority_candidates :: "batch_request \<Rightarrow> uuid list \<Rightarrow> priority_reasons \<Rightarrow> trace_event list" where
  "priority_candidates q mandatory reasons =
     sort_key (\<lambda>e. (Min (set (map priority_rank (reasons_of reasons (ev_event_id e)))), - ev_sequence e,
         uuid_str (ev_event_id e)))
       (filter (\<lambda>e. ev_event_id e \<notin> set mandatory \<and> reasons_of reasons (ev_event_id e) \<noteq> []) (bq_events q))"

section \<open>The payload of a choice of verbatim events\<close>

definition mandatory_memories :: "batch_request \<Rightarrow> batch_memory list" where
  "mandatory_memories q =
     map (\<lambda>m. \<lparr>bm_role = Role_TASK_REQUIREMENT, bm_record = m\<rparr>) (bq_task_requirements q) @
     map (\<lambda>m. \<lparr>bm_role = Role_UNRESOLVED_STATE, bm_record = m\<rparr>) (bq_unresolved_state q)"

definition verbatim_of :: "priority_reasons \<Rightarrow> trace_event \<Rightarrow> verbatim_event" where
  "verbatim_of reasons e = \<lparr>ve_event = e, ve_priority_kinds = sorted_reasons reasons (ev_event_id e)\<rparr>"

definition batch_payload_of :: "batch_env \<Rightarrow> batch_request \<Rightarrow> digest \<Rightarrow> uuid list \<Rightarrow> priority_reasons \<Rightarrow>
    batch_error + batch_payload" where
  "batch_payload_of E q config_digest verbatim_ids reasons =
     (let chosen = (\<lambda>e. ev_event_id e \<in> set verbatim_ids) in
      bind_result (aggregates_of E reasons (filter (\<lambda>e. \<not> chosen e) (bq_events q))) (\<lambda>compacted.
      let p = \<lparr>bp_run_id = bq_run_id q, bp_memory_cursor = bq_memory_cursor q,
            bp_first_event_sequence = ev_sequence (hd (bq_events q)),
            bp_last_event_sequence = ev_sequence (last (bq_events q)), bp_configuration_digest = config_digest,
            bp_mandatory_memories = mandatory_memories q,
            bp_verbatim_events = map (verbatim_of reasons) (filter chosen (bq_events q)),
            bp_aggregates = compacted, bp_represented_event_count = int (length (bq_events q))\<rparr>
      in if valid_batch_payload p then Inr p else Inl BatchInputError))"

definition measure_payload :: "batch_env \<Rightarrow> batch_payload \<Rightarrow> batch_error + text_size" where
  "measure_payload E p =
     (case canonical_json (be_float E) (batch_payload_json E p) of
        None \<Rightarrow> Inl BatchInputError
      | Some encoded \<Rightarrow> Inr (measure_text encoded))"

definition size_fits :: "text_size \<Rightarrow> batch_config \<Rightarrow> bool" where
  "size_fits s c \<longleftrightarrow> int (ts_utf8_bytes s) \<le> bf_max_utf8_bytes c \<and>
     int (ts_approximate_tokens s) \<le> bf_max_approximate_tokens c"

end
