(* ===== verification/Batch_Planner.thy ===== *)
theory Batch_Planner
  imports Batching
begin

text \<open>
  The size planner of the batcher and \<open>DeterministicBatcher.build\<close> (\<open>runtime/batching.py\<close>).

  The planner follows the canonical size of the payload while events move one by one from their
  aggregate to the verbatim part, without building the payload again. The state objects of the
  aggregates are shared by their events, so they are a list of cells here and
  \<open>pn_aggregate_by_event\<close> holds the index of an event's cell.
\<close>

definition encoded_size :: "batch_env \<Rightarrow> json \<Rightarrow> int" where
  "encoded_size E v = int (length (json_text (be_float E) v))"

definition array_inner_size :: "int \<Rightarrow> int \<Rightarrow> batch_error + int" where
  "array_inner_size count item_bytes =
     (if count < 0 \<or> item_bytes < 0 \<or> (count = 0) \<noteq> (item_bytes = 0) then Inl BatchIntegrityError
      else Inr (item_bytes + max (count - 1) 0))"

definition range_fixed_bytes :: "batch_env \<Rightarrow> int" where
  "range_fixed_bytes E =
     encoded_size E (range_json \<lparr>sr_first_sequence = 1, sr_last_sequence = 1\<rparr>) - 2 * encoded_size E (JInt 1)"

section \<open>The size of one aggregate\<close>

record aggregate_removal =
  rm_sequence :: int
  rm_previous_sequence :: "int option"
  rm_next_sequence :: "int option"
  rm_count :: int
  rm_head_sequence :: "int option"
  rm_tail_sequence :: "int option"
  rm_range_count :: int
  rm_range_endpoint_bytes :: int
  rm_source_id_bytes :: int
  rm_serialized_size :: int

record size_state =
  sz_aggregate_shell :: event_aggregate
  sz_remaining_sequences :: "int set"
  sz_previous_sequences :: "int \<rightharpoonup> int option"
  sz_next_sequences :: "int \<rightharpoonup> int option"
  sz_event_sequences :: "uuid \<rightharpoonup> int"
  sz_source_id_sizes :: "uuid \<rightharpoonup> int"
  sz_count :: int
  sz_head_sequence :: "int option"
  sz_tail_sequence :: "int option"
  sz_range_count :: int
  sz_range_endpoint_bytes :: int
  sz_source_id_bytes :: int
  sz_current_size :: int

definition serialized_size :: "batch_env \<Rightarrow> event_aggregate \<Rightarrow> int \<Rightarrow> int option \<Rightarrow> int option \<Rightarrow> int \<Rightarrow> int \<Rightarrow> int \<Rightarrow>
    batch_error + int" where
  "serialized_size E shell n head_sequence tail_sequence range_count range_endpoint_bytes source_id_bytes =
     (if n = 0 then Inr 0
      else case (head_sequence, tail_sequence) of
        (Some h, Some t) \<Rightarrow>
          if range_count < 1 then Inl BatchIntegrityError
          else bind_result (array_inner_size range_count (range_count * range_fixed_bytes E + range_endpoint_bytes)) (\<lambda>ranges.
            bind_result (array_inner_size n source_id_bytes) (\<lambda>ids.
            Inr (encoded_size E (aggregate_json
              (shell\<lparr>ag_count := n, ag_first_sequence := h, ag_last_sequence := t\<rparr>)) + ranges + ids)))
      | _ \<Rightarrow> Inl BatchIntegrityError)"

definition source_id_size :: "batch_env \<Rightarrow> trace_event \<Rightarrow> int" where
  "source_id_size E e = encoded_size E (JStr (uuid_str (ev_event_id e)))"

definition range_endpoints_size :: "batch_env \<Rightarrow> sequence_range list \<Rightarrow> int" where
  "range_endpoints_size E rs =
     sum_list (map (\<lambda>r. encoded_size E (JInt (sr_first_sequence r)) + encoded_size E (JInt (sr_last_sequence r))) rs)"

definition initial_size_state :: "batch_env \<Rightarrow> event_aggregate \<Rightarrow> trace_event list \<Rightarrow> size_state" where
  "initial_size_state E a ordered =
     (let sequences = map ev_sequence ordered in
      \<lparr>sz_aggregate_shell = a\<lparr>ag_provenance_ranges := [], ag_source_event_ids := []\<rparr>,
       sz_remaining_sequences = set sequences,
       sz_previous_sequences = map_of (zip sequences (None # map Some sequences)),
       sz_next_sequences = map_of (zip sequences (map Some (tl sequences) @ [None])),
       sz_event_sequences = map_of (map (\<lambda>e. (ev_event_id e, ev_sequence e)) ordered),
       sz_source_id_sizes = map_of (map (\<lambda>e. (ev_event_id e, source_id_size E e)) ordered),
       sz_count = int (length ordered), sz_head_sequence = Some (hd sequences), sz_tail_sequence = Some (last sequences),
       sz_range_count = int (length (ag_provenance_ranges a)),
       sz_range_endpoint_bytes = range_endpoints_size E (ag_provenance_ranges a),
       sz_source_id_bytes = sum_list (map (source_id_size E) ordered),
       sz_current_size = 0\<rparr>)"

definition state_from_aggregate :: "batch_env \<Rightarrow> event_aggregate \<Rightarrow> trace_event list \<Rightarrow> batch_error + size_state" where
  "state_from_aggregate E a events =
     (let ordered = sort_key ev_sequence events in
      if map ev_event_id ordered \<noteq> ag_source_event_ids a then Inl BatchIntegrityError
      else let s = initial_size_state E a ordered in
        bind_result (serialized_size E (sz_aggregate_shell s) (sz_count s) (sz_head_sequence s) (sz_tail_sequence s)
            (sz_range_count s) (sz_range_endpoint_bytes s) (sz_source_id_bytes s)) (\<lambda>n.
          if n \<noteq> encoded_size E (aggregate_json a) then Inl BatchIntegrityError
          else Inr (s\<lparr>sz_current_size := n\<rparr>)))"

text \<open>The number of ranges and the bytes of their endpoints once a sequence is taken out.\<close>

definition ranges_without :: "batch_env \<Rightarrow> int set \<Rightarrow> int \<Rightarrow> int \<times> int \<Rightarrow> int \<times> int" where
  "ranges_without E remaining s counted =
     (let size = (\<lambda>n. encoded_size E (JInt n)); previous = (s - 1 \<in> remaining); following = (s + 1 \<in> remaining);
          range_count = fst counted; bytes = snd counted in
      if previous \<and> following then (range_count + 1, bytes + (size (s - 1) + size (s + 1)))
      else if previous then (range_count, bytes + (size (s - 1) - size s))
      else if following then (range_count, bytes + (size (s + 1) - size s))
      else (range_count - 1, bytes - 2 * size s))"

definition preview_removal :: "batch_env \<Rightarrow> size_state \<Rightarrow> uuid \<Rightarrow> batch_error + aggregate_removal" where
  "preview_removal E st i =
     (case sz_event_sequences st i of
        None \<Rightarrow> Inl BatchIntegrityError
      | Some s \<Rightarrow>
          (case (sz_previous_sequences st s, sz_next_sequences st s, sz_source_id_sizes st i) of
             (Some previous, Some following, Some source_size) \<Rightarrow>
               let n = sz_count st - 1;
                   head_sequence = (if n = 0 then None
                     else if Some s = sz_head_sequence st then following else sz_head_sequence st);
                   tail_sequence = (if n = 0 then None
                     else if Some s = sz_tail_sequence st then previous else sz_tail_sequence st);
                   counted = ranges_without E (sz_remaining_sequences st) s
                     (sz_range_count st, sz_range_endpoint_bytes st);
                   source_id_bytes = sz_source_id_bytes st - source_size in
               bind_result (serialized_size E (sz_aggregate_shell st) n head_sequence tail_sequence (fst counted) (snd counted)
                   source_id_bytes) (\<lambda>size.
                 Inr \<lparr>rm_sequence = s, rm_previous_sequence = previous, rm_next_sequence = following, rm_count = n,
                   rm_head_sequence = head_sequence, rm_tail_sequence = tail_sequence, rm_range_count = fst counted,
                   rm_range_endpoint_bytes = snd counted, rm_source_id_bytes = source_id_bytes,
                   rm_serialized_size = size\<rparr>)
           | _ \<Rightarrow> Inl BatchIntegrityError))"

definition apply_removal :: "size_state \<Rightarrow> uuid \<Rightarrow> aggregate_removal \<Rightarrow> batch_error + size_state" where
  "apply_removal st i r =
     (if sz_event_sequences st i \<noteq> Some (rm_sequence r) then Inl BatchIntegrityError
      else
        let nexts = (case rm_previous_sequence r of None \<Rightarrow> sz_next_sequences st
              | Some p \<Rightarrow> (sz_next_sequences st)(p \<mapsto> rm_next_sequence r));
            previouses = (case rm_next_sequence r of None \<Rightarrow> sz_previous_sequences st
              | Some n \<Rightarrow> (sz_previous_sequences st)(n \<mapsto> rm_previous_sequence r))
        in Inr (st\<lparr>sz_remaining_sequences := sz_remaining_sequences st - {rm_sequence r},
             sz_previous_sequences := previouses(rm_sequence r := None),
             sz_next_sequences := nexts(rm_sequence r := None),
             sz_event_sequences := (sz_event_sequences st)(i := None),
             sz_source_id_sizes := (sz_source_id_sizes st)(i := None),
             sz_count := rm_count r, sz_head_sequence := rm_head_sequence r, sz_tail_sequence := rm_tail_sequence r,
             sz_range_count := rm_range_count r, sz_range_endpoint_bytes := rm_range_endpoint_bytes r,
             sz_source_id_bytes := rm_source_id_bytes r, sz_current_size := rm_serialized_size r\<rparr>))"

section \<open>The size of the payload\<close>

record batch_planner =
  pn_shell_size :: int
  pn_verbatim_count :: int
  pn_verbatim_item_bytes :: int
  pn_aggregate_count :: int
  pn_aggregate_item_bytes :: int
  pn_total_size :: int
  pn_aggregate_by_event :: "uuid \<rightharpoonup> nat"
  pn_states :: "size_state list"

record promotion_preview =
  pv_event_id :: uuid
  pv_aggregate_state :: nat
  pv_aggregate_removal :: aggregate_removal
  pv_verbatim_count :: int
  pv_verbatim_item_bytes :: int
  pv_aggregate_count :: int
  pv_aggregate_item_bytes :: int
  pv_total_size :: int

definition total_of :: "int \<Rightarrow> int \<Rightarrow> int \<Rightarrow> int \<Rightarrow> int \<Rightarrow> batch_error + int" where
  "total_of shell_size verbatim_count verbatim_item_bytes aggregate_count aggregate_item_bytes =
     bind_result (array_inner_size verbatim_count verbatim_item_bytes) (\<lambda>v.
     bind_result (array_inner_size aggregate_count aggregate_item_bytes) (\<lambda>a.
     Inr (shell_size + v + a)))"

definition cells_of :: "('k, trace_event list) dict \<Rightarrow> uuid \<rightharpoonup> nat" where
  "cells_of groups = map_of (concat (map (\<lambda>(n, _, events). map (\<lambda>e. (ev_event_id e, n)) events)
     (zip [0..<length groups] groups)))"

definition planner_from_payload :: "batch_env \<Rightarrow> batch_request \<Rightarrow> batch_payload \<Rightarrow> text_size \<Rightarrow> uuid list \<Rightarrow>
    priority_reasons \<Rightarrow> batch_error + batch_planner" where
  "planner_from_payload E q p payload_size verbatim_ids reasons =
     (let groups = group_into (event_key E reasons)
            (filter (\<lambda>e. ev_event_id e \<notin> set verbatim_ids) (bq_events q)) [];
          by_key = fold (\<lambda>a. dict_set (aggregate_model_key a) a) (bp_aggregates p) [] in
      if length by_key \<noteq> length (bp_aggregates p) \<or> set (map fst groups) \<noteq> set (map fst by_key)
      then Inl BatchIntegrityError
      else bind_result (map_result (\<lambda>(key, events). state_from_aggregate E (the (dict_get by_key key)) events) groups) (\<lambda>states.
        let shell = p\<lparr>bp_aggregates := [], bp_verbatim_events := []\<rparr>;
            shell_size = encoded_size E (batch_payload_json E shell);
            verbatim_count = int (length (bp_verbatim_events p));
            verbatim_item_bytes = sum_list (map (encoded_size E \<circ> verbatim_json E) (bp_verbatim_events p));
            aggregate_item_bytes = sum_list (map sz_current_size states) in
        bind_result (total_of shell_size verbatim_count verbatim_item_bytes (int (length states)) aggregate_item_bytes) (\<lambda>total.
          if total \<noteq> int (ts_utf8_bytes payload_size) then Inl BatchIntegrityError
          else Inr \<lparr>pn_shell_size = shell_size, pn_verbatim_count = verbatim_count,
                 pn_verbatim_item_bytes = verbatim_item_bytes, pn_aggregate_count = int (length states),
                 pn_aggregate_item_bytes = aggregate_item_bytes, pn_total_size = total,
                 pn_aggregate_by_event = cells_of groups, pn_states = states\<rparr>)))"

definition planner_preview :: "batch_env \<Rightarrow> batch_planner \<Rightarrow> uuid \<Rightarrow> int \<Rightarrow> batch_error + promotion_preview" where
  "planner_preview E pn i verbatim_size =
     (case pn_aggregate_by_event pn i of
        None \<Rightarrow> Inl BatchIntegrityError
      | Some cell \<Rightarrow>
          bind_result (preview_removal E (pn_states pn ! cell) i) (\<lambda>r.
          let aggregate_count = pn_aggregate_count pn - (if rm_count r = 0 then 1 else 0);
              aggregate_item_bytes =
                pn_aggregate_item_bytes pn - sz_current_size (pn_states pn ! cell) + rm_serialized_size r;
              verbatim_count = pn_verbatim_count pn + 1;
              verbatim_item_bytes = pn_verbatim_item_bytes pn + verbatim_size in
          bind_result (total_of (pn_shell_size pn) verbatim_count verbatim_item_bytes aggregate_count aggregate_item_bytes)
            (\<lambda>total. Inr \<lparr>pv_event_id = i, pv_aggregate_state = cell, pv_aggregate_removal = r,
               pv_verbatim_count = verbatim_count, pv_verbatim_item_bytes = verbatim_item_bytes,
               pv_aggregate_count = aggregate_count, pv_aggregate_item_bytes = aggregate_item_bytes,
               pv_total_size = total\<rparr>)))"

definition planner_apply :: "batch_planner \<Rightarrow> promotion_preview \<Rightarrow> batch_error + batch_planner" where
  "planner_apply pn pv =
     (let i = pv_event_id pv; cell = pv_aggregate_state pv in
      if pn_aggregate_by_event pn i \<noteq> Some cell then Inl BatchIntegrityError
      else bind_result (apply_removal (pn_states pn ! cell) i (pv_aggregate_removal pv)) (\<lambda>st.
        Inr (pn\<lparr>pn_states := (pn_states pn)[cell := st],
           pn_aggregate_by_event := (pn_aggregate_by_event pn)(i := None),
           pn_verbatim_count := pv_verbatim_count pv, pn_verbatim_item_bytes := pv_verbatim_item_bytes pv,
           pn_aggregate_count := pv_aggregate_count pv, pn_aggregate_item_bytes := pv_aggregate_item_bytes pv,
           pn_total_size := pv_total_size pv\<rparr>)))"

section \<open>Building a batch\<close>

definition recent_events :: "batch_request \<Rightarrow> batch_config \<Rightarrow> trace_event list" where
  "recent_events q c = drop (length (bq_events q) - nat (bf_recent_event_count c)) (bq_events q)"

record promotion_state =
  ps_planner :: batch_planner
  ps_verbatim_ids :: "uuid list"
  ps_used :: "batch_priority_kind \<Rightarrow> int"

definition initial_used :: "priority_reasons \<Rightarrow> uuid list \<Rightarrow> batch_priority_kind \<Rightarrow> int" where
  "initial_used reasons verbatim_ids k =
     int (length (filter (\<lambda>i. k \<in> set (reasons_of reasons i)) verbatim_ids))"

definition byte_budget :: "batch_config \<Rightarrow> int" where
  "byte_budget c = min (bf_max_utf8_bytes c) (bf_max_approximate_tokens c * 4)"

text \<open>One pass of the loop over the candidates.\<close>

definition promote_candidate :: "batch_env \<Rightarrow> batch_config \<Rightarrow> priority_reasons \<Rightarrow> trace_event \<Rightarrow> promotion_state \<Rightarrow>
    batch_error + promotion_state" where
  "promote_candidate E c reasons e ps =
     (let i = ev_event_id e; kinds = reasons_of reasons i; pn = ps_planner ps in
      if list_ex (\<lambda>k. priority_limit c k \<le> ps_used ps k) kinds then Inr ps
      else case canonical_json (be_float E) (verbatim_json E (verbatim_of reasons e)) of
        None \<Rightarrow> Inl BatchInputError
      | Some wrapper \<Rightarrow>
          bind_result (planner_preview E pn i (int (length wrapper))) (\<lambda>pv.
          if pv_total_size pv < pn_total_size pn \<or> byte_budget c < pv_total_size pv then Inr ps
          else bind_result (planner_apply pn pv) (\<lambda>pn'.
            Inr \<lparr>ps_planner = pn', ps_verbatim_ids = ps_verbatim_ids ps @ [i],
               ps_used = (\<lambda>k. if k \<in> set kinds then ps_used ps k + 1 else ps_used ps k)\<rparr>)))"

definition overflow_result :: "text_size \<Rightarrow> batch_result" where
  "overflow_result required_size =
     \<lparr>bl_status = Batch_MANDATORY_INPUT_OVERFLOW, bl_reason_code = Some Reason_MANDATORY_INPUT_OVERFLOW,
      bl_manifest = None, bl_required_size = required_size\<rparr>"

definition ready_result :: "batch_env \<Rightarrow> batch_payload \<Rightarrow> text_size \<Rightarrow> batch_error + batch_result" where
  "ready_result E p payload_size =
     (case canonical_json (be_float E) (batch_payload_json E p) of
        None \<Rightarrow> Inl BatchInputError
      | Some encoded \<Rightarrow>
          let m = \<lparr>mn_payload = p, mn_payload_size = payload_size,
                mn_batch_digest = length_prefixed_sha256 (be_hash E) ''saliencegate:batch:manifest:v1'' [encoded]\<rparr>;
              r = \<lparr>bl_status = Batch_READY, bl_reason_code = None, bl_manifest = Some m, bl_required_size = payload_size\<rparr>
          in if \<not> valid_batch_manifest E m then Inl BatchInputError
             else if \<not> valid_batch_result r then Inl BatchInputError
             else Inr r)"

definition build_batch :: "batch_env \<Rightarrow> batch_request \<Rightarrow> batch_config \<Rightarrow> batch_error + batch_result" where
  "build_batch E request config =
     bind_result (copy_request request) (\<lambda>q.
     bind_result (copy_config config) (\<lambda>c.
     let config_digest = batch_digest_of E ''saliencegate:batch:configuration:v1'' (batch_config_json c);
         reasons = priority_reasons q;
         recent = map ev_event_id (recent_events q c) in
     bind_result (batch_payload_of E q config_digest recent reasons) (\<lambda>p.
     bind_result (measure_payload E p) (\<lambda>size.
     if \<not> size_fits size c then Inr (overflow_result size)
     else
       bind_result (planner_from_payload E q p size recent reasons) (\<lambda>pn.
       bind_result (fold_result (promote_candidate E c reasons) (priority_candidates q recent reasons)
           \<lparr>ps_planner = pn, ps_verbatim_ids = recent, ps_used = initial_used reasons recent\<rparr>) (\<lambda>ps.
       bind_result (if length (ps_verbatim_ids ps) = length recent then Inr (p, size)
           else bind_result (batch_payload_of E q config_digest (ps_verbatim_ids ps) reasons) (\<lambda>p'.
             bind_result (measure_payload E p') (\<lambda>size'. Inr (p', size')))) (\<lambda>(p', size').
       if int (ts_utf8_bytes size') \<noteq> pn_total_size (ps_planner ps) \<or> \<not> size_fits size' c
       then Inl BatchIntegrityError
       else ready_result E p' size')))))))"

end
