(* ===== verification/Batch_Sizes.thy ===== *)
theory Batch_Sizes
  imports Batch_Planner "HOL-Library.Multiset"
begin

text \<open>
  Sizes of canonical JSON, the ranges of a set of sequences and the groups of a list: the facts the size
  planner rests on.
\<close>

section \<open>The size of canonical JSON\<close>

definition inner_size :: "int \<Rightarrow> int \<Rightarrow> int" where
  "inner_size n item_bytes = item_bytes + max (n - 1) 0"

lemma length_join:
  "int (length (join sep ts)) = sum_list (map (int \<circ> length) ts) + max (int (length ts) - 1) 0 * int (length sep)"
  by (induction sep ts rule: join.induct) (auto simp: algebra_simps max_def)

lemma sum_list_sort_key: "sum_list (map f (sort_key g xs)) = sum_list (map f xs)" for f :: "'a \<Rightarrow> int"
  by (metis mset_map mset_sort sum_mset_sum_list)

lemma encoded_array:
  "encoded_size E (JArr vs) = 2 + inner_size (int (length vs)) (sum_list (map (encoded_size E) vs))"
proof -
  have "encoded_size E = (\<lambda>v. int (length (json_text (be_float E) v)))" by (rule ext) (simp add: encoded_size_def)
  then show ?thesis by (simp add: inner_size_def length_join comp_def)
qed

lemma encoded_object:
  "encoded_size E (JObj kvs) = 2 + inner_size (int (length kvs))
     (sum_list (map (\<lambda>(k, v). encoded_size E (JStr k) + 1 + encoded_size E v) kvs))"
proof -
  have "sum_list (map (\<lambda>(k, t). 1 + (int (length (json_string k)) + int (length t)))
      (sort_key fst (map (\<lambda>(k, v). (k, json_text (be_float E) v)) kvs))) =
    sum_list (map (\<lambda>(k, v). encoded_size E (JStr k) + 1 + encoded_size E v) kvs)"
    by (simp add: sum_list_sort_key comp_def split_def encoded_size_def add.assoc add.left_commute)
  then show ?thesis by (simp add: encoded_size_def inner_size_def length_join comp_def split_def)
qed

lemma inner_size_Cons [simp]: "inner_size (1 + n) (b + bs) = b + (if n = 0 then bs else 1 + inner_size n bs)" if "0 \<le> n"
  using that by (simp add: inner_size_def)

lemma encoded_positive: "0 < encoded_size E (JStr t)"
  by (simp add: encoded_size_def json_string_def)

lemma encoded_object_positive: "0 < encoded_size E (JObj kvs)"
  by (simp add: encoded_size_def)

lemma digest_encoded: "sha256_digest d \<Longrightarrow> encoded_size E (JStr d) = 66"
proof -
  have "length (json_char c) = 1" if "c \<in> set hex_chars" for c
    using that by (auto simp: hex_chars_def json_char_def)
  then have "list_all (\<lambda>c. c \<in> set hex_chars) d \<Longrightarrow> length (concat (map json_char d)) = length d"
    by (induction d) auto
  then show "sha256_digest d \<Longrightarrow> encoded_size E (JStr d) = 66"
    by (simp add: encoded_size_def json_string_def sha256_digest_def list_all_iff subset_iff)
qed

lemma array_inner_size_ok:
  "0 \<le> n \<Longrightarrow> 0 \<le> b \<Longrightarrow> (n = 0) = (b = 0) \<Longrightarrow> array_inner_size n b = Inr (inner_size n b)"
  by (simp add: array_inner_size_def inner_size_def)

lemma positive_sum:
  assumes "\<And>x. x \<in> set xs \<Longrightarrow> 0 < f x"
  shows "0 \<le> sum_list (map f xs)" and "(xs = []) = (sum_list (map f xs) = (0 :: int))"
proof -
  have both: "0 \<le> sum_list (map f xs) \<and> (xs \<noteq> [] \<longrightarrow> 0 < sum_list (map f xs))" using assms by (induction xs) force+
  show "0 \<le> sum_list (map f xs)" using both by blast
  show "(xs = []) = (sum_list (map f xs) = 0)" using both by (metis less_irrefl list.simps(8) sum_list.Nil)
qed

lemma array_of_items:
  assumes "\<And>x. x \<in> set xs \<Longrightarrow> 0 < f x"
  shows "array_inner_size (int (length xs)) (sum_list (map f xs)) = Inr (inner_size (int (length xs)) (sum_list (map f xs)))"
  using positive_sum [of xs f, OF assms] by (intro array_inner_size_ok) simp_all

section \<open>The ranges of a set of sequences\<close>

definition starts :: "int set \<Rightarrow> int set" where
  "starts S = {x \<in> S. x - 1 \<notin> S}"

definition stops_of :: "int set \<Rightarrow> int set" where
  "stops_of S = {x \<in> S. x + 1 \<notin> S}"

definition ranges_bytes :: "batch_env \<Rightarrow> int set \<Rightarrow> int" where
  "ranges_bytes E S = (\<Sum>x\<in>starts S. encoded_size E (JInt x)) + (\<Sum>x\<in>stops_of S. encoded_size E (JInt x))"

lemma finite_starts [simp]: "finite S \<Longrightarrow> finite (starts S)" "finite S \<Longrightarrow> finite (stops_of S)"
  by (simp_all add: starts_def stops_of_def)

lemma ranges_gap:
  assumes "a \<le> b" and "\<And>x. x \<in> T \<Longrightarrow> b + 1 < x"
  shows "starts ({a..b} \<union> T) = insert a (starts T)" and "stops_of ({a..b} \<union> T) = insert b (stops_of T)"
    and "a \<notin> starts T" and "b \<notin> stops_of T"
  using assms by (force simp: starts_def stops_of_def)+

lemma ranges_loop_ends:
  assumes "a \<le> b" and "sorted_wrt (<) (b # ss)"
  shows "set (map sr_first_sequence (ranges_loop a b ss)) = starts ({a..b} \<union> set ss)"
    and "set (map sr_last_sequence (ranges_loop a b ss)) = stops_of ({a..b} \<union> set ss)"
    and "distinct (map sr_first_sequence (ranges_loop a b ss))" and "distinct (map sr_last_sequence (ranges_loop a b ss))"
proof -
  have "set (map sr_first_sequence (ranges_loop a b ss)) = starts ({a..b} \<union> set ss) \<and>
    set (map sr_last_sequence (ranges_loop a b ss)) = stops_of ({a..b} \<union> set ss) \<and>
    distinct (map sr_first_sequence (ranges_loop a b ss)) \<and> distinct (map sr_last_sequence (ranges_loop a b ss))"
    using assms
  proof (induction a b ss rule: ranges_loop.induct)
    case (1 a b)
    have "starts {a..b} = {a}" "stops_of {a..b} = {b}" using 1 by (auto simp: starts_def stops_of_def)
    then show ?case by simp
  next
    case (2 a b s ss)
    show ?case
    proof (cases "s = b + 1")
      case True
      then have "{a..b} \<union> set (s # ss) = {a..s} \<union> set ss" using 2(3) by auto
      with True 2 show ?thesis by simp
    next
      case False
      let ?T = "{s..s} \<union> set ss"
      have T: "{a..b} \<union> set (s # ss) = {a..b} \<union> ?T" by auto
      have "b + 1 < x" if "x \<in> ?T" for x using False 2(4) that by fastforce
      then have gap: "starts ({a..b} \<union> ?T) = insert a (starts ?T)" "stops_of ({a..b} \<union> ?T) = insert b (stops_of ?T)"
        "a \<notin> starts ?T" "b \<notin> stops_of ?T" using ranges_gap [OF 2(3), of ?T] by blast+
      have "sorted_wrt (<) (s # ss)" using 2(4) by simp
      with 2(2) [OF False] have IH: "set (map sr_first_sequence (ranges_loop s s ss)) = starts ?T"
        "set (map sr_last_sequence (ranges_loop s s ss)) = stops_of ?T"
        "distinct (map sr_first_sequence (ranges_loop s s ss))" "distinct (map sr_last_sequence (ranges_loop s s ss))" by auto
      have parts: "map f (ranges_loop a b (s # ss)) = f \<lparr>sr_first_sequence = a, sr_last_sequence = b\<rparr> # map f (ranges_loop s s ss)"
        for f :: "sequence_range \<Rightarrow> int" using False by simp
      show ?thesis unfolding T unfolding parts gap(1,2) list.set(2) distinct.simps(2) IH(1,2) sequence_range.simps
        using IH(3,4) gap(3,4) by (intro conjI refl)
    qed
  qed
  then show "set (map sr_first_sequence (ranges_loop a b ss)) = starts ({a..b} \<union> set ss)"
    "set (map sr_last_sequence (ranges_loop a b ss)) = stops_of ({a..b} \<union> set ss)"
    "distinct (map sr_first_sequence (ranges_loop a b ss))" "distinct (map sr_last_sequence (ranges_loop a b ss))" by blast+
qed

lemma sequence_ranges_ends:
  assumes "sorted_wrt (<) (xs :: int list)"
  shows "length (sequence_ranges xs) = card (starts (set xs))"
    and "range_endpoints_size E (sequence_ranges xs) = ranges_bytes E (set xs)"
proof -
  have "length (sequence_ranges xs) = card (starts (set xs)) \<and>
    range_endpoints_size E (sequence_ranges xs) = ranges_bytes E (set xs)"
  proof (cases xs)
    case Nil
    then show ?thesis by (simp add: sequence_ranges_def starts_def stops_of_def ranges_bytes_def range_endpoints_size_def)
  next
    case (Cons s ss)
    let ?rs = "ranges_loop s s ss"
    have xs: "sequence_ranges xs = ?rs"
      using sorted_sort_id [OF strict_sorted_imp_sorted [OF assms]] Cons by (simp only: sequence_ranges_def list.case)
    note ends = ranges_loop_ends [of s s ss, OF order_refl assms [unfolded Cons]]
    have S: "{s..s} \<union> set ss = set xs" using Cons by simp
    note sets = ends(1,2) [unfolded S]
    have "sum_list (map (f \<circ> sr_first_sequence) ?rs) = sum f (starts (set xs))"
      "sum_list (map (f \<circ> sr_last_sequence) ?rs) = sum f (stops_of (set xs))" for f :: "int \<Rightarrow> int"
      using sum_list_distinct_conv_sum_set [OF ends(3), of f] sum_list_distinct_conv_sum_set [OF ends(4), of f]
      unfolding sets by simp_all
    moreover have "length ?rs = card (starts (set xs))" using distinct_card [OF ends(3)] unfolding sets by simp
    moreover note calculation(1,2) [of "\<lambda>n. encoded_size E (JInt n)"]
    ultimately show ?thesis
      unfolding xs range_endpoints_size_def ranges_bytes_def by (simp add: sum_list_addf comp_def)
  qed
  then show "length (sequence_ranges xs) = card (starts (set xs))"
    "range_endpoints_size E (sequence_ranges xs) = ranges_bytes E (set xs)" by blast+
qed

lemma ranges_loop_expand:
  "a \<le> b \<Longrightarrow> sorted_wrt (<) (b # ss) \<Longrightarrow>
     concat (map (\<lambda>r. [sr_first_sequence r .. sr_last_sequence r]) (ranges_loop a b ss)) = [a..b] @ ss"
proof (induction a b ss rule: ranges_loop.induct)
  case (2 a b s ss)
  then show ?case
    by (cases "s = b + 1") (auto simp: upto_rec2 [of a "b + 1"])
qed simp

lemma ranges_loop_valid:
  assumes "prior < a" and "0 \<le> prior" and "a \<le> b" and "sorted_wrt (<) (b # ss)"
  shows "ranges_loop a b ss \<noteq> []" and "sr_first_sequence (hd (ranges_loop a b ss)) = a"
    and "sr_last_sequence (last (ranges_loop a b ss)) = last (b # ss)"
    and "list_all valid_sequence_range (ranges_loop a b ss)" and "ranges_disjoint prior (ranges_loop a b ss)"
    and "sum_list (map (\<lambda>r. sr_last_sequence r - sr_first_sequence r + 1) (ranges_loop a b ss)) = b - a + 1 + int (length ss)"
proof -
  have "ranges_loop a b ss \<noteq> [] \<and> sr_first_sequence (hd (ranges_loop a b ss)) = a \<and>
    sr_last_sequence (last (ranges_loop a b ss)) = last (b # ss) \<and>
    list_all valid_sequence_range (ranges_loop a b ss) \<and> ranges_disjoint prior (ranges_loop a b ss) \<and>
    sum_list (map (\<lambda>r. sr_last_sequence r - sr_first_sequence r + 1) (ranges_loop a b ss)) = b - a + 1 + int (length ss)"
    using assms
  proof (induction a b ss arbitrary: prior rule: ranges_loop.induct)
    case (1 a b)
    then show ?case by (simp add: valid_sequence_range_def)
  next
    case (2 a b s ss)
    show ?case
    proof (cases "s = b + 1")
      case True
      with 2 show ?thesis by (simp add: valid_sequence_range_def)
    next
      case False
      have "b < s" "sorted_wrt (<) (s # ss)" "0 \<le> b" using 2 by auto
      with 2(2) [OF False, of b] False 2(3-5) show ?thesis by (auto simp: valid_sequence_range_def)
    qed
  qed
  then show "ranges_loop a b ss \<noteq> []" "sr_first_sequence (hd (ranges_loop a b ss)) = a"
    "sr_last_sequence (last (ranges_loop a b ss)) = last (b # ss)"
    "list_all valid_sequence_range (ranges_loop a b ss)" "ranges_disjoint prior (ranges_loop a b ss)"
    "sum_list (map (\<lambda>r. sr_last_sequence r - sr_first_sequence r + 1) (ranges_loop a b ss)) = b - a + 1 + int (length ss)"
    by blast+
qed

text \<open>Taking one sequence out of the set.\<close>

lemma ranges_without_ok:
  assumes fin: "finite S" and s: "s \<in> S"
  shows "ranges_without E S s (int (card (starts S)), ranges_bytes E S) =
    (int (card (starts (S - {s}))), ranges_bytes E (S - {s}))"
proof -
  let ?f = "\<lambda>n. encoded_size E (JInt n)"
  have starts: "starts (S - {s}) = (starts S - {s}) \<union> (if s + 1 \<in> S then {s + 1} else {})"
    using s by (auto simp: starts_def)
  have stops: "stops_of (S - {s}) = (stops_of S - {s}) \<union> (if s - 1 \<in> S then {s - 1} else {})"
    using s by (auto simp: stops_of_def)
  have outside: "s + 1 \<notin> starts S" "s - 1 \<notin> stops_of S" using s by (simp_all add: starts_def stops_of_def)
  have "s \<in> starts S \<longleftrightarrow> s - 1 \<notin> S" "s \<in> stops_of S \<longleftrightarrow> s + 1 \<notin> S" using s by (simp_all add: starts_def stops_of_def)
  moreover have "card (starts S) \<noteq> 0" if "s \<in> starts S" using that fin by auto
  ultimately show ?thesis
    using fin outside
    by (auto simp: ranges_without_def Let_def starts stops ranges_bytes_def sum.remove card_Diff_singleton_if of_nat_diff
        Suc_le_eq card_gt_0_iff sum_diff1 card_insert_if)
qed

section \<open>Groups\<close>

lemma group_into_wf: "dict_wf gs \<Longrightarrow> dict_wf (group_into key xs gs)"
  by (induction key xs gs rule: group_into.induct) simp_all

lemma group_into_get:
  "dict_get (group_into key xs gs) k =
     (if k \<in> key ` set xs then Some ((case dict_get gs k of None \<Rightarrow> [] | Some ys \<Rightarrow> ys) @ filter (\<lambda>x. key x = k) xs)
      else dict_get gs k)"
proof (induction key xs gs rule: group_into.induct)
  case (2 key x xs gs)
  have "filter (\<lambda>y. key y = key x) xs = []" if "key x \<notin> key ` set xs" using that by (metis (mono_tags, lifting) filter_False image_eqI)
  with 2 show ?case by auto
qed simp

lemma groups_of_list:
  defines "groups \<equiv> \<lambda>key xs. group_into key xs []"
  shows "distinct (map fst (groups key xs))" and "set (map fst (groups key xs)) = key ` set xs"
    and "(k, ys) \<in> set (groups key xs) \<Longrightarrow> ys = filter (\<lambda>x. key x = k) xs \<and> ys \<noteq> []"
    and "groups key xs = map (\<lambda>k. (k, filter (\<lambda>x. key x = k) xs)) (map fst (groups key xs))"
proof -
  have wf: "dict_wf (groups key xs)" unfolding groups_def by (rule group_into_wf) simp
  then show "distinct (map fst (groups key xs))" by (simp add: dict_wf_def)
  have get: "dict_get (groups key xs) k = (if k \<in> key ` set xs then Some (filter (\<lambda>x. key x = k) xs) else None)" for k
    unfolding groups_def by (simp add: group_into_get)
  have "k \<in> set (map fst (groups key xs)) \<longleftrightarrow> k \<in> key ` set xs" for k
    using get [of k] map_of_eq_None_iff [of "groups key xs" k] by (auto split: if_splits)
  then show "set (map fst (groups key xs)) = key ` set xs" by blast
  have item: "ys = filter (\<lambda>x. key x = k) xs \<and> ys \<noteq> []" if "(k, ys) \<in> set (groups key xs)" for k ys
    using that wf get [of k] by (auto simp: dict_wf_def filter_empty_conv split: if_splits)
  then show "(k, ys) \<in> set (groups key xs) \<Longrightarrow> ys = filter (\<lambda>x. key x = k) xs \<and> ys \<noteq> []" .
  show "groups key xs = map (\<lambda>k. (k, filter (\<lambda>x. key x = k) xs)) (map fst (groups key xs))"
    using item by (auto intro!: map_idI [symmetric])
qed

end
