(* ===== verification/Batch_Facts.thy ===== *)
theory Batch_Facts
  imports Batch_Sizes
begin

text \<open>
  The payload of a choice of verbatim events: it can always be built, represents every event once, and
  its canonical size is the size of its shell, of the verbatim events and of the aggregates.
\<close>

lemma json_shape_finite: "json_finite (json_shape F v)"
proof (induction F v rule: json_shape.induct)
  case (1 F kvs)
  then have "json_finite v" if "v \<in> set (map (\<lambda>(k, v). json_shape F v) kvs)" for v using that by force
  then show ?case by (simp add: json_finite_simps list_all_iff)
next
  case (2 F vs)
  then show ?case by (simp add: json_finite_simps list_all_iff)
qed (simp_all add: json_finite_simps)

lemma map_result_map: "(\<And>x. x \<in> set xs \<Longrightarrow> f x = Inr (g x)) \<Longrightarrow> map_result f xs = Inr (map g xs)"
  by (induction xs) auto

section \<open>Reasons\<close>

lemma priority_value_inj: "priority_value j = priority_value k \<Longrightarrow> j = k"
  by (cases j; cases k) simp_all

lemma reasons_of_set: "reasons_of (dict_set i ks reasons) j = (if j = i then ks else reasons_of reasons j)"
  by (simp add: reasons_of_def)

lemma add_reason_distinct: "(\<And>j. distinct (reasons_of reasons j)) \<Longrightarrow> distinct (reasons_of (add_reason k i reasons) j)"
  by (simp add: add_reason_def reasons_of_set)

lemma priority_reasons_distinct: "distinct (reasons_of (priority_reasons q) i)"
proof -
  define ok where "ok reasons = (\<forall>j. distinct (reasons_of reasons j))" for reasons :: priority_reasons
  have add: "ok (add_reason k i reasons)" if "ok reasons" for k i reasons
    using that add_reason_distinct unfolding ok_def by blast
  have ids: "ok (fold (add_reason k) is reasons)" if "ok reasons" for k "is" reasons
    using that by (induction "is" arbitrary: reasons) (simp_all add: add)
  have "ok (event_reasons e reasons)" if "ok reasons" for e reasons
    using that by (simp add: event_reasons_def add)
  then have events: "ok (fold event_reasons es reasons)" if "ok reasons" for es reasons
    using that by (induction es arbitrary: reasons) simp_all
  have "ok (signal_reasons s reasons)" if "ok reasons" for s reasons
    using that by (simp add: signal_reasons_def ids split: option.splits)
  then have signals: "ok (fold signal_reasons ss reasons)" if "ok reasons" for ss reasons
    using that by (induction ss arbitrary: reasons) simp_all
  have "ok []" by (simp add: ok_def reasons_of_def)
  then have "ok (priority_reasons q)" unfolding priority_reasons_def by (intro signals events)
  then show ?thesis by (simp add: ok_def)
qed

definition distinct_reasons :: "priority_reasons \<Rightarrow> bool" where
  "distinct_reasons reasons \<longleftrightarrow> (\<forall>i. distinct (reasons_of reasons i))"

lemma kinds_of_values_inverse: "kinds_of_values (map priority_value ks) = Inr ks"
proof -
  have "find (\<lambda>j. priority_value j = priority_value k) priority_kinds = Some k" for k
    by (cases k) (simp_all add: priority_kinds_def)
  then have "map_result (\<lambda>t. case find (\<lambda>k. priority_value k = t) priority_kinds of
      None \<Rightarrow> Inl BatchInputError | Some k \<Rightarrow> Inr k) (map priority_value ks) = Inr ks"
    by (induction ks) simp_all
  then show ?thesis by (simp add: kinds_of_values_def)
qed

section \<open>Aggregates of a slice\<close>

definition slice :: "trace_event list \<Rightarrow> bool" where
  "slice es \<longleftrightarrow> sorted_wrt (<) (map ev_sequence es) \<and> distinct (map ev_event_id es) \<and> list_all valid_trace_event es"

lemma slice_filter: "slice es \<Longrightarrow> slice (filter P es)"
  by (auto simp: slice_def sorted_wrt_map sorted_wrt_filter list_all_iff distinct_map_filter)

lemma slice_sorted: "slice es \<Longrightarrow> sort_key ev_sequence es = es"
  by (intro sort_key_id_if_sorted) (simp add: slice_def strict_sorted_imp_sorted)

lemma slice_distinct: "slice es \<Longrightarrow> distinct es" "slice es \<Longrightarrow> distinct (map ev_sequence es)"
  by (auto simp: slice_def strict_sorted_iff distinct_map)

lemma request_slice: "valid_batch_request q \<Longrightarrow> slice (bq_events q)"
  by (simp add: slice_def valid_batch_request_def Let_def sorted_wrt_upto)

lemma length_prefixed_digest: "hex_digest H \<Longrightarrow> sha256_digest (length_prefixed_sha256 H domain parts)"
  by (simp add: hex_digest_def length_prefixed_sha256_def)

lemma aggregate_valid:
  assumes "hex_digest (be_hash E)" and es: "slice es" "es \<noteq> []" and ks: "distinct ks"
  shows "new_aggregate E es ks = Inr (aggregate_of E es ks)"
proof -
  obtain e rest where cons: "es = e # rest" using es(2) by (cases es) auto
  let ?ss = "map ev_sequence es"
  have sorted: "sorted_wrt (<) (ev_sequence e # map ev_sequence rest)" using es(1) cons by (simp add: slice_def)
  have first: "1 \<le> ev_sequence e" using es(1) cons by (simp add: slice_def valid_trace_event_def)
  have "sort ?ss = ?ss" using es(1) by (intro sorted_sort_id) (simp add: slice_def strict_sorted_imp_sorted)
  then have ranges: "sequence_ranges ?ss = ranges_loop (ev_sequence e) (ev_sequence e) (map ev_sequence rest)"
    using cons by (simp only: sequence_ranges_def list.case list.map)
  have "(0 :: int) < ev_sequence e" using first by simp
  note rl = ranges_loop_valid [OF this order_refl order_refl sorted]
  have "last (ev_sequence e # map ev_sequence rest) = ev_sequence (last es)"
    using cons last_map [of es ev_sequence] by simp
  moreover from this have "1 \<le> ev_sequence (last es)"
    using es by (metis (full_types) last_in_set list_all_iff slice_def valid_trace_event_def)
  moreover have "list_all uuid4 (map ev_event_id es)" "distinct (map ev_event_id es)"
    using es(1) by (auto simp: slice_def list_all_iff valid_trace_event_def)
  ultimately show ?thesis
    using rl first ranges cons ks
    by (simp add: new_aggregate_def Let_def valid_event_aggregate_def aggregate_of_def canonical_kinds_def
        distinct_remdups_id event_structural_fingerprint_def batch_digest_of_def length_prefixed_digest [OF assms(1)])
qed

text \<open>The aggregate of the events of one group.\<close>

definition group_aggregate :: "batch_env \<Rightarrow> priority_reasons \<Rightarrow> trace_event list \<Rightarrow> event_aggregate" where
  "group_aggregate E reasons es = aggregate_of E es (sorted_reasons reasons (ev_event_id (hd es)))"

abbreviation group_at :: "batch_env \<Rightarrow> priority_reasons \<Rightarrow> trace_event list \<Rightarrow> aggregate_key \<Rightarrow> trace_event list" where
  "group_at E reasons es k \<equiv> filter (\<lambda>e. event_key E reasons e = k) es"

lemma hd_filter: "filter P xs \<noteq> [] \<Longrightarrow> P (hd (filter P xs)) \<and> hd (filter P xs) \<in> set xs"
  using list.set_sel(1) [of "filter P xs"] by auto

lemma aggregate_group_ok:
  assumes E: "hex_digest (be_hash E)" and es: "slice es" and r: "distinct_reasons reasons"
    and k: "group_at E reasons es k \<noteq> []"
  shows "aggregate_group E (k, group_at E reasons es k) = Inr (group_aggregate E reasons (group_at E reasons es k))"
    and "aggregate_model_key (group_aggregate E reasons (group_at E reasons es k)) = k"
proof -
  let ?es = "group_at E reasons es k"
  define h where "h = hd ?es"
  have key: "event_key E reasons h = k" unfolding h_def using hd_filter [OF k] by blast
  have "aggregate_group E (event_key E reasons h, es') = new_aggregate E (sort_key ev_sequence es') (sorted_reasons reasons (ev_event_id h))"
    for es' by (simp add: event_key_def aggregate_group_def kinds_of_values_inverse)
  note group = this [unfolded key]
  have "distinct (sorted_reasons reasons (ev_event_id (hd ?es)))" using r by (simp add: sorted_reasons_def distinct_reasons_def)
  then show "aggregate_group E (k, ?es) = Inr (group_aggregate E reasons ?es)"
    using aggregate_valid [OF E slice_filter [OF es] k] slice_sorted [OF slice_filter [OF es]]
    unfolding group by (simp add: group_aggregate_def h_def)
  show "aggregate_model_key (group_aggregate E reasons ?es) = k"
    unfolding aggregate_model_key_def group_aggregate_def aggregate_of_def using key by (simp add: event_key_def h_def)
qed

lemma aggregates_of_slice:
  assumes E: "hex_digest (be_hash E)" and es: "slice es" and r: "distinct_reasons reasons"
  obtains as where "aggregates_of E reasons es = Inr as"
    "mset as = image_mset (\<lambda>k. group_aggregate E reasons (group_at E reasons es k)) (mset_set (event_key E reasons ` set es))"
proof -
  let ?key = "event_key E reasons" and ?g = "\<lambda>k. group_aggregate E reasons (group_at E reasons es k)"
  let ?groups = "group_into ?key es []"
  note groups = groups_of_list [where key = ?key and xs = es]
  have "aggregate_group E x = Inr (?g (fst x))" if "x \<in> set (sort_key fst ?groups)" for x
  proof -
    obtain k ys where x: "x = (k, ys)" by fastforce
    with that groups(3) have "ys = group_at E reasons es k" "ys \<noteq> []" by auto
    then show ?thesis using aggregate_group_ok(1) [OF E es r, of k] x by simp
  qed
  then have "map_result (aggregate_group E) (sort_key fst ?groups) = Inr (map (\<lambda>x. ?g (fst x)) (sort_key fst ?groups))"
    by (rule map_result_map)
  moreover have "mset (map (\<lambda>x. ?g (fst x)) (sort_key fst ?groups)) = image_mset ?g (mset (map fst ?groups))"
    by (simp add: multiset.map_comp comp_def)
  moreover have "mset (map fst ?groups) = mset_set (?key ` set es)"
    using mset_set_set [OF groups(1)] groups(2) by simp
  ultimately show thesis
    by (intro that [of "sort_key (\<lambda>a. (ag_first_sequence a, event_type_value (ag_event_type a), ag_structural_fingerprint a))
          (map (\<lambda>x. ?g (fst x)) (sort_key fst ?groups))"]) (simp_all only: aggregates_of_def bind_result_simps mset_sort)
qed

lemma grouped_all:
  "(\<Sum>k\<in>key ` set xs. mset (filter (\<lambda>x. key x = k) xs)) = mset xs"
proof (rule multiset_eqI)
  fix x
  have "count (\<Sum>k\<in>key ` set xs. mset (filter (\<lambda>x. key x = k) xs)) x =
      (\<Sum>k\<in>key ` set xs. if key x = k then count (mset xs) x else 0)"
    by (simp add: count_sum mset_filter)
  also have "\<dots> = count (mset xs) x" by (auto simp: count_mset_0_iff)
  finally show "count (\<Sum>k\<in>key ` set xs. mset (filter (\<lambda>x. key x = k) xs)) x = count (mset xs) x" .
qed

section \<open>The payload can be built\<close>

abbreviation chosen_of :: "batch_request \<Rightarrow> uuid list \<Rightarrow> trace_event list" where
  "chosen_of q V \<equiv> filter (\<lambda>e. ev_event_id e \<in> set V) (bq_events q)"

abbreviation rest_of :: "batch_request \<Rightarrow> uuid list \<Rightarrow> trace_event list" where
  "rest_of q V \<equiv> filter (\<lambda>e. ev_event_id e \<notin> set V) (bq_events q)"

abbreviation keys_of :: "batch_env \<Rightarrow> batch_request \<Rightarrow> priority_reasons \<Rightarrow> uuid list \<Rightarrow> aggregate_key set" where
  "keys_of E q reasons V \<equiv> event_key E reasons ` set (rest_of q V)"

definition payload_with :: "batch_request \<Rightarrow> digest \<Rightarrow> uuid list \<Rightarrow> priority_reasons \<Rightarrow> event_aggregate list \<Rightarrow> batch_payload" where
  "payload_with q d V reasons as =
     \<lparr>bp_run_id = bq_run_id q, bp_memory_cursor = bq_memory_cursor q,
      bp_first_event_sequence = ev_sequence (hd (bq_events q)),
      bp_last_event_sequence = ev_sequence (last (bq_events q)), bp_configuration_digest = d,
      bp_mandatory_memories = mandatory_memories q,
      bp_verbatim_events = map (verbatim_of reasons) (chosen_of q V),
      bp_aggregates = as, bp_represented_event_count = int (length (bq_events q))\<rparr>"

lemma group_expands:
  assumes "slice es" and "es \<noteq> []"
  shows "concat (map (\<lambda>r. [sr_first_sequence r .. sr_last_sequence r]) (ag_provenance_ranges (group_aggregate E reasons es))) =
    map ev_sequence es"
    and "ag_source_event_ids (group_aggregate E reasons es) = map ev_event_id es"
proof -
  obtain e rest where cons: "es = e # rest" using assms(2) by (cases es) auto
  have sorted: "sorted_wrt (<) (ev_sequence e # map ev_sequence rest)" using assms(1) cons by (simp add: slice_def)
  then have "sort (map ev_sequence es) = map ev_sequence es"
    unfolding cons list.map by (rule sorted_sort_id [OF strict_sorted_imp_sorted])
  then have "ag_provenance_ranges (group_aggregate E reasons es) =
      ranges_loop (ev_sequence e) (ev_sequence e) (map ev_sequence rest)"
    using cons by (simp only: group_aggregate_def aggregate_of_def event_aggregate.simps sequence_ranges_def list.case list.map)
  then show "concat (map (\<lambda>r. [sr_first_sequence r .. sr_last_sequence r]) (ag_provenance_ranges (group_aggregate E reasons es))) =
      map ev_sequence es"
    using ranges_loop_expand [OF order_refl sorted] cons by simp
  show "ag_source_event_ids (group_aggregate E reasons es) = map ev_event_id es"
    by (simp add: group_aggregate_def aggregate_of_def)
qed

lemma grouped_map:
  assumes "mset as = image_mset (\<lambda>k. g (filter (\<lambda>x. key x = k) xs)) (mset_set (key ` set xs))"
    and "\<And>k. filter (\<lambda>x. key x = k) xs \<noteq> [] \<Longrightarrow> h (g (filter (\<lambda>x. key x = k) xs)) = map f (filter (\<lambda>x. key x = k) xs)"
  shows "mset (concat (map h as)) = mset (map f xs)"
proof -
  have "mset (concat (map h as)) = sum_mset (image_mset (mset \<circ> h) (mset as))"
    by (simp add: mset_concat comp_def flip: sum_mset_sum_list)
  also have "\<dots> = (\<Sum>k\<in>key ` set xs. mset (h (g (filter (\<lambda>x. key x = k) xs))))"
    unfolding assms(1) by (simp add: multiset.map_comp comp_def sum_unfold_sum_mset)
  also have "\<dots> = (\<Sum>k\<in>key ` set xs. image_mset f (mset (filter (\<lambda>x. key x = k) xs)))"
  proof (rule sum.cong [OF refl])
    fix k
    assume "k \<in> key ` set xs"
    then have "filter (\<lambda>x. key x = k) xs \<noteq> []" by (auto simp: filter_empty_conv)
    then show "mset (h (g (filter (\<lambda>x. key x = k) xs))) = image_mset f (mset (filter (\<lambda>x. key x = k) xs))"
      by (simp add: assms(2))
  qed
  also have "\<dots> = image_mset f (\<Sum>k\<in>key ` set xs. mset (filter (\<lambda>x. key x = k) xs))"
    by (induction rule: finite_induct [of "key ` set xs", OF finite_imageI [OF finite_set]]) simp_all
  finally show ?thesis unfolding grouped_all by simp
qed

lemma partition_mset: "mset (filter P xs) + mset (filter (\<lambda>x. \<not> P x) xs) = mset xs"
  by (simp add: mset_filter flip: multiset_partition)

lemma represented_once:
  assumes q: "valid_batch_request q"
    and as: "mset as = image_mset (\<lambda>k. group_aggregate E reasons (group_at E reasons (rest_of q V) k)) (mset_set (keys_of E q reasons V))"
  shows "mset (represented_sequences (payload_with q d V reasons as)) = mset (map ev_sequence (bq_events q))"
    and "mset (represented_ids (payload_with q d V reasons as)) = mset (map ev_event_id (bq_events q))"
proof -
  note slice = slice_filter [OF slice_filter [OF request_slice [OF q]]]
  have all: "mset (map f (chosen_of q V)) + mset (map f (rest_of q V)) = mset (map f (bq_events q))" for f :: "trace_event \<Rightarrow> 'b"
    by (simp only: mset_map partition_mset flip: image_mset_union)
  have "mset (concat (map (\<lambda>a. concat (map (\<lambda>r. [sr_first_sequence r .. sr_last_sequence r]) (ag_provenance_ranges a))) as)) =
      mset (map ev_sequence (rest_of q V))"
    by (rule grouped_map [where g = "group_aggregate E reasons", OF as]) (rule group_expands(1) [OF slice])
  with all [of ev_sequence] show "mset (represented_sequences (payload_with q d V reasons as)) = mset (map ev_sequence (bq_events q))"
    by (simp add: represented_sequences_def payload_with_def verbatim_of_def comp_def)
  have "mset (concat (map ag_source_event_ids as)) = mset (map ev_event_id (rest_of q V))"
    by (rule grouped_map [where g = "group_aggregate E reasons", OF as]) (rule group_expands(2) [OF slice])
  with all [of ev_event_id] show "mset (represented_ids (payload_with q d V reasons as)) = mset (map ev_event_id (bq_events q))"
    by (simp add: represented_ids_def payload_with_def verbatim_of_def comp_def)
qed

lemma same_mset_distinct: "mset xs = mset ys \<Longrightarrow> distinct ys \<Longrightarrow> distinct xs"
  by (metis mset_eq_imp_distinct_iff)

lemma request_bounds:
  assumes "valid_batch_request q"
  shows "bq_events q \<noteq> []" and "ev_sequence (hd (bq_events q)) = bq_memory_cursor q + 1"
    and "ev_sequence (last (bq_events q)) = bq_memory_cursor q + int (length (bq_events q))"
    and "map ev_sequence (bq_events q) = [bq_memory_cursor q + 1 .. bq_memory_cursor q + int (length (bq_events q))]"
proof -
  show events: "bq_events q \<noteq> []" and seqs: "map ev_sequence (bq_events q) =
      [bq_memory_cursor q + 1 .. bq_memory_cursor q + int (length (bq_events q))]"
    using assms by (simp_all add: valid_batch_request_def Let_def)
  then have n: "0 < length (bq_events q)" by simp
  have nth: "ev_sequence (bq_events q ! i) = bq_memory_cursor q + 1 + int i" if "i < length (bq_events q)" for i
    using arg_cong [OF seqs, of "\<lambda>xs. xs ! i"] that by simp
  show "ev_sequence (hd (bq_events q)) = bq_memory_cursor q + 1" using nth [of 0] n by (simp add: hd_conv_nth)
  show "ev_sequence (last (bq_events q)) = bq_memory_cursor q + int (length (bq_events q))"
    using nth [of "length (bq_events q) - 1"] n by (simp add: last_conv_nth of_nat_diff)
qed

lemma payload_built:
  assumes E: "hex_digest (be_hash E)" and q: "valid_batch_request q" and r: "distinct_reasons reasons" and d: "sha256_digest d"
  obtains as where "batch_payload_of E q d V reasons = Inr (payload_with q d V reasons as)"
    "mset as = image_mset (\<lambda>k. group_aggregate E reasons (group_at E reasons (rest_of q V) k)) (mset_set (keys_of E q reasons V))"
proof -
  obtain as where as: "aggregates_of E reasons (rest_of q V) = Inr as"
    "mset as = image_mset (\<lambda>k. group_aggregate E reasons (group_at E reasons (rest_of q V) k)) (mset_set (keys_of E q reasons V))"
    using aggregates_of_slice [OF E slice_filter [OF request_slice [OF q]] r] by blast
  let ?p = "payload_with q d V reasons as"
  note once = represented_once [OF q as(2), of d] and bounds = request_bounds [OF q]
  have "sort (represented_sequences ?p) = sort (map ev_sequence (bq_events q))"
    using once(1) by (metis sorted_list_of_multiset_mset)
  also have "\<dots> = map ev_sequence (bq_events q)"
    using request_slice [OF q] by (intro sorted_sort_id) (simp add: slice_def strict_sorted_imp_sorted)
  finally have sequences: "sort (represented_sequences ?p) = [bp_first_event_sequence ?p .. bp_last_event_sequence ?p]"
    using bounds by (simp add: payload_with_def)
  have ids: "distinct (map ev_event_id (bq_events q))" "distinct (map ev_sequence (bq_events q))"
    using slice_distinct(2) [OF request_slice [OF q]] request_slice [OF q] by (simp_all add: slice_def)
  have "distinct (represented_sequences ?p)" "distinct (represented_ids ?p)"
    using same_mset_distinct [OF once(1) ids(2)] same_mset_distinct [OF once(2) ids(1)] by blast+
  moreover have "length (represented_ids ?p) = length (bq_events q)"
    using once(2) by (metis length_map size_mset)
  moreover have "list_all (\<lambda>v. ev_run_id (ve_event v) = bq_run_id q) (bp_verbatim_events ?p)"
    using q by (auto simp: payload_with_def verbatim_of_def list_all_iff valid_batch_request_def Let_def)
  moreover have records: "map bm_record (bp_mandatory_memories ?p) = bq_task_requirements q @ bq_unresolved_state q"
    by (simp add: payload_with_def mandatory_memories_def comp_def)
  moreover have "1 \<le> int (length (bq_events q))" using bounds(1) by (cases "bq_events q") simp_all
  ultimately have "valid_batch_payload ?p"
    using q d bounds sequences
    by (simp add: valid_batch_payload_def Let_def valid_batch_request_def payload_with_def)
  with as(1) have "batch_payload_of E q d V reasons = Inr ?p"
    by (simp add: batch_payload_of_def Let_def payload_with_def)
  then show thesis using as(2) by (rule that)
qed

end
