(* ===== verification/Batch_States.thy ===== *)
theory Batch_States
  imports Batch_Facts
begin

text \<open>
  The size state of one aggregate represents the events the aggregate still holds: its linked sequences,
  counters and current size are those of the aggregate that would be built from them, and stay so when an
  event is taken out.
\<close>

section \<open>Neighbours in a set of sequences\<close>

definition below :: "int set \<Rightarrow> int \<Rightarrow> int option" where
  "below S s = (if {x \<in> S. x < s} = {} then None else Some (Max {x \<in> S. x < s}))"

definition above :: "int set \<Rightarrow> int \<Rightarrow> int option" where
  "above S s = (if {x \<in> S. s < x} = {} then None else Some (Min {x \<in> S. s < x}))"

definition least :: "int set \<Rightarrow> int option" where
  "least S = (if S = {} then None else Some (Min S))"

definition greatest :: "int set \<Rightarrow> int option" where
  "greatest S = (if S = {} then None else Some (Max S))"

lemma below_Some: "finite S \<Longrightarrow> below S s = Some p \<longleftrightarrow> p \<in> S \<and> p < s \<and> (\<forall>x\<in>S. x < s \<longrightarrow> x \<le> p)"
  using Max_eq_iff [of "{x \<in> S. x < s}" p] by (auto simp: below_def)

lemma below_None: "below S s = None \<longleftrightarrow> (\<forall>x\<in>S. \<not> x < s)"
  by (auto simp: below_def)

lemma above_Some: "finite S \<Longrightarrow> above S s = Some n \<longleftrightarrow> n \<in> S \<and> s < n \<and> (\<forall>x\<in>S. s < x \<longrightarrow> n \<le> x)"
  using Min_eq_iff [of "{x \<in> S. s < x}" n] by (auto simp: above_def)

lemma above_None: "above S s = None \<longleftrightarrow> (\<forall>x\<in>S. \<not> s < x)"
  by (auto simp: above_def)

lemma least_Some: "finite S \<Longrightarrow> least S = Some m \<longleftrightarrow> m \<in> S \<and> (\<forall>x\<in>S. m \<le> x)"
  using Min_eq_iff [of S m] by (auto simp: least_def)

lemma greatest_Some: "finite S \<Longrightarrow> greatest S = Some m \<longleftrightarrow> m \<in> S \<and> (\<forall>x\<in>S. x \<le> m)"
  using Max_eq_iff [of S m] by (auto simp: greatest_def)

lemma option_cong: "(\<And>y. a = Some y \<longleftrightarrow> b = Some y) \<Longrightarrow> a = b"
  by (cases a; cases b) auto

lemma neighbours: "finite S \<Longrightarrow> r \<in> S \<Longrightarrow> s \<in> S \<Longrightarrow> below S s = Some r \<longleftrightarrow> above S r = Some s"
  by (auto simp: below_Some above_Some not_less)

lemma below_removed:
  assumes "finite S" and "r \<in> S" and "s \<in> S" and "s \<noteq> r"
  shows "below (S - {r}) s = (if above S r = Some s then below S r else below S s)"
proof (cases "above S r = Some s")
  case True
  then show ?thesis using assms by (intro option_cong) (simp add: below_Some above_Some, force)
next
  case False
  then have "below S s \<noteq> Some r" using neighbours [OF assms(1-3)] by blast
  with False show ?thesis using assms
    by (intro option_cong) (simp add: below_Some, smt (verit, best) insert_Diff insert_iff)
qed

lemma above_removed:
  assumes "finite S" and "r \<in> S" and "s \<in> S" and "s \<noteq> r"
  shows "above (S - {r}) s = (if below S r = Some s then above S r else above S s)"
proof (cases "below S r = Some s")
  case True
  then show ?thesis using assms by (intro option_cong) (simp add: below_Some above_Some, force)
next
  case False
  then have "above S s \<noteq> Some r" using neighbours [OF assms(1,3,2)] by blast
  with False show ?thesis using assms
    by (intro option_cong) (simp add: above_Some, smt (verit, best) insert_Diff insert_iff)
qed

lemma relinked_below:
  assumes "finite S" and "r \<in> S"
  shows "(case above S r of None \<Rightarrow> (\<lambda>s. if s \<in> S then Some (below S s) else None)
      | Some n \<Rightarrow> (\<lambda>s. if s \<in> S then Some (below S s) else None)(n \<mapsto> below S r))(r := None) =
    (\<lambda>s. if s \<in> S - {r} then Some (below (S - {r}) s) else None)"
proof (cases "above S r")
  case None
  then show ?thesis using below_removed [OF assms] by (simp add: fun_eq_iff)
next
  case (Some n)
  then have "n \<in> S" "n \<noteq> r" using above_Some [OF assms(1), of r n] by auto
  with Some show ?thesis using below_removed [OF assms] by (simp add: fun_eq_iff)
qed

lemma relinked_above:
  assumes "finite S" and "r \<in> S"
  shows "(case below S r of None \<Rightarrow> (\<lambda>s. if s \<in> S then Some (above S s) else None)
      | Some n \<Rightarrow> (\<lambda>s. if s \<in> S then Some (above S s) else None)(n \<mapsto> above S r))(r := None) =
    (\<lambda>s. if s \<in> S - {r} then Some (above (S - {r}) s) else None)"
proof (cases "below S r")
  case None
  then show ?thesis using above_removed [OF assms] by (simp add: fun_eq_iff)
next
  case (Some n)
  then have "n \<in> S" "n \<noteq> r" using below_Some [OF assms(1), of r n] by auto
  with Some show ?thesis using above_removed [OF assms] by (simp add: fun_eq_iff)
qed

lemma least_removed:
  assumes "finite S" and "r \<in> S"
  shows "least (S - {r}) = (if S - {r} = {} then None else if Some r = least S then above S r else least S)"
proof (cases "S - {r} = {}")
  case False
  have "S \<noteq> {}" using assms(2) by blast
  then obtain m where m: "least S = Some m" by (simp add: least_def)
  show ?thesis
  proof (cases "m = r")
    case True
    have "S - {r} = {x \<in> S. r < x}" using m assms True by (force simp: least_Some)
    then show ?thesis using m True False by (simp add: least_def above_def)
  next
    case False
    have "m \<in> S" "\<forall>x\<in>S. m \<le> x" using m assms(1) by (simp_all add: least_Some)
    with False assms(1) have "least (S - {r}) = Some m" by (simp add: least_Some)
    moreover have "S - {r} \<noteq> {}" using \<open>m \<in> S\<close> False by blast
    ultimately show ?thesis using m False by auto
  qed
qed (simp add: least_def)

lemma greatest_removed:
  assumes "finite S" and "r \<in> S"
  shows "greatest (S - {r}) = (if S - {r} = {} then None else if Some r = greatest S then below S r else greatest S)"
proof (cases "S - {r} = {}")
  case False
  have "S \<noteq> {}" using assms(2) by blast
  then obtain m where m: "greatest S = Some m" by (simp add: greatest_def)
  show ?thesis
  proof (cases "m = r")
    case True
    have "S - {r} = {x \<in> S. x < r}" using m assms True by (force simp: greatest_Some)
    then show ?thesis using m True False by (simp add: greatest_def below_def)
  next
    case False
    have "m \<in> S" "\<forall>x\<in>S. x \<le> m" using m assms(1) by (simp_all add: greatest_Some)
    with False assms(1) have "greatest (S - {r}) = Some m" by (simp add: greatest_Some)
    moreover have "S - {r} \<noteq> {}" using \<open>m \<in> S\<close> False by blast
    ultimately show ?thesis using m False by auto
  qed
qed (simp add: greatest_def)

lemma previous_links:
  assumes "sorted_wrt (<) xs"
  shows "map_of (zip xs (None # map Some xs)) s = (if s \<in> set xs then Some (below (set xs) s) else None)"
proof -
  have "map_of (zip xs (a # map Some xs)) s =
      (if s \<in> set xs then Some (if s = hd xs then a else below (set xs) s) else None)" for a
    using assms
  proof (induction xs arbitrary: a)
    case (Cons y ys)
    show ?case
    proof (cases "s = y")
      case False
      have "below (set (y # ys)) s = (if s = hd ys then Some y else below (set ys) s)" if "s \<in> set ys"
      proof (cases "s = hd ys")
        case True
        have "below (set (y # ys)) s = Some y"
          using True Cons.prems that by (cases ys) (auto simp: below_Some)
        with True show ?thesis by simp
      next
        case neq: False
        then have hd: "hd ys \<in> set ys" "hd ys < s" using that Cons.prems by (cases ys; auto)+
        have y: "\<forall>x\<in>set ys. y < x" using Cons.prems by simp
        have "below (set (y # ys)) s = below (set ys) s"
          by (intro option_cong) (simp add: below_Some, metis hd y order.strict_implies_order leD)
        with neq show ?thesis by simp
      qed
      then show ?thesis using Cons.IH [of "Some y"] Cons.prems False by simp
    qed simp
  qed simp
  from this [of None] have "map_of (zip xs (None # map Some xs)) s =
      (if s \<in> set xs then Some (if s = hd xs then None else below (set xs) s) else None)" .
  moreover have "below (set xs) (hd xs) = None" if "xs \<noteq> []" using assms that by (cases xs) (auto simp: below_None)
  ultimately show ?thesis by (cases xs) auto
qed

lemma following_links:
  assumes "sorted_wrt (<) xs"
  shows "map_of (zip xs (map Some (tl xs) @ [None])) s = (if s \<in> set xs then Some (above (set xs) s) else None)"
  using assms
proof (induction xs)
  case (Cons y ys)
  have first: "above (set (y # ys)) y = (if ys = [] then None else Some (hd ys))"
    using Cons.prems by (cases ys) (auto simp: above_None above_Some)
  have later: "above (set (y # ys)) s = above (set ys) s" if "s \<in> set ys"
    using Cons.prems that by (intro option_cong) (auto simp: above_Some)
  have IH: "map_of (zip ys (map Some (tl ys) @ [None])) s = (if s \<in> set ys then Some (above (set ys) s) else None)"
    using Cons by simp
  show ?case
  proof (cases ys)
    case Nil
    then show ?thesis using first by simp
  next
    case (Cons z zs)
    then have "map_of (zip (y # ys) (map Some (tl (y # ys)) @ [None])) s =
        (if s = y then Some (Some z) else map_of (zip ys (map Some (tl ys) @ [None])) s)" by simp
    with IH first later Cons show ?thesis by (auto simp del: zip_Cons_Cons)
  qed
qed simp

section \<open>The size of an aggregate\<close>

lemma aggregate_size_split:
  "encoded_size E (aggregate_json a) =
     encoded_size E (aggregate_json (a\<lparr>ag_provenance_ranges := [], ag_source_event_ids := []\<rparr>)) +
     inner_size (int (length (ag_provenance_ranges a))) (sum_list (map (encoded_size E \<circ> range_json) (ag_provenance_ranges a))) +
     inner_size (int (length (ag_source_event_ids a))) (sum_list (map (encoded_size E \<circ> (JStr \<circ> uuid_str)) (ag_source_event_ids a)))"
  by (simp add: aggregate_json_def encoded_object encoded_array comp_def) (simp add: inner_size_def)

lemma aggregate_size_cong:
  assumes "aggregate_model_key a = aggregate_model_key b" and "sha256_digest (ag_source_digest a)" "sha256_digest (ag_source_digest b)"
    and "ag_count a = ag_count b" "ag_first_sequence a = ag_first_sequence b" "ag_last_sequence a = ag_last_sequence b"
    and "ag_provenance_ranges a = ag_provenance_ranges b" "ag_source_event_ids a = ag_source_event_ids b"
  shows "encoded_size E (aggregate_json a) = encoded_size E (aggregate_json b)"
proof -
  have "kinds_json (ag_priority_kinds a) = kinds_json (ag_priority_kinds b)"
    using assms(1) by (simp add: aggregate_model_key_def kinds_json_def flip: map_map)
  with assms show ?thesis
    by (simp add: aggregate_json_def encoded_object aggregate_model_key_def digest_encoded)
qed

lemma range_size:
  "encoded_size E (range_json r) = range_fixed_bytes E +
     (encoded_size E (JInt (sr_first_sequence r)) + encoded_size E (JInt (sr_last_sequence r)))"
  by (simp add: range_fixed_bytes_def range_json_def encoded_object) (simp add: inner_size_def)

lemma ranges_size:
  "sum_list (map (encoded_size E \<circ> range_json) rs) = int (length rs) * range_fixed_bytes E + range_endpoints_size E rs"
  by (induction rs) (simp_all add: range_size range_endpoints_size_def algebra_simps)

definition slice_size :: "batch_env \<Rightarrow> priority_reasons \<Rightarrow> trace_event list \<Rightarrow> int" where
  "slice_size E reasons es = (if es = [] then 0 else encoded_size E (aggregate_json (group_aggregate E reasons es)))"

definition shell_ok :: "aggregate_key \<Rightarrow> event_aggregate \<Rightarrow> bool" where
  "shell_ok k a \<longleftrightarrow> aggregate_model_key a = k \<and> sha256_digest (ag_source_digest a) \<and>
     ag_provenance_ranges a = [] \<and> ag_source_event_ids a = []"

lemma slice_ends:
  assumes "slice es" and "es \<noteq> []"
  shows "least (ev_sequence ` set es) = Some (ev_sequence (hd es))"
    and "greatest (ev_sequence ` set es) = Some (ev_sequence (last es))"
proof -
  have sorted: "sorted_wrt (<) (map ev_sequence es)" using assms(1) by (simp add: slice_def)
  obtain e rest where cons: "es = e # rest" using assms(2) by (cases es) auto
  with sorted show "least (ev_sequence ` set es) = Some (ev_sequence (hd es))" by (auto simp: least_Some)
  obtain front z where snoc: "es = front @ [z]" using assms(2) by (cases es rule: rev_cases) auto
  with sorted show "greatest (ev_sequence ` set es) = Some (ev_sequence (last es))"
    by (auto simp: greatest_Some sorted_wrt_append)
qed

lemma serialized_slice:
  assumes E: "hex_digest (be_hash E)" and es: "slice es" and key: "\<And>e. e \<in> set es \<Longrightarrow> event_key E reasons e = k"
    and shell: "shell_ok k a"
  defines "S \<equiv> ev_sequence ` set es"
  shows "serialized_size E a (int (length es)) (least S) (greatest S) (int (card (starts S))) (ranges_bytes E S)
    (sum_list (map (source_id_size E) es)) = Inr (slice_size E reasons es)"
proof (cases "es = []")
  case False
  let ?g = "group_aggregate E reasons es"
  have sorted: "sorted_wrt (<) (map ev_sequence es)" using es by (simp add: slice_def)
  note ends = sequence_ranges_ends [OF sorted, unfolded set_map, folded S_def]
  have ranges: "ag_provenance_ranges ?g = sequence_ranges (map ev_sequence es)"
    by (simp add: group_aggregate_def aggregate_of_def)
  have count: "1 \<le> int (card (starts S))"
  proof -
    have "least S = Some (ev_sequence (hd es))" using slice_ends(1) [OF es False] by (simp add: S_def)
    then have "ev_sequence (hd es) \<in> starts S" by (force simp: starts_def least_Some S_def)
    then have "card (starts S) \<noteq> 0" by (auto simp: S_def)
    then show ?thesis by simp
  qed
  have "encoded_size E (range_json r) > 0" for r by (simp add: range_json_def encoded_object_positive)
  then have "array_inner_size (int (length (sequence_ranges (map ev_sequence es))))
      (sum_list (map (encoded_size E \<circ> range_json) (sequence_ranges (map ev_sequence es)))) =
    Inr (inner_size (int (length (sequence_ranges (map ev_sequence es))))
      (sum_list (map (encoded_size E \<circ> range_json) (sequence_ranges (map ev_sequence es)))))"
    by (intro array_of_items) simp
  then have r: "array_inner_size (int (card (starts S))) (int (card (starts S)) * range_fixed_bytes E + ranges_bytes E S) =
    Inr (inner_size (int (length (ag_provenance_ranges ?g))) (sum_list (map (encoded_size E \<circ> range_json) (ag_provenance_ranges ?g))))"
    by (simp add: ranges_size ends ranges)
  have id_size: "source_id_size E = (\<lambda>e. encoded_size E (JStr (uuid_str (ev_event_id e))))"
    by (rule ext) (simp add: source_id_size_def)
  have i: "array_inner_size (int (length es)) (sum_list (map (source_id_size E) es)) =
    Inr (inner_size (int (length (ag_source_event_ids ?g))) (sum_list (map (encoded_size E \<circ> (JStr \<circ> uuid_str)) (ag_source_event_ids ?g))))"
    using array_of_items [of es "source_id_size E"] id_size
    by (simp add: encoded_positive group_aggregate_def aggregate_of_def comp_def)
  have "aggregate_model_key ?g = k"
    using key [OF list.set_sel(1) [OF False]]
    by (simp add: aggregate_model_key_def group_aggregate_def aggregate_of_def event_key_def)
  then have "encoded_size E (aggregate_json (a\<lparr>ag_count := int (length es), ag_first_sequence := ev_sequence (hd es),
        ag_last_sequence := ev_sequence (last es)\<rparr>)) =
      encoded_size E (aggregate_json (?g\<lparr>ag_provenance_ranges := [], ag_source_event_ids := []\<rparr>))"
    using shell by (intro aggregate_size_cong) (simp_all add: shell_ok_def aggregate_model_key_def group_aggregate_def
        aggregate_of_def batch_digest_of_def length_prefixed_digest [OF E])
  with r i count slice_ends [OF es False] show ?thesis
    using False aggregate_size_split [of E ?g] by (simp add: serialized_size_def slice_size_def flip: S_def)
qed (simp add: serialized_size_def slice_size_def)

section \<open>The state of an aggregate\<close>

definition state_ok :: "batch_env \<Rightarrow> priority_reasons \<Rightarrow> aggregate_key \<Rightarrow> trace_event list \<Rightarrow> size_state \<Rightarrow> bool" where
  "state_ok E reasons k es st \<longleftrightarrow>
     (let S = ev_sequence ` set es in
      slice es \<and> (\<forall>e\<in>set es. event_key E reasons e = k) \<and> shell_ok k (sz_aggregate_shell st) \<and>
      sz_remaining_sequences st = S \<and>
      sz_previous_sequences st = (\<lambda>s. if s \<in> S then Some (below S s) else None) \<and>
      sz_next_sequences st = (\<lambda>s. if s \<in> S then Some (above S s) else None) \<and>
      sz_event_sequences st = map_of (map (\<lambda>e. (ev_event_id e, ev_sequence e)) es) \<and>
      sz_source_id_sizes st = map_of (map (\<lambda>e. (ev_event_id e, source_id_size E e)) es) \<and>
      sz_count st = int (length es) \<and> sz_head_sequence st = least S \<and> sz_tail_sequence st = greatest S \<and>
      sz_range_count st = int (card (starts S)) \<and> sz_range_endpoint_bytes st = ranges_bytes E S \<and>
      sz_source_id_bytes st = sum_list (map (source_id_size E) es) \<and> sz_current_size st = slice_size E reasons es)"

lemma state_built:
  assumes E: "hex_digest (be_hash E)" and es: "slice es" "es \<noteq> []" and key: "\<And>e. e \<in> set es \<Longrightarrow> event_key E reasons e = k"
  obtains st where "state_from_aggregate E (group_aggregate E reasons es) es = Inr st" "state_ok E reasons k es st"
proof -
  let ?g = "group_aggregate E reasons es" and ?S = "ev_sequence ` set es"
  let ?st = "initial_size_state E ?g es"
  have sorted: "sorted_wrt (<) (map ev_sequence es)" using es(1) by (simp add: slice_def)
  note ends = sequence_ranges_ends [OF sorted, unfolded set_map]
  have g: "ag_provenance_ranges ?g = sequence_ranges (map ev_sequence es)" "ag_source_event_ids ?g = map ev_event_id es"
    by (simp_all add: group_aggregate_def aggregate_of_def)
  have "aggregate_model_key ?g = k"
    using key [OF list.set_sel(1) [OF es(2)]]
    by (simp add: aggregate_model_key_def group_aggregate_def aggregate_of_def event_key_def)
  then have shell: "shell_ok k (sz_aggregate_shell ?st)"
    by (simp add: shell_ok_def initial_size_state_def Let_def aggregate_model_key_def group_aggregate_def
        aggregate_of_def batch_digest_of_def length_prefixed_digest [OF E])
  have hd_last: "hd (map ev_sequence es) = ev_sequence (hd es)" "last (map ev_sequence es) = ev_sequence (last es)"
    using es(2) by (simp_all add: hd_map last_map)
  have parts: "sz_count ?st = int (length es)" "sz_head_sequence ?st = least ?S" "sz_tail_sequence ?st = greatest ?S"
    "sz_range_count ?st = int (card (starts ?S))" "sz_range_endpoint_bytes ?st = ranges_bytes E ?S"
    "sz_source_id_bytes ?st = sum_list (map (source_id_size E) es)" "sz_remaining_sequences ?st = ?S"
    "sz_event_sequences ?st = map_of (map (\<lambda>e. (ev_event_id e, ev_sequence e)) es)"
    "sz_source_id_sizes ?st = map_of (map (\<lambda>e. (ev_event_id e, source_id_size E e)) es)"
    using slice_ends [OF es] hd_last by (simp_all add: initial_size_state_def Let_def ends g)
  have links: "sz_previous_sequences ?st = (\<lambda>s. if s \<in> ?S then Some (below ?S s) else None)"
    "sz_next_sequences ?st = (\<lambda>s. if s \<in> ?S then Some (above ?S s) else None)"
    using previous_links [OF sorted] following_links [OF sorted]
    by (auto simp: initial_size_state_def Let_def fun_eq_iff)
  let ?st' = "?st\<lparr>sz_current_size := slice_size E reasons es\<rparr>"
  have "state_from_aggregate E ?g es = Inr ?st'"
    using serialized_slice [OF E es(1) key shell] es(2)
    by (simp add: state_from_aggregate_def Let_def slice_sorted [OF es(1)] g(2) parts slice_size_def)
  moreover have "state_ok E reasons k es ?st'"
    using es(1) key shell parts links by (simp add: state_ok_def Let_def)
  ultimately show thesis by (rule that)
qed

text \<open>Taking an event out.\<close>

abbreviation without :: "uuid \<Rightarrow> trace_event list \<Rightarrow> trace_event list" where
  "without i es \<equiv> filter (\<lambda>e. ev_event_id e \<noteq> i) es"

lemma without_slice:
  assumes es: "slice es" and e: "e \<in> set es"
  shows "int (length (without (ev_event_id e) es)) = int (length es) - 1"
    and "ev_sequence ` set (without (ev_event_id e) es) = ev_sequence ` set es - {ev_sequence e}"
    and "sum_list (map f (without (ev_event_id e) es)) = sum_list (map f es) - (f e :: int)"
    and "map_of (map (\<lambda>x. (ev_event_id x, g x)) es) (ev_event_id e) = Some (g e)"
proof -
  have distinct: "distinct (map ev_event_id es)" "distinct (map ev_sequence es)"
    using es slice_distinct(2) by (auto simp: slice_def)
  obtain xs ys where split: "es = xs @ e # ys" using e by (meson split_list)
  have "ev_event_id x \<noteq> ev_event_id e" if "x \<in> set xs \<union> set ys" for x using distinct(1) that by (auto simp: split) (metis imageI)+
  then have w: "without (ev_event_id e) es = xs @ ys" by (simp add: split filter_id_conv)
  then show "int (length (without (ev_event_id e) es)) = int (length es) - 1"
    "sum_list (map f (without (ev_event_id e) es)) = sum_list (map f es) - f e" by (simp_all add: split)
  show "ev_sequence ` set (without (ev_event_id e) es) = ev_sequence ` set es - {ev_sequence e}"
    using distinct(2) unfolding w by (auto simp: split) (metis imageI)+
  have "distinct (map fst (map (\<lambda>x. (ev_event_id x, g x)) es))" using distinct(1) by (simp add: comp_def)
  moreover have "(ev_event_id e, g e) \<in> set (map (\<lambda>x. (ev_event_id x, g x)) es)" using e by auto
  ultimately show "map_of (map (\<lambda>x. (ev_event_id x, g x)) es) (ev_event_id e) = Some (g e)" by (rule map_of_is_SomeI)
qed

lemma map_of_without:
  "map_of (map (\<lambda>x. (ev_event_id x, g x)) (without i es)) = (map_of (map (\<lambda>x. (ev_event_id x, g x)) es))(i := None)"
  by (induction es) (auto simp: fun_eq_iff)

lemma state_removal:
  assumes E: "hex_digest (be_hash E)" and ok: "state_ok E reasons k es st" and e: "e \<in> set es"
  obtains r st' where "preview_removal E st (ev_event_id e) = Inr r" "apply_removal st (ev_event_id e) r = Inr st'"
    "state_ok E reasons k (without (ev_event_id e) es) st'" "rm_count r = int (length (without (ev_event_id e) es))"
    "rm_serialized_size r = slice_size E reasons (without (ev_event_id e) es)"
proof -
  let ?i = "ev_event_id e" and ?s = "ev_sequence e" and ?S = "ev_sequence ` set es"
  let ?es = "without ?i es" and ?T = "?S - {?s}"
  have st: "slice es" "\<And>e. e \<in> set es \<Longrightarrow> event_key E reasons e = k" "shell_ok k (sz_aggregate_shell st)"
    "sz_remaining_sequences st = ?S"
    "sz_previous_sequences st = (\<lambda>s. if s \<in> ?S then Some (below ?S s) else None)"
    "sz_next_sequences st = (\<lambda>s. if s \<in> ?S then Some (above ?S s) else None)"
    "sz_event_sequences st = map_of (map (\<lambda>e. (ev_event_id e, ev_sequence e)) es)"
    "sz_source_id_sizes st = map_of (map (\<lambda>e. (ev_event_id e, source_id_size E e)) es)"
    "sz_count st = int (length es)" "sz_head_sequence st = least ?S" "sz_tail_sequence st = greatest ?S"
    "sz_range_count st = int (card (starts ?S))" "sz_range_endpoint_bytes st = ranges_bytes E ?S"
    "sz_source_id_bytes st = sum_list (map (source_id_size E) es)"
    using ok by (simp_all add: state_ok_def Let_def)
  note w = without_slice [OF st(1) e]
  have s: "?s \<in> ?S" "finite ?S" using e by auto
  have T: "ev_sequence ` set ?es = ?T" by (rule w(2))
  have key: "\<And>x. x \<in> set ?es \<Longrightarrow> event_key E reasons x = k" using st(2) by auto
  note es' = slice_filter [OF st(1), of "\<lambda>x. ev_event_id x \<noteq> ?i"]
  have empty: "int (length ?es) = 0 \<longleftrightarrow> ?T = {}" unfolding T [symmetric] by (simp only: of_nat_eq_0_iff length_0_conv image_is_empty set_empty)
  have ends: "least ?T = (if int (length ?es) = 0 then None else if Some ?s = sz_head_sequence st then above ?S ?s else sz_head_sequence st)"
    "greatest ?T = (if int (length ?es) = 0 then None else if Some ?s = sz_tail_sequence st then below ?S ?s else sz_tail_sequence st)"
    unfolding empty st(10,11) by (rule least_removed greatest_removed; use s in simp)+
  let ?r = "\<lparr>rm_sequence = ?s, rm_previous_sequence = below ?S ?s, rm_next_sequence = above ?S ?s, rm_count = int (length ?es),
      rm_head_sequence = least ?T, rm_tail_sequence = greatest ?T, rm_range_count = int (card (starts ?T)),
      rm_range_endpoint_bytes = ranges_bytes E ?T, rm_source_id_bytes = sum_list (map (source_id_size E) ?es),
      rm_serialized_size = slice_size E reasons ?es\<rparr>"
  have seen: "sz_event_sequences st ?i = Some ?s" "sz_source_id_sizes st ?i = Some (source_id_size E e)"
    "sz_previous_sequences st ?s = Some (below ?S ?s)" "sz_next_sequences st ?s = Some (above ?S ?s)"
    using s(1) by (simp_all only: st(5-8) w(4) if_True)
  have counted: "ranges_without E (sz_remaining_sequences st) ?s (sz_range_count st, sz_range_endpoint_bytes st) =
      (int (card (starts ?T)), ranges_bytes E ?T)"
    unfolding st(4,12,13) by (rule ranges_without_ok [OF s(2,1)])
  have sums: "sz_count st - 1 = int (length ?es)"
    "sz_source_id_bytes st - source_id_size E e = sum_list (map (source_id_size E) ?es)"
    by (simp_all only: st(9,14) w(1,3))
  have "preview_removal E st ?i = Inr ?r"
    using serialized_slice [OF E es' key st(3), unfolded T]
    by (simp only: preview_removal_def seen option.case prod.case Let_def counted sums fst_conv snd_conv
        ends [symmetric] bind_result_simps)
  moreover define st' where "st' = st\<lparr>sz_remaining_sequences := ?T,
      sz_previous_sequences := (\<lambda>s. if s \<in> ?T then Some (below ?T s) else None),
      sz_next_sequences := (\<lambda>s. if s \<in> ?T then Some (above ?T s) else None),
      sz_event_sequences := (sz_event_sequences st)(?i := None), sz_source_id_sizes := (sz_source_id_sizes st)(?i := None),
      sz_count := int (length ?es), sz_head_sequence := least ?T, sz_tail_sequence := greatest ?T,
      sz_range_count := int (card (starts ?T)), sz_range_endpoint_bytes := ranges_bytes E ?T,
      sz_source_id_bytes := sum_list (map (source_id_size E) ?es), sz_current_size := slice_size E reasons ?es\<rparr>"
  have "(case above ?S ?s of None \<Rightarrow> sz_previous_sequences st
      | Some n \<Rightarrow> (sz_previous_sequences st)(n \<mapsto> below ?S ?s))(?s := None) =
    (\<lambda>s. if s \<in> ?T then Some (below ?T s) else None)"
    unfolding st(5) by (rule relinked_below [OF s(2,1)])
  moreover have "(case below ?S ?s of None \<Rightarrow> sz_next_sequences st
      | Some p \<Rightarrow> (sz_next_sequences st)(p \<mapsto> above ?S ?s))(?s := None) =
    (\<lambda>s. if s \<in> ?T then Some (above ?T s) else None)"
    unfolding st(6) by (rule relinked_above [OF s(2,1)])
  ultimately have "apply_removal st ?i ?r = Inr st'"
    unfolding apply_removal_def Let_def aggregate_removal.simps by (simp only: seen(1) simp_thms if_False st'_def st(4))
  moreover have "state_ok E reasons k ?es st'"
    unfolding state_ok_def Let_def T using es' key st(3) by (simp add: st'_def st(7,8) map_of_without)
  ultimately show thesis using \<open>preview_removal E st ?i = Inr ?r\<close> by (intro that [of ?r st']) simp_all
qed

end
