(* ===== verification/Batch_Exactness.thy ===== *)
theory Batch_Exactness
  imports Batch_States
begin

text \<open>
  The planner is exact: its total is the canonical size of the payload that would be built from the
  events promoted so far, for the first payload and after every promotion.
\<close>

section \<open>The size of the payload of a choice\<close>

definition shell_payload :: "batch_request \<Rightarrow> digest \<Rightarrow> priority_reasons \<Rightarrow> batch_payload" where
  "shell_payload q d reasons = (payload_with q d [] reasons [])\<lparr>bp_verbatim_events := []\<rparr>"

definition verbatim_size :: "batch_env \<Rightarrow> priority_reasons \<Rightarrow> trace_event \<Rightarrow> int" where
  "verbatim_size E reasons e = encoded_size E (verbatim_json E (verbatim_of reasons e))"

definition aggregate_bytes :: "batch_env \<Rightarrow> batch_request \<Rightarrow> priority_reasons \<Rightarrow> uuid list \<Rightarrow> int" where
  "aggregate_bytes E q reasons V =
     (\<Sum>k\<in>keys_of E q reasons V. slice_size E reasons (group_at E reasons (rest_of q V) k))"

definition planned_size :: "batch_env \<Rightarrow> batch_request \<Rightarrow> digest \<Rightarrow> priority_reasons \<Rightarrow> uuid list \<Rightarrow> int" where
  "planned_size E q d reasons V =
     encoded_size E (batch_payload_json E (shell_payload q d reasons)) +
     inner_size (int (length (chosen_of q V))) (sum_list (map (verbatim_size E reasons) (chosen_of q V))) +
     inner_size (int (card (keys_of E q reasons V))) (aggregate_bytes E q reasons V)"

lemma payload_size_split:
  "encoded_size E (batch_payload_json E p) =
     encoded_size E (batch_payload_json E (p\<lparr>bp_aggregates := [], bp_verbatim_events := []\<rparr>)) +
     inner_size (int (length (bp_verbatim_events p))) (sum_list (map (encoded_size E \<circ> verbatim_json E) (bp_verbatim_events p))) +
     inner_size (int (length (bp_aggregates p))) (sum_list (map (encoded_size E \<circ> aggregate_json) (bp_aggregates p)))"
  by (simp add: batch_payload_json_def encoded_object encoded_array comp_def) (simp add: inner_size_def)

lemma verbatim_sizes:
  "sum_list (map (encoded_size E \<circ> verbatim_json E) (map (verbatim_of reasons) es)) = sum_list (map (verbatim_size E reasons) es)"
  by (induction es) (simp_all add: verbatim_size_def)

lemma aggregates_sum:
  assumes "mset as = image_mset (\<lambda>k. group_aggregate E reasons (group_at E reasons (rest_of q V) k)) (mset_set (keys_of E q reasons V))"
  shows "int (length as) = int (card (keys_of E q reasons V))"
    and "sum_list (map (encoded_size E \<circ> aggregate_json) as) = aggregate_bytes E q reasons V"
proof -
  have "length as = size (mset as)" by simp
  then show "int (length as) = int (card (keys_of E q reasons V))" unfolding assms by simp
  have "sum_list (map (encoded_size E \<circ> aggregate_json) as) = sum_mset (image_mset (encoded_size E \<circ> aggregate_json) (mset as))"
    by (simp flip: sum_mset_sum_list)
  also have "\<dots> = (\<Sum>k\<in>keys_of E q reasons V.
      encoded_size E (aggregate_json (group_aggregate E reasons (group_at E reasons (rest_of q V) k))))"
    unfolding assms by (simp add: multiset.map_comp comp_def sum_unfold_sum_mset)
  also have "\<dots> = aggregate_bytes E q reasons V"
    unfolding aggregate_bytes_def by (rule sum.cong [OF refl]) (auto simp: slice_size_def filter_empty_conv)
  finally show "sum_list (map (encoded_size E \<circ> aggregate_json) as) = aggregate_bytes E q reasons V" .
qed

lemma payload_size:
  assumes "mset as = image_mset (\<lambda>k. group_aggregate E reasons (group_at E reasons (rest_of q V) k)) (mset_set (keys_of E q reasons V))"
  shows "encoded_size E (batch_payload_json E (payload_with q d V reasons as)) = planned_size E q d reasons V"
proof -
  have "(payload_with q d V reasons as)\<lparr>bp_aggregates := [], bp_verbatim_events := []\<rparr> = shell_payload q d reasons"
    by (simp add: payload_with_def shell_payload_def)
  moreover have "sum_list (map (encoded_size E \<circ> verbatim_json E) (bp_verbatim_events (payload_with q d V reasons as))) =
      sum_list (map (verbatim_size E reasons) (chosen_of q V))"
    unfolding payload_with_def batch_payload.simps by (rule verbatim_sizes)
  ultimately show ?thesis
    using aggregates_sum [OF assms] payload_size_split [of E "payload_with q d V reasons as"]
    by (simp add: planned_size_def) (simp add: payload_with_def)
qed

section \<open>The cells of the events\<close>

lemma map_of_unique:
  assumes "(i, n) \<in> set xs" and "\<And>m. (i, m) \<in> set xs \<Longrightarrow> m = n"
  shows "map_of xs i = Some n"
proof -
  obtain m where m: "map_of xs i = Some m" using weak_map_of_SomeI [OF assms(1)] by blast
  with assms(2) [OF map_of_SomeD [OF m]] show ?thesis by simp
qed

lemma cell_pairs:
  "(i, n) \<in> set (concat (map (\<lambda>(n, _, events). map (\<lambda>e. (ev_event_id e, n)) events) (zip [0..<length groups] groups))) \<longleftrightarrow>
     n < length groups \<and> (\<exists>e\<in>set (snd (groups ! n)). ev_event_id e = i)"
proof -
  have zipped: "(m, g) \<in> set (zip [0..<length groups] groups) \<longleftrightarrow> m < length groups \<and> g = groups ! m" for m g
    by (auto simp: set_zip intro!: exI [of _ m])
  have "(i, n) \<in> set (concat (map (\<lambda>(n, _, events). map (\<lambda>e. (ev_event_id e, n)) events) (zip [0..<length groups] groups))) \<longleftrightarrow>
      (\<exists>m g. (m, g) \<in> set (zip [0..<length groups] groups) \<and> (\<exists>e\<in>set (snd g). (i, n) = (ev_event_id e, m)))"
    by force
  then show ?thesis unfolding zipped by auto
qed

lemma cells_of_event:
  assumes "\<And>m x. m < length groups \<Longrightarrow> x \<in> set (snd (groups ! m)) \<Longrightarrow> ev_event_id x = ev_event_id e \<Longrightarrow> m = n"
    and "n < length groups" and "e \<in> set (snd (groups ! n))"
  shows "cells_of groups (ev_event_id e) = Some n"
  unfolding cells_of_def
proof (rule map_of_unique)
  show "(ev_event_id e, n) \<in> set (concat (map (\<lambda>(n, _, events). map (\<lambda>e. (ev_event_id e, n)) events)
      (zip [0..<length groups] groups)))"
    unfolding cell_pairs using assms(2,3) by blast
  show "m = n" if "(ev_event_id e, m) \<in> set (concat (map (\<lambda>(n, _, events). map (\<lambda>e. (ev_event_id e, n)) events)
      (zip [0..<length groups] groups)))" for m
    using that unfolding cell_pairs using assms(1) by blast
qed

section \<open>The planner\<close>

definition first_groups :: "batch_env \<Rightarrow> batch_request \<Rightarrow> priority_reasons \<Rightarrow> uuid list \<Rightarrow> (aggregate_key, trace_event list) dict" where
  "first_groups E q reasons V0 = group_into (event_key E reasons) (rest_of q V0) []"

definition planner_ok :: "batch_env \<Rightarrow> batch_request \<Rightarrow> digest \<Rightarrow> priority_reasons \<Rightarrow> uuid list \<Rightarrow> uuid list \<Rightarrow> batch_planner \<Rightarrow> bool" where
  "planner_ok E q d reasons V0 V pn \<longleftrightarrow>
     (let ks = map fst (first_groups E q reasons V0) in
      set V0 \<subseteq> set V \<and> length (pn_states pn) = length ks \<and>
      (\<forall>n<length ks. state_ok E reasons (ks ! n) (group_at E reasons (rest_of q V) (ks ! n)) (pn_states pn ! n)) \<and>
      (\<forall>e\<in>set (rest_of q V). \<exists>n<length ks. pn_aggregate_by_event pn (ev_event_id e) = Some n \<and> ks ! n = event_key E reasons e) \<and>
      pn_shell_size pn = encoded_size E (batch_payload_json E (shell_payload q d reasons)) \<and>
      pn_verbatim_count pn = int (length (chosen_of q V)) \<and>
      pn_verbatim_item_bytes pn = sum_list (map (verbatim_size E reasons) (chosen_of q V)) \<and>
      pn_aggregate_count pn = int (card (keys_of E q reasons V)) \<and>
      pn_aggregate_item_bytes pn = aggregate_bytes E q reasons V \<and>
      pn_total_size pn = planned_size E q d reasons V)"

lemma verbatim_size_positive: "0 < verbatim_size E reasons e"
  by (simp add: verbatim_size_def verbatim_json_def encoded_object_positive)

lemma slice_size_positive: "es \<noteq> [] \<Longrightarrow> 0 < slice_size E reasons es"
  by (simp add: slice_size_def aggregate_json_def encoded_object_positive)

lemma total_of_choice:
  "total_of (encoded_size E (batch_payload_json E (shell_payload q d reasons)))
     (int (length (chosen_of q V))) (sum_list (map (verbatim_size E reasons) (chosen_of q V)))
     (int (card (keys_of E q reasons V))) (aggregate_bytes E q reasons V) =
   Inr (planned_size E q d reasons V)"
proof -
  let ?K = "keys_of E q reasons V"
  have pos: "0 < slice_size E reasons (group_at E reasons (rest_of q V) k)" if "k \<in> ?K" for k
    using that by (intro slice_size_positive) (auto simp: filter_empty_conv)
  have "0 \<le> aggregate_bytes E q reasons V" unfolding aggregate_bytes_def by (intro sum_nonneg order_less_imp_le [OF pos])
  moreover have "(int (card ?K) = 0) = (aggregate_bytes E q reasons V = 0)"
  proof (cases "?K = {}")
    case False
    then have "0 < aggregate_bytes E q reasons V" unfolding aggregate_bytes_def by (intro sum_pos pos) simp_all
    with False show ?thesis by (simp add: card_eq_0_iff)
  qed (simp add: aggregate_bytes_def)
  ultimately have "array_inner_size (int (card ?K)) (aggregate_bytes E q reasons V) =
      Inr (inner_size (int (card ?K)) (aggregate_bytes E q reasons V))" by (intro array_inner_size_ok) simp_all
  then show ?thesis
    using array_of_items [of "chosen_of q V" "verbatim_size E reasons"] verbatim_size_positive
    by (simp add: total_of_def planned_size_def)
qed

lemma planner_built:
  assumes E: "hex_digest (be_hash E)" and q: "valid_batch_request q" and r: "distinct_reasons reasons"
    and as: "mset as = image_mset (\<lambda>k. group_aggregate E reasons (group_at E reasons (rest_of q V) k)) (mset_set (keys_of E q reasons V))"
    and size: "int (ts_utf8_bytes payload_size) = encoded_size E (batch_payload_json E (payload_with q d V reasons as))"
  obtains pn where "planner_from_payload E q (payload_with q d V reasons as) payload_size V reasons = Inr pn"
    "planner_ok E q d reasons V V pn"
proof -
  let ?p = "payload_with q d V reasons as" and ?key = "event_key E reasons" and ?rest = "rest_of q V"
  let ?groups = "first_groups E q reasons V" and ?by = "fold (\<lambda>a. dict_set (aggregate_model_key a) a) as []"
  let ?g = "\<lambda>k. group_aggregate E reasons (group_at E reasons ?rest k)"
  note slice = slice_filter [OF request_slice [OF q]]
  note groups = groups_of_list [where key = ?key and xs = ?rest, folded first_groups_def]
  define ks where "ks = map fst ?groups"
  have ks: "distinct ks" "set ks = ?key ` set ?rest" using groups(1,2) by (simp_all add: ks_def)
  have nonempty: "group_at E reasons ?rest k \<noteq> []" if "k \<in> set ks" for k using that ks(2) by (auto simp: filter_empty_conv)
  have model: "aggregate_model_key (?g k) = k" if "k \<in> set ks" for k
    by (rule aggregate_group_ok(2) [OF E slice r nonempty [OF that]])
  have set_as: "set as = ?g ` set ks" using arg_cong [OF as, of set_mset] ks(2) by simp
  have "mset (map aggregate_model_key as) = image_mset aggregate_model_key (mset as)" by simp
  also have "\<dots> = image_mset (\<lambda>k. aggregate_model_key (?g k)) (mset_set (set ks))"
    unfolding as ks(2) by (simp add: multiset.map_comp comp_def)
  also have "\<dots> = image_mset (\<lambda>k. k) (mset_set (set ks))" using model by (intro image_mset_cong) simp
  finally have keys: "mset (map aggregate_model_key as) = mset ks" using mset_set_set [OF ks(1)] by simp
  then have distinct: "distinct (map aggregate_model_key as)" using same_mset_distinct [OF _ ks(1)] by blast
  have by_key: "?by = map (\<lambda>a. (aggregate_model_key a, a)) as"
  proof -
    have "fold (\<lambda>a. dict_set (aggregate_model_key a) a) xs ys = ys @ map (\<lambda>a. (aggregate_model_key a, a)) xs"
      if "distinct (map fst ys @ map aggregate_model_key xs)" for xs ys
      using that
    proof (induction xs arbitrary: ys)
      case (Cons x xs)
      then have "dict_set (aggregate_model_key x) x ys = ys @ [(aggregate_model_key x, x)]"
        by (intro dict_set_fresh) (simp add: map_of_eq_None_iff has_key_def)
      with Cons show ?case by simp
    qed simp
    from this [of "[]" as] distinct show ?thesis by simp
  qed
  have get: "dict_get ?by k = Some (?g k)" if k: "k \<in> set ks" for k
  proof -
    have "(k, ?g k) \<in> set ?by" unfolding by_key using k set_as model [OF k] by force
    then show ?thesis using distinct unfolding by_key by (intro map_of_is_SomeI) (simp_all add: comp_def)
  qed
  have "\<exists>st. state_from_aggregate E (?g k) (group_at E reasons ?rest k) = Inr st \<and>
      state_ok E reasons k (group_at E reasons ?rest k) st" if "k \<in> set ks" for k
    by (rule state_built [OF E slice_filter [OF slice] nonempty [OF that], where reasons = reasons and k = k]) auto
  then obtain cell where cell: "state_from_aggregate E (?g k) (group_at E reasons ?rest k) = Inr (cell k)"
    "state_ok E reasons k (group_at E reasons ?rest k) (cell k)" if "k \<in> set ks" for k by metis
  have "map_result (\<lambda>(key, events). state_from_aggregate E (the (dict_get ?by key)) events) ?groups =
      Inr (map (\<lambda>x. cell (fst x)) ?groups)"
  proof (rule map_result_map, goal_cases)
    case (1 x)
    obtain k ys where x: "x = (k, ys)" by fastforce
    then have "k \<in> set ks" "ys = group_at E reasons ?rest k" using 1 groups(3) by (auto simp: ks_def rev_image_eqI)
    with x get cell(1) show ?case by simp
  qed
  then have states: "map_result (\<lambda>(key, events). state_from_aggregate E (the (dict_get ?by key)) events) ?groups = Inr (map cell ks)"
    by (simp add: ks_def comp_def)
  have "sum_list (map sz_current_size (map cell ks)) = sum_list (map (\<lambda>k. slice_size E reasons (group_at E reasons ?rest k)) ks)"
    using cell(2) by (intro arg_cong [of _ _ sum_list]) (simp add: state_ok_def Let_def)
  then have current: "sum_list (map sz_current_size (map cell ks)) = aggregate_bytes E q reasons V"
    using sum_list_distinct_conv_sum_set [OF ks(1)] by (simp add: aggregate_bytes_def ks(2))
  have counted: "int (length (map cell ks)) = int (card (keys_of E q reasons V))"
    using distinct_card [OF ks(1)] ks(2) by simp
  have shell: "?p\<lparr>bp_aggregates := [], bp_verbatim_events := []\<rparr> = shell_payload q d reasons"
    by (simp add: payload_with_def shell_payload_def)
  have verbatim: "sum_list (map (encoded_size E \<circ> verbatim_json E) (bp_verbatim_events ?p)) =
      sum_list (map (verbatim_size E reasons) (chosen_of q V))" "length (bp_verbatim_events ?p) = length (chosen_of q V)"
    unfolding payload_with_def batch_payload.simps by (rule verbatim_sizes) simp
  have same_keys: "length ?by = length as" "set (map fst ?groups) = set (map fst ?by)"
    using ks_def mset_eq_setD [OF keys] unfolding by_key by (simp_all add: comp_def)
  define pn where "pn = \<lparr>pn_shell_size = encoded_size E (batch_payload_json E (shell_payload q d reasons)),
    pn_verbatim_count = int (length (chosen_of q V)), pn_verbatim_item_bytes = sum_list (map (verbatim_size E reasons) (chosen_of q V)),
    pn_aggregate_count = int (card (keys_of E q reasons V)), pn_aggregate_item_bytes = aggregate_bytes E q reasons V,
    pn_total_size = planned_size E q d reasons V, pn_aggregate_by_event = cells_of ?groups, pn_states = map cell ks\<rparr>"
  have "bp_aggregates ?p = as" by (simp add: payload_with_def)
  then have "planner_from_payload E q ?p payload_size V reasons = Inr pn"
    unfolding planner_from_payload_def Let_def first_groups_def [symmetric]
    using same_keys states total_of_choice [of E q d reasons V] size payload_size [OF as, of d]
    by (simp only: shell verbatim current counted bind_result_simps simp_thms if_False pn_def)
  moreover have "planner_ok E q d reasons V V pn"
  proof -
    have "\<exists>n<length ks. cells_of ?groups (ev_event_id e) = Some n \<and> ks ! n = ?key e" if e: "e \<in> set ?rest" for e
    proof -
      have len: "length ?groups = length ks" by (simp add: ks_def)
      have "?groups = map (\<lambda>k. (k, group_at E reasons ?rest k)) ks" unfolding ks_def by (rule groups(4))
      then have item: "?groups ! m = (ks ! m, group_at E reasons ?rest (ks ! m))" if "m < length ks" for m
        using that by simp
      have unique: "x = e" if "x \<in> set ?rest" "ev_event_id x = ev_event_id e" for x
        using that e slice by (auto simp: slice_def distinct_map dest: inj_onD)
      obtain n where n: "n < length ks" "ks ! n = ?key e" using e ks(2) by (metis (no_types, lifting) image_eqI in_set_conv_nth)
      have "cells_of ?groups (ev_event_id e) = Some n"
      proof (rule cells_of_event)
        show "n < length ?groups" using n(1) len by simp
        show "e \<in> set (snd (?groups ! n))" using e n(2) by (simp add: item [OF n(1)])
        fix m x
        assume "m < length ?groups" "x \<in> set (snd (?groups ! m))" "ev_event_id x = ev_event_id e"
        then have m: "m < length ks" "x \<in> set ?rest" "?key x = ks ! m" "ev_event_id x = ev_event_id e"
          using item [of m] len by simp_all
        with unique n have "ks ! m = ks ! n" by metis
        with m(1) n(1) ks(1) show "m = n" by (simp add: nth_eq_iff_index_eq)
      qed
      with n show ?thesis by blast
    qed
    then show ?thesis
      using cell(2) by (simp add: planner_ok_def Let_def pn_def flip: ks_def)
  qed
  ultimately show thesis by (rule that)
qed

section \<open>A promotion\<close>

lemma rest_promoted: "rest_of q (V @ [i]) = without i (rest_of q V)"
  by (auto intro: filter_cong)

lemma group_promoted: "group_at E reasons (rest_of q (V @ [i])) k = without i (group_at E reasons (rest_of q V) k)"
  by (auto intro: filter_cong)

lemma split_sum:
  "sum_list (map g (filter P xs)) + sum_list (map g (filter (\<lambda>x. \<not> P x) xs)) = (sum_list (map g xs) :: int)"
  by (induction xs) simp_all

lemma chosen_promoted:
  assumes q: "valid_batch_request q" and e: "e \<in> set (rest_of q V)"
  shows "int (length (chosen_of q (V @ [ev_event_id e]))) = int (length (chosen_of q V)) + 1"
    and "sum_list (map f (chosen_of q (V @ [ev_event_id e]))) = sum_list (map f (chosen_of q V)) + (f e :: int)"
proof -
  have total: "sum_list (map g (chosen_of q W)) + sum_list (map g (rest_of q W)) = sum_list (map g (bq_events q))"
    for g :: "trace_event \<Rightarrow> int" and W
    by (rule split_sum)
  have sums: "sum_list (map g (chosen_of q (V @ [ev_event_id e]))) = sum_list (map g (chosen_of q V)) + g e"
    for g :: "trace_event \<Rightarrow> int"
    using total [of g V] total [of g "V @ [ev_event_id e]"] without_slice(3) [OF slice_filter [OF request_slice [OF q]] e, of g]
    unfolding rest_promoted by linarith
  show "sum_list (map f (chosen_of q (V @ [ev_event_id e]))) = sum_list (map f (chosen_of q V)) + f e" by (rule sums)
  show "int (length (chosen_of q (V @ [ev_event_id e]))) = int (length (chosen_of q V)) + 1"
    using sums [of "\<lambda>_. 1"] by (simp add: sum_list_triv)
qed

lemma aggregates_promoted:
  fixes E :: batch_env and reasons :: priority_reasons
  assumes q: "valid_batch_request q" and e: "e \<in> set (rest_of q V)"
  defines "k \<equiv> event_key E reasons e" and "W \<equiv> V @ [ev_event_id e]"
  shows "\<And>j. j \<noteq> k \<Longrightarrow> group_at E reasons (rest_of q W) j = group_at E reasons (rest_of q V) j"
    and "int (card (keys_of E q reasons W)) =
      int (card (keys_of E q reasons V)) - (if group_at E reasons (rest_of q W) k = [] then 1 else 0)"
    and "aggregate_bytes E q reasons W = aggregate_bytes E q reasons V -
      slice_size E reasons (group_at E reasons (rest_of q V) k) + slice_size E reasons (group_at E reasons (rest_of q W) k)"
    and "e \<in> set (group_at E reasons (rest_of q V) k)"
proof -
  note slice = slice_filter [OF request_slice [OF q]]
  have unique: "x = e" if "x \<in> set (rest_of q V)" "ev_event_id x = ev_event_id e" for x
    using that e slice by (auto simp: slice_def distinct_map dest: inj_onD)
  show others: "group_at E reasons (rest_of q W) j = group_at E reasons (rest_of q V) j" if "j \<noteq> k" for j
    unfolding W_def group_promoted by (rule filter_True) (use that unique in \<open>auto simp: k_def, metis\<close>)
  show member: "e \<in> set (group_at E reasons (rest_of q V) k)" using e by (simp add: k_def)
  have keys: "j \<in> keys_of E q reasons U \<longleftrightarrow> group_at E reasons (rest_of q U) j \<noteq> []" for j U
    by (auto simp: filter_empty_conv)
  have k: "k \<in> keys_of E q reasons V" using e by (simp add: k_def)
  have moved: "keys_of E q reasons W =
      (if group_at E reasons (rest_of q W) k = [] then keys_of E q reasons V - {k} else keys_of E q reasons V)"
  proof (rule set_eqI)
    fix j
    have "j \<in> keys_of E q reasons W \<longleftrightarrow> (if j = k then group_at E reasons (rest_of q W) k \<noteq> [] else j \<in> keys_of E q reasons V)"
      unfolding keys using others [of j] by (cases "j = k") (simp_all only: if_True if_False simp_thms not_False_eq_True)
    then show "j \<in> keys_of E q reasons W \<longleftrightarrow>
      j \<in> (if group_at E reasons (rest_of q W) k = [] then keys_of E q reasons V - {k} else keys_of E q reasons V)"
      by (cases "j = k"; cases "group_at E reasons (rest_of q W) k = []")
        (simp_all only: k if_True if_False Diff_iff insert_iff empty_iff simp_thms)
  qed
  show "int (card (keys_of E q reasons W)) =
      int (card (keys_of E q reasons V)) - (if group_at E reasons (rest_of q W) k = [] then 1 else 0)"
    unfolding moved using k card_gt_0_iff [of "keys_of E q reasons V"] by (auto simp: card_Diff_singleton of_nat_diff)
  let ?f = "\<lambda>U j. slice_size E reasons (group_at E reasons (rest_of q U) j)"
  have "aggregate_bytes E q reasons W = sum (?f W) (keys_of E q reasons V)"
    unfolding aggregate_bytes_def
  proof (rule sum.mono_neutral_left)
    show "\<forall>i\<in>keys_of E q reasons V - keys_of E q reasons W. ?f W i = 0"
    proof
      fix i
      assume "i \<in> keys_of E q reasons V - keys_of E q reasons W"
      then have "group_at E reasons (rest_of q W) i = []" unfolding Diff_iff keys by blast
      then show "?f W i = 0" by (simp only: slice_size_def refl if_True)
    qed
  qed (use moved in \<open>auto split: if_splits\<close>)
  also have "\<dots> = ?f W k + sum (?f W) (keys_of E q reasons V - {k})" by (rule sum.remove) (use k in simp_all)
  also have "sum (?f W) (keys_of E q reasons V - {k}) = sum (?f V) (keys_of E q reasons V - {k})"
    using others by (intro sum.cong) simp_all
  also have "sum (?f V) (keys_of E q reasons V - {k}) = aggregate_bytes E q reasons V - ?f V k"
    unfolding aggregate_bytes_def using sum.remove [OF _ k, of "?f V"] by simp
  finally show "aggregate_bytes E q reasons W = aggregate_bytes E q reasons V - ?f V k + ?f W k" by simp
qed

lemma planner_promotes:
  assumes E: "hex_digest (be_hash E)" and q: "valid_batch_request q" and ok: "planner_ok E q d reasons V0 V pn"
    and e: "e \<in> set (rest_of q V)"
  obtains pv pn' where "planner_preview E pn (ev_event_id e) (verbatim_size E reasons e) = Inr pv"
    "pv_total_size pv = planned_size E q d reasons (V @ [ev_event_id e])" "planner_apply pn pv = Inr pn'"
    "planner_ok E q d reasons V0 (V @ [ev_event_id e]) pn'"
proof -
  let ?i = "ev_event_id e" and ?k = "event_key E reasons e" and ?W = "V @ [ev_event_id e]"
  define ks where "ks = map fst (first_groups E q reasons V0)"
  have old: "set V0 \<subseteq> set V" "length (pn_states pn) = length ks"
    "\<forall>n<length ks. state_ok E reasons (ks ! n) (group_at E reasons (rest_of q V) (ks ! n)) (pn_states pn ! n)"
    "\<forall>e\<in>set (rest_of q V). \<exists>n<length ks. pn_aggregate_by_event pn (ev_event_id e) = Some n \<and> ks ! n = event_key E reasons e"
    "pn_shell_size pn = encoded_size E (batch_payload_json E (shell_payload q d reasons))"
    "pn_verbatim_count pn = int (length (chosen_of q V))"
    "pn_verbatim_item_bytes pn = sum_list (map (verbatim_size E reasons) (chosen_of q V))"
    "pn_aggregate_count pn = int (card (keys_of E q reasons V))" "pn_aggregate_item_bytes pn = aggregate_bytes E q reasons V"
    using ok unfolding planner_ok_def Let_def ks_def by blast+
  have ks: "distinct ks" using groups_of_list(1) unfolding ks_def first_groups_def .
  obtain n where n: "n < length ks" "pn_aggregate_by_event pn ?i = Some n" "ks ! n = ?k" using old(4) e by blast
  note moved = aggregates_promoted [OF q e, where E = E and reasons = reasons]
  have state: "state_ok E reasons ?k (group_at E reasons (rest_of q V) ?k) (pn_states pn ! n)" using old(3) n by metis
  obtain r st where r: "preview_removal E (pn_states pn ! n) ?i = Inr r" "apply_removal (pn_states pn ! n) ?i r = Inr st"
    "state_ok E reasons ?k (group_at E reasons (rest_of q ?W) ?k) st"
    "rm_count r = int (length (group_at E reasons (rest_of q ?W) ?k))"
    "rm_serialized_size r = slice_size E reasons (group_at E reasons (rest_of q ?W) ?k)"
    by (rule state_removal [OF E state moved(4)]) (simp only: group_promoted that)
  have current: "sz_current_size (pn_states pn ! n) = slice_size E reasons (group_at E reasons (rest_of q V) ?k)"
    using state by (simp add: state_ok_def Let_def)
  define pv where "pv = \<lparr>pv_event_id = ?i, pv_aggregate_state = n, pv_aggregate_removal = r,
    pv_verbatim_count = int (length (chosen_of q ?W)),
    pv_verbatim_item_bytes = sum_list (map (verbatim_size E reasons) (chosen_of q ?W)),
    pv_aggregate_count = int (card (keys_of E q reasons ?W)), pv_aggregate_item_bytes = aggregate_bytes E q reasons ?W,
    pv_total_size = planned_size E q d reasons ?W\<rparr>"
  have counts: "pn_aggregate_count pn - (if rm_count r = 0 then 1 else 0) = int (card (keys_of E q reasons ?W))"
    "pn_aggregate_item_bytes pn - sz_current_size (pn_states pn ! n) + rm_serialized_size r = aggregate_bytes E q reasons ?W"
    "pn_verbatim_count pn + 1 = int (length (chosen_of q ?W))"
    "pn_verbatim_item_bytes pn + verbatim_size E reasons e = sum_list (map (verbatim_size E reasons) (chosen_of q ?W))"
    unfolding old(6-9) r(4,5) current moved(2,3) chosen_promoted [OF q e] by (simp_all only: of_nat_eq_0_iff length_0_conv)
  have preview: "planner_preview E pn ?i (verbatim_size E reasons e) = Inr pv"
    unfolding planner_preview_def n(2) option.case r(1) bind_result_simps Let_def counts old(5) total_of_choice pv_def by (rule refl)
  define pn' where "pn' = pn\<lparr>pn_states := (pn_states pn)[n := st], pn_aggregate_by_event := (pn_aggregate_by_event pn)(?i := None),
    pn_verbatim_count := pv_verbatim_count pv, pn_verbatim_item_bytes := pv_verbatim_item_bytes pv,
    pn_aggregate_count := pv_aggregate_count pv, pn_aggregate_item_bytes := pv_aggregate_item_bytes pv,
    pn_total_size := pv_total_size pv\<rparr>"
  have pn'_sel: "pn_states pn' = (pn_states pn)[n := st]" "pn_aggregate_by_event pn' = (pn_aggregate_by_event pn)(?i := None)"
    "pn_shell_size pn' = pn_shell_size pn" "pn_verbatim_count pn' = int (length (chosen_of q ?W))"
    "pn_verbatim_item_bytes pn' = sum_list (map (verbatim_size E reasons) (chosen_of q ?W))"
    "pn_aggregate_count pn' = int (card (keys_of E q reasons ?W))" "pn_aggregate_item_bytes pn' = aggregate_bytes E q reasons ?W"
    "pn_total_size pn' = planned_size E q d reasons ?W"
    by (simp_all only: pn'_def pv_def batch_planner.simps promotion_preview.simps) simp_all
  have pv_sel: "pv_event_id pv = ?i" "pv_aggregate_state pv = n" "pv_aggregate_removal pv = r" by (simp_all add: pv_def)
  have applied: "planner_apply pn pv = Inr pn'"
    unfolding planner_apply_def Let_def pv_sel by (simp add: n(2) r(2) pn'_def)
  have "state_ok E reasons (ks ! m) (group_at E reasons (rest_of q ?W) (ks ! m)) (pn_states pn' ! m)" if m: "m < length ks" for m
  proof (cases "m = n")
    case True
    then show ?thesis using r(3) n old(2) by (simp only: pn'_sel nth_list_update_eq)
  next
    case False
    then have "ks ! m \<noteq> ?k" using n m ks by (metis nth_eq_iff_index_eq)
    have "state_ok E reasons (ks ! m) (group_at E reasons (rest_of q V) (ks ! m)) (pn_states pn ! m)" using old(3) m by blast
    with False show ?thesis unfolding moved(1) [OF \<open>ks ! m \<noteq> ?k\<close>] pn'_sel by (simp only: nth_list_update_neq not_sym)
  qed
  moreover have "\<exists>m<length ks. pn_aggregate_by_event pn' (ev_event_id x) = Some m \<and> ks ! m = event_key E reasons x"
    if x: "x \<in> set (rest_of q ?W)" for x
  proof -
    have "x \<in> set (rest_of q V)" "ev_event_id x \<noteq> ?i" using x by auto
    with old(4) obtain m where "m < length ks" "pn_aggregate_by_event pn (ev_event_id x) = Some m" "ks ! m = event_key E reasons x"
      by blast
    with \<open>ev_event_id x \<noteq> ?i\<close> show ?thesis by (intro exI [of _ m]) (simp only: pn'_sel fun_upd_other simp_thms)
  qed
  ultimately have "planner_ok E q d reasons V0 ?W pn'"
    unfolding planner_ok_def Let_def ks_def [symmetric] using old(1,2,5)
    by (intro conjI) (simp_all only: pn'_sel length_list_update set_append list.set, blast+)
  with preview applied show thesis by (intro that [of pv pn']) (simp_all add: pv_def)
qed

end
