(* ===== verification/Batch_Properties.thy ===== *)
theory Batch_Properties
  imports Batch_Exactness
begin

text \<open>
  The batcher's contract: with the planner it builds what a batcher that measures a rebuilt payload for
  every candidate builds, and what it builds is within the limits and represents the slice.
\<close>

section \<open>The batcher without a planner\<close>

definition payload_bytes :: "batch_env \<Rightarrow> batch_payload \<Rightarrow> int" where
  "payload_bytes E p = encoded_size E (batch_payload_json E p)"

definition rebuild_candidate :: "batch_env \<Rightarrow> batch_config \<Rightarrow> batch_request \<Rightarrow> digest \<Rightarrow> priority_reasons \<Rightarrow> trace_event \<Rightarrow>
    uuid list \<times> (batch_priority_kind \<Rightarrow> int) \<Rightarrow> batch_error + uuid list \<times> (batch_priority_kind \<Rightarrow> int)" where
  "rebuild_candidate E c q d reasons e s =
     (case s of (V, used) \<Rightarrow>
        let i = ev_event_id e; kinds = reasons_of reasons i in
        if list_ex (\<lambda>k. priority_limit c k \<le> used k) kinds then Inr (V, used)
        else if canonical_json (be_float E) (verbatim_json E (verbatim_of reasons e)) = None then Inl BatchInputError
        else bind_result (batch_payload_of E q d V reasons) (\<lambda>p.
             bind_result (batch_payload_of E q d (V @ [i]) reasons) (\<lambda>p'.
             if payload_bytes E p' < payload_bytes E p \<or> byte_budget c < payload_bytes E p' then Inr (V, used)
             else Inr (V @ [i], \<lambda>k. if k \<in> set kinds then used k + 1 else used k))))"

definition rebuilding_batch :: "batch_env \<Rightarrow> batch_request \<Rightarrow> batch_config \<Rightarrow> batch_error + batch_result" where
  "rebuilding_batch E request config =
     bind_result (copy_request request) (\<lambda>q.
     bind_result (copy_config config) (\<lambda>c.
     let d = batch_digest_of E ''saliencegate:batch:configuration:v1'' (batch_config_json c);
         reasons = priority_reasons q; recent = map ev_event_id (recent_events q c) in
     bind_result (batch_payload_of E q d recent reasons) (\<lambda>p.
     bind_result (measure_payload E p) (\<lambda>measured.
     if \<not> size_fits measured c then Inr (overflow_result measured)
     else
       bind_result (fold_result (rebuild_candidate E c q d reasons) (priority_candidates q recent reasons)
           (recent, initial_used reasons recent)) (\<lambda>(V, _).
       bind_result (batch_payload_of E q d V reasons) (\<lambda>p'.
       bind_result (measure_payload E p') (\<lambda>measured'. ready_result E p' measured')))))))"

lemma size_fits_budget:
  assumes "valid_batch_config c"
  shows "size_fits (measure_text t) c \<longleftrightarrow> int (length t) \<le> byte_budget c"
proof -
  have "int ((length t + 3) div 4) \<le> n \<longleftrightarrow> int (length t) \<le> n * 4" for n :: int by linarith
  then show ?thesis by (simp add: size_fits_def measure_text_def byte_budget_def)
qed

lemma measured_length: "ts_utf8_bytes (measure_text t) = length t"
  by (simp add: measure_text_def)

lemma measured_bytes: "measure_payload E p = Inr m \<Longrightarrow> int (ts_utf8_bytes m) = payload_bytes E p \<and> m = measure_text (json_text (be_float E) (batch_payload_json E p))"
  by (auto simp: measure_payload_def canonical_json_def measure_text_def payload_bytes_def encoded_size_def split: if_splits)

text \<open>A pass of the loop with the planner is the pass with rebuilt payloads.\<close>

definition same_choice :: "batch_env \<Rightarrow> batch_request \<Rightarrow> digest \<Rightarrow> priority_reasons \<Rightarrow> uuid list \<Rightarrow> promotion_state \<Rightarrow>
    uuid list \<times> (batch_priority_kind \<Rightarrow> int) \<Rightarrow> bool" where
  "same_choice E q d reasons V0 ps s \<longleftrightarrow> fst s = ps_verbatim_ids ps \<and> snd s = ps_used ps \<and>
     planner_ok E q d reasons V0 (ps_verbatim_ids ps) (ps_planner ps)"

lemma planner_total: "planner_ok E q d reasons V0 V pn \<Longrightarrow> pn_total_size pn = planned_size E q d reasons V"
  by (simp add: planner_ok_def Let_def)

lemma candidate_same:
  assumes E: "hex_digest (be_hash E)" and q: "valid_batch_request q" and r: "distinct_reasons reasons" and d: "sha256_digest d"
    and same: "same_choice E q d reasons V0 ps (V, used)" and e: "e \<in> set (rest_of q V)"
  shows "case promote_candidate E c reasons e ps of
      Inl x \<Rightarrow> rebuild_candidate E c q d reasons e (V, used) = Inl x
    | Inr ps' \<Rightarrow> \<exists>W used'. rebuild_candidate E c q d reasons e (V, used) = Inr (W, used') \<and>
        same_choice E q d reasons V0 ps' (W, used') \<and> (W = V \<or> W = V @ [ev_event_id e])"
proof -
  let ?i = "ev_event_id e" and ?kinds = "reasons_of reasons (ev_event_id e)"
  have ps: "ps_verbatim_ids ps = V" "ps_used ps = used" "planner_ok E q d reasons V0 V (ps_planner ps)"
    using same by (auto simp: same_choice_def)
  obtain as as' where built: "batch_payload_of E q d V reasons = Inr (payload_with q d V reasons as)"
    "batch_payload_of E q d (V @ [?i]) reasons = Inr (payload_with q d (V @ [?i]) reasons as')"
    and sizes: "payload_bytes E (payload_with q d V reasons as) = planned_size E q d reasons V"
      "payload_bytes E (payload_with q d (V @ [?i]) reasons as') = planned_size E q d reasons (V @ [?i])"
    using payload_built [OF E q r d, of V] payload_built [OF E q r d, of "V @ [?i]"] payload_size
    unfolding payload_bytes_def by metis
  note total = planner_total [OF ps(3)]
  show ?thesis
  proof (cases "list_ex (\<lambda>k. priority_limit c k \<le> used k) ?kinds")
    case True
    with ps same show ?thesis by (simp add: promote_candidate_def rebuild_candidate_def Let_def)
  next
    case open_: False
    show ?thesis
    proof (cases "canonical_json (be_float E) (verbatim_json E (verbatim_of reasons e))")
      case None
      with open_ ps show ?thesis by (simp add: promote_candidate_def rebuild_candidate_def Let_def)
    next
      case (Some w)
      then have w: "int (length w) = verbatim_size E reasons e"
        by (simp add: canonical_json_def verbatim_size_def encoded_size_def split: if_splits)
      obtain pv pn' where moved: "planner_preview E (ps_planner ps) ?i (verbatim_size E reasons e) = Inr pv"
        "pv_total_size pv = planned_size E q d reasons (V @ [?i])" "planner_apply (ps_planner ps) pv = Inr pn'"
        "planner_ok E q d reasons V0 (V @ [?i]) pn'"
        by (rule planner_promotes [OF E q ps(3) e])
      have rebuilt: "rebuild_candidate E c q d reasons e (V, used) =
          (if planned_size E q d reasons (V @ [?i]) < planned_size E q d reasons V \<or> byte_budget c < planned_size E q d reasons (V @ [?i])
           then Inr (V, used) else Inr (V @ [?i], \<lambda>k. if k \<in> set ?kinds then used k + 1 else used k))"
        using open_ Some by (simp only: rebuild_candidate_def prod.case Let_def if_False option.distinct built bind_result_simps sizes)
      have planned: "promote_candidate E c reasons e ps =
          (if planned_size E q d reasons (V @ [?i]) < planned_size E q d reasons V \<or> byte_budget c < planned_size E q d reasons (V @ [?i])
           then Inr ps else Inr \<lparr>ps_planner = pn', ps_verbatim_ids = V @ [?i],
             ps_used = \<lambda>k. if k \<in> set ?kinds then used k + 1 else used k\<rparr>)"
        using open_ by (simp only: promote_candidate_def Let_def ps Some option.case if_False w moved bind_result_simps total)
      show ?thesis
        using same moved(4) unfolding rebuilt planned by (auto simp: same_choice_def)
    qed
  qed
qed

lemma loop_same:
  assumes E: "hex_digest (be_hash E)" and q: "valid_batch_request q" and r: "distinct_reasons reasons" and d: "sha256_digest d"
    and same: "same_choice E q d reasons V0 ps (V, used)"
    and es: "distinct (map ev_event_id es)" "set es \<subseteq> set (rest_of q V)"
  shows "case fold_result (promote_candidate E c reasons) es ps of
      Inl x \<Rightarrow> fold_result (rebuild_candidate E c q d reasons) es (V, used) = Inl x
    | Inr ps' \<Rightarrow> \<exists>Z used'. fold_result (rebuild_candidate E c q d reasons) es (V, used) = Inr (V @ Z, used') \<and>
        same_choice E q d reasons V0 ps' (V @ Z, used')"
  using same es
proof (induction es arbitrary: ps V used)
  case (Cons e es)
  have e: "e \<in> set (rest_of q V)" using Cons.prems(3) by simp
  note one = candidate_same [OF E q r d Cons.prems(1) e, of c]
  show ?case
  proof (cases "promote_candidate E c reasons e ps")
    case (Inl x)
    with one show ?thesis by simp
  next
    case (Inr ps')
    with one obtain W used' where W: "rebuild_candidate E c q d reasons e (V, used) = Inr (W, used')"
      "same_choice E q d reasons V0 ps' (W, used')" "W = V \<or> W = V @ [ev_event_id e]" by auto
    have fresh: "ev_event_id x \<noteq> ev_event_id e" if "x \<in> set es" for x using Cons.prems(2) that by (metis distinct.simps(2) image_eqI list.simps(9) list.set_map)
    have "set es \<subseteq> set (rest_of q W)" using fresh Cons.prems(3) W(3) by auto
    with Cons.IH [OF W(2)] Cons.prems(2) have "case fold_result (promote_candidate E c reasons) es ps' of
        Inl x \<Rightarrow> fold_result (rebuild_candidate E c q d reasons) es (W, used') = Inl x
      | Inr ps'' \<Rightarrow> \<exists>Z used''. fold_result (rebuild_candidate E c q d reasons) es (W, used') = Inr (W @ Z, used'') \<and>
          same_choice E q d reasons V0 ps'' (W @ Z, used'')" by simp
    with Inr W(1,3) show ?thesis by (auto split: sum.splits intro: exI [of _ "ev_event_id e # _"])
  qed
qed simp

lemma candidates_rest:
  assumes q: "valid_batch_request q"
  shows "distinct (map ev_event_id (priority_candidates q V reasons))" and "set (priority_candidates q V reasons) \<subseteq> set (rest_of q V)"
proof -
  have "distinct (map ev_event_id (filter (\<lambda>e. ev_event_id e \<notin> set V \<and> reasons_of reasons (ev_event_id e) \<noteq> []) (bq_events q)))"
    using slice_filter [OF request_slice [OF q]] by (simp add: slice_def)
  then show "distinct (map ev_event_id (priority_candidates q V reasons))"
    unfolding priority_candidates_def by (rule same_mset_distinct [rotated]) (simp only: mset_map mset_sort)
  show "set (priority_candidates q V reasons) \<subseteq> set (rest_of q V)" by (auto simp: priority_candidates_def)
qed

text \<open>What the loop over rebuilt payloads keeps.\<close>

lemma rebuild_step:
  assumes E: "hex_digest (be_hash E)" and q: "valid_batch_request q" and r: "distinct_reasons reasons" and d: "sha256_digest d"
  shows "rebuild_candidate E c q d reasons e s = Inl x \<Longrightarrow> x = BatchInputError \<and>
      canonical_json (be_float E) (verbatim_json E (verbatim_of reasons e)) = None"
    and "rebuild_candidate E c q d reasons e (V, used) = Inr (W, used') \<Longrightarrow>
      W = V \<and> used' = used \<or>
      W = V @ [ev_event_id e] \<and> planned_size E q d reasons W \<le> byte_budget c \<and>
      (\<forall>k\<in>set (reasons_of reasons (ev_event_id e)). used k < priority_limit c k) \<and>
      used' = (\<lambda>k. if k \<in> set (reasons_of reasons (ev_event_id e)) then used k + 1 else used k)"
proof -
  have built: "\<exists>p. batch_payload_of E q d V reasons = Inr p \<and> payload_bytes E p = planned_size E q d reasons V" for V
    using payload_built [OF E q r d, of V] payload_size unfolding payload_bytes_def by metis
  have step: "rebuild_candidate E c q d reasons e (V, used) =
      (if list_ex (\<lambda>k. priority_limit c k \<le> used k) (reasons_of reasons (ev_event_id e)) then Inr (V, used)
       else if canonical_json (be_float E) (verbatim_json E (verbatim_of reasons e)) = None then Inl BatchInputError
       else if planned_size E q d reasons (V @ [ev_event_id e]) < planned_size E q d reasons V \<or>
          byte_budget c < planned_size E q d reasons (V @ [ev_event_id e]) then Inr (V, used)
       else Inr (V @ [ev_event_id e], \<lambda>k. if k \<in> set (reasons_of reasons (ev_event_id e)) then used k + 1 else used k))" for V used
    using built [of V] built [of "V @ [ev_event_id e]"] by (auto simp add: rebuild_candidate_def Let_def)
  show "rebuild_candidate E c q d reasons e s = Inl x \<Longrightarrow> x = BatchInputError \<and>
      canonical_json (be_float E) (verbatim_json E (verbatim_of reasons e)) = None"
    by (cases s) (simp add: step split: if_splits)
  show "rebuild_candidate E c q d reasons e (V, used) = Inr (W, used') \<Longrightarrow>
      W = V \<and> used' = used \<or>
      W = V @ [ev_event_id e] \<and> planned_size E q d reasons W \<le> byte_budget c \<and>
      (\<forall>k\<in>set (reasons_of reasons (ev_event_id e)). used k < priority_limit c k) \<and>
      used' = (\<lambda>k. if k \<in> set (reasons_of reasons (ev_event_id e)) then used k + 1 else used k)"
    unfolding step by (auto simp: list_ex_iff split: if_splits)
qed

lemma fold_result_Inl: "fold_result f xs s = Inl x \<Longrightarrow> \<exists>y\<in>set xs. \<exists>s'. f y s' = Inl x"
  by (induction xs arbitrary: s) (auto simp: bind_result_Inl)

lemma rebuild_loop_fits:
  assumes E: "hex_digest (be_hash E)" and q: "valid_batch_request q" and r: "distinct_reasons reasons" and d: "sha256_digest d"
    and loop: "fold_result (rebuild_candidate E c q d reasons) es (V, used) = Inr (W, used')"
    and fits: "planned_size E q d reasons V \<le> byte_budget c"
  shows "planned_size E q d reasons W \<le> byte_budget c"
proof -
  have "planned_size E q d reasons (fst (W, used')) \<le> byte_budget c"
  proof (rule fold_result_invariant [OF loop, where P = "\<lambda>s. planned_size E q d reasons (fst s) \<le> byte_budget c"])
    fix e s s'
    assume "planned_size E q d reasons (fst s) \<le> byte_budget c" "rebuild_candidate E c q d reasons e s = Inr s'"
    then show "planned_size E q d reasons (fst s') \<le> byte_budget c"
      using rebuild_step(2) [OF E q r d, of c e "fst s" "snd s" "fst s'" "snd s'"] by auto
  qed (use fits in simp)
  then show ?thesis by simp
qed

lemma configuration_digest_ok': "hex_digest (be_hash E) \<Longrightarrow> sha256_digest (batch_digest_of E domain v)"
  by (simp add: batch_digest_of_def length_prefixed_digest)

section \<open>The batch of a request\<close>

text \<open>What both batchers do after the first payload fits.\<close>

definition planned_rest :: "batch_env \<Rightarrow> batch_request \<Rightarrow> batch_config \<Rightarrow> digest \<Rightarrow> priority_reasons \<Rightarrow> uuid list \<Rightarrow>
    batch_payload \<Rightarrow> text_size \<Rightarrow> batch_error + batch_result" where
  "planned_rest E q c d reasons recent p measured =
     bind_result (planner_from_payload E q p measured recent reasons) (\<lambda>pn.
     bind_result (fold_result (promote_candidate E c reasons) (priority_candidates q recent reasons)
         \<lparr>ps_planner = pn, ps_verbatim_ids = recent, ps_used = initial_used reasons recent\<rparr>) (\<lambda>ps.
     bind_result (if length (ps_verbatim_ids ps) = length recent then Inr (p, measured)
         else bind_result (batch_payload_of E q d (ps_verbatim_ids ps) reasons) (\<lambda>p'.
           bind_result (measure_payload E p') (\<lambda>measured'. Inr (p', measured')))) (\<lambda>(p', measured').
     if int (ts_utf8_bytes measured') \<noteq> pn_total_size (ps_planner ps) \<or> \<not> size_fits measured' c
     then Inl BatchIntegrityError
     else ready_result E p' measured')))"

definition rebuilt_rest :: "batch_env \<Rightarrow> batch_request \<Rightarrow> batch_config \<Rightarrow> digest \<Rightarrow> priority_reasons \<Rightarrow> uuid list \<Rightarrow>
    batch_error + batch_result" where
  "rebuilt_rest E q c d reasons recent =
     bind_result (fold_result (rebuild_candidate E c q d reasons) (priority_candidates q recent reasons)
         (recent, initial_used reasons recent)) (\<lambda>(V, _).
     bind_result (batch_payload_of E q d V reasons) (\<lambda>p'.
     bind_result (measure_payload E p') (\<lambda>measured'. ready_result E p' measured')))"

text \<open>The choice both end with: the recent events and what was promoted.\<close>

lemma rest_choice:
  assumes E: "hex_digest (be_hash E)" and q: "valid_batch_request q" and r: "distinct_reasons reasons" and d: "sha256_digest d"
    and c: "valid_batch_config c"
    and p: "batch_payload_of E q d recent reasons = Inr p" "measure_payload E p = Inr m" and fits: "size_fits m c"
  obtains pn where "planner_from_payload E q p m recent reasons = Inr pn"
    "case fold_result (promote_candidate E c reasons) (priority_candidates q recent reasons)
         \<lparr>ps_planner = pn, ps_verbatim_ids = recent, ps_used = initial_used reasons recent\<rparr> of
      Inl x \<Rightarrow> x = BatchInputError \<and> fold_result (rebuild_candidate E c q d reasons) (priority_candidates q recent reasons)
         (recent, initial_used reasons recent) = Inl x
    | Inr ps \<Rightarrow> \<exists>Z used. fold_result (rebuild_candidate E c q d reasons) (priority_candidates q recent reasons)
         (recent, initial_used reasons recent) = Inr (recent @ Z, used) \<and> ps_verbatim_ids ps = recent @ Z \<and>
         pn_total_size (ps_planner ps) = planned_size E q d reasons (recent @ Z) \<and>
         planned_size E q d reasons (recent @ Z) \<le> byte_budget c"
proof -
  obtain as where as: "p = payload_with q d recent reasons as" "mset as = image_mset (\<lambda>k. group_aggregate E reasons
      (group_at E reasons (rest_of q recent) k)) (mset_set (keys_of E q reasons recent))"
    using payload_built [OF E q r d, of recent] p(1) by auto
  note m = measured_bytes [OF p(2)]
  obtain pn where pn: "planner_from_payload E q p m recent reasons = Inr pn" "planner_ok E q d reasons recent recent pn"
    using planner_built [OF E q r as(2), of m d] m unfolding as(1) payload_bytes_def by blast
  let ?ps = "\<lparr>ps_planner = pn, ps_verbatim_ids = recent, ps_used = initial_used reasons recent\<rparr>"
  have "same_choice E q d reasons recent ?ps (recent, initial_used reasons recent)" using pn(2) by (simp add: same_choice_def)
  note loop = loop_same [OF E q r d this candidates_rest [OF q], of c reasons]
  have first: "planned_size E q d reasons recent \<le> byte_budget c"
    using fits m size_fits_budget [OF c, of "json_text (be_float E) (batch_payload_json E p)"] payload_size [OF as(2), of d]
    by (simp add: encoded_size_def as(1))
  show thesis
  proof (rule that [OF pn(1)], cases "fold_result (promote_candidate E c reasons) (priority_candidates q recent reasons) ?ps", goal_cases)
    case (1 x)
    then show ?case using loop fold_result_Inl rebuild_step(1) [OF E q r d] by fastforce
  next
    case (2 ps)
    with loop obtain Z used where Z: "fold_result (rebuild_candidate E c q d reasons) (priority_candidates q recent reasons)
        (recent, initial_used reasons recent) = Inr (recent @ Z, used)" "same_choice E q d reasons recent ps (recent @ Z, used)"
      by (simp only: sum.case) blast
    then have ps: "ps_verbatim_ids ps = recent @ Z" "planner_ok E q d reasons recent (recent @ Z) (ps_planner ps)"
      by (simp_all add: same_choice_def)
    show ?case
      unfolding 2 sum.case using Z(1) ps(1) planner_total [OF ps(2)] rebuild_loop_fits [OF E q r d Z(1) first] by blast
  qed
qed

lemma rest_same:
  assumes E: "hex_digest (be_hash E)" and q: "valid_batch_request q" and r: "distinct_reasons reasons" and d: "sha256_digest d"
    and c: "valid_batch_config c"
    and p: "batch_payload_of E q d recent reasons = Inr p" "measure_payload E p = Inr m" and fits: "size_fits m c"
  shows "planned_rest E q c d reasons recent p m = rebuilt_rest E q c d reasons recent"
proof -
  let ?start = "\<lambda>pn. \<lparr>ps_planner = pn, ps_verbatim_ids = recent, ps_used = initial_used reasons recent\<rparr>"
  obtain pn where pn: "planner_from_payload E q p m recent reasons = Inr pn"
    and loop: "case fold_result (promote_candidate E c reasons) (priority_candidates q recent reasons) (?start pn) of
      Inl x \<Rightarrow> x = BatchInputError \<and> fold_result (rebuild_candidate E c q d reasons) (priority_candidates q recent reasons)
         (recent, initial_used reasons recent) = Inl x
    | Inr ps \<Rightarrow> \<exists>Z used. fold_result (rebuild_candidate E c q d reasons) (priority_candidates q recent reasons)
         (recent, initial_used reasons recent) = Inr (recent @ Z, used) \<and> ps_verbatim_ids ps = recent @ Z \<and>
         pn_total_size (ps_planner ps) = planned_size E q d reasons (recent @ Z) \<and>
         planned_size E q d reasons (recent @ Z) \<le> byte_budget c"
    by (rule rest_choice [OF assms])
  show ?thesis
  proof (cases "fold_result (promote_candidate E c reasons) (priority_candidates q recent reasons) (?start pn)")
    case (Inl x)
    with loop show ?thesis by (simp add: planned_rest_def rebuilt_rest_def pn)
  next
    case (Inr ps)
    with loop obtain Z used where Z: "fold_result (rebuild_candidate E c q d reasons) (priority_candidates q recent reasons)
        (recent, initial_used reasons recent) = Inr (recent @ Z, used)" "ps_verbatim_ids ps = recent @ Z"
      "pn_total_size (ps_planner ps) = planned_size E q d reasons (recent @ Z)"
      "planned_size E q d reasons (recent @ Z) \<le> byte_budget c" by (simp only: sum.case) blast
    obtain p' where p': "batch_payload_of E q d (recent @ Z) reasons = Inr p'" "payload_bytes E p' = planned_size E q d reasons (recent @ Z)"
      using payload_built [OF E q r d, of "recent @ Z"] payload_size unfolding payload_bytes_def by metis
    have again: "(if length (ps_verbatim_ids ps) = length recent then Inr (p, m)
        else bind_result (batch_payload_of E q d (ps_verbatim_ids ps) reasons) (\<lambda>p'.
          bind_result (measure_payload E p') (\<lambda>measured'. Inr (p', measured')))) =
      bind_result (measure_payload E p') (\<lambda>measured'. Inr (p', measured'))"
      unfolding Z(2) using p p' by (cases "Z = []") simp_all
    have "\<not> (int (ts_utf8_bytes m') \<noteq> pn_total_size (ps_planner ps) \<or> \<not> size_fits m' c)" if "measure_payload E p' = Inr m'" for m'
    proof -
      note m' = measured_bytes [OF that]
      have "size_fits m' c"
        using m' Z(4) p'(2) size_fits_budget [OF c, of "json_text (be_float E) (batch_payload_json E p')"]
        by (simp add: payload_bytes_def encoded_size_def)
      then show ?thesis using conjunct1 [OF m'] Z(3) p'(2) by simp
    qed
    then show ?thesis
      unfolding planned_rest_def rebuilt_rest_def pn bind_result_simps Inr again Z(1) prod.case p'(1)
      by (cases "measure_payload E p'") simp_all
  qed
qed

lemma build_rebuilds:
  assumes E: "hex_digest (be_hash E)"
  shows "build_batch E request config = rebuilding_batch E request config"
proof (cases "valid_batch_request (ordered_request request) \<and> valid_batch_config config")
  case True
  define q where "q = ordered_request request"
  let ?reasons = "priority_reasons q" and ?recent = "map ev_event_id (recent_events q config)"
  let ?d = "batch_digest_of E ''saliencegate:batch:configuration:v1'' (batch_config_json config)"
  have q: "valid_batch_request q" "copy_request request = Inr q" and c: "copy_config config = Inr config" "valid_batch_config config"
    using True by (simp_all add: q_def copy_request_def copy_config_def)
  have r: "distinct_reasons ?reasons" by (simp add: distinct_reasons_def priority_reasons_distinct)
  note same = rest_same [OF E q(1) r configuration_digest_ok' [OF E] c(2), unfolded planned_rest_def rebuilt_rest_def]
  obtain p where p: "batch_payload_of E q ?d ?recent ?reasons = Inr p"
    using payload_built [OF E q(1) r configuration_digest_ok' [OF E]] by metis
  show ?thesis
  proof (cases "measure_payload E p")
    case (Inl e)
    then show ?thesis by (simp add: build_batch_def rebuilding_batch_def q(2) c(1) Let_def p)
  next
    case (Inr m)
    with same [OF p Inr] show ?thesis
      by (simp add: build_batch_def rebuilding_batch_def q(2) c(1) Let_def p)
  qed
next
  case False
  then show ?thesis by (auto simp: build_batch_def rebuilding_batch_def copy_request_def copy_config_def Let_def)
qed

text \<open>
  C14. The size planner is exact: whatever the request, the configuration and the JSON of the embedded records,
  \<open>DeterministicBatcher.build\<close> returns, or raises, exactly what a batcher does that builds the payload again for
  every candidate and measures its canonical JSON, when digests have 64 hexadecimal digits; so the planner's
  linked sequences, ranges and byte counts never disagree with the payload.
\<close>

theorem planned_batch_is_rebuilt_batch:
  assumes "hex_digest (be_hash E)"
  shows "build_batch E request config = rebuilding_batch E request config"
  by (rule build_rebuilds [OF assms])

definition sample_batch_env :: batch_env where
  "sample_batch_env = \<lparr>be_hash = zero_hash, be_float = ratio_text, be_dump_event = (\<lambda>e. JStr (ev_source_event_id e)),
     be_dump_memory = (\<lambda>m. JStr (mr_content m))\<rparr>"

definition sample_batch_request :: batch_request where
  "sample_batch_request = \<lparr>bq_run_id = sample_uuid 1, bq_memory_cursor = 0, bq_events = [sample_event],
     bq_historical_event_ids = [], bq_signals = [], bq_task_requirements = [], bq_unresolved_state = []\<rparr>"

definition sample_batch_config :: batch_config where
  "sample_batch_config = \<lparr>bf_max_utf8_bytes = 4000, bf_max_approximate_tokens = 1000, bf_recent_event_count = 0,
     bf_max_controller_errors = 1, bf_max_action_proposals = 1, bf_max_tool_errors = 1, bf_max_test_failures = 1,
     bf_max_conflicts = 1\<rparr>"

lemma sample_batch_inputs:
  "hex_digest (be_hash sample_batch_env)" "copy_request sample_batch_request = Inr sample_batch_request"
  "copy_config sample_batch_config = Inr sample_batch_config"
  using sample_event_valid
  by (simp_all add: sample_batch_env_def copy_request_def ordered_request_def sample_batch_request_def order_memories_def
      valid_batch_request_def max_batch_sequence_def copy_config_def sample_batch_config_def valid_batch_config_def)
    (simp_all add: sample_event_def)

theorem planned_batch_is_rebuilt_batch_witness:
  "build_batch sample_batch_env sample_batch_request sample_batch_config =
     rebuilding_batch sample_batch_env sample_batch_request sample_batch_config"
  by (rule planned_batch_is_rebuilt_batch [OF sample_batch_inputs(1)])

section \<open>What a batch holds\<close>

definition finite_dumps :: "batch_env \<Rightarrow> bool" where
  "finite_dumps E \<longleftrightarrow> (\<forall>e. json_finite (be_dump_event E e)) \<and> (\<forall>m. json_finite (be_dump_memory E m))"

lemma verbatim_finite: "finite_dumps E \<Longrightarrow> json_finite (verbatim_json E v)"
  by (simp add: finite_dumps_def verbatim_json_def kinds_json_def list_all_iff)

lemma chosen_recent:
  assumes "valid_batch_request q"
  shows "chosen_of q (map ev_event_id (recent_events q c)) = recent_events q c"
proof -
  have keep: "filter (\<lambda>e. f e \<in> set (map f (drop n es))) es = drop n es" if "distinct (map f es)" for f :: "trace_event \<Rightarrow> uuid" and n es
    using that
  proof (induction n arbitrary: es)
    case (Suc n)
    show ?case
    proof (cases es)
      case (Cons x xs)
      with Suc.prems have "f x \<notin> set (map f (drop n xs))" by (auto dest: in_set_dropD)
      with Suc.IH [of xs] Suc.prems Cons show ?thesis by simp
    qed simp
  qed (simp add: filter_id_conv)
  have "distinct (map ev_event_id (bq_events q))" using request_slice [OF assms] by (simp add: slice_def)
  then show ?thesis by (simp only: recent_events_def keep)
qed

lemma payload_encodes: "finite_dumps E \<Longrightarrow> canonical_json (be_float E) (batch_payload_json E p) = Some (json_text (be_float E) (batch_payload_json E p))"
proof -
  assume E: "finite_dumps E"
  have "json_finite (memory_json E m)" for m using E by (simp add: finite_dumps_def memory_json_def)
  moreover have "json_finite (aggregate_json a)" for a
    by (simp add: aggregate_json_def kinds_json_def range_json_def list_all_iff)
  ultimately show ?thesis
    using verbatim_finite [OF E] by (simp add: canonical_json_def batch_payload_json_def list_all_iff)
qed

lemma ready_succeeds:
  assumes "hex_digest (be_hash E)" and "finite_dumps E"
  obtains r m where "ready_result E p (measure_text (json_text (be_float E) (batch_payload_json E p))) = Inr r"
    "bl_status r = Batch_READY" "bl_manifest r = Some m" "mn_payload m = p"
    "canonical_payload E m = Inr (json_text (be_float E) (batch_payload_json E p))"
  using that payload_encodes [OF assms(2), of p] length_prefixed_digest [OF assms(1)]
  by (simp add: ready_result_def Let_def valid_batch_manifest_def attested_payload_def valid_batch_result_def canonical_payload_def)

definition kind_count :: "batch_priority_kind \<Rightarrow> batch_payload \<Rightarrow> int" where
  "kind_count k p = int (length (filter (\<lambda>v. k \<in> set (ve_priority_kinds v)) (bp_verbatim_events p)))"

lemma kind_count_le:
  assumes "valid_batch_request q"
  shows "kind_count k (payload_with q d V reasons as) \<le> initial_used reasons V k"
proof -
  let ?es = "filter (\<lambda>e. ev_event_id e \<in> set V \<and> k \<in> set (reasons_of reasons (ev_event_id e))) (bq_events q)"
  have "filter (\<lambda>v. k \<in> set (ve_priority_kinds v)) (map (verbatim_of reasons) (chosen_of q V)) = map (verbatim_of reasons) ?es"
    by (simp add: filter_map comp_def verbatim_of_def sorted_reasons_def)
  then have "kind_count k (payload_with q d V reasons as) = int (length ?es)"
    by (simp add: kind_count_def payload_with_def)
  also have "length ?es = card (set (map ev_event_id ?es))"
  proof -
    have "distinct (map ev_event_id ?es)" using slice_filter [OF request_slice [OF assms]] unfolding slice_def by blast
    from distinct_card [OF this] show ?thesis by simp
  qed
  also have "card (set (map ev_event_id ?es)) \<le> card (set (filter (\<lambda>i. k \<in> set (reasons_of reasons i)) V))"
    by (rule card_mono) auto
  also have "\<dots> \<le> length (filter (\<lambda>i. k \<in> set (reasons_of reasons i)) V)" by (rule card_length)
  finally show ?thesis by (simp add: initial_used_def)
qed

lemma rebuild_loop_quotas:
  assumes E: "hex_digest (be_hash E)" and q: "valid_batch_request q" and r: "distinct_reasons reasons" and d: "sha256_digest d"
    and loop: "fold_result (rebuild_candidate E c q d reasons) es (V0, initial_used reasons V0) = Inr (V, used)"
  shows "set V0 \<subseteq> set V \<and> (\<forall>k. initial_used reasons V k \<le> max (priority_limit c k) (initial_used reasons V0 k))"
proof -
  define ok where "ok s = (set V0 \<subseteq> set (fst s) \<and> snd s = initial_used reasons (fst s) \<and>
    (\<forall>k. initial_used reasons (fst s) k \<le> max (priority_limit c k) (initial_used reasons V0 k)))"
    for s :: "uuid list \<times> (batch_priority_kind \<Rightarrow> int)"
  have more: "initial_used reasons (W @ [i]) k = initial_used reasons W k + (if k \<in> set (reasons_of reasons i) then 1 else 0)" for W i k
    by (simp add: initial_used_def)
  have "ok (V, used)"
  proof (rule fold_result_invariant [OF loop, where P = ok])
    fix e s s'
    assume s: "ok s" and step: "rebuild_candidate E c q d reasons e s = Inr s'"
    obtain W u where W: "s = (W, u)" by fastforce
    obtain W' u' where W': "s' = (W', u')" by fastforce
    have u: "u = initial_used reasons W" using s by (simp add: ok_def W)
    consider "s' = s" | "W' = W @ [ev_event_id e]" "\<forall>k\<in>set (reasons_of reasons (ev_event_id e)). u k < priority_limit c k"
      "u' = (\<lambda>k. if k \<in> set (reasons_of reasons (ev_event_id e)) then u k + 1 else u k)"
      using rebuild_step(2) [OF E q r d, of c e W u W' u'] step by (auto simp: W W')
    then show "ok s'"
    proof cases
      case 2
      have "initial_used reasons W' k \<le> max (priority_limit c k) (initial_used reasons V0 k)" for k
        using s 2(2) unfolding 2(1) more by (cases "k \<in> set (reasons_of reasons (ev_event_id e))") (auto simp: ok_def W u)
      moreover have "u' = initial_used reasons W'" unfolding 2(1,3) u by (rule ext) (simp add: more)
      ultimately show ?thesis using s 2(1) by (auto simp: ok_def W W')
    qed (use s in simp)
  qed (simp add: ok_def)
  then show ?thesis by (simp add: ok_def)
qed

lemma rebuild_loop_total:
  assumes "hex_digest (be_hash E)" and "finite_dumps E" and "valid_batch_request q" and "distinct_reasons reasons" and "sha256_digest d"
  obtains V used where "fold_result (rebuild_candidate E c q d reasons) es s = Inr (V, used)"
proof (cases "fold_result (rebuild_candidate E c q d reasons) es s")
  case (Inl x)
  then obtain e s' where "rebuild_candidate E c q d reasons e s' = Inl x" using fold_result_Inl by metis
  then have "canonical_json (be_float E) (verbatim_json E (verbatim_of reasons e)) = None"
    using rebuild_step(1) [OF assms(1,3-5)] by blast
  with verbatim_finite [OF assms(2)] show thesis by (simp add: canonical_json_def)
next
  case (Inr p)
  with that show thesis by (cases p) simp
qed

text \<open>
  C15. A batch holds its slice: for a request and a configuration that validate, and records whose JSON is
  finite, a batch is built. Let the mandatory payload hold the recent events verbatim, in order, and every
  other event of the slice in an aggregate. The answer is the overflow one exactly when the canonical text
  of that payload exceeds the budget of bytes, and it then reports the size of that text; otherwise it is
  ready, and its manifest attests a canonical payload within the budget which represents every event of the
  slice exactly once, verbatim or in an aggregate, holds the recent events verbatim, and holds of each
  priority kind no more verbatim events than the limit of the kind or the recent events already make up.
\<close>

theorem batches_hold_the_slice:
  assumes "hex_digest (be_hash E)" and "finite_dumps E" and "copy_request request = Inr q" and "copy_config config = Inr c"
  shows "\<exists>r mandatory needed. build_batch E request config = Inr r \<and>
    batch_payload_of E q (batch_digest_of E ''saliencegate:batch:configuration:v1'' (batch_config_json c))
      (map ev_event_id (recent_events q c)) (priority_reasons q) = Inr mandatory \<and>
    map ve_event (bp_verbatim_events mandatory) = recent_events q c \<and>
    mset (represented_sequences mandatory) = mset (map ev_sequence (bq_events q)) \<and>
    canonical_json (be_float E) (batch_payload_json E mandatory) = Some needed \<and>
    (case bl_manifest r of
       None \<Rightarrow> bl_status r = Batch_MANDATORY_INPUT_OVERFLOW \<and> byte_budget c < int (length needed) \<and>
         bl_required_size r = measure_text needed
     | Some m \<Rightarrow> bl_status r = Batch_READY \<and> int (length needed) \<le> byte_budget c \<and>
         (\<exists>text. canonical_payload E m = Inr text \<and> int (length text) \<le> byte_budget c) \<and>
         mset (represented_sequences (mn_payload m)) = mset (map ev_sequence (bq_events q)) \<and>
         mset (represented_ids (mn_payload m)) = mset (map ev_event_id (bq_events q)) \<and>
         set (recent_events q c) \<subseteq> ve_event ` set (bp_verbatim_events (mn_payload m)) \<and>
         (\<forall>k. kind_count k (mn_payload m) \<le>
            max (priority_limit c k) (initial_used (priority_reasons q) (map ev_event_id (recent_events q c)) k)))"
proof -
  let ?reasons = "priority_reasons q" and ?recent = "map ev_event_id (recent_events q c)"
  let ?d = "batch_digest_of E ''saliencegate:batch:configuration:v1'' (batch_config_json c)"
  have q: "valid_batch_request q" "copy_request request = Inr q" and c: "config = c" "copy_config c = Inr c" "valid_batch_config c"
    using assms(3,4) by (auto simp: copy_request_def copy_config_def Let_def split: if_splits)
  have r: "distinct_reasons ?reasons" by (simp add: distinct_reasons_def priority_reasons_distinct)
  note d = configuration_digest_ok' [OF assms(1)]
  note built = payload_built [OF assms(1) q(1) r d]
  obtain as where p: "batch_payload_of E q ?d ?recent ?reasons = Inr (payload_with q ?d ?recent ?reasons as)" "mset as =
      image_mset (\<lambda>k. group_aggregate E ?reasons (group_at E ?reasons (rest_of q ?recent) k)) (mset_set (keys_of E q ?reasons ?recent))"
    using built by blast
  let ?text = "\<lambda>p. json_text (be_float E) (batch_payload_json E p)"
  have measured: "measure_payload E p = Inr (measure_text (?text p))" for p
    by (simp add: measure_payload_def payload_encodes [OF assms(2)])
  have bytes: "int (length (?text (payload_with q ?d V ?reasons as))) = planned_size E q ?d ?reasons V"
    if "mset as = image_mset (\<lambda>k. group_aggregate E ?reasons (group_at E ?reasons (rest_of q V) k)) (mset_set (keys_of E q ?reasons V))" for V as
    using payload_size [OF that, of ?d] by (simp add: encoded_size_def)
  let ?p = "payload_with q ?d ?recent ?reasons as"
  have mandatory: "batch_payload_of E q ?d ?recent ?reasons = Inr ?p" "map ve_event (bp_verbatim_events ?p) = recent_events q c"
    "mset (represented_sequences ?p) = mset (map ev_sequence (bq_events q))"
    "canonical_json (be_float E) (batch_payload_json E ?p) = Some (?text ?p)"
    using p(1) represented_once(1) [OF q(1) p(2)] payload_encodes [OF assms(2)] chosen_recent [OF q(1)]
    by (simp_all add: payload_with_def verbatim_of_def comp_def)
  show ?thesis
  proof (cases "size_fits (measure_text (?text ?p)) c")
    case False
    then have "build_batch E request config = Inr (overflow_result (measure_text (?text ?p)))"
      unfolding build_rebuilds [OF assms(1)] rebuilding_batch_def q(2) c(1,2) bind_result_simps Let_def p(1) measured
      by simp
    with False mandatory show ?thesis
      by (intro exI [of _ "overflow_result (measure_text (?text ?p))"] exI [of _ ?p] exI [of _ "?text ?p"])
        (simp add: overflow_result_def size_fits_budget [OF c(3)])
  next
    case fits: True
    obtain V used where loop: "fold_result (rebuild_candidate E c q ?d ?reasons) (priority_candidates q ?recent ?reasons)
        (?recent, initial_used ?reasons ?recent) = Inr (V, used)"
      by (rule rebuild_loop_total [OF assms(1,2) q(1) r d])
    note quotas = rebuild_loop_quotas [OF assms(1) q(1) r d loop]
    obtain bs where p': "batch_payload_of E q ?d V ?reasons = Inr (payload_with q ?d V ?reasons bs)" "mset bs =
        image_mset (\<lambda>k. group_aggregate E ?reasons (group_at E ?reasons (rest_of q V) k)) (mset_set (keys_of E q ?reasons V))"
      using built by blast
    let ?p' = "payload_with q ?d V ?reasons bs"
    have "int (length (?text ?p')) \<le> byte_budget c"
      using fits rebuild_loop_fits [OF assms(1) q(1) r d loop] bytes [OF p(2)] bytes [OF p'(2)] by (simp add: size_fits_budget [OF c(3)])
    moreover obtain r m where "ready_result E ?p' (measure_text (?text ?p')) = Inr r" "bl_status r = Batch_READY"
      "bl_manifest r = Some m" "mn_payload m = ?p'" "canonical_payload E m = Inr (?text ?p')"
      by (rule ready_succeeds [OF assms(1,2)])
    moreover have "set (recent_events q c) \<subseteq> ve_event ` set (bp_verbatim_events ?p')"
    proof
      fix x
      assume x: "x \<in> set (recent_events q c)"
      then have "x \<in> set (bq_events q)" unfolding recent_events_def by (rule in_set_dropD)
      moreover have "ev_event_id x \<in> set V" using x quotas by auto
      ultimately have "verbatim_of ?reasons x \<in> set (bp_verbatim_events ?p')" by (simp add: payload_with_def)
      then show "x \<in> ve_event ` set (bp_verbatim_events ?p')" by (force simp: verbatim_of_def)
    qed
    moreover have "kind_count k ?p' \<le> max (priority_limit c k) (initial_used ?reasons ?recent k)" for k
      using kind_count_le [OF q(1)] quotas order_trans by blast
    moreover have "build_batch E request config = ready_result E ?p' (measure_text (?text ?p'))"
      using fits unfolding build_rebuilds [OF assms(1)] rebuilding_batch_def q(2) c(1,2) bind_result_simps Let_def p(1) measured
      by (simp add: loop p'(1) measured)
    moreover have "int (length (?text ?p)) \<le> byte_budget c" using fits by (simp add: size_fits_budget [OF c(3)])
    ultimately show ?thesis using represented_once [OF q(1) p'(2), of ?d] mandatory
      by (intro exI [of _ r] exI [of _ ?p] exI [of _ "?text ?p"]) simp
  qed
qed

theorem batches_hold_the_slice_witness:
  "\<exists>r mandatory needed. build_batch sample_batch_env sample_batch_request sample_batch_config = Inr r \<and>
    batch_payload_of sample_batch_env sample_batch_request
      (batch_digest_of sample_batch_env ''saliencegate:batch:configuration:v1'' (batch_config_json sample_batch_config))
      (map ev_event_id (recent_events sample_batch_request sample_batch_config))
      (priority_reasons sample_batch_request) = Inr mandatory \<and>
    map ve_event (bp_verbatim_events mandatory) = recent_events sample_batch_request sample_batch_config \<and>
    mset (represented_sequences mandatory) = mset (map ev_sequence (bq_events sample_batch_request)) \<and>
    canonical_json (be_float sample_batch_env) (batch_payload_json sample_batch_env mandatory) = Some needed \<and>
    (case bl_manifest r of
       None \<Rightarrow> bl_status r = Batch_MANDATORY_INPUT_OVERFLOW \<and> byte_budget sample_batch_config < int (length needed) \<and>
         bl_required_size r = measure_text needed
     | Some m \<Rightarrow> bl_status r = Batch_READY \<and> int (length needed) \<le> byte_budget sample_batch_config \<and>
         (\<exists>text. canonical_payload sample_batch_env m = Inr text \<and> int (length text) \<le> byte_budget sample_batch_config) \<and>
         mset (represented_sequences (mn_payload m)) = mset (map ev_sequence (bq_events sample_batch_request)) \<and>
         mset (represented_ids (mn_payload m)) = mset (map ev_event_id (bq_events sample_batch_request)) \<and>
         set (recent_events sample_batch_request sample_batch_config) \<subseteq> ve_event ` set (bp_verbatim_events (mn_payload m)) \<and>
         (\<forall>k. kind_count k (mn_payload m) \<le> max (priority_limit sample_batch_config k)
            (initial_used (priority_reasons sample_batch_request)
              (map ev_event_id (recent_events sample_batch_request sample_batch_config)) k)))"
  by (rule batches_hold_the_slice [OF sample_batch_inputs(1) _ sample_batch_inputs(2,3)])
    (simp add: finite_dumps_def sample_batch_env_def)

end
