(* ===== verification/Spec2Isabelle.thy ===== *)
theory Spec2Isabelle
  imports Prelude Enums Json Digests Budget Serde Records Claims Rendering Grounding Ports Projector
    Ledger_Invariants Event_Invariants Cycle_Invariants Budget_Ledger Delivery_Invariants
    Outbox_Invariants Memory_Invariants Reminder_Invariants Sample_Run Ledger_Properties
    Commands Integrity Redaction Repository Repository_Append Repository_Batch Repository_Cycles
    Repository_Deliveries Repository_Replay Repository_Invariants Repository_Vault Repository_Operations Repository_Facts
    Repository_Retries Repository_Recovery Ledger_Authenticity Memory_Search Sample_Repository Repository_Properties
    Trajectory Trajectory_Schedule Trajectory_Window Trajectory_Facts Trajectory_Sample Trajectory_Properties
    Policy Trigger Trigger_Facts Policy_Properties
    Coordinator Cycle_Anchors Coordinator_Facts Cycle_Progress Coordinator_Progress Budget_Refinement Coordinator_Commands Coordinator_Sequences Coordinator_Properties
    Adapters Delivery_Worker Delivery_Facts Delivery_Progress Worker_Logic Worker_Safety Worker_Properties Framing Worker_Progress Sample_Delivery
    Batching Batch_Planner Batch_Sizes Batch_Facts Batch_States Batch_Exactness Batch_Properties
begin

text \<open>
  SalienceGate: the event-sourced runtime (\<open>src/src/saliencegate/\<close>).

  The program watches the trace of a coding agent and decides when to interrupt it with a reminder. A run
  is an append-only ledger of authenticated entries: trace events, invocation decisions, the revisions of
  decision cycles and of deliveries. Everything else is derived: a \<^emph>\<open>projector\<close> folds the entries into the
  state of the run (events, memories, cycles, deliveries, budget). A \<^emph>\<open>repository\<close> stores runs under a hash
  chain and executes commands on them; each command is idempotent and is recorded as the next revision. A
  \<^emph>\<open>policy\<close> decides whether to invoke a model; the \<^emph>\<open>coordinator\<close> takes the cycle of an invocation from
  pending over reserved and running to committed or failed; the \<^emph>\<open>batcher\<close> packs the unprocessed events for
  the model; the \<^emph>\<open>grounding pipeline\<close> turns what the model proposes into a reminder that only quotes the run, or
  into silence; the projector verifies this again when the cycle is committed. The committed reminder becomes
  a pending delivery, which the \<^emph>\<open>delivery worker\<close> claims, records as attempted and hands to the \<^emph>\<open>adapter\<close> of
  the harness. \<^emph>\<open>Attested trajectories\<close> are prefixes of a ledger that a caller can verify; a fixed-step schedule
  and a message window are projected from them.

  \<^bold>\<open>Which theory models which file\<close> (paths under \<open>src/src/saliencegate/\<close>; definitions have the names of the
  code, and fields of records a short prefix of their class)

  \<^item> \<open>domain/\<close>: \<open>Enums\<close> (\<open>enums.py\<close>, each StrEnum a datatype), \<open>Digests\<close> (\<open>ids.py\<close>: length-prefixed framing, cycle
    and delivery identities), \<open>Json\<close> and \<open>Records\<close> (\<open>records.py\<close>: each pydantic model a record with a \<open>valid_\<close>
    predicate, its field bounds and validators), \<open>Serde\<close> (\<open>serde.py\<close>: canonical JSON).
  \<^item> \<open>runtime/budget.py\<close>: \<open>Budget\<close> (all operations of \<open>BudgetGovernor\<close>).
  \<^item> \<open>intervention/\<close>: \<open>Claims\<close> (\<open>claims.py\<close>), \<open>Rendering\<close> (\<open>rendering.py\<close>, \<open>runtime/token_counting.py\<close>),
    \<open>Grounding\<close> (\<open>grounding.py\<close>: \<open>ground\<close>, \<open>replay_receipt\<close>, \<open>verify_grounded_intervention\<close>).
  \<^item> \<open>ports/repository.py\<close>: \<open>Ports\<close> (errors, entries, heads) and \<open>Commands\<close> (commands and receipts).
  \<^item> \<open>repository/projector.py\<close>: \<open>Projector\<close> (\<open>apply_entry\<close> and everything it calls); its digests, snapshots and
    search are in \<open>Repository_Replay\<close>.
  \<^item> \<open>repository/integrity.py\<close>, \<open>security/\<close>: \<open>Integrity\<close> (entry, chain and head tags), \<open>Redaction\<close>.
  \<^item> \<open>repository/memory.py\<close>: \<open>Repository\<close> (slots, leases, staging and publishing an entry), \<open>Repository_Append\<close>
    (events, records), \<open>Repository_Batch\<close> (conditional batches), \<open>Repository_Cycles\<close>, \<open>Repository_Deliveries\<close> (the
    commands and recoveries), \<open>Repository_Replay\<close> (replay, restore, rebuild, reads). The state is a \<open>vault\<close>: the
    slots by run, and the trusted heads and projections; a slot is the ledger, the projection and the receipt caches.
  \<^item> \<open>ports/trajectory.py\<close>, \<open>runtime/scheduling.py\<close>, \<open>runtime/message_window.py\<close>: \<open>Trajectory\<close>,
    \<open>Trajectory_Schedule\<close>, \<open>Trajectory_Window\<close>.
  \<^item> \<open>policy/config.py\<close>, \<open>policy/trigger.py\<close>: \<open>Policy\<close>, \<open>Trigger\<close>.
  \<^item> \<open>runtime/cycles.py\<close>: \<open>Coordinator\<close> (the command factory and the coordinator).
  \<^item> \<open>runtime/batching.py\<close>: \<open>Batching\<close> (requests, payloads, manifests) and \<open>Batch_Planner\<close> (the incremental size
    planner and \<open>build\<close>).
  \<^item> \<open>ports/adapters.py\<close>, \<open>runtime/delivery.py\<close>: \<open>Adapters\<close>, \<open>Delivery_Worker\<close> (\<open>deliver\<close>, \<open>recover\<close>; every
    \<open>await\<close> is a point where other operations run and where the worker may be cancelled).

  \<^bold>\<open>What is shown, and where\<close>

  \<^item> The projector (\<open>Ledger_Invariants\<close>, \<open>Event_\<close>, \<open>Cycle_\<close>, \<open>Delivery_\<close>, \<open>Memory_\<close>, \<open>Outbox_\<close>,
    \<open>Reminder_Invariants\<close>, \<open>Budget_Ledger\<close>): invariants of \<open>reachable\<close>, the projections that any sequence of
    accepted entries can build, by rule induction. \<open>Ledger_Properties\<close> reads them off: committed reminders quote
    the run, one active cycle, each event consumed once, legal histories, budgets never overdrawn, deliveries
    authorized, tokens fresh, at most one attempt without deduplication.
  \<^item> The repository (\<open>Repository_Operations\<close>, \<open>Repository_Invariants\<close>, \<open>Repository_Vault\<close>, \<open>Repository_Facts\<close>,
    \<open>Repository_Retries\<close>, \<open>Repository_Recovery\<close>, \<open>Ledger_Authenticity\<close>, \<open>Memory_Search\<close>): \<open>vault_ok\<close> says that
    replaying every stored ledger gives the stored projection, tags, head and caches; all operations keep it and
    only extend ledgers (the locale \<open>durable_store\<close>). \<open>Repository_Properties\<close>: refinement of the event log, idempotent
    commands, append-only reads, recovery, export and restore, rebuild, search, and what the head fixes.
  \<^item> Grounding and rendering (\<open>Grounding\<close>, \<open>Rendering\<close>): what is verified is backed, what the pipeline makes is
    accepted by the independent verifier, evidence cannot leave its line.
  \<^item> The coordinator (\<open>Cycle_Anchors\<close>, \<open>Coordinator_Facts\<close>, \<open>Cycle_Progress\<close>, \<open>Coordinator_Progress\<close>,
    \<open>Coordinator_Commands\<close>, \<open>Coordinator_Sequences\<close>, \<open>Coordinator_Properties\<close>, \<open>Budget_Refinement\<close>): its predicted
    revisions are what the repository records, cycles only move forward under any calls, which cycles can be given
    up, the one way to a raw validation error, and that the derived budget moves as the governor does.
  \<^item> The batcher (\<open>Batch_Sizes\<close>, \<open>Batch_States\<close>, \<open>Batch_Facts\<close>, \<open>Batch_Exactness\<close>, \<open>Batch_Properties\<close>): the planner
    is exact, and the payload represents the slice within its limits.
  \<^item> The worker (\<open>Delivery_Facts\<close>, \<open>Worker_Logic\<close>, \<open>Worker_Safety\<close>, \<open>Worker_Properties\<close>, \<open>Delivery_Progress\<close>,
    \<open>Framing\<close>, \<open>Worker_Progress\<close>): an envelope follows a recorded attempt under every interleaving and cancellation
    (the locale \<open>task_logic\<close> is the program logic for this), plain deliveries are handed over once, results are on
    record, and an undisturbed pending delivery is delivered.
  \<^item> Policies (\<open>Trigger_Facts\<close> with the locale \<open>trigger_policy\<close>, \<open>Policy_Properties\<close>) and trajectories
    (\<open>Trajectory_Facts\<close>, \<open>Trajectory_Properties\<close>).
  \<^item> \<open>Sample_Run\<close>, \<open>Sample_Repository\<close>, \<open>Sample_Delivery\<close> and \<open>Trajectory_Sample\<close> are the concrete runs of the witnesses.

  \<^bold>\<open>Conventions and parameters\<close>

  Strings are their UTF-8 bytes (\<open>code_points\<close> counts characters); Python integers are \<open>int\<close>, with the bounds the
  code checks (sequences and amounts up to \<open>2 ^ 63 - 1\<close>, the byte, node and depth bounds of payloads and
  configurations) written out; finite floats are rationals; instants are microseconds; UUIDs are numbers with their
  version bits tested; dictionaries are association lists in insertion order. A pydantic model that is built
  or revalidated is a record tested by its \<open>valid_\<close> predicate. An exception is the \<open>Inl\<close> of a sum. All recursion is structural
  or has a termination proof; there is no fuel and no partial definition.

  Arguments of the model, since they are not code of the repository or come from its host: the hash and the keyed
  hash of \<open>hashlib\<close> and \<open>hmac\<close> and the key, the text of a float, the JSON dump of records that are only
  embedded, the secret patterns and entropy test of the redactor, Unicode case folding and the word scanner of the
  search, random identifiers, the policy inside a budgeted policy, and for the worker what its adapter declares
  and answers, what the identifier factory returns, what other tasks do and where it is cancelled. Theorems that
  need a documented property of one of them (the hash has 64 hex digits, a dump is finite, distinct floats have
  distinct texts) assume it by name, and have a witness.

  Operations of the repository that raise leave it as it was. In the code this holds since a slot is changed only
  after all that can raise; the definitions \<open>on_slot\<close> and \<open>on_append_slot\<close> say it by construction, so it is
  part of the model here and not a theorem.

  \<^bold>\<open>Not modelled\<close>

  The SQLite repository (a database engine), the engine and the fixed-step runtime (drivers of the parts above
  over callbacks of the host and two-phase model calls), the signal detectors (regular expressions and Unicode over
  free text), the parsing of model answers and the materialization of memories (the projector checks the deltas
  they make), models and prompts, capture, integrations, files and keys (I/O of the operating system), shadow analysis, experiments,
  artifacts, benchmarks and the command line. Of the in-memory repository, the preview of a memory delta for
  callers and the cancellation of an append that waits for its lock are left out.
\<close>

end
